(* ===== verification/Prelude.thy ===== *)
theory Prelude
  imports Main "HOL-Library.Word"
begin

unbundle bit_operations_syntax

text \<open>
  Shared vocabulary of the development: the machine types of the daemon's C++
  code, faults as values, the checked memory read every pointer dereference of
  the model goes through, and the generic lemmas on results, lists and words
  the component theories use.

  A C++ pointer into a buffer is modelled by the list of the bytes readable
  from it to the end of its allocation, so that advancing a pointer is
  \<open>drop\<close>, and reading past the allocation is the fault \<open>OutOfBounds\<close> instead
  of an unspecified value.
\<close>

section \<open>Machine types\<close>

type_synonym u8 = "8 word"
type_synonym u16 = "16 word"
type_synonym u32 = "32 word"
type_synonym u64 = "64 word"
type_synonym bytes = "8 word list"

section \<open>Faults and results\<close>

text \<open>
  What the compiled program does wrong instead of returning: undefined
  behaviour of C++ that a hostile or damaged packet can reach, plus the two
  ways in which the model itself stops (\<open>OutOfFuel\<close>, \<open>ReentrantFragment\<close>,
  explained where they are produced).
\<close>

datatype fault =
    OutOfBounds
  | HeapOverflow
  | UseAfterFree
  | BadCast
  | DivideByZero
  | BadShift
  | ReentrantFragment
  | OutOfFuel

type_synonym 'a res = "fault + 'a"

fun rbind :: "'a res \<Rightarrow> ('a \<Rightarrow> 'b res) \<Rightarrow> 'b res" where
  "rbind (Inl e) f = Inl e"
| "rbind (Inr x) f = f x"

definition rguard :: "bool \<Rightarrow> fault \<Rightarrow> unit res" where
  "rguard b e = (if b then Inr () else Inl e)"

named_theorems result_simps \<open>rewriting of results and checked reads\<close>

lemma rbind_eq_Inr [result_simps]:
  "(rbind r k = Inr out) = (\<exists>v. k v = Inr out \<and> r = Inr v)"
  by (cases r) auto

lemma rbind_eq_Inl [result_simps]:
  "(rbind r k = Inl err) = (r = Inl err \<or> (\<exists>v. k v = Inl err \<and> r = Inr v))"
  by (cases r) auto

lemma rguard_eq_Inr [result_simps]: "rguard b e = Inr u \<longleftrightarrow> b"
  by (simp add: rguard_def)

lemma rguard_eq_Inl [result_simps]: "rguard b e = Inl f \<longleftrightarrow> \<not> b \<and> f = e"
  by (auto simp: rguard_def)

lemma rguard_simps [simp]: "rguard True e = Inr ()" "rguard False e = Inl e"
  by (simp_all add: rguard_def)

lemma rbind_assoc: "rbind (rbind m f) g = rbind m (\<lambda>x. rbind (f x) g)"
  by (cases m) auto

lemma rbind_cong: "m = m' \<Longrightarrow> (\<And>x. m' = Inr x \<Longrightarrow> f x = g x) \<Longrightarrow> rbind m f = rbind m' g"
  by (cases m') auto

section \<open>Checked reads\<close>

definition rd :: "bytes \<Rightarrow> nat \<Rightarrow> u8 res" where
  "rd p i = (if i < length p then Inr (p ! i) else Inl OutOfBounds)"

lemma rd_eq_Inr [result_simps]: "rd p i = Inr b \<longleftrightarrow> i < length p \<and> p ! i = b"
  by (auto simp: rd_def)

lemma rd_eq_Inl [result_simps]: "rd p i = Inl e \<longleftrightarrow> length p \<le> i \<and> e = OutOfBounds"
  by (auto simp: rd_def)

lemma rd_Cons_0 [simp]: "rd (b # p) 0 = Inr b"
  by (simp add: rd_def)

lemma rd_Cons_Suc [simp]: "rd (b # p) (Suc i) = rd p i"
  by (simp add: rd_def)

lemma rd_Cons_numeral [simp]: "rd (b # p) (numeral n) = rd p (numeral n - 1)"
  by (simp add: rd_def nth_Cons')

lemma rd_Cons_One [simp]: "rd (b # p) 1 = rd p 0"
  by (simp add: rd_def)

lemma rd_append1: "i < length p \<Longrightarrow> rd (p @ q) i = rd p i"
  by (simp add: rd_def nth_append)

lemma rd_Nil [simp]: "rd [] i = Inl OutOfBounds"
  by (simp add: rd_def)

text \<open>A bounded copy out of memory, as \<open>memcpy\<close> performs it.\<close>

definition rd_bytes :: "bytes \<Rightarrow> nat \<Rightarrow> bytes res" where
  "rd_bytes p n = (if n \<le> length p then Inr (take n p) else Inl OutOfBounds)"

lemma rd_bytes_eq_Inr [result_simps]:
  "rd_bytes p n = Inr q \<longleftrightarrow> n \<le> length p \<and> q = take n p"
  by (auto simp: rd_bytes_def)

lemma rd_bytes_eq_Inl [result_simps]:
  "rd_bytes p n = Inl e \<longleftrightarrow> length p < n \<and> e = OutOfBounds"
  by (auto simp: rd_bytes_def)

section \<open>Lists\<close>

text \<open>
  A list of components and one step that rewrites every element that satisfies a
  test: the shape of the C++ \<open>for (auto& b : m_boxes) if (\<dots>) b->x = \<dots>\<close> loops.
\<close>

definition update_where :: "('a \<Rightarrow> bool) \<Rightarrow> ('a \<Rightarrow> 'a) \<Rightarrow> 'a list \<Rightarrow> 'a list" where
  "update_where P f xs = map (\<lambda>x. if P x then f x else x) xs"

lemma length_update_where [simp]: "length (update_where P f xs) = length xs"
  by (simp add: update_where_def)

lemma update_where_Nil [simp]: "update_where P f [] = []"
  by (simp add: update_where_def)

lemma update_where_Cons [simp]:
  "update_where P f (x # xs) = (if P x then f x else x) # update_where P f xs"
  by (simp add: update_where_def)

lemma map_update_where:
  "(\<And>x. g (f x) = g x) \<Longrightarrow> map g (update_where P f xs) = map g xs"
  by (simp add: update_where_def)

lemma set_update_where:
  "y \<in> set (update_where P f xs) \<longleftrightarrow> (\<exists>x\<in>set xs. y = (if P x then f x else x))"
  by (auto simp: update_where_def)

lemma find_Some_set: "find P xs = Some x \<Longrightarrow> x \<in> set xs \<and> P x"
  by (auto simp: find_Some_iff)

lemma find_append: "find P (xs @ ys) = (case find P xs of None \<Rightarrow> find P ys | Some x \<Rightarrow> Some x)"
  by (induction xs) auto

lemma take_take_append: "take (length d) (take n (d @ t)) = take n d"
  by (cases "n \<le> length d") (auto simp: min_def)

section \<open>Words\<close>

lemma xor_cancel_left [simp]:
  fixes a b c :: "'a::len word"
  shows "a XOR b = a XOR c \<longleftrightarrow> b = c"
proof
  assume "a XOR b = a XOR c"
  then have "a XOR (a XOR b) = a XOR (a XOR c)" by (rule arg_cong)
  then show "b = c" by (simp flip: xor.assoc)
qed simp

lemma xor_cancel_right [simp]:
  fixes a b c :: "'a::len word"
  shows "b XOR a = c XOR a \<longleftrightarrow> b = c"
  by (simp add: xor.commute [of _ a])

lemma u8_lt: "unat (b :: u8) < 256"
  using unsigned_less [of b, where ?'a = nat] by simp

lemma u16_lt: "unat (b :: u16) < 65536"
  using unsigned_less [of b, where ?'a = nat] by simp

lemma u32_lt: "unat (b :: u32) < 4294967296"
  using unsigned_less [of b, where ?'a = nat] by simp

lemma u64_lt: "unat (b :: u64) < 18446744073709551616"
  using unsigned_less [of b, where ?'a = nat] by simp

text \<open>Widening a byte or a port keeps its value.\<close>

lemma unat_ucast_widen:
  fixes w :: "'a::len word"
  assumes "LENGTH('a) \<le> LENGTH('b::len)"
  shows "unat (ucast w :: 'b word) = unat w"
proof -
  have "unat w < 2 ^ LENGTH('a)" by simp
  also have "(2::nat) ^ LENGTH('a) \<le> 2 ^ LENGTH('b)"
    using assms by (simp add: power_increasing)
  finally show ?thesis by (simp add: unsigned_ucast_eq take_bit_nat_eq_self)
qed

lemma unat_u8_u16 [simp]: "unat (ucast (b :: u8) :: u16) = unat b"
  by (rule unat_ucast_widen) simp

lemma unat_u8_u32 [simp]: "unat (ucast (b :: u8) :: u32) = unat b"
  by (rule unat_ucast_widen) simp

lemma unat_u16_u32 [simp]: "unat (ucast (b :: u16) :: u32) = unat b"
  by (rule unat_ucast_widen) simp

lemma unat_u32_u64 [simp]: "unat (ucast (b :: u32) :: u64) = unat b"
  by (rule unat_ucast_widen) simp

section \<open>Machines that keep an invariant\<close>

text \<open>A sequence of operations, stopped by the first fault.\<close>

fun run_ops :: "('op \<Rightarrow> 's \<Rightarrow> 's res) \<Rightarrow> 'op list \<Rightarrow> 's \<Rightarrow> 's res" where
  "run_ops step [] s = Inr s"
| "run_ops step (x # xs) s = rbind (step x s) (run_ops step xs)"

lemma run_ops_append:
  "run_ops step (xs @ ys) s = rbind (run_ops step xs s) (run_ops step ys)"
proof (induction xs arbitrary: s)
  case (Cons x xs)
  then show ?case by (cases "step x s") simp_all
qed simp

text \<open>
  The contract a component with internal state gives its callers: every operation that
  returns keeps the invariant. What holds for one step holds for every run.
\<close>

locale invariant_machine =
  fixes step :: "'op \<Rightarrow> 's \<Rightarrow> 's res" and inv :: "'s \<Rightarrow> bool"
  assumes step_keeps: "inv s \<Longrightarrow> step x s = Inr s' \<Longrightarrow> inv s'"
begin

lemma run_keeps: "inv s \<Longrightarrow> run_ops step xs s = Inr s' \<Longrightarrow> inv s'"
proof (induction xs arbitrary: s)
  case (Cons x xs)
  then obtain t where "step x s = Inr t" "run_ops step xs t = Inr s'"
    by (auto simp: result_simps)
  with Cons show ?case using step_keeps by blast
qed simp

lemma run_prefix:
  assumes "inv s" "run_ops step (xs @ ys) s = Inr s'"
  shows "\<exists>t. run_ops step xs s = Inr t \<and> inv t"
  using assms run_keeps by (auto simp: run_ops_append result_simps)

end

text \<open>A machine whose operations never fault as long as each meets its precondition.\<close>

locale total_machine = invariant_machine +
  fixes pre :: "'a \<Rightarrow> 'b \<Rightarrow> bool"
  assumes step_returns: "inv s \<Longrightarrow> pre x s \<Longrightarrow> \<exists>s'. step x s = Inr s'"
begin

lemma run_returns:
  assumes "inv s" "\<And>x s. x \<in> set xs \<Longrightarrow> inv s \<Longrightarrow> pre x s"
  shows "\<exists>s'. run_ops step xs s = Inr s' \<and> inv s'"
  using assms
proof (induction xs arbitrary: s)
  case (Cons x xs)
  then obtain t where t: "step x s = Inr t" using step_returns by fastforce
  then have "inv t" using Cons.prems(1) step_keeps by blast
  then show ?case using Cons t by simp
qed simp

end

end
