(* ===== verification/PacketCommon.thy ===== *)
theory PacketCommon
  imports Prelude
begin

text \<open>
  \<open>src/packetcommon.h\<close>: the well-known ports, the stream and direction
  enumerations, and the byte-order readers every decoder of the daemon uses.
  The readers are the little-endian-host ones (\<open>__BYTE_ORDER == __LITTLE_ENDIAN\<close>).
\<close>

section \<open>Enumerations and constants\<close>

datatype stream_id =
    unknown_stream
  | client2world
  | world2client
  | client2zone
  | zone2client

definition DIR_Client :: u8 where "DIR_Client = 0x01"
definition DIR_Server :: u8 where "DIR_Server = 0x02"

lemma DIR_distinct [simp]: "DIR_Client \<noteq> DIR_Server" "DIR_Server \<noteq> DIR_Client"
  by (simp_all add: DIR_Client_def DIR_Server_def)

definition WorldServerGeneralMinPort :: u16 where "WorldServerGeneralMinPort = 9000"
definition WorldServerGeneralMaxPort :: u16 where "WorldServerGeneralMaxPort = 9020"
definition WorldServerChatPort :: u16 where "WorldServerChatPort = 9876"
definition WorldServerChat2Port :: u16 where "WorldServerChat2Port = 9875"
definition WorldServerUCSPort :: u16 where "WorldServerUCSPort = 9877"
definition LoginServerMinPort :: u16 where "LoginServerMinPort = 15900"
definition LoginServerMaxPort :: u16 where "LoginServerMaxPort = 15910"
definition ChatServerPort :: u16 where "ChatServerPort = 5998"

lemmas port_defs =
  WorldServerGeneralMinPort_def WorldServerGeneralMaxPort_def WorldServerChatPort_def
  WorldServerChat2Port_def WorldServerUCSPort_def LoginServerMinPort_def
  LoginServerMaxPort_def ChatServerPort_def

section \<open>Byte order\<close>

text \<open>The shift-and-or expressions of the readers, on bytes already fetched.\<close>

definition be16 :: "u8 \<Rightarrow> u8 \<Rightarrow> u16" where
  "be16 a b = push_bit 8 (ucast a) OR ucast b"

definition be32 :: "u8 \<Rightarrow> u8 \<Rightarrow> u8 \<Rightarrow> u8 \<Rightarrow> u32" where
  "be32 a b c d =
     push_bit 24 (ucast a) OR push_bit 16 (ucast b) OR push_bit 8 (ucast c) OR ucast d"

definition eqntohuint16 :: "bytes \<Rightarrow> u16 res" where
  "eqntohuint16 p = rbind (rd p 0) (\<lambda>a. rbind (rd p 1) (\<lambda>b. Inr (be16 a b)))"

definition eqntohint16 :: "bytes \<Rightarrow> int res" where
  "eqntohint16 p = rbind (rd p 0) (\<lambda>a. rbind (rd p 1) (\<lambda>b. Inr (sint (be16 a b))))"

definition eqntohuint32 :: "bytes \<Rightarrow> u32 res" where
  "eqntohuint32 p =
     rbind (rd p 0) (\<lambda>a. rbind (rd p 1) (\<lambda>b. rbind (rd p 2) (\<lambda>c. rbind (rd p 3) (\<lambda>d.
       Inr (be32 a b c d)))))"

definition eqntohint32 :: "bytes \<Rightarrow> int res" where
  "eqntohint32 p =
     rbind (rd p 0) (\<lambda>a. rbind (rd p 1) (\<lambda>b. rbind (rd p 2) (\<lambda>c. rbind (rd p 3) (\<lambda>d.
       Inr (sint (be32 a b c d))))))"

text \<open>The \<open>*(uint16_t*)data\<close> loads: host order, the low byte first.\<close>

definition eqtohuint16 :: "bytes \<Rightarrow> u16 res" where
  "eqtohuint16 p = rbind (rd p 0) (\<lambda>a. rbind (rd p 1) (\<lambda>b. Inr (be16 b a)))"

definition eqtohint16 :: "bytes \<Rightarrow> int res" where
  "eqtohint16 p = rbind (rd p 0) (\<lambda>a. rbind (rd p 1) (\<lambda>b. Inr (sint (be16 b a))))"

definition eqtohuint32 :: "bytes \<Rightarrow> u32 res" where
  "eqtohuint32 p =
     rbind (rd p 0) (\<lambda>a. rbind (rd p 1) (\<lambda>b. rbind (rd p 2) (\<lambda>c. rbind (rd p 3) (\<lambda>d.
       Inr (be32 d c b a)))))"

definition eqtohint32 :: "bytes \<Rightarrow> int res" where
  "eqtohint32 p =
     rbind (rd p 0) (\<lambda>a. rbind (rd p 1) (\<lambda>b. rbind (rd p 2) (\<lambda>c. rbind (rd p 3) (\<lambda>d.
       Inr (sint (be32 d c b a))))))"

lemmas reader_defs =
  eqntohuint16_def eqntohint16_def eqntohuint32_def eqntohint32_def
  eqtohuint16_def eqtohint16_def eqtohuint32_def eqtohint32_def

section \<open>Encoders and round trips\<close>

text \<open>
  The daemon only reads; the encoders below are the specification side: what a
  peer puts on the wire for a value.
\<close>

definition be16_bytes :: "u16 \<Rightarrow> bytes" where
  "be16_bytes w = [ucast (drop_bit 8 w), ucast w]"

definition le16_bytes :: "u16 \<Rightarrow> bytes" where
  "le16_bytes w = [ucast w, ucast (drop_bit 8 w)]"

definition le32_bytes :: "u32 \<Rightarrow> bytes" where
  "le32_bytes w =
     [ucast w, ucast (drop_bit 8 w), ucast (drop_bit 16 w), ucast (drop_bit 24 w)]"

definition be32_bytes :: "u32 \<Rightarrow> bytes" where
  "be32_bytes w =
     [ucast (drop_bit 24 w), ucast (drop_bit 16 w), ucast (drop_bit 8 w), ucast w]"

lemma length_encoders [simp]:
  "length (be16_bytes v) = 2" "length (le16_bytes v) = 2" "length (be32_bytes w) = 4"
  "length (le32_bytes w) = 4"
  by (simp_all add: be16_bytes_def le16_bytes_def be32_bytes_def le32_bytes_def)

lemma be16_split: "be16 (ucast (drop_bit 8 w)) (ucast w) = w"
  by (rule bit_word_eqI) (auto simp: be16_def bit_simps)

lemma be32_split:
  "be32 (ucast (drop_bit 24 w)) (ucast (drop_bit 16 w)) (ucast (drop_bit 8 w)) (ucast w) = w"
proof (rule bit_word_eqI)
  fix n assume "n < LENGTH(32)"
  then consider "n < 8" | "8 \<le> n" "n < 16" | "16 \<le> n" "n < 24" | "24 \<le> n" "n < 32"
    by fastforce
  then show "bit (be32 (ucast (drop_bit 24 w)) (ucast (drop_bit 16 w))
      (ucast (drop_bit 8 w)) (ucast w)) n = bit w n"
    by cases (auto simp: be32_def bit_simps)
qed

lemma be16_inj: "be16 a b = be16 c d \<longleftrightarrow> a = c \<and> b = d"
proof
  assume eq: "be16 a b = be16 c d"
  have hi: "ucast (drop_bit 8 (be16 x y)) = x" for x y :: u8
    by (rule bit_word_eqI) (auto simp: be16_def bit_simps dest: bit_imp_le_length)
  have lo: "ucast (be16 x y) = y" for x y :: u8
    by (rule bit_word_eqI) (auto simp: be16_def bit_simps)
  show "a = c \<and> b = d"
    using arg_cong [OF eq, of "\<lambda>w. ucast (drop_bit 8 w) :: u8"]
      arg_cong [OF eq, of "\<lambda>w. ucast w :: u8"] by (simp add: hi lo)
qed simp

lemma eqntohuint16_encode [simp]: "eqntohuint16 (be16_bytes w @ r) = Inr w"
  by (simp add: eqntohuint16_def be16_bytes_def be16_split)

lemma eqtohuint16_encode [simp]: "eqtohuint16 (le16_bytes w @ r) = Inr w"
  by (simp add: eqtohuint16_def le16_bytes_def be16_split)

lemma eqntohuint32_encode [simp]: "eqntohuint32 (be32_bytes w @ r) = Inr w"
  by (simp add: eqntohuint32_def be32_bytes_def be32_split)

lemma eqtohuint32_encode [simp]: "eqtohuint32 (le32_bytes w @ r) = Inr w"
  by (simp add: eqtohuint32_def le32_bytes_def be32_split)

lemma eqntohuint16_ok: "2 \<le> length p \<Longrightarrow> eqntohuint16 p = Inr (be16 (p ! 0) (p ! 1))"
  by (auto simp: eqntohuint16_def rd_def)

lemma eqtohuint16_ok: "2 \<le> length p \<Longrightarrow> eqtohuint16 p = Inr (be16 (p ! 1) (p ! 0))"
  by (auto simp: eqtohuint16_def rd_def)

lemma eqntohuint32_ok:
  "4 \<le> length p \<Longrightarrow> eqntohuint32 p = Inr (be32 (p ! 0) (p ! 1) (p ! 2) (p ! 3))"
  by (auto simp: eqntohuint32_def rd_def)

lemma eqtohuint32_ok:
  "4 \<le> length p \<Longrightarrow> eqtohuint32 p = Inr (be32 (p ! 3) (p ! 2) (p ! 1) (p ! 0))"
  by (auto simp: eqtohuint32_def rd_def)

lemma eqntohuint16_bounds: "eqntohuint16 p = Inr w \<Longrightarrow> 2 \<le> length p"
  by (auto simp: eqntohuint16_def result_simps)

lemma eqtohuint16_bounds: "eqtohuint16 p = Inr w \<Longrightarrow> 2 \<le> length p"
  by (auto simp: eqtohuint16_def result_simps)

lemma eqntohuint32_bounds: "eqntohuint32 p = Inr w \<Longrightarrow> 4 \<le> length p"
  by (auto simp: eqntohuint32_def result_simps)

text \<open>Two loads of the same two bytes in the two orders agree only on palindromes.\<close>

lemma byte_orders_agree_iff:
  "2 \<le> length p \<Longrightarrow> eqntohuint16 p = eqtohuint16 p \<longleftrightarrow> p ! 0 = p ! 1"
  by (auto simp: eqntohuint16_ok eqtohuint16_ok be16_inj)

end
