(* ===== verification/NetStream.thy ===== *)
theory NetStream
  imports PacketCommon
begin

text \<open>
  \<open>src/netstream.cpp\<close>: the byte reader \<open>NetStream\<close> and the bit reader
  \<open>BitStream\<close> the variable-length decoders walk a payload with. A reader holds
  the memory behind \<open>m_data\<close> (which may extend past the payload), the payload
  length, and the position as an offset from \<open>m_data\<close>; \<open>size_t\<close> arithmetic
  wraps at \<open>2 ^ 64\<close>.
\<close>

section \<open>The byte reader\<close>

record net_stream =
  ns_data :: bytes
  ns_length :: nat
  ns_pos :: nat

definition mkNetStream :: "bytes \<Rightarrow> nat \<Rightarrow> net_stream" where
  "mkNetStream data len = \<lparr>ns_data = data, ns_length = len, ns_pos = 0\<rparr>"

definition ns_reset :: "net_stream \<Rightarrow> net_stream" where
  "ns_reset s = s\<lparr>ns_pos := 0\<rparr>"

definition ns_end :: "net_stream \<Rightarrow> bool" where
  "ns_end s \<longleftrightarrow> ns_length s \<le> ns_pos s"

definition ns_here :: "net_stream \<Rightarrow> bytes" where
  "ns_here s = drop (ns_pos s) (ns_data s)"

text \<open>
  \<open>if ((m_lastPos - m_pos) >= k) { val = \<dots>; m_pos += k; } else val = 0;\<close>, the
  body of every fixed-width reader.
\<close>

definition ns_fixed :: "nat \<Rightarrow> (bytes \<Rightarrow> 'v res) \<Rightarrow> 'v \<Rightarrow> net_stream \<Rightarrow> ('v \<times> net_stream) res" where
  "ns_fixed k conv zero s =
     (if ns_pos s + k \<le> ns_length s
      then rbind (conv (ns_here s)) (\<lambda>v. Inr (v, s\<lparr>ns_pos := ns_pos s + k\<rparr>))
      else Inr (zero, s))"

definition readUInt8 :: "net_stream \<Rightarrow> (u8 \<times> net_stream) res" where
  "readUInt8 = ns_fixed 1 (\<lambda>p. rd p 0) 0"

definition readInt8 :: "net_stream \<Rightarrow> (int \<times> net_stream) res" where
  "readInt8 = ns_fixed 1 (\<lambda>p. rbind (rd p 0) (\<lambda>b. Inr (sint b))) 0"

definition readUInt16 :: "net_stream \<Rightarrow> (u16 \<times> net_stream) res" where
  "readUInt16 = ns_fixed 2 eqntohuint16 0"

definition readInt16 :: "net_stream \<Rightarrow> (int \<times> net_stream) res" where
  "readInt16 = ns_fixed 2 eqntohint16 0"

definition readUInt32 :: "net_stream \<Rightarrow> (u32 \<times> net_stream) res" where
  "readUInt32 = ns_fixed 4 eqntohuint32 0"

definition readInt32 :: "net_stream \<Rightarrow> (int \<times> net_stream) res" where
  "readInt32 = ns_fixed 4 eqntohint32 0"

definition readUInt16NC :: "net_stream \<Rightarrow> (u16 \<times> net_stream) res" where
  "readUInt16NC = ns_fixed 2 eqtohuint16 0"

definition readUInt32NC :: "net_stream \<Rightarrow> (u32 \<times> net_stream) res" where
  "readUInt32NC = ns_fixed 4 eqtohuint32 0"

text \<open>
  The scan of \<open>readText\<close>: \<open>while ((*m_pos != '\0') && (m_pos < m_lastPos)) m_pos++\<close>.
  The byte is fetched before the bound is tested. \<open>n\<close> is \<open>m_lastPos - m_pos\<close>.
\<close>

fun text_scan :: "bytes \<Rightarrow> nat \<Rightarrow> nat res" where
  "text_scan [] n = Inl OutOfBounds"
| "text_scan (b # p) n =
     (if b \<noteq> 0 \<and> 0 < n then rbind (text_scan p (n - 1)) (\<lambda>k. Inr (Suc k)) else Inr 0)"

text \<open>\<open>readText\<close> returns the bytes it hands to \<open>QString::fromUtf8\<close>.\<close>

definition readText :: "net_stream \<Rightarrow> (bytes \<times> net_stream) res" where
  "readText s =
     (if ns_pos s < ns_length s then
        rbind (text_scan (ns_here s) (ns_length s - ns_pos s)) (\<lambda>len.
          let pos = ns_pos s + len;
              pos' = (if pos < ns_length s then pos + 1 else pos)
          in Inr (take len (ns_here s), s\<lparr>ns_pos := pos'\<rparr>))
      else Inr ([], s))"

text \<open>The append loop of \<open>readLPText\<close>: at most \<open>len\<close> bytes, stopping at \<open>m_lastPos\<close>.\<close>

fun lp_loop :: "nat \<Rightarrow> net_stream \<Rightarrow> bytes \<Rightarrow> (bytes \<times> net_stream) res" where
  "lp_loop 0 s r = Inr (r, s)"
| "lp_loop (Suc k) s r =
     (if ns_pos s < ns_length s
      then rbind (rd (ns_here s) 0) (\<lambda>b. lp_loop k (s\<lparr>ns_pos := ns_pos s + 1\<rparr>) (r @ [b]))
      else Inr (r, s))"

definition readLPText :: "net_stream \<Rightarrow> (bytes \<times> net_stream) res" where
  "readLPText s = rbind (readUInt32NC s) (\<lambda>(len, s). lp_loop (unat len) s [])"

definition skipBytes :: "nat \<Rightarrow> net_stream \<Rightarrow> net_stream" where
  "skipBytes n s =
     (if n \<le> (ns_length s - ns_pos s) mod 2 ^ 32 then s\<lparr>ns_pos := ns_pos s + n\<rparr> else s)"

section \<open>The reader contract\<close>

text \<open>The window is readable and the position is inside it or at its end.\<close>

definition ns_wf :: "net_stream \<Rightarrow> bool" where
  "ns_wf s \<longleftrightarrow> ns_length s \<le> length (ns_data s) \<and> ns_pos s \<le> ns_length s"

text \<open>\<open>s'\<close> is a reader over the same window, not behind \<open>s\<close>.\<close>

definition ns_after :: "net_stream \<Rightarrow> net_stream \<Rightarrow> bool" where
  "ns_after s s' \<longleftrightarrow> ns_data s' = ns_data s \<and> ns_length s' = ns_length s \<and> ns_pos s \<le> ns_pos s'"

lemma ns_after_refl [simp]: "ns_after s s"
  by (simp add: ns_after_def)

lemma ns_after_trans [trans]: "ns_after s t \<Longrightarrow> ns_after t u \<Longrightarrow> ns_after s u"
  by (auto simp: ns_after_def)

text \<open>
  What a decoder relies on from a read operation: over a readable window it
  returns, and leaves a readable window no less consumed. \<open>ok\<close> is the extra
  condition under which the operation is safe.
\<close>

locale window_reader =
  fixes op :: "net_stream \<Rightarrow> ('v \<times> net_stream) res"
    and ok :: "net_stream \<Rightarrow> bool"
  assumes returns: "ns_wf s \<Longrightarrow> ok s \<Longrightarrow> \<exists>v s'. op s = Inr (v, s') \<and> ns_wf s' \<and> ns_after s s'"
    and ok_after: "ok s \<Longrightarrow> ns_after s s' \<Longrightarrow> ok s'"
begin

text \<open>A decoder's loop of \<open>n\<close> reads, the values in order.\<close>

fun repeat_read :: "nat \<Rightarrow> net_stream \<Rightarrow> ('v list \<times> net_stream) res" where
  "repeat_read 0 s = Inr ([], s)"
| "repeat_read (Suc n) s =
     rbind (op s) (\<lambda>(v, s). rbind (repeat_read n s) (\<lambda>(vs, s). Inr (v # vs, s)))"

lemma repeat_read_returns:
  "ns_wf s \<Longrightarrow> ok s \<Longrightarrow>
     \<exists>vs s'. repeat_read n s = Inr (vs, s') \<and> length vs = n \<and> ns_wf s' \<and> ns_after s s'"
proof (induction n arbitrary: s)
  case (Suc n)
  obtain v t where t: "op s = Inr (v, t)" "ns_wf t" "ns_after s t"
    using returns [OF Suc.prems] by blast
  then obtain vs u where "repeat_read n t = Inr (vs, u)" "length vs = n" "ns_wf u" "ns_after t u"
    using Suc.IH [of t] ok_after [OF Suc.prems(2)] by blast
  with t show ?case by (auto intro: ns_after_trans)
qed simp

end

lemma ns_fixed_returns:
  assumes "ns_wf s" and "\<And>p. k \<le> length p \<Longrightarrow> \<exists>v. conv p = Inr v"
  shows "\<exists>v s'. ns_fixed k conv zero s = Inr (v, s') \<and> ns_wf s' \<and> ns_after s s'"
proof (cases "ns_pos s + k \<le> ns_length s")
  case True
  then have "k \<le> length (ns_here s)"
    using assms(1) by (simp add: ns_wf_def ns_here_def)
  then obtain v where "conv (ns_here s) = Inr v" using assms(2) by blast
  with True assms(1) show ?thesis
    by (simp add: ns_fixed_def ns_wf_def ns_after_def)
qed (use assms in \<open>simp add: ns_fixed_def\<close>)

lemma rd_0_ok: "1 \<le> length p \<Longrightarrow> \<exists>v. rd p 0 = Inr v"
  by (auto simp: rd_def)

lemmas conv_ok = eqntohuint16_ok eqtohuint16_ok eqntohuint32_ok eqtohuint32_ok

interpretation u8_reader: window_reader readUInt8 "\<lambda>_. True"
  by unfold_locales (auto simp: readUInt8_def intro!: ns_fixed_returns rd_0_ok)

interpretation u16_reader: window_reader readUInt16 "\<lambda>_. True"
  by unfold_locales (auto simp: readUInt16_def conv_ok intro!: ns_fixed_returns)

interpretation u32_reader: window_reader readUInt32 "\<lambda>_. True"
  by unfold_locales (auto simp: readUInt32_def conv_ok intro!: ns_fixed_returns)

interpretation u16nc_reader: window_reader readUInt16NC "\<lambda>_. True"
  by unfold_locales (auto simp: readUInt16NC_def conv_ok intro!: ns_fixed_returns)

interpretation u32nc_reader: window_reader readUInt32NC "\<lambda>_. True"
  by unfold_locales (auto simp: readUInt32NC_def conv_ok intro!: ns_fixed_returns)

lemma sint_conv_ok:
  "1 \<le> length p \<Longrightarrow> \<exists>v. rbind (rd p 0) (\<lambda>b. Inr (sint b)) = Inr v"
  "2 \<le> length p \<Longrightarrow> \<exists>v. eqntohint16 p = Inr v"
  "4 \<le> length p \<Longrightarrow> \<exists>v. eqntohint32 p = Inr v"
  by (auto simp: rd_def eqntohint16_def eqntohint32_def)

interpretation i8_reader: window_reader readInt8 "\<lambda>_. True"
  by unfold_locales (auto simp: readInt8_def intro!: ns_fixed_returns sint_conv_ok)

interpretation i16_reader: window_reader readInt16 "\<lambda>_. True"
  by unfold_locales (auto simp: readInt16_def intro!: ns_fixed_returns sint_conv_ok)

interpretation i32_reader: window_reader readInt32 "\<lambda>_. True"
  by unfold_locales (auto simp: readInt32_def intro!: ns_fixed_returns sint_conv_ok)

subsection \<open>The text readers\<close>

lemma text_scan_value:
  "text_scan p n =
     (if n < length p \<or> 0 \<in> set p then Inr (length (takeWhile (\<lambda>b. b \<noteq> 0) (take n p)))
      else Inl OutOfBounds)"
proof (induction p n rule: text_scan.induct)
  case (2 b p n)
  then show ?case by (cases n) auto
qed simp

definition text_ok :: "net_stream \<Rightarrow> bool" where
  "text_ok s \<longleftrightarrow> ns_length s < length (ns_data s)"

lemma readText_returns:
  assumes "ns_wf s" "text_ok s"
  shows "\<exists>v s'. readText s = Inr (v, s') \<and> ns_wf s' \<and> ns_after s s'"
proof -
  let ?k = "length (takeWhile (\<lambda>b. b \<noteq> 0) (take (ns_length s - ns_pos s) (ns_here s)))"
  have "?k \<le> length (take (ns_length s - ns_pos s) (ns_here s))"
    by (rule length_takeWhile_le)
  then have "?k \<le> ns_length s - ns_pos s" by simp
  with assms show ?thesis
    by (auto simp: readText_def text_scan_value ns_wf_def text_ok_def ns_here_def ns_after_def Let_def)
qed

interpretation text_reader: window_reader readText text_ok
  by unfold_locales (auto simp: text_ok_def ns_after_def dest: readText_returns [unfolded text_ok_def ns_after_def])

lemma lp_loop_returns:
  "ns_wf s \<Longrightarrow> \<exists>v s'. lp_loop n s r = Inr (v, s') \<and> ns_wf s' \<and> ns_after s s'"
proof (induction n arbitrary: s r)
  case (Suc n)
  show ?case
  proof (cases "ns_pos s < ns_length s")
    case True
    let ?s = "s\<lparr>ns_pos := ns_pos s + 1\<rparr>"
    from True Suc.prems have "ns_wf ?s" "ns_after s ?s"
      by (auto simp: ns_wf_def ns_after_def)
    moreover obtain b where "rd (ns_here s) 0 = Inr b"
      using True Suc.prems by (auto simp: ns_wf_def ns_here_def rd_def)
    ultimately show ?thesis
      using True Suc.IH [of ?s "r @ [b]"] by (auto intro: ns_after_trans)
  qed (use Suc.prems in auto)
qed auto

lemma readLPText_returns:
  "ns_wf s \<Longrightarrow> \<exists>v s'. readLPText s = Inr (v, s') \<and> ns_wf s' \<and> ns_after s s'"
  using u32nc_reader.returns [of s] lp_loop_returns
  by (auto simp: readLPText_def) (meson ns_after_trans)

interpretation lp_reader: window_reader readLPText "\<lambda>_. True"
  by unfold_locales (auto dest: readLPText_returns)

lemma skipBytes_window:
  assumes "ns_wf s"
  shows "ns_wf (skipBytes n s) \<and> ns_after s (skipBytes n s)"
proof -
  have "(ns_length s - ns_pos s) mod 2 ^ 32 \<le> ns_length s - ns_pos s" by simp
  with assms show ?thesis
    by (auto simp: skipBytes_def ns_wf_def ns_after_def)
qed

section \<open>Runs of reads\<close>

datatype ns_op =
    RdU8 | RdI8 | RdU16 | RdI16 | RdU32 | RdI32 | RdU16NC | RdU32NC | RdText | RdLPText
  | Skip nat

text \<open>One call on the reader, its value dropped.\<close>

fun ns_exec :: "ns_op \<Rightarrow> net_stream \<Rightarrow> net_stream res" where
  "ns_exec RdU8 s = rbind (readUInt8 s) (\<lambda>(_, s). Inr s)"
| "ns_exec RdI8 s = rbind (readInt8 s) (\<lambda>(_, s). Inr s)"
| "ns_exec RdU16 s = rbind (readUInt16 s) (\<lambda>(_, s). Inr s)"
| "ns_exec RdI16 s = rbind (readInt16 s) (\<lambda>(_, s). Inr s)"
| "ns_exec RdU32 s = rbind (readUInt32 s) (\<lambda>(_, s). Inr s)"
| "ns_exec RdI32 s = rbind (readInt32 s) (\<lambda>(_, s). Inr s)"
| "ns_exec RdU16NC s = rbind (readUInt16NC s) (\<lambda>(_, s). Inr s)"
| "ns_exec RdU32NC s = rbind (readUInt32NC s) (\<lambda>(_, s). Inr s)"
| "ns_exec RdText s = rbind (readText s) (\<lambda>(_, s). Inr s)"
| "ns_exec RdLPText s = rbind (readLPText s) (\<lambda>(_, s). Inr s)"
| "ns_exec (Skip n) s = Inr (skipBytes n s)"

fun ns_run :: "ns_op list \<Rightarrow> net_stream \<Rightarrow> net_stream res" where
  "ns_run [] s = Inr s"
| "ns_run (x # xs) s = rbind (ns_exec x s) (ns_run xs)"

lemmas reader_returns =
  u8_reader.returns i8_reader.returns u16_reader.returns i16_reader.returns
  u32_reader.returns i32_reader.returns u16nc_reader.returns u32nc_reader.returns
  text_reader.returns lp_reader.returns

lemma ns_exec_returns:
  assumes "ns_wf s" "text_ok s"
  shows "\<exists>s'. ns_exec x s = Inr s' \<and> ns_wf s' \<and> ns_after s s'"
proof (cases x)
  case (Skip n)
  then show ?thesis using skipBytes_window [OF assms(1)] by simp
qed (use assms reader_returns [of s] in \<open>fastforce\<close>)+

lemma ns_run_returns:
  "ns_wf s \<Longrightarrow> text_ok s \<Longrightarrow> \<exists>s'. ns_run xs s = Inr s' \<and> ns_wf s' \<and> ns_after s s'"
proof (induction xs arbitrary: s)
  case (Cons x xs)
  obtain t where t: "ns_exec x s = Inr t" "ns_wf t" "ns_after s t"
    using ns_exec_returns [OF Cons.prems] by blast
  moreover have "text_ok t"
    using t(3) Cons.prems(2) by (rule text_reader.ok_after [rotated])
  ultimately show ?case
    using Cons.IH [of t] by (auto intro: ns_after_trans)
qed simp

text \<open>
  Over a payload followed by at least one readable byte, no sequence of reads and
  skips faults, and the position never leaves the payload.
\<close>

theorem net_stream_reads_stay_inside:
  assumes "len < length data"
  shows "\<exists>s'. ns_run xs (mkNetStream data len) = Inr s' \<and> ns_pos s' \<le> len"
proof -
  have "ns_wf (mkNetStream data len)" "text_ok (mkNetStream data len)"
    using assms by (simp_all add: ns_wf_def text_ok_def mkNetStream_def)
  then show ?thesis
    using ns_run_returns [of "mkNetStream data len" xs]
    by (auto simp: ns_wf_def ns_after_def mkNetStream_def)
qed

theorem net_stream_reads_stay_inside_witness:
  "\<exists>s'. ns_run [RdU16, RdText, RdU32, Skip 9] (mkNetStream [1, 2, 65, 66, 67, 0] 5) = Inr s'
     \<and> ns_pos s' \<le> 5"
  using net_stream_reads_stay_inside [of 5 "[1, 2, 65, 66, 67, 0]" "[RdU16, RdText, RdU32, Skip 9]"]
  by simp

text \<open>
  When the payload ends where its allocation ends, \<open>readText\<close> reads out of bounds
  exactly when data is left and none of it is a NUL: the scan fetches \<open>*m_pos\<close> before it
  compares \<open>m_pos\<close> with \<open>m_lastPos\<close>.
\<close>

theorem readText_unterminated_reads_past_end:
  assumes "ns_length s = length (ns_data s)"
  shows "readText s = Inl OutOfBounds \<longleftrightarrow> ns_pos s < ns_length s \<and> 0 \<notin> set (ns_here s)"
  using assms by (auto simp: readText_def text_scan_value ns_here_def Let_def)

theorem readText_unterminated_reads_past_end_witness:
  "readText (mkNetStream [65, 66] 2) = Inl OutOfBounds"
  using readText_unterminated_reads_past_end [of "mkNetStream [65, 66] 2"]
  by (simp add: mkNetStream_def ns_here_def)

end
