(* ===== verification/BitStream.thy ===== *)
theory BitStream
  imports PacketCommon
begin

text \<open>
  The bit reader \<open>BitStream\<close> of \<open>src/netstream.cpp\<close>, which unpacks the
  non-byte-aligned position updates. Proved against the plain reading of the
  payload as one string of bits, most significant bit of each byte first.
\<close>

section \<open>The reader\<close>

record bit_stream =
  bs_data :: bytes
  bs_totalBits :: nat
  bs_currentBit :: nat

definition size_t :: "nat \<Rightarrow> nat" where
  "size_t n = n mod 2 ^ 64"

definition mkBitStream :: "bytes \<Rightarrow> nat \<Rightarrow> bit_stream" where
  "mkBitStream data len =
     \<lparr>bs_data = data, bs_totalBits = size_t (len * 8), bs_currentBit = 0\<rparr>"

definition bs_reset :: "bit_stream \<Rightarrow> bit_stream" where
  "bs_reset s = s\<lparr>bs_currentBit := 0\<rparr>"

definition bs_end :: "bit_stream \<Rightarrow> bool" where
  "bs_end s \<longleftrightarrow> bs_totalBits s \<le> bs_currentBit s"

definition low_bits :: "nat \<Rightarrow> u8 \<Rightarrow> u32" where
  "low_bits k b = ucast b AND (push_bit k 1 - 1)"

text \<open>\<open>for (i = 0; i < middleByteCount; i++) { out = (out << 8) | *currentByte; currentByte++; }\<close>\<close>

fun middle_loop :: "nat \<Rightarrow> bytes \<Rightarrow> u32 \<Rightarrow> (u32 \<times> bytes) res" where
  "middle_loop 0 p out = Inr (out, p)"
| "middle_loop (Suc n) p out =
     rbind (rd p 0) (\<lambda>b. middle_loop n (drop 1 p) (push_bit 8 out OR ucast b))"

definition bs_readUInt :: "nat \<Rightarrow> bit_stream \<Rightarrow> (u32 \<times> bit_stream) res" where
  "bs_readUInt bitCount s =
     (if size_t (bs_currentBit s + bitCount) > bs_totalBits s then Inr (0, s)
      else
        let p = drop (bs_currentBit s div 8) (bs_data s);
            lead = 8 - bs_currentBit s mod 8;
            lead = (if lead = 8 then 0 else lead);
            s' = s\<lparr>bs_currentBit := size_t (bs_currentBit s + bitCount)\<rparr>
        in if lead > bitCount then
             rbind (rd p 0) (\<lambda>b. Inr (drop_bit (lead - bitCount) (low_bits lead b), s'))
           else
             let middle = (bitCount - lead) div 8;
                 tail = bitCount - (lead + middle * 8)
             in rbind (if lead > 0 then rbind (rd p 0) (\<lambda>b. Inr (low_bits lead b, drop 1 p))
                       else Inr (0, p)) (\<lambda>(out, p).
                rbind (middle_loop middle p out) (\<lambda>(out, p).
                rbind (if tail > 0 then
                         rbind (rd p 0) (\<lambda>b.
                           Inr (push_bit tail out OR drop_bit (8 - tail) (ucast b)))
                       else Inr out) (\<lambda>out.
                Inr (out, s')))))"

text \<open>\<open>readInt(0)\<close> asks for \<open>size_t(-1)\<close> bits, hence the wrap of \<open>bitCount - 1\<close>.\<close>

definition bs_readInt :: "nat \<Rightarrow> bit_stream \<Rightarrow> (int \<times> bit_stream) res" where
  "bs_readInt bitCount s =
     rbind (bs_readUInt 1 s) (\<lambda>(sign, s).
     rbind (bs_readUInt (size_t (bitCount + (2 ^ 64 - 1))) s) (\<lambda>(retval, s).
       Inr (sint (retval * (if sign \<noteq> 0 then - 1 else 1)), s)))"

section \<open>The payload as one bit string\<close>

definition byte_bits :: "u8 \<Rightarrow> bool list" where
  "byte_bits b = map (bit b) (rev [0..<8])"

definition bits_of :: "bytes \<Rightarrow> bool list" where
  "bits_of p = concat (map byte_bits p)"

definition bits_val :: "bool list \<Rightarrow> nat" where
  "bits_val xs = foldl (\<lambda>v b. 2 * v + of_bool b) 0 xs"

lemma bits_val_Nil [simp]: "bits_val [] = 0"
  by (simp add: bits_val_def)

lemma bits_val_snoc: "bits_val (xs @ [b]) = 2 * bits_val xs + of_bool b"
  by (simp add: bits_val_def)

lemma bits_val_append: "bits_val (xs @ ys) = bits_val xs * 2 ^ length ys + bits_val ys"
proof (induction ys rule: rev_induct)
  case (snoc y ys)
  then show ?case
    by (simp add: bits_val_snoc flip: append_assoc)
qed simp

lemma bits_val_bound: "bits_val xs < 2 ^ length xs"
  by (induction xs rule: rev_induct) (auto simp: bits_val_snoc)

lemma length_byte_bits [simp]: "length (byte_bits b) = 8"
  by (simp add: byte_bits_def)

lemma bits_val_rev: "bits_val (rev xs) = horner_sum of_bool 2 xs"
  by (induction xs) (simp_all add: bits_val_snoc)

lemma bits_val_byte: "bits_val (byte_bits b) = unat b"
proof -
  have "map (bit b) [0..<8] = map (bit (unat b)) [0..<8]"
    by (simp add: bit_unsigned_iff)
  then have "bits_val (byte_bits b) = take_bit 8 (unat b)"
    by (simp only: byte_bits_def rev_map [symmetric] bits_val_rev horner_sum_bit_eq_take_bit)
  then show ?thesis using u8_lt [of b] by (simp add: take_bit_nat_eq_self)
qed

lemma bits_val_byte_split:
  assumes "k \<le> 8"
  shows "bits_val (take (8 - k) (byte_bits b)) = unat b div 2 ^ k"
    and "bits_val (drop (8 - k) (byte_bits b)) = unat b mod 2 ^ k"
proof -
  let ?A = "take (8 - k) (byte_bits b)" and ?B = "drop (8 - k) (byte_bits b)"
  have len: "length ?B = k" using assms by simp
  have sum: "unat b = bits_val ?A * 2 ^ k + bits_val ?B"
    using bits_val_append [of ?A ?B] by (simp only: append_take_drop_id bits_val_byte len)
  have lt: "bits_val ?B < 2 ^ k" using bits_val_bound [of ?B] by (simp only: len)
  show "bits_val ?A = unat b div 2 ^ k" using lt by (simp add: sum)
  show "bits_val ?B = unat b mod 2 ^ k" using lt by (simp add: sum)
qed

lemma bits_of_Nil [simp]: "bits_of [] = []"
  by (simp add: bits_of_def)

lemma bits_of_Cons [simp]: "bits_of (b # p) = byte_bits b @ bits_of p"
  by (simp add: bits_of_def)

lemma length_bits_of [simp]: "length (bits_of p) = 8 * length p"
  by (induction p) simp_all

lemma drop_bits_of: "drop (8 * i) (bits_of p) = bits_of (drop i p)"
proof (induction i arbitrary: p)
  case (Suc i)
  then show ?case by (cases p) simp_all
qed simp

section \<open>The word operations as arithmetic\<close>

lemma low_bits_nat: "low_bits k b = of_nat (unat b mod 2 ^ k)"
proof -
  have "low_bits k b = take_bit k (ucast b)"
    by (simp add: low_bits_def take_bit_eq_mask mask_eq_exp_minus_1 push_bit_eq_mult)
  then have "unat (low_bits k b) = take_bit k (unat (ucast b :: u32))"
    by (simp only: unsigned_take_bit_eq)
  then have "unat (low_bits k b) = unat b mod 2 ^ k"
    by (simp only: take_bit_eq_mod unat_u8_u32)
  then show ?thesis by (metis of_nat_unat ucast_id)
qed

lemma drop_nat: "drop_bit j (w :: u32) = of_nat (unat w div 2 ^ j)"
proof -
  have "unat (drop_bit j w) = unat w div 2 ^ j"
    by (simp only: unat_drop_bit_eq drop_bit_eq_div [of j "unat w"])
  then show ?thesis by (metis of_nat_unat ucast_id)
qed

lemma push_or_byte: "push_bit 8 out OR ucast (b :: u8) = (out :: u32) * 2 ^ 8 + of_nat (unat b)"
proof -
  have "push_bit 8 out AND ucast b = 0"
    by (rule bit_word_eqI) (auto simp: bit_simps dest: bit_imp_le_length)
  then have "push_bit 8 out OR ucast b = push_bit 8 out + ucast b"
    by (rule disjunctive_add_eq_or [symmetric])
  then show ?thesis by (simp add: push_bit_eq_mult)
qed

lemma push_or_tail:
  assumes "t \<le> 8"
  shows "push_bit t out OR drop_bit (8 - t) (ucast (b :: u8))
      = (out :: u32) * 2 ^ t + of_nat (unat b div 2 ^ (8 - t))"
proof -
  have "push_bit t out AND drop_bit (8 - t) (ucast b) = 0"
    using assms by (intro bit_word_eqI) (auto simp: bit_simps dest: bit_imp_le_length)
  then have "push_bit t out OR drop_bit (8 - t) (ucast b) = push_bit t out + drop_bit (8 - t) (ucast b)"
    by (rule disjunctive_add_eq_or [symmetric])
  then show ?thesis by (simp add: push_bit_eq_mult drop_nat)
qed

lemma middle_loop_value:
  "m \<le> length p \<Longrightarrow>
     middle_loop m p out =
       Inr (out * 2 ^ (8 * m) + of_nat (bits_val (take (8 * m) (bits_of p))), drop m p)"
proof (induction m arbitrary: p out)
  case (Suc m)
  then obtain b q where p: "p = b # q" by (cases p) auto
  have "take (8 * Suc m) (bits_of p) = byte_bits b @ take (8 * m) (bits_of q)"
    by (simp add: p)
  moreover have "length (take (8 * m) (bits_of q)) = 8 * m"
    using Suc.prems by (simp add: p)
  ultimately have "bits_val (take (8 * Suc m) (bits_of p))
      = unat b * 2 ^ (8 * m) + bits_val (take (8 * m) (bits_of q))"
    by (simp only: bits_val_append bits_val_byte)
  with Suc show ?case
    by (simp add: p push_or_byte algebra_simps power_add)
qed simp

lemma sint_u32_of_int:
  assumes "- (2 ^ 31) \<le> i" "i < 2 ^ 31"
  shows "sint (of_int i :: u32) = i"
proof -
  have "sint (of_int i :: u32) = signed_take_bit 31 i" by (simp only: signed_of_int) simp
  also have "\<dots> = i" using assms by (rule signed_take_bit_int_eq_self)
  finally show ?thesis .
qed
lemma sint_u32_of_nat:
  assumes "n < 2147483648"
  shows "sint (of_nat n :: u32) = int n" "sint (- of_nat n :: u32) = - int n"
  using assms sint_u32_of_int [of "int n"] sint_u32_of_int [of "- int n"] by (simp_all del: sint_sbintrunc)
section \<open>Reading is slicing the bit string\<close>

text \<open>The stream spans readable memory and is not past its end.\<close>

definition bs_wf :: "bit_stream \<Rightarrow> bool" where
  "bs_wf s \<longleftrightarrow> bs_totalBits s \<le> 8 * length (bs_data s) \<and> bs_currentBit s \<le> bs_totalBits s
     \<and> bs_totalBits s < 2 ^ 64"

definition bs_slice :: "bit_stream \<Rightarrow> nat \<Rightarrow> bool list" where
  "bs_slice s n = take n (drop (bs_currentBit s) (bits_of (bs_data s)))"

lemma length_bs_slice:
  "bs_wf s \<Longrightarrow> bs_currentBit s + n \<le> bs_totalBits s \<Longrightarrow> length (bs_slice s n) = n"
  by (auto simp: bs_slice_def bs_wf_def)

lemma slice_at_byte:
  "drop c (bits_of p) = drop (c mod 8) (bits_of (drop (c div 8) p))"
proof -
  have "drop c (bits_of p) = drop (c mod 8 + 8 * (c div 8)) (bits_of p)" by simp
  also have "\<dots> = drop (c mod 8) (drop (8 * (c div 8)) (bits_of p))" by (simp only: drop_drop)
  finally show ?thesis by (simp only: drop_bits_of)
qed

lemma bits_val_take:
  assumes "n \<le> length xs"
  shows "bits_val (take n xs) = bits_val xs div 2 ^ (length xs - n)"
proof -
  have "bits_val xs = bits_val (take n xs) * 2 ^ (length xs - n) + bits_val (drop n xs)"
    using bits_val_append [of "take n xs" "drop n xs"] by simp
  moreover have "bits_val (drop n xs) < 2 ^ (length xs - n)"
    using bits_val_bound [of "drop n xs"] by simp
  ultimately show ?thesis by simp
qed

text \<open>All wanted bits are in the partial lead byte.\<close>

lemma lead_only:
  assumes "n < k" "k \<le> 8"
  shows "drop_bit (k - n) (low_bits k b) = of_nat (bits_val (take n (drop (8 - k) (byte_bits b))))"
proof -
  have "unat b mod 2 ^ k < 2 ^ 32"
    using u8_lt [of b] by (rule le_less_trans [OF mod_less_eq_dividend less_trans]) simp
  then have "unat (of_nat (unat b mod 2 ^ k) :: u32) = unat b mod 2 ^ k"
    by (simp add: unat_of_nat)
  then show ?thesis
    using assms by (simp only: drop_nat low_bits_nat)
      (simp add: bits_val_take bits_val_byte_split(2))
qed

text \<open>The lead, middle and tail parts of a read that crosses the lead byte.\<close>

lemma lead_part:
  assumes "r < 8" "lead = (if r = 0 then 0 else 8 - r)" "r = 0 \<or> p \<noteq> []"
  shows lead_read: "(if lead > 0 then rbind (rd p 0) (\<lambda>b. Inr (low_bits lead b, drop 1 p))
                     else Inr (0, p))
      = Inr (of_nat (bits_val (take lead (drop r (bits_of p)))), drop (of_bool (0 < lead)) p)"
    and lead_bits: "drop r (bits_of p)
      = take lead (drop r (bits_of p)) @ bits_of (drop (of_bool (0 < lead)) p)"
proof (atomize (full), cases "r = 0")
  case False
  then obtain b q where p: "p = b # q" using assms(3) by (cases p) auto
  have "r = 8 - lead" "lead \<le> 8" "0 < lead" using assms False by auto
  then show "(if lead > 0 then rbind (rd p 0) (\<lambda>b. Inr (low_bits lead b, drop 1 p))
                     else Inr (0, p))
      = Inr (of_nat (bits_val (take lead (drop r (bits_of p)))), drop (of_bool (0 < lead)) p) \<and>
    drop r (bits_of p) = take lead (drop r (bits_of p)) @ bits_of (drop (of_bool (0 < lead)) p)"
    by (simp add: p low_bits_nat bits_val_byte_split)
qed (use assms in simp)

lemma tail_part:
  assumes "t < 8" "t \<le> 8 * length p"
  shows "(if t > 0 then rbind (rd p 0) (\<lambda>b. Inr (push_bit t (out :: u32) OR drop_bit (8 - t) (ucast b)))
          else Inr out)
    = Inr (out * 2 ^ t + of_nat (bits_val (take t (bits_of p))))"
proof (cases "t = 0")
  case False
  then obtain b q where p: "p = b # q" using assms by (cases p) auto
  then show ?thesis
    using assms False bits_val_byte_split(1) [of "8 - t" b] push_or_tail [of t _ b] by (simp add: p)
qed simp

lemma bs_readUInt_slice:
  assumes wf: "bs_wf s" and fit: "bs_currentBit s + n \<le> bs_totalBits s"
  shows "bs_readUInt n s =
    Inr (of_nat (bits_val (bs_slice s n)), s\<lparr>bs_currentBit := bs_currentBit s + n\<rparr>)"
proof -
  define r where "r = bs_currentBit s mod 8"
  define p where "p = drop (bs_currentBit s div 8) (bs_data s)"
  define lead where "lead = (if 8 - r = 8 then 0 else 8 - r)"
  have r: "r < 8" by (simp add: r_def)
  have lead: "lead = (if r = 0 then 0 else 8 - r)" using r by (auto simp: lead_def)
  have sz: "size_t (bs_currentBit s + n) = bs_currentBit s + n"
    using wf fit by (simp add: size_t_def bs_wf_def)
  have slice: "bs_slice s n = take n (drop r (bits_of p))"
    unfolding bs_slice_def r_def p_def by (subst slice_at_byte) (rule refl)
  have room: "r + n \<le> 8 * length p"
  proof -
    have "8 * length p = 8 * length (bs_data s) - 8 * (bs_currentBit s div 8)"
      by (simp add: p_def)
    moreover have "bs_currentBit s = 8 * (bs_currentBit s div 8) + r" by (simp add: r_def)
    moreover have "bs_currentBit s + n \<le> 8 * length (bs_data s)"
      using wf fit by (simp add: bs_wf_def)
    ultimately show ?thesis by linarith
  qed
  show ?thesis
  proof (cases "lead > n")
    case True
    then obtain b q where p: "p = b # q" using room lead by (cases p) (auto split: if_splits)
    have "r = 8 - lead" "lead \<le> 8" using True lead r by (auto split: if_splits)
    then have "bs_slice s n = take n (drop (8 - lead) (byte_bits b))"
      using True by (simp add: slice p)
    then show ?thesis
      using True fit lead_only [OF True \<open>lead \<le> 8\<close>, of b]
      by (simp add: bs_readUInt_def sz Let_def p flip: p_def r_def lead_def)
  next
    case False
    define m where "m = (n - lead) div 8"
    define t where "t = n - (lead + m * 8)"
    define q where "q = drop (of_bool (0 < lead)) p"
    have n: "n = lead + (8 * m + t)" and t: "t < 8" using False by (auto simp: t_def m_def)
    have "r = 0 \<or> p \<noteq> []" using room by auto
    note first = lead_part [OF r lead this, folded q_def]
    have qlen: "8 * m + t \<le> 8 * length q"
      using room n lead r by (auto simp: q_def of_bool_def split: if_splits)
    let ?A = "take lead (drop r (bits_of p))" and ?M = "take (8 * m) (bits_of q)"
      and ?T = "take t (bits_of (drop m q))"
    have lenA: "length ?A = lead" using room n by simp
    have "take n (?A @ bits_of q) = ?A @ take (n - lead) (bits_of q)"
      using lenA n by simp
    moreover have "n - lead = 8 * m + t" using n by simp
    ultimately have "bs_slice s n = ?A @ take (8 * m + t) (bits_of q)"
      by (subst slice, subst first(2)) (simp only:)
    moreover have "take (8 * m + t) (bits_of q) = ?M @ ?T"
      by (simp add: take_add drop_bits_of)
    ultimately have "bits_val (bs_slice s n) = (bits_val ?A * 2 ^ (8 * m) + bits_val ?M) * 2 ^ t + bits_val ?T"
      using qlen by (simp add: bits_val_append power_add algebra_simps)
    then have "Inr (of_nat (bits_val (bs_slice s n)) :: u32, s\<lparr>bs_currentBit := bs_currentBit s + n\<rparr>)
        = (Inr ((of_nat (bits_val ?A) * 2 ^ (8 * m) + of_nat (bits_val ?M)) * 2 ^ t + of_nat (bits_val ?T),
              s\<lparr>bs_currentBit := bs_currentBit s + n\<rparr>) :: (u32 \<times> bit_stream) res)"
      by simp
    moreover have "middle_loop m q out = Inr (out * 2 ^ (8 * m) + of_nat (bits_val ?M), drop m q)" for out
      using qlen by (intro middle_loop_value) simp
    moreover have "t \<le> 8 * length (drop m q)" using qlen by simp
    note tail_part [OF t this]
    moreover have "bs_readUInt n s =
      rbind (if lead > 0 then rbind (rd p 0) (\<lambda>b. Inr (low_bits lead b, drop 1 p)) else Inr (0, p))
        (\<lambda>(out, p). rbind (middle_loop m p out) (\<lambda>(out, p).
           rbind (if t > 0 then rbind (rd p 0) (\<lambda>b. Inr (push_bit t out OR drop_bit (8 - t) (ucast b)))
                  else Inr out) (\<lambda>out. Inr (out, s\<lparr>bs_currentBit := bs_currentBit s + n\<rparr>))))"
      unfolding bs_readUInt_def Let_def sz p_def [symmetric] r_def [symmetric] lead_def [symmetric]
        m_def [symmetric] t_def [symmetric]
      using False fit by (simp only: not_less [symmetric] if_False simp_thms)
    ultimately show ?thesis
      by (simp only: first(1) rbind.simps case_prod_conv)
  qed
qed

lemma bs_readUInt_overrun:
  assumes "bs_wf s" "bs_totalBits s < bs_currentBit s + n" "bs_currentBit s + n < 2 ^ 64"
  shows "bs_readUInt n s = Inr (0, s)"
  using assms by (simp add: bs_readUInt_def size_t_def)

lemma bs_wf_mk: "8 * len < 2 ^ 64 \<Longrightarrow> len \<le> length p \<Longrightarrow> bs_wf (mkBitStream p len)"
  by (simp add: bs_wf_def mkBitStream_def size_t_def)

lemma bs_wf_advance:
  "bs_wf s \<Longrightarrow> bs_currentBit s + n \<le> bs_totalBits s \<Longrightarrow>
     bs_wf (s\<lparr>bs_currentBit := bs_currentBit s + n\<rparr>)"
  by (simp add: bs_wf_def)

lemma bs_slice_advance:
  "bs_slice (s\<lparr>bs_currentBit := bs_currentBit s + a\<rparr>) b = take b (drop a (drop (bs_currentBit s) (bits_of (bs_data s))))"
  by (simp add: bs_slice_def add.commute)

lemma bs_slice_add:
  "bs_slice s (a + b) = bs_slice s a @ bs_slice (s\<lparr>bs_currentBit := bs_currentBit s + a\<rparr>) b"
  by (simp only: bs_slice_advance) (simp add: bs_slice_def take_add)

section \<open>Properties\<close>

text \<open>\<open>BitStream::readUInt\<close> with its lead byte, middle bytes and tail byte returns the
  number written by the next \<open>n\<close> bits of the payload, most significant first, modulo 2^32,
  wherever in a byte the stream stands, and advances by exactly \<open>n\<close> bits; a read that would
  cross the end returns 0 and leaves the stream where it was. No read faults.\<close>

theorem bs_readUInt_reads_next_bits:
  assumes "bs_wf s" "bs_currentBit s + n < 2 ^ 64"
  shows "bs_readUInt n s =
    (if bs_currentBit s + n \<le> bs_totalBits s
     then Inr (of_nat (bits_val (take n (drop (bs_currentBit s) (bits_of (bs_data s))))),
               s\<lparr>bs_currentBit := bs_currentBit s + n\<rparr>)
     else Inr (0, s))"
  using assms bs_readUInt_slice [of s n] bs_readUInt_overrun [of s n]
  by (simp add: bs_slice_def)

theorem bs_readUInt_reads_next_bits_witness:
  "bs_readUInt 10 ((mkBitStream [0xA5, 0x3C, 0xFF] 3)\<lparr>bs_currentBit := 3\<rparr>) =
     Inr (0xA7, (mkBitStream [0xA5, 0x3C, 0xFF] 3)\<lparr>bs_currentBit := 13\<rparr>)"
  using bs_readUInt_reads_next_bits [of "(mkBitStream [0xA5, 0x3C, 0xFF] 3)\<lparr>bs_currentBit := 3\<rparr>" 10]
  by (simp add: bs_wf_def mkBitStream_def size_t_def byte_bits_def upt_rec bits_val_def bit_iff_odd
      drop_bit_eq_div)

text \<open>Reading \<open>a + b\<close> bits at once is reading \<open>a\<close> bits, then \<open>b\<close> bits, and joining the two
  values: the position fields of an update can be cut at any bit.\<close>

lemma bs_readUInt_split:
  assumes "bs_wf s" "bs_currentBit s + (a + b) \<le> bs_totalBits s"
  shows "rbind (bs_readUInt a s) (\<lambda>(x, s'). rbind (bs_readUInt b s') (\<lambda>(y, s''). Inr (push_bit b x + y, s'')))
     = bs_readUInt (a + b) s"
proof -
  let ?s = "s\<lparr>bs_currentBit := bs_currentBit s + a\<rparr>"
  have "bs_wf ?s" "bs_currentBit ?s + b \<le> bs_totalBits ?s"
    using assms by (auto intro: bs_wf_advance)
  then have "length (bs_slice ?s b) = b" by (rule length_bs_slice)
  then show ?thesis
    using assms bs_readUInt_slice [of s a] bs_readUInt_slice [of ?s b] bs_readUInt_slice [of s "a + b"]
      \<open>bs_wf ?s\<close>
    by (simp add: bs_slice_add [of s a b] bits_val_append push_bit_eq_mult add.assoc)
qed

text \<open>\<open>BitStream::readInt\<close> decodes sign and magnitude: one sign bit, then \<open>n - 1\<close> bits of
  magnitude, exactly, for every field of at most 32 bits.\<close>

theorem bs_readInt_sign_magnitude:
  assumes "bs_wf s" "0 < n" "n \<le> 32" "bs_currentBit s + n \<le> bs_totalBits s"
  shows "bs_readInt n s =
     Inr ((if bits_of (bs_data s) ! bs_currentBit s then - 1 else 1)
            * int (bits_val (take (n - 1) (drop (Suc (bs_currentBit s)) (bits_of (bs_data s))))),
          s\<lparr>bs_currentBit := bs_currentBit s + n\<rparr>)"
proof -
  let ?s = "s\<lparr>bs_currentBit := bs_currentBit s + 1\<rparr>"
  let ?bs = "bits_of (bs_data s)"
  let ?m = "bits_val (take (n - 1) (drop (Suc (bs_currentBit s)) ?bs))"
  have wf: "bs_wf ?s" using assms by (intro bs_wf_advance) auto
  have one: "bs_slice s 1 = [?bs ! bs_currentBit s]"
    using assms by (simp add: bs_slice_def bs_wf_def take_Suc hd_drop_conv_nth)
  have "?m < 2 ^ length (take (n - 1) (drop (Suc (bs_currentBit s)) ?bs))" by (rule bits_val_bound)
  also have "\<dots> \<le> 2 ^ 31" by (rule power_increasing) (use assms in auto)
  finally have m: "?m < 2147483648" by simp
  note sgn = sint_u32_of_nat [OF m]
  have "size_t (n + (2 ^ 64 - 1)) = n - 1"
  proof -
    have "n + (2 ^ 64 - 1) = (n - 1) + 2 ^ 64" using assms by simp
    then have "size_t (n + (2 ^ 64 - 1)) = (n - 1) mod 2 ^ 64" by (simp only: size_t_def mod_add_self2)
    then show ?thesis using assms by simp
  qed
  moreover have "bs_slice ?s (n - 1) = take (n - 1) (drop (Suc (bs_currentBit s)) ?bs)"
    by (simp only: bs_slice_advance drop_drop) simp
  moreover have "bs_readUInt 1 s = Inr (of_bool (?bs ! bs_currentBit s), ?s)"
    using assms bs_readUInt_slice [of s 1] one by (simp add: bits_val_def)
  moreover have "bs_readUInt (n - 1) ?s
      = Inr (of_nat (bits_val (bs_slice ?s (n - 1))), s\<lparr>bs_currentBit := bs_currentBit s + n\<rparr>)"
    using assms bs_readUInt_slice [OF wf, of "n - 1"] by simp
  ultimately show ?thesis
    using sgn by (cases "?bs ! bs_currentBit s") (simp_all only: bs_readInt_def rbind.simps case_prod_conv
      of_bool_eq one_neq_zero if_True if_False mult_1_right mult_minus_right simp_thms mult_1 mult_minus_left)
qed

theorem bs_readInt_sign_magnitude_witness:
  "bs_readInt 13 (mkBitStream [0x80, 0x2F] 2) = Inr (- 5, (mkBitStream [0x80, 0x2F] 2)\<lparr>bs_currentBit := 13\<rparr>)"
  using bs_readInt_sign_magnitude [of "mkBitStream [0x80, 0x2F] 2" 13]
  by (simp add: bs_wf_def mkBitStream_def size_t_def byte_bits_def upt_rec bits_val_def bit_iff_odd
      drop_bit_eq_div)

end
