(* ===== verification/Crc.thy ===== *)
theory Crc
  imports PacketCommon
begin

text \<open>
  \<open>calcCRC32\<close> and \<open>calcCRC16\<close> of \<open>src/util.cpp\<close> with the table of
  \<open>src/crctab.h\<close>: the checksum that decides which captured packets are accepted
  as EverQuest traffic. The table-driven loop is proved equal to the bit-serial
  shift register, and the table to the generator the source keeps under
  \<open>RUNTIME_CRCTAB\<close>.
\<close>

section \<open>The table and the loops\<close>

definition crctab :: "u32 list" where
  "crctab = [
    0x00000000, 0x77073096, 0xEE0E612C, 0x990951BA, 0x076DC419, 0x706AF48F,
    0xE963A535, 0x9E6495A3, 0x0EDB8832, 0x79DCB8A4, 0xE0D5E91E, 0x97D2D988,
    0x09B64C2B, 0x7EB17CBD, 0xE7B82D07, 0x90BF1D91, 0x1DB71064, 0x6AB020F2,
    0xF3B97148, 0x84BE41DE, 0x1ADAD47D, 0x6DDDE4EB, 0xF4D4B551, 0x83D385C7,
    0x136C9856, 0x646BA8C0, 0xFD62F97A, 0x8A65C9EC, 0x14015C4F, 0x63066CD9,
    0xFA0F3D63, 0x8D080DF5, 0x3B6E20C8, 0x4C69105E, 0xD56041E4, 0xA2677172,
    0x3C03E4D1, 0x4B04D447, 0xD20D85FD, 0xA50AB56B, 0x35B5A8FA, 0x42B2986C,
    0xDBBBC9D6, 0xACBCF940, 0x32D86CE3, 0x45DF5C75, 0xDCD60DCF, 0xABD13D59,
    0x26D930AC, 0x51DE003A, 0xC8D75180, 0xBFD06116, 0x21B4F4B5, 0x56B3C423,
    0xCFBA9599, 0xB8BDA50F, 0x2802B89E, 0x5F058808, 0xC60CD9B2, 0xB10BE924,
    0x2F6F7C87, 0x58684C11, 0xC1611DAB, 0xB6662D3D, 0x76DC4190, 0x01DB7106,
    0x98D220BC, 0xEFD5102A, 0x71B18589, 0x06B6B51F, 0x9FBFE4A5, 0xE8B8D433,
    0x7807C9A2, 0x0F00F934, 0x9609A88E, 0xE10E9818, 0x7F6A0DBB, 0x086D3D2D,
    0x91646C97, 0xE6635C01, 0x6B6B51F4, 0x1C6C6162, 0x856530D8, 0xF262004E,
    0x6C0695ED, 0x1B01A57B, 0x8208F4C1, 0xF50FC457, 0x65B0D9C6, 0x12B7E950,
    0x8BBEB8EA, 0xFCB9887C, 0x62DD1DDF, 0x15DA2D49, 0x8CD37CF3, 0xFBD44C65,
    0x4DB26158, 0x3AB551CE, 0xA3BC0074, 0xD4BB30E2, 0x4ADFA541, 0x3DD895D7,
    0xA4D1C46D, 0xD3D6F4FB, 0x4369E96A, 0x346ED9FC, 0xAD678846, 0xDA60B8D0,
    0x44042D73, 0x33031DE5, 0xAA0A4C5F, 0xDD0D7CC9, 0x5005713C, 0x270241AA,
    0xBE0B1010, 0xC90C2086, 0x5768B525, 0x206F85B3, 0xB966D409, 0xCE61E49F,
    0x5EDEF90E, 0x29D9C998, 0xB0D09822, 0xC7D7A8B4, 0x59B33D17, 0x2EB40D81,
    0xB7BD5C3B, 0xC0BA6CAD, 0xEDB88320, 0x9ABFB3B6, 0x03B6E20C, 0x74B1D29A,
    0xEAD54739, 0x9DD277AF, 0x04DB2615, 0x73DC1683, 0xE3630B12, 0x94643B84,
    0x0D6D6A3E, 0x7A6A5AA8, 0xE40ECF0B, 0x9309FF9D, 0x0A00AE27, 0x7D079EB1,
    0xF00F9344, 0x8708A3D2, 0x1E01F268, 0x6906C2FE, 0xF762575D, 0x806567CB,
    0x196C3671, 0x6E6B06E7, 0xFED41B76, 0x89D32BE0, 0x10DA7A5A, 0x67DD4ACC,
    0xF9B9DF6F, 0x8EBEEFF9, 0x17B7BE43, 0x60B08ED5, 0xD6D6A3E8, 0xA1D1937E,
    0x38D8C2C4, 0x4FDFF252, 0xD1BB67F1, 0xA6BC5767, 0x3FB506DD, 0x48B2364B,
    0xD80D2BDA, 0xAF0A1B4C, 0x36034AF6, 0x41047A60, 0xDF60EFC3, 0xA867DF55,
    0x316E8EEF, 0x4669BE79, 0xCB61B38C, 0xBC66831A, 0x256FD2A0, 0x5268E236,
    0xCC0C7795, 0xBB0B4703, 0x220216B9, 0x5505262F, 0xC5BA3BBE, 0xB2BD0B28,
    0x2BB45A92, 0x5CB36A04, 0xC2D7FFA7, 0xB5D0CF31, 0x2CD99E8B, 0x5BDEAE1D,
    0x9B64C2B0, 0xEC63F226, 0x756AA39C, 0x026D930A, 0x9C0906A9, 0xEB0E363F,
    0x72076785, 0x05005713, 0x95BF4A82, 0xE2B87A14, 0x7BB12BAE, 0x0CB61B38,
    0x92D28E9B, 0xE5D5BE0D, 0x7CDCEFB7, 0x0BDBDF21, 0x86D3D2D4, 0xF1D4E242,
    0x68DDB3F8, 0x1FDA836E, 0x81BE16CD, 0xF6B9265B, 0x6FB077E1, 0x18B74777,
    0x88085AE6, 0xFF0F6A70, 0x66063BCA, 0x11010B5C, 0x8F659EFF, 0xF862AE69,
    0x616BFFD3, 0x166CCF45, 0xA00AE278, 0xD70DD2EE, 0x4E048354, 0x3903B3C2,
    0xA7672661, 0xD06016F7, 0x4969474D, 0x3E6E77DB, 0xAED16A4A, 0xD9D65ADC,
    0x40DF0B66, 0x37D83BF0, 0xA9BCAE53, 0xDEBB9EC5, 0x47B2CF7F, 0x30B5FFE9,
    0xBDBDF21C, 0xCABAC28A, 0x53B39330, 0x24B4A3A6, 0xBAD03605, 0xCDD70693,
    0x54DE5729, 0x23D967BF, 0xB3667A2E, 0xC4614AB8, 0x5D681B02, 0x2A6F2B94,
    0xB40BBE37, 0xC30C8EA1, 0x5A05DF1B, 0x2D02EF8D]"

text \<open>One entry as the \<open>RUNTIME_CRCTAB\<close> branch computes it.\<close>

definition crc_bit :: "u32 \<Rightarrow> u32" where
  "crc_bit c = (if c AND 1 \<noteq> 0 then 0xEDB88320 XOR drop_bit 1 c else drop_bit 1 c)"

definition crctab_runtime :: "nat \<Rightarrow> u32" where
  "crctab_runtime i = (crc_bit ^^ 8) (of_nat i)"

text \<open>\<open>crc >> 8 ^ crctab[(x ^ crc) & 0xFF]\<close>, the body of both loops.\<close>

definition crc_step :: "u32 \<Rightarrow> u32 \<Rightarrow> u32" where
  "crc_step crc x = drop_bit 8 crc XOR crctab ! unat ((x XOR crc) AND 0xFF)"

fun crc_loop :: "u32 \<Rightarrow> bytes \<Rightarrow> u32" where
  "crc_loop crc [] = crc"
| "crc_loop crc (b # bs) = crc_loop (crc_step crc (ucast b)) bs"

definition calcCRC32 :: "bytes \<Rightarrow> u32 \<Rightarrow> u32 res" where
  "calcCRC32 p len = rbind (rd_bytes p (unat len)) (\<lambda>bs.
     Inr (crc_loop 0xFFFFFFFF bs XOR 0xFFFFFFFF))"

definition crc_seed :: "u32 \<Rightarrow> u32" where
  "crc_seed seed =
     (let crc = 0 XOR 0xffffffff;
          crc = crc_step crc seed;
          crc = crc_step crc (drop_bit 8 seed);
          crc = crc_step crc (drop_bit 16 seed);
          crc = crc_step crc (drop_bit 24 seed)
      in crc)"

definition calcCRC16 :: "bytes \<Rightarrow> u32 \<Rightarrow> u32 \<Rightarrow> u16 res" where
  "calcCRC16 p len seed =
     (if len > 1048576 then Inr 0xDEAD
      else rbind (rd_bytes p (unat len)) (\<lambda>bs.
        Inr (ucast (crc_loop (crc_seed seed) bs XOR 0xffffffff))))"

section \<open>The table is the generator's\<close>

lemma funpow_8: "(f ^^ 8) c = f (f (f (f (f (f (f (f c)))))))"
  by (simp add: eval_nat_numeral)

lemma four_chunks:
  "take 64 xs @ take 64 (drop 64 xs) @ take 64 (drop 128 xs) @ drop 192 xs = xs"
proof -
  have step: "take 64 (drop n xs) @ drop (n + 64) xs = drop n xs" for n
    using append_take_drop_id [of 64 "drop n xs"] by (simp add: add.commute)
  show ?thesis
    using step [of 0] step [of 64] step [of 128] by simp
qed

lemma upt_four_chunks: "[0..<256] = [0..<64] @ [64..<128] @ [128..<192] @ [192..<256]"
proof -
  have "[i..<k] = [i..<j] @ [j..<k]" if "i \<le> j" "j \<le> k" for i j k :: nat
    using that by (metis le_Suc_ex upt_add_eq_append)
  from this [of 0 64 256] this [of 64 128 256] this [of 128 192 256] show ?thesis
    by simp
qed

lemma crctab_0_63: "map crctab_runtime [0..<64] = take 64 crctab"
  by (simp add: crc_bit_def funpow_8 crctab_runtime_def crctab_def upt_rec)

lemma crctab_64_127: "map crctab_runtime [64..<128] = take 64 (drop 64 crctab)"
  by (simp add: crc_bit_def funpow_8 crctab_runtime_def crctab_def upt_rec)

lemma crctab_128_191: "map crctab_runtime [128..<192] = take 64 (drop 128 crctab)"
  by (simp add: crc_bit_def funpow_8 crctab_runtime_def crctab_def upt_rec)

lemma crctab_192_255: "map crctab_runtime [192..<256] = drop 192 crctab"
  by (simp add: crc_bit_def funpow_8 crctab_runtime_def crctab_def upt_rec)

lemma crctab_runtime_table: "map crctab_runtime [0..<256] = crctab"
  by (simp only: upt_four_chunks map_append crctab_0_63 crctab_64_127 crctab_128_191
      crctab_192_255 four_chunks)

lemma length_crctab [simp]: "length crctab = 256"
  by (simp add: crctab_def)

lemma crctab_nth: "i < 256 \<Longrightarrow> crctab ! i = crctab_runtime i"
  by (simp flip: crctab_runtime_table)

section \<open>Table-driven equals bit-serial\<close>

lemma crc_bit_odd: "crc_bit c = (if odd c then 0xEDB88320 XOR drop_bit 1 c else drop_bit 1 c)"
  by (simp add: crc_bit_def and_one_eq odd_iff_mod_2_eq_one)

lemma crc_bit_xor: "crc_bit (a XOR b) = crc_bit a XOR crc_bit b"
proof -
  have "odd (a XOR b) \<longleftrightarrow> odd a \<noteq> odd b"
    by (simp add: even_xor_iff)
  then show ?thesis
    by (auto simp: crc_bit_odd ac_simps)
qed

abbreviation crc_bits8 :: "u32 \<Rightarrow> u32" where
  "crc_bits8 \<equiv> (crc_bit ^^ 8)"

lemma crc_bits_xor: "(crc_bit ^^ n) (a XOR b) = (crc_bit ^^ n) a XOR (crc_bit ^^ n) b"
  by (induction n) (simp_all add: crc_bit_xor)

lemma crc_bits_high: "(\<And>i. i < n \<Longrightarrow> \<not> bit c i) \<Longrightarrow> (crc_bit ^^ n) c = drop_bit n c"
proof (induction n arbitrary: c)
  case (Suc n)
  have "even c"
    using Suc.prems [of 0] by (simp add: bit_0)
  then have step: "crc_bit c = drop_bit 1 c"
    by (simp add: crc_bit_odd)
  have "(crc_bit ^^ n) (drop_bit 1 c) = drop_bit n (drop_bit 1 c)"
    using Suc.prems by (intro Suc.IH) (simp add: bit_simps)
  then show ?case
    by (simp add: funpow_swap1 step)
qed simp

text \<open>One table step shifts the register by eight bits, with the low byte of \<open>x\<close> fed in.\<close>

lemma byte_mask: "(0xFF :: u32) = mask 8"
  by (simp add: mask_eq_exp_minus_1)

lemma crc_step_bits: "crc_step crc x = crc_bits8 (crc XOR (x AND 0xFF))"
proof -
  define y where "y = (x XOR crc) AND mask 8"
  have "unat y < 256"
  proof -
    have "y \<le> mask 8" by (simp only: y_def word_and_le1)
    then show ?thesis by (simp add: word_le_nat_alt mask_eq_exp_minus_1)
  qed
  then have tab: "crctab ! unat y = crc_bits8 y"
    by (simp add: crctab_nth crctab_runtime_def)
  have high: "crc_bits8 (crc AND NOT (mask 8)) = drop_bit 8 crc"
  proof -
    have "crc_bits8 (crc AND NOT (mask 8)) = drop_bit 8 (crc AND NOT (mask 8))"
      by (rule crc_bits_high) (simp add: bit_and_iff bit_not_iff bit_mask_iff)
    also have "\<dots> = drop_bit 8 crc"
      by (rule bit_word_eqI)
        (auto simp: bit_drop_bit_eq bit_and_iff bit_not_iff bit_mask_iff dest: bit_imp_le_length)
    finally show ?thesis .
  qed
  have split: "crc XOR (x AND mask 8) = (crc AND NOT (mask 8)) XOR y"
    unfolding y_def by (rule bit_word_eqI) (auto simp: bit_simps)
  show ?thesis
    unfolding crc_step_def byte_mask
    by (simp only: split crc_bits_xor high tab flip: y_def)
qed

lemma crc_step_byte: "crc_step crc (ucast (b :: u8)) = crc_bits8 (crc XOR ucast b)"
proof -
  have "ucast b AND mask 8 = (ucast b :: u32)"
    by (rule bit_word_eqI) (auto simp: bit_simps dest: bit_imp_le_length)
  then show ?thesis by (simp add: crc_step_bits byte_mask)
qed

text \<open>The bit-serial reference: every byte is fed in and shifted through eight times.\<close>

definition crc_serial :: "u32 \<Rightarrow> bytes \<Rightarrow> u32" where
  "crc_serial crc bs = foldl (\<lambda>c b. crc_bits8 (c XOR ucast b)) crc bs"

lemma crc_serial_append: "crc_serial crc (as @ bs) = crc_serial (crc_serial crc as) bs"
  by (simp add: crc_serial_def)

lemma xor_ones: "x XOR 0xffffffff = NOT (x :: u32)"
proof (rule bit_word_eqI)
  fix n assume "n < LENGTH(32)"
  moreover have "(0xffffffff :: u32) = mask 32" by (simp add: mask_eq_exp_minus_1)
  ultimately show "bit (x XOR 0xffffffff) n = bit (NOT x) n"
    by (simp only: bit_xor_iff bit_not_iff bit_mask_iff possible_bit_word) simp
qed

lemma crc_loop_serial: "crc_loop crc bs = crc_serial crc bs"
  by (induction bs arbitrary: crc) (simp_all add: crc_serial_def crc_step_byte)

lemma crc_seed_serial: "crc_seed seed = crc_serial 0xFFFFFFFF (le32_bytes seed)"
proof -
  have byte: "drop_bit n seed AND mask 8 = ucast (ucast (drop_bit n seed) :: u8)" for n
    by (rule bit_word_eqI) (auto simp: bit_simps dest: bit_imp_le_length)
  show ?thesis
    using byte [of 0]
    by (simp add: crc_seed_def Let_def crc_serial_def le32_bytes_def crc_step_bits byte_mask byte)
qed

section \<open>Injectivity: what the register never forgets\<close>

lemma crc_bit_top: "bit (crc_bit c) 31 \<longleftrightarrow> odd c"
proof -
  have "bit (0xEDB88320 :: u32) 31" by simp
  moreover have "\<not> bit (drop_bit 1 c) 31"
    by (auto simp: bit_drop_bit_eq dest: bit_imp_le_length)
  ultimately show ?thesis by (auto simp: crc_bit_odd bit_xor_iff)
qed

lemma crc_bit_inj: "crc_bit a = crc_bit b \<Longrightarrow> a = b"
proof -
  assume eq: "crc_bit a = crc_bit b"
  then have par: "odd a \<longleftrightarrow> odd b" by (metis crc_bit_top)
  have "drop_bit 1 a = drop_bit 1 b"
    using eq par by (cases "odd a") (simp_all only: crc_bit_odd if_True if_False xor_cancel_left simp_thms)
  then have "bit (drop_bit 1 a) n = bit (drop_bit 1 b) n" for n by simp
  then have "bit a (Suc n) = bit b (Suc n)" for n
    by (simp only: bit_drop_bit_eq comp_apply plus_1_eq_Suc)
  moreover have "bit a 0 = bit b 0" using par by (simp add: bit_0)
  ultimately show "a = b"
    by (intro bit_word_eqI) (metis not0_implies_Suc)
qed

lemma crc_bits_inj: "(crc_bit ^^ n) a = (crc_bit ^^ n) b \<Longrightarrow> a = b"
  by (induction n) (auto dest: crc_bit_inj)

lemma crc_serial_inj: "crc_serial a bs = crc_serial b bs \<Longrightarrow> a = b"
proof (induction bs arbitrary: a b)
  case (Cons x bs)
  then have "crc_bits8 (a XOR ucast x) = crc_bits8 (b XOR ucast x)"
    by (simp add: crc_serial_def)
  then have "a XOR ucast x = b XOR ucast x" by (rule crc_bits_inj)
  then show ?case by (simp only: xor_cancel_right)
qed (simp add: crc_serial_def)

lemma crc_serial_byte_inj:
  "crc_serial crc (pre @ x # post) = crc_serial crc (pre @ y # post) \<Longrightarrow> x = y"
proof -
  assume "crc_serial crc (pre @ x # post) = crc_serial crc (pre @ y # post)"
  then have "crc_serial (crc_bits8 (crc_serial crc pre XOR ucast x)) post
      = crc_serial (crc_bits8 (crc_serial crc pre XOR ucast y)) post"
    by (simp add: crc_serial_def)
  then have "crc_bits8 (crc_serial crc pre XOR ucast x) = crc_bits8 (crc_serial crc pre XOR ucast y)"
    by (rule crc_serial_inj)
  then have "crc_serial crc pre XOR ucast x = crc_serial crc pre XOR ucast y"
    by (rule crc_bits_inj)
  then have "unat (ucast x :: u32) = unat (ucast y :: u32)" by (simp only: xor_cancel_left)
  then have "unat x = unat y" by simp
  then show "x = y" by (rule unsigned_word_eqI)
qed

section \<open>Properties\<close>

text \<open>
  The pre-generated table of \<open>crctab.h\<close> holds, at each of its 256 positions, what the
  \<open>RUNTIME_CRCTAB\<close> generator of \<open>calcCRC32\<close> computes for that position.
\<close>

theorem crctab_is_generated: "crctab = map crctab_runtime [0..<256]"
  by (simp add: crctab_runtime_table)

text \<open>\<open>calcCRC16\<close> returns, for every buffer and every session key, the low half of the
  complemented bit-serial CRC-32 of the key's four bytes (low byte first) followed by the
  buffer; a length above 1 MiB gives 0xDEAD and reads nothing, and a length beyond the
  readable memory is an out-of-bounds read.
\<close>

theorem calcCRC16_bit_serial:
  "calcCRC16 p len seed =
     (if len > 1048576 then Inr 0xDEAD
      else if length p < unat len then Inl OutOfBounds
      else Inr (ucast (NOT (crc_serial 0xFFFFFFFF (le32_bytes seed @ take (unat len) p)))))"
proof -
  have "crc_loop (crc_seed seed) bs XOR 0xffffffff
      = NOT (crc_serial 0xFFFFFFFF (le32_bytes seed @ bs))" for bs
    by (simp only: crc_loop_serial crc_seed_serial crc_serial_append xor_ones)
  then show ?thesis
    by (simp only: calcCRC16_def rd_bytes_def not_less [symmetric]) simp
qed

text \<open>
  Two buffers of one length that differ in exactly one byte never have the same
  \<open>calcCRC32\<close>.
\<close>

theorem calcCRC32_detects_byte:
  assumes "x \<noteq> y" and "unat len = length (pre @ x # post)"
  shows "calcCRC32 (pre @ x # post) len \<noteq> calcCRC32 (pre @ y # post) len"
proof
  assume "calcCRC32 (pre @ x # post) len = calcCRC32 (pre @ y # post) len"
  then have "crc_serial 0xFFFFFFFF (pre @ x # post) XOR 0xFFFFFFFF
      = crc_serial 0xFFFFFFFF (pre @ y # post) XOR 0xFFFFFFFF"
    using assms(2) by (simp add: calcCRC32_def rd_bytes_def crc_loop_serial)
  then have "crc_serial 0xFFFFFFFF (pre @ x # post) = crc_serial 0xFFFFFFFF (pre @ y # post)"
    by (simp only: xor_cancel_right)
  then show False
    using crc_serial_byte_inj assms(1) by blast
qed

theorem calcCRC32_detects_byte_witness:
  "calcCRC32 [1, 2, 3] 3 \<noteq> calcCRC32 [1, 7, 3] 3"
  using calcCRC32_detects_byte [of 2 7 3 "[1]" "[3]"] by simp

end
