(* ===== verification/PacketFormat.thy ===== *)
theory PacketFormat
  imports PacketCommon
begin

text \<open>
  The wire packet classes of \<open>src/packetformat.h\<close> and \<open>src/packetformat.cpp\<close>:
  \<open>EQProtocolPacket\<close> (one protocol packet: net opcode, flags, optional compression,
  sequence number, payload, CRC) and \<open>EQUDPIPPacketFormat\<close> (the IPv4/UDP datagram
  that carries it). zlib's \<open>uncompress\<close> is a parameter.
\<close>

section \<open>Net opcodes, as the host reads them\<close>

definition OP_SessionRequest :: u16 where "OP_SessionRequest = 0x0100"
definition OP_SessionResponse :: u16 where "OP_SessionResponse = 0x0200"
definition OP_Combined :: u16 where "OP_Combined = 0x0300"
definition OP_SessionDisconnect :: u16 where "OP_SessionDisconnect = 0x0500"
definition OP_KeepAlive :: u16 where "OP_KeepAlive = 0x0600"
definition OP_SessionStatRequest :: u16 where "OP_SessionStatRequest = 0x0700"
definition OP_SessionStatResponse :: u16 where "OP_SessionStatResponse = 0x0800"
definition OP_Packet :: u16 where "OP_Packet = 0x0900"
definition OP_Oversized :: u16 where "OP_Oversized = 0x0d00"
definition OP_AckFuture :: u16 where "OP_AckFuture = 0x1100"
definition OP_Ack :: u16 where "OP_Ack = 0x1500"
definition OP_AppCombined :: u16 where "OP_AppCombined = 0x1900"
definition OP_AckAfterDisconnect :: u16 where "OP_AckAfterDisconnect = 0x1d00"

lemmas netop_defs =
  OP_SessionRequest_def OP_SessionResponse_def OP_Combined_def OP_SessionDisconnect_def
  OP_KeepAlive_def OP_SessionStatRequest_def OP_SessionStatResponse_def OP_Packet_def
  OP_Oversized_def OP_AckFuture_def OP_Ack_def OP_AppCombined_def OP_AckAfterDisconnect_def

definition IS_APP_OPCODE :: "u16 \<Rightarrow> bool" where
  "IS_APP_OPCODE op \<longleftrightarrow> op AND 0x00ff \<noteq> 0"

definition IS_NET_OPCODE :: "u16 \<Rightarrow> bool" where
  "IS_NET_OPCODE op \<longleftrightarrow> op AND 0x00ff = 0"

definition PROTOCOL_FLAG_COMPRESSED :: u8 where "PROTOCOL_FLAG_COMPRESSED = 0x5a"

section \<open>The protocol packet\<close>

record eqpacket =
  m_packet :: bytes
  m_length :: u32
  m_netOp :: u16
  m_flags :: u8
  m_payload :: bytes
  m_bAllocedPayload :: bool
  m_bDecoded :: bool
  m_payloadLength :: u32
  m_rawPayload :: bytes
  m_rawPayloadLength :: u32
  m_arqSeq :: u16
  m_ownCopy :: bool
  m_subpacket :: bool

definition blank_packet :: eqpacket where
  "blank_packet = \<lparr>m_packet = [], m_length = 0, m_netOp = 0, m_flags = 0, m_payload = [],
     m_bAllocedPayload = False, m_bDecoded = False, m_payloadLength = 0, m_rawPayload = [],
     m_rawPayloadLength = 0, m_arqSeq = 0, m_ownCopy = False, m_subpacket = False\<rparr>"

definition hasFlags :: "eqpacket \<Rightarrow> bool" where
  "hasFlags s \<longleftrightarrow> \<not> m_subpacket s \<and>
     (m_netOp s \<in> {OP_SessionStatRequest, OP_SessionStatResponse, OP_Combined, OP_Packet,
                   OP_Oversized, OP_AppCombined} \<or> IS_APP_OPCODE (m_netOp s))"

definition hasArqSeq :: "eqpacket \<Rightarrow> bool" where
  "hasArqSeq s \<longleftrightarrow> m_netOp s = OP_Packet \<or> m_netOp s = OP_Oversized"

definition hasCRC :: "eqpacket \<Rightarrow> bool" where
  "hasCRC s \<longleftrightarrow> \<not> m_subpacket s \<and>
     (m_netOp s \<in> {OP_SessionStatRequest, OP_SessionStatResponse, OP_Combined, OP_Packet,
                   OP_Oversized, OP_AppCombined} \<or> IS_APP_OPCODE (m_netOp s))"

definition crc :: "eqpacket \<Rightarrow> u16 res" where
  "crc s = (if 2 \<le> m_length s then eqntohuint16 (drop (unat (m_length s - 2)) (m_packet s))
            else Inr 0xDEAD)"

text \<open>The accessor returns \<open>uint16_t\<close> although the length is 32 bits wide.\<close>

definition rawPacketLength :: "eqpacket \<Rightarrow> u16" where
  "rawPacketLength s = ucast (m_length s)"

text \<open>\<open>if (hasArqSeq() && \<dots>) { m_arqSeq = eqntohuint16(m_payload); m_payload += 2; m_payloadLength -= 2; }\<close>\<close>

definition take_seq :: "eqpacket \<Rightarrow> eqpacket res" where
  "take_seq s = rbind (eqntohuint16 (m_payload s)) (\<lambda>q.
     Inr (s\<lparr>m_arqSeq := q, m_payload := drop 2 (m_payload s),
            m_payloadLength := m_payloadLength s - 2\<rparr>))"

definition crc_len :: "eqpacket \<Rightarrow> u32" where
  "crc_len s = (if hasCRC s then 2 else 0)"

definition init_plain :: "eqpacket \<Rightarrow> eqpacket" where
  "init_plain s =
     (let n = m_length s - 2 - crc_len s; p = drop 2 (m_packet s) in
      s\<lparr>m_flags := 0, m_rawPayload := p, m_bAllocedPayload := False, m_rawPayloadLength := n,
        m_payload := p, m_payloadLength := n, m_bDecoded := True\<rparr>)"

definition init_flagged :: "eqpacket \<Rightarrow> eqpacket res" where
  "init_flagged s =
     rbind (if IS_APP_OPCODE (m_netOp s)
            then rbind (rd (m_packet s) 1) (\<lambda>f. rbind (rd (m_packet s) 2) (\<lambda>hi.
                 rbind (rd (m_packet s) 0) (\<lambda>lo. Inr (s\<lparr>m_flags := f, m_netOp := be16 hi lo\<rparr>))))
            else rbind (rd (m_packet s) 2) (\<lambda>f. Inr (s\<lparr>m_flags := f\<rparr>))) (\<lambda>s.
     let n = m_length s - 2 - 1 - crc_len s; p = drop 3 (m_packet s);
         s = s\<lparr>m_rawPayload := p, m_rawPayloadLength := n, m_bAllocedPayload := False\<rparr>
     in Inr (if m_flags s \<noteq> PROTOCOL_FLAG_COMPRESSED
             then s\<lparr>m_payloadLength := n, m_payload := p, m_bDecoded := True\<rparr>
             else s\<lparr>m_bDecoded := False\<rparr>))"

text \<open>\<open>EQProtocolPacket::init()\<close>: \<open>s\<close> is the object as the memory fields left it.\<close>

definition pk_init0 :: "eqpacket \<Rightarrow> eqpacket res" where
  "pk_init0 s =
     rbind (eqtohuint16 (m_packet s)) (\<lambda>op.
     let s = s\<lparr>m_netOp := op\<rparr> in
     rbind (if \<not> hasFlags s then Inr (init_plain s) else init_flagged s) (\<lambda>s.
     if hasArqSeq s \<and> m_bDecoded s then take_seq s else Inr s))"

definition pk_init :: "bytes \<Rightarrow> u32 \<Rightarrow> bool \<Rightarrow> bool \<Rightarrow> eqpacket \<Rightarrow> eqpacket res" where
  "pk_init packet len copy subpacket s =
     (let s = s\<lparr>m_subpacket := subpacket\<rparr> in
      if \<not> copy
      then pk_init0 (s\<lparr>m_ownCopy := False, m_packet := packet, m_length := len\<rparr>)
      else rbind (rd_bytes packet (unat len)) (\<lambda>own.
             pk_init0 (s\<lparr>m_ownCopy := True, m_packet := own, m_length := len\<rparr>)))"

text \<open>
  \<open>operator=\<close> keeps this object's ownership flag and runs \<open>init\<close> on the other's raw bytes.
\<close>

definition pk_assign :: "eqpacket \<Rightarrow> eqpacket \<Rightarrow> eqpacket res" where
  "pk_assign s packet =
     pk_init (m_packet packet) (m_length packet) (m_ownCopy s) (m_subpacket packet)
       (s\<lparr>m_bAllocedPayload := False\<rparr>)"

text \<open>
  The copy constructor. A pointer difference is a difference of lengths, since a pointer is
  the memory readable from it.
\<close>

definition ptr_diff :: "bytes \<Rightarrow> bytes \<Rightarrow> nat" where
  "ptr_diff p base = length base - length p"

definition pk_copy :: "eqpacket \<Rightarrow> bool \<Rightarrow> eqpacket res" where
  "pk_copy packet copy =
     (if \<not> copy then Inr (packet\<lparr>m_ownCopy := False, m_bAllocedPayload := False\<rparr>)
      else
        rbind (rd_bytes (m_packet packet) (unat (m_length packet))) (\<lambda>own.
        if m_bAllocedPayload packet then
          rbind (rd_bytes (m_rawPayload packet) (unat (m_rawPayloadLength packet))) (\<lambda>raw.
            Inr (packet\<lparr>m_ownCopy := True, m_packet := own, m_rawPayload := raw,
                        m_bAllocedPayload := True,
                        m_payload := drop (ptr_diff (m_payload packet) (m_rawPayload packet)) raw\<rparr>))
        else
          Inr (packet\<lparr>m_ownCopy := True, m_packet := own,
                      m_rawPayload := drop (ptr_diff (m_rawPayload packet) (m_packet packet)) own,
                      m_payload := drop (ptr_diff (m_payload packet) (m_packet packet)) own,
                      m_bAllocedPayload := False\<rparr>)))"

section \<open>Decompression\<close>

text \<open>
  \<open>uncompress dest_len source\<close> stands for zlib's function of that name: whether it returned
  \<open>Z_OK\<close>, and the bytes it wrote to the destination, at most \<open>dest_len\<close> of them. The code
  passes \<open>(uLongf*)&m_rawPayloadLength\<close>, the address of a 32-bit member, as the address of
  the 64-bit length: with the members in their declared order zlib reads and writes
  \<open>m_arqSeq\<close>, \<open>m_ownCopy\<close> and \<open>m_subpacket\<close> as its upper half.
\<close>

type_synonym zlib = "u64 \<Rightarrow> bytes \<Rightarrow> bool \<times> bytes"

definition dest_len_load :: "eqpacket \<Rightarrow> u64" where
  "dest_len_load s =
     ucast (m_rawPayloadLength s) OR push_bit 32 (ucast (m_arqSeq s))
     OR push_bit 48 (of_bool (m_ownCopy s)) OR push_bit 56 (of_bool (m_subpacket s))"

definition dest_len_store :: "u64 \<Rightarrow> eqpacket \<Rightarrow> eqpacket" where
  "dest_len_store n s =
     s\<lparr>m_rawPayloadLength := ucast n, m_arqSeq := ucast (drop_bit 32 n),
       m_ownCopy := ucast (drop_bit 48 n) \<noteq> (0 :: u8),
       m_subpacket := ucast (drop_bit 56 n) \<noteq> (0 :: u8)\<rparr>"

text \<open>
  The destination has \<open>maxPayloadLength\<close> bytes: writing more overflows the heap block. Of
  the block only what zlib wrote is readable, the rest is indeterminate.
\<close>

definition run_uncompress :: "zlib \<Rightarrow> u32 \<Rightarrow> eqpacket \<Rightarrow> (bool \<times> eqpacket) res" where
  "run_uncompress uncompress maxlen s =
     (let s = s\<lparr>m_rawPayload := [], m_rawPayloadLength := maxlen, m_bAllocedPayload := True\<rparr> in
      rbind (rd_bytes (m_payload s) (unat (m_payloadLength s))) (\<lambda>source.
      let (ok, out) = uncompress (dest_len_load s) source in
      rbind (rguard (length out \<le> unat maxlen) HeapOverflow) (\<lambda>_.
      Inr (ok, (dest_len_store (of_nat (length out)) s)\<lparr>m_rawPayload := out\<rparr>))))"

definition decode_align :: "eqpacket \<Rightarrow> eqpacket res" where
  "decode_align s =
     (if IS_APP_OPCODE (m_netOp s)
      then rbind (rd (m_rawPayload s) 0) (\<lambda>hi. rbind (rd (m_packet s) 0) (\<lambda>lo.
             Inr (s\<lparr>m_netOp := be16 hi lo, m_payload := drop 1 (m_rawPayload s),
                    m_payloadLength := m_rawPayloadLength s - 1\<rparr>)))
      else Inr (s\<lparr>m_payload := m_rawPayload s, m_payloadLength := m_rawPayloadLength s\<rparr>))"

definition decode :: "zlib \<Rightarrow> u32 \<Rightarrow> eqpacket \<Rightarrow> (bool \<times> eqpacket) res" where
  "decode uncompress maxPayloadLength s =
     (if m_bDecoded s then Inr (True, s)
      else if hasFlags s \<and> m_flags s = PROTOCOL_FLAG_COMPRESSED then
        let s = (if IS_APP_OPCODE (m_netOp s)
                 then s\<lparr>m_payloadLength := m_length s - 1 - 1 - crc_len s,
                        m_payload := drop 2 (m_packet s)\<rparr>
                 else s\<lparr>m_payloadLength := m_length s - 2 - 1 - crc_len s,
                        m_payload := drop 3 (m_packet s)\<rparr>)
        in rbind (run_uncompress uncompress maxPayloadLength s) (\<lambda>(ok, s).
           if \<not> ok then Inr (False, s\<lparr>m_rawPayload := [], m_bAllocedPayload := False\<rparr>)
           else rbind (decode_align s) (\<lambda>s.
                rbind (if hasArqSeq s then take_seq s else Inr s) (\<lambda>s.
                Inr (True, s\<lparr>m_bDecoded := True\<rparr>))))
      else Inr (True, s))"

section \<open>The IPv4/UDP datagram\<close>

record udp_packet =
  u_base :: eqpacket
  m_dataLength :: u32
  m_ip :: bytes
  m_udp :: bytes
  m_ownIP :: bool
  m_rawpayload :: bytes
  m_rawpayloadSize :: u32
  m_sessionKey :: u32

definition blank_udp :: udp_packet where
  "blank_udp = \<lparr>u_base = blank_packet, m_dataLength = 0, m_ip = [], m_udp = [], m_ownIP = False,
     m_rawpayload = [], m_rawpayloadSize = 0, m_sessionKey = 0\<rparr>"

definition ip_hl :: "bytes \<Rightarrow> u8 res" where
  "ip_hl p = rbind (rd p 0) (\<lambda>b. Inr (b AND 0x0f))"

text \<open>\<open>EQUDPIPPacketFormat::init\<close>: both lengths come from the datagram, unchecked.\<close>

definition udp_init :: "bytes \<Rightarrow> udp_packet \<Rightarrow> udp_packet res" where
  "udp_init data u =
     rbind (eqntohuint16 (drop 2 data)) (\<lambda>ip_len.
     rbind (ip_hl data) (\<lambda>hl.
     let ipHeaderLength = ucast hl * 4 :: u32;
         udp = drop (unat ipHeaderLength) data;
         payload = drop 8 udp;
         len = ucast ip_len - ipHeaderLength - 8
     in rbind (pk_init payload len False False (u_base u)) (\<lambda>b.
        Inr (u\<lparr>u_base := b, m_dataLength := ucast ip_len, m_ip := data, m_udp := udp,
               m_rawpayload := payload, m_rawpayloadSize := len\<rparr>))))"

definition mkUDP :: "bytes \<Rightarrow> u32 \<Rightarrow> bool \<Rightarrow> udp_packet res" where
  "mkUDP data len copy =
     rbind (if copy then rd_bytes data (unat len) else Inr data) (\<lambda>ipdata.
       udp_init ipdata (blank_udp\<lparr>m_ownIP := copy, m_sessionKey := 0\<rparr>))"

text \<open>Without a deep copy the base object stays default constructed.\<close>

definition udp_copy :: "udp_packet \<Rightarrow> bool \<Rightarrow> udp_packet res" where
  "udp_copy packet copy =
     (let u = blank_udp\<lparr>m_ownIP := copy, m_sessionKey := m_sessionKey packet\<rparr> in
      if copy
      then rbind (rd_bytes (m_ip packet) (unat (m_dataLength packet))) (\<lambda>ipdata. udp_init ipdata u)
      else Inr (u\<lparr>m_dataLength := m_dataLength packet, m_ip := m_ip packet, m_udp := m_udp packet\<rparr>))"

definition udp_assign :: "udp_packet \<Rightarrow> udp_packet \<Rightarrow> udp_packet res" where
  "udp_assign u packet =
     (if m_ownIP u
      then rbind (rd_bytes (m_ip packet) (unat (m_dataLength packet))) (\<lambda>ipdata. udp_init ipdata u)
      else Inr (u\<lparr>m_dataLength := m_dataLength packet, m_ip := m_ip packet, m_udp := m_udp packet\<rparr>))"

definition getSourcePort :: "udp_packet \<Rightarrow> u16 res" where
  "getSourcePort u = eqntohuint16 (m_udp u)"

definition getDestPort :: "udp_packet \<Rightarrow> u16 res" where
  "getDestPort u = eqntohuint16 (drop 2 (m_udp u))"

definition getIPv4SourceN :: "udp_packet \<Rightarrow> u32 res" where
  "getIPv4SourceN u = eqtohuint32 (drop 12 (m_ip u))"

definition getIPv4DestN :: "udp_packet \<Rightarrow> u32 res" where
  "getIPv4DestN u = eqtohuint32 (drop 16 (m_ip u))"

definition getIPv4Source :: "udp_packet \<Rightarrow> u32 res" where
  "getIPv4Source u = eqntohuint32 (drop 12 (m_ip u))"

definition getIPv4Dest :: "udp_packet \<Rightarrow> u32 res" where
  "getIPv4Dest u = eqntohuint32 (drop 16 (m_ip u))"

definition getIPv4Protocol :: "udp_packet \<Rightarrow> u8 res" where
  "getIPv4Protocol u = rd (m_ip u) 9"

definition getIPVersion :: "udp_packet \<Rightarrow> u8 res" where
  "getIPVersion u = rbind (rd (m_ip u) 0) (\<lambda>b. Inr (drop_bit 4 b))"

definition setSessionKey :: "u32 \<Rightarrow> udp_packet \<Rightarrow> udp_packet" where
  "setSessionKey k u = u\<lparr>m_sessionKey := k\<rparr>"

section \<open>Classification\<close>

lemma hasCRC_hasFlags: "hasCRC s = hasFlags s"
  by (simp add: hasCRC_def hasFlags_def)

lemma app_opcode_be16 [simp]: "IS_APP_OPCODE (be16 hi lo) \<longleftrightarrow> lo \<noteq> 0"
proof -
  have "be16 hi lo AND 0xff = ucast lo"
  proof -
    have "be16 hi lo AND 0xff = take_bit 8 (be16 hi lo)"
      by (simp add: take_bit_eq_mask mask_eq_exp_minus_1)
    also have "\<dots> = ucast lo"
      by (rule bit_word_eqI) (auto simp: be16_def bit_simps dest: bit_imp_le_length)
    finally show ?thesis .
  qed
  moreover have "(ucast lo :: u16) = 0 \<longleftrightarrow> lo = 0"
    by (metis unat_u8_u16 unsigned_0 unsigned_word_eqI)
  ultimately show ?thesis by (simp add: IS_APP_OPCODE_def)
qed

lemma net_app_exclusive: "IS_NET_OPCODE op \<longleftrightarrow> \<not> IS_APP_OPCODE op"
  by (simp add: IS_APP_OPCODE_def IS_NET_OPCODE_def)

lemma netops_are_net:
  "IS_APP_OPCODE op \<Longrightarrow> op \<notin> {OP_SessionRequest, OP_SessionResponse, OP_Combined, OP_SessionDisconnect,
     OP_KeepAlive, OP_SessionStatRequest, OP_SessionStatResponse, OP_Packet, OP_Oversized,
     OP_AckFuture, OP_Ack, OP_AppCombined, OP_AckAfterDisconnect}"
  by (auto simp: IS_APP_OPCODE_def netop_defs)

lemma app_no_seq: "IS_APP_OPCODE (m_netOp s) \<Longrightarrow> \<not> hasArqSeq s"
  using netops_are_net [of "m_netOp s"] by (auto simp: hasArqSeq_def)

section \<open>What initialisation leaves behind\<close>

text \<open>The bytes of header and trailer a decoded wire packet loses from its length.\<close>

definition overhead :: "eqpacket \<Rightarrow> nat" where
  "overhead s = (if hasFlags s then 5 else 2) + (if hasArqSeq s then 2 else 0)"

definition header_len :: "eqpacket \<Rightarrow> nat" where
  "header_len s = (if hasFlags s then 3 else 2) + (if hasArqSeq s then 2 else 0)"

lemma take_seq_result:
  "take_seq s = Inr p \<Longrightarrow>
     p = s\<lparr>m_arqSeq := m_arqSeq p, m_payload := drop 2 (m_payload s),
           m_payloadLength := m_payloadLength s - 2\<rparr> \<and> eqntohuint16 (m_payload s) = Inr (m_arqSeq p)"
  by (auto simp: take_seq_def result_simps)

lemma flags_cong:
  "m_subpacket p = m_subpacket s \<Longrightarrow> m_netOp p = m_netOp s \<Longrightarrow> hasFlags p = hasFlags s"
  by (simp add: hasFlags_def)

lemma seq_cong: "m_netOp p = m_netOp s \<Longrightarrow> hasArqSeq p = hasArqSeq s"
  by (simp add: hasArqSeq_def)

lemma init_plain_fields [simp]:
  "m_netOp (init_plain s) = m_netOp s" "m_subpacket (init_plain s) = m_subpacket s"
  "m_packet (init_plain s) = m_packet s" "m_length (init_plain s) = m_length s"
  "m_ownCopy (init_plain s) = m_ownCopy s" "m_bDecoded (init_plain s)"
  "m_payload (init_plain s) = drop 2 (m_packet s)"
  "m_payloadLength (init_plain s) = m_length s - 2 - crc_len s"
  by (simp_all add: init_plain_def Let_def)

lemma init_flagged_result:
  assumes "init_flagged s = Inr p" "hasFlags s" "eqtohuint16 (m_packet s) = Inr (m_netOp s)"
  shows "hasFlags p \<and> hasArqSeq p = hasArqSeq s \<and> m_subpacket p = m_subpacket s \<and>
    m_packet p = m_packet s \<and> m_length p = m_length s \<and> m_ownCopy p = m_ownCopy s \<and>
    m_arqSeq p = m_arqSeq s \<and> \<not> m_bAllocedPayload p \<and> m_rawPayload p = drop 3 (m_packet s) \<and>
    (if m_flags p = PROTOCOL_FLAG_COMPRESSED then \<not> m_bDecoded p
     else m_bDecoded p \<and> m_payload p = drop 3 (m_packet s) \<and> m_payloadLength p = m_length s - 5)"
proof (cases "IS_APP_OPCODE (m_netOp s)")
  case True
  then obtain f hi lo where
    p: "rd (m_packet s) 1 = Inr f" "rd (m_packet s) 2 = Inr hi" "rd (m_packet s) 0 = Inr lo"
    using assms(1) by (auto simp: init_flagged_def result_simps)
  have "m_netOp s = be16 (m_packet s ! 1) lo"
    using p assms(3) by (auto simp: eqtohuint16_def result_simps)
  with True have lo: "lo \<noteq> 0" by simp
  let ?s = "s\<lparr>m_flags := f, m_netOp := be16 hi lo\<rparr>"
  have flags: "hasFlags ?s" using lo assms(2) by (simp add: hasFlags_def)
  then have pe: "p = (let n = m_length s - 5; q = drop 3 (m_packet s);
      t = ?s\<lparr>m_rawPayload := q, m_rawPayloadLength := n, m_bAllocedPayload := False\<rparr>
    in if f \<noteq> PROTOCOL_FLAG_COMPRESSED
       then t\<lparr>m_payloadLength := n, m_payload := q, m_bDecoded := True\<rparr> else t\<lparr>m_bDecoded := False\<rparr>)"
    using assms(1) True p
    by (cases "f = PROTOCOL_FLAG_COMPRESSED") (simp_all add: init_flagged_def Let_def crc_len_def hasCRC_hasFlags)
  have "m_subpacket p = m_subpacket ?s" "m_netOp p = m_netOp ?s" by (simp_all add: pe Let_def)
  then have "hasFlags p" "hasArqSeq p = hasArqSeq ?s" using flags flags_cong seq_cong by blast+
  moreover have "\<not> hasArqSeq ?s" "\<not> hasArqSeq s" using lo True by (simp_all add: app_no_seq)
  ultimately show ?thesis by (simp add: pe Let_def)
next
  case False
  then obtain f where p: "rd (m_packet s) 2 = Inr f"
    using assms(1) by (auto simp: init_flagged_def result_simps)
  let ?s = "s\<lparr>m_flags := f\<rparr>"
  have "hasFlags ?s" using assms(2) by (simp add: hasFlags_def)
  then have pe: "p = (let n = m_length s - 5; q = drop 3 (m_packet s);
      t = ?s\<lparr>m_rawPayload := q, m_rawPayloadLength := n, m_bAllocedPayload := False\<rparr>
    in if f \<noteq> PROTOCOL_FLAG_COMPRESSED
       then t\<lparr>m_payloadLength := n, m_payload := q, m_bDecoded := True\<rparr> else t\<lparr>m_bDecoded := False\<rparr>)"
    using assms(1) False p
    by (cases "f = PROTOCOL_FLAG_COMPRESSED") (simp_all add: init_flagged_def Let_def crc_len_def hasCRC_hasFlags)
  have "m_subpacket p = m_subpacket s" "m_netOp p = m_netOp s" by (simp_all add: pe Let_def)
  then have "hasFlags p" "hasArqSeq p = hasArqSeq s" using assms(2) flags_cong seq_cong by blast+
  then show ?thesis by (simp add: pe Let_def)
qed

text \<open>Everything a caller may rely on after \<open>init\<close>, in one bundle.\<close>

definition init_post :: "bytes \<Rightarrow> u32 \<Rightarrow> bool \<Rightarrow> bool \<Rightarrow> eqpacket \<Rightarrow> bool" where
  "init_post mem len own sub p \<longleftrightarrow>
     m_packet p = mem \<and> m_length p = len \<and> m_ownCopy p = own \<and> m_subpacket p = sub \<and>
     \<not> m_bAllocedPayload p \<and>
     (if m_bDecoded p
      then m_payload p = drop (header_len p) mem \<and> m_payloadLength p = len - of_nat (overhead p) \<and>
        (hasArqSeq p \<longrightarrow> eqntohuint16 (drop (header_len p - 2) mem) = Inr (m_arqSeq p))
      else hasFlags p \<and> m_flags p = PROTOCOL_FLAG_COMPRESSED)"

lemma take_seq_post:
  assumes "take_seq s = Inr p" "m_bDecoded s" "hasArqSeq s" "\<not> m_bAllocedPayload s"
    "m_payload s = drop (header_len s - 2) (m_packet s)"
    "m_payloadLength s = m_length s - of_nat (overhead s - 2)"
  shows "init_post (m_packet s) (m_length s) (m_ownCopy s) (m_subpacket s) p"
proof -
  obtain q where q: "eqntohuint16 (m_payload s) = Inr q"
    and p: "p = s\<lparr>m_arqSeq := q, m_payload := drop 2 (m_payload s), m_payloadLength := m_payloadLength s - 2\<rparr>"
    using assms(1) by (auto simp: take_seq_def result_simps)
  have eq: "hasFlags p = hasFlags s" "hasArqSeq p" "header_len p = header_len s" "overhead p = overhead s"
    using assms(3) by (simp_all add: p hasFlags_def hasArqSeq_def header_len_def overhead_def)
  have "2 \<le> header_len s" "2 \<le> overhead s" by (simp_all add: header_len_def overhead_def)
  then have "(of_nat (overhead s - 2) :: u32) = of_nat (overhead s) - 2" by simp
  moreover have "drop 2 (drop (header_len s - 2) (m_packet s)) = drop (header_len s) (m_packet s)"
    using \<open>2 \<le> header_len s\<close> by (metis drop_drop le_add_diff_inverse2 add.commute)
  ultimately show ?thesis
    using q assms(2,4-6) by (simp add: init_post_def eq) (simp add: p)
qed

lemma pk_init0_post:
  assumes "pk_init0 s = Inr p"
  shows "init_post (m_packet s) (m_length s) (m_ownCopy s) (m_subpacket s) p"
proof -
  obtain op where op: "eqtohuint16 (m_packet s) = Inr op"
    using assms by (auto simp: pk_init0_def result_simps)
  let ?s = "s\<lparr>m_netOp := op\<rparr>"
  obtain t where t: "(if \<not> hasFlags ?s then Inr (init_plain ?s) else init_flagged ?s) = Inr t"
    and p: "(if hasArqSeq t \<and> m_bDecoded t then take_seq t else Inr t) = Inr p"
    using assms op by (auto simp: pk_init0_def Let_def result_simps)
  have "init_post (m_packet t) (m_length t) (m_ownCopy t) (m_subpacket t) p \<and>
    m_packet t = m_packet s \<and> m_length t = m_length s \<and> m_ownCopy t = m_ownCopy s \<and> m_subpacket t = m_subpacket s"
  proof (cases "hasFlags ?s")
    case True
    then have post: "hasFlags t \<and> hasArqSeq t = hasArqSeq ?s \<and> m_subpacket t = m_subpacket ?s \<and>
      m_packet t = m_packet ?s \<and> m_length t = m_length ?s \<and> m_ownCopy t = m_ownCopy ?s \<and>
      m_arqSeq t = m_arqSeq ?s \<and> \<not> m_bAllocedPayload t \<and> m_rawPayload t = drop 3 (m_packet ?s) \<and>
      (if m_flags t = PROTOCOL_FLAG_COMPRESSED then \<not> m_bDecoded t
       else m_bDecoded t \<and> m_payload t = drop 3 (m_packet ?s) \<and> m_payloadLength t = m_length ?s - 5)"
      using t op by (intro init_flagged_result) simp_all
    show ?thesis
    proof (cases "hasArqSeq t \<and> m_bDecoded t")
      case seq: True
      then have "take_seq t = Inr p" using p by simp
      then have "init_post (m_packet t) (m_length t) (m_ownCopy t) (m_subpacket t) p"
        using post seq by (intro take_seq_post) (auto simp: header_len_def overhead_def split: if_splits)
      then show ?thesis using post by simp
    next
      case False
      then have "p = t" using p by (auto split: if_splits)
      then show ?thesis
        using post False by (auto simp: init_post_def header_len_def overhead_def split: if_splits)
    qed
  next
    case False
    then have t: "t = init_plain ?s" using t by simp
    have nf: "\<not> hasFlags t" using False by (simp add: t hasFlags_def)
    have len: "m_payloadLength t = m_length t - 2"
      using False by (simp add: t crc_len_def hasCRC_hasFlags)
    have al: "\<not> m_bAllocedPayload t" by (simp add: t init_plain_def Let_def)
    show ?thesis
    proof (cases "hasArqSeq t")
      case seq: True
      then have "take_seq t = Inr p" using p t by simp
      then have "init_post (m_packet t) (m_length t) (m_ownCopy t) (m_subpacket t) p"
        using seq nf len al by (intro take_seq_post) (auto simp: header_len_def overhead_def t)
      then show ?thesis by (simp add: t)
    next
      case noseq: False
      then have "p = t" using p by simp
      then show ?thesis
        using noseq nf len al by (simp add: init_post_def header_len_def overhead_def) (simp add: t)
    qed
  qed
  then have post: "init_post (m_packet t) (m_length t) (m_ownCopy t) (m_subpacket t) p"
    and eqs: "m_packet t = m_packet s" "m_length t = m_length s" "m_ownCopy t = m_ownCopy s"
      "m_subpacket t = m_subpacket s" by blast+
  show ?thesis using post unfolding eqs .
qed

lemma pk_init_post:
  assumes "pk_init packet len copy sub s = Inr p"
  shows "init_post (if copy then take (unat len) packet else packet) len copy sub p"
proof (cases copy)
  case True
  then obtain own where "own = take (unat len) packet"
    and "pk_init0 (s\<lparr>m_subpacket := sub, m_ownCopy := True, m_packet := own, m_length := len\<rparr>) = Inr p"
    using assms by (auto simp: pk_init_def Let_def result_simps)
  then show ?thesis using True pk_init0_post by fastforce
next
  case False
  then have "pk_init0 (s\<lparr>m_subpacket := sub, m_ownCopy := False, m_packet := packet, m_length := len\<rparr>) = Inr p"
    using assms by (simp add: pk_init_def Let_def)
  then show ?thesis using False pk_init0_post by fastforce
qed

lemma u32_minus_nat:
  assumes "k < 2 ^ 32"
  shows "(len :: u32) - of_nat k \<le> len \<longleftrightarrow> k \<le> unat len"
    and "k \<le> unat len \<Longrightarrow> unat (len - of_nat k) = unat len - k"
proof -
  have k: "unat (of_nat k :: u32) = k" using assms by (simp add: unat_of_nat)
  show sub: "unat (len - of_nat k) = unat len - k" if "k \<le> unat len"
    using that by (simp add: unat_sub_if_size k)
  show "len - of_nat k \<le> len \<longleftrightarrow> k \<le> unat len"
  proof
    assume le: "len - of_nat k \<le> len"
    show "k \<le> unat len"
    proof (rule ccontr)
      assume "\<not> k \<le> unat len"
      then have "unat (len - of_nat k) = 2 ^ 32 + unat len - k" by (simp add: unat_sub_if_size word_size k)
      moreover have "unat (len - of_nat k) \<le> unat len" using le by (simp add: word_le_nat_alt)
      ultimately show False using assms by simp
    qed
  qed (simp add: word_le_nat_alt sub)
qed

section \<open>Frames as a peer writes them\<close>

datatype frame =
    NetFrame u16 bytes
  | SeqFrame u16 u16 bytes
  | AppFrame u8 u8 bytes

text \<open>
  The bytes in front of the flags, the bytes that may be compressed, and the conditions on
  the opcode: a sequenced frame is an \<open>OP_Packet\<close> or \<open>OP_Oversized\<close>, an application frame
  carries its opcode around the flags byte, low byte first.
\<close>

fun frame_head :: "frame \<Rightarrow> u8 \<Rightarrow> bytes" where
  "frame_head (NetFrame op body) fl = le16_bytes op @ [fl]"
| "frame_head (SeqFrame op q body) fl = le16_bytes op @ [fl]"
| "frame_head (AppFrame lo hi body) fl = [lo, fl]"

fun frame_content :: "frame \<Rightarrow> bytes" where
  "frame_content (NetFrame op body) = body"
| "frame_content (SeqFrame op q body) = be16_bytes q @ body"
| "frame_content (AppFrame lo hi body) = hi # body"

fun frame_op :: "frame \<Rightarrow> u16" where
  "frame_op (NetFrame op body) = op"
| "frame_op (SeqFrame op q body) = op"
| "frame_op (AppFrame lo hi body) = be16 hi lo"

fun frame_body :: "frame \<Rightarrow> bytes" where
  "frame_body (NetFrame op body) = body"
| "frame_body (SeqFrame op q body) = body"
| "frame_body (AppFrame lo hi body) = body"

fun frame_ok :: "frame \<Rightarrow> bool" where
  "frame_ok (NetFrame op body) \<longleftrightarrow>
     op \<in> {OP_SessionStatRequest, OP_SessionStatResponse, OP_Combined, OP_AppCombined}"
| "frame_ok (SeqFrame op q body) \<longleftrightarrow> op \<in> {OP_Packet, OP_Oversized}"
| "frame_ok (AppFrame lo hi body) \<longleftrightarrow> lo \<noteq> 0"

definition frame_wire :: "frame \<Rightarrow> u8 \<Rightarrow> bytes \<Rightarrow> u16 \<Rightarrow> bytes" where
  "frame_wire f fl content c = frame_head f fl @ content @ be16_bytes c"

definition reads_as :: "eqpacket \<Rightarrow> frame \<Rightarrow> bool" where
  "reads_as p f \<longleftrightarrow> m_bDecoded p \<and> m_netOp p = frame_op f \<and>
     (\<forall>op q body. f = SeqFrame op q body \<longrightarrow> m_arqSeq p = q) \<and>
     unat (m_payloadLength p) = length (frame_body f) \<and>
     take (length (frame_body f)) (m_payload p) = frame_body f"

lemma crc_at_end:
  assumes "m_packet p = w @ be16_bytes c @ rest" "unat (m_length p) = length w + 2"
  shows "crc p = Inr c"
proof -
  have "unat (m_length p - 2) = length w" using assms(2) u32_minus_nat(2) [of 2 "m_length p"] by simp
  moreover have "2 \<le> m_length p" using assms(2) by (simp add: word_le_nat_alt)
  ultimately show ?thesis by (simp add: crc_def assms(1))
qed

lemma frame_flags:
  assumes "frame_ok f" "m_netOp s = frame_op f"
  shows "\<not> m_subpacket s \<Longrightarrow> hasFlags s"
    and "hasArqSeq s \<longleftrightarrow> (\<exists>op q body. f = SeqFrame op q body)"
proof -
  show "hasFlags s" if "\<not> m_subpacket s"
    using assms that by (cases f) (auto simp: hasFlags_def)
  show "hasArqSeq s \<longleftrightarrow> (\<exists>op q body. f = SeqFrame op q body)"
  proof (cases f)
    case (AppFrame lo hi body)
    then show ?thesis using assms app_no_seq [of s] by simp
  qed (use assms in \<open>auto simp: hasArqSeq_def netop_defs\<close>)
qed

text \<open>A pointer to a frame of \<open>len\<close> bytes; \<open>rest\<close> is the memory behind it.\<close>

lemma pk_init_memory:
  assumes "unat len = length w"
  shows "pk_init (w @ rest) len copy sub s = pk_init0 (s\<lparr>m_subpacket := sub, m_ownCopy := copy,
    m_packet := w @ (if copy then [] else rest), m_length := len\<rparr>)"
  using assms by (simp add: pk_init_def Let_def rd_bytes_def)

lemma head_reads:
  assumes "frame_ok f" "mem = frame_head f fl @ x # xs"
  shows "\<exists>op. eqtohuint16 mem = Inr op \<and> (IS_APP_OPCODE op \<longleftrightarrow> (\<exists>lo hi body. f = AppFrame lo hi body)) \<and>
      (\<not> IS_APP_OPCODE op \<longrightarrow> op = frame_op f \<and> rd mem 2 = Inr fl) \<and>
      (\<forall>lo hi body. f = AppFrame lo hi body \<longrightarrow> rd mem 0 = Inr lo \<and> rd mem 1 = Inr fl \<and> rd mem 2 = Inr x)"
proof (cases f)
  case (NetFrame op body)
  then show ?thesis using assms
    by (auto simp: IS_APP_OPCODE_def netop_defs) (auto simp: le16_bytes_def)
next
  case (SeqFrame op q body)
  then show ?thesis using assms
    by (auto simp: IS_APP_OPCODE_def netop_defs) (auto simp: le16_bytes_def)
next
  case (AppFrame lo hi body)
  then show ?thesis using assms by (simp add: eqtohuint16_def)
qed

lemma init_frame:
  assumes f: "frame_ok f" and mem: "m_packet s = frame_head f fl @ x # xs" and sub: "\<not> m_subpacket s"
    and seq: "\<And>op q body. f = SeqFrame op q body \<Longrightarrow> xs \<noteq> []"
  shows "\<exists>p. pk_init0 s = Inr p \<and> m_flags p = fl \<and> (m_bDecoded p \<longleftrightarrow> fl \<noteq> PROTOCOL_FLAG_COMPRESSED) \<and>
    m_netOp p = (case f of AppFrame lo hi body \<Rightarrow> be16 x lo | _ \<Rightarrow> frame_op f) \<and>
    (fl = PROTOCOL_FLAG_COMPRESSED \<longrightarrow> m_arqSeq p = m_arqSeq s)"
proof -
  obtain op where op: "eqtohuint16 (m_packet s) = Inr op"
    and app: "IS_APP_OPCODE op \<longleftrightarrow> (\<exists>lo hi body. f = AppFrame lo hi body)"
    and net: "\<not> IS_APP_OPCODE op \<Longrightarrow> op = frame_op f \<and> rd (m_packet s) 2 = Inr fl"
    and reads: "\<And>lo hi body. f = AppFrame lo hi body \<Longrightarrow>
      rd (m_packet s) 0 = Inr lo \<and> rd (m_packet s) 1 = Inr fl \<and> rd (m_packet s) 2 = Inr x"
    using head_reads [OF f mem] by blast
  let ?s = "s\<lparr>m_netOp := op\<rparr>"
  have fs: "hasFlags ?s"
  proof (cases "IS_APP_OPCODE op")
    case True then show ?thesis using sub by (simp add: hasFlags_def)
  next
    case False then show ?thesis using net frame_flags(1) [OF f, of ?s] sub by simp
  qed
  have len3: "length (frame_head f fl) = (case f of AppFrame lo hi body \<Rightarrow> 2 | _ \<Rightarrow> 3)"
    by (cases f) auto
  obtain t where t: "init_flagged ?s = Inr t" "m_flags t = fl"
    "m_netOp t = (case f of AppFrame lo hi body \<Rightarrow> be16 x lo | _ \<Rightarrow> frame_op f)"
  proof (cases "IS_APP_OPCODE op")
    case True
    then obtain lo hi body where "f = AppFrame lo hi body" using app by blast
    then show ?thesis using True reads that by (simp add: init_flagged_def Let_def split: if_splits)
  next
    case False
    then show ?thesis using net app that by (cases f) (simp_all add: init_flagged_def Let_def split: if_splits)
  qed
  have post: "hasFlags t \<and> hasArqSeq t = hasArqSeq ?s \<and> m_subpacket t = m_subpacket ?s \<and>
      m_packet t = m_packet ?s \<and> m_length t = m_length ?s \<and> m_ownCopy t = m_ownCopy ?s \<and>
      m_arqSeq t = m_arqSeq ?s \<and> \<not> m_bAllocedPayload t \<and> m_rawPayload t = drop 3 (m_packet ?s) \<and>
      (if m_flags t = PROTOCOL_FLAG_COMPRESSED then \<not> m_bDecoded t
       else m_bDecoded t \<and> m_payload t = drop 3 (m_packet ?s) \<and> m_payloadLength t = m_length ?s - 5)"
    using t op fs by (intro init_flagged_result) simp_all
  have ini: "pk_init0 s = (if hasArqSeq t \<and> m_bDecoded t then take_seq t else Inr t)"
    using op fs t by (simp add: pk_init0_def Let_def)
  show ?thesis
  proof (cases "hasArqSeq t \<and> m_bDecoded t")
    case True
    then have "\<exists>op q body. f = SeqFrame op q body"
      using app post app_no_seq [of ?s] net frame_flags(2) [OF f, of ?s] by auto
    then obtain y ys where "xs = y # ys" "length (frame_head f fl) = 3" using seq by (auto simp: neq_Nil_conv)
    then have "m_payload t = x # y # ys" using post True mem by (simp split: if_splits)
    then have "take_seq t = Inr (t\<lparr>m_arqSeq := be16 x y, m_payload := ys, m_payloadLength := m_payloadLength t - 2\<rparr>)"
      by (simp add: take_seq_def eqntohuint16_def)
    then show ?thesis using ini True t post by (auto split: if_splits)
  next
    case False
    then show ?thesis using ini t post by (auto split: if_splits)
  qed
qed

lemma uncompressed_frame:
  assumes f: "frame_ok f" "fl \<noteq> PROTOCOL_FLAG_COMPRESSED"
    and len: "unat len = length (frame_wire f fl (frame_content f) c)"
  shows "\<exists>p. pk_init (frame_wire f fl (frame_content f) c @ rest) len copy False s = Inr p \<and>
    reads_as p f \<and> m_flags p = fl \<and> crc p = Inr c"
proof -
  let ?w = "frame_wire f fl (frame_content f) c"
  let ?rest = "if copy then [] else rest"
  let ?s = "s\<lparr>m_subpacket := False, m_ownCopy := copy, m_packet := ?w @ ?rest, m_length := len\<rparr>"
  have ini: "pk_init (?w @ rest) len copy False s = pk_init0 ?s" by (rule pk_init_memory [OF len])
  obtain x xs where x: "frame_content f @ be16_bytes c @ ?rest = x # xs" "xs \<noteq> []"
    by (cases "frame_content f") (auto simp: be16_bytes_def)
  have app: "f = AppFrame lo hi body \<Longrightarrow> hi = x" for lo hi body using x by simp
  obtain p where p: "pk_init0 ?s = Inr p" "m_flags p = fl" "m_bDecoded p" "m_netOp p = frame_op f"
    using init_frame [OF f(1), of ?s fl x xs] x f(2) app by (cases f) (auto simp: frame_wire_def)
  have post: "init_post (?w @ ?rest) len copy False p" using pk_init0_post [OF p(1)] by simp
  have fs: "hasFlags p" "hasArqSeq p \<longleftrightarrow> (\<exists>op q body. f = SeqFrame op q body)"
    using frame_flags [OF f(1) p(4)] post by (simp_all add: init_post_def)
  have hl: "header_len p + length (frame_body f) + 2 = length ?w" "overhead p = header_len p + 2"
    using fs by (cases f; simp add: header_len_def overhead_def frame_wire_def)+
  have body: "drop (header_len p) (?w @ ?rest) = frame_body f @ be16_bytes c @ ?rest"
    using fs by (cases f) (auto simp: header_len_def frame_wire_def le16_bytes_def be16_bytes_def)
  have "overhead p < 2 ^ 32" by (simp add: overhead_def)
  then have pl: "unat (m_payloadLength p) = length (frame_body f)"
    using post p(3) len hl u32_minus_nat(2) [of "overhead p" len] by (simp add: init_post_def)
  have sq: "m_arqSeq p = q" if "f = SeqFrame op q body" for op q body
  proof -
    have "eqntohuint16 (drop (header_len p - 2) (?w @ ?rest)) = Inr (m_arqSeq p)"
      using post p(3) fs that by (auto simp: init_post_def)
    moreover have "drop (header_len p - 2) (?w @ ?rest) = be16_bytes q @ body @ be16_bytes c @ ?rest"
      using fs that by (simp add: header_len_def frame_wire_def)
    ultimately show ?thesis by (metis eqntohuint16_encode sum.inject(2))
  qed
  have "crc p = Inr c"
    using post len by (intro crc_at_end [of p "frame_head f fl @ frame_content f" c ?rest])
      (simp_all add: init_post_def frame_wire_def)
  moreover have "reads_as p f"
    using post p pl sq body by (auto simp: reads_as_def init_post_def)
  ultimately show ?thesis using ini p by auto
qed

section \<open>Compressed frames\<close>

lemma dest_len_load_fresh:
  "m_arqSeq s = 0 \<Longrightarrow> \<not> m_ownCopy s \<Longrightarrow> \<not> m_subpacket s \<Longrightarrow> dest_len_load s = ucast (m_rawPayloadLength s)"
  by (simp add: dest_len_load_def)

lemma dest_len_store_small:
  assumes "n < 2 ^ 32"
  shows "dest_len_store (of_nat n) s =
    s\<lparr>m_rawPayloadLength := of_nat n, m_arqSeq := 0, m_ownCopy := False, m_subpacket := False\<rparr>"
proof -
  have lo: "ucast (of_nat n :: u64) = (of_nat n :: u32)"
    by (rule bit_word_eqI) (simp add: bit_simps)
  have hi: "drop_bit k (of_nat n :: u64) = 0" if "32 \<le> k" for k
  proof -
    have "n < 2 ^ k" using assms that by (meson less_le_trans one_le_numeral power_increasing)
    moreover have "unat (of_nat n :: u64) = n" using assms by (simp add: unat_of_nat)
    ultimately have "unat (drop_bit k (of_nat n :: u64)) = 0"
      by (simp add: unat_drop_bit_eq drop_bit_eq_div [of k n])
    then show ?thesis by (simp only: unat_eq_0)
  qed
  show ?thesis by (simp add: dest_len_store_def lo hi)
qed

text \<open>\<open>decode\<close> once zlib has returned \<open>out\<close> for the compressed bytes.\<close>

lemma decode_inflated:
  assumes und: "\<not> m_bDecoded p" "hasFlags p" "m_flags p = PROTOCOL_FLAG_COMPRESSED"
    and fresh: "m_arqSeq p = 0" "\<not> m_ownCopy p"
    and src: "drop (if IS_APP_OPCODE (m_netOp p) then 2 else 3) (m_packet p) = z @ behind"
      "unat (m_length p - (if IS_APP_OPCODE (m_netOp p) then 4 else 5)) = length z"
    and zlib: "uncompress (ucast maxlen) z = (True, out)" "length out \<le> unat maxlen"
  shows "decode uncompress maxlen p = rbind (decode_align
      (p\<lparr>m_payload := z @ behind,
         m_payloadLength := m_length p - (if IS_APP_OPCODE (m_netOp p) then 4 else 5),
         m_rawPayload := out, m_rawPayloadLength := of_nat (length out), m_bAllocedPayload := True\<rparr>))
      (\<lambda>s. rbind (if hasArqSeq s then take_seq s else Inr s) (\<lambda>s. Inr (True, s\<lparr>m_bDecoded := True\<rparr>)))"
proof -
  have sub: "\<not> m_subpacket p" using und(2) by (simp add: hasFlags_def)
  let ?k = "if IS_APP_OPCODE (m_netOp p) then 4 else 5 :: u32"
  let ?s = "p\<lparr>m_payloadLength := m_length p - ?k, m_payload := z @ behind\<rparr>"
  have "length out < 2 ^ 32" using zlib(2) u32_lt [of maxlen] by simp
  then have store: "dest_len_store (of_nat (length out)) s = s\<lparr>m_rawPayloadLength := of_nat (length out),
      m_arqSeq := 0, m_ownCopy := False, m_subpacket := False\<rparr>" for s
    by (rule dest_len_store_small)
  have run: "run_uncompress uncompress maxlen ?s = Inr (True, p\<lparr>m_payload := z @ behind,
      m_payloadLength := m_length p - ?k, m_rawPayload := out,
      m_rawPayloadLength := of_nat (length out), m_bAllocedPayload := True\<rparr>)"
    using src(2) zlib fresh sub
    by (simp add: run_uncompress_def Let_def rd_bytes_def dest_len_load_fresh store)
  show ?thesis
  proof (cases "IS_APP_OPCODE (m_netOp p)")
    case True
    then show ?thesis using und src run
      by (simp add: decode_def Let_def crc_len_def hasCRC_hasFlags)
  next
    case False
    then show ?thesis using und src run
      by (simp add: decode_def Let_def crc_len_def hasCRC_hasFlags)
  qed
qed

lemma compressed_frame:
  assumes f: "frame_ok f"
    and len: "unat len = length (frame_wire f PROTOCOL_FLAG_COMPRESSED z c)"
    and fresh: "m_arqSeq s = 0"
    and zlib: "uncompress (ucast maxlen) z = (True, frame_content f)" "length (frame_content f) \<le> unat maxlen"
  shows "\<exists>p q. pk_init (frame_wire f PROTOCOL_FLAG_COMPRESSED z c @ rest) len False False s = Inr p \<and>
    \<not> m_bDecoded p \<and> decode uncompress maxlen p = Inr (True, q) \<and> reads_as q f \<and> crc q = Inr c"
proof -
  let ?w = "frame_wire f PROTOCOL_FLAG_COMPRESSED z c"
  let ?s = "s\<lparr>m_subpacket := False, m_ownCopy := False, m_packet := ?w @ rest, m_length := len\<rparr>"
  have ini: "pk_init (?w @ rest) len False False s = pk_init0 ?s" using pk_init_memory [OF len] by simp
  obtain x xs where x: "z @ be16_bytes c @ rest = x # xs" "xs \<noteq> []"
    by (cases z) (auto simp: be16_bytes_def)
  obtain p where p: "pk_init0 ?s = Inr p" "m_flags p = PROTOCOL_FLAG_COMPRESSED" "\<not> m_bDecoded p"
    "m_netOp p = (case f of AppFrame lo hi body \<Rightarrow> be16 x lo | _ \<Rightarrow> frame_op f)" "m_arqSeq p = 0"
    using init_frame [OF f(1), of ?s PROTOCOL_FLAG_COMPRESSED x xs] x fresh by (auto simp: frame_wire_def)
  have post: "m_packet p = ?w @ rest" "m_length p = len" "\<not> m_ownCopy p" "\<not> m_subpacket p" "hasFlags p"
    using pk_init0_post [OF p(1)] p(3) by (simp_all add: init_post_def)
  have app: "IS_APP_OPCODE (m_netOp p) \<longleftrightarrow> (\<exists>lo hi body. f = AppFrame lo hi body)"
  proof (cases f)
    case (AppFrame lo hi body)
    then show ?thesis using p(4) f by simp
  qed (use p(4) f in \<open>auto simp: IS_APP_OPCODE_def netop_defs\<close>)
  let ?k = "if IS_APP_OPCODE (m_netOp p) then 4 else 5 :: nat"
  have src: "drop (if IS_APP_OPCODE (m_netOp p) then 2 else 3) (m_packet p) = z @ be16_bytes c @ rest"
    using app by (cases f) (auto simp: post frame_wire_def le16_bytes_def)
  have "unat (len - of_nat ?k) = length z"
    using app len u32_minus_nat(2) [of ?k len] by (cases f) (auto simp: frame_wire_def)
  then have slen: "unat (m_length p - (if IS_APP_OPCODE (m_netOp p) then 4 else 5)) = length z"
    by (auto simp: post split: if_splits)
  let ?m = "\<lambda>n. p\<lparr>m_payload := z @ be16_bytes c @ rest, m_payloadLength := n, m_rawPayload := frame_content f,
      m_rawPayloadLength := of_nat (length (frame_content f)), m_bAllocedPayload := True\<rparr>"
  note dec = decode_inflated [where uncompress = uncompress, OF p(3) post(5) p(2) p(5) post(3) src slen zlib]
  have cl: "length (frame_content f) < 2 ^ 32" using zlib(2) u32_lt [of maxlen] by simp
  have crc: "crc q = Inr c" if "m_packet q = m_packet p" "m_length q = m_length p" for q
    using that post len by (intro crc_at_end [of q "frame_head f PROTOCOL_FLAG_COMPRESSED @ z" c rest])
      (simp_all add: frame_wire_def)
  have "\<exists>q. decode uncompress maxlen p = Inr (True, q) \<and> reads_as q f \<and> m_packet q = m_packet p \<and> m_length q = m_length p"
  proof (cases f)
    case (NetFrame op body)
    then have "\<not> hasArqSeq (?m n\<lparr>m_payload := body, m_payloadLength := of_nat (length body)\<rparr>)" for n
      using f p(4) by (auto simp: hasArqSeq_def netop_defs)
    then show ?thesis
      using dec app NetFrame p(4) cl by (simp add: decode_align_def reads_as_def unat_of_nat)
  next
    case (SeqFrame op q body)
    then have "hasArqSeq (?m n\<lparr>m_payload := be16_bytes q @ body, m_payloadLength := k\<rparr>)" for n k
      using f p(4) by (auto simp: hasArqSeq_def)
    then show ?thesis
      using dec app SeqFrame p(4) cl
      by (simp add: decode_align_def reads_as_def take_seq_def unat_of_nat)
  next
    case (AppFrame lo hi body)
    then have "\<not> hasArqSeq (?m n\<lparr>m_netOp := be16 hi lo, m_payload := body, m_payloadLength := k\<rparr>)" for n k
      using f by (intro app_no_seq) simp
    moreover have "rd (m_packet p) 0 = Inr lo" using AppFrame by (simp add: post frame_wire_def)
    ultimately show ?thesis
      using dec app AppFrame cl by (simp add: decode_align_def reads_as_def unat_of_nat)
  qed
  then show ?thesis using ini p crc by metis
qed

section \<open>Copies\<close>

text \<open>A decoded packet whose payload window lies inside the memory it owns or points into.\<close>

definition copyable :: "eqpacket \<Rightarrow> bool" where
  "copyable p \<longleftrightarrow> m_bDecoded p \<and> unat (m_length p) \<le> length (m_packet p) \<and>
     (if m_bAllocedPayload p
      then unat (m_rawPayloadLength p) = length (m_rawPayload p) \<and>
        (\<exists>k. m_payload p = drop k (m_rawPayload p) \<and> k + unat (m_payloadLength p) \<le> length (m_rawPayload p))
      else \<exists>k. m_payload p = drop k (m_packet p) \<and> k + unat (m_payloadLength p) \<le> unat (m_length p))"

definition payload_bytes :: "eqpacket \<Rightarrow> bytes" where
  "payload_bytes p = take (unat (m_payloadLength p)) (m_payload p)"

lemma ptr_diff_drop: "k \<le> length base \<Longrightarrow> ptr_diff (drop k base) base = k"
  by (simp add: ptr_diff_def)

lemma pk_copy_deep:
  assumes "copyable p"
  shows "\<exists>q. pk_copy p True = Inr q \<and> payload_bytes q = payload_bytes p \<and> copyable q \<and>
    m_packet q = take (unat (m_length p)) (m_packet p) \<and>
    m_payloadLength q = m_payloadLength p \<and> m_length q = m_length p \<and> m_netOp q = m_netOp p \<and>
    m_arqSeq q = m_arqSeq p \<and> m_flags q = m_flags p \<and> m_subpacket q = m_subpacket p \<and> m_ownCopy q"
proof (cases "m_bAllocedPayload p")
  case True
  then obtain k where k: "m_payload p = drop k (m_rawPayload p)"
    "k + unat (m_payloadLength p) \<le> length (m_rawPayload p)" using assms by (auto simp: copyable_def)
  then show ?thesis
    using assms True
    by (auto simp: pk_copy_def copyable_def rd_bytes_def payload_bytes_def ptr_diff_drop)
next
  case False
  then obtain k where k: "m_payload p = drop k (m_packet p)"
    "k + unat (m_payloadLength p) \<le> unat (m_length p)" "unat (m_length p) \<le> length (m_packet p)"
    using assms by (auto simp: copyable_def)
  then have "ptr_diff (m_payload p) (m_packet p) = k" by (simp add: ptr_diff_drop)
  moreover have "take n (drop k (take l xs)) = take n (drop k xs)" if "k + n \<le> l" for n l and xs :: bytes
    using that by (simp add: drop_take min_def)
  ultimately show ?thesis
    using assms False k
    by (auto simp: pk_copy_def copyable_def rd_bytes_def payload_bytes_def)
qed

section \<open>Datagrams as a peer writes them\<close>

text \<open>
  An IPv4 header of \<open>hl\<close> 32-bit words whose total length field is \<open>ipl\<close>, and a UDP header.
\<close>

definition ip_header :: "bytes \<Rightarrow> nat \<Rightarrow> u16 \<Rightarrow> bool" where
  "ip_header h hl ipl \<longleftrightarrow> length h = 4 * hl \<and> 5 \<le> hl \<and> hl < 16 \<and>
     h ! 0 AND 0x0f = of_nat hl \<and> be16 (h ! 2) (h ! 3) = ipl"

definition udp_header :: "u16 \<Rightarrow> u16 \<Rightarrow> u16 \<Rightarrow> u16 \<Rightarrow> bytes" where
  "udp_header sport dport ulen chk = be16_bytes sport @ be16_bytes dport @ be16_bytes ulen @ be16_bytes chk"

lemma udp_init_datagram:
  assumes ip: "ip_header h hl ipl"
  shows "udp_init (h @ udp_header sport dport ulen chk @ mem) u =
    rbind (pk_init mem (of_nat (unat ipl) - of_nat (4 * hl + 8)) False False (u_base u)) (\<lambda>b.
      Inr (u\<lparr>u_base := b, m_dataLength := ucast ipl, m_ip := h @ udp_header sport dport ulen chk @ mem,
             m_udp := udp_header sport dport ulen chk @ mem, m_rawpayload := mem,
             m_rawpayloadSize := of_nat (unat ipl) - of_nat (4 * hl + 8)\<rparr>))"
proof -
  have len: "20 \<le> length h" "hl < 16" using ip by (auto simp: ip_header_def)
  have "eqntohuint16 (drop 2 (h @ r)) = Inr ipl" for r
  proof -
    obtain a b c d t where "h = a # b # c # d # t"
      using len(1) by (auto simp: numeral_eq_Suc Suc_le_length_iff)
    then show ?thesis using ip by (simp add: ip_header_def eqntohuint16_def)
  qed
  moreover have "ip_hl (h @ r) = Inr (of_nat hl)" for r
    using ip len by (simp add: ip_hl_def rd_def ip_header_def nth_append)
  moreover have "unat (ucast (of_nat hl :: u8) * 4 :: u32) = length h"
  proof -
    have "(ucast (of_nat hl :: u8) :: u32) = of_nat hl"
    proof (rule unsigned_word_eqI)
      show "unat (ucast (of_nat hl :: u8) :: u32) = unat (of_nat hl :: u32)"
        using len by (simp only: unat_u8_u32) (simp add: unat_of_nat)
    qed
    then have "(ucast (of_nat hl :: u8) * 4 :: u32) = of_nat (4 * hl)" by simp
    then show ?thesis using ip len by (simp only: unat_of_nat) (simp add: ip_header_def)
  qed
  moreover have "(ucast ipl :: u32) - ucast (of_nat hl :: u8) * 4 - 8 = of_nat (unat ipl) - of_nat (4 * hl + 8)"
  proof -
    have "(ucast (of_nat hl :: u8) :: u32) = of_nat hl"
    proof (rule unsigned_word_eqI)
      show "unat (ucast (of_nat hl :: u8) :: u32) = unat (of_nat hl :: u32)"
        using len by (simp only: unat_u8_u32) (simp add: unat_of_nat)
    qed
    then show ?thesis by (simp add: diff_diff_eq)
  qed
  moreover have "drop 8 (udp_header sport dport ulen chk @ mem) = mem"
    by (simp add: udp_header_def be16_bytes_def)
  moreover have "drop (length h) (h @ r) = r" for r by simp
  ultimately show ?thesis by (simp add: udp_init_def Let_def diff_diff_eq del: drop_append drop_drop)
qed

lemma datagram_addresses:
  assumes "ip_header h hl ipl" "m_ip u = h @ r" "m_udp u = udp_header sport dport ulen chk @ mem"
  shows "getSourcePort u = Inr sport" "getDestPort u = Inr dport"
    "getIPv4Source u = Inr (be32 (h ! 12) (h ! 13) (h ! 14) (h ! 15))"
    "getIPv4Dest u = Inr (be32 (h ! 16) (h ! 17) (h ! 18) (h ! 19))"
proof -
  have len: "20 \<le> length h" using assms(1) by (auto simp: ip_header_def)
  then have "3 < length h - 12" "3 < length h - 16" by simp_all
  note len = len this
  show "getSourcePort u = Inr sport" by (simp add: getSourcePort_def assms(3) udp_header_def)
  show "getDestPort u = Inr dport" by (simp add: getDestPort_def assms(3) udp_header_def)
  show "getIPv4Source u = Inr (be32 (h ! 12) (h ! 13) (h ! 14) (h ! 15))"
    using len by (simp add: getIPv4Source_def assms(2) eqntohuint32_ok nth_append)
  show "getIPv4Dest u = Inr (be32 (h ! 16) (h ! 17) (h ! 18) (h ! 19))"
    using len by (simp add: getIPv4Dest_def assms(2) eqntohuint32_ok nth_append)
qed

section \<open>Properties\<close>

text \<open>Whenever \<open>init\<close> leaves a packet decoded, its payload starts behind its header and its
  length is the wire length less header, sequence number and CRC, modulo 2^32: the payload
  lies inside the packet exactly when the wire length covers that overhead, and a shorter
  packet wraps to a payload length above its wire length.\<close>

theorem init_payload_window:
  assumes "pk_init packet len copy sub s = Inr p" "m_bDecoded p"
  shows "m_payload p = drop (header_len p) (m_packet p)
    \<and> (m_payloadLength p \<le> m_length p \<longleftrightarrow> overhead p \<le> unat len)
    \<and> (if overhead p \<le> unat len
       then unat (m_payloadLength p) = unat len - overhead p
         \<and> header_len p + unat (m_payloadLength p) \<le> unat (m_length p)
       else m_length p < m_payloadLength p)"
proof -
  have post: "m_payload p = drop (header_len p) (m_packet p)" "m_length p = len"
    "m_payloadLength p = len - of_nat (overhead p)"
    using pk_init_post [OF assms(1)] assms(2) by (simp_all add: init_post_def)
  have ov: "overhead p < 2 ^ 32" "header_len p \<le> overhead p" by (simp_all add: overhead_def header_len_def)
  show ?thesis
    using post u32_minus_nat [OF ov(1), of len] ov(2) by (auto simp: not_le [symmetric])
qed

theorem init_payload_window_witness:
  "\<exists>p. pk_init [0, 9, 0, 0, 7, 1] 3 False False blank_packet = Inr p \<and> m_length p < m_payloadLength p"
  using init_payload_window [of "[0, 9, 0, 0, 7, 1]" 3 False False blank_packet
      "the (case pk_init [0, 9, 0, 0, 7, 1] 3 False False blank_packet of Inr p \<Rightarrow> Some p | Inl e \<Rightarrow> None)"]
  by (simp add: pk_init_def pk_init0_def init_flagged_def init_plain_def eqtohuint16_def be16_def
      blank_packet_def hasFlags_def hasCRC_def hasArqSeq_def IS_APP_OPCODE_def netop_defs Let_def crc_len_def
      PROTOCOL_FLAG_COMPRESSED_def take_seq_def eqntohuint16_def overhead_def)

text \<open>An IPv4/UDP datagram that carries an uncompressed protocol frame is parsed back to what
  was sent: the ports, the addresses, the UDP payload, and in it the opcode (split around the
  flags byte for application packets), the sequence number, the body and the CRC.\<close>

theorem datagram_frame_roundtrip:
  assumes "ip_header h hl ipl" "unat ipl = 4 * hl + 8 + length (frame_wire f fl (frame_content f) c)"
    "frame_ok f" "fl \<noteq> PROTOCOL_FLAG_COMPRESSED"
  shows "\<exists>u. mkUDP (h @ udp_header sport dport ulen chk @ frame_wire f fl (frame_content f) c @ rest) n False = Inr u \<and>
    getSourcePort u = Inr sport \<and> getDestPort u = Inr dport \<and>
    getIPv4Source u = Inr (be32 (h ! 12) (h ! 13) (h ! 14) (h ! 15)) \<and>
    getIPv4Dest u = Inr (be32 (h ! 16) (h ! 17) (h ! 18) (h ! 19)) \<and>
    take (unat (m_rawpayloadSize u)) (m_rawpayload u) = frame_wire f fl (frame_content f) c \<and>
    reads_as (u_base u) f \<and> crc (u_base u) = Inr c"
proof -
  let ?w = "frame_wire f fl (frame_content f) c"
  let ?len = "of_nat (unat ipl) - of_nat (4 * hl + 8) :: u32"
  have ipl: "unat ipl < 65536" by (rule u16_lt)
  then have "unat (of_nat (unat ipl) :: u32) = unat ipl" by (simp add: unat_of_nat)
  then have len: "unat ?len = length ?w"
    using assms(2) ipl u32_minus_nat(2) [of "4 * hl + 8" "of_nat (unat ipl)"] by simp
  obtain p where p: "pk_init (?w @ rest) ?len False False blank_packet = Inr p" "reads_as p f" "crc p = Inr c"
    using uncompressed_frame [OF assms(3,4) len, of rest False blank_packet] by blast
  let ?u = "blank_udp\<lparr>m_ownIP := False, m_sessionKey := 0\<rparr>"
  have "u_base ?u = blank_packet" by (simp add: blank_udp_def)
  then have "mkUDP (h @ udp_header sport dport ulen chk @ ?w @ rest) n False
      = Inr (?u\<lparr>u_base := p, m_dataLength := ucast ipl, m_ip := h @ udp_header sport dport ulen chk @ ?w @ rest,
             m_udp := udp_header sport dport ulen chk @ ?w @ rest, m_rawpayload := ?w @ rest,
             m_rawpayloadSize := ?len\<rparr>)"
    using udp_init_datagram [OF assms(1), of sport dport ulen chk "?w @ rest" ?u] p(1) by (simp add: mkUDP_def)
  then show ?thesis
    using datagram_addresses [OF assms(1)] p len by simp
qed

theorem datagram_frame_roundtrip_witness:
  "\<exists>u. mkUDP ([0x45, 0, 0, 37, 0, 0, 0, 0, 64, 17, 0, 0, 10, 0, 0, 1, 10, 0, 0, 2] @
      udp_header 9000 5555 0 0 @ frame_wire (SeqFrame OP_Packet 7 [1, 2]) 0 [0, 7, 1, 2] 0xBEEF @ []) 37 False = Inr u \<and>
    getSourcePort u = Inr 9000 \<and> getDestPort u = Inr 5555 \<and> getIPv4Source u = Inr 0x0A000001 \<and>
    m_arqSeq (u_base u) = 7"
  using datagram_frame_roundtrip [where h = "[0x45, 0, 0, 37, 0, 0, 0, 0, 64, 17, 0, 0, 10, 0, 0, 1, 10, 0, 0, 2]"
      and hl = 5 and ipl = 37 and f = "SeqFrame OP_Packet 7 [1, 2]" and fl = 0 and c = "0xBEEF" and sport = 9000
      and dport = 5555 and ulen = 0 and chk = 0 and rest = "[]" and n = 37]
  by (simp add: ip_header_def be16_def be32_def frame_wire_def PROTOCOL_FLAG_COMPRESSED_def be16_bytes_def
      reads_as_def) blast

text \<open>A compressed frame is parsed in two steps: \<open>init\<close> leaves it undecoded, and \<open>decode\<close>, when
  zlib inflates the bytes to the frame's content and the content fits the destination,
  restores opcode, sequence number and body of the frame.\<close>

theorem compressed_frame_roundtrip:
  assumes "frame_ok f" "unat len = length (frame_wire f PROTOCOL_FLAG_COMPRESSED z c)" "m_arqSeq s = 0"
    "uncompress (ucast maxlen) z = (True, frame_content f)" "length (frame_content f) \<le> unat maxlen"
  shows "\<exists>p q. pk_init (frame_wire f PROTOCOL_FLAG_COMPRESSED z c @ rest) len False False s = Inr p \<and>
    \<not> m_bDecoded p \<and> decode uncompress maxlen p = Inr (True, q) \<and> reads_as q f \<and> crc q = Inr c"
  using assms by (rule compressed_frame)

theorem compressed_frame_roundtrip_witness:
  "\<exists>p q. pk_init (frame_wire (AppFrame 0x34 0x12 [9, 8]) 0x5a [8, 9, 0x12] 0xBEEF @ []) 7 False False blank_packet = Inr p
    \<and> decode (\<lambda>n z. (True, rev z)) 64 p = Inr (True, q) \<and> m_netOp q = 0x1234 \<and> payload_bytes q = [9, 8]"
  using compressed_frame_roundtrip [where f = "AppFrame 0x34 0x12 [9, 8]" and len = 7 and z = "[8, 9, 0x12]"
      and c = "0xBEEF" and s = blank_packet and uncompress = "\<lambda>n z. (True, rev z)" and maxlen = 64 and rest = "[]"]
  by (auto simp: frame_wire_def PROTOCOL_FLAG_COMPRESSED_def blank_packet_def reads_as_def be16_def payload_bytes_def)

text \<open>The deep copy of a decoded packet, compressed or not, carries the same payload, length,
  opcode, flags and sequence number in memory of its own, and can be copied again.\<close>

theorem pk_copy_preserves:
  assumes "copyable p"
  shows "\<exists>q. pk_copy p True = Inr q \<and> payload_bytes q = payload_bytes p \<and> copyable q \<and>
    m_packet q = take (unat (m_length p)) (m_packet p) \<and>
    m_payloadLength q = m_payloadLength p \<and> m_length q = m_length p \<and> m_netOp q = m_netOp p \<and>
    m_arqSeq q = m_arqSeq p \<and> m_flags q = m_flags p \<and> m_subpacket q = m_subpacket p \<and> m_ownCopy q"
  using assms by (rule pk_copy_deep)

theorem pk_copy_preserves_witness:
  "\<exists>q. pk_copy (blank_packet\<lparr>m_packet := [9, 0, 1, 2, 3], m_length := 4, m_payload := [1, 2, 3],
      m_payloadLength := 2, m_bDecoded := True\<rparr>) True = Inr q \<and> payload_bytes q = [1, 2] \<and> m_packet q = [9, 0, 1, 2]"
proof -
  let ?p = "blank_packet\<lparr>m_packet := [9, 0, 1, 2, 3], m_length := 4, m_payload := [1, 2, 3],
      m_payloadLength := 2, m_bDecoded := True\<rparr>"
  have "copyable ?p" by (simp add: copyable_def blank_packet_def) (rule exI [of _ 2], simp)
  moreover have "payload_bytes ?p = [1, 2]" "take (unat (m_length ?p)) (m_packet ?p) = [9, 0, 1, 2]"
    by (simp_all add: payload_bytes_def)
  ultimately show ?thesis using pk_copy_preserves [of ?p] by metis
qed

text \<open>A datagram whose total length field is below its header lengths is not refused: the
  UDP payload size wraps to almost 2^32.\<close>

theorem datagram_short_total_wraps:
  assumes "ip_header h hl ipl" "unat ipl < 4 * hl + 8"
    "mkUDP (h @ udp_header sport dport ulen chk @ mem) n False = Inr u"
  shows "unat (m_rawpayloadSize u) = 2 ^ 32 - (4 * hl + 8 - unat ipl) \<and>
    m_length (u_base u) = m_rawpayloadSize u"
proof -
  have hl: "hl < 16" using assms(1) by (simp add: ip_header_def)
  obtain b where b: "pk_init mem (of_nat (unat ipl) - of_nat (4 * hl + 8)) False False (u_base (blank_udp\<lparr>m_ownIP := False, m_sessionKey := 0\<rparr>)) = Inr b"
    and u: "u_base u = b" "m_rawpayloadSize u = of_nat (unat ipl) - of_nat (4 * hl + 8)"
    using assms(3) by (auto simp: mkUDP_def udp_init_datagram [OF assms(1)] result_simps)
  have "unat (of_nat (unat ipl) :: u32) = unat ipl" using u16_lt [of ipl] by (simp add: unat_of_nat)
  moreover have "unat (of_nat (4 * hl + 8) :: u32) = 4 * hl + 8" using hl by (simp only: unat_of_nat) simp
  ultimately have "unat (of_nat (unat ipl) - of_nat (4 * hl + 8) :: u32) = 2 ^ 32 - (4 * hl + 8 - unat ipl)"
    using assms(2) hl by (simp only: unat_sub_if_size word_size) simp
  moreover have "m_length b = of_nat (unat ipl) - of_nat (4 * hl + 8)"
    using pk_init_post [OF b] by (simp add: init_post_def)
  ultimately show ?thesis by (simp only: u)
qed

theorem datagram_short_total_wraps_witness:
  "\<exists>u. mkUDP ([0x45, 0, 0, 20, 0, 0, 0, 0, 64, 17, 0, 0, 10, 0, 0, 1, 10, 0, 0, 2] @
      udp_header 9000 5555 0 0 @ [0, 6]) 30 False = Inr u \<and> m_rawpayloadSize u = 0xFFFFFFF8"
proof -
  let ?h = "[0x45, 0, 0, 20, 0, 0, 0, 0, 64, 17, 0, 0, 10, 0, 0, 1, 10, 0, 0, 2]"
  have ip: "ip_header ?h 5 20" by (simp add: ip_header_def be16_def)
  have init: "\<exists>b. pk_init [0, 6] n False False s = Inr b" for n s
    by (simp add: pk_init_def pk_init0_def eqtohuint16_def be16_def hasFlags_def hasArqSeq_def
        IS_APP_OPCODE_def netop_defs Let_def init_plain_def)
  then obtain u where u: "mkUDP (?h @ udp_header 9000 5555 0 0 @ [0, 6]) 30 False = Inr u"
    by (simp only: mkUDP_def udp_init_datagram [OF ip] if_False rbind.simps) (metis rbind.simps(2))
  have "unat (m_rawpayloadSize u) = 2 ^ 32 - 8"
    using datagram_short_total_wraps [OF ip _ u] by simp
  then have "m_rawpayloadSize u = 0xFFFFFFF8" by (simp add: word_unat_eq_iff)
  then show ?thesis using u by blast
qed

end
