(* ===== verification/PacketFragment.thy ===== *)
theory PacketFragment
  imports PacketFormat
begin

text \<open>
  Reassembly of oversized application packets: \<open>EQPacketFragmentSequence\<close> of
  \<open>src/packetfragment.h\<close> and \<open>src/packetfragment.cpp\<close>. The first fragment carries the
  total length; the buffer is kept across sequences and only ever grows.
\<close>

section \<open>The fragment sequence\<close>

definition kMaxFragmentBuffer :: u32 where
  "kMaxFragmentBuffer = 4 * 1024 * 1024"

text \<open>
  \<open>m_data\<close> is the whole allocation. The bytes of a fresh allocation are indeterminate in
  C++ and zero here; no statement below is about bytes that were not written.
\<close>

record fragment_seq =
  m_streamid :: stream_id
  m_data :: bytes
  m_totalLength :: u32
  m_dataSize :: nat
  m_dataAllocSize :: u32

definition mkFragmentSequence :: "stream_id \<Rightarrow> fragment_seq" where
  "mkFragmentSequence sid = \<lparr>m_streamid = sid, m_data = [], m_totalLength = 0, m_dataSize = 0,
     m_dataAllocSize = 0\<rparr>"

definition frag_reset :: "fragment_seq \<Rightarrow> fragment_seq" where
  "frag_reset s = s\<lparr>m_dataSize := 0, m_totalLength := 0\<rparr>"

definition isComplete :: "fragment_seq \<Rightarrow> bool" where
  "isComplete s \<longleftrightarrow> m_dataSize s \<noteq> 0 \<and> unat (m_totalLength s) = m_dataSize s"

text \<open>\<open>memcpy(m_data + off, src, n)\<close>\<close>

definition frag_memcpy :: "nat \<Rightarrow> bytes \<Rightarrow> nat \<Rightarrow> fragment_seq \<Rightarrow> fragment_seq res" where
  "frag_memcpy off src n s =
     rbind (rguard (off + n \<le> length (m_data s)) HeapOverflow) (\<lambda>_.
     rbind (rd_bytes src n) (\<lambda>bs.
     Inr (s\<lparr>m_data := take off (m_data s) @ bs @ drop (off + n) (m_data s)\<rparr>)))"

text \<open>
  The warnings of the two rejecting branches print the two bytes behind the length, so they
  read them.
\<close>

definition first_fragment :: "eqpacket \<Rightarrow> fragment_seq \<Rightarrow> fragment_seq res" where
  "first_fragment packet s =
     rbind (eqntohuint32 (m_payload packet)) (\<lambda>ipl.
     let s = s\<lparr>m_totalLength := ipl\<rparr> in
     if ipl = 0 then rbind (eqtohuint16 (drop 4 (m_payload packet))) (\<lambda>_. Inr (frag_reset s))
     else if kMaxFragmentBuffer < ipl then
       rbind (eqtohuint16 (drop 4 (m_payload packet))) (\<lambda>_. Inr (frag_reset s))
     else
       let s = (if m_dataAllocSize s < ipl
                then s\<lparr>m_dataAllocSize := ipl, m_data := replicate (unat ipl) 0\<rparr> else s);
           n = unat (m_payloadLength packet - 4)
       in rbind (frag_memcpy 0 (drop 4 (m_payload packet)) n s) (\<lambda>s. Inr (s\<lparr>m_dataSize := n\<rparr>)))"

definition next_fragment :: "eqpacket \<Rightarrow> fragment_seq \<Rightarrow> fragment_seq res" where
  "next_fragment packet s =
     (let n = unat (m_payloadLength packet) in
      if unat (m_dataAllocSize s) < m_dataSize s + n then Inr (frag_reset s)
      else rbind (frag_memcpy (m_dataSize s) (m_payload packet) n s) (\<lambda>s.
             Inr (s\<lparr>m_dataSize := m_dataSize s + n\<rparr>)))"

definition addFragment :: "eqpacket \<Rightarrow> fragment_seq \<Rightarrow> fragment_seq res" where
  "addFragment packet s =
     (if m_dataSize s = 0 then first_fragment packet s else next_fragment packet s)"

section \<open>The invariant\<close>

definition frag_inv :: "fragment_seq \<Rightarrow> bool" where
  "frag_inv s \<longleftrightarrow> length (m_data s) = unat (m_dataAllocSize s)
     \<and> m_dataAllocSize s \<le> kMaxFragmentBuffer \<and> m_dataSize s \<le> unat (m_dataAllocSize s)
     \<and> m_totalLength s \<le> m_dataAllocSize s"

lemma frag_inv_new: "frag_inv (mkFragmentSequence sid)"
  by (simp add: frag_inv_def mkFragmentSequence_def)

lemma frag_inv_reset: "frag_inv s \<Longrightarrow> frag_inv (frag_reset s)"
  by (simp add: frag_inv_def frag_reset_def)

lemma frag_reset_ipl: "frag_reset (s\<lparr>m_totalLength := t\<rparr>) = frag_reset s"
  by (simp add: frag_reset_def)

lemma frag_memcpy_result:
  assumes "frag_memcpy off src n s = Inr s'" "off \<le> length (m_data s)"
  shows "off + n \<le> length (m_data s)" "n \<le> length src" "length (m_data s') = length (m_data s)"
    "s' = s\<lparr>m_data := m_data s'\<rparr>" "take (off + n) (m_data s') = take off (m_data s) @ take n src"
  using assms by (auto simp: frag_memcpy_def result_simps)

lemma frag_memcpy_ok:
  "off + n \<le> length (m_data s) \<Longrightarrow> n \<le> length src \<Longrightarrow>
     frag_memcpy off src n s = Inr (s\<lparr>m_data := take off (m_data s) @ take n src @ drop (off + n) (m_data s)\<rparr>)"
  by (simp add: frag_memcpy_def rd_bytes_def)

lemma addFragment_inv:
  assumes "frag_inv s" "addFragment p s = Inr s'"
  shows "frag_inv s'"
proof (cases "m_dataSize s = 0")
  case True
  then obtain ipl where ipl: "eqntohuint32 (m_payload p) = Inr ipl"
    using assms(2) by (auto simp: addFragment_def first_fragment_def result_simps)
  show ?thesis
  proof (cases "ipl = 0 \<or> kMaxFragmentBuffer < ipl")
    case True
    then have "s' = frag_reset s"
      using assms(2) ipl \<open>m_dataSize s = 0\<close>
      by (auto simp: addFragment_def first_fragment_def Let_def result_simps frag_reset_ipl split: if_splits)
    then show ?thesis using assms(1) frag_inv_reset by simp
  next
    case False
    let ?s = "s\<lparr>m_totalLength := ipl\<rparr>"
    let ?t = "if m_dataAllocSize s < ipl
      then ?s\<lparr>m_dataAllocSize := ipl, m_data := replicate (unat ipl) 0\<rparr> else ?s"
    let ?n = "unat (m_payloadLength p - 4)"
    have t: "frag_inv (?t\<lparr>m_dataSize := 0\<rparr>)"
      using assms(1) False by (auto simp: frag_inv_def)
    obtain u where u: "frag_memcpy 0 (drop 4 (m_payload p)) ?n ?t = Inr u" "s' = u\<lparr>m_dataSize := ?n\<rparr>"
      using assms(2) ipl False \<open>m_dataSize s = 0\<close>
      by (auto simp: addFragment_def first_fragment_def Let_def result_simps)
    note r = frag_memcpy_result [OF u(1)]
    show ?thesis
      using t r(1,3) unfolding u(2) by (subst r(4)) (auto simp: frag_inv_def)
  qed
next
  case False
  show ?thesis
  proof (cases "unat (m_dataAllocSize s) < m_dataSize s + unat (m_payloadLength p)")
    case True
    then show ?thesis using assms False frag_inv_reset [of s]
      by (auto simp: addFragment_def next_fragment_def Let_def)
  next
    case fits: False
    then obtain u where u: "frag_memcpy (m_dataSize s) (m_payload p) (unat (m_payloadLength p)) s = Inr u"
      "s' = u\<lparr>m_dataSize := m_dataSize u + unat (m_payloadLength p)\<rparr>"
      using assms(2) False by (auto simp: addFragment_def next_fragment_def Let_def result_simps)
    have "m_dataSize s \<le> length (m_data s)" using assms(1) by (simp add: frag_inv_def)
    note r = frag_memcpy_result [OF u(1) this]
    have "m_dataSize u = m_dataSize s" by (subst r(4)) simp
    then have "s' = s\<lparr>m_data := m_data u, m_dataSize := m_dataSize s + unat (m_payloadLength p)\<rparr>"
      unfolding u(2) by (subst r(4)) simp
    then show ?thesis using assms(1) fits r(3) by (simp add: frag_inv_def)
  qed
qed

interpretation frag: invariant_machine addFragment frag_inv
  by unfold_locales (rule addFragment_inv)

section \<open>Reassembly\<close>

text \<open>A fragment packet that carries exactly the bytes \<open>bs\<close>.\<close>

definition carries :: "eqpacket \<Rightarrow> bytes \<Rightarrow> bool" where
  "carries p bs \<longleftrightarrow> payload_bytes p = bs \<and> unat (m_payloadLength p) = length bs"

lemma carries_payload: "carries p bs \<Longrightarrow> \<exists>r. m_payload p = bs @ r"
  by (metis append_take_drop_id carries_def payload_bytes_def)

text \<open>The sequence has collected the bytes \<open>got\<close> of a packet of \<open>ipl\<close> bytes.\<close>

definition collected :: "bytes \<Rightarrow> u32 \<Rightarrow> fragment_seq \<Rightarrow> bool" where
  "collected got ipl s \<longleftrightarrow> frag_inv s \<and> m_totalLength s = ipl \<and> m_dataSize s = length got
     \<and> take (length got) (m_data s) = got"

lemma isComplete_collected:
  "collected got ipl s \<Longrightarrow> isComplete s \<longleftrightarrow> got \<noteq> [] \<and> length got = unat ipl"
  by (auto simp: isComplete_def collected_def)

text \<open>A first fragment that declares a plausible total is copied into a large enough buffer.\<close>

lemma first_fragment_step:
  assumes "m_dataSize s = 0" "eqntohuint32 (m_payload p) = Inr ipl" "0 < ipl" "ipl \<le> kMaxFragmentBuffer"
  shows "addFragment p s =
    rbind (frag_memcpy 0 (drop 4 (m_payload p)) (unat (m_payloadLength p - 4))
      (if m_dataAllocSize s < ipl
       then s\<lparr>m_totalLength := ipl, m_dataAllocSize := ipl, m_data := replicate (unat ipl) 0\<rparr>
       else s\<lparr>m_totalLength := ipl\<rparr>))
      (\<lambda>s. Inr (s\<lparr>m_dataSize := unat (m_payloadLength p - 4)\<rparr>))"
proof -
  have "ipl \<noteq> 0" "\<not> kMaxFragmentBuffer < ipl" using assms by auto
  then show ?thesis using assms(1,2) by (simp add: addFragment_def first_fragment_def Let_def)
qed

lemma first_fragment_collects:
  assumes inv: "frag_inv s" and idle: "m_dataSize s = 0"
    and p: "carries p (be32_bytes ipl @ c)"
    and ipl: "0 < ipl" "ipl \<le> kMaxFragmentBuffer" "length c \<le> unat ipl"
  shows "\<exists>s'. addFragment p s = Inr s' \<and> collected c ipl s'"
proof -
  obtain r where r: "m_payload p = be32_bytes ipl @ c @ r" using carries_payload [OF p] by auto
  have "unat (m_payloadLength p) = 4 + length c" using p by (simp add: carries_def)
  then have n: "unat (m_payloadLength p - 4) = length c"
    using u32_minus_nat(2) [of 4 "m_payloadLength p"] by simp
  have src: "drop 4 (m_payload p) = c @ r" by (simp add: r)
  define t where "t = (if m_dataAllocSize s < ipl
      then s\<lparr>m_totalLength := ipl, m_dataAllocSize := ipl, m_data := replicate (unat ipl) 0\<rparr>
      else s\<lparr>m_totalLength := ipl\<rparr>)"
  have t: "frag_inv t" "m_totalLength t = ipl" "unat ipl \<le> length (m_data t)"
    using inv idle ipl by (auto simp: t_def frag_inv_def word_le_nat_alt not_less)
  have "frag_memcpy 0 (c @ r) (length c) t = Inr (t\<lparr>m_data := c @ drop (length c) (m_data t)\<rparr>)"
    using t ipl by (simp add: frag_memcpy_ok)
  then have "addFragment p s = Inr (t\<lparr>m_data := c @ drop (length c) (m_data t), m_dataSize := length c\<rparr>)"
    using first_fragment_step [OF idle, of p ipl] ipl by (simp add: r src [unfolded r] n flip: t_def)
  moreover have "collected c ipl (t\<lparr>m_data := c @ drop (length c) (m_data t), m_dataSize := length c\<rparr>)"
    using t ipl by (auto simp: collected_def frag_inv_def word_le_nat_alt)
  ultimately show ?thesis by blast
qed

lemma next_fragment_collects:
  assumes got: "collected got ipl s" "got \<noteq> []" and p: "carries p c"
    and fits: "length got + length c \<le> unat ipl"
  shows "\<exists>s'. addFragment p s = Inr s' \<and> collected (got @ c) ipl s'"
proof -
  obtain r where r: "m_payload p = c @ r" using carries_payload [OF p] by auto
  have inv: "frag_inv s" "m_dataSize s = length got" "m_totalLength s = ipl" "take (length got) (m_data s) = got"
    using got by (auto simp: collected_def)
  then have room: "length got + length c \<le> length (m_data s)"
    using fits by (auto simp: frag_inv_def word_le_nat_alt)
  let ?t = "s\<lparr>m_data := got @ c @ drop (length got + length c) (m_data s)\<rparr>"
  have "frag_memcpy (length got) (m_payload p) (length c) s = Inr ?t"
    using room inv by (simp add: frag_memcpy_ok r)
  then have "addFragment p s = Inr (?t\<lparr>m_dataSize := length got + length c\<rparr>)"
    using got inv p room by (simp add: addFragment_def next_fragment_def carries_def frag_inv_def Let_def)
  moreover have "collected (got @ c) ipl (?t\<lparr>m_dataSize := length got + length c\<rparr>)"
    using inv room by (auto simp: collected_def frag_inv_def)
  ultimately show ?thesis by blast
qed

lemma rest_fragments_collect:
  assumes "list_all2 carries ps cs" "collected got ipl s" "got \<noteq> []"
    "length got + length (concat cs) \<le> unat ipl"
  shows "\<exists>s'. run_ops addFragment ps s = Inr s' \<and> collected (got @ concat cs) ipl s'"
  using assms
proof (induction ps cs arbitrary: got s rule: list_all2_induct)
  case (Cons p ps c cs)
  then obtain t where t: "addFragment p s = Inr t" "collected (got @ c) ipl t"
    using next_fragment_collects [of got ipl s p c] by auto
  then show ?case using Cons.IH [of "got @ c" t] Cons.prems by simp
qed simp

section \<open>Running past the declared total\<close>

lemma addFragment_overrun:
  assumes "unat (m_totalLength s) < m_dataSize s" "addFragment p s = Inr s'"
  shows "\<not> isComplete s' \<and> (m_dataSize s' = 0 \<or> unat (m_totalLength s') < m_dataSize s')"
proof (cases "unat (m_dataAllocSize s) < m_dataSize s + unat (m_payloadLength p)")
  case True
  then have "s' = frag_reset s" using assms by (auto simp: addFragment_def next_fragment_def Let_def)
  then show ?thesis by (simp add: frag_reset_def isComplete_def)
next
  case False
  then obtain u where u: "frag_memcpy (m_dataSize s) (m_payload p) (unat (m_payloadLength p)) s = Inr u"
    "s' = u\<lparr>m_dataSize := m_dataSize u + unat (m_payloadLength p)\<rparr>"
    using assms by (auto simp: addFragment_def next_fragment_def Let_def result_simps)
  then have "m_totalLength s' = m_totalLength s" "m_dataSize s' = m_dataSize s + unat (m_payloadLength p)"
    by (auto simp: frag_memcpy_def result_simps)
  then show ?thesis using assms(1) by (simp add: isComplete_def)
qed

section \<open>Properties\<close>

text \<open>C22: a packet of 1 to 4 MiB, cut into any fragments of which the first is not empty, is put
  together again: from every idle state of the sequence, fresh or with a buffer kept from an
  earlier packet, no fragment faults, the sequence is complete after the last fragment and
  holds exactly the packet, and it is not complete before the last byte has arrived.\<close>

theorem fragments_reassemble:
  assumes "frag_inv s" "m_dataSize s = 0" "carries p (be32_bytes ipl @ c)" "list_all2 carries ps cs"
    "c \<noteq> []" "0 < ipl" "ipl \<le> kMaxFragmentBuffer" "length (c @ concat cs) \<le> unat ipl"
  shows "\<exists>s'. run_ops addFragment (p # ps) s = Inr s' \<and> frag_inv s' \<and>
    take (m_dataSize s') (m_data s') = c @ concat cs \<and>
    (isComplete s' \<longleftrightarrow> length (c @ concat cs) = unat ipl)"
proof -
  obtain t where t: "addFragment p s = Inr t" "collected c ipl t"
    using first_fragment_collects [OF assms(1-3,6,7)] assms(8) by auto
  then obtain s' where s': "run_ops addFragment ps t = Inr s'" "collected (c @ concat cs) ipl s'"
    using rest_fragments_collect [OF assms(4) t(2) assms(5)] assms(8) by auto
  then show ?thesis
    using t assms(5) isComplete_collected [OF s'(2)] by (auto simp: collected_def)
qed

theorem fragments_reassemble_witness:
  "\<exists>s'. run_ops addFragment
      [blank_packet\<lparr>m_payload := [0, 0, 0, 3, 7], m_payloadLength := 5\<rparr>,
       blank_packet\<lparr>m_payload := [8, 9, 1], m_payloadLength := 2\<rparr>] (mkFragmentSequence zone2client) = Inr s'
    \<and> isComplete s' \<and> take (m_dataSize s') (m_data s') = [7, 8, 9]"
  using fragments_reassemble [of "mkFragmentSequence zone2client"
      "blank_packet\<lparr>m_payload := [0, 0, 0, 3, 7], m_payloadLength := 5\<rparr>" 3 "[7]"
      "[blank_packet\<lparr>m_payload := [8, 9, 1], m_payloadLength := 2\<rparr>]" "[[8, 9]]"]
  by (simp add: frag_inv_new carries_def payload_bytes_def be32_bytes_def kMaxFragmentBuffer_def)
    (auto simp: mkFragmentSequence_def)

text \<open>The first fragment is not checked against the buffer it declares: from an idle
  sequence, a first fragment with a plausible total overruns the heap buffer exactly when it
  carries more bytes than the larger of its declared total and the buffer kept from before
  (a payload below four bytes counts as one of almost 2^32).\<close>

theorem first_fragment_overflows_iff:
  assumes "frag_inv s" "m_dataSize s = 0" "eqntohuint32 (m_payload p) = Inr ipl"
    "0 < ipl" "ipl \<le> kMaxFragmentBuffer"
  shows "addFragment p s = Inl HeapOverflow \<longleftrightarrow>
    unat (max ipl (m_dataAllocSize s)) < unat (m_payloadLength p - 4)"
proof -
  define t where "t = (if m_dataAllocSize s < ipl
      then s\<lparr>m_totalLength := ipl, m_dataAllocSize := ipl, m_data := replicate (unat ipl) 0\<rparr>
      else s\<lparr>m_totalLength := ipl\<rparr>)"
  have "length (m_data t) = unat (max ipl (m_dataAllocSize s))"
    using assms(1) by (auto simp: t_def frag_inv_def max_def)
  then have "frag_memcpy 0 (drop 4 (m_payload p)) n t = Inl HeapOverflow \<longleftrightarrow> unat (max ipl (m_dataAllocSize s)) < n" for n
    by (auto simp: frag_memcpy_def result_simps not_le)
  then show ?thesis
    by (simp add: first_fragment_step [OF assms(2-5)] result_simps flip: t_def)
qed

theorem first_fragment_overflows_iff_witness:
  "addFragment (blank_packet\<lparr>m_payload := [0, 0, 0, 1, 7, 7], m_payloadLength := 6\<rparr>) (mkFragmentSequence zone2client)
     = Inl HeapOverflow"
proof -
  let ?s = "mkFragmentSequence zone2client"
  let ?p = "blank_packet\<lparr>m_payload := [0, 0, 0, 1, 7, 7], m_payloadLength := 6\<rparr>"
  have "m_dataSize ?s = 0" "m_dataAllocSize ?s = 0" by (simp_all add: mkFragmentSequence_def)
  moreover have "eqntohuint32 (m_payload ?p) = Inr 1" by (simp add: eqntohuint32_def be32_def)
  moreover have "(0 :: u32) < 1" "1 \<le> kMaxFragmentBuffer" by (simp_all add: kMaxFragmentBuffer_def)
  ultimately show ?thesis
    using first_fragment_overflows_iff [OF frag_inv_new, of zone2client ?p 1] by simp
qed

text \<open>A sequence that has taken in more than its declared total, which the bound on the kept
  buffer allows, never completes: whatever fragments follow, it is incomplete after each of
  them until one of them resets it.\<close>

theorem overrun_never_completes:
  assumes "unat (m_totalLength s) < m_dataSize s" "run_ops addFragment ps s = Inr s'"
    "\<And>qs t. \<lbrakk>\<exists>rs. ps = qs @ rs \<and> rs \<noteq> []; run_ops addFragment qs s = Inr t\<rbrakk> \<Longrightarrow> m_dataSize t \<noteq> 0"
  shows "\<not> isComplete s'"
  using assms
proof (induction ps arbitrary: s)
  case Nil
  then show ?case by (simp add: isComplete_def)
next
  case (Cons p ps)
  obtain t where t: "addFragment p s = Inr t" "run_ops addFragment ps t = Inr s'"
    using Cons.prems(2) by (auto simp: result_simps)
  note o = addFragment_overrun [OF Cons.prems(1) t(1)]
  show ?case
  proof (cases "ps = []")
    case True
    then show ?thesis using o t(2) by simp
  next
    case False
    have "m_dataSize t \<noteq> 0" using Cons.prems(3) [of "[p]" t] False t(1) by auto
    then have lt: "unat (m_totalLength t) < m_dataSize t" using o by (elim conjE disjE) simp_all
    have alive: "m_dataSize u \<noteq> 0" if "\<exists>rs. ps = qs @ rs \<and> rs \<noteq> []" "run_ops addFragment qs t = Inr u" for qs u
      using Cons.prems(3) [of "p # qs" u] that t(1) by auto
    show ?thesis by (rule Cons.IH [OF lt t(2) alive])
  qed
qed

text \<open>The state of the witness: a buffer of 8 bytes kept from an earlier packet, a declared
  total of 2, and 3 bytes taken in.\<close>

theorem overrun_never_completes_witness:
  "let s = \<lparr>m_streamid = zone2client, m_data = replicate 8 0, m_totalLength = 2, m_dataSize = 3, m_dataAllocSize = 8\<rparr>;
       p = blank_packet\<lparr>m_payload := [1, 2], m_payloadLength := 2\<rparr>
   in frag_inv s \<and> (\<exists>s'. run_ops addFragment [p] s = Inr s' \<and> m_dataSize s' = 5 \<and> \<not> isComplete s')"
proof -
  let ?s = "\<lparr>m_streamid = zone2client, m_data = replicate 8 0, m_totalLength = 2, m_dataSize = 3, m_dataAllocSize = 8\<rparr> :: fragment_seq"
  let ?p = "blank_packet\<lparr>m_payload := [1, 2], m_payloadLength := 2\<rparr>"
  obtain s' where s': "run_ops addFragment [?p] ?s = Inr s'" "m_dataSize s' = 5"
    by (simp add: addFragment_def next_fragment_def frag_memcpy_def rd_bytes_def)
  have prefix: "m_dataSize t \<noteq> 0"
    if "\<exists>rs. [?p] = qs @ rs \<and> rs \<noteq> []" "run_ops addFragment qs ?s = Inr t" for qs t
    using that by (cases qs) auto
  have "\<not> isComplete s'"
    using overrun_never_completes [OF _ s'(1) prefix] by simp
  then show ?thesis using s' by (auto simp: frag_inv_def kMaxFragmentBuffer_def)
qed

end
