(* ===== verification/Tables.thy ===== *)
theory Tables
  imports Prelude "HOL-Library.AList"
begin

text \<open>
  The containers the daemon keeps its state in, each behind the interface its clients rely
  on: \<open>QHash\<close> as an association list with distinct keys, and \<open>std::map\<close> as an association
  list sorted by key, which adds \<open>begin()\<close> and iteration in key order.
\<close>

section \<open>The interface of a finite table\<close>

locale finite_table =
  fixes empty :: 't
    and get :: "'t \<Rightarrow> 'k \<Rightarrow> 'v option"
    and put :: "'k \<Rightarrow> 'v \<Rightarrow> 't \<Rightarrow> 't"
    and del :: "'k \<Rightarrow> 't \<Rightarrow> 't"
    and inv :: "'t \<Rightarrow> bool"
  assumes get_empty: "get empty k = None"
    and get_put: "inv t \<Longrightarrow> get (put k v t) l = (if l = k then Some v else get t l)"
    and get_del: "inv t \<Longrightarrow> get (del k t) l = (if l = k then None else get t l)"
    and inv_empty: "inv empty"
    and inv_put: "inv t \<Longrightarrow> inv (put k v t)"
    and inv_del: "inv t \<Longrightarrow> inv (del k t)"
begin

lemma get_put_same: "inv t \<Longrightarrow> get (put k v t) k = Some v"
  by (simp add: get_put)

lemma get_put_other: "inv t \<Longrightarrow> l \<noteq> k \<Longrightarrow> get (put k v t) l = get t l"
  by (simp add: get_put)

lemma put_put: "inv t \<Longrightarrow> get (put k v (put k w t)) l = get (put k v t) l"
  by (simp add: get_put inv_put)

lemma del_put: "inv t \<Longrightarrow> get (del k (put k v t)) l = get (del k t) l"
  by (simp add: get_put get_del inv_put)

text \<open>Filling a table from a list of rows: the last row of a key wins.\<close>

lemma fold_put:
  "inv t \<Longrightarrow> get (fold (\<lambda>(k, v). put k v) rows t) l =
     (case map_of (rev rows) l of Some v \<Rightarrow> Some v | None \<Rightarrow> get t l)
   \<and> inv (fold (\<lambda>(k, v). put k v) rows t)"
proof (induction rows arbitrary: t)
  case (Cons r rows)
  obtain k v where r: "r = (k, v)" by (cases r)
  show ?case
    using Cons.IH [of "put k v t"] Cons.prems
    by (auto simp: r inv_put get_put map_add_def split: option.splits)
qed simp

end

text \<open>A table whose keys are visited in increasing order.\<close>

locale ordered_table = finite_table empty get put del inv
  for empty :: 't and get :: "'t \<Rightarrow> 'k::linorder \<Rightarrow> 'v option" and put del inv +
  fixes first :: "'t \<Rightarrow> 'k option" and after :: "'k \<Rightarrow> 't \<Rightarrow> 'k option"
  assumes first_least: "inv t \<Longrightarrow> first t = Some k \<Longrightarrow> get t k \<noteq> None \<and> (\<forall>l. get t l \<noteq> None \<longrightarrow> k \<le> l)"
    and first_none: "inv t \<Longrightarrow> first t = None \<Longrightarrow> get t l = None"
    and after_least: "inv t \<Longrightarrow> after k t = Some m \<Longrightarrow>
      k < m \<and> get t m \<noteq> None \<and> (\<forall>l. k < l \<longrightarrow> get t l \<noteq> None \<longrightarrow> m \<le> l)"
    and after_none: "inv t \<Longrightarrow> after k t = None \<Longrightarrow> k < l \<Longrightarrow> get t l = None"
begin

text \<open>If the key after \<open>k\<close> in the order is present, it is the next one visited.\<close>

lemma after_successor:
  assumes "inv t" "k < m" "get t m \<noteq> None" "\<And>l. k < l \<Longrightarrow> get t l \<noteq> None \<Longrightarrow> m \<le> l"
  shows "after k t = Some m"
proof (cases "after k t")
  case None
  then show ?thesis using after_none [OF assms(1) None assms(2)] assms(3) by simp
next
  case (Some n)
  then have "k < n" "get t n \<noteq> None" "n \<le> m" using after_least [OF assms(1) Some] assms(2,3) by auto
  then show ?thesis using assms(4) Some by (simp add: order_antisym)
qed

end

section \<open>Hash tables\<close>

definition qhash_inv :: "('k \<times> 'v) list \<Rightarrow> bool" where
  "qhash_inv t \<longleftrightarrow> distinct (map fst t)"

interpretation qhash: finite_table "[]" map_of AList.update AList.delete qhash_inv
  by unfold_locales
    (auto simp: qhash_inv_def update_conv' delete_conv' distinct_update distinct_delete)

lemma qhash_take_del: "qhash_inv t \<Longrightarrow> map_of t k = Some v \<Longrightarrow> (k, v) \<in> set t"
  by (rule map_of_SomeD)

section \<open>Ordered maps\<close>

fun smap_put :: "'k::linorder \<Rightarrow> 'v \<Rightarrow> ('k \<times> 'v) list \<Rightarrow> ('k \<times> 'v) list" where
  "smap_put k v [] = [(k, v)]"
| "smap_put k v ((l, w) # t) =
     (if k < l then (k, v) # (l, w) # t else if k = l then (k, v) # t else (l, w) # smap_put k v t)"

definition smap_del :: "'k \<Rightarrow> ('k \<times> 'v) list \<Rightarrow> ('k \<times> 'v) list" where
  "smap_del k t = filter (\<lambda>p. fst p \<noteq> k) t"

definition smap_first :: "('k \<times> 'v) list \<Rightarrow> 'k option" where
  "smap_first t = (case t of [] \<Rightarrow> None | p # _ \<Rightarrow> Some (fst p))"

definition smap_after :: "'k::linorder \<Rightarrow> ('k \<times> 'v) list \<Rightarrow> 'k option" where
  "smap_after k t = map_option fst (find (\<lambda>p. k < fst p) t)"

definition smap_inv :: "('k::linorder \<times> 'v) list \<Rightarrow> bool" where
  "smap_inv t \<longleftrightarrow> sorted_wrt (<) (map fst t)"

lemma smap_inv_Nil [simp]: "smap_inv []"
  by (simp add: smap_inv_def)

lemma smap_inv_Cons: "smap_inv ((k, v) # t) \<longleftrightarrow> (\<forall>p \<in> set t. k < fst p) \<and> smap_inv t"
  by (auto simp: smap_inv_def)

lemma smap_Cons_less: "smap_inv ((k, v) # t) \<Longrightarrow> map_of t l = Some w \<Longrightarrow> k < l"
  by (auto simp: smap_inv_Cons dest!: map_of_SomeD)

lemma set_smap_put: "p \<in> set (smap_put k v t) \<Longrightarrow> p = (k, v) \<or> p \<in> set t"
  by (induction k v t rule: smap_put.induct) (auto split: if_splits)

lemma smap_inv_put: "smap_inv t \<Longrightarrow> smap_inv (smap_put k v t)"
  by (induction k v t rule: smap_put.induct)
    (auto simp: smap_inv_Cons dest!: set_smap_put)

lemma smap_get_put: "smap_inv t \<Longrightarrow> map_of (smap_put k v t) l = (if l = k then Some v else map_of t l)"
  by (induction k v t rule: smap_put.induct) (auto simp: smap_inv_Cons)

lemma smap_inv_del: "smap_inv t \<Longrightarrow> smap_inv (smap_del k t)"
  by (induction t) (auto simp: smap_inv_Cons smap_del_def)

lemma smap_get_del: "map_of (smap_del k t) l = (if l = k then None else map_of t l)"
  by (induction t) (auto simp: smap_del_def)

lemma smap_get_none: "map_of t l = None \<longleftrightarrow> l \<notin> fst ` set t"
  by (rule map_of_eq_None_iff)

lemma smap_first_least:
  "smap_inv t \<Longrightarrow> smap_first t = Some k \<Longrightarrow> map_of t k \<noteq> None \<and> (\<forall>l. map_of t l \<noteq> None \<longrightarrow> k \<le> l)"
  by (cases t) (auto simp: smap_first_def dest!: smap_Cons_less intro: less_imp_le)

lemma smap_after_least:
  "smap_inv t \<Longrightarrow> smap_after k t = Some m \<Longrightarrow>
     k < m \<and> map_of t m \<noteq> None \<and> (\<forall>l. k < l \<longrightarrow> map_of t l \<noteq> None \<longrightarrow> m \<le> l)"
proof (induction t)
  case (Cons p t)
  show ?case
  proof (cases "k < fst p")
    case True
    then show ?thesis using Cons.prems
      by (cases p) (auto simp: smap_after_def dest!: smap_Cons_less intro: less_imp_le)
  next
    case False
    then have "smap_after k t = Some m" "smap_inv t" using Cons.prems
      by (cases p; simp add: smap_after_def smap_inv_Cons)+
    then show ?thesis using Cons.IH False by (cases p) auto
  qed
qed (simp add: smap_after_def)

lemma smap_after_none: "smap_after k t = None \<Longrightarrow> k < l \<Longrightarrow> map_of t l = None"
  by (auto simp: smap_after_def find_None_iff map_of_eq_None_iff)

interpretation smap: ordered_table "[]" map_of smap_put smap_del smap_inv smap_first smap_after
proof unfold_locales
  fix t :: "('a \<times> 'b) list" and k l
  show "smap_first t = None \<Longrightarrow> map_of t l = None" by (cases t) (auto simp: smap_first_def)
qed (auto simp: smap_inv_put smap_get_put smap_inv_del smap_get_del
      dest: smap_first_least smap_after_least smap_after_none)

lemma smap_put_length:
  "smap_inv t \<Longrightarrow> length (smap_put k v t) = (if map_of t k = None then Suc (length t) else length t)"
proof (induction k v t rule: smap_put.induct)
  case (2 k v l w t)
  have "map_of t k = None" if "k < l"
    using smap_Cons_less [OF 2(2), of k] that by (cases "map_of t k") auto
  then show ?case using 2 by (auto simp: smap_inv_Cons)
qed simp

lemma smap_del_length_less: "map_of t k \<noteq> None \<Longrightarrow> length (smap_del k t) < length t"
  by (induction t) (auto simp: smap_del_def less_Suc_eq_le)

end
