(* ===== verification/PacketInfo.thy ===== *)
theory PacketInfo
  imports PacketCommon Tables
begin

text \<open>
  What an application opcode is and how its payload is recognised: the type sizes
  (\<open>EQPacketTypeDB\<close>), the payload descriptions and their size gates
  (\<open>EQPacketPayload\<close>), the opcodes (\<open>EQPacketOPCode\<close>), the handler lists
  (\<open>EQPacketDispatch\<close>) and the opcode table with its two indices
  (\<open>EQPacketOPCodeDB\<close>), from \<open>src/packetinfo.h\<close> and \<open>src/packetinfo.cpp\<close>.
\<close>

section \<open>Type sizes\<close>

datatype size_check = SZC_None | SZC_Match | SZC_Modulus

record type_db =
  m_typeSizeDict :: "(string \<times> nat) list"
  m_overriddenTypes :: "string list"

definition addStruct :: "string \<Rightarrow> nat \<Rightarrow> type_db \<Rightarrow> type_db" where
  "addStruct typeName sz db = db\<lparr>m_typeSizeDict := AList.update typeName sz (m_typeSizeDict db)\<rparr>"

definition add_override :: "string \<times> nat \<Rightarrow> type_db \<Rightarrow> type_db" where
  "add_override s db =
     (let db = addStruct (fst s) (snd s) db
      in db\<lparr>m_overriddenTypes := List.insert (fst s) (m_overriddenTypes db)\<rparr>)"

text \<open>
  The constructor: \<open>structs\<close> are the entries of the generated \<open>s_everquest.h\<close>, whose sizes
  the compiler computes, and \<open>overrides\<close> the answer of the Rust backend.
\<close>

definition mkTypeDB :: "(string \<times> nat) list \<Rightarrow> (string \<times> nat) list \<Rightarrow> type_db" where
  "mkTypeDB structs overrides =
     (let db = fold (\<lambda>(n, s). addStruct n s) structs \<lparr>m_typeSizeDict = [], m_overriddenTypes = []\<rparr>;
          db = addStruct ''char'' 1 db;
          db = addStruct ''uint8_t'' 1 db;
          db = addStruct ''none'' 0 db;
          db = addStruct ''unknown'' 0 db
      in fold add_override overrides db)"

definition td_size :: "type_db \<Rightarrow> string \<Rightarrow> nat" where
  "td_size db typeName = (case map_of (m_typeSizeDict db) typeName of Some n \<Rightarrow> n | None \<Rightarrow> 0)"

definition td_valid :: "type_db \<Rightarrow> string \<Rightarrow> bool" where
  "td_valid db typeName \<longleftrightarrow> td_size db typeName \<noteq> 0"

definition wasOverridden :: "type_db \<Rightarrow> string \<Rightarrow> bool" where
  "wasOverridden db typeName \<longleftrightarrow> typeName \<in> set (m_overriddenTypes db)"

definition hasOverrides :: "type_db \<Rightarrow> bool" where
  "hasOverrides db \<longleftrightarrow> m_overriddenTypes db \<noteq> []"

section \<open>Payloads\<close>

record payload =
  m_typeName :: string
  m_typeSize :: nat
  m_sizeCheckType :: size_check
  m_dir :: u8

definition new_payload :: payload where
  "new_payload = \<lparr>m_typeName = '''', m_typeSize = 0, m_sizeCheckType = SZC_None, m_dir = 0\<rparr>"

definition setType :: "type_db \<Rightarrow> string \<Rightarrow> payload \<Rightarrow> bool \<times> payload" where
  "setType db typeName p =
     (if \<not> td_valid db typeName then (False, p)
      else (True, p\<lparr>m_typeName := typeName, m_typeSize := td_size db typeName\<rparr>))"

text \<open>\<open>&&\<close> does not evaluate the remainder for a payload of the other direction.\<close>

definition payload_match :: "payload \<Rightarrow> nat \<Rightarrow> u8 \<Rightarrow> bool res" where
  "payload_match p sz dir =
     (case m_sizeCheckType p of
        SZC_None \<Rightarrow> Inr (m_dir p AND dir \<noteq> 0)
      | SZC_Match \<Rightarrow> Inr (m_dir p AND dir \<noteq> 0 \<and> m_typeSize p = sz)
      | SZC_Modulus \<Rightarrow>
          if m_dir p AND dir \<noteq> 0
          then if m_typeSize p = 0 then Inl DivideByZero else Inr (sz mod m_typeSize p = 0)
          else Inr False)"

section \<open>Opcodes\<close>

record opcode =
  m_opcode :: u16
  m_implicitLen :: u16
  m_name :: string
  m_updated :: string
  m_comments :: "string list"
  m_payloads :: "payload list"

definition mkOPCode :: "u16 \<Rightarrow> string \<Rightarrow> opcode" where
  "mkOPCode op name = \<lparr>m_opcode = op, m_implicitLen = 0, m_name = name, m_updated = '''',
     m_comments = [], m_payloads = []\<rparr>"

text \<open>The copy constructor copies neither the comments nor the payload list it derives from.\<close>

definition copyOPCode :: "opcode \<Rightarrow> opcode" where
  "copyOPCode o1 = \<lparr>m_opcode = m_opcode o1, m_implicitLen = m_implicitLen o1, m_name = m_name o1,
     m_updated = m_updated o1, m_comments = [], m_payloads = []\<rparr>"

definition addComment :: "string \<Rightarrow> opcode \<Rightarrow> opcode" where
  "addComment c p = p\<lparr>m_comments := m_comments p @ [c]\<rparr>"

definition removeComment :: "string \<Rightarrow> opcode \<Rightarrow> bool \<times> opcode" where
  "removeComment c p =
     (if c \<in> set (m_comments p) then (True, p\<lparr>m_comments := remove1 c (m_comments p)\<rparr>) else (False, p))"

definition clearComments :: "opcode \<Rightarrow> opcode" where
  "clearComments p = p\<lparr>m_comments := []\<rparr>"

fun find_payload :: "payload list \<Rightarrow> nat \<Rightarrow> u8 \<Rightarrow> payload option res" where
  "find_payload [] sz dir = Inr None"
| "find_payload (p # ps) sz dir =
     rbind (payload_match p sz dir) (\<lambda>b. if b then Inr (Some p) else find_payload ps sz dir)"

definition op_find :: "opcode \<Rightarrow> nat \<Rightarrow> u8 \<Rightarrow> payload option res" where
  "op_find p sz dir = find_payload (m_payloads p) sz dir"

section \<open>Handlers\<close>

text \<open>A handler is an opaque callable: an activation records which one ran on what.\<close>

type_synonym handler = nat
type_synonym activation = "handler \<times> bytes \<times> nat \<times> u8"

definition dispatch_add :: "handler \<Rightarrow> handler list \<Rightarrow> handler list" where
  "dispatch_add h hs = hs @ [h]"

definition dispatch_activate :: "handler list \<Rightarrow> bytes \<Rightarrow> nat \<Rightarrow> u8 \<Rightarrow> activation list" where
  "dispatch_activate hs data len dir = map (\<lambda>h. (h, data, len, dir)) hs"

section \<open>The opcode table\<close>

text \<open>
  The opcode objects live on the heap, at addresses that are never handed out twice here;
  \<open>db_heap a = None\<close> means that the object was deleted or never made. Both tables hold
  addresses.
\<close>

record opcode_db =
  db_heap :: "nat \<Rightarrow> opcode option"
  db_next :: nat
  m_opcodes :: "(u16 \<times> nat) list"
  m_opcodesByName :: "(string \<times> nat) list"
  m_section :: string

definition mkOPCodeDB :: "string \<Rightarrow> opcode_db" where
  "mkOPCodeDB section = \<lparr>db_heap = (\<lambda>_. None), db_next = 0, m_opcodes = [], m_opcodesByName = [],
     m_section = section\<rparr>"

definition deref :: "opcode_db \<Rightarrow> nat \<Rightarrow> opcode res" where
  "deref db a = (case db_heap db a of Some p \<Rightarrow> Inr p | None \<Rightarrow> Inl UseAfterFree)"

definition store :: "nat \<Rightarrow> opcode \<Rightarrow> opcode_db \<Rightarrow> opcode_db" where
  "store a p db = db\<lparr>db_heap := (db_heap db)(a \<mapsto> p)\<rparr>"

definition db_add :: "u16 \<Rightarrow> string \<Rightarrow> opcode_db \<Rightarrow> nat \<times> opcode_db" where
  "db_add op name db =
     (let a = db_next db in
      (a, db\<lparr>db_heap := (db_heap db)(a \<mapsto> mkOPCode op name), db_next := Suc a,
             m_opcodes := AList.update op a (m_opcodes db),
             m_opcodesByName := AList.update name a (m_opcodesByName db)\<rparr>))"

text \<open>\<open>find\<close> and \<open>edit\<close> by id and by name return the pointer or null.\<close>

definition db_find :: "opcode_db \<Rightarrow> u16 \<Rightarrow> nat option" where
  "db_find db op = map_of (m_opcodes db) op"

definition db_find_name :: "opcode_db \<Rightarrow> string \<Rightarrow> nat option" where
  "db_find_name db name = map_of (m_opcodesByName db) name"

definition free :: "nat \<Rightarrow> opcode_db \<Rightarrow> opcode_db" where
  "free a db = db\<lparr>db_heap := (db_heap db)(a := None)\<rparr>"

definition db_remove :: "u16 \<Rightarrow> opcode_db \<Rightarrow> (bool \<times> opcode_db) res" where
  "db_remove op db =
     (case map_of (m_opcodes db) op of
        None \<Rightarrow> Inr (False, db)
      | Some a \<Rightarrow>
          let db = db\<lparr>m_opcodes := AList.delete op (m_opcodes db)\<rparr> in
          rbind (deref db a) (\<lambda>p.
          let db = db\<lparr>m_opcodesByName := AList.delete (m_name p) (m_opcodesByName db)\<rparr>
          in Inr (True, free a db)))"

definition db_remove_name :: "string \<Rightarrow> opcode_db \<Rightarrow> (bool \<times> opcode_db) res" where
  "db_remove_name name db =
     (case map_of (m_opcodesByName db) name of
        None \<Rightarrow> Inr (False, db)
      | Some a \<Rightarrow>
          let db = db\<lparr>m_opcodesByName := AList.delete name (m_opcodesByName db)\<rparr> in
          rbind (deref db a) (\<lambda>p.
          let db = db\<lparr>m_opcodes := AList.delete (m_opcode p) (m_opcodes db)\<rparr>
          in Inr (True, free a db)))"

definition db_move :: "u16 \<Rightarrow> u16 \<Rightarrow> opcode_db \<Rightarrow> (bool \<times> opcode_db) res" where
  "db_move old new db =
     (case map_of (m_opcodes db) old of
        None \<Rightarrow> Inr (False, db)
      | Some a \<Rightarrow>
          let db = db\<lparr>m_opcodes := AList.delete old (m_opcodes db)\<rparr> in
          rbind (deref db a) (\<lambda>p.
          let db = store a (p\<lparr>m_opcode := new\<rparr>) db
          in Inr (True, db\<lparr>m_opcodes := AList.update new a (m_opcodes db)\<rparr>)))"

definition db_move_name :: "string \<Rightarrow> string \<Rightarrow> opcode_db \<Rightarrow> (bool \<times> opcode_db) res" where
  "db_move_name old new db =
     (case map_of (m_opcodesByName db) old of
        None \<Rightarrow> Inr (False, db)
      | Some a \<Rightarrow>
          let db = db\<lparr>m_opcodesByName := AList.delete old (m_opcodesByName db)\<rparr> in
          rbind (deref db a) (\<lambda>p.
          let db = store a (p\<lparr>m_name := new\<rparr>) db
          in Inr (True, db\<lparr>m_opcodesByName := AList.update new a (m_opcodesByName db)\<rparr>)))"

text \<open>\<open>qDeleteAll(m_opcodes)\<close> deletes each object of the id table once; freeing twice is a fault.\<close>

fun delete_all :: "nat list \<Rightarrow> opcode_db \<Rightarrow> opcode_db res" where
  "delete_all [] db = Inr db"
| "delete_all (a # as) db = rbind (deref db a) (\<lambda>_. delete_all as (free a db))"

definition db_clear :: "opcode_db \<Rightarrow> opcode_db res" where
  "db_clear db =
     rbind (delete_all (map snd (m_opcodes db)) db) (\<lambda>db.
     Inr (db\<lparr>m_opcodes := [], m_opcodesByName := []\<rparr>))"

section \<open>Loading the table\<close>

text \<open>
  What \<open>toml::parse_file\<close> hands over (the parser is a library): a parse error, or the arrays
  of the document by section, an element that is not a table being \<open>None\<close>. A field is
  \<open>None\<close> when it is absent or not of the type asked for.
\<close>

record toml_payload =
  tp_dir :: "string option"
  tp_typename :: "string option"
  tp_sizechecktype :: "string option"

record toml_opcode =
  t_id :: "string option"
  t_name :: "string option"
  t_updated :: "string option"
  t_implicitlen :: "string option"
  t_comment :: "string option"
  t_payloads :: "toml_payload option list option"

type_synonym toml_doc = "(string \<times> toml_opcode option list) list"

definition load_payload :: "type_db \<Rightarrow> toml_payload \<Rightarrow> payload" where
  "load_payload typeDB p =
     (let q = new_payload;
          q = (case tp_dir p of None \<Rightarrow> q
               | Some dir \<Rightarrow>
                   if dir = ''both'' then q\<lparr>m_dir := DIR_Client OR DIR_Server\<rparr>
                   else if dir = ''server'' then q\<lparr>m_dir := DIR_Server\<rparr>
                   else if dir = ''client'' then q\<lparr>m_dir := DIR_Client\<rparr>
                   else q);
          q = (case tp_typename p of None \<Rightarrow> q
               | Some typeName \<Rightarrow> if typeName \<noteq> '''' then snd (setType typeDB typeName q) else q)
      in (case tp_sizechecktype p of None \<Rightarrow> q
          | Some szt \<Rightarrow>
              if szt = '''' \<or> szt = ''none'' then q\<lparr>m_sizeCheckType := SZC_None\<rparr>
              else if szt = ''match'' then q\<lparr>m_sizeCheckType := SZC_Match\<rparr>
              else if szt = ''modulus'' then q\<lparr>m_sizeCheckType := SZC_Modulus\<rparr>
              else q))"

text \<open>
  \<open>toUShort base s\<close> is \<open>QString::toUShort\<close>: the value, or \<open>None\<close> where it reports failure.
  Without \<open>ok\<close> a failed conversion is 0.
\<close>

definition load_fields :: "(nat \<Rightarrow> string \<Rightarrow> u16 option) \<Rightarrow> type_db \<Rightarrow> toml_opcode \<Rightarrow> opcode \<Rightarrow> opcode" where
  "load_fields toUShort typeDB e p =
     (let p = (case t_updated e of None \<Rightarrow> p | Some v \<Rightarrow> p\<lparr>m_updated := v\<rparr>);
          p = (case t_implicitlen e of None \<Rightarrow> p
               | Some v \<Rightarrow> p\<lparr>m_implicitLen := (case toUShort 10 v of Some n \<Rightarrow> n | None \<Rightarrow> 0)\<rparr>);
          p = (case t_comment e of None \<Rightarrow> p | Some v \<Rightarrow> addComment v p)
      in (case t_payloads e of None \<Rightarrow> p
          | Some ps \<Rightarrow> p\<lparr>m_payloads := m_payloads p @ map (load_payload typeDB) (List.map_filter id ps)\<rparr>))"

fun load_rows ::
  "(nat \<Rightarrow> string \<Rightarrow> u16 option) \<Rightarrow> type_db \<Rightarrow> toml_opcode option list \<Rightarrow> opcode_db \<Rightarrow> bool \<times> opcode_db" where
  "load_rows toUShort typeDB [] db = (True, db)"
| "load_rows toUShort typeDB (None # rows) db = load_rows toUShort typeDB rows db"
| "load_rows toUShort typeDB (Some e # rows) db =
     (case (t_id e, t_name e) of
        (Some i, Some n) \<Rightarrow>
          (case toUShort 16 i of
             None \<Rightarrow> (False, db)
           | Some op \<Rightarrow>
               let (a, db) = db_add op n db
               in load_rows toUShort typeDB rows
                    (store a (load_fields toUShort typeDB e (mkOPCode op n)) db))
      | _ \<Rightarrow> (False, db))"

definition db_load ::
  "(nat \<Rightarrow> string \<Rightarrow> u16 option) \<Rightarrow> type_db \<Rightarrow> toml_doc option \<Rightarrow> opcode_db \<Rightarrow> bool \<times> opcode_db" where
  "db_load toUShort typeDB doc db =
     (case doc of
        None \<Rightarrow> (False, db)
      | Some d \<Rightarrow> (case map_of d (m_section db) of
                    None \<Rightarrow> (True, db)
                  | Some rows \<Rightarrow> load_rows toUShort typeDB rows db))"

section \<open>The gate-size audit\<close>

definition gate_undeclared :: "type_db \<Rightarrow> payload \<Rightarrow> bool" where
  "gate_undeclared typeDB p \<longleftrightarrow> m_sizeCheckType p = SZC_Match \<and>
     m_typeName p \<notin> {''uint8_t'', ''char'', ''none'', ''unknown''} \<and>
     \<not> wasOverridden typeDB (m_typeName p)"

fun warn_loop :: "type_db \<Rightarrow> opcode_db \<Rightarrow> (u16 \<times> nat) list \<Rightarrow> nat \<Rightarrow> nat res" where
  "warn_loop typeDB db [] flagged = Inr flagged"
| "warn_loop typeDB db ((k, a) # t) flagged =
     rbind (deref db a) (\<lambda>p.
       if m_opcode p = 0xffff then warn_loop typeDB db t flagged
       else warn_loop typeDB db t (flagged + length (filter (gate_undeclared typeDB) (m_payloads p))))"

definition warnUndeclaredBackendGateSizes :: "type_db \<Rightarrow> opcode_db \<Rightarrow> nat res" where
  "warnUndeclaredBackendGateSizes typeDB db =
     (if \<not> hasOverrides typeDB then Inr 0 else warn_loop typeDB db (m_opcodes db) 0)"

section \<open>Writing the table\<close>

definition hex_digit :: "nat \<Rightarrow> char" where
  "hex_digit n = ''0123456789abcdef'' ! (n mod 16)"

definition hex4 :: "u16 \<Rightarrow> string" where
  "hex4 w = (let n = unat w in map hex_digit [n div 4096, n div 256, n div 16, n])"

fun dec_str :: "nat \<Rightarrow> string" where
  "dec_str n = (if n < 10 then [hex_digit n] else dec_str (n div 10) @ [hex_digit (n mod 10)])"

declare dec_str.simps [simp del]

text \<open>\<open>dirStrs[dir() - 1]\<close>: outside 1 to 3 the array is read out of bounds.\<close>

definition dir_str :: "u8 \<Rightarrow> string res" where
  "dir_str d = (if d = 1 then Inr ''client'' else if d = 2 then Inr ''server''
     else if d = 3 then Inr ''both'' else Inl OutOfBounds)"

definition szt_str :: "size_check \<Rightarrow> string" where
  "szt_str c = (case c of SZC_None \<Rightarrow> ''none'' | SZC_Match \<Rightarrow> ''match'' | SZC_Modulus \<Rightarrow> ''modulus'')"

definition dq :: string where "dq = [CHR 0x22]"

definition save_payload :: "payload \<Rightarrow> string res" where
  "save_payload p =
     rbind (dir_str (m_dir p)) (\<lambda>d.
       Inr (''        <payload dir='' @ dq @ d @ dq @ '' typename='' @ dq @ m_typeName p @ dq @
            '' sizechecktype='' @ dq @ szt_str (m_sizeCheckType p) @ dq @ ''/>''))"

fun save_payloads :: "payload list \<Rightarrow> string list res" where
  "save_payloads [] = Inr []"
| "save_payloads (p # ps) = rbind (save_payload p) (\<lambda>l. rbind (save_payloads ps) (\<lambda>ls. Inr (l # ls)))"

definition save_opcode :: "opcode \<Rightarrow> string list res" where
  "save_opcode p =
     rbind (save_payloads (m_payloads p)) (\<lambda>ls.
       Inr ([''    <opcode id='' @ dq @ hex4 (m_opcode p) @ dq @ '' name='' @ dq @ m_name p @ dq @
             (if m_implicitLen p \<noteq> 0 then '' implicitlen='' @ dq @ dec_str (unat (m_implicitLen p)) @ dq else '''') @
             (if m_updated p \<noteq> '''' then '' updated='' @ dq @ m_updated p @ dq else '''') @ ''>'']
            @ map (\<lambda>c. ''        <comment>'' @ c @ ''</comment>'') (m_comments p)
            @ ls @ [''    </opcode>'']))"

text \<open>\<open>std::map::insert\<close> keeps the entry a key already has.\<close>

fun order_opcodes :: "opcode_db \<Rightarrow> (u16 \<times> nat) list \<Rightarrow> (nat \<times> opcode) list \<Rightarrow> (nat \<times> opcode) list res" where
  "order_opcodes db [] t = Inr t"
| "order_opcodes db ((k, a) # rest) t =
     rbind (deref db a) (\<lambda>p.
       order_opcodes db rest
         (if map_of t (unat (m_opcode p)) = None then smap_put (unat (m_opcode p)) p t else t))"

fun save_all :: "(nat \<times> opcode) list \<Rightarrow> string list res" where
  "save_all [] = Inr []"
| "save_all ((k, p) # t) = rbind (save_opcode p) (\<lambda>l. rbind (save_all t) (\<lambda>ls. Inr (l @ ls)))"

text \<open>The lines written, or \<open>None\<close> when the file cannot be opened.\<close>

definition db_save :: "bool \<Rightarrow> opcode_db \<Rightarrow> string list option res" where
  "db_save can_open db =
     (if \<not> can_open then Inr None
      else rbind (order_opcodes db (m_opcodes db) []) (\<lambda>t. rbind (save_all t) (\<lambda>ls.
        Inr (Some ([''<?xml version='' @ dq @ ''1.0'' @ dq @ '' encoding='' @ dq @ ''UTF-8'' @ dq @ ''?>'',
                    ''<!DOCTYPE seqopcodes SYSTEM '' @ dq @ ''seqopcodes.dtd'' @ dq @ ''>'',
                    ''<seqopcodes>''] @ ls @ [''</seqopcodes>''])))))"

section \<open>Lookup laws of the type sizes\<close>

lemma td_size_addStruct: "td_size (addStruct n s db) m = (if m = n then s else td_size db m)"
  by (simp add: td_size_def addStruct_def update_conv')

lemma td_size_add_override: "td_size (add_override ov db) m = (if m = fst ov then snd ov else td_size db m)"
  by (simp add: add_override_def Let_def td_size_def addStruct_def update_conv')

lemma td_size_overrides:
  "td_size (fold add_override ovs db) m = (case map_of (rev ovs) m of Some s \<Rightarrow> s | None \<Rightarrow> td_size db m)"
  by (induction ovs arbitrary: db) (auto simp: td_size_add_override map_add_def split: option.splits)

lemma td_size_structs:
  "td_size (fold (\<lambda>(n, s). addStruct n s) st db) m = (case map_of (rev st) m of Some s \<Rightarrow> s | None \<Rightarrow> td_size db m)"
  by (induction st arbitrary: db) (auto simp: td_size_addStruct map_add_def split: option.splits)

lemma overridden_fold:
  "set (m_overriddenTypes (fold add_override ovs db)) = fst ` set ovs \<union> set (m_overriddenTypes db)"
  by (induction ovs arbitrary: db) (auto simp: add_override_def addStruct_def Let_def)

section \<open>The tables point at live objects\<close>

definition db_inv :: "opcode_db \<Rightarrow> bool" where
  "db_inv db \<longleftrightarrow> qhash_inv (m_opcodes db) \<and> qhash_inv (m_opcodesByName db)
     \<and> (\<forall>k a. map_of (m_opcodes db) k = Some a \<longrightarrow> (\<exists>p. db_heap db a = Some p \<and> m_opcode p = k))
     \<and> (\<forall>n a. map_of (m_opcodesByName db) n = Some a \<longrightarrow> (\<exists>p. db_heap db a = Some p \<and> m_name p = n))
     \<and> (\<forall>a. db_heap db a \<noteq> None \<longrightarrow> a < db_next db)"

lemma db_invI:
  assumes "qhash_inv (m_opcodes db)" "qhash_inv (m_opcodesByName db)"
    "\<And>k a. map_of (m_opcodes db) k = Some a \<Longrightarrow> \<exists>p. db_heap db a = Some p \<and> m_opcode p = k"
    "\<And>n a. map_of (m_opcodesByName db) n = Some a \<Longrightarrow> \<exists>p. db_heap db a = Some p \<and> m_name p = n"
    "\<And>a p. db_heap db a = Some p \<Longrightarrow> a < db_next db"
  shows "db_inv db"
  using assms by (auto simp: db_inv_def)

lemma db_invD:
  assumes "db_inv db"
  shows "qhash_inv (m_opcodes db)" "qhash_inv (m_opcodesByName db)"
    "map_of (m_opcodes db) k = Some a \<Longrightarrow> \<exists>p. db_heap db a = Some p \<and> m_opcode p = k"
    "map_of (m_opcodesByName db) n = Some a \<Longrightarrow> \<exists>p. db_heap db a = Some p \<and> m_name p = n"
    "db_heap db a = Some p \<Longrightarrow> a < db_next db"
  using assms by (auto simp: db_inv_def)

lemmas table_simps = update_conv' delete_conv' qhash.inv_put qhash.inv_del

lemma db_inv_new: "db_inv (mkOPCodeDB s)"
  by (auto simp: db_inv_def mkOPCodeDB_def qhash_inv_def)

lemma db_inv_add:
  assumes "db_inv db" "db_add op name db = (a, db')"
  shows "db_inv db'" "a = db_next db" "db_heap db' a = Some (mkOPCode op name)"
proof -
  note inv = db_invD [OF assms(1)]
  have db': "db' = db\<lparr>db_heap := (db_heap db)(db_next db \<mapsto> mkOPCode op name), db_next := Suc (db_next db),
      m_opcodes := AList.update op (db_next db) (m_opcodes db),
      m_opcodesByName := AList.update name (db_next db) (m_opcodesByName db)\<rparr>" "a = db_next db"
    using assms(2) by (auto simp: db_add_def Let_def)
  show "db_inv db'"
    using inv by (intro db_invI)
      (fastforce simp: db' table_simps mkOPCode_def split: if_splits)+
  show "a = db_next db" "db_heap db' a = Some (mkOPCode op name)" by (simp_all add: db')
qed

lemma db_inv_store:
  assumes "db_inv db" "db_heap db a = Some p" "m_opcode q = m_opcode p" "m_name q = m_name p"
  shows "db_inv (store a q db)"
  using assms by (fastforce simp: db_inv_def store_def)

lemma db_inv_free_id:
  assumes "db_inv db" "map_of (m_opcodes db) op = Some a" "db_heap db a = Some p"
  shows "db_inv (free a (db\<lparr>m_opcodes := AList.delete (m_opcode p) (m_opcodes db),
     m_opcodesByName := AList.delete (m_name p) (m_opcodesByName db)\<rparr>))"
  using db_invD [OF assms(1)] assms(2,3)
  by (intro db_invI) (fastforce simp: free_def table_simps split: if_splits)+

lemma db_inv_free_name:
  assumes "db_inv db" "map_of (m_opcodesByName db) n = Some a" "db_heap db a = Some p"
  shows "db_inv (free a (db\<lparr>m_opcodesByName := AList.delete (m_name p) (m_opcodesByName db),
     m_opcodes := AList.delete (m_opcode p) (m_opcodes db)\<rparr>))"
  using db_invD [OF assms(1)] assms(2,3)
  by (intro db_invI) (fastforce simp: free_def table_simps split: if_splits)+

lemma db_remove_sound:
  assumes "db_inv db"
  shows "\<exists>b db'. db_remove op db = Inr (b, db') \<and> db_inv db' \<and> (b \<longleftrightarrow> db_find db op \<noteq> None) \<and> db_find db' op = None"
proof (cases "map_of (m_opcodes db) op")
  case (Some a)
  then obtain p where p: "db_heap db a = Some p" "m_opcode p = op" using db_invD(3) [OF assms] by blast
  show ?thesis
    using db_inv_free_id [OF assms Some p(1)] Some p
    by (simp add: db_remove_def deref_def db_find_def Let_def ex_bool_eq) (simp add: free_def table_simps)
qed (use assms in \<open>simp add: db_remove_def db_find_def ex_bool_eq\<close>)

lemma db_remove_name_sound:
  assumes "db_inv db"
  shows "\<exists>b db'. db_remove_name n db = Inr (b, db') \<and> db_inv db' \<and> (b \<longleftrightarrow> db_find_name db n \<noteq> None)
    \<and> db_find_name db' n = None"
proof (cases "map_of (m_opcodesByName db) n")
  case (Some a)
  then obtain p where p: "db_heap db a = Some p" "m_name p = n" using db_invD(4) [OF assms] by blast
  show ?thesis
    using db_inv_free_name [OF assms Some p(1)] Some p
    by (simp add: db_remove_name_def deref_def db_find_name_def Let_def ex_bool_eq) (simp add: free_def table_simps)
qed (use assms in \<open>simp add: db_remove_name_def db_find_name_def ex_bool_eq\<close>)

lemma db_move_sound:
  assumes "db_inv db"
  shows "\<exists>b db'. db_move old new db = Inr (b, db') \<and> db_inv db' \<and> (b \<longrightarrow> db_find db' new = db_find db old)"
proof (cases "map_of (m_opcodes db) old")
  case (Some a)
  then obtain p where p: "db_heap db a = Some p" "m_opcode p = old" using db_invD(3) [OF assms] by blast
  let ?db = "store a (p\<lparr>m_opcode := new\<rparr>) (db\<lparr>m_opcodes := AList.delete old (m_opcodes db)\<rparr>)"
  have "db_inv (?db\<lparr>m_opcodes := AList.update new a (m_opcodes ?db)\<rparr>)"
    using db_invD [OF assms] Some p
    by (intro db_invI) (fastforce simp: store_def table_simps split: if_splits)+
  then show ?thesis
    using Some p by (simp add: db_move_def deref_def db_find_def Let_def update_conv' ex_bool_eq)
qed (use assms in \<open>simp add: db_move_def db_find_def ex_bool_eq\<close>)

lemma db_move_name_sound:
  assumes "db_inv db"
  shows "\<exists>b db'. db_move_name old new db = Inr (b, db') \<and> db_inv db' \<and>
    (b \<longrightarrow> db_find_name db' new = db_find_name db old)"
proof (cases "map_of (m_opcodesByName db) old")
  case (Some a)
  then obtain p where p: "db_heap db a = Some p" "m_name p = old" using db_invD(4) [OF assms] by blast
  let ?db = "store a (p\<lparr>m_name := new\<rparr>) (db\<lparr>m_opcodesByName := AList.delete old (m_opcodesByName db)\<rparr>)"
  have "db_inv (?db\<lparr>m_opcodesByName := AList.update new a (m_opcodesByName ?db)\<rparr>)"
    using db_invD [OF assms] Some p
    by (intro db_invI) (fastforce simp: store_def table_simps split: if_splits)+
  then show ?thesis
    using Some p by (simp add: db_move_name_def deref_def db_find_name_def Let_def update_conv' ex_bool_eq)
qed (use assms in \<open>simp add: db_move_name_def db_find_name_def ex_bool_eq\<close>)

lemma delete_all_distinct:
  "distinct as \<Longrightarrow> (\<And>a. a \<in> set as \<Longrightarrow> db_heap db a \<noteq> None) \<Longrightarrow>
     \<exists>db'. delete_all as db = Inr db' \<and> m_opcodes db' = m_opcodes db \<and> db_next db' = db_next db
       \<and> (\<forall>a. db_heap db' a \<noteq> None \<longrightarrow> db_heap db a \<noteq> None)"
proof (induction as arbitrary: db)
  case (Cons a as)
  have "\<exists>db'. delete_all as (free a db) = Inr db' \<and> m_opcodes db' = m_opcodes (free a db)
      \<and> db_next db' = db_next (free a db) \<and> (\<forall>b. db_heap db' b \<noteq> None \<longrightarrow> db_heap (free a db) b \<noteq> None)"
    using Cons.prems by (intro Cons.IH) (auto simp: free_def)
  then show ?case using Cons.prems(2) [of a]
    by (auto simp: deref_def free_def split: if_splits)
qed simp

lemma db_clear_sound:
  assumes "db_inv db"
  shows "\<exists>db'. db_clear db = Inr db' \<and> db_inv db' \<and> m_opcodes db' = [] \<and> m_opcodesByName db' = []"
proof -
  note inv = db_invD [OF assms]
  have "distinct (map snd (m_opcodes db))"
  proof -
    have "inj_on snd (set (m_opcodes db))"
    proof (rule inj_onI)
      fix x y assume "x \<in> set (m_opcodes db)" "y \<in> set (m_opcodes db)" "snd x = snd y"
      moreover have "map_of (m_opcodes db) (fst x) = Some (snd x)" if "x \<in> set (m_opcodes db)" for x
        using inv(1) that by (simp add: qhash_inv_def)
      ultimately have maps: "map_of (m_opcodes db) (fst x) = Some (snd x)" "map_of (m_opcodes db) (fst y) = Some (snd x)"
        by (metis, metis)
      then show "x = y"
        using inv(3) [OF maps(1)] inv(3) [OF maps(2)] \<open>snd x = snd y\<close> by (auto intro: prod_eqI)
    qed
    moreover have "distinct (m_opcodes db)" using inv(1) by (auto simp: qhash_inv_def distinct_map)
    ultimately show ?thesis by (simp add: distinct_map)
  qed
  moreover have "db_heap db a \<noteq> None" if "a \<in> set (map snd (m_opcodes db))" for a
    using that inv(1,3) by (fastforce simp: qhash_inv_def)
  ultimately obtain db' where "delete_all (map snd (m_opcodes db)) db = Inr db'"
    "db_next db' = db_next db" "\<forall>a. db_heap db' a \<noteq> None \<longrightarrow> db_heap db a \<noteq> None"
    using delete_all_distinct by blast
  then show ?thesis
    using inv(5) by (auto simp: db_clear_def db_inv_def qhash_inv_def)
qed

section \<open>What a load leaves in the table\<close>

definition obj_by_id :: "opcode_db \<Rightarrow> u16 \<Rightarrow> opcode option" where
  "obj_by_id db op = (case db_find db op of None \<Rightarrow> None | Some a \<Rightarrow> db_heap db a)"

definition obj_by_name :: "opcode_db \<Rightarrow> string \<Rightarrow> opcode option" where
  "obj_by_name db n = (case db_find_name db n of None \<Rightarrow> None | Some a \<Rightarrow> db_heap db a)"

definition row_id :: "(nat \<Rightarrow> string \<Rightarrow> u16 option) \<Rightarrow> toml_opcode \<Rightarrow> u16 option" where
  "row_id toUShort e = Option.bind (t_id e) (toUShort 16)"

text \<open>The object a row describes, and the last row of a table that satisfies a test.\<close>

definition row_opcode :: "(nat \<Rightarrow> string \<Rightarrow> u16 option) \<Rightarrow> type_db \<Rightarrow> toml_opcode \<Rightarrow> opcode" where
  "row_opcode toUShort typeDB e =
     load_fields toUShort typeDB e (mkOPCode (the (row_id toUShort e)) (the (t_name e)))"

definition last_row :: "(toml_opcode \<Rightarrow> bool) \<Rightarrow> toml_opcode option list \<Rightarrow> toml_opcode option" where
  "last_row P rows = find P (rev (List.map_filter id rows))"

lemma last_row_simps [simp]:
  "last_row P [] = None" "last_row P (None # rows) = last_row P rows"
  "last_row P (Some e # rows) =
     (case last_row P rows of Some r \<Rightarrow> Some r | None \<Rightarrow> if P e then Some e else None)"
  by (simp_all add: last_row_def find_append split: option.split)

lemma load_fields_key [simp]:
  "m_opcode (load_fields u t e p) = m_opcode p" "m_name (load_fields u t e p) = m_name p"
  by (simp_all add: load_fields_def Let_def addComment_def split: option.splits)

lemma load_row_step:
  assumes inv: "db_inv db" and add: "db_add op n db = (a, db1)"
    and q: "m_opcode q = op" "m_name q = n"
  shows "db_inv (store a q db1)"
    and "obj_by_name (store a q db1) m = (if m = n then Some q else obj_by_name db m)"
    and "obj_by_id (store a q db1) k = (if k = op then Some q else obj_by_id db k)"
    and "m_section (store a q db1) = m_section db"
proof -
  note a = db_inv_add [OF inv add]
  show "db_inv (store a q db1)" by (rule db_inv_store [OF a(1,3)]) (simp_all add: q mkOPCode_def)
  have old: "b \<noteq> a" if "db_heap db b = Some p" for b p
    using db_invD(5) [OF inv that] a(2) by simp
  have db1: "m_opcodes db1 = AList.update op a (m_opcodes db)"
    "m_opcodesByName db1 = AList.update n a (m_opcodesByName db)"
    "db_heap db1 = (db_heap db)(a \<mapsto> mkOPCode op n)"
    using add by (auto simp: db_add_def Let_def)
  show "obj_by_name (store a q db1) m = (if m = n then Some q else obj_by_name db m)"
  proof (cases "m = n \<or> db_find_name db m = None")
    case False
    then obtain b p where "db_find_name db m = Some b" "db_heap db b = Some p"
      using db_invD(4) [OF inv, of m] by (auto simp: db_find_name_def)
    then show ?thesis using False old by (auto simp: obj_by_name_def db_find_name_def store_def db1 update_conv')
  qed (auto simp: obj_by_name_def db_find_name_def store_def db1 update_conv')
  show "obj_by_id (store a q db1) k = (if k = op then Some q else obj_by_id db k)"
  proof (cases "k = op \<or> db_find db k = None")
    case False
    then obtain b p where "db_find db k = Some b" "db_heap db b = Some p"
      using db_invD(3) [OF inv, of k] by (auto simp: db_find_def)
    then show ?thesis using False old by (auto simp: obj_by_id_def db_find_def store_def db1 update_conv')
  qed (auto simp: obj_by_id_def db_find_def store_def db1 update_conv')
  show "m_section (store a q db1) = m_section db"
    using add by (auto simp: db_add_def Let_def store_def)
qed

lemma load_rows_inv: "db_inv db \<Longrightarrow> db_inv (snd (load_rows u t rows db))"
proof (induction u t rows db rule: load_rows.induct)
  case (3 u t e rows db)
  show ?case
  proof (cases "\<exists>i n op. t_id e = Some i \<and> t_name e = Some n \<and> u 16 i = Some op")
    case True
    then obtain i n op a db1 where r: "t_id e = Some i" "t_name e = Some n" "u 16 i = Some op"
      and add: "db_add op n db = (a, db1)" by (metis surj_pair)
    have "db_inv (store a (load_fields u t e (mkOPCode op n)) db1)"
      by (rule load_row_step(1) [OF 3(2) add]) (simp_all add: mkOPCode_def)
    from 3(1) [OF refl r(1,2,3) add [symmetric] refl this] show ?thesis by (simp add: r add)
  qed (use 3(2) in \<open>auto split: option.splits\<close>)
qed simp_all

lemma load_rows_objects:
  assumes "load_rows u t rows db = (True, db')" "db_inv db"
  shows "obj_by_name db' m = (case last_row (\<lambda>e. t_name e = Some m) rows of
      Some e \<Rightarrow> Some (row_opcode u t e) | None \<Rightarrow> obj_by_name db m)
    \<and> obj_by_id db' k = (case last_row (\<lambda>e. row_id u e = Some k) rows of
      Some e \<Rightarrow> Some (row_opcode u t e) | None \<Rightarrow> obj_by_id db k)"
  using assms
proof (induction u t rows db rule: load_rows.induct)
  case (3 u t e rows db)
  then obtain i n op a db1 where r: "t_id e = Some i" "t_name e = Some n" "u 16 i = Some op"
    and add: "db_add op n db = (a, db1)"
    and load: "load_rows u t rows (store a (load_fields u t e (mkOPCode op n)) db1) = (True, db')"
    by (auto split: option.splits prod.splits)
  have q: "m_opcode (load_fields u t e (mkOPCode op n)) = op" "m_name (load_fields u t e (mkOPCode op n)) = n"
    by (simp_all add: mkOPCode_def)
  note step = load_row_step [OF 3(3) add q]
  have row: "row_id u e = Some op" "row_opcode u t e = load_fields u t e (mkOPCode op n)"
    by (simp_all add: row_id_def row_opcode_def r)
  show ?case
    using 3(1) [OF refl r(1,2,3) add [symmetric] refl load step(1), unfolded step(2,3)]
    by (auto simp: r row split: option.splits)
qed simp_all

section \<open>The table as a machine\<close>

datatype db_op =
    DbAdd u16 string
  | DbRemove u16
  | DbRemoveName string
  | DbMove u16 u16
  | DbMoveName string string
  | DbClear
  | DbLoad "toml_doc option"

fun db_step :: "(nat \<Rightarrow> string \<Rightarrow> u16 option) \<Rightarrow> type_db \<Rightarrow> db_op \<Rightarrow> opcode_db \<Rightarrow> opcode_db res" where
  "db_step u t (DbAdd op n) db = Inr (snd (db_add op n db))"
| "db_step u t (DbRemove op) db = rbind (db_remove op db) (\<lambda>r. Inr (snd r))"
| "db_step u t (DbRemoveName n) db = rbind (db_remove_name n db) (\<lambda>r. Inr (snd r))"
| "db_step u t (DbMove k l) db = rbind (db_move k l db) (\<lambda>r. Inr (snd r))"
| "db_step u t (DbMoveName k l) db = rbind (db_move_name k l db) (\<lambda>r. Inr (snd r))"
| "db_step u t DbClear db = db_clear db"
| "db_step u t (DbLoad doc) db = Inr (snd (db_load u t doc db))"

lemma db_step_sound: "db_inv db \<Longrightarrow> \<exists>db'. db_step u t x db = Inr db' \<and> db_inv db'"
proof (induction x)
  case (DbAdd op n)
  then show ?case using db_inv_add(1) by (cases "db_add op n db") auto
next
  case (DbRemove op)
  then show ?case using db_remove_sound [of db op] by auto
next
  case (DbRemoveName n)
  then show ?case using db_remove_name_sound [of db n] by auto
next
  case (DbMove k l)
  then show ?case using db_move_sound [of db k l] by auto
next
  case (DbMoveName k l)
  then show ?case using db_move_name_sound [of db k l] by auto
next
  case DbClear
  then show ?case using db_clear_sound [of db] by auto
next
  case (DbLoad doc)
  then show ?case using load_rows_inv by (auto simp: db_load_def split: option.splits)
qed

interpretation opcodes: total_machine "db_step u t" db_inv "\<lambda>_ _. True"
  using db_step_sound by unfold_locales (metis Inr_inject, blast)

section \<open>The audit\<close>

definition mapped_undeclared :: "type_db \<Rightarrow> opcode_db \<Rightarrow> u16 \<Rightarrow> payload \<Rightarrow> bool" where
  "mapped_undeclared t db k pl \<longleftrightarrow> (\<exists>p. obj_by_id db k = Some p \<and> k \<noteq> 0xffff \<and> pl \<in> set (m_payloads p) \<and> gate_undeclared t pl)"

lemma warn_loop_result:
  assumes "\<And>k a. (k, a) \<in> set tb \<Longrightarrow> \<exists>p. db_heap db a = Some p \<and> m_opcode p = k"
  shows "\<exists>m. warn_loop t db tb n = Inr m \<and> n \<le> m \<and>
    (m = n \<longleftrightarrow> (\<forall>k a p pl. (k, a) \<in> set tb \<longrightarrow> db_heap db a = Some p \<longrightarrow> k \<noteq> 0xffff \<longrightarrow> pl \<in> set (m_payloads p) \<longrightarrow>
        \<not> gate_undeclared t pl))"
  using assms
proof (induction tb arbitrary: n)
  case (Cons x tb)
  obtain k a where x: "x = (k, a)" by (cases x)
  obtain p where p: "db_heap db a = Some p" "m_opcode p = k" using Cons.prems x by force
  have IH: "\<exists>m. warn_loop t db tb i = Inr m \<and> i \<le> m \<and>
    (m = i \<longleftrightarrow> (\<forall>k a p pl. (k, a) \<in> set tb \<longrightarrow> db_heap db a = Some p \<longrightarrow> k \<noteq> 0xffff \<longrightarrow> pl \<in> set (m_payloads p) \<longrightarrow>
        \<not> gate_undeclared t pl))" for i
    using Cons.prems by (intro Cons.IH) auto
  show ?case
  proof (cases "k = 0xffff")
    case True
    then show ?thesis using IH [of n] p by (auto simp: x deref_def)
  next
    case False
    let ?f = "filter (gate_undeclared t) (m_payloads p)"
    obtain m where m: "warn_loop t db tb (n + length ?f) = Inr m" "n + length ?f \<le> m"
      "m = n + length ?f \<longleftrightarrow> (\<forall>k a p pl. (k, a) \<in> set tb \<longrightarrow> db_heap db a = Some p \<longrightarrow> k \<noteq> 0xffff \<longrightarrow>
        pl \<in> set (m_payloads p) \<longrightarrow> \<not> gate_undeclared t pl)"
      using IH [of "n + length ?f"] by blast
    have "m = n \<longleftrightarrow> ?f = [] \<and> m = n + length ?f" using m(2) by auto
    moreover have "?f = [] \<longleftrightarrow> (\<forall>pl \<in> set (m_payloads p). \<not> gate_undeclared t pl)"
      by (simp add: filter_empty_conv)
    moreover have "warn_loop t db (x # tb) n = Inr m" using m(1) p False by (simp add: x deref_def)
    moreover have "n \<le> m" using m(2) by simp
    moreover have "(\<forall>k' a' p' pl. (k', a') \<in> set (x # tb) \<longrightarrow> db_heap db a' = Some p' \<longrightarrow> k' \<noteq> 0xffff \<longrightarrow>
        pl \<in> set (m_payloads p') \<longrightarrow> \<not> gate_undeclared t pl) \<longleftrightarrow>
      (\<forall>pl \<in> set (m_payloads p). \<not> gate_undeclared t pl) \<and>
      (\<forall>k' a' p' pl. (k', a') \<in> set tb \<longrightarrow> db_heap db a' = Some p' \<longrightarrow> k' \<noteq> 0xffff \<longrightarrow>
        pl \<in> set (m_payloads p') \<longrightarrow> \<not> gate_undeclared t pl)"
      using p False by (auto simp: x)
    ultimately show ?thesis using m(3) by simp
  qed
qed simp

section \<open>Properties\<close>

text \<open>No sequence of loads, additions, removals and moves by id or by name, and clears ever
  touches a deleted opcode object, and afterwards each entry of either table leads to a live
  object that carries the id, or the name, it is filed under. The two tables may disagree on
  which object that is.\<close>

theorem opcode_tables_never_dangle:
  "\<exists>db. run_ops (db_step u t) ops (mkOPCodeDB s) = Inr db \<and>
     map_option m_opcode (obj_by_id db k) = (if db_find db k = None then None else Some k) \<and>
     map_option m_name (obj_by_name db n) = (if db_find_name db n = None then None else Some n)"
proof -
  obtain db where db: "run_ops (db_step u t) ops (mkOPCodeDB s) = Inr db" "db_inv db"
    using opcodes.run_returns [OF db_inv_new] by blast
  moreover have "map_option m_opcode (obj_by_id db k) = (if db_find db k = None then None else Some k)"
    using db_invD(3) [OF db(2), of k] by (auto simp: obj_by_id_def db_find_def split: option.split)
  moreover have "map_option m_name (obj_by_name db n) = (if db_find_name db n = None then None else Some n)"
    using db_invD(4) [OF db(2), of n] by (auto simp: obj_by_name_def db_find_name_def split: option.split)
  ultimately show ?thesis by blast
qed

text \<open>After a successful load, every name of the file finds the object of its last row, with that
  row's id, comment, lengths and payloads, and every id finds the last row of that id: the
  many rows with the unmapped id \<open>ffff\<close> stay reachable by name, one of them by id.\<close>

theorem load_keeps_last_row:
  assumes "load_rows u t rows (mkOPCodeDB s) = (True, db)"
  shows "obj_by_name db n = map_option (row_opcode u t) (last_row (\<lambda>e. t_name e = Some n) rows) \<and>
    obj_by_id db k = map_option (row_opcode u t) (last_row (\<lambda>e. row_id u e = Some k) rows)"
proof -
  have "obj_by_name (mkOPCodeDB s) n = None" "obj_by_id (mkOPCodeDB s) k = None"
    by (simp_all add: obj_by_name_def obj_by_id_def db_find_def db_find_name_def mkOPCodeDB_def)
  then show ?thesis
    using load_rows_objects [OF assms db_inv_new, of n k] by (auto split: option.splits)
qed

theorem load_keeps_last_row_witness:
  "let row = (\<lambda>n. Some \<lparr>t_id = Some ''ffff'', t_name = Some n, t_updated = None, t_implicitlen = None,
        t_comment = None, t_payloads = None\<rparr>);
       u = (\<lambda>base v. if base = 16 \<and> v = ''ffff'' then Some 0xffff else None);
       t = mkTypeDB [] [];
       db = snd (load_rows u t [row ''OP_A'', row ''OP_B''] (mkOPCodeDB ''zone''))
   in map_option m_name (obj_by_name db ''OP_A'') = Some ''OP_A''
    \<and> map_option m_name (obj_by_id db 0xffff) = Some ''OP_B''"
proof -
  let ?row = "\<lambda>n. \<lparr>t_id = Some ''ffff'', t_name = Some n, t_updated = None, t_implicitlen = None,
        t_comment = None, t_payloads = None\<rparr>"
  let ?u = "\<lambda>base v. if base = (16 :: nat) \<and> v = ''ffff'' then Some (0xffff :: u16) else None"
  let ?t = "mkTypeDB [] []"
  let ?rows = "[Some (?row ''OP_A''), Some (?row ''OP_B'')]"
  obtain db where db: "load_rows ?u ?t ?rows (mkOPCodeDB ''zone'') = (True, db)"
    by (simp add: db_add_def Let_def)
  then show ?thesis
    using load_keeps_last_row [OF db, of "''OP_A''" "0xffff"]
    by (simp add: Let_def row_id_def row_opcode_def load_fields_def mkOPCode_def)
qed

text \<open>The size of a type is the backend's last override, else 1 for the byte types and 0 for
  \<open>none\<close> and \<open>unknown\<close>, else the last compiled \<open>sizeof\<close>, else 0; and a type counts as
  overridden exactly when the backend declared it.\<close>

lemma override_wins:
  "td_size (mkTypeDB structs overrides) n =
     (case map_of (rev overrides) n of
        Some s \<Rightarrow> s
      | None \<Rightarrow> if n = ''none'' \<or> n = ''unknown'' then 0 else if n = ''char'' \<or> n = ''uint8_t'' then 1
               else (case map_of (rev structs) n of Some s \<Rightarrow> s | None \<Rightarrow> 0))
   \<and> (wasOverridden (mkTypeDB structs overrides) n \<longleftrightarrow> n \<in> fst ` set overrides)
   \<and> (hasOverrides (mkTypeDB structs overrides) \<longleftrightarrow> overrides \<noteq> [])"
proof -
  have none: "m_overriddenTypes (fold (\<lambda>(n, s). addStruct n s) structs db) = m_overriddenTypes db" for db
    by (induction structs arbitrary: db) (auto simp: addStruct_def)
  have td0: "td_size \<lparr>m_typeSizeDict = [], m_overriddenTypes = []\<rparr> n = 0" by (simp add: td_size_def)
  have "set (m_overriddenTypes (mkTypeDB structs overrides)) = fst ` set overrides"
    by (simp add: mkTypeDB_def Let_def overridden_fold) (simp add: addStruct_def none)
  moreover from this have "hasOverrides (mkTypeDB structs overrides) \<longleftrightarrow> overrides \<noteq> []"
    by (metis hasOverrides_def image_is_empty set_empty)
  ultimately show ?thesis
    by (simp add: mkTypeDB_def Let_def td_size_overrides td_size_addStruct td_size_structs td0 wasOverridden_def
        split: option.split)
qed

text \<open>The payload built from any row of the file faults on a packet only by dividing by zero,
  and does so exactly when its gate is \<open>modulus\<close>, the packet has its direction, and its type
  name is missing, empty or unknown to the type table: the load only warns about the latter.\<close>

theorem modulus_without_type_divides_by_zero:
  "payload_match (load_payload t e) sz dir = Inl f \<longleftrightarrow>
     f = DivideByZero \<and> tp_sizechecktype e = Some ''modulus'' \<and> m_dir (load_payload t e) AND dir \<noteq> 0 \<and>
     (case tp_typename e of None \<Rightarrow> True | Some n \<Rightarrow> \<not> (n \<noteq> '''' \<and> td_valid t n))"
proof -
  have szc: "m_sizeCheckType (load_payload t e) = SZC_Modulus \<longleftrightarrow> tp_sizechecktype e = Some ''modulus''"
    by (auto simp: load_payload_def Let_def new_payload_def setType_def split: option.splits)
  have sz: "m_typeSize (load_payload t e) = 0 \<longleftrightarrow>
      (case tp_typename e of None \<Rightarrow> True | Some n \<Rightarrow> \<not> (n \<noteq> '''' \<and> td_valid t n))"
    by (auto simp: load_payload_def Let_def new_payload_def setType_def td_valid_def split: option.splits)
  show ?thesis
    using szc sz by (auto simp: payload_match_def split: size_check.splits)
qed

text \<open>The gate-size audit returns 0 exactly when no backend override is declared at all, or every
  mapped opcode's exact-size payload has a type the backend declared or one of the four
  sizeless type names.\<close>

theorem gate_audit_complete:
  assumes "db_inv db"
  shows "\<exists>m. warnUndeclaredBackendGateSizes t db = Inr m \<and>
    (m = 0 \<longleftrightarrow> \<not> hasOverrides t \<or> \<not> (\<exists>k pl. mapped_undeclared t db k pl))"
proof (cases "hasOverrides t")
  case True
  have entry: "map_of (m_opcodes db) k = Some a" if "(k, a) \<in> set (m_opcodes db)" for k a
    using that db_invD(1) [OF assms] by (simp add: qhash_inv_def)
  then have "\<exists>p. db_heap db a = Some p \<and> m_opcode p = k" if "(k, a) \<in> set (m_opcodes db)" for k a
    using that db_invD(3) [OF assms] by blast
  then obtain m where m: "warn_loop t db (m_opcodes db) 0 = Inr m"
    "m = 0 \<longleftrightarrow> (\<forall>k a p pl. (k, a) \<in> set (m_opcodes db) \<longrightarrow> db_heap db a = Some p \<longrightarrow> k \<noteq> 0xffff \<longrightarrow>
      pl \<in> set (m_payloads p) \<longrightarrow> \<not> gate_undeclared t pl)"
    using warn_loop_result [of "m_opcodes db" db t 0] by blast
  have mem: "(k, a) \<in> set (m_opcodes db) \<longleftrightarrow> map_of (m_opcodes db) k = Some a" for k a
    using entry by (auto dest: map_of_SomeD)
  have "m = 0 \<longleftrightarrow> \<not> (\<exists>k pl. mapped_undeclared t db k pl)"
    unfolding m(2) mem by (auto simp: mapped_undeclared_def obj_by_id_def db_find_def split: option.splits)
  then show ?thesis using m(1) True by (simp add: warnUndeclaredBackendGateSizes_def)
qed (simp add: warnUndeclaredBackendGateSizes_def)

theorem gate_audit_complete_witness:
  "\<exists>m. warnUndeclaredBackendGateSizes (mkTypeDB [] [(''a'', 4)]) (mkOPCodeDB ''zone'') = Inr m \<and> m = 0"
  using gate_audit_complete [OF db_inv_new, of "mkTypeDB [] [(''a'', 4)]" "''zone''"]
  by (auto simp: mapped_undeclared_def obj_by_id_def db_find_def mkOPCodeDB_def)

end
