(* ===== verification/PacketStream.thy ===== *)
theory PacketStream
  imports Crc PacketFragment PacketInfo
begin

text \<open>
  One direction of one session: \<open>EQPacketStream\<close> of \<open>src/packetstream.h\<close> and
  \<open>src/packetstream.cpp\<close>. It checks a datagram against the session, unrolls combined
  packets, puts sequenced packets in order through the cache, reassembles fragments, follows
  the session handshake, and hands application packets to the handlers.

  What a stream emits is an event in \<open>ps_out\<close>, oldest first. The signal \<open>closing\<close> calls back
  into the stream through \<open>EQPacket::closeStream\<close> where it is connected, see \<open>env_closing\<close>.
\<close>

section \<open>State\<close>

lemma if_InrE:
  assumes "(if c then a else b) = Inr x" "c \<Longrightarrow> a = Inr x \<Longrightarrow> P" "\<not> c \<Longrightarrow> b = Inr x \<Longrightarrow> P"
  shows P
  using assms by (auto split: if_splits)

lemma rbind_InrE:
  assumes "rbind m f = Inr x" "\<And>v. m = Inr v \<Longrightarrow> f v = Inr x \<Longrightarrow> P"
  shows P
  using assms by (auto simp: result_simps)

definition arqSeqWrapCutoff :: nat where "arqSeqWrapCutoff = 1024"

definition maxPacketSize :: u32 where "maxPacketSize = 1048576"

datatype event =
    EvRaw bytes u32 u8 u16
  | EvDecoded bytes nat u8 u16 "nat option"
  | EvDecodedKnown bytes nat u8 u16 "nat option" bool
  | EvActivate activation
  | EvClosing u32 stream_id
  | EvTrackingChanged u8
  | EvLockOnClient u16 u16 u32
  | EvSessionKey u32 stream_id u32
  | EvCacheSize nat
  | EvSeqReceive u16
  | EvSeqExpect u16
  | EvNumPacket int
  | EvMaxLength u32

text \<open>
  The cache owns its packets: an entry carries the address of the packet object beside it,
  drawn from the counter \<open>ps_alloc\<close>, so that a deleted object is never mistaken for the one
  that replaced it.
\<close>

record pstream =
  ps_streamid :: stream_id
  ps_dir :: u8
  m_dispatchers :: "((nat \<times> nat) \<times> handler list) list"
  m_packetCount :: int
  m_session_tracking_enabled :: u8
  m_muted :: bool
  m_sizeMismatchWarned :: "u64 list"
  m_cache :: "(u16 \<times> nat \<times> eqpacket) list"
  ps_alloc :: nat
  m_arqSeqExp :: u16
  m_arqSeqGiveUp :: u16
  m_arqSeqFound :: bool
  m_fragment :: fragment_seq
  m_sessionId :: u32
  ps_sessionKey :: u32
  m_sessionClientPort :: u16
  m_sessionClientIP :: u32
  m_maxLength :: u32
  m_decodeKey :: u64
  m_validKey :: bool
  ps_out :: "event list"

text \<open>
  What a stream is wired to: the opcode table of its section, zlib, and, for the primary
  box's streams, the session tracking value \<open>EQPacket::closeStream\<close> passes back to
  \<open>close\<close>; the streams of other boxes have nobody listening to \<open>closing\<close>. \<open>env_fuel\<close> bounds
  the number of cached packets processed for one datagram.
\<close>

record stream_env =
  env_db :: opcode_db
  env_zlib :: zlib
  env_closing :: "u8 option"
  env_fuel :: nat

definition mkPacketStream :: "stream_id \<Rightarrow> u8 \<Rightarrow> u16 \<Rightarrow> pstream" where
  "mkPacketStream sid dir giveUp =
     \<lparr>ps_streamid = sid, ps_dir = dir, m_dispatchers = [], m_packetCount = 0,
      m_session_tracking_enabled = 0, m_muted = False, m_sizeMismatchWarned = [], m_cache = [],
      ps_alloc = 0, m_arqSeqExp = 0, m_arqSeqGiveUp = giveUp, m_arqSeqFound = False,
      m_fragment = mkFragmentSequence sid, m_sessionId = 0, ps_sessionKey = 0,
      m_sessionClientPort = 0, m_sessionClientIP = 0, m_maxLength = 0, m_decodeKey = 0,
      m_validKey = True, ps_out = []\<rparr>"

definition emit :: "event \<Rightarrow> pstream \<Rightarrow> pstream" where
  "emit e s = s\<lparr>ps_out := ps_out s @ [e]\<rparr>"

text \<open>\<open>size_t\<close> subtraction.\<close>

definition szsub :: "nat \<Rightarrow> nat \<Rightarrow> nat" where
  "szsub a b = nat ((int a - int b) mod 2 ^ 64)"

section \<open>Handlers\<close>

text \<open>A payload is identified by the address of its opcode object and its position there.\<close>

fun payload_position :: "payload list \<Rightarrow> u8 \<Rightarrow> string \<Rightarrow> size_check \<Rightarrow> nat \<Rightarrow> nat option" where
  "payload_position [] dir ty szt i = None"
| "payload_position (p # ps) dir ty szt i =
     (if m_dir p AND dir \<noteq> 0 \<and> m_typeName p = ty \<and> m_sizeCheckType p = szt then Some i
      else payload_position ps dir ty szt (Suc i))"

definition dispatchFor ::
  "opcode_db \<Rightarrow> string \<Rightarrow> string \<Rightarrow> size_check \<Rightarrow> pstream \<Rightarrow> ((nat \<times> nat) option \<times> pstream) res" where
  "dispatchFor db opcodeName payloadType szt s =
     (case db_find_name db opcodeName of
        None \<Rightarrow> Inr (None, s)
      | Some a \<Rightarrow> rbind (deref db a) (\<lambda>p.
          case payload_position (m_payloads p) (ps_dir s) payloadType szt 0 of
            None \<Rightarrow> Inr (None, s)
          | Some i \<Rightarrow>
              Inr (Some (a, i),
                   if map_of (m_dispatchers s) (a, i) = None
                   then s\<lparr>m_dispatchers := AList.update (a, i) [] (m_dispatchers s)\<rparr> else s)))"

definition ps_on ::
  "opcode_db \<Rightarrow> string \<Rightarrow> string \<Rightarrow> size_check \<Rightarrow> handler \<Rightarrow> pstream \<Rightarrow> (bool \<times> pstream) res" where
  "ps_on db opcodeName payloadType szt h s =
     rbind (dispatchFor db opcodeName payloadType szt s) (\<lambda>(d, s).
     case d of
       None \<Rightarrow> Inr (False, s)
     | Some k \<Rightarrow>
         let hs = (case map_of (m_dispatchers s) k of Some hs \<Rightarrow> hs | None \<Rightarrow> [])
         in Inr (True, s\<lparr>m_dispatchers := AList.update k (dispatch_add h hs) (m_dispatchers s)\<rparr>))"

text \<open>The payload loop of \<open>dispatchPacket\<close>: whether one matched, and what was activated.\<close>

fun match_loop ::
  "((nat \<times> nat) \<times> handler list) list \<Rightarrow> nat \<Rightarrow> nat \<Rightarrow> payload list \<Rightarrow> bytes \<Rightarrow> nat \<Rightarrow> u8 \<Rightarrow> (bool \<times> event list) res" where
  "match_loop ds a i [] data len dir = Inr (False, [])"
| "match_loop ds a i (p # ps) data len dir =
     rbind (payload_match p len dir) (\<lambda>b.
     rbind (match_loop ds a (Suc i) ps data len dir) (\<lambda>(found, evs).
     if b then
       Inr (True, (case map_of ds (a, i) of
                     None \<Rightarrow> []
                   | Some hs \<Rightarrow> map EvActivate (dispatch_activate hs data len dir)) @ evs)
     else Inr (found, evs)))"

definition mismatch_key :: "u16 \<Rightarrow> nat \<Rightarrow> u64" where
  "mismatch_key op len = push_bit 32 (ucast op) OR of_nat len"

definition ps_dispatch :: "opcode_db \<Rightarrow> bytes \<Rightarrow> nat \<Rightarrow> u16 \<Rightarrow> nat option \<Rightarrow> pstream \<Rightarrow> pstream res" where
  "ps_dispatch db data len opCode entry s =
     (let s = emit (EvDecoded data len (ps_dir s) opCode entry) s in
      if m_muted s then Inr s
      else
        rbind (case entry of
            None \<Rightarrow> Inr (True, s)
          | Some a \<Rightarrow>
              rbind (deref db a) (\<lambda>p.
              rbind (match_loop (m_dispatchers s) a 0 (m_payloads p) data len (ps_dir s)) (\<lambda>(found, evs).
              let s = s\<lparr>ps_out := ps_out s @ evs\<rparr>;
                  key = mismatch_key (m_opcode p) len
              in Inr (\<not> found,
                   if \<not> found \<and> m_payloads p \<noteq> [] \<and> key \<notin> set (m_sizeMismatchWarned s)
                   then s\<lparr>m_sizeMismatchWarned := key # m_sizeMismatchWarned s\<rparr> else s))))
          (\<lambda>(unknown, s). Inr (emit (EvDecodedKnown data len (ps_dir s) opCode entry unknown) s)))"

definition dispatch_op :: "opcode_db \<Rightarrow> bytes \<Rightarrow> nat \<Rightarrow> u16 \<Rightarrow> pstream \<Rightarrow> pstream res" where
  "dispatch_op db data len op s = ps_dispatch db data len op (db_find db op) s"

section \<open>Resetting and closing\<close>

definition resetCache :: "pstream \<Rightarrow> pstream" where
  "resetCache s = emit (EvCacheSize 0) (s\<lparr>m_cache := []\<rparr>)"

definition ps_reset :: "pstream \<Rightarrow> pstream" where
  "ps_reset s = (let s = resetCache s in
     s\<lparr>m_fragment := frag_reset (m_fragment s), m_arqSeqExp := 0, m_arqSeqFound := False,
       m_sessionClientPort := 0, m_sessionClientIP := 0, m_sessionId := 0, ps_sessionKey := 0\<rparr>)"

definition setSessionTracking :: "u8 \<Rightarrow> pstream \<Rightarrow> pstream" where
  "setSessionTracking v s = s\<lparr>m_session_tracking_enabled := v\<rparr>"

definition ps_setArqSeqGiveUp :: "u16 \<Rightarrow> pstream \<Rightarrow> pstream" where
  "ps_setArqSeqGiveUp v s = s\<lparr>m_arqSeqGiveUp := v\<rparr>"

definition setMuted :: "bool \<Rightarrow> pstream \<Rightarrow> pstream" where
  "setMuted v s = s\<lparr>m_muted := v\<rparr>"

definition ps_close :: "u32 \<Rightarrow> stream_id \<Rightarrow> u8 \<Rightarrow> pstream \<Rightarrow> pstream" where
  "ps_close sessionId streamId sessionTracking s =
     (if sessionId = m_sessionId s then setSessionTracking sessionTracking (ps_reset s) else s)"

definition receiveSessionKey :: "u32 \<Rightarrow> stream_id \<Rightarrow> u32 \<Rightarrow> pstream \<Rightarrow> pstream" where
  "receiveSessionKey sessionId streamid sessionKey s =
     (if streamid \<noteq> ps_streamid s \<and> m_sessionId s = sessionId then s\<lparr>ps_sessionKey := sessionKey\<rparr> else s)"

definition emit_closing :: "stream_env \<Rightarrow> pstream \<Rightarrow> pstream" where
  "emit_closing E s =
     (let sid = m_sessionId s; s' = emit (EvClosing sid (ps_streamid s)) s
      in case env_closing E of None \<Rightarrow> s' | Some t \<Rightarrow> ps_close sid (ps_streamid s) t s')"

section \<open>CRC and cache\<close>

definition calculateCRC :: "eqpacket \<Rightarrow> pstream \<Rightarrow> u16 res" where
  "calculateCRC packet s =
     (if rawPacketLength packet < 2 then Inr 0
      else calcCRC16 (m_packet packet) (ucast (rawPacketLength packet) - 2) (ps_sessionKey s))"

definition crc_ok :: "eqpacket \<Rightarrow> pstream \<Rightarrow> bool res" where
  "crc_ok packet s =
     (if \<not> hasCRC packet then Inr True
      else rbind (calculateCRC packet s) (\<lambda>c. rbind (crc packet) (\<lambda>w. Inr (c = w))))"

definition new_entry :: "u16 \<Rightarrow> eqpacket \<Rightarrow> pstream \<Rightarrow> pstream" where
  "new_entry seq p s =
     s\<lparr>m_cache := smap_put seq (ps_alloc s, p) (m_cache s), ps_alloc := Suc (ps_alloc s)\<rparr>"

definition setCache :: "u16 \<Rightarrow> eqpacket \<Rightarrow> pstream \<Rightarrow> pstream res" where
  "setCache serverArqSeq packet s =
     (case map_of (m_cache s) serverArqSeq of
        None \<Rightarrow>
          rbind (pk_copy packet True) (\<lambda>p.
            let s = new_entry serverArqSeq p s in Inr (emit (EvCacheSize (length (m_cache s))) s))
      | Some e \<Rightarrow>
          rbind (crc_ok packet s) (\<lambda>ok.
            if ok then rbind (pk_copy packet True) (\<lambda>p. Inr (new_entry serverArqSeq p s)) else Inr s))"

text \<open>The two comparisons of the receive window are made in \<open>uint32_t\<close> and \<open>int\<close>.\<close>

definition future_seq :: "u16 \<Rightarrow> u16 \<Rightarrow> bool" where
  "future_seq ex seq \<longleftrightarrow>
     (unat ex < unat seq \<and> unat seq < unat ex + arqSeqWrapCutoff)
     \<or> int (unat seq) < int (unat ex) - int arqSeqWrapCutoff"

definition expect_next :: "pstream \<Rightarrow> pstream" where
  "expect_next s = (let s = s\<lparr>m_arqSeqExp := m_arqSeqExp s + 1\<rparr> in emit (EvSeqExpect (m_arqSeqExp s)) s)"

section \<open>Unrolling combined packets\<close>

text \<open>\<open>recur\<close> is the recursive call of \<open>processPacket\<close> on a subpacket.\<close>

type_synonym process = "eqpacket \<Rightarrow> pstream \<Rightarrow> pstream res"

definition sub_packet :: "bytes \<Rightarrow> u32 \<Rightarrow> eqpacket res" where
  "sub_packet mem len = pk_init mem len False True blank_packet"

declare rbind_cong [fundef_cong]

text \<open>
  One subpacket of \<open>OP_Combined\<close>, \<open>p\<close> standing behind its length byte. The result is how far the
  pointer moved for the two-byte marker of a three-byte opcode: the length byte itself is not
  reduced.
\<close>

definition combined_step :: "opcode_db \<Rightarrow> process \<Rightarrow> u8 \<Rightarrow> bytes \<Rightarrow> pstream \<Rightarrow> (nat \<times> pstream) res" where
  "combined_step db recur len p s =
     rbind (eqtohuint16 p) (\<lambda>subOp.
     if subOp = 0 then
       rbind (eqtohuint16 (drop 1 p)) (\<lambda>subOp.
       rbind (dispatch_op db (drop 3 p) (szsub (unat len) 2) subOp s) (\<lambda>s. Inr (1, s)))
     else if IS_NET_OPCODE subOp then
       rbind (sub_packet p (ucast len)) (\<lambda>sp. rbind (recur sp s) (\<lambda>s. Inr (0, s)))
     else
       rbind (dispatch_op db (drop 2 p) (szsub (unat len) 2) subOp s) (\<lambda>s. Inr (0, s)))"

function combined_loop :: "opcode_db \<Rightarrow> process \<Rightarrow> bytes \<Rightarrow> nat \<Rightarrow> pstream \<Rightarrow> pstream res" where
  "combined_loop db recur p left s =
     (if left = 0 then Inr s
      else rbind (rd p 0) (\<lambda>len.
           rbind (combined_step db recur len (drop 1 p) s) (\<lambda>(extra, s).
             let n = 1 + extra + unat len in combined_loop db recur (drop n p) (left - n) s)))"
  by pat_completeness auto

termination combined_loop
  by (relation "measure (\<lambda>(db, recur, p, left, s). length p)") (auto simp: result_simps)

text \<open>
  One subpacket of \<open>OP_AppCombined\<close> whose length, one or two bytes, has been read: \<open>dec\<close>
  lowers the length by the marker byte, in its own width.
\<close>

definition app_step :: "opcode_db \<Rightarrow> nat \<Rightarrow> nat \<Rightarrow> bytes \<Rightarrow> pstream \<Rightarrow> (nat \<times> pstream) res" where
  "app_step db len dec p s =
     rbind (eqtohuint16 p) (\<lambda>subOp.
     if subOp = 0 then
       rbind (eqtohuint16 (drop 1 p)) (\<lambda>subOp.
       rbind (dispatch_op db (drop 3 p) (szsub dec 2) subOp s) (\<lambda>s. Inr (1 + dec, s)))
     else rbind (dispatch_op db (drop 2 p) (szsub len 2) subOp s) (\<lambda>s. Inr (len, s)))"

function appcombined_loop :: "opcode_db \<Rightarrow> bytes \<Rightarrow> nat \<Rightarrow> pstream \<Rightarrow> pstream res" where
  "appcombined_loop db p left s =
     (if left = 0 then Inr s
      else rbind (rd p 0) (\<lambda>b.
        if b \<noteq> 0xff then
          rbind (app_step db (unat b) (unat (b - 1)) (drop 1 p) s) (\<lambda>(k, s).
            let n = 1 + k in appcombined_loop db (drop n p) (left - n) s)
        else
          rbind (eqntohuint16 (drop 1 p)) (\<lambda>longOne.
          rbind (app_step db (unat longOne) (unat (longOne - 1)) (drop 3 p) s) (\<lambda>(k, s).
            let n = 3 + k in appcombined_loop db (drop n p) (left - n) s))))"
  by pat_completeness auto

termination appcombined_loop
  by (relation "measure (\<lambda>(db, p, left, s). length p)") (auto simp: result_simps)

declare combined_loop.simps [simp del] appcombined_loop.simps [simp del]

section \<open>Sequenced packets\<close>

text \<open>\<open>OP_Packet\<close>: in order, early, or in the past.\<close>

definition packet_expected :: "opcode_db \<Rightarrow> process \<Rightarrow> eqpacket \<Rightarrow> pstream \<Rightarrow> pstream res" where
  "packet_expected db recur packet s =
     (let p = m_payload packet; n = m_payloadLength packet in
      rbind (eqtohuint16 p) (\<lambda>subOp.
      if subOp = 0 then
        rbind (eqtohuint16 (drop 1 p)) (\<lambda>subOp.
          dispatch_op db (drop 3 p) (unat (n - 3)) subOp s)
      else if IS_NET_OPCODE subOp then
        rbind (sub_packet p n) (\<lambda>sp. recur sp s)
      else dispatch_op db (drop 2 p) (unat (n - 2)) subOp s))"

definition sequenced :: "process \<Rightarrow> process" where
  "sequenced expected packet s =
     (let seq = m_arqSeq packet; s = emit (EvSeqReceive seq) s in
      if seq = m_arqSeqExp s then expected packet (expect_next s)
      else if future_seq (m_arqSeqExp s) seq then setCache seq packet s
      else Inr s)"

definition process_OP_Packet :: "opcode_db \<Rightarrow> process \<Rightarrow> process" where
  "process_OP_Packet db recur = sequenced (packet_expected db recur)"

text \<open>What is done with a complete fragment sequence; \<open>inner\<close> processes a net packet in its buffer.\<close>

definition fragment_dispatch :: "opcode_db \<Rightarrow> process \<Rightarrow> pstream \<Rightarrow> pstream res" where
  "fragment_dispatch db inner s =
     (let d = m_data (m_fragment s); n = m_dataSize (m_fragment s) in
      rbind (eqtohuint16 d) (\<lambda>op.
      if op = 0 then
        rbind (eqtohuint16 (drop 1 d)) (\<lambda>op. dispatch_op db (drop 3 d) (szsub n 3) op s)
      else if IS_NET_OPCODE op then rbind (sub_packet d (of_nat n)) (\<lambda>sp. inner sp s)
      else dispatch_op db (drop 2 d) (szsub n 2) op s))"

definition fragment_complete :: "opcode_db \<Rightarrow> process \<Rightarrow> pstream \<Rightarrow> pstream res" where
  "fragment_complete db inner s =
     rbind (fragment_dispatch db inner s) (\<lambda>s. Inr (s\<lparr>m_fragment := frag_reset (m_fragment s)\<rparr>))"

definition oversized_expected :: "opcode_db \<Rightarrow> process \<Rightarrow> process" where
  "oversized_expected db inner packet s =
     rbind (addFragment packet (m_fragment s)) (\<lambda>f.
     let s = s\<lparr>m_fragment := f\<rparr> in
     if isComplete f then fragment_complete db inner s else Inr s)"

definition process_OP_Oversized :: "opcode_db \<Rightarrow> process \<Rightarrow> process" where
  "process_OP_Oversized db inner = sequenced (oversized_expected db inner)"

section \<open>The session handshake\<close>

text \<open>
  A packet together with the datagram around it, which only the outermost packet has: the
  casts to \<open>EQUDPIPPacketFormat&\<close> of any other packet are \<open>BadCast\<close>.
\<close>

definition cast_udp :: "udp_packet option \<Rightarrow> udp_packet res" where
  "cast_udp u = (case u of None \<Rightarrow> Inl BadCast | Some p \<Rightarrow> Inr p)"

definition clamp_max :: "u32 \<Rightarrow> u32" where
  "clamp_max n = (if maxPacketSize < n then maxPacketSize else n)"

definition process_SessionRequest :: "udp_packet option \<Rightarrow> eqpacket \<Rightarrow> pstream \<Rightarrow> pstream res" where
  "process_SessionRequest u packet s =
     (if m_payloadLength packet \<noteq> 22 then Inr s
      else
        rbind (eqntohuint32 (drop 4 (m_payload packet))) (\<lambda>sid.
        rbind (eqntohuint32 (drop 8 (m_payload packet))) (\<lambda>ml.
        let s = s\<lparr>m_sessionId := sid, m_maxLength := clamp_max ml\<rparr>;
            s = emit (EvMaxLength (m_maxLength s)) s;
            s = s\<lparr>m_arqSeqExp := 0, m_arqSeqFound := True\<rparr>
        in if m_session_tracking_enabled s \<noteq> 0 then
             rbind (cast_udp u) (\<lambda>u.
             rbind (getSourcePort u) (\<lambda>port.
             rbind (getIPv4SourceN u) (\<lambda>ip.
             Inr (s\<lparr>m_sessionClientPort := port, m_sessionClientIP := ip\<rparr>))))
           else Inr s)))"

definition track_response :: "udp_packet \<Rightarrow> pstream \<Rightarrow> pstream res" where
  "track_response u s =
     rbind (getDestPort u) (\<lambda>port.
     rbind (getIPv4DestN u) (\<lambda>ip.
     let s = s\<lparr>m_sessionClientPort := port, m_sessionClientIP := ip\<rparr> in
     if ps_streamid s = world2client then
       Inr (emit (EvTrackingChanged 1) (s\<lparr>m_session_tracking_enabled := 1\<rparr>))
     else if ps_streamid s = zone2client then
       rbind (getSourcePort u) (\<lambda>sport.
       let s = s\<lparr>m_session_tracking_enabled := 2\<rparr>
       in Inr (emit (EvTrackingChanged 2) (emit (EvLockOnClient sport port ip) s)))
     else Inr s))"

definition take_response :: "u32 \<Rightarrow> u32 \<Rightarrow> u32 \<Rightarrow> pstream \<Rightarrow> pstream" where
  "take_response sid key ml s =
     (let s = s\<lparr>m_maxLength := clamp_max ml, ps_sessionKey := key, m_sessionId := sid\<rparr>;
          s = emit (EvMaxLength (m_maxLength s)) s;
          s = emit (EvSessionKey sid (ps_streamid s) key) s
      in s\<lparr>m_arqSeqExp := 0, m_arqSeqFound := True\<rparr>)"

definition process_SessionResponse :: "udp_packet option \<Rightarrow> eqpacket \<Rightarrow> pstream \<Rightarrow> pstream res" where
  "process_SessionResponse u packet s =
     (if m_payloadLength packet \<noteq> 19 then Inr s
      else
        rbind (eqntohuint32 (drop 11 (m_payload packet))) (\<lambda>ml.
        rbind (eqntohuint32 (drop 4 (m_payload packet))) (\<lambda>key.
        rbind (eqntohuint32 (m_payload packet)) (\<lambda>sid.
        let s = take_response sid key ml s
        in if m_session_tracking_enabled s \<noteq> 0
           then rbind (cast_udp u) (\<lambda>u. track_response u s) else Inr s))))"

definition disconnect_now :: "stream_env \<Rightarrow> pstream \<Rightarrow> pstream" where
  "disconnect_now E s =
     (let s = resetCache (s\<lparr>m_arqSeqExp := 0\<rparr>);
          s = (if m_session_tracking_enabled s \<noteq> 0
               then (emit (EvTrackingChanged 1) (s\<lparr>m_session_tracking_enabled := 1\<rparr>))
                      \<lparr>m_sessionClientPort := 0, m_sessionClientIP := 0\<rparr>
               else s)
      in emit_closing E s)"

definition process_SessionDisconnect :: "stream_env \<Rightarrow> eqpacket \<Rightarrow> pstream \<Rightarrow> pstream res" where
  "process_SessionDisconnect E packet s =
     (if m_session_tracking_enabled s \<noteq> 0 then
        rbind (eqntohuint32 (drop 1 (m_payload packet))) (\<lambda>sid.
          if m_sessionId s \<noteq> sid then Inr s else Inr (disconnect_now E s))
      else Inr (disconnect_now E s))"

section \<open>\<open>processPacket\<close>\<close>

text \<open>
  One level of \<open>processPacket\<close>: \<open>recur\<close> is the call on a subpacket and \<open>ovs\<close> what is done with
  the next fragment. Acknowledgements, statistics, keep-alives and unknown net opcodes change
  nothing.
\<close>

definition process_body :: "stream_env \<Rightarrow> process \<Rightarrow> process \<Rightarrow> udp_packet option \<Rightarrow> process" where
  "process_body E recur ovs u packet s =
     (let db = env_db E; op = m_netOp packet in
      if IS_APP_OPCODE op then
        dispatch_op db (m_payload packet) (unat (m_payloadLength packet)) op s
      else if op = OP_Combined then
        combined_loop db recur (m_payload packet) (unat (m_payloadLength packet)) s
      else if op = OP_AppCombined then
        appcombined_loop db (m_payload packet) (unat (m_payloadLength packet)) s
      else if op = OP_Packet then process_OP_Packet db recur packet s
      else if op = OP_Oversized then sequenced ovs packet s
      else if op = OP_SessionRequest then process_SessionRequest u packet s
      else if op = OP_SessionResponse then process_SessionResponse u packet s
      else if op = OP_SessionDisconnect then process_SessionDisconnect E packet s
      else Inr s)"

text \<open>
  Subpackets inside the fragment buffer. A fragment that arrives in there would be appended to
  the very buffer that is being read; the model stops instead. Every subpacket starts behind
  its parent's opcode, so the fuel is never used up when it exceeds the length of the buffer
  (\<open>process_inner_fuel\<close> below).
\<close>

fun process_inner :: "stream_env \<Rightarrow> nat \<Rightarrow> process" where
  "process_inner E 0 packet s = Inl OutOfFuel"
| "process_inner E (Suc n) packet s =
     process_body E (process_inner E n) (\<lambda>_ _. Inl ReentrantFragment) None packet s"

definition fragment_inner :: "stream_env \<Rightarrow> process" where
  "fragment_inner E sp s = process_inner E (Suc (length (m_packet sp))) sp s"

fun process_sub :: "stream_env \<Rightarrow> nat \<Rightarrow> process" where
  "process_sub E 0 packet s = Inl OutOfFuel"
| "process_sub E (Suc n) packet s =
     process_body E (process_sub E n) (oversized_expected (env_db E) (fragment_inner E)) None packet s"

definition processPacket :: "stream_env \<Rightarrow> udp_packet option \<Rightarrow> process" where
  "processPacket E u packet s =
     process_body E (process_sub E (Suc (length (m_payload packet))))
       (oversized_expected (env_db E) (fragment_inner E)) u packet s"

section \<open>The cache\<close>

text \<open>Giving up on a missing packet: the expected number advances until it is cached.\<close>

fun give_up_loop :: "nat \<Rightarrow> pstream \<Rightarrow> pstream res" where
  "give_up_loop 0 s = (if map_of (m_cache s) (m_arqSeqExp s) = None then Inl OutOfFuel else Inr s)"
| "give_up_loop (Suc n) s =
     (if map_of (m_cache s) (m_arqSeqExp s) = None then give_up_loop n (expect_next s) else Inr s)"

definition erase_entry :: "u16 \<Rightarrow> pstream \<Rightarrow> pstream" where
  "erase_entry k s =
     (let s = s\<lparr>m_cache := smap_del k (m_cache s)\<rparr> in emit (EvCacheSize (length (m_cache s))) s)"

text \<open>
  \<open>it\<close> is the key the iterator stands on, \<open>None\<close> at the end. When the entry it stands on was
  erased or replaced while its packet was processed, the code goes on with a deleted object.
\<close>

fun cache_loop :: "stream_env \<Rightarrow> nat \<Rightarrow> u16 option \<Rightarrow> pstream \<Rightarrow> pstream res" where
  "cache_loop E n None s = Inr s"
| "cache_loop E 0 (Some k) s = Inl OutOfFuel"
| "cache_loop E (Suc n) (Some k) s =
     (case map_of (m_cache s) k of
        None \<Rightarrow> Inl UseAfterFree
      | Some (a, packet) \<Rightarrow>
          if m_arqSeq packet \<noteq> m_arqSeqExp s then Inr s
          else rbind (crc_ok packet s) (\<lambda>ok.
            if \<not> ok then Inr (erase_entry k s)
            else rbind (processPacket E None packet s) (\<lambda>s.
              if map_option fst (map_of (m_cache s) k) \<noteq> Some a then Inl UseAfterFree
              else
                let it = smap_after k (m_cache s);
                    s = erase_entry k s;
                    it = (if m_arqSeqExp s = 0 then smap_first (m_cache s) else it)
                in cache_loop E n it s)))"

definition processCache :: "stream_env \<Rightarrow> pstream \<Rightarrow> pstream res" where
  "processCache E s =
     rbind (if unat (m_arqSeqGiveUp s) \<le> length (m_cache s) then give_up_loop 65536 s else Inr s) (\<lambda>s.
     cache_loop E (env_fuel E)
       (if map_of (m_cache s) (m_arqSeqExp s) = None then None else Some (m_arqSeqExp s)) s)"

section \<open>\<open>handlePacket\<close>\<close>

definition foreign_client :: "udp_packet \<Rightarrow> pstream \<Rightarrow> bool res" where
  "foreign_client u s =
     (if m_sessionClientPort s = 0 \<or> m_sessionClientIP s = 0 then Inr False
      else if ps_dir s = DIR_Server then
        rbind (getDestPort u) (\<lambda>port.
          if m_sessionClientPort s \<noteq> port then Inr True
          else rbind (getIPv4DestN u) (\<lambda>ip. Inr (m_sessionClientIP s \<noteq> ip)))
      else if ps_dir s = DIR_Client then
        rbind (getSourcePort u) (\<lambda>port.
          if m_sessionClientPort s \<noteq> port then Inr True
          else rbind (getIPv4SourceN u) (\<lambda>ip. Inr (m_sessionClientIP s \<noteq> ip)))
      else Inr False)"

definition bsh_port :: "u16 \<Rightarrow> bool" where
  "bsh_port p \<longleftrightarrow> p \<in> {8066, 8067, 8242, 1900}"

text \<open>Whether a packet passes the CRC check of \<open>handlePacket\<close>.\<close>

definition crc_admits :: "udp_packet \<Rightarrow> pstream \<Rightarrow> bool res" where
  "crc_admits u s =
     (let b = u_base u in
      if \<not> hasCRC b then Inr True
      else rbind (calculateCRC b s) (\<lambda>calced.
           rbind (getSourcePort u) (\<lambda>sport. rbind (getDestPort u) (\<lambda>dport.
           if bsh_port sport \<or> bsh_port dport then Inr False
           else rbind (crc b) (\<lambda>c. Inr (calced = c))))))"

definition deliver :: "stream_env \<Rightarrow> udp_packet option \<Rightarrow> process" where
  "deliver E u packet s =
     rbind (processPacket E u packet s) (\<lambda>s. if m_cache s \<noteq> [] then processCache E s else Inr s)"

definition handlePacket :: "stream_env \<Rightarrow> udp_packet \<Rightarrow> pstream \<Rightarrow> pstream res" where
  "handlePacket E u s =
     (let s = s\<lparr>m_packetCount := m_packetCount s + 1\<rparr>;
          s = emit (EvNumPacket (m_packetCount s)) s;
          u = setSessionKey (ps_sessionKey s) u;
          op = m_netOp (u_base u)
      in if op \<noteq> OP_SessionRequest \<and> op \<noteq> OP_SessionResponse \<and> ps_sessionKey s = 0 then Inr s
      else rbind (foreign_client u s) (\<lambda>foreign.
      if foreign then Inr s
      else rbind (crc_admits u s) (\<lambda>ok.
      if \<not> ok then Inr s
      else rbind (decode (env_zlib E) (m_maxLength s) (u_base u)) (\<lambda>(ok, b).
      if \<not> ok then Inr s
      else
        let u = u\<lparr>u_base := b\<rparr>;
            s = emit (EvRaw (m_rawPayload b) (m_rawPayloadLength b) (ps_dir s) (m_netOp b)) s
        in deliver E (Some u) b s))))"

section \<open>Handing a session over\<close>

record stream_handoff =
  h_sessionId :: u32
  h_sessionKey :: u32
  h_clientIP :: u32
  h_clientPort :: u16
  h_maxLength :: u32
  h_arqSeqExp :: u16
  h_decodeKey :: u64
  h_validKey :: u8

definition exportState :: "pstream \<Rightarrow> stream_handoff" where
  "exportState s = \<lparr>h_sessionId = m_sessionId s, h_sessionKey = ps_sessionKey s,
     h_clientIP = m_sessionClientIP s, h_clientPort = m_sessionClientPort s,
     h_maxLength = m_maxLength s, h_arqSeqExp = m_arqSeqExp s, h_decodeKey = m_decodeKey s,
     h_validKey = (if m_validKey s then 1 else 0)\<rparr>"

definition importState :: "stream_handoff \<Rightarrow> pstream \<Rightarrow> pstream" where
  "importState h s = s\<lparr>m_sessionId := h_sessionId h, ps_sessionKey := h_sessionKey h,
     m_sessionClientIP := h_clientIP h, m_sessionClientPort := h_clientPort h,
     m_maxLength := h_maxLength h, m_arqSeqExp := h_arqSeqExp h, m_decodeKey := h_decodeKey h,
     m_validKey := (h_validKey h \<noteq> 0)\<rparr>"

end
