(* ===== verification/StreamInvariant.thy ===== *)
theory StreamInvariant
  imports PacketStream
begin

text \<open>
  What every step of a stream preserves. The interface \<open>stream_relation\<close> lists the primitive
  changes the code of \<open>EQPacketStream\<close> makes to its state; a reflexive and transitive relation
  that holds across each of them holds across \<open>handlePacket\<close>. It is interpreted for the
  invariant of the stream and for its event history.
\<close>

section \<open>Relations across all primitive changes\<close>

fun loud :: "event \<Rightarrow> bool" where
  "loud (EvActivate a) = True"
| "loud (EvDecoded d n dir op e) = True"
| "loud (EvDecodedKnown d n dir op e u) = True"
| "loud _ = False"

locale stream_relation =
  fixes R :: "pstream \<Rightarrow> pstream \<Rightarrow> bool"
  assumes R_refl: "R s s"
    and R_trans: "R s t \<Longrightarrow> R t u \<Longrightarrow> R s u"
    and R_dispatch: "ps_dispatch db data len op e s = Inr s' \<Longrightarrow> R s s'"
    and R_emit: "\<not> loud ev \<Longrightarrow> R s (emit ev s)"
    and R_cache: "setCache (m_arqSeq p) p s = Inr s' \<Longrightarrow> R s s'"
    and R_erase: "R s (s\<lparr>m_cache := smap_del k (m_cache s)\<rparr>)"
    and R_clear: "R s (s\<lparr>m_cache := []\<rparr>)"
    and R_fragment: "addFragment p (m_fragment s) = Inr f \<Longrightarrow> R s (s\<lparr>m_fragment := f\<rparr>)"
    and R_fragment_reset: "R s (s\<lparr>m_fragment := frag_reset (m_fragment s)\<rparr>)"
    and R_exp: "R s (s\<lparr>m_arqSeqExp := seq\<rparr>)"
    and R_found: "R s (s\<lparr>m_arqSeqFound := b\<rparr>)"
    and R_count: "R s (s\<lparr>m_packetCount := c\<rparr>)"
    and R_id: "R s (s\<lparr>m_sessionId := sid\<rparr>)"
    and R_key: "R s (s\<lparr>ps_sessionKey := key\<rparr>)"
    and R_port: "R s (s\<lparr>m_sessionClientPort := port\<rparr>)"
    and R_ip: "R s (s\<lparr>m_sessionClientIP := ip\<rparr>)"
    and R_max: "R s (s\<lparr>m_maxLength := clamp_max ml\<rparr>)"
    and R_tracking: "R s (s\<lparr>m_session_tracking_enabled := tr\<rparr>)"
begin

lemmas R_updates = R_erase R_clear R_fragment_reset R_exp R_found R_count R_id R_key R_port R_ip R_max R_tracking

lemma R_step: "R s t \<Longrightarrow> t = t' \<Longrightarrow> R s t'"
  by simp

definition keeps :: "process \<Rightarrow> bool" where
  "keeps f \<longleftrightarrow> (\<forall>p s s'. f p s = Inr s' \<longrightarrow> R s s')"

lemma keepsI: "(\<And>p s s'. f p s = Inr s' \<Longrightarrow> R s s') \<Longrightarrow> keeps f"
  by (simp add: keeps_def)

lemma keepsD: "keeps f \<Longrightarrow> f p s = Inr s' \<Longrightarrow> R s s'"
  by (simp add: keeps_def)

lemma dispatch_op_R: "dispatch_op db data len op s = Inr s' \<Longrightarrow> R s s'"
  unfolding dispatch_op_def by (rule R_dispatch)

lemma combined_step_R:
  assumes "keeps recur" "combined_step db recur len p s = Inr (n, s')"
  shows "R s s'"
  using assms(2) keepsD [OF assms(1)] dispatch_op_R
  by (auto simp: combined_step_def result_simps split: if_splits)

lemma combined_loop_R: "keeps recur \<Longrightarrow> combined_loop db recur p left s = Inr s' \<Longrightarrow> R s s'"
proof (induction db recur p left s rule: combined_loop.induct)
  case (1 db recur p left s)
  show ?case
  proof (cases "left = 0")
    case True
    then show ?thesis using 1(3) R_refl by (simp add: combined_loop.simps)
  next
    case False
    then obtain len n t where step: "rd p 0 = Inr len" "combined_step db recur len (drop 1 p) s = Inr (n, t)"
      and rest: "combined_loop db recur (drop (1 + n + unat len) p) (left - (1 + n + unat len)) t = Inr s'"
      using 1(3) by (subst (asm) combined_loop.simps) (auto simp: result_simps Let_def)
    have "R t s'" using 1(1) [OF False step refl refl 1(2)] rest by simp
    with combined_step_R [OF 1(2) step(2)] show ?thesis by (rule R_trans)
  qed
qed

lemma app_step_R: "app_step db len dec p s = Inr (n, s') \<Longrightarrow> R s s'"
  using dispatch_op_R by (auto simp: app_step_def result_simps split: if_splits)

lemma appcombined_loop_R: "appcombined_loop db p left s = Inr s' \<Longrightarrow> R s s'"
proof (induction db p left s rule: appcombined_loop.induct)
  case (1 db p left s)
  show ?case
  proof (cases "left = 0")
    case True
    then show ?thesis using 1(3) R_refl by (simp add: appcombined_loop.simps)
  next
    case False
    then obtain b where b: "rd p 0 = Inr b" using 1(3) by (subst (asm) appcombined_loop.simps) (auto simp: result_simps)
    show ?thesis
    proof (cases "b = 0xff")
      case True
      then obtain l n t where l: "eqntohuint16 (drop 1 p) = Inr l"
        and step: "app_step db (unat l) (unat (l - 1)) (drop 3 p) s = Inr (n, t)"
        and rest: "appcombined_loop db (drop (3 + n) p) (left - (3 + n)) t = Inr s'"
        using 1(3) False b by (subst (asm) appcombined_loop.simps) (auto simp: result_simps Let_def)
      have "R t s'" using 1(2) [OF False b _ l step refl refl] True rest by simp
      with app_step_R [OF step] show ?thesis by (rule R_trans)
    next
      case short: False
      then obtain n t where step: "app_step db (unat b) (unat (b - 1)) (drop 1 p) s = Inr (n, t)"
        and rest: "appcombined_loop db (drop (1 + n) p) (left - (1 + n)) t = Inr s'"
        using 1(3) False b by (subst (asm) appcombined_loop.simps) (auto simp: result_simps Let_def)
      have "R t s'" using 1(1) [OF False b short step refl refl] rest by simp
      with app_step_R [OF step] show ?thesis by (rule R_trans)
    qed
  qed
qed

lemma expect_next_R: "R s (expect_next s)"
  unfolding expect_next_def Let_def by (rule R_trans [OF R_exp R_emit]) simp

lemma packet_expected_R: "keeps recur \<Longrightarrow> keeps (packet_expected db recur)"
  using dispatch_op_R
  by (auto simp: packet_expected_def result_simps Let_def intro!: keepsI split: if_splits dest: keepsD)

lemma sequenced_R: "keeps ex \<Longrightarrow> keeps (sequenced ex)"
proof (rule keepsI)
  fix p s s' assume ex: "keeps ex" and run: "sequenced ex p s = Inr s'"
  let ?t = "emit (EvSeqReceive (m_arqSeq p)) s"
  have t: "R s ?t" by (rule R_emit) simp
  show "R s s'"
  proof (cases "m_arqSeq p = m_arqSeqExp ?t")
    case True
    then have "ex p (expect_next ?t) = Inr s'" using run by (simp add: sequenced_def Let_def)
    then show ?thesis using keepsD [OF ex] expect_next_R t by (meson R_trans)
  next
    case False
    then show ?thesis using run t R_cache [of p ?t s']
      by (auto simp: sequenced_def Let_def split: if_splits intro: R_trans)
  qed
qed

text \<open>Appending one primitive change to a chain.\<close>

lemmas chain = R_trans [OF _ R_emit] R_trans [OF _ R_clear] R_trans [OF _ R_erase]
  R_trans [OF _ R_fragment_reset] R_trans [OF _ R_exp] R_trans [OF _ R_found] R_trans [OF _ R_count]
  R_trans [OF _ R_id] R_trans [OF _ R_key] R_trans [OF _ R_port] R_trans [OF _ R_ip]
  R_trans [OF _ R_max] R_trans [OF _ R_tracking] R_refl

lemma fragment_dispatch_R:
  assumes "keeps inner" "fragment_dispatch db inner s = Inr s'"
  shows "R s s'"
  using assms(2) unfolding fragment_dispatch_def Let_def
  by (elim if_InrE rbind_InrE) (auto intro: dispatch_op_R keepsD [OF assms(1)])

lemma fragment_complete_R:
  assumes "keeps inner" "fragment_complete db inner s = Inr s'"
  shows "R s s'"
  using assms(2) unfolding fragment_complete_def
  by (elim rbind_InrE) (auto intro!: R_trans [OF _ R_fragment_reset] intro: fragment_dispatch_R [OF assms(1)])

lemma oversized_expected_R:
  assumes "keeps inner"
  shows "keeps (oversized_expected db inner)"
proof (rule keepsI)
  fix p s s' assume "oversized_expected db inner p s = Inr s'"
  then obtain f where f: "addFragment p (m_fragment s) = Inr f"
    and rest: "fragment_complete db inner (s\<lparr>m_fragment := f\<rparr>) = Inr s' \<or> s' = s\<lparr>m_fragment := f\<rparr>"
    by (auto simp: oversized_expected_def result_simps Let_def split: if_splits)
  from rest show "R s s'"
  proof
    assume "fragment_complete db inner (s\<lparr>m_fragment := f\<rparr>) = Inr s'"
    then show ?thesis by (rule R_trans [OF R_fragment [OF f] fragment_complete_R [OF assms]])
  next
    assume "s' = s\<lparr>m_fragment := f\<rparr>"
    then show ?thesis using R_fragment [OF f] by simp
  qed
qed

lemma resetCache_R: "R s (resetCache s)"
  unfolding resetCache_def by (intro chain) simp

lemma ps_close_R: "R s (ps_close sid st t s)"
  by (auto simp: ps_close_def ps_reset_def resetCache_def setSessionTracking_def Let_def intro!: chain)

lemma emit_closing_R: "R s (emit_closing E s)"
  by (auto simp: emit_closing_def Let_def split: option.split intro!: chain R_trans [OF _ ps_close_R])

lemma disconnect_now_R: "R s (disconnect_now E s)"
  unfolding disconnect_now_def Let_def resetCache_def
  by (rule R_trans [OF _ emit_closing_R]) (auto intro!: chain)

lemma SessionDisconnect_R: "process_SessionDisconnect E p s = Inr s' \<Longrightarrow> R s s'"
  by (auto simp: process_SessionDisconnect_def result_simps split: if_splits intro: R_refl disconnect_now_R)

lemma SessionRequest_R: "process_SessionRequest u p s = Inr s' \<Longrightarrow> R s s'"
  unfolding process_SessionRequest_def Let_def
  by (elim if_InrE rbind_InrE; drule Inr_inject; hypsubst; intro chain; simp)

lemma track_response_R: "track_response u s = Inr s' \<Longrightarrow> R s s'"
  unfolding track_response_def Let_def
  by (elim if_InrE rbind_InrE; drule Inr_inject; hypsubst; intro chain; simp)

lemma take_response_R: "R s (take_response sid key ml s)"
  unfolding take_response_def Let_def by (intro chain) simp_all

lemma SessionResponse_R:
  assumes "process_SessionResponse u p s = Inr s'"
  shows "R s s'"
  using assms unfolding process_SessionResponse_def Let_def
  by (elim if_InrE rbind_InrE) (auto intro: R_refl take_response_R R_trans [OF take_response_R track_response_R])

lemma process_body_R:
  assumes "keeps recur" "keeps ovs"
  shows "keeps (process_body E recur ovs u)"
proof (rule keepsI)
  fix p s s' assume "process_body E recur ovs u p s = Inr s'"
  then show "R s s'"
    unfolding process_body_def Let_def process_OP_Packet_def
    by (elim if_InrE) (auto intro: dispatch_op_R combined_loop_R [OF assms(1)] appcombined_loop_R
      SessionRequest_R SessionResponse_R SessionDisconnect_R R_refl
      keepsD [OF sequenced_R [OF packet_expected_R [OF assms(1)]]] keepsD [OF sequenced_R [OF assms(2)]])
qed

lemma process_inner_R: "keeps (process_inner E n)"
proof (induction n)
  case (Suc n)
  have "keeps (\<lambda>_ _. Inl ReentrantFragment)" by (simp add: keeps_def)
  then have "keeps (process_body E (process_inner E n) (\<lambda>_ _. Inl ReentrantFragment) None)"
    using Suc by (intro process_body_R)
  then show ?case by (simp add: keeps_def)
qed (simp add: keeps_def)

lemma fragment_inner_R: "keeps (fragment_inner E)"
  unfolding keeps_def fragment_inner_def using keepsD [OF process_inner_R] by blast

lemma process_sub_R: "keeps (process_sub E n)"
proof (induction n)
  case (Suc n)
  have "keeps (process_body E (process_sub E n) (oversized_expected (env_db E) (fragment_inner E)) None)"
    by (intro process_body_R Suc oversized_expected_R fragment_inner_R)
  then show ?case unfolding keeps_def by simp
qed (simp add: keeps_def)

lemma processPacket_R: "processPacket E u p s = Inr s' \<Longrightarrow> R s s'"
  unfolding processPacket_def
  using keepsD [OF process_body_R [OF process_sub_R oversized_expected_R [OF fragment_inner_R]]] .

lemma give_up_R: "give_up_loop n s = Inr s' \<Longrightarrow> R s s'"
  by (induction n s rule: give_up_loop.induct)
    (auto split: if_splits intro: R_refl R_trans [OF expect_next_R])

lemma erase_entry_R: "R s (erase_entry k s)"
  unfolding erase_entry_def Let_def by (intro chain) simp

lemma cache_loop_R: "cache_loop E n it s = Inr s' \<Longrightarrow> R s s'"
proof (induction n arbitrary: it s)
  case 0
  then show ?case by (cases it) (auto intro: R_refl)
next
  case (Suc n)
  show ?case
  proof (cases it)
    case None
    then show ?thesis using Suc.prems R_refl by simp
  next
    case (Some k)
    obtain a p where e: "map_of (m_cache s) k = Some (a, p)"
      using Suc.prems Some by (auto split: option.splits)
    from Suc.prems show ?thesis
      unfolding Some cache_loop.simps e option.case prod.case
    proof (elim if_InrE rbind_InrE)
      fix ok t assume t: "processPacket E None p s = Inr t"
        and rest: "(let it = smap_after k (m_cache t); s = erase_entry k t;
             it = if m_arqSeqExp s = 0 then smap_first (m_cache s) else it in cache_loop E n it s) = Inr s'"
      have "R (erase_entry k t) s'" using Suc.IH rest by (auto simp: Let_def)
      then show "R s s'" using processPacket_R [OF t] erase_entry_R by (meson R_trans)
    qed (auto intro: R_refl erase_entry_R)
  qed
qed

lemma processCache_R: "processCache E s = Inr s' \<Longrightarrow> R s s'"
  unfolding processCache_def
  by (elim rbind_InrE if_InrE) (auto intro: cache_loop_R R_trans [OF give_up_R cache_loop_R])

lemma deliver_R: "deliver E u p s = Inr s' \<Longrightarrow> R s s'"
  unfolding deliver_def
  by (elim rbind_InrE if_InrE) (auto intro: processPacket_R R_trans [OF processPacket_R processCache_R])

lemma count_R:
  "R s (emit (EvNumPacket (m_packetCount (s\<lparr>m_packetCount := c\<rparr>))) (s\<lparr>m_packetCount := c\<rparr>))"
  by (rule R_trans [OF R_count R_emit]) simp

lemma raw_R: "R s t \<Longrightarrow> R s (emit (EvRaw d n dir op) t)"
  by (erule R_trans [OF _ R_emit]) simp

lemma handlePacket_R: "handlePacket E u s = Inr s' \<Longrightarrow> R s s'"
  unfolding handlePacket_def Let_def case_prod_beta
  by (elim if_InrE rbind_InrE;
      (drule Inr_inject, hypsubst, rule count_R)?; erule R_trans [OF raw_R [OF count_R] deliver_R])

lemma receiveSessionKey_R: "R s (receiveSessionKey sid st k s)"
  by (auto simp: receiveSessionKey_def intro: R_refl R_key)

end

section \<open>The machine a stream is\<close>

datatype stream_op =
    OpPacket udp_packet
  | OpClose u32 stream_id u8
  | OpKey u32 stream_id u32
  | OpTracking u8

fun ps_step :: "stream_env \<Rightarrow> stream_op \<Rightarrow> pstream \<Rightarrow> pstream res" where
  "ps_step E (OpPacket u) s = handlePacket E u s"
| "ps_step E (OpClose sid st t) s = Inr (ps_close sid st t s)"
| "ps_step E (OpKey sid st k) s = Inr (receiveSessionKey sid st k s)"
| "ps_step E (OpTracking t) s = Inr (setSessionTracking t s)"

context stream_relation begin

lemma ps_step_R: "ps_step E x s = Inr s' \<Longrightarrow> R s s'"
  by (cases x) (auto simp: setSessionTracking_def intro: handlePacket_R ps_close_R receiveSessionKey_R R_tracking)

lemma run_R: "run_ops (ps_step E) xs s = Inr s' \<Longrightarrow> R s s'"
proof (induction xs arbitrary: s)
  case (Cons x xs)
  then obtain t where "ps_step E x s = Inr t" "run_ops (ps_step E) xs t = Inr s'"
    by (auto simp: result_simps)
  then show ?case using Cons.IH ps_step_R by (meson R_trans)
qed (simp add: R_refl)

end

section \<open>The stream invariant\<close>

text \<open>
  The cache is ordered, files every packet under its own sequence number, owns it, and knows
  its address; fragment buffer and maximum length are bounded.
\<close>

definition stream_inv :: "pstream \<Rightarrow> bool" where
  "stream_inv s \<longleftrightarrow> smap_inv (m_cache s) \<and>
     (\<forall>(k, a, p) \<in> set (m_cache s). m_arqSeq p = k \<and> m_ownCopy p \<and> a < ps_alloc s) \<and>
     frag_inv (m_fragment s) \<and> m_maxLength s \<le> maxPacketSize"

lemma stream_inv_new: "stream_inv (mkPacketStream sid dir g)"
  by (simp add: stream_inv_def mkPacketStream_def frag_inv_new maxPacketSize_def)

lemma stream_inv_cong:
  "m_cache t = m_cache s \<Longrightarrow> ps_alloc t = ps_alloc s \<Longrightarrow> m_fragment t = m_fragment s \<Longrightarrow>
   m_maxLength t = m_maxLength s \<Longrightarrow> stream_inv t = stream_inv s"
  by (simp add: stream_inv_def)

lemma pk_copy_deep_fields:
  "pk_copy p True = Inr q \<Longrightarrow> m_arqSeq q = m_arqSeq p \<and> m_ownCopy q"
  by (auto simp: pk_copy_def result_simps split: if_splits)

lemma new_entry_inv:
  assumes "stream_inv s" "m_arqSeq p = seq" "m_ownCopy p"
  shows "stream_inv (new_entry seq p s)"
  using assms
  by (fastforce simp: stream_inv_def new_entry_def smap_inv_put less_Suc_eq dest!: set_smap_put)

lemma emit_fields [simp]:
  "m_cache (emit e s) = m_cache s" "ps_alloc (emit e s) = ps_alloc s" "m_fragment (emit e s) = m_fragment s"
  "m_maxLength (emit e s) = m_maxLength s" "m_muted (emit e s) = m_muted s" "ps_dir (emit e s) = ps_dir s"
  "m_dispatchers (emit e s) = m_dispatchers s" "ps_streamid (emit e s) = ps_streamid s"
  "m_arqSeqGiveUp (emit e s) = m_arqSeqGiveUp s" "m_arqSeqExp (emit e s) = m_arqSeqExp s"
  "ps_out (emit e s) = ps_out s @ [e]" "ps_sessionKey (emit e s) = ps_sessionKey s"
  "m_sessionId (emit e s) = m_sessionId s" "m_sessionClientPort (emit e s) = m_sessionClientPort s"
  "m_sessionClientIP (emit e s) = m_sessionClientIP s"
  "m_session_tracking_enabled (emit e s) = m_session_tracking_enabled s"
  "m_decodeKey (emit e s) = m_decodeKey s" "m_validKey (emit e s) = m_validKey s"
  by (simp_all add: emit_def)

lemma setCache_cases:
  assumes "setCache seq p s = Inr s'"
  obtains (kept) "s' = s"
    | (filed) q where "pk_copy p True = Inr q" "s' = new_entry seq q s \<or>
        s' = emit (EvCacheSize (length (m_cache (new_entry seq q s)))) (new_entry seq q s)"
  using assms by (auto simp: setCache_def result_simps Let_def split: option.splits if_splits)

definition disp_frame :: "pstream \<Rightarrow> pstream \<Rightarrow> bool" where
  "disp_frame s s' \<longleftrightarrow> s' = s\<lparr>m_sizeMismatchWarned := m_sizeMismatchWarned s', ps_out := ps_out s'\<rparr>"

lemma disp_frame_emit: "disp_frame s (emit e s)"
  by (simp add: disp_frame_def emit_def)

lemma disp_frame_out: "disp_frame s (s\<lparr>ps_out := out\<rparr>)"
  by (simp add: disp_frame_def)

lemma disp_frame_warned: "disp_frame s (s\<lparr>m_sizeMismatchWarned := w\<rparr>)"
  by (simp add: disp_frame_def)

lemma disp_frame_trans: "disp_frame s t \<Longrightarrow> disp_frame t u \<Longrightarrow> disp_frame s u"
  by (cases s; cases t; cases u) (simp add: disp_frame_def)

lemma dispatch_frame:
  assumes "ps_dispatch db d n op e s = Inr s'"
  shows "disp_frame s s'"
proof -
  define t where "t = emit (EvDecoded d n (ps_dir s) op e) s"
  have t: "disp_frame s t" by (simp add: t_def disp_frame_emit)
  have "disp_frame t s'"
  proof (cases "m_muted t")
    case True
    then have "s' = t" using assms by (simp add: ps_dispatch_def Let_def t_def)
    then show ?thesis by (simp add: disp_frame_def)
  next
    case loud: False
    show ?thesis
    proof (cases e)
      case None
      then have "s' = emit (EvDecodedKnown d n (ps_dir t) op e True) t"
        using assms loud by (simp add: ps_dispatch_def t_def Let_def)
      then show ?thesis by (simp add: disp_frame_emit)
    next
      case (Some a)
      then obtain v evs u where u: "u = t\<lparr>ps_out := ps_out t @ evs\<rparr> \<or>
            (\<exists>w. u = t\<lparr>ps_out := ps_out t @ evs, m_sizeMismatchWarned := w\<rparr>)"
          and s': "s' = emit (EvDecodedKnown d n (ps_dir u) op e v) u"
        using assms loud unfolding ps_dispatch_def t_def [symmetric] Let_def
        by (simp add: result_simps case_prod_beta split: if_splits) metis+
      from u have "disp_frame t u"
        by (elim disjE exE) (simp_all add: disp_frame_def)
      then show ?thesis unfolding s' using disp_frame_emit disp_frame_trans by blast
    qed
  qed
  with t show ?thesis by (rule disp_frame_trans)
qed


lemma frame_inv: "disp_frame s s' \<Longrightarrow> stream_inv s' = stream_inv s"
  unfolding disp_frame_def by (erule ssubst) (simp add: stream_inv_def)

lemma setCache_inv:
  assumes "setCache (m_arqSeq p) p s = Inr s'" "stream_inv s"
  shows "stream_inv s'"
  using assms(1)
proof (cases rule: setCache_cases)
  case kept
  then show ?thesis using assms(2) by simp
next
  case (filed q)
  have "stream_inv (new_entry (m_arqSeq p) q s)"
    using pk_copy_deep_fields [OF filed(1)] assms(2) by (auto intro: new_entry_inv)
  then show ?thesis using filed(2)
    by (auto simp: stream_inv_cong [of "emit _ _" "new_entry (m_arqSeq p) q s"])
qed

lemma erase_inv: "stream_inv s \<Longrightarrow> stream_inv (s\<lparr>m_cache := smap_del k (m_cache s)\<rparr>)"
  by (auto simp: stream_inv_def smap_inv_del) (auto simp: smap_del_def)

interpretation inv_rel: stream_relation "\<lambda>s s'. stream_inv s \<longrightarrow> stream_inv s'"
proof unfold_locales
  fix s :: pstream and ml
  show "stream_inv s \<longrightarrow> stream_inv (s\<lparr>m_maxLength := clamp_max ml\<rparr>)"
    by (auto simp: stream_inv_def clamp_max_def not_less)
next
  fix p f and s :: pstream
  assume "addFragment p (m_fragment s) = Inr f"
  then show "stream_inv s \<longrightarrow> stream_inv (s\<lparr>m_fragment := f\<rparr>)"
    using frag.step_keeps by (auto simp: stream_inv_def)
qed (auto simp: erase_inv frame_inv [OF dispatch_frame] frag_inv_reset dest: setCache_inv,
     auto simp: stream_inv_def frag_inv_reset)

interpretation stream_run: invariant_machine "ps_step E" stream_inv
  using inv_rel.ps_step_R by unfold_locales blast

section \<open>What a stream emits\<close>

text \<open>
  The events of a stream only grow, its wiring is never touched by a packet, and a muted stream
  activates no handler and makes no report on what it decoded.
\<close>

fun handler_event :: "event \<Rightarrow> bool" where
  "handler_event (EvActivate a) = True"
| "handler_event (EvDecodedKnown d n dir op e u) = True"
| "handler_event _ = False"

definition wiring :: "pstream \<Rightarrow> stream_id \<times> u8 \<times> ((nat \<times> nat) \<times> handler list) list \<times> bool \<times> u16 \<times> u64 \<times> bool" where
  "wiring s = (ps_streamid s, ps_dir s, m_dispatchers s, m_muted s, m_arqSeqGiveUp s, m_decodeKey s, m_validKey s)"

definition hist :: "pstream \<Rightarrow> pstream \<Rightarrow> bool" where
  "hist s s' \<longleftrightarrow> wiring s' = wiring s \<and>
     (\<exists>evs. ps_out s' = ps_out s @ evs \<and> (m_muted s \<longrightarrow> (\<forall>e \<in> set evs. \<not> handler_event e)))"

lemma hist_silent: "wiring s' = wiring s \<Longrightarrow> ps_out s' = ps_out s \<Longrightarrow> hist s s'"
  by (simp add: hist_def)

lemma wiring_emit [simp]: "wiring (emit e s) = wiring s"
  by (simp add: wiring_def emit_def)

lemma hist_emit: "(m_muted s \<Longrightarrow> \<not> handler_event e) \<Longrightarrow> hist s (emit e s)"
  by (simp add: hist_def)

lemma hist_trans: "hist s t \<Longrightarrow> hist t u \<Longrightarrow> hist s u"
  by (fastforce simp: hist_def wiring_def)

lemma hist_dispatch:
  assumes "ps_dispatch db d n op e s = Inr s'"
  shows "hist s s'"
proof -
  define t where "t = emit (EvDecoded d n (ps_dir s) op e) s"
  have t: "hist s t" unfolding t_def by (rule hist_emit) simp
  have "hist t s'"
  proof (cases "m_muted t")
    case True
    then have "s' = t" using assms by (simp add: ps_dispatch_def Let_def t_def)
    then show ?thesis by (simp add: hist_silent)
  next
    case loud: False
    show ?thesis
    proof (cases e)
      case None
      then have "s' = emit (EvDecodedKnown d n (ps_dir t) op e True) t"
        using assms loud by (simp add: ps_dispatch_def t_def Let_def)
      then show ?thesis using loud by (auto intro: hist_emit)
    next
      case (Some a)
      then obtain v evs u where u: "u = t\<lparr>ps_out := ps_out t @ evs\<rparr> \<or>
            (\<exists>w. u = t\<lparr>ps_out := ps_out t @ evs, m_sizeMismatchWarned := w\<rparr>)"
          and s': "s' = emit (EvDecodedKnown d n (ps_dir u) op e v) u"
        using assms loud unfolding ps_dispatch_def t_def [symmetric] Let_def
        by (simp add: result_simps case_prod_beta split: if_splits) metis+
      from u loud have u: "hist t u" "\<not> m_muted u"
        by (auto simp: hist_def wiring_def)
      show ?thesis unfolding s' by (rule hist_trans [OF u(1) hist_emit]) (simp add: u(2))
    qed
  qed
  with t show ?thesis by (rule hist_trans)
qed

interpretation hist_rel: stream_relation hist
proof unfold_locales
  fix p s s'
  assume "setCache (m_arqSeq p) p s = Inr s'"
  then show "hist s s'"
    by (cases rule: setCache_cases) (auto simp: hist_def wiring_def new_entry_def)
next
  fix ev s assume "\<not> loud ev"
  then show "hist s (emit ev s)" by (cases ev) (auto intro: hist_emit)
qed (auto intro: hist_trans hist_dispatch hist_silent simp: wiring_def)

end
