(* ===== verification/StreamWindow.thy ===== *)
theory StreamWindow
  imports StreamInvariant
begin

text \<open>
  The receive window of a stream, and why processing a datagram comes to an end: the recursion
  into subpackets, bounded by the length of the packet, and the search of \<open>processCache\<close> for
  the next cached packet, bounded by the range of sequence numbers.
\<close>

section \<open>The receive window\<close>

lemma u16_diff:
  fixes a b :: u16
  shows "unat (a - b) = (if unat b \<le> unat a then unat a - unat b else unat a + 65536 - unat b)"
  by (simp add: unat_sub_if_size word_size)

lemma future_seq_distance:
  "future_seq ex seq \<longleftrightarrow>
     seq \<noteq> ex \<and> (unat (seq - ex) < 1024 \<or> seq < ex \<and> unat (seq - ex) < 65536 - 1024)"
proof -
  have gap: "int a < int b - int c \<longleftrightarrow> a + c < b" for a b c by linarith
  have "unat ex < 65536" "unat seq < 65536" by (rule u16_lt)+
  then show ?thesis
    unfolding future_seq_def gap arqSeqWrapCutoff_def u16_diff word_less_nat_alt word_unat_eq_iff
    by auto
qed

lemma window_cases:
  "sequenced expected packet s =
     (let ahead = unat (m_arqSeq packet - m_arqSeqExp s);
          t = emit (EvSeqReceive (m_arqSeq packet)) s
      in if ahead = 0 then expected packet (expect_next t)
         else if ahead < 1024 then setCache (m_arqSeq packet) packet t
         else if 65536 - 1024 \<le> ahead then Inr t
         else if m_arqSeq packet < m_arqSeqExp s then setCache (m_arqSeq packet) packet t
         else Inr t)"
proof -
  have "m_arqSeq packet = m_arqSeqExp s \<longleftrightarrow> unat (m_arqSeq packet - m_arqSeqExp s) = 0"
    by (simp add: unat_eq_0)
  then show ?thesis
    by (auto simp: sequenced_def Let_def future_seq_distance)
qed

lemma window_ahead:
  "0 < unat (m_arqSeq p - m_arqSeqExp s) \<Longrightarrow> unat (m_arqSeq p - m_arqSeqExp s) < 1024 \<Longrightarrow>
   sequenced f p s = setCache (m_arqSeq p) p (emit (EvSeqReceive (m_arqSeq p)) s)"
  by (subst window_cases) (simp only: Let_def, simp)

lemma window_behind:
  "64512 \<le> unat (m_arqSeq p - m_arqSeqExp s) \<Longrightarrow> sequenced f p s = Inr (emit (EvSeqReceive (m_arqSeq p)) s)"
  by (subst window_cases) (simp only: Let_def, simp)

text \<open>A sequenced packet is processed exactly when its number is the expected one, kept
  when it is less than 1024 ahead modulo the wrap-around, and dropped when it is up to 1024
  behind. Beyond that distance the number decides: above the expected one it is dropped, below it it counts as ahead.\<close>

theorem receive_window:
  "sequenced expected packet s =
     (let ahead = unat (m_arqSeq packet - m_arqSeqExp s);
          t = emit (EvSeqReceive (m_arqSeq packet)) s
      in if ahead = 0 then expected packet (expect_next t)
         else if ahead < 1024 then setCache (m_arqSeq packet) packet t
         else if 65536 - 1024 \<le> ahead then Inr t
         else if m_arqSeq packet < m_arqSeqExp s then setCache (m_arqSeq packet) packet t
         else Inr t)"
  by (rule window_cases)

section \<open>Fuel of the recursion into subpackets\<close>

named_theorems in_fuel \<open>operations that never run out of fuel\<close>

lemma rbind_in_fuel [in_fuel]:
  "m \<noteq> Inl OutOfFuel \<Longrightarrow> (\<And>v. m = Inr v \<Longrightarrow> f v \<noteq> Inl OutOfFuel) \<Longrightarrow> rbind m f \<noteq> Inl OutOfFuel"
  by (cases m) auto

lemma if_in_fuel [in_fuel]:
  "(c \<Longrightarrow> a \<noteq> Inl OutOfFuel) \<Longrightarrow> (\<not> c \<Longrightarrow> b \<noteq> Inl OutOfFuel) \<Longrightarrow> (if c then a else b) \<noteq> Inl OutOfFuel"
  by simp

lemma option_in_fuel [in_fuel]:
  "(e = None \<Longrightarrow> a \<noteq> Inl OutOfFuel) \<Longrightarrow> (\<And>v. e = Some v \<Longrightarrow> f v \<noteq> Inl OutOfFuel) \<Longrightarrow>
   (case e of None \<Rightarrow> a | Some v \<Rightarrow> f v) \<noteq> Inl OutOfFuel"
  by (cases e) auto

lemma Inr_in_fuel [in_fuel]: "Inr v \<noteq> Inl OutOfFuel"
  by simp

lemma rd_in_fuel [in_fuel]: "rd p i \<noteq> Inl OutOfFuel"
  by (simp add: rd_eq_Inl)

lemma rd_bytes_in_fuel [in_fuel]: "rd_bytes p n \<noteq> Inl OutOfFuel"
  by (simp add: result_simps)

lemma rguard_in_fuel [in_fuel]: "f \<noteq> OutOfFuel \<Longrightarrow> rguard b f \<noteq> Inl OutOfFuel"
  by (auto simp: result_simps)

lemma readers_in_fuel [in_fuel]:
  "eqtohuint16 p \<noteq> Inl OutOfFuel" "eqntohuint16 p \<noteq> Inl OutOfFuel"
  "eqntohuint32 p \<noteq> Inl OutOfFuel" "eqtohuint32 p \<noteq> Inl OutOfFuel"
  unfolding reader_defs by (intro in_fuel)+

lemma addresses_in_fuel [in_fuel]:
  "getSourcePort u \<noteq> Inl OutOfFuel" "getDestPort u \<noteq> Inl OutOfFuel"
  "getIPv4SourceN u \<noteq> Inl OutOfFuel" "getIPv4DestN u \<noteq> Inl OutOfFuel" "crc p \<noteq> Inl OutOfFuel"
  unfolding getSourcePort_def getDestPort_def getIPv4SourceN_def getIPv4DestN_def crc_def
  by (intro in_fuel)+

lemma deref_in_fuel [in_fuel]: "deref db a \<noteq> Inl OutOfFuel"
  by (simp add: deref_def split: option.split)

lemma payload_match_in_fuel [in_fuel]: "payload_match p n dir \<noteq> Inl OutOfFuel"
  by (simp add: payload_match_def split: size_check.split)

lemma match_loop_in_fuel [in_fuel]: "match_loop ds a i ps d n dir \<noteq> Inl OutOfFuel"
proof (induction ps arbitrary: i)
  case (Cons p ps)
  show ?case
    unfolding match_loop.simps case_prod_beta by (intro in_fuel Cons.IH)
qed simp

lemma dispatch_op_in_fuel [in_fuel]: "dispatch_op db d n op s \<noteq> Inl OutOfFuel"
  unfolding dispatch_op_def ps_dispatch_def Let_def case_prod_beta by (intro in_fuel)

lemma pk_init_in_fuel [in_fuel]: "pk_init mem n copy sub p \<noteq> Inl OutOfFuel"
  unfolding pk_init_def pk_init0_def init_flagged_def take_seq_def Let_def by (intro in_fuel)

lemma pk_copy_in_fuel [in_fuel]: "pk_copy p deep \<noteq> Inl OutOfFuel"
  unfolding pk_copy_def by (intro in_fuel)

lemma crc_ok_in_fuel [in_fuel]: "crc_ok p s \<noteq> Inl OutOfFuel"
  unfolding crc_ok_def calculateCRC_def calcCRC16_def calcCRC32_def by (intro in_fuel)

lemma setCache_in_fuel [in_fuel]: "setCache q p s \<noteq> Inl OutOfFuel"
  unfolding setCache_def Let_def by (intro in_fuel)

lemma addFragment_in_fuel [in_fuel]: "addFragment p f \<noteq> Inl OutOfFuel"
  unfolding addFragment_def first_fragment_def next_fragment_def frag_memcpy_def Let_def
  by (intro in_fuel; simp)

lemma cast_udp_in_fuel [in_fuel]: "cast_udp u \<noteq> Inl OutOfFuel"
  unfolding cast_udp_def by (intro in_fuel) simp

text \<open>\<open>small f n\<close>: \<open>f\<close> has the fuel for every packet whose payload is shorter than \<open>n\<close>.\<close>

definition small :: "process \<Rightarrow> nat \<Rightarrow> bool" where
  "small f n \<longleftrightarrow> (\<forall>p s. length (m_payload p) < n \<longrightarrow> f p s \<noteq> Inl OutOfFuel)"

lemma smallD: "small f n \<Longrightarrow> length (m_payload p) < n \<Longrightarrow> f p s \<noteq> Inl OutOfFuel"
  by (simp add: small_def)

lemma small_mono: "small f n \<Longrightarrow> m \<le> n \<Longrightarrow> small f m"
  by (auto simp: small_def)

lemma sub_packet_shorter:
  assumes "sub_packet mem len = Inr sp"
  shows "m_packet sp = mem \<and> length (m_payload sp) < length mem"
proof -
  have post: "init_post mem len False True sp"
    using pk_init_post [of mem len False True blank_packet sp] assms by (simp add: sub_packet_def)
  then have "\<not> hasFlags sp" by (simp add: init_post_def hasFlags_def)
  then have "m_payload sp = drop (header_len sp) mem" "0 < header_len sp"
    using post by (auto simp: init_post_def header_len_def split: if_splits)
  moreover have "mem \<noteq> []"
    using assms by (auto simp: sub_packet_def pk_init_def pk_init0_def eqtohuint16_def result_simps)
  ultimately show ?thesis using post by (simp add: init_post_def)
qed

lemma sub_packet_in_fuel [in_fuel]: "sub_packet mem len \<noteq> Inl OutOfFuel"
  unfolding sub_packet_def by (rule pk_init_in_fuel)

lemma sub_call_in_fuel:
  "small recur n \<Longrightarrow> length mem \<le> n \<Longrightarrow> rbind (sub_packet mem len) (\<lambda>sp. recur sp s) \<noteq> Inl OutOfFuel"
  by (intro in_fuel) (auto dest!: sub_packet_shorter elim!: smallD)

lemma combined_step_in_fuel:
  assumes "small recur n" "length p \<le> n"
  shows "combined_step db recur len p s \<noteq> Inl OutOfFuel"
  unfolding combined_step_def rbind_assoc [symmetric]
  by (intro in_fuel sub_call_in_fuel [OF assms])

lemma combined_loop_in_fuel:
  "small recur n \<Longrightarrow> length p \<le> n \<Longrightarrow> combined_loop db recur p left s \<noteq> Inl OutOfFuel"
proof (induction db recur p left s rule: combined_loop.induct)
  case (1 db recur p left s)
  show ?case
    unfolding combined_loop.simps [of db recur p left s] Let_def case_prod_beta
  proof (intro in_fuel)
    fix len v assume "left \<noteq> 0" and v: "rd p 0 = Inr len" "combined_step db recur len (drop 1 p) s = Inr v"
    then show "combined_loop db recur (drop (1 + fst v + unat len) p) (left - (1 + fst v + unat len)) (snd v)
        \<noteq> Inl OutOfFuel"
      using 1(3) by (intro 1(1) [OF _ v prod.collapse refl 1(2)]) simp_all
  qed (use 1(3) in \<open>intro combined_step_in_fuel [OF 1(2)]; simp\<close>)
qed

lemma app_step_in_fuel [in_fuel]: "app_step db len dec p s \<noteq> Inl OutOfFuel"
  unfolding app_step_def by (intro in_fuel)

lemma appcombined_loop_in_fuel [in_fuel]: "appcombined_loop db p left s \<noteq> Inl OutOfFuel"
proof (induction db p left s rule: appcombined_loop.induct)
  case (1 db p left s)
  show ?case
    unfolding appcombined_loop.simps [of db p left s] Let_def case_prod_beta
    by (intro in_fuel; rule 1(1) [OF _ _ _ _ prod.collapse refl] 1(2) [OF _ _ _ _ _ prod.collapse refl]; assumption)
qed

lemma sequenced_in_fuel:
  "(\<And>t. expected p t \<noteq> Inl OutOfFuel) \<Longrightarrow> sequenced expected p s \<noteq> Inl OutOfFuel"
  unfolding sequenced_def Let_def by (intro in_fuel)

lemma packet_expected_in_fuel:
  "small recur (length (m_payload p)) \<Longrightarrow> packet_expected db recur p s \<noteq> Inl OutOfFuel"
  unfolding packet_expected_def Let_def
  by (intro if_in_fuel rbind_in_fuel [of "eqtohuint16 _"] sub_call_in_fuel [of recur "length (m_payload p)"]
      dispatch_op_in_fuel readers_in_fuel) simp_all

lemma session_in_fuel [in_fuel]:
  "process_SessionRequest u p s \<noteq> Inl OutOfFuel" "track_response w s \<noteq> Inl OutOfFuel"
  "process_SessionDisconnect E p s \<noteq> Inl OutOfFuel"
  unfolding process_SessionRequest_def track_response_def process_SessionDisconnect_def Let_def
  by (intro in_fuel)+

lemma response_in_fuel [in_fuel]: "process_SessionResponse u p s \<noteq> Inl OutOfFuel"
  unfolding process_SessionResponse_def Let_def by (intro in_fuel)

lemma process_body_in_fuel:
  assumes "small recur (length (m_payload p))" "\<And>p s. ovs p s \<noteq> Inl OutOfFuel"
  shows "process_body E recur ovs u p s \<noteq> Inl OutOfFuel"
  unfolding process_body_def process_OP_Packet_def Let_def
  by (intro in_fuel combined_loop_in_fuel [OF assms(1)] sequenced_in_fuel
      packet_expected_in_fuel assms order.refl)

lemma process_inner_in_fuel: "small (process_inner E n) n"
proof (induction n)
  case (Suc n)
  show ?case
    unfolding small_def process_inner.simps
  proof (intro allI impI)
    fix p :: eqpacket and s assume "length (m_payload p) < Suc n"
    then show "process_body E (process_inner E n) (\<lambda>_ _. Inl ReentrantFragment) None p s \<noteq> Inl OutOfFuel"
      by (intro process_body_in_fuel small_mono [OF Suc]) simp_all
  qed
qed (simp add: small_def)

lemma oversized_in_fuel: "oversized_expected db (fragment_inner E) p s \<noteq> Inl OutOfFuel"
proof -
  have inner: "rbind (sub_packet mem len) (\<lambda>sp. fragment_inner E sp s) \<noteq> Inl OutOfFuel" for mem len s
    unfolding fragment_inner_def
    by (intro rbind_in_fuel sub_packet_in_fuel smallD [OF process_inner_in_fuel])
      (auto dest!: sub_packet_shorter)
  show ?thesis
    unfolding oversized_expected_def fragment_complete_def fragment_dispatch_def Let_def
    by (intro in_fuel inner)
qed

lemma process_sub_in_fuel: "small (process_sub E n) n"
proof (induction n)
  case (Suc n)
  show ?case
    unfolding small_def process_sub.simps
  proof (intro allI impI)
    fix p :: eqpacket and s assume "length (m_payload p) < Suc n"
    then show "process_body E (process_sub E n) (oversized_expected (env_db E) (fragment_inner E)) None p s
        \<noteq> Inl OutOfFuel"
      by (intro process_body_in_fuel small_mono [OF Suc] oversized_in_fuel) simp_all
  qed
qed (simp add: small_def)

text \<open>C38: the recursion of \<open>processPacket\<close> into subpackets always ends: with one level per byte of
  payload it returns or faults, and never runs out of levels.\<close>

theorem processPacket_recursion_ends: "processPacket E u p s \<noteq> Inl OutOfFuel"
  unfolding processPacket_def
  by (intro process_body_in_fuel small_mono [OF process_sub_in_fuel] oversized_in_fuel) simp

section \<open>Giving up on a missing packet\<close>

lemma expect_next_fields [simp]:
  "m_arqSeqExp (expect_next s) = m_arqSeqExp s + 1" "m_cache (expect_next s) = m_cache s"
  "m_arqSeqGiveUp (expect_next s) = m_arqSeqGiveUp s" "ps_sessionKey (expect_next s) = ps_sessionKey s"
  "ps_alloc (expect_next s) = ps_alloc s" "m_fragment (expect_next s) = m_fragment s"
  "m_muted (expect_next s) = m_muted s" "ps_dir (expect_next s) = ps_dir s"
  by (simp_all add: expect_next_def Let_def)

lemma give_up_finds:
  assumes "map_of (m_cache s) (m_arqSeqExp s + of_nat d) \<noteq> None" "d \<le> n"
    "\<And>j. j < d \<Longrightarrow> map_of (m_cache s) (m_arqSeqExp s + of_nat j) = None"
  shows "\<exists>t. give_up_loop n s = Inr t \<and> m_cache t = m_cache s \<and> m_arqSeqExp t = m_arqSeqExp s + of_nat d"
  using assms
proof (induction d arbitrary: n s)
  case 0
  then show ?case by (cases n) auto
next
  case (Suc d)
  obtain m where n: "n = Suc m" using Suc.prems(2) by (cases n) auto
  have "map_of (m_cache s) (m_arqSeqExp s) = None" using Suc.prems(3) [of 0] by simp
  moreover have "\<exists>t. give_up_loop m (expect_next s) = Inr t \<and> m_cache t = m_cache (expect_next s)
      \<and> m_arqSeqExp t = m_arqSeqExp (expect_next s) + of_nat d"
  proof (rule Suc.IH)
    show "map_of (m_cache (expect_next s)) (m_arqSeqExp (expect_next s) + of_nat d) \<noteq> None"
      using Suc.prems(1) by (simp add: add_ac)
    show "map_of (m_cache (expect_next s)) (m_arqSeqExp (expect_next s) + of_nat j) = None" if "j < d" for j
      using Suc.prems(3) [of "Suc j"] that by (simp add: add_ac)
  qed (use Suc.prems(2) n in simp)
  ultimately show ?case by (auto simp: n add_ac)
qed

text \<open>Giving up on a missing packet moves the expected number forward, over the wrap-around if
  need be, to the first cached packet and no further, and leaves the cache as it is.\<close>

theorem giving_up_finds_first_cached:
  assumes "m_cache s \<noteq> []"
  shows "\<exists>t d. give_up_loop 65536 s = Inr t \<and> m_cache t = m_cache s \<and> d < 65536 \<and>
    m_arqSeqExp t = m_arqSeqExp s + of_nat d \<and> map_of (m_cache s) (m_arqSeqExp t) \<noteq> None \<and>
    (\<forall>j<d. map_of (m_cache s) (m_arqSeqExp s + of_nat j) = None)"
proof -
  let ?P = "\<lambda>d. map_of (m_cache s) (m_arqSeqExp s + of_nat d) \<noteq> None"
  obtain k v where "(k, v) \<in> set (m_cache s)" using assms by (cases "m_cache s") auto
  then have "map_of (m_cache s) k \<noteq> None" by (simp add: map_of_eq_None_iff) force
  moreover have "m_arqSeqExp s + of_nat (unat (k - m_arqSeqExp s)) = k" by simp
  ultimately have hit: "?P (unat (k - m_arqSeqExp s))" by simp
  define d where "d = (LEAST d. ?P d)"
  have d: "?P d" "d \<le> unat (k - m_arqSeqExp s)" "\<And>j. j < d \<Longrightarrow> \<not> ?P j"
    unfolding d_def using hit by (rule LeastI, rule Least_le) (rule not_less_Least)
  then have "d < 65536" using u16_lt [of "k - m_arqSeqExp s"] by simp
  moreover have none: "map_of (m_cache s) (m_arqSeqExp s + of_nat j) = None" if "j < d" for j
    using d(3) [OF that] by blast
  moreover obtain t where "give_up_loop 65536 s = Inr t" "m_cache t = m_cache s"
      "m_arqSeqExp t = m_arqSeqExp s + of_nat d"
    using give_up_finds [OF d(1) _ none, of 65536] \<open>d < 65536\<close> by auto
  ultimately show ?thesis using d(1) by auto
qed

theorem giving_up_finds_first_cached_witness:
  "let s = (mkPacketStream zone2client DIR_Server 0)
      \<lparr>m_arqSeqExp := 65535, m_cache := [(1, 0, blank_packet), (9, 1, blank_packet)]\<rparr>
   in m_cache s \<noteq> [] \<and> (\<exists>t. give_up_loop 65536 s = Inr t \<and> m_arqSeqExp t \<in> {1, 9})"
proof -
  let ?s = "(mkPacketStream zone2client DIR_Server 0)
      \<lparr>m_arqSeqExp := 65535, m_cache := [(1, 0, blank_packet), (9, 1, blank_packet)]\<rparr>"
  obtain t where t: "give_up_loop 65536 ?s = Inr t" "map_of (m_cache ?s) (m_arqSeqExp t) \<noteq> None"
    using giving_up_finds_first_cached [of ?s] by auto
  then have "m_arqSeqExp t \<in> {1, 9}" by (auto split: if_splits)
  then show ?thesis using t(1) by auto
qed

end
