(* ===== verification/StreamOrder.thy ===== *)
theory StreamOrder
  imports StreamWindow
begin

text \<open>
  Delivery in order. The specification is a receiver that numbers the packets of the peer
  \<open>0, 1, 2, \<dots>\<close> without wrap-around and hands over every packet below the first one that has
  not arrived; \<open>handlePacket\<close> with its 16-bit window, cache and iterator refines it.
\<close>

section \<open>What a stream has decoded\<close>

type_synonym message = "u16 \<times> bytes"

fun decoded_event :: "event \<Rightarrow> message option" where
  "decoded_event (EvDecoded d n dir op e) = Some (op, take n d)"
| "decoded_event _ = None"

definition decoded :: "pstream \<Rightarrow> message list" where
  "decoded s = List.map_filter decoded_event (ps_out s)"

lemma map_filter_append: "List.map_filter f (xs @ ys) = List.map_filter f xs @ List.map_filter f ys"
  by (simp add: List.map_filter_def)

lemma decoded_emit: "decoded (emit e s) = decoded s @ (case decoded_event e of None \<Rightarrow> [] | Some m \<Rightarrow> [m])"
  by (simp add: decoded_def emit_def map_filter_append split: option.split)

lemma decoded_cong: "ps_out t = ps_out s \<Longrightarrow> decoded t = decoded s"
  by (simp add: decoded_def)

text \<open>No payload of the table can divide by zero, and no entry dangles.\<close>

definition dispatchable :: "opcode_db \<Rightarrow> bool" where
  "dispatchable db \<longleftrightarrow> (\<forall>op a. db_find db op = Some a \<longrightarrow> (\<exists>p. deref db a = Inr p \<and>
     (\<forall>q \<in> set (m_payloads p). m_sizeCheckType q = SZC_Modulus \<longrightarrow> m_typeSize q \<noteq> 0)))"

lemma match_loop_total:
  "(\<forall>q \<in> set ps. m_sizeCheckType q = SZC_Modulus \<longrightarrow> m_typeSize q \<noteq> 0) \<Longrightarrow>
   \<exists>r. match_loop ds a i ps d n dir = Inr r \<and> List.map_filter decoded_event (snd r) = []"
proof (induction ps arbitrary: i)
  case (Cons q ps)
  then obtain found evs where rest: "match_loop ds a (Suc i) ps d n dir = Inr (found, evs)"
      "List.map_filter decoded_event evs = []" by fastforce
  obtain b where "payload_match q n dir = Inr b"
    using Cons.prems
    by (cases "m_sizeCheckType q"; cases "m_dir q AND dir = 0") (auto simp: payload_match_def)
  moreover have "List.map_filter decoded_event (map EvActivate as) = []" for as
    by (induction as) simp_all
  ultimately show ?case
    using rest by (cases b; cases "map_of ds (a, i)") (auto simp: map_filter_append)
qed simp

lemma dispatch_total:
  assumes "dispatchable db"
  shows "\<exists>t. dispatch_op db d n op s = Inr t \<and> disp_frame s t \<and> decoded t = decoded s @ [(op, take n d)]"
proof -
  define u where "u = emit (EvDecoded d n (ps_dir s) op (db_find db op)) s"
  have u: "decoded u = decoded s @ [(op, take n d)]" by (simp add: u_def decoded_emit)
  have "\<exists>t. dispatch_op db d n op s = Inr t \<and> decoded t = decoded u"
  proof (cases "m_muted u")
    case True
    then show ?thesis by (simp add: dispatch_op_def ps_dispatch_def Let_def u_def)
  next
    case loud: False
    show ?thesis
    proof (cases "db_find db op")
      case None
      then show ?thesis
        using loud by (simp add: dispatch_op_def ps_dispatch_def Let_def u_def decoded_emit)
    next
      case (Some a)
      then obtain p where p: "deref db a = Inr p"
        "\<forall>q \<in> set (m_payloads p). m_sizeCheckType q = SZC_Modulus \<longrightarrow> m_typeSize q \<noteq> 0"
        using assms Some unfolding dispatchable_def by blast
      obtain found evs where m: "match_loop (m_dispatchers u) a 0 (m_payloads p) d n (ps_dir u) = Inr (found, evs)"
        "List.map_filter decoded_event evs = []"
        using match_loop_total [OF p(2), of "m_dispatchers u" a 0 d n "ps_dir u"] by auto
      then have "decoded (u\<lparr>ps_out := ps_out u @ evs\<rparr>) = decoded u"
        "decoded (u\<lparr>ps_out := ps_out u @ evs, m_sizeMismatchWarned := w\<rparr>) = decoded u" for w
        by (simp_all add: decoded_def map_filter_append)
      then show ?thesis
        using loud p(1) m(1)
        unfolding dispatch_op_def ps_dispatch_def u_def [symmetric, unfolded Some] Some Let_def option.case
        by (simp add: decoded_emit u_def [unfolded Some])
    qed
  qed
  then show ?thesis using u dispatch_frame by (fastforce simp: dispatch_op_def)
qed

section \<open>The packets of the peer\<close>

text \<open>
  \<open>carries_app key seq m p\<close>: the decoded packet \<open>p\<close> is an \<open>OP_Packet\<close> numbered \<open>seq\<close> whose body is
  the application packet \<open>m\<close>, and its CRC is right under the session key.
\<close>

definition key_crc :: "u32 \<Rightarrow> eqpacket \<Rightarrow> bool" where
  "key_crc key p \<longleftrightarrow> crc_ok p ((mkPacketStream zone2client 0 0)\<lparr>ps_sessionKey := key\<rparr>) = Inr True"

definition carries_app :: "u32 \<Rightarrow> u16 \<Rightarrow> message \<Rightarrow> eqpacket \<Rightarrow> bool" where
  "carries_app key seq m p \<longleftrightarrow> m_netOp p = OP_Packet \<and> m_arqSeq p = seq \<and> IS_APP_OPCODE (fst m) \<and>
     copyable p \<and> payload_bytes p = le16_bytes (fst m) @ snd m \<and> key_crc key p"

lemma crc_ok_key: "crc_ok p s = crc_ok p t" if "ps_sessionKey s = ps_sessionKey t"
  using that by (simp add: crc_ok_def calculateCRC_def)

lemma key_crc_ok: "key_crc (ps_sessionKey s) p \<Longrightarrow> crc_ok p s = Inr True"
  by (simp add: key_crc_def crc_ok_key [of s "(mkPacketStream zone2client 0 0)\<lparr>ps_sessionKey := ps_sessionKey s\<rparr>"])

lemma calcCRC16_take:
  "unat n \<le> l \<Longrightarrow> l \<le> length d \<Longrightarrow> calcCRC16 (take l d) n k = calcCRC16 d n k"
  by (simp add: calcCRC16_def calcCRC32_def rd_bytes_def min_def)

lemma eqntohuint16_take: "k + 2 \<le> l \<Longrightarrow> eqntohuint16 (drop k (take l d)) = eqntohuint16 (drop k d)"
  by (auto simp: drop_take eqntohuint16_def rd_def)

lemma key_crc_copy:
  assumes "m_packet q = take (unat (m_length p)) (m_packet p)" "m_length q = m_length p"
    "m_netOp q = m_netOp p" "m_subpacket q = m_subpacket p" "unat (m_length p) \<le> length (m_packet p)"
  shows "key_crc key q = key_crc key p"
proof -
  have raw: "rawPacketLength q = rawPacketLength p" "hasCRC q = hasCRC p"
    using assms by (simp_all add: rawPacketLength_def hasCRC_def)
  have le: "unat (ucast (rawPacketLength p) - 2 :: u32) \<le> unat (m_length p)" if "\<not> rawPacketLength p < 2"
  proof -
    have "2 \<le> unat (rawPacketLength p)" using that by (simp add: word_less_nat_alt)
    then have "unat (ucast (rawPacketLength p) - of_nat 2 :: u32) = unat (rawPacketLength p) - 2"
      using u32_minus_nat(2) [of 2 "ucast (rawPacketLength p)"] by simp
    moreover have "unat (rawPacketLength p) \<le> unat (m_length p)"
      by (simp add: rawPacketLength_def unsigned_ucast_eq take_bit_eq_mod)
    ultimately show ?thesis by simp
  qed
  have "calculateCRC q s = calculateCRC p s" for s
    using calcCRC16_take [OF le assms(5)] by (simp add: calculateCRC_def raw assms(1))
  moreover have "crc q = crc p"
  proof (cases "2 \<le> m_length p")
    case True
    then have "unat (m_length p - 2) + 2 \<le> unat (m_length p)"
      using u32_minus_nat(2) [of 2 "m_length p"] by (simp add: word_le_nat_alt)
    then show ?thesis using True by (simp add: crc_def assms(1,2) eqntohuint16_take)
  qed (simp add: crc_def assms(2))
  ultimately show ?thesis by (simp add: key_crc_def crc_ok_def raw)
qed

lemma carries_copy:
  assumes "carries_app key seq m p"
  shows "\<exists>q. pk_copy p True = Inr q \<and> carries_app key seq m q"
proof -
  have "copyable p" using assms by (simp add: carries_app_def)
  from pk_copy_deep [OF this] obtain q where q: "pk_copy p True = Inr q" "payload_bytes q = payload_bytes p"
    "copyable q" "m_packet q = take (unat (m_length p)) (m_packet p)" "m_length q = m_length p"
    "m_netOp q = m_netOp p" "m_arqSeq q = m_arqSeq p" "m_subpacket q = m_subpacket p" by blast
  moreover have "unat (m_length p) \<le> length (m_packet p)" using \<open>copyable p\<close> by (simp add: copyable_def)
  ultimately show ?thesis
    using assms key_crc_copy [of q p key] by (auto simp: carries_app_def)
qed

text \<open>A decoded datagram that the session of \<open>s\<close> admits: not from another client, not from a broadcast port.\<close>

definition datagram :: "pstream \<Rightarrow> u16 \<Rightarrow> message \<Rightarrow> udp_packet \<Rightarrow> bool" where
  "datagram s seq m u \<longleftrightarrow> carries_app (ps_sessionKey s) seq m (u_base u) \<and> foreign_client u s = Inr False \<and>
     (case (getSourcePort u, getDestPort u) of (Inr sp, Inr dp) \<Rightarrow> \<not> bsh_port sp \<and> \<not> bsh_port dp | _ \<Rightarrow> False)"

section \<open>The receiver that does not wrap around\<close>

definition mex :: "nat list \<Rightarrow> nat" where
  "mex A = length (takeWhile (\<lambda>i. i \<in> set A) [0..<Suc (length A)])"

lemma mex_below: "i < mex A \<Longrightarrow> i \<in> set A"
proof -
  assume i: "i < mex A"
  let ?w = "takeWhile (\<lambda>i. i \<in> set A) [0..<Suc (length A)]"
  have "?w ! i \<in> set A" using i set_takeWhileD [of "?w ! i" "\<lambda>i. i \<in> set A"] nth_mem by (metis mex_def)
  moreover have "?w ! i = i"
    using i length_takeWhile_le [of "\<lambda>i. i \<in> set A" "[0..<Suc (length A)]"]
    by (simp add: mex_def takeWhile_nth del: upt_Suc)
  ultimately show ?thesis by simp
qed

lemma mex_missing: "mex A \<notin> set A"
proof
  assume hit: "mex A \<in> set A"
  let ?l = "[0..<Suc (length A)]"
  have "mex A \<le> length A"
  proof (rule ccontr)
    assume "\<not> mex A \<le> length A"
    then have "{0..length A} \<subseteq> set A" using mex_below by (auto simp: not_le)
    then have "Suc (length A) \<le> card (set A)" using card_mono [of "set A" "{0..length A}"] by simp
    then show False using card_length [of A] by simp
  qed
  then have "length (takeWhile (\<lambda>i. i \<in> set A) ?l) < length ?l" by (simp add: mex_def del: upt_Suc)
  from nth_length_takeWhile [OF this] show False
    using hit \<open>mex A \<le> length A\<close> by (simp add: mex_def del: upt_Suc)
qed

lemma mex_eqI: "(\<And>i. i < n \<Longrightarrow> i \<in> set A) \<Longrightarrow> n \<notin> set A \<Longrightarrow> mex A = n"
  using mex_below [of n A] mex_missing [of A] by (metis linorder_neqE_nat)

lemma mex_cong: "set A = set B \<Longrightarrow> mex A = mex B"
  using mex_below [of _ B] mex_missing [of B] by (intro mex_eqI) auto

text \<open>
  Arrivals \<open>ks\<close> after \<open>A\<close>: each within the window around the first missing number, and fewer
  early packets held than the give-up limit \<open>g\<close>.
\<close>

fun windowed :: "nat \<Rightarrow> nat list \<Rightarrow> nat list \<Rightarrow> bool" where
  "windowed g A [] = True"
| "windowed g A (k # ks) =
     (k < mex A + 1024 \<and> mex A \<le> k + 1024 \<and> length (filter (\<lambda>j. mex A < j) (remdups (k # A))) < g
      \<and> windowed g (k # A) ks)"

section \<open>The refinement relation\<close>

definition same_session :: "pstream \<Rightarrow> pstream \<Rightarrow> bool" where
  "same_session z s \<longleftrightarrow> ps_sessionKey s = ps_sessionKey z \<and> m_arqSeqGiveUp s = m_arqSeqGiveUp z \<and>
     m_sessionClientPort s = m_sessionClientPort z \<and> m_sessionClientIP s = m_sessionClientIP z \<and> ps_dir s = ps_dir z"

text \<open>
  \<open>z\<close> is the stream at the start, \<open>n\<close> the number of packets handed over, \<open>A\<close> what arrived.
\<close>

definition receives :: "(nat \<Rightarrow> message) \<Rightarrow> pstream \<Rightarrow> nat \<Rightarrow> nat list \<Rightarrow> pstream \<Rightarrow> bool" where
  "receives msg z n A s \<longleftrightarrow> same_session z s \<and> smap_inv (m_cache s) \<and>
     m_arqSeqExp s = m_arqSeqExp z + of_nat n \<and> decoded s = decoded z @ map msg [0..<n] \<and>
     (\<forall>j<n. j \<in> set A) \<and>
     (\<forall>j \<in> set A. n \<le> j \<longrightarrow> j < n + 1024 \<and> map_of (m_cache s) (m_arqSeqExp z + of_nat j) \<noteq> None) \<and>
     (\<forall>q a p. map_of (m_cache s) q = Some (a, p) \<longrightarrow>
        (\<exists>j \<in> set A. n \<le> j \<and> q = m_arqSeqExp z + of_nat j \<and> carries_app (ps_sessionKey z) q (msg j) p))"

lemma seq_inj:
  fixes e :: u16
  assumes "e + of_nat i = e + of_nat j" "i < j + 65536" "j < i + 65536"
  shows "i = j"
proof -
  have eq: "i mod 65536 = j mod 65536"
    using assms(1) by (simp add: word_of_nat_eq_iff take_bit_eq_mod)
  show ?thesis
  proof (cases "i \<le> j")
    case True
    then have "65536 dvd j - i" using eq by (metis mod_eq_dvd_iff_nat)
    then show ?thesis using True assms(3) by (auto dest: dvd_imp_le)
  next
    case False
    then have "65536 dvd i - j" using eq by (metis mod_eq_dvd_iff_nat nat_le_linear)
    then show ?thesis using False assms(2) by (auto dest: dvd_imp_le)
  qed
qed

text \<open>Processing the expected packet.\<close>

lemma disp_frame_fields:
  assumes "disp_frame s t"
  shows "m_cache t = m_cache s" "ps_alloc t = ps_alloc s" "m_arqSeqExp t = m_arqSeqExp s"
    "same_session z t = same_session z s"
proof -
  obtain w out where t: "t = s\<lparr>m_sizeMismatchWarned := w, ps_out := out\<rparr>"
    using assms unfolding disp_frame_def by blast
  show "m_cache t = m_cache s" "ps_alloc t = ps_alloc s" "m_arqSeqExp t = m_arqSeqExp s"
    "same_session z t = same_session z s"
    unfolding t by (simp_all add: same_session_def)
qed

lemma app_opcode_not_zero: "IS_APP_OPCODE op \<Longrightarrow> op \<noteq> 0 \<and> \<not> IS_NET_OPCODE op"
  by (auto simp: net_app_exclusive IS_APP_OPCODE_def)

lemma carries_app_payload:
  assumes "carries_app key seq m p"
  shows "eqtohuint16 (m_payload p) = Inr (fst m)"
    and "take (unat (m_payloadLength p - 2)) (drop 2 (m_payload p)) = snd m"
proof -
  have eq: "take (unat (m_payloadLength p)) (m_payload p) = le16_bytes (fst m) @ snd m"
    using assms by (simp add: carries_app_def payload_bytes_def)
  then have "m_payload p = le16_bytes (fst m) @ snd m @ drop (unat (m_payloadLength p)) (m_payload p)"
    by (metis append_assoc append_take_drop_id)
  then show "eqtohuint16 (m_payload p) = Inr (fst m)" by (metis eqtohuint16_encode)
  have two: "2 \<le> unat (m_payloadLength p)"
    using arg_cong [OF eq, of length] by simp
  then have "unat (m_payloadLength p - 2) = unat (m_payloadLength p) - 2"
    using u32_minus_nat(2) [of 2 "m_payloadLength p"] by simp
  moreover have "take (unat (m_payloadLength p) - 2) (drop 2 (m_payload p)) = drop 2 (take (unat (m_payloadLength p)) (m_payload p))"
    by (simp add: drop_take)
  ultimately show "take (unat (m_payloadLength p - 2)) (drop 2 (m_payload p)) = snd m" by (simp add: eq)
qed

lemma decoded_expect_next [simp]: "decoded (expect_next s) = decoded s"
  by (simp add: expect_next_def Let_def decoded_emit) (simp add: decoded_def)

lemma OP_Packet_branch: "\<not> IS_APP_OPCODE OP_Packet" "OP_Packet \<noteq> OP_Combined" "OP_Packet \<noteq> OP_AppCombined"
  by (simp_all add: IS_APP_OPCODE_def netop_defs)

lemma process_app:
  assumes "m_netOp p = OP_Packet"
  shows "processPacket E u p s = sequenced (packet_expected (env_db E) (process_sub E (Suc (length (m_payload p))))) p s"
  by (simp add: processPacket_def process_body_def process_OP_Packet_def assms OP_Packet_branch Let_def)

lemma process_expected:
  assumes "carries_app key seq m p" "m_arqSeqExp s = seq" "dispatchable (env_db E)"
  shows "\<exists>t. processPacket E u p s = Inr t \<and> m_cache t = m_cache s \<and> ps_alloc t = ps_alloc s \<and>
    m_arqSeqExp t = seq + 1 \<and> decoded t = decoded s @ [m] \<and> (\<forall>z. same_session z t = same_session z s)"
proof -
  let ?r = "expect_next (emit (EvSeqReceive seq) s)"
  obtain t where t: "dispatch_op (env_db E) (drop 2 (m_payload p)) (unat (m_payloadLength p - 2)) (fst m) ?r = Inr t"
    "disp_frame ?r t" "decoded t = decoded ?r @ [m]"
    using dispatch_total [OF assms(3), of "drop 2 (m_payload p)" "unat (m_payloadLength p - 2)" "fst m" ?r]
      carries_app_payload(2) [OF assms(1)] by auto
  have "processPacket E u p s = Inr t"
    using assms t(1) carries_app_payload(1) [OF assms(1)] app_opcode_not_zero
    by (simp add: process_app carries_app_def sequenced_def packet_expected_def Let_def)
  moreover have "decoded ?r = decoded s" by (simp add: decoded_emit)
  moreover have "same_session z ?r = same_session z s" for z
    by (simp add: same_session_def expect_next_def Let_def emit_def)
  ultimately show ?thesis
    using t assms(2) disp_frame_fields [OF t(2)] by simp
qed

section \<open>Draining the cache\<close>

lemma receivesD:
  assumes "receives msg z n A s"
  shows "same_session z s" "smap_inv (m_cache s)" "m_arqSeqExp s = m_arqSeqExp z + of_nat n"
    "decoded s = decoded z @ map msg [0..<n]" "j < n \<Longrightarrow> j \<in> set A"
    "j \<in> set A \<Longrightarrow> n \<le> j \<Longrightarrow> j < n + 1024 \<and> map_of (m_cache s) (m_arqSeqExp z + of_nat j) \<noteq> None"
    "map_of (m_cache s) q = Some (a, p) \<Longrightarrow>
       \<exists>j \<in> set A. n \<le> j \<and> q = m_arqSeqExp z + of_nat j \<and> carries_app (ps_sessionKey z) q (msg j) p"
  using assms unfolding receives_def by blast+

lemma expected_cached_iff:
  assumes "receives msg z n A s"
  shows "map_of (m_cache s) (m_arqSeqExp s) \<noteq> None \<longleftrightarrow> n \<in> set A"
proof
  assume "map_of (m_cache s) (m_arqSeqExp s) \<noteq> None"
  then obtain a p where "map_of (m_cache s) (m_arqSeqExp s) = Some (a, p)" by auto
  then obtain j where j: "j \<in> set A" "n \<le> j" "m_arqSeqExp s = m_arqSeqExp z + of_nat j"
    using receivesD(7) [OF assms] by blast
  then have "j < n + 1024" using receivesD(6) [OF assms] by blast
  then have "n = j" using seq_inj [of "m_arqSeqExp z" n j] j receivesD(3) [OF assms] by simp
  with j show "n \<in> set A" by simp
qed (use receivesD(3,6) [OF assms] in auto)

text \<open>Taking the expected packet out of the cache once it was processed.\<close>

lemma receives_erase:
  assumes r: "receives msg z n A s" and n: "n \<in> set A"
    and t: "m_cache t = m_cache s" "m_arqSeqExp t = m_arqSeqExp s + 1" "decoded t = decoded s @ [msg n]"
      "same_session z t"
  shows "receives msg z (Suc n) A (erase_entry (m_arqSeqExp s) t)"
proof -
  let ?e = "erase_entry (m_arqSeqExp s) t" and ?b = "m_arqSeqExp z"
  have e: "m_cache ?e = smap_del (m_arqSeqExp s) (m_cache s)" "m_arqSeqExp ?e = ?b + of_nat (Suc n)"
    "decoded ?e = decoded z @ map msg [0..<Suc n]" "same_session z ?e"
    using t receivesD(3,4) [OF r]
    by (simp_all add: erase_entry_def Let_def decoded_emit same_session_def) (simp_all add: decoded_def)
  have get: "map_of (m_cache ?e) l = (if l = ?b + of_nat n then None else map_of (m_cache s) l)" for l
    by (subst e(1)) (simp add: smap_get_del receivesD(3) [OF r])
  have "j < Suc n + 1024 \<and> map_of (m_cache ?e) (?b + of_nat j) \<noteq> None" if "j \<in> set A" "Suc n \<le> j" for j
  proof -
    have j: "j < n + 1024" "map_of (m_cache s) (?b + of_nat j) \<noteq> None"
      using receivesD(6) [OF r that(1)] that(2) by auto
    then have "?b + of_nat j \<noteq> ?b + of_nat n" using seq_inj [of ?b j n] that(2) by auto
    then show ?thesis using j by (simp add: get)
  qed
  moreover have "\<exists>j \<in> set A. Suc n \<le> j \<and> q = ?b + of_nat j \<and> carries_app (ps_sessionKey z) q (msg j) p"
    if "map_of (m_cache ?e) q = Some (a, p)" for q a p
  proof -
    have q: "q \<noteq> ?b + of_nat n" "map_of (m_cache s) q = Some (a, p)" using that by (auto simp: get split: if_splits)
    then obtain j where "j \<in> set A" "n \<le> j" "q = ?b + of_nat j" "carries_app (ps_sessionKey z) q (msg j) p"
      using receivesD(7) [OF r] by blast
    moreover from this q(1) have "j \<noteq> n" by blast
    ultimately show ?thesis by (intro bexI [of _ j]) auto
  qed
  moreover have "\<forall>j<Suc n. j \<in> set A" using receivesD(5) [OF r] n by (auto simp: less_Suc_eq)
  moreover have "smap_inv (m_cache ?e)" using receivesD(2) [OF r] by (simp add: e(1) smap_inv_del)
  ultimately show ?thesis unfolding receives_def using e by blast
qed

text \<open>The iterator stands on the expected packet when it is cached, and otherwise nowhere that matters.\<close>

definition iterates :: "u16 option \<Rightarrow> pstream \<Rightarrow> bool" where
  "iterates it s \<longleftrightarrow> (it = None \<longrightarrow> map_of (m_cache s) (m_arqSeqExp s) = None) \<and>
     (\<forall>k. it = Some k \<longrightarrow> map_of (m_cache s) k \<noteq> None \<and>
        (k \<noteq> m_arqSeqExp s \<longrightarrow> map_of (m_cache s) (m_arqSeqExp s) = None))"

lemma iterates_next:
  assumes "smap_inv c" "m_cache s' = smap_del k c" "m_arqSeqExp s' = k + 1"
  shows "iterates (if m_arqSeqExp s' = 0 then smap_first (m_cache s') else smap_after k c) s'"
proof (cases "k + 1 = 0")
  case True
  have inv: "smap_inv (m_cache s')" using assms(1,2) by (simp add: smap_inv_del)
  show ?thesis
  proof (cases "smap_first (m_cache s')")
    case None
    then show ?thesis using True assms(3) smap.first_none [OF inv None] by (simp add: iterates_def)
  next
    case (Some l)
    from smap_first_least [OF inv Some] have l: "map_of (m_cache s') l \<noteq> None"
      "map_of (m_cache s') 0 \<noteq> None \<longrightarrow> l \<le> 0" by blast+
    then have "l \<noteq> 0 \<longrightarrow> map_of (m_cache s') 0 = None" by (metis word_le_0_iff)
    then show ?thesis using Some True assms(3) l(1) by (simp add: iterates_def)
  qed
next
  case False
  then have "unat (k + 1) = Suc (unat k)" using unatSuc [of k] by (simp add: add.commute)
  then have less: "k < k + 1" and succ: "\<And>l. k < l \<Longrightarrow> k + 1 \<le> l"
    by (simp_all add: word_less_nat_alt word_le_nat_alt)
  have get: "map_of (m_cache s') l = (if l = k then None else map_of c l)" for l
    by (simp add: assms(2) smap_get_del)
  have "iterates (smap_after k c) s'"
  proof (cases "map_of c (k + 1) = None")
    case True
    then show ?thesis
      using assms(3) smap_after_least [OF assms(1), of k] less
      by (cases "smap_after k c") (auto simp: iterates_def get)
  next
    case hit: False
    then have "smap_after k c = Some (k + 1)"
      using smap.after_successor [OF assms(1) less] succ by blast
    then show ?thesis using hit assms(3) less by (auto simp: iterates_def get)
  qed
  then show ?thesis using False assms(3) by simp
qed

lemma cache_drains:
  assumes "dispatchable (env_db E)"
  shows "receives msg z n A s \<Longrightarrow> iterates it s \<Longrightarrow> length (m_cache s) \<le> fuel \<Longrightarrow>
    \<exists>t n'. cache_loop E fuel it s = Inr t \<and> receives msg z n' A t \<and> n' \<notin> set A"
proof (induction fuel arbitrary: n s it)
  case 0
  then have "m_cache s = []" by simp
  then have "it = None" using 0(2) by (cases it) (auto simp: iterates_def)
  moreover have "n \<notin> set A" using expected_cached_iff [OF 0(1)] \<open>m_cache s = []\<close> by simp
  ultimately show ?case using 0(1) by auto
next
  case (Suc fuel)
  show ?case
  proof (cases it)
    case None
    then have "map_of (m_cache s) (m_arqSeqExp s) = None" using Suc.prems(2) by (simp add: iterates_def)
    then have "n \<notin> set A" using expected_cached_iff [OF Suc.prems(1)] by simp
    then show ?thesis using None Suc.prems(1) by auto
  next
    case (Some k)
    then obtain a p where e: "map_of (m_cache s) k = Some (a, p)"
      using Suc.prems(2) by (auto simp: iterates_def)
    then obtain j where j: "j \<in> set A" "n \<le> j" "k = m_arqSeqExp z + of_nat j"
      "carries_app (ps_sessionKey z) k (msg j) p"
      using receivesD(7) [OF Suc.prems(1)] by blast
    then have seq: "m_arqSeq p = k" by (simp add: carries_app_def)
    show ?thesis
    proof (cases "k = m_arqSeqExp s")
      case False
      then have "n \<notin> set A"
        using expected_cached_iff [OF Suc.prems(1)] Suc.prems(2) Some by (simp add: iterates_def)
      moreover have "cache_loop E (Suc fuel) it s = Inr s" using Some e seq False by simp
      ultimately show ?thesis using Suc.prems(1) by blast
    next
      case True
      have "j < n + 1024" using receivesD(6) [OF Suc.prems(1) j(1,2)] by blast
      then have jn: "j = n" using seq_inj [of "m_arqSeqExp z" j n] j True receivesD(3) [OF Suc.prems(1)] by simp
      obtain t where t: "processPacket E None p s = Inr t" "m_cache t = m_cache s" "ps_alloc t = ps_alloc s"
        "m_arqSeqExp t = k + 1" "decoded t = decoded s @ [msg j]" "\<forall>z. same_session z t = same_session z s"
        using process_expected [OF j(4) True [symmetric] assms] by blast
      let ?e = "erase_entry k t"
      let ?it = "if m_arqSeqExp ?e = 0 then smap_first (m_cache ?e) else smap_after k (m_cache t)"
      have er: "receives msg z (Suc n) A ?e"
        using receives_erase [OF Suc.prems(1), of t] j(1) jn t True receivesD(1) [OF Suc.prems(1)] by simp
      have ec: "m_cache ?e = smap_del k (m_cache s)" "m_arqSeqExp ?e = k + 1"
        using t by (simp_all add: erase_entry_def Let_def)
      have it: "iterates ?it ?e"
        unfolding t(2) by (rule iterates_next [OF receivesD(2) [OF Suc.prems(1)] ec])
      have "length (m_cache ?e) \<le> fuel"
        using smap_del_length_less [of "m_cache s" k] e Suc.prems(3) ec(1) by simp
      then obtain u n' where u: "cache_loop E fuel ?it ?e = Inr u" "receives msg z n' A u" "n' \<notin> set A"
        using Suc.IH [OF er it] by blast
      have "crc_ok p s = Inr True"
        using j(4) receivesD(1) [OF Suc.prems(1)] by (intro key_crc_ok) (simp add: carries_app_def same_session_def)
      then have "cache_loop E (Suc fuel) it s = cache_loop E fuel ?it ?e"
        using Some e seq True t(1,2) by (simp add: Let_def)
      then show ?thesis using u by auto
    qed
  qed
qed

section \<open>One datagram\<close>

lemma cache_count:
  assumes r: "receives msg z n B t" and above: "\<And>j. j \<in> set B \<Longrightarrow> n \<le> j \<Longrightarrow> m < j"
  shows "length (m_cache t) \<le> length (filter (\<lambda>j. m < j) (remdups B))"
proof -
  let ?keys = "fst ` set (m_cache t)" and ?h = "filter (\<lambda>j. m < j) (remdups B)"
  have "?keys \<subseteq> (\<lambda>j. m_arqSeqExp z + of_nat j) ` set ?h"
  proof
    fix q assume "q \<in> ?keys"
    then obtain a p where "map_of (m_cache t) q = Some (a, p)"
      by (metis map_of_eq_None_iff not_None_eq surj_pair)
    then show "q \<in> (\<lambda>j. m_arqSeqExp z + of_nat j) ` set ?h" using receivesD(7) [OF r] above by fastforce
  qed
  then have "card ?keys \<le> card (set ?h)" by (meson List.finite_set surj_card_le)
  moreover have "distinct (map fst (m_cache t))"
    using receivesD(2) [OF r] by (simp add: smap_inv_def strict_sorted_iff)
  then have "card ?keys = length (m_cache t)" by (metis distinct_card image_set length_map)
  moreover have "card (set ?h) = length ?h" by (intro distinct_card) simp
  ultimately show ?thesis by simp
qed

lemma after_processing:
  assumes db: "dispatchable (env_db E)" and r: "receives msg z n B t"
    and g: "length (m_cache t) < unat (m_arqSeqGiveUp z)" and fuel: "length (m_cache t) \<le> env_fuel E"
  shows "\<exists>u. (if m_cache t \<noteq> [] then processCache E t else Inr t) = Inr u \<and> receives msg z (mex B) B u"
proof -
  let ?it = "if map_of (m_cache t) (m_arqSeqExp t) = None then None else Some (m_arqSeqExp t)"
  have last: "n' = mex B" if "receives msg z n' B u" "n' \<notin> set B" for n' u
    using mex_eqI [of n' B] receivesD(5) [OF that(1)] that(2) by simp
  have "iterates ?it t" by (simp add: iterates_def)
  from cache_drains [OF db r this fuel] obtain u where
    u: "cache_loop E (env_fuel E) ?it t = Inr u" "receives msg z (mex B) B u" using last by blast
  have "processCache E t = Inr u"
    using g receivesD(1) [OF r] u(1) by (simp add: processCache_def same_session_def)
  moreover have "receives msg z (mex B) B t" if "m_cache t = []"
    using expected_cached_iff [OF r] last [OF r] r that by simp
  ultimately show ?thesis using u(2) by auto
qed

lemma receives_old: "receives msg z n A s \<Longrightarrow> k < n \<Longrightarrow> receives msg z n (k # A) s"
  by (fastforce simp: receives_def)

lemma receives_seen:
  "receives msg z n A s \<Longrightarrow> same_session z t \<Longrightarrow> m_cache t = m_cache s \<Longrightarrow> m_arqSeqExp t = m_arqSeqExp s \<Longrightarrow>
   decoded t = decoded s \<Longrightarrow> receives msg z n A t"
  by (simp add: receives_def)

lemma receives_expected:
  assumes r: "receives msg z n A s" and n: "n \<notin> set A"
    and t: "m_cache t = m_cache s" "m_arqSeqExp t = m_arqSeqExp s + 1" "decoded t = decoded s @ [msg n]"
      "same_session z t"
  shows "receives msg z (Suc n) (n # A) t"
proof -
  have "m_arqSeqExp t = m_arqSeqExp z + of_nat (Suc n)" "decoded t = decoded z @ map msg [0..<Suc n]"
    using t receivesD(3,4) [OF r] by simp_all
  moreover have "\<forall>j<Suc n. j \<in> set (n # A)" using receivesD(5) [OF r] by (auto simp: less_Suc_eq)
  moreover have "j < Suc n + 1024 \<and> map_of (m_cache t) (m_arqSeqExp z + of_nat j) \<noteq> None"
    if "j \<in> set (n # A)" "Suc n \<le> j" for j
    using receivesD(6) [OF r, of j] that t(1) by auto
  moreover have "\<exists>j \<in> set (n # A). Suc n \<le> j \<and> q = m_arqSeqExp z + of_nat j \<and> carries_app (ps_sessionKey z) q (msg j) p"
    if q: "map_of (m_cache t) q = Some (a, p)" for q a p
  proof -
    obtain j where j: "j \<in> set A" "n \<le> j" "q = m_arqSeqExp z + of_nat j" "carries_app (ps_sessionKey z) q (msg j) p"
      using receivesD(7) [OF r] q t(1) by metis
    then have "Suc n \<le> j" using n by (metis Suc_leI le_neq_implies_less)
    with j show ?thesis by (intro bexI [of _ j]) auto
  qed
  ultimately show ?thesis using t(1,4) receivesD(2) [OF r] unfolding receives_def by metis
qed

lemma receives_early:
  assumes r: "receives msg z n A s" and k: "n \<le> k" "k < n + 1024"
    and q: "carries_app (ps_sessionKey z) (m_arqSeqExp z + of_nat k) (msg k) q"
    and t: "m_cache t = smap_put (m_arqSeqExp z + of_nat k) (a, q) (m_cache s)" "m_arqSeqExp t = m_arqSeqExp s"
      "decoded t = decoded s" "same_session z t"
  shows "receives msg z n (k # A) t"
proof -
  let ?b = "m_arqSeqExp z"
  have get: "map_of (m_cache t) l = (if l = ?b + of_nat k then Some (a, q) else map_of (m_cache s) l)" for l
    unfolding t(1) by (rule smap_get_put [OF receivesD(2) [OF r]])
  have "j < n + 1024 \<and> map_of (m_cache t) (?b + of_nat j) \<noteq> None" if "j \<in> set (k # A)" "n \<le> j" for j
    using receivesD(6) [OF r, of j] that k(2) get by auto
  moreover have "\<exists>j \<in> set (k # A). n \<le> j \<and> l = ?b + of_nat j \<and> carries_app (ps_sessionKey z) l (msg j) p"
    if "map_of (m_cache t) l = Some (c, p)" for l c p
  proof (cases "l = ?b + of_nat k")
    case True
    then have "p = q" using that by (simp add: get)
    then show ?thesis using True q k(1) by auto
  next
    case False
    then have "map_of (m_cache s) l = Some (c, p)" using that by (simp add: get)
    then show ?thesis using receivesD(7) [OF r] by (metis list.set_intros(2))
  qed
  moreover have "smap_inv (m_cache t)" unfolding t(1) by (rule smap_inv_put [OF receivesD(2) [OF r]])
  moreover have "\<forall>j<n. j \<in> set (k # A)" using receivesD(5) [OF r] by simp
  moreover have "m_arqSeqExp t = ?b + of_nat n" "decoded t = decoded z @ map msg [0..<n]"
    using t(2,3) receivesD(3,4) [OF r] by simp_all
  ultimately show ?thesis using t(4) unfolding receives_def by blast
qed

lemma setCache_early:
  assumes "carries_app key seq m p" "ps_sessionKey s = key"
  shows "\<exists>q t. setCache seq p s = Inr t \<and> carries_app key seq m q \<and> m_cache t = smap_put seq (ps_alloc s, q) (m_cache s) \<and>
    m_arqSeqExp t = m_arqSeqExp s \<and> decoded t = decoded s \<and> (\<forall>z. same_session z t = same_session z s)"
proof -
  obtain q where q: "pk_copy p True = Inr q" "carries_app key seq m q" using carries_copy [OF assms(1)] by blast
  have ok: "crc_ok p s = Inr True" using assms by (intro key_crc_ok) (simp add: carries_app_def)
  let ?n = "new_entry seq q s" and ?e = "EvCacheSize (length (m_cache (new_entry seq q s)))"
  have n: "m_cache ?n = smap_put seq (ps_alloc s, q) (m_cache s)" "m_arqSeqExp ?n = m_arqSeqExp s"
    "decoded ?n = decoded s" "same_session z ?n = same_session z s" for z
    by (simp_all add: new_entry_def same_session_def decoded_def)
  then have "decoded (emit ?e ?n) = decoded s" "same_session z (emit ?e ?n) = same_session z s" for z
    by (simp_all add: decoded_emit) (simp add: same_session_def)
  then show ?thesis
    using q ok n by (cases "map_of (m_cache s) seq") (auto simp: setCache_def Let_def)
qed

text \<open>Where the number of a packet in the window lies, in the code's arithmetic.\<close>

lemma seq_distance:
  fixes e :: u16
  shows "n \<le> k \<Longrightarrow> k < n + 1024 \<Longrightarrow> unat (e + of_nat k - (e + of_nat n)) = k - n"
    and "k < n \<Longrightarrow> n \<le> k + 1024 \<Longrightarrow> 65536 - 1024 \<le> unat (e + of_nat k - (e + of_nat n))"
proof -
  show ahead: "unat (e + of_nat k - (e + of_nat n)) = k - n" if "n \<le> k" "k < n + 1024" for k n and e :: u16
  proof -
    have "e + of_nat k - (e + of_nat n) = (of_nat (k - n) :: u16)" using that by simp
    moreover have "unat (of_nat (k - n) :: u16) = k - n" using that by (simp add: unat_of_nat del: of_nat_diff)
    ultimately show ?thesis by simp
  qed
  assume k: "k < n" "n \<le> k + 1024"
  have "e + of_nat k - (e + of_nat n) = - (of_nat (n - k) :: u16)" using k by simp
  moreover have "unat (of_nat (n - k) :: u16) = n - k" using k by (simp add: unat_of_nat del: of_nat_diff)
  moreover have "(of_nat (n - k) :: u16) \<noteq> 0" using k calculation(2) by (metis unat_0 zero_less_diff less_irrefl)
  ultimately show "65536 - 1024 \<le> unat (e + of_nat k - (e + of_nat n))"
    using k u16_diff [of 0 "of_nat (n - k)"] by simp
qed

lemma deliver_app:
  assumes db: "dispatchable (env_db E)" and r: "receives msg z (mex A) A s"
    and p: "carries_app (ps_sessionKey z) (m_arqSeqExp z + of_nat k) (msg k) p"
    and w: "k < mex A + 1024" "mex A \<le> k + 1024"
      "length (filter (\<lambda>j. mex A < j) (remdups (k # A))) < unat (m_arqSeqGiveUp z)"
    and fuel: "length (k # A) \<le> env_fuel E"
  shows "\<exists>t. deliver E u p s = Inr t \<and> receives msg z (mex (k # A)) (k # A) t"
proof -
  let ?n = "mex A" and ?b = "m_arqSeqExp z"
  have seq: "m_arqSeq p = ?b + of_nat k" "m_netOp p = OP_Packet" using p by (simp_all add: carries_app_def)
  have "\<exists>t n'. processPacket E u p s = Inr t \<and> receives msg z n' (k # A) t \<and>
    (\<forall>j \<in> set (k # A). n' \<le> j \<longrightarrow> ?n < j)"
  proof (cases "k = ?n")
    case True
    obtain t where "processPacket E u p s = Inr t" "m_cache t = m_cache s" "m_arqSeqExp t = m_arqSeqExp s + 1"
      "decoded t = decoded s @ [msg k]" "same_session z t"
      using process_expected [OF p _ db, of s u] receivesD(1,3) [OF r] True by auto
    then show ?thesis
      using receives_expected [OF r mex_missing, of t] True by (intro exI [of _ t] exI [of _ "Suc ?n"]) auto
  next
    case False
    define s1 where "s1 = emit (EvSeqReceive (m_arqSeq p)) s"
    have s1: "same_session z s1" "m_cache s1 = m_cache s" "m_arqSeqExp s1 = m_arqSeqExp s" "decoded s1 = decoded s"
      using receivesD(1) [OF r] by (simp_all add: s1_def decoded_emit) (simp add: same_session_def)
    have r1: "receives msg z ?n A s1" by (rule receives_seen [OF r s1])
    have exp: "m_arqSeqExp s = ?b + of_nat ?n" by (rule receivesD(3) [OF r])
    show ?thesis
    proof (cases "?n < k")
      case early: True
      then have "unat (m_arqSeq p - m_arqSeqExp s) = k - ?n" using seq_distance(1) [of ?n k ?b] w(1) exp seq(1) by simp
      then have run: "processPacket E u p s = setCache (m_arqSeq p) p s1"
        using early w(1) window_ahead [of p s] by (simp add: process_app [OF seq(2)] s1_def)
      have key: "ps_sessionKey s1 = ps_sessionKey z" using s1(1) by (simp add: same_session_def)
      obtain q t where t: "setCache (m_arqSeq p) p s1 = Inr t" "carries_app (ps_sessionKey z) (m_arqSeq p) (msg k) q"
        "m_cache t = smap_put (m_arqSeq p) (ps_alloc s1, q) (m_cache s1)" "m_arqSeqExp t = m_arqSeqExp s1"
        "decoded t = decoded s1" "\<forall>z. same_session z t = same_session z s1"
        using setCache_early [OF _ key, of "m_arqSeq p" "msg k" p] p seq(1) by metis
      have "receives msg z ?n (k # A) t"
        using receives_early [OF r1 _ w(1), of q t "ps_alloc s1"] t s1(1) seq(1) early by simp
      moreover have "\<forall>j \<in> set (k # A). ?n \<le> j \<longrightarrow> ?n < j"
        using early mex_missing by (auto simp: le_less)
      ultimately show ?thesis using run t(1) by auto
    next
      case False
      then have old: "k < ?n" using \<open>k \<noteq> ?n\<close> by simp
      then have ge: "65536 - 1024 \<le> unat (m_arqSeq p - m_arqSeqExp s)"
        using seq_distance(2) [of k ?n ?b] w(2) exp seq(1) by simp
      then have "processPacket E u p s = Inr s1"
        using window_behind [of p s] by (simp add: process_app [OF seq(2)] s1_def)
      moreover have "\<forall>j \<in> set (k # A). ?n \<le> j \<longrightarrow> ?n < j"
        using old mex_missing by (auto simp: le_less)
      ultimately show ?thesis using receives_old [OF r1 old] by blast
    qed
  qed
  then obtain t n' where t: "processPacket E u p s = Inr t" "receives msg z n' (k # A) t"
    "\<And>j. j \<in> set (k # A) \<Longrightarrow> n' \<le> j \<Longrightarrow> ?n < j" by blast
  have count: "length (m_cache t) \<le> length (filter (\<lambda>j. ?n < j) (remdups (k # A)))"
    by (rule cache_count [OF t(2,3)])
  also have "\<dots> \<le> length (k # A)" by (meson le_trans length_filter_le length_remdups_leq)
  finally have "length (m_cache t) \<le> env_fuel E" using fuel by simp
  moreover have "length (m_cache t) < unat (m_arqSeqGiveUp z)" using count w(3) by simp
  ultimately show ?thesis
    using after_processing [OF db t(2)] t(1) by (simp add: deliver_def)
qed

lemma handle_app:
  assumes "dispatchable (env_db E)" "receives msg z (mex A) A s" "ps_sessionKey z \<noteq> 0"
    and u: "datagram z (m_arqSeqExp z + of_nat k) (msg k) u"
    and "k < mex A + 1024" "mex A \<le> k + 1024"
      "length (filter (\<lambda>j. mex A < j) (remdups (k # A))) < unat (m_arqSeqGiveUp z)"
      "length (k # A) \<le> env_fuel E"
  shows "\<exists>t. handlePacket E u s = Inr t \<and> receives msg z (mex (k # A)) (k # A) t"
proof -
  let ?c = "s\<lparr>m_packetCount := m_packetCount s + 1\<rparr>"
  define s1 where "s1 = emit (EvNumPacket (m_packetCount ?c)) ?c"
  define v where "v = setSessionKey (ps_sessionKey s1) u"
  define s2 where "s2 = emit (EvRaw (m_rawPayload (u_base u)) (m_rawPayloadLength (u_base u)) (ps_dir s1) (m_netOp (u_base u))) s1"
  have p: "carries_app (ps_sessionKey z) (m_arqSeqExp z + of_nat k) (msg k) (u_base u)"
    using u by (simp add: datagram_def)
  have sess: "same_session z s" using receivesD(1) [OF assms(2)] .
  have s1: "same_session z s1" using sess by (simp add: s1_def same_session_def)
  have "same_session z s2" using s1 by (simp add: s2_def same_session_def)
  moreover have "m_cache s2 = m_cache s" "m_arqSeqExp s2 = m_arqSeqExp s" "decoded s2 = decoded s"
    by (simp_all add: s2_def s1_def decoded_emit) (simp add: decoded_def)
  ultimately have r2: "receives msg z (mex A) A s2" using receives_seen [OF assms(2)] by blast
  obtain t where t: "deliver E (Some v) (u_base u) s2 = Inr t" "receives msg z (mex (k # A)) (k # A) t"
    using deliver_app [OF assms(1) r2 p assms(5-8)] by blast
  have v: "u_base v = u_base u" "getSourcePort v = getSourcePort u" "getDestPort v = getDestPort u"
    "getIPv4SourceN v = getIPv4SourceN u" "getIPv4DestN v = getIPv4DestN u" "v\<lparr>u_base := u_base u\<rparr> = v"
    by (simp_all add: v_def setSessionKey_def getSourcePort_def getDestPort_def getIPv4SourceN_def getIPv4DestN_def)
  have "foreign_client v s1 = foreign_client u z"
    unfolding foreign_client_def v s1 [unfolded same_session_def, THEN conjunct2, THEN conjunct2, THEN conjunct1]
      s1 [unfolded same_session_def, THEN conjunct2, THEN conjunct2, THEN conjunct2, THEN conjunct1]
      s1 [unfolded same_session_def, THEN conjunct2, THEN conjunct2, THEN conjunct2, THEN conjunct2] by (rule refl)
  then have foreign: "foreign_client v s1 = Inr False" using u by (simp add: datagram_def)
  have "crc_ok (u_base u) s1 = Inr True"
    using p s1 by (intro key_crc_ok) (simp add: carries_app_def same_session_def)
  moreover obtain sp dp where "getSourcePort u = Inr sp" "getDestPort u = Inr dp" "\<not> bsh_port sp" "\<not> bsh_port dp"
    using u by (auto simp: datagram_def split: sum.splits)
  ultimately have crc: "crc_admits v s1 = Inr True"
    by (auto simp: crc_admits_def crc_ok_def v Let_def result_simps)
  have dec: "decode (env_zlib E) (m_maxLength s1) (u_base u) = Inr (True, u_base u)"
    using p by (simp add: decode_def carries_app_def copyable_def)
  have key: "ps_sessionKey s1 \<noteq> 0" using s1 assms(3) by (simp add: same_session_def)
  have "handlePacket E u s = deliver E (Some v) (u_base u) s2"
    unfolding handlePacket_def Let_def s1_def [symmetric] v_def [symmetric] v(1) foreign
    using key by (simp add: crc dec v(6) s2_def)
  with t show ?thesis by simp
qed

lemma arrivals_delivered:
  assumes "dispatchable (env_db E)" "ps_sessionKey z \<noteq> 0"
  shows "list_all2 (\<lambda>k u. datagram z (m_arqSeqExp z + of_nat k) (msg k) u) ks us \<Longrightarrow>
    receives msg z (mex A) A s \<Longrightarrow> windowed (unat (m_arqSeqGiveUp z)) A ks \<Longrightarrow> length ks + length A \<le> env_fuel E \<Longrightarrow>
    \<exists>t. run_ops (handlePacket E) us s = Inr t \<and> receives msg z (mex (rev ks @ A)) (rev ks @ A) t"
proof (induction ks us arbitrary: A s rule: list_all2_induct)
  case Nil
  then show ?case by simp
next
  case (Cons k ks u us)
  have w: "k < mex A + 1024" "mex A \<le> k + 1024"
    "length (filter (\<lambda>j. mex A < j) (remdups (k # A))) < unat (m_arqSeqGiveUp z)"
    "windowed (unat (m_arqSeqGiveUp z)) (k # A) ks"
    using Cons.prems(2) unfolding windowed.simps by blast+
  have "length (k # A) \<le> env_fuel E" using Cons.prems(3) by simp
  from handle_app [OF assms(1) Cons.prems(1) assms(2) Cons.hyps(1) w(1-3) this] obtain t where
    t: "handlePacket E u s = Inr t" "receives msg z (mex (k # A)) (k # A) t" by blast
  have "length ks + length (k # A) \<le> env_fuel E" using Cons.prems(3) by simp
  from Cons.IH [OF t(2) w(4) this] t(1) show ?case by simp
qed

section \<open>Sample datagrams\<close>

text \<open>Three datagrams of a session with key 77, with their CRCs, around the wrap of the sequence number.\<close>

definition sample_datagram :: "bytes \<Rightarrow> udp_packet" where
  "sample_datagram w =
     (case mkUDP ([0x45, 0, 0, 38, 0, 0, 0, 0, 64, 17, 0, 0, 10, 0, 0, 1, 10, 0, 0, 2] @
        udp_header 9000 5555 0 0 @ w) 38 False of Inr u \<Rightarrow> u | Inl e \<Rightarrow> blank_udp)"

definition sample_stream :: pstream where
  "sample_stream = (mkPacketStream zone2client DIR_Server 512)\<lparr>ps_sessionKey := 77, m_arqSeqExp := 65535\<rparr>"

definition sample_env :: stream_env where
  "sample_env = \<lparr>env_db = mkOPCodeDB ''zone'', env_zlib = (\<lambda>n z. (False, [])), env_closing = None, env_fuel = 4\<rparr>"

definition reads_app :: "message \<Rightarrow> udp_packet \<Rightarrow> bool" where
  "reads_app m u \<longleftrightarrow> (let p = u_base u in
     m_netOp p = OP_Packet \<and> IS_APP_OPCODE (fst m) \<and> m_bDecoded p \<and> \<not> m_bAllocedPayload p \<and>
     unat (m_length p) \<le> length (m_packet p) \<and> m_payload p = drop 5 (m_packet p) \<and>
     5 + unat (m_payloadLength p) \<le> unat (m_length p) \<and> payload_bytes p = le16_bytes (fst m) @ snd m \<and>
     key_crc 77 p \<and> getSourcePort u = Inr 9000 \<and> getDestPort u = Inr 5555)"

lemma reads_app_datagram:
  assumes "reads_app m u" 
  shows "datagram sample_stream (m_arqSeq (u_base u)) m u"
proof -
  have "copyable (u_base u)"
    using assms unfolding copyable_def reads_app_def Let_def by auto
  then show ?thesis
    using assms by (simp add: datagram_def carries_app_def reads_app_def Let_def sample_stream_def mkPacketStream_def
      foreign_client_def bsh_port_def)
qed

lemma sample_reads:
  "reads_app (0x1234, [1]) (sample_datagram [0, 9, 0, 255, 255, 52, 18, 1, 249, 214])"
  "reads_app (0x1234, [2]) (sample_datagram [0, 9, 0, 0, 0, 52, 18, 2, 105, 17])"
  "reads_app (0x1234, [3]) (sample_datagram [0, 9, 0, 0, 1, 52, 18, 3, 62, 226])"
  by code_simp+

lemma sample_seqs:
  "m_arqSeq (u_base (sample_datagram [0, 9, 0, 255, 255, 52, 18, 1, 249, 214])) = 65535"
  "m_arqSeq (u_base (sample_datagram [0, 9, 0, 0, 0, 52, 18, 2, 105, 17])) = 0"
  "m_arqSeq (u_base (sample_datagram [0, 9, 0, 0, 1, 52, 18, 3, 62, 226])) = 1"
  by code_simp+

lemma sample_dispatchable: "dispatchable (env_db sample_env)"
  by (simp add: dispatchable_def sample_env_def mkOPCodeDB_def db_find_def)

section \<open>Delivery\<close>

text \<open>C1: whatever the order in which the peer's packets arrive, repetitions included, as long as
  each lies in the window around the first missing one and fewer are held than the give-up limit,
  the stream takes every datagram and hands over each message below the first missing one exactly
  once and in order; what came after it stays in the cache. The numbers may wrap around.\<close>

theorem delivered_in_order_exactly_once:
  assumes "dispatchable (env_db E)" "length ks \<le> env_fuel E" "ps_sessionKey s \<noteq> 0" "m_cache s = []"
    "windowed (unat (m_arqSeqGiveUp s)) [] ks"
    "list_all2 (\<lambda>k u. datagram s (m_arqSeqExp s + of_nat k) (msg k) u) ks us"
  shows "\<exists>t. run_ops (handlePacket E) us s = Inr t \<and> decoded t = decoded s @ map msg [0..<mex ks] \<and>
    m_arqSeqExp t = m_arqSeqExp s + of_nat (mex ks) \<and>
    (\<forall>k \<in> set ks. mex ks < k \<longrightarrow> map_of (m_cache t) (m_arqSeqExp s + of_nat k) \<noteq> None)"
proof -
  have "receives msg s (mex []) [] s"
    using assms(4) by (simp add: receives_def same_session_def mex_def)
  from arrivals_delivered [OF assms(1,3,6) this assms(5)] assms(2) obtain t where
    t: "run_ops (handlePacket E) us s = Inr t" "receives msg s (mex (rev ks)) (rev ks) t" by auto
  have "mex (rev ks) = mex ks" by (rule mex_cong) simp
  then show ?thesis using t receivesD(3,4,6) [OF t(2)] by auto
qed

theorem delivered_in_order_exactly_once_witness:
  "\<exists>t. run_ops (handlePacket sample_env) (map sample_datagram
      [[0, 9, 0, 0, 1, 52, 18, 3, 62, 226], [0, 9, 0, 0, 0, 52, 18, 2, 105, 17],
       [0, 9, 0, 0, 1, 52, 18, 3, 62, 226], [0, 9, 0, 255, 255, 52, 18, 1, 249, 214]]) sample_stream = Inr t \<and>
    decoded t = [(0x1234, [1]), (0x1234, [2]), (0x1234, [3])] \<and> m_arqSeqExp t = 2"
proof -
  let ?msg = "\<lambda>k. (0x1234, [of_nat k + 1]) :: message"
  have mex: "mex [2, 1, 2, 0] = 3" by code_simp
  have w: "windowed (unat (m_arqSeqGiveUp sample_stream)) [] [2, 1, 2, 0]" by code_simp
  have init: "m_cache sample_stream = []" "ps_sessionKey sample_stream \<noteq> 0" "m_arqSeqExp sample_stream = 65535"
    "decoded sample_stream = []" "length [2 :: nat, 1, 2, 0] \<le> env_fuel sample_env"
    by (simp_all add: sample_stream_def mkPacketStream_def decoded_def sample_env_def)
  have seqs: "(65535 + of_nat 0 :: u16) = 65535" "(65535 + of_nat 1 :: u16) = 0" "(65535 + of_nat 2 :: u16) = 1"
    by simp_all
  have msgs: "?msg 0 = (0x1234, [1])" "?msg 1 = (0x1234, [2])" "?msg 2 = (0x1234, [3])" by simp_all
  let ?us = "map sample_datagram
      [[0, 9, 0, 0, 1, 52, 18, 3, 62, 226], [0, 9, 0, 0, 0, 52, 18, 2, 105, 17],
       [0, 9, 0, 0, 1, 52, 18, 3, 62, 226], [0, 9, 0, 255, 255, 52, 18, 1, 249, 214]]"
  have "list_all2 (\<lambda>k u. datagram sample_stream (m_arqSeqExp sample_stream + of_nat k) (?msg k) u) [2, 1, 2, 0] ?us"
    unfolding list.map list_all2_Cons list_all2_Nil init(3) seqs msgs
    using sample_reads [THEN reads_app_datagram, unfolded sample_seqs] by blast
  from delivered_in_order_exactly_once [OF sample_dispatchable init(5,2,1) w this]
  obtain t where "run_ops (handlePacket sample_env) ?us sample_stream = Inr t"
    "decoded t = map ?msg [0..<3]" "m_arqSeqExp t = 65535 + of_nat 3" unfolding mex init(3,4) by auto
  moreover have "map ?msg [0..<3] = [(0x1234, [1]), (0x1234, [2]), (0x1234, [3])]" by (simp add: upt_rec)
  ultimately show ?thesis by auto
qed

end
