(* ===== verification/StreamSession.thy ===== *)
theory StreamSession
  imports StreamOrder
begin

text \<open>
  Sessions of a stream: the invariant along every run, muted streams, the datagrams a session
  does not admit, and what a disconnect does to the cache.
\<close>

section \<open>Runs\<close>

text \<open>C37: Along every run of packets, closings, keys and tracking changes that ends without a fault, the cache of a
  stream stays ordered, files each packet it owns under the packet's own number and a used address, the fragment buffer
  keeps its bounds and the maximum length stays within one mebibyte. A fault is where the code leaves its own memory (a
  first fragment longer than the total it announces is copied past the end of the buffer, a disconnect frees the cached
  packet that is being processed, a read goes past the end of a datagram, a session packet inside another packet is taken
  for a datagram), or where the model stops (a fragment inside the fragments that are being read, no fuel left for the
  cache). Nothing is said of what follows a fault.\<close>

theorem stream_keeps_invariant:
  assumes "stream_inv s" "run_ops (ps_step E) xs s = Inr t"
  shows "stream_inv t \<and> sorted_wrt (<) (map fst (m_cache t)) \<and>
    (\<forall>(k, a, p) \<in> set (m_cache t). m_arqSeq p = k \<and> m_ownCopy p \<and> a < ps_alloc t) \<and>
    m_dataSize (m_fragment t) \<le> length (m_data (m_fragment t)) \<and> unat (m_maxLength t) \<le> 1048576"
proof -
  have "stream_inv t" using stream_run.run_keeps assms by blast
  then show ?thesis
    by (auto simp: stream_inv_def smap_inv_def frag_inv_def maxPacketSize_def word_le_nat_alt)
qed

theorem stream_keeps_invariant_witness:
  "\<exists>t. run_ops (ps_step sample_env) [OpPacket (sample_datagram [0, 9, 0, 0, 1, 52, 18, 3, 62, 226])] sample_stream
      = Inr t \<and> stream_inv t \<and> map_of (m_cache t) 1 \<noteq> None"
proof -
  let ?u = "sample_datagram [0, 9, 0, 0, 1, 52, 18, 3, 62, 226]" and ?msg = "\<lambda>_. (0x1234, [3]) :: message"
  have init: "m_cache sample_stream = []" "ps_sessionKey sample_stream \<noteq> 0" "m_arqSeqExp sample_stream = 65535"
    "env_fuel sample_env = 4"
    by (simp_all add: sample_stream_def mkPacketStream_def sample_env_def)
  have w: "windowed (unat (m_arqSeqGiveUp sample_stream)) [] [2]" by code_simp
  have seq: "(65535 + of_nat 2 :: u16) = 1" by simp
  have u: "list_all2 (\<lambda>k u. datagram sample_stream (m_arqSeqExp sample_stream + of_nat k) (?msg k) u) [2] [?u]"
    unfolding list_all2_Cons list_all2_Nil init(3) seq
    using sample_reads(3) [THEN reads_app_datagram, unfolded sample_seqs] by blast
  have r: "receives ?msg sample_stream (mex []) [] sample_stream"
    using init(1) by (simp add: receives_def same_session_def mex_def)
  have mex: "mex [2] = 0" by code_simp
  from arrivals_delivered [OF sample_dispatchable init(2) u r w] obtain t where
    t: "handlePacket sample_env ?u sample_stream = Inr t" "receives ?msg sample_stream 0 [2] t"
    by (auto simp: init(4) mex result_simps)
  have run: "run_ops (ps_step sample_env) [OpPacket ?u] sample_stream = Inr t" using t(1) by simp
  have "stream_inv sample_stream"
    by (simp add: stream_inv_def sample_stream_def mkPacketStream_def frag_inv_new maxPacketSize_def)
  from stream_keeps_invariant [OF this run] run show ?thesis
    using receivesD(6) [OF t(2), of 2] unfolding init(3) seq by auto
qed

text \<open>A muted stream goes on following its session, and whatever it is fed, it activates no
  handler and reports no decoded packet; its wiring and what it has emitted before stay as they are.\<close>

theorem muted_stream_is_silent:
  assumes "m_muted s" "run_ops (ps_step E) xs s = Inr t"
  shows "\<exists>evs. ps_out t = ps_out s @ evs \<and> (\<forall>e \<in> set evs. \<not> handler_event e) \<and>
    m_muted t \<and> m_dispatchers t = m_dispatchers s \<and> ps_streamid t = ps_streamid s \<and> ps_dir t = ps_dir s"
  using hist_rel.run_R [OF assms(2)] assms(1) by (auto simp: hist_def wiring_def)

theorem muted_stream_is_silent_witness:
  "\<exists>t. run_ops (ps_step sample_env) [OpPacket (sample_datagram [0, 9, 0, 255, 255, 52, 18, 1, 249, 214])]
      (setMuted True sample_stream) = Inr t \<and> decoded t = [(0x1234, [1])] \<and>
    (\<forall>e \<in> set (ps_out t). \<not> handler_event e)"
proof -
  let ?r = "run_ops (ps_step sample_env) [OpPacket (sample_datagram [0, 9, 0, 255, 255, 52, 18, 1, 249, 214])]
      (setMuted True sample_stream)"
  have "(case ?r of Inr t \<Rightarrow> decoded t = [(0x1234, [1])] | Inl e \<Rightarrow> False)" by code_simp
  then obtain t where t: "?r = Inr t" "decoded t = [(0x1234, [1])]" by (auto split: sum.splits)
  have "m_muted (setMuted True sample_stream)" "ps_out (setMuted True sample_stream) = []"
    by (simp_all add: setMuted_def sample_stream_def mkPacketStream_def)
  with muted_stream_is_silent [OF this(1) t(1)] t show ?thesis by auto
qed

section \<open>Datagrams a session does not admit\<close>

text \<open>A datagram before the session key is known, from another client than the one the session
  is locked on, or with a CRC other than the one its bytes have under the session key, changes
  nothing but the packet counter.\<close>

theorem rejected_datagram_only_counted:
  assumes "m_netOp (u_base u) \<notin> {OP_SessionRequest, OP_SessionResponse} \<and> ps_sessionKey s = 0
    \<or> foreign_client u s = Inr True
    \<or> foreign_client u s = Inr False \<and> hasCRC (u_base u) \<and> crc (u_base u) = Inr c \<and>
      calculateCRC (u_base u) s = Inr c' \<and> c \<noteq> c' \<and> getSourcePort u = Inr sp \<and> getDestPort u = Inr dp"
  shows "handlePacket E u s = Inr (emit (EvNumPacket (m_packetCount s + 1)) (s\<lparr>m_packetCount := m_packetCount s + 1\<rparr>))"
proof -
  let ?c = "s\<lparr>m_packetCount := m_packetCount s + 1\<rparr>"
  define t where "t = emit (EvNumPacket (m_packetCount s + 1)) ?c"
  have u: "u_base (setSessionKey k u) = u_base u" for k by (simp add: setSessionKey_def)
  have reads: "getSourcePort (setSessionKey k u) = getSourcePort u" "getDestPort (setSessionKey k u) = getDestPort u"
    "getIPv4SourceN (setSessionKey k u) = getIPv4SourceN u" "getIPv4DestN (setSessionKey k u) = getIPv4DestN u" for k
    by (simp_all add: setSessionKey_def getSourcePort_def getDestPort_def getIPv4SourceN_def getIPv4DestN_def)
  have t: "m_sessionClientPort t = m_sessionClientPort s" "m_sessionClientIP t = m_sessionClientIP s" "ps_dir t = ps_dir s"
    "ps_sessionKey t = ps_sessionKey s"
    by (simp_all add: t_def)
  have same: "foreign_client (setSessionKey k u) t = foreign_client u s" for k
    unfolding foreign_client_def reads t by (rule refl)
  have crc: "crc_admits (setSessionKey k u) t = Inr False"
    if "hasCRC (u_base u)" "crc (u_base u) = Inr c" "calculateCRC (u_base u) s = Inr c'" "c \<noteq> c'"
      "getSourcePort u = Inr sp" "getDestPort u = Inr dp" for k
  proof -
    have "calculateCRC (u_base u) t = Inr c'" using that(3) unfolding calculateCRC_def t .
    then show ?thesis
      using that(1,2,4-) by (simp add: crc_admits_def setSessionKey_def getSourcePort_def getDestPort_def Let_def)
  qed
  show ?thesis
    using assms crc unfolding handlePacket_def Let_def u
    by (auto simp: same t(4) t_def [symmetric])
qed

theorem rejected_datagram_only_counted_witness:
  "handlePacket sample_env (sample_datagram [0, 9, 0, 255, 255, 52, 18, 2, 249, 214]) sample_stream
    = Inr (emit (EvNumPacket 1) (sample_stream\<lparr>m_packetCount := 1\<rparr>))"
proof -
  let ?u = "sample_datagram [0, 9, 0, 255, 255, 52, 18, 2, 249, 214]"
  have "hasCRC (u_base ?u)" "crc (u_base ?u) = Inr 63958" "getSourcePort ?u = Inr 9000" "getDestPort ?u = Inr 5555"
    "foreign_client ?u sample_stream = Inr False"
    "(case calculateCRC (u_base ?u) sample_stream of Inr c \<Rightarrow> c \<noteq> 63958 | Inl e \<Rightarrow> False)"
    by code_simp+
  moreover from this(6) obtain c' where "calculateCRC (u_base ?u) sample_stream = Inr c'" "63958 \<noteq> c'"
    by (auto split: sum.splits)
  moreover have "m_packetCount sample_stream = 0" by (simp add: sample_stream_def mkPacketStream_def)
  ultimately show ?thesis
    using rejected_datagram_only_counted [of ?u sample_stream 63958 c' 9000 5555 sample_env] by simp
qed

section \<open>A disconnect out of the cache\<close>

text \<open>When the next packet taken from the cache carries a session disconnect, the disconnect
  deletes the cached packets, the one being processed among them, and \<open>processCache\<close> goes on with
  the deleted packet.\<close>

theorem cached_disconnect_uses_freed_packet:
  assumes "map_of (m_cache s) (m_arqSeqExp s) = Some (a, p)" "m_arqSeq p = m_arqSeqExp s"
    "m_netOp p = OP_Packet" "m_payload p = 0 # 5 # body" "crc_ok p s = Inr True"
    "m_session_tracking_enabled s = 0" "length (m_cache s) < unat (m_arqSeqGiveUp s)" "0 < env_fuel E"
  shows "processCache E s = Inl UseAfterFree"
proof -
  let ?r = "expect_next (emit (EvSeqReceive (m_arqSeq p)) s)"
  have op: "eqtohuint16 (0 # 5 # body) = Inr OP_SessionDisconnect"
    by (simp add: eqtohuint16_def rd_def be16_def netop_defs)
  have disc: "OP_SessionDisconnect \<noteq> 0" "IS_NET_OPCODE OP_SessionDisconnect" "\<not> IS_APP_OPCODE OP_SessionDisconnect"
    by (simp_all add: IS_APP_OPCODE_def IS_NET_OPCODE_def netop_defs)
  obtain sp where sp: "sub_packet (0 # 5 # body) (m_payloadLength p) = Inr sp" "m_netOp sp = OP_SessionDisconnect"
    using op disc(3)
    by (simp add: sub_packet_def pk_init_def pk_init0_def hasFlags_def hasArqSeq_def Let_def) (simp add: netop_defs)
  have tracking: "m_session_tracking_enabled ?r = 0" using assms(6) by (simp add: expect_next_def Let_def)
  have "process_sub E (Suc n) sp ?r = Inr (disconnect_now E ?r)" for n
    using sp(2) disc(3) tracking
    by (simp add: process_body_def process_SessionDisconnect_def Let_def) (simp add: netop_defs)
  then have "processPacket E None p s = Inr (disconnect_now E ?r)"
    using assms(2-4) op disc(1,2) sp(1)
    by (simp add: process_app sequenced_def packet_expected_def Let_def)
  moreover have "m_cache (disconnect_now E ?r) = []"
    by (simp add: disconnect_now_def emit_closing_def ps_close_def ps_reset_def resetCache_def setSessionTracking_def
        Let_def split: option.split)
  moreover obtain n where "env_fuel E = Suc n" using assms(8) by (cases "env_fuel E") auto
  ultimately show ?thesis
    using assms(1,2,5,7) by (simp add: processCache_def)
qed

theorem cached_disconnect_uses_freed_packet_witness:
  "let p = blank_packet\<lparr>m_netOp := OP_Packet, m_payload := [0, 5, 0, 0], m_payloadLength := 4, m_subpacket := True\<rparr>
   in processCache sample_env ((mkPacketStream zone2client DIR_Server 512)\<lparr>m_cache := [(0, 3, p)]\<rparr>) = Inl UseAfterFree"
  unfolding Let_def
  by (rule cached_disconnect_uses_freed_packet [where a = 3 and body = "[0, 0]"])
    code_simp+

end
