(* ===== verification/StreamCombined.thy ===== *)
theory StreamCombined
  imports StreamOrder
begin

text \<open>
  Unrolling packets that carry several application packets: what a peer writes for a list of
  messages, in the \<open>OP_Combined\<close> and in the \<open>OP_AppCombined\<close> layout, and what the stream
  makes of it.
\<close>

section \<open>Layouts\<close>

text \<open>An opcode whose low byte is zero stands behind a zero byte.\<close>

definition app_body :: "message \<Rightarrow> bytes" where
  "app_body m = (if IS_APP_OPCODE (fst m) then [] else [0]) @ le16_bytes (fst m) @ snd m"

definition combined_sub :: "message \<Rightarrow> bytes" where
  "combined_sub m = of_nat (length (app_body m)) # app_body m"

definition appcombined_sub :: "message \<Rightarrow> bytes" where
  "appcombined_sub m =
     (let n = length (app_body m)
      in (if n < 255 then [of_nat n] else 255 # be16_bytes (of_nat n)) @ app_body m)"

lemma le16_low_zero: "\<not> IS_APP_OPCODE op \<Longrightarrow> le16_bytes op = [0, ucast (drop_bit 8 op)]"
proof -
  assume "\<not> IS_APP_OPCODE op"
  then have "\<not> IS_APP_OPCODE (be16 (ucast (drop_bit 8 op)) (ucast op))" by (simp add: be16_split)
  then have "(ucast op :: u8) = 0" by simp
  then show ?thesis by (simp add: le16_bytes_def)
qed

lemma app_body_length: "length (app_body m) = (if IS_APP_OPCODE (fst m) then 2 else 3) + length (snd m)"
  by (simp add: app_body_def)

lemma unat_of_nat_u8: "n < 256 \<Longrightarrow> unat (of_nat n :: u8) = n"
  by (simp add: unat_of_nat)

lemma unat_of_nat_u16: "n < 65536 \<Longrightarrow> unat (of_nat n :: u16) = n"
  by (simp add: unat_of_nat)

lemma unat_pred:
  "0 < unat (v :: u8) \<Longrightarrow> unat (v - 1) = unat v - 1" "0 < unat (w :: u16) \<Longrightarrow> unat (w - 1) = unat w - 1"
  by (simp_all add: unat_sub_if_size)

lemma szsub_le: "b \<le> a \<Longrightarrow> a < 2 ^ 64 \<Longrightarrow> szsub a b = a - b"
  by (simp add: szsub_def nat_diff_distrib' del: of_nat_diff)

section \<open>\<open>OP_AppCombined\<close>\<close>

lemma app_step_reads:
  assumes db: "dispatchable db" and len: "len = length (app_body m)" "len < 65536" "dec = len - 1"
  shows "\<exists>t. app_step db len dec (app_body m @ rest) s = Inr (len, t) \<and> decoded t = decoded s @ [m]"
proof (cases "IS_APP_OPCODE (fst m)")
  case True
  obtain t where t: "dispatch_op db (snd m @ rest) (szsub len 2) (fst m) s = Inr t"
    "decoded t = decoded s @ [(fst m, take (szsub len 2) (snd m @ rest))]"
    using dispatch_total [OF db] by blast
  have "szsub len 2 = length (snd m)" using True len by (simp add: szsub_le app_body_length)
  moreover have "app_body m @ rest = le16_bytes (fst m) @ snd m @ rest" using True by (simp add: app_body_def)
  ultimately show ?thesis
    using t True app_opcode_not_zero by (auto simp: app_step_def)
next
  case False
  obtain t where t: "dispatch_op db (snd m @ rest) (szsub dec 2) (fst m) s = Inr t"
    "decoded t = decoded s @ [(fst m, take (szsub dec 2) (snd m @ rest))]"
    using dispatch_total [OF db] by blast
  have sz: "szsub dec 2 = length (snd m)" "1 + dec = len" using False len by (simp_all add: szsub_le app_body_length)
  have body: "app_body m @ rest = 0 # le16_bytes (fst m) @ snd m @ rest" using False by (simp add: app_body_def)
  have "eqtohuint16 (0 # le16_bytes (fst m) @ snd m @ rest) = Inr 0"
    using False by (simp add: le16_low_zero eqtohuint16_def rd_def be16_def)
  then show ?thesis
    using t sz by (auto simp: app_step_def body)
qed

lemma appcombined_reads:
  assumes "dispatchable db"
  shows "(\<forall>m \<in> set ms. length (app_body m) < 65536) \<Longrightarrow>
    \<exists>t. appcombined_loop db (concat (map appcombined_sub ms) @ rest) (length (concat (map appcombined_sub ms))) s = Inr t
      \<and> decoded t = decoded s @ ms"
proof (induction ms arbitrary: s)
  case Nil
  then show ?case by (simp add: appcombined_loop.simps)
next
  case (Cons m ms)
  let ?n = "length (app_body m)" and ?tail = "concat (map appcombined_sub ms) @ rest"
  let ?left = "length (concat (map appcombined_sub ms))"
  have n: "?n < 65536" "2 \<le> ?n" using Cons.prems by (auto simp: app_body_length)
  then have ne: "app_body m \<noteq> []" by auto
  obtain t where t: "app_step db ?n (?n - 1) (app_body m @ ?tail) s = Inr (?n, t)" "decoded t = decoded s @ [m]"
    using app_step_reads [OF assms refl n(1) refl] by blast
  obtain u where u: "appcombined_loop db ?tail ?left t = Inr u" "decoded u = decoded t @ ms"
    using Cons.IH Cons.prems by (meson list.set_intros(2))
  have "appcombined_loop db (appcombined_sub m @ ?tail) (length (appcombined_sub m) + ?left) s
      = appcombined_loop db ?tail ?left t"
  proof (cases "?n < 255")
    case True
    then have b: "unat (of_nat ?n :: u8) = ?n" by (simp add: unat_of_nat_u8)
    then have "(of_nat ?n :: u8) \<noteq> 255" using True by (auto dest: arg_cong [of _ _ unat])
    moreover have "unat (of_nat ?n - 1 :: u8) = ?n - 1" using unat_pred(1) [of "of_nat ?n"] ne unfolding b by simp
    ultimately show ?thesis
      using True t(1) b by (subst appcombined_loop.simps) (simp add: appcombined_sub_def rd_def)
  next
    case False
    have w: "unat (of_nat ?n :: u16) = ?n" using n(1) by (simp add: unat_of_nat_u16)
    moreover have "unat (of_nat ?n - 1 :: u16) = ?n - 1" using unat_pred(2) [of "of_nat ?n"] ne unfolding w by simp
    moreover have "drop (3 + ?n) (255 # be16_bytes v @ app_body m @ ?tail) = ?tail" for v
      by (simp add: be16_bytes_def numeral_3_eq_3)
    ultimately show ?thesis
      using False t(1) by (subst appcombined_loop.simps) (simp add: appcombined_sub_def rd_def)
  qed
  then show ?case using t(2) u by simp
qed

section \<open>\<open>OP_Combined\<close>\<close>

lemma combined_two_byte:
  assumes "dispatchable db" "IS_APP_OPCODE (fst m)" "length (app_body m) < 256"
  shows "\<exists>t. combined_step db recur (of_nat (length (app_body m))) (app_body m @ rest) s = Inr (0, t)
    \<and> decoded t = decoded s @ [m]"
proof -
  let ?n = "length (app_body m)"
  have n: "unat (of_nat ?n :: u8) = ?n" using assms(3) by (simp add: unat_of_nat_u8)
  obtain t where t: "dispatch_op db (snd m @ rest) (szsub ?n 2) (fst m) s = Inr t"
    "decoded t = decoded s @ [(fst m, take (szsub ?n 2) (snd m @ rest))]"
    using dispatch_total [OF assms(1)] by blast
  have "szsub ?n 2 = length (snd m)" using assms(2,3) by (simp add: szsub_le app_body_length)
  moreover have "app_body m @ rest = le16_bytes (fst m) @ snd m @ rest" using assms(2) by (simp add: app_body_def)
  ultimately show ?thesis
    using t n assms(2) app_opcode_not_zero [OF assms(2)] by (auto simp: combined_step_def)
qed

text \<open>An opcode of three bytes: one byte too many is handed over, and the next subpacket starts one byte late.\<close>

lemma combined_three_byte:
  assumes "dispatchable db" "\<not> IS_APP_OPCODE (fst m)" "length (app_body m) < 256"
  shows "\<exists>t. combined_step db recur (of_nat (length (app_body m))) (app_body m @ b # rest) s = Inr (1, t)
    \<and> decoded t = decoded s @ [(fst m, snd m @ [b])]"
proof -
  let ?n = "length (app_body m)"
  have n: "unat (of_nat ?n :: u8) = ?n" using assms(3) by (simp add: unat_of_nat_u8)
  obtain t where t: "dispatch_op db (snd m @ b # rest) (szsub ?n 2) (fst m) s = Inr t"
    "decoded t = decoded s @ [(fst m, take (szsub ?n 2) (snd m @ b # rest))]"
    using dispatch_total [OF assms(1)] by blast
  have "szsub ?n 2 = Suc (length (snd m))" using assms(2,3) by (simp add: szsub_le app_body_length)
  moreover have body: "app_body m @ b # rest = 0 # le16_bytes (fst m) @ snd m @ b # rest"
    using assms(2) by (simp add: app_body_def)
  moreover have "eqtohuint16 (0 # le16_bytes (fst m) @ snd m @ b # rest) = Inr 0"
    using assms(2) by (simp add: le16_low_zero eqtohuint16_def rd_def be16_def)
  ultimately show ?thesis
    using t n by (auto simp: combined_step_def)
qed

lemma combined_reads:
  assumes "dispatchable db"
  shows "(\<forall>m \<in> set ms. IS_APP_OPCODE (fst m) \<and> length (app_body m) < 256) \<Longrightarrow>
    \<exists>t. combined_loop db recur (concat (map combined_sub ms) @ rest) (length (concat (map combined_sub ms)) + extra) s
        = combined_loop db recur rest extra t \<and> decoded t = decoded s @ ms"
proof (induction ms arbitrary: s)
  case Nil
  show ?case by auto
next
  case (Cons m ms)
  let ?n = "length (app_body m)" and ?tail = "concat (map combined_sub ms) @ rest"
  let ?left = "length (concat (map combined_sub ms)) + extra"
  obtain t where t: "combined_step db recur (of_nat ?n) (app_body m @ ?tail) s = Inr (0, t)" "decoded t = decoded s @ [m]"
    using combined_two_byte [OF assms, of m] Cons.prems by (metis list.set_intros(1))
  obtain u where u: "combined_loop db recur ?tail ?left t = combined_loop db recur rest extra u" "decoded u = decoded t @ ms"
    using Cons.IH Cons.prems by (meson list.set_intros(2))
  have "unat (of_nat ?n :: u8) = ?n" using Cons.prems by (simp add: unat_of_nat_u8)
  then have "combined_loop db recur (combined_sub m @ ?tail) (length (combined_sub m) + ?left) s
      = combined_loop db recur ?tail ?left t"
    using t(1) by (subst combined_loop.simps) (simp add: combined_sub_def rd_def)
  then show ?case using t(2) u by (auto simp: add_ac)
qed

section \<open>Packets\<close>

lemma payload_split:
  "payload_bytes p = x \<Longrightarrow> length x = unat (m_payloadLength p) \<Longrightarrow>
   m_payload p = x @ drop (unat (m_payloadLength p)) (m_payload p)"
  by (auto simp: payload_bytes_def)

lemma combined_branches: "\<not> IS_APP_OPCODE OP_Combined" "\<not> IS_APP_OPCODE OP_AppCombined" "OP_AppCombined \<noteq> OP_Combined"
  by (simp_all add: IS_APP_OPCODE_def netop_defs)

text \<open>C40: an \<open>OP_AppCombined\<close> packet that carries a list of messages, of one- or two-byte lengths and of
  two- or three-byte opcodes, is unrolled into exactly these messages, in order.\<close>

theorem appcombined_roundtrip:
  assumes "dispatchable (env_db E)" "m_netOp p = OP_AppCombined" "payload_bytes p = concat (map appcombined_sub ms)"
    "length (concat (map appcombined_sub ms)) = unat (m_payloadLength p)" "\<forall>m \<in> set ms. length (app_body m) < 65536"
  shows "\<exists>t. processPacket E u p s = Inr t \<and> decoded t = decoded s @ ms"
proof -
  have "processPacket E u p s = appcombined_loop (env_db E)
      (concat (map appcombined_sub ms) @ drop (unat (m_payloadLength p)) (m_payload p)) (unat (m_payloadLength p)) s"
    using payload_split [OF assms(3,4)] assms(2) combined_branches by (simp add: processPacket_def process_body_def Let_def)
  then show ?thesis using appcombined_reads [OF assms(1,5)] assms(4) by metis
qed

theorem appcombined_roundtrip_witness:
  "let p = blank_packet\<lparr>m_netOp := OP_AppCombined, m_payloadLength := 9,
       m_payload := [3, 52, 18, 7, 4, 0, 0, 18, 8, 1, 99], m_subpacket := True\<rparr>
   in \<exists>t. processPacket sample_env None p sample_stream = Inr t \<and>
     decoded t = decoded sample_stream @ [(0x1234, [7]), (0x1200, [8])]"
proof -
  let ?p = "blank_packet\<lparr>m_netOp := OP_AppCombined, m_payloadLength := 9,
       m_payload := [3, 52, 18, 7, 4, 0, 0, 18, 8, 1, 99], m_subpacket := True\<rparr>"
  let ?ms = "[(0x1234, [7]), (0x1200, [8])]"
  have "m_netOp ?p = OP_AppCombined" "payload_bytes ?p = concat (map appcombined_sub ?ms)"
    "length (concat (map appcombined_sub ?ms)) = unat (m_payloadLength ?p)"
    by code_simp+
  moreover have "\<forall>m \<in> set ?ms. length (app_body m) < 65536" by (simp add: app_body_length)
  ultimately show ?thesis
    unfolding Let_def by (rule appcombined_roundtrip [OF sample_dispatchable])
qed

lemma combined_prefix:
  assumes "dispatchable (env_db E)" "m_netOp p = OP_Combined"
    "\<forall>m \<in> set ms. IS_APP_OPCODE (fst m) \<and> length (app_body m) < 256"
    "payload_bytes p = concat (map combined_sub ms) @ x" "length (payload_bytes p) = unat (m_payloadLength p)"
  shows "\<exists>t. processPacket E u p s = combined_loop (env_db E) (process_sub E (Suc (length (m_payload p))))
      (x @ drop (unat (m_payloadLength p)) (m_payload p)) (length x) t \<and> decoded t = decoded s @ ms"
proof -
  have pay: "m_payload p = concat (map combined_sub ms) @ x @ drop (unat (m_payloadLength p)) (m_payload p)"
    using payload_split [OF refl assms(5)] assms(4) by simp
  have len: "unat (m_payloadLength p) = length (concat (map combined_sub ms)) + length x"
    using assms(4,5) by simp
  have run: "processPacket E u p s = combined_loop (env_db E) (process_sub E (Suc (length (m_payload p))))
      (m_payload p) (unat (m_payloadLength p)) s"
    using assms(2) combined_branches by (simp add: processPacket_def process_body_def Let_def)
  show ?thesis
    using combined_reads [OF assms(1,3), of "process_sub E (Suc (length (m_payload p)))"
        "x @ drop (unat (m_payloadLength p)) (m_payload p)" "length x" s]
    unfolding run pay [symmetric] len [symmetric] by simp
qed

text \<open>An \<open>OP_Combined\<close> packet that carries messages with two-byte opcodes is unrolled into exactly
  these messages, in order.\<close>

theorem combined_roundtrip:
  assumes "dispatchable (env_db E)" "m_netOp p = OP_Combined" "payload_bytes p = concat (map combined_sub ms)"
    "length (payload_bytes p) = unat (m_payloadLength p)"
    "\<forall>m \<in> set ms. IS_APP_OPCODE (fst m) \<and> length (app_body m) < 256"
  shows "\<exists>t. processPacket E u p s = Inr t \<and> decoded t = decoded s @ ms"
  using combined_prefix [OF assms(1,2,5), of "[]" u s] assms(3,4) by (auto simp: combined_loop.simps)

theorem combined_roundtrip_witness:
  "let p = blank_packet\<lparr>m_netOp := OP_Combined, m_payloadLength := 9,
       m_payload := [3, 52, 18, 7, 4, 53, 18, 8, 9, 1, 99], m_subpacket := True\<rparr>
   in \<exists>t. processPacket sample_env None p sample_stream = Inr t \<and>
     decoded t = decoded sample_stream @ [(0x1234, [7]), (0x1235, [8, 9])]"
  unfolding Let_def
  by (rule combined_roundtrip [OF sample_dispatchable]) code_simp+

text \<open>Where an \<open>OP_Combined\<close> packet carries a message with a three-byte opcode, that message is handed
  over with one byte too many, the length byte of the next subpacket, and the unrolling goes on
  behind that byte as if it started a subpacket there.\<close>

theorem combined_three_byte_opcode_desyncs:
  assumes "dispatchable (env_db E)" "m_netOp p = OP_Combined"
    "\<forall>m \<in> set ms. IS_APP_OPCODE (fst m) \<and> length (app_body m) < 256"
    "\<not> IS_APP_OPCODE (fst q)" "length (app_body q) < 256"
    "payload_bytes p = concat (map combined_sub ms) @ combined_sub q @ b # body"
    "length (payload_bytes p) = unat (m_payloadLength p)"
  shows "\<exists>t. processPacket E u p s = combined_loop (env_db E) (process_sub E (Suc (length (m_payload p))))
      (body @ drop (unat (m_payloadLength p)) (m_payload p)) (length body) t \<and>
    decoded t = decoded s @ ms @ [(fst q, snd q @ [b])]"
proof -
  let ?db = "env_db E" and ?recur = "process_sub E (Suc (length (m_payload p)))"
  let ?tail = "drop (unat (m_payloadLength p)) (m_payload p)" and ?x = "combined_sub q @ b # body"
  let ?n = "length (app_body q)"
  obtain t where t: "processPacket E u p s = combined_loop ?db ?recur (?x @ ?tail) (length ?x) t"
    "decoded t = decoded s @ ms"
    using combined_prefix [OF assms(1-3,6,7)] by blast
  obtain v where v: "combined_step ?db ?recur (of_nat ?n) (app_body q @ b # body @ ?tail) t = Inr (1, v)"
    "decoded v = decoded t @ [(fst q, snd q @ [b])]"
    using combined_three_byte [OF assms(1,4,5)] by blast
  have "unat (of_nat ?n :: u8) = ?n" using assms(5) by (simp add: unat_of_nat_u8)
  then have "combined_loop ?db ?recur (?x @ ?tail) (length ?x) t = combined_loop ?db ?recur (body @ ?tail) (length body) v"
    using v(1) by (subst combined_loop.simps) (simp add: combined_sub_def rd_def)
  then show ?thesis using t v(2) by auto
qed

theorem combined_three_byte_opcode_desyncs_witness:
  "let p = blank_packet\<lparr>m_netOp := OP_Combined, m_payloadLength := 9,
       m_payload := [4, 0, 0, 18, 8, 3, 52, 18, 7, 1, 99], m_subpacket := True\<rparr>
   in \<exists>n t. processPacket sample_env None p sample_stream
       = combined_loop (env_db sample_env) (process_sub sample_env n) [52, 18, 7, 1, 99] 3 t \<and>
     decoded t = decoded sample_stream @ [(0x1200, [8, 3])]"
proof -
  let ?p = "blank_packet\<lparr>m_netOp := OP_Combined, m_payloadLength := 9,
       m_payload := [4, 0, 0, 18, 8, 3, 52, 18, 7, 1, 99], m_subpacket := True\<rparr>"
  have "m_netOp ?p = OP_Combined" "\<not> IS_APP_OPCODE (fst (0x1200, [8 :: u8]))" "length (app_body (0x1200, [8])) < 256"
    "payload_bytes ?p = concat (map combined_sub []) @ combined_sub (0x1200, [8]) @ 3 # [52, 18, 7]"
    "length (payload_bytes ?p) = unat (m_payloadLength ?p)"
    by code_simp+
  from combined_three_byte_opcode_desyncs [OF sample_dispatchable this(1) _ this(2-5), of None sample_stream]
  obtain t where t: "processPacket sample_env None ?p sample_stream = combined_loop (env_db sample_env)
      (process_sub sample_env (Suc (length (m_payload ?p))))
      ([52, 18, 7] @ drop (unat (m_payloadLength ?p)) (m_payload ?p)) (length [52 :: u8, 18, 7]) t"
    "decoded t = decoded sample_stream @ [(0x1200, [8, 3])]" by auto
  have "[52, 18, 7] @ drop (unat (m_payloadLength ?p)) (m_payload ?p) = [52, 18, 7, 1, 99]"
    "length [52 :: u8, 18, 7] = 3" by simp_all
  then show ?thesis using t unfolding Let_def by metis
qed

end
