(* ===== verification/BoxRegistry.thy ===== *)
theory BoxRegistry
  imports PacketFormat
begin

text \<open>
  The clients on the wire and the characters they play: \<open>Box\<close>, \<open>Character\<close> and
  \<open>BoxRegistry\<close> of \<open>src/boxregistry.h\<close> and \<open>src/boxregistry.cpp\<close>, with the two observers that
  feed it, \<open>NamePromoter\<close> (\<open>src/namepromoter.cpp\<close>) and \<open>ZoneServerObserver\<close>
  (\<open>src/zoneserverobserver.cpp\<close>).

  Addresses and ports are the network-order values the code keeps. Times are milliseconds as
  integers: the code's 64-bit clock does not come near its bounds. SHA-256 is the parameter
  \<open>digest\<close>. A \<open>Box*\<close> is the number the box got when it was created; following the number of a
  freed box is \<open>UseAfterFree\<close>.
\<close>

section \<open>Boxes and characters\<close>

datatype SessionState = Pending | Attached | Superseded | Reaped

datatype stream_ref = GlobalStream stream_id | BoxStream nat stream_id

record box =
  bx_ptr :: nat
  client_ip :: u32
  client_world_port :: u16
  server_world_port :: u16
  server_world_ip :: u32
  first_seen_ms :: int
  last_seen_ms :: int
  packet_count :: u64
  is_primary :: bool
  world_c2s :: "stream_ref option"
  world_s2c :: "stream_ref option"
  zone_c2s :: "stream_ref option"
  zone_s2c :: "stream_ref option"
  expected_zone_server_ip :: u32
  expected_zone_server_port :: u16
  zone_client_port :: u16
  zone_server_port_bound :: u16
  zone_await_ms :: int
  box_id :: string
  display_name :: string
  bx_state :: SessionState

record character =
  c_name :: string
  c_id :: string
  c_session :: "nat option"
  aliasCount :: nat

datatype box_event =
    BoxCreated nat
  | BoxAboutToBeRemoved nat
  | BoxesChanged
  | ActiveCharacterChanged "nat option" "nat option"

record box_registry =
  m_boxes :: "box list"
  m_activeCharacterId :: string
  m_characters :: "character list"
  br_next :: nat
  br_out :: "box_event list"

definition mkBoxRegistry :: box_registry where
  "mkBoxRegistry = \<lparr>m_boxes = [], m_activeCharacterId = [], m_characters = [], br_next = 0, br_out = []\<rparr>"

definition br_emit :: "box_event \<Rightarrow> box_registry \<Rightarrow> box_registry" where
  "br_emit e r = r\<lparr>br_out := br_out r @ [e]\<rparr>"

definition box_find :: "nat \<Rightarrow> box_registry \<Rightarrow> box option" where
  "box_find p r = find (\<lambda>b. bx_ptr b = p) (m_boxes r)"

definition box_at :: "nat \<Rightarrow> box_registry \<Rightarrow> box res" where
  "box_at p r = (case box_find p r of None \<Rightarrow> Inl UseAfterFree | Some b \<Rightarrow> Inr b)"

definition box_set :: "nat \<Rightarrow> (box \<Rightarrow> box) \<Rightarrow> box_registry \<Rightarrow> box_registry" where
  "box_set p f r = r\<lparr>m_boxes := update_where (\<lambda>b. bx_ptr b = p) f (m_boxes r)\<rparr>"

text \<open>The text of an id: \<open>QString::arg(n, width, 16, '0')\<close> for a number of at most \<open>width\<close> digits.\<close>

definition hex_char :: "nat \<Rightarrow> char" where
  "hex_char n = ''0123456789abcdef'' ! n"

fun hexw :: "nat \<Rightarrow> 'a::len word \<Rightarrow> string" where
  "hexw 0 w = []"
| "hexw (Suc k) w = hexw k (drop_bit 4 w) @ [hex_char (unat (w AND 15))]"

definition ntohs :: "u16 \<Rightarrow> u16" where
  "ntohs w = push_bit 8 w OR drop_bit 8 w"

definition placeholder_id :: "u32 \<Rightarrow> u16 \<Rightarrow> u16 \<Rightarrow> string" where
  "placeholder_id ip cport sport =
     ''p-'' @ hexw 8 ip @ ''-'' @ hexw 4 (ntohs cport) @ ''-'' @ hexw 4 (ntohs sport)"

definition name_id :: "(string \<Rightarrow> bytes) \<Rightarrow> string \<Rightarrow> string" where
  "name_id digest name = ''b-'' @ concat (map (hexw 2) (take 8 (digest name)))"

section \<open>Lookups\<close>

definition primary :: "box_registry \<Rightarrow> nat option" where
  "primary r = (case m_boxes r of [] \<Rightarrow> None | b # _ \<Rightarrow> Some (bx_ptr b))"

definition findById :: "string \<Rightarrow> box_registry \<Rightarrow> nat option" where
  "findById i r = map_option bx_ptr (find (\<lambda>b. box_id b = i) (m_boxes r))"

definition same_world :: "u32 \<Rightarrow> u16 \<Rightarrow> u16 \<Rightarrow> box \<Rightarrow> bool" where
  "same_world ip cport sport b \<longleftrightarrow>
     client_ip b = ip \<and> client_world_port b = cport \<and> server_world_port b = sport"

definition lookupByWorld :: "u32 \<Rightarrow> u16 \<Rightarrow> u16 \<Rightarrow> box_registry \<Rightarrow> nat option" where
  "lookupByWorld ip cport sport r = map_option bx_ptr (find (same_world ip cport sport) (m_boxes r))"

definition lookupByName :: "string \<Rightarrow> nat option \<Rightarrow> box_registry \<Rightarrow> nat option" where
  "lookupByName name exclude r =
     (if name = [] then None
      else map_option bx_ptr (find (\<lambda>b. Some (bx_ptr b) \<noteq> exclude \<and> display_name b = name) (m_boxes r)))"

definition lookupBoundZone :: "u32 \<Rightarrow> u16 \<Rightarrow> u16 \<Rightarrow> box_registry \<Rightarrow> nat option" where
  "lookupBoundZone ip cport sport r =
     map_option bx_ptr (find (\<lambda>b. client_ip b = ip \<and> zone_client_port b = cport \<and>
       zone_server_port_bound b = sport) (m_boxes r))"

definition hasClient :: "u32 \<Rightarrow> box_registry \<Rightarrow> bool" where
  "hasClient ip r \<longleftrightarrow> list_ex (\<lambda>b. client_ip b = ip) (m_boxes r)"

definition anyZoneServerAnnounced :: "box_registry \<Rightarrow> bool" where
  "anyZoneServerAnnounced r \<longleftrightarrow> list_ex (\<lambda>b. expected_zone_server_port b \<noteq> 0) (m_boxes r)"

text \<open>\<open>htonl(0xFFFFFF00)\<close> on a little-endian host.\<close>

definition same_subnet :: "u32 \<Rightarrow> u32 \<Rightarrow> bool" where
  "same_subnet a b \<longleftrightarrow> (a XOR b) AND 0x00FFFFFF = 0"

definition looksLikeZoneServer :: "u32 \<Rightarrow> box_registry \<Rightarrow> bool" where
  "looksLikeZoneServer ip r \<longleftrightarrow>
     list_ex (\<lambda>b. server_world_ip b \<noteq> 0 \<and> same_subnet (server_world_ip b) ip) (m_boxes r)"

text \<open>The loops that keep the best box seen so far: only a strictly larger time replaces it.\<close>

fun best_box :: "(box \<Rightarrow> bool) \<Rightarrow> (box \<Rightarrow> int) \<Rightarrow> box list \<Rightarrow> box option \<Rightarrow> box option" where
  "best_box ok t [] best = best"
| "best_box ok t (b # bs) best =
     best_box ok t bs
       (if \<not> ok b then best
        else case best of None \<Rightarrow> Some b | Some c \<Rightarrow> if t c < t b then Some b else best)"

definition recent_world :: "u32 \<Rightarrow> u32 \<Rightarrow> int \<Rightarrow> int \<Rightarrow> box \<Rightarrow> bool" where
  "recent_world ip sip now window b \<longleftrightarrow>
     client_ip b = ip \<and> zone_client_port b = 0 \<and> client_world_port b \<noteq> 0 \<and> server_world_ip b \<noteq> 0 \<and>
     same_subnet (server_world_ip b) sip \<and> \<not> window < now - last_seen_ms b"

definition lookupByRecentWorld :: "u32 \<Rightarrow> u32 \<Rightarrow> int \<Rightarrow> int \<Rightarrow> box_registry \<Rightarrow> nat option" where
  "lookupByRecentWorld ip sip now window r =
     map_option bx_ptr (best_box (recent_world ip sip now window) last_seen_ms (m_boxes r) None)"

definition expects_zone :: "u32 \<Rightarrow> u32 \<Rightarrow> u16 \<Rightarrow> box \<Rightarrow> bool" where
  "expects_zone ip sip port b \<longleftrightarrow>
     client_ip b = ip \<and> zone_client_port b = 0 \<and>
     (expected_zone_server_ip b = 0 \<or> expected_zone_server_ip b = sip) \<and> expected_zone_server_port b = port"

definition lookupByExpectedZone :: "u32 \<Rightarrow> u32 \<Rightarrow> u16 \<Rightarrow> box_registry \<Rightarrow> nat option" where
  "lookupByExpectedZone ip sip port r =
     map_option bx_ptr (best_box (expects_zone ip sip port) zone_await_ms (m_boxes r) None)"

definition distinctCount :: "box_registry \<Rightarrow> nat" where
  "distinctCount r = length (remdups (map box_id (m_boxes r)))"

definition currentBoxFor :: "string \<Rightarrow> box_registry \<Rightarrow> nat option" where
  "currentBoxFor i r =
     (case find (\<lambda>c. c_id c = i) (m_characters r) of Some c \<Rightarrow> c_session c | None \<Rightarrow> findById i r)"

definition currentSessionFor :: "string \<Rightarrow> box_registry \<Rightarrow> nat option" where
  "currentSessionFor name r =
     (if name = [] then None
      else case find (\<lambda>c. c_name c = name) (m_characters r) of Some c \<Rightarrow> c_session c | None \<Rightarrow> None)"

text \<open>One entry per id, in the order of the first box of each.\<close>

fun characters_loop :: "box_registry \<Rightarrow> box list \<Rightarrow> string list \<Rightarrow> character list" where
  "characters_loop r [] seen = []"
| "characters_loop r (b # bs) seen =
     (if box_id b \<in> set seen then characters_loop r bs seen
      else \<lparr>c_name = display_name b, c_id = box_id b, c_session = currentBoxFor (box_id b) r,
             aliasCount = length (filter (\<lambda>a. bx_ptr a \<noteq> bx_ptr b \<and> box_id a = box_id b) (m_boxes r))\<rparr>
           # characters_loop r bs (box_id b # seen))"

definition characters :: "box_registry \<Rightarrow> character list" where
  "characters r = characters_loop r (m_boxes r) []"

section \<open>Observing clients\<close>

text \<open>\<open>hook\<close> is the \<open>BoxCreatedHook\<close>, which fills in the streams of a new box.\<close>

definition new_box :: "u32 \<Rightarrow> u32 \<Rightarrow> u16 \<Rightarrow> u16 \<Rightarrow> int \<Rightarrow> box_registry \<Rightarrow> box" where
  "new_box ip sip cport sport now r =
     \<lparr>bx_ptr = br_next r, client_ip = ip, client_world_port = cport, server_world_port = sport,
      server_world_ip = sip, first_seen_ms = now, last_seen_ms = now, packet_count = 1,
      is_primary = (m_boxes r = []), world_c2s = None, world_s2c = None, zone_c2s = None, zone_s2c = None,
      expected_zone_server_ip = 0, expected_zone_server_port = 0, zone_client_port = 0,
      zone_server_port_bound = 0, zone_await_ms = 0, box_id = placeholder_id ip cport sport,
      display_name = [], bx_state = Pending\<rparr>"

definition observe ::
  "(box \<Rightarrow> box) option \<Rightarrow> u32 \<Rightarrow> u32 \<Rightarrow> u16 \<Rightarrow> u16 \<Rightarrow> int \<Rightarrow> box_registry \<Rightarrow> nat \<times> box_registry" where
  "observe hook ip sip cport sport now r =
     (case lookupByWorld ip cport sport r of
        Some hit \<Rightarrow>
          (hit, box_set hit (\<lambda>b. b\<lparr>last_seen_ms := now, server_world_ip := sip, packet_count := packet_count b + 1\<rparr>) r)
      | None \<Rightarrow>
          let b = new_box ip sip cport sport now r;
              raw = (case hook of None \<Rightarrow> b | Some h \<Rightarrow> h b);
              r = r\<lparr>m_boxes := m_boxes r @ [raw], br_next := Suc (br_next r)\<rparr>;
              r = br_emit (BoxCreated (bx_ptr b)) r;
              r = (if m_activeCharacterId r = [] then r\<lparr>m_activeCharacterId := box_id raw\<rparr> else r)
          in (bx_ptr b, br_emit BoxesChanged r))"

section \<open>Characters\<close>

definition setActiveCharacterId :: "string \<Rightarrow> box_registry \<Rightarrow> bool \<times> box_registry" where
  "setActiveCharacterId i r =
     (case findById i r of
        None \<Rightarrow> (False, r)
      | Some target \<Rightarrow>
          if m_activeCharacterId r = i then (True, r)
          else let old = findById (m_activeCharacterId r) r;
                   r = r\<lparr>m_activeCharacterId := i\<rparr>
               in (True, br_emit BoxesChanged (br_emit (ActiveCharacterChanged old (Some target)) r)))"

text \<open>The loop over the store: the first row of the id is updated, and a missing row is appended.\<close>

fun upsert_loop :: "box_registry \<Rightarrow> string \<Rightarrow> string \<Rightarrow> nat \<Rightarrow> character list \<Rightarrow> character list res" where
  "upsert_loop r i name p [] = Inr [\<lparr>c_name = name, c_id = i, c_session = Some p, aliasCount = 0\<rparr>]"
| "upsert_loop r i name p (c # cs) =
     (if c_id c = i then
        let c = c\<lparr>c_name := name\<rparr> in
        (case c_session c of
           None \<Rightarrow> Inr (c\<lparr>c_session := Some p\<rparr> # cs)
         | Some q \<Rightarrow>
             rbind (box_at p r) (\<lambda>new. rbind (box_at q r) (\<lambda>old.
               Inr ((if first_seen_ms old \<le> first_seen_ms new then c\<lparr>c_session := Some p\<rparr> else c) # cs))))
      else rbind (upsert_loop r i name p cs) (\<lambda>cs. Inr (c # cs)))"

definition upsertCharacter :: "string \<Rightarrow> string \<Rightarrow> nat \<Rightarrow> box_registry \<Rightarrow> box_registry res" where
  "upsertCharacter i name p r =
     rbind (upsert_loop r i name p (m_characters r)) (\<lambda>cs. Inr (r\<lparr>m_characters := cs\<rparr>))"

definition onPromoted :: "nat option \<Rightarrow> string \<Rightarrow> box_registry \<Rightarrow> box_registry res" where
  "onPromoted bx old_box_id r =
     (case bx of
        None \<Rightarrow> Inr r
      | Some p \<Rightarrow>
          rbind (box_at p r) (\<lambda>b.
          let r = (if m_activeCharacterId r = old_box_id then r\<lparr>m_activeCharacterId := box_id b\<rparr> else r)
          in rbind (upsertCharacter (box_id b) (display_name b) p r) (\<lambda>r. Inr (br_emit BoxesChanged r))))"

definition notifyChanged :: "box_registry \<Rightarrow> box_registry" where
  "notifyChanged r = br_emit BoxesChanged r"

text \<open>Naming a box, as both promotion paths do it.\<close>

definition rename_box :: "(string \<Rightarrow> bytes) \<Rightarrow> nat \<Rightarrow> string \<Rightarrow> box_registry \<Rightarrow> box_registry" where
  "rename_box digest p name r = box_set p (\<lambda>b. b\<lparr>display_name := name, box_id := name_id digest name\<rparr>) r"

definition reclassify :: "string \<Rightarrow> box_registry \<Rightarrow> box_registry" where
  "reclassify i r =
     (let live = currentBoxFor i r
      in r\<lparr>m_boxes := update_where (\<lambda>b. box_id b = i)
             (\<lambda>b. b\<lparr>bx_state := if Some (bx_ptr b) = live then Attached else Superseded\<rparr>) (m_boxes r)\<rparr>)"

text \<open>A placeholder that was active gives way to a newly decoded distinct character.\<close>

definition adopt_active :: "string \<Rightarrow> box_registry \<Rightarrow> box_registry res" where
  "adopt_active i r =
     (case findById (m_activeCharacterId r) r of
        None \<Rightarrow> Inr (r\<lparr>m_activeCharacterId := i\<rparr>)
      | Some a \<Rightarrow> rbind (box_at a r) (\<lambda>active.
          Inr (if display_name active = [] then r\<lparr>m_activeCharacterId := i\<rparr> else r)))"

definition promoteByName ::
  "(string \<Rightarrow> bytes) \<Rightarrow> nat option \<Rightarrow> string \<Rightarrow> box_registry \<Rightarrow> (nat option \<times> box_registry) res" where
  "promoteByName digest bx name r =
     (case bx of
        None \<Rightarrow> Inr (None, r)
      | Some p \<Rightarrow>
          if name = [] then Inr (None, r)
          else rbind (box_at p r) (\<lambda>b.
            if display_name b = name then Inr (None, r)
            else
              let i = name_id digest name;
                  r = rename_box digest p name r;
                  prior = lookupByName name (Some p) r
              in rbind (onPromoted (Some p) (box_id b) r) (\<lambda>r.
                 rbind (if prior = None then adopt_active i r else Inr r) (\<lambda>r.
                 let r = (if m_activeCharacterId r = i then br_emit (ActiveCharacterChanged None (Some p)) r else r)
                 in Inr (prior, br_emit BoxesChanged (reclassify i r))))))"

section \<open>Eviction\<close>

definition evictable :: "nat option \<Rightarrow> int \<Rightarrow> box \<Rightarrow> bool" where
  "evictable activeLive cutoff b \<longleftrightarrow>
     \<not> is_primary b \<and> Some (bx_ptr b) \<noteq> activeLive \<and> last_seen_ms b < cutoff"

definition evictStale :: "int \<Rightarrow> int \<Rightarrow> box_registry \<Rightarrow> nat \<times> box_registry" where
  "evictStale now ttl r =
     (if ttl \<le> 0 then (0, r)
      else
        let cutoff = now - ttl;
            activeLive = currentBoxFor (m_activeCharacterId r) r;
            victims = map bx_ptr (filter (evictable activeLive cutoff) (m_boxes r))
        in if victims = [] then (0, r)
           else
             let r = fold (\<lambda>v r. br_emit (BoxAboutToBeRemoved v) (box_set v (\<lambda>b. b\<lparr>bx_state := Reaped\<rparr>) r)) victims r;
                 r = r\<lparr>m_boxes := filter (\<lambda>b. bx_ptr b \<notin> set victims) (m_boxes r)\<rparr>;
                 r = r\<lparr>m_characters := filter (\<lambda>c. \<forall>v \<in> set victims. c_session c \<noteq> Some v) (m_characters r)\<rparr>
             in (length victims, br_emit BoxesChanged r))"

section \<open>The observers\<close>

text \<open>\<open>QString::fromLatin1(raw, qstrnlen(raw, n))\<close>\<close>

fun name_slot :: "nat \<Rightarrow> bytes \<Rightarrow> string res" where
  "name_slot 0 p = Inr []"
| "name_slot (Suc n) p =
     rbind (rd p 0) (\<lambda>b. if b = 0 then Inr [] else rbind (name_slot n (drop 1 p)) (\<lambda>cs. Inr (char_of (unat b) # cs)))"

definition kEnterWorldClientLen :: nat where "kEnterWorldClientLen = 72"

definition kCharNameSlot :: nat where "kCharNameSlot = 64"

definition kZsiLen :: nat where "kZsiLen = 130"

text \<open>\<open>NamePromoter::onDecodedPacket\<close>; \<open>entry\<close> is the name of the opcode, if it is known.\<close>

definition np_onDecodedPacket ::
  "(string \<Rightarrow> bytes) \<Rightarrow> nat \<Rightarrow> bytes \<Rightarrow> nat \<Rightarrow> u8 \<Rightarrow> string option \<Rightarrow> box_registry \<Rightarrow> box_registry res" where
  "np_onDecodedPacket digest p data len dir entry r =
     (if entry \<noteq> Some ''OP_EnterWorld'' \<or> dir \<noteq> DIR_Client \<or> len \<noteq> kEnterWorldClientLen then Inr r
      else rbind (box_at p r) (\<lambda>b.
        if display_name b \<noteq> [] then Inr r
        else rbind (name_slot kCharNameSlot data) (\<lambda>name.
          if name = [] then Inr r
          else onPromoted (Some p) (box_id b) (rename_box digest p name r))))"

text \<open>\<open>ZoneServerObserver::onDecodedPacket\<close>; the port stands at offset 128 of the struct, in host order.\<close>

definition zso_onDecodedPacket ::
  "nat \<Rightarrow> bytes \<Rightarrow> nat \<Rightarrow> u8 \<Rightarrow> string option \<Rightarrow> int \<Rightarrow> box_registry \<Rightarrow> box_registry res" where
  "zso_onDecodedPacket p data len dir entry now r =
     (if entry \<noteq> Some ''OP_ZoneServerInfo'' \<or> dir \<noteq> DIR_Server \<or> len \<noteq> kZsiLen then Inr r
      else rbind (eqtohuint16 (drop 128 data)) (\<lambda>port.
        rbind (box_at p r) (\<lambda>b.
        Inr (box_set p (\<lambda>b. b\<lparr>expected_zone_server_port := ntohs port, zone_client_port := 0,
                            zone_server_port_bound := 0, zone_await_ms := now\<rparr>) r))))"

text \<open>What \<open>dispatchPacket\<close> writes into a box when it binds and routes a zone session.\<close>

definition bind_zone :: "nat \<Rightarrow> u16 \<Rightarrow> u16 \<Rightarrow> box_registry \<Rightarrow> box_registry" where
  "bind_zone p cport sport r = box_set p (\<lambda>b. b\<lparr>zone_client_port := cport, zone_server_port_bound := sport\<rparr>) r"

definition stamp_zone :: "nat \<Rightarrow> int \<Rightarrow> box_registry \<Rightarrow> box_registry" where
  "stamp_zone p now r = box_set p (\<lambda>b. b\<lparr>last_seen_ms := now, packet_count := packet_count b + 1\<rparr>) r"

section \<open>The registry as a step relation\<close>

definition live :: "nat \<Rightarrow> box_registry \<Rightarrow> bool" where
  "live p r \<longleftrightarrow> p \<in> bx_ptr ` set (m_boxes r)"

inductive registry_step :: "(box \<Rightarrow> box) option \<Rightarrow> (string \<Rightarrow> bytes) \<Rightarrow> box_registry \<Rightarrow> box_registry \<Rightarrow> bool"
  for hook digest where
    observed: "snd (observe hook ip sip cport sport now r) = r' \<Longrightarrow> registry_step hook digest r r'"
  | activated: "snd (setActiveCharacterId i r) = r' \<Longrightarrow> registry_step hook digest r r'"
  | promoted: "live p r \<Longrightarrow> promoteByName digest (Some p) name r = Inr (prior, r') \<Longrightarrow> registry_step hook digest r r'"
  | entered: "live p r \<Longrightarrow> np_onDecodedPacket digest p data len dir entry r = Inr r' \<Longrightarrow> registry_step hook digest r r'"
  | announced: "live p r \<Longrightarrow> zso_onDecodedPacket p data len dir entry now r = Inr r' \<Longrightarrow> registry_step hook digest r r'"
  | bound: "live p r \<Longrightarrow> bind_zone p cport sport r = r' \<Longrightarrow> registry_step hook digest r r'"
  | stamped: "live p r \<Longrightarrow> stamp_zone p now r = r' \<Longrightarrow> registry_step hook digest r r'"
  | evicted: "snd (evictStale now ttl r) = r' \<Longrightarrow> registry_step hook digest r r'"

inductive registry_reachable :: "(box \<Rightarrow> box) option \<Rightarrow> (string \<Rightarrow> bytes) \<Rightarrow> box_registry \<Rightarrow> bool"
  for hook digest where
    start: "registry_reachable hook digest mkBoxRegistry"
  | step: "registry_reachable hook digest r \<Longrightarrow> registry_step hook digest r r' \<Longrightarrow> registry_reachable hook digest r'"

inductive_cases registry_stepE: "registry_step hook digest r r'"

section \<open>The invariant\<close>

definition world_key :: "box \<Rightarrow> u32 \<times> u16 \<times> u16" where
  "world_key b = (client_ip b, client_world_port b, server_world_port b)"

fun one_primary :: "box list \<Rightarrow> bool" where
  "one_primary [] = True"
| "one_primary (b # bs) = (is_primary b \<and> list_all (\<lambda>c. \<not> is_primary c) bs)"

definition registry_core :: "box_registry \<Rightarrow> bool" where
  "registry_core r \<longleftrightarrow> distinct (map bx_ptr (m_boxes r)) \<and> (\<forall>b \<in> set (m_boxes r). bx_ptr b < br_next r) \<and>
     distinct (map world_key (m_boxes r)) \<and> one_primary (m_boxes r) \<and> distinct (map c_id (m_characters r)) \<and>
     (\<forall>c \<in> set (m_characters r). \<exists>p. c_session c = Some p \<and> live p r) \<and>
     (\<forall>b \<in> set (m_boxes r). box_id b \<noteq> [])"

definition active_ok :: "box_registry \<Rightarrow> bool" where
  "active_ok r \<longleftrightarrow> (if m_boxes r = [] then m_activeCharacterId r = []
     else m_activeCharacterId r \<noteq> [] \<and> currentBoxFor (m_activeCharacterId r) r \<noteq> None)"

definition registry_inv :: "box_registry \<Rightarrow> bool" where
  "registry_inv r \<longleftrightarrow> registry_core r \<and> active_ok r"

lemma registry_coreD:
  assumes "registry_core r"
  shows "distinct (map bx_ptr (m_boxes r))" "b \<in> set (m_boxes r) \<Longrightarrow> bx_ptr b < br_next r"
    "distinct (map world_key (m_boxes r))" "one_primary (m_boxes r)" "distinct (map c_id (m_characters r))"
    "c \<in> set (m_characters r) \<Longrightarrow> \<exists>p. c_session c = Some p \<and> live p r"
    "b \<in> set (m_boxes r) \<Longrightarrow> box_id b \<noteq> []"
  using assms unfolding registry_core_def by blast+

lemma registry_inv_new: "registry_inv mkBoxRegistry"
  by (simp add: registry_inv_def registry_core_def active_ok_def mkBoxRegistry_def)

lemma box_find_none: "box_find p r = None \<longleftrightarrow> \<not> live p r"
  by (auto simp: live_def box_find_def find_None_iff)

lemma box_at_live: "live p r \<longleftrightarrow> (\<exists>b. box_at p r = Inr b)"
  using box_find_none [of p r] by (cases "box_find p r") (simp_all add: box_at_def)

lemma box_at_Inr: "box_at p r = Inr b \<Longrightarrow> b \<in> set (m_boxes r) \<and> bx_ptr b = p"
  by (auto simp: box_at_def box_find_def split: option.splits dest: find_Some_set)

lemma live_find: "find P (m_boxes r) = Some b \<Longrightarrow> live (bx_ptr b) r"
  by (auto simp: live_def dest: find_Some_set)

lemma findById_live: "findById i r = Some p \<Longrightarrow> live p r"
  by (auto simp: findById_def dest: live_find)

lemma currentBoxFor_live: "registry_core r \<Longrightarrow> currentBoxFor i r = Some p \<Longrightarrow> live p r"
  by (auto simp: currentBoxFor_def split: option.splits dest!: find_Some_set dest: findById_live registry_coreD(6))

text \<open>Changes to one box that leave its identity alone.\<close>

definition keeps_identity :: "(box \<Rightarrow> box) \<Rightarrow> bool" where
  "keeps_identity f \<longleftrightarrow> (\<forall>b. bx_ptr (f b) = bx_ptr b \<and> world_key (f b) = world_key b \<and>
     is_primary (f b) = is_primary b \<and> box_id (f b) = box_id b)"

lemma one_primary_map: "(\<And>b. is_primary (g b) = is_primary b) \<Longrightarrow> one_primary (map g bs) = one_primary bs"
  by (cases bs) (simp_all add: list.pred_map comp_def)

lemma find_map: "(\<And>b. P (g b) = P b) \<Longrightarrow> map_option h (find P (map g bs)) = map_option (h \<circ> g) (find P bs)"
  by (induction bs) auto

lemma findById_map:
  "(\<And>b. bx_ptr (g b) = bx_ptr b) \<Longrightarrow> (\<And>b. box_id (g b) = box_id b) \<Longrightarrow>
   findById i (r\<lparr>m_boxes := map g (m_boxes r)\<rparr>) = findById i r"
  using find_map [of "\<lambda>b. box_id b = i" g bx_ptr "m_boxes r"] by (simp add: findById_def comp_def)

lemma registry_map:
  assumes "registry_core r" and g: "\<And>b. bx_ptr (g b) = bx_ptr b" "\<And>b. world_key (g b) = world_key b"
    "\<And>b. is_primary (g b) = is_primary b" "\<And>b. box_id (g b) = box_id b"
  shows "registry_core (r\<lparr>m_boxes := map g (m_boxes r)\<rparr>)"
    and "active_ok (r\<lparr>m_boxes := map g (m_boxes r)\<rparr>) = active_ok r"
proof -
  let ?r = "r\<lparr>m_boxes := map g (m_boxes r)\<rparr>"
  have live: "live p ?r = live p r" for p by (simp add: live_def image_image g(1))
  have "currentBoxFor i ?r = currentBoxFor i r" for i
    using findById_map [of g, OF g(1,4)] by (simp add: currentBoxFor_def split: option.split)
  then show "active_ok ?r = active_ok r" by (simp add: active_ok_def)
  have "bx_ptr \<circ> g = bx_ptr" "world_key \<circ> g = world_key" using g(1,2) by auto
  then show "registry_core ?r"
    using assms(1) live one_primary_map [of g, OF g(3)] g(1,4) by (simp add: registry_core_def)
qed

lemma box_set_map: "box_set p f r = r\<lparr>m_boxes := map (\<lambda>b. if bx_ptr b = p then f b else b) (m_boxes r)\<rparr>"
  by (simp add: box_set_def update_where_def)

lemma box_set_inv: "registry_inv r \<Longrightarrow> keeps_identity f \<Longrightarrow> registry_inv (box_set p f r)"
  unfolding box_set_map registry_inv_def
  by (intro conjI registry_map(1) iffD2 [OF registry_map(2)]) (auto simp: keeps_identity_def)

lemma br_emit_fields [simp]:
  "m_boxes (br_emit e r) = m_boxes r" "m_characters (br_emit e r) = m_characters r"
  "m_activeCharacterId (br_emit e r) = m_activeCharacterId r" "br_next (br_emit e r) = br_next r"
  by (simp_all add: br_emit_def)

lemma findById_cong: "m_boxes s = m_boxes r \<Longrightarrow> findById i s = findById i r"
  by (simp add: findById_def)

lemma live_cong: "m_boxes s = m_boxes r \<Longrightarrow> live p s = live p r"
  by (simp add: live_def)

lemma currentBoxFor_cong:
  "m_boxes s = m_boxes r \<Longrightarrow> m_characters s = m_characters r \<Longrightarrow> currentBoxFor i s = currentBoxFor i r"
  using findById_cong [of s r i] by (simp add: currentBoxFor_def split: option.split)

lemma registry_core_cong:
  "m_boxes s = m_boxes r \<Longrightarrow> m_characters s = m_characters r \<Longrightarrow> br_next s = br_next r \<Longrightarrow>
   registry_core s = registry_core r"
  by (simp add: registry_core_def live_def)

lemma active_ok_cong:
  "m_boxes s = m_boxes r \<Longrightarrow> m_characters s = m_characters r \<Longrightarrow> m_activeCharacterId s = m_activeCharacterId r \<Longrightarrow>
   active_ok s = active_ok r"
  by (simp add: active_ok_def currentBoxFor_cong [of s r])

lemma br_emit_inv [simp]:
  "registry_core (br_emit e r) = registry_core r" "active_ok (br_emit e r) = active_ok r"
  "registry_inv (br_emit e r) = registry_inv r"
  by (simp_all add: registry_inv_def registry_core_cong [of "br_emit e r" r] active_ok_cong [of "br_emit e r" r])

lemma row_resolves: "registry_core r \<Longrightarrow> i \<in> c_id ` set (m_characters r) \<Longrightarrow> currentBoxFor i r \<noteq> None"
  using registry_coreD(6) [of r]
  by (auto simp: currentBoxFor_def find_None_iff split: option.splits dest!: find_Some_set)

lemma id_resolves: "registry_core r \<Longrightarrow> findById i r \<noteq> None \<Longrightarrow> currentBoxFor i r \<noteq> None"
  using row_resolves [of r i]
  by (cases "find (\<lambda>c. c_id c = i) (m_characters r)")
    (auto simp: currentBoxFor_def dest!: find_Some_set)

lemma resolves_iff:
  assumes "registry_core r"
  shows "currentBoxFor i r \<noteq> None \<longleftrightarrow> i \<in> c_id ` set (m_characters r) \<or> i \<in> box_id ` set (m_boxes r)"
proof -
  have "findById i r \<noteq> None \<longleftrightarrow> i \<in> box_id ` set (m_boxes r)" by (auto simp: findById_def find_None_iff)
  moreover have "currentBoxFor i r = findById i r" if "i \<notin> c_id ` set (m_characters r)"
    using that by (auto simp: currentBoxFor_def split: option.split dest!: find_Some_set)
  ultimately show ?thesis using row_resolves [OF assms] id_resolves [OF assms] by metis
qed

subsection \<open>Observing and activating\<close>

text \<open>The contract of the hook: it fills in the streams of a box and touches nothing else.\<close>

locale box_hook =
  fixes hook :: "(box \<Rightarrow> box) option"
  assumes hook_streams: "hook = Some h \<Longrightarrow> h b = b\<lparr>world_c2s := world_c2s (h b), world_s2c := world_s2c (h b),
    zone_c2s := zone_c2s (h b), zone_s2c := zone_s2c (h b)\<rparr>"
begin

definition hooked :: "box \<Rightarrow> box" where
  "hooked b = (case hook of None \<Rightarrow> b | Some h \<Rightarrow> h b)"

lemma hooked_fields:
  "bx_ptr (hooked b) = bx_ptr b" "world_key (hooked b) = world_key b" "is_primary (hooked b) = is_primary b"
  "box_id (hooked b) = box_id b" "display_name (hooked b) = display_name b" "last_seen_ms (hooked b) = last_seen_ms b"
  "zone_client_port (hooked b) = zone_client_port b" "bx_state (hooked b) = bx_state b"
  "packet_count (hooked b) = packet_count b" "client_ip (hooked b) = client_ip b"
proof -
  obtain w x y v where "hooked b = b\<lparr>world_c2s := w, world_s2c := x, zone_c2s := y, zone_s2c := v\<rparr>"
  proof (cases hook)
    case None
    then have "hooked b = b\<lparr>world_c2s := world_c2s b, world_s2c := world_s2c b, zone_c2s := zone_c2s b, zone_s2c := zone_s2c b\<rparr>"
      unfolding hooked_def by simp
    then show ?thesis by (rule that)
  next
    case (Some h)
    then have "hooked b = h b" unfolding hooked_def by simp
    with hook_streams [OF Some, of b] show ?thesis by (metis that)
  qed
  then show "bx_ptr (hooked b) = bx_ptr b" "world_key (hooked b) = world_key b" "is_primary (hooked b) = is_primary b"
    "box_id (hooked b) = box_id b" "display_name (hooked b) = display_name b" "last_seen_ms (hooked b) = last_seen_ms b"
    "zone_client_port (hooked b) = zone_client_port b" "bx_state (hooked b) = bx_state b"
    "packet_count (hooked b) = packet_count b" "client_ip (hooked b) = client_ip b"
    by (simp_all add: world_key_def)
qed

lemma observe_new:
  fixes sip :: u32 and now :: int
  assumes "lookupByWorld ip cport sport r = None"
  defines "b \<equiv> hooked (new_box ip sip cport sport now r)"
  shows "fst (observe hook ip sip cport sport now r) = br_next r"
    and "m_boxes (snd (observe hook ip sip cport sport now r)) = m_boxes r @ [b]"
    and "m_characters (snd (observe hook ip sip cport sport now r)) = m_characters r"
    and "br_next (snd (observe hook ip sip cport sport now r)) = Suc (br_next r)"
    and "m_activeCharacterId (snd (observe hook ip sip cport sport now r))
      = (if m_activeCharacterId r = [] then box_id b else m_activeCharacterId r)"
  using assms(1) by (simp_all add: observe_def b_def hooked_def new_box_def Let_def split: option.split)

end

lemma lookupByWorld_key: "lookupByWorld ip cport sport r = None \<longleftrightarrow> (ip, cport, sport) \<notin> world_key ` set (m_boxes r)"
  by (auto simp: lookupByWorld_def find_None_iff same_world_def world_key_def)

lemma one_primary_append: "bs \<noteq> [] \<Longrightarrow> one_primary (bs @ [b]) \<longleftrightarrow> one_primary bs \<and> \<not> is_primary b"
  by (cases bs) auto

context box_hook begin

lemma observe_inv:
  assumes "registry_inv r"
  shows "registry_inv (snd (observe hook ip sip cport sport now r))"
proof (cases "lookupByWorld ip cport sport r")
  case (Some p)
  then show ?thesis
    using box_set_inv [OF assms] by (simp add: observe_def keeps_identity_def world_key_def)
next
  case None
  let ?o = "snd (observe hook ip sip cport sport now r)" and ?b = "hooked (new_box ip sip cport sport now r)"
  note o = observe_new [OF None, of sip now]
  have core: "registry_core r" and act: "active_ok r" using assms by (simp_all add: registry_inv_def)
  have b: "bx_ptr ?b = br_next r" "world_key ?b = (ip, cport, sport)" "is_primary ?b = (m_boxes r = [])"
    "box_id ?b = placeholder_id ip cport sport"
    by (simp_all add: hooked_fields) (simp_all add: new_box_def world_key_def)
  have live: "live p r \<Longrightarrow> live p ?o" for p by (simp add: live_def o(2))
  have "distinct (map bx_ptr (m_boxes ?o))" using registry_coreD(1,2) [OF core] b(1) by (force simp: o(2))
  moreover have "distinct (map world_key (m_boxes ?o))"
    using registry_coreD(3) [OF core] None b(2) by (auto simp: o(2) lookupByWorld_key)
  moreover have "one_primary (m_boxes ?o)"
    using registry_coreD(4) [OF core] b(3) by (cases "m_boxes r = []") (simp_all add: o(2) one_primary_append)
  moreover have "\<forall>x \<in> set (m_boxes ?o). bx_ptr x < br_next ?o"
    using registry_coreD(2) [OF core] b(1) by (auto simp: o(2,4) less_SucI)
  ultimately have core': "registry_core ?o"
    using registry_coreD(5-7) [OF core] live b(4)
    by (fastforce simp: registry_core_def o(2,3) placeholder_id_def)
  have "active_ok ?o"
    using act resolves_iff [OF core] resolves_iff [OF core'] b(4)
    by (auto simp: active_ok_def o(2,3,5) placeholder_id_def split: if_splits)
  with core' show ?thesis by (simp add: registry_inv_def)
qed

end

lemma setActive_inv:
  assumes "registry_inv r"
  shows "registry_inv (snd (setActiveCharacterId i r))"
proof (cases "findById i r")
  case None
  then show ?thesis using assms by (simp add: setActiveCharacterId_def)
next
  case (Some t)
  let ?r = "r\<lparr>m_activeCharacterId := i\<rparr>"
  have core: "registry_core r" using assms by (simp add: registry_inv_def)
  then have core': "registry_core ?r" by (simp add: registry_core_cong [of ?r r])
  obtain b where "b \<in> set (m_boxes r)" "box_id b = i"
    using Some by (auto simp: findById_def dest: find_Some_set)
  then have "i \<noteq> []" "i \<in> box_id ` set (m_boxes r)" using registry_coreD(7) [OF core] by auto
  moreover from this(2) have "m_boxes r \<noteq> []" by auto
  ultimately have "active_ok ?r" using resolves_iff [OF core'] by (simp add: active_ok_def)
  with core' assms Some show ?thesis
    by (auto simp: setActiveCharacterId_def Let_def registry_inv_def)
qed

subsection \<open>Promotion\<close>

lemma upsert_loop_rows:
  assumes "live p r"
  shows "\<forall>c \<in> set cs. \<exists>q. c_session c = Some q \<and> live q r \<Longrightarrow>
    \<exists>cs'. upsert_loop r i name p cs = Inr cs' \<and> (\<forall>c \<in> set cs'. \<exists>q. c_session c = Some q \<and> live q r) \<and>
      map c_id cs' = (if i \<in> c_id ` set cs then map c_id cs else map c_id cs @ [i])"
proof (induction cs)
  case Nil
  then show ?case using assms by simp
next
  case (Cons c cs)
  obtain q where q: "c_session c = Some q" "live q r" using Cons.prems by auto
  show ?case
  proof (cases "c_id c = i")
    case True
    obtain new old where "box_at p r = Inr new" "box_at q r = Inr old"
      using assms q(2) by (auto simp: box_at_live)
    then show ?thesis using True q assms Cons.prems by (simp add: Let_def)
  next
    case False
    then show ?thesis using Cons.IH Cons.prems q by fastforce
  qed
qed

lemma upsert_core:
  assumes "registry_core r" "live p r"
  shows "\<exists>s. upsertCharacter i name p r = Inr s \<and> registry_core s \<and> m_boxes s = m_boxes r \<and>
    c_id ` set (m_characters s) = insert i (c_id ` set (m_characters r)) \<and>
    m_activeCharacterId s = m_activeCharacterId r \<and> br_next s = br_next r"
proof -
  from upsert_loop_rows [OF assms(2), of "m_characters r" i name] registry_coreD(6) [OF assms(1)]
  obtain cs' where cs: "upsert_loop r i name p (m_characters r) = Inr cs'"
    "\<forall>c \<in> set cs'. \<exists>q. c_session c = Some q \<and> live q r"
    "map c_id cs' = (if i \<in> c_id ` set (m_characters r) then map c_id (m_characters r) else map c_id (m_characters r) @ [i])"
    by blast
  let ?s = "r\<lparr>m_characters := cs'\<rparr>"
  have "live q ?s = live q r" for q by (rule live_cong) simp
  moreover have "distinct (map c_id cs')" using registry_coreD(5) [OF assms(1)] by (auto simp: cs(3))
  ultimately have "registry_core ?s" using assms(1) cs(2) by (simp add: registry_core_def)
  moreover have "c_id ` set cs' = insert i (c_id ` set (m_characters r))"
    using arg_cong [OF cs(3), of set] by (auto split: if_splits)
  ultimately show ?thesis using cs(1) by (simp add: upsertCharacter_def)
qed

lemma rename_box_id:
  assumes "x \<in> set (m_boxes (rename_box digest p name r))" "bx_ptr x = p"
  shows "box_id x = name_id digest name"
proof -
  have "\<exists>y \<in> set (m_boxes r). x = (if bx_ptr y = p then y\<lparr>display_name := name, box_id := name_id digest name\<rparr> else y)"
    using assms(1) by (simp add: rename_box_def box_set_def set_update_where)
  then obtain y where y: "x = (if bx_ptr y = p then y\<lparr>display_name := name, box_id := name_id digest name\<rparr> else y)"
    by blast
  show ?thesis
  proof (cases "bx_ptr y = p")
    case True
    with y show ?thesis by simp
  next
    case False
    with y assms(2) show ?thesis by simp
  qed
qed

lemma rename_core:
  assumes core: "registry_core r"
  shows "registry_core (rename_box digest p name r)" and "live q (rename_box digest p name r) = live q r"
proof -
  let ?f = "\<lambda>b. b\<lparr>display_name := name, box_id := name_id digest name\<rparr>"
  let ?t = "rename_box digest p name r"
  have t: "m_boxes ?t = update_where (\<lambda>b. bx_ptr b = p) ?f (m_boxes r)" "m_characters ?t = m_characters r"
    "br_next ?t = br_next r" by (simp_all add: rename_box_def box_set_def)
  have maps: "map bx_ptr (m_boxes ?t) = map bx_ptr (m_boxes r)" "map world_key (m_boxes ?t) = map world_key (m_boxes r)"
    by (simp_all add: t(1) map_update_where world_key_def)
  have live_t: "live q ?t = live q r" for q
    using arg_cong [OF maps(1), of set] by (simp add: live_def)
  then show "live q ?t = live q r" .
  have prim: "one_primary (m_boxes ?t) = one_primary (m_boxes r)"
    unfolding t(1) update_where_def by (rule one_primary_map) simp
  have ids: "box_id x \<noteq> []" if "x \<in> set (m_boxes ?t)" for x
    using that registry_coreD(7) [OF core] by (auto simp: t(1) set_update_where name_id_def split: if_splits)
  have ptrs: "bx_ptr x < br_next r" if "x \<in> set (m_boxes ?t)" for x
    using that registry_coreD(2) [OF core] by (auto simp: t(1) set_update_where)
  show "registry_core ?t"
    using core maps prim ids ptrs live_t by (simp add: registry_core_def t(2,3))
qed

text \<open>An id that led to a box still does after the box \<open>p\<close> was renamed and entered under its new
  id, unless it was the old id of \<open>p\<close>.\<close>

lemma renamed_resolves:
  assumes core: "registry_core r" and b: "b \<in> set (m_boxes r)" "bx_ptr b = p"
    and s: "m_boxes s = m_boxes (rename_box digest p name r)" "c_id ` set (m_characters r) \<subseteq> c_id ` set (m_characters s)"
    and a: "a \<in> c_id ` set (m_characters r) \<or> a \<in> box_id ` set (m_boxes r)" "a \<noteq> box_id b"
  shows "a \<in> c_id ` set (m_characters s) \<or> a \<in> box_id ` set (m_boxes s)"
proof (cases "a \<in> c_id ` set (m_characters r)")
  case False
  then obtain x where x: "x \<in> set (m_boxes r)" "box_id x = a" using a(1) by auto
  then have "x \<noteq> b" using a(2) by auto
  then have "bx_ptr x \<noteq> p"
    using registry_coreD(1) [OF core] x(1) b by (auto simp: distinct_map inj_on_def)
  then have "x \<in> set (m_boxes s)" using x(1) s(1) by (auto simp: rename_box_def box_set_def set_update_where)
  then have "box_id x \<in> box_id ` set (m_boxes s)" by (rule imageI)
  then show ?thesis unfolding x(2) by (rule disjI2)
qed (use s(2) in blast)

lemma promotion_inv:
  assumes inv: "registry_inv r" and p: "box_at p r = Inr b"
  shows "\<exists>s. onPromoted (Some p) (box_id b) (rename_box digest p name r) = Inr s \<and> registry_inv s \<and>
    name_id digest name \<in> c_id ` set (m_characters s) \<and> m_boxes s = m_boxes (rename_box digest p name r)"
proof -
  let ?i = "name_id digest name" and ?t = "rename_box digest p name r"
  have core: "registry_core r" and act: "active_ok r" using inv by (simp_all add: registry_inv_def)
  have t: "m_characters ?t = m_characters r" "m_activeCharacterId ?t = m_activeCharacterId r"
    by (simp_all add: rename_box_def box_set_def)
  have pb: "b \<in> set (m_boxes r)" "bx_ptr b = p" using box_at_Inr [OF p] by simp_all
  then have live_p: "live p ?t" unfolding rename_core(2) [OF core] by (auto simp: live_def)
  then obtain b' where b': "box_at p ?t = Inr b'" by (auto simp: box_at_live)
  have named: "box_id b' = ?i" by (rule rename_box_id) (use box_at_Inr [OF b'] in blast)+
  define u where "u = (if m_activeCharacterId ?t = box_id b then ?t\<lparr>m_activeCharacterId := ?i\<rparr> else ?t)"
  have u: "m_boxes u = m_boxes ?t" "m_characters u = m_characters ?t" "br_next u = br_next ?t"
    by (simp_all add: u_def)
  have "registry_core u" using rename_core(1) [OF core] registry_core_cong [OF u] by simp
  moreover have "live p u" using live_p live_cong [OF u(1)] by simp
  ultimately obtain s where s: "upsertCharacter ?i (display_name b') p u = Inr s" "registry_core s"
    "m_boxes s = m_boxes u" "c_id ` set (m_characters s) = insert ?i (c_id ` set (m_characters u))"
    "m_activeCharacterId s = m_activeCharacterId u" using upsert_core by blast
  have ne: "m_boxes r \<noteq> []" "m_boxes s \<noteq> []" using pb(1) s(3) u(1) by (auto simp: rename_box_def box_set_map)
  have old: "m_activeCharacterId r \<noteq> []"
    "m_activeCharacterId r \<in> c_id ` set (m_characters r) \<or> m_activeCharacterId r \<in> box_id ` set (m_boxes r)"
    using act ne(1) resolves_iff [OF core] by (simp_all add: active_ok_def)
  have "m_activeCharacterId s \<in> c_id ` set (m_characters s) \<or> m_activeCharacterId s \<in> box_id ` set (m_boxes s)"
  proof (cases "m_activeCharacterId r = box_id b")
    case True
    then show ?thesis using s(4,5) t(2) by (simp add: u_def)
  next
    case False
    then have "m_activeCharacterId s = m_activeCharacterId r" using s(5) t(2) by (simp add: u_def)
    then show ?thesis
      using renamed_resolves [OF core pb, of s digest name, OF _ _ old(2) False] s(3,4) u(1,2) t(1) by auto
  qed
  moreover have "m_activeCharacterId s \<noteq> []" using s(5) t(2) old(1) by (simp add: u_def name_id_def)
  ultimately have "active_ok s" using ne(2) resolves_iff [OF s(2)] by (simp add: active_ok_def)
  then have "registry_inv (br_emit BoxesChanged s)" using s(2) by (simp add: registry_inv_def)
  moreover have "onPromoted (Some p) (box_id b) ?t = Inr (br_emit BoxesChanged s)"
    using b' named s(1) unfolding onPromoted_def option.case Let_def u_def [symmetric]
    by (simp add: u_def split: if_splits)
  ultimately show ?thesis using s(3,4) u(1) by auto
qed

lemma set_active_row:
  assumes "registry_inv r" "i \<in> c_id ` set (m_characters r)" "i \<noteq> []" "m_boxes r \<noteq> []"
  shows "registry_inv (r\<lparr>m_activeCharacterId := i\<rparr>)"
proof -
  let ?s = "r\<lparr>m_activeCharacterId := i\<rparr>"
  have "registry_core ?s" using assms(1) registry_core_cong [of ?s r] by (simp add: registry_inv_def)
  with resolves_iff [OF this] show ?thesis using assms(2-4) by (simp add: registry_inv_def active_ok_def)
qed

lemma adopt_inv:
  assumes "registry_inv r" "i \<in> c_id ` set (m_characters r)" "i \<noteq> []" "m_boxes r \<noteq> []"
  shows "\<exists>s. adopt_active i r = Inr s \<and> registry_inv s \<and> m_boxes s = m_boxes r"
proof (cases "findById (m_activeCharacterId r) r")
  case None
  then show ?thesis using set_active_row [OF assms] by (simp add: adopt_active_def)
next
  case (Some a)
  then obtain b where "box_at a r = Inr b" using findById_live box_at_live by blast
  then show ?thesis using Some set_active_row [OF assms] assms(1) by (simp add: adopt_active_def)
qed

lemma reclassify_inv: "registry_inv r \<Longrightarrow> registry_inv (reclassify i r)"
  unfolding reclassify_def Let_def update_where_def registry_inv_def
  by (intro conjI registry_map(1) iffD2 [OF registry_map(2)]) (auto simp: world_key_def)

lemma promoteByName_inv:
  assumes "registry_inv r" "live p r"
  shows "\<exists>prior s. promoteByName digest (Some p) name r = Inr (prior, s) \<and> registry_inv s"
proof (cases "name = []")
  case True
  then show ?thesis using assms(1) by (simp add: promoteByName_def)
next
  case False
  obtain b where b: "box_at p r = Inr b" using assms(2) by (auto simp: box_at_live)
  show ?thesis
  proof (cases "display_name b = name")
    case True
    then show ?thesis using False b assms(1) by (simp add: promoteByName_def)
  next
    case new: False
    let ?i = "name_id digest name"
    define prior where "prior = lookupByName name (Some p) (rename_box digest p name r)"
    obtain s where s: "onPromoted (Some p) (box_id b) (rename_box digest p name r) = Inr s" "registry_inv s"
      "?i \<in> c_id ` set (m_characters s)" "m_boxes s = m_boxes (rename_box digest p name r)"
      using promotion_inv [OF assms(1) b] by blast
    have "m_boxes s \<noteq> []" using box_at_Inr [OF b] s(4) by (auto simp: rename_box_def box_set_map)
    then obtain u where u: "(if prior = None then adopt_active ?i s else Inr s) = Inr u" "registry_inv u"
      using adopt_inv [OF s(2,3)] s(2) by (cases "prior = None") (auto simp: name_id_def)
    let ?v = "if m_activeCharacterId u = ?i then br_emit (ActiveCharacterChanged None (Some p)) u else u"
    have "promoteByName digest (Some p) name r = Inr (prior, br_emit BoxesChanged (reclassify ?i ?v))"
      using False new b s(1) u(1) by (simp add: promoteByName_def Let_def prior_def [symmetric])
    moreover have "registry_inv ?v" using u(2) by simp
    ultimately show ?thesis using reclassify_inv by auto
  qed
qed

lemma np_inv:
  assumes "registry_inv r" "live p r" "np_onDecodedPacket digest p data len dir entry r = Inr s"
  shows "registry_inv s"
proof -
  obtain b where b: "box_at p r = Inr b" using assms(2) by (auto simp: box_at_live)
  show ?thesis
  proof (cases "s = r")
    case False
    then obtain name where "onPromoted (Some p) (box_id b) (rename_box digest p name r) = Inr s"
      using assms(3) unfolding np_onDecodedPacket_def b rbind.simps
      by (cases "name_slot kCharNameSlot data") (simp_all split: if_split_asm)
    then show ?thesis using promotion_inv [OF assms(1) b, of digest name] by simp
  qed (use assms(1) in simp)
qed

lemma zso_inv:
  "registry_inv r \<Longrightarrow> zso_onDecodedPacket p data len dir entry now r = Inr s \<Longrightarrow> registry_inv s"
  by (auto simp: zso_onDecodedPacket_def result_simps keeps_identity_def world_key_def box_set_inv split: if_splits)

subsection \<open>Eviction\<close>

definition reap :: "box \<Rightarrow> box" where
  "reap b = b\<lparr>bx_state := Reaped\<rparr>"

lemma reap_fold:
  "fold (\<lambda>v r. br_emit (BoxAboutToBeRemoved v) (box_set v (\<lambda>b. b\<lparr>bx_state := Reaped\<rparr>) r)) vs r
    = r\<lparr>m_boxes := map (\<lambda>b. if bx_ptr b \<in> set vs then reap b else b) (m_boxes r),
        br_out := br_out r @ map BoxAboutToBeRemoved vs\<rparr>"
proof (induction vs arbitrary: r)
  case (Cons v vs)
  show ?case
    unfolding fold_Cons comp_apply Cons.IH unfolding box_set_map br_emit_def
    by (rule box_registry.equality) (simp_all add: reap_def)
qed simp

lemma filter_reaped: "filter (\<lambda>b. bx_ptr b \<notin> V) (map (\<lambda>b. if bx_ptr b \<in> V then reap b else b) bs) = filter (\<lambda>b. bx_ptr b \<notin> V) bs"
  by (induction bs) (simp_all add: reap_def)

definition victims :: "int \<Rightarrow> int \<Rightarrow> box_registry \<Rightarrow> nat list" where
  "victims now ttl r =
     map bx_ptr (filter (evictable (currentBoxFor (m_activeCharacterId r) r) (now - ttl)) (m_boxes r))"

lemma evictStale_alt:
  assumes "0 < ttl"
  shows "evictStale now ttl r = (if victims now ttl r = [] then (0, r) else (length (victims now ttl r),
    br_emit BoxesChanged (r\<lparr>br_out := br_out r @ map BoxAboutToBeRemoved (victims now ttl r),
      m_boxes := filter (\<lambda>b. bx_ptr b \<notin> set (victims now ttl r)) (m_boxes r),
      m_characters := filter (\<lambda>c. \<forall>v \<in> set (victims now ttl r). c_session c \<noteq> Some v) (m_characters r)\<rparr>)))"
proof -
  have t: "(ttl \<le> 0) = False" using assms by simp
  show ?thesis
    unfolding evictStale_def t if_False Let_def victims_def [symmetric] reap_fold
    by (cases "victims now ttl r = []") (simp_all add: filter_reaped)
qed

lemma evictStale_result:
  assumes "0 < ttl"
  shows "fst (evictStale now ttl r) = length (victims now ttl r)"
    and "m_boxes (snd (evictStale now ttl r)) = filter (\<lambda>b. bx_ptr b \<notin> set (victims now ttl r)) (m_boxes r)"
    and "m_characters (snd (evictStale now ttl r))
      = filter (\<lambda>c. \<forall>v \<in> set (victims now ttl r). c_session c \<noteq> Some v) (m_characters r)"
    and "m_activeCharacterId (snd (evictStale now ttl r)) = m_activeCharacterId r"
    and "br_next (snd (evictStale now ttl r)) = br_next r"
  unfolding evictStale_alt [OF assms] by (cases "victims now ttl r = []"; simp)+

lemma victims_iff:
  assumes "registry_core r" "b \<in> set (m_boxes r)"
  shows "bx_ptr b \<in> set (victims now ttl r) \<longleftrightarrow>
    evictable (currentBoxFor (m_activeCharacterId r) r) (now - ttl) b"
  using registry_coreD(1) [OF assms(1)] assms(2) by (auto simp: victims_def distinct_map inj_on_def)

lemma evict_inv:
  assumes inv: "registry_inv r"
  shows "registry_inv (snd (evictStale now ttl r))"
proof (cases "0 < ttl")
  case False
  then show ?thesis using inv by (simp add: evictStale_def)
next
  case True
  let ?V = "set (victims now ttl r)" and ?s = "snd (evictStale now ttl r)" and ?a = "m_activeCharacterId r"
  note e = evictStale_result [OF True, where now = now and r = r]
  have core: "registry_core r" and act: "active_ok r" using inv by (simp_all add: registry_inv_def)
  note v = victims_iff [OF core, where now = now and ttl = ttl]
  have kept: "b \<in> set (m_boxes ?s) \<longleftrightarrow> b \<in> set (m_boxes r) \<and> bx_ptr b \<notin> ?V" for b by (simp add: e(2))
  have sess: "\<exists>p. c_session c = Some p \<and> live p ?s" if "c \<in> set (m_characters ?s)" for c
  proof -
    from that obtain p where p: "c_session c = Some p" "live p r" "p \<notin> ?V"
      using registry_coreD(6) [OF core] by (fastforce simp: e(3))
    then show ?thesis by (auto simp: live_def e(2))
  qed
  have prim: "one_primary (m_boxes ?s) \<and> (m_boxes r \<noteq> [] \<longrightarrow> m_boxes ?s \<noteq> [])"
  proof (cases "m_boxes r")
    case (Cons b bs)
    then have "is_primary b" "list_all (\<lambda>c. \<not> is_primary c) bs" using registry_coreD(4) [OF core] by simp_all
    moreover from this have "bx_ptr b \<notin> ?V" using v [of b] Cons by (simp add: evictable_def)
    ultimately show ?thesis by (simp add: e(2) Cons list_all_iff)
  qed (simp add: e(2))
  have core': "registry_core ?s"
    unfolding registry_core_def
    using registry_coreD(1,3,5) [OF core] registry_coreD(2,7) [OF core] sess prim
    by (auto simp: e(2,3,5) distinct_map_filter)
  have "active_ok ?s"
  proof (cases "m_boxes r = []")
    case True
    then show ?thesis using act by (simp add: active_ok_def e(2,4))
  next
    case False
    then have a: "?a \<noteq> []" "currentBoxFor ?a r \<noteq> None" using act by (simp_all add: active_ok_def)
    then obtain p where p: "currentBoxFor ?a r = Some p" by blast
    then have "live p r" using currentBoxFor_live [OF core] by blast
    then have pV: "p \<notin> ?V" using v p by (auto simp: live_def evictable_def)
    have "?a \<in> c_id ` set (m_characters ?s) \<or> ?a \<in> box_id ` set (m_boxes ?s)"
    proof (cases "find (\<lambda>c. c_id c = ?a) (m_characters r)")
      case (Some c)
      then have "c \<in> set (m_characters r)" "c_id c = ?a" "c_session c = Some p"
        using p by (auto simp: currentBoxFor_def dest: find_Some_set)
      then show ?thesis using pV by (force simp: e(3))
    next
      case None
      then obtain b where "find (\<lambda>b. box_id b = ?a) (m_boxes r) = Some b" "bx_ptr b = p"
        using p by (auto simp: currentBoxFor_def findById_def)
      then have "b \<in> set (m_boxes ?s)" "box_id b = ?a" using pV kept by (auto dest: find_Some_set)
      then show ?thesis by (metis imageI)
    qed
    then show ?thesis using resolves_iff [OF core'] a(1) prim False by (simp add: active_ok_def e(4))
  qed
  with core' show ?thesis by (simp add: registry_inv_def)
qed

section \<open>Every reachable registry\<close>

lemma zone_writes_inv:
  "registry_inv r \<Longrightarrow> registry_inv (bind_zone p cport sport r)" "registry_inv r \<Longrightarrow> registry_inv (stamp_zone p now r)"
  by (simp_all add: bind_zone_def stamp_zone_def box_set_inv keeps_identity_def world_key_def)

context box_hook begin

lemma registry_step_inv:
  assumes "registry_step hook digest r r'" "registry_inv r"
  shows "registry_inv r'"
  using assms(1)
proof (elim registry_stepE)
  fix p name prior
  assume "live p r" "promoteByName digest (Some p) name r = Inr (prior, r')"
  then show ?thesis using promoteByName_inv [OF assms(2), of p digest name] by simp
next
  fix p data len dir entry
  assume "live p r" "np_onDecodedPacket digest p data len dir entry r = Inr r'"
  then show ?thesis by (rule np_inv [OF assms(2)])
next
  fix p data len dir entry now
  assume "zso_onDecodedPacket p data len dir entry now r = Inr r'"
  then show ?thesis by (rule zso_inv [OF assms(2)])
qed (drule sym, simp only: observe_inv setActive_inv zone_writes_inv evict_inv assms(2))+

lemma registry_reachable_inv: "registry_reachable hook digest r \<Longrightarrow> registry_inv r"
  by (induction rule: registry_reachable.induct) (simp_all add: registry_inv_new registry_step_inv)

end

end
