(* ===== verification/EQPacket.thy ===== *)
theory EQPacket
  imports BoxRegistry PacketStream
begin

text \<open>
  \<open>EQPacket\<close> of \<open>src/packet.h\<close> and \<open>src/packet.cpp\<close>: the four global streams, the registry of
  clients with the streams of each, the routing of a datagram to a stream, and what is done with
  the signals a stream raises. The capture threads, the recorded files, the pcap filter strings
  and the log messages are left out; a filter that is installed is an event.

  A signal is handled when it is raised. The handlers below act on other objects than the stream
  that raises it, with one exception: the closing of the raising stream itself, which
  \<open>emit_closing\<close> performs on the spot. So the model lets the stream finish its datagram first
  and then handles its signals in the order in which they were raised.
\<close>

section \<open>State\<close>

datatype eq_event =
    EqNewPacket
  | EqClientChanged u32
  | EqClientPortLatched u16
  | EqSessionTrackingChanged bool
  | EqSetFilter bool u16
  | EqFilterChanged
  | EqUcsChat bytes nat u8 u32
  | EqPlaybackFinished

record eq_packet =
  q_streams :: "stream_ref \<Rightarrow> pstream option"
  q_boxes :: box_registry
  q_serverPort :: u16
  q_clientPort :: u16
  q_busy_decoding :: bool
  q_detectingClient :: bool
  q_client_addr :: u32
  q_session_tracking :: bool
  q_arqSeqGiveUp :: u16
  q_unboundZoneWarned :: "u64 list"
  q_out :: "eq_event list"

text \<open>What the object is configured with: \<open>ee_live\<close> is \<open>m_playbackPackets == PLAYBACK_OFF\<close>,
  \<open>ee_by_mac\<close> is \<open>m_mac.length() == 17\<close>.\<close>

record eq_env =
  ee_world :: opcode_db
  ee_zone :: opcode_db
  ee_zlib :: zlib
  ee_fuel :: nat
  ee_digest :: "string \<Rightarrow> bytes"
  ee_live :: bool
  ee_by_mac :: bool

definition kMaxUnboundZoneWarnings :: nat where "kMaxUnboundZoneWarnings = 4"

definition kZoneBindWindowMs :: int where "kZoneBindWindowMs = 15000"

definition eq_emit :: "eq_event \<Rightarrow> eq_packet \<Rightarrow> eq_packet" where
  "eq_emit e q = q\<lparr>q_out := q_out q @ [e]\<rparr>"

definition bool_u8 :: "bool \<Rightarrow> u8" where
  "bool_u8 b = (if b then 1 else 0)"

definition stream_dir :: "stream_id \<Rightarrow> u8" where
  "stream_dir i = (if i = client2world \<or> i = client2zone then DIR_Client else DIR_Server)"

definition four_streams :: "stream_id list" where
  "four_streams = [client2world, world2client, client2zone, zone2client]"

text \<open>The streams of a box that is not the primary one.\<close>

definition box_stream :: "bool \<Rightarrow> u16 \<Rightarrow> stream_id \<Rightarrow> pstream" where
  "box_stream tracking giveUp i = setSessionTracking (bool_u8 tracking) (mkPacketStream i (stream_dir i) giveUp)"

definition add_streams :: "bool \<Rightarrow> u16 \<Rightarrow> nat \<Rightarrow> (stream_ref \<Rightarrow> pstream option) \<Rightarrow> stream_ref \<Rightarrow> pstream option" where
  "add_streams tracking giveUp p m ref =
     (case ref of
        GlobalStream i \<Rightarrow> m ref
      | BoxStream p' i \<Rightarrow> if p' = p \<and> i \<in> set four_streams then Some (box_stream tracking giveUp i) else m ref)"

definition drop_streams :: "nat \<Rightarrow> (stream_ref \<Rightarrow> pstream option) \<Rightarrow> stream_ref \<Rightarrow> pstream option" where
  "drop_streams p m ref = (case ref of GlobalStream i \<Rightarrow> m ref | BoxStream p' i \<Rightarrow> if p' = p then None else m ref)"

definition on_globals :: "(pstream \<Rightarrow> pstream) \<Rightarrow> eq_packet \<Rightarrow> eq_packet" where
  "on_globals f q =
     q\<lparr>q_streams := (\<lambda>ref. case ref of GlobalStream i \<Rightarrow> map_option f (q_streams q ref) | BoxStream p i \<Rightarrow> q_streams q ref)\<rparr>"

definition stream_at :: "stream_ref \<Rightarrow> eq_packet \<Rightarrow> pstream res" where
  "stream_at ref q = (case q_streams q ref of None \<Rightarrow> Inl UseAfterFree | Some s \<Rightarrow> Inr s)"

section \<open>Settings\<close>

definition eq_session_tracking :: "bool \<Rightarrow> eq_packet \<Rightarrow> eq_packet" where
  "eq_session_tracking enable q =
     eq_emit (EqSessionTrackingChanged enable)
       (on_globals (setSessionTracking (bool_u8 enable)) (q\<lparr>q_session_tracking := enable\<rparr>))"

definition eq_setArqSeqGiveUp :: "u16 \<Rightarrow> eq_packet \<Rightarrow> eq_packet" where
  "eq_setArqSeqGiveUp giveUp q =
     (let q = (if 32 \<le> giveUp then q\<lparr>q_arqSeqGiveUp := giveUp\<rparr> else q);
          giveUp = (if 32 \<le> q_arqSeqGiveUp q then q_arqSeqGiveUp q else 32)
      in on_globals (ps_setArqSeqGiveUp giveUp) q)"

definition unlatchClientPort :: "eq_packet \<Rightarrow> eq_packet" where
  "unlatchClientPort q = (let q = q\<lparr>q_clientPort := 0, q_serverPort := 0\<rparr> in eq_emit (EqClientPortLatched (q_clientPort q)) q)"

definition resetEQPacket :: "eq_packet \<Rightarrow> eq_packet" where
  "resetEQPacket q =
     unlatchClientPort (on_globals (\<lambda>s. setSessionTracking (bool_u8 (q_session_tracking q)) (ps_reset s)) q)"

text \<open>The constructor: \<open>client_addr\<close> and \<open>detecting\<close> are what \<open>validateIP\<close> found.\<close>

definition mkEQPacket :: "u16 \<Rightarrow> bool \<Rightarrow> u32 \<Rightarrow> bool \<Rightarrow> eq_packet" where
  "mkEQPacket giveUp tracking client_addr detecting =
     eq_session_tracking tracking
       \<lparr>q_streams = (\<lambda>ref. case ref of
            GlobalStream i \<Rightarrow> if i \<in> set four_streams then Some (mkPacketStream i (stream_dir i) giveUp) else None
          | BoxStream p i \<Rightarrow> None),
        q_boxes = mkBoxRegistry, q_serverPort = 0, q_clientPort = 0, q_busy_decoding = False,
        q_detectingClient = detecting, q_client_addr = client_addr, q_session_tracking = tracking,
        q_arqSeqGiveUp = giveUp, q_unboundZoneWarned = [], q_out = []\<rparr>"

section \<open>What is done with a stream's signals\<close>

text \<open>The rest of \<open>closeStream\<close> once the raising stream has been closed on the spot.\<close>

definition close_globals :: "stream_id \<Rightarrow> u32 \<Rightarrow> stream_id \<Rightarrow> eq_packet \<Rightarrow> eq_packet" where
  "close_globals from sessionId streamId q =
     q\<lparr>q_streams := (\<lambda>ref. case ref of
          GlobalStream i \<Rightarrow>
            if i = from then q_streams q ref
            else map_option (ps_close sessionId streamId (bool_u8 (q_session_tracking q))) (q_streams q ref)
        | BoxStream p i \<Rightarrow> q_streams q ref)\<rparr>"

definition closeStream :: "eq_env \<Rightarrow> stream_id \<Rightarrow> u32 \<Rightarrow> stream_id \<Rightarrow> eq_packet \<Rightarrow> eq_packet" where
  "closeStream ee from sessionId streamId q =
     (let zone = (streamId = zone2client \<or> streamId = client2zone);
          q = (if zone \<and> ee_live ee then eq_emit EqFilterChanged (eq_emit (EqSetFilter False 0) q) else q);
          q = close_globals from sessionId streamId q
      in if zone then unlatchClientPort q else q)"

definition lockOnClient :: "eq_env \<Rightarrow> u16 \<Rightarrow> u16 \<Rightarrow> u32 \<Rightarrow> eq_packet \<Rightarrow> eq_packet" where
  "lockOnClient ee serverPort clientPort clientAddr q =
     (let q = q\<lparr>q_serverPort := serverPort, q_clientPort := clientPort, q_client_addr := clientAddr\<rparr>;
          q = (if ee_live ee
               then eq_emit EqFilterChanged (eq_emit (EqSetFilter (ee_by_mac ee) (q_clientPort q)) q) else q)
      in eq_emit (EqClientPortLatched (q_clientPort q)) q)"

definition dispatchSessionKey :: "u32 \<Rightarrow> stream_id \<Rightarrow> u32 \<Rightarrow> eq_packet \<Rightarrow> eq_packet" where
  "dispatchSessionKey sessionId streamid sessionKey q = on_globals (receiveSessionKey sessionId streamid sessionKey) q"

text \<open>The two directions of one session.\<close>

fun sibling :: "stream_id \<Rightarrow> stream_id" where
  "sibling client2world = world2client"
| "sibling world2client = client2world"
| "sibling client2zone = zone2client"
| "sibling zone2client = client2zone"
| "sibling unknown_stream = unknown_stream"

definition siblingSessionKey :: "nat \<Rightarrow> stream_id \<Rightarrow> u32 \<Rightarrow> stream_id \<Rightarrow> u32 \<Rightarrow> eq_packet \<Rightarrow> eq_packet" where
  "siblingSessionKey p i sessionId streamid sessionKey q =
     (let ref = BoxStream p (sibling i)
      in q\<lparr>q_streams := (q_streams q)(ref := map_option (receiveSessionKey sessionId streamid sessionKey) (q_streams q ref))\<rparr>)"

definition world_stream :: "stream_ref \<Rightarrow> bool" where
  "world_stream ref = (case ref of GlobalStream i \<Rightarrow> i = client2world \<or> i = world2client
                                 | BoxStream p i \<Rightarrow> i = client2world \<or> i = world2client)"

definition ref_db :: "eq_env \<Rightarrow> stream_ref \<Rightarrow> opcode_db" where
  "ref_db ee ref = (if world_stream ref then ee_world ee else ee_zone ee)"

text \<open>\<open>NamePromoter\<close> listens to a box's \<open>world_c2s\<close>, \<open>ZoneServerObserver\<close> to its \<open>world_s2c\<close>.\<close>

definition observers ::
  "eq_env \<Rightarrow> int \<Rightarrow> stream_ref \<Rightarrow> bytes \<Rightarrow> nat \<Rightarrow> u8 \<Rightarrow> nat option \<Rightarrow> eq_packet \<Rightarrow> eq_packet res" where
  "observers ee now ref data len dir entry q =
     rbind (case entry of None \<Rightarrow> Inr None
                        | Some a \<Rightarrow> rbind (deref (ref_db ee ref) a) (\<lambda>p. Inr (Some (m_name p)))) (\<lambda>name.
     case find (\<lambda>b. world_c2s b = Some ref) (m_boxes (q_boxes q)) of
       Some b \<Rightarrow>
         rbind (np_onDecodedPacket (ee_digest ee) (bx_ptr b) data len dir name (q_boxes q)) (\<lambda>r. Inr (q\<lparr>q_boxes := r\<rparr>))
     | None \<Rightarrow>
         (case find (\<lambda>b. world_s2c b = Some ref) (m_boxes (q_boxes q)) of
            Some b \<Rightarrow> rbind (zso_onDecodedPacket (bx_ptr b) data len dir name now (q_boxes q)) (\<lambda>r. Inr (q\<lparr>q_boxes := r\<rparr>))
          | None \<Rightarrow> Inr q))"

definition on_signal :: "eq_env \<Rightarrow> int \<Rightarrow> stream_ref \<Rightarrow> event \<Rightarrow> eq_packet \<Rightarrow> eq_packet res" where
  "on_signal ee now ref ev q =
     (case ev of
        EvDecoded data len dir op entry \<Rightarrow> observers ee now ref data len dir entry q
      | EvClosing sid i \<Rightarrow>
          Inr (case ref of GlobalStream j \<Rightarrow> closeStream ee j sid i q | BoxStream p j \<Rightarrow> q)
      | EvSessionKey sid i key \<Rightarrow>
          Inr (case ref of GlobalStream j \<Rightarrow> dispatchSessionKey sid i key q
                         | BoxStream p j \<Rightarrow> siblingSessionKey p j sid i key q)
      | EvLockOnClient sport cport ip \<Rightarrow>
          Inr (case ref of GlobalStream j \<Rightarrow> lockOnClient ee sport cport ip q | BoxStream p j \<Rightarrow> q)
      | _ \<Rightarrow> Inr q)"

definition ref_env :: "eq_env \<Rightarrow> eq_packet \<Rightarrow> stream_ref \<Rightarrow> stream_env" where
  "ref_env ee q ref =
     \<lparr>env_db = ref_db ee ref, env_zlib = ee_zlib ee,
      env_closing = (case ref of GlobalStream i \<Rightarrow> Some (bool_u8 (q_session_tracking q)) | BoxStream p i \<Rightarrow> None),
      env_fuel = ee_fuel ee\<rparr>"

text \<open>A datagram is handed to a stream, and the stream's new signals to their receivers.\<close>

definition feed :: "eq_env \<Rightarrow> int \<Rightarrow> stream_ref \<Rightarrow> udp_packet \<Rightarrow> eq_packet \<Rightarrow> eq_packet res" where
  "feed ee now ref u q =
     rbind (stream_at ref q) (\<lambda>s.
     rbind (handlePacket (ref_env ee q ref) u s) (\<lambda>t.
     run_ops (on_signal ee now ref) (drop (length (ps_out s)) (ps_out t)) (q\<lparr>q_streams := (q_streams q)(ref \<mapsto> t)\<rparr>)))"

section \<open>Clients on the wire\<close>

text \<open>The \<open>BoxCreatedHook\<close>: what it writes into the box, and the streams it makes.\<close>

definition install_streams :: "box \<Rightarrow> box" where
  "install_streams b =
     (let ref = (if is_primary b then GlobalStream else BoxStream (bx_ptr b))
      in b\<lparr>world_c2s := Some (ref client2world), world_s2c := Some (ref world2client),
           zone_c2s := Some (ref client2zone), zone_s2c := Some (ref zone2client)\<rparr>)"

definition observe_client :: "u32 \<Rightarrow> u32 \<Rightarrow> u16 \<Rightarrow> u16 \<Rightarrow> int \<Rightarrow> eq_packet \<Rightarrow> eq_packet" where
  "observe_client ip sip cport sport now q =
     (let r = q_boxes q; (p, r') = observe (Some install_streams) ip sip cport sport now r;
          q = q\<lparr>q_boxes := r'\<rparr>
      in if lookupByWorld ip cport sport r = None \<and> m_boxes r \<noteq> []
         then q\<lparr>q_streams := add_streams (q_session_tracking q) (q_arqSeqGiveUp q) p (q_streams q)\<rparr> else q)"

definition onBoxAboutToBeRemoved :: "box_registry \<Rightarrow> nat \<Rightarrow> eq_packet \<Rightarrow> eq_packet" where
  "onBoxAboutToBeRemoved r p q =
     (case box_find p r of
        None \<Rightarrow> q
      | Some b \<Rightarrow> if is_primary b then q else q\<lparr>q_streams := drop_streams p (q_streams q)\<rparr>)"

text \<open>The periodic sweep: the registry announces each victim while it still holds it.\<close>

definition removed_boxes :: "box_event list \<Rightarrow> nat list" where
  "removed_boxes evs = concat (map (\<lambda>e. case e of BoxAboutToBeRemoved p \<Rightarrow> [p] | _ \<Rightarrow> []) evs)"

definition sweep :: "int \<Rightarrow> int \<Rightarrow> eq_packet \<Rightarrow> eq_packet" where
  "sweep now ttl q =
     (let r = q_boxes q; r' = snd (evictStale now ttl r);
          gone = removed_boxes (drop (length (br_out r)) (br_out r'))
      in fold (onBoxAboutToBeRemoved r) gone (q\<lparr>q_boxes := r'\<rparr>))"

section \<open>Routing\<close>

definition world_port :: "u16 \<Rightarrow> bool" where
  "world_port p \<longleftrightarrow> WorldServerGeneralMinPort \<le> p \<and> p \<le> WorldServerGeneralMaxPort"

definition login_port :: "u16 \<Rightarrow> bool" where
  "login_port p \<longleftrightarrow> LoginServerMinPort \<le> p \<and> p \<le> LoginServerMaxPort"

text \<open>The client's and the server's end of a datagram, in network order.\<close>

definition client_end :: "bool \<Rightarrow> udp_packet \<Rightarrow> (u32 \<times> u16) res" where
  "client_end srcIsServer u =
     (if srcIsServer then rbind (getIPv4DestN u) (\<lambda>ip. rbind (getDestPort u) (\<lambda>p. Inr (ip, ntohs p)))
      else rbind (getIPv4SourceN u) (\<lambda>ip. rbind (getSourcePort u) (\<lambda>p. Inr (ip, ntohs p))))"

definition server_end :: "bool \<Rightarrow> udp_packet \<Rightarrow> (u32 \<times> u16) res" where
  "server_end srcIsServer u = client_end (\<not> srcIsServer) u"

definition observe_world :: "int \<Rightarrow> udp_packet \<Rightarrow> u16 \<Rightarrow> u16 \<Rightarrow> eq_packet \<Rightarrow> eq_packet res" where
  "observe_world now u sport dport q =
     (if world_port sport \<or> world_port dport then
        rbind (client_end (world_port sport) u) (\<lambda>(cip, cp).
        rbind (server_end (world_port sport) u) (\<lambda>(sip, sp).
        Inr (observe_client cip sip cp sp now q)))
      else Inr q)"

definition detect_client :: "udp_packet \<Rightarrow> u16 \<Rightarrow> u16 \<Rightarrow> eq_packet \<Rightarrow> eq_packet res" where
  "detect_client u sport dport q =
     (if q_detectingClient q \<and> (world_port sport \<or> world_port dport) then
        rbind (client_end (world_port sport) u) (\<lambda>(ip, p).
        Inr (eq_emit (EqClientChanged ip) (q\<lparr>q_client_addr := ip, q_detectingClient := False\<rparr>)))
      else Inr q)"

definition decodeUCSPacket :: "udp_packet \<Rightarrow> eq_packet \<Rightarrow> eq_packet res" where
  "decodeUCSPacket u q =
     (if m_rawpayloadSize u < 12 then Inr q
      else
        rbind (getIPv4SourceN u) (\<lambda>sip.
        let dir = (if sip = q_client_addr q then DIR_Client else DIR_Server) in
        rbind (if dir = DIR_Server then getIPv4DestN u else getIPv4SourceN u) (\<lambda>addr.
        Inr (eq_emit (EqUcsChat (m_rawpayload u) (unat (m_rawpayloadSize u)) dir addr) q))))"

definition world_packet :: "eq_env \<Rightarrow> int \<Rightarrow> udp_packet \<Rightarrow> u16 \<Rightarrow> eq_packet \<Rightarrow> eq_packet res" where
  "world_packet ee now u sport q =
     (let srcIsServer = world_port sport in
      rbind (client_end srcIsServer u) (\<lambda>(cip, cp).
      rbind (server_end srcIsServer u) (\<lambda>(sip, sp).
      case lookupByWorld cip cp sp (q_boxes q) of
        None \<Rightarrow> Inr q
      | Some p \<Rightarrow>
          rbind (box_at p (q_boxes q)) (\<lambda>b.
          case (if srcIsServer then world_s2c b else world_c2s b) of
            None \<Rightarrow> Inr q
          | Some ref \<Rightarrow> feed ee now ref u q))))"

text \<open>\<open>pickBox\<close>: the box a zone packet belongs to, whether its source is the client, and the
  registry in which an unbound session has been bound.\<close>

definition pickBox :: "u32 \<Rightarrow> u32 \<Rightarrow> u16 \<Rightarrow> u16 \<Rightarrow> u16 \<Rightarrow> int \<Rightarrow> box_registry \<Rightarrow> (nat \<times> bool \<times> box_registry) option" where
  "pickBox src_ip dst_ip src_port dst_port netOp now r =
     (case lookupBoundZone src_ip src_port dst_port r of
        Some p \<Rightarrow> Some (p, True, r)
      | None \<Rightarrow>
     (case lookupBoundZone dst_ip dst_port src_port r of
        Some p \<Rightarrow> Some (p, False, r)
      | None \<Rightarrow>
     (case lookupByExpectedZone src_ip dst_ip dst_port r of
        Some p \<Rightarrow> Some (p, True, bind_zone p src_port dst_port r)
      | None \<Rightarrow>
     (case lookupByExpectedZone dst_ip src_ip src_port r of
        Some p \<Rightarrow> Some (p, False, bind_zone p dst_port src_port r)
      | None \<Rightarrow>
          if netOp = OP_SessionRequest \<and> hasClient src_ip r then
            (case lookupByRecentWorld src_ip dst_ip now kZoneBindWindowMs r of
               Some p \<Rightarrow> Some (p, True, bind_zone p src_port dst_port r)
             | None \<Rightarrow> None)
          else None))))"

definition tuple_key :: "u32 \<Rightarrow> u32 \<Rightarrow> u16 \<Rightarrow> u16 \<Rightarrow> u64" where
  "tuple_key src_ip dst_ip src_port dst_port =
     ((push_bit 32 (ucast src_ip) XOR push_bit 16 (ucast dst_ip)) XOR push_bit 16 (ucast src_port)) XOR ucast dst_port"

definition unmatched_zone :: "eq_env \<Rightarrow> int \<Rightarrow> udp_packet \<Rightarrow> u32 \<Rightarrow> u32 \<Rightarrow> u16 \<Rightarrow> u16 \<Rightarrow> eq_packet \<Rightarrow> eq_packet res" where
  "unmatched_zone ee now u src_ip dst_ip src_port dst_port q =
     (let r = q_boxes q; key = tuple_key src_ip dst_ip src_port dst_port;
          peer_ip = (if hasClient src_ip r then dst_ip else src_ip)
      in if length (m_boxes r) \<le> 1 then
           feed ee now (GlobalStream (if src_ip = q_client_addr q then client2zone else zone2client)) u q
         else if \<not> hasClient src_ip r \<and> \<not> hasClient dst_ip r then Inr q
         else if \<not> looksLikeZoneServer peer_ip r then Inr q
         else if length (q_unboundZoneWarned q) < kMaxUnboundZoneWarnings \<and> key \<notin> set (q_unboundZoneWarned q)
         then Inr (q\<lparr>q_unboundZoneWarned := key # q_unboundZoneWarned q\<rparr>)
         else Inr q)"

definition zone_routed :: "eq_env \<Rightarrow> int \<Rightarrow> udp_packet \<Rightarrow> u32 \<Rightarrow> u32 \<Rightarrow> u16 \<Rightarrow> u16 \<Rightarrow> eq_packet \<Rightarrow> eq_packet res" where
  "zone_routed ee now u src_ip dst_ip src_port dst_port q =
     (case pickBox src_ip dst_ip src_port dst_port (m_netOp (u_base u)) now (q_boxes q) of
        None \<Rightarrow> unmatched_zone ee now u src_ip dst_ip src_port dst_port q
      | Some (p, srcIsClient, r) \<Rightarrow>
          let q = q\<lparr>q_boxes := r\<rparr> in
          rbind (box_at p r) (\<lambda>b.
          case (zone_c2s b, zone_s2c b) of
            (Some c2s, Some s2c) \<Rightarrow>
              feed ee now (if srcIsClient then c2s else s2c) u (q\<lparr>q_boxes := stamp_zone p now r\<rparr>)
          | _ \<Rightarrow> unmatched_zone ee now u src_ip dst_ip src_port dst_port q))"

definition zone_packet :: "eq_env \<Rightarrow> int \<Rightarrow> udp_packet \<Rightarrow> eq_packet \<Rightarrow> eq_packet res" where
  "zone_packet ee now u q =
     rbind (client_end False u) (\<lambda>(src_ip, src_port).
     rbind (client_end True u) (\<lambda>(dst_ip, dst_port). zone_routed ee now u src_ip dst_ip src_port dst_port q))"

definition route :: "eq_env \<Rightarrow> int \<Rightarrow> udp_packet \<Rightarrow> u16 \<Rightarrow> u16 \<Rightarrow> eq_packet \<Rightarrow> eq_packet res" where
  "route ee now u sport dport q =
     (if dport = ChatServerPort \<or> sport = ChatServerPort then Inr q
      else if dport = WorldServerChatPort \<or> sport = WorldServerChatPort then Inr q
      else if dport = WorldServerChat2Port \<or> sport = WorldServerChat2Port then Inr q
      else if dport = WorldServerUCSPort \<or> sport = WorldServerUCSPort then decodeUCSPacket u q
      else if login_port dport \<or> login_port sport then Inr q
      else if world_port dport \<or> world_port sport then world_packet ee now u sport q
      else zone_packet ee now u q)"

definition dispatchPacket :: "eq_env \<Rightarrow> int \<Rightarrow> udp_packet \<Rightarrow> eq_packet \<Rightarrow> eq_packet res" where
  "dispatchPacket ee now u q =
     rbind (getSourcePort u) (\<lambda>sport. rbind (getDestPort u) (\<lambda>dport.
     rbind (observe_world now u sport dport q) (\<lambda>q.
     rbind (detect_client u sport dport q) (\<lambda>q.
     route ee now u sport dport q))))"

text \<open>\<open>dispatchPacket(int size, unsigned char *buffer)\<close>\<close>

definition dispatch_bytes :: "eq_env \<Rightarrow> int \<Rightarrow> u32 \<Rightarrow> bytes \<Rightarrow> eq_packet \<Rightarrow> eq_packet res" where
  "dispatch_bytes ee now len buffer q =
     rbind (mkUDP buffer len False) (\<lambda>u. rbind (dispatchPacket ee now u q) (\<lambda>q. Inr (eq_emit EqNewPacket q)))"

text \<open>The loop of \<open>processPackets\<close> over the frames the capture returns: the time at which each is
  dispatched, its size and the buffer. \<open>finished\<close> is \<open>offlinePlaybackComplete\<close> for a capture file.\<close>

definition ether_header_len :: nat where "ether_header_len = 14"

fun frames_loop :: "eq_env \<Rightarrow> (int \<times> u32 \<times> bytes) list \<Rightarrow> eq_packet \<Rightarrow> eq_packet res" where
  "frames_loop ee [] q = Inr q"
| "frames_loop ee ((now, n, buffer) # fs) q =
     rbind (dispatch_bytes ee now (n - of_nat ether_header_len) (drop ether_header_len buffer) q) (frames_loop ee fs)"

definition processPackets :: "eq_env \<Rightarrow> bool \<Rightarrow> (int \<times> u32 \<times> bytes) list \<Rightarrow> eq_packet \<Rightarrow> eq_packet res" where
  "processPackets ee finished fs q =
     (if q_busy_decoding q then Inr q
      else rbind (frames_loop ee fs (q\<lparr>q_busy_decoding := True\<rparr>)) (\<lambda>q.
        let q = q\<lparr>q_busy_decoding := False\<rparr>
        in Inr (if finished then eq_emit EqPlaybackFinished q else q)))"

section \<open>Handing the sessions over to a new process\<close>

definition HANDOFF_MAGIC :: u32 where "HANDOFF_MAGIC = 0x45514853"

definition HANDOFF_VERSION :: u32 where "HANDOFF_VERSION = 1"

text \<open>The layout of \<open>StreamHandoff\<close> in the file: 40 bytes, the padding zero.\<close>

definition le64_bytes :: "u64 \<Rightarrow> bytes" where
  "le64_bytes w = le32_bytes (ucast w) @ le32_bytes (ucast (drop_bit 32 w))"

definition eqtohuint64 :: "bytes \<Rightarrow> u64 res" where
  "eqtohuint64 p = rbind (eqtohuint32 p) (\<lambda>lo. rbind (eqtohuint32 (drop 4 p)) (\<lambda>hi.
     Inr (push_bit 32 (ucast hi) OR ucast lo)))"

definition handoff_bytes :: "stream_handoff \<Rightarrow> bytes" where
  "handoff_bytes h =
     le32_bytes (h_sessionId h) @ le32_bytes (h_sessionKey h) @ le32_bytes (h_clientIP h) @
     le16_bytes (h_clientPort h) @ [0, 0] @ le32_bytes (h_maxLength h) @ le16_bytes (h_arqSeqExp h) @ [0, 0] @
     le64_bytes (h_decodeKey h) @ [h_validKey h, 0, 0, 0, 0, 0, 0, 0]"

definition handoff_read :: "bytes \<Rightarrow> stream_handoff res" where
  "handoff_read p =
     rbind (eqtohuint32 p) (\<lambda>sid. rbind (eqtohuint32 (drop 4 p)) (\<lambda>key. rbind (eqtohuint32 (drop 8 p)) (\<lambda>ip.
     rbind (eqtohuint16 (drop 12 p)) (\<lambda>port. rbind (eqtohuint32 (drop 16 p)) (\<lambda>ml. rbind (eqtohuint16 (drop 20 p)) (\<lambda>seq.
     rbind (eqtohuint64 (drop 24 p)) (\<lambda>dk. rbind (rd p 32) (\<lambda>v.
     Inr \<lparr>h_sessionId = sid, h_sessionKey = key, h_clientIP = ip, h_clientPort = port, h_maxLength = ml,
          h_arqSeqExp = seq, h_decodeKey = dk, h_validKey = v\<rparr>))))))))"

definition handoff_size :: nat where "handoff_size = 168"

text \<open>\<open>exportHandoffState\<close>: the bytes of the file.\<close>

definition exportHandoffState :: "eq_packet \<Rightarrow> bytes res" where
  "exportHandoffState q =
     rbind (stream_at (GlobalStream client2world) q) (\<lambda>a. rbind (stream_at (GlobalStream world2client) q) (\<lambda>b.
     rbind (stream_at (GlobalStream client2zone) q) (\<lambda>c. rbind (stream_at (GlobalStream zone2client) q) (\<lambda>d.
     Inr (le32_bytes HANDOFF_MAGIC @ le32_bytes HANDOFF_VERSION @
          concat (map (\<lambda>s. handoff_bytes (exportState s)) [a, b, c, d]))))))"

definition import_stream :: "stream_id \<Rightarrow> bytes \<Rightarrow> eq_packet \<Rightarrow> eq_packet res" where
  "import_stream i p q =
     rbind (stream_at (GlobalStream i) q) (\<lambda>s. rbind (handoff_read p) (\<lambda>h.
       Inr (q\<lparr>q_streams := (q_streams q)(GlobalStream i \<mapsto> importState h s)\<rparr>)))"

text \<open>\<open>importHandoffState\<close>: \<open>file\<close> is the content of the file, if there is one that opens. The file
  is removed in every case where it opens.\<close>

definition importHandoffState :: "bytes option \<Rightarrow> eq_packet \<Rightarrow> (bool \<times> eq_packet) res" where
  "importHandoffState file q =
     (case file of
        None \<Rightarrow> Inr (False, q)
      | Some f \<Rightarrow>
          if length f < handoff_size then Inr (False, q)
          else
            rbind (eqtohuint32 f) (\<lambda>magic. rbind (eqtohuint32 (drop 4 f)) (\<lambda>version.
            if magic \<noteq> HANDOFF_MAGIC \<or> version \<noteq> HANDOFF_VERSION then Inr (False, q)
            else
              rbind (import_stream client2world (drop 8 f) q) (\<lambda>q.
              rbind (import_stream world2client (drop 48 f) q) (\<lambda>q.
              rbind (import_stream client2zone (drop 88 f) q) (\<lambda>q.
              rbind (import_stream zone2client (drop 128 f) q) (\<lambda>q. Inr (True, q))))))))"

end
