(* ===== verification/EQRouting.thy ===== *)
theory EQRouting
  imports EQPacket
begin

text \<open>
  What the routing of \<open>EQPacket\<close> keeps apart: a datagram that belongs to one client never touches
  the streams of another, the registry only ever changes by the operations of \<open>BoxRegistry\<close>, and
  every box stays wired to streams that exist.
\<close>

section \<open>The hook\<close>

lemma install_streams_fields [simp]:
  "bx_ptr (install_streams b) = bx_ptr b" "is_primary (install_streams b) = is_primary b"
  by (simp_all add: install_streams_def Let_def)

interpretation eq_hook: box_hook "Some install_streams"
  by unfold_locales (auto simp: install_streams_def Let_def)

abbreviation registry_steps :: "(string \<Rightarrow> bytes) \<Rightarrow> box_registry \<Rightarrow> box_registry \<Rightarrow> bool" where
  "registry_steps digest \<equiv> (registry_step (Some install_streams) digest)\<^sup>*\<^sup>*"

lemma registry_steps_inv: "registry_steps digest r r' \<Longrightarrow> registry_inv r \<Longrightarrow> registry_inv r'"
  by (induction rule: rtranclp_induct) (use eq_hook.registry_step_inv in blast)+

section \<open>What a stream's signals can change\<close>

text \<open>The streams that hear the signals of \<open>ref\<close>: the four global ones share a session handler, a
  stream of another box reaches only the opposite direction of its own session.\<close>

fun same_session :: "stream_ref \<Rightarrow> stream_ref \<Rightarrow> bool" where
  "same_session (GlobalStream i) (GlobalStream j) = True"
| "same_session (BoxStream p i) (BoxStream p' j) = (p = p' \<and> (j = i \<or> j = sibling i))"
| "same_session _ _ = False"

lemma same_session_refl [simp]: "same_session ref ref"
  by (cases ref) simp_all

definition wiring :: "box \<Rightarrow> nat \<times> bool \<times> stream_ref option \<times> stream_ref option \<times> stream_ref option \<times> stream_ref option" where
  "wiring b = (bx_ptr b, is_primary b, world_c2s b, world_s2c b, zone_c2s b, zone_s2c b)"

definition touches_only :: "(string \<Rightarrow> bytes) \<Rightarrow> stream_ref \<Rightarrow> eq_packet \<Rightarrow> eq_packet \<Rightarrow> bool" where
  "touches_only digest ref q q' \<longleftrightarrow>
     (\<forall>x. same_session ref x \<or> q_streams q' x = q_streams q x) \<and>
     (\<forall>x. (q_streams q' x = None) = (q_streams q x = None)) \<and>
     map wiring (m_boxes (q_boxes q')) = map wiring (m_boxes (q_boxes q)) \<and>
     registry_steps digest (q_boxes q) (q_boxes q') \<and> q_unboundZoneWarned q' = q_unboundZoneWarned q"

lemma touches_only_refl: "touches_only digest ref q q"
  by (simp add: touches_only_def)

lemma touches_only_trans: "touches_only digest ref q q' \<Longrightarrow> touches_only digest ref q' q'' \<Longrightarrow> touches_only digest ref q q''"
  unfolding touches_only_def by (elim conjE, intro conjI) (metis, metis, metis, rule rtranclp_trans, assumption+, metis)

lemma touches_only_registry:
  assumes "map wiring (m_boxes r) = map wiring (m_boxes (q_boxes q))" "registry_step (Some install_streams) digest (q_boxes q) r"
  shows "touches_only digest ref q (q\<lparr>q_boxes := r\<rparr>)"
  using assms by (simp add: touches_only_def r_into_rtranclp)

lemma touches_only_streams:
  assumes "q_boxes q' = q_boxes q" "q_unboundZoneWarned q' = q_unboundZoneWarned q"
    "\<And>x. same_session ref x \<or> q_streams q' x = q_streams q x" "\<And>x. (q_streams q' x = None) = (q_streams q x = None)"
  shows "touches_only digest ref q q'"
  using assms by (simp add: touches_only_def)

lemma box_set_wiring: "(\<And>b. wiring (f b) = wiring b) \<Longrightarrow> map wiring (m_boxes (box_set p f r)) = map wiring (m_boxes r)"
  by (simp add: box_set_def map_update_where)

lemma upsert_boxes: "upsertCharacter i name p r = Inr s \<Longrightarrow> m_boxes s = m_boxes r"
  by (auto simp: upsertCharacter_def result_simps)

lemma onPromoted_boxes: "onPromoted bx old r = Inr s \<Longrightarrow> m_boxes s = m_boxes r"
  by (auto simp: onPromoted_def Let_def result_simps split: option.splits if_splits dest!: upsert_boxes)

lemma np_wiring: "np_onDecodedPacket digest p data len dir entry r = Inr s \<Longrightarrow> map wiring (m_boxes s) = map wiring (m_boxes r)"
proof -
  assume np: "np_onDecodedPacket digest p data len dir entry r = Inr s"
  show ?thesis
  proof (cases "s = r")
    case False
    then obtain old name where "onPromoted (Some p) old (rename_box digest p name r) = Inr s"
      using np unfolding np_onDecodedPacket_def
      by (cases "box_at p r"; cases "name_slot kCharNameSlot data") (simp_all split: if_split_asm)
    then show ?thesis
      by (auto simp: rename_box_def wiring_def box_set_wiring dest: onPromoted_boxes)
  qed simp
qed

lemma zso_wiring: "zso_onDecodedPacket p data len dir entry now r = Inr s \<Longrightarrow> map wiring (m_boxes s) = map wiring (m_boxes r)"
  by (auto simp: zso_onDecodedPacket_def result_simps box_set_wiring wiring_def split: if_splits)

lemma zone_writes_wiring:
  "map wiring (m_boxes (bind_zone p cport sport r)) = map wiring (m_boxes r)"
  "map wiring (m_boxes (stamp_zone p now r)) = map wiring (m_boxes r)"
  by (simp_all add: bind_zone_def stamp_zone_def box_set_wiring wiring_def)

lemma observers_touch:
  assumes "observers ee now ref data len dir entry q = Inr q'"
  shows "touches_only (ee_digest ee) ref q q'"
proof -
  obtain name where "(case find (\<lambda>b. world_c2s b = Some ref) (m_boxes (q_boxes q)) of
       Some b \<Rightarrow>
         rbind (np_onDecodedPacket (ee_digest ee) (bx_ptr b) data len dir name (q_boxes q)) (\<lambda>r. Inr (q\<lparr>q_boxes := r\<rparr>))
     | None \<Rightarrow>
         (case find (\<lambda>b. world_s2c b = Some ref) (m_boxes (q_boxes q)) of
            Some b \<Rightarrow> rbind (zso_onDecodedPacket (bx_ptr b) data len dir name now (q_boxes q)) (\<lambda>r. Inr (q\<lparr>q_boxes := r\<rparr>))
          | None \<Rightarrow> Inr q)) = Inr q'"
    using assms unfolding observers_def by (elim rbind_InrE)
  then consider "q' = q"
    | b r where "find (\<lambda>b. world_c2s b = Some ref) (m_boxes (q_boxes q)) = Some b" "q' = q\<lparr>q_boxes := r\<rparr>"
        "np_onDecodedPacket (ee_digest ee) (bx_ptr b) data len dir name (q_boxes q) = Inr r"
    | b r where "find (\<lambda>b. world_s2c b = Some ref) (m_boxes (q_boxes q)) = Some b" "q' = q\<lparr>q_boxes := r\<rparr>"
        "zso_onDecodedPacket (bx_ptr b) data len dir name now (q_boxes q) = Inr r"
    by (auto simp: result_simps split: option.splits)
  then show ?thesis
  proof cases
    case 1
    then show ?thesis by (simp add: touches_only_refl)
  next
    case (2 b r)
    then show ?thesis
      using touches_only_registry [OF np_wiring [OF 2(3)] registry_step.entered [OF live_find [OF 2(1)] 2(3)]] by simp
  next
    case (3 b r)
    then show ?thesis
      using touches_only_registry [OF zso_wiring [OF 3(3)] registry_step.announced [OF live_find [OF 3(1)] 3(3)]] by simp
  qed
qed

lemma on_globals_touch:
  "q_boxes (on_globals f q) = q_boxes q" "q_unboundZoneWarned (on_globals f q) = q_unboundZoneWarned q"
  "same_session (GlobalStream j) x \<or> q_streams (on_globals f q) x = q_streams q x"
  "(q_streams (on_globals f q) x = None) = (q_streams q x = None)"
  by (cases x; simp add: on_globals_def)+

lemma close_globals_touch:
  "q_boxes (close_globals j sid i q) = q_boxes q" "q_unboundZoneWarned (close_globals j sid i q) = q_unboundZoneWarned q"
  "same_session (GlobalStream k) x \<or> q_streams (close_globals j sid i q) x = q_streams q x"
  "(q_streams (close_globals j sid i q) x = None) = (q_streams q x = None)"
  by (cases x; simp add: close_globals_def)+

lemma eq_emit_fields [simp]:
  "q_streams (eq_emit e q) = q_streams q" "q_boxes (eq_emit e q) = q_boxes q"
  "q_unboundZoneWarned (eq_emit e q) = q_unboundZoneWarned q" "q_client_addr (eq_emit e q) = q_client_addr q"
  by (simp_all add: eq_emit_def)

lemma unlatch_fields [simp]:
  "q_streams (unlatchClientPort q) = q_streams q" "q_boxes (unlatchClientPort q) = q_boxes q"
  "q_unboundZoneWarned (unlatchClientPort q) = q_unboundZoneWarned q"
  by (simp_all add: unlatchClientPort_def Let_def)

lemma emit_touch [simp]:
  "touches_only digest ref q (eq_emit e q') = touches_only digest ref q q'"
  "touches_only digest ref q (unlatchClientPort q') = touches_only digest ref q q'"
  by (simp_all add: touches_only_def)

lemma closeStream_touch: "touches_only digest (GlobalStream k) q (closeStream ee j sid i q)"
proof -
  have close: "touches_only digest (GlobalStream k) q' (close_globals j sid i q')" for q'
    by (rule touches_only_streams) (rule close_globals_touch)+
  let ?q = "eq_emit EqFilterChanged (eq_emit (EqSetFilter False 0) q)"
  have "touches_only digest (GlobalStream k) q ?q" by (simp add: touches_only_refl)
  from touches_only_trans [OF this close] show ?thesis
    using close [of q] by (auto simp: closeStream_def Let_def)
qed

lemma lockOnClient_touch: "touches_only digest ref q (lockOnClient ee sport cport ip q)"
  by (rule touches_only_streams) (simp_all add: lockOnClient_def Let_def)

lemma dispatchSessionKey_touch: "touches_only digest (GlobalStream k) q (dispatchSessionKey sid i key q)"
  unfolding dispatchSessionKey_def by (rule touches_only_streams) (rule on_globals_touch)+

lemma siblingSessionKey_touch: "touches_only digest (BoxStream p j) q (siblingSessionKey p j sid i key q)"
proof (rule touches_only_streams)
  fix x
  show "same_session (BoxStream p j) x \<or> q_streams (siblingSessionKey p j sid i key q) x = q_streams q x"
    by (cases x) (auto simp: siblingSessionKey_def Let_def)
qed (simp_all add: siblingSessionKey_def Let_def)

lemma on_signal_touch: "on_signal ee now ref ev q = Inr q' \<Longrightarrow> touches_only (ee_digest ee) ref q q'"
  by (cases ev; cases ref) (auto simp: on_signal_def touches_only_refl closeStream_touch lockOnClient_touch
      dispatchSessionKey_touch siblingSessionKey_touch dest: observers_touch)

interpretation signals: invariant_machine "on_signal ee now ref" "touches_only (ee_digest ee) ref q0" for ee now ref q0
  by unfold_locales (use on_signal_touch touches_only_trans in blast)

lemma feed_touch:
  assumes "feed ee now ref u q = Inr q'"
  shows "touches_only (ee_digest ee) ref q q'"
proof -
  obtain s t where s: "stream_at ref q = Inr s" "handlePacket (ref_env ee q ref) u s = Inr t"
    and run: "run_ops (on_signal ee now ref) (drop (length (ps_out s)) (ps_out t)) (q\<lparr>q_streams := (q_streams q)(ref \<mapsto> t)\<rparr>) = Inr q'"
    using assms by (auto simp: feed_def result_simps)
  have "q_streams q ref \<noteq> None" using s(1) by (simp add: stream_at_def split: option.splits)
  then have "touches_only (ee_digest ee) ref q (q\<lparr>q_streams := (q_streams q)(ref \<mapsto> t)\<rparr>)"
    by (intro touches_only_streams) (auto split: if_splits)
  from signals.run_keeps [OF this run] show ?thesis .
qed

section \<open>The invariant\<close>

definition box_streams_ok :: "eq_packet \<Rightarrow> bool" where
  "box_streams_ok q \<longleftrightarrow>
     (\<forall>b \<in> set (m_boxes (q_boxes q)). install_streams b = b) \<and>
     (\<forall>i. q_streams q (GlobalStream i) = None \<longleftrightarrow> i = unknown_stream) \<and>
     (\<forall>p i. q_streams q (BoxStream p i) \<noteq> None \<longleftrightarrow>
        i \<noteq> unknown_stream \<and> (p, False) \<in> (\<lambda>b. (bx_ptr b, is_primary b)) ` set (m_boxes (q_boxes q)))"

definition eq_inv :: "(string \<Rightarrow> bytes) \<Rightarrow> eq_packet \<Rightarrow> bool" where
  "eq_inv digest q \<longleftrightarrow> registry_reachable (Some install_streams) digest (q_boxes q) \<and> box_streams_ok q \<and>
     length (q_unboundZoneWarned q) \<le> kMaxUnboundZoneWarnings"

lemma registry_steps_reachable:
  "registry_steps digest r r' \<Longrightarrow> registry_reachable (Some install_streams) digest r \<Longrightarrow>
   registry_reachable (Some install_streams) digest r'"
  by (induction rule: rtranclp_induct) (use registry_reachable.step in blast)+

lemma eq_inv_registry: "eq_inv digest q \<Longrightarrow> registry_inv (q_boxes q)"
  unfolding eq_inv_def by (elim conjE) (rule eq_hook.registry_reachable_inv)

lemma install_wiring: "install_streams b = b \<longleftrightarrow>
  wiring b = (bx_ptr b, is_primary b, world_c2s (install_streams b), world_s2c (install_streams b),
    zone_c2s (install_streams b), zone_s2c (install_streams b))"
  by (cases b) (auto simp: install_streams_def Let_def wiring_def)

text \<open>All that matters of a box here is its wiring.\<close>

definition wired_ok :: "nat \<times> bool \<times> stream_ref option \<times> stream_ref option \<times> stream_ref option \<times> stream_ref option \<Rightarrow> bool" where
  "wired_ok w = (case w of (p, prim, a, b, c, d) \<Rightarrow>
     let ref = (if prim then GlobalStream else BoxStream p)
     in a = Some (ref client2world) \<and> b = Some (ref world2client) \<and> c = Some (ref client2zone) \<and> d = Some (ref zone2client))"

lemma install_wired: "install_streams b = b \<longleftrightarrow> wired_ok (wiring b)"
  unfolding install_wiring by (auto simp: install_streams_def Let_def wiring_def wired_ok_def)

lemma box_streams_ok_wiring:
  "box_streams_ok q \<longleftrightarrow>
     (\<forall>w \<in> set (map wiring (m_boxes (q_boxes q))). wired_ok w) \<and>
     (\<forall>i. q_streams q (GlobalStream i) = None \<longleftrightarrow> i = unknown_stream) \<and>
     (\<forall>p i. q_streams q (BoxStream p i) \<noteq> None \<longleftrightarrow>
        i \<noteq> unknown_stream \<and> (p, False) \<in> (\<lambda>w. (fst w, fst (snd w))) ` set (map wiring (m_boxes (q_boxes q))))"
proof -
  have "(\<lambda>w. (fst w, fst (snd w))) ` set (map wiring bs) = (\<lambda>b. (bx_ptr b, is_primary b)) ` set bs" for bs
    by (simp add: image_image wiring_def)
  then show ?thesis unfolding box_streams_ok_def install_wired by simp
qed

lemma touches_only_inv:
  assumes "touches_only digest ref q q'" "eq_inv digest q"
  shows "eq_inv digest q'"
proof -
  have w: "map wiring (m_boxes (q_boxes q')) = map wiring (m_boxes (q_boxes q))"
    and n: "\<And>x. (q_streams q' x = None) = (q_streams q x = None)"
    and st: "registry_steps digest (q_boxes q) (q_boxes q')" and u: "q_unboundZoneWarned q' = q_unboundZoneWarned q"
    using assms(1) by (simp_all add: touches_only_def)
  have "box_streams_ok q' = box_streams_ok q" unfolding box_streams_ok_wiring w n ..
  with assms(2) registry_steps_reachable [OF st] u show ?thesis by (simp add: eq_inv_def)
qed

subsection \<open>Observing and sweeping\<close>

lemma four_streams_iff [simp]: "i \<in> set four_streams \<longleftrightarrow> i \<noteq> unknown_stream"
  by (cases i) (simp_all add: four_streams_def)

lemma reachable_step: "eq_inv digest q \<Longrightarrow> registry_step (Some install_streams) digest (q_boxes q) r \<Longrightarrow>
  registry_reachable (Some install_streams) digest r"
  unfolding eq_inv_def using registry_reachable.step by blast

lemma eq_inv_boxes:
  assumes "eq_inv digest q" "registry_step (Some install_streams) digest (q_boxes q) r"
    "map wiring (m_boxes r) = map wiring (m_boxes (q_boxes q))"
  shows "eq_inv digest (q\<lparr>q_boxes := r\<rparr>)"
  using touches_only_inv [OF touches_only_registry [OF assms(3,2)] assms(1)] .

lemma observe_client_inv:
  assumes inv: "eq_inv digest q"
  shows "eq_inv digest (observe_client ip sip cport sport now q)"
proof (cases "lookupByWorld ip cport sport (q_boxes q)")
  case (Some p)
  let ?r = "snd (observe (Some install_streams) ip sip cport sport now (q_boxes q))"
  have "observe_client ip sip cport sport now q = q\<lparr>q_boxes := ?r\<rparr>"
    using Some by (simp add: observe_client_def Let_def split: prod.split)
  moreover have "map wiring (m_boxes ?r) = map wiring (m_boxes (q_boxes q))"
    using Some by (simp add: observe_def box_set_wiring wiring_def)
  ultimately show ?thesis using eq_inv_boxes [OF inv registry_step.observed [OF refl]] by simp
next
  case None
  let ?r = "q_boxes q" and ?o = "observe (Some install_streams) ip sip cport sport now (q_boxes q)"
  define n where "n = new_box ip sip cport sport now ?r"
  have n: "bx_ptr n = br_next ?r" "is_primary n = (m_boxes ?r = [])" by (simp_all add: n_def new_box_def)
  have o: "fst ?o = br_next ?r" "m_boxes (snd ?o) = m_boxes ?r @ [install_streams n]"
    using eq_hook.observe_new [OF None, of sip now] by (simp_all add: eq_hook.hooked_def n_def)
  have q': "observe_client ip sip cport sport now q = q\<lparr>q_boxes := snd ?o, q_streams := (if m_boxes ?r \<noteq> []
      then add_streams (q_session_tracking q) (q_arqSeqGiveUp q) (br_next ?r) (q_streams q) else q_streams q)\<rparr>"
    using None o(1) by (cases ?o) (simp add: observe_client_def Let_def)
  have ok: "box_streams_ok q" and u: "length (q_unboundZoneWarned q) \<le> kMaxUnboundZoneWarnings"
    using inv by (simp_all add: eq_inv_def)
  have idem: "install_streams (install_streams n) = install_streams n" by (simp add: install_streams_def Let_def)
  have "box_streams_ok (observe_client ip sip cport sport now q)"
    using ok n idem unfolding box_streams_ok_def q'
    by (cases "m_boxes ?r = []") (auto simp: o(2) add_streams_def)
  then show ?thesis
    using reachable_step [OF inv registry_step.observed [OF refl]] u by (simp add: eq_inv_def q')
qed

lemma removed_emits: "removed_boxes (map BoxAboutToBeRemoved vs @ evs) = vs @ removed_boxes evs"
  by (induction vs) (simp_all add: removed_boxes_def)

lemma sweep_gone:
  "removed_boxes (drop (length (br_out r)) (br_out (snd (evictStale now ttl r)))) = (if 0 < ttl then victims now ttl r else [])"
proof (cases "0 < ttl")
  case True
  then show ?thesis
    unfolding evictStale_alt [OF True] by (simp add: br_emit_def removed_emits) (simp add: removed_boxes_def)
qed (simp add: evictStale_def removed_boxes_def)

lemma sweep_streams:
  assumes "\<And>p. p \<in> set vs \<Longrightarrow> \<exists>b. box_find p r = Some b \<and> \<not> is_primary b"
  shows "fold (onBoxAboutToBeRemoved r) vs q = q\<lparr>q_streams := fold drop_streams vs (q_streams q)\<rparr>"
  using assms
proof (induction vs arbitrary: q)
  case (Cons v vs)
  then obtain b where "box_find v r = Some b" "\<not> is_primary b" by fastforce
  then show ?case using Cons by (simp add: onBoxAboutToBeRemoved_def)
qed simp

lemma fold_drop_streams:
  "fold drop_streams vs m ref = (case ref of GlobalStream i \<Rightarrow> m ref | BoxStream p i \<Rightarrow> if p \<in> set vs then None else m ref)"
  by (induction vs arbitrary: m) (auto simp: drop_streams_def split: stream_ref.split)

lemma sweep_inv:
  assumes inv: "eq_inv digest q"
  shows "eq_inv digest (sweep now ttl q)"
proof (cases "0 < ttl")
  case False
  then show ?thesis using inv by (simp add: sweep_def Let_def sweep_gone) (simp add: evictStale_def)
next
  case True
  let ?r = "q_boxes q" and ?V = "set (victims now ttl (q_boxes q))"
  have core: "registry_core ?r" using eq_inv_registry [OF inv] by (simp add: registry_inv_def)
  have victim: "\<exists>b. box_find p ?r = Some b \<and> \<not> is_primary b" if p: "p \<in> ?V" for p
  proof -
    obtain b where b: "b \<in> set (m_boxes ?r)" "bx_ptr b = p" using p by (auto simp: victims_def)
    then have "\<not> is_primary b" using victims_iff [OF core b(1)] p by (simp add: evictable_def)
    moreover obtain c where c: "box_find p ?r = Some c" using b box_find_none [of p ?r] by (auto simp: live_def)
    then have "c \<in> set (m_boxes ?r)" "bx_ptr c = p" by (auto simp: box_find_def dest: find_Some_set)
    then have "c = b" using b registry_coreD(1) [OF core] by (auto simp: distinct_map inj_on_def)
    ultimately show ?thesis using c by simp
  qed
  have sw: "sweep now ttl q = q\<lparr>q_boxes := snd (evictStale now ttl ?r), q_streams := fold drop_streams (victims now ttl ?r) (q_streams q)\<rparr>"
    using True sweep_streams [OF victim] by (simp add: sweep_def Let_def sweep_gone)
  have ok: "box_streams_ok q" and u: "length (q_unboundZoneWarned q) \<le> kMaxUnboundZoneWarnings"
    using inv by (simp_all add: eq_inv_def)
  have "box_streams_ok (sweep now ttl q)"
    using ok unfolding box_streams_ok_def sw
    by (auto simp: evictStale_result(2) [OF True] fold_drop_streams image_iff)
  then show ?thesis
    using reachable_step [OF inv registry_step.evicted [OF refl]] u by (simp add: eq_inv_def sw)
qed

subsection \<open>Routing\<close>

lemma best_box_set: "best_box ok t bs best = Some b \<Longrightarrow> (b \<in> set bs \<and> ok b) \<or> best = Some b"
  by (induction bs arbitrary: best) (fastforce split: if_splits option.splits)+

lemma zone_lookups_live:
  "lookupBoundZone ip cp sp r = Some p \<Longrightarrow> live p r" "lookupByExpectedZone ip sip sp r = Some p \<Longrightarrow> live p r"
  "lookupByRecentWorld ip sip now w r = Some p \<Longrightarrow> live p r"
  by (auto simp: lookupBoundZone_def lookupByExpectedZone_def lookupByRecentWorld_def live_def
      dest!: best_box_set dest: find_Some_set)

text \<open>The possible outcomes of \<open>pickBox\<close>.\<close>

lemma pickBox_cases:
  assumes "pickBox src_ip dst_ip src_port dst_port netOp now r = Some (p, c, r')"
  shows "live p r \<and> (r' = r \<or> (\<exists>cp sp. r' = bind_zone p cp sp r))"
proof -
  have "r' = r \<or> (\<exists>cp sp. r' = bind_zone p cp sp r)"
    using assms unfolding pickBox_def by (simp split: option.split_asm if_split_asm) blast+
  moreover have "live p r"
    using assms zone_lookups_live unfolding pickBox_def by (simp split: option.split_asm if_split_asm)
  ultimately show ?thesis by blast
qed

lemma pickBox_inv:
  assumes "pickBox src_ip dst_ip src_port dst_port netOp now (q_boxes q) = Some (p, c, r)" "eq_inv digest q"
  shows "eq_inv digest (q\<lparr>q_boxes := r\<rparr>)"
proof -
  from pickBox_cases [OF assms(1)] consider "r = q_boxes q" | cp sp where "live p (q_boxes q)" "r = bind_zone p cp sp (q_boxes q)"
    by blast
  then show ?thesis
  proof cases
    case (2 cp sp)
    then show ?thesis using eq_inv_boxes [OF assms(2) registry_step.bound [OF 2(1) refl] zone_writes_wiring(1)] by simp
  qed (use assms(2) in simp)
qed

lemma bind_zone_live [simp]: "live p (bind_zone p' cp sp r) = live p r"
proof -
  have "bx_ptr ` set (m_boxes (bind_zone p' cp sp r)) = fst ` set (map wiring (m_boxes (bind_zone p' cp sp r)))"
    by (simp add: image_image wiring_def)
  then show ?thesis by (simp only: live_def zone_writes_wiring) (simp add: image_image wiring_def)
qed

lemma feed_inv: "feed ee now ref u q = Inr q' \<Longrightarrow> eq_inv (ee_digest ee) q \<Longrightarrow> eq_inv (ee_digest ee) q'"
  using feed_touch touches_only_inv by blast

lemma warned_inv:
  "eq_inv digest q \<Longrightarrow> length (q_unboundZoneWarned q) < kMaxUnboundZoneWarnings \<Longrightarrow>
   eq_inv digest (q\<lparr>q_unboundZoneWarned := key # q_unboundZoneWarned q\<rparr>)"
  by (simp add: eq_inv_def box_streams_ok_def)

lemma unmatched_zone_inv:
  "unmatched_zone ee now u a b c d q = Inr q' \<Longrightarrow> eq_inv (ee_digest ee) q \<Longrightarrow> eq_inv (ee_digest ee) q'"
  by (auto simp: unmatched_zone_def Let_def split: if_splits dest: feed_inv warned_inv)

lemma zone_routed_inv:
  assumes "zone_routed ee now u sip dip sp dp q = Inr q'" "eq_inv (ee_digest ee) q"
  shows "eq_inv (ee_digest ee) q'"
proof (cases "pickBox sip dip sp dp (m_netOp (u_base u)) now (q_boxes q)")
  case None
  then show ?thesis using assms unmatched_zone_inv by (simp add: zone_routed_def)
next
  case (Some x)
  obtain p c r where x: "x = (p, c, r)" by (cases x)
  then have pick: "pickBox sip dip sp dp (m_netOp (u_base u)) now (q_boxes q) = Some (p, c, r)" using Some by simp
  have inv: "eq_inv (ee_digest ee) (q\<lparr>q_boxes := r\<rparr>)" by (rule pickBox_inv [OF pick assms(2)])
  have "live p r" using pickBox_cases [OF pick] by auto
  then have inv': "eq_inv (ee_digest ee) (q\<lparr>q_boxes := stamp_zone p now r\<rparr>)"
    using eq_inv_boxes [OF inv registry_step.stamped [OF _ refl] zone_writes_wiring(2)] by simp
  obtain b where b: "box_at p r = Inr b" using \<open>live p r\<close> by (auto simp: box_at_live)
  have run: "(case (zone_c2s b, zone_s2c b) of (Some c2s, Some s2c) \<Rightarrow>
        feed ee now (if c then c2s else s2c) u (q\<lparr>q_boxes := stamp_zone p now r\<rparr>)
      | _ \<Rightarrow> unmatched_zone ee now u sip dip sp dp (q\<lparr>q_boxes := r\<rparr>)) = Inr q'"
    using assms(1) pick b by (simp add: zone_routed_def Let_def cong: option.case_cong)
  show ?thesis
    by (cases "zone_c2s b"; cases "zone_s2c b")
      (use run feed_inv [OF _ inv'] unmatched_zone_inv [OF _ inv] in simp_all)
qed

lemma zone_packet_inv:
  assumes "zone_packet ee now u q = Inr q'" "eq_inv (ee_digest ee) q"
  shows "eq_inv (ee_digest ee) q'"
  using assms(1) unfolding zone_packet_def
  by (elim rbind_InrE) (auto split: prod.split_asm elim!: rbind_InrE intro: zone_routed_inv [OF _ assms(2)])

lemma world_packet_inv: "world_packet ee now u sport q = Inr q' \<Longrightarrow> eq_inv (ee_digest ee) q \<Longrightarrow> eq_inv (ee_digest ee) q'"
  by (auto simp: world_packet_def Let_def result_simps split: option.splits prod.splits dest: feed_inv)

lemma route_inv: "route ee now u sport dport q = Inr q' \<Longrightarrow> eq_inv (ee_digest ee) q \<Longrightarrow> eq_inv (ee_digest ee) q'"
proof -
  assume r: "route ee now u sport dport q = Inr q'" and inv: "eq_inv (ee_digest ee) q"
  have ucs: "eq_inv (ee_digest ee) q'" if "decodeUCSPacket u q = Inr q'"
  proof -
    have "q_streams q' = q_streams q \<and> q_boxes q' = q_boxes q \<and> q_unboundZoneWarned q' = q_unboundZoneWarned q"
      using that by (auto simp: decodeUCSPacket_def Let_def result_simps split: if_splits)
    then show ?thesis using inv by (simp add: eq_inv_def box_streams_ok_def)
  qed
  show ?thesis
    using r inv ucs unfolding route_def
    by (simp split: if_split_asm) (rule world_packet_inv zone_packet_inv; assumption)+
qed

lemma eq_inv_cong:
  "q_streams q' = q_streams q \<Longrightarrow> q_boxes q' = q_boxes q \<Longrightarrow> q_unboundZoneWarned q' = q_unboundZoneWarned q \<Longrightarrow>
   eq_inv digest q' = eq_inv digest q"
  by (simp add: eq_inv_def box_streams_ok_def)

lemma detect_client_inv: "detect_client u sport dport q = Inr q' \<Longrightarrow> eq_inv digest q' = eq_inv digest q"
  by (rule eq_inv_cong) (auto simp: detect_client_def result_simps split: if_splits)

lemma observe_world_inv: "observe_world now u sport dport q = Inr q' \<Longrightarrow> eq_inv digest q \<Longrightarrow> eq_inv digest q'"
  by (auto simp: observe_world_def result_simps observe_client_inv split: if_splits)

lemma dispatchPacket_inv:
  assumes "dispatchPacket ee now u q = Inr q'" "eq_inv (ee_digest ee) q"
  shows "eq_inv (ee_digest ee) q'"
  using assms(1) unfolding dispatchPacket_def
  by (elim rbind_InrE) (metis assms(2) route_inv detect_client_inv observe_world_inv)

section \<open>The steps\<close>

inductive eq_step :: "eq_env \<Rightarrow> eq_packet \<Rightarrow> eq_packet \<Rightarrow> bool" for ee where
    arrived: "dispatch_bytes ee now n buffer q = Inr q' \<Longrightarrow> eq_step ee q q'"
  | swept: "sweep now ttl q = q' \<Longrightarrow> eq_step ee q q'"
  | tracked: "eq_session_tracking enable q = q' \<Longrightarrow> eq_step ee q q'"
  | limited: "eq_setArqSeqGiveUp giveUp q = q' \<Longrightarrow> eq_step ee q q'"
  | cleared: "resetEQPacket q = q' \<Longrightarrow> eq_step ee q q'"
  | resumed: "importHandoffState file q = Inr (ok, q') \<Longrightarrow> eq_step ee q q'"
  | picked: "setActiveCharacterId i (q_boxes q) = (ok, r) \<Longrightarrow> eq_step ee q (q\<lparr>q_boxes := r\<rparr>)"
  | named: "live p (q_boxes q) \<Longrightarrow> promoteByName (ee_digest ee) (Some p) name (q_boxes q) = Inr (prior, r) \<Longrightarrow>
      eq_step ee q (q\<lparr>q_boxes := r\<rparr>)"

inductive eq_reachable :: "eq_env \<Rightarrow> eq_packet \<Rightarrow> bool" for ee where
    start: "eq_reachable ee (mkEQPacket giveUp tracking client_addr detecting)"
  | step: "eq_reachable ee q \<Longrightarrow> eq_step ee q q' \<Longrightarrow> eq_reachable ee q'"

inductive_cases eq_stepE: "eq_step ee q q'"

lemma eq_inv_present:
  assumes "\<And>x. (q_streams q' x = None) = (q_streams q x = None)" "q_boxes q' = q_boxes q"
    "q_unboundZoneWarned q' = q_unboundZoneWarned q"
  shows "eq_inv digest q' = eq_inv digest q"
  unfolding eq_inv_def box_streams_ok_def assms ..

lemma on_globals_inv [simp]: "eq_inv digest (on_globals f q) = eq_inv digest q"
  by (rule eq_inv_present) (simp_all only: on_globals_touch(1,2,4))

lemma eq_emit_inv [simp]: "eq_inv digest (eq_emit e q) = eq_inv digest q" "eq_inv digest (unlatchClientPort q) = eq_inv digest q"
  by (rule eq_inv_present; simp)+

lemma tracking_inv [simp]: "eq_inv digest (eq_session_tracking enable q) = eq_inv digest q"
proof -
  have "eq_inv digest (q\<lparr>q_session_tracking := enable\<rparr>) = eq_inv digest q" by (rule eq_inv_present) simp_all
  then show ?thesis by (simp add: eq_session_tracking_def)
qed

lemma giveUp_inv [simp]: "eq_inv digest (eq_setArqSeqGiveUp giveUp q) = eq_inv digest q"
proof -
  have "eq_inv digest (q\<lparr>q_arqSeqGiveUp := giveUp\<rparr>) = eq_inv digest q" by (rule eq_inv_present) simp_all
  then show ?thesis by (simp add: eq_setArqSeqGiveUp_def Let_def)
qed

lemma reset_inv [simp]: "eq_inv digest (resetEQPacket q) = eq_inv digest q"
  by (simp add: resetEQPacket_def)

lemma import_stream_inv: "import_stream i p q = Inr q' \<Longrightarrow> eq_inv digest q' = eq_inv digest q"
  by (rule eq_inv_present) (auto simp: import_stream_def result_simps stream_at_def split: option.splits if_split_asm)

lemma importHandoff_inv: "importHandoffState file q = Inr (ok, q') \<Longrightarrow> eq_inv digest q \<Longrightarrow> eq_inv digest q'"
  by (auto simp: importHandoffState_def result_simps split: option.splits if_splits dest!: import_stream_inv)

lemma adopt_boxes: "adopt_active i r = Inr s \<Longrightarrow> m_boxes s = m_boxes r"
  by (auto simp: adopt_active_def result_simps split: option.splits if_splits)

lemma promote_wiring:
  assumes "promoteByName digest (Some p) name r = Inr (prior, s)"
  shows "map wiring (m_boxes s) = map wiring (m_boxes r)"
proof (cases "s = r")
  case False
  let ?i = "name_id digest name" and ?t = "rename_box digest p name r"
  obtain b where b: "box_at p r = Inr b" "name \<noteq> []" "display_name b \<noteq> name"
    using assms False by (cases "box_at p r") (simp_all add: promoteByName_def split: if_split_asm)
  obtain t u where t: "onPromoted (Some p) (box_id b) ?t = Inr t"
    and u: "(if lookupByName name (Some p) ?t = None then adopt_active ?i t else Inr t) = Inr u"
    and s: "s = br_emit BoxesChanged (reclassify ?i (if m_activeCharacterId u = ?i then br_emit (ActiveCharacterChanged None (Some p)) u else u))"
    using assms b unfolding promoteByName_def by (auto simp: Let_def elim!: rbind_InrE)
  have "m_boxes u = m_boxes t" using u by (auto split: if_splits dest: adopt_boxes)
  moreover have "map wiring (m_boxes (reclassify ?i v)) = map wiring (m_boxes v)" for v
    by (simp add: reclassify_def Let_def map_update_where wiring_def)
  ultimately have "map wiring (m_boxes s) = map wiring (m_boxes ?t)"
    using onPromoted_boxes [OF t] by (simp add: s)
  then show ?thesis by (simp add: rename_box_def wiring_def box_set_wiring)
qed simp

lemma setActive_boxes: "m_boxes (snd (setActiveCharacterId i r)) = m_boxes r"
  by (simp add: setActiveCharacterId_def Let_def split: option.split)

lemma eq_inv_start: "eq_inv digest (mkEQPacket giveUp tracking client_addr detecting)"
  unfolding mkEQPacket_def tracking_inv
  by (auto simp: eq_inv_def box_streams_ok_def mkBoxRegistry_def registry_reachable.start [unfolded mkBoxRegistry_def])

lemma eq_step_inv:
  assumes "eq_step ee q q'" "eq_inv (ee_digest ee) q"
  shows "eq_inv (ee_digest ee) q'"
  using assms(1)
proof (elim eq_stepE)
  fix now n buffer
  assume "dispatch_bytes ee now n buffer q = Inr q'"
  then show ?thesis using dispatchPacket_inv [OF _ assms(2)] by (auto simp: dispatch_bytes_def result_simps)
next
  fix i ok r
  assume "q' = q\<lparr>q_boxes := r\<rparr>" "setActiveCharacterId i (q_boxes q) = (ok, r)"
  then show ?thesis
    using eq_inv_boxes [OF assms(2) registry_step.activated [OF refl, of _ _ _ i]] setActive_boxes [of i "q_boxes q"] by simp
next
  fix p name prior r
  assume "q' = q\<lparr>q_boxes := r\<rparr>" "live p (q_boxes q)" "promoteByName (ee_digest ee) (Some p) name (q_boxes q) = Inr (prior, r)"
  then show ?thesis using eq_inv_boxes [OF assms(2) registry_step.promoted promote_wiring] by simp
next
  fix saved ok
  assume "importHandoffState saved q = Inr (ok, q')"
  then show ?thesis by (rule importHandoff_inv [OF _ assms(2)])
qed (drule sym, simp only: tracking_inv giveUp_inv reset_inv sweep_inv assms(2))+

lemma eq_reachable_inv: "eq_reachable ee q \<Longrightarrow> eq_inv (ee_digest ee) q"
  by (induction rule: eq_reachable.induct) (rule eq_inv_start, rule eq_step_inv)

section \<open>Who hears a datagram\<close>

text \<open>A datagram between two ports none of which belongs to a known service.\<close>

definition zone_ports :: "u16 \<Rightarrow> u16 \<Rightarrow> bool" where
  "zone_ports sport dport \<longleftrightarrow> list_all (\<lambda>p. p \<noteq> ChatServerPort \<and> p \<noteq> WorldServerChatPort \<and> p \<noteq> WorldServerChat2Port \<and>
     p \<noteq> WorldServerUCSPort \<and> \<not> login_port p \<and> \<not> world_port p) [sport, dport]"

definition datagram_ends :: "udp_packet \<Rightarrow> u32 \<Rightarrow> u16 \<Rightarrow> u32 \<Rightarrow> u16 \<Rightarrow> bool" where
  "datagram_ends u sip sport dip dport \<longleftrightarrow> getIPv4SourceN u = Inr sip \<and> getSourcePort u = Inr sport \<and>
     getIPv4DestN u = Inr dip \<and> getDestPort u = Inr dport"

lemma dispatch_zone:
  assumes "datagram_ends u sip sport dip dport" "zone_ports sport dport"
  shows "dispatchPacket ee now u q = zone_routed ee now u sip dip (ntohs sport) (ntohs dport) q"
  using assms by (simp add: datagram_ends_def dispatchPacket_def observe_world_def detect_client_def zone_ports_def route_def
      zone_packet_def client_end_def)

lemma touches_other: "touches_only digest ref q q' \<Longrightarrow> \<not> same_session ref x \<Longrightarrow> q_streams q' x = q_streams q x"
  by (auto simp: touches_only_def)

lemma box_streams_of:
  assumes "install_streams b = b"
  shows "world_c2s b = Some ((if is_primary b then GlobalStream else BoxStream (bx_ptr b)) client2world)"
    "world_s2c b = Some ((if is_primary b then GlobalStream else BoxStream (bx_ptr b)) world2client)"
    "zone_c2s b = Some ((if is_primary b then GlobalStream else BoxStream (bx_ptr b)) client2zone)"
    "zone_s2c b = Some ((if is_primary b then GlobalStream else BoxStream (bx_ptr b)) zone2client)"
  by (subst assms [symmetric], simp add: install_streams_def Let_def)+

definition box_ref :: "box \<Rightarrow> stream_id \<Rightarrow> stream_ref" where
  "box_ref b i = (if is_primary b then GlobalStream i else BoxStream (bx_ptr b) i)"

lemma same_session_box_ref:
  "same_session (box_ref b i) x \<longleftrightarrow> (if is_primary b then \<exists>j. x = GlobalStream j else x = box_ref b i \<or> x = box_ref b (sibling i))"
  by (cases x) (auto simp: box_ref_def)

lemma find_through_map: "map_option g (find (\<lambda>b. P (g b)) bs) = find P (map g bs)"
  by (induction bs) auto

lemma box_at_wiring:
  assumes "map wiring (m_boxes r') = map wiring (m_boxes r)" "box_at p r = Inr b"
  obtains b' where "box_at p r' = Inr b'" "wiring b' = wiring b"
proof -
  have "map_option wiring (box_find p s) = find (\<lambda>w. fst w = p) (map wiring (m_boxes s))" for s
    unfolding box_find_def find_through_map [symmetric] by (simp add: wiring_def)
  then have "map_option wiring (box_find p r') = map_option wiring (box_find p r)" using assms(1) by simp
  then show ?thesis using assms(2) that by (auto simp: box_at_def split: option.splits)
qed

lemma wiring_eq: "wiring b' = wiring b \<Longrightarrow> bx_ptr b' = bx_ptr b \<and> is_primary b' = is_primary b \<and>
    world_c2s b' = world_c2s b \<and> world_s2c b' = world_s2c b \<and> zone_c2s b' = zone_c2s b \<and> zone_s2c b' = zone_s2c b"
  by (simp add: wiring_def)

lemma eq_inv_installed: "eq_inv digest q \<Longrightarrow> box_at p (q_boxes q) = Inr b \<Longrightarrow> install_streams b = b \<and> bx_ptr b = p"
  by (auto simp: eq_inv_def box_streams_ok_def dest!: box_at_Inr)

lemma pickBox_wiring:
  "pickBox sip dip sp dp op now r = Some (p, c, r') \<Longrightarrow> map wiring (m_boxes r') = map wiring (m_boxes r)"
  by (auto dest!: pickBox_cases simp: zone_writes_wiring)

lemma feed_handled: "feed ee now ref u q = Inr q' \<Longrightarrow>
    \<exists>s t. q_streams q ref = Some s \<and> handlePacket (ref_env ee q ref) u s = Inr t"
  by (auto simp: feed_def result_simps stream_at_def split: option.splits)

lemma routed_to_box:
  assumes inv: "eq_inv (ee_digest ee) q"
    and pick: "pickBox sip dip sp dp (m_netOp (u_base u)) now (q_boxes q) = Some (p, c, r)"
    and b: "box_at p (q_boxes q) = Inr b"
  shows "zone_routed ee now u sip dip sp dp q
    = feed ee now (box_ref b (if c then client2zone else zone2client)) u (q\<lparr>q_boxes := stamp_zone p now r\<rparr>)"
proof -
  obtain b' where b': "box_at p r = Inr b'" "wiring b' = wiring b" by (rule box_at_wiring [OF pickBox_wiring [OF pick] b])
  have "zone_c2s b = Some (box_ref b client2zone)" "zone_s2c b = Some (box_ref b zone2client)"
    using box_streams_of(3,4) [of b] eq_inv_installed [OF inv b] by (simp_all add: box_ref_def)
  then have z: "zone_c2s b' = Some (box_ref b client2zone)" "zone_s2c b' = Some (box_ref b zone2client)"
    using wiring_eq [OF b'(2)] by simp_all
  show ?thesis
    unfolding zone_routed_def pick option.case prod.case Let_def b'(1) rbind.simps z by simp
qed

lemma fed_box:
  assumes "feed ee now (box_ref b i) u q0 = Inr q'" "q_streams q0 = q_streams q" "q_session_tracking q0 = q_session_tracking q"
  shows "(\<exists>s t. q_streams q (box_ref b i) = Some s \<and> handlePacket (ref_env ee q (box_ref b i)) u s = Inr t) \<and>
    (\<forall>x. q_streams q' x = q_streams q x \<or>
      (if is_primary b then \<exists>j. x = GlobalStream j else x \<in> {box_ref b i, box_ref b (sibling i)}))"
proof
  have "ref_env ee q0 ref = ref_env ee q ref" for ref
    using assms(3) by (simp add: ref_env_def split: stream_ref.split)
  then show "\<exists>s t. q_streams q (box_ref b i) = Some s \<and> handlePacket (ref_env ee q (box_ref b i)) u s = Inr t"
    using feed_handled [OF assms(1)] assms(2) by simp
  have "q_streams q' x = q_streams q x \<or>
      (if is_primary b then \<exists>j. x = GlobalStream j else x \<in> {box_ref b i, box_ref b (sibling i)})" for x
    using touches_other [OF feed_touch [OF assms(1)], of x] assms(2)
    by (cases "same_session (box_ref b i) x") (simp_all add: same_session_box_ref)
  then show "\<forall>x. q_streams q' x = q_streams q x \<or>
      (if is_primary b then \<exists>j. x = GlobalStream j else x \<in> {box_ref b i, box_ref b (sibling i)})" ..
qed

subsection \<open>A sample\<close>

definition raw_datagram :: "bytes \<Rightarrow> u16 \<Rightarrow> bytes \<Rightarrow> u16 \<Rightarrow> bytes \<Rightarrow> bytes" where
  "raw_datagram sip sport dip dport w =
     [0x45, 0] @ be16_bytes (of_nat (28 + length w)) @ [0, 0, 0, 0, 64, 17, 0, 0] @ sip @ dip @
     be16_bytes sport @ be16_bytes dport @ [0, 0, 0, 0] @ w"

definition sample_eq_env :: eq_env where
  "sample_eq_env = \<lparr>ee_world = mkOPCodeDB ''world'', ee_zone = mkOPCodeDB ''zone'', ee_zlib = (\<lambda>n z. (False, [])),
     ee_fuel = 4, ee_digest = (\<lambda>name. []), ee_live = True, ee_by_mac = False\<rparr>"

text \<open>Two clients on the host 10.0.0.0, from its ports 1 and 2 to the world server 10.0.1.9:9000.\<close>

definition sample_eq :: eq_packet where
  "sample_eq = observe_client 10 0x0901000a 512 10275 2000
     (observe_client 10 0x0901000a 256 10275 1000 (mkEQPacket 512 True 10 False))"

definition sample_udp :: "bytes \<Rightarrow> udp_packet" where
  "sample_udp d = (case mkUDP d 0 False of Inr u \<Rightarrow> u | Inl e \<Rightarrow> blank_udp)"

definition sample_zone :: "bytes \<Rightarrow> udp_packet" where
  "sample_zone w = sample_udp (raw_datagram [10, 0, 0, 0] 6000 [10, 0, 1, 20] 7000 w)"

lemma sample_eq_inv: "eq_inv (ee_digest sample_eq_env) sample_eq"
  unfolding sample_eq_def by (intro observe_client_inv eq_inv_start)

lemma sample_zone_ends: "zone_ports 6000 7000"
  "datagram_ends (sample_zone ([0, 1] @ replicate 22 0)) 10 6000 0x1401000a 7000"
  "datagram_ends (sample_zone [0, 9, 0, 0, 0, 0, 0, 0]) 10 6000 0x1401000a 7000"
  by code_simp+

text \<open>C2: a zone datagram that has been matched to a client, by the ports its session is bound to or by
  binding it now, is handed to that client's stream of its direction, and to no other; it can
  change only that stream and its opposite, or, for the primary client, the four global ones. No
  other client's stream changes, whatever the datagram contains.\<close>

theorem zone_traffic_stays_with_its_client:
  assumes "eq_inv (ee_digest ee) q" "datagram_ends u sip sport dip dport" "zone_ports sport dport"
    "pickBox sip dip (ntohs sport) (ntohs dport) (m_netOp (u_base u)) now (q_boxes q) = Some (p, c, r)"
    "box_at p (q_boxes q) = Inr b" "dispatchPacket ee now u q = Inr q'"
  defines "i \<equiv> (if c then client2zone else zone2client)"
  shows "(\<exists>s t. q_streams q (box_ref b i) = Some s \<and> handlePacket (ref_env ee q (box_ref b i)) u s = Inr t) \<and>
    (\<forall>x. q_streams q' x = q_streams q x \<or>
      (if is_primary b then \<exists>j. x = GlobalStream j else x \<in> {box_ref b i, box_ref b (sibling i)}))"
proof -
  have "feed ee now (box_ref b i) u (q\<lparr>q_boxes := stamp_zone p now r\<rparr>) = Inr q'"
    using assms(6) unfolding dispatch_zone [OF assms(2,3)] routed_to_box [OF assms(1,4,5)] i_def .
  from fed_box [OF this, where q = q] show ?thesis by simp
qed

theorem zone_traffic_stays_with_its_client_witness:
  "\<exists>q'. dispatchPacket sample_eq_env 2500 (sample_zone ([0, 1] @ replicate 22 0)) sample_eq = Inr q' \<and>
     (\<forall>j. q_streams q' (GlobalStream j) = q_streams sample_eq (GlobalStream j)) \<and>
     (\<exists>s t. q_streams sample_eq (BoxStream 1 client2zone) = Some s \<and>
        handlePacket (ref_env sample_eq_env sample_eq (BoxStream 1 client2zone)) (sample_zone ([0, 1] @ replicate 22 0)) s = Inr t)"
proof -
  let ?u = "sample_zone ([0, 1] @ replicate 22 0)"
  let ?pick = "pickBox 10 0x1401000a (ntohs 6000) (ntohs 7000) (m_netOp (u_base ?u)) 2500 (q_boxes sample_eq)"
  have "map_option (\<lambda>(p, c, r). (p, c)) ?pick = Some (1, True)" by code_simp
  then obtain r where pick: "?pick = Some (1, True, r)" by auto
  have "map_sum id (\<lambda>b. (is_primary b, bx_ptr b)) (box_at 1 (q_boxes sample_eq)) = Inr (False, 1)" by code_simp
  then obtain b where b: "box_at 1 (q_boxes sample_eq) = Inr b" "\<not> is_primary b" "bx_ptr b = 1"
    by (cases "box_at 1 (q_boxes sample_eq)") auto
  have "(case dispatchPacket sample_eq_env 2500 ?u sample_eq of Inr q \<Rightarrow> True | Inl e \<Rightarrow> False)" by code_simp
  then obtain q' where q': "dispatchPacket sample_eq_env 2500 ?u sample_eq = Inr q'" by (auto split: sum.splits)
  from zone_traffic_stays_with_its_client [OF sample_eq_inv sample_zone_ends(2,1) pick b(1) q'] q' show ?thesis
    by (auto simp: b box_ref_def)
qed

text \<open>With several clients on the wire, a zone datagram that no client is bound to or expects is
  dropped: no stream and no client changes, nothing is emitted, and at most a new entry in the list
  of warnings, which never exceeds its limit, is left behind.\<close>

theorem unmatched_zone_traffic_is_dropped:
  assumes "eq_inv (ee_digest ee) q" "datagram_ends u sip sport dip dport" "zone_ports sport dport"
    "pickBox sip dip (ntohs sport) (ntohs dport) (m_netOp (u_base u)) now (q_boxes q) = None"
    "1 < length (m_boxes (q_boxes q))"
  shows "\<exists>ws. dispatchPacket ee now u q = Inr (q\<lparr>q_unboundZoneWarned := ws\<rparr>) \<and> length ws \<le> kMaxUnboundZoneWarnings \<and>
    set ws \<subseteq> insert (tuple_key sip dip (ntohs sport) (ntohs dport)) (set (q_unboundZoneWarned q))"
proof -
  have lim: "length (q_unboundZoneWarned q) \<le> kMaxUnboundZoneWarnings"
    using assms(1) by (simp add: eq_inv_def)
  let ?key = "tuple_key sip dip (ntohs sport) (ntohs dport)" and ?r = "q_boxes q"
  let ?warn = "(hasClient sip ?r \<or> hasClient dip ?r) \<and> looksLikeZoneServer (if hasClient sip ?r then dip else sip) ?r \<and>
    length (q_unboundZoneWarned q) < kMaxUnboundZoneWarnings \<and> ?key \<notin> set (q_unboundZoneWarned q)"
  let ?ws = "if ?warn then ?key # q_unboundZoneWarned q else q_unboundZoneWarned q"
  have "dispatchPacket ee now u q = unmatched_zone ee now u sip dip (ntohs sport) (ntohs dport) q"
    unfolding dispatch_zone [OF assms(2,3)] zone_routed_def assms(4) by simp
  also have "\<dots> = Inr (q\<lparr>q_unboundZoneWarned := ?ws\<rparr>)"
    using assms(5) by (auto simp: unmatched_zone_def Let_def)
  finally show ?thesis using lim by (intro exI [of _ ?ws]) (simp, blast)
qed

theorem unmatched_zone_traffic_is_dropped_witness:
  "\<exists>ws. dispatchPacket sample_eq_env 2500 (sample_zone [0, 9, 0, 0, 0, 0, 0, 0]) sample_eq
     = Inr (sample_eq\<lparr>q_unboundZoneWarned := ws\<rparr>) \<and> length ws \<le> 4"
proof -
  let ?u = "sample_zone [0, 9, 0, 0, 0, 0, 0, 0]"
  have "pickBox 10 0x1401000a (ntohs 6000) (ntohs 7000) (m_netOp (u_base ?u)) 2500 (q_boxes sample_eq) = None" by code_simp
  moreover have "1 < length (m_boxes (q_boxes sample_eq))" by code_simp
  ultimately show ?thesis
    using unmatched_zone_traffic_is_dropped [OF sample_eq_inv sample_zone_ends(3,1)]
    by (auto simp: kMaxUnboundZoneWarnings_def)
qed

subsection \<open>World traffic\<close>

definition world_ports :: "u16 \<Rightarrow> u16 \<Rightarrow> bool" where
  "world_ports sport dport \<longleftrightarrow> (world_port sport \<or> world_port dport) \<and>
     list_all (\<lambda>p. p \<noteq> ChatServerPort \<and> p \<noteq> WorldServerChatPort \<and> p \<noteq> WorldServerChat2Port \<and>
       p \<noteq> WorldServerUCSPort \<and> \<not> login_port p) [sport, dport]"

lemma lookupByWorld_map:
  assumes "\<And>b. world_key (g b) = world_key b" "\<And>b. bx_ptr (g b) = bx_ptr b"
  shows "map_option bx_ptr (find (same_world ip cp sp) (map g bs)) = map_option bx_ptr (find (same_world ip cp sp) bs)"
proof -
  have "same_world ip cp sp (g b) = same_world ip cp sp b" for b
    using assms(1) [of b] by (simp add: same_world_def world_key_def)
  from find_map [where P = "same_world ip cp sp" and g = g and h = bx_ptr, OF this] assms(2)
  show ?thesis by (simp add: comp_def)
qed

lemma observe_known:
  assumes "lookupByWorld ip cp sp (q_boxes q) = Some p"
  obtains r where "observe_client ip sip cp sp now q = q\<lparr>q_boxes := r\<rparr>" "lookupByWorld ip cp sp r = Some p"
    "map wiring (m_boxes r) = map wiring (m_boxes (q_boxes q))"
proof
  let ?r = "box_set p (\<lambda>b. b\<lparr>last_seen_ms := now, server_world_ip := sip, packet_count := packet_count b + 1\<rparr>) (q_boxes q)"
  show "observe_client ip sip cp sp now q = q\<lparr>q_boxes := ?r\<rparr>"
    using assms by (simp add: observe_client_def observe_def)
  show "map wiring (m_boxes ?r) = map wiring (m_boxes (q_boxes q))" by (simp add: box_set_wiring wiring_def)
  have "lookupByWorld ip cp sp ?r = lookupByWorld ip cp sp (q_boxes q)"
    unfolding lookupByWorld_def box_set_map by (simp, rule lookupByWorld_map) (simp_all add: world_key_def)
  then show "lookupByWorld ip cp sp ?r = Some p" using assms by simp
qed

lemma client_ends:
  assumes "datagram_ends u sip sport dip dport"
  shows "client_end c u = Inr (if c then (dip, ntohs dport) else (sip, ntohs sport))"
    "server_end c u = Inr (if c then (sip, ntohs sport) else (dip, ntohs dport))"
  using assms by (simp_all add: datagram_ends_def client_end_def server_end_def)

lemma detect_result: "client_end (world_port sport) u = Inr e \<Longrightarrow>
  \<exists>q0. detect_client u sport dport q = Inr q0 \<and> q_streams q0 = q_streams q \<and> q_boxes q0 = q_boxes q \<and>
    q_session_tracking q0 = q_session_tracking q"
  by (cases e) (simp add: detect_client_def eq_emit_def)

text \<open>A world datagram of a client that has been seen before is handed to that client's world
  stream of its direction and can change only that stream and its opposite, or, for the primary
  client, the four global ones: the handshake of one client never reaches another's streams.\<close>

theorem world_traffic_stays_with_its_client:
  assumes "eq_inv (ee_digest ee) q" "datagram_ends u sip sport dip dport" "world_ports sport dport"
    "lookupByWorld (if world_port sport then dip else sip) (ntohs (if world_port sport then dport else sport))
       (ntohs (if world_port sport then sport else dport)) (q_boxes q) = Some p"
    "box_at p (q_boxes q) = Inr b" "dispatchPacket ee now u q = Inr q'"
  defines "i \<equiv> (if world_port sport then world2client else client2world)"
  shows "(\<exists>s t. q_streams q (box_ref b i) = Some s \<and> handlePacket (ref_env ee q (box_ref b i)) u s = Inr t) \<and>
    (\<forall>x. q_streams q' x = q_streams q x \<or>
      (if is_primary b then \<exists>j. x = GlobalStream j else x \<in> {box_ref b i, box_ref b (sibling i)}))"
proof -
  let ?c = "world_port sport"
  let ?cip = "if ?c then dip else sip" and ?cp = "ntohs (if ?c then dport else sport)" and ?sp = "ntohs (if ?c then sport else dport)"
    and ?sv = "if ?c then sip else dip"
  have ends: "client_end ?c u = Inr (?cip, ?cp)" "server_end ?c u = Inr (?sv, ?sp)"
    by (simp_all add: client_ends [OF assms(2)])
  have ports: "getSourcePort u = Inr sport" "getDestPort u = Inr dport" using assms(2) by (simp_all add: datagram_ends_def)
  have world: "world_port sport \<or> world_port dport" using assms(3) by (simp add: world_ports_def)
  obtain r where o: "observe_client ?cip ?sv ?cp ?sp now q = q\<lparr>q_boxes := r\<rparr>" "lookupByWorld ?cip ?cp ?sp r = Some p"
    "map wiring (m_boxes r) = map wiring (m_boxes (q_boxes q))" by (rule observe_known [OF assms(4)])
  obtain b' where b': "box_at p r = Inr b'" "wiring b' = wiring b" by (rule box_at_wiring [OF o(3) assms(5)])
  have w: "(if ?c then world_s2c b' else world_c2s b') = Some (box_ref b i)"
    using box_streams_of(1,2) [of b] eq_inv_installed [OF assms(1,5)] wiring_eq [OF b'(2)] by (simp add: box_ref_def i_def)
  have "observe_world now u sport dport q = Inr (q\<lparr>q_boxes := r\<rparr>)"
    using world o(1) by (simp only: observe_world_def ends rbind.simps prod.case if_True)
  moreover obtain q0 where q0: "detect_client u sport dport (q\<lparr>q_boxes := r\<rparr>) = Inr q0"
    "q_streams q0 = q_streams q" "q_boxes q0 = r" "q_session_tracking q0 = q_session_tracking q"
    using detect_result [OF ends(1), of dport "q\<lparr>q_boxes := r\<rparr>"] by auto
  ultimately have "dispatchPacket ee now u q = route ee now u sport dport q0"
    by (simp add: dispatchPacket_def ports)
  also have "\<dots> = world_packet ee now u sport q0"
    using assms(3) world by (simp add: route_def world_ports_def disj_commute)
  also have "\<dots> = feed ee now (box_ref b i) u q0"
    unfolding world_packet_def Let_def ends rbind.simps prod.case q0(3) o(2) option.case b'(1) w ..
  finally have "feed ee now (box_ref b i) u q0 = Inr q'" using assms(6) by simp
  from fed_box [OF this q0(2,4)] show ?thesis .
qed

definition sample_world :: udp_packet where
  "sample_world = sample_udp (raw_datagram [10, 0, 1, 9] 9000 [10, 0, 0, 0] 2 [0, 9, 0, 0, 0, 0, 0, 0])"

lemma sample_world_ends: "world_ports 9000 2" "datagram_ends sample_world 0x0901000a 9000 10 2"
  by code_simp+

theorem world_traffic_stays_with_its_client_witness:
  "\<exists>q'. dispatchPacket sample_eq_env 3000 sample_world sample_eq = Inr q' \<and>
     (\<forall>j. q_streams q' (GlobalStream j) = q_streams sample_eq (GlobalStream j)) \<and>
     (\<exists>s t. q_streams sample_eq (BoxStream 1 world2client) = Some s \<and>
        handlePacket (ref_env sample_eq_env sample_eq (BoxStream 1 world2client)) sample_world s = Inr t)"
proof -
  have w: "world_port 9000 = True" by code_simp
  have look: "lookupByWorld (if world_port 9000 then 10 else 0x0901000a) (ntohs (if world_port 9000 then 2 else 9000))
      (ntohs (if world_port 9000 then 9000 else 2)) (q_boxes sample_eq) = Some 1" by code_simp
  have "map_sum id (\<lambda>b. (is_primary b, bx_ptr b)) (box_at 1 (q_boxes sample_eq)) = Inr (False, 1)" by code_simp
  then obtain b where b: "box_at 1 (q_boxes sample_eq) = Inr b" "\<not> is_primary b" "bx_ptr b = 1"
    by (cases "box_at 1 (q_boxes sample_eq)") auto
  have "(case dispatchPacket sample_eq_env 3000 sample_world sample_eq of Inr q \<Rightarrow> True | Inl e \<Rightarrow> False)" by code_simp
  then obtain q' where q': "dispatchPacket sample_eq_env 3000 sample_world sample_eq = Inr q'" by (auto split: sum.splits)
  from world_traffic_stays_with_its_client [OF sample_eq_inv sample_world_ends(2,1) look b(1) q'] q' show ?thesis
    by (auto simp: b box_ref_def w)
qed

section \<open>Every reachable state\<close>

text \<open>C3: whatever arrives and whatever the user asks for, the clients keep different addresses, the first
  is the only primary one and stays, every client is wired to streams of its own that exist, streams
  of evicted clients are gone, every character's session and the active character lead to a client
  that is still there, and the list of warnings stays within its limit.\<close>

theorem clients_stay_wired:
  assumes "eq_reachable ee q"
  shows "distinct (map world_key (m_boxes (q_boxes q))) \<and> one_primary (m_boxes (q_boxes q)) \<and>
    (\<forall>b \<in> set (m_boxes (q_boxes q)). install_streams b = b) \<and>
    (\<forall>p i. q_streams q (BoxStream p i) \<noteq> None \<longleftrightarrow>
       i \<noteq> unknown_stream \<and> (p, False) \<in> (\<lambda>b. (bx_ptr b, is_primary b)) ` set (m_boxes (q_boxes q))) \<and>
    (\<forall>c \<in> set (m_characters (q_boxes q)). \<exists>p. c_session c = Some p \<and> live p (q_boxes q)) \<and>
    (m_boxes (q_boxes q) = [] \<or> (\<exists>p. currentBoxFor (m_activeCharacterId (q_boxes q)) (q_boxes q) = Some p \<and> live p (q_boxes q))) \<and>
    length (q_unboundZoneWarned q) \<le> kMaxUnboundZoneWarnings"
proof -
  have inv: "eq_inv (ee_digest ee) q" by (rule eq_reachable_inv [OF assms])
  have core: "registry_core (q_boxes q)" and act: "active_ok (q_boxes q)"
    using eq_inv_registry [OF inv] by (simp_all add: registry_inv_def)
  have "m_boxes (q_boxes q) = [] \<or> (\<exists>p. currentBoxFor (m_activeCharacterId (q_boxes q)) (q_boxes q) = Some p \<and> live p (q_boxes q))"
    using act currentBoxFor_live [OF core] by (auto simp: active_ok_def split: if_splits)
  moreover have "\<forall>c \<in> set (m_characters (q_boxes q)). \<exists>p. c_session c = Some p \<and> live p (q_boxes q)"
    using registry_coreD(6) [OF core] by blast
  ultimately show ?thesis
    using inv registry_coreD(3,4) [OF core] unfolding eq_inv_def box_streams_ok_def by blast
qed

definition sample_arrival :: bytes where
  "sample_arrival = raw_datagram [10, 0, 0, 0] 3 [10, 0, 1, 9] 9000 [0, 9, 0, 0, 0, 0, 0, 0]"

theorem clients_stay_wired_witness:
  "\<exists>q. dispatch_bytes sample_eq_env 1000 0 sample_arrival (mkEQPacket 512 True 10 False) = Inr q \<and>
     one_primary (m_boxes (q_boxes q)) \<and> length (m_boxes (q_boxes q)) = 1 \<and>
     (\<exists>p. currentBoxFor (m_activeCharacterId (q_boxes q)) (q_boxes q) = Some p)"
proof -
  have "map_sum id (\<lambda>q. length (m_boxes (q_boxes q)))
    (dispatch_bytes sample_eq_env 1000 0 sample_arrival (mkEQPacket 512 True 10 False)) = Inr 1" by code_simp
  then obtain q where q: "dispatch_bytes sample_eq_env 1000 0 sample_arrival (mkEQPacket 512 True 10 False) = Inr q"
    and one: "length (m_boxes (q_boxes q)) = 1"
    by (cases "dispatch_bytes sample_eq_env 1000 0 sample_arrival (mkEQPacket 512 True 10 False)") auto
  from clients_stay_wired [OF eq_reachable.step [OF eq_reachable.start eq_step.arrived [OF q]]] q one show ?thesis
    by auto
qed

end
