(* ===== verification/EQSessions.thy ===== *)
theory EQSessions
  imports EQRouting
begin

text \<open>
  The life of sessions across \<open>EQPacket\<close> and its registry: the file in which one process leaves its
  sessions restores them in the next (\<open>exportHandoffState\<close>, \<open>importHandoffState\<close>), a zone session
  that the world server announced is bound to the client it was announced to, and the sweep
  (\<open>evictStale\<close>) removes exactly the idle clients nobody looks at.
\<close>

section \<open>The handoff file\<close>

lemma le64_split: "push_bit 32 (ucast (ucast (drop_bit 32 w) :: u32)) OR ucast (ucast w :: u32) = (w :: u64)"
  by (rule bit_word_eqI) (auto simp: bit_simps)

lemma eqtohuint64_encode [simp]: "eqtohuint64 (le64_bytes w @ r) = Inr w"
  by (simp add: eqtohuint64_def le64_bytes_def le64_split)

lemma length_handoff [simp]: "length (le64_bytes w) = 8" "length (handoff_bytes h) = 40"
  by (simp_all add: le64_bytes_def handoff_bytes_def)

lemma handoff_read_bytes [simp]: "handoff_read (handoff_bytes h @ r) = Inr h"
proof -
  have "rd ([h_validKey h, 0, 0, 0, 0, 0, 0, 0] @ r) 0 = Inr (h_validKey h)" by (simp add: rd_def)
  moreover have "rd (handoff_bytes h @ r) 32 = Inr (h_validKey h)" by (simp add: handoff_bytes_def rd_def nth_append)
  ultimately show ?thesis
    unfolding handoff_read_def by (simp add: handoff_bytes_def)
qed

definition handoff_header :: bytes where
  "handoff_header = le32_bytes HANDOFF_MAGIC @ le32_bytes HANDOFF_VERSION"

lemma importState_exportState [simp]: "exportState (importState (exportState s) t) = exportState s"
  by (simp add: exportState_def importState_def)

lemma import_stream_encoded:
  "q_streams q (GlobalStream i) = Some t \<Longrightarrow>
   import_stream i (handoff_bytes h @ r) q = Inr (q\<lparr>q_streams := (q_streams q)(GlobalStream i \<mapsto> importState h t)\<rparr>)"
  by (simp add: import_stream_def stream_at_def)

lemma global_streams:
  assumes "eq_inv digest q"
  obtains a b c d where "q_streams q (GlobalStream client2world) = Some a" "q_streams q (GlobalStream world2client) = Some b"
    "q_streams q (GlobalStream client2zone) = Some c" "q_streams q (GlobalStream zone2client) = Some d"
    "q_streams q (GlobalStream unknown_stream) = None"
proof -
  have g: "(q_streams q (GlobalStream i) = None) = (i = unknown_stream)" for i
    using assms by (simp add: eq_inv_def box_streams_ok_def)
  show ?thesis
    using that g [of client2world] g [of world2client] g [of client2zone] g [of zone2client] g [of unknown_stream] by auto
qed

lemma drop_encoded: "length x = k \<Longrightarrow> drop (k + n) (x @ y) = drop n y"
  by simp

lemma import_four:
  assumes "q_streams q (GlobalStream client2world) = Some a" "q_streams q (GlobalStream world2client) = Some b"
    "q_streams q (GlobalStream client2zone) = Some c" "q_streams q (GlobalStream zone2client) = Some d"
  shows "importHandoffState (Some (handoff_header @ handoff_bytes h1 @ handoff_bytes h2 @ handoff_bytes h3 @ handoff_bytes h4)) q
    = Inr (True, q\<lparr>q_streams := (q_streams q)
        (GlobalStream client2world \<mapsto> importState h1 a, GlobalStream world2client \<mapsto> importState h2 b,
         GlobalStream client2zone \<mapsto> importState h3 c, GlobalStream zone2client \<mapsto> importState h4 d)\<rparr>)"
proof -
  have "drop 8 (handoff_header @ r) = r" for r by (simp add: handoff_header_def)
  moreover have "eqtohuint32 (handoff_header @ r) = Inr HANDOFF_MAGIC" "eqtohuint32 (drop 4 (handoff_header @ r)) = Inr HANDOFF_VERSION" for r
    by (simp_all add: handoff_header_def)
  moreover have "length handoff_header = 8" by (simp add: handoff_header_def)
  moreover have "import_stream zone2client (handoff_bytes h4) q'
      = Inr (q'\<lparr>q_streams := (q_streams q')(GlobalStream zone2client \<mapsto> importState h4 t)\<rparr>)"
    if "q_streams q' (GlobalStream zone2client) = Some t" for q' t
    using import_stream_encoded [OF that, of h4 "[]"] by simp
  ultimately show ?thesis
    using assms by (simp add: importHandoffState_def handoff_size_def import_stream_encoded)
qed

lemma import_short: "length f < handoff_size \<Longrightarrow> importHandoffState (Some f) q = Inr (False, q)"
  by (simp add: importHandoffState_def)

text \<open>The file that one process writes is read by the next: it has the documented size, it restores
  in every global stream the session, key, client, maximum length, expected sequence number and
  decode key of the stream that was saved, and no proper prefix of it is accepted: a file cut short
  changes nothing.\<close>

theorem handoff_resumes_sessions:
  assumes "eq_reachable ee q" "eq_reachable ee' q0"
  shows "\<exists>f q1. exportHandoffState q = Inr f \<and> length f = handoff_size \<and> importHandoffState (Some f) q0 = Inr (True, q1) \<and>
    (\<forall>i. map_option exportState (q_streams q1 (GlobalStream i)) = map_option exportState (q_streams q (GlobalStream i))) \<and>
    (\<forall>n < handoff_size. importHandoffState (Some (take n f)) q0 = Inr (False, q0))"
proof -
  obtain a b c d where q: "q_streams q (GlobalStream client2world) = Some a" "q_streams q (GlobalStream world2client) = Some b"
    "q_streams q (GlobalStream client2zone) = Some c" "q_streams q (GlobalStream zone2client) = Some d"
    "q_streams q (GlobalStream unknown_stream) = None" by (rule global_streams [OF eq_reachable_inv [OF assms(1)]])
  obtain a' b' c' d' where q0: "q_streams q0 (GlobalStream client2world) = Some a'" "q_streams q0 (GlobalStream world2client) = Some b'"
    "q_streams q0 (GlobalStream client2zone) = Some c'" "q_streams q0 (GlobalStream zone2client) = Some d'"
    "q_streams q0 (GlobalStream unknown_stream) = None" by (rule global_streams [OF eq_reachable_inv [OF assms(2)]])
  let ?f = "handoff_header @ handoff_bytes (exportState a) @ handoff_bytes (exportState b) @
    handoff_bytes (exportState c) @ handoff_bytes (exportState d)"
  let ?q1 = "q0\<lparr>q_streams := (q_streams q0)
    (GlobalStream client2world \<mapsto> importState (exportState a) a', GlobalStream world2client \<mapsto> importState (exportState b) b',
     GlobalStream client2zone \<mapsto> importState (exportState c) c', GlobalStream zone2client \<mapsto> importState (exportState d) d')\<rparr>"
  have f: "exportHandoffState q = Inr ?f"
    by (simp add: exportHandoffState_def stream_at_def q handoff_header_def)
  have len: "length ?f = handoff_size" by (simp add: handoff_header_def handoff_size_def)
  have "map_option exportState (q_streams ?q1 (GlobalStream i)) = map_option exportState (q_streams q (GlobalStream i))" for i
    by (cases i) (simp_all add: q q0(5))
  moreover have "importHandoffState (Some (take n ?f)) q0 = Inr (False, q0)" if "n < handoff_size" for n
    by (rule import_short) (simp only: length_take len min_less_iff_disj that simp_thms)
  ultimately show ?thesis using f len import_four [OF q0(1-4)] by blast
qed

theorem handoff_resumes_sessions_witness:
  "\<exists>f q1. exportHandoffState (mkEQPacket 512 True 10 False) = Inr f \<and> length f = 168 \<and>
     importHandoffState (Some f) (mkEQPacket 256 False 0 True) = Inr (True, q1)"
proof -
  have "eq_reachable sample_eq_env (mkEQPacket 512 True 10 False)" "eq_reachable sample_eq_env (mkEQPacket 256 False 0 True)"
    by (rule eq_reachable.start)+
  from handoff_resumes_sessions [OF this] show ?thesis by (auto simp: handoff_size_def)
qed

section \<open>Binding an announced zone session\<close>

lemma best_box_newest:
  assumes "\<And>c. c \<in> set bs \<Longrightarrow> ok c \<Longrightarrow> c \<noteq> b \<Longrightarrow> t c < t b" "b \<in> set bs" "ok b" "\<And>c. best = Some c \<Longrightarrow> t c < t b"
  shows "best_box ok t bs best = Some b"
  using assms
proof (induction bs arbitrary: best)
  case (Cons x bs)
  have stay: "best_box ok t bs (Some b) = Some b" if "\<And>c. c \<in> set bs \<Longrightarrow> ok c \<Longrightarrow> c \<noteq> b \<Longrightarrow> t c < t b" for bs
    using that
  proof (induction bs)
    case (Cons y bs)
    then have "\<not> (ok y \<and> t b < t y)" by (cases "y = b") fastforce+
    then show ?case using Cons by simp
  qed simp
  show ?case
  proof (cases "x = b")
    case True
    then show ?thesis using Cons.prems stay by (cases best) auto
  next
    case False
    then show ?thesis using Cons.prems by (auto intro!: Cons.IH split: option.split)
  qed
qed simp

lemma find_ptr:
  assumes "\<exists>x \<in> set xs. P x" "\<And>x. x \<in> set xs \<Longrightarrow> P x \<Longrightarrow> bx_ptr x = p"
  shows "map_option bx_ptr (find P xs) = Some p"
proof -
  obtain x where x: "find P xs = Some x" using assms(1) by (cases "find P xs") (auto simp: find_None_iff)
  then have "x \<in> set xs" "P x" by (auto dest: find_Some_set)
  with x assms(2) show ?thesis by simp
qed

text \<open>What an announcement makes of the box.\<close>

definition announce :: "u16 \<Rightarrow> int \<Rightarrow> box \<Rightarrow> box" where
  "announce port now b = b\<lparr>expected_zone_server_port := port, zone_client_port := 0, zone_server_port_bound := 0,
     zone_await_ms := now\<rparr>"

lemma zso_announces:
  assumes "box_at p r = Inr b" "eqtohuint16 (drop 128 data) = Inr port"
  shows "zso_onDecodedPacket p data kZsiLen DIR_Server (Some ''OP_ZoneServerInfo'') now r
    = Inr (box_set p (announce (ntohs port) now) r)"
  using assms by (simp add: zso_onDecodedPacket_def announce_def [abs_def])

lemma box_set_boxes: "x \<in> set (m_boxes (box_set p f r)) \<longleftrightarrow> (\<exists>c \<in> set (m_boxes r). x = (if bx_ptr c = p then f c else c))"
  by (simp add: box_set_def set_update_where)

text \<open>C6: after the world server has announced a zone session to a client (\<open>OP_ZoneServerInfo\<close>), and as
  long as no later announcement was made to another client, the first datagram from that client's
  host to the announced port binds the session to that client, whichever other clients of the same
  host wait for the same port; from then on the session is routed to that client.\<close>

theorem announced_session_binds_its_client:
  assumes "registry_inv r" "box_at p r = Inr b" "expected_zone_server_ip b = 0"
    "eqtohuint16 (drop 128 data) = Inr port"
    "zso_onDecodedPacket p data kZsiLen DIR_Server (Some ''OP_ZoneServerInfo'') now r = Inr r'"
    "\<forall>c \<in> set (m_boxes r). bx_ptr c = p \<or> zone_await_ms c < now"
    "lookupBoundZone (client_ip b) cport (ntohs port) r' = None" "lookupBoundZone server (ntohs port) cport r' = None"
  shows "pickBox (client_ip b) server cport (ntohs port) op t r' = Some (p, True, bind_zone p cport (ntohs port) r') \<and>
    lookupBoundZone (client_ip b) cport (ntohs port) (bind_zone p cport (ntohs port) r') = Some p"
proof
  let ?b = "announce (ntohs port) now b"
  have r': "r' = box_set p (announce (ntohs port) now) r" using assms(5) zso_announces [OF assms(2,4)] by simp
  have b: "b \<in> set (m_boxes r)" "bx_ptr b = p" using box_at_Inr [OF assms(2)] by simp_all
  have unique: "c = b" if "c \<in> set (m_boxes r)" "bx_ptr c = p" for c
    using registry_coreD(1) [of r] assms(1) b that by (auto simp: registry_inv_def distinct_map inj_on_def)
  have boxes: "x = ?b \<or> (x \<in> set (m_boxes r) \<and> bx_ptr x \<noteq> p)" if "x \<in> set (m_boxes r')" for x
  proof -
    obtain c where c: "c \<in> set (m_boxes r)" "x = (if bx_ptr c = p then announce (ntohs port) now c else c)"
      using \<open>x \<in> set (m_boxes r')\<close> unfolding r' box_set_boxes by blast
    show ?thesis
    proof (cases "bx_ptr c = p")
      case True
      then show ?thesis using c unique [OF c(1)] by simp
    next
      case False
      then show ?thesis using c by simp
    qed
  qed
  have here: "?b \<in> set (m_boxes r')" using b by (auto simp: r' box_set_boxes)
  have "best_box (expects_zone (client_ip b) server (ntohs port)) zone_await_ms (m_boxes r') None = Some ?b"
  proof (rule best_box_newest [OF _ here])
    show "expects_zone (client_ip b) server (ntohs port) ?b" using assms(3) by (simp add: expects_zone_def announce_def)
    show "zone_await_ms c < zone_await_ms ?b" if "c \<in> set (m_boxes r')" "c \<noteq> ?b" for c
      using boxes [OF that(1)] that(2) assms(6) by (auto simp: announce_def)
  qed simp
  then have "lookupByExpectedZone (client_ip b) server (ntohs port) r' = Some p"
    using b(2) by (simp add: lookupByExpectedZone_def announce_def)
  then show "pickBox (client_ip b) server cport (ntohs port) op t r' = Some (p, True, bind_zone p cport (ntohs port) r')"
    using assms(7,8) by (simp add: pickBox_def)
  let ?f = "\<lambda>b. b\<lparr>zone_client_port := cport, zone_server_port_bound := ntohs port\<rparr>"
  have free: "\<not> (client_ip c = client_ip b \<and> zone_client_port c = cport \<and> zone_server_port_bound c = ntohs port)"
    if "c \<in> set (m_boxes r')" for c
    using assms(7) that by (auto simp: lookupBoundZone_def find_None_iff)
  show "lookupBoundZone (client_ip b) cport (ntohs port) (bind_zone p cport (ntohs port) r') = Some p"
    unfolding lookupBoundZone_def bind_zone_def
  proof (rule find_ptr)
    have "?f ?b \<in> set (m_boxes (box_set p ?f r'))" using here b(2) unfolding box_set_boxes
      by (intro bexI [of _ ?b]) (simp_all add: announce_def)
    then show "\<exists>x \<in> set (m_boxes (box_set p ?f r')). client_ip x = client_ip b \<and> zone_client_port x = cport \<and>
        zone_server_port_bound x = ntohs port"
      by (rule bexI [rotated]) (simp add: announce_def)
  next
    fix x
    assume x: "x \<in> set (m_boxes (box_set p ?f r'))"
      "client_ip x = client_ip b \<and> zone_client_port x = cport \<and> zone_server_port_bound x = ntohs port"
    then obtain c where "c \<in> set (m_boxes r')" "x = (if bx_ptr c = p then ?f c else c)" unfolding box_set_boxes by blast
    then show "bx_ptr x = p" using x(2) free [of c] by (cases "bx_ptr c = p") simp_all
  qed
qed

text \<open>Two clients of one host, to both of which the port 7000 was announced: the second time counts.\<close>

definition zsi_payload :: bytes where
  "zsi_payload = replicate 128 0 @ le16_bytes 7000"

definition sample_waiting :: box_registry where
  "sample_waiting = box_set 0 (announce (ntohs 7000) 2100) (q_boxes sample_eq)"

lemma sample_waiting_inv: "registry_inv sample_waiting"
proof -
  have "registry_inv (q_boxes sample_eq)" by (rule eq_inv_registry [OF sample_eq_inv])
  then show ?thesis unfolding sample_waiting_def
    by (rule box_set_inv) (simp add: keeps_identity_def announce_def world_key_def)
qed

theorem announced_session_binds_its_client_witness:
  "\<exists>r'. zso_onDecodedPacket 1 zsi_payload kZsiLen DIR_Server (Some ''OP_ZoneServerInfo'') 2200 sample_waiting = Inr r' \<and>
     pickBox 10 0x1401000a (ntohs 6000) (ntohs 7000) OP_SessionRequest 2500 r'
       = Some (1, True, bind_zone 1 (ntohs 6000) (ntohs 7000) r')"
proof -
  have "map_sum id (\<lambda>b. (client_ip b, expected_zone_server_ip b)) (box_at 1 sample_waiting) = Inr (10, 0)" by code_simp
  then obtain b where b: "box_at 1 sample_waiting = Inr b" "client_ip b = 10" "expected_zone_server_ip b = 0"
    by (cases "box_at 1 sample_waiting") auto
  have port: "eqtohuint16 (drop 128 zsi_payload) = Inr 7000" by code_simp
  have others: "\<forall>c \<in> set (m_boxes sample_waiting). bx_ptr c = 1 \<or> zone_await_ms c < 2200" by code_simp
  let ?r = "box_set 1 (announce (ntohs 7000) 2200) sample_waiting"
  have zso: "zso_onDecodedPacket 1 zsi_payload kZsiLen DIR_Server (Some ''OP_ZoneServerInfo'') 2200 sample_waiting = Inr ?r"
    by (rule zso_announces [OF b(1) port])
  have "lookupBoundZone 10 (ntohs 6000) (ntohs 7000) ?r = None \<and> lookupBoundZone 0x1401000a (ntohs 7000) (ntohs 6000) ?r = None"
    by code_simp
  then have free: "lookupBoundZone (client_ip b) (ntohs 6000) (ntohs 7000) ?r = None"
    "lookupBoundZone 0x1401000a (ntohs 7000) (ntohs 6000) ?r = None" by (simp_all only: b(2))
  from announced_session_binds_its_client [OF sample_waiting_inv b(1,3) port zso others free] zso
  show ?thesis unfolding b(2) by blast
qed

section \<open>The sweep\<close>

lemma find_filter_same: "find P xs = Some x \<Longrightarrow> Q x \<Longrightarrow> find P (filter Q xs) = Some x"
  by (induction xs) (auto split: if_splits)

lemma find_filter_none: "find P xs = None \<Longrightarrow> find P (filter Q xs) = None"
  by (induction xs) (auto split: if_splits)

lemma evict_parts:
  assumes "registry_core r" "0 < ttl" "evictStale now ttl r = (n, r')"
  shows "m_boxes r' = filter (\<lambda>b. is_primary b \<or> currentBoxFor (m_activeCharacterId r) r = Some (bx_ptr b) \<or>
      now - ttl \<le> last_seen_ms b) (m_boxes r)" (is "_ = filter ?keep _")
    and "live p r' \<longleftrightarrow> live p r \<and> p \<notin> set (victims now ttl r)"
    and "m_characters r' = filter (\<lambda>c. \<exists>p. c_session c = Some p \<and> live p r') (m_characters r)"
proof -
  let ?V = "set (victims now ttl r)"
  note e = evictStale_result [OF assms(2), of now r, unfolded assms(3) fst_conv snd_conv]
  have "bx_ptr b \<in> ?V \<longleftrightarrow> \<not> ?keep b" if "b \<in> set (m_boxes r)" for b
    using victims_iff [OF assms(1) that] by (auto simp: evictable_def)
  then show "m_boxes r' = filter ?keep (m_boxes r)" unfolding e(2) by (intro filter_cong) auto
  have live: "live p r' \<longleftrightarrow> live p r \<and> p \<notin> ?V" for p by (auto simp: live_def e(2))
  then show "live p r' \<longleftrightarrow> live p r \<and> p \<notin> ?V" .
  show "m_characters r' = filter (\<lambda>c. \<exists>p. c_session c = Some p \<and> live p r') (m_characters r)"
    unfolding e(3) by (rule filter_cong) (use registry_coreD(6) [OF assms(1)] live in fastforce)+
qed

lemma evict_active:
  assumes core: "registry_core r" and "0 < ttl" "evictStale now ttl r = (n, r')"
  shows "currentBoxFor (m_activeCharacterId r) r' = currentBoxFor (m_activeCharacterId r) r" (is "currentBoxFor ?a r' = _")
proof (cases "currentBoxFor ?a r")
  case None
  note parts = evict_parts [OF assms]
  have "find (\<lambda>c. c_id c = ?a) (m_characters r) = None" "find (\<lambda>b. box_id b = ?a) (m_boxes r) = None"
    using None resolves_iff [OF core, of ?a] by (auto simp: find_None_iff image_iff)
  then show ?thesis using None by (simp add: currentBoxFor_def findById_def parts(1,3) find_filter_none)
next
  case (Some p)
  note parts = evict_parts [OF assms]
  have l: "live p r" by (rule currentBoxFor_live [OF core Some])
  then obtain x where "x \<in> set (m_boxes r)" "bx_ptr x = p" by (auto simp: live_def)
  then have p: "live p r'" using Some by (auto simp: live_def parts(1))
  show ?thesis
  proof (cases "find (\<lambda>c. c_id c = ?a) (m_characters r)")
    case row: (Some c)
    then have "c_session c = Some p" using Some by (simp add: currentBoxFor_def)
    then have "find (\<lambda>c. c_id c = ?a) (m_characters r') = Some c"
      unfolding parts(3) using p row by (intro find_filter_same) simp_all
    then show ?thesis using row by (simp add: currentBoxFor_def)
  next
    case none: None
    then obtain b where b: "find (\<lambda>b. box_id b = ?a) (m_boxes r) = Some b" "bx_ptr b = p"
      using Some by (auto simp: currentBoxFor_def findById_def)
    then have "find (\<lambda>b. box_id b = ?a) (m_boxes r') = Some b"
      unfolding parts(1) using Some by (intro find_filter_same) simp_all
    then show ?thesis using none b by (simp add: currentBoxFor_def findById_def parts(3) find_filter_none)
  qed
qed

lemma evict_victims:
  assumes core: "registry_core r" and "0 < ttl" "evictStale now ttl r = (n, r')"
  shows "victims now ttl r = map bx_ptr (filter (\<lambda>b. \<not> live (bx_ptr b) r') (m_boxes r))"
  unfolding victims_def by (intro arg_cong [of _ _ "map bx_ptr"] filter_cong)
    (use victims_iff [OF core] evict_parts(2) [OF assms] in \<open>auto simp: live_def\<close>)

text \<open>C23: the sweep keeps, in their order, exactly the primary client, the client of the active
  character and the clients heard of since the cutoff; it reports how many it removed, announces
  each before it is gone, drops the characters whose session went, and the active character still
  leads to the same client.\<close>

theorem eviction_exact:
  assumes "registry_inv r" "0 < ttl" "evictStale now ttl r = (n, r')"
  shows "m_boxes r' = filter (\<lambda>b. is_primary b \<or> currentBoxFor (m_activeCharacterId r) r = Some (bx_ptr b) \<or>
      now - ttl \<le> last_seen_ms b) (m_boxes r) \<and>
    n + length (m_boxes r') = length (m_boxes r) \<and>
    removed_boxes (drop (length (br_out r)) (br_out r')) = map bx_ptr (filter (\<lambda>b. \<not> live (bx_ptr b) r') (m_boxes r)) \<and>
    m_characters r' = filter (\<lambda>c. \<exists>p. c_session c = Some p \<and> live p r') (m_characters r) \<and>
    currentBoxFor (m_activeCharacterId r') r' = currentBoxFor (m_activeCharacterId r) r"
proof -
  have core: "registry_core r" using assms(1) by (simp add: registry_inv_def)
  note e = evictStale_result [OF assms(2), of now r, unfolded assms(3) fst_conv snd_conv]
  note parts = evict_parts [OF core assms(2,3)]
  have gone: "removed_boxes (drop (length (br_out r)) (br_out r')) = victims now ttl r"
    using sweep_gone [of r now ttl] assms(2,3) by simp
  have "bx_ptr b \<in> set (victims now ttl r) \<longleftrightarrow> \<not> live (bx_ptr b) r'" if "b \<in> set (m_boxes r)" for b
    using that parts(2) by (auto simp: live_def)
  then have "m_boxes r' = filter (\<lambda>b. live (bx_ptr b) r') (m_boxes r)" unfolding e(2) by (intro filter_cong) auto
  then have "n + length (m_boxes r') = length (m_boxes r)"
    using sum_length_filter_compl [of "\<lambda>b. live (bx_ptr b) r'" "m_boxes r"]
    by (simp add: e(1) evict_victims [OF core assms(2,3)])
  then show ?thesis
    using parts(1,3) gone evict_victims [OF core assms(2,3)] evict_active [OF core assms(2,3)] e(4) by simp
qed

theorem eviction_exact_witness:
  "\<exists>r'. evictStale 10000 5000 (q_boxes sample_eq) = (1, r') \<and> map bx_ptr (m_boxes r') = [0] \<and>
     currentBoxFor (m_activeCharacterId r') r' = Some 0"
proof -
  obtain n r' where ev: "evictStale 10000 5000 (q_boxes sample_eq) = (n, r')" by (rule prod.exhaust)
  have inv: "registry_inv (q_boxes sample_eq)" by (rule eq_inv_registry [OF sample_eq_inv])
  let ?r = "q_boxes sample_eq"
  have active: "currentBoxFor (m_activeCharacterId ?r) ?r = Some 0" by code_simp
  have "map (\<lambda>b. (bx_ptr b, is_primary b, last_seen_ms b)) (m_boxes ?r) = [(0, True, 1000), (1, False, 2000)]" by code_simp
  then obtain x y where boxes: "m_boxes ?r = [x, y]" "bx_ptr x = 0" "is_primary x" "bx_ptr y = 1" "\<not> is_primary y"
    "last_seen_ms y = 2000" by (auto simp: map_eq_Cons_conv)
  have "0 < (5000 :: int)" by simp
  note exact = eviction_exact [OF inv this ev]
  have kept: "m_boxes r' = [x]" using exact [THEN conjunct1] boxes active by simp
  then have "n = 1" using exact [THEN conjunct2, THEN conjunct1] boxes(1) by simp
  moreover have "currentBoxFor (m_activeCharacterId r') r' = Some 0" using exact active by simp
  ultimately show ?thesis using ev kept boxes(2) by simp
qed

end
