(* ===== verification/RemoteCapture.thy ===== *)
theory RemoteCapture
  imports EQSessions
begin

text \<open>
  Where the frames come from: the queue between the capture thread and the decoder
  (\<open>PacketCaptureProviderThread\<close>, \<open>src/packetcaptureprovider.cpp\<close>) and the remote source that fills
  it from a \<open>scry-agent\<close> over TCP (\<open>RemoteCaptureThread\<close>, \<open>src/remotecapture.cpp\<close>).

  A connection is the bytes that arrive on it until the peer closes it or the thread is stopped.
  The queue is locked around every access, so its operations are sequential.
\<close>

section \<open>The queue\<close>

record capture_queue =
  cq_items :: "(bytes \<times> int) list"
  cq_closed :: bool
  cq_offline_eof :: bool
  cq_lastCaptureMs :: int

definition mkCaptureQueue :: capture_queue where
  "mkCaptureQueue = \<lparr>cq_items = [], cq_closed = True, cq_offline_eof = False, cq_lastCaptureMs = 0\<rparr>"

definition signalOfflineEof :: "capture_queue \<Rightarrow> capture_queue" where
  "signalOfflineEof c = c\<lparr>cq_offline_eof := True\<rparr>"

definition enqueue :: "bytes \<Rightarrow> int \<Rightarrow> capture_queue \<Rightarrow> capture_queue" where
  "enqueue data ts c = (if \<not> cq_closed c then c\<lparr>cq_items := cq_items c @ [(data, ts)]\<rparr> else c)"

definition offlinePlaybackComplete :: "capture_queue \<Rightarrow> bool" where
  "offlinePlaybackComplete c \<longleftrightarrow> cq_offline_eof c \<and> cq_items c = []"

text \<open>The length is returned in 16 bits, and as many bytes are copied into the caller's buffer,
  whose size \<open>cap\<close> is not known to the code: copying past it is \<open>OutOfBounds\<close>.\<close>

definition getPacket :: "nat \<Rightarrow> capture_queue \<Rightarrow> (u16 \<times> bytes \<times> capture_queue) res" where
  "getPacket cap c =
     (case cq_items c of
        [] \<Rightarrow> Inr (0, [], c)
      | (data, ts) # rest \<Rightarrow>
          let ret = of_nat (length data) :: u16
          in if cap < unat ret then Inl OutOfBounds
             else Inr (ret, take (unat ret) data, c\<lparr>cq_items := rest, cq_lastCaptureMs := ts\<rparr>))"

text \<open>The loop of \<open>EQPacket::processPackets\<close>: a result of 0 ends it. \<open>BUFSIZ\<close> is glibc's.\<close>

definition BUFSIZ :: nat where "BUFSIZ = 8192"

function drain :: "capture_queue \<Rightarrow> ((u16 \<times> bytes \<times> int) list \<times> capture_queue) res" where
  "drain c =
     (if cq_items c = [] then Inr ([], c)
      else rbind (getPacket BUFSIZ c) (\<lambda>(size, buffer, c').
        if size = 0 then Inr ([], c')
        else rbind (drain c') (\<lambda>(fs, c''). Inr ((size, buffer, cq_lastCaptureMs c') # fs, c''))))"
  by pat_completeness auto

termination drain
  by (relation "measure (\<lambda>c. length (cq_items c))")
    (auto simp: getPacket_def Let_def split: list.splits if_splits)

declare drain.simps [simp del]

section \<open>Messages of the agent\<close>

definition SEQ_VERSION :: u8 where "SEQ_VERSION = 2"
definition SEQ_TYPE_FRAME :: u8 where "SEQ_TYPE_FRAME = 1"
definition SEQ_TYPE_CLIENT_HELLO :: u8 where "SEQ_TYPE_CLIENT_HELLO = 2"
definition SEQ_TYPE_HELLO :: u8 where "SEQ_TYPE_HELLO = 3"
definition SEQ_ENVELOPE_LEN :: nat where "SEQ_ENVELOPE_LEN = 8"
definition SEQ_FRAME_PREFIX :: nat where "SEQ_FRAME_PREFIX = 12"
definition SEQ_HELLO_PREFIX :: nat where "SEQ_HELLO_PREFIX = 8"
definition SEQ_MAX_CAPLEN :: u32 where "SEQ_MAX_CAPLEN = 262144"
definition SEQ_MAX_PAYLOAD :: u32 where "SEQ_MAX_PAYLOAD = SEQ_MAX_CAPLEN + of_nat SEQ_FRAME_PREFIX"

lemmas seq_defs = SEQ_VERSION_def SEQ_TYPE_FRAME_def SEQ_TYPE_CLIENT_HELLO_def SEQ_TYPE_HELLO_def
  SEQ_ENVELOPE_LEN_def SEQ_FRAME_PREFIX_def SEQ_HELLO_PREFIX_def SEQ_MAX_CAPLEN_def SEQ_MAX_PAYLOAD_def

definition rdU32 :: "bytes \<Rightarrow> u32 res" where
  "rdU32 p = eqtohuint32 p"

definition rdU64 :: "bytes \<Rightarrow> u64 res" where
  "rdU64 p = rbind (rdU32 p) (\<lambda>lo. rbind (rdU32 (drop 4 p)) (\<lambda>hi. Inr (ucast lo OR push_bit 32 (ucast hi))))"

text \<open>\<open>readFull\<close>: exactly \<open>n\<close> bytes, or the connection ends first.\<close>

definition readFull :: "nat \<Rightarrow> bytes \<Rightarrow> (bytes \<times> bytes) option" where
  "readFull n s = (if n \<le> length s then Some (take n s, drop n s) else None)"

text \<open>One envelope and its payload: the type, the payload and what follows. \<open>None\<close> gives the
  connection up.\<close>

definition readMsg :: "bytes \<Rightarrow> (u8 \<times> bytes \<times> bytes) option res" where
  "readMsg s =
     (case readFull SEQ_ENVELOPE_LEN s of
        None \<Rightarrow> Inr None
      | Some (env, s) \<Rightarrow>
          rbind (rd env 0) (\<lambda>m0. rbind (rd env 1) (\<lambda>m1.
          if m0 \<noteq> 0x53 \<or> m1 \<noteq> 0x51 then Inr None
          else rbind (rd env 2) (\<lambda>version.
          if version \<noteq> SEQ_VERSION then Inr None
          else rbind (rd env 3) (\<lambda>type. rbind (rdU32 (drop 4 env)) (\<lambda>len.
          if SEQ_MAX_PAYLOAD < len then Inr None
          else if len = 0 then Inr (Some (type, [], s))
          else Inr (case readFull (unat len) s of
                      None \<Rightarrow> None
                    | Some (payload, s) \<Rightarrow> Some (type, payload, s))))))))"

lemma readMsg_shorter: "readMsg s = Inr (Some (ty, p, s')) \<Longrightarrow> length s' < length s"
  by (auto simp: readMsg_def readFull_def result_simps SEQ_ENVELOPE_LEN_def split: if_splits option.splits)

text \<open>Everything ahead of the agent's \<open>Hello\<close> is skipped; the result is the link type and what follows.\<close>

function readHello :: "bytes \<Rightarrow> (int \<times> bytes) option res" where
  "readHello s =
     rbind (readMsg s) (\<lambda>m. case m of
       None \<Rightarrow> Inr None
     | Some (type, payload, s') \<Rightarrow>
         if type \<noteq> SEQ_TYPE_HELLO then readHello s'
         else if length payload < SEQ_HELLO_PREFIX then Inr None
         else rbind (rdU32 payload) (\<lambda>w. Inr (Some (sint w, s'))))"
  by pat_completeness auto

termination readHello
  by (relation "measure length") (auto dest: readMsg_shorter)

text \<open>\<open>pumpFrames\<close>: the number of frames received and the queue.\<close>

function pumpFrames :: "bytes \<Rightarrow> nat \<Rightarrow> capture_queue \<Rightarrow> (nat \<times> capture_queue) res" where
  "pumpFrames s frames c =
     rbind (readMsg s) (\<lambda>m. case m of
       None \<Rightarrow> Inr (frames, c)
     | Some (type, payload, s') \<Rightarrow>
         if type \<noteq> SEQ_TYPE_FRAME then pumpFrames s' frames c
         else if length payload < SEQ_FRAME_PREFIX then Inr (frames, c)
         else rbind (rdU64 payload) (\<lambda>tsMicros.
           if length payload - SEQ_FRAME_PREFIX = 0 then pumpFrames s' frames c
           else pumpFrames s' (Suc frames)
                  (enqueue (drop SEQ_FRAME_PREFIX payload) (int (unat (tsMicros div 1000))) c)))"
  by pat_completeness auto

termination pumpFrames
  by (relation "measure (\<lambda>(s, frames, c). length s)") (auto dest: readMsg_shorter)

declare readHello.simps [simp del] pumpFrames.simps [simp del]

section \<open>The link\<close>

definition sendClientHello :: "bytes \<Rightarrow> bytes option" where
  "sendClientHello filt =
     (let len = of_nat (length filt) :: u32
      in if SEQ_MAX_PAYLOAD < len then None
         else Some ([0x53, 0x51, SEQ_VERSION, SEQ_TYPE_CLIENT_HELLO] @ le32_bytes len @ filt))"

definition IP_ADDRESS_TYPE :: u8 where "IP_ADDRESS_TYPE = 11"
definition MAC_ADDRESS_TYPE :: u8 where "MAC_ADDRESS_TYPE = 12"

definition AUTOMATIC_CLIENT_IP :: string where "AUTOMATIC_CLIENT_IP = ''127.0.0.0''"

definition rc_setFilter :: "string option \<Rightarrow> u8 \<Rightarrow> string" where
  "rc_setFilter hostname address_type =
     (let f = ''udp[0:2] > 1024 and udp[2:2] > 1024 and not port 5353 and not net 224.0.0.0/4'';
          host = (case hostname of None \<Rightarrow> [] | Some h \<Rightarrow> h);
          haveHost = (host \<noteq> [] \<and> host \<noteq> AUTOMATIC_CLIENT_IP);
          f = (if address_type = IP_ADDRESS_TYPE \<and> haveHost
               then f @ '' and '' @ (if CHR ''/'' \<in> set host then ''net'' else ''host'') @ '' '' @ host
               else if address_type = MAC_ADDRESS_TYPE \<and> haveHost then f @ '' and ether host '' @ host
               else f)
      in f @ '' and ether proto 0x800 and not broadcast and not multicast'')"

text \<open>The delay before the next attempt to connect.\<close>

definition next_backoff :: "nat \<Rightarrow> nat" where
  "next_backoff ms = (if ms < 5000 then ms * 2 else 5000)"

text \<open>\<open>run\<close> over the attempts to connect, \<open>None\<close> for one that failed: the delays slept, the queue and
  the link type at the end.\<close>

fun rc_run :: "bytes \<Rightarrow> bytes option list \<Rightarrow> nat \<Rightarrow> int \<Rightarrow> capture_queue \<Rightarrow> (nat list \<times> int \<times> capture_queue) res" where
  "rc_run filt [] backoff link c = Inr ([], link, c)"
| "rc_run filt (None # ss) backoff link c =
     rbind (rc_run filt ss (next_backoff backoff) link c) (\<lambda>(ds, link, c). Inr (backoff # ds, link, c))"
| "rc_run filt (Some s # ss) backoff link c =
     rbind (if sendClientHello filt = None then Inr (backoff, link, c)
            else rbind (readHello s) (\<lambda>h. case h of
              None \<Rightarrow> Inr (backoff, link, c)
            | Some (l, s') \<Rightarrow> rbind (pumpFrames s' 0 c) (\<lambda>(n, c). Inr (500, l, c)))) (\<lambda>(backoff, link, c).
     rbind (rc_run filt ss (next_backoff backoff) link c) (\<lambda>(ds, link, c). Inr (backoff # ds, link, c)))"

text \<open>The constructor: host and port of the target; \<open>toUShort\<close> is \<open>QString::toUShort\<close>, 0 for what is
  no number.\<close>

definition last_colon :: "string \<Rightarrow> nat option" where
  "last_colon t = (let after = takeWhile (\<lambda>ch. ch \<noteq> CHR '':'') (rev t)
     in if length after = length t then None else Some (length t - length after - 1))"

definition rc_target :: "(string \<Rightarrow> u16) \<Rightarrow> string \<Rightarrow> string \<times> u16" where
  "rc_target toUShort t =
     (case last_colon t of
        None \<Rightarrow> (t, 9099)
      | Some colon \<Rightarrow>
          if colon = 0 then (t, 9099)
          else let p = toUShort (drop (colon + 1) t) in (take colon t, if p \<noteq> 0 then p else 9099))"

section \<open>What an agent sends\<close>

datatype seqa_msg = SeqaFrame u64 u32 bytes | SeqaOther u8 bytes

fun seqa_type :: "seqa_msg \<Rightarrow> u8" where
  "seqa_type (SeqaFrame ts origlen d) = SEQ_TYPE_FRAME"
| "seqa_type (SeqaOther ty p) = ty"

fun seqa_payload :: "seqa_msg \<Rightarrow> bytes" where
  "seqa_payload (SeqaFrame ts origlen d) = le64_bytes ts @ le32_bytes origlen @ d"
| "seqa_payload (SeqaOther ty p) = p"

definition seqa_bytes :: "seqa_msg \<Rightarrow> bytes" where
  "seqa_bytes m = [0x53, 0x51, SEQ_VERSION, seqa_type m] @ le32_bytes (of_nat (length (seqa_payload m))) @ seqa_payload m"

definition seqa_ok :: "seqa_msg \<Rightarrow> bool" where
  "seqa_ok m \<longleftrightarrow> length (seqa_payload m) \<le> unat SEQ_MAX_PAYLOAD"

text \<open>A message that is not a frame.\<close>

definition seqa_plain :: "seqa_msg \<Rightarrow> bool" where
  "seqa_plain m \<longleftrightarrow> (case m of SeqaFrame ts n d \<Rightarrow> True | SeqaOther ty p \<Rightarrow> ty \<noteq> SEQ_TYPE_FRAME)"

definition frame_of :: "seqa_msg \<Rightarrow> (bytes \<times> int) list" where
  "frame_of m = (case m of SeqaFrame ts n d \<Rightarrow> if d = [] then [] else [(d, int (unat (ts div 1000)))] | SeqaOther ty p \<Rightarrow> [])"

lemma max_payload: "SEQ_MAX_PAYLOAD = 262156" "unat SEQ_MAX_PAYLOAD = 262156"
  by (simp_all add: SEQ_MAX_PAYLOAD_def SEQ_MAX_CAPLEN_def SEQ_FRAME_PREFIX_def)

lemma readMsg_bytes:
  assumes "seqa_ok m"
  shows "readMsg (seqa_bytes m @ r) = Inr (Some (seqa_type m, seqa_payload m, r))"
proof -
  let ?n = "length (seqa_payload m)" and ?w = "of_nat (length (seqa_payload m)) :: u32"
  have n: "?n \<le> 262156" using assms by (simp add: seqa_ok_def max_payload)
  then have w: "unat ?w = ?n" by (simp add: unat_of_nat take_bit_eq_mod)
  let ?env = "[0x53, 0x51, SEQ_VERSION, seqa_type m] @ le32_bytes ?w"
  have env: "readFull SEQ_ENVELOPE_LEN (seqa_bytes m @ r) = Some (?env, seqa_payload m @ r)"
    by (simp add: readFull_def seqa_bytes_def SEQ_ENVELOPE_LEN_def)
  have len: "rdU32 (drop 4 ?env) = Inr ?w" using eqtohuint32_encode [of ?w "[]"] by (simp add: rdU32_def)
  have small: "\<not> SEQ_MAX_PAYLOAD < ?w" using n w by (simp add: word_less_nat_alt max_payload)
  have body: "readFull ?n (seqa_payload m @ r) = Some (seqa_payload m, r)" by (simp add: readFull_def)
  have zero: "?w = 0 \<longleftrightarrow> seqa_payload m = []" using w unat_eq_zero [of ?w] by simp
  have rds: "rd ?env 0 = Inr 0x53" "rd ?env 1 = Inr 0x51" "rd ?env 2 = Inr SEQ_VERSION" "rd ?env 3 = Inr (seqa_type m)"
    by (simp_all add: rd_def)
  show ?thesis
    unfolding readMsg_def env option.case prod.case rds len rbind.simps
    using small body zero w by (cases "seqa_payload m = []") simp_all
qed

lemma pump_one:
  assumes "seqa_ok m" "seqa_plain m" "\<not> cq_closed c"
  shows "pumpFrames (seqa_bytes m @ r) k c = pumpFrames r (k + length (frame_of m)) (c\<lparr>cq_items := cq_items c @ frame_of m\<rparr>)"
proof (cases m)
  case (SeqaFrame ts n d)
  have "rdU64 (le64_bytes ts @ le32_bytes n @ d) = Inr ts"
    using le64_split [of ts] by (simp add: rdU64_def rdU32_def le64_bytes_def or.commute)
  then show ?thesis
    using assms(3) unfolding pumpFrames.simps [of "seqa_bytes m @ r"] readMsg_bytes [OF assms(1)] rbind.simps option.case prod.case
    by (simp add: SeqaFrame frame_of_def enqueue_def SEQ_FRAME_PREFIX_def)
next
  case (SeqaOther ty p)
  then show ?thesis
    using assms(2) unfolding pumpFrames.simps [of "seqa_bytes m @ r"] readMsg_bytes [OF assms(1)] rbind.simps option.case prod.case
    by (simp add: frame_of_def seqa_plain_def)
qed

lemma pump_all:
  assumes "list_all (\<lambda>m. seqa_ok m \<and> seqa_plain m) ms" "\<not> cq_closed c"
  shows "pumpFrames (concat (map seqa_bytes ms)) k c
    = Inr (k + length (concat (map frame_of ms)), c\<lparr>cq_items := cq_items c @ concat (map frame_of ms)\<rparr>)"
  using assms
proof (induction ms arbitrary: k c)
  case Nil
  then show ?case by (simp add: pumpFrames.simps [of "[]"] readMsg_def readFull_def SEQ_ENVELOPE_LEN_def)
next
  case (Cons m ms)
  then show ?case by (simp add: pump_one)
qed

lemma hello_skips:
  assumes "list_all (\<lambda>m. seqa_ok m \<and> seqa_type m \<noteq> SEQ_TYPE_HELLO) ms"
  shows "readHello (concat (map seqa_bytes ms) @ r) = readHello r"
  using assms by (induction ms) (simp_all add: readHello.simps [of "seqa_bytes m @ r" for m r] readMsg_bytes)

lemma drain_all:
  assumes "list_all (\<lambda>(d, t). d \<noteq> [] \<and> length d \<le> BUFSIZ) (cq_items c)"
  shows "\<exists>c'. drain c = Inr (map (\<lambda>(d, t). (of_nat (length d), d, t)) (cq_items c), c') \<and> cq_items c' = []"
  using assms
proof (induction "cq_items c" arbitrary: c)
  case Nil
  then show ?case by (simp add: drain.simps)
next
  case (Cons x xs)
  obtain d t where x: "x = (d, t)" by (cases x)
  have items: "cq_items c = (d, t) # xs" using Cons.hyps(2) x by simp
  then have d: "d \<noteq> []" "length d \<le> 8192" using Cons.prems by (simp_all add: BUFSIZ_def)
  then have w: "unat (of_nat (length d) :: u16) = length d" by (simp add: unat_of_nat take_bit_eq_mod)
  then have nz: "(of_nat (length d) :: u16) \<noteq> 0" using d(1) unat_eq_zero [of "of_nat (length d) :: u16"] by simp
  let ?c = "c\<lparr>cq_items := xs, cq_lastCaptureMs := t\<rparr>"
  have get: "getPacket BUFSIZ c = Inr (of_nat (length d), d, ?c)"
    using d(2) w by (simp add: getPacket_def items BUFSIZ_def)
  from Cons.hyps(1) [of ?c] Cons.prems items obtain c' where
    "drain ?c = Inr (map (\<lambda>(d, t). (of_nat (length d), d, t)) xs, c')" "cq_items c' = []" by auto
  then show ?case by (simp add: drain.simps [of c] items get nz)
qed

section \<open>From the agent to the decoder\<close>

text \<open>Whatever an agent sends ahead of its \<open>Hello\<close> is skipped, and of what follows every non-empty
  frame reaches the queue once, in order and with its time in milliseconds, messages of unknown
  type being skipped by their length; the decoder then takes exactly those frames from the queue
  when each fits its buffer.\<close>

theorem remote_frames_reach_decoder:
  assumes "list_all (\<lambda>m. seqa_ok m \<and> seqa_type m \<noteq> SEQ_TYPE_HELLO) early"
    "seqa_ok (SeqaOther SEQ_TYPE_HELLO (le32_bytes link @ le32_bytes snaplen @ filt))"
    "list_all (\<lambda>m. seqa_ok m \<and> seqa_plain m) ms" "sendClientHello request \<noteq> None"
    "\<not> cq_closed c" "cq_items c = []" "list_all (\<lambda>(d, t). length d \<le> BUFSIZ) (concat (map frame_of ms))"
  defines "wire \<equiv> concat (map seqa_bytes early) @
    seqa_bytes (SeqaOther SEQ_TYPE_HELLO (le32_bytes link @ le32_bytes snaplen @ filt)) @ concat (map seqa_bytes ms)"
  shows "\<exists>c' c''. rc_run request [Some wire] backoff l c = Inr ([500], sint link, c') \<and>
    cq_items c' = concat (map frame_of ms) \<and>
    drain c' = Inr (map (\<lambda>(d, t). (of_nat (length d), d, t)) (concat (map frame_of ms)), c'') \<and> cq_items c'' = []"
proof -
  let ?hello = "SeqaOther SEQ_TYPE_HELLO (le32_bytes link @ le32_bytes snaplen @ filt)"
  let ?frames = "concat (map frame_of ms)" and ?rest = "concat (map seqa_bytes ms)"
  let ?c = "c\<lparr>cq_items := ?frames\<rparr>"
  have "readHello wire = readHello (seqa_bytes ?hello @ ?rest)"
    unfolding wire_def by (rule hello_skips [OF assms(1)])
  also have "\<dots> = Inr (Some (sint link, ?rest))"
    by (simp add: readHello.simps [of "seqa_bytes ?hello @ ?rest"] readMsg_bytes [OF assms(2)] SEQ_HELLO_PREFIX_def rdU32_def)
  finally have hello: "readHello wire = Inr (Some (sint link, ?rest))" .
  obtain x where request: "sendClientHello request = Some x" using assms(4) by blast
  have "pumpFrames ?rest 0 c = Inr (length ?frames, ?c)" using pump_all [OF assms(3,5), of 0] assms(6) by simp
  then have run: "rc_run request [Some wire] backoff l c = Inr ([500], sint link, ?c)"
    using hello by (simp add: request)
  have "x \<in> set (frame_of m) \<Longrightarrow> fst x \<noteq> []" for x m by (auto simp: frame_of_def split: seqa_msg.splits if_splits)
  then have "list_all (\<lambda>(d, t). d \<noteq> [] \<and> length d \<le> BUFSIZ) (cq_items ?c)"
    using assms(7) by (fastforce simp: list_all_iff)
  from drain_all [OF this] run show ?thesis by auto
qed

theorem remote_frames_reach_decoder_witness:
  "\<exists>c' c''. rc_run [] [Some (seqa_bytes (SeqaOther 9 [1]) @
      seqa_bytes (SeqaOther SEQ_TYPE_HELLO (le32_bytes 1 @ le32_bytes 65535 @ [])) @
      concat (map seqa_bytes [SeqaFrame 5000 2 [7, 8], SeqaOther 6 [], SeqaFrame 6000 0 []]))] 500 0
      (mkCaptureQueue\<lparr>cq_closed := False\<rparr>) = Inr ([500], 1, c') \<and>
     drain c' = Inr ([(2, [7, 8], 5)], c'')"
proof -
  let ?c = "mkCaptureQueue\<lparr>cq_closed := False\<rparr>" and ?ms = "[SeqaFrame 5000 2 [7, 8], SeqaOther 6 [], SeqaFrame 6000 0 []]"
  have early: "list_all (\<lambda>m. seqa_ok m \<and> seqa_type m \<noteq> SEQ_TYPE_HELLO) [SeqaOther 9 [1]]"
    and hello: "seqa_ok (SeqaOther SEQ_TYPE_HELLO (le32_bytes 1 @ le32_bytes 65535 @ []))"
    and ms: "list_all (\<lambda>m. seqa_ok m \<and> seqa_plain m) ?ms"
    and req: "sendClientHello [] \<noteq> None" and q: "\<not> cq_closed ?c" "cq_items ?c = []"
    by (simp_all add: seqa_ok_def seqa_plain_def max_payload seq_defs sendClientHello_def mkCaptureQueue_def le64_bytes_def)
  have frames: "concat (map frame_of ?ms) = [([7, 8], 5)]" by (simp add: frame_of_def)
  then have fit: "list_all (\<lambda>(d, t). length d \<le> BUFSIZ) (concat (map frame_of ?ms))" by (simp only:) (simp add: BUFSIZ_def)
  from remote_frames_reach_decoder [OF early hello ms req q fit, of 500 0] show ?thesis
    unfolding frames by (auto simp del: rc_run.simps)
qed

text \<open>A frame that the link accepts but that is larger than the decoder's buffer is not refused:
  its length is cut to 16 bits; if what is left exceeds the 8192 bytes of the buffer, the buffer is
  overrun, and a length that is a multiple of 65536 reads as an empty queue, so that the frame is
  lost and the decoder stops although there are more.\<close>

theorem oversized_frame_overruns_buffer:
  assumes "cq_items c = (d, t) # later"
  shows "(drain c = Inl OutOfBounds \<longleftrightarrow> BUFSIZ < length d mod 65536 \<or>
      (length d mod 65536 \<noteq> 0 \<and> drain (c\<lparr>cq_items := later, cq_lastCaptureMs := t\<rparr>) = Inl OutOfBounds)) \<and>
    (length d mod 65536 = 0 \<longrightarrow> drain c = Inr ([], c\<lparr>cq_items := later, cq_lastCaptureMs := t\<rparr>))"
proof -
  let ?w = "of_nat (length d) :: u16" and ?c = "c\<lparr>cq_items := later, cq_lastCaptureMs := t\<rparr>"
  have w: "unat ?w = length d mod 65536" by (simp add: unat_of_nat take_bit_eq_mod)
  then have z: "?w = 0 \<longleftrightarrow> length d mod 65536 = 0" using unat_eq_zero [of ?w] by simp
  have get: "getPacket BUFSIZ c = (if BUFSIZ < length d mod 65536 then Inl OutOfBounds
      else Inr (?w, take (length d mod 65536) d, ?c))"
    by (simp add: getPacket_def assms w Let_def)
  show ?thesis
    by (cases "drain ?c") (auto simp: drain.simps [of c] assms get z)
qed

theorem oversized_frame_overruns_buffer_witness:
  "\<exists>d c. pumpFrames (seqa_bytes (SeqaFrame 0 0 d)) 0 (mkCaptureQueue\<lparr>cq_closed := False\<rparr>) = Inr (1, c) \<and>
     drain c = Inl OutOfBounds"
proof -
  let ?d = "replicate 9000 0 :: bytes" and ?c = "mkCaptureQueue\<lparr>cq_closed := False\<rparr>"
  let ?m = "SeqaFrame 0 0 ?d"
  have "list_all (\<lambda>m. seqa_ok m \<and> seqa_plain m) [?m]" by (simp add: seqa_ok_def seqa_plain_def max_payload le64_bytes_def)
  moreover have "frame_of ?m = [(?d, 0)]" by (simp add: frame_of_def)
  ultimately have "pumpFrames (seqa_bytes ?m) 0 ?c = Inr (1, ?c\<lparr>cq_items := [(?d, 0)]\<rparr>)"
    using pump_all [of "[?m]" ?c 0] by (simp add: mkCaptureQueue_def)
  moreover have "drain (?c\<lparr>cq_items := [(?d, 0)]\<rparr>) = Inl OutOfBounds"
    using oversized_frame_overruns_buffer [of "?c\<lparr>cq_items := [(?d, 0)]\<rparr>" ?d 0 "[]"] by (simp add: BUFSIZ_def)
  ultimately show ?thesis by blast
qed

end
