(* ===== verification/Spawn.thy ===== *)
theory Spawn
  imports PacketInfo
begin

text \<open>
  What stands in a zone: \<open>Item\<close> and its subclasses \<open>Spawn\<close>, \<open>Door\<close> and \<open>Drop\<close> of \<open>src/spawn.h\<close> and
  \<open>src/spawn.cpp\<close>, with the wire form \<open>spawnStruct\<close> of \<open>src/backend/live/everquest.h\<close>.

  Signed C++ fields are words of their width, read with \<open>sint\<close>. A \<open>QString\<close> is a \<open>string\<close>; the
  conversion from UTF-8 is left out. An array of fixed length is a function on its indices. A
  \<open>float\<close> is its 32 bits, converted by functions of the environment.
\<close>

section \<open>The environment\<close>

text \<open>Clocks (milliseconds of the day, seconds), settings, and conversions of the C library.\<close>

record clock =
  ck_msec :: int
  ck_time :: int

record float_ops =
  fo_int16 :: "u32 \<Rightarrow> u16"
  fo_int16_x10 :: "u32 \<Rightarrow> u16"
  fo_lrint8 :: "u32 \<Rightarrow> u8"
  fo_lrint16 :: "u32 \<Rightarrow> u16"

section \<open>Items\<close>

datatype spawnItemType = TUnknown | TDoors | TDrop | TSpawn | TPlayer

record item =
  it_type :: spawnItemType
  it_id :: u16
  it_name :: string
  it_filterFlags :: u32
  it_runtimeFilterFlags :: u32
  it_lastUpdate :: int
  it_spawnTime :: int
  it_lastChanged :: int
  it_NPC :: u8
  it_heading :: u8
  it_pos :: "u16 \<times> u16 \<times> u16"

definition SPAWN_PLAYER :: u8 where "SPAWN_PLAYER = 0"
definition SPAWN_NPC :: u8 where "SPAWN_NPC = 1"
definition SPAWN_PC_CORPSE :: u8 where "SPAWN_PC_CORPSE = 2"
definition SPAWN_NPC_CORPSE :: u8 where "SPAWN_NPC_CORPSE = 3"
definition SPAWN_NPC_UNKNOWN :: u8 where "SPAWN_NPC_UNKNOWN = 4"
definition SPAWN_DROP :: u8 where "SPAWN_DROP = 6"
definition SPAWN_DOOR :: u8 where "SPAWN_DOOR = 7"
definition SPAWN_SELF :: u8 where "SPAWN_SELF = 10"

lemmas SPAWN_defs = SPAWN_PLAYER_def SPAWN_NPC_def SPAWN_PC_CORPSE_def SPAWN_NPC_CORPSE_def
  SPAWN_NPC_UNKNOWN_def SPAWN_DROP_def SPAWN_DOOR_def SPAWN_SELF_def

definition mkItem :: "clock \<Rightarrow> spawnItemType \<Rightarrow> u16 \<Rightarrow> item" where
  "mkItem ck t i = \<lparr>it_type = t, it_id = i, it_name = '''', it_filterFlags = 0, it_runtimeFilterFlags = 0,
     it_lastUpdate = ck_msec ck, it_spawnTime = ck_msec ck, it_lastChanged = ck_time ck,
     it_NPC = 99, it_heading = 0, it_pos = (0, 0, 0)\<rparr>"

definition updateLast :: "clock \<Rightarrow> 'a item_scheme \<Rightarrow> 'a item_scheme" where
  "updateLast ck i = i\<lparr>it_lastUpdate := ck_msec ck\<rparr>"

definition updateLastChanged :: "clock \<Rightarrow> 'a item_scheme \<Rightarrow> 'a item_scheme" where
  "updateLastChanged ck i = i\<lparr>it_lastChanged := ck_time ck\<rparr>"

definition item_setPos :: "u16 \<Rightarrow> u16 \<Rightarrow> u16 \<Rightarrow> 'a item_scheme \<Rightarrow> 'a item_scheme" where
  "item_setPos x y z i = i\<lparr>it_pos := (x, y, z)\<rparr>"

section \<open>Spawns\<close>

record equip =
  eq_equip0 :: u32
  eq_equip1 :: u32
  eq_equip2 :: u32
  eq_itemId :: u32
  eq_equip3 :: u32

definition SlotEmpty :: equip where
  "SlotEmpty = \<lparr>eq_equip0 = 0, eq_equip1 = 0, eq_equip2 = 0, eq_itemId = 0, eq_equip3 = 0\<rparr>"

text \<open>\<open>int m_level\<close> and \<open>int32_t\<close> hit points are 32-bit words.\<close>

record spawn = item +
  sp_lastName :: string
  sp_guildTag :: string
  sp_track :: "(u16 \<times> u16 \<times> u16) list"
  sp_cooked :: "u32 \<times> u32 \<times> u32"
  sp_delta :: "u16 \<times> u16 \<times> u16"
  sp_deltaHeading :: u8
  sp_petOwnerID :: u16
  sp_curHP :: u32
  sp_maxHP :: u32
  sp_guildID :: u16
  sp_guildServerID :: u16
  sp_deity :: u16
  sp_deityTeam :: u16
  sp_equipment :: "nat \<Rightarrow> equip"
  sp_race :: u16
  sp_raceTeam :: u16
  sp_level :: u32
  sp_gender :: u8
  sp_class :: u8
  sp_classMask :: u32
  sp_light :: u8
  sp_typeflag :: u8
  sp_animation :: u8
  sp_gm :: u8
  sp_isMount :: bool
  sp_isMercenary :: bool
  sp_isAura :: bool
  sp_considered :: bool
  sp_notUpdated :: bool
  sp_locked :: bool

definition isCorpse :: "'a item_scheme \<Rightarrow> bool" where
  "isCorpse s \<longleftrightarrow> it_NPC s = SPAWN_PC_CORPSE \<or> it_NPC s = SPAWN_NPC_CORPSE"

definition isPlayer :: "'a item_scheme \<Rightarrow> bool" where
  "isPlayer s \<longleftrightarrow> it_NPC s = SPAWN_PLAYER \<or> it_NPC s = SPAWN_SELF"

subsection \<open>Teams and mounts\<close>

definition DTEAM_of :: "u16 \<Rightarrow> u16" where
  "DTEAM_of d =
     (if d \<in> {204, 208, 212, 210, 215} then 1
      else if d \<in> {202, 205, 207, 209, 213, 214, 216} then 2
      else if d \<in> {201, 203, 206, 211} then 3
      else 5)"

definition setDeity :: "u16 \<Rightarrow> spawn \<Rightarrow> spawn" where
  "setDeity d s = s\<lparr>sp_deity := d, sp_deityTeam := DTEAM_of d\<rparr>"

definition RTEAM_of :: "u16 \<Rightarrow> u16" where
  "RTEAM_of r =
     (if r \<in> {1, 2, 3, 130} then 1
      else if r \<in> {4, 5, 7} then 2
      else if r \<in> {6, 9, 10, 128} then 3
      else if r \<in> {8, 11, 12} then 4
      else 5)"

definition setRace :: "u16 \<Rightarrow> spawn \<Rightarrow> spawn" where
  "setRace r s = s\<lparr>sp_race := r, sp_raceTeam := RTEAM_of r\<rparr>"

definition calcIsMount :: "u32 \<Rightarrow> u8 \<Rightarrow> bool" where
  "calcIsMount race level \<longleftrightarrow> level = 30 \<and>
     race \<in> {216, 348, 492, 517, 518, 519, 583, 584, 594, 597, 598, 623, 625, 631, 652, 654, 655, 656, 657,
       671, 672, 673, 674, 675, 676, 677, 679, 680, 682, 684, 709, 720, 721, 751, 752, 753, 754, 757, 794,
       795, 835, 836, 850, 853, 854, 859, 861, 875, 885, 898, 903, 911, 912, 921, 923, 952, 953, 954, 961}"

subsection \<open>Movement\<close>

text \<open>\<open>animationCoefficientFixPt\<close>: \<open>0.0013 * 2 ^ 14\<close> cut to an integer.\<close>

definition qFormat :: nat where "qFormat = 14"

definition animationCoefficientFixPt :: u32 where "animationCoefficientFixPt = 21"

definition setDeltas :: "u16 \<Rightarrow> u16 \<Rightarrow> u16 \<Rightarrow> spawn \<Rightarrow> spawn" where
  "setDeltas dx dy dz s =
     s\<lparr>sp_delta := (dx, dy, dz),
       sp_cooked := (animationCoefficientFixPt * scast dx, animationCoefficientFixPt * scast dy,
                     animationCoefficientFixPt * scast dz)\<rparr>"

definition setHeading :: "u8 \<Rightarrow> u8 \<Rightarrow> spawn \<Rightarrow> spawn" where
  "setHeading h dh s = s\<lparr>it_heading := h, sp_deltaHeading := dh\<rparr>"

text \<open>\<open>Spawn::setPos\<close> with the track of a spawn: \<open>rec\<close> and \<open>len\<close> are the settings
  \<open>walkpathrecord\<close> and \<open>walkpathlength\<close>.\<close>

definition setPos :: "u16 \<Rightarrow> u16 \<Rightarrow> u16 \<Rightarrow> bool \<Rightarrow> nat \<Rightarrow> spawn \<Rightarrow> spawn" where
  "setPos x y z rec len s =
     (let s = item_setPos x y z s; track = sp_track s; count = length track
      in if \<not> rec then s
         else if it_NPC s = SPAWN_SELF \<and> count = 0 \<and> x = 0 \<and> y = 0 \<and> z = 0 then s
         else if count = 0 \<or> fst (last track) \<noteq> x \<or> fst (snd (last track)) \<noteq> y
         then let track = (if 0 < len \<and> 2 < count \<and> len < count then tl track else track)
              in s\<lparr>sp_track := track @ [(x, y, z)]\<rparr>
         else s)"

text \<open>\<open>fixPtMulII\<close>, and the position predicted for the time \<open>now\<close>.\<close>

definition fixPtMulII :: "u32 \<Rightarrow> nat \<Rightarrow> u32 \<Rightarrow> u32" where
  "fixPtMulII a q b = signed_drop_bit q (a * b)"

definition elapsed :: "int \<Rightarrow> 'a item_scheme \<Rightarrow> int" where
  "elapsed now s =
     (let msec = now - it_lastUpdate s in if msec < 0 then msec + 86400 * 1000 else msec)"

definition approximatePosition :: "bool \<Rightarrow> int \<Rightarrow> spawn \<Rightarrow> bool \<times> (u16 \<times> u16 \<times> u16)" where
  "approximatePosition animating now s =
     (let (x, y, z) = it_pos s; (cx, cy, cz) = sp_cooked s
      in if animating
         then let msec = elapsed now s
              in if msec < 90 * 1000
                 then (True, (x + scast (fixPtMulII cx qFormat (word_of_int msec)),
                              y + scast (fixPtMulII cy qFormat (word_of_int msec)),
                              z + scast (fixPtMulII cz qFormat (word_of_int msec))))
                 else (False, (x, y, z))
         else (True, (x, y, z)))"

subsection \<open>Names\<close>

definition is_digit :: "char \<Rightarrow> bool" where
  "is_digit c \<longleftrightarrow> c \<in> set ''0123456789''"

definition cleanedName :: "string \<Rightarrow> string" where
  "cleanedName n = map (\<lambda>c. if c = CHR ''_'' then CHR '' '' else c) (filter (\<lambda>c. \<not> is_digit c) n)"

definition transformedName :: "string \<Rightarrow> string" where
  "transformedName n =
     (let temp = cleanedName n;
          (temp, article) =
            (if take 2 temp = ''a '' then (drop 2 temp, ''a'')
             else if take 3 temp = ''an '' then (drop 3 temp, ''an'')
             else if take 4 temp = ''the '' then (drop 4 temp, ''the'')
             else (temp, ''''))
      in if article \<noteq> '''' then temp @ '', '' @ article else temp)"

definition Spawn_Corpse_Designator :: string where
  "Spawn_Corpse_Designator = [CHR 0x27] @ ''s corpse''"

section \<open>The wire form\<close>

text \<open>\<open>spawnStruct\<close>; its bit fields lie in \<open>miscData\<close>, \<open>otherData\<close> and \<open>posData\<close>.\<close>

record spawnStruct =
  ss_name :: string
  ss_lastName :: string
  ss_title :: string
  ss_suffix :: string
  ss_spawnId :: u32
  ss_miscData :: u32
  ss_bodytype :: u32
  ss_race :: u32
  ss_deity :: u32
  ss_guildID :: u32
  ss_guildServerID :: u32
  ss_guildstatus :: u32
  ss_class :: u8
  ss_petOwnerId :: u32
  ss_level :: u8
  ss_NPC :: u8
  ss_otherData :: u8
  ss_charProperties :: u8
  ss_curHp :: u8
  ss_holding :: u8
  ss_state :: u8
  ss_light :: u8
  ss_isMercenary :: u8
  ss_equipment :: "nat \<Rightarrow> equip"
  ss_posData :: "nat \<Rightarrow> u32"

text \<open>A bit field of \<open>n\<close> bits from bit \<open>lo\<close>, unsigned and signed, as an \<open>int\<close> of 32 bits.\<close>

definition ubits :: "nat \<Rightarrow> nat \<Rightarrow> u32 \<Rightarrow> u32" where
  "ubits lo n w = take_bit n (drop_bit lo w)"

definition sbits :: "nat \<Rightarrow> nat \<Rightarrow> u32 \<Rightarrow> u32" where
  "sbits lo n w = signed_take_bit (n - 1) (drop_bit lo w)"

definition ss_gender :: "spawnStruct \<Rightarrow> u32" where "ss_gender s = ubits 0 1 (ss_miscData s)"
definition ss_gm :: "spawnStruct \<Rightarrow> u32" where "ss_gm s = ubits 17 1 (ss_miscData s)"
definition ss_aura :: "spawnStruct \<Rightarrow> bool" where "ss_aura s = bit (ss_otherData s) 2"
definition ss_z :: "spawnStruct \<Rightarrow> u32" where "ss_z s = sbits 0 19 (ss_posData s 0)"
definition ss_animation :: "spawnStruct \<Rightarrow> u32" where "ss_animation s = sbits 19 10 (ss_posData s 0)"
definition ss_y :: "spawnStruct \<Rightarrow> u32" where "ss_y s = sbits 0 19 (ss_posData s 1)"
definition ss_heading :: "spawnStruct \<Rightarrow> u32" where "ss_heading s = ubits 19 12 (ss_posData s 1)"
definition ss_deltaY :: "spawnStruct \<Rightarrow> u32" where "ss_deltaY s = sbits 0 13 (ss_posData s 2)"
definition ss_x :: "spawnStruct \<Rightarrow> u32" where "ss_x s = sbits 0 19 (ss_posData s 3)"
definition ss_deltaX :: "spawnStruct \<Rightarrow> u32" where "ss_deltaX s = sbits 19 13 (ss_posData s 3)"
definition ss_deltaHeading :: "spawnStruct \<Rightarrow> u32" where "ss_deltaHeading s = sbits 0 10 (ss_posData s 4)"
definition ss_deltaZ :: "spawnStruct \<Rightarrow> u32" where "ss_deltaZ s = sbits 10 13 (ss_posData s 4)"

text \<open>What \<open>decode_spawn\<close> of the Rust library returns, and how it is copied into the wire form.\<close>

record rust_spawn =
  rs_name :: string
  rs_last_name :: string
  rs_title :: string
  rs_suffix :: string
  rs_spawn_id :: u32
  rs_misc_data :: u32
  rs_body_type :: u32
  rs_race :: u32
  rs_deity :: u32
  rs_guild_id :: u32
  rs_guild_server_id :: u32
  rs_class :: u8
  rs_pet_owner_id :: u32
  rs_level :: u8
  rs_npc :: u8
  rs_other_data :: u8
  rs_char_properties :: u8
  rs_cur_hp :: u8
  rs_holding :: u8
  rs_state :: u8
  rs_light :: u8
  rs_is_mercenary :: u8
  rs_equip_data :: "nat \<Rightarrow> u32"
  rs_pos_data :: "nat \<Rightarrow> u32"

text \<open>What a reader of a zero-terminated buffer of \<open>cap\<close> bytes finds after \<open>copyStr\<close>.\<close>

definition copyStr :: "nat \<Rightarrow> string \<Rightarrow> string" where
  "copyStr cap src = takeWhile (\<lambda>c. c \<noteq> CHR 0x00) (take (min (length src) (cap - 1)) src)"

definition applySpawn :: "rust_spawn \<Rightarrow> spawnStruct" where
  "applySpawn out =
     \<lparr>ss_name = copyStr 64 (rs_name out), ss_lastName = copyStr 32 (rs_last_name out),
      ss_title = copyStr 32 (rs_title out), ss_suffix = copyStr 32 (rs_suffix out),
      ss_spawnId = rs_spawn_id out, ss_miscData = rs_misc_data out, ss_bodytype = rs_body_type out,
      ss_race = rs_race out, ss_deity = rs_deity out, ss_guildID = rs_guild_id out,
      ss_guildServerID = rs_guild_server_id out, ss_guildstatus = 0, ss_class = rs_class out,
      ss_petOwnerId = rs_pet_owner_id out, ss_level = rs_level out, ss_NPC = rs_npc out,
      ss_otherData = rs_other_data out, ss_charProperties = rs_char_properties out,
      ss_curHp = rs_cur_hp out, ss_holding = rs_holding out, ss_state = rs_state out,
      ss_light = rs_light out, ss_isMercenary = rs_is_mercenary out,
      ss_equipment = (\<lambda>i. \<lparr>eq_equip0 = rs_equip_data out (i * 5 + 4), eq_equip1 = rs_equip_data out (i * 5 + 3),
        eq_equip2 = rs_equip_data out (i * 5 + 2), eq_itemId = rs_equip_data out (i * 5),
        eq_equip3 = rs_equip_data out (i * 5 + 1)\<rparr>),
      ss_posData = rs_pos_data out\<rparr>"

section \<open>Constructing and updating spawns\<close>

definition tNumWearSlots :: nat where "tNumWearSlots = 10"
definition tUnknown1 :: nat where "tUnknown1 = 9"
definition tLastCoreWearSlot :: nat where "tLastCoreWearSlot = 8"

definition setEquipment :: "nat \<Rightarrow> equip \<Rightarrow> spawn \<Rightarrow> spawn" where
  "setEquipment slot e s = (if slot < tNumWearSlots then s\<lparr>sp_equipment := (sp_equipment s)(slot := e)\<rparr> else s)"

text \<open>\<open>Spawn::update\<close>.\<close>

definition spawn_update :: "clock \<Rightarrow> spawnStruct \<Rightarrow> spawn \<Rightarrow> spawn" where
  "spawn_update ck ss s =
     (let s = s\<lparr>it_name := ss_name ss, sp_lastName := ss_lastName ss\<rparr>;
          s = setPos (ucast (signed_drop_bit 3 (ss_x ss))) (ucast (signed_drop_bit 3 (ss_y ss)))
                (ucast (signed_drop_bit 3 (ss_z ss))) False 0 s;
          s = s\<lparr>sp_petOwnerID := ucast (ss_petOwnerId ss), sp_light := ss_light ss,
                sp_gender := ucast (ss_gender ss)\<rparr>;
          s = setRace (ucast (ss_race ss)) (setDeity (ucast (ss_deity ss)) s);
          s = s\<lparr>sp_class := ss_class ss, sp_curHP := ucast (ss_curHp ss), sp_maxHP := 100,
                sp_guildID := ucast (ss_guildID ss), sp_guildServerID := ucast (ss_guildServerID ss),
                sp_level := ucast (ss_level ss)\<rparr>;
          s = fold (\<lambda>i. setEquipment i (ss_equipment ss i)) [0..<tLastCoreWearSlot + 1] s;
          s = setEquipment tUnknown1 SlotEmpty s;
          s = s\<lparr>sp_typeflag := ucast (ss_bodytype ss), sp_gm := ucast (ss_gm ss),
                sp_isMount := calcIsMount (ss_race ss) (ss_level ss),
                sp_isMercenary := ss_isMercenary ss \<noteq> 0, sp_isAura := ss_aura ss\<rparr>;
          s = s\<lparr>it_NPC := (if ss_NPC ss = SPAWN_PC_CORPSE \<and> ss_deity ss = 0 then SPAWN_NPC_CORPSE else ss_NPC ss)\<rparr>;
          s = s\<lparr>sp_animation := ucast (ss_animation ss)\<rparr>;
          s = (if \<not> isCorpse s
               then setHeading (ucast (ss_heading ss)) (ucast (ss_deltaHeading ss))
                      (setDeltas (ucast (signed_drop_bit 2 (ss_deltaX ss))) (ucast (signed_drop_bit 2 (ss_deltaY ss)))
                        (ucast (signed_drop_bit 2 (ss_deltaZ ss))) s)
               else setHeading 0 0 (setDeltas 0 0 0 s));
          s = s\<lparr>sp_considered := False, sp_notUpdated := False\<rparr>
      in updateLast ck s)"

text \<open>A spawn before any of its own fields is set: \<open>blank\<close> stands for the memory it is built in.\<close>

definition spawn_of_item :: "item \<Rightarrow> spawn \<Rightarrow> spawn" where
  "spawn_of_item i blank = blank\<lparr>it_type := it_type i, it_id := it_id i, it_name := it_name i,
     it_filterFlags := it_filterFlags i, it_runtimeFilterFlags := it_runtimeFilterFlags i,
     it_lastUpdate := it_lastUpdate i, it_spawnTime := it_spawnTime i, it_lastChanged := it_lastChanged i,
     it_NPC := it_NPC i, it_pos := it_pos i, sp_lastName := '''', sp_guildTag := '''', sp_track := [],
     sp_classMask := 0, sp_locked := False\<rparr>"

text \<open>\<open>Spawn::Spawn(const spawnStruct*)\<close>.\<close>

definition spawn_of_struct :: "clock \<Rightarrow> spawn \<Rightarrow> spawnStruct \<Rightarrow> spawn" where
  "spawn_of_struct ck blank ss = spawn_update ck ss (spawn_of_item (mkItem ck TSpawn (ucast (ss_spawnId ss))) blank)"

definition clear_unknown :: "spawn \<Rightarrow> spawn" where
  "clear_unknown s = setRace 0 (setDeity 0 (s\<lparr>sp_petOwnerID := 0, sp_light := 0, sp_gender := 0, sp_class := 0,
     sp_curHP := 0, sp_maxHP := 0, sp_level := 0, sp_guildID := 0xffff, sp_guildServerID := 0, sp_guildTag := '''',
     sp_equipment := (\<lambda>_. SlotEmpty), sp_typeflag := 0, sp_gm := 0, sp_isMount := False, sp_isMercenary := False,
     sp_isAura := False, sp_notUpdated := False, sp_considered := False\<rparr>))"

text \<open>\<open>Spawn::Spawn(uint16_t id, \<dots>)\<close>, an unknown spawn, and \<open>Spawn::Spawn()\<close>, the player before login.\<close>

definition spawn_unknown :: "clock \<Rightarrow> spawn \<Rightarrow> u16 \<Rightarrow> u16 \<times> u16 \<times> u16 \<Rightarrow> u16 \<times> u16 \<times> u16 \<Rightarrow> u8 \<Rightarrow> u8 \<Rightarrow> u8 \<Rightarrow> spawn" where
  "spawn_unknown ck blank i pos delta heading deltaHeading animation =
     (let s = spawn_of_item (mkItem ck TSpawn i) blank;
          s = s\<lparr>it_name := ''unknown'', sp_lastName := '''', it_NPC := SPAWN_NPC_UNKNOWN\<rparr>;
          (x, y, z) = pos; (dx, dy, dz) = delta;
          s = setHeading heading deltaHeading (setDeltas dx dy dz (setPos x y z False 0 s));
          s = clear_unknown (s\<lparr>sp_animation := animation\<rparr>)
      in updateLast ck s)"

definition spawn_fake :: "clock \<Rightarrow> spawn \<Rightarrow> spawn" where
  "spawn_fake ck blank =
     (let s = spawn_of_item (mkItem ck TSpawn 0) blank;
          s = s\<lparr>it_name := ''fake'', sp_lastName := '''', it_NPC := SPAWN_NPC_UNKNOWN\<rparr>;
          s = setHeading 0 0 (setDeltas 0 0 0 (item_setPos 0 0 0 s));
          s = clear_unknown (s\<lparr>sp_animation := 0\<rparr>)
      in updateLast ck s)"

text \<open>\<open>Spawn::Spawn(Spawn*, uint16_t)\<close>: mount, mercenary, aura and update flags keep what was in the
  memory. \<open>name\<close>, \<open>lastName\<close>, \<open>deity\<close>, \<open>race\<close>, \<open>classVal\<close> and \<open>level\<close> are virtual: \<open>s\<close> is the spawn
  as its getters show it.\<close>

definition spawn_copy :: "clock \<Rightarrow> spawn \<Rightarrow> spawn \<Rightarrow> u16 \<Rightarrow> spawn" where
  "spawn_copy ck blank s i =
     (let c = spawn_of_item (mkItem ck TSpawn i) blank;
          c = c\<lparr>it_name := it_name s, sp_lastName := sp_lastName s, it_pos := it_pos s,
                sp_petOwnerID := sp_petOwnerID s, sp_light := sp_light s, sp_gender := sp_gender s\<rparr>;
          c = setRace (sp_race s) (setDeity (sp_deity s) c);
          c = c\<lparr>sp_class := sp_class s, sp_classMask := sp_classMask s, sp_curHP := sp_curHP s,
                sp_maxHP := sp_maxHP s, sp_guildID := sp_guildID s, sp_guildServerID := sp_guildServerID s,
                sp_level := sp_level s\<rparr>;
          c = fold (\<lambda>j. setEquipment j (sp_equipment s j)) [0..<tLastCoreWearSlot + 1] c;
          c = setEquipment tUnknown1 SlotEmpty c;
          c = c\<lparr>sp_typeflag := sp_typeflag s, sp_gm := sp_gm s, it_NPC := it_NPC s,
                sp_animation := sp_animation s\<rparr>;
          (dx, dy, dz) = sp_delta s
      in (setHeading (it_heading s) (sp_deltaHeading s) (setDeltas dx dy dz c))\<lparr>sp_considered := sp_considered s\<rparr>)"

text \<open>\<open>Spawn::backfill\<close>.\<close>

definition spawn_backfill :: "spawnStruct \<Rightarrow> spawn \<Rightarrow> spawn" where
  "spawn_backfill ss s =
     (let s = s\<lparr>sp_gender := ucast (ss_gender ss)\<rparr>;
          s = setRace (ucast (ss_race ss)) (setDeity (ucast (ss_deity ss)) s);
          s = s\<lparr>sp_class := ss_class ss, sp_typeflag := ucast (ss_bodytype ss),
                sp_petOwnerID := ucast (ss_petOwnerId ss)\<rparr>;
          monster = (ss_NPC ss = SPAWN_PC_CORPSE \<and> ss_deity ss = 0);
          s = (if isCorpse s
               then s\<lparr>sp_curHP := 0, it_NPC :=
                      (if monster then SPAWN_NPC_CORPSE
                       else if ss_NPC ss = SPAWN_PLAYER \<or> ss_NPC ss = SPAWN_SELF then SPAWN_PC_CORPSE
                       else SPAWN_NPC_CORPSE)\<rparr>
               else if it_NPC s = SPAWN_NPC_UNKNOWN
               then s\<lparr>it_NPC := (if monster then SPAWN_NPC_CORPSE else ss_NPC ss)\<rparr>
               else s);
          s = s\<lparr>it_name := ss_name ss, sp_lastName := ss_lastName ss\<rparr>;
          s = (if isCorpse s
               then setHeading 0 0 (setDeltas 0 0 0 (s\<lparr>it_name := it_name s @ Spawn_Corpse_Designator\<rparr>))
               else s);
          s = fold (\<lambda>i s. if eq_itemId (sp_equipment s i) = eq_itemId SlotEmpty
                          then setEquipment i (ss_equipment ss i) s else s) [0..<tLastCoreWearSlot + 1] s;
          s = (if sp_light s = 0 then s\<lparr>sp_light := ss_light ss\<rparr> else s);
          s = (if sint (sp_level s) < uint (ss_level ss) then s\<lparr>sp_level := ucast (ss_level ss)\<rparr> else s)
      in if ss_NPC ss = SPAWN_PLAYER \<or> ss_NPC ss = SPAWN_SELF
         then s\<lparr>sp_guildID := ucast (ss_guildID ss), sp_guildServerID := ucast (ss_guildServerID ss)\<rparr>
         else s\<lparr>sp_guildID := 0xffff\<rparr>)"

text \<open>\<open>Spawn::killSpawn\<close>.\<close>

definition spawn_kill :: "spawn \<Rightarrow> spawn" where
  "spawn_kill s =
     (let s = (setHeading 0 0 (setDeltas 0 0 0 s))\<lparr>sp_curHP := 0, sp_maxHP := 0\<rparr>
      in if it_NPC s = SPAWN_PLAYER \<or> it_NPC s = SPAWN_SELF \<or> it_NPC s = SPAWN_PC_CORPSE
         then s\<lparr>it_NPC := SPAWN_PC_CORPSE\<rparr> else s\<lparr>it_NPC := SPAWN_NPC_CORPSE\<rparr>)"

section \<open>Doors and drops\<close>

record doorStruct =
  ds_name :: string
  ds_y :: u32
  ds_x :: u32
  ds_z :: u32
  ds_heading :: u32
  ds_doorId :: u8
  ds_zonePoint :: u32

record door = item +
  dr_zonePoint :: u32

definition door_update :: "clock \<Rightarrow> float_ops \<Rightarrow> doorStruct \<Rightarrow> door \<Rightarrow> door" where
  "door_update ck fo d i =
     (let i = item_setPos (fo_int16 fo (ds_x d)) (fo_int16 fo (ds_y d)) (fo_int16_x10 fo (ds_z d)) i;
          i = i\<lparr>it_heading := fo_lrint8 fo (ds_heading d),
                it_name := ''Door: '' @ ds_name d @ '' ('' @ dec_str (unat (ds_doorId d)) @ '') '',
                dr_zonePoint := ds_zonePoint d\<rparr>
      in updateLast ck i)"

definition mkDoor :: "clock \<Rightarrow> float_ops \<Rightarrow> doorStruct \<Rightarrow> door" where
  "mkDoor ck fo d = door_update ck fo d
     ((item.extend (mkItem ck TDoors (ucast (ds_doorId d))) (door.fields 0))\<lparr>it_NPC := SPAWN_DOOR\<rparr>)"

record makeDropStruct =
  md_dropId :: u32
  md_heading :: u32
  md_z :: u32
  md_x :: u32
  md_y :: u32
  md_idFile :: string

record drop_item = item +
  dp_idFile :: string

text \<open>The name of a drop: \<open>toInt\<close> is \<open>QString::toInt\<close> (0 for what is no number), \<open>print_item\<close> the
  table of item names.\<close>

definition drop_name :: "(string \<Rightarrow> int) \<Rightarrow> (u16 \<Rightarrow> string) \<Rightarrow> string \<Rightarrow> string \<Rightarrow> string" where
  "drop_name toInt print_item idFile name =
     (if name = ''''
      then let buff = (if take 2 idFile = ''IT'' then takeWhile (\<lambda>c. c \<noteq> CHR ''_'') (drop 2 idFile) else idFile);
               itemId = toInt buff
           in ''Drop: '' @ (if 0 < itemId then print_item (word_of_int itemId) else idFile)
      else ''Drop: '' @ [CHR 0x27] @ name @ [CHR 0x27])"

record drop_env =
  de_toInt :: "string \<Rightarrow> int"
  de_print_item :: "u16 \<Rightarrow> string"

definition drop_update :: "clock \<Rightarrow> float_ops \<Rightarrow> drop_env \<Rightarrow> makeDropStruct \<Rightarrow> string \<Rightarrow> drop_item \<Rightarrow> drop_item" where
  "drop_update ck fo de d name i =
     (let i = item_setPos (fo_int16 fo (md_x d)) (fo_int16 fo (md_y d)) (fo_int16 fo (md_z d)) i;
          i = i\<lparr>it_heading := fo_lrint8 fo (md_heading d), dp_idFile := md_idFile d,
                it_name := drop_name (de_toInt de) (de_print_item de) (md_idFile d) name\<rparr>
      in updateLast ck i)"

definition mkDrop :: "clock \<Rightarrow> float_ops \<Rightarrow> drop_env \<Rightarrow> makeDropStruct \<Rightarrow> string \<Rightarrow> drop_item" where
  "mkDrop ck fo de d name = drop_update ck fo de d name
     ((item.extend (mkItem ck TDrop (ucast (md_dropId d))) (drop_item.fields ''''))\<lparr>it_NPC := SPAWN_DROP\<rparr>)"

section \<open>The track of a spawn\<close>

text \<open>What the code aims at: the track never has more points than the setting. What it keeps: one more,
  and at least three.\<close>

lemma setPos_track_length:
  assumes "0 < len" "length (sp_track s) \<le> max 3 (len + 1)"
  shows "length (sp_track (setPos x y z rec len s)) \<le> max 3 (len + 1)"
  using assms by (auto simp: setPos_def Let_def item_setPos_def)

lemma setPos_track_grows:
  assumes "sp_track s \<noteq> []" "fst (last (sp_track s)) \<noteq> x" "length (sp_track s) \<le> max 2 len"
  shows "sp_track (setPos x y z True len s) = sp_track s @ [(x, y, z)]"
  using assms by (auto simp: setPos_def Let_def item_setPos_def)

lemma setPos_fields [simp]:
  "it_NPC (setPos x y z r n s) = it_NPC s" "it_id (setPos x y z r n s) = it_id s"
  "it_type (setPos x y z r n s) = it_type s" "it_name (setPos x y z r n s) = it_name s"
  "it_pos (setPos x y z r n s) = (x, y, z)" "sp_curHP (setPos x y z r n s) = sp_curHP s"
  "sp_maxHP (setPos x y z r n s) = sp_maxHP s"
  by (simp_all add: setPos_def Let_def item_setPos_def)

text \<open>Along any walk.\<close>

definition walk :: "nat \<Rightarrow> (u16 \<times> u16 \<times> u16) list \<Rightarrow> spawn \<Rightarrow> spawn" where
  "walk len ps s = fold (\<lambda>(x, y, z). setPos x y z True len) ps s"

lemma walk_track_length:
  "0 < len \<Longrightarrow> length (sp_track s) \<le> max 3 (len + 1) \<Longrightarrow> length (sp_track (walk len ps s)) \<le> max 3 (len + 1)"
proof (induction ps arbitrary: s)
  case (Cons p ps)
  obtain x y z where p: "p = (x, y, z)" by (cases p)
  have "length (sp_track (setPos x y z True len s)) \<le> max 3 (len + 1)"
    using Cons.prems by (rule setPos_track_length)
  from Cons.IH [OF Cons.prems(1) this] show ?case by (simp add: walk_def p)
qed (simp add: walk_def)

text \<open>With \<open>walkpathlength\<close> set to \<open>len\<close>, no walk makes the track of a spawn longer than
  \<open>len + 1\<close> points (3 when \<open>len\<close> is 1), and the bound is reached: the check in \<open>Spawn::setPos\<close>
  compares the length before it appends, so that the limit is exceeded by one.\<close>

theorem track_exceeds_limit_by_one:
  assumes "0 < len" "sp_track s = []" "it_NPC s \<noteq> SPAWN_SELF"
  shows "length (sp_track (walk len ps s)) \<le> max 3 (len + 1) \<and>
    length (sp_track (walk len (map (\<lambda>i. (of_nat i, 0, 0)) [0..<max 3 (len + 1)]) s)) = max 3 (len + 1)"
proof
  show "length (sp_track (walk len ps s)) \<le> max 3 (len + 1)"
    using walk_track_length assms by simp
next
  have "k \<le> max 3 (len + 1) \<Longrightarrow>
      sp_track (walk len (map (\<lambda>i. (of_nat i, 0, 0)) [0..<k]) s) = map (\<lambda>i. (of_nat i, 0, 0)) [0..<k] \<and>
      it_NPC (walk len (map (\<lambda>i. (of_nat i, 0, 0)) [0..<k]) s) = it_NPC s" for k
  proof (induction k)
    case (Suc k)
    let ?w = "walk len (map (\<lambda>i. (of_nat i, 0, 0)) [0..<k]) s"
    have w: "sp_track ?w = map (\<lambda>i. (of_nat i, 0, 0)) [0..<k]" "it_NPC ?w = it_NPC s" using Suc by simp_all
    have step: "walk len (map (\<lambda>i. (of_nat i, 0, 0)) [0..<Suc k]) s = setPos (of_nat k) 0 0 True len ?w"
      by (simp add: walk_def)
    show ?case
    proof (cases "k = 0")
      case True
      then show ?thesis using assms by (simp add: walk_def setPos_def Let_def item_setPos_def)
    next
      case False
      then have last: "fst (last (sp_track ?w)) = of_nat (k - 1)" by (simp add: w last_map)
      have "(of_nat k :: u16) \<noteq> of_nat (k - 1)"
        using False by (cases k) simp_all
      moreover have "length (sp_track ?w) \<le> max 2 len" using Suc.prems by (simp add: w)
      ultimately have "sp_track (setPos (of_nat k) 0 0 True len ?w) = sp_track ?w @ [(of_nat k, 0, 0)]"
        using False by (intro setPos_track_grows) (simp_all add: last, simp add: w)
      then show ?thesis unfolding step using w by simp
    qed
  qed (simp add: walk_def assms)
  from this [of "max 3 (len + 1)"]
  show "length (sp_track (walk len (map (\<lambda>i. (of_nat i, 0, 0)) [0..<max 3 (len + 1)]) s)) = max 3 (len + 1)" by simp
qed

section \<open>Construction\<close>

text \<open>What is observable of a spawn: its equipment has ten slots.\<close>

definition spawn_view :: "spawn \<Rightarrow> spawn" where
  "spawn_view s = s\<lparr>sp_equipment := (\<lambda>i. if i < tNumWearSlots then sp_equipment s i else SlotEmpty)\<rparr>"

lemma fold_setEquipment:
  "fold (\<lambda>i. setEquipment i (f i)) is s = s\<lparr>sp_equipment := (\<lambda>i. if i \<in> set is \<and> i < tNumWearSlots then f i else sp_equipment s i)\<rparr>"
  by (induction "is" arbitrary: s) (auto simp: setEquipment_def fun_eq_iff)

lemma core_slots: "fold (\<lambda>i. setEquipment i (f i)) [0..<tLastCoreWearSlot + 1] s =
    s\<lparr>sp_equipment := (\<lambda>i. if i \<le> 8 then f i else sp_equipment s i)\<rparr>"
  unfolding fold_setEquipment
  by (rule arg_cong [where f = "\<lambda>e. s\<lparr>sp_equipment := e\<rparr>"])
    (auto simp: fun_eq_iff tNumWearSlots_def tLastCoreWearSlot_def)

lemmas spawn_builders = spawn_of_item_def setDeity_def setRace_def setDeltas_def setHeading_def setPos_def
  item_setPos_def clear_unknown_def updateLast_def core_slots

lemma spawn_copy_flags:
  "sp_isMount (spawn_copy ck blank s i) = sp_isMount blank"
  "sp_isMercenary (spawn_copy ck blank s i) = sp_isMercenary blank"
  "sp_isAura (spawn_copy ck blank s i) = sp_isAura blank"
  "sp_notUpdated (spawn_copy ck blank s i) = sp_notUpdated blank"
  unfolding spawn_copy_def spawn_builders Let_def
  by (simp_all add: setEquipment_def split: prod.split)

lemma spawn_viewI:
  assumes "s\<lparr>sp_equipment := e\<rparr> = t\<lparr>sp_equipment := e\<rparr>" "\<And>i. i < 10 \<Longrightarrow> sp_equipment s i = sp_equipment t i"
  shows "spawn_view s = spawn_view t"
proof -
  have "spawn_view s = (s\<lparr>sp_equipment := e\<rparr>)\<lparr>sp_equipment := sp_equipment (spawn_view s)\<rparr>"
    by (simp add: spawn_view_def)
  also have "sp_equipment (spawn_view s) = sp_equipment (spawn_view t)"
    using assms(2) by (auto simp: spawn_view_def tNumWearSlots_def)
  also have "(s\<lparr>sp_equipment := e\<rparr>)\<lparr>sp_equipment := sp_equipment (spawn_view t)\<rparr> = spawn_view t"
    unfolding assms(1) by (simp add: spawn_view_def)
  finally show ?thesis .
qed

lemma spawn_fake_blank: "spawn_view (spawn_fake ck blank) = spawn_view (spawn_fake ck blank')"
  unfolding spawn_fake_def spawn_builders Let_def
  by (rule spawn_viewI [where e = undefined]; cases blank; cases blank') simp_all

lemma spawn_unknown_blank:
  "spawn_view (spawn_unknown ck blank i p d h dh an) = spawn_view (spawn_unknown ck blank' i p d h dh an)"
  unfolding spawn_unknown_def spawn_builders Let_def
  by (rule spawn_viewI [where e = undefined]; cases p; cases d; cases blank; cases blank') simp_all

lemma spawn_of_struct_blank: "spawn_view (spawn_of_struct ck blank ss) = spawn_view (spawn_of_struct ck blank' ss)"
  unfolding spawn_of_struct_def spawn_update_def spawn_builders Let_def
  by (rule spawn_viewI [where e = undefined]; cases blank; cases blank')
    (simp_all add: isCorpse_def setEquipment_def tNumWearSlots_def tUnknown1_def cong: if_cong)

text \<open>The three ways in which the daemon makes a spawn from a packet or from nothing initialise
  every field, whatever the memory held before; the corpse that is left when the player rises does
  not: its mount, mercenary and aura flags and the flag for \<open>not updated\<close> are those of the memory.\<close>

theorem constructors_initialise:
  "spawn_view (spawn_of_struct ck blank ss) = spawn_view (spawn_of_struct ck blank' ss)
   \<and> spawn_view (spawn_unknown ck blank i p d h dh an) = spawn_view (spawn_unknown ck blank' i p d h dh an)
   \<and> spawn_view (spawn_fake ck blank) = spawn_view (spawn_fake ck blank')
   \<and> sp_isMount (spawn_copy ck blank s i) = sp_isMount blank
   \<and> sp_isMercenary (spawn_copy ck blank s i) = sp_isMercenary blank
   \<and> sp_isAura (spawn_copy ck blank s i) = sp_isAura blank
   \<and> sp_notUpdated (spawn_copy ck blank s i) = sp_notUpdated blank"
  by (intro conjI spawn_of_struct_blank spawn_unknown_blank spawn_fake_blank spawn_copy_flags)

section \<open>The predicted position\<close>

lemma fixPtMulII_exact:
  fixes d :: u16
  assumes "\<bar>sint d\<bar> \<le> 1136" "0 \<le> m" "m < 90000"
  shows "scast (fixPtMulII (animationCoefficientFixPt * scast d) qFormat (word_of_int m)) =
    (word_of_int ((21 * sint d * m) div 2 ^ 14) :: u16)"
proof -
  let ?v = "21 * sint d * m"
  have "\<bar>?v\<bar> = 21 * \<bar>sint d\<bar> * m" using assms by (simp add: abs_mult)
  also have "\<dots> \<le> 21 * 1136 * 89999" using assms by (intro mult_mono) simp_all
  finally have small: "- (2 ^ 31) \<le> ?v" "?v < 2 ^ 31" by auto
  have "(animationCoefficientFixPt * scast d * word_of_int m :: u32) = word_of_int ?v"
    unfolding animationCoefficientFixPt_def scast_eq by simp
  moreover have "sint (word_of_int ?v :: u32) = ?v"
    using small by (subst int_word_sint) (simp add: signed_take_bit_int_eq_self)
  ultimately have "sint (fixPtMulII (animationCoefficientFixPt * scast d) qFormat (word_of_int m)) = ?v div 2 ^ 14"
    unfolding fixPtMulII_def qFormat_def by (simp only: sint_signed_drop_bit_eq drop_bit_eq_div)
  then show ?thesis by (simp only: scast_eq)
qed

text \<open>While a spawn moves with a speed that fits the 13 bits of the wire, its predicted position
  over the 90 seconds in which it is predicted is exact to the fixed-point format: nothing
  overflows, also when midnight passes in between.\<close>

theorem predicted_position_exact:
  assumes "\<bar>sint dx\<bar> \<le> 1136" "\<bar>sint dy\<bar> \<le> 1136" "\<bar>sint dz\<bar> \<le> 1136" "it_pos s = (x, y, z)"
    "elapsed now s = m" "0 \<le> m" "m < 90000"
  shows "approximatePosition True now (setDeltas dx dy dz s) =
    (True, (x + word_of_int ((21 * sint dx * m) div 2 ^ 14), y + word_of_int ((21 * sint dy * m) div 2 ^ 14),
            z + word_of_int ((21 * sint dz * m) div 2 ^ 14)))"
proof -
  have "elapsed now (setDeltas dx dy dz s) = m" "it_pos (setDeltas dx dy dz s) = (x, y, z)"
    using assms(4,5) by (simp_all add: elapsed_def setDeltas_def)
  then show ?thesis
    using assms(7) unfolding fixPtMulII_exact [OF assms(1,6,7), symmetric] fixPtMulII_exact [OF assms(2,6,7), symmetric]
      fixPtMulII_exact [OF assms(3,6,7), symmetric]
    by (simp add: approximatePosition_def) (simp add: setDeltas_def)
qed

theorem predicted_position_exact_witness:
  "approximatePosition True 500 (setDeltas 8 0 (- 8) (spawn_unknown \<lparr>ck_msec = 86399000, ck_time = 0\<rparr> undefined 7 (10, 20, 30) (0, 0, 0) 0 0 0)) =
    (True, (25, 20, 14))"
proof -
  let ?s = "spawn_unknown \<lparr>ck_msec = 86399000, ck_time = 0\<rparr> undefined 7 (10, 20, 30) (0, 0, 0) 0 0 0"
  have "it_pos ?s = (10, 20, 30)" "elapsed 500 ?s = 1500"
    unfolding spawn_unknown_def spawn_builders elapsed_def Let_def by simp_all
  then show ?thesis
    using predicted_position_exact [of 8 0 "- 8" ?s 10 20 30 500 1500] by simp
qed

theorem track_exceeds_limit_by_one_witness:
  "length (sp_track (walk 5 [(1, 1, 1), (2, 1, 1)] (spawn_unknown \<lparr>ck_msec = 0, ck_time = 0\<rparr> undefined 7 (10, 20, 30) (0, 0, 0) 0 0 0))) \<le> 6
   \<and> length (sp_track (walk 5 (map (\<lambda>i. (of_nat i, 0, 0)) [0..<6])
       (spawn_unknown \<lparr>ck_msec = 0, ck_time = 0\<rparr> undefined 7 (10, 20, 30) (0, 0, 0) 0 0 0))) = 6"
proof -
  let ?s = "spawn_unknown \<lparr>ck_msec = 0, ck_time = 0\<rparr> undefined 7 (10, 20, 30) (0, 0, 0) 0 0 0"
  have s: "sp_track ?s = []" "it_NPC ?s \<noteq> SPAWN_SELF"
    unfolding spawn_unknown_def spawn_builders Let_def by (simp_all add: SPAWN_defs)
  show ?thesis
    using track_exceeds_limit_by_one [of 5, OF _ s, of "[(1, 1, 1), (2, 1, 1)]"] by simp
qed

end
