(* ===== verification/GroupMgr.thy ===== *)
theory GroupMgr
  imports Spawn
begin

text \<open>
  The group of the player, \<open>GroupMgr\<close> of \<open>src/group.h\<close> and \<open>src/group.cpp\<close>: five slots with a name and,
  while the member is in the zone, a pointer to its spawn, which belongs to \<open>SpawnShell\<close>.

  A pointer is an address; what a slot of \<open>GroupMgr\<close> reads through it is passed in. \<open>look\<close> stands for
  \<open>SpawnShell::findPlayerByDisplayName\<close>.
\<close>

section \<open>State\<close>

type_synonym addr = nat

record member =
  mb_name :: string
  mb_spawn :: "addr option"

definition empty_member :: member where
  "empty_member = \<lparr>mb_name = '''', mb_spawn = None\<rparr>"

datatype group_event = GAdded string "addr option" | GRemoved string "addr option" | GCleared

record group =
  gm_members :: "member list"
  gm_memberCount :: u64
  gm_membersInZoneCount :: u64
  gm_events :: "group_event list"

definition MAX_GROUP_MEMBERS :: nat where "MAX_GROUP_MEMBERS = 6"
definition MAX_GROUP_PEERS :: nat where "MAX_GROUP_PEERS = MAX_GROUP_MEMBERS - 1"

definition mkGroup :: group where
  "mkGroup = \<lparr>gm_members = replicate MAX_GROUP_PEERS empty_member, gm_memberCount = 0,
     gm_membersInZoneCount = 0, gm_events = []\<rparr>"

definition gm_emit :: "group_event \<Rightarrow> group \<Rightarrow> group" where
  "gm_emit e g = g\<lparr>gm_events := gm_events g @ [e]\<rparr>"

text \<open>The loops over the slots that stop at the first slot that satisfies a test.\<close>

fun upd_first :: "('a \<Rightarrow> bool) \<Rightarrow> ('a \<Rightarrow> 'a) \<Rightarrow> 'a list \<Rightarrow> ('a \<times> 'a list) option" where
  "upd_first p f [] = None"
| "upd_first p f (x # xs) =
     (if p x then Some (x, f x # xs)
      else case upd_first p f xs of None \<Rightarrow> None | Some (y, ys) \<Rightarrow> Some (y, x # ys))"

section \<open>Spawns that come and go\<close>

text \<open>\<open>addItem\<close>, \<open>delItem\<close> and \<open>killSpawn\<close> on the item at \<open>a\<close>: its type, whether it is a player, its name
  and its displayed name. \<open>killSpawn\<close> has the body of \<open>delItem\<close>.\<close>

definition slot_named :: "string \<Rightarrow> string \<Rightarrow> member \<Rightarrow> bool" where
  "slot_named raw display m \<longleftrightarrow> mb_name m \<noteq> '''' \<and> (mb_name m = raw \<or> mb_name m = display)"

definition gm_addItem :: "addr \<Rightarrow> spawnItemType \<Rightarrow> bool \<Rightarrow> string \<Rightarrow> string \<Rightarrow> group \<Rightarrow> group" where
  "gm_addItem a ty player raw display g =
     (if ty \<noteq> TSpawn \<and> ty \<noteq> TPlayer then g
      else if \<not> player then g
      else case upd_first (slot_named raw display) (\<lambda>m. m\<lparr>mb_spawn := Some a\<rparr>) (gm_members g) of
        None \<Rightarrow> g
      | Some (m, ms) \<Rightarrow> g\<lparr>gm_members := ms, gm_membersInZoneCount := gm_membersInZoneCount g + 1\<rparr>)"

definition gm_delItem :: "spawnItemType \<Rightarrow> bool \<Rightarrow> string \<Rightarrow> string \<Rightarrow> group \<Rightarrow> group" where
  "gm_delItem ty player raw display g =
     (if ty \<noteq> TSpawn \<and> ty \<noteq> TPlayer then g
      else if \<not> player then g
      else case upd_first (slot_named raw display) (\<lambda>m. m\<lparr>mb_spawn := None\<rparr>) (gm_members g) of
        None \<Rightarrow> g
      | Some (m, ms) \<Rightarrow> g\<lparr>gm_members := ms, gm_membersInZoneCount := gm_membersInZoneCount g - 1\<rparr>)"

definition gm_killSpawn :: "spawnItemType \<Rightarrow> bool \<Rightarrow> string \<Rightarrow> string \<Rightarrow> group \<Rightarrow> group" where
  "gm_killSpawn ty player raw display g =
     (if ty \<noteq> TSpawn \<and> ty \<noteq> TPlayer then g
      else if \<not> player then g
      else case upd_first (slot_named raw display) (\<lambda>m. m\<lparr>mb_spawn := None\<rparr>) (gm_members g) of
        None \<Rightarrow> g
      | Some (m, ms) \<Rightarrow> g\<lparr>gm_members := ms, gm_membersInZoneCount := gm_membersInZoneCount g - 1\<rparr>)"

definition gm_clear :: "group \<Rightarrow> group" where
  "gm_clear g = g\<lparr>gm_members := map (\<lambda>m. m\<lparr>mb_spawn := None\<rparr>) (gm_members g), gm_membersInZoneCount := 0\<rparr>"

section \<open>Members that join and leave\<close>

type_synonym finder = "string \<Rightarrow> addr option res"

text \<open>A member into the first empty slot.\<close>

definition gm_place :: "finder \<Rightarrow> string \<Rightarrow> group \<Rightarrow> group res" where
  "gm_place look name g =
     (if \<exists>m \<in> set (gm_members g). mb_name m = '''' then
        rbind (look name) (\<lambda>sp.
          case upd_first (\<lambda>m. mb_name m = '''') (\<lambda>m. \<lparr>mb_name = name, mb_spawn = sp\<rparr>) (gm_members g) of
            None \<Rightarrow> Inr g
          | Some (m, ms) \<Rightarrow>
              Inr (gm_emit (GAdded name sp)
                (g\<lparr>gm_members := ms, gm_memberCount := gm_memberCount g + 1,
                   gm_membersInZoneCount := gm_membersInZoneCount g + (if sp \<noteq> None then 1 else 0)\<rparr>)))
      else Inr g)"

text \<open>\<open>addGroupMember\<close>; the name is \<open>None\<close> when the payload does not decode, \<open>self\<close> is the name of the
  player.\<close>

definition gm_addGroupMember :: "finder \<Rightarrow> string \<Rightarrow> string option \<Rightarrow> group \<Rightarrow> group res" where
  "gm_addGroupMember look self out g =
     (case out of
        None \<Rightarrow> Inr g
      | Some name \<Rightarrow>
          if name = '''' then Inr g
          else if name = self then Inr g
          else if \<exists>m \<in> set (gm_members g). mb_name m = name then Inr g
          else gm_place look name g)"

text \<open>\<open>groupMemberList\<close>: the decoder gives the number of members and their names, joined by newlines.
  \<open>order\<close> is the order in which the \<open>QSet\<close> of names is visited.\<close>

fun split_nl :: "string \<Rightarrow> string \<Rightarrow> string list" where
  "split_nl acc [] = (if acc = '''' then [] else [rev acc])"
| "split_nl acc (c # cs) =
     (if c = CHR 0x0A then (if acc = '''' then split_nl '''' cs else rev acc # split_nl '''' cs)
      else split_nl (c # acc) cs)"

fun remove_absent :: "string list \<Rightarrow> member list \<Rightarrow> u64 \<Rightarrow> u64 \<Rightarrow> member list \<times> group_event list \<times> u64 \<times> u64" where
  "remove_absent incoming [] c z = ([], [], c, z)"
| "remove_absent incoming (m # ms) c z =
     (if mb_name m \<noteq> '''' \<and> mb_name m \<notin> set incoming
      then let (ms', evs, c', z') = remove_absent incoming ms (c - 1) (if mb_spawn m \<noteq> None then z - 1 else z)
           in (empty_member # ms', GRemoved (mb_name m) (mb_spawn m) # evs, c', z')
      else let (ms', evs, c', z') = remove_absent incoming ms c z in (m # ms', evs, c', z'))"

fun add_incoming :: "finder \<Rightarrow> string list \<Rightarrow> string list \<Rightarrow> group \<Rightarrow> group res" where
  "add_incoming look existing [] g = Inr g"
| "add_incoming look existing (name # names) g =
     (if name \<in> set existing then add_incoming look existing names g
      else rbind (gm_place look name g) (add_incoming look existing names))"

definition gm_groupMemberList ::
  "finder \<Rightarrow> (string list \<Rightarrow> string list) \<Rightarrow> string \<Rightarrow> (u32 \<times> string) option \<Rightarrow> group \<Rightarrow> group res" where
  "gm_groupMemberList look order self out g =
     (case out of
        None \<Rightarrow> Inr g
      | Some (member_count, names) \<Rightarrow>
          if member_count = 0 \<or> of_nat MAX_GROUP_MEMBERS < member_count then Inr g
          else let incoming = remdups (filter (\<lambda>name. name \<noteq> self) (split_nl '''' names));
                   (ms, evs, c, z) = remove_absent incoming (gm_members g) (gm_memberCount g) (gm_membersInZoneCount g);
                   g = g\<lparr>gm_members := ms, gm_memberCount := c, gm_membersInZoneCount := z,
                         gm_events := gm_events g @ evs\<rparr>;
                   existing = filter (\<lambda>n. n \<noteq> '''') (map mb_name ms)
               in add_incoming look existing (order incoming) g)"

text \<open>\<open>removeGroupMember\<close>: the spawn is looked up again instead of taken from the slot. A slot is matched
  by its name even if the name is empty.\<close>

definition gm_removeGroupMember :: "finder \<Rightarrow> string \<Rightarrow> string option \<Rightarrow> group \<Rightarrow> group res" where
  "gm_removeGroupMember look self out g =
     (case out of
        None \<Rightarrow> Inr g
      | Some memberName \<Rightarrow>
          if memberName = self
          then Inr (gm_emit GCleared
                 (g\<lparr>gm_memberCount := 0, gm_membersInZoneCount := 0,
                    gm_members := map (\<lambda>m. empty_member) (gm_members g)\<rparr>))
          else (case upd_first (\<lambda>m. mb_name m = memberName) (\<lambda>m. empty_member) (gm_members g) of
            None \<Rightarrow> Inr g
          | Some (m, ms) \<Rightarrow>
              rbind (look (mb_name m)) (\<lambda>sp.
                Inr ((gm_emit (GRemoved (mb_name m) (mb_spawn m)) g)\<lparr>gm_members := ms,
                  gm_memberCount := gm_memberCount g - 1,
                  gm_membersInZoneCount := gm_membersInZoneCount g - (if sp \<noteq> None then 1 else 0)\<rparr>))))"

section \<open>Reading the group\<close>

definition gm_memberByName :: "string \<Rightarrow> group \<Rightarrow> addr option" where
  "gm_memberByName name g =
     (case find (\<lambda>m. mb_name m = name) (gm_members g) of None \<Rightarrow> None | Some m \<Rightarrow> mb_spawn m)"

definition gm_memberBySlot :: "u16 \<Rightarrow> group \<Rightarrow> addr option" where
  "gm_memberBySlot slot g =
     (if MAX_GROUP_PEERS \<le> unat slot then None else mb_spawn (gm_members g ! unat slot))"

definition gm_memberNameBySlot :: "u16 \<Rightarrow> group \<Rightarrow> string" where
  "gm_memberNameBySlot slot g =
     (if MAX_GROUP_PEERS \<le> unat slot then '''' else mb_name (gm_members g ! unat slot))"

text \<open>\<open>memberByID\<close> and \<open>totalLevels\<close> read the spawns: \<open>id_of\<close> and \<open>level_of\<close> read through a pointer.\<close>

fun first_with_id :: "(addr \<Rightarrow> u16 res) \<Rightarrow> u16 \<Rightarrow> member list \<Rightarrow> addr option res" where
  "first_with_id id_of i [] = Inr None"
| "first_with_id id_of i (m # ms) =
     (case mb_spawn m of
        None \<Rightarrow> first_with_id id_of i ms
      | Some a \<Rightarrow> rbind (id_of a) (\<lambda>j. if j = i then Inr (Some a) else first_with_id id_of i ms))"

definition gm_memberByID :: "(addr \<Rightarrow> u16 res) \<Rightarrow> u16 \<Rightarrow> group \<Rightarrow> addr option res" where
  "gm_memberByID id_of i g = first_with_id id_of i (gm_members g)"

fun sum_levels :: "(addr \<Rightarrow> u32 res) \<Rightarrow> member list \<Rightarrow> u64 res" where
  "sum_levels level_of [] = Inr 0"
| "sum_levels level_of (m # ms) =
     rbind (case mb_spawn m of None \<Rightarrow> Inr 0 | Some a \<Rightarrow> level_of a) (\<lambda>l.
     rbind (sum_levels level_of ms) (\<lambda>t. Inr (scast l + t)))"

definition gm_totalLevels :: "(addr \<Rightarrow> u32 res) \<Rightarrow> u32 \<Rightarrow> group \<Rightarrow> u64 res" where
  "gm_totalLevels level_of player_level g =
     (if gm_memberCount g = 0 then Inr (scast player_level)
      else rbind (sum_levels level_of (gm_members g)) (\<lambda>total.
        if total = 0 then Inr (scast player_level) else Inr total))"

text \<open>\<open>groupBonus\<close>, in hundredths.\<close>

definition gm_groupBonus :: "group \<Rightarrow> nat" where
  "gm_groupBonus g =
     (let n = gm_memberCount g
      in if n = 2 then 102 else if n = 3 then 106 else if n = 4 then 110 else if n = 5 then 114
         else if n = 6 then 120 else 100)"

section \<open>The roster\<close>

lemma upd_first_Some:
  "upd_first p f xs = Some (y, ys) \<Longrightarrow> \<exists>as bs. xs = as @ y # bs \<and> ys = as @ f y # bs \<and> p y \<and> (\<forall>x \<in> set as. \<not> p x)"
proof (induction xs arbitrary: ys)
  case (Cons x xs)
  show ?case
  proof (cases "p x")
    case True
    then show ?thesis using Cons.prems by (intro exI [of _ "[]"] exI [of _ xs]) auto
  next
    case False
    then obtain zs where zs: "upd_first p f xs = Some (y, zs)" "ys = x # zs"
      using Cons.prems by (auto split: option.splits)
    from Cons.IH [OF zs(1)] obtain as bs where
      "xs = as @ y # bs \<and> zs = as @ f y # bs \<and> p y \<and> (\<forall>x \<in> set as. \<not> p x)" by blast
    then show ?thesis using False zs(2) by (intro exI [of _ "x # as"] exI [of _ bs]) auto
  qed
qed simp

lemma upd_first_None: "upd_first p f xs = None \<longleftrightarrow> (\<forall>x \<in> set xs. \<not> p x)"
  by (induction xs) (auto split: option.splits)

definition members :: "group \<Rightarrow> nat" where
  "members g = length (filter (\<lambda>m. mb_name m \<noteq> '''') (gm_members g))"

definition attached :: "group \<Rightarrow> nat" where
  "attached g = length (filter (\<lambda>m. mb_spawn m \<noteq> None) (gm_members g))"

definition names :: "member list \<Rightarrow> string list" where
  "names ms = filter (\<lambda>n. n \<noteq> '''') (map mb_name ms)"

text \<open>Five slots, no name twice, nothing behind a slot without a name.\<close>

definition group_inv :: "group \<Rightarrow> bool" where
  "group_inv g \<longleftrightarrow> length (gm_members g) = 5 \<and> distinct (names (gm_members g)) \<and>
     (\<forall>m \<in> set (gm_members g). mb_name m = '''' \<longrightarrow> mb_spawn m = None)"

lemma names_simps [simp]:
  "names [] = []" "names (as @ bs) = names as @ names bs"
  "names (m # ms) = (if mb_name m \<noteq> '''' then mb_name m # names ms else names ms)"
  by (auto simp: names_def)

lemma in_names: "n \<in> set (names ms) \<longleftrightarrow> n \<noteq> '''' \<and> (\<exists>m \<in> set ms. mb_name m = n)"
  by (auto simp: names_def)

lemma length_names: "length (names ms) = length (filter (\<lambda>m. mb_name m \<noteq> '''') ms)"
  by (induction ms) auto

lemma members_names: "members g = length (names (gm_members g))"
  by (simp add: members_def length_names)

lemma members_le: "group_inv g \<Longrightarrow> members g \<le> 5"
  using length_filter_le [of "\<lambda>m. mb_name m \<noteq> ''''" "gm_members g"] by (simp add: group_inv_def members_def)

lemma mkGroup_inv: "group_inv mkGroup"
  by (simp add: group_inv_def mkGroup_def MAX_GROUP_PEERS_def MAX_GROUP_MEMBERS_def numeral_eq_Suc empty_member_def)

lemma gm_emit_simps [simp]:
  "gm_members (gm_emit e g) = gm_members g" "gm_memberCount (gm_emit e g) = gm_memberCount g"
  "gm_membersInZoneCount (gm_emit e g) = gm_membersInZoneCount g" "gm_events (gm_emit e g) = gm_events g @ [e]"
  by (simp_all add: gm_emit_def)

lemma empty_member_simps [simp]: "mb_name empty_member = ''''" "mb_spawn empty_member = None"
  by (simp_all add: empty_member_def)

subsection \<open>The count of members in the zone\<close>

text \<open>By how much the count is above the number of slots with a spawn.\<close>

definition excess :: "group \<Rightarrow> u64" where
  "excess g = gm_membersInZoneCount g - of_nat (attached g)"

definition concerns :: "spawnItemType \<Rightarrow> bool \<Rightarrow> string \<Rightarrow> string \<Rightarrow> group \<Rightarrow> member option" where
  "concerns ty player raw display g =
     (if (ty = TSpawn \<or> ty = TPlayer) \<and> player then List.find (slot_named raw display) (gm_members g) else None)"

lemma upd_first_find: "map_option fst (upd_first p f xs) = List.find p xs"
  by (induction xs) (auto split: option.splits)

lemma concerns_upd_first:
  "(ty = TSpawn \<or> ty = TPlayer) \<and> player \<Longrightarrow> concerns ty player raw display g =
     map_option fst (upd_first (slot_named raw display) f (gm_members g))"
  by (simp add: concerns_def upd_first_find)

lemma attached_split:
  "gm_members g = as @ m # bs \<Longrightarrow>
     attached (g\<lparr>gm_members := as @ m' # bs, gm_memberCount := c, gm_membersInZoneCount := z\<rparr>)
       + (if mb_spawn m \<noteq> None then 1 else 0) = attached g + (if mb_spawn m' \<noteq> None then 1 else 0)"
  by (simp add: attached_def)

lemma attached_Cons: "attached (g\<lparr>gm_members := m # ms\<rparr>) = (if mb_spawn m \<noteq> None then 1 else 0) + attached (g\<lparr>gm_members := ms\<rparr>)"
  by (simp add: attached_def)

lemma excess_upd_first:
  assumes "upd_first p f (gm_members g) = Some (m, ms)"
  shows "excess (g\<lparr>gm_members := ms, gm_membersInZoneCount := z\<rparr>) = z - of_nat (attached g)
    + (if mb_spawn m \<noteq> None then 1 else 0) - (if mb_spawn (f m) \<noteq> None then 1 else 0)"
proof -
  from upd_first_Some [OF assms] obtain as bs where *: "gm_members g = as @ m # bs" "ms = as @ f m # bs" by blast
  have "attached (g\<lparr>gm_members := ms, gm_membersInZoneCount := z\<rparr>) + (if mb_spawn m \<noteq> None then 1 else 0) =
      attached g + (if mb_spawn (f m) \<noteq> None then 1 else 0)"
    by (simp add: attached_def *)
  from arg_cong [where f = "of_nat :: nat \<Rightarrow> u64", OF this] show ?thesis
    by (cases "mb_spawn m"; cases "mb_spawn (f m)") (auto simp: excess_def algebra_simps)
qed

lemma excess_addItem:
  "excess (gm_addItem a ty player raw display g) = excess g +
     (case concerns ty player raw display g of Some m \<Rightarrow> if mb_spawn m \<noteq> None then 1 else 0 | None \<Rightarrow> 0)"
proof (cases "(ty = TSpawn \<or> ty = TPlayer) \<and> player")
  case True
  let ?f = "\<lambda>m. m\<lparr>mb_spawn := Some a\<rparr>"
  show ?thesis
  proof (cases "upd_first (slot_named raw display) ?f (gm_members g)")
    case None
    then have "concerns ty player raw display g = None" by (simp add: concerns_upd_first [OF True, of raw display g ?f])
    moreover have "gm_addItem a ty player raw display g = g" using None by (simp add: gm_addItem_def)
    ultimately show ?thesis by simp
  next
    case (Some p)
    then obtain m ms where p: "upd_first (slot_named raw display) ?f (gm_members g) = Some (m, ms)" by (cases p) auto
    then have "concerns ty player raw display g = Some m" by (simp add: concerns_upd_first [OF True, of raw display g ?f])
    moreover have "gm_addItem a ty player raw display g =
        g\<lparr>gm_members := ms, gm_membersInZoneCount := gm_membersInZoneCount g + 1\<rparr>"
      using True p by (auto simp: gm_addItem_def)
    ultimately show ?thesis
      using excess_upd_first [OF p, of "gm_membersInZoneCount g + 1"] by (simp add: excess_def)
  qed
qed (auto simp: gm_addItem_def concerns_def)

lemma excess_delItem:
  "excess (gm_delItem ty player raw display g) = excess g -
     (case concerns ty player raw display g of Some m \<Rightarrow> if mb_spawn m = None then 1 else 0 | None \<Rightarrow> 0)"
proof (cases "(ty = TSpawn \<or> ty = TPlayer) \<and> player")
  case True
  let ?f = "\<lambda>m. m\<lparr>mb_spawn := None\<rparr>"
  show ?thesis
  proof (cases "upd_first (slot_named raw display) ?f (gm_members g)")
    case None
    then have "concerns ty player raw display g = None" by (simp add: concerns_upd_first [OF True, of raw display g ?f])
    moreover have "gm_delItem ty player raw display g = g" using None by (simp add: gm_delItem_def)
    ultimately show ?thesis by simp
  next
    case (Some p)
    then obtain m ms where p: "upd_first (slot_named raw display) ?f (gm_members g) = Some (m, ms)" by (cases p) auto
    then have "concerns ty player raw display g = Some m" by (simp add: concerns_upd_first [OF True, of raw display g ?f])
    moreover have "gm_delItem ty player raw display g =
        g\<lparr>gm_members := ms, gm_membersInZoneCount := gm_membersInZoneCount g - 1\<rparr>"
      using True p by (auto simp: gm_delItem_def)
    ultimately show ?thesis
      using excess_upd_first [OF p, of "gm_membersInZoneCount g - 1"] by (simp add: excess_def)
  qed
qed (auto simp: gm_delItem_def concerns_def)

lemma excess_clear: "excess (gm_clear g) = 0"
  by (simp add: excess_def gm_clear_def attached_def)

subsection \<open>Members that join\<close>

definition count_excess :: "group \<Rightarrow> u64" where
  "count_excess g = gm_memberCount g - of_nat (members g)"

definition keeps_slots :: "member list \<Rightarrow> member list \<Rightarrow> bool" where
  "keeps_slots ms ms' \<longleftrightarrow> list_all2 (\<lambda>m m'. mb_name m \<noteq> '''' \<longrightarrow> m' = m) ms ms'"

lemma keeps_slots_refl [simp]: "keeps_slots ms ms"
  by (simp add: keeps_slots_def list_all2_refl)

lemma keeps_slots_trans: "keeps_slots xs ys \<Longrightarrow> keeps_slots ys zs \<Longrightarrow> keeps_slots xs zs"
  unfolding keeps_slots_def by (rule list_all2_trans) auto

definition ptrs :: "(addr \<Rightarrow> bool) \<Rightarrow> group \<Rightarrow> bool" where
  "ptrs live g \<longleftrightarrow> (\<forall>m \<in> set (gm_members g). \<forall>a. mb_spawn m = Some a \<longrightarrow> live a)"

text \<open>What the group relies on when it looks a spawn up: the search returns, and what it returns is a
  spawn that exists.\<close>

locale spawn_lookup =
  fixes look :: finder and live :: "addr \<Rightarrow> bool"
  assumes look_returns: "\<exists>r. look n = Inr r"
    and look_live: "look n = Inr (Some a) \<Longrightarrow> live a"
begin

definition ok :: "group \<Rightarrow> bool" where
  "ok g \<longleftrightarrow> group_inv g \<and> ptrs live g"

definition follows :: "group \<Rightarrow> group \<Rightarrow> bool" where
  "follows g g' \<longleftrightarrow> ok g' \<and> keeps_slots (gm_members g) (gm_members g') \<and> excess g' = excess g \<and> count_excess g' = count_excess g"

lemma follows_refl: "ok g \<Longrightarrow> follows g g"
  by (simp add: follows_def)

lemma follows_trans: "follows f g \<Longrightarrow> follows g h \<Longrightarrow> follows f h"
  by (auto simp: follows_def intro: keeps_slots_trans)

lemma gm_place_room:
  assumes "ok g" "name \<noteq> ''''" "name \<notin> set (names (gm_members g))" "\<exists>m \<in> set (gm_members g). mb_name m = ''''"
  shows "\<exists>g'. gm_place look name g = Inr g' \<and> follows g g' \<and>
    set (names (gm_members g')) = insert name (set (names (gm_members g)))"
proof -
  obtain sp where sp: "look name = Inr sp" using look_returns by blast
  let ?p = "\<lambda>m. mb_name m = ''''" and ?f = "\<lambda>m :: member. \<lparr>mb_name = name, mb_spawn = sp\<rparr>"
  obtain m ms where u: "upd_first ?p ?f (gm_members g) = Some (m, ms)"
    using assms(4) upd_first_None [of ?p ?f "gm_members g"] by (cases "upd_first ?p ?f (gm_members g)") auto
  from upd_first_Some [OF u] obtain as bs where
    *: "gm_members g = as @ m # bs" "ms = as @ ?f m # bs" "mb_name m = ''''" by blast
  have m: "mb_spawn m = None" using assms(1) *(1,3) by (simp add: ok_def group_inv_def)
  let ?g = "gm_emit (GAdded name sp) (g\<lparr>gm_members := ms, gm_memberCount := gm_memberCount g + 1,
    gm_membersInZoneCount := gm_membersInZoneCount g + (if sp \<noteq> None then 1 else 0)\<rparr>)"
  have place: "gm_place look name g = Inr ?g"
    using assms(4) by (simp add: gm_place_def sp u)
  have "group_inv ?g" using assms(1-3) * by (auto simp: group_inv_def ok_def)
  moreover have "ptrs live ?g"
    using assms(1) sp look_live by (auto simp: ptrs_def ok_def *(1,2))
  moreover have "keeps_slots (gm_members g) (gm_members ?g)"
    by (simp add: * keeps_slots_def list_all2_appendI list_all2_refl)
  moreover have "excess ?g = excess g"
    using m by (auto simp: excess_def attached_def *(1,2))
  moreover have "count_excess ?g = count_excess g"
    using assms(2) by (simp add: count_excess_def members_def *)
  moreover have "set (names (gm_members ?g)) = insert name (set (names (gm_members g)))"
    using assms(2) * by auto
  ultimately show ?thesis using place by (auto simp: follows_def ok_def)
qed

lemma gm_place_full:
  "ok g \<Longrightarrow> \<not> (\<exists>m \<in> set (gm_members g). mb_name m = '''') \<Longrightarrow> gm_place look name g = Inr g"
  by (simp add: gm_place_def)

lemma gm_place_ok:
  assumes "ok g" "name \<noteq> ''''" "name \<notin> set (names (gm_members g))"
  shows "\<exists>g'. gm_place look name g = Inr g' \<and> follows g g'"
  using gm_place_room [OF assms] gm_place_full [OF assms(1), of name] follows_refl [OF assms(1)] by blast

lemma gm_addGroupMember_ok:
  assumes "ok g"
  shows "\<exists>g'. gm_addGroupMember look self out g = Inr g' \<and> follows g g'"
  using gm_place_ok [OF assms] follows_refl [OF assms]
  by (auto simp: gm_addGroupMember_def in_names split: option.splits)

lemma room:
  assumes "ok g" "card (set (names (gm_members g))) < 5"
  shows "\<exists>m \<in> set (gm_members g). mb_name m = ''''"
proof (rule ccontr)
  assume "\<not> ?thesis"
  then have "names (gm_members g) = map mb_name (gm_members g)" by (auto simp: names_def filter_id_conv)
  then have "length (names (gm_members g)) = 5" using assms(1) by (simp add: ok_def group_inv_def)
  moreover have "card (set (names (gm_members g))) = length (names (gm_members g))"
    using assms(1) by (simp add: distinct_card ok_def group_inv_def)
  ultimately show False using assms(2) by simp
qed

lemma add_incoming_ok:
  assumes "ok g" "distinct ns" "'''' \<notin> set ns" "\<And>n. n \<in> set ns \<Longrightarrow> n \<in> set E \<longleftrightarrow> n \<in> set (names (gm_members g))"
    "card (set (names (gm_members g)) \<union> set ns) \<le> 5"
  shows "\<exists>g'. add_incoming look E ns g = Inr g' \<and> follows g g' \<and>
    set (names (gm_members g')) = set (names (gm_members g)) \<union> set ns"
  using assms
proof (induction ns arbitrary: g)
  case Nil
  then show ?case by (simp add: follows_refl)
next
  case (Cons n ns)
  show ?case
  proof (cases "n \<in> set E")
    case True
    then have n: "n \<in> set (names (gm_members g))" using Cons.prems(4) by simp
    then have "insert n (set (names (gm_members g)) \<union> set ns) = set (names (gm_members g)) \<union> set ns" by blast
    then show ?thesis using Cons.IH [of g] Cons.prems True n by auto
  next
    case False
    then have n: "n \<notin> set (names (gm_members g))" "n \<noteq> ''''" using Cons.prems(3,4) by auto
    have "card (insert n (set (names (gm_members g)))) \<le> 5"
      using Cons.prems(5) by (rule le_trans [rotated]) (auto intro: card_mono)
    then have "card (set (names (gm_members g))) < 5" using n(1) by simp
    from gm_place_room [OF Cons.prems(1) n(2,1) room [OF Cons.prems(1) this]] obtain g1 where
      g1: "gm_place look n g = Inr g1" "follows g g1" "set (names (gm_members g1)) = insert n (set (names (gm_members g)))" by blast
    have "\<exists>g'. add_incoming look E ns g1 = Inr g' \<and> follows g1 g' \<and>
        set (names (gm_members g')) = set (names (gm_members g1)) \<union> set ns"
      using Cons.prems g1 by (intro Cons.IH) (auto simp: follows_def)
    then show ?thesis using False g1 by (auto intro: follows_trans)
  qed
qed

end

subsection \<open>The full list of members\<close>

definition absent :: "string list \<Rightarrow> member \<Rightarrow> bool" where
  "absent incoming m \<longleftrightarrow> mb_name m \<noteq> '''' \<and> mb_name m \<notin> set incoming"

lemma remove_absent_eq:
  "remove_absent incoming ms c z =
     (map (\<lambda>m. if absent incoming m then empty_member else m) ms,
      map (\<lambda>m. GRemoved (mb_name m) (mb_spawn m)) (filter (absent incoming) ms),
      c - of_nat (length (filter (absent incoming) ms)),
      z - of_nat (length (filter (\<lambda>m. absent incoming m \<and> mb_spawn m \<noteq> None) ms)))"
  by (induction ms arbitrary: c z) (auto simp: absent_def Let_def algebra_simps)

lemma names_after_removal:
  "names (map (\<lambda>m. if absent incoming m then empty_member else m) ms) = filter (\<lambda>n. n \<in> set incoming) (names ms)"
  by (induction ms) (auto simp: absent_def)

lemma counts_after_removal:
  "length (filter (\<lambda>m. mb_name m \<noteq> '''') (map (\<lambda>m. if absent incoming m then empty_member else m) ms))
     + length (filter (absent incoming) ms) = length (filter (\<lambda>m. mb_name m \<noteq> '''') ms)"
  "length (filter (\<lambda>m. mb_spawn m \<noteq> None) (map (\<lambda>m. if absent incoming m then empty_member else m) ms))
     + length (filter (\<lambda>m. absent incoming m \<and> mb_spawn m \<noteq> None) ms) = length (filter (\<lambda>m. mb_spawn m \<noteq> None) ms)"
  by (induction ms) (auto simp: absent_def)

lemma split_nl_nonempty: "'''' \<notin> set (split_nl acc s)"
  by (induction acc s rule: split_nl.induct) auto

definition after_removal :: "string list \<Rightarrow> group \<Rightarrow> group" where
  "after_removal incoming g = g\<lparr>gm_members := map (\<lambda>m. if absent incoming m then empty_member else m) (gm_members g),
     gm_memberCount := gm_memberCount g - of_nat (length (filter (absent incoming) (gm_members g))),
     gm_membersInZoneCount := gm_membersInZoneCount g
       - of_nat (length (filter (\<lambda>m. absent incoming m \<and> mb_spawn m \<noteq> None) (gm_members g))),
     gm_events := gm_events g @ map (\<lambda>m. GRemoved (mb_name m) (mb_spawn m)) (filter (absent incoming) (gm_members g))\<rparr>"

lemma after_removal_excess: "excess (after_removal incoming g) = excess g"
  using arg_cong [where f = "of_nat :: nat \<Rightarrow> u64", OF counts_after_removal(2) [of incoming "gm_members g"]]
  by (simp add: excess_def attached_def after_removal_def algebra_simps)

lemma after_removal_count: "count_excess (after_removal incoming g) = count_excess g"
  using arg_cong [where f = "of_nat :: nat \<Rightarrow> u64", OF counts_after_removal(1) [of incoming "gm_members g"]]
  by (simp add: count_excess_def members_def after_removal_def algebra_simps)

context spawn_lookup begin

lemma after_removal_ok: "ok g \<Longrightarrow> ok (after_removal incoming g)"
  by (auto simp: ok_def group_inv_def ptrs_def after_removal_def names_after_removal split: if_splits)

lemma add_incoming_keeps:
  assumes "ok g" "distinct ns" "'''' \<notin> set ns" "\<And>n. n \<in> set ns \<Longrightarrow> n \<in> set E \<longleftrightarrow> n \<in> set (names (gm_members g))"
  shows "\<exists>g'. add_incoming look E ns g = Inr g' \<and> follows g g'"
  using assms
proof (induction ns arbitrary: g)
  case Nil
  then show ?case by (simp add: follows_refl)
next
  case (Cons n ns)
  show ?case
  proof (cases "n \<in> set E")
    case True
    then show ?thesis using Cons.IH [of g] Cons.prems by auto
  next
    case False
    then have n: "n \<notin> set (names (gm_members g))" "n \<noteq> ''''" using Cons.prems(3,4) by auto
    show ?thesis
    proof (cases "\<exists>m \<in> set (gm_members g). mb_name m = ''''")
      case True
      from gm_place_room [OF Cons.prems(1) n(2,1) True] obtain g1 where
        g1: "gm_place look n g = Inr g1" "follows g g1" "set (names (gm_members g1)) = insert n (set (names (gm_members g)))" by blast
      have "\<exists>g'. add_incoming look E ns g1 = Inr g' \<and> follows g1 g'"
        using Cons.prems g1 by (intro Cons.IH) (auto simp: follows_def)
      then show ?thesis using False g1 by (auto intro: follows_trans)
    next
      case no: False
      then show ?thesis
        using Cons.IH [of g] Cons.prems False gm_place_full [OF Cons.prems(1), of n] by auto
    qed
  qed
qed

lemma memberList_unfold:
  assumes "out = Some (n, s)" "n \<noteq> 0" "n \<le> 6" "incoming = remdups (filter (\<lambda>name. name \<noteq> self) (split_nl '''' s))"
  shows "gm_groupMemberList look order self out g =
    add_incoming look (names (gm_members (after_removal incoming g))) (order incoming) (after_removal incoming g)"
proof -
  have "\<not> (n = 0 \<or> of_nat MAX_GROUP_MEMBERS < n)" using assms(2,3) by (auto simp: MAX_GROUP_MEMBERS_def)
  then show ?thesis
    unfolding gm_groupMemberList_def assms(1) option.case prod.case if_not_P assms(4) [symmetric] Let_def remove_absent_eq
    by (simp add: after_removal_def names_def)
qed

lemma gm_groupMemberList_ok:
  assumes "ok g" "\<And>xs. distinct xs \<Longrightarrow> distinct (order xs) \<and> set (order xs) = set xs"
  shows "\<exists>g'. gm_groupMemberList look order self out g = Inr g' \<and> ok g' \<and> excess g' = excess g \<and> count_excess g' = count_excess g"
proof (cases "\<exists>n s. out = Some (n, s) \<and> n \<noteq> 0 \<and> n \<le> 6")
  case True
  then obtain n s where out: "out = Some (n, s)" "n \<noteq> 0" "n \<le> 6" by blast
  let ?inc = "remdups (filter (\<lambda>name. name \<noteq> self) (split_nl '''' s))"
  have "\<exists>g'. add_incoming look (names (gm_members (after_removal ?inc g))) (order ?inc) (after_removal ?inc g) = Inr g' \<and>
      follows (after_removal ?inc g) g'"
    using assms(2) [of ?inc] split_nl_nonempty [of "''''" s]
    by (intro add_incoming_keeps after_removal_ok assms(1)) auto
  then show ?thesis
    unfolding memberList_unfold [OF out refl] follows_def using after_removal_excess after_removal_count by auto
next
  case False
  then have "gm_groupMemberList look order self out g = Inr g"
    by (auto simp: gm_groupMemberList_def MAX_GROUP_MEMBERS_def linorder_not_le split: option.split)
  then show ?thesis using assms(1) by simp
qed

lemma memberList_roster:
  assumes "ok g" "\<And>xs. distinct xs \<Longrightarrow> distinct (order xs) \<and> set (order xs) = set xs"
    "n \<noteq> 0" "n \<le> 6" "incoming = remdups (filter (\<lambda>name. name \<noteq> self) (split_nl '''' s))" "length incoming \<le> 5"
  shows "\<exists>g'. gm_groupMemberList look order self (Some (n, s)) g = Inr g' \<and> ok g' \<and>
    set (names (gm_members g')) = set incoming \<and>
    list_all2 (\<lambda>m m'. mb_name m \<in> set incoming \<longrightarrow> m' = m) (gm_members g) (gm_members g')"
proof -
  let ?r = "after_removal incoming g"
  have ns: "names (gm_members ?r) = filter (\<lambda>n. n \<in> set incoming) (names (gm_members g))"
    by (simp add: after_removal_def names_after_removal)
  have "distinct incoming" by (simp add: assms(5))
  have inc: "distinct (order incoming)" "set (order incoming) = set incoming" "'''' \<notin> set incoming"
    using assms(2) [of incoming] split_nl_nonempty [of "''''" s] by (auto simp: assms(5))
  have union: "set (names (gm_members ?r)) \<union> set (order incoming) = set incoming" using inc ns by auto
  have "card (set (names (gm_members ?r)) \<union> set (order incoming)) \<le> 5"
    using assms(6) card_length [of incoming] by (simp only: union)
  then have "\<exists>g'. add_incoming look (names (gm_members ?r)) (order incoming) ?r = Inr g' \<and> follows ?r g' \<and>
      set (names (gm_members g')) = set (names (gm_members ?r)) \<union> set (order incoming)"
    using inc by (intro add_incoming_ok after_removal_ok assms(1)) auto
  then obtain g' where g': "gm_groupMemberList look order self (Some (n, s)) g = Inr g'" "follows ?r g'"
    "set (names (gm_members g')) = set incoming"
    using memberList_unfold [OF refl assms(3-5), of order g] union by auto
  have "list_all2 (\<lambda>m m'. mb_name m \<in> set incoming \<longrightarrow> m' = m) (gm_members g) (gm_members ?r)"
    by (simp add: after_removal_def list_all2_map2 absent_def list_all2_same)
  moreover have "list_all2 (\<lambda>m m'. mb_name m \<noteq> '''' \<longrightarrow> m' = m) (gm_members ?r) (gm_members g')"
    using g'(2) by (simp add: follows_def keeps_slots_def)
  ultimately have "list_all2 (\<lambda>m m'. mb_name m \<in> set incoming \<longrightarrow> m' = m) (gm_members g) (gm_members g')"
    by (rule list_all2_trans [rotated]) (use inc(3) in auto)
  then show ?thesis using g' by (auto simp: follows_def)
qed

end

subsection \<open>Members that leave\<close>

lemma find_upd_first: "List.find p xs = Some m \<Longrightarrow> \<exists>ms. upd_first p f xs = Some (m, ms)"
  using upd_first_find [of p f xs] by auto

lemma removal_effect:
  assumes "group_inv g" "n \<noteq> self" "List.find (\<lambda>m. mb_name m = n) (gm_members g) = Some m" "look n = Inr sp"
  shows "\<exists>g'. gm_removeGroupMember look self (Some n) g = Inr g' \<and> group_inv g' \<and>
    set (gm_members g') \<subseteq> insert empty_member (set (gm_members g)) \<and>
    excess g' = excess g + (if mb_spawn m \<noteq> None then 1 else 0) - (if sp \<noteq> None then 1 else 0) \<and>
    count_excess g' = count_excess g - (if n = '''' then 1 else 0)"
proof -
  let ?p = "\<lambda>m. mb_name m = n" and ?f = "\<lambda>m :: member. empty_member"
  obtain ms where u: "upd_first ?p ?f (gm_members g) = Some (m, ms)" using find_upd_first [OF assms(3)] by blast
  from upd_first_Some [OF u] obtain as bs where
    *: "gm_members g = as @ m # bs" "ms = as @ empty_member # bs" "mb_name m = n" by blast
  let ?z = "gm_membersInZoneCount g - (if sp \<noteq> None then 1 else 0)"
  let ?g = "(gm_emit (GRemoved (mb_name m) (mb_spawn m)) g)\<lparr>gm_members := ms, gm_memberCount := gm_memberCount g - 1,
    gm_membersInZoneCount := ?z\<rparr>"
  have "gm_removeGroupMember look self (Some n) g = Inr ?g"
    using assms(2,4) u * by (simp add: gm_removeGroupMember_def)
  moreover have "group_inv ?g" using assms(1) * by (auto simp: group_inv_def split: if_splits)
  moreover have "set (gm_members ?g) \<subseteq> insert empty_member (set (gm_members g))" using * by auto
  moreover have "excess ?g = excess g + (if mb_spawn m \<noteq> None then 1 else 0) - (if sp \<noteq> None then 1 else 0)"
    by (auto simp: excess_def attached_def *(1,2))
  moreover have "count_excess ?g = count_excess g - (if n = '''' then 1 else 0)"
    by (auto simp: count_excess_def members_def *)
  ultimately show ?thesis by blast
qed

context spawn_lookup begin

lemma gm_removeGroupMember_ok:
  assumes "ok g"
  shows "\<exists>g'. gm_removeGroupMember look self out g = Inr g' \<and> ok g'"
proof (cases out)
  case (Some n)
  obtain sp where sp: "look n = Inr sp" using look_returns by blast
  consider "n = self" | "n \<noteq> self" "List.find (\<lambda>m. mb_name m = n) (gm_members g) = None"
    | m where "n \<noteq> self" "List.find (\<lambda>m. mb_name m = n) (gm_members g) = Some m"
    by (cases "List.find (\<lambda>m. mb_name m = n) (gm_members g)") auto
  then show ?thesis
  proof cases
    case 1
    have "names (map (\<lambda>m. empty_member) ms) = []" for ms :: "member list" by (induction ms) auto
    then show ?thesis using assms Some 1
      by (auto simp: gm_removeGroupMember_def ok_def group_inv_def ptrs_def)
  next
    case 2
    then have "upd_first (\<lambda>m. mb_name m = n) (\<lambda>m. empty_member) (gm_members g) = None"
      using upd_first_find [of "\<lambda>m. mb_name m = n" "\<lambda>m. empty_member" "gm_members g"] by simp
    then show ?thesis using assms Some 2 by (simp add: gm_removeGroupMember_def)
  next
    case (3 m)
    have "group_inv g" using assms by (simp add: ok_def)
    from removal_effect [where look = look, OF this 3 sp] show ?thesis
      using assms Some by (fastforce simp: ok_def ptrs_def)
  qed
qed (simp add: gm_removeGroupMember_def assms)

lemma gm_addItem_ok:
  assumes "ok g" "live a"
  shows "ok (gm_addItem a ty player raw display g)"
proof -
  have "ok (g\<lparr>gm_members := ms, gm_membersInZoneCount := z\<rparr>)"
    if u: "upd_first (slot_named raw display) (\<lambda>m. m\<lparr>mb_spawn := Some a\<rparr>) (gm_members g) = Some (m, ms)" for m ms z
  proof -
    from upd_first_Some [OF u] obtain as bs where
      "gm_members g = as @ m # bs" "ms = as @ m\<lparr>mb_spawn := Some a\<rparr> # bs" "slot_named raw display m" by blast
    then show ?thesis using assms by (auto simp: ok_def group_inv_def ptrs_def slot_named_def)
  qed
  then show ?thesis using assms(1) by (auto simp: gm_addItem_def split: option.split)
qed

lemma gm_delItem_ok:
  assumes "ok g"
  shows "ok (gm_delItem ty player raw display g)"
proof -
  have "ok (g\<lparr>gm_members := ms, gm_membersInZoneCount := z\<rparr>)"
    if u: "upd_first (slot_named raw display) (\<lambda>m. m\<lparr>mb_spawn := None\<rparr>) (gm_members g) = Some (m, ms)" for m ms z
  proof -
    from upd_first_Some [OF u] obtain as bs where
      "gm_members g = as @ m # bs" "ms = as @ m\<lparr>mb_spawn := None\<rparr> # bs" by blast
    then show ?thesis using assms by (auto simp: ok_def group_inv_def ptrs_def)
  qed
  then show ?thesis using assms(1) by (auto simp: gm_delItem_def split: option.split)
qed

lemma gm_killSpawn_eq: "gm_killSpawn ty player raw display g = gm_delItem ty player raw display g"
  by (simp add: gm_killSpawn_def gm_delItem_def)

lemma gm_clear_ok:
  assumes "ok g"
  shows "ok (gm_clear g)"
proof -
  have "names (map (\<lambda>m. m\<lparr>mb_spawn := None\<rparr>) ms) = names ms" for ms by (induction ms) auto
  then show ?thesis using assms by (auto simp: ok_def group_inv_def ptrs_def gm_clear_def)
qed

text \<open>Every pointer of the group can be read.\<close>

lemma totalLevels_returns:
  assumes "ok g" "\<And>a. live a \<Longrightarrow> \<exists>l. level_of a = Inr l"
  shows "\<exists>t. gm_totalLevels level_of player_level g = Inr t"
proof -
  have "\<forall>m \<in> set ms. \<forall>a. mb_spawn m = Some a \<longrightarrow> live a \<Longrightarrow> \<exists>t. sum_levels level_of ms = Inr t" for ms
  proof (induction ms)
    case (Cons m ms)
    then obtain t where "sum_levels level_of ms = Inr t" by auto
    moreover have "\<exists>l. (case mb_spawn m of None \<Rightarrow> Inr 0 | Some a \<Rightarrow> level_of a) = Inr l"
      using Cons.prems assms(2) by (cases "mb_spawn m") auto
    ultimately show ?case by auto
  qed simp
  then obtain t where "sum_levels level_of (gm_members g) = Inr t"
    using assms(1) unfolding ok_def ptrs_def by blast
  then show ?thesis by (cases "t = 0") (simp_all add: gm_totalLevels_def)
qed

end

end
