(* ===== verification/SpawnShell.thy ===== *)
theory SpawnShell
  imports GroupMgr NetStream "HOL-Library.Product_Lexorder" "HOL-Library.List_Lexorder" "HOL-Library.Char_ord"
begin

text \<open>
  The zone around the player: \<open>SpawnShell\<close> of \<open>src/spawnshell.h\<close> and \<open>src/spawnshell.cpp\<close>, with the
  player's own spawn (\<open>src/player.cpp\<close>) and the group it is connected to (\<open>src/daemonapp.cpp\<close>).

  Items live in a store and are passed as pointers: \<open>wd_heap\<close> maps addresses to objects. The tables
  are \<open>QHash\<close>es, association lists whose order of iteration is \<open>en_order\<close>; nothing may depend on it.
  What the decoders of the Rust library make of a payload is an argument of the handler, \<open>None\<close>
  when it is not accepted.
\<close>

section \<open>State\<close>

datatype obj = OSpawn spawn | ODoor door | ODrop drop_item

text \<open>What \<open>Player\<close> keeps beside its spawn: the settings, the last kill, and \<open>m_realName\<close>, the name the
  profile gave. Unlike the name of the spawn (\<open>m_name\<close>) it does not follow illusions and ids.\<close>

record player_info =
  pl_realName :: string
  pl_useAutoDetectedSettings :: bool
  pl_useDefaults :: bool
  pl_defaultName :: string
  pl_defaultLastName :: string
  pl_defaultLevel :: u32
  pl_defaultRace :: u16
  pl_defaultClass :: u8
  pl_defaultDeity :: u16
  pl_lastSpawnKilledName :: string
  pl_lastSpawnKilledLevel :: u32
  pl_freshKill :: bool

datatype zone_event =
    AddItem addr
  | DelItem addr
  | ChangeItem addr u32
  | KillSpawn addr "addr option" u16
  | ClearItems
  | NumSpawns nat
  | TargetSpawn u32
  | SpawnConsidered addr
  | PlayerNameResolved string

type_synonym item_map = "(int \<times> addr) list"

record world =
  wd_heap :: "addr \<Rightarrow> obj option"
  wd_next :: addr
  wd_spawns :: item_map
  wd_drops :: item_map
  wd_doors :: item_map
  wd_players :: item_map
  wd_deadSpawnID :: "u16 list"
  wd_cntDeadSpawnIDs :: u8
  wd_posDeadSpawnIDs :: u8
  wd_player :: player_info
  wd_zoning :: bool
  wd_group :: group
  wd_events :: "zone_event list"

text \<open>What stays fixed while a handler runs: the clocks, the conversions, the masks of \<open>FilterMgr\<close> (a
  function of the filter string and level of an item, hence of the item), the guild names of
  \<open>GuildMgr\<close>, the orders of iteration, the settings, and what fresh memory holds.\<close>

record env =
  en_clock :: clock
  en_float :: float_ops
  en_drop :: drop_env
  en_filterMask :: "obj \<Rightarrow> u32"
  en_runtimeFilterMask :: "obj \<Rightarrow> u32"
  en_guildTag :: "u16 \<Rightarrow> u16 \<Rightarrow> string"
  en_order :: "item_map \<Rightarrow> item_map"
  en_set_order :: "string list \<Rightarrow> string list"
  en_walkpathrecord :: bool
  en_walkpathlength :: nat
  en_createUnknownSpawns :: bool
  en_useUpdateRadius :: bool
  en_blank :: spawn

definition tSpawnChangedPosition :: u32 where "tSpawnChangedPosition = 1"
definition tSpawnChangedHP :: u32 where "tSpawnChangedHP = 2"
definition tSpawnChangedWearing :: u32 where "tSpawnChangedWearing = 4"
definition tSpawnChangedLevel :: u32 where "tSpawnChangedLevel = 16"
definition tSpawnChangedFilter :: u32 where "tSpawnChangedFilter = 64"
definition tSpawnChangedRuntimeFilter :: u32 where "tSpawnChangedRuntimeFilter = 128"
definition tSpawnChangedName :: u32 where "tSpawnChangedName = 512"
definition tSpawnChangedALL :: u32 where "tSpawnChangedALL = 1023"

definition MAX_DEAD_SPAWNIDS :: nat where "MAX_DEAD_SPAWNIDS = 50"

text \<open>The player's own spawn is at address 0.\<close>

definition player_addr :: addr where "player_addr = 0"

section \<open>Objects\<close>

definition obj_at :: "addr \<Rightarrow> world \<Rightarrow> obj res" where
  "obj_at a w = (case wd_heap w a of None \<Rightarrow> Inl UseAfterFree | Some ob \<Rightarrow> Inr ob)"

definition put :: "addr \<Rightarrow> obj \<Rightarrow> world \<Rightarrow> world" where
  "put a ob w = w\<lparr>wd_heap := (wd_heap w)(a \<mapsto> ob)\<rparr>"

definition new_obj :: "obj \<Rightarrow> world \<Rightarrow> addr \<times> world" where
  "new_obj ob w = (wd_next w, (put (wd_next w) ob w)\<lparr>wd_next := wd_next w + 1\<rparr>)"

text \<open>The cast \<open>(Spawn*)item\<close>, and an update of a spawn through its pointer.\<close>

definition spawn_at :: "addr \<Rightarrow> world \<Rightarrow> spawn res" where
  "spawn_at a w = rbind (obj_at a w) (\<lambda>ob. case ob of OSpawn s \<Rightarrow> Inr s | _ \<Rightarrow> Inl BadCast)"

definition with_spawn :: "addr \<Rightarrow> (spawn \<Rightarrow> spawn) \<Rightarrow> world \<Rightarrow> world res" where
  "with_spawn a f w = rbind (spawn_at a w) (\<lambda>s. Inr (put a (OSpawn (f s)) w))"

fun obj_id :: "obj \<Rightarrow> u16" where
  "obj_id (OSpawn s) = it_id s" | "obj_id (ODoor d) = it_id d" | "obj_id (ODrop d) = it_id d"

fun obj_name :: "obj \<Rightarrow> string" where
  "obj_name (OSpawn s) = it_name s" | "obj_name (ODoor d) = it_name d" | "obj_name (ODrop d) = it_name d"

fun obj_flags :: "obj \<Rightarrow> u32 \<times> u32" where
  "obj_flags (OSpawn s) = (it_filterFlags s, it_runtimeFilterFlags s)"
| "obj_flags (ODoor d) = (it_filterFlags d, it_runtimeFilterFlags d)"
| "obj_flags (ODrop d) = (it_filterFlags d, it_runtimeFilterFlags d)"

fun set_filterFlags :: "u32 \<Rightarrow> obj \<Rightarrow> obj" where
  "set_filterFlags f (OSpawn s) = OSpawn (s\<lparr>it_filterFlags := f\<rparr>)"
| "set_filterFlags f (ODoor d) = ODoor (d\<lparr>it_filterFlags := f\<rparr>)"
| "set_filterFlags f (ODrop d) = ODrop (d\<lparr>it_filterFlags := f\<rparr>)"

fun set_runtimeFilterFlags :: "u32 \<Rightarrow> obj \<Rightarrow> obj" where
  "set_runtimeFilterFlags f (OSpawn s) = OSpawn (s\<lparr>it_runtimeFilterFlags := f\<rparr>)"
| "set_runtimeFilterFlags f (ODoor d) = ODoor (d\<lparr>it_runtimeFilterFlags := f\<rparr>)"
| "set_runtimeFilterFlags f (ODrop d) = ODrop (d\<lparr>it_runtimeFilterFlags := f\<rparr>)"

fun obj_touch :: "clock \<Rightarrow> obj \<Rightarrow> obj" where
  "obj_touch ck (OSpawn s) = OSpawn (updateLastChanged ck s)"
| "obj_touch ck (ODoor d) = ODoor (updateLastChanged ck d)"
| "obj_touch ck (ODrop d) = ODrop (updateLastChanged ck d)"

definition touch :: "env \<Rightarrow> addr \<Rightarrow> world \<Rightarrow> world res" where
  "touch en a w = rbind (obj_at a w) (\<lambda>ob. Inr (put a (obj_touch (en_clock en) ob) w))"

text \<open>The virtual getters of \<open>Player\<close>: a spawn as its getters show it.\<close>

definition player_seen :: "player_info \<Rightarrow> spawn \<Rightarrow> spawn" where
  "player_seen p s =
     (if \<not> pl_useAutoDetectedSettings p \<or> pl_useDefaults p
      then s\<lparr>it_name := pl_defaultName p, sp_lastName := pl_defaultLastName p, sp_level := pl_defaultLevel p,
             sp_race := pl_defaultRace p, sp_class := pl_defaultClass p, sp_deity := pl_defaultDeity p\<rparr>
      else s)"

definition seen :: "world \<Rightarrow> addr \<Rightarrow> spawn \<Rightarrow> spawn" where
  "seen w a s = (if a = player_addr then player_seen (wd_player w) s else s)"

text \<open>The teams are computed from the virtual getters: those of the player from what it shows.\<close>

definition player_setRace :: "player_info \<Rightarrow> u16 \<Rightarrow> spawn \<Rightarrow> spawn" where
  "player_setRace p r s = (let s = s\<lparr>sp_race := r\<rparr> in s\<lparr>sp_raceTeam := RTEAM_of (sp_race (player_seen p s))\<rparr>)"

definition player_setDeity :: "player_info \<Rightarrow> u16 \<Rightarrow> spawn \<Rightarrow> spawn" where
  "player_setDeity p d s = (let s = s\<lparr>sp_deity := d\<rparr> in s\<lparr>sp_deityTeam := DTEAM_of (sp_deity (player_seen p s))\<rparr>)"

definition seen_obj :: "world \<Rightarrow> addr \<Rightarrow> obj \<Rightarrow> obj" where
  "seen_obj w a ob = (case ob of OSpawn s \<Rightarrow> OSpawn (seen w a s) | _ \<Rightarrow> ob)"

definition spawn_name :: "addr \<Rightarrow> world \<Rightarrow> string res" where
  "spawn_name a w = rbind (spawn_at a w) (\<lambda>s. Inr (it_name (seen w a s)))"

definition player_id :: "world \<Rightarrow> u16 res" where
  "player_id w = rbind (spawn_at player_addr w) (\<lambda>s. Inr (it_id s))"

section \<open>Signals\<close>

text \<open>What the slots of \<open>GroupMgr\<close> see of an item: its type, whether it is a player, its names.\<close>

definition item_view :: "addr \<Rightarrow> world \<Rightarrow> (spawnItemType \<times> bool \<times> string \<times> string) res" where
  "item_view a w = rbind (obj_at a w) (\<lambda>ob. Inr (case ob of
     OSpawn s \<Rightarrow> (it_type s, isPlayer s, it_name (seen w a s), transformedName (it_name (seen w a s)))
   | ODoor d \<Rightarrow> (it_type d, False, '''', '''')
   | ODrop d \<Rightarrow> (it_type d, False, '''', '''')))"

definition shell_emit :: "zone_event \<Rightarrow> world \<Rightarrow> world res" where
  "shell_emit e w =
     (let w = w\<lparr>wd_events := wd_events w @ [e]\<rparr> in case e of
        AddItem a \<Rightarrow> rbind (item_view a w) (\<lambda>(ty, player, raw, display).
          Inr (w\<lparr>wd_group := gm_addItem a ty player raw display (wd_group w)\<rparr>))
      | DelItem a \<Rightarrow> rbind (item_view a w) (\<lambda>(ty, player, raw, display).
          Inr (w\<lparr>wd_group := gm_delItem ty player raw display (wd_group w)\<rparr>))
      | KillSpawn a killer killerId \<Rightarrow> rbind (item_view a w) (\<lambda>(ty, player, raw, display).
          Inr (w\<lparr>wd_group := gm_killSpawn ty player raw display (wd_group w)\<rparr>))
      | ClearItems \<Rightarrow> Inr (w\<lparr>wd_group := gm_clear (wd_group w)\<rparr>)
      | _ \<Rightarrow> Inr w)"

section \<open>Tables\<close>

fun getMap :: "spawnItemType \<Rightarrow> world \<Rightarrow> item_map" where
  "getMap TDrop w = wd_drops w"
| "getMap TDoors w = wd_doors w"
| "getMap TPlayer w = wd_players w"
| "getMap _ w = wd_spawns w"

fun setMap :: "spawnItemType \<Rightarrow> item_map \<Rightarrow> world \<Rightarrow> world" where
  "setMap TDrop m w = w\<lparr>wd_drops := m\<rparr>"
| "setMap TDoors m w = w\<lparr>wd_doors := m\<rparr>"
| "setMap TPlayer m w = w\<lparr>wd_players := m\<rparr>"
| "setMap _ m w = w\<lparr>wd_spawns := m\<rparr>"

definition findID :: "spawnItemType \<Rightarrow> int \<Rightarrow> world \<Rightarrow> addr option res" where
  "findID ty i w = rbind (player_id w) (\<lambda>pid.
     Inr (if ty = TSpawn \<and> i = uint pid then Some player_addr
          else if ty \<noteq> TPlayer then map_of (getMap ty w) i else None))"

text \<open>The searches by name, in the order of iteration; the player comes last.\<close>

fun find_named :: "world \<Rightarrow> (spawn \<Rightarrow> bool) \<Rightarrow> item_map \<Rightarrow> addr option res" where
  "find_named w p [] = Inr None"
| "find_named w p ((i, a) # t) =
     rbind (spawn_at a w) (\<lambda>s. if p (seen w a s) then Inr (Some a) else find_named w p t)"

definition findSpawnByName :: "env \<Rightarrow> string \<Rightarrow> world \<Rightarrow> addr option res" where
  "findSpawnByName en name w =
     rbind (find_named w (\<lambda>s. name = it_name s) (en_order en (wd_spawns w))) (\<lambda>r. case r of
       Some a \<Rightarrow> Inr (Some a)
     | None \<Rightarrow> rbind (spawn_name player_addr w) (\<lambda>n. Inr (if name = n then Some player_addr else None)))"

definition findPlayerByDisplayName :: "env \<Rightarrow> world \<Rightarrow> string \<Rightarrow> addr option res" where
  "findPlayerByDisplayName en w name =
     rbind (find_named w (\<lambda>s. isPlayer s \<and> (name = it_name s \<or> name = transformedName (it_name s)))
       (en_order en (wd_spawns w))) (\<lambda>r. case r of
       Some a \<Rightarrow> Inr (Some a)
     | None \<Rightarrow> rbind (spawn_name player_addr w) (\<lambda>n.
         Inr (if name = n \<or> name = transformedName n then Some player_addr else None)))"

definition deleteItem :: "spawnItemType \<Rightarrow> int \<Rightarrow> world \<Rightarrow> world res" where
  "deleteItem ty i w =
     (case map_of (getMap ty w) i of
        None \<Rightarrow> Inr w
      | Some a \<Rightarrow> rbind (shell_emit (DelItem a) w) (\<lambda>w.
          let w = setMap ty (AList.delete i (getMap ty w)) w
          in shell_emit (NumSpawns (length (wd_spawns w))) w))"

text \<open>Whether the flags have changed, and the item with the new ones.\<close>

definition updateFilterFlags :: "env \<Rightarrow> addr \<Rightarrow> world \<Rightarrow> (bool \<times> world) res" where
  "updateFilterFlags en a w = rbind (obj_at a w) (\<lambda>ob.
     let flags = en_filterMask en (seen_obj w a ob)
     in Inr (if flags \<noteq> fst (obj_flags ob) then (True, put a (set_filterFlags flags ob) w) else (False, w)))"

definition updateRuntimeFilterFlags :: "env \<Rightarrow> addr \<Rightarrow> world \<Rightarrow> (bool \<times> world) res" where
  "updateRuntimeFilterFlags en a w = rbind (obj_at a w) (\<lambda>ob.
     let flags = en_runtimeFilterMask en (seen_obj w a ob)
     in Inr (if flags \<noteq> snd (obj_flags ob) then (True, put a (set_runtimeFilterFlags flags ob) w) else (False, w)))"

definition refilter :: "env \<Rightarrow> addr \<Rightarrow> world \<Rightarrow> world res" where
  "refilter en a w = rbind (updateFilterFlags en a w) (\<lambda>(c, w).
     rbind (updateRuntimeFilterFlags en a w) (\<lambda>(c, w). Inr w))"

section \<open>Construction and change of zone\<close>

text \<open>\<open>Player::reset\<close> and \<open>Player::clear\<close>: the part of the spawn, and the names it goes by.\<close>

definition player_reset_clear :: "clock \<Rightarrow> player_info \<Rightarrow> spawn \<Rightarrow> spawn" where
  "player_reset_clear ck p s =
     (let s = updateLastChanged ck ((player_setRace p 1 (s\<lparr>sp_level := 1\<rparr>))\<lparr>sp_class := 1\<rparr>);
          s = (item_setPos 0 0 0 (s\<lparr>sp_maxHP := 0, sp_curHP := 0\<rparr>))\<lparr>it_heading := 0, it_id := 0\<rparr>
      in updateLastChanged ck s)"

definition player_info_cleared :: "player_info \<Rightarrow> player_info" where
  "player_info_cleared pl = pl\<lparr>pl_useDefaults := True, pl_lastSpawnKilledName := ''unknown'',
     pl_lastSpawnKilledLevel := 0, pl_freshKill := False\<rparr>"

definition mkWorld :: "env \<Rightarrow> player_info \<Rightarrow> world" where
  "mkWorld en pl =
     (let pl = (player_info_cleared pl)\<lparr>pl_realName := ''''\<rparr>;
          p = (spawn_fake (en_clock en) (en_blank en))\<lparr>it_NPC := SPAWN_SELF, it_name := pl_defaultName pl\<rparr>;
          p = player_reset_clear (en_clock en) pl p
      in \<lparr>wd_heap = [player_addr \<mapsto> OSpawn p], wd_next = player_addr + 1, wd_spawns = [], wd_drops = [], wd_doors = [],
          wd_players = [(0, player_addr)], wd_deadSpawnID = replicate MAX_DEAD_SPAWNIDS 0, wd_cntDeadSpawnIDs = 0,
          wd_posDeadSpawnIDs = 0, wd_player = pl, wd_zoning = False, wd_group = mkGroup, wd_events = []\<rparr>)"

text \<open>\<open>qDeleteAll\<close>: an address that is deleted twice is a fault.\<close>

fun delete_objs :: "item_map \<Rightarrow> world \<Rightarrow> world res" where
  "delete_objs [] w = Inr w"
| "delete_objs ((i, a) # t) w =
     rbind (obj_at a w) (\<lambda>ob. delete_objs t (w\<lparr>wd_heap := (wd_heap w)(a := None)\<rparr>))"

definition shell_clear :: "world \<Rightarrow> world res" where
  "shell_clear w =
     rbind (shell_emit ClearItems w) (\<lambda>w.
     rbind (delete_objs (wd_spawns w) w) (\<lambda>w. let w = w\<lparr>wd_spawns := []\<rparr> in
     rbind (delete_objs (wd_doors w) w) (\<lambda>w. let w = w\<lparr>wd_doors := []\<rparr> in
     rbind (delete_objs (wd_drops w) w) (\<lambda>w. let w = w\<lparr>wd_drops := [], wd_players := [(0, player_addr)]\<rparr> in
     rbind (shell_emit (ChangeItem player_addr tSpawnChangedALL) w) (\<lambda>w.
     Inr (w\<lparr>wd_cntDeadSpawnIDs := 0, wd_posDeadSpawnIDs := 0,
            wd_deadSpawnID := replicate MAX_DEAD_SPAWNIDS 0\<rparr>))))))"

text \<open>The player on a change of zone (\<open>Player::zoneChanged\<close>, the part of the spawn), and the first frame of
  a further session, after which all sessions feed the same managers (\<open>DaemonApp::onBoxCreated\<close>).\<close>

definition player_zoneChanged :: "env \<Rightarrow> world \<Rightarrow> world res" where
  "player_zoneChanged en w =
     (let p = player_info_cleared (wd_player w)
      in with_spawn player_addr (player_reset_clear (en_clock en) p) (w\<lparr>wd_player := p\<rparr>))"

definition onFurtherBox :: "world \<Rightarrow> world res" where
  "onFurtherBox w = rbind (shell_clear w) (\<lambda>w. with_spawn player_addr (\<lambda>s. s\<lparr>it_id := 0\<rparr>) w)"

section \<open>Ground items and doors\<close>

definition newGroundItem :: "env \<Rightarrow> makeDropStruct option \<Rightarrow> u8 \<Rightarrow> world \<Rightarrow> world res" where
  "newGroundItem en out dir w =
     (if wd_zoning w then Inr w
      else if dir \<noteq> DIR_Server then Inr w
      else case out of
        None \<Rightarrow> Inr w
      | Some out \<Rightarrow>
          let ds = out\<lparr>md_idFile := copyStr 30 (md_idFile out)\<rparr>; k = sint (md_dropId ds)
          in (case map_of (wd_drops w) k of
                Some a \<Rightarrow>
                  rbind (obj_at a w) (\<lambda>ob. case ob of
                    ODrop d \<Rightarrow>
                      let w = put a (ODrop (drop_update (en_clock en) (en_float en) (en_drop en) ds '''' d)) w
                      in rbind (updateFilterFlags en a w) (\<lambda>(c, w).
                         rbind (touch en a w) (\<lambda>w. shell_emit (ChangeItem a tSpawnChangedALL) w))
                  | _ \<Rightarrow> Inl BadCast)
              | None \<Rightarrow>
                  let (a, w) = new_obj (ODrop (mkDrop (en_clock en) (en_float en) (en_drop en) ds '''')) w
                  in rbind (updateFilterFlags en a w) (\<lambda>(c, w).
                     shell_emit (AddItem a) (w\<lparr>wd_drops := AList.update k a (wd_drops w)\<rparr>))))"

definition removeGroundItem :: "u32 option \<Rightarrow> u8 \<Rightarrow> world \<Rightarrow> world res" where
  "removeGroundItem out dir w =
     (if wd_zoning w then Inr w
      else if dir \<noteq> DIR_Server then Inr w
      else case out of None \<Rightarrow> Inr w | Some drop_id \<Rightarrow> deleteItem TDrop (sint drop_id) w)"

definition newDoorSpawn :: "env \<Rightarrow> doorStruct \<Rightarrow> world \<Rightarrow> world res" where
  "newDoorSpawn en d w =
     (let k = uint (ds_doorId d) in
      case map_of (wd_doors w) k of
        Some a \<Rightarrow>
          rbind (obj_at a w) (\<lambda>ob. case ob of
            ODoor o' \<Rightarrow>
              let w = put a (ODoor (door_update (en_clock en) (en_float en) d o')) w
              in rbind (updateFilterFlags en a w) (\<lambda>(c, w).
                 rbind (touch en a w) (\<lambda>w. shell_emit (ChangeItem a tSpawnChangedALL) w))
          | _ \<Rightarrow> Inl BadCast)
      | None \<Rightarrow>
          let (a, w) = new_obj (ODoor (mkDoor (en_clock en) (en_float en) d)) w
          in rbind (updateFilterFlags en a w) (\<lambda>(c, w).
             shell_emit (AddItem a) (w\<lparr>wd_doors := AList.update k a (wd_doors w)\<rparr>)))"

text \<open>The rows of the array, each as it decodes.\<close>

fun newDoorSpawns :: "env \<Rightarrow> doorStruct option list \<Rightarrow> world \<Rightarrow> world res" where
  "newDoorSpawns en [] w = Inr w"
| "newDoorSpawns en (None # rows) w = newDoorSpawns en rows w"
| "newDoorSpawns en (Some d # rows) w =
     rbind (newDoorSpawn en (d\<lparr>ds_name := copyStr 32 (ds_name d)\<rparr>) w) (newDoorSpawns en rows)"

section \<open>Spawns that appear\<close>

definition guild_tag :: "env \<Rightarrow> spawn \<Rightarrow> spawn" where
  "guild_tag en s = s\<lparr>sp_guildTag := en_guildTag en (sp_guildID s) (sp_guildServerID s)\<rparr>"

text \<open>The loop over the first \<open>m_cntDeadSpawnIDs\<close> entries of the ring of deleted ids.\<close>

definition forget_dead :: "u32 \<Rightarrow> world \<Rightarrow> world" where
  "forget_dead i w =
     (let cnt = unat (wd_cntDeadSpawnIDs w); ids = wd_deadSpawnID w
      in w\<lparr>wd_deadSpawnID := map (\<lambda>d. if d \<noteq> 0 \<and> ucast d = i then 0 else d) (take cnt ids) @ drop cnt ids\<rparr>)"

definition newSpawn :: "env \<Rightarrow> spawnStruct \<Rightarrow> world \<Rightarrow> world res" where
  "newSpawn en ss w =
     (if ss_NPC ss = SPAWN_SELF then Inr w
      else if calcIsMount (ss_race ss) (ss_level ss) then Inr w
      else let w = forget_dead (ss_spawnId ss) w; k = sint (ss_spawnId ss) in
        (case map_of (wd_spawns w) k of
           Some a \<Rightarrow>
             rbind (with_spawn a (spawn_update (en_clock en) ss) w) (\<lambda>w.
             rbind (refilter en a w) (\<lambda>w.
             rbind (touch en a w) (\<lambda>w.
             rbind (with_spawn a (guild_tag en) w) (\<lambda>w.
             shell_emit (ChangeItem a tSpawnChangedALL) w))))
         | None \<Rightarrow>
             let (a, w) = new_obj (OSpawn (spawn_of_struct (en_clock en) (en_blank en) ss)) w
             in rbind (refilter en a w) (\<lambda>w.
                let w = w\<lparr>wd_spawns := AList.update k a (wd_spawns w)\<rparr>
                in rbind (with_spawn a (guild_tag en) w) (\<lambda>w.
                   rbind (shell_emit (AddItem a) w) (\<lambda>w. shell_emit (NumSpawns (length (wd_spawns w))) w)))))"

definition newSpawn_packet :: "env \<Rightarrow> spawnStruct \<Rightarrow> world \<Rightarrow> world res" where
  "newSpawn_packet en ss w = (if wd_zoning w then Inr w else newSpawn en ss w)"

fun zoneSpawns :: "env \<Rightarrow> spawnStruct list \<Rightarrow> world \<Rightarrow> world res" where
  "zoneSpawns en [] w = Inr w"
| "zoneSpawns en (ss # sss) w = rbind (newSpawn en ss w) (zoneSpawns en sss)"

text \<open>\<open>playerChangedID\<close> and its trigger, \<open>Player::setPlayerID\<close>.\<close>

definition playerChangedID :: "u16 \<Rightarrow> u16 \<Rightarrow> world \<Rightarrow> world res" where
  "playerChangedID oldID newID w =
     rbind (case map_of (wd_spawns w) (uint newID) of
              None \<Rightarrow> Inr w
            | Some a \<Rightarrow> rbind (spawn_name a w) (\<lambda>n.
                if n \<noteq> '''' then rbind (with_spawn player_addr (\<lambda>s. s\<lparr>it_name := n\<rparr>) w) (shell_emit (PlayerNameResolved n))
                else Inr w)) (\<lambda>w.
     rbind (deleteItem TPlayer 0 w) (\<lambda>w.
     if oldID = newID then Inr w
     else rbind (deleteItem TPlayer (uint oldID) w) (\<lambda>w.
          rbind (deleteItem TSpawn (uint newID) w) (\<lambda>w.
          shell_emit (ChangeItem player_addr tSpawnChangedALL)
            (w\<lparr>wd_players := AList.update (uint newID) player_addr (wd_players w)\<rparr>)))))"

definition setPlayerID :: "env \<Rightarrow> u16 \<Rightarrow> world \<Rightarrow> world res" where
  "setPlayerID en i w =
     rbind (player_id w) (\<lambda>old.
       if old = i then Inr w
       else rbind (with_spawn player_addr (\<lambda>s. s\<lparr>it_id := i\<rparr>) w) (\<lambda>w.
            rbind (playerChangedID old i w) (\<lambda>w.
            rbind (touch en player_addr w) (\<lambda>w.
            shell_emit (ChangeItem player_addr tSpawnChangedALL) w))))"

text \<open>\<open>Player::update\<close> keeps the hit points; race and deity are set on a player.\<close>

definition player_update :: "clock \<Rightarrow> player_info \<Rightarrow> spawnStruct \<Rightarrow> spawn \<Rightarrow> spawn" where
  "player_update ck p ss s =
     (let t = spawn_update ck ss s;
          t = player_setRace p (sp_race t) (player_setDeity p (sp_deity t) t)
      in t\<lparr>sp_curHP := sp_curHP s, sp_maxHP := sp_maxHP s\<rparr>)"

definition zoneEntry :: "env \<Rightarrow> rust_spawn option \<Rightarrow> world \<Rightarrow> world res" where
  "zoneEntry en out w =
     (case out of
        None \<Rightarrow> Inr w
      | Some out \<Rightarrow>
          let ss = applySpawn out in
          if ss_name ss = pl_realName (wd_player w)
          then rbind (setPlayerID en (ucast (ss_spawnId ss)) w) (\<lambda>w.
               rbind (with_spawn player_addr (player_update (en_clock en) (wd_player w) ss) w) (\<lambda>w.
               shell_emit (ChangeItem player_addr tSpawnChangedALL) w))
          else case map_of (wd_spawns w) (sint (ss_spawnId ss)) of
                 Some a \<Rightarrow> with_spawn a (spawn_update (en_clock en) ss) w
               | None \<Rightarrow> newSpawn en ss w)"

section \<open>Spawns of backends that decode fields\<close>

record spawn_fields =
  sf_id :: u16
  sf_name :: string
  sf_lastName :: string
  sf_pos :: "u16 \<times> u16 \<times> u16"
  sf_heading :: u16
  sf_level :: u8
  sf_curHpPct :: u8
  sf_maxHpPct :: u8
  sf_race :: u16
  sf_classVal :: u8
  sf_deity :: u16
  sf_guildID :: u16
  sf_guildServerID :: u16
  sf_npc :: u8
  sf_classMask :: u32

definition applyIdentity :: "env \<Rightarrow> spawn_fields \<Rightarrow> spawn \<Rightarrow> spawn" where
  "applyIdentity en f s =
     (let s = (if sf_lastName f \<noteq> '''' then s\<lparr>sp_lastName := sf_lastName f\<rparr> else s);
          s = setHeading (ucast (drop_bit 3 (sf_heading f) AND 0xFF)) 0 s;
          s = s\<lparr>sp_level := ucast (sf_level f), sp_curHP := ucast (sf_curHpPct f), sp_maxHP := ucast (sf_maxHpPct f)\<rparr>;
          s = setRace (sf_race f) s;
          s = setDeity (sf_deity f) (s\<lparr>sp_class := sf_classVal f, sp_classMask := sf_classMask f\<rparr>)
      in s\<lparr>sp_guildID := sf_guildID f, sp_guildServerID := sf_guildServerID f,
           sp_guildTag := en_guildTag en (sf_guildID f) (sf_guildServerID f), it_NPC := sf_npc f\<rparr>)"

definition set_pos :: "u16 \<times> u16 \<times> u16 \<Rightarrow> spawn \<Rightarrow> spawn" where
  "set_pos p s = (let (x, y, z) = p in setPos x y z False 0 s)"

definition upsertSpawn :: "env \<Rightarrow> spawn_fields \<Rightarrow> world \<Rightarrow> world res" where
  "upsertSpawn en f w =
     rbind (player_id w) (\<lambda>pid.
     if sf_id f = pid then Inr w
     else let k = uint (sf_id f) in
       (case map_of (wd_spawns w) k of
          Some a \<Rightarrow>
            rbind (with_spawn a (\<lambda>s. applyIdentity en f (set_pos (sf_pos f) s)) w) (\<lambda>w.
            rbind (touch en a w) (\<lambda>w. shell_emit (ChangeItem a tSpawnChangedALL) w))
        | None \<Rightarrow>
            let (a, w) = new_obj (OSpawn (applyIdentity en f
                  ((spawn_unknown (en_clock en) (en_blank en) (sf_id f) (sf_pos f) (0, 0, 0) 0 0 0)\<lparr>it_name := sf_name f\<rparr>))) w
            in rbind (refilter en a w) (\<lambda>w.
               rbind (shell_emit (AddItem a) (w\<lparr>wd_spawns := AList.update k a (wd_spawns w)\<rparr>)) (\<lambda>w.
               shell_emit (NumSpawns (length (wd_spawns w))) w))))"

text \<open>An update of a known spawn that ends with a notice of change.\<close>

definition change_spawn :: "env \<Rightarrow> int \<Rightarrow> (spawn \<Rightarrow> spawn) \<Rightarrow> u32 \<Rightarrow> world \<Rightarrow> world res" where
  "change_spawn en k f bits w =
     (case map_of (wd_spawns w) k of
        None \<Rightarrow> Inr w
      | Some a \<Rightarrow> rbind (with_spawn a f w) (\<lambda>w. rbind (touch en a w) (\<lambda>w. shell_emit (ChangeItem a bits) w)))"

definition moveSpawn :: "env \<Rightarrow> u16 \<Rightarrow> u16 \<times> u16 \<times> u16 \<Rightarrow> world \<Rightarrow> world res" where
  "moveSpawn en i p w =
     rbind (player_id w) (\<lambda>pid.
     if i = pid then Inr w else change_spawn en (uint i) (set_pos p) tSpawnChangedPosition w)"

definition updateSpawnHP :: "env \<Rightarrow> u16 \<Rightarrow> u32 \<Rightarrow> u32 \<Rightarrow> world \<Rightarrow> world res" where
  "updateSpawnHP en i curHp maxHp w =
     change_spawn en (uint i) (\<lambda>s. s\<lparr>sp_curHP := (if sint curHp < 0 then 0 else curHp), sp_maxHP := maxHp\<rparr>)
       tSpawnChangedHP w"

definition updateSpawnIdentity :: "env \<Rightarrow> u16 \<Rightarrow> u8 \<Rightarrow> u8 \<Rightarrow> world \<Rightarrow> world res" where
  "updateSpawnIdentity en i level classVal w =
     change_spawn en (uint i) (\<lambda>s. s\<lparr>sp_level := ucast level, sp_class := classVal\<rparr>) tSpawnChangedALL w"

definition updateSpawnAnimation :: "env \<Rightarrow> u16 \<Rightarrow> u8 \<Rightarrow> world \<Rightarrow> world res" where
  "updateSpawnAnimation en i animation w =
     (case map_of (wd_spawns w) (uint i) of
        None \<Rightarrow> Inr w
      | Some a \<Rightarrow> rbind (spawn_at a w) (\<lambda>s.
          if sp_animation s = animation then Inr w
          else change_spawn en (uint i) (\<lambda>s. s\<lparr>sp_animation := animation\<rparr>) tSpawnChangedPosition w))"

section \<open>Movement\<close>

text \<open>\<open>updateSpawn\<close>; the last argument is heading, change of heading and animation.\<close>

definition updateSpawn :: "env \<Rightarrow> u16 \<Rightarrow> u16 \<times> u16 \<times> u16 \<Rightarrow> u16 \<times> u16 \<times> u16 \<Rightarrow> u8 \<times> u8 \<times> u8 \<Rightarrow> world \<Rightarrow> world res" where
  "updateSpawn en i pos vel turn w =
     (let (x, y, z) = pos; (vx, vy, vz) = vel; (heading, deltaHeading, animation) = turn in
      rbind (player_id w) (\<lambda>pid.
      case (if i = pid then Some player_addr else map_of (wd_spawns w) (uint i)) of
        Some a \<Rightarrow>
          rbind (with_spawn a (\<lambda>s.
            let s = setPos x y z (en_walkpathrecord en) (en_walkpathlength en) s;
                s = setHeading heading deltaHeading (setDeltas vx vy vz (s\<lparr>sp_animation := animation\<rparr>))
            in updateLast (en_clock en) s) w) (\<lambda>w.
          rbind (touch en a w) (\<lambda>w. shell_emit (ChangeItem a tSpawnChangedPosition) w))
      | None \<Rightarrow>
          if en_createUnknownSpawns en
          then let cnt = unat (wd_cntDeadSpawnIDs w); ids = wd_deadSpawnID w in
            (case upd_first (\<lambda>d. d \<noteq> 0 \<and> d = i) (\<lambda>d. 0) (take cnt ids) of
               Some (d, ids') \<Rightarrow> Inr (w\<lparr>wd_deadSpawnID := ids' @ drop cnt ids\<rparr>)
             | None \<Rightarrow>
                 let (a, w) = new_obj (OSpawn (spawn_unknown (en_clock en) (en_blank en) i pos vel heading deltaHeading animation)) w
                 in rbind (refilter en a w) (\<lambda>w.
                    rbind (shell_emit (AddItem a) (w\<lparr>wd_spawns := AList.update (uint i) a (wd_spawns w)\<rparr>)) (\<lambda>w.
                    shell_emit (NumSpawns (length (wd_spawns w))) w)))
          else Inr w))"

text \<open>The handlers that feed it. Positions of the player's own packet are floats, those of the broadcast
  19-bit and 13-bit fixed-point numbers.\<close>

record self_pos =
  po_spawn_id :: u16
  po_x :: u32
  po_y :: u32
  po_z :: u32
  po_delta_x :: u32
  po_delta_y :: u32
  po_delta_z :: u32
  po_heading :: u16
  po_delta_heading :: u16
  po_animation :: u16

definition sizeof_playerSelfPosStruct :: nat where "sizeof_playerSelfPosStruct = 42"
definition sizeof_playerSpawnPosStruct :: nat where "sizeof_playerSpawnPosStruct = 24"

definition playerUpdate2 :: "env \<Rightarrow> nat \<Rightarrow> self_pos option \<Rightarrow> world \<Rightarrow> world res" where
  "playerUpdate2 en len out w =
     (if wd_zoning w then Inr w
      else if len \<noteq> sizeof_playerSelfPosStruct then Inr w
      else case out of
        None \<Rightarrow> Inr w
      | Some p \<Rightarrow> let f = fo_int16 (en_float en) in
          updateSpawn en (po_spawn_id p) (f (po_x p), f (po_y p), f (po_z p))
            (f (po_delta_x p), f (po_delta_y p), f (po_delta_z p))
            (ucast (po_heading p), ucast (po_delta_heading p), ucast (po_animation p)) w)"

definition playerUpdate :: "env \<Rightarrow> nat \<Rightarrow> u8 \<Rightarrow> self_pos option \<Rightarrow> world \<Rightarrow> world res" where
  "playerUpdate en len dir out w =
     (if wd_zoning w then Inr w
      else if len \<noteq> sizeof_playerSpawnPosStruct then Inr w
      else case out of
        None \<Rightarrow> Inr w
      | Some p \<Rightarrow> rbind (player_id w) (\<lambda>pid.
          if po_spawn_id p = pid then Inr w
          else if dir \<noteq> DIR_Client
          then updateSpawn en (po_spawn_id p)
                 (ucast (signed_drop_bit 3 (po_x p)), ucast (signed_drop_bit 3 (po_y p)), ucast (signed_drop_bit 3 (po_z p)))
                 (ucast (signed_drop_bit 2 (po_delta_x p)), ucast (signed_drop_bit 2 (po_delta_y p)), ucast (signed_drop_bit 2 (po_delta_z p)))
                 (ucast (po_heading p), ucast (po_delta_heading p), ucast (po_animation p)) w
          else Inr w))"

definition npcMoveUpdate :: "env \<Rightarrow> nat \<Rightarrow> self_pos option \<Rightarrow> world \<Rightarrow> world res" where
  "npcMoveUpdate en len out w =
     (if len < 13 \<or> 24 < len then Inr w
      else if wd_zoning w then Inr w
      else case out of
        None \<Rightarrow> Inr w
      | Some p \<Rightarrow>
          updateSpawn en (po_spawn_id p) (ucast (po_x p), ucast (po_y p), ucast (po_z p))
            (ucast (po_delta_x p), ucast (po_delta_y p), ucast (po_delta_z p))
            (ucast (po_heading p), ucast (po_delta_heading p), ucast (po_animation p)) w)"

definition updateSpawns :: "env \<Rightarrow> self_pos option \<Rightarrow> world \<Rightarrow> world res" where
  "updateSpawns en out w =
     (if wd_zoning w then Inr w
      else case out of
        None \<Rightarrow> Inr w
      | Some p \<Rightarrow>
          updateSpawn en (po_spawn_id p) (ucast (po_x p), ucast (po_y p), ucast (po_z p)) (0, 0, 0)
            (ucast (po_heading p), 0, 0) w)"

section \<open>Changes of spawns\<close>

text \<open>\<open>OP_WearChange\<close> as \<open>updateSpawnInfo\<close>: only subcommand 17, current hit points.\<close>

definition updateSpawnInfo :: "env \<Rightarrow> (u32 \<times> u32 \<times> u32) option \<Rightarrow> world \<Rightarrow> world res" where
  "updateSpawnInfo en out w =
     (case out of
        None \<Rightarrow> Inr w
      | Some (i, subcommand, arg1) \<Rightarrow>
          if subcommand = 17 then change_spawn en (sint i) (\<lambda>s. s\<lparr>sp_curHP := arg1\<rparr>) tSpawnChangedHP w else Inr w)"

definition updateSpawnLock :: "env \<Rightarrow> u32 \<Rightarrow> u32 \<Rightarrow> u32 \<Rightarrow> world \<Rightarrow> world res" where
  "updateSpawnLock en i ty val w =
     (if ty \<noteq> 0x2c then Inr w
      else case map_of (wd_spawns w) (sint i) of
        None \<Rightarrow> Inr w
      | Some a \<Rightarrow> rbind (spawn_at a w) (\<lambda>s.
          if sp_locked s = (val \<noteq> 0) then Inr w
          else change_spawn en (sint i) (\<lambda>s. s\<lparr>sp_locked := (val \<noteq> 0)\<rparr>) tSpawnChangedALL w))"

text \<open>Both kinds of flags, and the kinds of change they add.\<close>

definition refilter_bits :: "env \<Rightarrow> addr \<Rightarrow> u32 \<Rightarrow> world \<Rightarrow> (u32 \<times> world) res" where
  "refilter_bits en a bits w =
     rbind (updateFilterFlags en a w) (\<lambda>(c, w).
     rbind (updateRuntimeFilterFlags en a w) (\<lambda>(d, w).
     Inr ((bits OR (if c then tSpawnChangedFilter else 0)) OR (if d then tSpawnChangedRuntimeFilter else 0), w)))"

definition renameSpawn :: "env \<Rightarrow> (string \<times> string) option \<Rightarrow> world \<Rightarrow> world res" where
  "renameSpawn en out w =
     (case out of
        None \<Rightarrow> Inr w
      | Some (oldName, newName) \<Rightarrow>
          rbind (findSpawnByName en oldName w) (\<lambda>r. case r of
            None \<Rightarrow> Inr w
          | Some a \<Rightarrow>
              rbind (with_spawn a (\<lambda>s. s\<lparr>it_name := newName\<rparr>) w) (\<lambda>w.
              rbind (refilter_bits en a tSpawnChangedName w) (\<lambda>(bits, w).
              rbind (touch en a w) (\<lambda>w. shell_emit (ChangeItem a bits) w)))))"

definition illusionSpawn :: "env \<Rightarrow> (u32 \<times> u8 \<times> u16) option \<Rightarrow> world \<Rightarrow> world res" where
  "illusionSpawn en out w =
     (case out of
        None \<Rightarrow> Inr w
      | Some (i, gender, race) \<Rightarrow>
          change_spawn en (sint i) (\<lambda>s. setRace race (s\<lparr>sp_gender := gender\<rparr>)) tSpawnChangedALL w)"

text \<open>The part of \<open>Player::loadProfile\<close> that concerns the player's spawn.\<close>

record profile =
  pp_gender :: u8
  pp_race :: u16
  pp_class :: u8
  pp_deity :: u16
  pp_level :: u8

definition loadProfile :: "profile \<Rightarrow> world \<Rightarrow> world res" where
  "loadProfile pp w =
     (let p = (wd_player w)\<lparr>pl_useDefaults := False\<rparr>
      in with_spawn player_addr (\<lambda>s.
           let s = player_setRace p (pp_race pp) (s\<lparr>sp_gender := pp_gender pp\<rparr>);
               s = player_setDeity p (pp_deity pp) (s\<lparr>sp_class := pp_class pp\<rparr>)
           in s\<lparr>sp_level := ucast (pp_level pp)\<rparr>)
         (w\<lparr>wd_player := p\<rparr>))"

text \<open>\<open>shroudSpawn\<close>: \<open>decode\<close> is \<open>decode_spawn\<close>, which is given as many bytes as the packet announces;
  \<open>psize\<close> is the size of the profile and \<open>profile_of\<close> reads it.\<close>

definition checked_take :: "nat \<Rightarrow> bytes \<Rightarrow> bytes res" where
  "checked_take n bs = (if n \<le> length bs then Inr (take n bs) else Inl OutOfBounds)"

definition shroudSpawn ::
  "env \<Rightarrow> (bytes \<Rightarrow> rust_spawn option) \<Rightarrow> nat \<Rightarrow> (bytes \<Rightarrow> profile) \<Rightarrow> bytes \<Rightarrow> nat \<Rightarrow> world \<Rightarrow> world res" where
  "shroudSpawn en decode psize profile_of data len w =
     rbind (readUInt32NC (mkNetStream data len)) (\<lambda>(spawnID, ns).
     rbind (readUInt16NC ns) (\<lambda>(n, ns).
     let n = unat (n - 6) in
     rbind (checked_take n (ns_here ns)) (\<lambda>record_bytes.
     case decode record_bytes of
       None \<Rightarrow> Inr w
     | Some out \<Rightarrow> rbind (player_id w) (\<lambda>pid.
         if spawnID \<noteq> ucast pid then newSpawn en (applySpawn out) w
         else rbind (checked_take psize (ns_here (skipBytes n ns))) (\<lambda>p.
              rbind (loadProfile (profile_of p) w) (\<lambda>w.
              rbind (refilter en player_addr w) (\<lambda>w.
              rbind (touch en player_addr w) (\<lambda>w.
              shell_emit (ChangeItem player_addr tSpawnChangedALL) w))))))))"

definition updateSpawnAppearance :: "env \<Rightarrow> (u32 \<times> u32 \<times> u32) option \<Rightarrow> world \<Rightarrow> world res" where
  "updateSpawnAppearance en out w =
     (case out of
        None \<Rightarrow> Inr w
      | Some (i, kind, parameter) \<Rightarrow>
          if kind = 1 \<and> parameter \<noteq> 0
          then change_spawn en (sint i) (\<lambda>s. s\<lparr>sp_level := parameter\<rparr>) tSpawnChangedLevel w
          else Inr w)"

definition updateNpcHP :: "env \<Rightarrow> (u32 \<times> u32 \<times> u32) option \<Rightarrow> world \<Rightarrow> world res" where
  "updateNpcHP en out w =
     (case out of
        None \<Rightarrow> Inr w
      | Some (i, cur_hp, max_hp) \<Rightarrow>
          change_spawn en (sint i) (\<lambda>s. s\<lparr>sp_curHP := cur_hp, sp_maxHP := max_hp\<rparr>) tSpawnChangedHP w)"

text \<open>\<open>updateMobHealth\<close>: \<open>maxHP * percent / 100\<close> in 32 bits, rounded towards zero (the factors are not
  negative).\<close>

definition updateMobHealth :: "env \<Rightarrow> (u32 \<times> u8) option \<Rightarrow> world \<Rightarrow> world res" where
  "updateMobHealth en out w =
     (case out of
        None \<Rightarrow> Inr w
      | Some (i, hp_percent) \<Rightarrow>
          change_spawn en (sint i) (\<lambda>s.
            if 0 < sint (sp_maxHP s)
            then s\<lparr>sp_curHP := word_of_int ((let v = sint (sp_maxHP s * ucast hp_percent)
                                            in if v < 0 then - ((- v) div 100) else v div 100))\<rparr>
            else s) tSpawnChangedHP w)"

definition spawnWearingUpdate :: "env \<Rightarrow> u32 \<Rightarrow> world \<Rightarrow> world res" where
  "spawnWearingUpdate en i w =
     (case map_of (wd_spawns w) (sint i) of
        None \<Rightarrow> Inr w
      | Some a \<Rightarrow>
          rbind (refilter_bits en a tSpawnChangedWearing w) (\<lambda>(bits, w).
          rbind (touch en a w) (\<lambda>w. shell_emit (ChangeItem a bits) w)))"

text \<open>\<open>consMessage\<close>: client and server packets are treated alike.\<close>

definition consMessage :: "(u32 \<times> u32) option \<Rightarrow> world \<Rightarrow> world res" where
  "consMessage out w =
     (case out of
        None \<Rightarrow> Inr w
      | Some (con_player, con_target) \<Rightarrow>
          if con_player \<noteq> con_target
          then case map_of (wd_spawns w) (sint con_target) of
                 None \<Rightarrow> Inr w
               | Some a \<Rightarrow> rbind (with_spawn a (\<lambda>s. s\<lparr>sp_considered := True\<rparr>) w) (shell_emit (SpawnConsidered a))
          else Inr w)"

definition clientTarget :: "u32 option \<Rightarrow> world \<Rightarrow> world res" where
  "clientTarget out w = (case out of None \<Rightarrow> Inr w | Some t \<Rightarrow> shell_emit (TargetSpawn t) w)"

section \<open>Spawns that go\<close>

definition sizeof_removeSpawnStruct :: nat where "sizeof_removeSpawnStruct = 5"

definition removeSpawn :: "env \<Rightarrow> nat \<Rightarrow> u8 \<Rightarrow> (u32 \<times> u8) option \<Rightarrow> world \<Rightarrow> world res" where
  "removeSpawn en len dir out w =
     (if dir = DIR_Client then Inr w
      else if len \<noteq> sizeof_removeSpawnStruct then Inr w
      else case out of
        None \<Rightarrow> Inr w
      | Some (i, remove) \<Rightarrow>
          rbind (deleteItem TSpawn (sint i) w) (\<lambda>w.
            if remove = 0
            then (if en_useUpdateRadius en then deleteItem TSpawn (sint i) w
                  else case map_of (wd_spawns w) (sint i) of
                         None \<Rightarrow> Inr w
                       | Some a \<Rightarrow> with_spawn a (\<lambda>s. s\<lparr>sp_notUpdated := True\<rparr>) w)
            else Inr w))"

definition deleteSpawn :: "u32 option \<Rightarrow> world \<Rightarrow> world res" where
  "deleteSpawn out w =
     (case out of
        None \<Rightarrow> Inr w
      | Some spawnId \<Rightarrow>
          let pos = (if unat (wd_posDeadSpawnIDs w) < MAX_DEAD_SPAWNIDS - 1 then wd_posDeadSpawnIDs w + 1 else 0);
              cnt = (if unat (wd_cntDeadSpawnIDs w) < MAX_DEAD_SPAWNIDS then wd_cntDeadSpawnIDs w + 1 else wd_cntDeadSpawnIDs w)
          in rbind (rguard (unat pos < length (wd_deadSpawnID w)) OutOfBounds) (\<lambda>_.
             deleteItem TSpawn (sint spawnId)
               (w\<lparr>wd_posDeadSpawnIDs := pos, wd_cntDeadSpawnIDs := cnt,
                  wd_deadSpawnID := (wd_deadSpawnID w)[unat pos := ucast spawnId]\<rparr>)))"

definition killSpawn :: "env \<Rightarrow> (u32 \<times> u32) option \<Rightarrow> world \<Rightarrow> world res" where
  "killSpawn en out w =
     (case out of
        None \<Rightarrow> Inr w
      | Some (spawn_id, killer_id) \<Rightarrow>
          rbind (player_id w) (\<lambda>pid.
          case (if spawn_id \<noteq> ucast pid then map_of (wd_spawns w) (sint spawn_id) else Some player_addr) of
            None \<Rightarrow> Inr w
          | Some a \<Rightarrow>
              rbind (spawn_at a w) (\<lambda>s.
              let w = (if killer_id = ucast pid
                       then w\<lparr>wd_player := (wd_player w)\<lparr>pl_lastSpawnKilledName := it_name (seen w a s),
                                pl_lastSpawnKilledLevel := sp_level (seen w a s), pl_freshKill := True\<rparr>\<rparr>
                       else w)
              in rbind (with_spawn a spawn_kill w) (\<lambda>w.
                 rbind (refilter en a w) (\<lambda>w.
                 rbind (with_spawn a (\<lambda>s. s\<lparr>it_name := it_name s @ Spawn_Corpse_Designator\<rparr>) w) (\<lambda>w.
                 shell_emit (KillSpawn a (map_of (wd_spawns w) (sint killer_id)) (ucast killer_id)) w))))))"

definition respawnFromHover :: "env \<Rightarrow> u8 \<Rightarrow> world \<Rightarrow> world res" where
  "respawnFromHover en dir w =
     (if dir \<noteq> DIR_Client then Inr w
      else rbind (player_id w) (\<lambda>corpseId.
           rbind (with_spawn player_addr (\<lambda>s. s\<lparr>it_id := 0\<rparr>) w) (\<lambda>w.
           rbind (spawn_at player_addr w) (\<lambda>p.
           let (a, w) = new_obj (OSpawn (spawn_copy (en_clock en) (en_blank en) (seen w player_addr p) corpseId)) w
           in rbind (refilter en a w) (\<lambda>w.
              rbind (with_spawn a (guild_tag en) (w\<lparr>wd_spawns := AList.update (uint corpseId) a (wd_spawns w)\<rparr>)) (\<lambda>w.
              rbind (shell_emit (AddItem a) w) (\<lambda>w. shell_emit (NumSpawns (length (wd_spawns w))) w)))))))"

text \<open>\<open>corpseLoc\<close>; x and y of a player's corpse are exchanged.\<close>

definition corpseLoc :: "env \<Rightarrow> (u32 \<times> u32 \<times> u32 \<times> u32) option \<Rightarrow> world \<Rightarrow> world res" where
  "corpseLoc en out w =
     (case out of
        None \<Rightarrow> Inr w
      | Some (i, x, y, z) \<Rightarrow>
          (case map_of (wd_spawns w) (sint i) of
             None \<Rightarrow> Inr w
           | Some a \<Rightarrow>
               rbind (with_spawn a (\<lambda>s.
                 let f = fo_int16 (en_float en);
                     s = (if it_NPC s = SPAWN_PLAYER \<or> it_NPC s = SPAWN_PC_CORPSE
                          then setPos (f y) (f x) (f z) (en_walkpathrecord en) (en_walkpathlength en) s
                          else setPos (f x) (f y) (f z) (en_walkpathrecord en) (en_walkpathlength en) s)
                 in updateLastChanged (en_clock en) (updateLast (en_clock en) (spawn_kill s))) w) (\<lambda>w.
               shell_emit (KillSpawn a None 0) w)))"

section \<open>Filters and guilds\<close>

fun refilter_all :: "env \<Rightarrow> (env \<Rightarrow> addr \<Rightarrow> world \<Rightarrow> (bool \<times> world) res) \<Rightarrow> item_map \<Rightarrow> addr list \<Rightarrow> world \<Rightarrow> (addr list \<times> world) res" where
  "refilter_all en upd [] changed w = Inr (changed, w)"
| "refilter_all en upd ((i, a) # t) changed w =
     rbind (upd en a w) (\<lambda>(c, w).
       if c then rbind (touch en a w) (refilter_all en upd t (changed @ [a]))
       else refilter_all en upd t changed w)"

text \<open>The items whose flags changed are announced in the order of their id and name.\<close>

fun emit_all :: "u32 \<Rightarrow> addr list \<Rightarrow> world \<Rightarrow> world res" where
  "emit_all bits [] w = Inr w"
| "emit_all bits (a # as) w = rbind (shell_emit (ChangeItem a bits) w) (emit_all bits as)"

definition item_key :: "world \<Rightarrow> addr \<Rightarrow> nat \<times> string" where
  "item_key w a = (case wd_heap w a of
     None \<Rightarrow> (0, '''')
   | Some ob \<Rightarrow> (unat (obj_id ob), obj_name (seen_obj w a ob)))"

definition refilterMap :: "env \<Rightarrow> (env \<Rightarrow> addr \<Rightarrow> world \<Rightarrow> (bool \<times> world) res) \<Rightarrow> u32 \<Rightarrow> spawnItemType \<Rightarrow> world \<Rightarrow> world res" where
  "refilterMap en upd bits ty w =
     rbind (refilter_all en upd (en_order en (getMap ty w)) [] w) (\<lambda>(changed, w).
       emit_all bits (sort_key (item_key w) changed) w)"

definition refilterSpawns :: "env \<Rightarrow> world \<Rightarrow> world res" where
  "refilterSpawns en w =
     rbind (refilterMap en updateFilterFlags tSpawnChangedFilter TSpawn w) (\<lambda>w.
     rbind (refilterMap en updateFilterFlags tSpawnChangedFilter TDrop w) (\<lambda>w.
     refilterMap en updateFilterFlags tSpawnChangedFilter TDoors w))"

definition refilterSpawnsRuntime :: "env \<Rightarrow> world \<Rightarrow> world res" where
  "refilterSpawnsRuntime en w =
     rbind (refilterMap en updateRuntimeFilterFlags tSpawnChangedRuntimeFilter TSpawn w) (\<lambda>w.
     rbind (refilterMap en updateRuntimeFilterFlags tSpawnChangedRuntimeFilter TDrop w) (\<lambda>w.
     refilterMap en updateRuntimeFilterFlags tSpawnChangedRuntimeFilter TDoors w))"

fun tag_all :: "env \<Rightarrow> u32 \<Rightarrow> item_map \<Rightarrow> world \<Rightarrow> world res" where
  "tag_all en guildId [] w = Inr w"
| "tag_all en guildId ((i, a) # t) w =
     rbind (spawn_at a w) (\<lambda>s.
       if guildId = ucast (sp_guildID s)
       then rbind (with_spawn a (guild_tag en) w) (\<lambda>w.
            rbind (touch en a w) (\<lambda>w.
            rbind (shell_emit (ChangeItem a tSpawnChangedALL) w) (tag_all en guildId t)))
       else tag_all en guildId t w)"

definition updateGuildTag :: "env \<Rightarrow> u32 \<Rightarrow> world \<Rightarrow> world res" where
  "updateGuildTag en guildId w =
     rbind (tag_all en guildId (en_order en (wd_spawns w)) w) (\<lambda>w.
     tag_all en guildId (en_order en (wd_players w)) w)"

section \<open>The group\<close>

text \<open>The slots of \<open>GroupMgr\<close> that are connected to packets, and what the encoder reads of it.\<close>

definition addGroupMember :: "env \<Rightarrow> string option \<Rightarrow> world \<Rightarrow> world res" where
  "addGroupMember en out w =
     rbind (spawn_name player_addr w) (\<lambda>self.
     rbind (gm_addGroupMember (findPlayerByDisplayName en w) self out (wd_group w)) (\<lambda>g.
     Inr (w\<lparr>wd_group := g\<rparr>)))"

definition groupMemberList :: "env \<Rightarrow> (u32 \<times> string) option \<Rightarrow> world \<Rightarrow> world res" where
  "groupMemberList en out w =
     rbind (spawn_name player_addr w) (\<lambda>self.
     rbind (gm_groupMemberList (findPlayerByDisplayName en w) (en_set_order en) self out (wd_group w)) (\<lambda>g.
     Inr (w\<lparr>wd_group := g\<rparr>)))"

definition removeGroupMember :: "env \<Rightarrow> string option \<Rightarrow> world \<Rightarrow> world res" where
  "removeGroupMember en out w =
     rbind (spawn_name player_addr w) (\<lambda>self.
     rbind (gm_removeGroupMember (findPlayerByDisplayName en w) self out (wd_group w)) (\<lambda>g.
     Inr (w\<lparr>wd_group := g\<rparr>)))"

fun group_rows :: "world \<Rightarrow> member list \<Rightarrow> (string \<times> (u16 \<times> u32 \<times> u8) option) list res" where
  "group_rows w [] = Inr []"
| "group_rows w (m # ms) =
     rbind (case mb_spawn m of
              None \<Rightarrow> Inr None
            | Some a \<Rightarrow> rbind (spawn_at a w) (\<lambda>s. Inr (Some (it_id s, sp_level (seen w a s), sp_class (seen w a s))))) (\<lambda>x.
     rbind (group_rows w ms) (\<lambda>xs. Inr ((mb_name m, x) # xs)))"

definition fillGroupUpdate :: "world \<Rightarrow> (string \<times> (u16 \<times> u32 \<times> u8) option) list res" where
  "fillGroupUpdate w = group_rows w (gm_members (wd_group w))"

end
