(* ===== verification/ZoneWorld.thy ===== *)
theory ZoneWorld
  imports SpawnShell "HOL-Library.Multiset"
begin

text \<open>
  What holds of the zone in every state: the tables lead to objects of the right kind, no object is
  in two tables, the group points to spawns that exist. No handler faults, whatever the payloads.
\<close>

section \<open>Tags\<close>

text \<open>The kind of an object never changes while it exists, nor does the id of any but the player.\<close>

datatype kind = KSpawn | KDoor | KDrop

fun kind_of :: "obj \<Rightarrow> kind" where
  "kind_of (OSpawn s) = KSpawn" | "kind_of (ODoor d) = KDoor" | "kind_of (ODrop d) = KDrop"

definition tag_of :: "addr \<Rightarrow> obj \<Rightarrow> kind \<times> u16" where
  "tag_of a ob = (kind_of ob, if a = player_addr then 0 else obj_id ob)"

definition tag_at :: "world \<Rightarrow> addr \<Rightarrow> (kind \<times> u16) option" where
  "tag_at w a = map_option (tag_of a) (wd_heap w a)"

definition is_spawn :: "world \<Rightarrow> addr \<Rightarrow> bool" where
  "is_spawn w a \<longleftrightarrow> map_option fst (tag_at w a) = Some KSpawn"

lemma is_spawn_iff: "is_spawn w a \<longleftrightarrow> (\<exists>s. wd_heap w a = Some (OSpawn s))"
proof -
  have "kind_of ob = KSpawn \<longleftrightarrow> (\<exists>s. ob = OSpawn s)" for ob by (cases ob) auto
  then show ?thesis by (auto simp: is_spawn_def tag_at_def tag_of_def)
qed

lemma is_spawn_at: "is_spawn w a \<Longrightarrow> \<exists>s. spawn_at a w = Inr s \<and> wd_heap w a = Some (OSpawn s)"
  by (auto simp: is_spawn_iff spawn_at_def obj_at_def)

section \<open>The invariant\<close>

definition addrs :: "world \<Rightarrow> addr list" where
  "addrs w = map snd (wd_spawns w) @ map snd (wd_doors w) @ map snd (wd_drops w)"

definition entries_ok :: "world \<Rightarrow> kind \<Rightarrow> item_map \<Rightarrow> bool" where
  "entries_ok w k t \<longleftrightarrow> distinct (map fst t) \<and> (\<forall>(i, a) \<in> set t. a \<noteq> player_addr \<and> tag_at w a = Some (k, word_of_int i))"

definition dead_ok :: "world \<Rightarrow> bool" where
  "dead_ok w \<longleftrightarrow> length (wd_deadSpawnID w) = MAX_DEAD_SPAWNIDS \<and>
     unat (wd_cntDeadSpawnIDs w) \<le> MAX_DEAD_SPAWNIDS \<and> unat (wd_posDeadSpawnIDs w) < MAX_DEAD_SPAWNIDS"

definition group_ok :: "world \<Rightarrow> bool" where
  "group_ok w \<longleftrightarrow> group_inv (wd_group w) \<and> ptrs (is_spawn w) (wd_group w)"

definition tables_ok :: "world \<Rightarrow> bool" where
  "tables_ok w \<longleftrightarrow> is_spawn w player_addr \<and> player_addr < wd_next w \<and> (\<forall>a. wd_next w \<le> a \<longrightarrow> tag_at w a = None) \<and>
     entries_ok w KSpawn (wd_spawns w) \<and> entries_ok w KDoor (wd_doors w) \<and> entries_ok w KDrop (wd_drops w) \<and>
     distinct (addrs w) \<and> (\<forall>(i, a) \<in> set (wd_players w). a = player_addr)"

definition zone_ok :: "world \<Rightarrow> bool" where
  "zone_ok w \<longleftrightarrow> tables_ok w \<and> group_ok w \<and> dead_ok w"

text \<open>What most steps leave alone.\<close>

definition zframe :: "world \<Rightarrow> world \<Rightarrow> bool" where
  "zframe w w' \<longleftrightarrow> tag_at w' = tag_at w \<and> wd_next w' = wd_next w \<and> wd_spawns w' = wd_spawns w \<and>
     wd_doors w' = wd_doors w \<and> wd_drops w' = wd_drops w \<and> wd_players w' = wd_players w"

lemma frame_refl [simp]: "zframe w w"
  by (simp add: zframe_def)

lemma frame_trans: "zframe u v \<Longrightarrow> zframe v w \<Longrightarrow> zframe u w"
  by (simp add: zframe_def)

lemma frame_is_spawn: "zframe w w' \<Longrightarrow> is_spawn w' a = is_spawn w a"
  by (simp add: zframe_def is_spawn_def)

lemma frame_tables:
  assumes "zframe w w'" shows "tables_ok w' = tables_ok w"
proof -
  have "is_spawn w' a = is_spawn w a" for a using assms by (rule frame_is_spawn)
  then show ?thesis using assms by (simp add: zframe_def tables_ok_def entries_ok_def addrs_def)
qed

definition fine :: "world \<Rightarrow> world res \<Rightarrow> bool" where
  "fine w r \<longleftrightarrow> (\<exists>w'. r = Inr w' \<and> zframe w w' \<and> zone_ok w')"

definition fine2 :: "world \<Rightarrow> ('a \<times> world) res \<Rightarrow> bool" where
  "fine2 w r \<longleftrightarrow> (\<exists>c w'. r = Inr (c, w') \<and> zframe w w' \<and> zone_ok w')"

definition safe :: "world res \<Rightarrow> bool" where
  "safe r \<longleftrightarrow> (\<exists>w'. r = Inr w' \<and> zone_ok w')"

lemma fine_bind:
  assumes "fine w r" "\<And>w'. zone_ok w' \<Longrightarrow> zframe w w' \<Longrightarrow> fine w' (k w')"
  shows "fine w (rbind r k)"
  using assms unfolding fine_def by (fastforce intro: frame_trans)

lemma fine2_bind:
  assumes "fine2 w r" "\<And>c w'. zone_ok w' \<Longrightarrow> zframe w w' \<Longrightarrow> fine w' (k (c, w'))"
  shows "fine w (rbind r k)"
  using assms unfolding fine_def fine2_def by (fastforce intro: frame_trans)

lemma fine_safe: "fine w r \<Longrightarrow> safe r"
  by (auto simp: fine_def safe_def)

lemma safe_bind:
  assumes "safe r" "\<And>w'. zone_ok w' \<Longrightarrow> safe (k w')"
  shows "safe (rbind r k)"
  using assms unfolding safe_def by auto

lemma fine_safe_bind:
  assumes "fine w r" "\<And>w'. zone_ok w' \<Longrightarrow> zframe w w' \<Longrightarrow> safe (k w')"
  shows "safe (rbind r k)"
  using assms unfolding fine_def safe_def by auto

lemma fine2_safe_bind:
  assumes "fine2 w r" "\<And>c w'. zone_ok w' \<Longrightarrow> zframe w w' \<Longrightarrow> safe (k (c, w'))"
  shows "safe (rbind r k)"
  using assms unfolding fine2_def safe_def by auto

lemma fine_refl [simp]: "zone_ok w \<Longrightarrow> fine w (Inr w)"
  by (simp add: fine_def)

lemma safe_refl [simp]: "zone_ok w \<Longrightarrow> safe (Inr w)"
  by (simp add: safe_def)

text \<open>A change that concerns neither objects, tables, group nor the ring of dead ids.\<close>

lemma zone_ok_frame:
  "zone_ok w \<Longrightarrow> zframe w w' \<Longrightarrow> wd_group w' = wd_group w \<Longrightarrow> dead_ok w' \<Longrightarrow> zone_ok w'"
  by (auto simp: zone_ok_def group_ok_def frame_tables ptrs_def frame_is_spawn)

lemma zone_ok_player_info [simp]:
  "zone_ok (w\<lparr>wd_player := p\<rparr>) = zone_ok w" "zone_ok (w\<lparr>wd_events := e\<rparr>) = zone_ok w"
  "zframe v (w\<lparr>wd_player := p\<rparr>) = zframe v w" "zframe v (w\<lparr>wd_events := e\<rparr>) = zframe v w"
  by (simp_all add: zone_ok_def tables_ok_def group_ok_def dead_ok_def entries_ok_def addrs_def is_spawn_def
      tag_at_def zframe_def fun_eq_iff ptrs_def)

section \<open>Primitive steps\<close>

lemma player_spawn: "zone_ok w \<Longrightarrow> is_spawn w player_addr"
  by (simp add: zone_ok_def tables_ok_def)

lemma put_frame:
  assumes "tag_at w a = Some (tag_of a ob)"
  shows "zframe w (put a ob w)"
  using assms by (auto simp: zframe_def put_def tag_at_def fun_eq_iff)

lemma put_fine:
  assumes "zone_ok w" "tag_at w a = Some (tag_of a ob)"
  shows "zone_ok (put a ob w) \<and> zframe w (put a ob w)"
proof
  show "zframe w (put a ob w)" using assms(2) by (rule put_frame)
  moreover have "wd_group (put a ob w) = wd_group w" "dead_ok (put a ob w)"
    using assms(1) by (simp_all add: put_def zone_ok_def dead_ok_def)
  ultimately show "zone_ok (put a ob w)" using zone_ok_frame assms(1) by blast
qed

lemma with_spawn_fine:
  assumes "zone_ok w" "is_spawn w a" "\<And>s. a \<noteq> player_addr \<Longrightarrow> it_id (f s) = it_id s"
  shows "fine w (with_spawn a f w)"
proof -
  obtain s where s: "spawn_at a w = Inr s" "wd_heap w a = Some (OSpawn s)" using is_spawn_at [OF assms(2)] by blast
  then have "tag_at w a = Some (tag_of a (OSpawn (f s)))" using assms(3) by (simp add: tag_at_def tag_of_def)
  with put_fine [OF assms(1)] s show ?thesis by (simp add: fine_def with_spawn_def)
qed

lemma touch_fine:
  assumes "zone_ok w" "tag_at w a \<noteq> None"
  shows "fine w (touch en a w)"
proof -
  obtain ob where ob: "wd_heap w a = Some ob" using assms(2) by (auto simp: tag_at_def)
  then have "tag_at w a = Some (tag_of a (obj_touch (en_clock en) ob))"
    by (cases ob) (simp_all add: tag_at_def tag_of_def updateLastChanged_def)
  with put_fine [OF assms(1)] ob show ?thesis by (simp add: fine_def touch_def obj_at_def)
qed

lemma updateFilterFlags_fine:
  assumes "zone_ok w" "tag_at w a \<noteq> None"
  shows "fine2 w (updateFilterFlags en a w)"
proof -
  obtain ob where ob: "wd_heap w a = Some ob" using assms(2) by (auto simp: tag_at_def)
  then have "tag_at w a = Some (tag_of a (set_filterFlags f ob))" for f
    by (cases ob) (simp_all add: tag_at_def tag_of_def)
  with put_fine [OF assms(1)] ob assms(1) show ?thesis by (auto simp: fine2_def updateFilterFlags_def obj_at_def Let_def)
qed

lemma updateRuntimeFilterFlags_fine:
  assumes "zone_ok w" "tag_at w a \<noteq> None"
  shows "fine2 w (updateRuntimeFilterFlags en a w)"
proof -
  obtain ob where ob: "wd_heap w a = Some ob" using assms(2) by (auto simp: tag_at_def)
  then have "tag_at w a = Some (tag_of a (set_runtimeFilterFlags f ob))" for f
    by (cases ob) (simp_all add: tag_at_def tag_of_def)
  with put_fine [OF assms(1)] ob assms(1) show ?thesis by (auto simp: fine2_def updateRuntimeFilterFlags_def obj_at_def Let_def)
qed

lemma refilter_fine:
  assumes "zone_ok w" "tag_at w a \<noteq> None"
  shows "fine w (refilter en a w)"
  unfolding refilter_def
  by (rule fine2_bind [OF updateFilterFlags_fine [OF assms]], unfold prod.case,
      rule fine2_bind [OF updateRuntimeFilterFlags_fine]) (use assms in \<open>auto simp: zframe_def\<close>)

lemma refilter_bits_fine:
  assumes "zone_ok w" "tag_at w a \<noteq> None"
  shows "fine2 w (refilter_bits en a bits w)"
proof -
  obtain c w1 where 1: "updateFilterFlags en a w = Inr (c, w1)" "zframe w w1" "zone_ok w1"
    using updateFilterFlags_fine [OF assms, of en] unfolding fine2_def by blast
  moreover have "tag_at w1 a \<noteq> None" using assms(2) 1(2) by (simp add: zframe_def)
  from updateRuntimeFilterFlags_fine [OF 1(3) this, of en] obtain d w2 where
    "updateRuntimeFilterFlags en a w1 = Inr (d, w2)" "zframe w1 w2" "zone_ok w2" unfolding fine2_def by blast
  ultimately show ?thesis by (auto simp: refilter_bits_def fine2_def intro: frame_trans)
qed

subsection \<open>Looking spawns up\<close>

definition env_ok :: "env \<Rightarrow> bool" where
  "env_ok en \<longleftrightarrow> (\<forall>t. mset (en_order en t) = mset t) \<and> (\<forall>xs. mset (en_set_order en xs) = mset xs)"

lemma env_ok_set: "env_ok en \<Longrightarrow> set (en_order en t) = set t"
  unfolding env_ok_def by (metis set_mset_mset)

lemma find_named_ok:
  "\<forall>(i, a) \<in> set t. is_spawn w a \<Longrightarrow> \<exists>r. find_named w p t = Inr r \<and> (\<forall>a. r = Some a \<longrightarrow> is_spawn w a \<and> a \<in> snd ` set t)"
proof (induction t)
  case (Cons x t)
  obtain i a where x: "x = (i, a)" by (cases x)
  then obtain s where "spawn_at a w = Inr s" using Cons.prems is_spawn_at [of w a] by auto
  then show ?case using Cons x by auto
qed simp

lemma spawns_are_spawns: "zone_ok w \<Longrightarrow> (i, a) \<in> set (wd_spawns w) \<Longrightarrow> is_spawn w a"
  by (auto simp: zone_ok_def tables_ok_def entries_ok_def is_spawn_def)

lemma spawn_name_ok: "is_spawn w a \<Longrightarrow> \<exists>n. spawn_name a w = Inr n"
  using is_spawn_at [of w a] by (auto simp: spawn_name_def)

lemma player_id_ok: "zone_ok w \<Longrightarrow> \<exists>i. player_id w = Inr i"
  by (auto simp: player_id_def dest!: player_spawn is_spawn_at)

lemma findSpawnByName_ok:
  assumes "zone_ok w" "env_ok en"
  shows "\<exists>r. findSpawnByName en n w = Inr r \<and> (\<forall>a. r = Some a \<longrightarrow> is_spawn w a)"
proof -
  have "\<forall>(i, a) \<in> set (en_order en (wd_spawns w)). is_spawn w a"
    using spawns_are_spawns [OF assms(1)] env_ok_set [OF assms(2)] by auto
  from find_named_ok [OF this, of "\<lambda>s. n = it_name s"] obtain r where
    r: "find_named w (\<lambda>s. n = it_name s) (en_order en (wd_spawns w)) = Inr r" "\<forall>a. r = Some a \<longrightarrow> is_spawn w a" by blast
  obtain m where "spawn_name player_addr w = Inr m" using spawn_name_ok [OF player_spawn [OF assms(1)]] by blast
  then show ?thesis using r player_spawn [OF assms(1)] by (cases r) (auto simp: findSpawnByName_def)
qed

lemma findPlayerByDisplayName_ok:
  assumes "zone_ok w" "env_ok en"
  shows "\<exists>r. findPlayerByDisplayName en w n = Inr r \<and> (\<forall>a. r = Some a \<longrightarrow> is_spawn w a)"
proof -
  have "\<forall>(i, a) \<in> set (en_order en (wd_spawns w)). is_spawn w a"
    using spawns_are_spawns [OF assms(1)] env_ok_set [OF assms(2)] by auto
  from find_named_ok [OF this, of "\<lambda>s. isPlayer s \<and> (n = it_name s \<or> n = transformedName (it_name s))"] obtain r where
    r: "find_named w (\<lambda>s. isPlayer s \<and> (n = it_name s \<or> n = transformedName (it_name s))) (en_order en (wd_spawns w)) = Inr r" "\<forall>a. r = Some a \<longrightarrow> is_spawn w a" by blast
  obtain m where "spawn_name player_addr w = Inr m" using spawn_name_ok [OF player_spawn [OF assms(1)]] by blast
  then show ?thesis using r player_spawn [OF assms(1)] by (cases r) (auto simp: findPlayerByDisplayName_def)
qed

text \<open>The interface the group relies on, provided by the shell in every state that satisfies the
  invariant.\<close>

definition look :: "env \<Rightarrow> world \<Rightarrow> finder" where
  "look en w = (if zone_ok w \<and> env_ok en then findPlayerByDisplayName en w else (\<lambda>_. Inr None))"

interpretation group_look: spawn_lookup "look en w" "is_spawn w" for en w
proof
  show "\<exists>r. look en w n = Inr r" for n
    using findPlayerByDisplayName_ok [of w en n] by (auto simp: look_def)
  show "look en w n = Inr (Some a) \<Longrightarrow> is_spawn w a" for n a
    using findPlayerByDisplayName_ok [of w en n] by (auto simp: look_def split: if_splits)
qed

lemma group_ok_look: "group_ok w \<longleftrightarrow> group_look.ok w (wd_group w)"
  by (simp add: group_ok_def group_look.ok_def)

lemma zone_ok_group: "zone_ok w \<Longrightarrow> group_look.ok w g \<Longrightarrow> zone_ok (w\<lparr>wd_group := g\<rparr>) \<and> zframe w (w\<lparr>wd_group := g\<rparr>)"
  by (auto simp: zone_ok_def tables_ok_def group_ok_def dead_ok_def entries_ok_def addrs_def is_spawn_def
      tag_at_def zframe_def fun_eq_iff ptrs_def group_look.ok_def)

subsection \<open>Signals\<close>

fun zone_event_ok :: "world \<Rightarrow> zone_event \<Rightarrow> bool" where
  "zone_event_ok w (AddItem a) = (tag_at w a \<noteq> None)"
| "zone_event_ok w (DelItem a) = (tag_at w a \<noteq> None)"
| "zone_event_ok w (KillSpawn a k i) = (tag_at w a \<noteq> None)"
| "zone_event_ok w _ = True"

lemma item_view_ok:
  assumes "tag_at w a \<noteq> None"
  shows "\<exists>ty player raw display. item_view a w = Inr (ty, player, raw, display) \<and> (player \<longrightarrow> is_spawn w a)"
proof -
  obtain ob where "wd_heap w a = Some ob" using assms by (auto simp: tag_at_def)
  then show ?thesis by (cases ob) (auto simp: item_view_def obj_at_def is_spawn_iff)
qed

lemma gm_addItem_not_player: "\<not> player \<Longrightarrow> gm_addItem a ty player raw display g = g"
  by (simp add: gm_addItem_def)

lemma emit_fine:
  assumes "zone_ok w" "zone_event_ok w e"
  shows "fine w (shell_emit e w)"
proof -
  let ?w = "w\<lparr>wd_events := wd_events w @ [e]\<rparr>"
  have w: "zone_ok ?w" "zframe w ?w" using assms(1) by simp_all
  have grp: "fine w (Inr (?w\<lparr>wd_group := g\<rparr>))" if "group_look.ok ?w g" for g
    using zone_ok_group [OF w(1) that] frame_trans [OF w(2)] unfolding fine_def by blast
  have g: "group_look.ok ?w (wd_group w)" using w(1) by (simp add: zone_ok_def group_ok_look)
  have view: "\<exists>ty player raw display. item_view a ?w = Inr (ty, player, raw, display) \<and> (player \<longrightarrow> is_spawn ?w a)"
    if "tag_at w a \<noteq> None" for a
    using that by (intro item_view_ok) (simp add: tag_at_def)
  show ?thesis
  proof (cases e)
    case (AddItem a)
    then obtain ty player raw display where v: "item_view a ?w = Inr (ty, player, raw, display)" "player \<longrightarrow> is_spawn ?w a"
      using view [of a] assms(2) by auto
    then have "group_look.ok ?w (gm_addItem a ty player raw display (wd_group w))"
      using group_look.gm_addItem_ok [OF g] g gm_addItem_not_player by (cases player) auto
    then show ?thesis using v grp AddItem by (simp add: shell_emit_def)
  next
    case (DelItem a)
    then obtain ty player raw display where v: "item_view a ?w = Inr (ty, player, raw, display)"
      using view [of a] assms(2) by auto
    then show ?thesis using grp [OF group_look.gm_delItem_ok [OF g]] DelItem by (simp add: shell_emit_def)
  next
    case (KillSpawn a k i)
    then obtain ty player raw display where v: "item_view a ?w = Inr (ty, player, raw, display)"
      using view [of a] assms(2) by auto
    then show ?thesis using grp [OF group_look.gm_delItem_ok [OF g]] KillSpawn
      by (simp add: shell_emit_def group_look.gm_killSpawn_eq)
  next
    case ClearItems
    then show ?thesis using grp [OF group_look.gm_clear_ok [OF g]] by (simp add: shell_emit_def)
  qed (use assms(1) in \<open>simp_all add: shell_emit_def fine_def\<close>)
qed

subsection \<open>Tables\<close>

lemma table_spawn:
  assumes "zone_ok w" "map_of (wd_spawns w) k = Some a"
  shows "is_spawn w a" "a \<noteq> player_addr" "tag_at w a = Some (KSpawn, word_of_int k)" "tag_at w a \<noteq> None"
  using assms map_of_SomeD [OF assms(2)]
  by (auto simp: zone_ok_def tables_ok_def entries_ok_def is_spawn_def)

lemma table_door:
  assumes "zone_ok w" "map_of (wd_doors w) k = Some a"
  shows "a \<noteq> player_addr \<and> (\<exists>d. wd_heap w a = Some (ODoor d) \<and> it_id d = word_of_int k)"
proof -
  have "a \<noteq> player_addr \<and> tag_at w a = Some (KDoor, word_of_int k)"
    using assms map_of_SomeD [OF assms(2)] by (auto simp: zone_ok_def tables_ok_def entries_ok_def)
  then show ?thesis by (auto simp: tag_at_def tag_of_def elim!: kind_of.elims)
qed

lemma table_drop:
  assumes "zone_ok w" "map_of (wd_drops w) k = Some a"
  shows "a \<noteq> player_addr \<and> (\<exists>d. wd_heap w a = Some (ODrop d) \<and> it_id d = word_of_int k)"
proof -
  have "a \<noteq> player_addr \<and> tag_at w a = Some (KDrop, word_of_int k)"
    using assms map_of_SomeD [OF assms(2)] by (auto simp: zone_ok_def tables_ok_def entries_ok_def)
  then show ?thesis by (auto simp: tag_at_def tag_of_def elim!: kind_of.elims)
qed

lemma set_update_subset: "set (AList.update k a t) \<subseteq> insert (k, a) (set t)"
  by (induction t) auto

lemma distinct_update_values:
  "distinct (map snd t) \<Longrightarrow> a \<notin> snd ` set t \<Longrightarrow> distinct (map snd (AList.update k a t))"
proof (induction t)
  case (Cons x t)
  obtain j b where x: "x = (j, b)" by (cases x)
  have "b \<notin> snd ` set (AList.update k a t)"
    using Cons.prems x set_update_subset [of k a t] by auto
  then show ?case using Cons x by auto
qed simp

lemma update_values: "set (map snd (AList.update k a t)) \<subseteq> insert a (set (map snd t))"
  using set_update_subset [of k a t] by auto

lemma entries_update:
  "entries_ok w kd t \<Longrightarrow> a \<noteq> player_addr \<Longrightarrow> tag_at w a = Some (kd, word_of_int k) \<Longrightarrow> entries_ok w kd (AList.update k a t)"
  using set_update_subset [of k a t] by (fastforce simp: entries_ok_def distinct_update)

lemma entries_delete: "entries_ok w kd t \<Longrightarrow> entries_ok w kd (AList.delete k t)"
  by (auto simp: entries_ok_def AList.delete_eq distinct_map_filter)

lemma delete_values:
  "set (map snd (AList.delete k t)) \<subseteq> set (map snd t)" "distinct (map snd t) \<Longrightarrow> distinct (map snd (AList.delete k t))"
  by (auto simp: AList.delete_eq distinct_map_filter)

text \<open>A change of the tables alone.\<close>

lemma zone_ok_tables:
  assumes "zone_ok w" "tag_at w' = tag_at w" "wd_next w' = wd_next w" "wd_group w' = wd_group w"
    "wd_deadSpawnID w' = wd_deadSpawnID w" "wd_cntDeadSpawnIDs w' = wd_cntDeadSpawnIDs w"
    "wd_posDeadSpawnIDs w' = wd_posDeadSpawnIDs w"
    "entries_ok w KSpawn (wd_spawns w')" "entries_ok w KDoor (wd_doors w')" "entries_ok w KDrop (wd_drops w')"
    "distinct (addrs w')" "\<forall>(i, a) \<in> set (wd_players w'). a = player_addr"
  shows "zone_ok w'"
proof -
  have "is_spawn w' = is_spawn w" "entries_ok w' = entries_ok w"
    using assms(2) by (auto simp: fun_eq_iff is_spawn_def entries_ok_def)
  then show ?thesis using assms by (simp add: zone_ok_def tables_ok_def group_ok_def dead_ok_def)
qed

lemma tag_at_fields [simp]:
  "tag_at (w\<lparr>wd_spawns := t\<rparr>) = tag_at w" "tag_at (w\<lparr>wd_doors := t\<rparr>) = tag_at w" "tag_at (w\<lparr>wd_drops := t\<rparr>) = tag_at w"
  "tag_at (w\<lparr>wd_players := t\<rparr>) = tag_at w" "tag_at (w\<lparr>wd_deadSpawnID := ds\<rparr>) = tag_at w"
  "tag_at (w\<lparr>wd_cntDeadSpawnIDs := c\<rparr>) = tag_at w" "tag_at (w\<lparr>wd_posDeadSpawnIDs := c\<rparr>) = tag_at w"
  "tag_at (w\<lparr>wd_player := p\<rparr>) = tag_at w"
  by (auto simp: tag_at_def fun_eq_iff)

lemma insert_spawn:
  assumes "zone_ok w" "a \<noteq> player_addr" "tag_at w a = Some (KSpawn, word_of_int k)" "a \<notin> set (addrs w)"
  shows "zone_ok (w\<lparr>wd_spawns := AList.update k a (wd_spawns w)\<rparr>)"
proof (rule zone_ok_tables [OF assms(1)])
  have "distinct (addrs w)" using assms(1) by (simp add: zone_ok_def tables_ok_def)
  moreover have "distinct (map snd (AList.update k a (wd_spawns w)))"
    using calculation assms(4) by (intro distinct_update_values) (simp_all add: addrs_def)
  ultimately show "distinct (addrs (w\<lparr>wd_spawns := AList.update k a (wd_spawns w)\<rparr>))"
    using assms(4) update_values [of k a "wd_spawns w"] unfolding addrs_def distinct_append
    by (simp del: set_map) blast
qed (use assms in \<open>simp_all add: zone_ok_def tables_ok_def entries_update\<close>)

lemma insert_door:
  assumes "zone_ok w" "a \<noteq> player_addr" "tag_at w a = Some (KDoor, word_of_int k)" "a \<notin> set (addrs w)"
  shows "zone_ok (w\<lparr>wd_doors := AList.update k a (wd_doors w)\<rparr>)"
proof (rule zone_ok_tables [OF assms(1)])
  have "distinct (addrs w)" using assms(1) by (simp add: zone_ok_def tables_ok_def)
  moreover have "distinct (map snd (AList.update k a (wd_doors w)))"
    using calculation assms(4) by (intro distinct_update_values) (simp_all add: addrs_def)
  ultimately show "distinct (addrs (w\<lparr>wd_doors := AList.update k a (wd_doors w)\<rparr>))"
    using assms(4) update_values [of k a "wd_doors w"] unfolding addrs_def distinct_append
    by (simp del: set_map) blast
qed (use assms in \<open>simp_all add: zone_ok_def tables_ok_def entries_update\<close>)

lemma insert_drop:
  assumes "zone_ok w" "a \<noteq> player_addr" "tag_at w a = Some (KDrop, word_of_int k)" "a \<notin> set (addrs w)"
  shows "zone_ok (w\<lparr>wd_drops := AList.update k a (wd_drops w)\<rparr>)"
proof (rule zone_ok_tables [OF assms(1)])
  have "distinct (addrs w)" using assms(1) by (simp add: zone_ok_def tables_ok_def)
  moreover have "distinct (map snd (AList.update k a (wd_drops w)))"
    using calculation assms(4) by (intro distinct_update_values) (simp_all add: addrs_def)
  ultimately show "distinct (addrs (w\<lparr>wd_drops := AList.update k a (wd_drops w)\<rparr>))"
    using assms(4) update_values [of k a "wd_drops w"] unfolding addrs_def distinct_append
    by (simp del: set_map) blast
qed (use assms in \<open>simp_all add: zone_ok_def tables_ok_def entries_update\<close>)

lemma insert_player:
  assumes "zone_ok w" shows "zone_ok (w\<lparr>wd_players := AList.update k player_addr (wd_players w)\<rparr>)"
proof (rule zone_ok_tables [OF assms])
  show "\<forall>(i, a) \<in> set (wd_players (w\<lparr>wd_players := AList.update k player_addr (wd_players w)\<rparr>)). a = player_addr"
    using assms set_update_subset [of k player_addr "wd_players w"] by (fastforce simp: zone_ok_def tables_ok_def)
qed (use assms in \<open>auto simp: zone_ok_def tables_ok_def addrs_def\<close>)

lemma addrs_delete:
  "distinct (addrs w) \<Longrightarrow> distinct (addrs (setMap ty (AList.delete k (getMap ty w)) w))"
  using delete_values [where t = "wd_spawns w" and k = k] delete_values [where t = "wd_doors w" and k = k]
    delete_values [where t = "wd_drops w" and k = k]
  unfolding addrs_def distinct_append by (cases ty; simp del: set_map; blast)

lemma delete_entry:
  assumes "zone_ok w" shows "zone_ok (setMap ty (AList.delete k (getMap ty w)) w)"
proof -
  have e: "entries_ok w KSpawn (wd_spawns w)" "entries_ok w KDoor (wd_doors w)"
    "entries_ok w KDrop (wd_drops w)" and p: "\<forall>(i, a) \<in> set (wd_players w). a = player_addr"
    using assms by (simp_all add: zone_ok_def tables_ok_def)
  have p': "\<forall>(i, a) \<in> set (AList.delete k (wd_players w)). a = player_addr" using p by (auto simp: AList.delete_eq)
  have d: "distinct (addrs (setMap ty (AList.delete k (getMap ty w)) w))"
    using assms by (intro addrs_delete) (simp add: zone_ok_def tables_ok_def)
  show ?thesis
    by (rule zone_ok_tables [OF assms _ _ _ _ _ _ _ _ _ d]) (cases ty; simp add: e p p' entries_delete)+
qed

subsection \<open>New objects and obsolete ones\<close>

lemma new_obj_ok:
  assumes "zone_ok w" "new_obj ob w = (a, w')"
  shows "zone_ok w'" "a \<noteq> player_addr" "tag_at w' a = Some (kind_of ob, obj_id ob)" "a \<notin> set (addrs w')"
    "wd_spawns w' = wd_spawns w" "wd_doors w' = wd_doors w" "wd_drops w' = wd_drops w"
proof -
  have a: "a = wd_next w" and w': "w' = (put a ob w)\<lparr>wd_next := wd_next w + 1\<rparr>"
    using assms(2) by (auto simp: new_obj_def)
  have t: "tables_ok w" and fresh: "tag_at w a = None" and p: "a \<noteq> player_addr"
    using assms(1) a by (auto simp: zone_ok_def tables_ok_def)
  show "a \<noteq> player_addr" by (rule p)
  have tags: "tag_at w' = (tag_at w)(a \<mapsto> tag_of a ob)"
    by (auto simp: w' put_def tag_at_def fun_eq_iff)
  then show "tag_at w' a = Some (kind_of ob, obj_id ob)" using p by (simp add: tag_of_def)
  show same: "wd_spawns w' = wd_spawns w" "wd_doors w' = wd_doors w" "wd_drops w' = wd_drops w"
    by (simp_all add: w' put_def)
  have entry: "b \<noteq> a" if "(i, b) \<in> set (wd_spawns w) \<union> set (wd_doors w) \<union> set (wd_drops w)" for i b
    using t fresh that by (auto simp: tables_ok_def entries_ok_def)
  have "x \<noteq> a" if "x \<in> set (addrs w')" for x
  proof -
    have "\<exists>i. (i, x) \<in> set (wd_spawns w) \<union> set (wd_doors w) \<union> set (wd_drops w)"
      using that by (auto simp: addrs_def same)
    then show ?thesis using entry by blast
  qed
  then show "a \<notin> set (addrs w')" by blast
  have sp: "is_spawn w' b" if "is_spawn w b" for b
    using that fresh by (auto simp: is_spawn_def tags)
  have en: "entries_ok w' k tb" if "entries_ok w k tb" "set tb \<subseteq> set (wd_spawns w) \<union> set (wd_doors w) \<union> set (wd_drops w)" for k tb
    using that entry by (fastforce simp: entries_ok_def tags)
  have "entries_ok w' KSpawn (wd_spawns w)" "entries_ok w' KDoor (wd_doors w)" "entries_ok w' KDrop (wd_drops w)"
    using t by (auto intro!: en simp: tables_ok_def)
  moreover have "wd_next w' = Suc a" "wd_players w' = wd_players w" by (simp_all add: w' put_def a)
  moreover have "tag_at w' b = None" if "Suc a \<le> b" for b using that t a by (simp add: tags tables_ok_def)
  ultimately have "tables_ok w'"
    using t sp a by (simp add: tables_ok_def same addrs_def)
  moreover have "group_ok w'" using assms(1) sp by (auto simp: zone_ok_def group_ok_def ptrs_def w' put_def)
  moreover have "dead_ok w'" using assms(1) by (simp add: zone_ok_def dead_ok_def w' put_def)
  ultimately show "zone_ok w'" by (simp add: zone_ok_def)
qed

lemma deleteItem_safe:
  assumes "zone_ok w" shows "safe (deleteItem ty i w)"
proof (cases "map_of (getMap ty w) i")
  case (Some a)
  have "tag_at w a \<noteq> None"
    using assms map_of_SomeD [OF Some] player_spawn [OF assms]
    by (cases ty) (auto simp: zone_ok_def tables_ok_def entries_ok_def is_spawn_def)
  then have "fine w (shell_emit (DelItem a) w)" using assms by (intro emit_fine) simp_all
  then show ?thesis
    unfolding deleteItem_def Some option.case Let_def
    by (rule fine_safe_bind) (auto intro!: fine_safe emit_fine delete_entry)
qed (simp add: deleteItem_def assms)

lemma forget_dead_fine: "zone_ok w \<Longrightarrow> zone_ok (forget_dead i w) \<and> zframe w (forget_dead i w)"
  by (auto simp: forget_dead_def Let_def zframe_def zone_ok_def dead_ok_def tables_ok_def group_ok_def
      entries_ok_def addrs_def is_spawn_def ptrs_def)

section \<open>The handlers\<close>

lemma keeps_id [simp]:
  "it_id (setDeltas x y z s) = it_id s" "it_id (setHeading h dh s) = it_id s" "it_id (setRace r s) = it_id s"
  "it_id (setDeity d s) = it_id s" "it_id (updateLast ck i) = it_id i" "it_id (updateLastChanged ck i) = it_id i"
  "it_id (guild_tag en s) = it_id s" "it_id (item_setPos x y z i) = it_id i" "it_id (setEquipment j e s) = it_id s"
  by (simp_all add: setDeltas_def setHeading_def setRace_def setDeity_def updateLast_def updateLastChanged_def
      guild_tag_def item_setPos_def setEquipment_def)

lemma keeps_id_equipment [simp]: "it_id (fold (\<lambda>i. setEquipment i (f i)) is s) = it_id s"
  by (simp add: fold_setEquipment)

lemma keeps_id_more [simp]:
  "it_id (spawn_kill s) = it_id s" "it_id (spawn_update ck ss s) = it_id s" "it_id (player_update ck pl ss s) = it_id s"
  "it_id (set_pos p s) = it_id s" "it_id (applyIdentity en f s) = it_id s"
  by (simp_all add: spawn_kill_def spawn_update_def player_update_def player_setRace_def player_setDeity_def set_pos_def applyIdentity_def Let_def
      split: prod.split)

lemma made_id [simp]:
  "it_id (spawn_of_struct ck b ss) = ucast (ss_spawnId ss)" "it_id (spawn_unknown ck b i p d h dh an) = i"
  "it_id (spawn_copy ck b s i) = i" "it_id (mkDoor ck fo ds) = ucast (ds_doorId ds)"
  "it_id (mkDrop ck fo de md n) = ucast (md_dropId md)"
  by (simp_all add: spawn_of_struct_def spawn_unknown_def clear_unknown_def spawn_copy_def mkDoor_def mkDrop_def
      door_update_def drop_update_def spawn_of_item_def mkItem_def item.defs door.defs drop_item.defs Let_def
      split: prod.split)

lemma word_of_int_keys [simp]:
  "(word_of_int (sint (i :: u32)) :: u16) = ucast i" "(word_of_int (uint (j :: u16)) :: u16) = j"
  "(word_of_int (uint (k :: u8)) :: u16) = ucast k"
proof -
  show "(word_of_int (sint i) :: u16) = ucast i"
    by (rule bit_word_eqI) (simp add: bit_simps bit_sint_iff)
qed simp_all

lemma frame_tag: "zframe w w' \<Longrightarrow> tag_at w' a = tag_at w a"
  by (simp add: zframe_def)

lemma is_spawn_tag: "is_spawn w a \<Longrightarrow> tag_at w a \<noteq> None"
  by (auto simp: is_spawn_def)

lemma change_item_fine: "zone_ok w \<Longrightarrow> fine w (shell_emit (ChangeItem a b) w)"
  by (rule emit_fine) simp_all

lemma touch_emit_fine:
  assumes "zone_ok w" "tag_at w a \<noteq> None"
  shows "fine w (rbind (touch en a w) (shell_emit (ChangeItem a b)))"
  by (rule fine_bind [OF touch_fine [OF assms]]) (rule change_item_fine)

lemma change_spawn_fine:
  assumes "zone_ok w" "\<And>s. it_id (f s) = it_id s"
  shows "fine w (change_spawn en k f b w)"
proof (cases "map_of (wd_spawns w) k")
  case (Some a)
  note a = table_spawn [OF assms(1) Some]
  show ?thesis
    unfolding change_spawn_def Some option.case
  proof (rule fine_bind [OF with_spawn_fine [OF assms(1) a(1)]])
    fix w' assume "zone_ok w'" "zframe w w'"
    then show "fine w' (rbind (touch en a w') (shell_emit (ChangeItem a b)))"
      using a(4) by (intro touch_emit_fine) (simp_all add: frame_tag)
  qed (simp add: assms(2))
qed (simp add: change_spawn_def assms(1))

text \<open>A new spawn: its flags, its entry, then the guild tag or the announcement.\<close>

lemma enter_spawn:
  assumes "zone_ok w" "new_obj (OSpawn s) w = (a, w')" "it_id s = word_of_int k"
    "\<And>v. zone_ok v \<Longrightarrow> is_spawn v a \<Longrightarrow> a \<noteq> player_addr \<Longrightarrow> safe (next_step v)"
  shows "safe (rbind (refilter en a w') (\<lambda>v. next_step (v\<lparr>wd_spawns := AList.update k a (wd_spawns v)\<rparr>)))"
proof -
  note n = new_obj_ok [OF assms(1,2)]
  show ?thesis
  proof (rule fine_safe_bind [OF refilter_fine [OF n(1)]])
    show "tag_at w' a \<noteq> None" using n(3) by simp
    fix v assume v: "zone_ok v" "zframe w' v"
    have t: "tag_at v a = Some (KSpawn, word_of_int k)" using v(2) n(3) assms(3) by (simp add: frame_tag)
    have "a \<notin> set (addrs v)" using v(2) n(4) by (simp add: addrs_def zframe_def)
    note z = insert_spawn [OF v(1) n(2) t this]
    have "is_spawn (v\<lparr>wd_spawns := AList.update k a (wd_spawns v)\<rparr>) a" using t by (simp add: is_spawn_def)
    then show "safe (next_step (v\<lparr>wd_spawns := AList.update k a (wd_spawns v)\<rparr>))" using assms(4) [OF z] n(2) by blast
  qed
qed

lemma announce_spawn:
  assumes "zone_ok w" "tag_at w a \<noteq> None"
  shows "safe (rbind (shell_emit (AddItem a) w) (\<lambda>w. shell_emit (NumSpawns (length (wd_spawns w))) w))"
  by (rule fine_safe_bind [OF emit_fine [OF assms(1)]]) (use assms in \<open>auto intro!: fine_safe emit_fine\<close>)

end
