(* ===== verification/PlayerSpawn.thy ===== *)
theory PlayerSpawn
  imports SpawnShell
begin

text \<open>
  The slots of \<open>Player\<close> (\<open>src/player.cpp\<close>) as far as they touch its spawn, the names it goes by and the
  last kill, and the lists of spawns and the state of the player that outlive the daemon
  (\<open>SpawnShell::saveSpawns\<close>, \<open>restoreSpawns\<close>). Statistics, experience, skills and the spell book are left
  out, with the signals that only tell of them. Payloads come decoded, \<open>None\<close> when not accepted.
\<close>

abbreviation with_player :: "(spawn \<Rightarrow> spawn) \<Rightarrow> world \<Rightarrow> world res" where
  "with_player \<equiv> with_spawn player_addr"

abbreviation player_changed :: "u32 \<Rightarrow> world \<Rightarrow> world res" where
  "player_changed bits \<equiv> shell_emit (ChangeItem player_addr bits)"

section \<open>The profile and what replaces it\<close>

record self_profile =
  ch_name :: string
  ch_lastName :: string
  ch_profile :: profile
  ch_guildID :: u32
  ch_guildServerID :: u32
  ch_x :: u32
  ch_y :: u32
  ch_z :: u32
  ch_heading :: u32

definition player_profile :: "env \<Rightarrow> self_profile \<Rightarrow> world \<Rightarrow> world res" where
  "player_profile en c w =
     rbind (with_player (\<lambda>s. s\<lparr>it_NPC := SPAWN_SELF, sp_typeflag := 1, it_name := ch_name c, sp_lastName := ch_lastName c\<rparr>)
       (w\<lparr>wd_player := (wd_player w)\<lparr>pl_realName := ch_name c\<rparr>\<rparr>)) (\<lambda>w.
     rbind (loadProfile (ch_profile c) w) (\<lambda>w.
     rbind (with_player (\<lambda>s.
       let f = fo_lrint16 (en_float en);
           s = guild_tag en (s\<lparr>sp_guildID := ucast (ch_guildID c), sp_guildServerID := ucast (ch_guildServerID c)\<rparr>);
           s = setPos (f (ch_x c)) (f (ch_y c)) (f (ch_z c)) (en_walkpathrecord en) (en_walkpathlength en) s
       in setHeading (fo_lrint8 (en_float en) (ch_heading c)) 0 (setDeltas 0 0 0 s)) w) (\<lambda>w.
     player_changed tSpawnChangedALL w)))"

definition setIdentity :: "env \<Rightarrow> u16 \<Rightarrow> u8 \<Rightarrow> u8 \<Rightarrow> world \<Rightarrow> world res" where
  "setIdentity en race classVal level w =
     (let p = (wd_player w)\<lparr>pl_useDefaults := False\<rparr> in
      rbind (with_player (\<lambda>s. (player_setRace p race (s\<lparr>it_NPC := SPAWN_SELF\<rparr>))\<lparr>sp_class := classVal, sp_level := ucast level\<rparr>)
        (w\<lparr>wd_player := p\<rparr>)) (\<lambda>w.
      rbind (touch en player_addr w) (\<lambda>w. player_changed tSpawnChangedALL w)))"

definition setPlayerName :: "string \<Rightarrow> world \<Rightarrow> world res" where
  "setPlayerName name w =
     with_player (\<lambda>s. s\<lparr>it_name := name\<rparr>) (w\<lparr>wd_player := (wd_player w)\<lparr>pl_realName := name\<rparr>\<rparr>)"

section \<open>Level, hit points and the last kill\<close>

definition updateLevel :: "env \<Rightarrow> u32 option \<Rightarrow> world \<Rightarrow> world res" where
  "updateLevel en out w =
     (case out of
        None \<Rightarrow> Inr w
      | Some level \<Rightarrow>
          rbind (with_player (\<lambda>s. s\<lparr>sp_level := level\<rparr>) (w\<lparr>wd_player := (wd_player w)\<lparr>pl_freshKill := False\<rparr>\<rparr>)) (\<lambda>w.
          rbind (touch en player_addr w) (\<lambda>w. player_changed tSpawnChangedLevel w)))"

definition applyLevel :: "env \<Rightarrow> u8 \<Rightarrow> world \<Rightarrow> world res" where
  "applyLevel en newLevel w =
     rbind (spawn_at player_addr w) (\<lambda>s.
     if newLevel = 0 \<or> ucast newLevel = sp_level s then Inr w
     else rbind (with_player (\<lambda>s. s\<lparr>sp_level := ucast newLevel\<rparr>) w) (\<lambda>w.
          rbind (touch en player_addr w) (\<lambda>w. player_changed tSpawnChangedLevel w)))"

text \<open>\<open>updateExp\<close>: experience of kind 0 is a baseline and leaves the last kill fresh.\<close>

definition updateExp :: "u32 option \<Rightarrow> world \<Rightarrow> world res" where
  "updateExp kind w =
     (case kind of
        None \<Rightarrow> Inr w
      | Some k \<Rightarrow> Inr (if k = 0 then w else w\<lparr>wd_player := (wd_player w)\<lparr>pl_freshKill := False\<rparr>\<rparr>))"

definition setLastKill :: "string \<Rightarrow> u32 \<Rightarrow> world \<Rightarrow> world" where
  "setLastKill name level w =
     w\<lparr>wd_player := (wd_player w)\<lparr>pl_lastSpawnKilledName := name, pl_lastSpawnKilledLevel := level, pl_freshKill := True\<rparr>\<rparr>"

text \<open>\<open>Player::updateNpcHP\<close> and \<open>Player::updateSpawnInfo\<close>, beside the slots of the shell of these names. The id
  of the packet is compared as a number.\<close>

definition self_hp :: "env \<Rightarrow> u32 \<Rightarrow> (spawn \<Rightarrow> spawn) \<Rightarrow> world \<Rightarrow> world res" where
  "self_hp en i f w =
     rbind (player_id w) (\<lambda>pid.
     if i \<noteq> ucast pid then Inr w
     else rbind (with_player f w) (\<lambda>w. rbind (touch en player_addr w) (\<lambda>w. player_changed tSpawnChangedHP w)))"

definition player_updateNpcHP :: "env \<Rightarrow> (u32 \<times> u32 \<times> u32) option \<Rightarrow> world \<Rightarrow> world res" where
  "player_updateNpcHP en out w =
     (case out of
        None \<Rightarrow> Inr w
      | Some (i, cur_hp, max_hp) \<Rightarrow> self_hp en i (\<lambda>s. s\<lparr>sp_curHP := cur_hp, sp_maxHP := max_hp\<rparr>) w)"

definition player_updateSpawnInfo :: "env \<Rightarrow> (u32 \<times> u32 \<times> u32) option \<Rightarrow> world \<Rightarrow> world res" where
  "player_updateSpawnInfo en out w =
     (case out of
        None \<Rightarrow> Inr w
      | Some (i, subcommand, arg1) \<Rightarrow>
          if subcommand = 17 then self_hp en i (\<lambda>s. s\<lparr>sp_curHP := arg1\<rparr>) w else Inr w)"

text \<open>\<open>setVitals\<close>: the hit points it may bring, without a notice of change.\<close>

definition setVitals :: "env \<Rightarrow> (u32 \<times> u32) option \<Rightarrow> world \<Rightarrow> world res" where
  "setVitals en hp w =
     (case hp of
        None \<Rightarrow> Inr w
      | Some (cur, mx) \<Rightarrow> rbind (with_player (\<lambda>s. s\<lparr>sp_curHP := cur, sp_maxHP := mx\<rparr>) w) (touch en player_addr))"

section \<open>Position and id\<close>

definition self_moves :: "env \<Rightarrow> u16 \<times> u16 \<times> u16 \<Rightarrow> u16 \<times> u16 \<times> u16 \<Rightarrow> u8 \<Rightarrow> u8 \<Rightarrow> world \<Rightarrow> world res" where
  "self_moves en pos vel heading deltaHeading w =
     (let (x, y, z) = pos; (vx, vy, vz) = vel in
      rbind (with_player (\<lambda>s.
        let s = setDeltas vx vy vz (setPos x y z (en_walkpathrecord en) (en_walkpathlength en) s)
        in updateLast (en_clock en) (setHeading heading deltaHeading s)) w) (\<lambda>w.
      rbind (touch en player_addr w) (\<lambda>w. player_changed tSpawnChangedPosition w)))"

text \<open>\<open>playerUpdateSelf\<close>: the signal \<open>playerUpdate\<close>, for the id of another spawn, is connected to
  \<open>SpawnShell::playerUpdate2\<close>.\<close>

definition playerUpdateSelf :: "env \<Rightarrow> nat \<Rightarrow> u8 \<Rightarrow> self_pos option \<Rightarrow> world \<Rightarrow> world res" where
  "playerUpdateSelf en len dir out w =
     (if len \<noteq> sizeof_playerSelfPosStruct then Inr w
      else case out of
        None \<Rightarrow> Inr w
      | Some p \<Rightarrow>
          rbind (player_id w) (\<lambda>pid.
          if dir \<noteq> DIR_Client \<and> po_spawn_id p \<noteq> pid then Inr w
          else rbind (if dir = DIR_Client \<and> pid = 0 then setPlayerID en (po_spawn_id p) w else Inr w) (\<lambda>w.
               rbind (player_id w) (\<lambda>pid.
               if po_spawn_id p \<noteq> pid then playerUpdate2 en len out w
               else let f = fo_int16 (en_float en) in
                 self_moves en (f (po_x p), f (po_y p), f (po_z p)) (f (po_delta_x p), f (po_delta_y p), f (po_delta_z p))
                   (ucast (po_heading p)) (ucast (po_delta_heading p)) w))))"

definition applySelfPosition :: "env \<Rightarrow> u16 \<times> u16 \<times> u16 \<Rightarrow> u16 \<times> u16 \<times> u16 \<Rightarrow> u16 \<Rightarrow> world \<Rightarrow> world res" where
  "applySelfPosition en pos vel heading w = self_moves en pos vel (ucast (drop_bit 3 heading AND 0xFF)) 0 w"

text \<open>\<open>Player::consMessage\<close>: who considers itself is the player.\<close>

definition player_consMessage :: "env \<Rightarrow> u8 \<Rightarrow> u32 \<times> u32 \<Rightarrow> world \<Rightarrow> world res" where
  "player_consMessage en dir con w =
     (if dir = DIR_Client then Inr w
      else if fst con = snd con then setPlayerID en (ucast (fst con)) w else Inr w)"

section \<open>The settings of the player\<close>

definition setUseAutoDetectedSettings :: "bool \<Rightarrow> player_info \<Rightarrow> player_info" where
  "setUseAutoDetectedSettings b p = p\<lparr>pl_useAutoDetectedSettings := b\<rparr>"

definition setDefaultName :: "string \<Rightarrow> player_info \<Rightarrow> player_info" where
  "setDefaultName n p = p\<lparr>pl_defaultName := n\<rparr>"

definition setDefaultLastname :: "string \<Rightarrow> player_info \<Rightarrow> player_info" where
  "setDefaultLastname n p = p\<lparr>pl_defaultLastName := n\<rparr>"

definition setDefaultLevel :: "u8 \<Rightarrow> player_info \<Rightarrow> player_info" where
  "setDefaultLevel l p = p\<lparr>pl_defaultLevel := ucast l\<rparr>"

definition setDefaultRace :: "u16 \<Rightarrow> player_info \<Rightarrow> player_info" where
  "setDefaultRace r p = p\<lparr>pl_defaultRace := r\<rparr>"

definition setDefaultClass :: "u8 \<Rightarrow> player_info \<Rightarrow> player_info" where
  "setDefaultClass c p = p\<lparr>pl_defaultClass := c\<rparr>"

definition setDefaultDeity :: "u16 \<Rightarrow> player_info \<Rightarrow> player_info" where
  "setDefaultDeity d p = p\<lparr>pl_defaultDeity := d\<rparr>"

section \<open>What outlives the daemon\<close>

text \<open>The state of the player in its file, and reading it back. \<open>None\<close> is a file that cannot be opened or has
  another magic, size of the profile or number of skills or languages. The id is set without a
  signal, and \<open>m_realName\<close>, race and gender are not in the file.\<close>

record saved_player =
  sv_name :: string
  sv_lastName :: string
  sv_level :: u32
  sv_class :: u8
  sv_deity :: u16
  sv_id :: u16
  sv_pos :: "u16 \<times> u16 \<times> u16"
  sv_delta :: "u16 \<times> u16 \<times> u16"
  sv_heading :: u8
  sv_curHP :: u32
  sv_maxHP :: u32
  sv_useDefaults :: bool

definition savePlayerState :: "world \<Rightarrow> saved_player res" where
  "savePlayerState w = rbind (spawn_at player_addr w) (\<lambda>s. Inr
     \<lparr>sv_name = it_name s, sv_lastName = sp_lastName s, sv_level = sp_level s, sv_class = sp_class s,
      sv_deity = sp_deity s, sv_id = it_id s, sv_pos = it_pos s, sv_delta = sp_delta s, sv_heading = it_heading s,
      sv_curHP = sp_curHP s, sv_maxHP = sp_maxHP s, sv_useDefaults = pl_useDefaults (wd_player w)\<rparr>)"

definition restorePlayerState :: "env \<Rightarrow> saved_player option \<Rightarrow> world \<Rightarrow> world res" where
  "restorePlayerState en file w =
     (case file of
        None \<Rightarrow> player_zoneChanged en w
      | Some v \<Rightarrow>
          with_player (\<lambda>s. s\<lparr>it_name := sv_name v, sp_lastName := sv_lastName v, sp_level := sv_level v,
              sp_class := sv_class v, sp_deity := sv_deity v, it_id := sv_id v, it_pos := sv_pos v,
              sp_delta := sv_delta v, it_heading := sv_heading v, sp_curHP := sv_curHP v, sp_maxHP := sv_maxHP v\<rparr>)
            (w\<lparr>wd_player := (wd_player w)\<lparr>pl_useDefaults := sv_useDefaults v\<rparr>\<rparr>))"

text \<open>The spawns. The file holds their memory from \<open>m_lastUpdate\<close> and from \<open>m_petOwnerID\<close> on with the position
  and the names: not the flags, the guild tag, the track and the movement
  (\<open>Spawn::saveSpawn\<close>, \<open>Spawn(QDataStream&, uint16_t)\<close>).\<close>

definition spawn_restored :: "spawn \<Rightarrow> spawn" where
  "spawn_restored s =
     (let t = s\<lparr>it_filterFlags := 0, it_runtimeFilterFlags := 0, sp_guildTag := '''', sp_track := []\<rparr>;
          t = setDeity (sp_deity t) (setRace (sp_race t) t)
      in (setHeading 0 0 (setDeltas 0 0 0 t))\<lparr>sp_considered := False\<rparr>)"

fun spawns_of :: "item_map \<Rightarrow> world \<Rightarrow> spawn list res" where
  "spawns_of [] w = Inr []"
| "spawns_of ((i, a) # t) w = rbind (spawn_at a w) (\<lambda>s. rbind (spawns_of t w) (\<lambda>ss. Inr (s # ss)))"

definition saveSpawns :: "env \<Rightarrow> world \<Rightarrow> spawn list res" where
  "saveSpawns en w = spawns_of (en_order en (wd_spawns w)) w"

fun restore_rows :: "env \<Rightarrow> spawn list \<Rightarrow> world \<Rightarrow> world res" where
  "restore_rows en [] w = Inr w"
| "restore_rows en (s # rows) w =
     (let (a, w) = new_obj (OSpawn (spawn_restored s)) w
      in rbind (refilter en a w) (\<lambda>w.
         rbind (shell_emit (AddItem a) (w\<lparr>wd_spawns := AList.update (uint (it_id s)) a (wd_spawns w)\<rparr>))
         (restore_rows en rows)))"

definition restoreSpawns :: "env \<Rightarrow> spawn list option \<Rightarrow> world \<Rightarrow> world res" where
  "restoreSpawns en file w =
     (case file of
        None \<Rightarrow> Inr w
      | Some rows \<Rightarrow> rbind (restore_rows en rows w) (\<lambda>w. shell_emit (NumSpawns (length (wd_spawns w))) w))"

end
