(* ===== verification/ZoneSteps.thy ===== *)
theory ZoneSteps
  imports ZoneWorld PlayerSpawn
begin

text \<open>
  Every handler of the zone, from a state that satisfies the invariant: it does not fault and keeps
  the invariant.
\<close>

lemma scast_key [simp]: "(scast (i :: u32) :: u16) = ucast i"
  using word_of_int_keys(1) [of i] by simp

section \<open>Construction and change of zone\<close>

lemma mkGroup_ok: "group_look.ok w mkGroup"
  using mkGroup_inv by (auto simp: group_look.ok_def ptrs_def mkGroup_def empty_member_def)

lemma mkWorld_ok: "zone_ok (mkWorld en pl)"
proof -
  have "tables_ok (mkWorld en pl)" "dead_ok (mkWorld en pl)"
    by (auto simp: mkWorld_def tables_ok_def dead_ok_def is_spawn_iff entries_ok_def addrs_def tag_at_def
        player_addr_def MAX_DEAD_SPAWNIDS_def Let_def)
  moreover have "wd_group (mkWorld en pl) = mkGroup" by (simp add: mkWorld_def Let_def)
  ultimately show ?thesis by (simp add: zone_ok_def group_ok_look mkGroup_ok)
qed

definition gone :: "item_map \<Rightarrow> (addr \<Rightarrow> 'a option) \<Rightarrow> addr \<Rightarrow> 'a option" where
  "gone t h a = (if a \<in> snd ` set t then None else h a)"

lemma delete_all_ok:
  "distinct (map snd t) \<Longrightarrow> \<forall>a \<in> snd ` set t. wd_heap w a \<noteq> None \<Longrightarrow>
   delete_objs t w = Inr (w\<lparr>wd_heap := gone t (wd_heap w)\<rparr>)"
proof (induction t arbitrary: w)
  case (Cons x t)
  obtain i a where x: "x = (i, a)" by (cases x)
  let ?w = "w\<lparr>wd_heap := (wd_heap w)(a := None)\<rparr>"
  have "delete_objs t ?w = Inr (?w\<lparr>wd_heap := gone t (wd_heap ?w)\<rparr>)"
    using Cons.prems x by (intro Cons.IH) (auto simp: image_iff)
  moreover have "gone t (wd_heap ?w) = gone (x # t) (wd_heap w)" using x by (auto simp: gone_def fun_eq_iff)
  ultimately show ?case using Cons.prems x by (auto simp: obj_at_def)
qed (simp add: gone_def [abs_def])

text \<open>The tables are emptied after the group has let go of its spawns.\<close>

lemma tables_live:
  assumes "zone_ok w" "a \<in> set (addrs w)" shows "wd_heap w a \<noteq> None" "a \<noteq> player_addr"
proof -
  have "tag_at w a \<noteq> None \<and> a \<noteq> player_addr"
    using assms by (fastforce simp: zone_ok_def tables_ok_def entries_ok_def addrs_def)
  then show "wd_heap w a \<noteq> None" "a \<noteq> player_addr" by (auto simp: tag_at_def)
qed

lemma zone_ok_reset:
  "zone_ok w \<Longrightarrow> zone_ok (w\<lparr>wd_cntDeadSpawnIDs := 0, wd_posDeadSpawnIDs := 0, wd_deadSpawnID := replicate MAX_DEAD_SPAWNIDS 0\<rparr>)"
  by (auto simp: zone_ok_def tables_ok_def group_ok_def dead_ok_def entries_ok_def addrs_def is_spawn_def
      ptrs_def MAX_DEAD_SPAWNIDS_def)

lemma shell_clear_effect:
  assumes "zone_ok w"
  shows "\<exists>w'. shell_clear w = Inr w' \<and> zone_ok w' \<and> addrs w' = [] \<and>
    (\<forall>a. wd_heap w' a = (if a \<in> set (addrs w) then None else wd_heap w a)) \<and>
    wd_group w' = gm_clear (wd_group w)"
proof -
  obtain w1 where w1: "shell_emit ClearItems w = Inr w1" "zframe w w1" "zone_ok w1"
    using emit_fine [OF assms, of ClearItems] unfolding fine_def by auto
  have det: "ptrs (\<lambda>_. False) (wd_group w1)"
    using w1(1) by (auto simp: shell_emit_def gm_clear_def ptrs_def)
  have d: "distinct (addrs w1)" using w1(3) by (simp add: zone_ok_def tables_ok_def)
  have live: "wd_heap w1 a \<noteq> None" "a \<noteq> player_addr" if "a \<in> set (addrs w1)" for a using tables_live [OF w1(3) that] by auto
  let ?h1 = "gone (wd_spawns w1) (wd_heap w1)"
  let ?h2 = "gone (wd_doors w1) ?h1"
  let ?h3 = "gone (wd_drops w1) ?h2"
  have 1: "delete_objs (wd_spawns w1) w1 = Inr (w1\<lparr>wd_heap := ?h1\<rparr>)"
    using d live by (intro delete_all_ok) (simp_all add: addrs_def)
  have 2: "delete_objs (wd_doors w1) (w1\<lparr>wd_heap := ?h1, wd_spawns := []\<rparr>) = Inr (w1\<lparr>wd_heap := ?h1, wd_spawns := [], wd_heap := ?h2\<rparr>)"
    using d live by (subst delete_all_ok) (auto simp: addrs_def gone_def image_iff)
  have 3: "delete_objs (wd_drops w1) (w1\<lparr>wd_spawns := [], wd_heap := ?h2, wd_doors := []\<rparr>) =
      Inr (w1\<lparr>wd_spawns := [], wd_heap := ?h2, wd_doors := [], wd_heap := ?h3\<rparr>)"
    using d live by (subst delete_all_ok) (auto simp: addrs_def gone_def image_iff)
  let ?w = "w1\<lparr>wd_spawns := [], wd_doors := [], wd_heap := ?h3, wd_drops := [], wd_players := [(0, player_addr)]\<rparr>"
  have "tag_at ?w = (\<lambda>a. if a \<in> set (addrs w1) then None else tag_at w1 a)"
    by (auto simp: tag_at_def addrs_def fun_eq_iff gone_def)
  moreover have "player_addr \<notin> set (addrs w1)" using live by blast
  ultimately have "zone_ok ?w"
    using w1(3) det by (auto simp: zone_ok_def tables_ok_def is_spawn_def entries_ok_def addrs_def group_ok_def
        dead_ok_def ptrs_def)
  then obtain v where v: "shell_emit (ChangeItem player_addr tSpawnChangedALL) ?w = Inr v" "zone_ok v"
    using change_item_fine [of ?w player_addr tSpawnChangedALL] unfolding fine_def by blast
  have same: "wd_heap v = ?h3" "addrs v = []" "wd_group v = wd_group w1"
    using v(1) by (auto simp: shell_emit_def addrs_def)
  have "shell_clear w = Inr (v\<lparr>wd_cntDeadSpawnIDs := 0, wd_posDeadSpawnIDs := 0, wd_deadSpawnID := replicate MAX_DEAD_SPAWNIDS 0\<rparr>)"
    using v(1) by (simp add: shell_clear_def w1(1) 1 2 3 Let_def)
  moreover have "wd_heap w1 = wd_heap w" "wd_group w1 = gm_clear (wd_group w)" "wd_spawns w1 = wd_spawns w"
    "wd_doors w1 = wd_doors w" "wd_drops w1 = wd_drops w"
    using w1(1) by (auto simp: shell_emit_def)
  ultimately show ?thesis
    using same zone_ok_reset [OF v(2)] by (auto simp: addrs_def gone_def)
qed

lemma shell_clear_safe: "zone_ok w \<Longrightarrow> safe (shell_clear w)"
  using shell_clear_effect [of w] by (auto simp: safe_def)

lemma emit_safe: "zone_ok w \<Longrightarrow> zone_event_ok w e \<Longrightarrow> safe (shell_emit e w)"
  by (rule fine_safe, rule emit_fine)

lemma player_zoneChanged_safe:
  assumes "zone_ok w" shows "safe (player_zoneChanged en w)"
  unfolding player_zoneChanged_def Let_def
  by (rule fine_safe [OF with_spawn_fine]) (use assms in \<open>auto intro: player_spawn\<close>)

lemma onFurtherBox_safe:
  assumes "zone_ok w" shows "safe (onFurtherBox w)"
  unfolding onFurtherBox_def
  by (rule safe_bind [OF shell_clear_safe [OF assms]]) (auto intro!: fine_safe with_spawn_fine player_spawn)

section \<open>Ground items and doors\<close>

lemma refresh_safe:
  assumes "zone_ok w" "tag_at w a \<noteq> None"
  shows "safe (rbind (updateFilterFlags en a w) (\<lambda>(c, w). rbind (touch en a w) (shell_emit (ChangeItem a b))))"
proof (rule fine2_safe_bind [OF updateFilterFlags_fine [OF assms]])
  fix c :: bool and v assume "zone_ok v" "zframe w v"
  then have "fine v (rbind (touch en a v) (shell_emit (ChangeItem a b)))"
    using assms(2) by (intro touch_emit_fine) (simp_all add: frame_tag)
  then show "safe (case (c, v) of (c, w) \<Rightarrow> rbind (touch en a w) (shell_emit (ChangeItem a b)))"
    by (simp add: fine_safe)
qed

lemma newGroundItem_safe:
  assumes "zone_ok w" shows "safe (newGroundItem en out dir w)"
proof -
  have "safe (newGroundItem en (Some ds) dir w)" if srv: "\<not> wd_zoning w" "dir = DIR_Server" for ds
  proof (cases "map_of (wd_drops w) (sint (md_dropId ds))")
    case (Some a)
    then obtain d where d: "a \<noteq> player_addr" "wd_heap w a = Some (ODrop d)" "it_id d = word_of_int (sint (md_dropId ds))"
      using table_drop [OF assms] by blast
    have "it_id (drop_update ck fo de md n d) = it_id d" for ck fo de md n by (simp add: drop_update_def Let_def)
    then have p: "zone_ok (put a (ODrop (drop_update ck fo de md n d)) w)"
      "tag_at (put a (ODrop (drop_update ck fo de md n d)) w) a \<noteq> None" for ck fo de md n
      using d put_fine [OF assms] by (simp_all add: tag_at_def tag_of_def put_def)
    show ?thesis
      using srv d(2) Some unfolding newGroundItem_def
      by (simp add: Let_def obj_at_def refresh_safe [OF p])
  next
    case None
    let ?d = "ODrop (mkDrop (en_clock en) (en_float en) (en_drop en) (ds\<lparr>md_idFile := copyStr 30 (md_idFile ds)\<rparr>) '''')"
    obtain a w' where n: "new_obj ?d w = (a, w')" by fastforce
    note m = new_obj_ok [OF assms n]
    have "safe (rbind (updateFilterFlags en a w') (\<lambda>(c, w). shell_emit (AddItem a) (w\<lparr>wd_drops := AList.update (sint (md_dropId ds)) a (wd_drops w)\<rparr>)))"
    proof (rule fine2_safe_bind [OF updateFilterFlags_fine [OF m(1)]], goal_cases)
      case (2 c v)
      then have t: "tag_at v a = Some (KDrop, word_of_int (sint (md_dropId ds)))" "a \<notin> set (addrs v)"
        using m(3,4) by (simp add: frame_tag, simp add: addrs_def zframe_def)
      show ?case unfolding prod.case
        by (rule fine_safe, rule emit_fine, rule insert_drop [OF 2(1) m(2) t]) (simp add: t)
    qed (simp add: m(3))
    then show ?thesis using srv None n unfolding newGroundItem_def by (simp add: Let_def)
  qed
  then show ?thesis
    by (cases out) (auto simp: newGroundItem_def assms)
qed

lemma removeGroundItem_safe: "zone_ok w \<Longrightarrow> safe (removeGroundItem out dir w)"
  by (simp add: removeGroundItem_def deleteItem_safe split: option.split)

lemma newDoorSpawn_safe:
  assumes "zone_ok w" shows "safe (newDoorSpawn en ds w)"
proof (cases "map_of (wd_doors w) (uint (ds_doorId ds))")
  case (Some a)
  then obtain d where d: "a \<noteq> player_addr" "wd_heap w a = Some (ODoor d)" "it_id d = word_of_int (uint (ds_doorId ds))"
    using table_door [OF assms] by blast
  have "it_id (door_update ck fo ds d) = it_id d" for ck fo by (simp add: door_update_def Let_def)
  then have p: "zone_ok (put a (ODoor (door_update ck fo ds d)) w)"
    "tag_at (put a (ODoor (door_update ck fo ds d)) w) a \<noteq> None" for ck fo
    using d put_fine [OF assms] by (simp_all add: tag_at_def tag_of_def put_def)
  show ?thesis
    using d(2) Some unfolding newDoorSpawn_def by (simp add: Let_def obj_at_def refresh_safe [OF p])
next
  case None
  obtain a w' where n: "new_obj (ODoor (mkDoor (en_clock en) (en_float en) ds)) w = (a, w')" by fastforce
  note m = new_obj_ok [OF assms n]
  have "safe (rbind (updateFilterFlags en a w') (\<lambda>(c, w). shell_emit (AddItem a) (w\<lparr>wd_doors := AList.update (uint (ds_doorId ds)) a (wd_doors w)\<rparr>)))"
  proof (rule fine2_safe_bind [OF updateFilterFlags_fine [OF m(1)]], goal_cases)
    case (2 c v)
    then have t: "tag_at v a = Some (KDoor, word_of_int (uint (ds_doorId ds)))" "a \<notin> set (addrs v)"
      using m(3,4) by (simp add: frame_tag, simp add: addrs_def zframe_def)
    show ?case unfolding prod.case
      by (rule fine_safe, rule emit_fine, rule insert_door [OF 2(1) m(2) t]) (simp add: t)
  qed (simp add: m(3))
  then show ?thesis using None n unfolding newDoorSpawn_def by (simp add: Let_def)
qed

lemma newDoorSpawns_safe: "zone_ok w \<Longrightarrow> safe (newDoorSpawns en rows w)"
  by (induction en rows w rule: newDoorSpawns.induct) (auto intro: safe_bind newDoorSpawn_safe)

section \<open>Spawns that appear\<close>

lemma newSpawn_safe:
  assumes "zone_ok w" shows "safe (newSpawn en ss w)"
proof -
  let ?w = "forget_dead (ss_spawnId ss) w" and ?k = "sint (ss_spawnId ss)"
  have w: "zone_ok ?w" using forget_dead_fine [OF assms] by blast
  have "safe (case map_of (wd_spawns ?w) ?k of
           Some a \<Rightarrow>
             rbind (with_spawn a (spawn_update (en_clock en) ss) ?w) (\<lambda>w.
             rbind (refilter en a w) (\<lambda>w.
             rbind (touch en a w) (\<lambda>w.
             rbind (with_spawn a (guild_tag en) w) (\<lambda>w.
             shell_emit (ChangeItem a tSpawnChangedALL) w))))
         | None \<Rightarrow>
             let (a, w) = new_obj (OSpawn (spawn_of_struct (en_clock en) (en_blank en) ss)) ?w
             in rbind (refilter en a w) (\<lambda>w.
                let w = w\<lparr>wd_spawns := AList.update ?k a (wd_spawns w)\<rparr>
                in rbind (with_spawn a (guild_tag en) w) (\<lambda>w.
                   rbind (shell_emit (AddItem a) w) (\<lambda>w. shell_emit (NumSpawns (length (wd_spawns w))) w))))"
  proof (cases "map_of (wd_spawns ?w) ?k")
    case (Some a)
    note a = table_spawn [OF w Some]
    show ?thesis unfolding Some option.case
      by (rule fine_safe, rule fine_bind [OF with_spawn_fine [OF w a(1)]], simp,
          rule fine_bind [OF refilter_fine], assumption, use a in \<open>simp add: frame_tag\<close>,
          rule fine_bind [OF touch_fine], assumption, use a in \<open>simp add: frame_tag\<close>,
          rule fine_bind [OF with_spawn_fine], assumption, use a in \<open>simp add: frame_is_spawn\<close>, simp, rule change_item_fine)
  next
    case None
    obtain a w' where n: "new_obj (OSpawn (spawn_of_struct (en_clock en) (en_blank en) ss)) ?w = (a, w')" by fastforce
    show ?thesis unfolding None option.case n Let_def prod.case
    proof (rule enter_spawn [OF w n])
      fix v assume v: "zone_ok v" "is_spawn v a" "a \<noteq> player_addr"
      show "safe (rbind (with_spawn a (guild_tag en) v)
        (\<lambda>w. rbind (shell_emit (AddItem a) w) (\<lambda>w. shell_emit (NumSpawns (length (wd_spawns w))) w)))"
        by (rule fine_safe_bind [OF with_spawn_fine [OF v(1,2)]], simp, rule announce_spawn, assumption)
          (use v in \<open>simp add: frame_tag is_spawn_tag\<close>)
    qed simp
  qed
  then show ?thesis by (simp add: newSpawn_def Let_def assms)
qed

lemma newSpawn_packet_safe: "zone_ok w \<Longrightarrow> safe (newSpawn_packet en ss w)"
  by (simp add: newSpawn_packet_def newSpawn_safe)

lemma zoneSpawns_safe: "zone_ok w \<Longrightarrow> safe (zoneSpawns en sss w)"
  by (induction en sss w rule: zoneSpawns.induct) (auto intro: safe_bind newSpawn_safe)

text \<open>The player itself.\<close>

lemma player_step_fine: "zone_ok w \<Longrightarrow> fine w (with_spawn player_addr f w)"
  by (rule with_spawn_fine) (simp_all add: player_spawn)

lemma playerChangedID_safe:
  assumes "zone_ok w" shows "safe (playerChangedID old new w)"
proof -
  have "safe (case map_of (wd_spawns w) (uint new) of
              None \<Rightarrow> Inr w
            | Some a \<Rightarrow> rbind (spawn_name a w) (\<lambda>n.
                if n \<noteq> '''' then rbind (with_spawn player_addr (\<lambda>s. s\<lparr>it_name := n\<rparr>) w) (shell_emit (PlayerNameResolved n))
                else Inr w))"
  proof (cases "map_of (wd_spawns w) (uint new)")
    case (Some a)
    obtain n where n: "spawn_name a w = Inr n" using spawn_name_ok [OF table_spawn(1) [OF assms Some]] by blast
    have "fine w (rbind (with_spawn player_addr (\<lambda>s. s\<lparr>it_name := n\<rparr>) w) (shell_emit (PlayerNameResolved n)))"
      by (rule fine_bind [OF player_step_fine [OF assms]]) (simp add: emit_fine)
    then show ?thesis using n Some assms by (simp add: fine_safe)
  qed (simp add: assms)
  then show ?thesis
    unfolding playerChangedID_def
    by (rule safe_bind)
      (auto intro!: safe_bind [OF deleteItem_safe] fine_safe [OF change_item_fine] insert_player)
qed

lemma setPlayerID_safe:
  assumes "zone_ok w" shows "safe (setPlayerID en i w)"
proof -
  obtain old where old: "player_id w = Inr old" using player_id_ok [OF assms] by blast
  have "safe (rbind (with_spawn player_addr (\<lambda>s. s\<lparr>it_id := i\<rparr>) w) (\<lambda>w.
            rbind (playerChangedID old i w) (\<lambda>w.
            rbind (touch en player_addr w) (shell_emit (ChangeItem player_addr tSpawnChangedALL)))))"
    by (rule fine_safe_bind [OF player_step_fine [OF assms]], rule safe_bind, erule playerChangedID_safe)
      (auto intro!: fine_safe touch_emit_fine is_spawn_tag player_spawn)
  then show ?thesis using old assms by (simp add: setPlayerID_def)
qed

lemma zoneEntry_safe:
  assumes "zone_ok w" shows "safe (zoneEntry en out w)"
proof (cases out)
  case (Some r)
  let ?ss = "applySpawn r"
  have self: "safe (rbind (setPlayerID en (ucast (ss_spawnId ?ss)) w) (\<lambda>w.
               rbind (with_spawn player_addr (player_update (en_clock en) (wd_player w) ?ss) w)
               (shell_emit (ChangeItem player_addr tSpawnChangedALL))))"
    by (rule safe_bind [OF setPlayerID_safe [OF assms]], rule fine_safe, rule fine_bind [OF player_step_fine])
      (simp_all add: change_item_fine)
  have known: "safe (with_spawn a (spawn_update (en_clock en) ?ss) w)" if "map_of (wd_spawns w) k = Some a" for a k
    by (rule fine_safe, rule with_spawn_fine) (simp_all add: assms table_spawn [OF assms that])
  show ?thesis
    using self known newSpawn_safe [OF assms] Some
    by (auto simp: zoneEntry_def Let_def split: option.split)
qed (simp add: zoneEntry_def assms)

section \<open>Backends that decode fields, and movement\<close>

lemma alter_fine:
  assumes "zone_ok w" "is_spawn w a" "\<And>s. a \<noteq> player_addr \<Longrightarrow> it_id (g s) = it_id s"
  shows "fine w (rbind (with_spawn a g w) (\<lambda>w. rbind (touch en a w) (shell_emit (ChangeItem a b))))"
proof (rule fine_bind [OF with_spawn_fine])
  fix v assume v: "zone_ok v" "zframe w v"
  have "tag_at v a \<noteq> None" using v assms(2) by (simp add: frame_tag is_spawn_tag)
  with v(1) show "fine v (rbind (touch en a v) (shell_emit (ChangeItem a b)))" by (rule touch_emit_fine)
qed (use assms in simp_all)

lemma enter_announce:
  assumes "zone_ok w" "new_obj (OSpawn s) w = (a, w')" "it_id s = word_of_int k"
  shows "safe (rbind (refilter en a w') (\<lambda>w.
               rbind (shell_emit (AddItem a) (w\<lparr>wd_spawns := AList.update k a (wd_spawns w)\<rparr>)) (\<lambda>w.
               shell_emit (NumSpawns (length (wd_spawns w))) w)))"
  by (rule enter_spawn [OF assms]) (auto intro!: announce_spawn is_spawn_tag)

lemma upsertSpawn_safe:
  assumes "zone_ok w" shows "safe (upsertSpawn en f w)"
proof -
  obtain i where i: "player_id w = Inr i" using player_id_ok [OF assms] by blast
  show ?thesis
  proof (cases "sf_id f = i")
    case False
    show ?thesis
    proof (cases "map_of (wd_spawns w) (uint (sf_id f))")
      case None
      let ?s = "applyIdentity en f ((spawn_unknown (en_clock en) (en_blank en) (sf_id f) (sf_pos f) (0, 0, 0) 0 0 0)\<lparr>it_name := sf_name f\<rparr>)"
      obtain a w' where n: "new_obj (OSpawn ?s) w = (a, w')" by fastforce
      show ?thesis using i False None n enter_announce [OF assms n, of "uint (sf_id f)"] by (simp add: upsertSpawn_def Let_def)
    next
      case (Some a)
      have "fine w (rbind (with_spawn a (\<lambda>s. applyIdentity en f (set_pos (sf_pos f) s)) w) (\<lambda>w.
            rbind (touch en a w) (shell_emit (ChangeItem a tSpawnChangedALL))))"
        by (rule alter_fine) (simp_all add: assms table_spawn [OF assms Some])
      then show ?thesis using i False Some by (simp add: upsertSpawn_def Let_def fine_safe)
    qed
  qed (use i assms in \<open>simp add: upsertSpawn_def\<close>)
qed

lemma change_spawn_safe: "zone_ok w \<Longrightarrow> (\<And>s. it_id (f s) = it_id s) \<Longrightarrow> safe (change_spawn en k f b w)"
  by (rule fine_safe, rule change_spawn_fine)

lemma moveSpawn_safe: "zone_ok w \<Longrightarrow> safe (moveSpawn en i p w)"
  using player_id_ok [of w] by (auto simp: moveSpawn_def change_spawn_safe)

lemma updateSpawnHP_safe: "zone_ok w \<Longrightarrow> safe (updateSpawnHP en i c m w)"
  by (simp add: updateSpawnHP_def change_spawn_safe)

lemma updateSpawnIdentity_safe: "zone_ok w \<Longrightarrow> safe (updateSpawnIdentity en i l c w)"
  by (simp add: updateSpawnIdentity_def change_spawn_safe)

lemma spawn_at_safe:
  assumes "is_spawn w a" "\<And>s. safe (k s)" shows "safe (rbind (spawn_at a w) k)"
  using is_spawn_at [OF assms(1)] assms(2) by auto

lemma player_id_safe:
  assumes "zone_ok w" "\<And>i. safe (k i)" shows "safe (rbind (player_id w) k)"
  using player_id_ok [OF assms(1)] assms(2) by auto

lemma updateSpawnAnimation_safe: "zone_ok w \<Longrightarrow> safe (updateSpawnAnimation en i an w)"
  by (auto simp: updateSpawnAnimation_def intro!: change_spawn_safe spawn_at_safe dest: table_spawn split: option.split)

lemma upd_first_length: "upd_first p f xs = Some (y, ys) \<Longrightarrow> length ys = length xs"
  using upd_first_Some [of p f xs y ys] by auto

lemma keeps_id_move [simp]: "it_id (setPos x y z b n s) = it_id s"
  by (simp add: setPos_def Let_def)

lemma updateSpawn_safe:
  assumes "zone_ok w" shows "safe (updateSpawn en i pos vel turn w)"
proof -
  obtain x y z vx vy vz h dh an where args: "pos = (x, y, z)" "vel = (vx, vy, vz)" "turn = (h, dh, an)"
    by (cases pos, cases vel, cases turn)
  obtain pid where pid: "player_id w = Inr pid" using player_id_ok [OF assms] by blast
  let ?find = "if i = pid then Some player_addr else map_of (wd_spawns w) (uint i)"
  show ?thesis
  proof (cases ?find)
    case (Some a)
    have "is_spawn w a" using Some player_spawn [OF assms] table_spawn(1) [OF assms] by (auto split: if_splits)
    note alter = alter_fine [OF assms this]
    show ?thesis
      using Some unfolding updateSpawn_def args pid by (simp add: Let_def) (rule fine_safe, rule alter, simp)
  next
    case None
    let ?ids = "take (unat (wd_cntDeadSpawnIDs w)) (wd_deadSpawnID w)"
    show ?thesis
    proof (cases "upd_first (\<lambda>d. d \<noteq> 0 \<and> d = i) (\<lambda>d. 0) ?ids")
      case None
      let ?s = "spawn_unknown (en_clock en) (en_blank en) i pos vel h dh an"
      obtain a w' where n: "new_obj (OSpawn ?s) w = (a, w')" by fastforce
      show ?thesis using \<open>?find = None\<close> None n enter_announce [OF assms n, of "uint i"] assms
        unfolding updateSpawn_def pid by (simp add: Let_def args)
    next
      case (Some r)
      obtain d ids' where r: "r = (d, ids')" by (cases r)
      have "length ids' = length ?ids" using Some r by (auto dest: upd_first_length)
      then have "zone_ok (w\<lparr>wd_deadSpawnID := ids' @ drop (unat (wd_cntDeadSpawnIDs w)) (wd_deadSpawnID w)\<rparr>)"
        using assms by (intro zone_ok_frame [OF assms]) (auto simp: zframe_def zone_ok_def dead_ok_def)
      then show ?thesis using \<open>?find = None\<close> Some r assms
        unfolding updateSpawn_def pid by (simp add: Let_def args)
    qed
  qed
qed

lemmas movement = updateSpawn_safe player_id_safe safe_refl

lemma playerUpdate2_safe: "zone_ok w \<Longrightarrow> safe (playerUpdate2 en len out w)"
  by (auto simp: playerUpdate2_def Let_def intro!: movement split: option.split)

lemma playerUpdate_safe: "zone_ok w \<Longrightarrow> safe (playerUpdate en len dir out w)"
  by (auto simp: playerUpdate_def intro!: movement split: option.split)

lemma npcMoveUpdate_safe: "zone_ok w \<Longrightarrow> safe (npcMoveUpdate en len out w)"
  by (auto simp: npcMoveUpdate_def intro!: movement split: option.split)

lemma updateSpawns_safe: "zone_ok w \<Longrightarrow> safe (updateSpawns en out w)"
  by (auto simp: updateSpawns_def intro!: movement split: option.split)

section \<open>Changes of spawns\<close>

lemmas changes = change_spawn_safe spawn_at_safe safe_refl

lemma updateSpawnInfo_safe: "zone_ok w \<Longrightarrow> safe (updateSpawnInfo en out w)"
  by (auto simp: updateSpawnInfo_def intro!: changes split: option.split)

lemma updateSpawnLock_safe: "zone_ok w \<Longrightarrow> safe (updateSpawnLock en i ty v w)"
  by (auto simp: updateSpawnLock_def intro!: changes dest: table_spawn split: option.split)

lemma illusionSpawn_safe: "zone_ok w \<Longrightarrow> safe (illusionSpawn en out w)"
  by (auto simp: illusionSpawn_def intro!: changes split: option.split)

lemma updateSpawnAppearance_safe: "zone_ok w \<Longrightarrow> safe (updateSpawnAppearance en out w)"
  by (auto simp: updateSpawnAppearance_def intro!: changes split: option.split)

lemma updateNpcHP_safe: "zone_ok w \<Longrightarrow> safe (updateNpcHP en out w)"
  by (auto simp: updateNpcHP_def intro!: changes split: option.split)

lemma updateMobHealth_safe: "zone_ok w \<Longrightarrow> safe (updateMobHealth en out w)"
  by (auto simp: updateMobHealth_def intro!: changes split: option.split)

lemma clientTarget_safe: "zone_ok w \<Longrightarrow> safe (clientTarget out w)"
  by (auto simp: clientTarget_def intro!: fine_safe emit_fine split: option.split)

lemma refilter_announce_safe:
  assumes "zone_ok w" "tag_at w a \<noteq> None"
  shows "safe (rbind (refilter_bits en a bits w) (\<lambda>(bits, w). rbind (touch en a w) (shell_emit (ChangeItem a bits))))"
proof (rule fine2_safe_bind [OF refilter_bits_fine [OF assms]], unfold prod.case)
  fix v b assume v: "zone_ok v" "zframe w v"
  then have "tag_at v a \<noteq> None" using assms(2) by (simp add: frame_tag)
  then show "safe (rbind (touch en a v) (shell_emit (ChangeItem a b)))" by (rule fine_safe [OF touch_emit_fine [OF v(1)]])
qed

lemma renameSpawn_safe:
  assumes "zone_ok w" "env_ok en" shows "safe (renameSpawn en out w)"
proof (cases out)
  case (Some r)
  obtain old new where r: "r = (old, new)" by (cases r)
  obtain sp where sp: "findSpawnByName en old w = Inr sp" "\<forall>a. sp = Some a \<longrightarrow> is_spawn w a"
    using findSpawnByName_ok [OF assms] by blast
  show ?thesis
  proof (cases sp)
    case (Some a)
    have "safe (rbind (with_spawn a (\<lambda>s. s\<lparr>it_name := new\<rparr>) w) (\<lambda>w.
              rbind (refilter_bits en a tSpawnChangedName w) (\<lambda>(bits, w).
              rbind (touch en a w) (shell_emit (ChangeItem a bits)))))"
      by (rule fine_safe_bind [OF with_spawn_fine [OF assms(1)]])
        (use sp Some is_spawn_tag [of w a] in \<open>auto intro!: refilter_announce_safe simp: frame_tag\<close>)
    then show ?thesis using sp Some r \<open>out = Some r\<close> by (simp add: renameSpawn_def)
  qed (use sp r Some assms in \<open>simp add: renameSpawn_def\<close>)
qed (simp add: renameSpawn_def assms)

lemma spawnWearingUpdate_safe: "zone_ok w \<Longrightarrow> safe (spawnWearingUpdate en i w)"
  by (auto simp: spawnWearingUpdate_def intro!: refilter_announce_safe dest: table_spawn(4) split: option.split)

lemma consMessage_safe: 
  assumes "zone_ok w" shows "safe (consMessage out w)"
proof -
  have "safe (rbind (with_spawn a (\<lambda>s. s\<lparr>sp_considered := True\<rparr>) w) (shell_emit (SpawnConsidered a)))"
    if "map_of (wd_spawns w) k = Some a" for a k
    using table_spawn [OF assms that] by (auto intro!: fine_safe_bind [OF with_spawn_fine [OF assms]] emit_safe)
  then show ?thesis by (auto simp: consMessage_def assms split: option.split)
qed

lemma frame_player_info [simp]: "zframe (w\<lparr>wd_player := p\<rparr>) v = zframe w v"
  by (simp add: zframe_def tag_at_def fun_eq_iff)

lemma loadProfile_fine:
  assumes "zone_ok w" shows "fine w (loadProfile pp w)"
proof -
  have "fine (w\<lparr>wd_player := p\<rparr>) (with_spawn player_addr f (w\<lparr>wd_player := p\<rparr>))" for p f
    using assms by (intro player_step_fine) simp
  then show ?thesis by (simp add: loadProfile_def fine_def Let_def)
qed

section \<open>Spawns that go\<close>

lemma removeSpawn_safe:
  assumes "zone_ok w" shows "safe (removeSpawn en len dir out w)"
proof -
  have "safe (if remove = 0
            then (if en_useUpdateRadius en then deleteItem TSpawn k v
                  else case map_of (wd_spawns v) k of
                         None \<Rightarrow> Inr v
                       | Some a \<Rightarrow> with_spawn a (\<lambda>s. s\<lparr>sp_notUpdated := True\<rparr>) v)
            else Inr v)" if "zone_ok v" for v k and remove :: u8
    using that table_spawn(1) [OF that]
    by (auto intro!: deleteItem_safe fine_safe [OF with_spawn_fine] split: option.split)
  then show ?thesis
    by (auto simp: removeSpawn_def assms intro!: safe_bind deleteItem_safe split: option.split)
qed

lemma deleteSpawn_safe:
  assumes "zone_ok w" shows "safe (deleteSpawn out w)"
proof (cases out)
  case (Some i)
  let ?pos = "if unat (wd_posDeadSpawnIDs w) < MAX_DEAD_SPAWNIDS - 1 then wd_posDeadSpawnIDs w + 1 else 0"
  let ?cnt = "if unat (wd_cntDeadSpawnIDs w) < MAX_DEAD_SPAWNIDS then wd_cntDeadSpawnIDs w + 1 else wd_cntDeadSpawnIDs w"
  let ?w = "w\<lparr>wd_posDeadSpawnIDs := ?pos, wd_cntDeadSpawnIDs := ?cnt, wd_deadSpawnID := (wd_deadSpawnID w)[unat ?pos := ucast i]\<rparr>"
  have d: "dead_ok w" using assms by (simp add: zone_ok_def)
  have inc: "unat (x + 1) = unat x + 1" if "unat x < 50" for x :: u8
    using that by (simp add: unat_word_ariths)
  have bounds: "unat ?pos < MAX_DEAD_SPAWNIDS" "unat ?cnt \<le> MAX_DEAD_SPAWNIDS"
    using d by (auto simp: dead_ok_def MAX_DEAD_SPAWNIDS_def inc)
  then have "zone_ok ?w"
    using d by (intro zone_ok_frame [OF assms]) (auto simp: zframe_def dead_ok_def)
  moreover have "unat ?pos < length (wd_deadSpawnID w)" using bounds(1) d by (simp add: dead_ok_def)
  ultimately show ?thesis using Some unfolding deleteSpawn_def by (simp add: Let_def deleteItem_safe)
qed (simp add: deleteSpawn_def assms)

lemma killSpawn_safe:
  assumes "zone_ok w" shows "safe (killSpawn en out w)"
proof -
  have kill: "safe (rbind (with_spawn a spawn_kill v) (\<lambda>w.
                 rbind (refilter en a w) (\<lambda>w.
                 rbind (with_spawn a (\<lambda>s. s\<lparr>it_name := it_name s @ Spawn_Corpse_Designator\<rparr>) w) (\<lambda>w.
                 shell_emit (KillSpawn a (map_of (wd_spawns w) k) i) w))))"
    if v: "zone_ok v" "is_spawn v a" for v a k i
  proof (rule fine_safe, rule fine_bind [OF with_spawn_fine [OF v]], simp)
    fix v1 assume 1: "zone_ok v1" "zframe v v1"
    have "is_spawn v1 a" using 1 v by (simp add: frame_is_spawn)
    then show "fine v1 (rbind (refilter en a v1) (\<lambda>w.
                 rbind (with_spawn a (\<lambda>s. s\<lparr>it_name := it_name s @ Spawn_Corpse_Designator\<rparr>) w) (\<lambda>w.
                 shell_emit (KillSpawn a (map_of (wd_spawns w) k) i) w)))"
      by (intro fine_bind [OF refilter_fine [OF 1(1)]] fine_bind [OF with_spawn_fine] emit_fine)
        (simp_all add: frame_is_spawn frame_tag is_spawn_tag del: zone_event_ok.simps, simp add: frame_tag is_spawn_tag [simplified])
  qed
  have "safe (rbind (spawn_at a w) (\<lambda>s.
              let w = (if c
                       then w\<lparr>wd_player := (wd_player w)\<lparr>pl_lastSpawnKilledName := it_name (seen w a s),
                                pl_lastSpawnKilledLevel := sp_level (seen w a s), pl_freshKill := True\<rparr>\<rparr>
                       else w)
              in rbind (with_spawn a spawn_kill w) (\<lambda>w.
                 rbind (refilter en a w) (\<lambda>w.
                 rbind (with_spawn a (\<lambda>s. s\<lparr>it_name := it_name s @ Spawn_Corpse_Designator\<rparr>) w) (\<lambda>w.
                 shell_emit (KillSpawn a (map_of (wd_spawns w) k) i) w)))))"
    if "is_spawn w a" for a k i and c :: bool
    using that assms by (intro spawn_at_safe) (auto simp: Let_def is_spawn_def intro!: kill)
  then show ?thesis
    using player_spawn [OF assms] table_spawn(1) [OF assms] assms
    by (auto simp: killSpawn_def intro!: player_id_safe split: option.split)
qed

lemma respawnFromHover_safe:
  assumes "zone_ok w" shows "safe (respawnFromHover en dir w)"
proof -
  obtain i where i: "player_id w = Inr i" using player_id_ok [OF assms] by blast
  let ?rest = "\<lambda>p w. let (a, w) = new_obj (OSpawn (spawn_copy (en_clock en) (en_blank en) (seen w player_addr p) i)) w
           in rbind (refilter en a w) (\<lambda>w.
              rbind (with_spawn a (guild_tag en) (w\<lparr>wd_spawns := AList.update (uint i) a (wd_spawns w)\<rparr>)) (\<lambda>w.
              rbind (shell_emit (AddItem a) w) (\<lambda>w. shell_emit (NumSpawns (length (wd_spawns w))) w)))"
  have enter: "safe (?rest p v)" if "zone_ok v" for p v
  proof -
    let ?s = "spawn_copy (en_clock en) (en_blank en) (seen v player_addr p) i"
    obtain a v' where n: "new_obj (OSpawn ?s) v = (a, v')" by fastforce
    have "safe (rbind (refilter en a v') (\<lambda>w.
              rbind (with_spawn a (guild_tag en) (w\<lparr>wd_spawns := AList.update (uint i) a (wd_spawns w)\<rparr>)) (\<lambda>w.
              rbind (shell_emit (AddItem a) w) (\<lambda>w. shell_emit (NumSpawns (length (wd_spawns w))) w))))"
    proof (rule enter_spawn [OF that n])
      fix u assume u: "zone_ok u" "is_spawn u a"
      show "safe (rbind (with_spawn a (guild_tag en) u) (\<lambda>w.
              rbind (shell_emit (AddItem a) w) (\<lambda>w. shell_emit (NumSpawns (length (wd_spawns w))) w)))"
        by (rule fine_safe_bind [OF with_spawn_fine [OF u]], simp, rule announce_spawn, assumption)
          (use u in \<open>simp add: frame_tag is_spawn_tag\<close>)
    qed simp
    then show ?thesis by (simp add: n)
  qed
  have "safe (rbind (with_spawn player_addr (\<lambda>s. s\<lparr>it_id := 0\<rparr>) w) (\<lambda>w. rbind (spawn_at player_addr w) (\<lambda>p. ?rest p w)))"
    by (rule fine_safe_bind [OF player_step_fine [OF assms]]) (intro spawn_at_safe player_spawn enter)
  then show ?thesis using i assms by (simp add: respawnFromHover_def)
qed

lemma corpseLoc_safe:
  assumes "zone_ok w" shows "safe (corpseLoc en out w)"
proof -
  have "safe (rbind (with_spawn a f w) (shell_emit (KillSpawn a None 0)))"
    if "map_of (wd_spawns w) k = Some a" "\<And>s. it_id (f s) = it_id s" for a k f
    by (rule fine_safe_bind [OF with_spawn_fine [OF assms table_spawn(1) [OF assms that(1)]]])
      (use that table_spawn [OF assms that(1)] in \<open>auto intro!: emit_safe simp: frame_tag\<close>)
  then show ?thesis by (auto simp: corpseLoc_def assms Let_def split: option.split)
qed

section \<open>Filters and guilds\<close>

lemma refilter_all_fine:
  assumes upd: "\<And>a v. zone_ok v \<Longrightarrow> tag_at v a \<noteq> None \<Longrightarrow> fine2 v (upd en a v)"
  shows "zone_ok w \<Longrightarrow> \<forall>(i, a) \<in> set t. tag_at w a \<noteq> None \<Longrightarrow> fine2 w (refilter_all en upd t changed w)"
proof (induction t arbitrary: w changed)
  case (Cons x t)
  obtain i a where x: "x = (i, a)" by (cases x)
  have a: "tag_at w a \<noteq> None" using Cons.prems x by auto
  obtain c v where v: "upd en a w = Inr (c, v)" "zframe w v" "zone_ok v"
    using upd [OF Cons.prems(1) a] unfolding fine2_def by blast
  have next_ok: "\<exists>c' u'. refilter_all en upd t ch u = Inr (c', u') \<and> zframe w u' \<and> zone_ok u'"
    if "zframe w u" "zone_ok u" for u ch
    using Cons.IH [OF that(2), of ch] Cons.prems(2) frame_trans [OF that(1)] unfolding fine2_def by (auto simp: frame_tag [OF that(1)])
  obtain u where u: "touch en a v = Inr u" "zframe v u" "zone_ok u"
    using touch_fine [OF v(3), of a en] a frame_tag [OF v(2)] unfolding fine_def by auto
  show ?case
    using v u next_ok [OF frame_trans [OF v(2) u(2)] u(3)] next_ok [OF v(2,3)]
    by (auto simp: x fine2_def)
qed (simp add: fine2_def)

lemma emit_all_safe: "zone_ok w \<Longrightarrow> safe (emit_all bits as w)"
  by (induction as arbitrary: w) (auto intro!: safe_bind emit_safe)

lemma table_live: "zone_ok w \<Longrightarrow> (i, a) \<in> set (getMap ty w) \<Longrightarrow> tag_at w a \<noteq> None"
  using is_spawn_tag [OF player_spawn [of w]]
  by (cases ty) (fastforce simp: zone_ok_def tables_ok_def entries_ok_def)+

lemma refilterMap_safe:
  assumes "zone_ok w" "env_ok en" "\<And>a v. zone_ok v \<Longrightarrow> tag_at v a \<noteq> None \<Longrightarrow> fine2 v (upd en a v)"
  shows "safe (refilterMap en upd bits ty w)"
  unfolding refilterMap_def
proof (rule fine2_safe_bind [OF refilter_all_fine [where upd = upd, OF assms(3) assms(1)]])
  show "\<forall>(i, a) \<in> set (en_order en (getMap ty w)). tag_at w a \<noteq> None"
    using table_live [OF assms(1)] env_ok_set [OF assms(2)] by auto
qed (auto intro: emit_all_safe)

lemma refilterSpawns_safe:
  "zone_ok w \<Longrightarrow> env_ok en \<Longrightarrow> safe (refilterSpawns en w)"
  "zone_ok w \<Longrightarrow> env_ok en \<Longrightarrow> safe (refilterSpawnsRuntime en w)"
  unfolding refilterSpawns_def refilterSpawnsRuntime_def
  by (auto intro!: safe_bind refilterMap_safe updateFilterFlags_fine updateRuntimeFilterFlags_fine)

lemma tag_all_fine:
  "zone_ok w \<Longrightarrow> \<forall>(i, a) \<in> set t. is_spawn w a \<Longrightarrow> fine w (tag_all en g t w)"
proof (induction t arbitrary: w)
  case (Cons x t)
  obtain i a where x: "x = (i, a)" by (cases x)
  then have a: "is_spawn w a" using Cons.prems by auto
  obtain s where s: "spawn_at a w = Inr s" using is_spawn_at [OF a] by blast
  have IH: "fine u (tag_all en g t u)" if "zone_ok u" "zframe w u" for u
    using Cons.prems by (intro Cons.IH that(1)) (auto simp: frame_is_spawn [OF that(2)])
  have "fine w (rbind (with_spawn a (guild_tag en) w) (\<lambda>w.
            rbind (touch en a w) (\<lambda>w.
            rbind (shell_emit (ChangeItem a tSpawnChangedALL) w) (tag_all en g t))))"
    by (rule fine_bind [OF with_spawn_fine [OF Cons.prems(1) a]], simp, rule fine_bind [OF touch_fine], assumption,
        use a in \<open>simp add: frame_tag is_spawn_tag\<close>, rule fine_bind [OF change_item_fine], assumption)
      (blast intro: IH frame_trans)
  then show ?case using s IH [OF Cons.prems(1)] by (cases "g = ucast (sp_guildID s)") (simp_all add: x)
qed simp

lemma updateGuildTag_safe:
  assumes "zone_ok w" "env_ok en" shows "safe (updateGuildTag en g w)"
  unfolding updateGuildTag_def
proof (rule fine_safe_bind [OF tag_all_fine [OF assms(1)]])
  show "\<forall>(i, a) \<in> set (en_order en (wd_spawns w)). is_spawn w a"
    using spawns_are_spawns [OF assms(1)] env_ok_set [OF assms(2)] by auto
next
  fix v assume v: "zone_ok v"
  have "\<forall>(i, a) \<in> set (en_order en (wd_players v)). is_spawn v a"
    using v by (auto simp: zone_ok_def tables_ok_def env_ok_set [OF assms(2)])
  with v show "safe (tag_all en g (en_order en (wd_players v)) v)" by (rule fine_safe [OF tag_all_fine])
qed

section \<open>The group\<close>

lemma look_eq: "zone_ok w \<Longrightarrow> env_ok en \<Longrightarrow> findPlayerByDisplayName en w = look en w"
  by (simp add: look_def)

lemma set_order: "env_ok en \<Longrightarrow> distinct xs \<Longrightarrow> distinct (en_set_order en xs) \<and> set (en_set_order en xs) = set xs"
  unfolding env_ok_def by (metis mset_eq_imp_distinct_iff mset_eq_setD)

lemma with_group_safe:
  assumes "zone_ok w" "\<And>self. \<exists>g. k self = Inr g \<and> group_look.ok w g"
  shows "safe (rbind (spawn_name player_addr w) (\<lambda>self. rbind (k self) (\<lambda>g. Inr (w\<lparr>wd_group := g\<rparr>))))"
proof -
  obtain n where n: "spawn_name player_addr w = Inr n" using spawn_name_ok [OF player_spawn [OF assms(1)]] by blast
  obtain g where g: "k n = Inr g" "group_look.ok w g" using assms(2) by blast
  show ?thesis using n g zone_ok_group [OF assms(1) g(2)] by simp
qed

lemma group_handlers_safe:
  assumes "zone_ok w" "env_ok en"
  shows "safe (addGroupMember en name w)" "safe (groupMemberList en out w)" "safe (removeGroupMember en name w)"
proof -
  have g: "group_look.ok w (wd_group w)" using assms(1) by (simp add: zone_ok_def group_ok_look)
  show "safe (addGroupMember en name w)"
    using group_look.gm_addGroupMember_ok [OF g, of en] unfolding addGroupMember_def look_eq [OF assms]
    unfolding group_look.follows_def by (intro with_group_safe assms(1)) blast
  show "safe (groupMemberList en out w)"
    using group_look.gm_groupMemberList_ok [OF g set_order [OF assms(2)]] unfolding groupMemberList_def look_eq [OF assms]
    by (intro with_group_safe assms(1)) blast
  show "safe (removeGroupMember en name w)"
    using group_look.gm_removeGroupMember_ok [OF g] unfolding removeGroupMember_def look_eq [OF assms]
    by (intro with_group_safe assms(1)) blast
qed

lemma group_rows_ok: "\<forall>m \<in> set ms. \<forall>a. mb_spawn m = Some a \<longrightarrow> is_spawn w a \<Longrightarrow>
  \<exists>rows. group_rows w ms = Inr rows \<and> map fst rows = map mb_name ms \<and>
    list_all2 (\<lambda>m r. (mb_spawn m = None) = (snd r = None)) ms rows"
proof (induction ms)
  case (Cons m ms)
  then obtain rows where rows: "group_rows w ms = Inr rows" "map fst rows = map mb_name ms"
    "list_all2 (\<lambda>m r. (mb_spawn m = None) = (snd r = None)) ms rows" by auto
  show ?case
  proof (cases "mb_spawn m")
    case (Some a)
    then obtain s where "spawn_at a w = Inr s" using Cons.prems is_spawn_at [of w a] by auto
    then show ?thesis using Some rows by simp
  qed (use rows in simp)
qed simp

section \<open>The slots of the player\<close>

lemma player_announce_fine: "zone_ok w \<Longrightarrow> fine w (rbind (touch en player_addr w) (player_changed b))"
  by (rule touch_emit_fine) (simp_all add: is_spawn_tag [simplified] player_spawn)

lemma alter_player_fine:
  "zone_ok w \<Longrightarrow> fine w (rbind (with_player f w) (\<lambda>w. rbind (touch en player_addr w) (player_changed b)))"
  by (rule fine_bind [OF player_step_fine]) (simp_all add: player_announce_fine)

lemma alter_player_safe:
  "zone_ok w \<Longrightarrow> safe (rbind (with_player f (w\<lparr>wd_player := p\<rparr>)) (\<lambda>w. rbind (touch en player_addr w) (player_changed b)))"
  "zone_ok w \<Longrightarrow> safe (rbind (with_player f w) (\<lambda>w. rbind (touch en player_addr w) (player_changed b)))"
  by (rule fine_safe, rule alter_player_fine, simp)+

lemma with_player_safe:
  "zone_ok w \<Longrightarrow> safe (with_player f (w\<lparr>wd_player := p\<rparr>))" "zone_ok w \<Longrightarrow> safe (with_player f w)"
  by (rule fine_safe, rule player_step_fine, simp)+

lemma player_profile_safe:
  assumes "zone_ok w" shows "safe (player_profile en c w)"
  unfolding player_profile_def
  by (rule safe_bind [OF with_player_safe(1) [OF assms]], rule fine_safe_bind [OF loadProfile_fine], assumption,
      rule safe_bind [OF with_player_safe(2)], assumption, rule fine_safe, erule change_item_fine)

lemma setIdentity_safe: "zone_ok w \<Longrightarrow> safe (setIdentity en race c l w)"
  unfolding setIdentity_def Let_def by (rule alter_player_safe)

lemma setPlayerName_safe: "zone_ok w \<Longrightarrow> safe (setPlayerName n w)"
  unfolding setPlayerName_def by (rule with_player_safe)

lemma level_safe: "zone_ok w \<Longrightarrow> safe (updateLevel en out w)" "zone_ok w \<Longrightarrow> safe (applyLevel en l w)"
  by (auto simp: updateLevel_def applyLevel_def intro!: alter_player_safe spawn_at_safe player_spawn split: option.split)

lemma self_hp_safe: "zone_ok w \<Longrightarrow> safe (self_hp en i f w)"
  by (auto simp: self_hp_def intro!: player_id_safe alter_player_safe)

lemma hit_points_safe:
  "zone_ok w \<Longrightarrow> safe (player_updateNpcHP en out w)" "zone_ok w \<Longrightarrow> safe (player_updateSpawnInfo en out w)"
  by (auto simp: player_updateNpcHP_def player_updateSpawnInfo_def self_hp_safe split: option.split)

lemma setVitals_safe: "zone_ok w \<Longrightarrow> safe (setVitals en hp w)"
  by (auto simp: setVitals_def intro!: safe_bind [OF with_player_safe(2)] fine_safe [OF touch_fine] split: option.split)
    (simp add: is_spawn_tag [simplified] player_spawn)

lemma updateExp_safe: "zone_ok w \<Longrightarrow> safe (updateExp k w)"
  by (simp add: updateExp_def split: option.split)

lemma self_moves_safe: "zone_ok w \<Longrightarrow> safe (self_moves en pos vel h dh w)"
  by (cases pos; cases vel) (simp add: self_moves_def Let_def alter_player_safe)

lemma playerUpdateSelf_safe:
  assumes "zone_ok w" shows "safe (playerUpdateSelf en len dir out w)"
proof (cases "len \<noteq> sizeof_playerSelfPosStruct \<or> out = None")
  case False
  then obtain p where p: "out = Some p" "len = sizeof_playerSelfPosStruct" by blast
  obtain i where i: "player_id w = Inr i" using player_id_ok [OF assms] by blast
  have "safe (rbind (if dir = DIR_Client \<and> i = 0 then setPlayerID en (po_spawn_id p) w else Inr w) (\<lambda>w.
      rbind (player_id w) (\<lambda>pid.
      if po_spawn_id p \<noteq> pid then playerUpdate2 en len out w
      else let f = fo_int16 (en_float en) in
        self_moves en (f (po_x p), f (po_y p), f (po_z p)) (f (po_delta_x p), f (po_delta_y p), f (po_delta_z p))
          (ucast (po_heading p)) (ucast (po_delta_heading p)) w)))"
    by (rule safe_bind)
      (simp_all add: assms setPlayerID_safe Let_def player_id_safe playerUpdate2_safe self_moves_safe)
  then show ?thesis using p i assms unfolding playerUpdateSelf_def by (cases "dir \<noteq> DIR_Client \<and> po_spawn_id p \<noteq> i") simp_all
qed (auto simp: playerUpdateSelf_def assms)

lemma applySelfPosition_safe: "zone_ok w \<Longrightarrow> safe (applySelfPosition en pos vel h w)"
  by (simp add: applySelfPosition_def self_moves_safe)

lemma player_consMessage_safe: "zone_ok w \<Longrightarrow> safe (player_consMessage en dir con w)"
  by (simp add: player_consMessage_def setPlayerID_safe)

lemma restorePlayerState_safe: "zone_ok w \<Longrightarrow> safe (restorePlayerState en sv w)"
  by (auto simp: restorePlayerState_def player_zoneChanged_safe with_player_safe split: option.split)

lemma restored_id [simp]: "it_id (spawn_restored s) = it_id s"
  by (simp add: spawn_restored_def Let_def)

lemma restore_rows_safe: "zone_ok w \<Longrightarrow> safe (restore_rows en rows w)"
proof (induction rows arbitrary: w)
  case (Cons s rows)
  obtain a v where n: "new_obj (OSpawn (spawn_restored s)) w = (a, v)" by fastforce
  have "safe (rbind (refilter en a v) (\<lambda>w.
         rbind (shell_emit (AddItem a) (w\<lparr>wd_spawns := AList.update (uint (it_id s)) a (wd_spawns w)\<rparr>))
         (restore_rows en rows)))"
  proof (rule enter_spawn [OF Cons.prems n])
    fix u assume u: "zone_ok u" "is_spawn u a"
    show "safe (rbind (shell_emit (AddItem a) u) (restore_rows en rows))"
      by (rule safe_bind [OF emit_safe [OF u(1)]]) (use u Cons.IH in \<open>simp_all add: is_spawn_tag [simplified]\<close>)
  qed simp
  then show ?case by (simp add: n)
qed simp

lemma restoreSpawns_safe: "zone_ok w \<Longrightarrow> safe (restoreSpawns en rows w)"
  by (auto simp: restoreSpawns_def intro!: safe_bind [OF restore_rows_safe] emit_safe split: option.split)

section \<open>Shrouds\<close>

lemma shroud_self_safe:
  assumes "zone_ok w"
  shows "safe (rbind (loadProfile pp w) (\<lambda>w. rbind (refilter en player_addr w) (\<lambda>w.
    rbind (touch en player_addr w) (shell_emit (ChangeItem player_addr tSpawnChangedALL)))))"
  by (rule fine_safe_bind [OF loadProfile_fine [OF assms]], rule fine_safe_bind [OF refilter_fine], assumption,
      simp add: is_spawn_tag [simplified] player_spawn, rule fine_safe, rule touch_emit_fine)
    (simp_all add: is_spawn_tag [simplified] player_spawn)

lemma safeD: "safe r \<Longrightarrow> r = Inr w \<Longrightarrow> zone_ok w"
  by (simp add: safe_def)

lemma shroudSpawn_ok:
  assumes "zone_ok w" "shroudSpawn en decode psize profile_of data len w = Inr w'" shows "zone_ok w'"
  using assms(2) safeD [OF shroud_self_safe [OF assms(1)]] safeD [OF newSpawn_safe [OF assms(1)]] assms(1)
  by (fastforce simp: shroudSpawn_def rbind_eq_Inr Let_def split: option.splits if_splits prod.splits)

section \<open>All handlers\<close>

text \<open>The packets and signals the shell, the group and the spawn of the player are connected to, with their
  decoded payloads, the settings of the player and what is restored at the start. \<open>shroudSpawn\<close>,
  which reads past the packet, is apart.\<close>

definition player_settings :: "(player_info \<Rightarrow> player_info) set" where
  "player_settings = range setUseAutoDetectedSettings \<union> range setDefaultName \<union> range setDefaultLastname \<union>
     range setDefaultLevel \<union> range setDefaultRace \<union> range setDefaultClass \<union> range setDefaultDeity"

inductive zone_handler :: "env \<Rightarrow> (world \<Rightarrow> world res) \<Rightarrow> bool" for en where
  in_zoning: "zone_handler en (\<lambda>w. Inr (w\<lparr>wd_zoning := b\<rparr>))"
| in_zone_cleared: "zone_handler en shell_clear"
| in_player_zone_changed: "zone_handler en (player_zoneChanged en)"
| in_further_box: "zone_handler en onFurtherBox"
| in_ground_item: "zone_handler en (newGroundItem en out dir)"
| in_ground_item_gone: "zone_handler en (removeGroundItem out dir)"
| in_door_spawns: "zone_handler en (newDoorSpawns en rows)"
| in_zone_spawns: "zone_handler en (zoneSpawns en sss)"
| in_new_spawn: "zone_handler en (newSpawn_packet en ss)"
| in_zone_entry: "zone_handler en (zoneEntry en out)"
| in_player_id: "zone_handler en (setPlayerID en i)"
| in_profile: "zone_handler en (loadProfile pp)"
| in_upsert_spawn: "zone_handler en (upsertSpawn en f)"
| in_move_spawn: "zone_handler en (moveSpawn en i p)"
| in_spawn_hp: "zone_handler en (updateSpawnHP en i c m)"
| in_spawn_identity: "zone_handler en (updateSpawnIdentity en i l c)"
| in_spawn_animation: "zone_handler en (updateSpawnAnimation en i a)"
| in_self_position: "zone_handler en (playerUpdate2 en len out)"
| in_position: "zone_handler en (playerUpdate en len dir out)"
| in_npc_move: "zone_handler en (npcMoveUpdate en len out)"
| in_mob_update: "zone_handler en (updateSpawns en out)"
| in_wear_change_info: "zone_handler en (updateSpawnInfo en out)"
| in_spawn_lock: "zone_handler en (updateSpawnLock en i ty v)"
| in_rename: "zone_handler en (renameSpawn en out)"
| in_illusion: "zone_handler en (illusionSpawn en out)"
| in_appearance: "zone_handler en (updateSpawnAppearance en out)"
| in_npc_hp: "zone_handler en (updateNpcHP en out)"
| in_mob_health: "zone_handler en (updateMobHealth en out)"
| in_wearing: "zone_handler en (spawnWearingUpdate en i)"
| in_consider: "zone_handler en (consMessage out)"
| in_target: "zone_handler en (clientTarget out)"
| in_remove: "zone_handler en (removeSpawn en len dir out)"
| in_delete: "zone_handler en (deleteSpawn out)"
| in_death: "zone_handler en (killSpawn en out)"
| in_respawn: "zone_handler en (respawnFromHover en dir)"
| in_corpse_location: "zone_handler en (corpseLoc en out)"
| in_filters_changed: "zone_handler en (refilterSpawns en)"
| in_runtime_filters_changed: "zone_handler en (refilterSpawnsRuntime en)"
| in_guild_tag: "zone_handler en (updateGuildTag en g)"
| in_group_add: "zone_handler en (addGroupMember en out)"
| in_group_list: "zone_handler en (groupMemberList en out)"
| in_group_remove: "zone_handler en (removeGroupMember en out)"
| in_player_profile: "zone_handler en (player_profile en ch)"
| in_identity: "zone_handler en (setIdentity en race classVal lv)"
| in_player_name: "zone_handler en (setPlayerName n)"
| in_level: "zone_handler en (updateLevel en lvl)"
| in_level_set: "zone_handler en (applyLevel en lv)"
| in_experience: "zone_handler en (updateExp kind)"
| in_last_kill: "zone_handler en (\<lambda>w. Inr (setLastKill n l w))"
| in_own_hp: "zone_handler en (player_updateNpcHP en out)"
| in_own_info: "zone_handler en (player_updateSpawnInfo en out)"
| in_vitals: "zone_handler en (setVitals en hp)"
| in_own_position: "zone_handler en (playerUpdateSelf en len dir out)"
| in_own_position_set: "zone_handler en (applySelfPosition en pos vel h)"
| in_own_consider: "zone_handler en (player_consMessage en dir con)"
| in_settings: "zone_handler en (\<lambda>w. Inr (w\<lparr>wd_player := f (wd_player w)\<rparr>))"
    if "f \<in> player_settings"
| in_restore_player: "zone_handler en (restorePlayerState en saved)"
| in_restore_spawns: "zone_handler en (restoreSpawns en rows)"

lemma zone_ok_zoning [simp]: "zone_ok (w\<lparr>wd_zoning := b\<rparr>) = zone_ok w"
  by (simp add: zone_ok_def tables_ok_def group_ok_def dead_ok_def entries_ok_def addrs_def is_spawn_def
      tag_at_def ptrs_def)

lemmas handlers_safe =
  shell_clear_safe player_zoneChanged_safe onFurtherBox_safe newGroundItem_safe removeGroundItem_safe newDoorSpawns_safe
  zoneSpawns_safe newSpawn_packet_safe zoneEntry_safe setPlayerID_safe fine_safe [OF loadProfile_fine] upsertSpawn_safe
  moveSpawn_safe updateSpawnHP_safe updateSpawnIdentity_safe updateSpawnAnimation_safe playerUpdate2_safe playerUpdate_safe
  npcMoveUpdate_safe updateSpawns_safe updateSpawnInfo_safe updateSpawnLock_safe renameSpawn_safe illusionSpawn_safe
  updateSpawnAppearance_safe updateNpcHP_safe updateMobHealth_safe spawnWearingUpdate_safe consMessage_safe
  clientTarget_safe removeSpawn_safe deleteSpawn_safe killSpawn_safe respawnFromHover_safe corpseLoc_safe
  refilterSpawns_safe updateGuildTag_safe group_handlers_safe player_profile_safe setIdentity_safe setPlayerName_safe
  level_safe updateExp_safe hit_points_safe setVitals_safe playerUpdateSelf_safe applySelfPosition_safe
  player_consMessage_safe restorePlayerState_safe restoreSpawns_safe setLastKill_def

lemma handler_safe:
  assumes "zone_handler en h" "env_ok en" "zone_ok w" shows "safe (h w)"
  using assms by cases (simp_all add: handlers_safe)

text \<open>The clocks change from input to input, so each comes with its environment. A shroud that stays within
  its packet is an input too.\<close>

inductive zone_reachable :: "world \<Rightarrow> bool" where
  at_start: "zone_reachable (mkWorld en pl)"
| after_input: "zone_reachable w \<Longrightarrow> env_ok en \<Longrightarrow> zone_handler en h \<Longrightarrow> h w = Inr w' \<Longrightarrow> zone_reachable w'"
| after_shroud: "zone_reachable w \<Longrightarrow> env_ok en \<Longrightarrow> shroudSpawn en decode psize profile_of data len w = Inr w' \<Longrightarrow>
    zone_reachable w'"

lemma reachable_ok: "zone_reachable w \<Longrightarrow> zone_ok w"
proof (induction rule: zone_reachable.induct)
  case (after_input w en h w')
  then show ?case using handler_safe [of en h w] by (simp add: safe_def)
next
  case (after_shroud w en decode psize profile_of data len w')
  then show ?case using shroudSpawn_ok by blast
qed (rule mkWorld_ok)

end
