(* ===== verification/ZoneLaws.thy ===== *)
theory ZoneLaws
  imports ZoneSteps
begin

text \<open>
  What the handlers of the zone promise: safety and types in every reachable state, the group and its
  spawns, spawns that enter, die and go, the id of the player, and a change of zone.
\<close>

section \<open>A zone to run\<close>

definition demo_blank :: spawn where
  "demo_blank = \<lparr>it_type = TUnknown, it_id = 0, it_name = '''', it_filterFlags = 0, it_runtimeFilterFlags = 0,
     it_lastUpdate = 0, it_spawnTime = 0, it_lastChanged = 0, it_NPC = 0, it_heading = 0, it_pos = (0, 0, 0),
     sp_lastName = '''', sp_guildTag = '''', sp_track = [], sp_cooked = (0, 0, 0), sp_delta = (0, 0, 0),
     sp_deltaHeading = 0, sp_petOwnerID = 0, sp_curHP = 0, sp_maxHP = 0, sp_guildID = 0, sp_guildServerID = 0,
     sp_deity = 0, sp_deityTeam = 0, sp_equipment = (\<lambda>_. SlotEmpty), sp_race = 0, sp_raceTeam = 0, sp_level = 0,
     sp_gender = 0, sp_class = 0, sp_classMask = 0, sp_light = 0, sp_typeflag = 0, sp_animation = 0, sp_gm = 0,
     sp_isMount = True, sp_isMercenary = False, sp_isAura = False, sp_considered = False, sp_notUpdated = False,
     sp_locked = False\<rparr>"

definition demo_env :: env where
  "demo_env = \<lparr>en_clock = \<lparr>ck_msec = 1000, ck_time = 1\<rparr>,
     en_float = \<lparr>fo_int16 = (\<lambda>x. ucast x), fo_int16_x10 = (\<lambda>x. ucast (10 * x)), fo_lrint8 = (\<lambda>x. ucast x),
       fo_lrint16 = (\<lambda>x. ucast x)\<rparr>,
     en_drop = \<lparr>de_toInt = (\<lambda>s. 0), de_print_item = (\<lambda>i. '''')\<rparr>,
     en_filterMask = (\<lambda>ob. 0), en_runtimeFilterMask = (\<lambda>ob. 0), en_guildTag = (\<lambda>g s. ''''),
     en_order = (\<lambda>t. t), en_set_order = (\<lambda>xs. xs), en_walkpathrecord = True, en_walkpathlength = 100,
     en_createUnknownSpawns = True, en_useUpdateRadius = False, en_blank = demo_blank\<rparr>"

definition demo_player :: player_info where
  "demo_player = \<lparr>pl_realName = '''', pl_useAutoDetectedSettings = True, pl_useDefaults = False, pl_defaultName = ''Me'',
     pl_defaultLastName = '''', pl_defaultLevel = 50, pl_defaultRace = 1, pl_defaultClass = 1, pl_defaultDeity = 140,
     pl_lastSpawnKilledName = '''', pl_lastSpawnKilledLevel = 0, pl_freshKill = False\<rparr>"

definition demo_world :: world where
  "demo_world = mkWorld demo_env demo_player"

lemma demo_env_ok: "env_ok demo_env"
  by (simp add: env_ok_def demo_env_def)

lemma demo_reachable: "zone_reachable demo_world"
  unfolding demo_world_def by (rule zone_reachable.at_start)

text \<open>A player called Bob with id 7 and level 20 enters, and is in the group.\<close>

definition demo_spawn :: spawnStruct where
  "demo_spawn = \<lparr>ss_name = ''Bob'', ss_lastName = '''', ss_title = '''', ss_suffix = '''', ss_spawnId = 7,
     ss_miscData = 0, ss_bodytype = 1, ss_race = 1, ss_deity = 140, ss_guildID = 0, ss_guildServerID = 0,
     ss_guildstatus = 0, ss_class = 2, ss_petOwnerId = 0, ss_level = 20, ss_NPC = 0, ss_otherData = 0,
     ss_charProperties = 0, ss_curHp = 100, ss_holding = 0, ss_state = 0, ss_light = 0, ss_isMercenary = 0,
     ss_equipment = (\<lambda>i. SlotEmpty), ss_posData = (\<lambda>i. 0)\<rparr>"

definition demo_step :: "(world \<Rightarrow> world res) \<Rightarrow> world \<Rightarrow> world" where
  "demo_step h w = (case h w of Inr w' \<Rightarrow> w' | Inl _ \<Rightarrow> w)"

definition demo_grouped :: world where
  "demo_grouped = demo_step (addGroupMember demo_env (Some ''Bob'')) demo_world"

definition demo_zone :: world where
  "demo_zone = demo_step (newSpawn_packet demo_env demo_spawn) demo_grouped"

lemma demo_step_reachable:
  assumes "zone_reachable w" "zone_handler demo_env h" shows "zone_reachable (demo_step h w)"
proof -
  obtain w' where "h w = Inr w'"
    using handler_safe [OF assms(2) demo_env_ok reachable_ok [OF assms(1)]] by (auto simp: safe_def)
  then show ?thesis using zone_reachable.after_input [OF assms(1) demo_env_ok assms(2)] by (simp add: demo_step_def)
qed

lemma demo_zone_reachable: "zone_reachable demo_zone"
  unfolding demo_zone_def demo_grouped_def
  by (intro demo_step_reachable demo_reachable zone_handler.intros)

lemma demo_zone_spawns: "wd_spawns demo_zone = [(7, 1)]"
  by code_simp

lemma demo_zone_group: "map mb_spawn (gm_members (wd_group demo_zone)) = [Some 1, None, None, None, None]"
  by code_simp

section \<open>Safety and types\<close>

text \<open>C4: from the start on, whatever payloads arrive in whatever order, no handler of the shell or the group but
  \<open>shroudSpawn\<close>, and no slot of the player in what it does to its spawn, its names and its last kill,
  faults: none follows a pointer to an item that was deleted, takes an item for one of another class,
  or leaves the ring of deleted ids. Each returns, and so on; a shroud that returns may come in between.\<close>

theorem zone_never_faults:
  assumes "zone_reachable w" "env_ok en" "zone_handler en h"
  shows "\<exists>w'. h w = Inr w' \<and> zone_reachable w'"
  using handler_safe [OF assms(3,2) reachable_ok [OF assms(1)]] zone_reachable.after_input [OF assms]
  by (auto simp: safe_def)

theorem zone_never_faults_witness:
  "wd_spawns demo_zone = [(7, 1)] \<and> (\<exists>w'. shell_clear demo_zone = Inr w' \<and> zone_reachable w')"
  using zone_never_faults [OF demo_zone_reachable demo_env_ok in_zone_cleared] by (simp add: demo_zone_spawns)

text \<open>C34: in every reachable state the tables are typed: an entry of the table of spawns leads to a spawn, of
  doors to a door, of drops to a drop, each with the id of its entry (of 16 bits); no item is in two
  places, none is the player, and the player is a spawn.\<close>

theorem zone_tables_typed:
  assumes "zone_reachable w"
  shows "(\<forall>(i, a) \<in> set (wd_spawns w). \<exists>s. wd_heap w a = Some (OSpawn s) \<and> it_id s = word_of_int i)
    \<and> (\<forall>(i, a) \<in> set (wd_doors w). \<exists>d. wd_heap w a = Some (ODoor d) \<and> it_id d = word_of_int i)
    \<and> (\<forall>(i, a) \<in> set (wd_drops w). \<exists>d. wd_heap w a = Some (ODrop d) \<and> it_id d = word_of_int i)
    \<and> (\<exists>s. wd_heap w player_addr = Some (OSpawn s))
    \<and> distinct (player_addr # map snd (wd_spawns w) @ map snd (wd_doors w) @ map snd (wd_drops w))
    \<and> distinct (map fst (wd_spawns w)) \<and> distinct (map fst (wd_doors w)) \<and> distinct (map fst (wd_drops w))"
proof -
  have ok: "zone_ok w" using assms by (rule reachable_ok)
  have tag: "\<exists>ob. wd_heap w a = Some ob \<and> kind_of ob = k \<and> obj_id ob = i"
    if "a \<noteq> player_addr" "tag_at w a = Some (k, i)" for a k i
    using that by (auto simp: tag_at_def tag_of_def)
  have spawns: "\<exists>s. wd_heap w a = Some (OSpawn s) \<and> it_id s = word_of_int i" if "(i, a) \<in> set (wd_spawns w)" for i a
    using that ok tag [of a] by (fastforce simp: zone_ok_def tables_ok_def entries_ok_def elim!: kind_of.elims)
  have doors: "\<exists>s. wd_heap w a = Some (ODoor s) \<and> it_id s = word_of_int i" if "(i, a) \<in> set (wd_doors w)" for i a
    using that ok tag [of a] by (fastforce simp: zone_ok_def tables_ok_def entries_ok_def elim!: kind_of.elims)
  have drops: "\<exists>s. wd_heap w a = Some (ODrop s) \<and> it_id s = word_of_int i" if "(i, a) \<in> set (wd_drops w)" for i a
    using that ok tag [of a] by (fastforce simp: zone_ok_def tables_ok_def entries_ok_def elim!: kind_of.elims)
  have "player_addr \<notin> set (addrs w)" using tables_live(2) [OF ok] by blast
  moreover have "distinct (addrs w)" using ok by (simp add: zone_ok_def tables_ok_def)
  moreover have "distinct (map fst (wd_spawns w))" "distinct (map fst (wd_doors w))" "distinct (map fst (wd_drops w))"
    using ok by (simp_all add: zone_ok_def tables_ok_def entries_ok_def)
  ultimately show ?thesis
    using spawns doors drops player_spawn [OF ok] unfolding addrs_def by (auto simp: is_spawn_iff)
qed

theorem zone_tables_typed_witness:
  "wd_spawns demo_zone = [(7, 1)] \<and> (\<exists>s. wd_heap demo_zone 1 = Some (OSpawn s) \<and> it_id s = 7)"
  using zone_tables_typed [OF demo_zone_reachable] by (simp add: demo_zone_spawns)

section \<open>What the steps leave alone\<close>

text \<open>Filters, guild tags and the time of change come and go; the rest of a spawn is its core.\<close>

definition core :: "spawn \<Rightarrow> spawn" where
  "core s = s\<lparr>it_filterFlags := 0, it_runtimeFilterFlags := 0, it_lastChanged := 0\<rparr>"

definition core_at :: "world \<Rightarrow> addr \<Rightarrow> spawn option" where
  "core_at w a = (case wd_heap w a of Some (OSpawn s) \<Rightarrow> Some (core s) | _ \<Rightarrow> None)"

lemma core_of_flags [simp]:
  "core (s\<lparr>it_filterFlags := f\<rparr>) = core s" "core (s\<lparr>it_runtimeFilterFlags := f\<rparr>) = core s"
  "core (updateLastChanged ck s) = core s"
  by (simp_all add: core_def updateLastChanged_def)

text \<open>The steps that change an item only.\<close>

definition only_heap :: "world \<Rightarrow> world \<Rightarrow> bool" where
  "only_heap w w' \<longleftrightarrow> (\<exists>h. w' = w\<lparr>wd_heap := h\<rparr>)"

definition quiet :: "world \<Rightarrow> world \<Rightarrow> bool" where
  "quiet w w' \<longleftrightarrow> only_heap w w' \<and> core_at w' = core_at w"

lemma put_quiet: "wd_heap w a = Some (OSpawn s) \<Longrightarrow> core t = core s \<Longrightarrow> quiet w (put a (OSpawn t) w)"
  by (auto simp: quiet_def only_heap_def put_def core_at_def fun_eq_iff)

lemma put_quiet_other:
  "wd_heap w a = Some ob \<Longrightarrow> kind_of ob \<noteq> KSpawn \<Longrightarrow> kind_of ob' \<noteq> KSpawn \<Longrightarrow> quiet w (put a ob' w)"
  by (cases ob; cases ob') (auto simp: quiet_def only_heap_def put_def core_at_def fun_eq_iff)

lemma quiet_trans: "quiet u v \<Longrightarrow> quiet v w \<Longrightarrow> quiet u w"
  by (auto simp: quiet_def only_heap_def)

lemma quiet_refl [simp]: "quiet w w"
  by (simp add: quiet_def only_heap_def) (metis world.surjective world.update_convs(1))

lemma quiet_fields:
  assumes "quiet w w'"
  shows "wd_group w' = wd_group w" "wd_spawns w' = wd_spawns w" "wd_doors w' = wd_doors w" "wd_drops w' = wd_drops w"
    "wd_players w' = wd_players w" "wd_deadSpawnID w' = wd_deadSpawnID w" "wd_cntDeadSpawnIDs w' = wd_cntDeadSpawnIDs w"
    "wd_posDeadSpawnIDs w' = wd_posDeadSpawnIDs w" "wd_player w' = wd_player w" "wd_zoning w' = wd_zoning w"
    "wd_next w' = wd_next w" "core_at w' a = core_at w a"
  using assms by (auto simp: quiet_def only_heap_def)

lemma touch_quiet: "touch en a w = Inr w' \<Longrightarrow> quiet w w'"
proof -
  assume "touch en a w = Inr w'"
  then obtain ob where ob: "wd_heap w a = Some ob" "w' = put a (obj_touch (en_clock en) ob) w"
    by (auto simp: touch_def obj_at_def result_simps split: option.splits)
  then show ?thesis by (cases ob) (auto intro: put_quiet put_quiet_other)
qed

lemma updateFilterFlags_quiet: "updateFilterFlags en a w = Inr (c, w') \<Longrightarrow> quiet w w'"
proof -
  assume "updateFilterFlags en a w = Inr (c, w')"
  then obtain ob where ob: "wd_heap w a = Some ob"
    "w' = w \<or> w' = put a (set_filterFlags (en_filterMask en (seen_obj w a ob)) ob) w"
    by (auto simp: updateFilterFlags_def obj_at_def result_simps Let_def split: option.splits if_splits)
  then show ?thesis by (cases ob) (auto intro: put_quiet put_quiet_other)
qed

lemma updateRuntimeFilterFlags_quiet: "updateRuntimeFilterFlags en a w = Inr (c, w') \<Longrightarrow> quiet w w'"
proof -
  assume "updateRuntimeFilterFlags en a w = Inr (c, w')"
  then obtain ob where ob: "wd_heap w a = Some ob"
    "w' = w \<or> w' = put a (set_runtimeFilterFlags (en_runtimeFilterMask en (seen_obj w a ob)) ob) w"
    by (auto simp: updateRuntimeFilterFlags_def obj_at_def result_simps Let_def split: option.splits if_splits)
  then show ?thesis by (cases ob) (auto intro: put_quiet put_quiet_other)
qed

lemma refilter_quiet: "refilter en a w = Inr w' \<Longrightarrow> quiet w w'"
  by (auto simp: refilter_def result_simps dest!: updateFilterFlags_quiet updateRuntimeFilterFlags_quiet intro: quiet_trans)

lemma with_spawn_effect:
  assumes "with_spawn a f w = Inr w'"
  obtains s where "wd_heap w a = Some (OSpawn s)" "w' = put a (OSpawn (f s)) w"
  using assms by (auto simp: with_spawn_def spawn_at_def obj_at_def result_simps split: option.splits obj.splits)

lemma put_fields [simp]:
  "wd_group (put a ob w) = wd_group w" "wd_spawns (put a ob w) = wd_spawns w" "wd_doors (put a ob w) = wd_doors w"
  "wd_drops (put a ob w) = wd_drops w" "wd_players (put a ob w) = wd_players w" "wd_next (put a ob w) = wd_next w"
  "wd_deadSpawnID (put a ob w) = wd_deadSpawnID w" "wd_cntDeadSpawnIDs (put a ob w) = wd_cntDeadSpawnIDs w"
  "wd_posDeadSpawnIDs (put a ob w) = wd_posDeadSpawnIDs w" "wd_player (put a ob w) = wd_player w" "wd_heap (put a ob w) = (wd_heap w)(a \<mapsto> ob)"
  by (simp_all add: put_def)

text \<open>A signal changes the group and the record of signals only.\<close>

lemma emit_effect:
  assumes "shell_emit e w = Inr w'"
  shows "wd_heap w' = wd_heap w" "wd_spawns w' = wd_spawns w" "wd_doors w' = wd_doors w" "wd_drops w' = wd_drops w"
    "wd_players w' = wd_players w" "wd_deadSpawnID w' = wd_deadSpawnID w" "wd_cntDeadSpawnIDs w' = wd_cntDeadSpawnIDs w"
    "wd_posDeadSpawnIDs w' = wd_posDeadSpawnIDs w" "wd_next w' = wd_next w" "wd_player w' = wd_player w"
    "wd_zoning w' = wd_zoning w"
  using assms by (auto simp: shell_emit_def Let_def result_simps split: zone_event.splits)

lemma emit_group:
  assumes "shell_emit e w = Inr w'"
  shows "\<forall>a. e \<noteq> AddItem a \<Longrightarrow> \<forall>a. e \<noteq> DelItem a \<Longrightarrow> \<forall>a k i. e \<noteq> KillSpawn a k i \<Longrightarrow> e \<noteq> ClearItems \<Longrightarrow> wd_group w' = wd_group w"
  using assms by (cases e) (auto simp: shell_emit_def Let_def)

lemma emit_not_player:
  assumes "shell_emit e w = Inr w'" "e = DelItem a \<or> (\<exists>k i. e = KillSpawn a k i)" "wd_heap w a = Some (OSpawn s)" "\<not> isPlayer s"
  shows "wd_group w' = wd_group w"
  using assms by (auto simp: shell_emit_def Let_def item_view_def obj_at_def gm_delItem_def gm_killSpawn_def)

lemma emit_returns:
  assumes "zone_ok w" "zone_event_ok w e" obtains w' where "shell_emit e w = Inr w'" "zone_ok w'" "zframe w w'"
  using emit_fine [OF assms] unfolding fine_def by blast

section \<open>The group\<close>

text \<open>C5: in every reachable state what the encoder sends of the group can be read: one row for each of the five
  slots in their order, with the name of the slot, and with the details of the spawn exactly where a
  spawn is known; no name is there twice, and a slot without a name has no spawn.\<close>

theorem group_never_dangles:
  assumes "zone_reachable w"
  shows "\<exists>rows. fillGroupUpdate w = Inr rows \<and> length rows = 5
    \<and> map fst rows = map mb_name (gm_members (wd_group w))
    \<and> map (\<lambda>r. snd r \<noteq> None) rows = map (\<lambda>m. mb_spawn m \<noteq> None) (gm_members (wd_group w))
    \<and> distinct (filter (\<lambda>n. n \<noteq> '''') (map fst rows))
    \<and> (\<forall>(n, details) \<in> set rows. n = '''' \<longrightarrow> details = None)"
proof -
  let ?ms = "gm_members (wd_group w)"
  have g: "group_inv (wd_group w)" "ptrs (is_spawn w) (wd_group w)"
    using reachable_ok [OF assms] by (simp_all add: zone_ok_def group_ok_def)
  obtain rows where rows: "group_rows w ?ms = Inr rows" "map fst rows = map mb_name ?ms"
    "list_all2 (\<lambda>m r. (mb_spawn m = None) = (snd r = None)) ?ms rows"
    using group_rows_ok [of ?ms w] g(2) unfolding ptrs_def by blast
  have len: "length rows = 5" using g(1) arg_cong [OF rows(2), of length] by (simp add: group_inv_def)
  have details: "map (\<lambda>r. snd r \<noteq> None) rows = map (\<lambda>m. mb_spawn m \<noteq> None) ?ms"
    using rows(3) by (simp add: list_all2_conv_all_nth list_eq_iff_nth_eq del: not_None_eq)
  have "details = None" if "('''', details) \<in> set rows" for details
  proof -
    obtain i where i: "i < length rows" "rows ! i = ('''', details)" using \<open>_ \<in> set rows\<close> by (auto simp: in_set_conv_nth)
    have n: "i < length ?ms" using i(1) list_all2_lengthD [OF rows(3)] by simp
    have "mb_name (?ms ! i) = ''''" using arg_cong [OF rows(2), of "\<lambda>l. l ! i"] i n by simp
    then have "mb_spawn (?ms ! i) = None" using g(1) nth_mem [OF n] by (simp add: group_inv_def)
    then show ?thesis using list_all2_nthD [OF rows(3) n] i(2) by simp
  qed
  then show ?thesis
    using rows(1,2) len details g(1) by (auto simp: fillGroupUpdate_def group_inv_def names_def)
qed

theorem group_never_dangles_witness:
  "\<exists>rows. fillGroupUpdate demo_zone = Inr rows \<and> length rows = 5 \<and> map (\<lambda>r. snd r \<noteq> None) rows = [True, False, False, False, False]"
proof -
  have "map (\<lambda>m. mb_spawn m \<noteq> None) (gm_members (wd_group demo_zone)) = [True, False, False, False, False]" by code_simp
  then show ?thesis using group_never_dangles [OF demo_zone_reachable] by metis
qed

text \<open>A death, up to the signal.\<close>

lemma core_corpse: "isCorpse (core s) = isCorpse s"
  by (simp add: isCorpse_def core_def)

lemma kill_steps:
  assumes "with_spawn a spawn_kill w0 = Inr w1" "refilter en a w1 = Inr w2"
    "with_spawn a (\<lambda>s. s\<lparr>it_name := it_name s @ Spawn_Corpse_Designator\<rparr>) w2 = Inr w3" "shell_emit (KillSpawn a k e) w3 = Inr w'"
  shows "wd_group w' = wd_group w0 \<and> wd_spawns w' = wd_spawns w0 \<and> (\<exists>s. wd_heap w' a = Some (OSpawn s) \<and> isCorpse s)"
proof -
  obtain s1 where 1: "wd_heap w1 a = Some (OSpawn (spawn_kill s1))" "wd_group w1 = wd_group w0" "wd_spawns w1 = wd_spawns w0"
    using assms(1) by (auto elim!: with_spawn_effect)
  have corpse: "isCorpse (core (spawn_kill s1))" by (simp add: isCorpse_def core_def spawn_kill_def Let_def)
  note q = quiet_fields [OF refilter_quiet [OF assms(2)]]
  have core: "core_at w2 a = Some (core (spawn_kill s1))" using 1(1) q(12) [of a] by (simp add: core_at_def)
  obtain s2 where 2: "wd_heap w2 a = Some (OSpawn s2)"
    "w3 = put a (OSpawn (s2\<lparr>it_name := it_name s2 @ Spawn_Corpse_Designator\<rparr>)) w2"
    using assms(3) by (rule with_spawn_effect)
  then have "core s2 = core (spawn_kill s1)" using core by (simp add: core_at_def)
  then have s2: "isCorpse s2" using corpse core_corpse by metis
  then have s3: "isCorpse (s2\<lparr>it_name := n\<rparr>)" for n by (simp add: isCorpse_def)
  have "\<not> isPlayer s" if "isCorpse s" for s :: spawn using that by (auto simp: isCorpse_def isPlayer_def SPAWN_defs)
  then have "wd_group w' = wd_group w3" using emit_not_player [OF assms(4)] 2 s3 by fastforce
  then show ?thesis using emit_effect [OF assms(4)] 1 q 2 s3 by auto
qed

lemma killSpawn_effect:
  assumes "killSpawn en (Some (i, killer)) w = Inr w'" "player_id w = Inr pid" "i \<noteq> ucast pid"
    "map_of (wd_spawns w) (sint i) = Some a"
  shows "wd_group w' = wd_group w \<and> wd_spawns w' = wd_spawns w \<and> (\<exists>s. wd_heap w' a = Some (OSpawn s) \<and> isCorpse s)"
proof -
  obtain s where s: "spawn_at a w = Inr s"
    using assms by (auto simp: killSpawn_def result_simps)
  let ?w = "if killer = ucast pid
            then w\<lparr>wd_player := (wd_player w)\<lparr>pl_lastSpawnKilledName := it_name (seen w a s),
                   pl_lastSpawnKilledLevel := sp_level (seen w a s), pl_freshKill := True\<rparr>\<rparr>
            else w"
  have "rbind (with_spawn a spawn_kill ?w) (\<lambda>w. rbind (refilter en a w) (\<lambda>w.
          rbind (with_spawn a (\<lambda>s. s\<lparr>it_name := it_name s @ Spawn_Corpse_Designator\<rparr>) w) (\<lambda>w.
          shell_emit (KillSpawn a (map_of (wd_spawns w) (sint killer)) (ucast killer)) w))) = Inr w'"
    using assms s unfolding killSpawn_def by (simp add: Let_def)
  then obtain w1 w2 w3 where "with_spawn a spawn_kill ?w = Inr w1" "refilter en a w1 = Inr w2"
      "with_spawn a (\<lambda>s. s\<lparr>it_name := it_name s @ Spawn_Corpse_Designator\<rparr>) w2 = Inr w3"
      "shell_emit (KillSpawn a (map_of (wd_spawns w3) (sint killer)) (ucast killer)) w3 = Inr w'"
    unfolding rbind_eq_Inr by blast
  from kill_steps [OF this] show ?thesis by simp
qed

lemma deleteItem_spawn_effect:
  assumes "deleteItem TSpawn k w = Inr w'"
  shows "wd_spawns w' = AList.delete k (wd_spawns w) \<and> wd_heap w' = wd_heap w \<and> wd_doors w' = wd_doors w \<and>
    wd_drops w' = wd_drops w \<and> wd_players w' = wd_players w \<and> wd_deadSpawnID w' = wd_deadSpawnID w \<and>
    wd_cntDeadSpawnIDs w' = wd_cntDeadSpawnIDs w \<and> wd_posDeadSpawnIDs w' = wd_posDeadSpawnIDs w"
proof (cases "map_of (wd_spawns w) k")
  case None
  then have "k \<notin> fst ` set (wd_spawns w)" by (simp add: map_of_eq_None_iff)
  then have "AList.delete k (wd_spawns w) = wd_spawns w" by (metis AList.delete_id)
  with assms None show ?thesis by (simp add: deleteItem_def)
next
  case (Some a)
  then obtain v where v: "shell_emit (DelItem a) w = Inr v"
    "shell_emit (NumSpawns (length (AList.delete k (wd_spawns v)))) (v\<lparr>wd_spawns := AList.delete k (wd_spawns v)\<rparr>) = Inr w'"
    using assms by (auto simp: deleteItem_def Let_def result_simps)
  show ?thesis using emit_effect [OF v(1)] emit_effect [OF v(2)] by simp
qed

lemma deleteItem_corpse:
  assumes "deleteItem TSpawn k w = Inr w'" "map_of (wd_spawns w) k = Some a" "wd_heap w a = Some (OSpawn s)" "\<not> isPlayer s"
  shows "wd_group w' = wd_group w"
proof -
  obtain v where v: "shell_emit (DelItem a) w = Inr v"
    "shell_emit (NumSpawns (length (AList.delete k (wd_spawns v)))) (v\<lparr>wd_spawns := AList.delete k (wd_spawns v)\<rparr>) = Inr w'"
    using assms(1,2) by (auto simp: deleteItem_def Let_def result_simps)
  show ?thesis using emit_not_player [OF v(1) disjI1 assms(3,4)] emit_group [OF v(2)] by simp
qed

lemma corpse_no_player: "isCorpse s \<Longrightarrow> \<not> isPlayer s"
  by (auto simp: isCorpse_def isPlayer_def SPAWN_defs)

text \<open>The death of another player never reaches the group. \<open>killSpawn\<close> makes the spawn a corpse before it
  signals the death, and \<open>GroupMgr\<close> only looks at players: the member keeps its spawn and stays
  counted as in the zone. Also when the corpse is deleted later the slot goes on pointing to it.\<close>

theorem death_never_reaches_group:
  assumes "zone_reachable w" "env_ok en" "player_id w = Inr pid" "i \<noteq> ucast pid" "map_of (wd_spawns w) (sint i) = Some a"
  shows "\<exists>w1 w2. killSpawn en (Some (i, killer)) w = Inr w1 \<and> deleteItem TSpawn (sint i) w1 = Inr w2 \<and>
    wd_group w1 = wd_group w \<and> wd_group w2 = wd_group w \<and> map_of (wd_spawns w2) (sint i) = None"
proof -
  have "safe (killSpawn en (Some (i, killer)) w)" by (rule killSpawn_safe [OF reachable_ok [OF assms(1)]])
  then obtain w1 where w1: "killSpawn en (Some (i, killer)) w = Inr w1" "zone_ok w1" by (auto simp: safe_def)
  obtain w2 where w2: "deleteItem TSpawn (sint i) w1 = Inr w2" using deleteItem_safe [OF w1(2)] by (auto simp: safe_def)
  from killSpawn_effect [OF w1(1) assms(3-5)] obtain s where
    s: "wd_group w1 = wd_group w" "wd_spawns w1 = wd_spawns w" "wd_heap w1 a = Some (OSpawn s)" "isCorpse s" by blast
  have "wd_group w2 = wd_group w1"
    using deleteItem_corpse [OF w2 _ s(3) corpse_no_player [OF s(4)]] assms(5) s(2) by simp
  moreover have "map_of (wd_spawns w2) (sint i) = None"
    using deleteItem_spawn_effect [OF w2] by (simp add: AList.delete_conv)
  ultimately show ?thesis using w1(1) w2 s(1) by auto
qed

theorem death_never_reaches_group_witness:
  "\<exists>w1 w2. killSpawn demo_env (Some (7, 3)) demo_zone = Inr w1 \<and> deleteItem TSpawn 7 w1 = Inr w2 \<and>
    map_of (wd_spawns w2) 7 = None \<and> map mb_spawn (gm_members (wd_group w2)) = [Some 1, None, None, None, None] \<and>
    gm_membersInZoneCount (wd_group w2) = 1"
proof -
  have p: "player_id demo_zone = Inr 0" "gm_membersInZoneCount (wd_group demo_zone) = 1" by code_simp+
  show ?thesis
    using death_never_reaches_group [OF demo_zone_reachable demo_env_ok p(1), of 7 1 3]
    by (auto simp: demo_zone_spawns demo_zone_group p(2))
qed

text \<open>C7: after the server has sent a list of one to six members with at most five other than the player, the
  named slots are exactly the listed members other than the player; those that were there before
  keep their slot with their spawn; and neither count drifts: both differ from the true number of
  members, and of members with a spawn, by as much as before.\<close>

theorem roster_follows_list:
  assumes "zone_reachable w" "env_ok en" "spawn_name player_addr w = Inr self" "n \<noteq> 0" "n \<le> 6"
    "incoming = remdups (filter (\<lambda>name. name \<noteq> self) (split_nl '''' s))" "length incoming \<le> 5"
  shows "\<exists>w'. groupMemberList en (Some (n, s)) w = Inr w' \<and>
    set (names (gm_members (wd_group w'))) = set incoming \<and>
    list_all2 (\<lambda>m m'. mb_name m \<in> set incoming \<longrightarrow> m' = m) (gm_members (wd_group w)) (gm_members (wd_group w')) \<and>
    gm_memberCount (wd_group w') - of_nat (members (wd_group w')) = gm_memberCount (wd_group w) - of_nat (members (wd_group w)) \<and>
    gm_membersInZoneCount (wd_group w') - of_nat (attached (wd_group w')) =
      gm_membersInZoneCount (wd_group w) - of_nat (attached (wd_group w))"
proof -
  note ok = reachable_ok [OF assms(1)]
  have g: "group_look.ok w (wd_group w)" using ok by (simp add: zone_ok_def group_ok_look)
  from group_look.memberList_roster [OF g set_order [OF assms(2)] assms(4-7)] obtain g' where
    g': "gm_groupMemberList (look en w) (en_set_order en) self (Some (n, s)) (wd_group w) = Inr g'"
      "set (names (gm_members g')) = set incoming"
      "list_all2 (\<lambda>m m'. mb_name m \<in> set incoming \<longrightarrow> m' = m) (gm_members (wd_group w)) (gm_members g')" by blast
  have "distinct xs \<Longrightarrow> distinct (en_set_order en xs) \<and> set (en_set_order en xs) = set xs" for xs
    by (rule set_order [OF assms(2)])
  from group_look.gm_groupMemberList_ok [OF g this, of en self "Some (n, s)"] g'(1)
  have "excess g' = excess (wd_group w) \<and> count_excess g' = count_excess (wd_group w)" by fastforce
  then show ?thesis
    using g' assms(3) look_eq [OF ok assms(2)] by (simp add: groupMemberList_def excess_def count_excess_def)
qed

theorem roster_follows_list_witness:
  "\<exists>w'. groupMemberList demo_env (Some (3, ''Me'' @ CHR 0x0A # ''Bob'' @ CHR 0x0A # ''Eve'')) demo_zone = Inr w' \<and>
    set (names (gm_members (wd_group w'))) = {''Bob'', ''Eve''} \<and>
    gm_memberCount (wd_group w') - of_nat (members (wd_group w')) = 0"
proof -
  have n: "spawn_name player_addr demo_zone = Inr ''Me''"
    "gm_memberCount (wd_group demo_zone) - of_nat (members (wd_group demo_zone)) = 0" by code_simp+
  have "remdups (filter (\<lambda>name. name \<noteq> ''Me'') (split_nl '''' (''Me'' @ CHR 0x0A # ''Bob'' @ CHR 0x0A # ''Eve''))) = [''Bob'', ''Eve'']"
    by code_simp
  from roster_follows_list [OF demo_zone_reachable demo_env_ok n(1), of 3 "[''Bob'', ''Eve'']", OF _ _ this [symmetric]]
  show ?thesis using n(2) by fastforce
qed

section \<open>Spawns that go\<close>

text \<open>A packet that removes a spawn always deletes it, whatever its flag and the setting
  \<open>useUpdateRadius\<close> say: \<open>removeSpawn\<close> deletes first and only then looks for a spawn to mark as not updated,
  which it never finds.\<close>

theorem remove_always_deletes:
  "removeSpawn en sizeof_removeSpawnStruct DIR_Server (Some (i, flag)) w = deleteItem TSpawn (sint i) w"
proof (cases "deleteItem TSpawn (sint i) w")
  case (Inr v)
  have "map_of (wd_spawns v) (sint i) = None"
    using deleteItem_spawn_effect [OF Inr] by (simp add: AList.delete_conv)
  then have "deleteItem TSpawn (sint i) v = Inr v" by (simp add: deleteItem_def)
  then show ?thesis
    using Inr \<open>map_of _ _ = None\<close> by (simp add: removeSpawn_def DIR_Server_def DIR_Client_def)
qed (simp add: removeSpawn_def DIR_Server_def DIR_Client_def)

text \<open>The scan for a deleted id misses the entry that was written last.\<close>

lemma upd_first_no_match: "\<forall>x \<in> set xs. \<not> p x \<Longrightarrow> upd_first p f xs = None"
  by (induction xs) auto

lemma updateSpawn_new:
  assumes "updateSpawn en i pos vel (h, dh, an) w = Inr w'" "player_id w = Inr pid" "i \<noteq> pid"
    "map_of (wd_spawns w) (uint i) = None" "en_createUnknownSpawns en"
    "i \<notin> set (take (unat (wd_cntDeadSpawnIDs w)) (wd_deadSpawnID w))"
  shows "map_of (wd_spawns w') (uint i) = Some (wd_next w)"
proof -
  obtain x y z vx vy vz where p: "pos = (x, y, z)" "vel = (vx, vy, vz)" by (cases pos, cases vel)
  have scan: "upd_first (\<lambda>d. d \<noteq> 0 \<and> d = i) (\<lambda>d. 0) (take (unat (wd_cntDeadSpawnIDs w)) (wd_deadSpawnID w)) = None"
    using assms(6) by (intro upd_first_no_match) auto
  obtain v where n: "new_obj (OSpawn (spawn_unknown (en_clock en) (en_blank en) i pos vel h dh an)) w = (wd_next w, v)"
    by (simp add: new_obj_def)
  obtain v1 v2 where v: "refilter en (wd_next w) v = Inr v1"
    "shell_emit (AddItem (wd_next w)) (v1\<lparr>wd_spawns := AList.update (uint i) (wd_next w) (wd_spawns v1)\<rparr>) = Inr v2"
    "shell_emit (NumSpawns (length (wd_spawns v2))) v2 = Inr w'"
    using assms(1-5) scan n by (auto simp: updateSpawn_def p Let_def result_simps)
  show ?thesis using emit_effect [OF v(2)] emit_effect [OF v(3)] by (simp add: update_conv)
qed

text \<open>The position of a spawn that arrives right after the spawn was deleted brings it back. \<open>deleteSpawn\<close>
  advances the position in the ring before it writes, while the search for deleted ids in
  \<open>updateSpawn\<close> covers the first \<open>m_cntDeadSpawnIDs\<close> entries: until fifty spawns are deleted the last id lies
  just behind them, so that a ghost of the deleted spawn appears under its id.\<close>

theorem deleted_spawn_comes_back:
  assumes "zone_reachable w" "env_ok en" "player_id w = Inr pid" "i \<noteq> pid" "en_createUnknownSpawns en"
    "wd_posDeadSpawnIDs w = wd_cntDeadSpawnIDs w" "unat (wd_cntDeadSpawnIDs w) < 49" "i \<notin> set (wd_deadSpawnID w)"
  shows "\<exists>w1 w2. deleteSpawn (Some (ucast i)) w = Inr w1 \<and> map_of (wd_spawns w1) (uint i) = None \<and>
    updateSpawn en i pos vel turn w1 = Inr w2 \<and> map_of (wd_spawns w2) (uint i) \<noteq> None"
proof -
  have ok: "zone_ok w" using assms(1) by (rule reachable_ok)
  obtain w1 where w1: "deleteSpawn (Some (ucast i)) w = Inr w1" "zone_ok w1"
    using deleteSpawn_safe [OF ok] unfolding safe_def by blast
  obtain w2 where w2: "updateSpawn en i pos vel turn w1 = Inr w2"
    using updateSpawn_safe [OF w1(2)] unfolding safe_def by blast
  let ?n = "wd_cntDeadSpawnIDs w + 1" and ?ids = "wd_deadSpawnID w"
  let ?v = "w\<lparr>wd_posDeadSpawnIDs := ?n, wd_cntDeadSpawnIDs := ?n, wd_deadSpawnID := ?ids[unat ?n := i]\<rparr>"
  have n: "unat ?n = unat (wd_cntDeadSpawnIDs w) + 1" using assms(7) by (simp add: unat_word_ariths)
  have "uint i < 2 ^ 16" using uint_bounded [of i] by simp
  then have k: "sint (ucast i :: u32) = uint i"
    by (simp add: sint_uint uint_up_ucast is_up)
      (rule signed_take_bit_int_eq_self, rule order_trans [of _ 0], simp_all)
  have u: "(ucast (ucast i :: u32) :: u16) = i"
    by (rule bit_word_eqI) (simp add: bit_simps)
  have del: "deleteItem TSpawn (uint i) ?v = Inr w1"
    using w1(1) assms(6,7) unfolding deleteSpawn_def option.case Let_def k u by (simp add: result_simps MAX_DEAD_SPAWNIDS_def)
  note eff = deleteItem_spawn_effect [OF del]
  have gone: "map_of (wd_spawns w1) (uint i) = None" using eff by (simp add: AList.delete_conv)
  have "take (unat ?n) (?ids[unat ?n := i]) = take (unat ?n) ?ids" by simp
  then have "i \<notin> set (take (unat (wd_cntDeadSpawnIDs w1)) (wd_deadSpawnID w1))"
    using eff assms(8) set_take_subset [of "unat ?n" ?ids] by auto
  moreover have "player_id w1 = Inr pid"
    using assms(3) eff by (simp add: player_id_def spawn_at_def obj_at_def)
  moreover obtain h dh an where "turn = (h, dh, an)" by (cases turn)
  ultimately have "map_of (wd_spawns w2) (uint i) \<noteq> None"
    using updateSpawn_new [of en i pos vel h dh an w1 w2 pid] w2 assms(4,5) gone by simp
  then show ?thesis using w1(1) gone w2 by blast
qed

theorem deleted_spawn_comes_back_witness:
  "\<exists>w1 w2. deleteSpawn (Some 7) demo_zone = Inr w1 \<and> map_of (wd_spawns w1) 7 = None \<and>
    updateSpawn demo_env 7 (1, 2, 3) (0, 0, 0) (0, 0, 0) w1 = Inr w2 \<and> map_of (wd_spawns w2) 7 \<noteq> None"
proof -
  have p: "player_id demo_zone = Inr 0" "wd_posDeadSpawnIDs demo_zone = wd_cntDeadSpawnIDs demo_zone"
    "unat (wd_cntDeadSpawnIDs demo_zone) < 49" "7 \<notin> set (wd_deadSpawnID demo_zone)" "en_createUnknownSpawns demo_env"
    by code_simp+
  show ?thesis
    using deleted_spawn_comes_back [OF demo_zone_reachable demo_env_ok p(1) _ p(5) p(2-4)] by simp
qed

lemma delete_snd:
  "distinct (map fst t) \<Longrightarrow> distinct (map snd t) \<Longrightarrow> map_of t k = Some a \<Longrightarrow>
   snd ` set (AList.delete k t) = snd ` set t - {a}"
proof (induction t)
  case (Cons x t)
  obtain j b where x: "x = (j, b)" by (cases x)
  show ?case
  proof (cases "j = k")
    case True
    then have "AList.delete k t = t" using Cons.prems(1) x by simp
    then show ?thesis using Cons.prems x True by auto
  next
    case False
    then have "(k, a) \<in> set t" using Cons.prems(3) x by (simp add: map_of_SomeD)
    then have "a \<noteq> b" using Cons.prems(2) x by force
    then show ?thesis using Cons x False by auto
  qed
qed simp

text \<open>A change of zone deletes every item of the tables, empties the tables, detaches every member of
  the group and sets the count of members in the zone to 0, while the names of the members stay.
  But a spawn that was deleted before is never freed: \<open>deleteItem\<close> only takes it out of its
  table, and after the change of zone it is still allocated and no table leads to it.\<close>

theorem change_of_zone_frees_tables_only:
  assumes "zone_reachable w" "map_of (wd_spawns w) k = Some a"
  shows "\<exists>w1 w2. deleteItem TSpawn k w = Inr w1 \<and> shell_clear w1 = Inr w2 \<and>
    wd_spawns w2 = [] \<and> wd_doors w2 = [] \<and> wd_drops w2 = [] \<and>
    (\<forall>b \<in> set (addrs w). b \<noteq> a \<longrightarrow> wd_heap w2 b = None) \<and> wd_heap w2 a = wd_heap w a \<and> wd_heap w2 a \<noteq> None \<and>
    attached (wd_group w2) = 0 \<and> gm_membersInZoneCount (wd_group w2) = 0 \<and>
    map mb_name (gm_members (wd_group w2)) = map mb_name (gm_members (wd_group w1))"
proof -
  have ok: "zone_ok w" using assms(1) by (rule reachable_ok)
  obtain w1 where w1: "deleteItem TSpawn k w = Inr w1" "zone_ok w1"
    using deleteItem_safe [OF ok] unfolding safe_def by blast
  obtain w2 where w2: "shell_clear w1 = Inr w2" "addrs w2 = []"
    "\<forall>a. wd_heap w2 a = (if a \<in> set (addrs w1) then None else wd_heap w1 a)" "wd_group w2 = gm_clear (wd_group w1)"
    using shell_clear_effect [OF w1(2)] by blast
  note eff = deleteItem_spawn_effect [OF w1(1)]
  have d: "distinct (addrs w)" "distinct (map fst (wd_spawns w))"
    using ok by (simp_all add: zone_ok_def tables_ok_def entries_ok_def)
  have mem: "(k, a) \<in> set (wd_spawns w)" using assms(2) by (rule map_of_SomeD)
  have "a \<notin> set (map snd (wd_doors w) @ map snd (wd_drops w))" using d(1) imageI [OF mem, of snd] by (auto simp: addrs_def)
  moreover have "snd ` set (AList.delete k (wd_spawns w)) = snd ` set (wd_spawns w) - {a}"
    using d assms(2) by (intro delete_snd) (simp_all add: addrs_def)
  ultimately have addr: "set (addrs w1) = set (addrs w) - {a}"
    using eff by (simp add: addrs_def Un_Diff)
  have "wd_heap w a \<noteq> None" using table_spawn(1) [OF ok assms(2)] by (simp add: is_spawn_iff) blast
  moreover have "attached (gm_clear g) = 0" "gm_membersInZoneCount (gm_clear g) = 0"
    "map mb_name (gm_members (gm_clear g)) = map mb_name (gm_members g)" for g
    by (simp_all add: attached_def gm_clear_def)
  moreover have "\<forall>b \<in> set (addrs w). b \<noteq> a \<longrightarrow> wd_heap w2 b = None" "wd_heap w2 a = wd_heap w a"
    using w2(3) addr eff by simp_all
  moreover have "wd_spawns w2 = []" "wd_doors w2 = []" "wd_drops w2 = []" using w2(2) by (simp_all add: addrs_def)
  ultimately show ?thesis using w1(1) w2(1,4) by (intro exI [of _ w1] exI [of _ w2]) simp
qed

theorem change_of_zone_frees_tables_only_witness:
  "\<exists>w1 w2. deleteItem TSpawn 7 demo_zone = Inr w1 \<and> shell_clear w1 = Inr w2 \<and> wd_spawns w2 = [] \<and> wd_heap w2 1 \<noteq> None \<and>
    attached (wd_group w2) = 0"
  using change_of_zone_frees_tables_only [OF demo_zone_reachable, of 7 1] by (auto simp: demo_zone_spawns)

section \<open>The id of the player\<close>

lemma deleteItem_player_effect:
  assumes "deleteItem TPlayer k w = Inr w'"
  shows "wd_players w' = AList.delete k (wd_players w) \<and> wd_heap w' = wd_heap w \<and> wd_spawns w' = wd_spawns w"
proof (cases "map_of (wd_players w) k")
  case None
  then have "k \<notin> fst ` set (wd_players w)" by (simp add: map_of_eq_None_iff)
  then have "AList.delete k (wd_players w) = wd_players w" by (metis AList.delete_id)
  with assms None show ?thesis by (simp add: deleteItem_def)
next
  case (Some a)
  then obtain v where v: "shell_emit (DelItem a) w = Inr v"
    "shell_emit (NumSpawns (length (wd_spawns v))) (v\<lparr>wd_players := AList.delete k (wd_players v)\<rparr>) = Inr w'"
    using assms by (auto simp: deleteItem_def Let_def result_simps)
  show ?thesis using emit_effect [OF v(1)] emit_effect [OF v(2)] by simp
qed

definition player_spawn_of :: "world \<Rightarrow> spawn \<Rightarrow> bool" where
  "player_spawn_of w s \<longleftrightarrow> wd_heap w player_addr = Some (OSpawn s)"

lemma playerChangedID_effect:
  assumes "playerChangedID old i w = Inr w'" "old \<noteq> i" "player_spawn_of w p"
  shows "map_of (wd_spawns w') = (map_of (wd_spawns w))(uint i := None) \<and>
    map_of (wd_players w') = (map_of (wd_players w))(0 := None, uint old := None, uint i \<mapsto> player_addr) \<and>
    (\<exists>p'. player_spawn_of w' p' \<and> it_id p' = it_id p \<and>
      (\<forall>a n. map_of (wd_spawns w) (uint i) = Some a \<longrightarrow> spawn_name a w = Inr n \<longrightarrow> n \<noteq> '''' \<longrightarrow> it_name p' = n))"
proof -
  obtain w1 w2 w3 w4 where
    1: "(case map_of (wd_spawns w) (uint i) of
              None \<Rightarrow> Inr w
            | Some a \<Rightarrow> rbind (spawn_name a w) (\<lambda>n.
                if n \<noteq> '''' then rbind (with_spawn player_addr (\<lambda>s. s\<lparr>it_name := n\<rparr>) w) (shell_emit (PlayerNameResolved n))
                else Inr w)) = Inr w1"
    and 2: "deleteItem TPlayer 0 w1 = Inr w2" and 3: "deleteItem TPlayer (uint old) w2 = Inr w3"
    and 4: "deleteItem TSpawn (uint i) w3 = Inr w4"
    and 5: "shell_emit (ChangeItem player_addr tSpawnChangedALL) (w4\<lparr>wd_players := AList.update (uint i) player_addr (wd_players w4)\<rparr>) = Inr w'"
    using assms(1,2) by (auto simp: playerChangedID_def rbind_eq_Inr)
  have name: "wd_spawns w1 = wd_spawns w \<and> wd_players w1 = wd_players w \<and> (\<exists>p'. player_spawn_of w1 p' \<and> it_id p' = it_id p \<and>
      (\<forall>a n. map_of (wd_spawns w) (uint i) = Some a \<longrightarrow> spawn_name a w = Inr n \<longrightarrow> n \<noteq> '''' \<longrightarrow> it_name p' = n))"
  proof (cases "map_of (wd_spawns w) (uint i)")
    case (Some a)
    then obtain n where n: "spawn_name a w = Inr n" using 1 by (auto simp: result_simps)
    show ?thesis
    proof (cases "n = ''''")
      case False
      then obtain v where v: "with_spawn player_addr (\<lambda>s. s\<lparr>it_name := n\<rparr>) w = Inr v" "shell_emit (PlayerNameResolved n) v = Inr w1"
        using 1 Some n by (auto simp: result_simps)
      have "v = put player_addr (OSpawn (p\<lparr>it_name := n\<rparr>)) w"
        using v(1) assms(3) by (auto simp: player_spawn_of_def elim!: with_spawn_effect)
      then show ?thesis using emit_effect [OF v(2)] Some n by (simp add: player_spawn_of_def)
    qed (use 1 Some n assms(3) in auto)
  qed (use 1 assms(3) in auto)
  note d = deleteItem_player_effect [OF 2] deleteItem_player_effect [OF 3] deleteItem_spawn_effect [OF 4]
  then show ?thesis
    using name emit_effect [OF 5]
    by (auto simp: player_spawn_of_def AList.delete_conv' update_conv' fun_eq_iff)
qed

lemma setPlayerID_effect:
  assumes "zone_ok w" "player_id w = Inr old" "i \<noteq> old"
  shows "\<exists>w' p. setPlayerID en i w = Inr w' \<and> player_id w' = Inr i \<and> findID TSpawn (uint i) w' = Inr (Some player_addr) \<and>
    map_of (wd_spawns w') = (map_of (wd_spawns w))(uint i := None) \<and>
    map_of (wd_players w') = (map_of (wd_players w))(0 := None, uint old := None, uint i \<mapsto> player_addr) \<and>
    wd_heap w' player_addr = Some (OSpawn p) \<and>
    (\<forall>a s. map_of (wd_spawns w) (uint i) = Some a \<longrightarrow> wd_heap w a = Some (OSpawn s) \<longrightarrow> it_name s \<noteq> '''' \<longrightarrow> it_name p = it_name s)"
proof -
  note ok = assms(1)
  obtain w' where w': "setPlayerID en i w = Inr w'" using setPlayerID_safe [OF ok] unfolding safe_def by blast
  obtain w1 w2 w3 where steps: "with_spawn player_addr (\<lambda>s. s\<lparr>it_id := i\<rparr>) w = Inr w1" "playerChangedID old i w1 = Inr w2"
    "touch en player_addr w2 = Inr w3" "shell_emit (ChangeItem player_addr tSpawnChangedALL) w3 = Inr w'"
    using w' assms(2,3) by (auto simp: setPlayerID_def result_simps)
  obtain s where s: "wd_heap w player_addr = Some (OSpawn s)" "w1 = put player_addr (OSpawn (s\<lparr>it_id := i\<rparr>)) w"
    using steps(1) by (rule with_spawn_effect)
  have "player_spawn_of w1 (s\<lparr>it_id := i\<rparr>)" by (simp add: player_spawn_of_def s(2))
  from playerChangedID_effect [OF steps(2) assms(3) [symmetric] this] s(2) obtain p where
    p: "map_of (wd_spawns w2) = (map_of (wd_spawns w))(uint i := None)"
      "map_of (wd_players w2) = (map_of (wd_players w))(0 := None, uint old := None, uint i \<mapsto> player_addr)"
      "wd_heap w2 player_addr = Some (OSpawn p)" "it_id p = i"
      "\<forall>a n. map_of (wd_spawns w) (uint i) = Some a \<longrightarrow> spawn_name a w1 = Inr n \<longrightarrow> n \<noteq> '''' \<longrightarrow> it_name p = n"
    by (auto simp: player_spawn_of_def)
  have name: "it_name p = it_name t" if "map_of (wd_spawns w) (uint i) = Some a" "wd_heap w a = Some (OSpawn t)" "it_name t \<noteq> ''''" for a t
  proof -
    have "a \<noteq> player_addr" using table_spawn(2) [OF ok that(1)] .
    then have "spawn_name a w1 = Inr (it_name t)"
      using that(2) s(2) by (simp add: spawn_name_def spawn_at_def obj_at_def seen_def)
    then show ?thesis using p(5) that by blast
  qed
  have w3: "wd_heap w3 player_addr = Some (OSpawn (updateLastChanged (en_clock en) p))"
    using steps(3) p(3) by (auto simp: touch_def obj_at_def)
  note q = quiet_fields [OF touch_quiet [OF steps(3)]]
  note e = emit_effect [OF steps(4)]
  have "player_id w' = Inr i"
    using e(1) w3 p(4) by (simp add: player_id_def spawn_at_def obj_at_def updateLastChanged_def)
  then show ?thesis
    using w' p(1,2) q e w3 name
    by (intro exI [of _ w'] exI [of _ "updateLastChanged (en_clock en) p"]) (simp add: findID_def updateLastChanged_def)
qed

text \<open>C36: when the player gets a new id it takes the place of the spawn that had it: the spawn leaves the table
  of spawns, whose other entries stay, and hands its name, unless it is empty, to the player; the
  player has the id and is found under it; and in the table of players it is entered under the new
  id, the entries of 0 and of its previous id go, and the others stay.\<close>

theorem player_takes_over_id:
  assumes "zone_reachable w" "player_id w = Inr old" "i \<noteq> old"
  shows "\<exists>w' p. setPlayerID en i w = Inr w' \<and> player_id w' = Inr i \<and> findID TSpawn (uint i) w' = Inr (Some player_addr) \<and>
    map_of (wd_spawns w') = (map_of (wd_spawns w))(uint i := None) \<and>
    map_of (wd_players w') = (map_of (wd_players w))(0 := None, uint old := None, uint i \<mapsto> player_addr) \<and>
    wd_heap w' player_addr = Some (OSpawn p) \<and>
    (\<forall>a s. map_of (wd_spawns w) (uint i) = Some a \<longrightarrow> wd_heap w a = Some (OSpawn s) \<longrightarrow> it_name s \<noteq> '''' \<longrightarrow> it_name p = it_name s)"
  by (rule setPlayerID_effect [OF reachable_ok [OF assms(1)] assms(2,3)])

theorem player_takes_over_id_witness:
  "\<exists>w' p. setPlayerID demo_env 7 demo_zone = Inr w' \<and> findID TSpawn 7 w' = Inr (Some player_addr) \<and>
    map_of (wd_spawns w') 7 = None \<and> wd_heap w' player_addr = Some (OSpawn p) \<and> it_name p = ''Bob''"
proof -
  have p: "player_id demo_zone = Inr 0" by code_simp
  have "map_option obj_name (wd_heap demo_zone 1) = Some ''Bob''" by code_simp
  moreover obtain s where "wd_heap demo_zone 1 = Some (OSpawn s)"
    using zone_tables_typed [OF demo_zone_reachable] by (auto simp: demo_zone_spawns)
  ultimately show ?thesis
    using player_takes_over_id [OF demo_zone_reachable p, of 7 demo_env] by (fastforce simp: demo_zone_spawns)
qed

section \<open>Spawns that enter\<close>

text \<open>A spawn shows what its wire form says.\<close>

definition shows_wire :: "spawnStruct \<Rightarrow> spawn \<Rightarrow> bool" where
  "shows_wire ss s \<longleftrightarrow> it_name s = ss_name ss \<and> sp_lastName s = ss_lastName ss \<and>
     it_pos s = (ucast (signed_drop_bit 3 (ss_x ss)), ucast (signed_drop_bit 3 (ss_y ss)), ucast (signed_drop_bit 3 (ss_z ss))) \<and>
     sp_level s = ucast (ss_level ss) \<and> sp_race s = ucast (ss_race ss) \<and> sp_class s = ss_class ss \<and>
     sp_curHP s = ucast (ss_curHp ss) \<and> sp_maxHP s = 100 \<and> sp_guildID s = ucast (ss_guildID ss) \<and>
     sp_guildServerID s = ucast (ss_guildServerID ss) \<and>
     (it_NPC s = ss_NPC ss \<or> it_NPC s = SPAWN_NPC_CORPSE \<and> ss_NPC ss = SPAWN_PC_CORPSE \<and> ss_deity ss = 0)"

lemma shows_wire_update: "shows_wire ss (spawn_update ck ss s)"
  unfolding spawn_update_def spawn_builders Let_def shows_wire_def
  by (simp add: setEquipment_def tNumWearSlots_def tUnknown1_def)

lemma shows_wire_core: "shows_wire ss (core s) = shows_wire ss s"
  by (simp add: shows_wire_def core_def)

lemma shows_wire_guild: "shows_wire ss (guild_tag en s) = shows_wire ss s"
  by (simp add: shows_wire_def guild_tag_def)

lemma core_at_put: "core_at (put a (OSpawn s) w) = (core_at w)(a \<mapsto> core s)"
  by (auto simp: core_at_def)

lemma core_atD: "core_at w a = Some c \<Longrightarrow> \<exists>s. wd_heap w a = Some (OSpawn s) \<and> core s = c"
  by (auto simp: core_at_def split: option.splits obj.splits)

lemma core_at_tables [simp]:
  "core_at (w\<lparr>wd_spawns := t\<rparr>) = core_at w" "core_at (w\<lparr>wd_deadSpawnID := ds\<rparr>) = core_at w" "core_at (w\<lparr>wd_next := n\<rparr>) = core_at w"
  by (simp_all add: core_at_def fun_eq_iff)

lemma emit_core: "shell_emit e w = Inr w' \<Longrightarrow> core_at w' = core_at w"
  by (simp add: core_at_def fun_eq_iff emit_effect(1))

text \<open>The other tables and the player's names and settings.\<close>

definition rest_of :: "world \<Rightarrow> item_map \<times> item_map \<times> item_map \<times> player_info" where
  "rest_of w = (wd_doors w, wd_drops w, wd_players w, wd_player w)"

lemma rest_quiet: "quiet w w' \<Longrightarrow> rest_of w' = rest_of w"
  by (simp add: rest_of_def quiet_fields)

lemma rest_emit: "shell_emit e w = Inr w' \<Longrightarrow> rest_of w' = rest_of w"
  by (simp add: rest_of_def emit_effect)

lemma rest_fields [simp]:
  "rest_of (put a ob w) = rest_of w" "rest_of (w\<lparr>wd_spawns := t\<rparr>) = rest_of w" "rest_of (w\<lparr>wd_next := n\<rparr>) = rest_of w"
  "rest_of (w\<lparr>wd_deadSpawnID := d\<rparr>) = rest_of w"
  by (simp_all add: rest_of_def)

text \<open>The guild tag is set last.\<close>

lemma tagged:
  assumes "with_spawn a (guild_tag en) v = Inr v'" "core_at v a = Some (core (spawn_update ck ss s0))"
  shows "(\<exists>s. wd_heap v' a = Some (OSpawn s) \<and> shows_wire ss s \<and> sp_guildTag s = en_guildTag en (sp_guildID s) (sp_guildServerID s)) \<and>
    (\<forall>b. b \<noteq> a \<longrightarrow> core_at v' b = core_at v b) \<and> wd_spawns v' = wd_spawns v \<and> rest_of v' = rest_of v"
proof -
  obtain s where s: "wd_heap v a = Some (OSpawn s)" "v' = put a (OSpawn (guild_tag en s)) v"
    using assms(1) by (rule with_spawn_effect)
  then have "core s = core (spawn_update ck ss s0)" using assms(2) by (simp add: core_at_def)
  then have "shows_wire ss s" using shows_wire_update shows_wire_core by metis
  then have "shows_wire ss (guild_tag en s)" by (simp add: shows_wire_guild)
  moreover have "sp_guildTag (guild_tag en s) = en_guildTag en (sp_guildID (guild_tag en s)) (sp_guildServerID (guild_tag en s))"
    by (simp add: guild_tag_def)
  ultimately show ?thesis using s(2) by (simp add: core_at_put rest_of_def)
qed

lemma newSpawn_effect:
  assumes "newSpawn en ss w = Inr w'" "ss_NPC ss \<noteq> SPAWN_SELF" "\<not> calcIsMount (ss_race ss) (ss_level ss)" "k = sint (ss_spawnId ss)"
  shows "\<exists>a s. map_of (wd_spawns w') = (map_of (wd_spawns w))(k \<mapsto> a) \<and>
    a = (case map_of (wd_spawns w) k of Some b \<Rightarrow> b | None \<Rightarrow> wd_next w) \<and>
    wd_heap w' a = Some (OSpawn s) \<and> shows_wire ss s \<and> sp_guildTag s = en_guildTag en (sp_guildID s) (sp_guildServerID s) \<and>
    (\<forall>b. b \<noteq> a \<longrightarrow> core_at w' b = core_at w b) \<and> rest_of w' = rest_of w"
proof -
  let ?w = "forget_dead (ss_spawnId ss) w"
  have same: "wd_spawns ?w = wd_spawns w" "core_at ?w = core_at w" "wd_next ?w = wd_next w" "rest_of ?w = rest_of w"
    by (simp_all add: forget_dead_def Let_def)
  show ?thesis
  proof (cases "map_of (wd_spawns w) k")
    case (Some a)
    then obtain w1 w2 w3 w4 where steps: "with_spawn a (spawn_update (en_clock en) ss) ?w = Inr w1" "refilter en a w1 = Inr w2"
      "touch en a w2 = Inr w3" "with_spawn a (guild_tag en) w3 = Inr w4" "shell_emit (ChangeItem a tSpawnChangedALL) w4 = Inr w'"
      using assms same by (auto simp: newSpawn_def Let_def result_simps)
    obtain s0 where s0: "w1 = put a (OSpawn (spawn_update (en_clock en) ss s0)) ?w" using steps(1) by (rule with_spawn_effect)
    note q = quiet_trans [OF refilter_quiet [OF steps(2)] touch_quiet [OF steps(3)]]
    have c: "core_at w3 = (core_at w)(a \<mapsto> core (spawn_update (en_clock en) ss s0))"
      using quiet_fields(12) [OF q] s0 same by (auto simp: core_at_put fun_eq_iff)
    then have "core_at w3 a = Some (core (spawn_update (en_clock en) ss s0))" by simp
    note t = tagged [OF steps(4) this]
    have "wd_spawns w' = wd_spawns w" using emit_effect(2) [OF steps(5)] t quiet_fields(2) [OF q] s0 same by simp
    then show ?thesis
      using t Some emit_effect(1) [OF steps(5)] emit_core [OF steps(5)] c rest_emit [OF steps(5)] rest_quiet [OF q] s0 same
      by (auto simp: map_upd_triv)
  next
    case None
    let ?a = "wd_next w" and ?s = "spawn_of_struct (en_clock en) (en_blank en) ss"
    let ?v = "(put ?a (OSpawn ?s) ?w)\<lparr>wd_next := ?a + 1\<rparr>"
    obtain w1 w2 w3 where steps: "refilter en ?a ?v = Inr w1"
      "with_spawn ?a (guild_tag en) (w1\<lparr>wd_spawns := AList.update k ?a (wd_spawns w1)\<rparr>) = Inr w2"
      "shell_emit (AddItem ?a) w2 = Inr w3" "shell_emit (NumSpawns (length (wd_spawns w3))) w3 = Inr w'"
      using assms None same by (auto simp: newSpawn_def Let_def result_simps new_obj_def)
    note q = refilter_quiet [OF steps(1)]
    have c: "core_at w1 = (core_at w)(?a \<mapsto> core ?s)"
      using quiet_fields(12) [OF q] same by (auto simp: core_at_put fun_eq_iff)
    then have "core_at (w1\<lparr>wd_spawns := AList.update k ?a (wd_spawns w1)\<rparr>) ?a = Some (core ?s)" by simp
    note t = tagged [OF steps(2) this [unfolded spawn_of_struct_def]]
    have "map_of (wd_spawns w') = (map_of (wd_spawns w))(k \<mapsto> ?a)"
      using emit_effect(2) [OF steps(3)] emit_effect(2) [OF steps(4)] t quiet_fields(2) [OF q] same by (simp add: update_conv')
    then show ?thesis
      using t None emit_effect(1) [OF steps(3)] emit_effect(1) [OF steps(4)] emit_core [OF steps(3)] emit_core [OF steps(4)] c
        rest_emit [OF steps(3)] rest_emit [OF steps(4)] rest_quiet [OF q] same
      by auto
  qed
qed

text \<open>C11: while not zoning, a spawn that the server announces, other than the player and mounts, is found
  afterwards under its id with what the wire form says of it and the tag of its guild: the known spawn
  is updated in place, an unknown one gets an object of its own. Every other entry of the table of
  spawns, the tables of doors, drops and players and the names of the player stay, and every other
  spawn keeps all but its filter flags and its time of change.\<close>

theorem announced_spawn_is_found:
  assumes "zone_reachable w" "\<not> wd_zoning w" "ss_NPC ss \<noteq> SPAWN_SELF" "\<not> calcIsMount (ss_race ss) (ss_level ss)"
  shows "\<exists>w' a s. newSpawn_packet en ss w = Inr w' \<and>
    map_of (wd_spawns w') = (map_of (wd_spawns w))(sint (ss_spawnId ss) \<mapsto> a) \<and>
    a = (case map_of (wd_spawns w) (sint (ss_spawnId ss)) of Some b \<Rightarrow> b | None \<Rightarrow> wd_next w) \<and>
    wd_heap w' a = Some (OSpawn s) \<and> shows_wire ss s \<and> sp_guildTag s = en_guildTag en (sp_guildID s) (sp_guildServerID s) \<and>
    (\<forall>b. b \<noteq> a \<longrightarrow> core_at w' b = core_at w b) \<and>
    wd_doors w' = wd_doors w \<and> wd_drops w' = wd_drops w \<and> wd_players w' = wd_players w \<and> wd_player w' = wd_player w"
proof -
  obtain w' where "newSpawn en ss w = Inr w'" using newSpawn_safe [OF reachable_ok [OF assms(1)]] unfolding safe_def by blast
  from newSpawn_effect [OF this assms(3,4) refl] this show ?thesis using assms(2) by (auto simp: newSpawn_packet_def rest_of_def)
qed

theorem announced_spawn_is_found_witness:
  "\<exists>w' s. newSpawn_packet demo_env (demo_spawn\<lparr>ss_level := 21\<rparr>) demo_zone = Inr w' \<and> map_of (wd_spawns w') 7 = Some 1 \<and>
    wd_heap w' 1 = Some (OSpawn s) \<and> it_name s = ''Bob'' \<and> sp_level s = 21"
proof -
  let ?ss = "demo_spawn\<lparr>ss_level := 21\<rparr>"
  have h: "\<not> wd_zoning demo_zone" "ss_NPC ?ss \<noteq> SPAWN_SELF" "\<not> calcIsMount (ss_race ?ss) (ss_level ?ss)" by code_simp+
  show ?thesis
    using announced_spawn_is_found [OF demo_zone_reachable h, of demo_env]
    by (fastforce simp: demo_zone_spawns shows_wire_def demo_spawn_def)
qed

section \<open>The id that a respawn leaves behind\<close>

text \<open>An entry of the table of players that is neither 0 nor the previous id is never taken out.
  \<open>respawnFromHover\<close> sets the id of the player to 0 without the signal that moves its entry, so that after
  the next id the player is still entered under the id of its corpse.\<close>

lemma respawn_players:
  assumes "zone_ok w" "respawnFromHover en DIR_Client w = Inr w'"
  shows "wd_players w' = wd_players w \<and> player_id w' = Inr 0"
proof -
  obtain c where c: "player_id w = Inr c" using player_id_ok [OF assms(1)] by blast
  obtain p where p: "wd_heap w player_addr = Some (OSpawn p)" using player_spawn [OF assms(1)] by (auto simp: is_spawn_iff)
  let ?p = "p\<lparr>it_id := 0\<rparr>" and ?v = "put player_addr (OSpawn (p\<lparr>it_id := 0\<rparr>)) w"
  let ?a = "wd_next w"
  let ?s = "spawn_copy (en_clock en) (en_blank en) (seen ?v player_addr ?p) c"
  have a: "?a \<noteq> player_addr" using assms(1) by (simp add: zone_ok_def tables_ok_def)
  obtain w1 w2 w3 where steps: "refilter en ?a ((put ?a (OSpawn ?s) ?v)\<lparr>wd_next := ?a + 1\<rparr>) = Inr w1"
    "with_spawn ?a (guild_tag en) (w1\<lparr>wd_spawns := AList.update (uint c) ?a (wd_spawns w1)\<rparr>) = Inr w2"
    "shell_emit (AddItem ?a) w2 = Inr w3" "shell_emit (NumSpawns (length (wd_spawns w3))) w3 = Inr w'"
    using assms(2) c p
    by (auto simp: respawnFromHover_def result_simps with_spawn_def spawn_at_def obj_at_def new_obj_def)
  note q = quiet_fields [OF refilter_quiet [OF steps(1)]]
  obtain t where t: "w2 = put ?a (OSpawn (guild_tag en t)) (w1\<lparr>wd_spawns := AList.update (uint c) ?a (wd_spawns w1)\<rparr>)"
    using steps(2) by (rule with_spawn_effect)
  have "core_at w1 player_addr = Some (core ?p)" using q(12) [of player_addr] a by (simp add: core_at_def)
  then obtain p1 where p1: "wd_heap w1 player_addr = Some (OSpawn p1)" "core p1 = core ?p" by (blast dest: core_atD)
  have "it_id (core p1) = 0" unfolding p1(2) by (simp add: core_def)
  then have "it_id p1 = 0" by (simp add: core_def)
  then have "player_id w' = Inr 0"
    using emit_effect(1) [OF steps(3)] emit_effect(1) [OF steps(4)] t p1(1) a
    by (simp add: player_id_def spawn_at_def obj_at_def)
  then show ?thesis using emit_effect(5) [OF steps(3)] emit_effect(5) [OF steps(4)] t q(5) by simp
qed

lemma respawn_keeps_old_id:
  assumes "zone_reachable w" "player_id w = Inr old" "old \<noteq> 0" "map_of (wd_players w) (uint old) = Some player_addr"
    "i \<noteq> 0"
  shows "\<exists>w1 w2. respawnFromHover en DIR_Client w = Inr w1 \<and> setPlayerID en i w1 = Inr w2 \<and>
    map_of (wd_players w2) (uint old) = Some player_addr \<and> map_of (wd_players w2) (uint i) = Some player_addr"
proof -
  have ok: "zone_ok w" using assms(1) by (rule reachable_ok)
  obtain w1 where w1: "respawnFromHover en DIR_Client w = Inr w1" "zone_ok w1"
    using respawnFromHover_safe [OF ok] unfolding safe_def by blast
  note r = respawn_players [OF ok w1(1)]
  obtain w2 where w2: "setPlayerID en i w1 = Inr w2"
    "map_of (wd_players w2) = (map_of (wd_players w1))(0 := None, uint (0 :: u16) := None, uint i \<mapsto> player_addr)"
    using setPlayerID_effect [OF w1(2) conjunct2 [OF r] assms(5)] by blast
  show ?thesis using w1(1) w2 r assms(3,4) by (simp add: uint_0_iff)
qed

lemma respawn_keeps_old_id_witness:
  "\<exists>w1 w2. respawnFromHover demo_env DIR_Client (demo_step (setPlayerID demo_env 5) demo_zone) = Inr w1 \<and>
    setPlayerID demo_env 7 w1 = Inr w2 \<and> map_of (wd_players w2) 5 = Some player_addr \<and> map_of (wd_players w2) 7 = Some player_addr"
proof -
  let ?w = "demo_step (setPlayerID demo_env 5) demo_zone"
  have "player_id ?w = Inr 5" "map_of (wd_players ?w) (uint (5 :: u16)) = Some player_addr" by code_simp+
  moreover have "zone_reachable ?w" by (intro demo_step_reachable demo_zone_reachable zone_handler.intros)
  ultimately show ?thesis using respawn_keeps_old_id [of ?w 5 7 demo_env] by simp
qed

section \<open>Shrouds\<close>

lemma shroud_header:
  assumes "data = le32_bytes i @ le16_bytes n @ tail_bytes" "len = length data"
  shows "readUInt32NC (mkNetStream data len) = Inr (i, (mkNetStream data len)\<lparr>ns_pos := 4\<rparr>)"
    "readUInt16NC ((mkNetStream data len)\<lparr>ns_pos := 4\<rparr>) = Inr (n, (mkNetStream data len)\<lparr>ns_pos := 6\<rparr>)"
    "ns_here ((mkNetStream data len)\<lparr>ns_pos := 6\<rparr>) = tail_bytes"
proof -
  have l: "length (le32_bytes i) = 4" "length (le16_bytes n) = 2" by (simp_all add: le32_bytes_def le16_bytes_def)
  show "readUInt32NC (mkNetStream data len) = Inr (i, (mkNetStream data len)\<lparr>ns_pos := 4\<rparr>)"
    using assms l by (simp add: readUInt32NC_def ns_fixed_def mkNetStream_def ns_here_def)
  show "readUInt16NC ((mkNetStream data len)\<lparr>ns_pos := 4\<rparr>) = Inr (n, (mkNetStream data len)\<lparr>ns_pos := 6\<rparr>)"
    using assms l by (simp add: readUInt16NC_def ns_fixed_def mkNetStream_def ns_here_def)
  show "ns_here ((mkNetStream data len)\<lparr>ns_pos := 6\<rparr>) = tail_bytes"
    using assms l by (simp add: mkNetStream_def ns_here_def)
qed

text \<open>\<open>shroudSpawn\<close> trusts the sizes in the packet. It reads past the packet exactly when the announced size
  less 6, in 16 bits, is more than what follows the header of six bytes (so also when less than 6 is
  announced), or when the record decodes, is the player's, and less than a whole profile follows it.
  Otherwise it returns.\<close>

theorem shroud_reads_past_packet:
  assumes "zone_reachable w" "player_id w = Inr pid" "data = le32_bytes i @ le16_bytes n @ tail_bytes"
    "length data < 2 ^ 32"
  shows "(shroudSpawn en decode psize profile_of data (length data) w = Inl OutOfBounds \<longleftrightarrow>
      length tail_bytes < unat (n - 6) \<or>
      decode (take (unat (n - 6)) tail_bytes) \<noteq> None \<and> i = ucast pid \<and> length tail_bytes < unat (n - 6) + psize) \<and>
    (shroudSpawn en decode psize profile_of data (length data) w = Inl OutOfBounds \<or>
      (\<exists>w'. shroudSpawn en decode psize profile_of data (length data) w = Inr w' \<and> zone_ok w'))"
proof -
  let ?n = "unat (n - 6)" and ?ns = "(mkNetStream data (length data))\<lparr>ns_pos := 6\<rparr>"
  let ?run = "shroudSpawn en decode psize profile_of data (length data) w"
  have ok: "zone_ok w" using assms(1) by (rule reachable_ok)
  note h = shroud_header [OF assms(3) refl]
  have len: "length data = 6 + length tail_bytes" by (simp add: assms(3) le32_bytes_def le16_bytes_def)
  have run: "?run = rbind (checked_take ?n tail_bytes) (\<lambda>record_bytes.
     case decode record_bytes of
       None \<Rightarrow> Inr w
     | Some out \<Rightarrow>
         if i \<noteq> ucast pid then newSpawn en (applySpawn out) w
         else rbind (checked_take psize (ns_here (skipBytes ?n ?ns))) (\<lambda>p.
              rbind (loadProfile (profile_of p) w) (\<lambda>w.
              rbind (refilter en player_addr w) (\<lambda>w.
              rbind (touch en player_addr w) (shell_emit (ChangeItem player_addr tSpawnChangedALL))))))"
    unfolding shroudSpawn_def h(1) rbind.simps prod.case h(2) Let_def h(3) assms(2) ..
  show ?thesis
  proof (cases "?n \<le> length tail_bytes")
    case True
    have tail: "drop 6 data = tail_bytes" using h(3) by (simp add: mkNetStream_def ns_here_def)
    have "drop (6 + ?n) data = drop ?n tail_bytes" by (simp add: tail [symmetric] add.commute)
    then have skip: "ns_here (skipBytes ?n ?ns) = drop ?n tail_bytes"
      using True len assms(4) by (simp add: skipBytes_def mkNetStream_def ns_here_def add.commute)
    show ?thesis
    proof (cases "decode (take ?n tail_bytes)")
      case None
      then show ?thesis using True ok by (simp add: run checked_take_def)
    next
      case (Some out)
      have new: "\<exists>w'. newSpawn en (applySpawn out) w = Inr w' \<and> zone_ok w'"
        using newSpawn_safe [OF ok] by (simp add: safe_def)
      show ?thesis
        using True Some new shroud_self_safe [OF ok, of "profile_of (take psize (drop ?n tail_bytes))" en]
        by (auto simp: run skip checked_take_def safe_def)
    qed
  qed (simp add: run checked_take_def)
qed

theorem shroud_reads_past_packet_witness:
  "shroudSpawn demo_env (\<lambda>bs. None) 19000 (\<lambda>bs. undefined) [7, 0, 0, 0, 5, 0, 1, 2] 8 demo_zone = Inl OutOfBounds"
proof -
  have p: "player_id demo_zone = Inr 0" by code_simp
  have d: "[7, 0, 0, 0, 5, 0, 1, 2] = le32_bytes 7 @ le16_bytes 5 @ [1, 2]"
    by (simp add: le32_bytes_def le16_bytes_def)
  have l: "length [7, 0, 0, 0, 5, 0, 1, 2 :: u8] = 8" by simp
  have n: "unat (5 - 6 :: u16) = 65535" by (simp add: unsigned_minus_1_eq_mask mask_eq_exp_minus_1)
  show ?thesis
    using shroud_reads_past_packet [OF demo_zone_reachable p d, of demo_env "\<lambda>bs. None" 19000 "\<lambda>bs. undefined"]
    unfolding n l by simp
qed

end
