(* ===== verification/QtText.thy ===== *)
theory QtText
  imports Prelude
begin

text \<open>
  The operations of \<open>QString\<close> the components share, on strings of 8-bit characters: decimal numbers
  (\<open>QString::number\<close>, the conversions \<open>%d\<close> and \<open>%u\<close> of \<open>asprintf\<close>), the case-insensitive comparison of
  \<open>Qt::CaseInsensitive\<close>, \<open>trimmed\<close>, and the searches \<open>startsWith\<close>, \<open>indexOf\<close> and \<open>replace\<close>.
\<close>

text \<open>Bytes as text.\<close>

definition fromLatin1 :: "bytes \<Rightarrow> string" where
  "fromLatin1 p = map (\<lambda>b. char_of (unat b)) p"

section \<open>Decimal numbers\<close>

definition digit_char :: "nat \<Rightarrow> char" where
  "digit_char n = char_of (48 + n)"

fun dec :: "nat \<Rightarrow> string" where
  "dec n = (if n < 10 then [digit_char n] else dec (n div 10) @ [digit_char (n mod 10)])"

declare dec.simps [simp del]

definition dec_int :: "int \<Rightarrow> string" where
  "dec_int i = (if i < 0 then CHR ''-'' # dec (nat (- i)) else dec (nat i))"

definition undec :: "string \<Rightarrow> nat" where
  "undec s = foldl (\<lambda>a c. 10 * a + (of_char c - 48)) 0 s"

definition is_decimal :: "char \<Rightarrow> bool" where
  "is_decimal c \<longleftrightarrow> (48::nat) \<le> of_char c \<and> of_char c \<le> (57::nat)"

lemma of_char_digit [simp]: "n < 10 \<Longrightarrow> of_char (digit_char n) = 48 + n"
  by (simp add: digit_char_def of_char_of)

lemma dec_not_Nil [simp]: "dec n \<noteq> []"
  by (subst dec.simps) simp

lemma dec_digits: "c \<in> set (dec n) \<Longrightarrow> is_decimal c"
proof (induction n rule: dec.induct)
  case (1 n)
  then show ?case by (subst (asm) (2) dec.simps) (auto simp: is_decimal_def split: if_splits)
qed

lemma undec_dec [simp]: "undec (dec n) = n"
proof (induction n rule: dec.induct)
  case (1 n)
  then show ?case by (subst dec.simps) (auto simp: undec_def)
qed

lemma dec_inj [simp]: "dec m = dec n \<longleftrightarrow> m = n"
  by (metis undec_dec)

lemma minus_no_digit [simp]: "\<not> is_decimal CHR ''-''"
  by (simp add: is_decimal_def)

lemma dec_int_not_Nil [simp]: "dec_int i \<noteq> []"
  by (simp add: dec_int_def)

lemma dec_no_minus: "dec n \<noteq> CHR ''-'' # s"
  using dec_digits [of "CHR ''-''" n] by auto

lemma dec_int_inj [simp]: "dec_int i = dec_int j \<longleftrightarrow> i = j"
  using dec_no_minus [of "nat i"] dec_no_minus [of "nat j"]
  by (auto simp: dec_int_def dest: sym split: if_splits)

text \<open>A number ends where something else than a digit follows.\<close>

lemma takeWhile_dec: "\<not> is_decimal c \<Longrightarrow> takeWhile is_decimal (dec n @ c # s) = dec n"
  by (subst takeWhile_append2) (auto dest: dec_digits)

lemma dec_append_inj:
  assumes "\<not> is_decimal c" "\<not> is_decimal d"
  shows "dec i @ c # s = dec j @ d # t \<longleftrightarrow> i = j \<and> c = d \<and> s = t"
proof
  assume e: "dec i @ c # s = dec j @ d # t"
  have "dec i = dec j" using arg_cong [OF e, of "takeWhile is_decimal"] assms by (simp add: takeWhile_dec)
  then show "i = j \<and> c = d \<and> s = t" using e by simp
qed simp

section \<open>Case and blanks\<close>

definition lower_char :: "char \<Rightarrow> char" where
  "lower_char c = (let n = of_char c :: nat in if 65 \<le> n \<and> n \<le> 90 then char_of (n + 32) else c)"

definition lower :: "string \<Rightarrow> string" where
  "lower s = map lower_char s"

definition same_ci :: "string \<Rightarrow> string \<Rightarrow> bool" where
  "same_ci s t \<longleftrightarrow> lower s = lower t"

definition is_blank :: "char \<Rightarrow> bool" where
  "is_blank c \<longleftrightarrow> (let n = of_char c :: nat in n = 32 \<or> (9 \<le> n \<and> n \<le> 13))"

definition trimmed :: "string \<Rightarrow> string" where
  "trimmed s = rev (dropWhile is_blank (rev (dropWhile is_blank s)))"

lemma length_lower [simp]: "length (lower s) = length s"
  by (simp add: lower_def)

lemma lower_Nil [simp]: "lower [] = []"
  by (simp add: lower_def)

lemma trimmed_Nil [simp]: "trimmed [] = []"
  by (simp add: trimmed_def)

text \<open>Text without a blank at either end is left alone.\<close>

lemma trimmed_id:
  assumes "s \<noteq> []" "\<not> is_blank (hd s)" "\<not> is_blank (last s)"
  shows "trimmed s = s"
proof -
  have "dropWhile is_blank s = s" using assms(1,2) by (cases s) auto
  moreover have "dropWhile is_blank (rev s) = rev s"
    using assms(1,3) by (cases s rule: rev_cases) auto
  ultimately show ?thesis by (simp add: trimmed_def)
qed

section \<open>Searching\<close>

definition starts_with :: "string \<Rightarrow> string \<Rightarrow> bool" where
  "starts_with s p \<longleftrightarrow> take (length p) s = p"

definition starts_with_ci :: "string \<Rightarrow> string \<Rightarrow> bool" where
  "starts_with_ci s p \<longleftrightarrow> same_ci (take (length p) s) p"

definition ends_with_ci :: "string \<Rightarrow> string \<Rightarrow> bool" where
  "ends_with_ci s p \<longleftrightarrow> length p \<le> length s \<and> same_ci (drop (length s - length p) s) p"

fun indexOf_char :: "char \<Rightarrow> string \<Rightarrow> nat option" where
  "indexOf_char c [] = None"
| "indexOf_char c (d # s) = (if d = c then Some 0 else map_option Suc (indexOf_char c s))"

fun contains_ci :: "string \<Rightarrow> string \<Rightarrow> bool" where
  "contains_ci [] p = starts_with_ci [] p"
| "contains_ci (c # s) p = (starts_with_ci (c # s) p \<or> contains_ci s p)"

text \<open>\<open>QString::replace(before, after, Qt::CaseInsensitive)\<close>: from the left, without overlaps.\<close>

fun replace_ci :: "string \<Rightarrow> string \<Rightarrow> nat \<Rightarrow> string \<Rightarrow> string" where
  "replace_ci p a skip [] = []"
| "replace_ci p a (Suc k) (c # s) = replace_ci p a k s"
| "replace_ci p a 0 (c # s) =
     (if p \<noteq> [] \<and> starts_with_ci (c # s) p then a @ replace_ci p a (length p - 1) s
      else c # replace_ci p a 0 s)"

lemma replace_ci_id: "\<not> contains_ci s p \<Longrightarrow> replace_ci p a 0 s = s"
  by (induction s) auto

lemma indexOf_char_None: "indexOf_char c s = None \<longleftrightarrow> c \<notin> set s"
  by (induction s) auto

text \<open>A replacement that is longer than what it replaces makes the text longer, once per occurrence.\<close>

lemma length_replace_ci:
  assumes "length p \<le> length a" "p \<noteq> []"
  shows "length s \<le> length (replace_ci p a k s) + k"
proof (induction s arbitrary: k)
  case (Cons c s)
  show ?case
  proof (cases k)
    case 0
    have "length s \<le> length (replace_ci p a (length p - 1) s) + (length p - 1)" by (rule Cons.IH)
    then have "Suc (length s) \<le> length a + length (replace_ci p a (length p - 1) s)"
      using assms by (cases p) auto
    then show ?thesis using 0 Cons.IH [of 0] by simp
  next
    case (Suc m)
    then show ?thesis using Cons.IH [of m] by simp
  qed
qed simp

lemma replace_ci_longer:
  assumes "length p < length a" "p \<noteq> []" "contains_ci s p"
  shows "length s < length (replace_ci p a 0 s)"
  using assms(3)
proof (induction s)
  case Nil
  then show ?case using assms by (auto simp: starts_with_ci_def same_ci_def lower_def)
next
  case (Cons c s)
  show ?case
  proof (cases "starts_with_ci (c # s) p")
    case True
    have "length s \<le> length (replace_ci p a (length p - 1) s) + (length p - 1)"
      using assms by (intro length_replace_ci) auto
    then show ?thesis using True assms by (cases p) auto
  qed (use Cons in auto)
qed

lemma replace_ci_fixed_iff:
  "length p < length a \<Longrightarrow> p \<noteq> [] \<Longrightarrow> replace_ci p a 0 s = s \<longleftrightarrow> \<not> contains_ci s p"
  using replace_ci_longer [of p a s] replace_ci_id [of s p a] by auto

section \<open>Lists in a line\<close>

text \<open>\<open>split\<close> at a character keeps the empty parts; a text without the character is one part.\<close>

fun split_char :: "char \<Rightarrow> string \<Rightarrow> string list" where
  "split_char d [] = [[]]"
| "split_char d (c # s) =
     (if c = d then [] # split_char d s
      else (case split_char d s of [] \<Rightarrow> [[c]] | w # ws \<Rightarrow> (c # w) # ws))"

fun join_char :: "char \<Rightarrow> string list \<Rightarrow> string" where
  "join_char d [] = []"
| "join_char d [w] = w"
| "join_char d (w # v # ws) = w @ d # join_char d (v # ws)"

lemma split_char_not_Nil [simp]: "split_char d s \<noteq> []"
  by (cases s) (auto split: list.split)

lemma split_char_append:
  "d \<notin> set w \<Longrightarrow> split_char d (w @ s) = (w @ hd (split_char d s)) # tl (split_char d s)"
  by (induction w) (auto split: list.split)

lemma split_char_plain: "d \<notin> set w \<Longrightarrow> split_char d w = [w]"
  using split_char_append [of d w "[]"] by simp

lemma split_join_char:
  "ws \<noteq> [] \<Longrightarrow> \<forall>w\<in>set ws. d \<notin> set w \<Longrightarrow> split_char d (join_char d ws) = ws"
  by (induction d ws rule: join_char.induct) (simp_all add: split_char_plain split_char_append)

text \<open>Lines end with line feeds and carriage returns in any order, and empty ones are skipped.\<close>

fun split_lines :: "string \<Rightarrow> string \<Rightarrow> string list" where
  "split_lines cur [] = (if cur = [] then [] else [cur])"
| "split_lines cur (c # s) =
     (if c = CHR 0x0A \<or> c = CHR 0x0D then (if cur = [] then split_lines [] s else cur # split_lines [] s)
      else split_lines (cur @ [c]) s)"

definition one_line :: "string \<Rightarrow> bool" where
  "one_line l \<longleftrightarrow> l \<noteq> '''' \<and> CHR 0x0A \<notin> set l \<and> CHR 0x0D \<notin> set l"

lemma split_lines_append:
  "CHR 0x0A \<notin> set l \<Longrightarrow> CHR 0x0D \<notin> set l \<Longrightarrow> split_lines cur (l @ s) = split_lines (cur @ l) s"
  by (induction l arbitrary: cur) auto

lemma split_lines_join:
  "list_all one_line ls \<Longrightarrow> split_lines [] (join_char CHR 0x0A ls) = ls"
proof (induction "CHR 0x0A" ls rule: join_char.induct)
  case (2 w)
  then show ?case using split_lines_append [of w "[]" "[]"] by (simp add: one_line_def)
qed (simp_all add: one_line_def split_lines_append)

end
