(* ===== verification/Prefs.thy ===== *)
theory Prefs
  imports Tables QtText "HOL-Library.List_Lexorder" "HOL-Library.Char_ord"
begin

text \<open>
  The preferences (\<open>src/tomlpreferences.h\<close>, \<open>src/tomlpreferences.cpp\<close>) and the colours they store
  (\<open>src/seqcolor.h\<close>, \<open>src/seqcolor.cpp\<close>): three pools of values by section and name, of which one is written to
  the user's file. The TOML library, the XML reader, the file system and the conversions of \<open>QString\<close> to
  numbers are parameters, fields of \<open>prefs_lib\<close>.
\<close>

section \<open>Colours\<close>

record color =
  cl_r :: u8
  cl_g :: u8
  cl_b :: u8
  cl_valid :: bool

definition no_color :: color where
  "no_color = \<lparr>cl_r = 0, cl_g = 0, cl_b = 0, cl_valid = False\<rparr>"

definition rgb :: "u8 \<Rightarrow> u8 \<Rightarrow> u8 \<Rightarrow> color" where
  "rgb r g b = \<lparr>cl_r = r, cl_g = g, cl_b = b, cl_valid = True\<rparr>"

definition kNamedColors :: "(string \<times> u8 \<times> u8 \<times> u8) list" where
  "kNamedColors =
   [(''aliceblue'', 240, 248, 255), (''antiquewhite'', 250, 235, 215), (''aqua'', 0, 255, 255),
    (''aquamarine'', 127, 255, 212), (''azure'', 240, 255, 255), (''beige'', 245, 245, 220),
    (''bisque'', 255, 228, 196), (''black'', 0, 0, 0), (''blanchedalmond'', 255, 235, 205),
    (''blue'', 0, 0, 255), (''blueviolet'', 138, 43, 226), (''brown'', 165, 42, 42),
    (''burlywood'', 222, 184, 135), (''cadetblue'', 95, 158, 160), (''chartreuse'', 127, 255, 0),
    (''chocolate'', 210, 105, 30), (''coral'', 255, 127, 80), (''cornflowerblue'', 100, 149, 237),
    (''cornsilk'', 255, 248, 220), (''crimson'', 220, 20, 60), (''cyan'', 0, 255, 255),
    (''darkblue'', 0, 0, 139), (''darkcyan'', 0, 139, 139), (''darkgoldenrod'', 184, 134, 11),
    (''darkgray'', 169, 169, 169), (''darkgreen'', 0, 100, 0), (''darkgrey'', 169, 169, 169),
    (''darkkhaki'', 189, 183, 107), (''darkmagenta'', 139, 0, 139), (''darkolivegreen'', 85, 107, 47),
    (''darkorange'', 255, 140, 0), (''darkorchid'', 153, 50, 204), (''darkred'', 139, 0, 0),
    (''darksalmon'', 233, 150, 122), (''darkseagreen'', 143, 188, 143), (''darkslateblue'', 72, 61, 139),
    (''darkslategray'', 47, 79, 79), (''darkslategrey'', 47, 79, 79), (''darkturquoise'', 0, 206, 209),
    (''darkviolet'', 148, 0, 211), (''deeppink'', 255, 20, 147), (''deepskyblue'', 0, 191, 255),
    (''dimgray'', 105, 105, 105), (''dimgrey'', 105, 105, 105), (''dodgerblue'', 30, 144, 255),
    (''firebrick'', 178, 34, 34), (''floralwhite'', 255, 250, 240), (''forestgreen'', 34, 139, 34),
    (''fuchsia'', 255, 0, 255), (''gainsboro'', 220, 220, 220), (''ghostwhite'', 248, 248, 255),
    (''gold'', 255, 215, 0), (''goldenrod'', 218, 165, 32), (''gray'', 128, 128, 128),
    (''green'', 0, 128, 0), (''greenyellow'', 173, 255, 47), (''grey'', 128, 128, 128),
    (''honeydew'', 240, 255, 240), (''hotpink'', 255, 105, 180), (''indianred'', 205, 92, 92),
    (''indigo'', 75, 0, 130), (''ivory'', 255, 255, 240), (''khaki'', 240, 230, 140),
    (''lavender'', 230, 230, 250), (''lavenderblush'', 255, 240, 245), (''lawngreen'', 124, 252, 0),
    (''lemonchiffon'', 255, 250, 205), (''lightblue'', 173, 216, 230), (''lightcoral'', 240, 128, 128),
    (''lightcyan'', 224, 255, 255), (''lightgoldenrodyellow'', 250, 250, 210),
    (''lightgray'', 211, 211, 211), (''lightgreen'', 144, 238, 144), (''lightgrey'', 211, 211, 211),
    (''lightpink'', 255, 182, 193), (''lightsalmon'', 255, 160, 122), (''lightseagreen'', 32, 178, 170),
    (''lightskyblue'', 135, 206, 250), (''lightslategray'', 119, 136, 153),
    (''lightslategrey'', 119, 136, 153), (''lightsteelblue'', 176, 196, 222),
    (''lightyellow'', 255, 255, 224), (''lime'', 0, 255, 0), (''limegreen'', 50, 205, 50),
    (''linen'', 250, 240, 230), (''magenta'', 255, 0, 255), (''maroon'', 128, 0, 0),
    (''mediumaquamarine'', 102, 205, 170), (''mediumblue'', 0, 0, 205), (''mediumorchid'', 186, 85, 211),
    (''mediumpurple'', 147, 112, 219), (''mediumseagreen'', 60, 179, 113),
    (''mediumslateblue'', 123, 104, 238), (''mediumspringgreen'', 0, 250, 154),
    (''mediumturquoise'', 72, 209, 204), (''mediumvioletred'', 199, 21, 133),
    (''midnightblue'', 25, 25, 112), (''mintcream'', 245, 255, 250), (''mistyrose'', 255, 228, 225),
    (''moccasin'', 255, 228, 181), (''navajowhite'', 255, 222, 173), (''navy'', 0, 0, 128),
    (''oldlace'', 253, 245, 230), (''olive'', 128, 128, 0), (''olivedrab'', 107, 142, 35),
    (''orange'', 255, 165, 0), (''orangered'', 255, 69, 0), (''orchid'', 218, 112, 214),
    (''palegoldenrod'', 238, 232, 170), (''palegreen'', 152, 251, 152),
    (''paleturquoise'', 175, 238, 238), (''palevioletred'', 219, 112, 147),
    (''papayawhip'', 255, 239, 213), (''peachpuff'', 255, 218, 185), (''peru'', 205, 133, 63),
    (''pink'', 255, 192, 203), (''plum'', 221, 160, 221), (''powderblue'', 176, 224, 230),
    (''purple'', 128, 0, 128), (''red'', 255, 0, 0), (''rosybrown'', 188, 143, 143),
    (''royalblue'', 65, 105, 225), (''saddlebrown'', 139, 69, 19), (''salmon'', 250, 128, 114),
    (''sandybrown'', 244, 164, 96), (''seagreen'', 46, 139, 87), (''seashell'', 255, 245, 238),
    (''sienna'', 160, 82, 45), (''silver'', 192, 192, 192), (''skyblue'', 135, 206, 235),
    (''slateblue'', 106, 90, 205), (''slategray'', 112, 128, 144), (''slategrey'', 112, 128, 144),
    (''snow'', 255, 250, 250), (''springgreen'', 0, 255, 127), (''steelblue'', 70, 130, 180),
    (''tan'', 210, 180, 140), (''teal'', 0, 128, 128), (''thistle'', 216, 191, 216),
    (''tomato'', 255, 99, 71), (''transparent'', 0, 0, 0), (''turquoise'', 64, 224, 208),
    (''violet'', 238, 130, 238), (''wheat'', 245, 222, 179), (''white'', 255, 255, 255),
    (''whitesmoke'', 245, 245, 245), (''yellow'', 255, 255, 0), (''yellowgreen'', 154, 205, 50)]"

definition hex_nibble :: "nat \<Rightarrow> char" where
  "hex_nibble n = char_of (if n < 10 then 48 + n else 87 + n)"

definition hex2 :: "u8 \<Rightarrow> string" where
  "hex2 b = [hex_nibble (unat b div 16), hex_nibble (unat b mod 16)]"

definition color_name :: "color \<Rightarrow> string" where
  "color_name c = CHR ''#'' # hex2 (cl_r c) @ hex2 (cl_g c) @ hex2 (cl_b c)"

text \<open>\<open>toHex\<close> is \<open>QString::toUInt(&ok, 16)\<close>.\<close>

definition color_of_spec :: "(string \<Rightarrow> u32 option) \<Rightarrow> string \<Rightarrow> color" where
  "color_of_spec toHex spec =
     (if spec = '''' then no_color
      else if hd spec = CHR ''#'' then
        if length spec \<noteq> 7 then no_color
        else (case toHex (tl spec) of
            None \<Rightarrow> no_color
          | Some v \<Rightarrow> rgb (ucast (drop_bit 16 v AND 255)) (ucast (drop_bit 8 v AND 255)) (ucast (v AND 255)))
      else (case find (\<lambda>(n, c). same_ci spec n) kNamedColors of
          Some (n, r, g, b) \<Rightarrow> rgb r g b
        | None \<Rightarrow> no_color))"

section \<open>Values and pools\<close>

datatype pref = PStr string | PInt u64 | PUInt u64 | PBool bool

definition pref_toString :: "pref \<Rightarrow> string" where
  "pref_toString v = (case v of
     PStr s \<Rightarrow> s
   | PInt i \<Rightarrow> dec_int (sint i)
   | PUInt u \<Rightarrow> dec (unat u)
   | PBool b \<Rightarrow> if b then ''true'' else ''false'')"

type_synonym pref_section = "(string \<times> pref) list"
type_synonym pool = "(string \<times> pref_section) list"

record prefs =
  pf_defaultsFile :: string
  pf_userFile :: string
  pf_runtime :: pool
  pf_user :: pool
  pf_defaults :: pool
  pf_userDirty :: bool

definition Runtime :: u8 where "Runtime = 1"
definition User :: u8 where "User = 2"
definition Defaults :: u8 where "Defaults = 4"
definition AnyPool :: u8 where "AnyPool = Runtime OR User OR Defaults"

definition pools :: "u8 \<Rightarrow> prefs \<Rightarrow> pool list" where
  "pools pers p =
     (if pers AND Runtime \<noteq> 0 then [pf_runtime p] else []) @
     (if pers AND User \<noteq> 0 then [pf_user p] else []) @
     (if pers AND Defaults \<noteq> 0 then [pf_defaults p] else [])"

definition pool_get :: "pool \<Rightarrow> string \<Rightarrow> string \<Rightarrow> pref option" where
  "pool_get pool sec name = (case map_of pool sec of None \<Rightarrow> None | Some s \<Rightarrow> map_of s name)"

fun first_hit :: "string \<Rightarrow> string \<Rightarrow> pool list \<Rightarrow> pref option" where
  "first_hit name sec [] = None"
| "first_hit name sec (pool # ps) =
     (case pool_get pool sec name of Some v \<Rightarrow> Some v | None \<Rightarrow> first_hit name sec ps)"

definition pref_find :: "string \<Rightarrow> string \<Rightarrow> u8 \<Rightarrow> prefs \<Rightarrow> pref option" where
  "pref_find name sec pers p = first_hit name sec (pools pers p)"

definition pool_put :: "string \<Rightarrow> string \<Rightarrow> pref \<Rightarrow> pool \<Rightarrow> pool" where
  "pool_put sec name v pool =
     AList.update sec (AList.update name v (case map_of pool sec of None \<Rightarrow> [] | Some s \<Rightarrow> s)) pool"

text \<open>\<open>poolFor\<close> chooses the first pool of the mask; a mask without a pool stores nothing.\<close>

definition pref_put :: "string \<Rightarrow> string \<Rightarrow> pref \<Rightarrow> u8 \<Rightarrow> prefs \<Rightarrow> prefs" where
  "pref_put name sec v pers p =
     (if pers AND Runtime \<noteq> 0 then p\<lparr>pf_runtime := pool_put sec name v (pf_runtime p)\<rparr>
      else if pers AND User \<noteq> 0 then p\<lparr>pf_user := pool_put sec name v (pf_user p), pf_userDirty := True\<rparr>
      else if pers AND Defaults \<noteq> 0 then p\<lparr>pf_defaults := pool_put sec name v (pf_defaults p)\<rparr>
      else p)"

section \<open>Accessors\<close>

datatype toml_value = TStr string | TBool bool | TInt u64 | TOther
datatype toml_node = TTable "(string \<times> toml_value) list" | TScalar

datatype xml_token = XStart string "(string \<times> string) list" | XEnd string | XOther

record prefs_lib =
  pl_toInt :: "string \<Rightarrow> u32 option"
  pl_toULongLong :: "string \<Rightarrow> u64 option"
  pl_toLongLong :: "string \<Rightarrow> u64"
  pl_toHex :: "string \<Rightarrow> u32 option"
  pl_parse :: "string \<Rightarrow> (string \<times> toml_node) list option"
  pl_print :: "(string \<times> toml_node) list \<Rightarrow> string"
  pl_xml :: "string \<Rightarrow> xml_token list \<times> bool"
  pl_readable :: "string \<Rightarrow> bool"
  pl_opens :: "string \<Rightarrow> bool"
  pl_commits :: "string \<Rightarrow> bool"

definition isPreference :: "string \<Rightarrow> string \<Rightarrow> u8 \<Rightarrow> prefs \<Rightarrow> bool" where
  "isPreference name sec pers p \<longleftrightarrow> pref_find name sec pers p \<noteq> None"

definition isSection :: "string \<Rightarrow> u8 \<Rightarrow> prefs \<Rightarrow> bool" where
  "isSection sec pers p \<longleftrightarrow> (\<exists>pool \<in> set (pools pers p). map_of pool sec \<noteq> None)"

definition getPrefString :: "string \<Rightarrow> string \<Rightarrow> string \<Rightarrow> u8 \<Rightarrow> prefs \<Rightarrow> string" where
  "getPrefString name sec d pers p =
     (case pref_find name sec pers p of Some v \<Rightarrow> pref_toString v | None \<Rightarrow> d)"

definition getPrefInt :: "prefs_lib \<Rightarrow> string \<Rightarrow> string \<Rightarrow> u32 \<Rightarrow> u8 \<Rightarrow> prefs \<Rightarrow> u32" where
  "getPrefInt L name sec d pers p =
     (case pref_find name sec pers p of
        None \<Rightarrow> d
      | Some (PInt i) \<Rightarrow> ucast i
      | Some (PUInt u) \<Rightarrow> ucast u
      | Some (PBool b) \<Rightarrow> of_bool b
      | Some (PStr s) \<Rightarrow> (case pl_toInt L s of Some n \<Rightarrow> n | None \<Rightarrow> d))"

definition getPrefUInt64 :: "prefs_lib \<Rightarrow> string \<Rightarrow> string \<Rightarrow> u64 \<Rightarrow> u8 \<Rightarrow> prefs \<Rightarrow> u64" where
  "getPrefUInt64 L name sec d pers p =
     (case pref_find name sec pers p of
        None \<Rightarrow> d
      | Some (PUInt u) \<Rightarrow> u
      | Some (PInt i) \<Rightarrow> i
      | Some (PBool b) \<Rightarrow> of_bool b
      | Some (PStr s) \<Rightarrow> (case pl_toULongLong L s of Some n \<Rightarrow> n | None \<Rightarrow> d))"

definition getPrefBool :: "string \<Rightarrow> string \<Rightarrow> bool \<Rightarrow> u8 \<Rightarrow> prefs \<Rightarrow> bool" where
  "getPrefBool name sec d pers p =
     (case pref_find name sec pers p of
        None \<Rightarrow> d
      | Some (PBool b) \<Rightarrow> b
      | Some (PInt i) \<Rightarrow> i \<noteq> 0
      | Some (PUInt u) \<Rightarrow> u \<noteq> 0
      | Some (PStr s) \<Rightarrow>
          (let s = lower (trimmed s) in
           if s = ''true'' \<or> s = ''1'' then True else if s = ''false'' \<or> s = ''0'' then False else d))"

definition getPrefColor :: "prefs_lib \<Rightarrow> string \<Rightarrow> string \<Rightarrow> color \<Rightarrow> u8 \<Rightarrow> prefs \<Rightarrow> color" where
  "getPrefColor L name sec d pers p =
     (case pref_find name sec pers p of
        None \<Rightarrow> d
      | Some v \<Rightarrow> (let c = color_of_spec (pl_toHex L) (pref_toString v) in if cl_valid c then c else d))"

definition setPrefString :: "string \<Rightarrow> string \<Rightarrow> string \<Rightarrow> u8 \<Rightarrow> prefs \<Rightarrow> prefs" where
  "setPrefString name sec v pers p = pref_put name sec (PStr v) pers p"

definition setPrefInt :: "string \<Rightarrow> string \<Rightarrow> u32 \<Rightarrow> u8 \<Rightarrow> prefs \<Rightarrow> prefs" where
  "setPrefInt name sec v pers p = pref_put name sec (PInt (scast v)) pers p"

definition setPrefUInt64 :: "string \<Rightarrow> string \<Rightarrow> u64 \<Rightarrow> u8 \<Rightarrow> prefs \<Rightarrow> prefs" where
  "setPrefUInt64 name sec v pers p = pref_put name sec (PUInt v) pers p"

definition setPrefBool :: "string \<Rightarrow> string \<Rightarrow> bool \<Rightarrow> u8 \<Rightarrow> prefs \<Rightarrow> prefs" where
  "setPrefBool name sec v pers p = pref_put name sec (PBool v) pers p"

definition setPrefColor :: "string \<Rightarrow> string \<Rightarrow> color \<Rightarrow> u8 \<Rightarrow> prefs \<Rightarrow> prefs" where
  "setPrefColor name sec v pers p = pref_put name sec (PStr (color_name v)) pers p"

section \<open>Files\<close>

type_synonym files = "string \<Rightarrow> string option"

text \<open>Only strings, booleans and integers inside a table of the top level are read.\<close>

definition pref_of_toml :: "toml_value \<Rightarrow> pref option" where
  "pref_of_toml v = (case v of TStr s \<Rightarrow> Some (PStr s) | TBool b \<Rightarrow> Some (PBool b) | TInt i \<Rightarrow> Some (PInt i) | TOther \<Rightarrow> None)"

definition load_key :: "string \<Rightarrow> string \<times> toml_value \<Rightarrow> pool \<Rightarrow> pool" where
  "load_key sec kv pool = (case pref_of_toml (snd kv) of None \<Rightarrow> pool | Some v \<Rightarrow> pool_put sec (fst kv) v pool)"

definition load_section :: "string \<times> toml_node \<Rightarrow> pool \<Rightarrow> pool" where
  "load_section sn pool = (case snd sn of TScalar \<Rightarrow> pool | TTable sect \<Rightarrow> fold (load_key (fst sn)) sect pool)"

definition loadToml :: "prefs_lib \<Rightarrow> files \<Rightarrow> string \<Rightarrow> pool \<Rightarrow> bool \<times> pool" where
  "loadToml L fs path into =
     (case fs path of
        None \<Rightarrow> (False, into)
      | Some text \<Rightarrow>
         (case pl_parse L text of None \<Rightarrow> (False, into) | Some doc \<Rightarrow> (True, fold load_section doc into)))"

text \<open>The reader of the old XML form: the section and the property it is in, the pool, and how many values it stored.\<close>

definition attr :: "string \<Rightarrow> (string \<times> string) list \<Rightarrow> string" where
  "attr n as = (case map_of as n of Some v \<Rightarrow> v | None \<Rightarrow> '''')"

definition import_value :: "prefs_lib \<Rightarrow> string \<Rightarrow> string \<Rightarrow> pref" where
  "import_value L name raw =
     (if name = ''bool'' then PBool (same_ci raw ''true'')
      else if name = ''int'' then PInt (pl_toLongLong L raw)
      else PStr raw)"

definition import_token :: "prefs_lib \<Rightarrow> xml_token \<Rightarrow> string \<times> string \<times> pool \<times> nat \<Rightarrow> string \<times> string \<times> pool \<times> nat" where
  "import_token L t = (\<lambda>(sec, prop, pool, imported). case t of
     XStart name as \<Rightarrow>
       if name = ''section'' then (attr ''name'' as, prop, pool, imported)
       else if name = ''property'' then (sec, attr ''name'' as, pool, imported)
       else if sec \<noteq> '''' \<and> prop \<noteq> '''' \<and> map_of as ''value'' \<noteq> None
       then (sec, prop, pool_put sec prop (import_value L name (attr ''value'' as)) pool, imported + 1)
       else (sec, prop, pool, imported)
   | XEnd name \<Rightarrow>
       if name = ''property'' then (sec, '''', pool, imported)
       else if name = ''section'' then ('''', prop, pool, imported)
       else (sec, prop, pool, imported)
   | XOther \<Rightarrow> (sec, prop, pool, imported))"

definition importXml :: "prefs_lib \<Rightarrow> files \<Rightarrow> string \<Rightarrow> pool \<Rightarrow> bool \<times> pool" where
  "importXml L fs path into =
     (case fs path of
        None \<Rightarrow> (False, into)
      | Some text \<Rightarrow>
         if \<not> pl_readable L path then (False, into)
         else (case pl_xml L text of (tokens, hasError) \<Rightarrow>
           (case fold (import_token L) tokens ('''', '''', into, 0) of (_, _, pool, imported) \<Rightarrow>
             if hasError then (False, pool) else (imported > 0, pool))))"

definition toml_of_pref :: "pref \<Rightarrow> toml_value" where
  "toml_of_pref v = (case v of PStr s \<Rightarrow> TStr s | PInt i \<Rightarrow> TInt i | PUInt u \<Rightarrow> TInt u | PBool b \<Rightarrow> TBool b)"

definition section_table :: "pref_section \<Rightarrow> (string \<times> toml_value) list" where
  "section_table s =
     fold (\<lambda>key t. case map_of s key of None \<Rightarrow> t | Some v \<Rightarrow> smap_put key (toml_of_pref v) t) (sort (map fst s)) []"

definition user_doc :: "pool \<Rightarrow> (string \<times> toml_node) list" where
  "user_doc pool =
     fold (\<lambda>sec d. case map_of pool sec of None \<Rightarrow> d | Some s \<Rightarrow> smap_put sec (TTable (section_table s)) d)
       (sort (map fst pool)) []"

definition file_text :: "prefs_lib \<Rightarrow> pool \<Rightarrow> string" where
  "file_text L pool =
     ''# scryd preferences '' @ [CHR 0xE2, CHR 0x80, CHR 0x94] @ '' written by the daemon.'' @ [CHR 0x0A, CHR 0x0A] @ pl_print L (user_doc pool) @ [CHR 0x0A]"

definition prefs_save :: "prefs_lib \<Rightarrow> files \<times> prefs \<Rightarrow> bool \<times> files \<times> prefs" where
  "prefs_save L = (\<lambda>(fs, p).
     if \<not> pf_userDirty p \<or> pf_userFile p = '''' then (True, fs, p)
     else if \<not> pl_opens L (pf_userFile p) then (False, fs, p)
     else if \<not> pl_commits L (pf_userFile p) then (False, fs, p)
     else (True, fs(pf_userFile p \<mapsto> file_text L (pf_user p)), p\<lparr>pf_userDirty := False\<rparr>))"

definition xml_path :: "string \<Rightarrow> string" where
  "xml_path f = (if ends_with_ci f ''.toml'' then take (length f - 5) f else f) @ ''.xml''"

definition loadUserWithMigration :: "prefs_lib \<Rightarrow> files \<times> prefs \<Rightarrow> bool \<times> files \<times> prefs" where
  "loadUserWithMigration L = (\<lambda>(fs, p).
     if pf_userFile p = '''' then (False, fs, p)
     else (case loadToml L fs (pf_userFile p) (pf_user p) of (loaded, user) \<Rightarrow>
       if loaded then (True, fs, p\<lparr>pf_user := user\<rparr>)
       else if fs (xml_path (pf_userFile p)) = None then (False, fs, p)
       else (case importXml L fs (xml_path (pf_userFile p)) (pf_user p) of (imported, user) \<Rightarrow>
         if \<not> imported then (False, fs, p\<lparr>pf_user := user\<rparr>)
         else (True, snd (prefs_save L (fs, p\<lparr>pf_user := user, pf_userDirty := True\<rparr>))))))"

definition mkPrefs :: "prefs_lib \<Rightarrow> string \<Rightarrow> string \<Rightarrow> files \<Rightarrow> files \<times> prefs" where
  "mkPrefs L defaultsFile userFile fs =
     (let p = \<lparr>pf_defaultsFile = defaultsFile, pf_userFile = userFile, pf_runtime = [], pf_user = [],
               pf_defaults = [], pf_userDirty = False\<rparr>;
          p = (if defaultsFile = '''' then p else p\<lparr>pf_defaults := snd (loadToml L fs defaultsFile [])\<rparr>)
      in snd (loadUserWithMigration L (fs, p)))"

definition prefs_revert :: "prefs_lib \<Rightarrow> files \<times> prefs \<Rightarrow> files \<times> prefs" where
  "prefs_revert L = (\<lambda>(fs, p).
     let p = p\<lparr>pf_user := [], pf_defaults := snd (loadToml L fs (pf_defaultsFile p) []), pf_userDirty := False\<rparr>
     in snd (loadUserWithMigration L (fs, p)))"

section \<open>Pools as maps\<close>

definition pool_ok :: "pool \<Rightarrow> bool" where
  "pool_ok pool \<longleftrightarrow> qhash_inv pool \<and> (\<forall>t s. map_of pool t = Some s \<longrightarrow> qhash_inv s)"

lemma pool_get_Nil [simp]: "pool_get [] s n = None"
  by (simp add: pool_get_def)

lemma pool_get_put: "pool_get (pool_put s n v pool) t m = (if t = s \<and> m = n then Some v else pool_get pool t m)"
  by (auto simp: pool_get_def pool_put_def update_conv' split: option.splits)

lemma pool_ok_Nil [simp]: "pool_ok []"
  by (simp add: pool_ok_def qhash_inv_def)

lemma pool_ok_put: "pool_ok pool \<Longrightarrow> pool_ok (pool_put s n v pool)"
  by (auto simp: pool_ok_def pool_put_def update_conv' qhash.inv_put qhash.inv_empty split: if_splits option.splits)

lemmas mask_defs = Runtime_def User_def Defaults_def AnyPool_def

text \<open>
  What the store promises: three layers of settings, of which a reader sees the topmost that has one and a
  writer changes the first of its mask.
\<close>

type_synonym layer = "string \<times> string \<Rightarrow> pref option"

definition prefs_abs :: "prefs \<Rightarrow> layer \<times> layer \<times> layer" where
  "prefs_abs p = (let m = (\<lambda>pool (s, n). pool_get pool s n) in (m (pf_runtime p), m (pf_user p), m (pf_defaults p)))"

definition layered :: "u8 \<Rightarrow> layer \<times> layer \<times> layer \<Rightarrow> layer" where
  "layered pers = (\<lambda>(r, u, d).
     (if pers AND Defaults \<noteq> 0 then d else Map.empty) ++
     (if pers AND User \<noteq> 0 then u else Map.empty) ++
     (if pers AND Runtime \<noteq> 0 then r else Map.empty))"

definition layer_put :: "u8 \<Rightarrow> string \<times> string \<Rightarrow> pref \<Rightarrow> layer \<times> layer \<times> layer \<Rightarrow> layer \<times> layer \<times> layer" where
  "layer_put pers k v = (\<lambda>(r, u, d).
     if pers AND Runtime \<noteq> 0 then (r(k \<mapsto> v), u, d)
     else if pers AND User \<noteq> 0 then (r, u(k \<mapsto> v), d)
     else if pers AND Defaults \<noteq> 0 then (r, u, d(k \<mapsto> v))
     else (r, u, d))"

lemma pool_put_map: "(\<lambda>(t, m). pool_get (pool_put s n v pool) t m) = (\<lambda>(t, m). pool_get pool t m)((s, n) \<mapsto> v)"
  by (auto simp: pool_get_put)

text \<open>C14: the preferences are three layers of settings: a reader of a mask gets the value of the highest layer of
  the mask that has one, in the order runtime, user, defaults, and a writer changes exactly one setting of the
  highest layer of its mask and nothing else.\<close>

theorem preferences_are_layers:
  "pref_find name sec pers p = layered pers (prefs_abs p) (sec, name) \<and>
   prefs_abs (pref_put name sec v pers p) = layer_put pers (sec, name) v (prefs_abs p)"
  by (auto simp: pref_find_def pools_def layered_def prefs_abs_def Let_def pref_put_def layer_put_def pool_put_map
      map_add_def split: option.splits)

section \<open>Saving and loading\<close>

lemma fold_load_key:
  assumes "distinct (map fst sect)"
  shows "pool_get (fold (load_key sec) sect pool) t m =
    (if t = sec then (case Option.bind (map_of sect m) pref_of_toml of Some v \<Rightarrow> Some v | None \<Rightarrow> pool_get pool t m)
     else pool_get pool t m)"
  using assms
proof (induction sect arbitrary: pool)
  case (Cons kv sect)
  have "map_of sect (fst kv) = None" using Cons.prems by (simp add: map_of_eq_None_iff)
  then show ?case using Cons
    by (cases kv) (auto simp: load_key_def pool_get_put split: option.splits)
qed simp

definition toml_get :: "(string \<times> toml_node) list \<Rightarrow> string \<Rightarrow> string \<Rightarrow> pref option" where
  "toml_get doc sec name = (case map_of doc sec of Some (TTable sect) \<Rightarrow> Option.bind (map_of sect name) pref_of_toml | _ \<Rightarrow> None)"

definition toml_ok :: "(string \<times> toml_node) list \<Rightarrow> bool" where
  "toml_ok doc \<longleftrightarrow> distinct (map fst doc) \<and> (\<forall>sect. TTable sect \<in> snd ` set doc \<longrightarrow> distinct (map fst sect))"

lemma fold_load_section:
  assumes "toml_ok doc"
  shows "pool_get (fold load_section doc pool) t m =
    (case toml_get doc t m of Some v \<Rightarrow> Some v | None \<Rightarrow> pool_get pool t m)"
  using assms
proof (induction doc arbitrary: pool)
  case (Cons sn doc)
  obtain s n where sn: "sn = (s, n)" by (cases sn)
  have none: "map_of doc s = None" and ok: "toml_ok doc"
    using Cons.prems by (auto simp: toml_ok_def sn map_of_eq_None_iff)
  show ?case
  proof (cases n)
    case (TTable sect)
    then have "distinct (map fst sect)" using Cons.prems by (auto simp: toml_ok_def sn)
    then show ?thesis using Cons.IH [OF ok] none TTable
      by (auto simp: sn load_section_def fold_load_key toml_get_def split: option.splits toml_node.splits)
  qed (use Cons.IH [OF ok] none in \<open>auto simp: sn load_section_def toml_get_def split: option.splits toml_node.splits\<close>)
qed (simp add: toml_get_def)

text \<open>A table filled from the keys of a hash, in any order.\<close>

lemma fold_smap_keys:
  fixes f :: "'k::linorder \<Rightarrow> 'v option"
  assumes "smap_inv t"
  shows "smap_inv (fold (\<lambda>k t. case f k of None \<Rightarrow> t | Some v \<Rightarrow> smap_put k (g v) t) ks t) \<and>
    map_of (fold (\<lambda>k t. case f k of None \<Rightarrow> t | Some v \<Rightarrow> smap_put k (g v) t) ks t) l =
      (if l \<in> set ks \<and> f l \<noteq> None then map_option g (f l) else map_of t l)"
  using assms
proof (induction ks arbitrary: t)
  case (Cons k ks)
  show ?case
  proof (cases "f k")
    case None
    then show ?thesis using Cons.IH [OF Cons.prems] by auto
  next
    case (Some v)
    then show ?thesis using Cons.IH [OF smap_inv_put [OF Cons.prems], of k "g v"] Cons.prems
      by (auto simp: smap_get_put)
  qed
qed simp

lemma smap_inv_distinct: "smap_inv t \<Longrightarrow> distinct (map fst t)"
  by (auto simp: smap_inv_def strict_sorted_iff)

lemma section_table_get: "map_of (section_table s) k = map_option toml_of_pref (map_of s k)"
  using fold_smap_keys [where t = "[]" and f = "map_of s" and g = toml_of_pref and ks = "sort (map fst s)" and l = k]
  by (auto simp: section_table_def map_of_eq_None_iff)

lemma section_table_inv: "smap_inv (section_table s)"
  using fold_smap_keys [where t = "[]" and f = "map_of s" and g = toml_of_pref and ks = "sort (map fst s)"] by (simp add: section_table_def)

lemma user_doc_get: "map_of (user_doc pool) sec = map_option (\<lambda>s. TTable (section_table s)) (map_of pool sec)"
  using fold_smap_keys [where t = "[]" and f = "map_of pool" and g = "\<lambda>s. TTable (section_table s)" and ks = "sort (map fst pool)" and l = sec]
  by (auto simp: user_doc_def map_of_eq_None_iff)

lemma user_doc_inv: "smap_inv (user_doc pool)"
  using fold_smap_keys [where t = "[]" and f = "map_of pool" and g = "\<lambda>s. TTable (section_table s)" and ks = "sort (map fst pool)"]
  by (simp add: user_doc_def)

lemma user_doc_ok: "toml_ok (user_doc pool)"
proof -
  have "distinct (map fst sect)" if "(s, TTable sect) \<in> set (user_doc pool)" for s sect
  proof -
    have "map_of (user_doc pool) s = Some (TTable sect)"
      using that smap_inv_distinct [OF user_doc_inv] by (simp add: map_of_is_SomeI)
    then show ?thesis by (auto simp: user_doc_get smap_inv_distinct [OF section_table_inv])
  qed
  then show ?thesis using smap_inv_distinct [OF user_doc_inv] by (auto simp: toml_ok_def)
qed

text \<open>An unsigned preference comes back as the signed number with the same bits.\<close>

definition reread :: "pref \<Rightarrow> pref" where
  "reread v = (case v of PUInt u \<Rightarrow> PInt u | _ \<Rightarrow> v)"

lemma reread_toml: "pref_of_toml (toml_of_pref v) = Some (reread v)"
  by (cases v) (simp_all add: pref_of_toml_def toml_of_pref_def reread_def)

lemma reread_bind: "Option.bind (map_option toml_of_pref v) pref_of_toml = map_option reread v"
  by (cases v) (simp_all add: reread_toml)

lemma reload_get: "pool_get (fold load_section (user_doc pool) []) s n = map_option reread (pool_get pool s n)"
  unfolding fold_load_section [OF user_doc_ok] pool_get_Nil
  by (cases "map_of pool s") (simp_all add: toml_get_def user_doc_get section_table_get pool_get_def reread_bind
      split: option.split)

lemma find_user: "pref_find n s User p = pool_get (pf_user p) s n"
  by (auto simp: pref_find_def pools_def mask_defs split: option.splits)

lemma sint_small_u64:
  assumes "unat (u :: u64) < 9223372036854775808" shows "sint u = int (unat u)"
proof -
  have u: "uint u = int (unat u)" by (rule uint_nat)
  have "sint u = sint (of_int (uint u) :: u64)" by (simp only: word_of_int_uint)
  also have "\<dots> = signed_take_bit 63 (uint u)" by (simp only: signed_of_int) simp
  also have "\<dots> = uint u"
  proof (rule signed_take_bit_int_eq_self)
    have "0 \<le> uint u" by simp
    then show "- (2 ^ 63) \<le> uint u" by (rule order_trans [rotated]) simp
    have "uint u < 9223372036854775808" using u assms by linarith
    then show "uint u < 2 ^ 63" by simp
  qed
  finally show ?thesis by (simp only: u)
qed

text \<open>C29: after the preferences were saved, a program started on the same files reads every user setting with
  the value it had: as a number, as a flag, and as text unless an unsigned number needs its 64th bit, which TOML
  has not.\<close>

theorem saved_preferences_reload:
  assumes "pf_userDirty p" "pf_userFile p \<noteq> ''''" "pl_opens L (pf_userFile p)" "pl_commits L (pf_userFile p)"
    "pl_parse L (file_text L (pf_user p)) = Some (user_doc (pf_user p))"
    and saved: "prefs_save L (fs, p) = (ok, fs', p')"
    and start: "mkPrefs L (pf_defaultsFile p) (pf_userFile p) fs' = (fs'', q)"
  shows "ok \<and> fs'' = fs' \<and> \<not> pf_userDirty p' \<and>
    getPrefInt L n s di User q = getPrefInt L n s di User p \<and>
    getPrefUInt64 L n s du User q = getPrefUInt64 L n s du User p \<and>
    getPrefBool n s db User q = getPrefBool n s db User p \<and>
    ((\<forall>u. pref_find n s User p = Some (PUInt u) \<longrightarrow> unat u < 2 ^ 63) \<longrightarrow>
      getPrefString n s ds User q = getPrefString n s ds User p)"
proof -
  have fs': "ok" "fs' = fs(pf_userFile p \<mapsto> file_text L (pf_user p))" "\<not> pf_userDirty p'"
    using saved assms(1-4) by (auto simp: prefs_save_def)
  have "fs'' = fs' \<and> pf_user q = fold load_section (user_doc (pf_user p)) []"
    using start assms(2,5) by (auto simp: mkPrefs_def loadUserWithMigration_def loadToml_def fs'(2) Let_def
        split: if_splits)
  moreover have "pref_find n s User q = map_option reread (pref_find n s User p)"
    using calculation by (simp add: find_user reload_get)
  moreover have "pref_toString (reread v) = pref_toString v" if "\<forall>u. v = PUInt u \<longrightarrow> unat u < 2 ^ 63" for v
  proof (cases v)
    case (PUInt u)
    then have "sint u = int (unat u)" using that by (simp add: sint_small_u64)
    then show ?thesis using PUInt by (simp add: reread_def pref_toString_def dec_int_def)
  qed (simp_all add: reread_def pref_toString_def)
  ultimately show ?thesis using fs'
    by (auto simp: getPrefInt_def getPrefUInt64_def getPrefBool_def getPrefString_def reread_def split: option.splits pref.splits)
qed

definition lib0 :: prefs_lib where
  "lib0 = \<lparr>pl_toInt = (\<lambda>s. None), pl_toULongLong = (\<lambda>s. None), pl_toLongLong = (\<lambda>s. of_nat (undec s)),
     pl_toHex = (\<lambda>s. None), pl_parse = (\<lambda>t. None), pl_print = (\<lambda>d. ''''), pl_xml = (\<lambda>t. ([], False)),
     pl_readable = (\<lambda>f. True), pl_opens = (\<lambda>f. True), pl_commits = (\<lambda>f. True)\<rparr>"

definition demo_prefs :: prefs where
  "demo_prefs = \<lparr>pf_defaultsFile = '''', pf_userFile = ''p.toml'', pf_runtime = [],
     pf_user = [(''S'', [(''b'', PUInt 5), (''a'', PBool True)])], pf_defaults = [], pf_userDirty = True\<rparr>"

definition demo_lib :: prefs_lib where
  "demo_lib = lib0\<lparr>pl_parse := (\<lambda>t. if t = file_text lib0 (pf_user demo_prefs) then Some (user_doc (pf_user demo_prefs)) else None)\<rparr>"

theorem saved_preferences_reload_witness:
  "fst (prefs_save demo_lib (\<lambda>_. None, demo_prefs)) \<and>
   getPrefUInt64 demo_lib ''b'' ''S'' 0 User
     (snd (mkPrefs demo_lib '''' ''p.toml'' (fst (snd (prefs_save demo_lib (\<lambda>_. None, demo_prefs)))))) = 5"
proof -
  have t: "file_text demo_lib pool = file_text lib0 pool" for pool
    by (simp add: file_text_def demo_lib_def lib0_def)
  have get: "getPrefUInt64 demo_lib ''b'' ''S'' 0 User demo_prefs = 5"
    by (simp add: getPrefUInt64_def find_user pool_get_def demo_prefs_def)
  obtain ok fs' p' where s: "prefs_save demo_lib (\<lambda>_. None, demo_prefs) = (ok, fs', p')" by (cases "prefs_save demo_lib (\<lambda>_. None, demo_prefs)") auto
  obtain fs'' q where m: "mkPrefs demo_lib '''' ''p.toml'' fs' = (fs'', q)" by (cases "mkPrefs demo_lib '''' ''p.toml'' fs'") auto
  have "pl_parse demo_lib (file_text demo_lib (pf_user demo_prefs)) = Some (user_doc (pf_user demo_prefs))"
    by (simp add: t) (simp add: demo_lib_def)
  then have "ok \<and> getPrefUInt64 demo_lib ''b'' ''S'' 0 User q = getPrefUInt64 demo_lib ''b'' ''S'' 0 User demo_prefs"
    using saved_preferences_reload [of demo_prefs demo_lib "\<lambda>_. None" ok fs' p' fs'' q] s m
    by (simp add: demo_prefs_def demo_lib_def lib0_def)
  then show ?thesis by (simp add: s m get)
qed

text \<open>A user file that the TOML library rejects is treated like a missing one: if the XML file of an older
  version is still there, its settings are imported and written over the user's file, whose text is lost.\<close>

theorem damaged_user_file_is_replaced:
  assumes "userFile \<noteq> ''''" "fs userFile = Some damaged" "pl_parse L damaged = None"
    "fs (xml_path userFile) \<noteq> None" "importXml L fs (xml_path userFile) [] = (True, old)"
    "pl_opens L userFile" "pl_commits L userFile"
  shows "fst (mkPrefs L defaultsFile userFile fs) = fs(userFile \<mapsto> file_text L old) \<and>
    pf_user (snd (mkPrefs L defaultsFile userFile fs)) = old"
  using assms
  by (auto simp: mkPrefs_def loadUserWithMigration_def loadToml_def prefs_save_def Let_def)

definition demo_xml_lib :: prefs_lib where
  "demo_xml_lib = lib0\<lparr>pl_xml := (\<lambda>t. ([XStart ''section'' [(''name'', ''S'')], XStart ''property'' [(''name'', ''a'')],
     XStart ''int'' [(''value'', ''7'')], XEnd ''int'', XEnd ''property'', XEnd ''section''], False))\<rparr>"

theorem damaged_user_file_is_replaced_witness:
  "pf_user (snd (mkPrefs demo_xml_lib '''' ''p.toml'' [''p.toml'' \<mapsto> ''x'', ''p.xml'' \<mapsto> ''y''])) = [(''S'', [(''a'', PInt 7)])]"
proof -
  have x: "xml_path ''p.toml'' = ''p.xml''"
    by (simp add: xml_path_def ends_with_ci_def same_ci_def)
  have i: "importXml demo_xml_lib [''p.toml'' \<mapsto> ''x'', ''p.xml'' \<mapsto> ''y''] ''p.xml'' [] = (True, [(''S'', [(''a'', PInt 7)])])"
    by (simp add: importXml_def demo_xml_lib_def lib0_def import_token_def attr_def import_value_def pool_put_def undec_def)
  show ?thesis
    by (rule conjunct2 [OF damaged_user_file_is_replaced [where damaged = "''x''"]])
      (simp_all only: x i, simp_all add: demo_xml_lib_def lib0_def)
qed

text \<open>An import that fails half way leaves the settings it had read in the user's pool.\<close>

lemma failed_import_keeps_settings:
  assumes "fs path = Some text" "pl_readable L path" "pl_xml L text = (tokens, True)"
  shows "importXml L fs path pool = (False, fst (snd (snd (fold (import_token L) tokens ('''', '''', pool, 0)))))"
  using assms by (simp add: importXml_def split: prod.split)

section \<open>Colours survive their name\<close>

text \<open>A colour is read back from the name it is stored under, given that \<open>toUInt\<close> reads six hexadecimal digits as
  their value.\<close>

lemma color_name_roundtrip:
  assumes "\<And>r g b. toHex (hex2 r @ hex2 g @ hex2 b) = Some (push_bit 16 (ucast r) OR push_bit 8 (ucast g) OR ucast b)"
  shows "color_of_spec toHex (color_name (rgb r g b)) = rgb r g b"
proof -
  have m: "(255 :: u32) = mask 8" by (simp add: mask_eq_exp_minus_1)
  have hi: "\<not> bit w (8 + n)" "\<not> bit w (16 + n)" for w :: u8 and n
    using bit_imp_le_length [of w "8 + n"] bit_imp_le_length [of w "16 + n"] by auto
  let ?v = "push_bit 16 (ucast r) OR push_bit 8 (ucast g) OR ucast b :: u32"
  have "length (color_name (rgb r g b)) = 7" by (simp add: color_name_def hex2_def)
  moreover have "ucast (drop_bit 16 ?v AND 255) = r" "ucast (drop_bit 8 ?v AND 255) = g" "ucast (?v AND 255) = b"
    unfolding m by (auto intro!: bit_word_eqI simp: bit_simps hi)
  ultimately show ?thesis by (simp add: color_of_spec_def color_name_def rgb_def assms)
qed


section \<open>A section of text settings\<close>

text \<open>
  What the components that keep a table of texts in one section rely on: a text that was set is the one that is
  read, and the others are not disturbed.
\<close>

locale text_settings =
  fixes get :: "'p \<Rightarrow> string \<Rightarrow> string option"
    and put :: "string \<Rightarrow> string \<Rightarrow> 'p \<Rightarrow> 'p"
    and ok :: "'p \<Rightarrow> bool"
  assumes get_put: "ok p \<Longrightarrow> get (put n v p) m = (if m = n then Some v else get p m)"
    and ok_put: "ok p \<Longrightarrow> ok (put n v p)"
begin

lemma ok_fold: "ok p \<Longrightarrow> ok (fold (\<lambda>(n, v). put n v) rows p)"
  by (induction rows arbitrary: p) (auto simp: ok_put)

lemma get_fold:
  "ok p \<Longrightarrow> get (fold (\<lambda>(n, v). put n v) rows p) m =
     (case map_of (rev rows) m of Some v \<Rightarrow> Some v | None \<Rightarrow> get p m)"
proof (induction rows arbitrary: p)
  case (Cons r rows)
  then show ?case using Cons.IH [of "put (fst r) (snd r) p"]
    by (cases r) (auto simp: ok_put get_put map_add_def split: option.splits)
qed simp

end

definition section_text :: "string \<Rightarrow> prefs \<Rightarrow> string \<Rightarrow> string option" where
  "section_text sec p n = map_option pref_toString (pref_find n sec AnyPool p)"

definition unshadowed :: "string \<Rightarrow> prefs \<Rightarrow> bool" where
  "unshadowed sec p \<longleftrightarrow> map_of (pf_runtime p) sec = None"

lemma section_text_find:
  "unshadowed sec p \<Longrightarrow> pref_find n sec AnyPool p =
     (case pool_get (pf_user p) sec n of Some v \<Rightarrow> Some v | None \<Rightarrow> pool_get (pf_defaults p) sec n)"
  by (auto simp: pref_find_def pools_def mask_defs unshadowed_def pool_get_def split: option.splits)

interpretation sect: text_settings "section_text sec" "\<lambda>n v. setPrefString n sec v User" "unshadowed sec" for sec
proof unfold_locales
  fix p n v m assume u: "unshadowed sec p"
  show k: "unshadowed sec (setPrefString n sec v User p)"
    using u by (simp add: unshadowed_def setPrefString_def pref_put_def mask_defs)
  show "section_text sec (setPrefString n sec v User p) m = (if m = n then Some v else section_text sec p m)"
    using section_text_find [OF u] section_text_find [OF k]
    by (auto simp: section_text_def setPrefString_def pref_put_def mask_defs pool_get_put pref_toString_def
        split: option.splits)
qed

lemma getPrefString_text: "getPrefString n sec d AnyPool p = (case section_text sec p n of Some t \<Rightarrow> t | None \<Rightarrow> d)"
  by (simp add: getPrefString_def section_text_def split: option.split)

lemma isPreference_text: "isPreference n sec AnyPool p \<longleftrightarrow> section_text sec p n \<noteq> None"
  by (simp add: isPreference_def section_text_def)

lemma getPrefColor_text:
  "getPrefColor L n sec d AnyPool p =
     (case section_text sec p n of
        Some t \<Rightarrow> let c = color_of_spec (pl_toHex L) t in if cl_valid c then c else d
      | None \<Rightarrow> d)"
  by (simp add: getPrefColor_def section_text_def split: option.split)

lemma setPrefColor_text: "setPrefColor n sec c pers = setPrefString n sec (color_name c) pers"
  by (rule ext) (simp add: setPrefColor_def setPrefString_def)

end
