(* ===== verification/Filters.thy ===== *)
theory Filters
  imports Tables QtText
begin

text \<open>
  The spawn filters (\<open>src/filter.h\<close>, \<open>src/filter.cpp\<close>) and their manager (\<open>src/filtermgr.h\<close>,
  \<open>src/filtermgr.cpp\<close>): the types of filters and their bits, the rules of a type, the files the rules are kept
  in, and the requests of a client that changes them (\<open>src/sessionadapter.cpp\<close>, \<open>src/protoencoder.cpp\<close>). Regular
  expressions, the conversions of \<open>QString\<close> to numbers, the XML reader and the places of files are parameters.
\<close>

section \<open>Rules\<close>

record regex_lib =
  rx_valid :: "string \<Rightarrow> bool"
  rx_search :: "bool \<Rightarrow> string \<Rightarrow> string \<Rightarrow> bool"
  rx_toInt :: "string \<Rightarrow> u32 option"
  rx_toUShort :: "string \<Rightarrow> u16"

record filter_item =
  fi_pattern :: string
  fi_caseInsensitive :: bool
  fi_origPattern :: string
  fi_minLevel :: u8
  fi_maxLevel :: u8

definition fixedFilterPattern :: "string \<Rightarrow> string" where
  "fixedFilterPattern p = replace_ci ''Name:'' ''Name:#?'' 0 p"

text \<open>\<open>FilterItem::init\<close>. The code looks for a level range behind a semicolon, and then keeps the whole string.\<close>

definition fi_init :: "string \<Rightarrow> bool \<Rightarrow> u8 \<Rightarrow> u8 \<Rightarrow> filter_item" where
  "fi_init regexString caseSensitive minLevel maxLevel =
     \<lparr>fi_pattern = fixedFilterPattern regexString, fi_caseInsensitive = \<not> caseSensitive,
      fi_origPattern = regexString, fi_minLevel = minLevel, fi_maxLevel = maxLevel\<rparr>"

definition INT_MAX :: u32 where "INT_MAX = 2147483647"

definition level_range :: "regex_lib \<Rightarrow> string \<Rightarrow> u32 \<times> u32" where
  "level_range L s =
     (case indexOf_char CHR ''-'' s of
        None \<Rightarrow> (case rx_toInt L s of Some n \<Rightarrow> n | None \<Rightarrow> 0, 0)
      | Some k \<Rightarrow>
         (case rx_toInt L (take k s) of Some n \<Rightarrow> n | None \<Rightarrow> 0,
          let t = drop (k + 1) s in
          if t = '''' then INT_MAX else (case rx_toInt L t of Some n \<Rightarrow> n | None \<Rightarrow> 0)))"

definition mkFilterItem :: "regex_lib \<Rightarrow> string \<Rightarrow> bool \<Rightarrow> filter_item" where
  "mkFilterItem L p caseSensitive =
     (case indexOf_char CHR '';'' p of
        None \<Rightarrow> fi_init p caseSensitive 0 0
      | Some k \<Rightarrow>
         (case level_range L (drop (k + 1) p) of (minLevel, maxLevel) \<Rightarrow>
           let maxLevel = (if maxLevel < minLevel then minLevel else maxLevel)
           in fi_init (take k p) caseSensitive (ucast minLevel) (ucast maxLevel)))"

definition fi_valid :: "regex_lib \<Rightarrow> filter_item \<Rightarrow> bool" where
  "fi_valid L it = rx_valid L (fi_pattern it)"

definition fi_isFiltered :: "regex_lib \<Rightarrow> filter_item \<Rightarrow> string \<Rightarrow> u8 \<Rightarrow> bool" where
  "fi_isFiltered L it filterString level =
     (if \<not> fi_valid L it then False
      else if rx_search L (fi_caseInsensitive it) (fi_pattern it) filterString then
        if fi_minLevel it > 0 \<or> fi_maxLevel it > 0 then
          if fi_maxLevel it \<noteq> fi_minLevel it
          then fi_minLevel it \<le> level \<and> level \<le> fi_maxLevel it
          else level = fi_minLevel it
        else True
      else False)"

definition fi_save :: "string \<Rightarrow> filter_item \<Rightarrow> string" where
  "fi_save indent it =
     indent @ ''<oldfilter>'' @
     (if fi_pattern it \<noteq> '''' then ''<regex>'' @ fi_origPattern it @ ''</regex>'' else '''') @
     (if fi_minLevel it \<noteq> 0 \<or> fi_maxLevel it \<noteq> 0 then
        ''<level'' @
        (if fi_minLevel it \<noteq> 0 then '' min=\"'' @ dec (unat (fi_minLevel it)) @ ''\"'' else '''') @
        (if fi_maxLevel it \<noteq> 0 then '' max=\"'' @ dec (unat (fi_maxLevel it)) @ ''\"'' else '''') @ ''/>''
      else '''') @
     ''</oldfilter>'' @ [CHR 0x0A]"

section \<open>The rules of one type\<close>

record filter_list =
  fl_items :: "filter_item list"
  fl_caseSensitive :: bool

definition mkFilter :: "bool \<Rightarrow> filter_list" where
  "mkFilter caseSensitive = \<lparr>fl_items = [], fl_caseSensitive = caseSensitive\<rparr>"

definition fl_isFiltered :: "regex_lib \<Rightarrow> filter_list \<Rightarrow> string \<Rightarrow> u8 \<Rightarrow> bool" where
  "fl_isFiltered L f filterString level = list_ex (\<lambda>it. fi_isFiltered L it filterString level) (fl_items f)"

definition fl_findFilter :: "string \<Rightarrow> filter_list \<Rightarrow> filter_item option" where
  "fl_findFilter p f = find (\<lambda>it. fi_pattern it = p) (fl_items f)"

fun remove_first :: "('a \<Rightarrow> bool) \<Rightarrow> 'a list \<Rightarrow> 'a list" where
  "remove_first P [] = []"
| "remove_first P (x # xs) = (if P x then xs else x # remove_first P xs)"

definition fl_remFilter :: "string \<Rightarrow> filter_list \<Rightarrow> filter_list" where
  "fl_remFilter p f = f\<lparr>fl_items := remove_first (\<lambda>it. fi_pattern it = p) (fl_items f)\<rparr>"

definition fl_addPattern :: "regex_lib \<Rightarrow> string \<Rightarrow> filter_list \<Rightarrow> bool \<times> filter_list" where
  "fl_addPattern L p f =
     (if fl_findFilter p f \<noteq> None then (False, f)
      else let it = mkFilterItem L p (fl_caseSensitive f)
           in (fi_valid L it, f\<lparr>fl_items := fl_items f @ [it]\<rparr>))"

definition fl_addFilter :: "regex_lib \<Rightarrow> string \<Rightarrow> u8 \<Rightarrow> u8 \<Rightarrow> filter_list \<Rightarrow> bool \<times> filter_list" where
  "fl_addFilter L p minLevel maxLevel f =
     (if fl_findFilter p f \<noteq> None then (False, f)
      else let it = fi_init p (fl_caseSensitive f) minLevel maxLevel
           in (fi_valid L it, f\<lparr>fl_items := fl_items f @ [it]\<rparr>))"

definition fl_save :: "string \<Rightarrow> filter_list \<Rightarrow> string" where
  "fl_save indent f = concat (map (fi_save (indent @ ''    '')) (fl_items f))"

text \<open>The accessors of one rule check the index against the end of the list only; a caller passes no negative index.\<close>

definition fl_getFilterString :: "filter_list \<Rightarrow> nat \<Rightarrow> string" where
  "fl_getFilterString f i = (if length (fl_items f) \<le> i then '''' else fi_pattern (fl_items f ! i))"

definition fl_getOrigFilterString :: "filter_list \<Rightarrow> nat \<Rightarrow> string" where
  "fl_getOrigFilterString f i = (if length (fl_items f) \<le> i then '''' else fi_origPattern (fl_items f ! i))"

definition fl_getMinLevel :: "filter_list \<Rightarrow> nat \<Rightarrow> int" where
  "fl_getMinLevel f i = (if length (fl_items f) \<le> i then - 1 else uint (fi_minLevel (fl_items f ! i)))"

definition fl_getMaxLevel :: "filter_list \<Rightarrow> nat \<Rightarrow> int" where
  "fl_getMaxLevel f i = (if length (fl_items f) \<le> i then - 1 else uint (fi_maxLevel (fl_items f ! i)))"

section \<open>The types and their bits\<close>

text \<open>\<open>1 << n\<close> on a 32-bit integer is undefined from 32 on.\<close>

definition shl1 :: "nat \<Rightarrow> u32 res" where
  "shl1 n = (if n < 32 then Inr (push_bit n 1) else Inl BadShift)"

record filter_types =
  ty_allocated :: u32
  ty_names :: "(u32 \<times> string) list"
  ty_maxType :: u8

definition mkFilterTypes :: filter_types where
  "mkFilterTypes = \<lparr>ty_allocated = 0, ty_names = [], ty_maxType = 0\<rparr>"

fun register_at :: "nat list \<Rightarrow> string \<Rightarrow> filter_types \<Rightarrow> ((u8 \<times> u32) option \<times> filter_types) res" where
  "register_at [] name ty = Inr (None, ty)"
| "register_at (i # is) name ty =
     rbind (shl1 i) (\<lambda>m.
       if ty_allocated ty AND m = 0
       then Inr (Some (of_nat i, m),
              ty\<lparr>ty_allocated := ty_allocated ty OR m, ty_names := smap_put m name (ty_names ty),
                 ty_maxType := (if of_nat i > ty_maxType ty then of_nat i else ty_maxType ty)\<rparr>)
       else register_at is name ty)"

definition registerType :: "string \<Rightarrow> filter_types \<Rightarrow> ((u8 \<times> u32) option \<times> filter_types) res" where
  "registerType name ty = register_at [0..<33] name ty"

definition unregisterType :: "u8 \<Rightarrow> filter_types \<Rightarrow> filter_types res" where
  "unregisterType t ty =
     rbind (shl1 (unat t)) (\<lambda>m.
       if ty_allocated ty AND m \<noteq> 0
       then Inr (ty\<lparr>ty_allocated := ty_allocated ty AND NOT m, ty_names := smap_del m (ty_names ty),
                    ty_maxType := (if t = ty_maxType ty then ty_maxType ty - 1 else ty_maxType ty)\<rparr>)
       else Inr ty)"

definition type_name_of_mask :: "filter_types \<Rightarrow> u32 \<Rightarrow> string" where
  "type_name_of_mask ty m =
     (case map_of (ty_names ty) m of Some n \<Rightarrow> n | None \<Rightarrow> ''Unknown:'' @ dec (unat m))"

definition type_name :: "filter_types \<Rightarrow> u8 \<Rightarrow> string res" where
  "type_name ty t = rbind (shl1 (unat t)) (\<lambda>m. Inr (type_name_of_mask ty m))"

text \<open>The loops of \<open>mask(name)\<close> and \<open>type(name)\<close> run over the types up to \<open>maxType\<close>.\<close>

fun find_type :: "nat list \<Rightarrow> string \<Rightarrow> filter_types \<Rightarrow> nat option res" where
  "find_type [] query ty = Inr None"
| "find_type (i # is) query ty =
     rbind (shl1 i) (\<lambda>m. if type_name_of_mask ty m = query then Inr (Some i) else find_type is query ty)"

definition type_of_name :: "filter_types \<Rightarrow> string \<Rightarrow> u8 res" where
  "type_of_name ty query =
     rbind (find_type [0..<Suc (unat (ty_maxType ty))] query ty)
       (\<lambda>r. Inr (case r of Some i \<Rightarrow> of_nat i | None \<Rightarrow> 255))"

definition mask_of_name :: "filter_types \<Rightarrow> string \<Rightarrow> u32 res" where
  "mask_of_name ty query =
     rbind (find_type [0..<Suc (unat (ty_maxType ty))] query ty)
       (\<lambda>r. case r of Some i \<Rightarrow> shl1 i | None \<Rightarrow> Inr 0)"

definition type_names :: "filter_types \<Rightarrow> u32 \<Rightarrow> string" where
  "type_names ty m = concat (map (\<lambda>(k, n). if m AND k \<noteq> 0 then n @ '':'' else '''') (ty_names ty))"

definition validMask :: "filter_types \<Rightarrow> u32 \<Rightarrow> bool" where
  "validMask ty m \<longleftrightarrow> ty_allocated ty AND m \<noteq> 0"

section \<open>The rules of all types\<close>

text \<open>The constructor leaves \<open>m_caseSensitive\<close> as it finds it; \<open>junk\<close> is what the memory holds.\<close>

record filters =
  fs_file :: string
  fs_filters :: "(u32 \<times> filter_list) list"
  fs_caseSensitive :: bool

definition mkFilters :: "bool \<Rightarrow> filters" where
  "mkFilters junk = \<lparr>fs_file = '''', fs_filters = [], fs_caseSensitive = junk\<rparr>"

definition fs_clear :: "filters \<Rightarrow> filters" where
  "fs_clear fs = fs\<lparr>fs_filters := []\<rparr>"

definition fs_clearType :: "u8 \<Rightarrow> filters \<Rightarrow> filters res" where
  "fs_clearType t fs = rbind (shl1 (unat t)) (\<lambda>m. Inr (fs\<lparr>fs_filters := smap_del m (fs_filters fs)\<rparr>))"

definition fs_setCaseSensitive :: "bool \<Rightarrow> filters \<Rightarrow> filters" where
  "fs_setCaseSensitive cs fs =
     fs\<lparr>fs_filters := map (\<lambda>(m, f). (m, f\<lparr>fl_caseSensitive := cs\<rparr>)) (fs_filters fs)\<rparr>"

definition fs_filterMask :: "regex_lib \<Rightarrow> filters \<Rightarrow> string \<Rightarrow> u8 \<Rightarrow> u32" where
  "fs_filterMask L fs filterString level =
     fold (\<lambda>(m, f) acc. if fl_isFiltered L f filterString level then acc OR m else acc) (fs_filters fs) 0"

definition fs_addFilter :: "regex_lib \<Rightarrow> filter_types \<Rightarrow> u8 \<Rightarrow> string \<Rightarrow> u8 \<Rightarrow> u8 \<Rightarrow> filters \<Rightarrow> (bool \<times> filters) res" where
  "fs_addFilter L ty t p minLevel maxLevel fs =
     rbind (shl1 (unat t)) (\<lambda>m.
       if \<not> validMask ty m then Inr (False, fs)
       else let f = (case map_of (fs_filters fs) m of None \<Rightarrow> mkFilter (fs_caseSensitive fs) | Some f \<Rightarrow> f)
            in case fl_addFilter L p minLevel maxLevel f of
                 (ok, f) \<Rightarrow> Inr (ok, fs\<lparr>fs_filters := smap_put m f (fs_filters fs)\<rparr>))"

definition fs_remFilter :: "filter_types \<Rightarrow> u8 \<Rightarrow> string \<Rightarrow> filters \<Rightarrow> filters res" where
  "fs_remFilter ty t p fs =
     rbind (shl1 (unat t)) (\<lambda>m.
       if \<not> validMask ty m then Inr fs
       else case map_of (fs_filters fs) m of
              None \<Rightarrow> Inr fs
            | Some f \<Rightarrow> Inr (fs\<lparr>fs_filters := smap_put m (fl_remFilter p f) (fs_filters fs)\<rparr>))"

definition of_type :: "filters \<Rightarrow> u8 \<Rightarrow> 'a \<Rightarrow> (filter_list \<Rightarrow> 'a) \<Rightarrow> 'a res" where
  "of_type fs t d g =
     rbind (shl1 (unat t)) (\<lambda>m. Inr (case map_of (fs_filters fs) m of None \<Rightarrow> d | Some f \<Rightarrow> g f))"

definition fs_numFilters :: "filters \<Rightarrow> u8 \<Rightarrow> nat res" where
  "fs_numFilters fs t = of_type fs t 0 (\<lambda>f. length (fl_items f))"

definition fs_getFilterString :: "filters \<Rightarrow> u8 \<Rightarrow> nat \<Rightarrow> string res" where
  "fs_getFilterString fs t i = of_type fs t '''' (\<lambda>f. fl_getFilterString f i)"

definition fs_getOrigFilterString :: "filters \<Rightarrow> u8 \<Rightarrow> nat \<Rightarrow> string res" where
  "fs_getOrigFilterString fs t i = of_type fs t '''' (\<lambda>f. fl_getOrigFilterString f i)"

definition fs_getMinLevel :: "filters \<Rightarrow> u8 \<Rightarrow> nat \<Rightarrow> int res" where
  "fs_getMinLevel fs t i = of_type fs t (- 1) (\<lambda>f. fl_getMinLevel f i)"

definition fs_getMaxLevel :: "filters \<Rightarrow> u8 \<Rightarrow> nat \<Rightarrow> int res" where
  "fs_getMaxLevel fs t i = of_type fs t (- 1) (\<lambda>f. fl_getMaxLevel f i)"

definition fs_save :: "filter_types \<Rightarrow> filters \<Rightarrow> string" where
  "fs_save ty fs =
     ''<?xml version=\"1.0\" encoding=\"UTF-8\"?>'' @ [CHR 0x0A] @
     ''<!DOCTYPE seqfilters SYSTEM \"seqfilters.dtd\">'' @ [CHR 0x0A] @
     ''<seqfilters>'' @ [CHR 0x0A] @
     concat (map (\<lambda>(m, f).
       ''    <section name=\"'' @ type_name_of_mask ty m @ ''\">'' @ [CHR 0x0A] @
       fl_save ''    '' f @ ''    </section>'' @ [CHR 0x0A]) (fs_filters fs)) @
     ''</seqfilters>'' @ [CHR 0x0A]"

section \<open>Loading\<close>

text \<open>The tokens \<open>QXmlStreamReader\<close> delivers, in order, and the handler they are given to.\<close>

datatype filter_token =
    StartDocument
  | EndDocument
  | StartElement string "(string \<times> string) list"
  | EndElement string
  | Characters string
  | InvalidToken
  | OtherToken

record xml_handler =
  h_currentType :: u8
  h_pattern :: string
  h_minLevel :: u8
  h_maxLevel :: u8
  h_inRegex :: bool

definition attribute :: "string \<Rightarrow> (string \<times> string) list \<Rightarrow> string" where
  "attribute n as = (case map_of as n of Some v \<Rightarrow> v | None \<Rightarrow> '''')"

definition h_startDocument :: "xml_handler \<Rightarrow> xml_handler" where
  "h_startDocument h = h\<lparr>h_currentType := 255, h_pattern := '''', h_minLevel := 0, h_maxLevel := 0, h_inRegex := False\<rparr>"

definition h_startElement ::
  "regex_lib \<Rightarrow> filter_types \<Rightarrow> string \<Rightarrow> (string \<times> string) list \<Rightarrow> xml_handler \<Rightarrow> (bool \<times> xml_handler) res" where
  "h_startElement L ty name as h =
     (if name = ''oldfilter'' then Inr (True, h\<lparr>h_pattern := '''', h_minLevel := 0, h_maxLevel := 0\<rparr>)
      else if name = ''regex'' then Inr (True, h\<lparr>h_inRegex := True\<rparr>)
      else if name = ''level'' then
        (let h = (if attribute ''min'' as \<noteq> '''' then h\<lparr>h_minLevel := ucast (rx_toUShort L (attribute ''min'' as))\<rparr> else h);
             h = (if attribute ''max'' as \<noteq> '''' then h\<lparr>h_maxLevel := ucast (rx_toUShort L (attribute ''max'' as))\<rparr> else h)
         in Inr (True, h))
      else if name = ''section'' then
        (if attribute ''name'' as = '''' then Inr (False, h)
         else rbind (type_of_name ty (attribute ''name'' as)) (\<lambda>t. Inr (True, h\<lparr>h_currentType := t\<rparr>)))
      else Inr (True, h))"

definition h_characters :: "string \<Rightarrow> xml_handler \<Rightarrow> xml_handler" where
  "h_characters ch h = (if h_inRegex h then h\<lparr>h_pattern := ch\<rparr> else h)"

definition h_endElement :: "regex_lib \<Rightarrow> filter_types \<Rightarrow> string \<Rightarrow> xml_handler \<times> filters \<Rightarrow> (xml_handler \<times> filters) res" where
  "h_endElement L ty name = (\<lambda>(h, fs).
     let h = (if name = ''regex'' then h\<lparr>h_inRegex := False\<rparr> else h) in
     if name = ''oldfilter'' then
       (if h_currentType h \<le> ty_maxType ty
        then rbind (fs_addFilter L ty (h_currentType h) (h_pattern h) (h_minLevel h) (h_maxLevel h) fs)
               (\<lambda>(ok, fs). Inr (h, fs))
        else Inr (h, fs))
     else if name = ''section'' then Inr (h\<lparr>h_currentType := 255\<rparr>, fs)
     else Inr (h, fs))"

fun load_tokens ::
  "regex_lib \<Rightarrow> filter_types \<Rightarrow> filter_token list \<Rightarrow> xml_handler \<times> filters \<Rightarrow> (bool \<times> xml_handler \<times> filters) res" where
  "load_tokens L ty [] s = Inr (True, s)"
| "load_tokens L ty (t # ts) (h, fs) =
     (case t of
        InvalidToken \<Rightarrow> Inr (False, h, fs)
      | StartDocument \<Rightarrow> load_tokens L ty ts (h_startDocument h, fs)
      | StartElement name as \<Rightarrow>
          rbind (h_startElement L ty name as h) (\<lambda>(ok, h).
            if ok then load_tokens L ty ts (h, fs) else Inr (False, h, fs))
      | EndElement name \<Rightarrow> rbind (h_endElement L ty name (h, fs)) (load_tokens L ty ts)
      | Characters ch \<Rightarrow> load_tokens L ty ts (h_characters ch h, fs)
      | EndDocument \<Rightarrow> load_tokens L ty ts (h, fs)
      | OtherToken \<Rightarrow> load_tokens L ty ts (h, fs))"

text \<open>\<open>Filters::load\<close>: \<open>content\<close> is what the reader makes of the file, \<open>None\<close> when it cannot be opened; \<open>h\<close> is
  the memory of the handler before its first token.\<close>

definition fs_load ::
  "regex_lib \<Rightarrow> filter_types \<Rightarrow> xml_handler \<Rightarrow> string \<Rightarrow> filter_token list option \<Rightarrow> filters \<Rightarrow> (bool \<times> filters) res" where
  "fs_load L ty h filename content fs =
     (let fs = (fs_clear fs)\<lparr>fs_file := filename\<rparr> in
      if filename = '''' then Inr (False, fs)
      else case content of
             None \<Rightarrow> Inr (False, fs)
           | Some tokens \<Rightarrow> rbind (load_tokens L ty tokens (h, fs)) (\<lambda>(ok, h, fs). Inr (ok, fs)))"

section \<open>The filter manager\<close>

definition FILTER_TYPE_TABLE :: "string list" where
  "FILTER_TYPE_TABLE = [''Hunt'', ''Caution'', ''Danger'', ''Locate'', ''Alert'', ''Filtered'', ''Tracer'']"

definition SIZEOF_FILTERS :: u8 where "SIZEOF_FILTERS = 7"

datatype filter_event =
    FiltersChanged
  | RuntimeFiltersChanged u8
  | FileWritten string string

record filter_mgr =
  fm_types :: filter_types
  fm_filterFile :: string
  fm_filters :: filters
  fm_zoneFilterFile :: string
  fm_zoneFilters :: filters
  fm_runtimeTypes :: filter_types
  fm_runtimeFilters :: filters
  fm_caseSensitive :: bool
  fm_events :: "filter_event list"

text \<open>
  The surroundings of the manager: the regular expressions, \<open>DataLocationMgr\<close> with the file name part of a path, the
  contents of files as the XML reader sees them, the files that can be written, and fresh memory.
\<close>

record filter_env =
  fe_lib :: regex_lib
  fe_findExisting :: "string \<Rightarrow> string"
  fe_findWrite :: "string \<Rightarrow> string"
  fe_fileName :: "string \<Rightarrow> string"
  fe_read :: "string \<Rightarrow> filter_token list option"
  fe_opens :: "string \<Rightarrow> bool"
  fe_handler :: xml_handler
  fe_junk :: bool

definition fm_signal :: "filter_event \<Rightarrow> filter_mgr \<Rightarrow> filter_mgr" where
  "fm_signal e m = m\<lparr>fm_events := fm_events m @ [e]\<rparr>"

fun registerAll :: "string list \<Rightarrow> filter_types \<Rightarrow> filter_types res" where
  "registerAll [] ty = Inr ty"
| "registerAll (n # ns) ty = rbind (registerType n ty) (\<lambda>(r, ty). registerAll ns ty)"

definition fm_loadFile :: "filter_env \<Rightarrow> string \<Rightarrow> filter_mgr \<Rightarrow> filter_mgr res" where
  "fm_loadFile E path m =
     rbind (fs_load (fe_lib E) (fm_types m) (fe_handler E) path (fe_read E path) (fm_filters m))
       (\<lambda>(ok, fs). Inr (fm_signal FiltersChanged (m\<lparr>fm_filterFile := path, fm_filters := fs\<rparr>)))"

definition fm_loadZoneFile :: "filter_env \<Rightarrow> string \<Rightarrow> filter_mgr \<Rightarrow> filter_mgr res" where
  "fm_loadZoneFile E path m =
     rbind (fs_load (fe_lib E) (fm_types m) (fe_handler E) path (fe_read E path) (fm_zoneFilters m))
       (\<lambda>(ok, fs). Inr (fm_signal FiltersChanged (m\<lparr>fm_zoneFilterFile := path, fm_zoneFilters := fs\<rparr>)))"

definition fm_loadFilters :: "filter_env \<Rightarrow> filter_mgr \<Rightarrow> filter_mgr res" where
  "fm_loadFilters E m = fm_loadFile E (fe_findExisting E (fe_fileName E (fm_filterFile m))) m"

definition fm_loadFiltersFrom :: "filter_env \<Rightarrow> string \<Rightarrow> filter_mgr \<Rightarrow> filter_mgr res" where
  "fm_loadFiltersFrom E fileName m = fm_loadFile E (fe_findExisting E fileName) m"

definition fm_loadZone :: "filter_env \<Rightarrow> string \<Rightarrow> filter_mgr \<Rightarrow> filter_mgr res" where
  "fm_loadZone E shortZoneName m = fm_loadZoneFile E (fe_findExisting E (shortZoneName @ ''.xml'')) m"

definition fm_loadZoneFilters :: "filter_env \<Rightarrow> filter_mgr \<Rightarrow> filter_mgr res" where
  "fm_loadZoneFilters E m = fm_loadZoneFile E (fe_findExisting E (fe_fileName E (fm_zoneFilterFile m))) m"

definition fm_saveFilters :: "filter_env \<Rightarrow> filter_mgr \<Rightarrow> filter_mgr" where
  "fm_saveFilters E m =
     (let path = fe_findWrite E (fe_fileName E (fm_filterFile m)); m = m\<lparr>fm_filterFile := path\<rparr> in
      if fe_opens E path then fm_signal (FileWritten path (fs_save (fm_types m) (fm_filters m))) m else m)"

definition fm_saveZoneFilters :: "filter_env \<Rightarrow> filter_mgr \<Rightarrow> filter_mgr" where
  "fm_saveZoneFilters E m =
     (let path = fe_findWrite E (fe_fileName E (fm_zoneFilterFile m)); m = m\<lparr>fm_zoneFilterFile := path\<rparr> in
      if fe_opens E path then fm_signal (FileWritten path (fs_save (fm_types m) (fm_zoneFilters m))) m else m)"

definition mkFilterMgr :: "filter_env \<Rightarrow> string \<Rightarrow> bool \<Rightarrow> filter_mgr res" where
  "mkFilterMgr E filterFile spawnfilter_case =
     rbind (registerAll FILTER_TYPE_TABLE mkFilterTypes) (\<lambda>ty.
     let m = \<lparr>fm_types = ty, fm_filterFile = '''', fm_filters = mkFilters (fe_junk E), fm_zoneFilterFile = '''',
               fm_zoneFilters = mkFilters (fe_junk E), fm_runtimeTypes = mkFilterTypes,
               fm_runtimeFilters = mkFilters (fe_junk E), fm_caseSensitive = spawnfilter_case, fm_events = []\<rparr> in
     rbind (fm_loadFiltersFrom E filterFile m) (fm_loadZone E ''unknown''))"

definition fm_setCaseSensitive :: "bool \<Rightarrow> filter_mgr \<Rightarrow> filter_mgr" where
  "fm_setCaseSensitive cs m =
     m\<lparr>fm_caseSensitive := cs, fm_filters := fs_setCaseSensitive cs (fm_filters m),
       fm_zoneFilters := fs_setCaseSensitive cs (fm_zoneFilters m),
       fm_runtimeFilters := fs_setCaseSensitive cs (fm_runtimeFilters m)\<rparr>"

definition fm_filterMask :: "regex_lib \<Rightarrow> filter_mgr \<Rightarrow> string \<Rightarrow> u8 \<Rightarrow> u32" where
  "fm_filterMask L m filterString level =
     fs_filterMask L (fm_filters m) filterString level OR fs_filterMask L (fm_zoneFilters m) filterString level"

definition fm_filterString :: "filter_mgr \<Rightarrow> u32 \<Rightarrow> string" where
  "fm_filterString m flags = type_names (fm_types m) flags"

definition fm_addFilter :: "regex_lib \<Rightarrow> u8 \<Rightarrow> string \<Rightarrow> filter_mgr \<Rightarrow> (bool \<times> filter_mgr) res" where
  "fm_addFilter L t p m =
     (if t \<ge> SIZEOF_FILTERS then Inr (False, m)
      else rbind (fs_addFilter L (fm_types m) t p 0 0 (fm_filters m))
             (\<lambda>(ok, fs). Inr (ok, fm_signal FiltersChanged (m\<lparr>fm_filters := fs\<rparr>))))"

definition fm_remFilter :: "u8 \<Rightarrow> string \<Rightarrow> filter_mgr \<Rightarrow> filter_mgr res" where
  "fm_remFilter t p m =
     (if t \<ge> SIZEOF_FILTERS then Inr m
      else rbind (fs_remFilter (fm_types m) t p (fm_filters m))
             (\<lambda>fs. Inr (fm_signal FiltersChanged (m\<lparr>fm_filters := fs\<rparr>))))"

definition fm_addZoneFilter :: "regex_lib \<Rightarrow> u8 \<Rightarrow> string \<Rightarrow> filter_mgr \<Rightarrow> (bool \<times> filter_mgr) res" where
  "fm_addZoneFilter L t p m =
     (if t \<ge> SIZEOF_FILTERS then Inr (False, m)
      else rbind (fs_addFilter L (fm_types m) t p 0 0 (fm_zoneFilters m))
             (\<lambda>(ok, fs). Inr (ok, fm_signal FiltersChanged (m\<lparr>fm_zoneFilters := fs\<rparr>))))"

definition fm_remZoneFilter :: "u8 \<Rightarrow> string \<Rightarrow> filter_mgr \<Rightarrow> filter_mgr res" where
  "fm_remZoneFilter t p m =
     (if t \<ge> SIZEOF_FILTERS then Inr m
      else rbind (fs_remFilter (fm_types m) t p (fm_zoneFilters m))
             (\<lambda>fs. Inr (fm_signal FiltersChanged (m\<lparr>fm_zoneFilters := fs\<rparr>))))"

definition fm_editFilter :: "regex_lib \<Rightarrow> u8 \<Rightarrow> string \<Rightarrow> string \<Rightarrow> filter_mgr \<Rightarrow> (bool \<times> filter_mgr) res" where
  "fm_editFilter L t oldPattern newPattern m =
     (if t \<ge> SIZEOF_FILTERS then Inr (False, m)
      else rbind (fs_remFilter (fm_types m) t oldPattern (fm_filters m)) (\<lambda>fs.
           rbind (fs_addFilter L (fm_types m) t newPattern 0 0 fs)
             (\<lambda>(ok, fs). Inr (ok, fm_signal FiltersChanged (m\<lparr>fm_filters := fs\<rparr>)))))"

definition fm_editZoneFilter :: "regex_lib \<Rightarrow> u8 \<Rightarrow> string \<Rightarrow> string \<Rightarrow> filter_mgr \<Rightarrow> (bool \<times> filter_mgr) res" where
  "fm_editZoneFilter L t oldPattern newPattern m =
     (if t \<ge> SIZEOF_FILTERS then Inr (False, m)
      else rbind (fs_remFilter (fm_types m) t oldPattern (fm_zoneFilters m)) (\<lambda>fs.
           rbind (fs_addFilter L (fm_types m) t newPattern 0 0 fs)
             (\<lambda>(ok, fs). Inr (ok, fm_signal FiltersChanged (m\<lparr>fm_zoneFilters := fs\<rparr>)))))"

definition registerRuntimeFilter :: "string \<Rightarrow> filter_mgr \<Rightarrow> ((u8 \<times> u32) option \<times> filter_mgr) res" where
  "registerRuntimeFilter name m =
     rbind (registerType name (fm_runtimeTypes m)) (\<lambda>(r, ty). Inr (r, m\<lparr>fm_runtimeTypes := ty\<rparr>))"

definition unregisterRuntimeFilter :: "u8 \<Rightarrow> filter_mgr \<Rightarrow> filter_mgr res" where
  "unregisterRuntimeFilter t m =
     rbind (fs_clearType t (fm_runtimeFilters m)) (\<lambda>fs.
     rbind (unregisterType t (fm_runtimeTypes m)) (\<lambda>ty.
       Inr (m\<lparr>fm_runtimeFilters := fs, fm_runtimeTypes := ty\<rparr>)))"

definition runtimeFilterMask :: "regex_lib \<Rightarrow> filter_mgr \<Rightarrow> string \<Rightarrow> u8 \<Rightarrow> u32" where
  "runtimeFilterMask L m filterString level = fs_filterMask L (fm_runtimeFilters m) filterString level"

definition runtimeFilterString :: "filter_mgr \<Rightarrow> u32 \<Rightarrow> string" where
  "runtimeFilterString m flags = type_names (fm_runtimeTypes m) flags"

definition runtimeFilterAddFilter :: "regex_lib \<Rightarrow> u8 \<Rightarrow> string \<Rightarrow> filter_mgr \<Rightarrow> (bool \<times> filter_mgr) res" where
  "runtimeFilterAddFilter L t p m =
     rbind (fs_addFilter L (fm_runtimeTypes m) t p 0 0 (fm_runtimeFilters m))
       (\<lambda>(ok, fs). Inr (ok, m\<lparr>fm_runtimeFilters := fs\<rparr>))"

definition runtimeFilterRemFilter :: "u8 \<Rightarrow> string \<Rightarrow> filter_mgr \<Rightarrow> filter_mgr res" where
  "runtimeFilterRemFilter t p m =
     rbind (fs_remFilter (fm_runtimeTypes m) t p (fm_runtimeFilters m)) (\<lambda>fs. Inr (m\<lparr>fm_runtimeFilters := fs\<rparr>))"

definition runtimeFilterCommit :: "u8 \<Rightarrow> filter_mgr \<Rightarrow> filter_mgr" where
  "runtimeFilterCommit t m = fm_signal (RuntimeFiltersChanged t) m"

section \<open>The requests of a client\<close>

text \<open>The messages of \<open>ClientEnvelope\<close> that concern filters; a type comes as a 32-bit number and is cut to 8 bits.\<close>

datatype filter_request =
    AddFilterRule u32 string bool
  | RemoveFilterRule u32 string bool
  | EditFilterRule u32 string string bool
  | SaveFilters bool
  | ReloadFilters

definition onFilterRequest :: "filter_env \<Rightarrow> string \<Rightarrow> filter_request \<Rightarrow> filter_mgr \<Rightarrow> filter_mgr res" where
  "onFilterRequest E zone req m = (case req of
     AddFilterRule t p perZone \<Rightarrow>
       rbind (if perZone then fm_addZoneFilter (fe_lib E) (ucast t) p m else fm_addFilter (fe_lib E) (ucast t) p m)
         (\<lambda>(ok, m). Inr m)
   | RemoveFilterRule t p perZone \<Rightarrow>
       (if perZone then fm_remZoneFilter (ucast t) p m else fm_remFilter (ucast t) p m)
   | EditFilterRule t old new perZone \<Rightarrow>
       rbind (if perZone then fm_editZoneFilter (fe_lib E) (ucast t) old new m else fm_editFilter (fe_lib E) (ucast t) old new m)
         (\<lambda>(ok, m). Inr m)
   | SaveFilters perZone \<Rightarrow> Inr (if perZone then fm_saveZoneFilters E m else fm_saveFilters E m)
   | ReloadFilters \<Rightarrow>
       rbind (fm_loadFilters E m) (\<lambda>m. if zone = '''' then Inr m else fm_loadZone E zone m))"

text \<open>What a client is told: type, pattern, levels and whether the rule is one of the zone.\<close>

type_synonym rule_row = "u8 \<times> string \<times> int \<times> int \<times> bool"

fun rule_rows :: "filters \<Rightarrow> bool \<Rightarrow> u8 \<Rightarrow> nat list \<Rightarrow> rule_row list res" where
  "rule_rows fs perZone t [] = Inr []"
| "rule_rows fs perZone t (i # is) =
     rbind (fs_getOrigFilterString fs t i) (\<lambda>p.
     rbind (fs_getMinLevel fs t i) (\<lambda>minLevel.
     rbind (fs_getMaxLevel fs t i) (\<lambda>maxLevel.
     rbind (rule_rows fs perZone t is) (\<lambda>rows. Inr ((t, p, minLevel, maxLevel, perZone) # rows)))))"

fun appendFilterRules :: "filters \<Rightarrow> bool \<Rightarrow> nat list \<Rightarrow> rule_row list res" where
  "appendFilterRules fs perZone [] = Inr []"
| "appendFilterRules fs perZone (t # ts) =
     rbind (fs_numFilters fs (of_nat t)) (\<lambda>n.
     rbind (rule_rows fs perZone (of_nat t) [0..<n]) (\<lambda>rows.
     rbind (appendFilterRules fs perZone ts) (\<lambda>more. Inr (rows @ more))))"

definition fillFilterRulesUpdate :: "filter_mgr \<Rightarrow> rule_row list res" where
  "fillFilterRulesUpdate m =
     rbind (appendFilterRules (fm_filters m) False [0..<unat SIZEOF_FILTERS]) (\<lambda>rows.
     rbind (appendFilterRules (fm_zoneFilters m) True [0..<unat SIZEOF_FILTERS]) (\<lambda>more. Inr (rows @ more)))"

end
