(* ===== verification/XmlText.thy ===== *)
theory XmlText
  imports Filters "HOL-Library.Sublist"
begin

text \<open>
  The XML documents the filters are kept in, as text and as the tokens of a reader. \<open>QXmlStreamReader\<close>, which reads them,
  is a library: \<open>xml_reader\<close> says what is documented of it, for every well-formed document of elements, attributes and text.
  A reader that can be run shows that the contract can be met.
\<close>

section \<open>Documents\<close>

datatype xml_node =
    XText string
  | XEmpty string "(string \<times> string) list"
  | XElement string "(string \<times> string) list" "xml_node list"

definition show_attrs :: "(string \<times> string) list \<Rightarrow> string" where
  "show_attrs as = concat (map (\<lambda>(n, v). '' '' @ n @ ''=\"'' @ v @ ''\"'') as)"

fun show_node :: "xml_node \<Rightarrow> string" where
  "show_node (XText s) = s"
| "show_node (XEmpty n as) = ''<'' @ n @ show_attrs as @ ''/>''"
| "show_node (XElement n as ns) = ''<'' @ n @ show_attrs as @ ''>'' @ concat (map show_node ns) @ ''</'' @ n @ ''>''"

fun node_tokens :: "xml_node \<Rightarrow> filter_token list" where
  "node_tokens (XText s) = [Characters s]"
| "node_tokens (XEmpty n as) = [StartElement n as, EndElement n]"
| "node_tokens (XElement n as ns) = StartElement n as # concat (map node_tokens ns) @ [EndElement n]"

text \<open>The characters that stand for themselves, in text and in the value of an attribute.\<close>

definition xml_char :: "char \<Rightarrow> bool" where
  "xml_char c \<longleftrightarrow> (32 \<le> (of_char c :: nat) \<or> c = CHR 0x09 \<or> c = CHR 0x0A) \<and> c \<noteq> CHR ''<'' \<and> c \<noteq> CHR ''&''"

definition xml_text :: "string \<Rightarrow> bool" where
  "xml_text s \<longleftrightarrow> list_all xml_char s \<and> \<not> sublist '']]>'' s"

definition xml_value :: "string \<Rightarrow> bool" where
  "xml_value v \<longleftrightarrow> list_all (\<lambda>c. xml_char c \<and> 32 \<le> (of_char c :: nat) \<and> c \<noteq> CHR 0x22 \<and> c \<noteq> CHR ''>'') v"

definition xml_name :: "string \<Rightarrow> bool" where
  "xml_name n \<longleftrightarrow> n \<noteq> [] \<and> list_all (\<lambda>c. 97 \<le> (of_char c :: nat) \<and> (of_char c :: nat) \<le> 122) n"

definition xml_attrs :: "(string \<times> string) list \<Rightarrow> bool" where
  "xml_attrs as \<longleftrightarrow> distinct (map fst as) \<and> list_all (\<lambda>(n, v). xml_name n \<and> xml_value v) as"

definition is_text :: "xml_node \<Rightarrow> bool" where
  "is_text x = (case x of XText s \<Rightarrow> True | _ \<Rightarrow> False)"

text \<open>Two texts in a row would be one.\<close>

fun wf_node :: "xml_node \<Rightarrow> bool" where
  "wf_node (XText s) \<longleftrightarrow> s \<noteq> [] \<and> xml_text s"
| "wf_node (XEmpty n as) \<longleftrightarrow> xml_name n \<and> xml_attrs as"
| "wf_node (XElement n as ns) \<longleftrightarrow> xml_name n \<and> xml_attrs as \<and> (\<forall>x\<in>set ns. wf_node x) \<and>
     successively (\<lambda>x y. \<not> (is_text x \<and> is_text y)) ns"

section \<open>The contract of a reader\<close>

definition line_end :: string where "line_end = [CHR 0x0A]"

definition xml_prolog :: "string \<Rightarrow> string \<Rightarrow> string" where
  "xml_prolog root dtd = ''<?xml version=\"1.0\" encoding=\"UTF-8\"?>'' @ line_end @
     ''<!DOCTYPE '' @ root @ '' SYSTEM \"'' @ dtd @ ''\">'' @ line_end"

text \<open>Tokens before and behind the root element: the document type, and blanks where a reader reports them.\<close>

definition only_misc :: "filter_token list \<Rightarrow> bool" where
  "only_misc = list_all (\<lambda>t. t = OtherToken \<or> (\<exists>s. t = Characters s \<and> list_all is_blank s))"

definition xml_reader :: "(string \<Rightarrow> filter_token list) \<Rightarrow> bool" where
  "xml_reader xml \<longleftrightarrow> (\<forall>n as ns dtd. wf_node (XElement n as ns) \<longrightarrow> xml_value dtd \<longrightarrow>
     (\<exists>before behind. only_misc before \<and> only_misc behind \<and>
        xml (xml_prolog n dtd @ show_node (XElement n as ns) @ line_end) =
          StartDocument # before @ node_tokens (XElement n as ns) @ behind @ [EndDocument]))"

section \<open>A reader that can be run\<close>

text \<open>A text up to a character, and what is behind it.\<close>

definition upto_char :: "char \<Rightarrow> string \<Rightarrow> string" where
  "upto_char c s = takeWhile (\<lambda>d. d \<noteq> c) s"

definition behind_char :: "char \<Rightarrow> string \<Rightarrow> string" where
  "behind_char c s = tl (dropWhile (\<lambda>d. d \<noteq> c) s)"

lemma upto_append [simp]: "c \<notin> set s \<Longrightarrow> upto_char c (s @ c # r) = s"
  by (induction s) (auto simp: upto_char_def)

lemma behind_append [simp]: "c \<notin> set s \<Longrightarrow> behind_char c (s @ c # r) = r"
  by (induction s) (auto simp: behind_char_def)

lemma length_behind: "length (behind_char c s) \<le> length s"
  using length_dropWhile_le [of "\<lambda>d. d \<noteq> c" s] by (simp add: behind_char_def)

text \<open>The attributes in a tag: every one has a blank in front.\<close>

function scan_attrs :: "string \<Rightarrow> (string \<times> string) list" where
  "scan_attrs [] = []"
| "scan_attrs (c # s) =
     (if c = CHR '' '' then (upto_char CHR ''='' s, upto_char CHR 0x22 (tl (behind_char CHR ''='' s))) #
        scan_attrs (behind_char CHR 0x22 (tl (behind_char CHR ''='' s)))
      else [])"
  by pat_completeness auto
termination
proof (relation "measure length")
  fix s :: string
  have "length (behind_char CHR 0x22 (tl (behind_char CHR ''='' s))) \<le> length s"
    using length_behind [of "CHR 0x22" "tl (behind_char CHR ''='' s)"] length_behind [of "CHR ''=''" s] by simp
  then show "(behind_char CHR 0x22 (tl (behind_char CHR ''='' s)), c # s) \<in> measure length" for c by simp
qed simp

definition letter :: "char \<Rightarrow> bool" where
  "letter c \<longleftrightarrow> 97 \<le> (of_char c :: nat) \<and> (of_char c :: nat) \<le> 122"

text \<open>The tokens of what stands between the brackets of a tag.\<close>

definition scan_tag :: "string \<Rightarrow> filter_token list" where
  "scan_tag t =
     (if t = [] then [InvalidToken]
      else if hd t = CHR ''?'' then []
      else if hd t = CHR ''!'' then [OtherToken]
      else if hd t = CHR ''/'' then [EndElement (tl t)]
      else let n = takeWhile letter t; r = dropWhile letter t in
        if r \<noteq> [] \<and> last r = CHR ''/'' then [StartElement n (scan_attrs (butlast r)), EndElement n]
        else [StartElement n (scan_attrs r)])"

function scan_text :: "string \<Rightarrow> filter_token list" where
  "scan_text [] = []"
| "scan_text (c # s) =
     (if c = CHR ''<'' then scan_tag (upto_char CHR ''>'' s) @ scan_text (behind_char CHR ''>'' s)
      else Characters (c # upto_char CHR ''<'' s) # scan_text (dropWhile (\<lambda>d. d \<noteq> CHR ''<'') s))"
  by pat_completeness auto
termination
  by (relation "measure length") (auto simp: le_imp_less_Suc length_behind length_dropWhile_le)

definition scan_xml :: "string \<Rightarrow> filter_token list" where
  "scan_xml s = StartDocument # scan_text s @ [EndDocument]"

lemma letter_not: "letter c \<Longrightarrow> c \<noteq> CHR ''='' \<and> c \<noteq> CHR 0x22 \<and> c \<noteq> CHR ''>'' \<and> c \<noteq> CHR ''/'' \<and> c \<noteq> CHR '' '' \<and>
    c \<noteq> CHR ''?'' \<and> c \<noteq> CHR ''!'' \<and> c \<noteq> CHR ''<''"
  by (auto simp: letter_def)

lemma name_letters: "xml_name n \<longleftrightarrow> n \<noteq> [] \<and> list_all letter n"
  by (simp add: xml_name_def letter_def [abs_def])

lemma name_not_in:
  assumes "xml_name n" "c \<in> {CHR ''='', CHR 0x22, CHR ''>'', CHR ''/'', CHR '' '', CHR ''?'', CHR ''!'', CHR ''<''}"
  shows "c \<notin> set n"
  using assms letter_not by (auto simp: name_letters list_all_iff)

lemma value_not_in: "xml_value v \<Longrightarrow> CHR 0x22 \<notin> set v \<and> CHR ''>'' \<notin> set v"
  by (auto simp: xml_value_def list_all_iff)

lemma scan_attrs_show: "xml_attrs as \<Longrightarrow> scan_attrs (show_attrs as) = as"
proof (induction as)
  case (Cons a as)
  obtain n v where a: "a = (n, v)" by (cases a)
  have n: "CHR ''='' \<notin> set n" and v: "CHR 0x22 \<notin> set v"
    using Cons.prems name_not_in value_not_in by (auto simp: xml_attrs_def a)
  have "scan_attrs (show_attrs as) = as" using Cons by (simp add: xml_attrs_def)
  then show ?case using n v by (simp add: show_attrs_def a)
qed (simp add: show_attrs_def)

lemma attrs_no_close: "xml_attrs as \<Longrightarrow> CHR ''>'' \<notin> set (show_attrs as)"
  using name_not_in value_not_in by (fastforce simp: show_attrs_def xml_attrs_def list_all_iff)

lemma attrs_shape: "show_attrs as = [] \<or> hd (show_attrs as) = CHR '' '' \<and> last (show_attrs as) = CHR 0x22"
proof (induction as)
  case (Cons a as)
  then show ?case by (cases a; cases "show_attrs as = []") (auto simp: show_attrs_def)
qed (simp add: show_attrs_def)

lemma name_split:
  assumes "xml_name n" "r = [] \<or> \<not> letter (hd r)"
  shows "takeWhile letter (n @ r) = n" "dropWhile letter (n @ r) = r"
  using assms by (cases r; simp add: name_letters list_all_iff takeWhile_append2 dropWhile_append2)+

lemma scan_tag_open:
  assumes "xml_name n" "xml_attrs as"
  shows "scan_tag (n @ show_attrs as) = [StartElement n as]" "scan_tag (n @ show_attrs as @ ''/'') = [StartElement n as, EndElement n]"
proof -
  have h: "n \<noteq> []" "letter (hd n)" using assms(1) by (cases n; simp add: name_letters)+
  have b: "\<not> letter CHR '' ''" "\<not> letter CHR ''/''" using letter_not by blast+
  have r: "show_attrs as = [] \<or> \<not> letter (hd (show_attrs as))" using attrs_shape [of as] b(1) by auto
  have l: "show_attrs as = [] \<or> last (show_attrs as) \<noteq> CHR ''/''" using attrs_shape [of as] by auto
  show "scan_tag (n @ show_attrs as) = [StartElement n as]"
    using h letter_not [OF h(2)] name_split [OF assms(1) r] l scan_attrs_show [OF assms(2)] by (auto simp: scan_tag_def Let_def)
  have "show_attrs as @ ''/'' = [] \<or> \<not> letter (hd (show_attrs as @ ''/''))" using attrs_shape [of as] b by (cases "show_attrs as") auto
  from name_split [OF assms(1) this] show "scan_tag (n @ show_attrs as @ ''/'') = [StartElement n as, EndElement n]"
    using h letter_not [OF h(2)] scan_attrs_show [OF assms(2)] by (simp add: scan_tag_def Let_def butlast_append)
qed

lemma scan_one_tag: "CHR ''>'' \<notin> set t \<Longrightarrow> scan_text (''<'' @ t @ ''>'' @ r) = scan_tag t @ scan_text r"
  by simp

lemma scan_some_text:
  assumes "xml_text s" "s \<noteq> []" "r \<noteq> []" "hd r = CHR ''<''"
  shows "scan_text (s @ r) = Characters s # scan_text r"
proof -
  have n: "CHR ''<'' \<notin> set s" using assms(1) by (auto simp: xml_text_def list_all_iff xml_char_def)
  obtain c t where s: "s = c # t" using assms(2) by (cases s) auto
  obtain u where r: "r = CHR ''<'' # u" using assms(3,4) by (cases r) auto
  have "dropWhile (\<lambda>d. d \<noteq> CHR ''<'') (t @ CHR ''<'' # u) = CHR ''<'' # u"
    using n s by (subst dropWhile_append2) auto
  then show ?thesis using n by (auto simp: s r)
qed

lemma blank_text: "list_all (\<lambda>c. c = CHR 0x0A \<or> c = CHR '' '') s \<Longrightarrow> xml_text s"
proof -
  assume b: "list_all (\<lambda>c. c = CHR 0x0A \<or> c = CHR '' '') s"
  have "\<not> sublist '']]>'' s"
  proof
    assume "sublist '']]>'' s"
    then obtain p q where "s = p @ '']]>'' @ q" unfolding sublist_def by blast
    then have "CHR '']'' \<in> set s" by simp
    with b have "CHR '']'' = CHR 0x0A \<or> CHR '']'' = CHR '' ''" unfolding list_all_iff by (rule bspec)
    then show False by simp
  qed
  moreover have "list_all xml_char s" using b by (rule list.pred_mono_strong) (auto simp: xml_char_def)
  ultimately show "xml_text s" by (simp add: xml_text_def)
qed

lemma node_opens: "wf_node x \<Longrightarrow> \<not> is_text x \<Longrightarrow> show_node x \<noteq> [] \<and> hd (show_node x) = CHR ''<''"
  by (cases x) (auto simp: is_text_def)

lemma scan_node:
  "wf_node x \<Longrightarrow> (is_text x \<longrightarrow> r \<noteq> [] \<and> hd r = CHR ''<'') \<Longrightarrow> scan_text (show_node x @ r) = node_tokens x @ scan_text r"
proof (induction x arbitrary: r)
  case (XText s)
  then show ?case using scan_some_text by (simp add: is_text_def)
next
  case (XEmpty n as)
  then have "CHR ''>'' \<notin> set (n @ show_attrs as @ ''/'')" using name_not_in attrs_no_close by simp
  from scan_one_tag [OF this, of r] show ?case using XEmpty.prems scan_tag_open by simp
next
  case (XElement n as ns)
  have nodes: "scan_text (concat (map show_node xs) @ u) = concat (map node_tokens xs) @ scan_text u"
    if "set xs \<subseteq> set ns" "\<forall>x\<in>set xs. wf_node x" "successively (\<lambda>x y. \<not> (is_text x \<and> is_text y)) xs" "u \<noteq> []" "hd u = CHR ''<''" for xs u
    using that
  proof (induction xs)
    case (Cons x xs)
    let ?rest = "concat (map show_node xs) @ u"
    have "?rest \<noteq> [] \<and> hd ?rest = CHR ''<''" if "is_text x"
    proof (cases xs)
      case (Cons y ys)
      then have "\<not> is_text y" "wf_node y" using Cons.prems(2,3) that by auto
      then show ?thesis using node_opens Cons by auto
    qed (use Cons.prems(4,5) in simp)
    then have "scan_text (show_node x @ ?rest) = node_tokens x @ scan_text ?rest"
      using XElement.IH [of x ?rest] Cons.prems(1,2) by auto
    moreover have "successively (\<lambda>x y. \<not> (is_text x \<and> is_text y)) xs" using Cons.prems(3) by (cases xs) auto
    ultimately show ?case using Cons by simp
  qed simp
  have o: "CHR ''>'' \<notin> set (n @ show_attrs as)" using XElement.prems(1) name_not_in attrs_no_close by simp
  have "CHR ''>'' \<notin> set n" using XElement.prems(1) name_not_in by simp
  then have c: "CHR ''>'' \<notin> set (''/'' @ n)" by simp
  have "scan_text (show_node (XElement n as ns) @ r) =
      scan_tag (n @ show_attrs as) @ scan_text (concat (map show_node ns) @ ''<'' @ (''/'' @ n) @ ''>'' @ r)"
    using scan_one_tag [OF o, of "concat (map show_node ns) @ ''<'' @ (''/'' @ n) @ ''>'' @ r"] by simp
  also have "\<dots> = scan_tag (n @ show_attrs as) @ concat (map node_tokens ns) @ scan_text (''<'' @ (''/'' @ n) @ ''>'' @ r)"
    using nodes [of ns "''<'' @ (''/'' @ n) @ ''>'' @ r"] XElement.prems(1) by simp
  also have "scan_text (''<'' @ (''/'' @ n) @ ''>'' @ r) = [EndElement n] @ scan_text r"
    unfolding scan_one_tag [OF c] by (simp add: scan_tag_def)
  finally show ?case using scan_tag_open XElement.prems(1) by simp
qed

lemma scan_prolog:
  assumes "xml_name n" "xml_value dtd" "hd r = CHR ''<''" "r \<noteq> []"
  shows "scan_text (xml_prolog n dtd @ r) = [Characters line_end, OtherToken, Characters line_end] @ scan_text r"
proof -
  let ?t = "''!DOCTYPE '' @ n @ '' SYSTEM \"'' @ dtd @ ''\"''"
  have t: "CHR ''>'' \<notin> set ?t" using assms(1,2) name_not_in value_not_in by simp
  have l: "xml_text line_end" "line_end \<noteq> []" by (simp_all add: line_end_def blank_text)
  have "scan_text (xml_prolog n dtd @ r) =
      scan_text (''<'' @ ''?xml version=\"1.0\" encoding=\"UTF-8\"?'' @ ''>'' @ line_end @ ''<'' @ ?t @ ''>'' @ line_end @ r)"
    by (simp add: xml_prolog_def)
  also have "\<dots> = scan_text (line_end @ ''<'' @ ?t @ ''>'' @ line_end @ r)"
    by (subst scan_one_tag) (simp_all add: scan_tag_def)
  also have "\<dots> = Characters line_end # scan_text (''<'' @ ?t @ ''>'' @ line_end @ r)"
    by (rule scan_some_text) (simp_all add: l)
  also have "scan_text (''<'' @ ?t @ ''>'' @ line_end @ r) = scan_tag ?t @ scan_text (line_end @ r)"
    by (rule scan_one_tag [OF t])
  also have "scan_text (line_end @ r) = Characters line_end # scan_text r"
    using scan_some_text [OF l assms(4,3)] .
  finally show ?thesis by (simp add: scan_tag_def)
qed

lemma scan_xml_reader: "xml_reader scan_xml"
  unfolding xml_reader_def
proof (intro allI impI)
  fix n as ns dtd assume w: "wf_node (XElement n as ns)" "xml_value dtd"
  let ?x = "XElement n as ns"
  have "scan_text (xml_prolog n dtd @ show_node ?x @ line_end) =
      [Characters line_end, OtherToken, Characters line_end] @ scan_text (show_node ?x @ line_end)"
    by (rule scan_prolog) (use w in simp_all)
  also have "scan_text (show_node ?x @ line_end) = node_tokens ?x @ scan_text line_end"
    by (rule scan_node) (use w(1) in \<open>simp_all add: is_text_def\<close>)
  also have "scan_text line_end = [Characters line_end]" by (simp add: line_end_def upto_char_def)
  finally have "scan_xml (xml_prolog n dtd @ show_node ?x @ line_end) =
      StartDocument # [Characters line_end, OtherToken, Characters line_end] @ node_tokens ?x @ [Characters line_end] @ [EndDocument]"
    by (simp add: scan_xml_def)
  then show "\<exists>before behind. only_misc before \<and> only_misc behind \<and>
      scan_xml (xml_prolog n dtd @ show_node ?x @ line_end) =
        StartDocument # before @ node_tokens ?x @ behind @ [EndDocument]"
    by (intro exI [of _ "[Characters line_end, OtherToken, Characters line_end]"] exI [of _ "[Characters line_end]"])
      (simp add: only_misc_def line_end_def is_blank_def)
qed

end
