(* ===== verification/FilterLaws.thy ===== *)
theory FilterLaws
  imports XmlText
begin

text \<open>
  What the filters promise: the invariant of the rules and of the manager, the meaning of the flags of a spawn, what
  a client can remove, and what is left after the rules were saved and loaded.
\<close>

section \<open>Which levels a rule accepts\<close>

lemma fi_isFiltered_iff:
  "fi_isFiltered L it s l \<longleftrightarrow> rx_valid L (fi_pattern it) \<and> rx_search L (fi_caseInsensitive it) (fi_pattern it) s \<and>
     (fi_minLevel it = 0 \<and> fi_maxLevel it = 0 \<or> fi_minLevel it \<le> l \<and> l \<le> fi_maxLevel it)"
  by (auto simp: fi_isFiltered_def fi_valid_def word_gt_0)

section \<open>One type\<close>

text \<open>
  Every rule was compiled from its own text, and when a rule was added no earlier one had its text as pattern.
\<close>

definition rules_ok :: "filter_item list \<Rightarrow> bool" where
  "rules_ok its \<longleftrightarrow> (\<forall>it \<in> set its. fi_pattern it = fixedFilterPattern (fi_origPattern it)) \<and>
     sorted_wrt (\<lambda>a b. fi_pattern a \<noteq> fi_origPattern b) its"

lemma rules_ok_Nil [simp]: "rules_ok []"
  by (simp add: rules_ok_def)

lemma fl_findFilter_None: "fl_findFilter p f = None \<longleftrightarrow> p \<notin> fi_pattern ` set (fl_items f)"
  by (auto simp: fl_findFilter_def find_None_iff)

lemma fi_init_simps [simp]:
  "fi_pattern (fi_init p cs a b) = fixedFilterPattern p" "fi_origPattern (fi_init p cs a b) = p"
  "fi_caseInsensitive (fi_init p cs a b) = (\<not> cs)" "fi_minLevel (fi_init p cs a b) = a" "fi_maxLevel (fi_init p cs a b) = b"
  by (simp_all add: fi_init_def)

lemma rules_ok_add:
  "rules_ok (fl_items f) \<Longrightarrow> fl_addFilter L p a b f = (ok, f') \<Longrightarrow> rules_ok (fl_items f')"
  by (auto simp: fl_addFilter_def Let_def rules_ok_def sorted_wrt_append fl_findFilter_None image_iff split: if_splits)

lemma set_remove_first: "x \<in> set (remove_first P xs) \<Longrightarrow> x \<in> set xs"
  by (induction xs) (auto split: if_splits)

lemma sorted_wrt_remove_first: "sorted_wrt R xs \<Longrightarrow> sorted_wrt R (remove_first P xs)"
  by (induction xs) (auto dest: set_remove_first)

lemma rules_ok_rem: "rules_ok (fl_items f) \<Longrightarrow> rules_ok (fl_items (fl_remFilter p f))"
  by (auto simp: fl_remFilter_def rules_ok_def sorted_wrt_remove_first dest: set_remove_first)

text \<open>What is removed has the pattern that was asked for; everything else stays.\<close>

lemma remove_first_keeps: "x \<in> set xs \<Longrightarrow> \<not> P x \<Longrightarrow> x \<in> set (remove_first P xs)"
  by (induction xs) auto

lemma remove_first_only:
  assumes "sorted_wrt R xs" "\<And>a b. P a \<Longrightarrow> P b \<Longrightarrow> \<not> R a b" "x \<in> set (remove_first P xs)"
  shows "\<not> P x"
  using assms(1,3)
proof (induction xs)
  case (Cons y xs)
  then show ?case using assms(2) by (auto split: if_splits)
qed simp

lemma contains_replaced:
  assumes "contains_ci s p" "starts_with_ci a p" "p \<noteq> []"
  shows "contains_ci (replace_ci p a 0 s) p"
  using assms(1)
proof (induction s)
  case Nil
  then show ?case using assms(3) by (simp add: starts_with_ci_def same_ci_def lower_def)
next
  case (Cons c s)
  have len: "length p \<le> length a"
  proof -
    have "length (take (length p) a) = length p"
      using arg_cong [OF assms(2) [unfolded starts_with_ci_def same_ci_def], of length] by simp
    then show ?thesis by simp
  qed
  show ?case
  proof (cases "starts_with_ci (c # s) p")
    case True
    have "starts_with_ci (a @ t) p" for t
      using assms(2) len by (simp add: starts_with_ci_def)
    moreover have "starts_with_ci u p \<Longrightarrow> contains_ci u p" for u by (cases u) auto
    ultimately show ?thesis using True assms(3) by simp
  next
    case False
    then show ?thesis using Cons by simp
  qed
qed

abbreviation names_spawn :: "string \<Rightarrow> bool" where
  "names_spawn p \<equiv> contains_ci p ''Name:''"

lemma fixed_id_iff: "fixedFilterPattern p = p \<longleftrightarrow> \<not> names_spawn p"
  unfolding fixedFilterPattern_def by (rule replace_ci_fixed_iff) auto

lemma fixed_names: "names_spawn p \<Longrightarrow> names_spawn (fixedFilterPattern p)"
  unfolding fixedFilterPattern_def
  by (rule contains_replaced) (simp_all add: starts_with_ci_def same_ci_def)

lemma fixed_eq_plain: "fixedFilterPattern q = p \<Longrightarrow> \<not> names_spawn p \<Longrightarrow> q = p"
  using fixed_names [of q] fixed_id_iff [of q] by auto

text \<open>Removing by the text of a rule works exactly for the rules that do not look at the name.\<close>

lemma fl_remFilter_texts:
  assumes "rules_ok (fl_items f)"
  shows "p \<in> fi_origPattern ` set (fl_items (fl_remFilter p f)) \<longleftrightarrow>
    p \<in> fi_origPattern ` set (fl_items f) \<and> names_spawn p"
proof (cases "names_spawn p")
  case True
  have "fi_pattern it \<noteq> p" if "it \<in> set (fl_items f)" "fi_origPattern it = p" for it
    using that assms True fixed_id_iff [of p] by (auto simp: rules_ok_def)
  then have "it \<in> set (fl_items (fl_remFilter p f)) \<longleftrightarrow> it \<in> set (fl_items f)" if "fi_origPattern it = p" for it
    using that remove_first_keeps [of it "fl_items f"] set_remove_first [of it _ "fl_items f"]
    by (auto simp: fl_remFilter_def)
  then show ?thesis using True unfolding image_iff by blast
next
  case False
  let ?P = "\<lambda>it. fi_pattern it = p"
  have one: "fi_origPattern it = p \<longleftrightarrow> ?P it" if "it \<in> set (fl_items f)" for it
    using that assms False fixed_id_iff [of p] fixed_eq_plain [of "fi_origPattern it" p]
    by (auto simp: rules_ok_def)
  have "sorted_wrt (\<lambda>a b. \<not> (?P a \<and> ?P b)) (fl_items f)"
  proof (rule sorted_wrt_mono_rel [rotated])
    show "sorted_wrt (\<lambda>a b. fi_pattern a \<noteq> fi_origPattern b) (fl_items f)" using assms by (simp add: rules_ok_def)
  qed (metis one)
  then have "\<not> ?P it" if "it \<in> set (remove_first ?P (fl_items f))" for it
    by (rule remove_first_only) (use that in auto)
  then have "fi_origPattern it \<noteq> p" if "it \<in> set (fl_items (fl_remFilter p f))" for it
    using that one set_remove_first [of it ?P "fl_items f"] by (auto simp: fl_remFilter_def)
  then show ?thesis using False unfolding image_iff by blast
qed

section \<open>All types\<close>

definition is_flag :: "u32 \<Rightarrow> bool" where
  "is_flag m \<longleftrightarrow> (\<exists>k<32. m = push_bit k 1)"

definition fs_ok :: "filters \<Rightarrow> bool" where
  "fs_ok fs \<longleftrightarrow> smap_inv (fs_filters fs) \<and>
     (\<forall>m f. map_of (fs_filters fs) m = Some f \<longrightarrow> is_flag m \<and> rules_ok (fl_items f))"

lemma smap_distinct: "smap_inv t \<Longrightarrow> distinct (map fst t)"
  by (auto simp: smap_inv_def strict_sorted_iff)

lemma smap_mem: "smap_inv t \<Longrightarrow> (k, v) \<in> set t \<longleftrightarrow> map_of t k = Some v"
  using smap_distinct by (metis map_of_SomeD map_of_is_SomeI)

lemma bit_flag: "k < 32 \<Longrightarrow> bit (push_bit k 1 :: u32) n \<longleftrightarrow> n = k"
  by (auto simp: bit_simps)

lemma shl1_Inr: "shl1 n = Inr m \<longleftrightarrow> n < 32 \<and> m = push_bit n 1"
  by (auto simp: shl1_def)

lemma shl1_flag: "shl1 n = Inr m \<Longrightarrow> is_flag m"
  by (auto simp: shl1_Inr is_flag_def)

lemma bit_fold_mask:
  "bit (fold (\<lambda>(m, f) acc. if fl_isFiltered L f s l then acc OR m else acc) xs a) k \<longleftrightarrow>
     bit a k \<or> (\<exists>(m, f) \<in> set xs. fl_isFiltered L f s l \<and> bit m k)"
  by (induction xs arbitrary: a) (auto simp: bit_simps split: if_splits)

lemma fs_filterMask_bit:
  assumes "fs_ok fs"
  shows "bit (fs_filterMask L fs s l) k \<longleftrightarrow>
    k < 32 \<and> (\<exists>f. map_of (fs_filters fs) (push_bit k 1) = Some f \<and> (\<exists>it \<in> set (fl_items f). fi_isFiltered L it s l))"
proof -
  have "bit (fs_filterMask L fs s l) k \<longleftrightarrow>
      (\<exists>m f. map_of (fs_filters fs) m = Some f \<and> fl_isFiltered L f s l \<and> bit m k)"
    using assms by (simp add: fs_filterMask_def bit_fold_mask fs_ok_def Bex_def split_paired_Ex smap_mem)
  also have "\<dots> \<longleftrightarrow> k < 32 \<and> (\<exists>f. map_of (fs_filters fs) (push_bit k 1) = Some f \<and> fl_isFiltered L f s l)"
    using assms unfolding fs_ok_def is_flag_def by (metis bit_flag)
  finally show ?thesis by (simp add: fl_isFiltered_def list_ex_iff)
qed

lemma fs_ok_put: "fs_ok fs \<Longrightarrow> is_flag m \<Longrightarrow> rules_ok (fl_items f) \<Longrightarrow> fs_ok (fs\<lparr>fs_filters := smap_put m f (fs_filters fs)\<rparr>)"
  by (auto simp: fs_ok_def smap_inv_put smap_get_put)

lemma fs_ok_add:
  assumes "fs_ok fs" "fs_addFilter L ty t p a b fs = Inr (ok, fs')"
  shows "fs_ok fs'"
proof -
  obtain m where m: "shl1 (unat t) = Inr m" using assms(2) by (auto simp: fs_addFilter_def result_simps)
  let ?f = "case map_of (fs_filters fs) m of None \<Rightarrow> mkFilter (fs_caseSensitive fs) | Some f \<Rightarrow> f"
  have "rules_ok (fl_items ?f)" using assms(1) by (auto simp: fs_ok_def mkFilter_def split: option.split)
  then show ?thesis using assms m shl1_flag [OF m]
    by (auto simp: fs_addFilter_def Let_def split: if_splits prod.splits intro!: fs_ok_put dest: rules_ok_add)
qed

lemma fs_ok_rem:
  assumes "fs_ok fs" "fs_remFilter ty t p fs = Inr fs'"
  shows "fs_ok fs'"
proof -
  obtain m where m: "shl1 (unat t) = Inr m" using assms(2) by (auto simp: fs_remFilter_def result_simps)
  show ?thesis using assms m shl1_flag [OF m] rules_ok_rem
    by (auto simp: fs_remFilter_def fs_ok_def smap_inv_put smap_get_put split: if_splits option.splits)
qed

lemma fs_ok_empty: "fs_ok (fs\<lparr>fs_filters := []\<rparr>)" "fs_ok (mkFilters j)"
  by (simp_all add: fs_ok_def mkFilters_def)

lemma fs_ok_file [simp]: "fs_ok (fs\<lparr>fs_file := n\<rparr>) = fs_ok fs"
  by (simp add: fs_ok_def)

lemma fs_ok_case:
  assumes "fs_ok fs" shows "fs_ok (fs_setCaseSensitive cs fs)"
proof -
  have "map fst (map (\<lambda>(m, f). (m, f\<lparr>fl_caseSensitive := cs\<rparr>)) t) = map fst t" for t :: "(u32 \<times> filter_list) list"
    by (induction t) auto
  then show ?thesis using assms
    by (auto simp: fs_ok_def fs_setCaseSensitive_def smap_inv_def map_of_map simp del: map_map)
qed

lemma fs_ok_load_tokens:
  "fs_ok fs \<Longrightarrow> load_tokens L ty ts (h, fs) = Inr (ok, h', fs') \<Longrightarrow> fs_ok fs'"
proof (induction ts arbitrary: h fs)
  case (Cons t ts)
  show ?case
  proof (cases t)
    case (EndElement name)
    then obtain h1 fs1 where e: "h_endElement L ty name (h, fs) = Inr (h1, fs1)" "load_tokens L ty ts (h1, fs1) = Inr (ok, h', fs')"
      using Cons.prems(2) by (auto simp: result_simps)
    have "fs_ok fs1" using e(1) Cons.prems(1)
      by (auto simp: h_endElement_def Let_def result_simps split: if_splits intro: fs_ok_add)
    then show ?thesis using Cons.IH e(2) by blast
  next
    case (StartElement name as)
    then obtain k h1 where e: "h_startElement L ty name as h = Inr (k, h1)"
      "(if k then load_tokens L ty ts (h1, fs) else Inr (False, h1, fs)) = Inr (ok, h', fs')"
      using Cons.prems(2) by (auto simp: result_simps)
    then show ?thesis using Cons.IH [OF Cons.prems(1)] Cons.prems(1) by (cases k) auto
  qed (use Cons in auto)
qed simp

lemma case_kept [simp]:
  "fs_addFilter L ty t p a b fs = Inr (ok, fs') \<Longrightarrow> fs_caseSensitive fs' = fs_caseSensitive fs"
  "fs_remFilter ty t p fs = Inr fs' \<Longrightarrow> fs_caseSensitive fs' = fs_caseSensitive fs"
  "fs_caseSensitive (fs_setCaseSensitive cs fs) = fs_caseSensitive fs"
  "fs_clearType t fs = Inr fs' \<Longrightarrow> fs_caseSensitive fs' = fs_caseSensitive fs"
  by (auto simp: fs_addFilter_def fs_remFilter_def fs_setCaseSensitive_def fs_clearType_def result_simps Let_def
      split: if_splits option.splits prod.splits)

lemma case_kept_load_tokens:
  "load_tokens L ty ts (h, fs) = Inr (ok, h', fs') \<Longrightarrow> fs_caseSensitive fs' = fs_caseSensitive fs"
proof (induction ts arbitrary: h fs)
  case (Cons t ts)
  show ?case
  proof (cases t)
    case (EndElement name)
    then obtain h1 fs1 where e: "h_endElement L ty name (h, fs) = Inr (h1, fs1)" "load_tokens L ty ts (h1, fs1) = Inr (ok, h', fs')"
      using Cons.prems by (auto simp: result_simps)
    have "fs_caseSensitive fs1 = fs_caseSensitive fs" using e(1)
      by (auto simp: h_endElement_def Let_def result_simps split: if_splits)
    then show ?thesis using Cons.IH e(2) by simp
  next
    case (StartElement name as)
    then obtain k h1 where e: "(if k then load_tokens L ty ts (h1, fs) else Inr (False, h1, fs)) = Inr (ok, h', fs')"
      using Cons.prems by (auto simp: result_simps)
    then show ?thesis using Cons.IH by (cases k) auto
  qed (use Cons in auto)
qed simp

lemma fs_load_keeps:
  "fs_load L ty h n c fs = Inr (ok, fs') \<Longrightarrow> fs_ok fs' \<and> fs_caseSensitive fs' = fs_caseSensitive fs"
  using case_kept_load_tokens [of L ty _ h "(fs_clear fs)\<lparr>fs_file := n\<rparr>"]
    fs_ok_load_tokens [of "(fs_clear fs)\<lparr>fs_file := n\<rparr>" L ty _ h]
  by (auto simp: fs_load_def Let_def result_simps fs_ok_empty fs_clear_def split: if_splits option.splits)

section \<open>The manager\<close>

definition base_types :: filter_types where
  "base_types = \<lparr>ty_allocated = 127, ty_names =
     [(1, ''Hunt''), (2, ''Caution''), (4, ''Danger''), (8, ''Locate''), (16, ''Alert''), (32, ''Filtered''), (64, ''Tracer'')],
     ty_maxType = 6\<rparr>"

lemma registerAll_base: "registerAll FILTER_TYPE_TABLE mkFilterTypes = Inr base_types"
  by code_simp

definition fm_ok :: "filter_env \<Rightarrow> filter_mgr \<Rightarrow> bool" where
  "fm_ok E m \<longleftrightarrow> fm_types m = base_types \<and> fs_ok (fm_filters m) \<and> fs_ok (fm_zoneFilters m) \<and>
     fs_ok (fm_runtimeFilters m) \<and> fs_caseSensitive (fm_filters m) = fe_junk E \<and>
     fs_caseSensitive (fm_zoneFilters m) = fe_junk E \<and> fs_caseSensitive (fm_runtimeFilters m) = fe_junk E"

lemma fm_ok_simps [simp]:
  "fm_ok E (fm_signal e m) = fm_ok E m"
  "fm_ok E (m\<lparr>fm_filterFile := n\<rparr>) = fm_ok E m"
  "fm_ok E (m\<lparr>fm_zoneFilterFile := n\<rparr>) = fm_ok E m"
  by (simp_all add: fm_ok_def fm_signal_def)

lemma fm_ok_put:
  "fm_ok E m \<Longrightarrow> fs_ok fs \<Longrightarrow> fs_caseSensitive fs = fe_junk E \<Longrightarrow> fm_ok E (m\<lparr>fm_filters := fs\<rparr>)"
  "fm_ok E m \<Longrightarrow> fs_ok fs \<Longrightarrow> fs_caseSensitive fs = fe_junk E \<Longrightarrow> fm_ok E (m\<lparr>fm_zoneFilters := fs\<rparr>)"
  "fm_ok E m \<Longrightarrow> fs_ok fs \<Longrightarrow> fs_caseSensitive fs = fe_junk E \<Longrightarrow> fm_ok E (m\<lparr>fm_runtimeFilters := fs\<rparr>)"
  by (simp_all add: fm_ok_def)

lemma fm_okD:
  "fm_ok E m \<Longrightarrow> fm_types m = base_types"
  "fm_ok E m \<Longrightarrow> fs_ok (fm_filters m)" "fm_ok E m \<Longrightarrow> fs_ok (fm_zoneFilters m)" "fm_ok E m \<Longrightarrow> fs_ok (fm_runtimeFilters m)"
  "fm_ok E m \<Longrightarrow> fs_caseSensitive (fm_filters m) = fe_junk E"
  "fm_ok E m \<Longrightarrow> fs_caseSensitive (fm_zoneFilters m) = fe_junk E"
  "fm_ok E m \<Longrightarrow> fs_caseSensitive (fm_runtimeFilters m) = fe_junk E"
  by (simp_all add: fm_ok_def)

subsection \<open>Nothing the manager is asked to do faults\<close>

lemma shl1_small: "n < 32 \<Longrightarrow> shl1 n = Inr (push_bit n 1)"
  by (simp add: shl1_def)

lemma fs_addFilter_returns: "unat t < 32 \<Longrightarrow> \<exists>ok fs'. fs_addFilter L ty t p a b fs = Inr (ok, fs')"
  by (auto simp: fs_addFilter_def shl1_small Let_def split: prod.split)

lemma fs_remFilter_returns: "unat t < 32 \<Longrightarrow> \<exists>fs'. fs_remFilter ty t p fs = Inr fs'"
  by (auto simp: fs_remFilter_def shl1_small split: option.split)

lemma find_type_returns: "\<forall>i \<in> set is. i < 32 \<Longrightarrow> \<exists>r. find_type is q ty = Inr r"
  by (induction "is") (auto simp: shl1_small)

lemma type_of_name_returns: "\<exists>t. type_of_name base_types q = Inr t"
proof -
  have "\<forall>i \<in> set [0..<Suc (unat (ty_maxType base_types))]. i < 32" by (simp add: base_types_def)
  then show ?thesis using find_type_returns [of _ q base_types] by (fastforce simp: type_of_name_def)
qed

lemma h_startElement_returns: "\<exists>k h'. h_startElement L base_types name as h = Inr (k, h')"
proof -
  obtain t where "type_of_name base_types (attribute ''name'' as) = Inr t" using type_of_name_returns by blast
  then show ?thesis by (auto simp: h_startElement_def Let_def)
qed

lemma h_endElement_returns: "\<exists>r. h_endElement L base_types name (h, fs) = Inr r"
proof (cases "name = ''oldfilter'' \<and> h_currentType h \<le> ty_maxType base_types")
  case True
  then have "unat (h_currentType h) < 32" by (simp add: base_types_def word_le_nat_alt)
  then obtain ok fs' where
    "fs_addFilter L base_types (h_currentType h) (h_pattern h) (h_minLevel h) (h_maxLevel h) fs = Inr (ok, fs')"
    using fs_addFilter_returns by blast
  then show ?thesis using True by (simp add: h_endElement_def Let_def)
next
  case False
  then show ?thesis by (simp add: h_endElement_def Let_def)
qed

lemma load_tokens_returns: "\<exists>r. load_tokens L base_types ts (h, fs) = Inr r"
proof (induction ts arbitrary: h fs)
  case (Cons t ts)
  show ?case
  proof (cases t)
    case (StartElement name as)
    then show ?thesis using Cons.IH h_startElement_returns [of L name as h] by fastforce
  next
    case (EndElement name)
    obtain h1 fs1 where "h_endElement L base_types name (h, fs) = Inr (h1, fs1)"
      using h_endElement_returns by (metis surj_pair)
    then show ?thesis using Cons.IH EndElement by simp
  qed (use Cons in auto)
qed (auto intro: exI [of _ True])

lemma fs_load_returns: "\<exists>ok fs'. fs_load L base_types h n c fs = Inr (ok, fs')"
proof (cases c)
  case (Some tokens)
  obtain ok h' fs' where "load_tokens L base_types tokens (h, (fs_clear fs)\<lparr>fs_file := n\<rparr>) = Inr (ok, h', fs')"
    using load_tokens_returns [of L tokens] by (metis prod_cases3)
  then show ?thesis using Some by (auto simp: fs_load_def Let_def intro: exI [of _ False])
qed (auto simp: fs_load_def Let_def intro: exI [of _ False])

text \<open>An operation that returns and keeps the invariant.\<close>

definition fm_good :: "filter_env \<Rightarrow> filter_mgr res \<Rightarrow> bool" where
  "fm_good E r \<longleftrightarrow> (\<exists>m. r = Inr m \<and> fm_ok E m)"

lemma fm_good_Inr [simp]: "fm_good E (Inr m) = fm_ok E m"
  by (simp add: fm_good_def)

lemma loads_good:
  assumes "fm_ok E m"
  shows "fm_good E (fm_loadFile E path m)" "fm_good E (fm_loadZoneFile E path m)"
proof -
  obtain ok fs where 1: "fs_load (fe_lib E) base_types (fe_handler E) path (fe_read E path) (fm_filters m) = Inr (ok, fs)"
    using fs_load_returns by metis
  obtain ok' fs' where 2: "fs_load (fe_lib E) base_types (fe_handler E) path (fe_read E path) (fm_zoneFilters m) = Inr (ok', fs')"
    using fs_load_returns by metis
  show "fm_good E (fm_loadFile E path m)" "fm_good E (fm_loadZoneFile E path m)"
    using fs_load_keeps [OF 1] fs_load_keeps [OF 2] fm_okD [OF assms] assms
    by (simp_all add: fm_loadFile_def fm_loadZoneFile_def 1 2 fm_ok_put)
qed

lemma fm_loads_good:
  assumes "fm_ok E m"
  shows "fm_good E (fm_loadFilters E m)" "fm_good E (fm_loadFiltersFrom E n m)" "fm_good E (fm_loadZone E n m)"
    "fm_good E (fm_loadZoneFilters E m)"
  using loads_good [OF assms]
  by (simp_all add: fm_loadFilters_def fm_loadFiltersFrom_def fm_loadZone_def fm_loadZoneFilters_def)

lemma type_small: "\<not> SIZEOF_FILTERS \<le> t \<Longrightarrow> unat (t :: u8) < 7"
  by (simp add: SIZEOF_FILTERS_def word_le_nat_alt)

lemma add_good:
  assumes "\<not> SIZEOF_FILTERS \<le> t" "fs_ok fs" "fs_caseSensitive fs = fe_junk E"
  obtains ok fs' where "fs_addFilter L ty t p a b fs = Inr (ok, fs')" "fs_ok fs'" "fs_caseSensitive fs' = fe_junk E"
proof -
  have "unat t < 32" using type_small [OF assms(1)] by simp
  then obtain ok fs' where r: "fs_addFilter L ty t p a b fs = Inr (ok, fs')" using fs_addFilter_returns by blast
  show ?thesis by (rule that [OF r fs_ok_add [OF assms(2) r]]) (simp add: case_kept(1) [OF r] assms(3))
qed

lemma rem_good:
  assumes "\<not> SIZEOF_FILTERS \<le> t" "fs_ok fs" "fs_caseSensitive fs = fe_junk E"
  obtains fs' where "fs_remFilter ty t p fs = Inr fs'" "fs_ok fs'" "fs_caseSensitive fs' = fe_junk E"
proof -
  have "unat t < 32" using type_small [OF assms(1)] by simp
  then obtain fs' where r: "fs_remFilter ty t p fs = Inr fs'" using fs_remFilter_returns by blast
  show ?thesis by (rule that [OF r fs_ok_rem [OF assms(2) r]]) (simp add: case_kept(2) [OF r] assms(3))
qed

lemma fm_add_good:
  assumes "fm_ok E m"
  shows "fm_good E (rbind (fm_addFilter L t p m) (\<lambda>(ok, m). Inr m))"
    "fm_good E (rbind (fm_addZoneFilter L t p m) (\<lambda>(ok, m). Inr m))"
proof -
  show "fm_good E (rbind (fm_addFilter L t p m) (\<lambda>(ok, m). Inr m))"
  proof (cases "SIZEOF_FILTERS \<le> t")
    case False
    obtain ok fs where "fs_addFilter L (fm_types m) t p 0 0 (fm_filters m) = Inr (ok, fs)" "fs_ok fs" "fs_caseSensitive fs = fe_junk E"
      using add_good [OF False fm_okD(2,5) [OF assms]] .
    then show ?thesis using False assms by (simp add: fm_addFilter_def fm_ok_put)
  qed (use assms in \<open>simp add: fm_addFilter_def\<close>)
  show "fm_good E (rbind (fm_addZoneFilter L t p m) (\<lambda>(ok, m). Inr m))"
  proof (cases "SIZEOF_FILTERS \<le> t")
    case False
    obtain ok fs where "fs_addFilter L (fm_types m) t p 0 0 (fm_zoneFilters m) = Inr (ok, fs)" "fs_ok fs" "fs_caseSensitive fs = fe_junk E"
      using add_good [OF False fm_okD(3,6) [OF assms]] .
    then show ?thesis using False assms by (simp add: fm_addZoneFilter_def fm_ok_put)
  qed (use assms in \<open>simp add: fm_addZoneFilter_def\<close>)
qed

lemma fm_rem_good:
  assumes "fm_ok E m"
  shows "fm_good E (fm_remFilter t p m)" "fm_good E (fm_remZoneFilter t p m)"
proof -
  show "fm_good E (fm_remFilter t p m)"
  proof (cases "SIZEOF_FILTERS \<le> t")
    case False
    obtain fs where "fs_remFilter (fm_types m) t p (fm_filters m) = Inr fs" "fs_ok fs" "fs_caseSensitive fs = fe_junk E"
      using rem_good [OF False fm_okD(2,5) [OF assms]] .
    then show ?thesis using False assms by (simp add: fm_remFilter_def fm_ok_put)
  qed (use assms in \<open>simp add: fm_remFilter_def\<close>)
  show "fm_good E (fm_remZoneFilter t p m)"
  proof (cases "SIZEOF_FILTERS \<le> t")
    case False
    obtain fs where "fs_remFilter (fm_types m) t p (fm_zoneFilters m) = Inr fs" "fs_ok fs" "fs_caseSensitive fs = fe_junk E"
      using rem_good [OF False fm_okD(3,6) [OF assms]] .
    then show ?thesis using False assms by (simp add: fm_remZoneFilter_def fm_ok_put)
  qed (use assms in \<open>simp add: fm_remZoneFilter_def\<close>)
qed

lemma fm_edit_good:
  assumes "fm_ok E m"
  shows "fm_good E (rbind (fm_editFilter L t old new m) (\<lambda>(ok, m). Inr m))"
    "fm_good E (rbind (fm_editZoneFilter L t old new m) (\<lambda>(ok, m). Inr m))"
proof -
  show "fm_good E (rbind (fm_editFilter L t old new m) (\<lambda>(ok, m). Inr m))"
  proof (cases "SIZEOF_FILTERS \<le> t")
    case False
    obtain fs1 where 1: "fs_remFilter (fm_types m) t old (fm_filters m) = Inr fs1" "fs_ok fs1" "fs_caseSensitive fs1 = fe_junk E"
      using rem_good [OF False fm_okD(2,5) [OF assms]] by blast
    obtain ok fs2 where 2: "fs_addFilter L (fm_types m) t new 0 0 fs1 = Inr (ok, fs2)" "fs_ok fs2" "fs_caseSensitive fs2 = fe_junk E"
      using add_good [OF False 1(2,3)] by blast
    show ?thesis using False assms 1 2 by (simp add: fm_editFilter_def fm_ok_put)
  qed (use assms in \<open>simp add: fm_editFilter_def\<close>)
  show "fm_good E (rbind (fm_editZoneFilter L t old new m) (\<lambda>(ok, m). Inr m))"
  proof (cases "SIZEOF_FILTERS \<le> t")
    case False
    obtain fs1 where 1: "fs_remFilter (fm_types m) t old (fm_zoneFilters m) = Inr fs1" "fs_ok fs1" "fs_caseSensitive fs1 = fe_junk E"
      using rem_good [OF False fm_okD(3,6) [OF assms]] by blast
    obtain ok fs2 where 2: "fs_addFilter L (fm_types m) t new 0 0 fs1 = Inr (ok, fs2)" "fs_ok fs2" "fs_caseSensitive fs2 = fe_junk E"
      using add_good [OF False 1(2,3)] by blast
    show ?thesis using False assms 1 2 by (simp add: fm_editZoneFilter_def fm_ok_put)
  qed (use assms in \<open>simp add: fm_editZoneFilter_def\<close>)
qed

lemma request_good:
  assumes "fm_ok E m" shows "fm_good E (onFilterRequest E zone r m)"
proof (cases r)
  case (SaveFilters z)
  then show ?thesis using assms
    by (simp add: onFilterRequest_def fm_saveFilters_def fm_saveZoneFilters_def Let_def)
next
  case ReloadFilters
  obtain m1 where "fm_loadFilters E m = Inr m1" "fm_ok E m1" using fm_loads_good(1) [OF assms] by (auto simp: fm_good_def)
  then show ?thesis using ReloadFilters fm_loads_good(3) by (simp add: onFilterRequest_def)
qed (use fm_add_good [OF assms] fm_rem_good [OF assms] fm_edit_good [OF assms] in \<open>auto simp: onFilterRequest_def\<close>)

lemma start_good: "fm_good E (mkFilterMgr E path cs)"
proof -
  let ?m = "\<lparr>fm_types = base_types, fm_filterFile = '''', fm_filters = mkFilters (fe_junk E), fm_zoneFilterFile = '''',
    fm_zoneFilters = mkFilters (fe_junk E), fm_runtimeTypes = mkFilterTypes,
    fm_runtimeFilters = mkFilters (fe_junk E), fm_caseSensitive = cs, fm_events = []\<rparr>"
  have "fm_ok E ?m" using fs_ok_empty(2) by (simp add: fm_ok_def mkFilters_def)
  then obtain m1 where "fm_loadFiltersFrom E path ?m = Inr m1" "fm_ok E m1"
    using fm_loads_good(2) by (fastforce simp: fm_good_def)
  then show ?thesis using fm_loads_good(3) by (simp add: mkFilterMgr_def registerAll_base)
qed

text \<open>The states the program can bring the manager into.\<close>

inductive filter_reachable :: "filter_env \<Rightarrow> filter_mgr \<Rightarrow> bool" for E where
  start: "mkFilterMgr E path cs = Inr m \<Longrightarrow> filter_reachable E m"
| request: "filter_reachable E m \<Longrightarrow> onFilterRequest E zone r m = Inr m' \<Longrightarrow> filter_reachable E m'"
| load_zone: "filter_reachable E m \<Longrightarrow> fm_loadZone E zone m = Inr m' \<Longrightarrow> filter_reachable E m'"
| load_zone_filters: "filter_reachable E m \<Longrightarrow> fm_loadZoneFilters E m = Inr m' \<Longrightarrow> filter_reachable E m'"
| set_case: "filter_reachable E m \<Longrightarrow> filter_reachable E (fm_setCaseSensitive cs m)"
| register_runtime: "filter_reachable E m \<Longrightarrow> registerRuntimeFilter n m = Inr (r, m') \<Longrightarrow> filter_reachable E m'"
| unregister_runtime: "filter_reachable E m \<Longrightarrow> unregisterRuntimeFilter t m = Inr m' \<Longrightarrow> filter_reachable E m'"
| add_runtime: "filter_reachable E m \<Longrightarrow> runtimeFilterAddFilter (fe_lib E) t p m = Inr (ok, m') \<Longrightarrow> filter_reachable E m'"
| remove_runtime: "filter_reachable E m \<Longrightarrow> runtimeFilterRemFilter t p m = Inr m' \<Longrightarrow> filter_reachable E m'"
| commit_runtime: "filter_reachable E m \<Longrightarrow> filter_reachable E (runtimeFilterCommit t m)"

lemma good_step: "fm_good E r \<Longrightarrow> r = Inr m \<Longrightarrow> fm_ok E m"
  by simp

lemma fs_ok_clearType: "fs_ok fs \<Longrightarrow> fs_clearType t fs = Inr fs' \<Longrightarrow> fs_ok fs'"
  by (auto simp: fs_clearType_def result_simps fs_ok_def smap_inv_del smap_get_del split: if_splits)

lemma filter_reachable_ok: "filter_reachable E m \<Longrightarrow> fm_ok E m"
proof (induction rule: filter_reachable.induct)
  case (start path cs m)
  then show ?case using start_good good_step by blast
next
  case (request m zone r m')
  then show ?case using request_good good_step by blast
next
  case (load_zone m zone m')
  then show ?case using fm_loads_good(3) good_step by blast
next
  case (load_zone_filters m m')
  then show ?case using fm_loads_good(4) good_step by blast
next
  case (set_case m cs)
  then show ?case by (simp add: fm_ok_def fm_setCaseSensitive_def fs_ok_case)
next
  case (register_runtime m n r m')
  then show ?case by (auto simp: registerRuntimeFilter_def result_simps fm_ok_def)
next
  case (unregister_runtime m t m')
  then show ?case
    by (auto simp: unregisterRuntimeFilter_def result_simps fm_ok_def intro: fs_ok_clearType)
next
  case (add_runtime m t p ok m')
  then show ?case by (auto simp: runtimeFilterAddFilter_def result_simps fm_ok_def intro: fs_ok_add)
next
  case (remove_runtime m t p m')
  then show ?case by (auto simp: runtimeFilterRemFilter_def result_simps fm_ok_def intro: fs_ok_rem)
qed (simp add: runtimeFilterCommit_def)

section \<open>What a client is told\<close>

definition items_of :: "filters \<Rightarrow> u8 \<Rightarrow> filter_item list" where
  "items_of fs t = (case map_of (fs_filters fs) (push_bit (unat t) 1) of None \<Rightarrow> [] | Some f \<Rightarrow> fl_items f)"

definition row_of :: "bool \<Rightarrow> u8 \<Rightarrow> filter_item \<Rightarrow> rule_row" where
  "row_of perZone t it = (t, fi_origPattern it, uint (fi_minLevel it), uint (fi_maxLevel it), perZone)"

lemma of_type_small: "unat t < 32 \<Longrightarrow> of_type fs t d g = Inr (case map_of (fs_filters fs) (push_bit (unat t) 1) of None \<Rightarrow> d | Some f \<Rightarrow> g f)"
  by (simp add: of_type_def shl1_small)

lemma rule_rows_eq:
  assumes "unat t < 32"
  shows "\<forall>i \<in> set is. i < length (items_of fs t) \<Longrightarrow>
    rule_rows fs perZone t is = Inr (map (\<lambda>i. row_of perZone t (items_of fs t ! i)) is)"
proof (induction "is")
  case (Cons i "is")
  then show ?case using assms
    by (simp add: fs_getOrigFilterString_def fs_getMinLevel_def fs_getMaxLevel_def of_type_small items_of_def
        fl_getOrigFilterString_def fl_getMinLevel_def fl_getMaxLevel_def row_of_def not_le split: option.splits)
qed simp

lemma numFilters_eq: "unat t < 32 \<Longrightarrow> fs_numFilters fs t = Inr (length (items_of fs t))"
  by (simp add: fs_numFilters_def of_type_small items_of_def split: option.split)

lemma appendFilterRules_eq:
  "\<forall>t \<in> set ts. t < 32 \<Longrightarrow> appendFilterRules fs perZone ts =
     Inr (concat (map (\<lambda>t. map (row_of perZone (of_nat t)) (items_of fs (of_nat t))) ts))"
proof (induction ts)
  case (Cons t ts)
  have t: "unat (of_nat t :: u8) < 32" using Cons.prems by (simp add: unat_of_nat)
  have "map (\<lambda>i. row_of perZone (of_nat t) (items_of fs (of_nat t) ! i)) [0..<length (items_of fs (of_nat t))] =
      map (row_of perZone (of_nat t)) (items_of fs (of_nat t))"
    by (rule nth_equalityI) auto
  then show ?case using Cons t by (simp add: numFilters_eq rule_rows_eq)
qed simp

text \<open>The rows with their type and text, of the whole game or of the zone.\<close>

definition told :: "filter_mgr \<Rightarrow> u8 \<Rightarrow> string \<Rightarrow> bool \<Rightarrow> bool" where
  "told m t p perZone = (case fillFilterRulesUpdate m of
     Inl e \<Rightarrow> False
   | Inr rows \<Rightarrow> list_ex (\<lambda>(t', p', _, _, z). t' = t \<and> p' = p \<and> z = perZone) rows)"

lemma fillFilterRulesUpdate_eq:
  "fillFilterRulesUpdate m =
     Inr (concat (map (\<lambda>t. map (row_of False (of_nat t)) (items_of (fm_filters m) (of_nat t))) [0..<7]) @
          concat (map (\<lambda>t. map (row_of True (of_nat t)) (items_of (fm_zoneFilters m) (of_nat t))) [0..<7]))"
  unfolding fillFilterRulesUpdate_def SIZEOF_FILTERS_def
  by (subst appendFilterRules_eq, simp, subst appendFilterRules_eq, simp_all)

lemma small_type: "t < (7 :: u8) \<longleftrightarrow> (\<exists>n<7. t = of_nat n)"
proof
  assume "t < 7"
  then have "unat t < 7" by (simp add: word_less_nat_alt)
  then show "\<exists>n<7. t = of_nat n" by (intro exI [of _ "unat t"]) simp
qed (auto simp: word_less_nat_alt unat_of_nat)

lemma rows_of_types:
  "(t, p, a, b, z) \<in> set (concat (map (\<lambda>n. map (row_of y (of_nat n)) (items_of fs (of_nat n))) [0..<7])) \<longleftrightarrow>
     z = y \<and> t < 7 \<and> (\<exists>it \<in> set (items_of fs t). p = fi_origPattern it \<and> a = uint (fi_minLevel it) \<and> b = uint (fi_maxLevel it))"
  unfolding small_type by (auto simp: row_of_def)

lemma told_iff:
  "told m t p z \<longleftrightarrow> t < 7 \<and> p \<in> fi_origPattern ` set (items_of (if z then fm_zoneFilters m else fm_filters m) t)"
proof -
  have "told m t p z \<longleftrightarrow> (\<exists>rows a b. fillFilterRulesUpdate m = Inr rows \<and> (t, p, a, b, z) \<in> set rows)"
    by (simp add: told_def list_ex_iff Bex_def split_paired_Ex split: sum.split)
  then show ?thesis unfolding fillFilterRulesUpdate_eq
    by (simp only: sum.inject set_append Un_iff rows_of_types ex_simps simp_thms) auto
qed

lemma items_ok: "fs_ok fs \<Longrightarrow> rules_ok (items_of fs t)"
  by (auto simp: fs_ok_def items_of_def split: option.split)

lemma flags_differ: "j < 32 \<Longrightarrow> k < 32 \<Longrightarrow> (push_bit j 1 :: u32) = push_bit k 1 \<longleftrightarrow> j = k"
  using bit_flag by metis

lemma validMask_base: "unat (t :: u8) < 7 \<Longrightarrow> validMask base_types (push_bit (unat t) 1)"
proof -
  assume "unat t < 7"
  moreover have m: "(127 :: u32) = mask 7" by (simp add: mask_eq_exp_minus_1)
  ultimately have "bit (127 AND push_bit (unat t) 1 :: u32) (unat t)" unfolding m by (auto simp: bit_simps)
  then show ?thesis by (auto simp: validMask_def base_types_def)
qed

lemma remFilter_items:
  assumes "fs_ok fs" "t < 7" "fs_remFilter base_types t p fs = Inr fs'"
  shows "items_of fs' t = fl_items (fl_remFilter p \<lparr>fl_items = items_of fs t, fl_caseSensitive = False\<rparr>)"
proof -
  have t: "unat t < 7" "unat t < 32" using assms(2) by (simp_all add: word_less_nat_alt)
  show ?thesis using assms(1,3) validMask_base [OF t(1)]
    by (auto simp: fs_remFilter_def shl1_small [OF t(2)] items_of_def fs_ok_def smap_get_put fl_remFilter_def
        split: option.splits)
qed

text \<open>A client removes a rule by the text it was told. That works exactly for the rules that do not look at the
  name of a spawn: the rule is told no more, and neither is a second one with the same text. A rule whose text
  contains \<open>Name:\<close> is never found, because the search compares with the pattern in which the name was made
  optional, and it stays.\<close>

theorem removed_rule_stays_iff_it_names:
  assumes "filter_reachable E m" "t < 7"
    and "onFilterRequest E zone (RemoveFilterRule (ucast t) p perZone) m = Inr m'"
  shows "told m' t p perZone \<longleftrightarrow> told m t p perZone \<and> contains_ci p ''Name:''"
proof -
  have ok: "fm_ok E m" using assms(1) by (rule filter_reachable_ok)
  have c: "ucast (ucast t :: u32) = t" by (rule bit_word_eqI) (auto simp: bit_simps)
  have n: "\<not> SIZEOF_FILTERS \<le> t" using assms(2) by (simp add: SIZEOF_FILTERS_def)
  let ?fs = "if perZone then fm_zoneFilters m else fm_filters m"
  obtain fs' where fs': "fs_remFilter base_types t p ?fs = Inr fs'"
      "(if perZone then fm_zoneFilters m' else fm_filters m') = fs'"
    using assms(3) n fm_okD(1) [OF ok]
    by (cases perZone) (auto simp: onFilterRequest_def c fm_remZoneFilter_def fm_remFilter_def result_simps fm_signal_def)
  have fs: "fs_ok ?fs" using fm_okD(2,3) [OF ok] by simp
  have "p \<in> fi_origPattern ` set (items_of fs' t) \<longleftrightarrow> p \<in> fi_origPattern ` set (items_of ?fs t) \<and> names_spawn p"
    unfolding remFilter_items [OF fs assms(2) fs'(1)] using fl_remFilter_texts items_ok [OF fs] by simp
  then show ?thesis using assms(2) fs'(2) by (simp add: told_iff)
qed

text \<open>C24: the flag of type \<open>t\<close> is set on a spawn exactly if the type has a rule, of the game or of the zone, that is a
  valid expression found in the description of the spawn and whose levels hold its level; a rule without levels
  holds every level, and one that gives only a lowest level holds none.\<close>

theorem filter_flags_exact:
  assumes "filter_reachable E m"
  shows "bit (fm_filterMask L m s l) k \<longleftrightarrow> k < 32 \<and>
    (\<exists>it \<in> set (items_of (fm_filters m) (of_nat k)) \<union> set (items_of (fm_zoneFilters m) (of_nat k)).
       rx_valid L (fi_pattern it) \<and> rx_search L (fi_caseInsensitive it) (fi_pattern it) s \<and>
       (fi_minLevel it = 0 \<and> fi_maxLevel it = 0 \<or> fi_minLevel it \<le> l \<and> l \<le> fi_maxLevel it))"
proof -
  have ok: "fs_ok (fm_filters m)" "fs_ok (fm_zoneFilters m)" using fm_okD [OF filter_reachable_ok [OF assms]] by auto
  have "unat (of_nat k :: u8) = k" if "k < 32" using that by (simp add: unat_of_nat)
  then have "bit (fs_filterMask L fs s l) k \<longleftrightarrow> k < 32 \<and> (\<exists>it \<in> set (items_of fs (of_nat k)). fi_isFiltered L it s l)"
    if "fs_ok fs" for fs
    by (cases "map_of (fs_filters fs) (push_bit k 1)") (auto simp: fs_filterMask_bit [OF that] items_of_def simp del: push_bit_of_1)
  then show ?thesis using ok by (auto simp: fm_filterMask_def bit_simps fi_isFiltered_iff)
qed

text \<open>C16: whatever a client asks for, in whatever state the rules are, the manager answers: no type, text or file
  makes it shift too far or fail, and it stays in its invariant.\<close>

theorem filter_requests_never_fault:
  assumes "filter_reachable E m"
  shows "\<exists>m'. onFilterRequest E zone r m = Inr m' \<and> filter_reachable E m'"
  using request_good [OF filter_reachable_ok [OF assms], of zone r] filter_reachable.request [OF assms]
  by (auto simp: fm_good_def)

text \<open>The case sensitivity of the settings never reaches a rule: the first rule of a type is compiled with what the
  memory of the object held when it was constructed, whatever was asked for in between.\<close>

theorem case_setting_is_lost:
  assumes "filter_reachable E m" "t < 7" "map_of (fs_filters (fm_filters m)) (push_bit (unat t) 1) = None"
    "fm_addFilter L t p (fm_setCaseSensitive cs m) = Inr (ok, m')"
  shows "map fi_caseInsensitive (items_of (fm_filters m') t) = [\<not> fe_junk E]"
proof -
  have ok: "fm_ok E m" using assms(1) by (rule filter_reachable_ok)
  have t: "unat t < 7" "unat t < 32" using assms(2) by (simp_all add: word_less_nat_alt)
  have n: "\<not> SIZEOF_FILTERS \<le> t" using assms(2) by (simp add: SIZEOF_FILTERS_def)
  let ?fs = "fs_setCaseSensitive cs (fm_filters m)" and ?it = "fi_init p (fe_junk E) 0 0"
  have none: "map_of (fs_filters ?fs) (push_bit (unat t) 1) = None"
    using assms(3) by (simp add: fs_setCaseSensitive_def map_of_map)
  have inv: "smap_inv (fs_filters ?fs)"
    using fs_ok_case [OF fm_okD(2) [OF ok]] by (simp add: fs_ok_def)
  have "fs_addFilter L base_types t p 0 0 ?fs = Inr (fi_valid L ?it,
      ?fs\<lparr>fs_filters := smap_put (push_bit (unat t) 1) \<lparr>fl_items = [?it], fl_caseSensitive = fe_junk E\<rparr> (fs_filters ?fs)\<rparr>)"
    using validMask_base [OF t(1)] none fm_okD(5) [OF ok]
    by (simp add: fs_addFilter_def shl1_small [OF t(2)] fl_addFilter_def fl_findFilter_def mkFilter_def Let_def del: push_bit_of_1)
  then have "fm_filters m' = ?fs\<lparr>fs_filters := smap_put (push_bit (unat t) 1)
      \<lparr>fl_items = [?it], fl_caseSensitive = fe_junk E\<rparr> (fs_filters ?fs)\<rparr>"
    using assms(4) n fm_okD(1) [OF ok] by (auto simp: fm_addFilter_def fm_setCaseSensitive_def fm_signal_def)
  then show ?thesis using inv by (simp add: items_of_def smap_get_put)
qed

section \<open>The registry of types at its ends\<close>

text \<open>The loop of \<open>registerType\<close> has one round too many: when all types are taken it shifts by 32.\<close>

lemma register_at_full:
  "ty_allocated ty = - 1 \<Longrightarrow> \<forall>i \<in> set is. i < 32 \<Longrightarrow> register_at (is @ js) n ty = register_at js n ty"
  by (induction "is") (simp_all add: shl1_small)

lemma register_when_full_shifts_too_far:
  assumes "ty_allocated ty = - 1" shows "registerType n ty = Inl BadShift"
proof -
  have "[0..<33] = [0..<32] @ [32]" using upt_Suc_append [of 0 32] by simp
  then show ?thesis unfolding registerType_def using register_at_full [OF assms, of "[0..<32]" "[32]" n] by (simp add: shl1_def)
qed

text \<open>Giving back type 0 when it is the last one takes the largest type below zero, and a name is then searched for
  among 256 types.\<close>

lemma unregister_last_type_breaks_lookup:
  "rbind (registerType ''a'' mkFilterTypes) (\<lambda>(r, ty). rbind (unregisterType 0 ty) (\<lambda>ty.
     Inr (ty_maxType ty, type_of_name ty ''b''))) = Inr (255, Inl BadShift)"
  by code_simp

section \<open>Saving and loading\<close>

text \<open>
  The tokens of the text \<open>Filters::save\<close> writes, without the blanks between the elements; \<open>outside_blanks\<close> takes from
  a list of tokens what the handler does not look at.
\<close>

definition item_tokens :: "filter_item \<Rightarrow> filter_token list" where
  "item_tokens it =
     StartElement ''oldfilter'' [] #
     (if fi_pattern it \<noteq> '''' then [StartElement ''regex'' [], Characters (fi_origPattern it), EndElement ''regex''] else []) @
     (if fi_minLevel it \<noteq> 0 \<or> fi_maxLevel it \<noteq> 0 then
        [StartElement ''level''
          ((if fi_minLevel it \<noteq> 0 then [(''min'', dec (unat (fi_minLevel it)))] else []) @
           (if fi_maxLevel it \<noteq> 0 then [(''max'', dec (unat (fi_maxLevel it)))] else [])), EndElement ''level'']
      else []) @
     [EndElement ''oldfilter'']"

definition section_tokens :: "filter_types \<Rightarrow> u32 \<times> filter_list \<Rightarrow> filter_token list" where
  "section_tokens ty s =
     StartElement ''section'' [(''name'', type_name_of_mask ty (fst s))] #
     concat (map item_tokens (fl_items (snd s))) @ [EndElement ''section'']"

definition save_tokens :: "filter_types \<Rightarrow> filters \<Rightarrow> filter_token list" where
  "save_tokens ty fs =
     [StartDocument, StartElement ''seqfilters'' []] @ concat (map (section_tokens ty) (fs_filters fs)) @
     [EndElement ''seqfilters'', EndDocument]"

fun outside_blanks :: "bool \<Rightarrow> filter_token list \<Rightarrow> filter_token list" where
  "outside_blanks inRegex [] = []"
| "outside_blanks inRegex (t # ts) = (case t of
     Characters ch \<Rightarrow> (if inRegex then t # outside_blanks inRegex ts else outside_blanks inRegex ts)
   | OtherToken \<Rightarrow> outside_blanks inRegex ts
   | StartElement n as \<Rightarrow> t # outside_blanks (inRegex \<or> n = ''regex'') ts
   | EndElement n \<Rightarrow> t # outside_blanks (inRegex \<and> n \<noteq> ''regex'') ts
   | StartDocument \<Rightarrow> t # outside_blanks False ts
   | _ \<Rightarrow> t # outside_blanks inRegex ts)"

lemma h_startElement_inRegex:
  "h_startElement L ty n as h = Inr (True, h') \<Longrightarrow> h_inRegex h' = (h_inRegex h \<or> n = ''regex'')"
  by (auto simp: h_startElement_def Let_def result_simps split: if_splits)

lemma h_endElement_inRegex:
  "h_endElement L ty n (h, fs) = Inr (h', fs') \<Longrightarrow> h_inRegex h' = (h_inRegex h \<and> n \<noteq> ''regex'')"
  by (auto simp: h_endElement_def Let_def result_simps split: if_splits)

lemma load_outside_blanks:
  "load_tokens L ty ts (h, fs) = load_tokens L ty (outside_blanks (h_inRegex h) ts) (h, fs)"
proof (induction ts arbitrary: h fs)
  case (Cons t ts)
  show ?case
  proof (cases t)
    case (StartElement n as)
    show ?thesis
    proof (cases "h_startElement L ty n as h")
      case (Inr r)
      then show ?thesis using StartElement Cons.IH [of "snd r" fs] h_startElement_inRegex [of L ty n as h "snd r"]
        by (cases r) auto
    qed (simp add: StartElement)
  next
    case (EndElement n)
    show ?thesis
    proof (cases "h_endElement L ty n (h, fs)")
      case (Inr r)
      then show ?thesis using EndElement Cons.IH [of "fst r" "snd r"] h_endElement_inRegex [of L ty n h fs "fst r" "snd r"]
        by (cases r) auto
    qed (simp add: EndElement)
  next
    case StartDocument
    then show ?thesis using Cons.IH [of "h_startDocument h" fs] by (simp add: h_startDocument_def)
  next
    case (Characters ch)
    then show ?thesis using Cons.IH [of "h_characters ch h" fs] by (auto simp: h_characters_def)
  qed (use Cons.IH [of h fs] in auto)
qed simp

lemma fixed_empty [simp]: "fixedFilterPattern p = '''' \<longleftrightarrow> p = ''''"
  using length_replace_ci [of "''Name:''" "''Name:#?''" p 0] by (auto simp: fixedFilterPattern_def)

text \<open>A rule as it was compiled from its own text.\<close>

definition own_text :: "bool \<Rightarrow> filter_item \<Rightarrow> bool" where
  "own_text cs it \<longleftrightarrow> it = fi_init (fi_origPattern it) cs (fi_minLevel it) (fi_maxLevel it)"

definition reads_levels :: "regex_lib \<Rightarrow> bool" where
  "reads_levels L \<longleftrightarrow> (\<forall>n :: u8. rx_toUShort L (dec (unat n)) = ucast n)"

lemma ucast_u16_u8 [simp]: "ucast (ucast (n :: u8) :: u16) = n"
  by (rule bit_word_eqI) (auto simp: bit_simps)

lemma load_item:
  assumes "reads_levels L" "own_text cs it" "\<not> h_inRegex h" "h_currentType h \<le> 6"
    and add: "fs_addFilter L base_types (h_currentType h) (fi_origPattern it) (fi_minLevel it) (fi_maxLevel it) fs = Inr (ok, fs')"
  shows "load_tokens L base_types (item_tokens it @ ts) (h, fs) =
    load_tokens L base_types ts
      (h\<lparr>h_pattern := fi_origPattern it, h_minLevel := fi_minLevel it, h_maxLevel := fi_maxLevel it\<rparr>, fs')"
proof -
  have p: "fi_pattern it = '''' \<longleftrightarrow> fi_origPattern it = ''''"
    using assms(2) fi_init_simps(1) fixed_empty unfolding own_text_def by metis
  obtain t q a b where h: "h = \<lparr>h_currentType = t, h_pattern = q, h_minLevel = a, h_maxLevel = b, h_inRegex = False\<rparr>"
    using assms(3) by (cases h) auto
  have e: "h_endElement L base_types ''oldfilter''
      (\<lparr>h_currentType = t, h_pattern = fi_origPattern it, h_minLevel = fi_minLevel it, h_maxLevel = fi_maxLevel it,
        h_inRegex = False\<rparr>, fs) =
      Inr (\<lparr>h_currentType = t, h_pattern = fi_origPattern it, h_minLevel = fi_minLevel it,
        h_maxLevel = fi_maxLevel it, h_inRegex = False\<rparr>, fs')"
    using assms(4) add by (simp add: h_endElement_def base_types_def h)
  show ?thesis using assms(1) e
    by (cases "fi_origPattern it = ''''"; cases "fi_minLevel it = 0"; cases "fi_maxLevel it = 0")
      (simp_all add: item_tokens_def p h h_startElement_def h_endElement_def [of L _ "''regex''"]
        h_endElement_def [of L _ "''level''"] h_characters_def attribute_def reads_levels_def)
qed

lemma base_names:
  assumes "t < 7"
  shows "type_of_name base_types (type_name_of_mask base_types (push_bit t 1)) = Inr (of_nat t)"
    "type_name_of_mask base_types (push_bit t 1) \<noteq> ''''"
proof -
  have "\<forall>t \<in> set [0..<7]. type_of_name base_types (type_name_of_mask base_types (push_bit t 1)) = Inr (of_nat t) \<and>
      type_name_of_mask base_types (push_bit t 1) \<noteq> ''''"
    by code_simp
  then show "type_of_name base_types (type_name_of_mask base_types (push_bit t 1)) = Inr (of_nat t)"
    "type_name_of_mask base_types (push_bit t 1) \<noteq> ''''"
    using assms by simp_all
qed

lemma smap_put_end:
  "\<forall>p \<in> set pre. fst p < m \<Longrightarrow> smap_put m v pre = pre @ [(m, v)]"
  "\<forall>p \<in> set pre. fst p < m \<Longrightarrow> smap_put m v (pre @ [(m, w)]) = pre @ [(m, v)]"
  by (induction m v pre rule: smap_put.induct) auto

text \<open>The table while a section is being read: what came before, and the rules of the section so far.\<close>

definition so_far :: "(u32 \<times> filter_list) list \<Rightarrow> u32 \<Rightarrow> bool \<Rightarrow> filter_item list \<Rightarrow> (u32 \<times> filter_list) list" where
  "so_far pre m cs its = pre @ (if its = [] then [] else [(m, \<lparr>fl_items = its, fl_caseSensitive = cs\<rparr>)])"

lemma add_so_far:
  assumes "t < 7" "\<forall>p \<in> set pre. fst p < push_bit t 1" "own_text cs it" "fi_origPattern it \<notin> fi_pattern ` set its"
    "fs_filters fs = so_far pre (push_bit t 1) cs its" "fs_caseSensitive fs = cs"
  shows "fs_addFilter L base_types (of_nat t) (fi_origPattern it) (fi_minLevel it) (fi_maxLevel it) fs =
    Inr (fi_valid L it, fs\<lparr>fs_filters := so_far pre (push_bit t 1) cs (its @ [it])\<rparr>)"
proof -
  let ?m = "push_bit t 1 :: u32"
  have t: "unat (of_nat t :: u8) = t" using assms(1) by (simp add: unat_of_nat)
  have it: "fi_init (fi_origPattern it) cs (fi_minLevel it) (fi_maxLevel it) = it" using assms(3) by (simp add: own_text_def)
  have pre: "map_of pre ?m = None"
    unfolding map_of_eq_None_iff using assms(2) by (auto simp del: push_bit_of_1)
  have "unat (of_nat t :: u8) < 7" unfolding t by (rule assms(1))
  then have "validMask base_types (push_bit (unat (of_nat t :: u8)) 1)" by (rule validMask_base)
  then have v: "validMask base_types ?m" unfolding t .
  let ?f = "\<lparr>fl_items = its, fl_caseSensitive = cs\<rparr>"
  have "find (\<lambda>x. fi_pattern x = fi_origPattern it) its = None"
    unfolding find_None_iff using assms(4) by (metis imageI)
  then have add: "fl_addFilter L (fi_origPattern it) (fi_minLevel it) (fi_maxLevel it) ?f =
      (fi_valid L it, \<lparr>fl_items = its @ [it], fl_caseSensitive = cs\<rparr>)"
    by (simp add: fl_addFilter_def fl_findFilter_def Let_def it)
  have get: "(case map_of (fs_filters fs) ?m of None \<Rightarrow> mkFilter (fs_caseSensitive fs) | Some f \<Rightarrow> f) = ?f"
  proof (cases "its = []")
    case True
    then have "fs_filters fs = pre" using assms(5) by (simp add: so_far_def)
    then show ?thesis unfolding \<open>fs_filters fs = pre\<close> pre using True assms(6) by (simp add: mkFilter_def)
  next
    case False
    then have "fs_filters fs = pre @ [(?m, ?f)]" using assms(5) by (simp add: so_far_def)
    then show ?thesis unfolding \<open>fs_filters fs = pre @ [(?m, ?f)]\<close> using pre by (simp add: map_add_def)
  qed
  have put: "smap_put ?m \<lparr>fl_items = its @ [it], fl_caseSensitive = cs\<rparr> (fs_filters fs) = so_far pre ?m cs (its @ [it])"
    unfolding assms(5) so_far_def using smap_put_end [OF assms(2)] by simp
  have s: "shl1 (unat (of_nat t :: u8)) = Inr ?m" unfolding t by (rule shl1_small) (use assms(1) in simp)
  show ?thesis unfolding fs_addFilter_def s rbind.simps get using v by (simp add: add put del: push_bit_of_1)
qed

lemma load_items:
  assumes "reads_levels L" "t < 7" "\<forall>p \<in> set pre. fst p < push_bit t 1"
  shows "\<lbrakk>rules_ok (done @ its); \<forall>it \<in> set its. own_text cs it; fs_filters fs = so_far pre (push_bit t 1) cs done;
     fs_caseSensitive fs = cs; h_currentType h = of_nat t; \<not> h_inRegex h\<rbrakk> \<Longrightarrow>
   \<exists>h'. h_currentType h' = of_nat t \<and> \<not> h_inRegex h' \<and>
     load_tokens L base_types (concat (map item_tokens its) @ ts) (h, fs) =
     load_tokens L base_types ts (h', fs\<lparr>fs_filters := so_far pre (push_bit t 1) cs (done @ its)\<rparr>)"
proof (induction its arbitrary: "done" fs h)
  case Nil
  have same: "fs\<lparr>fs_filters := so_far pre (push_bit t 1) cs (done @ [])\<rparr> = fs" using Nil.prems(3) by (cases fs) simp
  show ?case unfolding same using Nil.prems(5,6) by (intro exI [of _ h]) simp
next
  case (Cons it its)
  let ?h = "h\<lparr>h_pattern := fi_origPattern it, h_minLevel := fi_minLevel it, h_maxLevel := fi_maxLevel it\<rparr>"
  let ?fs = "fs\<lparr>fs_filters := so_far pre (push_bit t 1) cs (done @ [it])\<rparr>"
  have new: "fi_origPattern it \<notin> fi_pattern ` set done"
    using Cons.prems(1) by (auto simp: rules_ok_def sorted_wrt_append)
  have ty: "h_currentType h \<le> 6" using Cons.prems(5) assms(2) by (simp add: word_le_nat_alt unat_of_nat)
  have add: "fs_addFilter L base_types (h_currentType h) (fi_origPattern it) (fi_minLevel it) (fi_maxLevel it) fs =
      Inr (fi_valid L it, ?fs)"
    unfolding Cons.prems(5) using add_so_far [OF assms(2,3) _ new] Cons.prems(2,3,4) by simp
  have "load_tokens L base_types (item_tokens it @ concat (map item_tokens its) @ ts) (h, fs) =
      load_tokens L base_types (concat (map item_tokens its) @ ts) (?h, ?fs)"
    by (rule load_item [where cs = cs, OF assms(1) _ Cons.prems(6) ty add]) (use Cons.prems(2) in simp)
  moreover obtain h' where "h_currentType h' = of_nat t" "\<not> h_inRegex h'"
    "load_tokens L base_types (concat (map item_tokens its) @ ts) (?h, ?fs) =
     load_tokens L base_types ts (h', ?fs\<lparr>fs_filters := so_far pre (push_bit t 1) cs ((done @ [it]) @ its)\<rparr>)"
    using Cons.IH [of "done @ [it]" ?fs ?h] Cons.prems by auto
  ultimately show ?case by (intro exI [of _ h']) simp
qed

text \<open>A section of a table that can come back: rules of one of the seven types, all compiled alike.\<close>

definition section_ok :: "bool \<Rightarrow> u32 \<times> filter_list \<Rightarrow> bool" where
  "section_ok cs s \<longleftrightarrow> (\<exists>t<7. fst s = push_bit t 1) \<and> fl_caseSensitive (snd s) = cs \<and>
     rules_ok (fl_items (snd s)) \<and> (\<forall>it \<in> set (fl_items (snd s)). own_text cs it)"

definition has_rules :: "u32 \<times> filter_list \<Rightarrow> bool" where
  "has_rules s \<longleftrightarrow> fl_items (snd s) \<noteq> []"

lemma load_rule_section:
  assumes "reads_levels L" "section_ok cs s" "\<forall>p \<in> set pre. fst p < fst s" "fs_filters fs = pre"
    "fs_caseSensitive fs = cs" "\<not> h_inRegex h"
  shows "\<exists>h'. \<not> h_inRegex h' \<and>
    load_tokens L base_types (section_tokens base_types s @ ts) (h, fs) =
      load_tokens L base_types ts (h', fs\<lparr>fs_filters := pre @ filter has_rules [s]\<rparr>)"
proof -
  obtain t where t: "t < 7" "fst s = push_bit t 1" using assms(2) by (auto simp: section_ok_def)
  let ?h = "h\<lparr>h_currentType := of_nat t\<rparr>" and ?rest = "EndElement ''section'' # ts"
  have start: "h_startElement L base_types ''section'' [(''name'', type_name_of_mask base_types (fst s))] h = Inr (True, ?h)"
    using base_names [OF t(1)] by (simp add: h_startElement_def attribute_def t(2) del: push_bit_of_1)
  have ok: "rules_ok (fl_items (snd s))" "\<forall>it \<in> set (fl_items (snd s)). own_text cs it" "fl_caseSensitive (snd s) = cs"
    using assms(2) by (auto simp: section_ok_def)
  have "\<exists>h'. h_currentType h' = of_nat t \<and> \<not> h_inRegex h' \<and>
      load_tokens L base_types (concat (map item_tokens (fl_items (snd s))) @ ?rest) (?h, fs) =
      load_tokens L base_types ?rest (h', fs\<lparr>fs_filters := so_far pre (push_bit t 1) cs ([] @ fl_items (snd s))\<rparr>)"
    by (rule load_items [OF assms(1) t(1)]) (use assms(3-6) ok t(2) in \<open>simp_all add: so_far_def\<close>)
  then obtain h' where h': "\<not> h_inRegex h'"
    "load_tokens L base_types (concat (map item_tokens (fl_items (snd s))) @ ?rest) (?h, fs) =
     load_tokens L base_types ?rest (h', fs\<lparr>fs_filters := so_far pre (push_bit t 1) cs (fl_items (snd s))\<rparr>)"
    by auto
  have "so_far pre (push_bit t 1) cs (fl_items (snd s)) = pre @ filter has_rules [s]"
    using ok(3) t(2) by (cases s) (auto simp: so_far_def has_rules_def)
  then have "load_tokens L base_types (section_tokens base_types s @ ts) (h, fs) =
      load_tokens L base_types ts (h'\<lparr>h_currentType := 255\<rparr>, fs\<lparr>fs_filters := pre @ filter has_rules [s]\<rparr>)"
    using start h'(2) by (simp add: section_tokens_def h_endElement_def)
  then show ?thesis using h'(1) by (intro exI [of _ "h'\<lparr>h_currentType := 255\<rparr>"]) simp
qed

lemma load_sections:
  assumes "reads_levels L"
  shows "\<lbrakk>smap_inv (pre @ ss); \<forall>s \<in> set ss. section_ok cs s; fs_filters fs = pre; fs_caseSensitive fs = cs; \<not> h_inRegex h\<rbrakk> \<Longrightarrow>
    \<exists>h'. \<not> h_inRegex h' \<and>
      load_tokens L base_types (concat (map (section_tokens base_types) ss) @ ts) (h, fs) =
      load_tokens L base_types ts (h', fs\<lparr>fs_filters := pre @ filter has_rules ss\<rparr>)"
proof (induction ss arbitrary: pre fs h)
  case Nil
  have "fs\<lparr>fs_filters := pre\<rparr> = fs" using Nil.prems(3) by (cases fs) simp
  then show ?case using Nil.prems(5) by (intro exI [of _ h]) simp
next
  case (Cons s ss)
  have less: "\<forall>p \<in> set pre. fst p < fst s" using Cons.prems(1) by (auto simp: smap_inv_def sorted_wrt_append)
  obtain h1 where h1: "\<not> h_inRegex h1"
    "load_tokens L base_types (section_tokens base_types s @ concat (map (section_tokens base_types) ss) @ ts) (h, fs) =
     load_tokens L base_types (concat (map (section_tokens base_types) ss) @ ts) (h1, fs\<lparr>fs_filters := pre @ filter has_rules [s]\<rparr>)"
    using load_rule_section [OF assms _ less Cons.prems(3,4,5)] Cons.prems(2) by fastforce
  have "smap_inv ((pre @ filter has_rules [s]) @ ss)" using Cons.prems(1) by (auto simp: smap_inv_def sorted_wrt_append)
  from Cons.IH [OF this, of "fs\<lparr>fs_filters := pre @ filter has_rules [s]\<rparr>" h1] show ?case
    using Cons.prems h1 by auto
qed

section \<open>The text of a file\<close>

text \<open>The document that \<open>Filters::save\<close> writes: elements on lines of their own, with the blanks in front of them.\<close>

definition item_node :: "filter_item \<Rightarrow> xml_node" where
  "item_node it = XElement ''oldfilter'' []
     ((if fi_pattern it \<noteq> '''' then [XElement ''regex'' [] [XText (fi_origPattern it)]] else []) @
      (if fi_minLevel it \<noteq> 0 \<or> fi_maxLevel it \<noteq> 0 then
         [XEmpty ''level''
           ((if fi_minLevel it \<noteq> 0 then [(''min'', dec (unat (fi_minLevel it)))] else []) @
            (if fi_maxLevel it \<noteq> 0 then [(''max'', dec (unat (fi_maxLevel it)))] else []))]
       else []))"

fun spread :: "string \<Rightarrow> string \<Rightarrow> xml_node list \<Rightarrow> xml_node list" where
  "spread inner outer [] = [XText (line_end @ outer)]"
| "spread inner outer (x # xs) = XText (line_end @ inner) # x # spread inner outer xs"

definition section_node :: "filter_types \<Rightarrow> u32 \<times> filter_list \<Rightarrow> xml_node" where
  "section_node ty s = XElement ''section'' [(''name'', type_name_of_mask ty (fst s))]
     (spread (replicate 8 CHR '' '') (replicate 4 CHR '' '') (map item_node (fl_items (snd s))))"

definition save_node :: "filter_types \<Rightarrow> filters \<Rightarrow> xml_node" where
  "save_node ty fs = XElement ''seqfilters'' [] (spread (replicate 4 CHR '' '') [] (map (section_node ty) (fs_filters fs)))"

lemma spread_text:
  "concat (map show_node (spread inner outer xs)) = line_end @ concat (map (\<lambda>x. inner @ show_node x @ line_end) xs) @ outer"
  by (induction xs) auto

lemma fi_save_text: "fi_save indent it = indent @ show_node (item_node it) @ line_end"
  by (simp add: fi_save_def item_node_def show_attrs_def line_end_def)

lemma fs_save_text:
  "fs_save ty fs = xml_prolog ''seqfilters'' ''seqfilters.dtd'' @ show_node (save_node ty fs) @ line_end"
proof -
  have "(\<lambda>(m, f). ''    <section name=\"'' @ type_name_of_mask ty m @ ''\">'' @ [CHR 0x0A] @
       fl_save ''    '' f @ ''    </section>'' @ [CHR 0x0A]) = (\<lambda>s. replicate 4 CHR '' '' @ show_node (section_node ty s) @ line_end)"
    by (rule ext) (auto simp: fl_save_def fi_save_text [abs_def] section_node_def spread_text show_attrs_def line_end_def comp_def
        numeral_eq_Suc)
  then have "fs_save ty fs = ''<?xml version=\"1.0\" encoding=\"UTF-8\"?>'' @ [CHR 0x0A] @
     ''<!DOCTYPE seqfilters SYSTEM \"seqfilters.dtd\">'' @ [CHR 0x0A] @ ''<seqfilters>'' @ [CHR 0x0A] @
     concat (map (\<lambda>s. replicate 4 CHR '' '' @ show_node (section_node ty s) @ line_end) (fs_filters fs)) @ ''</seqfilters>'' @ [CHR 0x0A]"
    unfolding fs_save_def by (simp only:)
  then show ?thesis
    by (simp add: xml_prolog_def save_node_def spread_text show_attrs_def line_end_def comp_def)
qed

lemma elements [simp]: "\<not> is_text (item_node it)" "\<not> is_text (section_node ty s)"
  by (simp_all add: item_node_def section_node_def is_text_def)

lemma wf_spread:
  assumes "\<forall>x\<in>set xs. wf_node x \<and> \<not> is_text x"
  shows "(\<forall>x\<in>set (spread (replicate n CHR '' '') (replicate m CHR '' '') xs). wf_node x) \<and>
    successively (\<lambda>x y. \<not> (is_text x \<and> is_text y)) (spread (replicate n CHR '' '') (replicate m CHR '' '') xs)"
proof -
  have t: "xml_text (CHR 0x0A # replicate k CHR '' '')" for k
    by (rule blank_text) (simp add: list_all_iff)
  show ?thesis using assms
  proof (induction xs)
    case (Cons x xs)
    then show ?case using t by (cases xs) (auto simp: line_end_def is_text_def)
  qed (simp add: line_end_def t)
qed

lemma dec_value: "xml_value (dec n)"
proof -
  have "c \<noteq> CHR ''<'' \<and> c \<noteq> CHR ''&'' \<and> c \<noteq> CHR 0x22 \<and> c \<noteq> CHR ''>'' \<and> 32 \<le> (of_char c :: nat)" if "is_decimal c" for c
    using that by (auto simp: is_decimal_def)
  then show ?thesis using dec_digits [of _ n] by (auto simp: xml_value_def xml_char_def list_all_iff)
qed

lemma wf_item: "own_text cs it \<Longrightarrow> xml_text (fi_origPattern it) \<Longrightarrow> wf_node (item_node it)"
proof -
  assume o: "own_text cs it" and t: "xml_text (fi_origPattern it)"
  have "fi_pattern it = '''' \<longleftrightarrow> fi_origPattern it = ''''"
    using o fi_init_simps(1) fixed_empty unfolding own_text_def by metis
  then show ?thesis using t dec_value by (auto simp: item_node_def xml_name_def xml_attrs_def is_text_def)
qed

lemma wf_section:
  assumes "section_ok cs s" "\<forall>it\<in>set (fl_items (snd s)). xml_text (fi_origPattern it)"
  shows "wf_node (section_node base_types s)"
proof -
  obtain t where t: "t < 7" "fst s = push_bit t 1" using assms(1) by (auto simp: section_ok_def)
  have "\<forall>t\<in>set [0..<7]. xml_value (type_name_of_mask base_types (push_bit t 1))" by code_simp
  then have v: "xml_value (type_name_of_mask base_types (fst s))" using t by simp
  have "\<forall>x\<in>set (map item_node (fl_items (snd s))). wf_node x \<and> \<not> is_text x"
    using assms wf_item by (auto simp: section_ok_def)
  from wf_spread [OF this, of 8 4] show ?thesis using v by (simp add: section_node_def xml_name_def xml_attrs_def)
qed

lemma wf_save:
  assumes "\<forall>s\<in>set (fs_filters fs). section_ok cs s \<and> (\<forall>it\<in>set (fl_items (snd s)). xml_text (fi_origPattern it))"
  shows "wf_node (save_node base_types fs)"
proof -
  have "\<forall>x\<in>set (map (section_node base_types) (fs_filters fs)). wf_node x \<and> \<not> is_text x"
    using assms wf_section by auto
  from wf_spread [OF this, of 4 0] show ?thesis by (simp add: save_node_def xml_name_def xml_attrs_def)
qed

text \<open>What the handler sees of the document.\<close>

lemma outside_misc: "only_misc ms \<Longrightarrow> outside_blanks False (ms @ ts) = outside_blanks False ts"
  by (induction ms) (auto simp: only_misc_def)

lemma outside_item: "outside_blanks False (node_tokens (item_node it) @ ts) = item_tokens it @ outside_blanks False ts"
  by (simp add: item_node_def item_tokens_def)

lemma outside_spread:
  assumes "\<And>x ts. x \<in> set xs \<Longrightarrow> outside_blanks False (node_tokens (f x) @ ts) = g x @ outside_blanks False ts"
  shows "outside_blanks False (concat (map node_tokens (spread inner outer (map f xs))) @ ts) =
    concat (map g xs) @ outside_blanks False ts"
  using assms by (induction xs) auto

lemma outside_section:
  "outside_blanks False (node_tokens (section_node ty s) @ ts) = section_tokens ty s @ outside_blanks False ts"
  using outside_spread [of "fl_items (snd s)" item_node item_tokens "replicate 8 CHR '' ''" "replicate 4 CHR '' ''"
      "EndElement ''section'' # ts"] outside_item
  by (simp add: section_node_def section_tokens_def)

lemma outside_save:
  "outside_blanks False (node_tokens (save_node ty fs) @ ts) =
     StartElement ''seqfilters'' [] # concat (map (section_tokens ty) (fs_filters fs)) @ EndElement ''seqfilters'' # outside_blanks False ts"
  using outside_spread [of "fs_filters fs" "section_node ty" "section_tokens ty" "replicate 4 CHR '' ''" "[]"
      "EndElement ''seqfilters'' # ts"] outside_section
  by (simp add: save_node_def)

lemma reader_of_save:
  assumes "xml_reader xml" "\<forall>s\<in>set (fs_filters fs). section_ok cs s \<and> (\<forall>it\<in>set (fl_items (snd s)). xml_text (fi_origPattern it))"
  shows "outside_blanks b (xml (fs_save base_types fs)) = save_tokens base_types fs"
proof -
  let ?ns = "spread (replicate 4 CHR '' '') [] (map (section_node base_types) (fs_filters fs))"
  have w: "wf_node (XElement ''seqfilters'' [] ?ns)" using wf_save [OF assms(2)] by (simp add: save_node_def)
  have "xml_value ''seqfilters.dtd''" by code_simp
  then obtain before behind where r: "only_misc before" "only_misc behind"
    "xml (fs_save base_types fs) = StartDocument # before @ node_tokens (save_node base_types fs) @ behind @ [EndDocument]"
    using assms(1) [unfolded xml_reader_def, rule_format, OF w] unfolding fs_save_text save_node_def by blast
  show ?thesis by (simp add: r(3) outside_misc r(1,2) outside_save save_tokens_def)
qed

text \<open>C33: Rules that were saved are the rules that are loaded from the file, by a manager with the same setting for case:
  the same types, texts and levels in the same order, without the types that have no rule left. The reader has to be one
  of XML, the file the text that was written, every rule one that was made with that setting, and no rule's own text the
  compiled text of an earlier one; no own text may hold \<open><\<close>, \<open>&\<close>, \<open>]]>\<close> or a control character, which are written as they are.\<close>

theorem saved_rules_load_back:
  assumes "xml_reader xml" "\<forall>n :: u8. rx_toUShort L (dec (unat n)) = ucast n" "path \<noteq> ''''"
    and "smap_inv (fs_filters fs)" "\<forall>s \<in> set (fs_filters fs). section_ok (fs_caseSensitive fs) s"
    and "\<forall>s \<in> set (fs_filters fs). \<forall>it \<in> set (fl_items (snd s)). xml_text (fi_origPattern it)"
  shows "fs_load L base_types h path (Some (xml (fs_save base_types fs))) (mkFilters (fs_caseSensitive fs)) =
    Inr (True, fs\<lparr>fs_file := path, fs_filters := filter has_rules (fs_filters fs)\<rparr>)"
proof -
  let ?fs0 = "\<lparr>fs_file = path, fs_filters = [], fs_caseSensitive = fs_caseSensitive fs\<rparr>"
  let ?finish = "[EndElement ''seqfilters'', EndDocument]"
  have r: "reads_levels L" using assms(2) by (simp add: reads_levels_def)
  have "\<exists>h'. \<not> h_inRegex h' \<and>
      load_tokens L base_types (concat (map (section_tokens base_types) (fs_filters fs)) @ ?finish) (h_startDocument h, ?fs0) =
      load_tokens L base_types ?finish (h', ?fs0\<lparr>fs_filters := [] @ filter has_rules (fs_filters fs)\<rparr>)"
    by (rule load_sections [OF r]) (use assms(4,5) in \<open>simp_all add: h_startDocument_def\<close>)
  then obtain h' where h': "load_tokens L base_types (concat (map (section_tokens base_types) (fs_filters fs)) @ ?finish)
      (h_startDocument h, ?fs0) = load_tokens L base_types ?finish (h', ?fs0\<lparr>fs_filters := [] @ filter has_rules (fs_filters fs)\<rparr>)"
    by blast
  have "load_tokens L base_types (xml (fs_save base_types fs)) (h, ?fs0) =
      load_tokens L base_types (outside_blanks (h_inRegex h) (xml (fs_save base_types fs))) (h, ?fs0)"
    by (rule load_outside_blanks)
  also have "\<dots> = load_tokens L base_types (save_tokens base_types fs) (h, ?fs0)"
    using reader_of_save [OF assms(1), of fs "fs_caseSensitive fs"] assms(5,6) by simp
  also have "\<dots> = Inr (True, h', fs\<lparr>fs_file := path, fs_filters := filter has_rules (fs_filters fs)\<rparr>)"
    using h' by (simp add: save_tokens_def h_startElement_def h_endElement_def)
  finally show ?thesis using assms(3) by (simp add: fs_load_def mkFilters_def fs_clear_def)
qed

section \<open>Witnesses\<close>

definition demo_regex :: regex_lib where
  "demo_regex = \<lparr>rx_valid = (\<lambda>p. True), rx_search = (\<lambda>ci p s. p = s), rx_toInt = (\<lambda>s. None), rx_toUShort = (\<lambda>s. of_nat (undec s))\<rparr>"

definition demo_handler :: xml_handler where
  "demo_handler = \<lparr>h_currentType = 0, h_pattern = '''', h_minLevel = 0, h_maxLevel = 0, h_inRegex = False\<rparr>"

definition demo_fenv :: filter_env where
  "demo_fenv = \<lparr>fe_lib = demo_regex, fe_findExisting = (\<lambda>n. n), fe_findWrite = (\<lambda>n. n), fe_fileName = (\<lambda>n. n),
     fe_read = (\<lambda>p. None), fe_opens = (\<lambda>p. True), fe_handler = demo_handler, fe_junk = False\<rparr>"

definition demo_start :: filter_mgr where
  "demo_start = \<lparr>fm_types = base_types, fm_filterFile = ''f'', fm_filters = \<lparr>fs_file = ''f'', fs_filters = [], fs_caseSensitive = False\<rparr>,
     fm_zoneFilterFile = ''unknown.xml'', fm_zoneFilters = \<lparr>fs_file = ''unknown.xml'', fs_filters = [], fs_caseSensitive = False\<rparr>,
     fm_runtimeTypes = mkFilterTypes, fm_runtimeFilters = mkFilters False, fm_caseSensitive = False,
     fm_events = [FiltersChanged, FiltersChanged]\<rparr>"

lemma demo_start_reachable: "filter_reachable demo_fenv demo_start"
proof (rule filter_reachable.start)
  show "mkFilterMgr demo_fenv ''f'' False = Inr demo_start"
    by (simp add: mkFilterMgr_def registerAll_base fm_loadFiltersFrom_def fm_loadFile_def fm_loadZone_def
        fm_loadZoneFile_def demo_fenv_def fs_load_def fs_clear_def mkFilters_def fm_signal_def demo_start_def)
qed

definition demo_rules :: filter_mgr where
  "demo_rules = (case onFilterRequest demo_fenv '''' (AddFilterRule 0 ''Name:a'' False) demo_start of Inr m \<Rightarrow> m | Inl e \<Rightarrow> demo_start)"

lemma demo_rules_step: "onFilterRequest demo_fenv '''' (AddFilterRule 0 ''Name:a'' False) demo_start = Inr demo_rules"
  using request_good [OF filter_reachable_ok [OF demo_start_reachable], of "''''" "AddFilterRule 0 ''Name:a'' False"]
  by (auto simp: fm_good_def demo_rules_def)

lemma demo_rules_reachable: "filter_reachable demo_fenv demo_rules"
  by (rule filter_reachable.request [OF demo_start_reachable demo_rules_step])

lemma demo_rules_eq: "items_of (fm_filters demo_rules) 0 = [fi_init ''Name:a'' False 0 0]"
  unfolding demo_rules_def demo_start_def
  by (simp add: onFilterRequest_def fm_addFilter_def SIZEOF_FILTERS_def fs_addFilter_def shl1_def validMask_def base_types_def
      fl_addFilter_def fl_findFilter_def mkFilter_def demo_fenv_def fm_signal_def items_of_def Let_def)

theorem removed_rule_stays_iff_it_names_witness:
  "\<exists>m'. onFilterRequest demo_fenv '''' (RemoveFilterRule (ucast (0 :: u8)) ''Name:a'' False) demo_rules = Inr m' \<and>
     told m' 0 ''Name:a'' False"
proof -
  obtain m' where m': "onFilterRequest demo_fenv '''' (RemoveFilterRule (ucast (0 :: u8)) ''Name:a'' False) demo_rules = Inr m'"
    using request_good [OF filter_reachable_ok [OF demo_rules_reachable]] by (auto simp: fm_good_def)
  have "told demo_rules 0 ''Name:a'' False" by (simp add: told_iff demo_rules_eq)
  moreover have "contains_ci ''Name:a'' ''Name:''" by (simp add: starts_with_ci_def same_ci_def)
  ultimately show ?thesis
    using removed_rule_stays_iff_it_names [OF demo_rules_reachable _ m'] m' by auto
qed

theorem filter_flags_exact_witness: "bit (fm_filterMask demo_regex demo_rules ''Name:#?a'' 3) 0"
proof -
  have "fixedFilterPattern ''Name:a'' = ''Name:#?a''" by code_simp
  then have "\<exists>it \<in> set (items_of (fm_filters demo_rules) (of_nat 0)) \<union> set (items_of (fm_zoneFilters demo_rules) (of_nat 0)).
      rx_valid demo_regex (fi_pattern it) \<and> rx_search demo_regex (fi_caseInsensitive it) (fi_pattern it) ''Name:#?a'' \<and>
      (fi_minLevel it = 0 \<and> fi_maxLevel it = 0 \<or> fi_minLevel it \<le> 3 \<and> 3 \<le> fi_maxLevel it)"
    by (simp add: demo_rules_eq demo_regex_def)
  then show ?thesis using filter_flags_exact [OF demo_rules_reachable, of demo_regex "''Name:#?a''" 3 0] by simp
qed

theorem filter_requests_never_fault_witness:
  "\<exists>m'. onFilterRequest demo_fenv ''z'' (EditFilterRule 300 ''Name:a'' ''b'' True) demo_rules = Inr m' \<and> filter_reachable demo_fenv m'"
  by (rule filter_requests_never_fault [OF demo_rules_reachable])

theorem case_setting_is_lost_witness:
  "\<exists>ok m'. fm_addFilter demo_regex 1 ''b'' (fm_setCaseSensitive True demo_start) = Inr (ok, m') \<and>
     map fi_caseInsensitive (items_of (fm_filters m') 1) = [True]"
proof -
  have "fm_ok demo_fenv (fm_setCaseSensitive True demo_start)"
    using filter_reachable.set_case [OF demo_start_reachable] by (rule filter_reachable_ok)
  then have "fm_good demo_fenv (rbind (fm_addFilter demo_regex 1 ''b'' (fm_setCaseSensitive True demo_start)) (\<lambda>(ok, m). Inr m))"
    by (rule fm_add_good(1))
  then obtain ok m' where m': "fm_addFilter demo_regex 1 ''b'' (fm_setCaseSensitive True demo_start) = Inr (ok, m')"
    by (cases "fm_addFilter demo_regex 1 ''b'' (fm_setCaseSensitive True demo_start)") (auto simp: fm_good_def)
  have "map fi_caseInsensitive (items_of (fm_filters m') 1) = [\<not> fe_junk demo_fenv]"
    by (rule case_setting_is_lost [OF demo_start_reachable _ _ m']) (simp_all add: demo_start_def)
  then show ?thesis using m' by (auto simp: demo_fenv_def)
qed

text \<open>The file has two rules of one type; the third type has none left.\<close>

definition demo_saved :: filters where
  "demo_saved = \<lparr>fs_file = ''old'', fs_filters = [(4, \<lparr>fl_items = [fi_init ''Name:a'' False 3 5, fi_init ''b'' False 0 7],
     fl_caseSensitive = False\<rparr>), (16, mkFilter False)], fs_caseSensitive = False\<rparr>"

theorem saved_rules_load_back_witness:
  "fs_load demo_regex base_types demo_handler ''p'' (Some (scan_xml (fs_save base_types demo_saved))) (mkFilters False) =
     Inr (True, demo_saved\<lparr>fs_file := ''p'', fs_filters := take 1 (fs_filters demo_saved)\<rparr>)"
proof -
  have cs: "fs_caseSensitive demo_saved = False" by (simp add: demo_saved_def)
  have f: "\<exists>t<7. (4 :: u32) = push_bit t 1" by (intro exI [of _ 2]) simp
  have g: "\<exists>t<7. (16 :: u32) = push_bit t 1" by (intro exI [of _ 4]) simp
  have ok: "\<forall>s \<in> set (fs_filters demo_saved). section_ok (fs_caseSensitive demo_saved) s"
  proof -
    have "fixedFilterPattern ''Name:a'' \<noteq> ''b''" by code_simp
    then show ?thesis using f g by (simp add: demo_saved_def section_ok_def rules_ok_def own_text_def mkFilter_def)
  qed
  have texts: "\<forall>s \<in> set (fs_filters demo_saved). \<forall>it \<in> set (fl_items (snd s)). xml_text (fi_origPattern it)"
    by code_simp
  have "fs_load demo_regex base_types demo_handler ''p'' (Some (scan_xml (fs_save base_types demo_saved)))
      (mkFilters (fs_caseSensitive demo_saved)) =
      Inr (True, demo_saved\<lparr>fs_file := ''p'', fs_filters := filter has_rules (fs_filters demo_saved)\<rparr>)"
    by (rule saved_rules_load_back [OF scan_xml_reader _ _ _ ok texts])
      (simp_all add: demo_regex_def unat_ucast_widen demo_saved_def smap_inv_def)
  then show ?thesis by (simp add: cs) (simp add: demo_saved_def has_rules_def mkFilter_def)
qed

end
