(* ===== verification/Category.thy ===== *)
theory Category
  imports Prefs FilterLaws
begin

text \<open>
  The categories of spawns (\<open>src/category.h\<close>, \<open>src/category.cpp\<close>): named pairs of expressions, kept in a section of
  the preferences, and the categories a client is told for an item (\<open>src/protoencoder.cpp\<close>).
\<close>

section \<open>One category\<close>

record category =
  ct_name :: string
  ct_filter :: string
  ct_filterout :: string
  ct_filterItem :: filter_item
  ct_filterOutItem :: "filter_item option"
  ct_color :: color
  ct_filteredFilter :: bool

text \<open>\<open>REG_EXTENDED | REG_ICASE\<close> of the C library, which the code hands to a parameter of type \<open>bool\<close>.\<close>

definition cFlags :: u32 where "cFlags = 1 OR 2"

definition mkCategory :: "regex_lib \<Rightarrow> string \<Rightarrow> string \<Rightarrow> string \<Rightarrow> color \<Rightarrow> category" where
  "mkCategory L name flt fltout clr =
     \<lparr>ct_name = name, ct_filter = flt, ct_filterout = fltout,
      ct_filterItem = mkFilterItem L flt (cFlags \<noteq> 0),
      ct_filterOutItem = (if fltout = '''' then None else Some (mkFilterItem L fltout (cFlags \<noteq> 0))),
      ct_color = clr, ct_filteredFilter = contains_ci flt '':Filtered:''\<rparr>"

definition ct_isFiltered :: "regex_lib \<Rightarrow> category \<Rightarrow> string \<Rightarrow> u32 \<Rightarrow> bool" where
  "ct_isFiltered L c filterString level =
     (if fi_isFiltered L (ct_filterItem c) filterString (ucast level) then
        (case ct_filterOutItem c of
           Some out \<Rightarrow> if fi_isFiltered L out filterString (ucast level) then False else True
         | None \<Rightarrow> True)
      else False)"

section \<open>The manager\<close>

datatype category_event =
    CategoryAdded nat
  | CategoryDeleted nat
  | CategoriesCleared
  | CategoriesLoaded

text \<open>A category is known by its address, drawn from the counter \<open>cm_next\<close>.\<close>

record category_mgr =
  cm_categories :: "(nat \<times> category) list"
  cm_next :: nat
  cm_changed :: bool
  cm_events :: "category_event list"

definition tMaxNumCategories :: nat where "tMaxNumCategories = 32"

definition CategoryMgr_section :: string where "CategoryMgr_section = ''CategoryMgr''"

definition findCategories :: "regex_lib \<Rightarrow> category_mgr \<Rightarrow> string \<Rightarrow> u32 \<Rightarrow> nat list" where
  "findCategories L m filterString level =
     map fst (filter (\<lambda>(a, c). ct_isFiltered L c filterString level) (cm_categories m))"

definition cm_append :: "category \<Rightarrow> category_mgr \<Rightarrow> category_mgr" where
  "cm_append c m = m\<lparr>cm_categories := cm_categories m @ [(cm_next m, c)], cm_next := cm_next m + 1\<rparr>"

definition addCategory :: "regex_lib \<Rightarrow> string \<Rightarrow> string \<Rightarrow> string \<Rightarrow> color \<Rightarrow> category_mgr \<Rightarrow> nat option \<times> category_mgr" where
  "addCategory L name flt fltout clr m =
     (let m = m\<lparr>cm_changed := True\<rparr> in
      if name \<noteq> '''' \<and> flt \<noteq> ''''
      then (Some (cm_next m),
            (cm_append (mkCategory L name flt fltout clr) m)\<lparr>cm_events := cm_events m @ [CategoryAdded (cm_next m)]\<rparr>)
      else (None, m))"

definition remCategory :: "nat option \<Rightarrow> category_mgr \<Rightarrow> category_mgr" where
  "remCategory cat m =
     (let m = m\<lparr>cm_changed := True\<rparr> in case cat of
        None \<Rightarrow> m
      | Some a \<Rightarrow> m\<lparr>cm_events := cm_events m @ [CategoryDeleted a],
                   cm_categories := remove_first (\<lambda>(b, c). b = a) (cm_categories m)\<rparr>)"

definition clearCategories :: "category_mgr \<Rightarrow> category_mgr" where
  "clearCategories m = m\<lparr>cm_events := cm_events m @ [CategoriesCleared], cm_categories := [], cm_changed := True\<rparr>"

definition prefBaseName :: "nat \<Rightarrow> string" where
  "prefBaseName i = ''Category'' @ dec i @ ''_''"

definition black :: color where "black = rgb 0 0 0"

text \<open>One round of the loop of \<open>reloadCategories\<close>; \<open>SeqColor("black")\<close> is the default of the colour.\<close>

definition reload_one :: "regex_lib \<Rightarrow> prefs_lib \<Rightarrow> prefs \<Rightarrow> nat \<Rightarrow> category_mgr \<Rightarrow> category_mgr" where
  "reload_one L PL p i m =
     (let sec = CategoryMgr_section; base = prefBaseName i in
      if isPreference (base @ ''Name'') sec AnyPool p then
        (let name = getPrefString (base @ ''Name'') sec '''' AnyPool p;
             flt = getPrefString (base @ ''Filter'') sec '''' AnyPool p;
             clr = getPrefColor PL (base @ ''Color'') sec (color_of_spec (pl_toHex PL) ''black'') AnyPool p;
             fltout = (if isPreference (base @ ''FilterOut'') sec AnyPool p
                       then getPrefString (base @ ''FilterOut'') sec '''' AnyPool p else '''') in
         if name \<noteq> '''' \<and> flt \<noteq> '''' then cm_append (mkCategory L name flt fltout clr) m else m)
      else m)"

definition reloadCategories :: "regex_lib \<Rightarrow> prefs_lib \<Rightarrow> prefs \<Rightarrow> category_mgr \<Rightarrow> category_mgr" where
  "reloadCategories L PL p m =
     (let m = (clearCategories m)\<lparr>cm_changed := False\<rparr>;
          m = fold (reload_one L PL p) [1..<tMaxNumCategories + 1] m
      in m\<lparr>cm_events := cm_events m @ [CategoriesLoaded]\<rparr>)"

definition mkCategoryMgr :: "regex_lib \<Rightarrow> prefs_lib \<Rightarrow> prefs \<Rightarrow> category_mgr" where
  "mkCategoryMgr L PL p =
     reloadCategories L PL p \<lparr>cm_categories = [], cm_next = 0, cm_changed = False, cm_events = []\<rparr>"

definition save_one :: "nat \<Rightarrow> category \<Rightarrow> prefs \<Rightarrow> prefs" where
  "save_one i c p =
     (let sec = CategoryMgr_section; base = prefBaseName i;
          p = setPrefString (base @ ''Name'') sec (ct_name c) User p;
          p = setPrefString (base @ ''Filter'') sec (ct_filter c) User p;
          p = setPrefString (base @ ''FilterOut'') sec (ct_filterout c) User p
      in setPrefColor (base @ ''Color'') sec (ct_color c) User p)"

definition save_blank :: "color \<Rightarrow> nat \<Rightarrow> prefs \<Rightarrow> prefs" where
  "save_blank clr i p =
     (let sec = CategoryMgr_section; base = prefBaseName i;
          p = setPrefString (base @ ''Name'') sec '''' User p;
          p = setPrefString (base @ ''Filter'') sec '''' User p;
          p = setPrefString (base @ ''FilterOut'') sec '''' User p
      in setPrefColor (base @ ''Color'') sec clr User p)"

fun save_from :: "nat \<Rightarrow> category list \<Rightarrow> prefs \<Rightarrow> prefs" where
  "save_from count [] p = p"
| "save_from count (c # cs) p = save_from (Suc count) cs (save_one count c p)"

definition savePrefs :: "prefs_lib \<Rightarrow> category_mgr \<Rightarrow> prefs \<Rightarrow> prefs" where
  "savePrefs PL m p =
     (if \<not> cm_changed m then p
      else let cs = map snd (cm_categories m);
               p = save_from 1 cs p
           in fold (save_blank (color_of_spec (pl_toHex PL) ''black'')) [length cs + 1..<tMaxNumCategories + 1] p)"

section \<open>The categories of an item\<close>

text \<open>
  \<open>fillPos\<close>: the names of the flags of the item, those of the runtime filters for a spawn, and its own
  description; \<open>runtime\<close> and \<open>level\<close> are missing for an item that is no spawn.
\<close>

definition category_text :: "filter_mgr option \<Rightarrow> u32 \<Rightarrow> u32 option \<Rightarrow> string \<Rightarrow> string" where
  "category_text fm flags runtime description = (case fm of
     None \<Rightarrow> description
   | Some fm \<Rightarrow> '':'' @ fm_filterString fm flags @
       (case runtime of Some r \<Rightarrow> runtimeFilterString fm r | None \<Rightarrow> '''') @ description)"

definition category_ids :: "regex_lib \<Rightarrow> category_mgr \<Rightarrow> filter_mgr option \<Rightarrow> u32 \<Rightarrow> (u32 \<times> u8) option \<Rightarrow> string \<Rightarrow> nat list" where
  "category_ids L m fm flags spawn description =
     (let fs = category_text fm flags (map_option fst spawn) description;
          level = (case spawn of Some (_, l) \<Rightarrow> scast l | None \<Rightarrow> 0) in
      filter (\<lambda>i. ct_isFiltered L (snd (cm_categories m ! i)) fs level) [0..<length (cm_categories m)])"

section \<open>What a category is\<close>

text \<open>The flags that ask for a search without regard to case make it one with regard to case.\<close>

lemma category_regards_case:
  "\<not> fi_caseInsensitive (ct_filterItem (mkCategory L name flt fltout clr))"
  "ct_filterOutItem (mkCategory L name flt fltout clr) = Some out \<Longrightarrow> \<not> fi_caseInsensitive out"
  by (auto simp: mkCategory_def cFlags_def mkFilterItem_def Let_def split: option.splits prod.splits if_splits)

section \<open>Saving and loading\<close>

abbreviation setting :: "nat \<Rightarrow> string \<Rightarrow> prefs \<Rightarrow> string option" where
  "setting i field p \<equiv> section_text CategoryMgr_section p (prefBaseName i @ field)"

definition field_of :: "category \<Rightarrow> string \<Rightarrow> string option" where
  "field_of c f = map_of [(''Name'', ct_name c), (''Filter'', ct_filter c), (''FilterOut'', ct_filterout c),
     (''Color'', color_name (ct_color c))] f"

lemma underscore_no_digit [simp]: "\<not> is_decimal CHR ''_''"
  by (simp add: is_decimal_def)

lemma prefBaseName_inj: "prefBaseName i @ s = prefBaseName j @ t \<longleftrightarrow> i = j \<and> s = t"
  by (simp add: prefBaseName_def dec_append_inj)

lemma save_one_unshadowed: "unshadowed CategoryMgr_section p \<Longrightarrow> unshadowed CategoryMgr_section (save_one i c p)"
  by (simp add: save_one_def Let_def setPrefColor_text sect.ok_put)

lemma setting_save_one:
  assumes "unshadowed CategoryMgr_section p"
  shows "setting j f (save_one i c p) = (if j = i \<and> field_of c f \<noteq> None then field_of c f else setting j f p)"
  using assms
  by (auto simp: save_one_def Let_def setPrefColor_text sect.get_put sect.ok_put prefBaseName_inj field_of_def)

definition blank :: "color \<Rightarrow> category" where
  "blank clr = \<lparr>ct_name = '''', ct_filter = '''', ct_filterout = '''',
     ct_filterItem = fi_init '''' True 0 0, ct_filterOutItem = None, ct_color = clr, ct_filteredFilter = False\<rparr>"

lemma save_blank_one: "save_blank clr i = save_one i (blank clr)"
  by (rule ext) (simp add: save_blank_def save_one_def blank_def)

lemma save_from_unshadowed: "unshadowed CategoryMgr_section p \<Longrightarrow> unshadowed CategoryMgr_section (save_from k cs p)"
  by (induction k cs p rule: save_from.induct) (simp_all add: save_one_unshadowed)

lemma setting_save_from:
  assumes "unshadowed CategoryMgr_section p" "\<And>c. field_of c f \<noteq> None"
  shows "setting j f (save_from k cs p) = (if k \<le> j \<and> j < k + length cs then field_of (cs ! (j - k)) f else setting j f p)"
  using assms(1)
proof (induction cs arbitrary: k p)
  case (Cons c cs)
  have "setting j f (save_from (Suc k) cs (save_one k c p)) =
      (if Suc k \<le> j \<and> j < Suc k + length cs then field_of (cs ! (j - Suc k)) f else setting j f (save_one k c p))"
    by (rule Cons.IH) (simp add: save_one_unshadowed Cons.prems)
  then show ?case
    using assms(2) by (auto simp: setting_save_one [OF Cons.prems] nth_Cons' Suc_diff_Suc)
qed auto

lemma save_blanks: "fold (save_blank clr) [k..<k + n] p = save_from k (replicate n (blank clr)) p"
proof (induction n arbitrary: k p)
  case (Suc n)
  have "[k..<k + Suc n] = k # [Suc k..<Suc k + n]" by (simp add: upt_conv_Cons del: upt_Suc)
  then show ?case using Suc [of "Suc k" "save_blank clr k p"] by (simp add: save_blank_one del: upt_Suc)
qed simp

text \<open>A category as \<open>addCategory\<close> and \<open>reloadCategories\<close> make them, with a colour that has a name.\<close>

definition category_ok :: "regex_lib \<Rightarrow> category \<Rightarrow> bool" where
  "category_ok L c \<longleftrightarrow> c = mkCategory L (ct_name c) (ct_filter c) (ct_filterout c) (ct_color c) \<and>
     ct_name c \<noteq> '''' \<and> ct_filter c \<noteq> '''' \<and> cl_valid (ct_color c)"

definition loaded :: "regex_lib \<Rightarrow> prefs_lib \<Rightarrow> prefs \<Rightarrow> nat \<Rightarrow> category list" where
  "loaded L PL p i = map snd (cm_categories (reload_one L PL p i \<lparr>cm_categories = [], cm_next = 0, cm_changed = False, cm_events = []\<rparr>))"

lemma reload_one_loaded: "map snd (cm_categories (reload_one L PL p i m)) = map snd (cm_categories m) @ loaded L PL p i"
  by (simp add: loaded_def reload_one_def Let_def cm_append_def)

lemma reload_fold: "map snd (cm_categories (fold (reload_one L PL p) is m)) = map snd (cm_categories m) @ concat (map (loaded L PL p) is)"
  by (induction "is" arbitrary: m) (simp_all add: reload_one_loaded)

lemma loaded_category:
  assumes "\<And>f. f \<in> {''Name'', ''Filter'', ''FilterOut'', ''Color''} \<Longrightarrow> setting i f p = field_of c f"
    and "category_ok L c" "color_of_spec (pl_toHex PL) (color_name (ct_color c)) = ct_color c"
  shows "loaded L PL p i = [c]"
proof -
  have s: "setting i ''Name'' p = Some (ct_name c)" "setting i ''Filter'' p = Some (ct_filter c)"
    "setting i ''FilterOut'' p = Some (ct_filterout c)" "setting i ''Color'' p = Some (color_name (ct_color c))"
    using assms(1) by (simp_all add: field_of_def)
  show ?thesis
    using assms(2,3) by (simp add: loaded_def reload_one_def isPreference_text getPrefString_text getPrefColor_text s
        cm_append_def Let_def category_ok_def)
qed

lemma loaded_blank:
  assumes "setting i ''Name'' p = Some ''''"
  shows "loaded L PL p i = []"
  by (simp add: loaded_def reload_one_def isPreference_text getPrefString_text assms Let_def)

lemma reload_categories:
  "map snd (cm_categories (reloadCategories L PL p m)) = concat (map (loaded L PL p) [1..<33])"
  using reload_fold [of L PL p "[1..<33]" "(clearCategories m)\<lparr>cm_changed := False\<rparr>"]
  by (simp add: reloadCategories_def clearCategories_def tMaxNumCategories_def Let_def)

lemma take_by_index: "concat (map (\<lambda>i. if i \<le> length cs then [cs ! (i - 1)] else []) [1..<Suc n]) = take n cs"
  by (induction n) (auto simp: take_Suc_conv_app_nth not_less_eq_eq)

text \<open>Saving the categories and loading them gives the same categories in the same order, up to the 32 that are
  read back, over whatever the preferences held before: numbers that are no longer used are blanked.\<close>

theorem saved_categories_reload:
  assumes "cm_changed m" "unshadowed CategoryMgr_section p" "\<forall>c \<in> set (map snd (cm_categories m)). category_ok L c"
    and hex: "\<forall>r g b. pl_toHex PL (hex2 r @ hex2 g @ hex2 b) = Some (push_bit 16 (ucast r) OR push_bit 8 (ucast g) OR ucast b)"
  shows "map snd (cm_categories (reloadCategories L PL (savePrefs PL m p) m')) = take 32 (map snd (cm_categories m))"
proof -
  let ?cs = "map snd (cm_categories m)" and ?b = "color_of_spec (pl_toHex PL) ''black''" and ?q = "savePrefs PL m p"
  let ?all = "?cs @ replicate (32 - length ?cs) (blank ?b)"
  have fields: "field_of c f \<noteq> None" if "f \<in> {''Name'', ''Filter'', ''FilterOut'', ''Color''}" for c f
    using that by (auto simp: field_of_def)
  have q: "setting j f ?q = field_of (?all ! (j - 1)) f"
    if "f \<in> {''Name'', ''Filter'', ''FilterOut'', ''Color''}" "j \<in> {1..32}" for j f
  proof -
    let ?p1 = "save_from 1 ?cs p"
    have upt: "[length ?cs + 1..<33] = [length ?cs + 1..<length ?cs + 1 + (32 - length ?cs)]"
      by (cases "length ?cs \<le> 32") auto
    have "?q = save_from (length ?cs + 1) (replicate (32 - length ?cs) (blank ?b)) ?p1"
      using assms(1) unfolding savePrefs_def Let_def tMaxNumCategories_def save_blanks [symmetric] upt [symmetric] by simp
    moreover have "setting j f (save_from (length ?cs + 1) (replicate (32 - length ?cs) (blank ?b)) ?p1) =
        field_of (?all ! (j - 1)) f"
      using that(2) setting_save_from [where p = ?p1 and f = f and j = j and k = "length ?cs + 1" and
          cs = "replicate (32 - length ?cs) (blank ?b)", OF save_from_unshadowed [OF assms(2)]]
        setting_save_from [where p = p and f = f and j = j and k = 1 and cs = ?cs, OF assms(2)] fields [OF that(1)]
      by (auto simp: nth_append)
    ultimately show ?thesis by simp
  qed
  have "loaded L PL ?q i = (if i \<le> length ?cs then [?cs ! (i - 1)] else [])" if "i \<in> set [1..<33]" for i
  proof (cases "i \<le> length ?cs")
    case True
    let ?c = "?cs ! (i - 1)"
    have c: "?c \<in> set ?cs" using True that by (intro nth_mem) auto
    then have ok: "category_ok L ?c" using assms(3) by blast
    obtain r g b where "ct_color ?c = rgb r g b" using ok by (cases "ct_color ?c") (auto simp: category_ok_def rgb_def)
    then have "color_of_spec (pl_toHex PL) (color_name (ct_color ?c)) = ct_color ?c"
      using color_name_roundtrip [of "pl_toHex PL" r g b] hex by simp
    then have "loaded L PL ?q i = [?c]"
      by (intro loaded_category ok) (use q that True in \<open>auto simp: nth_append\<close>)
    then show ?thesis using True by simp
  next
    case False
    then have "\<not> i - 1 < length ?cs" "i - 1 - length ?cs < 32 - length ?cs" using that by auto
    then have "?all ! (i - 1) = blank ?b" by (simp only: nth_append if_False nth_replicate)
    then have "setting i ''Name'' ?q = Some ''''" using q [of "''Name''" i] that
      by (simp add: field_of_def blank_def)
    then show ?thesis using False by (simp add: loaded_blank)
  qed
  then have "concat (map (loaded L PL ?q) [1..<33]) = concat (map (\<lambda>i. if i \<le> length ?cs then [?cs ! (i - 1)] else []) [1..<33])"
    by (intro arg_cong [where f = concat] map_cong) auto
  also have "\<dots> = take 32 ?cs" using take_by_index [of ?cs 32] by simp
  finally show ?thesis by (simp add: reload_categories)
qed

definition demo_plib :: prefs_lib where
  "demo_plib = lib0\<lparr>pl_toHex := (\<lambda>s. case map (\<lambda>c. of_char c :: nat) s of
     [a, b, c, d, e, f] \<Rightarrow> (let v = (\<lambda>n. if n < 58 then n - 48 else n - 87);
         w = (\<lambda>x y. of_nat (16 * v x + v y)) :: nat \<Rightarrow> nat \<Rightarrow> u32 in
       Some (push_bit 16 (w a b) OR push_bit 8 (w c d) OR w e f))
   | _ \<Rightarrow> None)\<rparr>"

lemma of_char_hex [simp]: "n < 16 \<Longrightarrow> of_char (hex_nibble n) = (if n < 10 then 48 + n else 87 + n)"
  by (auto simp: hex_nibble_def of_char_of)

lemma demo_plib_hex:
  "pl_toHex demo_plib (hex2 r @ hex2 g @ hex2 b) = Some (push_bit 16 (ucast r) OR push_bit 8 (ucast g) OR ucast b)"
proof -
  have s: "unat w div 16 < 16" "unat w mod 16 < 16" for w :: u8 using u8_lt [of w] by auto
  have c: "16 * word_of_nat (unat w div 16) + word_of_nat (unat w mod 16) = (ucast w :: u32)" for w :: u8
  proof -
    have "word_of_nat (16 * (unat w div 16) + unat w mod 16) = (word_of_nat (unat w) :: u32)"
      by (simp only: mult_div_mod_eq)
    then show ?thesis by (simp only: of_nat_add of_nat_mult of_nat_numeral of_nat_unat)
  qed
  show ?thesis by (simp add: demo_plib_def hex2_def s Let_def c)
qed

definition demo_categories :: category_mgr where
  "demo_categories = \<lparr>cm_categories = [(0, mkCategory demo_regex ''Hunt'' '':Hunt:'' '''' (rgb 255 0 0)),
     (1, mkCategory demo_regex ''PC'' ''NPC:0'' '':Filtered:'' (rgb 0 0 7))], cm_next = 2, cm_changed = True, cm_events = []\<rparr>"

theorem saved_categories_reload_witness:
  "map snd (cm_categories (reloadCategories demo_regex demo_plib (savePrefs demo_plib demo_categories demo_prefs) demo_categories)) =
     [mkCategory demo_regex ''Hunt'' '':Hunt:'' '''' (rgb 255 0 0), mkCategory demo_regex ''PC'' ''NPC:0'' '':Filtered:'' (rgb 0 0 7)]"
proof -
  have "\<forall>c \<in> set (map snd (cm_categories demo_categories)). category_ok demo_regex c"
    by (simp add: demo_categories_def category_ok_def mkCategory_def rgb_def)
  moreover have "unshadowed CategoryMgr_section demo_prefs" by (simp add: unshadowed_def demo_prefs_def)
  moreover have "cm_changed demo_categories" by (simp add: demo_categories_def)
  ultimately show ?thesis
    using saved_categories_reload [of demo_categories demo_prefs demo_regex demo_plib] demo_plib_hex
    by (simp add: demo_categories_def)
qed

end
