(* ===== verification/SpawnMonitor.thy ===== *)
theory SpawnMonitor
  imports Spawn QtText
begin

text \<open>
  The spawn points (\<open>src/spawnmonitor.h\<close>, \<open>src/spawnmonitor.cpp\<close>): places where a mob appeared once are
  candidates, places where one appeared again are points, and the time between the death and the next appearance
  is the respawn time. Points are objects known by their address, and a pointer that is followed after the point
  was deleted is the fault \<open>UseAfterFree\<close>. Times are 64-bit numbers of seconds; \<open>now\<close> is \<open>time(0)\<close>, read once per
  signal. The order in which a \<open>QHash\<close> is visited, the places of files, which renames and removals succeed, and what
  \<open>QTextStream\<close> reads from a text are fields of the environment.
\<close>

section \<open>Points\<close>

record spawn_point =
  pt_pos :: "u16 \<times> u16 \<times> u16"
  pt_spawnTime :: u64
  pt_deathTime :: u64
  pt_diffTime :: u64
  pt_count :: u32
  pt_name :: string
  pt_last :: string
  pt_lastID :: u16

definition mkPoint :: "u64 \<Rightarrow> u16 \<Rightarrow> u16 \<times> u16 \<times> u16 \<Rightarrow> string \<Rightarrow> u64 \<Rightarrow> u32 \<Rightarrow> spawn_point" where
  "mkPoint now spawnID loc name diffTime cnt =
     \<lparr>pt_pos = loc, pt_spawnTime = now, pt_deathTime = 0, pt_diffTime = diffTime, pt_count = cnt, pt_name = name,
      pt_last = '''', pt_lastID = spawnID\<rparr>"

text \<open>\<open>asprintf("%d|%d|%d")\<close> of the signed coordinates.\<close>

definition pt_key :: "u16 \<times> u16 \<times> u16 \<Rightarrow> string" where
  "pt_key l = (case l of (x, y, z) \<Rightarrow>
     dec_int (sint x) @ CHR ''|'' # dec_int (sint y) @ CHR ''|'' # dec_int (sint z))"

definition secsLeft :: "u64 \<Rightarrow> spawn_point \<Rightarrow> u64" where
  "secsLeft now p = pt_diffTime p - (now - pt_deathTime p)"

definition pt_restart :: "u64 \<Rightarrow> spawn_point \<Rightarrow> spawn_point" where
  "pt_restart now p = p\<lparr>pt_lastID := 0, pt_deathTime := now\<rparr>"

definition pt_update :: "u64 \<Rightarrow> spawn \<Rightarrow> spawn_point \<Rightarrow> spawn_point" where
  "pt_update now s p =
     (let p = p\<lparr>pt_lastID := it_id s\<rparr>;
          p = (if pt_lastID p \<noteq> 0 then p\<lparr>pt_last := it_name s\<rparr> else p\<lparr>pt_last := ''''\<rparr>);
          p = p\<lparr>pt_spawnTime := now\<rparr>;
          p = (if pt_deathTime p \<noteq> 0 then p\<lparr>pt_diffTime := pt_spawnTime p - pt_deathTime p\<rparr> else p)
      in p\<lparr>pt_deathTime := 0, pt_count := pt_count p + 1\<rparr>)"

section \<open>The monitor\<close>

datatype point_event =
    NewSpawnPoint nat
  | ClearSpawnPoints
  | SelectionChanged "nat option"
  | SpawnPointUpdated nat
  | SpawnPointDeleted nat

type_synonym point_map = "(string \<times> nat) list"

record monitor =
  sm_zoneName :: string
  sm_heap :: "nat \<Rightarrow> spawn_point option"
  sm_next :: nat
  sm_spawns :: point_map
  sm_points :: point_map
  sm_persist :: bool
  sm_selected :: "nat option"
  sm_modified :: bool
  sm_events :: "point_event list"

type_synonym point_row = "u16 \<times> u16 \<times> u16 \<times> u64 \<times> u32 \<times> string"

record monitor_env =
  me_order :: "point_map \<Rightarrow> point_map"
  me_findWrite :: "string \<Rightarrow> string"
  me_findExisting :: "string \<Rightarrow> string"
  me_opens :: "string \<Rightarrow> bool"
  me_renames :: "string \<Rightarrow> string \<Rightarrow> bool"
  me_removes :: "string \<Rightarrow> bool"
  me_readable :: "string \<Rightarrow> bool"
  me_rows :: "string \<Rightarrow> point_row list"

type_synonym disk = "string \<Rightarrow> string option"

definition mkMonitor :: monitor where
  "mkMonitor = \<lparr>sm_zoneName = '''', sm_heap = Map.empty, sm_next = 0, sm_spawns = [], sm_points = [], sm_persist = True,
     sm_selected = None, sm_modified = False, sm_events = []\<rparr>"

definition sm_signal :: "point_event \<Rightarrow> monitor \<Rightarrow> monitor" where
  "sm_signal e m = m\<lparr>sm_events := sm_events m @ [e]\<rparr>"

definition point_at :: "nat \<Rightarrow> monitor \<Rightarrow> spawn_point res" where
  "point_at a m = (case sm_heap m a of Some p \<Rightarrow> Inr p | None \<Rightarrow> Inl UseAfterFree)"

definition set_point :: "nat \<Rightarrow> spawn_point \<Rightarrow> monitor \<Rightarrow> monitor" where
  "set_point a p m = m\<lparr>sm_heap := (sm_heap m)(a := Some p)\<rparr>"

definition free_point :: "nat \<Rightarrow> monitor \<Rightarrow> monitor res" where
  "free_point a m = rbind (point_at a m) (\<lambda>_. Inr (m\<lparr>sm_heap := (sm_heap m)(a := None)\<rparr>))"

definition new_point :: "spawn_point \<Rightarrow> monitor \<Rightarrow> nat \<times> monitor" where
  "new_point p m = (sm_next m, m\<lparr>sm_heap := (sm_heap m)(sm_next m := Some p), sm_next := sm_next m + 1\<rparr>)"

text \<open>\<open>setName\<close> with the null pointer does nothing.\<close>

definition sm_setName :: "nat option \<Rightarrow> string \<Rightarrow> monitor \<Rightarrow> monitor res" where
  "sm_setName sp name m = (case sp of
     None \<Rightarrow> Inr m
   | Some a \<Rightarrow> rbind (point_at a m) (\<lambda>p.
       Inr (sm_signal (SpawnPointUpdated a) ((set_point a (p\<lparr>pt_name := name\<rparr>) m)\<lparr>sm_modified := True\<rparr>))))"

definition sm_setSelected :: "nat option \<Rightarrow> monitor \<Rightarrow> monitor" where
  "sm_setSelected sp m =
     (if sm_selected m = sp then m else sm_signal (SelectionChanged sp) (m\<lparr>sm_selected := sp\<rparr>))"

fun free_all :: "point_map \<Rightarrow> monitor \<Rightarrow> monitor res" where
  "free_all [] m = Inr m"
| "free_all ((k, a) # t) m = rbind (free_point a m) (free_all t)"

definition sm_clear :: "monitor \<Rightarrow> monitor res" where
  "sm_clear m =
     (let m = sm_signal ClearSpawnPoints m in
      rbind (free_all (sm_spawns m) m) (\<lambda>m. let m = m\<lparr>sm_spawns := []\<rparr> in
      rbind (free_all (sm_points m) m) (\<lambda>m. Inr (m\<lparr>sm_points := [], sm_selected := None\<rparr>))))"

definition deleteSpawnPoint :: "nat \<Rightarrow> monitor \<Rightarrow> monitor res" where
  "deleteSpawnPoint a m =
     (let m = (if sm_selected m = Some a then sm_signal (SelectionChanged None) (m\<lparr>sm_selected := None\<rparr>) else m);
          m = sm_signal (SpawnPointDeleted a) m in
      rbind (point_at a m) (\<lambda>p. let key = pt_key (pt_pos p) in
      rbind (case map_of (sm_points m) key of
               Some taken \<Rightarrow> free_point taken (m\<lparr>sm_points := AList.delete key (sm_points m)\<rparr>)
             | None \<Rightarrow>
                 (let m' = m\<lparr>sm_spawns := AList.delete key (sm_spawns m)\<rparr> in
                  case map_of (sm_spawns m) key of Some taken \<Rightarrow> free_point taken m' | None \<Rightarrow> Inr m'))
        (\<lambda>m. Inr (m\<lparr>sm_modified := True\<rparr>))))"

definition restartSpawnPoint :: "u64 \<Rightarrow> nat \<Rightarrow> monitor \<Rightarrow> monitor res" where
  "restartSpawnPoint now a m =
     rbind (point_at a m) (\<lambda>p. Inr (sm_signal (SpawnPointUpdated a) (set_point a (pt_restart now p) m)))"

text \<open>The first point of a table, in the order of the iterator, that was last taken by the id.\<close>

fun last_taken :: "u16 \<Rightarrow> point_map \<Rightarrow> monitor \<Rightarrow> nat option res" where
  "last_taken i [] m = Inr None"
| "last_taken i ((k, a) # t) m =
     rbind (point_at a m) (\<lambda>p. if i = pt_lastID p then Inr (Some a) else last_taken i t m)"

definition sm_killSpawn :: "monitor_env \<Rightarrow> u64 \<Rightarrow> u16 \<Rightarrow> monitor \<Rightarrow> monitor res" where
  "sm_killSpawn E now i m =
     rbind (last_taken i (me_order E (sm_points m)) m) (\<lambda>r. case r of
       Some a \<Rightarrow> restartSpawnPoint now a m
     | None \<Rightarrow>
         rbind (last_taken i (me_order E (sm_spawns m)) m) (\<lambda>r. case r of
           Some a \<Rightarrow> rbind (point_at a m) (\<lambda>p. Inr (set_point a (pt_restart now p) m))
         | None \<Rightarrow> Inr m))"

definition ignored :: "spawn \<Rightarrow> bool" where
  "ignored s \<longleftrightarrow> it_NPC s \<noteq> SPAWN_NPC \<or> sp_petOwnerID s \<noteq> 0 \<or> sp_isMount s \<or> sp_isAura s \<or> sp_isMercenary s"

definition checkSpawnPoint :: "u64 \<Rightarrow> spawn \<Rightarrow> monitor \<Rightarrow> monitor res" where
  "checkSpawnPoint now s m =
     (if ignored s then Inr m
      else let key = pt_key (it_pos s) in case map_of (sm_points m) key of
        Some a \<Rightarrow>
          rbind (point_at a m) (\<lambda>p.
            Inr (sm_signal (SpawnPointUpdated a) (set_point a (pt_update now s p) (m\<lparr>sm_modified := True\<rparr>))))
      | None \<Rightarrow> (case map_of (sm_spawns m) key of
          Some a \<Rightarrow>
            rbind (point_at a m) (\<lambda>p.
              Inr ((sm_signal (NewSpawnPoint a) ((set_point a (pt_update now s p) m)
                \<lparr>sm_points := AList.update key a (sm_points m)\<rparr>))
                \<lparr>sm_modified := True, sm_spawns := AList.delete key (sm_spawns m)\<rparr>))
        | None \<Rightarrow>
            (case new_point (mkPoint now (it_id s) (it_pos s) '''' 0 1) m of (a, m) \<Rightarrow>
              Inr (m\<lparr>sm_spawns := AList.update key a (sm_spawns m)\<rparr>))))"

text \<open>The slot takes every item; only spawns count.\<close>

definition sm_newSpawn :: "u64 \<Rightarrow> spawn option \<Rightarrow> monitor \<Rightarrow> monitor res" where
  "sm_newSpawn now item m = (case item of
     Some s \<Rightarrow> if it_type s = TSpawn then checkSpawnPoint now s m else Inr m
   | None \<Rightarrow> Inr m)"

section \<open>Files\<close>

definition row_text :: "spawn_point \<Rightarrow> string" where
  "row_text p = (case pt_pos p of (x, y, z) \<Rightarrow>
     dec_int (sint x) @ '' '' @ dec_int (sint y) @ '' '' @ dec_int (sint z) @ '' '' @
     dec (unat (pt_diffTime p)) @ '' '' @ dec_int (sint (pt_count p)) @ '' '' @ pt_name p @ [CHR 0x0A])"

fun save_text :: "point_map \<Rightarrow> monitor \<Rightarrow> string res" where
  "save_text [] m = Inr ''''"
| "save_text ((k, a) # t) m =
     rbind (point_at a m) (\<lambda>p. rbind (save_text t m) (\<lambda>s. Inr (row_text p @ s)))"

text \<open>\<open>QDir::rename\<close> moves a file and refuses to replace one.\<close>

definition rename :: "monitor_env \<Rightarrow> string \<Rightarrow> string \<Rightarrow> disk \<Rightarrow> bool \<times> disk" where
  "rename E old new d =
     (if d old \<noteq> None \<and> d new = None \<and> me_renames E old new
      then (True, (d(new := d old))(old := None)) else (False, d))"

definition saveSpawnPoints :: "monitor_env \<Rightarrow> disk \<times> monitor \<Rightarrow> (disk \<times> monitor) res" where
  "saveSpawnPoints E = (\<lambda>(d, m).
     if \<not> sm_persist m then Inr (d, m)
     else if \<not> sm_modified m then Inr (d, m)
     else if sm_zoneName m = '''' then Inr (d, m)
     else let fileName = me_findWrite E (sm_zoneName m @ ''.sp''); newName = fileName @ ''.new'' in
       if \<not> me_opens E newName then Inr (d, m)
       else rbind (save_text (me_order E (sm_points m)) m) (\<lambda>text.
         let d = d(newName \<mapsto> text); backupName = fileName @ ''.bak'';
             d = (if d fileName \<noteq> None then
                    (let d = (if me_removes E backupName then d(backupName := None) else d) in
                     case rename E fileName backupName d of (moved, d) \<Rightarrow>
                       if moved then snd (rename E newName fileName d) else d)
                  else snd (rename E newName fileName d))
         in Inr (d, m\<lparr>sm_modified := False\<rparr>)))"

text \<open>One line of the file; the rest of the line is the name.\<close>

definition load_point_row :: "u64 \<Rightarrow> point_row \<Rightarrow> monitor \<Rightarrow> monitor res" where
  "load_point_row now row m = (case row of (x, y, z, diffTime, cnt, line) \<Rightarrow>
     let p = mkPoint now 0 (x, y, z) (trimmed line) diffTime cnt;
         p = (if diffTime > 0 then pt_restart now p else p) in
     case new_point p m of (a, m) \<Rightarrow>
       let key = pt_key (pt_pos p) in
       if map_of (sm_points m) key = None
       then Inr (sm_signal (NewSpawnPoint a) (m\<lparr>sm_points := AList.update key a (sm_points m)\<rparr>))
       else free_point a m)"

fun load_point_rows :: "u64 \<Rightarrow> point_row list \<Rightarrow> monitor \<Rightarrow> monitor res" where
  "load_point_rows now [] m = Inr m"
| "load_point_rows now (r # rs) m = rbind (load_point_row now r m) (load_point_rows now rs)"

definition loadSpawnPoints :: "monitor_env \<Rightarrow> u64 \<Rightarrow> disk \<Rightarrow> monitor \<Rightarrow> monitor res" where
  "loadSpawnPoints E now d m =
     (if \<not> sm_persist m then Inr m
      else let fileName = me_findExisting E (sm_zoneName m @ ''.sp'') in
        case d fileName of
          None \<Rightarrow> Inr m
        | Some text \<Rightarrow>
            if \<not> me_readable E fileName then Inr m
            else rbind (load_point_rows now (me_rows E text) m) (\<lambda>m. Inr (m\<lparr>sm_modified := False\<rparr>)))"

definition sm_zoneChanged :: "monitor_env \<Rightarrow> u64 \<Rightarrow> string \<Rightarrow> disk \<times> monitor \<Rightarrow> (disk \<times> monitor) res" where
  "sm_zoneChanged E now newZoneName = (\<lambda>(d, m).
     if sm_zoneName m \<noteq> newZoneName then
       rbind (saveSpawnPoints E (d, m)) (\<lambda>(d, m).
       rbind (sm_clear m) (\<lambda>m.
       rbind (loadSpawnPoints E now d (m\<lparr>sm_zoneName := newZoneName\<rparr>)) (\<lambda>m. Inr (d, m))))
     else Inr (d, m))"

definition sm_zoneEnd :: "monitor_env \<Rightarrow> u64 \<Rightarrow> string \<Rightarrow> disk \<times> monitor \<Rightarrow> (disk \<times> monitor) res" where
  "sm_zoneEnd E now newZoneName = (\<lambda>(d, m).
     if sm_zoneName m \<noteq> lower newZoneName then
       rbind (saveSpawnPoints E (d, m)) (\<lambda>(d, m).
       rbind (sm_clear (m\<lparr>sm_zoneName := lower newZoneName\<rparr>)) (\<lambda>m.
       rbind (loadSpawnPoints E now d m) (\<lambda>m. Inr (d, m))))
     else Inr (d, m))"

text \<open>The request of a client to name a point (\<open>src/sessionadapter.cpp\<close>).\<close>

definition onRenameSpawnPoint :: "monitor_env \<Rightarrow> string \<Rightarrow> string \<Rightarrow> disk \<times> monitor \<Rightarrow> (disk \<times> monitor) res" where
  "onRenameSpawnPoint E key newName = (\<lambda>(d, m).
     case map_of (sm_points m) key of
       Some a \<Rightarrow> rbind (sm_setName (Some a) newName m) (\<lambda>m. saveSpawnPoints E (d, m))
     | None \<Rightarrow> Inr (d, m))"

end
