(* ===== verification/SpawnPoints.thy ===== *)
theory SpawnPoints
  imports SpawnMonitor "HOL-Library.Multiset"
begin

text \<open>
  What the spawn points promise: distinct places have distinct keys, no handler follows a pointer to a point that is
  gone, a respawn time is measured from a death to the next appearance, and points survive their file.
\<close>

section \<open>Keys\<close>

lemma bar_no_digit [simp]: "\<not> is_decimal CHR ''|''"
  by (simp add: is_decimal_def)

lemma dec_int_append_inj:
  "dec_int i @ CHR ''|'' # s = dec_int j @ CHR ''|'' # t \<longleftrightarrow> i = j \<and> s = t"
  using dec_append_inj [of "CHR ''|''" "CHR ''|''" "nat (- i)" s "nat (- j)" t]
    dec_append_inj [of "CHR ''|''" "CHR ''|''" "nat i" s "nat j" t]
    dec_no_minus [of "nat i"] dec_no_minus [of "nat j"]
  by (cases "dec (nat i)"; cases "dec (nat j)") (auto simp: dec_int_def dest: sym split: if_splits)

lemma pt_key_inj [simp]: "pt_key l = pt_key l' \<longleftrightarrow> l = l'"
  by (cases l; cases l') (auto simp: pt_key_def dec_int_append_inj signed_word_eqI)

section \<open>The invariant\<close>

type_synonym point_heap = "nat \<Rightarrow> spawn_point option"

definition table_ok :: "point_heap \<Rightarrow> point_map \<Rightarrow> bool" where
  "table_ok h t \<longleftrightarrow> qhash_inv t \<and> (\<forall>k a. map_of t k = Some a \<longrightarrow> (\<exists>p. h a = Some p \<and> pt_key (pt_pos p) = k))"

definition parts_ok :: "point_heap \<Rightarrow> nat \<Rightarrow> point_map \<Rightarrow> point_map \<Rightarrow> nat option \<Rightarrow> bool" where
  "parts_ok h n pts sps sel \<longleftrightarrow> table_ok h pts \<and> table_ok h sps \<and>
     (\<forall>k. map_of pts k = None \<or> map_of sps k = None) \<and> (\<forall>a p. h a = Some p \<longrightarrow> a < n) \<and>
     (\<forall>a. sel = Some a \<longrightarrow> (\<exists>k. map_of pts k = Some a \<or> map_of sps k = Some a))"

definition monitor_ok :: "monitor \<Rightarrow> bool" where
  "monitor_ok m \<longleftrightarrow> parts_ok (sm_heap m) (sm_next m) (sm_points m) (sm_spawns m) (sm_selected m)"

definition order_ok :: "monitor_env \<Rightarrow> bool" where
  "order_ok E \<longleftrightarrow> (\<forall>t. mset (me_order E t) = mset t)"

lemma order_set: "order_ok E \<Longrightarrow> set (me_order E t) = set t"
  by (metis order_ok_def mset_eq_setD)

lemma table_okD:
  "table_ok h t \<Longrightarrow> map_of t k = Some a \<Longrightarrow> \<exists>p. h a = Some p \<and> pt_key (pt_pos p) = k"
  by (simp add: table_ok_def)

lemma table_inj: "table_ok h t \<Longrightarrow> table_ok h t' \<Longrightarrow> map_of t k = Some a \<Longrightarrow> map_of t' k' = Some a \<Longrightarrow> k = k'"
  by (metis table_okD option.inject)

lemma table_nil [simp]: "table_ok h []"
  by (simp add: table_ok_def qhash_inv_def)

lemma table_put: "table_ok h t \<Longrightarrow> h a = Some p \<Longrightarrow> pt_key (pt_pos p) = k \<Longrightarrow> table_ok h (AList.update k a t)"
  by (auto simp: table_ok_def update_conv' qhash.inv_put)

lemma table_del: "table_ok h t \<Longrightarrow> table_ok h (AList.delete k t)"
  by (simp add: table_ok_def delete_conv' qhash.inv_del)

lemma table_set: "h a = Some p \<Longrightarrow> pt_pos p' = pt_pos p \<Longrightarrow> table_ok h t \<Longrightarrow> table_ok (h(a \<mapsto> p')) t"
  unfolding table_ok_def by (metis fun_upd_apply option.inject)

lemma table_new: "h a = None \<Longrightarrow> table_ok h t \<Longrightarrow> table_ok (h(a \<mapsto> p)) t"
  unfolding table_ok_def by (metis fun_upd_apply option.distinct(1))

lemma table_free: "table_ok h t \<Longrightarrow> (\<And>k. map_of t k \<noteq> Some a) \<Longrightarrow> table_ok (h(a := None)) t"
  unfolding table_ok_def by (metis fun_upd_apply)

lemma table_mem: "table_ok h t \<Longrightarrow> (k, a) \<in> set t \<longleftrightarrow> map_of t k = Some a"
  by (auto simp: qhash_inv_def table_ok_def)

lemma points_live: "table_ok h t \<Longrightarrow> order_ok E \<Longrightarrow> (k, a) \<in> set (me_order E t) \<Longrightarrow> \<exists>p. h a = Some p"
  by (metis order_set table_mem table_okD)

lemma monitor_okD:
  assumes "monitor_ok m"
  shows "table_ok (sm_heap m) (sm_points m)" "table_ok (sm_heap m) (sm_spawns m)"
    "map_of (sm_points m) k = Some a \<Longrightarrow> \<exists>p. sm_heap m a = Some p \<and> pt_key (pt_pos p) = k"
    "map_of (sm_spawns m) k = Some a \<Longrightarrow> \<exists>p. sm_heap m a = Some p \<and> pt_key (pt_pos p) = k"
    "map_of (sm_points m) k = None \<or> map_of (sm_spawns m) k = None"
    "sm_heap m a = Some p \<Longrightarrow> a < sm_next m"
    "sm_selected m = Some a \<Longrightarrow> \<exists>k. map_of (sm_points m) k = Some a \<or> map_of (sm_spawns m) k = Some a"
  using assms by (auto simp: monitor_ok_def parts_ok_def dest: table_okD)

lemma fresh_address: "monitor_ok m \<Longrightarrow> sm_heap m (sm_next m) = None"
  using monitor_okD(6) [of m "sm_next m"] by (cases "sm_heap m (sm_next m)") auto

lemma sm_signal_simps [simp]:
  "sm_heap (sm_signal e m) = sm_heap m" "sm_points (sm_signal e m) = sm_points m"
  "sm_spawns (sm_signal e m) = sm_spawns m" "sm_next (sm_signal e m) = sm_next m"
  "sm_selected (sm_signal e m) = sm_selected m" "sm_zoneName (sm_signal e m) = sm_zoneName m"
  "sm_persist (sm_signal e m) = sm_persist m" "sm_modified (sm_signal e m) = sm_modified m"
  by (simp_all add: sm_signal_def)

lemma monitor_ok_simps [simp]:
  "monitor_ok (sm_signal e m) = monitor_ok m" "monitor_ok (m\<lparr>sm_modified := b\<rparr>) = monitor_ok m"
  "monitor_ok (m\<lparr>sm_zoneName := z\<rparr>) = monitor_ok m"
  by (simp_all add: monitor_ok_def)

text \<open>A point that is changed in place keeps its position.\<close>

lemma parts_set:
  "h a = Some p \<Longrightarrow> pt_pos p' = pt_pos p \<Longrightarrow> parts_ok h n pts sps sel \<Longrightarrow> parts_ok (h(a \<mapsto> p')) n pts sps sel"
  by (auto simp: parts_ok_def table_set)

lemma monitor_ok_set:
  "monitor_ok m \<Longrightarrow> sm_heap m a = Some p \<Longrightarrow> pt_pos p' = pt_pos p \<Longrightarrow> monitor_ok (set_point a p' m)"
  by (simp add: monitor_ok_def set_point_def parts_set)

lemma parts_promote:
  assumes "parts_ok h n pts sps sel" "map_of sps k = Some a" "h a = Some p" "pt_key (pt_pos p) = k"
  shows "parts_ok h n (AList.update k a pts) (AList.delete k sps) sel"
proof -
  have "\<exists>j. map_of (AList.update k a pts) j = Some b \<or> map_of (AList.delete k sps) j = Some b" if b: "sel = Some b" for b
  proof -
    obtain j where j: "map_of pts j = Some b \<or> map_of sps j = Some b" using assms(1) b unfolding parts_ok_def by blast
    moreover have "map_of pts k = None" using assms(1,2) by (auto simp: parts_ok_def)
    ultimately show ?thesis using assms(2) by (intro exI [of _ j]) (auto simp: update_conv' delete_conv')
  qed
  then show ?thesis using assms
    by (auto simp: parts_ok_def update_conv' delete_conv' table_put table_del)
qed

lemma parts_candidate:
  assumes "parts_ok h n pts sps sel" "map_of pts k = None" "map_of sps k = None" "pt_key (pt_pos p) = k"
  shows "parts_ok (h(n \<mapsto> p)) (Suc n) pts (AList.update k n sps) sel"
proof -
  have "h n = None" using assms(1) by (cases "h n") (auto simp: parts_ok_def)
  moreover have "\<exists>j. map_of pts j = Some b \<or> map_of (AList.update k n sps) j = Some b" if "sel = Some b" for b
    using assms that unfolding parts_ok_def update_conv' by (metis fun_upd_other option.distinct(1))
  ultimately show ?thesis using assms
    by (auto simp: parts_ok_def update_conv' table_new table_put less_Suc_eq)
qed

lemma parts_point:
  assumes "parts_ok h n pts [] sel" "map_of pts k = None" "pt_key (pt_pos p) = k"
  shows "parts_ok (h(n \<mapsto> p)) (Suc n) (AList.update k n pts) [] sel"
proof -
  have "h n = None" using assms(1) by (cases "h n") (auto simp: parts_ok_def)
  moreover have "\<exists>j. map_of (AList.update k n pts) j = Some b" if "sel = Some b" for b
    using assms that unfolding parts_ok_def update_conv' by (metis fun_upd_other map_of.simps(1) option.distinct(1))
  ultimately show ?thesis using assms
    by (auto simp: parts_ok_def update_conv' table_new table_put less_Suc_eq)
qed

text \<open>An operation that returns and keeps the invariant.\<close>

definition well :: "monitor res \<Rightarrow> bool" where
  "well r \<longleftrightarrow> (\<exists>m. r = Inr m \<and> monitor_ok m)"

lemma well_Inr [simp]: "well (Inr m) = monitor_ok m"
  by (simp add: well_def)

lemma wellE: "well r \<Longrightarrow> (\<And>m. r = Inr m \<Longrightarrow> monitor_ok m \<Longrightarrow> P) \<Longrightarrow> P"
  by (auto simp: well_def)

lemma point_at_Some [simp]: "sm_heap m a = Some p \<Longrightarrow> point_at a m = Inr p"
  by (simp add: point_at_def)

lemma pt_pos_kept [simp]:
  "pt_pos (pt_update now s p) = pt_pos p" "pt_pos (pt_restart now p) = pt_pos p" "pt_pos (mkPoint now i l n d c) = l"
  by (simp_all add: pt_update_def pt_restart_def mkPoint_def Let_def)

lemma last_taken_returns:
  assumes "\<And>k a. (k, a) \<in> set t \<Longrightarrow> \<exists>p. sm_heap m a = Some p"
  shows "\<exists>r. last_taken i t m = Inr r \<and>
    (\<forall>a. r = Some a \<longrightarrow> (\<exists>k p. (k, a) \<in> set t \<and> sm_heap m a = Some p \<and> pt_lastID p = i)) \<and>
    (r = None \<longrightarrow> (\<forall>(k, a) \<in> set t. \<forall>p. sm_heap m a = Some p \<longrightarrow> pt_lastID p \<noteq> i))"
  using assms
proof (induction t)
  case (Cons ka t)
  obtain k a where ka: "ka = (k, a)" by (cases ka)
  obtain p where p: "sm_heap m a = Some p" using Cons.prems [of k a] ka by auto
  obtain r where "last_taken i t m = Inr r"
    "\<forall>a. r = Some a \<longrightarrow> (\<exists>k p. (k, a) \<in> set t \<and> sm_heap m a = Some p \<and> pt_lastID p = i)"
    "r = None \<longrightarrow> (\<forall>(k, a) \<in> set t. \<forall>p. sm_heap m a = Some p \<longrightarrow> pt_lastID p \<noteq> i)"
    using Cons.IH Cons.prems by fastforce
  then show ?case using p ka by (cases "i = pt_lastID p") auto
qed simp

lemma kill_well:
  assumes "monitor_ok m" "order_ok E"
  shows "well (sm_killSpawn E now i m)"
proof -
  have taken: "\<exists>r. last_taken i (me_order E t) m = Inr r \<and> (\<forall>a. r = Some a \<longrightarrow> (\<exists>p. sm_heap m a = Some p))"
    if "table_ok (sm_heap m) t" for t
    using last_taken_returns [of "me_order E t" m i] points_live [OF that assms(2)] by blast
  obtain r where r: "last_taken i (me_order E (sm_points m)) m = Inr r" "\<forall>a. r = Some a \<longrightarrow> (\<exists>p. sm_heap m a = Some p)"
    using taken monitor_okD(1) [OF assms(1)] by blast
  obtain r' where r': "last_taken i (me_order E (sm_spawns m)) m = Inr r'" "\<forall>a. r' = Some a \<longrightarrow> (\<exists>p. sm_heap m a = Some p)"
    using taken monitor_okD(2) [OF assms(1)] by blast
  have "monitor_ok (set_point a (pt_restart now p) m)" if "sm_heap m a = Some p" for a p
    using monitor_ok_set [OF assms(1) that] by simp
  then show ?thesis using r r' assms(1)
    by (cases r; cases r') (auto simp: sm_killSpawn_def restartSpawnPoint_def)
qed

lemma check_well:
  assumes ok: "monitor_ok m"
  shows "well (checkSpawnPoint now s m)"
proof -
  let ?k = "pt_key (it_pos s)"
  consider "ignored s" | a where "\<not> ignored s" "map_of (sm_points m) ?k = Some a"
    | a where "\<not> ignored s" "map_of (sm_points m) ?k = None" "map_of (sm_spawns m) ?k = Some a"
    | "\<not> ignored s" "map_of (sm_points m) ?k = None" "map_of (sm_spawns m) ?k = None"
    by fastforce
  then show ?thesis
  proof cases
    case 2
    then obtain p where p: "sm_heap m a = Some p" using monitor_okD(3) [OF ok] by blast
    have "monitor_ok (set_point a (pt_update now s p) (m\<lparr>sm_modified := True\<rparr>))"
      using p ok by (intro monitor_ok_set) simp_all
    then show ?thesis using 2 p by (simp add: checkSpawnPoint_def)
  next
    case 3
    then obtain p where p: "sm_heap m a = Some p" "pt_key (pt_pos p) = ?k" using monitor_okD(4) [OF ok] by blast
    have "parts_ok ((sm_heap m)(a \<mapsto> pt_update now s p)) (sm_next m) (AList.update ?k a (sm_points m))
        (AList.delete ?k (sm_spawns m)) (sm_selected m)"
      using 3 p ok parts_promote [OF parts_set [where h = "sm_heap m" and a = a and p' = "pt_update now s p", OF p(1)] 3(3)] by (simp add: monitor_ok_def)
    then show ?thesis using 3 p by (simp add: checkSpawnPoint_def monitor_ok_def set_point_def Let_def)
  next
    case 4
    then show ?thesis
      using ok parts_candidate [OF _ 4(2,3)] by (simp add: checkSpawnPoint_def new_point_def monitor_ok_def)
  qed (simp add: checkSpawnPoint_def ok)
qed

lemma newSpawn_well: "monitor_ok m \<Longrightarrow> well (sm_newSpawn now item m)"
  by (cases item) (simp_all add: sm_newSpawn_def check_well)

text \<open>Deleting a table frees exactly its points.\<close>

lemma free_all_frees:
  assumes "distinct (map snd t)" "\<And>k a. (k, a) \<in> set t \<Longrightarrow> \<exists>p. sm_heap m a = Some p"
  shows "free_all t m = Inr (m\<lparr>sm_heap := (\<lambda>a. if a \<in> snd ` set t then None else sm_heap m a)\<rparr>)"
  using assms
proof (induction t arbitrary: m)
  case (Cons ka t)
  obtain k a where ka: "ka = (k, a)" by (cases ka)
  obtain p where p: "sm_heap m a = Some p" using Cons.prems(2) [of k a] ka by auto
  let ?m = "m\<lparr>sm_heap := (sm_heap m)(a := None)\<rparr>"
  have "\<exists>q. sm_heap ?m b = Some q" if b: "(j, b) \<in> set t" for j b
    using Cons.prems(1) Cons.prems(2) [of j b] b ka by (force simp: image_iff)
  then have "free_all t ?m = Inr (?m\<lparr>sm_heap := (\<lambda>b. if b \<in> snd ` set t then None else sm_heap ?m b)\<rparr>)"
    using Cons.IH [of ?m] Cons.prems(1) ka by auto
  moreover have "(\<lambda>b. if b \<in> snd ` set t then None else sm_heap ?m b) =
      (\<lambda>b. if b \<in> snd ` set (ka # t) then None else sm_heap m b)" using ka by auto
  ultimately show ?case using p ka by (simp add: free_point_def)
qed simp

lemma table_snd_distinct:
  assumes t: "table_ok h t" shows "distinct (map snd t)"
proof -
  have d: "distinct (map fst t)" using t by (simp add: table_ok_def qhash_inv_def)
  have "inj_on snd (set t)"
  proof (rule inj_onI)
    fix x y assume xy: "x \<in> set t" "y \<in> set t" "snd x = snd y"
    then have "map_of t (fst x) = Some (snd x)" "map_of t (fst y) = Some (snd x)" using d by (metis map_of_eq_Some_iff prod.collapse)+
    then have "fst x = fst y" using table_inj [OF t t] by blast
    then show "x = y" using xy by (simp add: prod_eq_iff)
  qed
  then show ?thesis using d by (simp add: distinct_map)
qed

lemma clear_well:
  assumes ok: "monitor_ok m"
  shows "\<exists>m'. sm_clear m = Inr m' \<and> monitor_ok m' \<and> sm_points m' = [] \<and> sm_spawns m' = [] \<and> sm_selected m' = None
    \<and> sm_zoneName m' = sm_zoneName m \<and> sm_persist m' = sm_persist m \<and> sm_next m' = sm_next m"
proof -
  let ?m = "sm_signal ClearSpawnPoints m"
  note ts = monitor_okD(1,2) [OF ok]
  have mem: "map_of (sm_points m) k = Some a" if "(k, a) \<in> set (sm_points m)" for k a using that ts(1) by (simp add: table_mem)
  have mem': "map_of (sm_spawns m) k = Some a" if "(k, a) \<in> set (sm_spawns m)" for k a using that ts(2) by (simp add: table_mem)
  have live: "\<exists>p. sm_heap m a = Some p" if "(k, a) \<in> set (sm_spawns m)" for k a using monitor_okD(4) [OF ok mem' [OF that]] by blast
  define h where "h = (\<lambda>a. if a \<in> snd ` set (sm_spawns m) then None else sm_heap m a)"
  have h: "free_all (sm_spawns m) ?m = Inr (?m\<lparr>sm_heap := h\<rparr>)"
    using free_all_frees [of "sm_spawns m" ?m] table_snd_distinct [OF ts(2)] live unfolding h_def sm_signal_simps by blast
  let ?m1 = "?m\<lparr>sm_heap := h, sm_spawns := []\<rparr>"
  have apart: "a \<notin> snd ` set (sm_spawns m)" if ka: "(k, a) \<in> set (sm_points m)" for k a
  proof
    assume "a \<in> snd ` set (sm_spawns m)"
    then obtain j where "(j, a) \<in> set (sm_spawns m)" by auto
    then have j: "map_of (sm_spawns m) j = Some a" by (rule mem')
    then have "j = k" using table_inj [OF ts(2,1)] mem [OF ka] by blast
    then show False using j mem [OF ka] monitor_okD(5) [OF ok, of k] by auto
  qed
  define h' where "h' = (\<lambda>a. if a \<in> snd ` set (sm_points m) then None else sm_heap ?m1 a)"
  have "\<exists>p. sm_heap ?m1 a = Some p" if "(k, a) \<in> set (sm_points m)" for k a
    using apart [OF that] monitor_okD(3) [OF ok mem [OF that]] by (auto simp: h_def)
  then have h': "free_all (sm_points m) ?m1 = Inr (?m1\<lparr>sm_heap := h'\<rparr>)"
    using free_all_frees [of "sm_points m" ?m1] table_snd_distinct [OF ts(1)] unfolding h'_def by blast
  have "a < sm_next m" if "h' a = Some p" for a p
    using that monitor_okD(6) [OF ok] by (auto simp: h_def h'_def split: if_splits)
  then have "monitor_ok (?m1\<lparr>sm_heap := h', sm_points := [], sm_selected := None\<rparr>)"
    by (simp add: monitor_ok_def parts_ok_def)
  then show ?thesis using h h' by (simp add: sm_clear_def Let_def)
qed

lemma parts_free:
  assumes "parts_ok h n pts sps sel" "sel \<noteq> Some a" "map_of pts k = Some a" "\<exists>p. h a = Some p \<and> pt_key (pt_pos p) = k"
  shows "parts_ok (h(a := None)) n (AList.delete k pts) sps sel"
proof -
  have only: "j = k" if "map_of pts j = Some a \<or> map_of sps j = Some a" for j
    using assms(1,4) that by (auto simp: parts_ok_def dest: table_okD)
  have "\<exists>j. map_of (AList.delete k pts) j = Some b \<or> map_of sps j = Some b" if b: "sel = Some b" for b
  proof -
    obtain j where "map_of pts j = Some b \<or> map_of sps j = Some b" using assms(1) b unfolding parts_ok_def by blast
    then show ?thesis using assms(2,3) b by (intro exI [of _ j]) (auto simp: delete_conv')
  qed
  moreover have "table_ok (h(a := None)) (AList.delete k pts)" "table_ok (h(a := None)) sps"
  proof -
    have "map_of (AList.delete k pts) j \<noteq> Some a" "map_of sps j \<noteq> Some a" for j
      using only [of j] assms(1,3) by (auto simp: delete_conv' parts_ok_def dest: spec [of _ k])
    then show "table_ok (h(a := None)) (AList.delete k pts)" "table_ok (h(a := None)) sps"
      using assms(1) by (simp_all add: parts_ok_def table_free table_del)
  qed
  ultimately show ?thesis using assms(1)
    by (auto simp: parts_ok_def delete_conv' split: if_splits)
qed

lemma parts_swap: "parts_ok h n pts sps sel = parts_ok h n sps pts sel"
  unfolding parts_ok_def by (auto simp: disj_commute)

lemma delete_well:
  assumes ok: "monitor_ok m" and a: "map_of (sm_points m) k = Some a \<or> map_of (sm_spawns m) k = Some a"
  shows "well (deleteSpawnPoint a m)"
proof -
  obtain p where p: "sm_heap m a = Some p" "pt_key (pt_pos p) = k" using a monitor_okD(3,4) [OF ok] by blast
  define sel where "sel = (if sm_selected m = Some a then None else sm_selected m)"
  have sel: "parts_ok (sm_heap m) (sm_next m) (sm_points m) (sm_spawns m) sel" "sel \<noteq> Some a"
    using ok by (auto simp: sel_def monitor_ok_def parts_ok_def)
  show ?thesis
  proof (cases "map_of (sm_points m) k")
    case (Some b)
    then have "b = a" using a monitor_okD(5) [OF ok, of k] by auto
    then show ?thesis using Some p parts_free [OF sel Some [unfolded \<open>b = a\<close>]]
      by (simp add: deleteSpawnPoint_def Let_def free_point_def monitor_ok_def sel_def split: if_splits)
  next
    case None
    then have s: "map_of (sm_spawns m) k = Some a" using a by simp
    have "parts_ok ((sm_heap m)(a := None)) (sm_next m) (sm_points m) (AList.delete k (sm_spawns m)) sel"
      using parts_free [OF sel(1) [unfolded parts_swap [of _ _ "sm_points m"]] sel(2) s] p parts_swap by blast
    then show ?thesis using None s p
      by (simp add: deleteSpawnPoint_def Let_def free_point_def monitor_ok_def sel_def split: if_splits)
  qed
qed

lemma setName_well:
  assumes "monitor_ok m" "map_of (sm_points m) k = Some a"
  shows "well (sm_setName (Some a) name m)"
proof -
  obtain p where "sm_heap m a = Some p" using monitor_okD(3) [OF assms] by blast
  then show ?thesis using monitor_ok_set [OF assms(1), of a p "p\<lparr>pt_name := name\<rparr>"] by (simp add: sm_setName_def)
qed

lemma setSelected_ok: "monitor_ok m \<Longrightarrow> monitor_ok (sm_setSelected (map_of (sm_points m) k) m)"
  by (auto simp: sm_setSelected_def monitor_ok_def parts_ok_def)

section \<open>Files\<close>

lemma save_text_returns:
  assumes "\<And>k a. (k, a) \<in> set t \<Longrightarrow> \<exists>p. sm_heap m a = Some p"
  shows "save_text t m = Inr (concat (map (\<lambda>(k, a). row_text (the (sm_heap m a))) t))"
  using assms
proof (induction t)
  case (Cons ka t)
  obtain k a where ka: "ka = (k, a)" by (cases ka)
  obtain p where "sm_heap m a = Some p" using Cons.prems [of k a] ka by auto
  moreover have "save_text t m = Inr (concat (map (\<lambda>(k, a). row_text (the (sm_heap m a))) t))"
    using Cons by (meson list.set_intros(2))
  ultimately show ?case using ka by simp
qed simp

lemma save_returns:
  assumes "monitor_ok m" "order_ok E"
  shows "\<exists>d' b. saveSpawnPoints E (d, m) = Inr (d', m\<lparr>sm_modified := b\<rparr>)"
proof -
  have "save_text (me_order E (sm_points m)) m = Inr (concat (map (\<lambda>(k, a). row_text (the (sm_heap m a))) (me_order E (sm_points m))))"
    using points_live [OF monitor_okD(1) [OF assms(1)] assms(2)] by (rule save_text_returns)
  then have "\<exists>d' m'. saveSpawnPoints E (d, m) = Inr (d', m') \<and> (m' = m \<or> m' = m\<lparr>sm_modified := False\<rparr>)"
    by (simp add: saveSpawnPoints_def Let_def)
  then show ?thesis by (metis monitor.surjective monitor.update_convs(8))
qed

definition loaded_point :: "u64 \<Rightarrow> point_row \<Rightarrow> spawn_point" where
  "loaded_point now row = (case row of (x, y, z, diffTime, n, line) \<Rightarrow>
     let p = mkPoint now 0 (x, y, z) (trimmed line) diffTime n in if diffTime > 0 then pt_restart now p else p)"

definition row_key :: "point_row \<Rightarrow> string" where
  "row_key row = (case row of (x, y, z, _) \<Rightarrow> pt_key (x, y, z))"

lemma loaded_point_key [simp]: "pt_key (pt_pos (loaded_point now row)) = row_key row"
  by (cases row) (simp add: loaded_point_def row_key_def Let_def)

lemma load_point_row_cases:
  "load_point_row now row m = Inr
     (if map_of (sm_points m) (row_key row) = None
      then sm_signal (NewSpawnPoint (sm_next m)) (m\<lparr>sm_heap := (sm_heap m)(sm_next m \<mapsto> loaded_point now row),
        sm_next := sm_next m + 1, sm_points := AList.update (row_key row) (sm_next m) (sm_points m)\<rparr>)
      else m\<lparr>sm_heap := (sm_heap m)(sm_next m := None), sm_next := sm_next m + 1\<rparr>)"
proof -
  obtain x y z t c l where r: "row = (x, y, z, t, c, l)" by (cases row)
  show ?thesis
    by (cases "map_of (sm_points m) (row_key row)")
      (simp_all add: load_point_row_def r loaded_point_def row_key_def new_point_def free_point_def point_at_def Let_def)
qed

lemma load_point_row_ok:
  assumes "monitor_ok m" "sm_spawns m = []" "load_point_row now row m = Inr m'"
  shows "monitor_ok m' \<and> sm_spawns m' = []"
proof (cases "map_of (sm_points m) (row_key row) = None")
  case True
  then show ?thesis using assms parts_point [OF _ True loaded_point_key [of now]]
    by (auto simp: load_point_row_cases monitor_ok_def)
next
  case False
  have "parts_ok ((sm_heap m)(sm_next m := None)) (Suc (sm_next m)) (sm_points m) [] (sm_selected m)"
    using assms(1,2) fresh_address [OF assms(1)]
    by (auto simp: monitor_ok_def parts_ok_def fun_upd_idem less_Suc_eq)
  then show ?thesis using False assms by (auto simp: load_point_row_cases monitor_ok_def)
qed

lemma load_point_rows_well:
  "monitor_ok m \<Longrightarrow> sm_spawns m = [] \<Longrightarrow> \<exists>m'. load_point_rows now rs m = Inr m' \<and> monitor_ok m' \<and> sm_spawns m' = []"
proof (induction rs arbitrary: m)
  case (Cons r rs)
  obtain m1 where "load_point_row now r m = Inr m1" by (simp add: load_point_row_cases)
  then show ?case using Cons.IH [of m1] load_point_row_ok [OF Cons.prems] by simp
qed simp

lemma load_well: "monitor_ok m \<Longrightarrow> sm_spawns m = [] \<Longrightarrow> well (loadSpawnPoints E now d m)"
proof -
  assume ok: "monitor_ok m" "sm_spawns m = []"
  have "well (rbind (load_point_rows now rs m) (\<lambda>m. Inr (m\<lparr>sm_modified := False\<rparr>)))" for rs
    using load_point_rows_well [OF ok, of now rs] by auto
  then show ?thesis using ok(1) by (simp add: loadSpawnPoints_def Let_def split: option.split)
qed

section \<open>Runs\<close>

text \<open>What reaches the monitor: spawns, deaths and zones from the shell, requests of clients, and its public slots.\<close>

datatype point_op =
    PSpawn u64 "spawn option"
  | PKill u64 u16
  | PZoneChanged u64 string
  | PZoneEnd u64 string
  | PRename string string
  | PSelect string
  | PDelete string

fun point_step :: "monitor_env \<Rightarrow> point_op \<Rightarrow> disk \<times> monitor \<Rightarrow> (disk \<times> monitor) res" where
  "point_step E (PSpawn now item) (d, m) = rbind (sm_newSpawn now item m) (\<lambda>m. Inr (d, m))"
| "point_step E (PKill now i) (d, m) = rbind (sm_killSpawn E now i m) (\<lambda>m. Inr (d, m))"
| "point_step E (PZoneChanged now z) (d, m) = sm_zoneChanged E now z (d, m)"
| "point_step E (PZoneEnd now z) (d, m) = sm_zoneEnd E now z (d, m)"
| "point_step E (PRename key name) (d, m) = onRenameSpawnPoint E key name (d, m)"
| "point_step E (PSelect key) (d, m) = Inr (d, sm_setSelected (map_of (sm_points m) key) m)"
| "point_step E (PDelete key) (d, m) = (case map_of (sm_points m) key of
     None \<Rightarrow> Inr (d, m)
   | Some a \<Rightarrow> rbind (deleteSpawnPoint a m) (\<lambda>m. Inr (d, m)))"

lemma zone_change_well:
  assumes "monitor_ok m" "order_ok E"
  shows "\<exists>d' m'. sm_zoneChanged E now z (d, m) = Inr (d', m') \<and> monitor_ok m'"
    "\<exists>d' m'. sm_zoneEnd E now z (d, m) = Inr (d', m') \<and> monitor_ok m'"
proof -
  obtain d' b where s: "saveSpawnPoints E (d, m) = Inr (d', m\<lparr>sm_modified := b\<rparr>)" using save_returns [OF assms] by blast
  have ok: "monitor_ok (m\<lparr>sm_modified := b\<rparr>)" "monitor_ok (m\<lparr>sm_modified := b, sm_zoneName := lower z\<rparr>)"
    using assms(1) by (simp_all add: monitor_ok_def)
  obtain m1 where m1: "sm_clear (m\<lparr>sm_modified := b\<rparr>) = Inr m1" "monitor_ok m1" "sm_spawns m1 = []"
    using clear_well [OF ok(1)] by blast
  obtain m2 where m2: "sm_clear (m\<lparr>sm_modified := b, sm_zoneName := lower z\<rparr>) = Inr m2" "monitor_ok m2" "sm_spawns m2 = []"
    using clear_well [OF ok(2)] by blast
  have "well (loadSpawnPoints E now d' (m1\<lparr>sm_zoneName := z\<rparr>))" "well (loadSpawnPoints E now d' m2)"
    using m1 m2 by (simp_all add: load_well)
  then show "\<exists>d' m'. sm_zoneChanged E now z (d, m) = Inr (d', m') \<and> monitor_ok m'"
    "\<exists>d' m'. sm_zoneEnd E now z (d, m) = Inr (d', m') \<and> monitor_ok m'"
    using s m1(1) m2(1) assms(1) by (auto simp: sm_zoneChanged_def sm_zoneEnd_def well_def)
qed

lemma rename_well:
  assumes "monitor_ok m" "order_ok E"
  shows "\<exists>d' m'. onRenameSpawnPoint E key name (d, m) = Inr (d', m') \<and> monitor_ok m'"
proof (cases "map_of (sm_points m) key")
  case (Some a)
  obtain m1 where m1: "sm_setName (Some a) name m = Inr m1" "monitor_ok m1" using setName_well [OF assms(1) Some] by (auto simp: well_def)
  obtain d' b where "saveSpawnPoints E (d, m1) = Inr (d', m1\<lparr>sm_modified := b\<rparr>)" using save_returns [OF m1(2) assms(2)] by blast
  then show ?thesis using Some m1 by (auto simp: onRenameSpawnPoint_def)
qed (simp add: onRenameSpawnPoint_def assms)

lemma point_step_well:
  assumes "monitor_ok m" "order_ok E"
  shows "\<exists>d' m'. point_step E x (d, m) = Inr (d', m') \<and> monitor_ok m'"
proof (cases x)
  case (PSpawn now item)
  then show ?thesis using newSpawn_well [OF assms(1), of now item] by (auto simp: well_def)
next
  case (PKill now i)
  then show ?thesis using kill_well [OF assms, of now i] by (auto simp: well_def)
next
  case (PDelete key)
  then show ?thesis using assms delete_well [OF assms(1), of key] by (cases "map_of (sm_points m) key") (fastforce simp: well_def)+
qed (use zone_change_well [OF assms] rename_well [OF assms] setSelected_ok [OF assms(1)] in simp_all)

interpretation points: total_machine "point_step E" "\<lambda>(d, m). order_ok E \<and> monitor_ok m" "\<lambda>_ _. True" for E
proof
  fix s :: "disk \<times> monitor" and x s'
  assume s: "case s of (d, m) \<Rightarrow> order_ok E \<and> monitor_ok m"
  obtain d m where dm: "s = (d, m)" by (cases s)
  then obtain d' m' where step: "point_step E x s = Inr (d', m')" "monitor_ok m'" using point_step_well [of m E x d] s by auto
  then show "\<exists>s'. point_step E x s = Inr s'" by blast
  show "point_step E x s = Inr s' \<Longrightarrow> case s' of (d, m) \<Rightarrow> order_ok E \<and> monitor_ok m" using step s dm by auto
qed

section \<open>What is kept at a place\<close>

definition point_of :: "monitor \<Rightarrow> string \<Rightarrow> spawn_point option" where
  "point_of m k = (case map_of (sm_points m) k of None \<Rightarrow> None | Some a \<Rightarrow> sm_heap m a)"

lemma point_of_modified [simp]: "point_of (m\<lparr>sm_modified := b\<rparr>) k = point_of m k"
  by (simp add: point_of_def split: option.split)

definition line_of :: "spawn_point \<Rightarrow> point_row" where
  "line_of p = (case pt_pos p of (x, y, z) \<Rightarrow> (x, y, z, pt_diffTime p, pt_count p, CHR '' '' # pt_name p))"

definition reloaded :: "u64 \<Rightarrow> spawn_point \<Rightarrow> spawn_point" where
  "reloaded now p = p\<lparr>pt_spawnTime := now, pt_deathTime := (if pt_diffTime p > 0 then now else 0),
     pt_name := trimmed (pt_name p), pt_last := '''', pt_lastID := 0\<rparr>"

lemma trimmed_blank [simp]: "trimmed (CHR '' '' # s) = trimmed s"
  by (simp add: trimmed_def is_blank_def)

lemma loaded_line_of: "loaded_point now (line_of p) = reloaded now p" "row_key (line_of p) = pt_key (pt_pos p)"
  by (cases "pt_pos p"; simp add: line_of_def loaded_point_def reloaded_def mkPoint_def pt_restart_def row_key_def Let_def)+

lemma point_of_row:
  assumes "monitor_ok m" "load_point_row now r m = Inr m'"
  shows "point_of m' k = (case point_of m k of Some p \<Rightarrow> Some p | None \<Rightarrow> if k = row_key r then Some (loaded_point now r) else None)"
proof -
  have "sm_heap m (sm_next m) = None" using fresh_address [OF assms(1)] .
  then show ?thesis
    using assms(2) monitor_okD(3) [OF assms(1), of k]
    by (auto simp: point_of_def load_point_row_cases update_conv' split: option.splits if_splits)
qed

lemma point_of_rows:
  "monitor_ok m \<Longrightarrow> sm_spawns m = [] \<Longrightarrow> load_point_rows now rs m = Inr m' \<Longrightarrow>
   point_of m' k = (case point_of m k of Some p \<Rightarrow> Some p | None \<Rightarrow> map_of (map (\<lambda>r. (row_key r, loaded_point now r)) rs) k)"
proof (induction rs arbitrary: m)
  case (Cons r rs)
  obtain m1 where m1: "load_point_row now r m = Inr m1" by (simp add: load_point_row_cases)
  then show ?case
    using Cons.IH [of m1] load_point_row_ok [OF Cons.prems(1,2) m1] Cons.prems(3) point_of_row [OF Cons.prems(1) m1, of k]
    by (auto split: option.split)
qed (auto split: option.split)

lemma mkMonitor_ok [simp]: "monitor_ok mkMonitor" "sm_spawns mkMonitor = []" "point_of mkMonitor k = None"
  by (simp_all add: mkMonitor_def monitor_ok_def parts_ok_def point_of_def)

section \<open>Properties\<close>

text \<open>C18: whatever sequence of spawns, deaths, zone changes, renamings, selections and deletions reaches the
  monitor, and whatever the disk does, no handler follows a pointer to a spawn point that is gone, and at the end
  every entry of both tables leads to a live point with the key of its place, no place is in both, and the selected
  point is in one of them.\<close>

theorem spawn_points_never_fault:
  assumes "order_ok E"
  shows "\<exists>d' m'. run_ops (point_step E) ops (d, mkMonitor) = Inr (d', m') \<and> monitor_ok m'"
proof -
  have "case (d, mkMonitor) of (d, m) \<Rightarrow> order_ok E \<and> monitor_ok m" using assms by simp
  then obtain s where "run_ops (point_step E) ops (d, mkMonitor) = Inr s" "case s of (d, m) \<Rightarrow> order_ok E \<and> monitor_ok m"
    using points.run_returns [where s = "(d, mkMonitor)" and xs = ops] by blast
  then show ?thesis by (cases s) auto
qed

definition demo_points :: monitor_env where
  "demo_points = \<lparr>me_order = rev, me_findWrite = (\<lambda>f. ''w/'' @ f), me_findExisting = (\<lambda>f. ''w/'' @ f),
     me_opens = (\<lambda>_. True), me_renames = (\<lambda>_ _. True), me_removes = (\<lambda>_. True), me_readable = (\<lambda>_. True),
     me_rows = (\<lambda>_. [(1, 2, 3, 400, 5, '' camp'')])\<rparr>"

lemma demo_points_ok: "order_ok demo_points"
  by (simp add: order_ok_def demo_points_def)

definition demo_mob :: "u16 \<Rightarrow> spawn" where
  "demo_mob i = (undefined :: spawn)\<lparr>it_type := TSpawn, it_id := i, it_name := ''rat'', it_NPC := SPAWN_NPC, it_pos := (1, 2, 3),
     sp_petOwnerID := 0, sp_isMount := False, sp_isAura := False, sp_isMercenary := False\<rparr>"

lemma demo_mob_simps [simp]: "\<not> ignored (demo_mob i)" "it_pos (demo_mob i) = (1, 2, 3)" "it_type (demo_mob i) = TSpawn" "it_id (demo_mob i) = i"
  by (simp_all add: demo_mob_def ignored_def)

theorem spawn_points_never_fault_witness:
  "\<exists>d' m'. run_ops (point_step demo_points)
     [PZoneChanged 10 ''qeynos'', PSpawn 20 (Some (demo_mob 7)), PKill 30 7, PSpawn 40 (Some (demo_mob 8)), PDelete ''1|2|3'']
     (Map.empty, mkMonitor) = Inr (d', m') \<and> monitor_ok m'"
  by (rule spawn_points_never_fault [OF demo_points_ok])

text \<open>C26: the respawn time is measured: when the mob last seen at a place dies at time \<open>died\<close> and a mob appears at the
  same place at \<open>came\<close>, the place is a spawn point afterwards (promoted if it was a candidate), its respawn time is
  \<open>came - died\<close>, its count is one higher, and it is shown alive.\<close>

theorem respawn_time_is_measured:
  assumes "monitor_ok m" "order_ok E" "map_of (sm_points m) (pt_key (it_pos s)) = Some a \<or> map_of (sm_spawns m) (pt_key (it_pos s)) = Some a"
    "sm_heap m a = Some p" "pt_lastID p = i" "\<forall>b q. sm_heap m b = Some q \<and> pt_lastID q = i \<longrightarrow> b = a"
    "died \<noteq> 0" "it_type s = TSpawn" "\<not> ignored s"
  shows "\<exists>m1 m2. sm_killSpawn E died i m = Inr m1 \<and> sm_newSpawn came (Some s) m1 = Inr m2 \<and>
    map_of (sm_points m2) (pt_key (it_pos s)) = Some a \<and> map_of (sm_spawns m2) (pt_key (it_pos s)) = None \<and>
    sm_heap m2 a = Some (p\<lparr>pt_lastID := it_id s, pt_last := (if it_id s \<noteq> 0 then it_name s else ''''), pt_spawnTime := came,
      pt_diffTime := came - died, pt_deathTime := 0, pt_count := pt_count p + 1\<rparr>)"
proof -
  have kill: "\<exists>m1. sm_killSpawn E died i m = Inr m1 \<and>
    (m1 = set_point a (pt_restart died p) m \<or> m1 = sm_signal (SpawnPointUpdated a) (set_point a (pt_restart died p) m))"
  proof -
    have found: "last_taken i (me_order E t) m = Inr (if (\<exists>k. map_of t k = Some a) then Some a else None)"
      if t: "table_ok (sm_heap m) t" for t
    proof -
      obtain r where r: "last_taken i (me_order E t) m = Inr r"
        "\<forall>b. r = Some b \<longrightarrow> (\<exists>k q. (k, b) \<in> set (me_order E t) \<and> sm_heap m b = Some q \<and> pt_lastID q = i)"
        "r = None \<longrightarrow> (\<forall>(k, b) \<in> set (me_order E t). \<forall>q. sm_heap m b = Some q \<longrightarrow> pt_lastID q \<noteq> i)"
        using last_taken_returns [of "me_order E t" m i] points_live [OF t assms(2)] by blast
      have mem: "(k, b) \<in> set (me_order E t) \<longleftrightarrow> map_of t k = Some b" for k b
        using order_set [OF assms(2)] table_mem [OF t] by simp
      show ?thesis
      proof (cases r)
        case None
        then have "\<not> (\<exists>k. map_of t k = Some a)" using r(3) mem assms(4,5) by auto
        then show ?thesis using r(1) None by simp
      next
        case (Some b)
        then obtain k q where "map_of t k = Some b" "sm_heap m b = Some q" "pt_lastID q = i" using r(2) mem by blast
        then show ?thesis using r(1) Some assms(6) by auto
      qed
    qed
    show ?thesis
      using found [OF monitor_okD(1) [OF assms(1)]] found [OF monitor_okD(2) [OF assms(1)]] assms(3,4)
      by (auto simp: sm_killSpawn_def restartSpawnPoint_def)
  qed
  then obtain m1 where kill: "sm_killSpawn E died i m = Inr m1"
    "m1 = set_point a (pt_restart died p) m \<or> m1 = sm_signal (SpawnPointUpdated a) (set_point a (pt_restart died p) m)" by blast
  have m1: "sm_points m1 = sm_points m" "sm_spawns m1 = sm_spawns m" "sm_heap m1 a = Some (pt_restart died p)"
    using kill(2) by (auto simp: set_point_def)
  have upd: "pt_update came s (pt_restart died p) = p\<lparr>pt_lastID := it_id s, pt_last := (if it_id s \<noteq> 0 then it_name s else ''''),
      pt_spawnTime := came, pt_diffTime := came - died, pt_deathTime := 0, pt_count := pt_count p + 1\<rparr>"
    using assms(7) by (simp add: pt_update_def pt_restart_def)
  have none: "map_of (sm_points m) (pt_key (it_pos s)) = None \<or> map_of (sm_spawns m) (pt_key (it_pos s)) = None"
    by (rule monitor_okD(5) [OF assms(1)])
  have "\<exists>m2. checkSpawnPoint came s m1 = Inr m2 \<and> map_of (sm_points m2) (pt_key (it_pos s)) = Some a \<and>
      map_of (sm_spawns m2) (pt_key (it_pos s)) = None \<and> sm_heap m2 a = Some (pt_update came s (pt_restart died p))"
    using assms(3,9) none m1
    by (cases "map_of (sm_points m) (pt_key (it_pos s))") (auto simp: checkSpawnPoint_def set_point_def Let_def update_conv' delete_conv')
  then show ?thesis using kill(1) assms(8) by (auto simp: sm_newSpawn_def upd)
qed

definition demo_monitor :: monitor where
  "demo_monitor = mkMonitor\<lparr>sm_zoneName := ''qeynos'', sm_heap := [0 \<mapsto> mkPoint 5 7 (1, 2, 3) '' camp '' 9 1], sm_next := 1,
     sm_points := [(pt_key (1, 2, 3), 0)], sm_modified := True\<rparr>"

lemma demo_monitor_ok: "monitor_ok demo_monitor"
  by (simp add: demo_monitor_def mkMonitor_def monitor_ok_def parts_ok_def table_ok_def qhash_inv_def)

theorem respawn_time_is_measured_witness:
  "\<exists>m1 m2 p. sm_killSpawn demo_points 100 7 demo_monitor = Inr m1 \<and> sm_newSpawn 460 (Some (demo_mob 8)) m1 = Inr m2 \<and>
    sm_heap m2 0 = Some p \<and> pt_diffTime p = 360 \<and> pt_count p = 2"
proof -
  have only: "\<forall>b q. sm_heap demo_monitor b = Some q \<and> pt_lastID q = 7 \<longrightarrow> b = 0"
    by (simp add: demo_monitor_def split: if_splits)
  have there: "map_of (sm_points demo_monitor) (pt_key (it_pos (demo_mob 8))) = Some 0 \<or>
      map_of (sm_spawns demo_monitor) (pt_key (it_pos (demo_mob 8))) = Some 0"
    "sm_heap demo_monitor 0 = Some (mkPoint 5 7 (1, 2, 3) '' camp '' 9 1)" "pt_lastID (mkPoint 5 7 (1, 2, 3) '' camp '' 9 1) = 7"
    by (simp_all add: demo_monitor_def mkPoint_def)
  show ?thesis
    using respawn_time_is_measured [where died = 100 and came = 460, OF demo_monitor_ok demo_points_ok there only] by (auto simp: mkPoint_def)
qed

text \<open>The respawn time of a point loaded from its file is lost when a mob appears there before a death was
  seen: loading at \<open>t0\<close> pretends a death at \<open>t0\<close>, so the first appearance at \<open>t1\<close> replaces the saved time by
  \<open>t1 - t0\<close>, whatever was saved.\<close>

theorem loaded_respawn_time_is_overwritten:
  assumes "map_of (map (\<lambda>r. (row_key r, r)) rows) (pt_key (it_pos s)) = Some (x, y, z, saved, n, line)" "saved > 0" "t0 \<noteq> 0"
    "it_type s = TSpawn" "\<not> ignored s"
  shows "\<exists>m1 m2 p. load_point_rows t0 rows mkMonitor = Inr m1 \<and>
    (\<exists>q. point_of m1 (pt_key (it_pos s)) = Some q \<and> pt_diffTime q = saved) \<and>
    sm_newSpawn t1 (Some s) m1 = Inr m2 \<and> point_of m2 (pt_key (it_pos s)) = Some p \<and> pt_diffTime p = t1 - t0"
proof -
  obtain m1 where m1: "load_point_rows t0 rows mkMonitor = Inr m1" "monitor_ok m1"
    using load_point_rows_well [OF mkMonitor_ok(1,2)] by blast
  have "map_of (map (\<lambda>r. (row_key r, loaded_point t0 r)) rows) k = map_option (loaded_point t0) (map_of (map (\<lambda>r. (row_key r, r)) rows) k)" for k
    by (induction rows) auto
  then have q: "point_of m1 (pt_key (it_pos s)) = Some (loaded_point t0 (x, y, z, saved, n, line))"
    using point_of_rows [OF mkMonitor_ok(1,2) m1(1)] assms(1) by simp
  then obtain a where a: "map_of (sm_points m1) (pt_key (it_pos s)) = Some a"
    "sm_heap m1 a = Some (loaded_point t0 (x, y, z, saved, n, line))" by (auto simp: point_of_def split: option.splits)
  have d: "pt_diffTime (loaded_point t0 (x, y, z, saved, n, line)) = saved" "pt_deathTime (loaded_point t0 (x, y, z, saved, n, line)) = t0"
    using assms(2) by (auto simp: loaded_point_def pt_restart_def mkPoint_def Let_def)
  have "pt_diffTime (pt_update t1 s (loaded_point t0 (x, y, z, saved, n, line))) = t1 - t0"
    using d assms(3) by (simp add: pt_update_def Let_def)
  moreover have "sm_newSpawn t1 (Some s) m1 = Inr (sm_signal (SpawnPointUpdated a)
      (set_point a (pt_update t1 s (loaded_point t0 (x, y, z, saved, n, line))) (m1\<lparr>sm_modified := True\<rparr>)))"
    using a assms(4,5) by (simp add: sm_newSpawn_def checkSpawnPoint_def)
  ultimately show ?thesis using m1(1) q d(1) a by (auto simp: point_of_def set_point_def)
qed

theorem loaded_respawn_time_is_overwritten_witness:
  "\<exists>m1 m2 p. load_point_rows 1000 [(1, 2, 3, 400, 5, '' camp'')] mkMonitor = Inr m1 \<and> sm_newSpawn 1003 (Some (demo_mob 7)) m1 = Inr m2 \<and>
    point_of m2 (pt_key (1, 2, 3)) = Some p \<and> pt_diffTime p = 3"
  using loaded_respawn_time_is_overwritten [of "[(1, 2, 3, 400, 5, '' camp'')]" "demo_mob 7" 1 2 3 400 5 "'' camp''" 1000 1003]
  by (auto simp: row_key_def)

text \<open>Spawn points survive their file: what is saved and loaded again, by a fresh monitor of the same zone, is at
  every place the same point, with its position, respawn time and count, its name without blanks at the ends, and its
  countdown restarted at the time of loading; nothing is added. The old file becomes the backup.\<close>

theorem saved_points_load_back:
  assumes "monitor_ok m" "order_ok E" "sm_persist m" "sm_modified m" "sm_zoneName m = z" "z \<noteq> ''''"
    "me_findWrite E (z @ ''.sp'') = f" "me_findExisting E (z @ ''.sp'') = f" "me_opens E (f @ ''.new'')" "me_readable E f"
    "\<And>a b. me_renames E a b \<and> me_removes E b" "ps = map (\<lambda>(k, a). the (sm_heap m a)) (me_order E (sm_points m))"
    "me_rows E (concat (map row_text ps)) = map line_of ps"
  shows "\<exists>d' m'. saveSpawnPoints E (d, m) = Inr (d', m\<lparr>sm_modified := False\<rparr>) \<and>
    (d f \<noteq> None \<longrightarrow> d' (f @ ''.bak'') = d f) \<and>
    loadSpawnPoints E now d' (mkMonitor\<lparr>sm_zoneName := z\<rparr>) = Inr m' \<and>
    (\<forall>k. point_of m' k = map_option (reloaded now) (point_of m k))"
proof -
  let ?t = "me_order E (sm_points m)"
  note table = monitor_okD(1) [OF assms(1)]
  have "save_text ?t m = Inr (concat (map (\<lambda>(k, a). row_text (the (sm_heap m a))) ?t))"
    using points_live [OF table assms(2)] by (rule save_text_returns)
  moreover have "map (\<lambda>(k, a). row_text (the (sm_heap m a))) ?t = map row_text ps"
    by (simp add: assms(12) case_prod_beta comp_def)
  ultimately have written: "save_text ?t m = Inr (concat (map row_text ps))" by simp
  obtain d' where d': "saveSpawnPoints E (d, m) = Inr (d', m\<lparr>sm_modified := False\<rparr>)" "d' f = Some (concat (map row_text ps))"
    "d f \<noteq> None \<longrightarrow> d' (f @ ''.bak'') = d f"
    using assms(3-11) written by (cases "d f") (simp_all add: saveSpawnPoints_def rename_def Let_def)
  obtain m1 where m1: "load_point_rows now (map line_of ps) (mkMonitor\<lparr>sm_zoneName := z\<rparr>) = Inr m1"
    using load_point_rows_well [of "mkMonitor\<lparr>sm_zoneName := z\<rparr>"] mkMonitor_ok by fastforce
  have load: "loadSpawnPoints E now d' (mkMonitor\<lparr>sm_zoneName := z\<rparr>) = Inr (m1\<lparr>sm_modified := False\<rparr>)"
    using m1 d'(2) assms(8,10,13) by (simp add: loadSpawnPoints_def mkMonitor_def)
  have keys: "pt_key (pt_pos (the (sm_heap m a))) = k" if "(k, a) \<in> set ?t" for k a
    using that order_set [OF assms(2)] table_mem [OF table] monitor_okD(3) [OF assms(1)] by fastforce
  have "map (\<lambda>r. (row_key r, loaded_point now r)) (map line_of ps) = map (\<lambda>(k, a). (k, reloaded now (the (sm_heap m a)))) ?t"
    using keys by (auto simp: assms(12) loaded_line_of)
  then have "map_of (map (\<lambda>r. (row_key r, loaded_point now r)) (map line_of ps)) k = map_option (\<lambda>a. reloaded now (the (sm_heap m a))) (map_of ?t k)" for k
    using map_of_map [of "\<lambda>a. reloaded now (the (sm_heap m a))" ?t] by (simp add: fun_eq_iff)
  moreover have "map_of ?t k = map_of (sm_points m) k" for k
  proof -
    have "mset (map fst ?t) = mset (map fst (sm_points m))" using assms(2) by (simp add: order_ok_def)
    then have "distinct (map fst ?t)" using table mset_eq_imp_distinct_iff by (metis table_ok_def qhash_inv_def)
    then show ?thesis using table map_of_inject_set [of ?t "sm_points m"] order_set [OF assms(2)]
      by (simp add: table_ok_def qhash_inv_def)
  qed
  moreover have "point_of (mkMonitor\<lparr>sm_zoneName := z\<rparr>) k = None" for k
    by (simp add: point_of_def mkMonitor_def)
  ultimately have "point_of m1 k = map_option (reloaded now) (point_of m k)" for k
    using point_of_rows [OF _ _ m1, of k] monitor_okD(3) [OF assms(1), of k] mkMonitor_ok
    by (cases "map_of (sm_points m) k") (auto simp: point_of_def)
  then have "\<forall>k. point_of (m1\<lparr>sm_modified := False\<rparr>) k = map_option (reloaded now) (point_of m k)"
    by simp
  then show ?thesis using d' load by blast
qed

definition demo_disk :: monitor_env where
  "demo_disk = demo_points\<lparr>me_rows := (\<lambda>_. [(1, 2, 3, 9, 1, ''  camp '')])\<rparr>"

theorem saved_points_load_back_witness:
  "\<exists>d' m'. saveSpawnPoints demo_disk (Map.empty, demo_monitor) = Inr (d', demo_monitor\<lparr>sm_modified := False\<rparr>) \<and>
    loadSpawnPoints demo_disk 50 d' (mkMonitor\<lparr>sm_zoneName := ''qeynos''\<rparr>) = Inr m' \<and>
    (\<exists>p. point_of m' (pt_key (1, 2, 3)) = Some p \<and> pt_name p = ''camp'' \<and> pt_diffTime p = 9 \<and> pt_deathTime p = 50)"
proof -
  have ok: "order_ok demo_disk" by (simp add: order_ok_def demo_disk_def demo_points_def)
  let ?p = "reloaded 50 (mkPoint 5 7 (1, 2, 3) '' camp '' 9 1)"
  have at: "point_of demo_monitor (pt_key (1, 2, 3)) = Some (mkPoint 5 7 (1, 2, 3) '' camp '' 9 1)"
    by (simp add: point_of_def demo_monitor_def)
  obtain d' m' where "saveSpawnPoints demo_disk (Map.empty, demo_monitor) = Inr (d', demo_monitor\<lparr>sm_modified := False\<rparr>)"
    "loadSpawnPoints demo_disk 50 d' (mkMonitor\<lparr>sm_zoneName := ''qeynos''\<rparr>) = Inr m'"
    "\<forall>k. point_of m' k = map_option (reloaded 50) (point_of demo_monitor k)"
    using saved_points_load_back [OF demo_monitor_ok ok, of "''qeynos''" "''w/qeynos.sp''" "[mkPoint 5 7 (1, 2, 3) '' camp '' 9 1]" Map.empty 50]
    by (auto simp: demo_disk_def demo_points_def demo_monitor_def mkMonitor_def mkPoint_def line_of_def)
  moreover from this(3) have "point_of m' (pt_key (1, 2, 3)) = Some ?p" by (simp add: at)
  moreover have "trimmed ''camp '' = ''camp''" by code_simp
  then have "pt_name ?p = ''camp''" "pt_diffTime ?p = 9" "pt_deathTime ?p = 50" by (simp_all add: mkPoint_def reloaded_def)
  ultimately show ?thesis by blast
qed

end
