(* ===== verification/EQStr.thy ===== *)
theory EQStr
  imports PacketCommon QtText Tables
begin

text \<open>
  The message strings of the game (\<open>src/eqstr.h\<close>, \<open>src/eqstr.cpp\<close>): a table of formats, and the routine that puts
  the arguments of a message into its format. The conversions between bytes and text and from text to numbers are
  fields of \<open>text_lib\<close>. The two loops that substitute rescan what they have put in, and need not end: their value is
  \<open>None\<close> then.
\<close>

section \<open>Loading\<close>

record text_lib =
  tx_fromUtf8 :: "bytes \<Rightarrow> string"
  tx_toUtf8 :: "string \<Rightarrow> bytes"
  tx_toULong :: "string \<Rightarrow> u64"
  tx_toInt :: "string \<Rightarrow> u32 option"

record eqstr =
  es_messageStrings :: "(u32 \<times> string) list"
  es_loaded :: bool

definition mkEQStr :: eqstr where
  "mkEQStr = \<lparr>es_messageStrings = [], es_loaded = False\<rparr>"

text \<open>\<open>left(-1)\<close> is the whole line, and so is \<open>mid(0)\<close>.\<close>

definition load_format :: "text_lib \<Rightarrow> string \<Rightarrow> (u32 \<times> string) list \<Rightarrow> (u32 \<times> string) list" where
  "load_format T line strs =
     (case indexOf_char CHR '' '' line of
        Some spc \<Rightarrow> AList.update (ucast (tx_toULong T (take spc line))) (drop (spc + 1) line) strs
      | None \<Rightarrow> AList.update (ucast (tx_toULong T line)) line strs)"

text \<open>The first two lines are skipped whether they are there or not.\<close>

definition es_load :: "text_lib \<Rightarrow> bytes option \<Rightarrow> eqstr \<Rightarrow> (bool \<times> eqstr) res" where
  "es_load T file_data es =
     (let es = es\<lparr>es_messageStrings := []\<rparr> in
      case file_data of
        None \<Rightarrow> Inr (False, es)
      | Some raw \<Rightarrow>
         (case split_lines [] (tx_fromUtf8 T raw) of
            _ # _ # lines \<Rightarrow> Inr (True, es\<lparr>es_messageStrings := fold (load_format T) lines [], es_loaded := True\<rparr>)
          | _ \<Rightarrow> Inl OutOfBounds))"

definition lookup_string :: "eqstr \<Rightarrow> u32 \<Rightarrow> string" where
  "lookup_string es i = (case map_of (es_messageStrings es) i of Some s \<Rightarrow> s | None \<Rightarrow> '''')"

definition hex_digit_of :: "nat \<Rightarrow> char" where
  "hex_digit_of n = char_of (if n < 10 then 48 + n else 87 + n)"

fun hex_number :: "nat \<Rightarrow> string" where
  "hex_number n = (if n < 16 then [hex_digit_of n] else hex_number (n div 16) @ [hex_digit_of (n mod 16)])"

declare hex_number.simps [simp del]

definition es_message :: "eqstr \<Rightarrow> u32 \<Rightarrow> string" where
  "es_message es i =
     (let s = lookup_string es i in if s \<noteq> '''' then s else ''Unknown: '' @ hex_number (unat i))"

section \<open>Arguments\<close>

text \<open>
  \<open>arguments\<close> is the memory from the pointer to the end of its allocation, \<open>argsLen\<close> what the caller says. The sum
  of the size and four is taken in 32 bits.
\<close>

partial_function (option) read_args :: "text_lib \<Rightarrow> bytes \<Rightarrow> nat \<Rightarrow> nat \<Rightarrow> string list \<Rightarrow> string list res option" where
  [code]: "read_args T arguments argsLen tot acc =
     (if tot < argsLen then
        (case eqtohuint32 (drop tot arguments) of
           Inl e \<Rightarrow> Some (Inl e)
         | Inr curSize \<Rightarrow>
             if curSize > 0 then
               (case rd_bytes (drop (tot + 4) arguments) (unat curSize) of
                  Inl e \<Rightarrow> Some (Inl e)
                | Inr b \<Rightarrow> read_args T arguments argsLen (tot + unat (curSize + 4)) (acc @ [tx_fromUtf8 T b]))
             else read_args T arguments argsLen (tot + unat (curSize + 4)) acc)
      else Some (Inr acc))"

text \<open>What is shown of a message whose format is not known.\<close>

function unknown_args :: "text_lib \<Rightarrow> bytes \<Rightarrow> nat \<Rightarrow> nat \<Rightarrow> string \<Rightarrow> string res" where
  "unknown_args T arguments argsLen cp tempStr =
     (if cp + 4 < argsLen then
        rbind (eqtohuint32 (drop cp arguments)) (\<lambda>arg_len.
          if arg_len = 0 \<or> unat arg_len > argsLen then Inr tempStr
          else rbind (rd_bytes (drop (cp + 4) arguments) (unat arg_len)) (\<lambda>b.
            unknown_args T arguments argsLen (cp + 4 + unat arg_len) (tempStr @ '' '' @ tx_fromUtf8 T b)))
      else Inr tempStr)"
  by pat_completeness auto

termination by (relation "measure (\<lambda>(T, a, n, cp, s). n - cp)") auto

declare unknown_args.simps [simp del]

definition hex04x :: "nat \<Rightarrow> string" where
  "hex04x n = (let s = hex_number n in replicate (4 - length s) CHR ''0'' @ s)"

section \<open>Substitution\<close>

text \<open>The expressions \<open>%T(\\d{1,3})\<close> and \<open>%(\\d{1,3})\<close>: the place and the number of the digits of the first match at
  or behind an offset.\<close>

definition digits_at :: "string \<Rightarrow> nat" where
  "digits_at s = length (takeWhile is_decimal (take 3 s))"

definition placeholder_at :: "string \<Rightarrow> string \<Rightarrow> bool" where
  "placeholder_at p s \<longleftrightarrow> take (length p) s = p \<and> digits_at (drop (length p) s) > 0"

definition rx_match :: "string \<Rightarrow> string \<Rightarrow> nat \<Rightarrow> (nat \<times> nat) option" where
  "rx_match p s off =
     map_option (\<lambda>i. (i + length p, digits_at (drop (i + length p) s)))
       (find (\<lambda>i. placeholder_at p (drop i s)) [off..<length s])"

definition splice :: "string \<Rightarrow> nat \<Rightarrow> nat \<Rightarrow> string \<Rightarrow> string" where
  "splice s i n r = take i s @ r @ drop (i + n) s"

text \<open>
  One loop. \<open>val\<close> gives what stands for a number, or \<open>None\<close> when there is nothing; the search goes on from the
  place of the digits in the old text, or from behind them when the placeholder was taken out.
\<close>

partial_function (option) subst_loop :: "string \<Rightarrow> (nat \<Rightarrow> string option res) \<Rightarrow> string \<Rightarrow> nat \<Rightarrow> string res option" where
  [code]: "subst_loop p val s off =
     (case rx_match p s off of
        None \<Rightarrow> Some (Inr s)
      | Some (curPos, n) \<Rightarrow>
         (case val (undec (take n (drop curPos s))) of
            Inl e \<Rightarrow> Some (Inl e)
          | Inr (Some r) \<Rightarrow> subst_loop p val (splice s (curPos - length p) (n + length p) r) curPos
          | Inr None \<Rightarrow> subst_loop p val (splice s (curPos - length p) (n + length p) '''') (curPos + n)))"

text \<open>\<open>argList[substArg-1]\<close> for a number that is at most the size of the list.\<close>

definition arg_at :: "string list \<Rightarrow> nat \<Rightarrow> string option res" where
  "arg_at args n =
     (if n \<le> length args then (if n = 0 then Inl OutOfBounds else Inr (Some (args ! (n - 1)))) else Inr None)"

definition template_value :: "text_lib \<Rightarrow> eqstr \<Rightarrow> string list \<Rightarrow> nat \<Rightarrow> string option res" where
  "template_value T es args n =
     rbind (arg_at args n) (\<lambda>a. case a of
       None \<Rightarrow> Inr None
     | Some a \<Rightarrow> (case tx_toInt T a of
         None \<Rightarrow> Inr None
       | Some i \<Rightarrow> (let r = lookup_string es i in Inr (if r \<noteq> '''' then Some r else None))))"

text \<open>Behind the last caret, and without a leading apostrophe then.\<close>

definition cleaned :: "string \<Rightarrow> string" where
  "cleaned a =
     (if CHR ''^'' \<in> set a then
        (let t = rev (takeWhile (\<lambda>c. c \<noteq> CHR ''^'') (rev a)) in if take 1 t = [CHR 0x27] then drop 1 t else t)
      else a)"

definition arg_value :: "string list \<Rightarrow> nat \<Rightarrow> string option res" where
  "arg_value args n = rbind (arg_at args n) (\<lambda>a. Inr (map_option cleaned a))"

definition format_args :: "text_lib \<Rightarrow> eqstr \<Rightarrow> string \<Rightarrow> string list \<Rightarrow> string res option" where
  "format_args T es fmt args =
     (case subst_loop ''%T'' (template_value T es args) fmt 0 of
        None \<Rightarrow> None
      | Some (Inl e) \<Rightarrow> Some (Inl e)
      | Some (Inr s) \<Rightarrow> subst_loop ''%'' (arg_value args) s 0)"

definition formatMessage :: "text_lib \<Rightarrow> eqstr \<Rightarrow> u32 \<Rightarrow> bytes \<Rightarrow> nat \<Rightarrow> string res option" where
  "formatMessage T es formatid arguments argsLen =
     (let fmt = lookup_string es formatid in
      if fmt = '''' then Some (unknown_args T arguments argsLen 0 (''Unknown: '' @ hex04x (unat formatid) @ '':''))
      else (case read_args T arguments argsLen 0 [] of
              None \<Rightarrow> None
            | Some (Inl e) \<Rightarrow> Some (Inl e)
            | Some (Inr args) \<Rightarrow> format_args T es fmt args))"

text \<open>The overload for arguments that are already split: link markers are taken out, and the bytes are put together
  again for the routine above.\<close>

definition encode_arg :: "text_lib \<Rightarrow> string \<Rightarrow> bytes" where
  "encode_arg T raw =
     (let b = tx_toUtf8 T (filter (\<lambda>c. c \<noteq> CHR 0x12) raw) in le32_bytes (word_of_nat (length b)) @ b)"

definition formatMessage_list :: "text_lib \<Rightarrow> eqstr \<Rightarrow> u32 \<Rightarrow> string list \<Rightarrow> string res option" where
  "formatMessage_list T es formatid args =
     (let blob = concat (map (encode_arg T) args) in formatMessage T es formatid blob (length blob))"

end
