(* ===== verification/EQStrLaws.thy ===== *)
theory EQStrLaws
  imports EQStr
begin

text \<open>
  What the substitution of \<open>src/eqstr.cpp\<close> does to a format: against a reference that replaces every placeholder of
  the text it was given exactly once, the arguments that make it run for ever, and the bytes of a list of arguments.
\<close>

section \<open>The first match\<close>

lemma digits_at_le: "digits_at s \<le> 3" "digits_at s \<le> length s"
proof -
  have "length (takeWhile is_decimal (take 3 s)) \<le> length (take 3 s)" by (rule length_takeWhile_le)
  then show "digits_at s \<le> 3" "digits_at s \<le> length s" by (auto simp: digits_at_def)
qed

lemma placeholder_at_Nil [simp]: "\<not> placeholder_at p []"
  by (simp add: placeholder_at_def digits_at_def)

lemma placeholder_length:
  "placeholder_at p s \<Longrightarrow> length p + digits_at (drop (length p) s) \<le> length s"
  using digits_at_le(2) [of "drop (length p) s"] by (auto simp: placeholder_at_def)

text \<open>When nothing starts between the offset and a place, the place decides.\<close>

lemma rx_match_skip:
  assumes "off \<le> length w" "\<And>i. off \<le> i \<Longrightarrow> i < length w \<Longrightarrow> \<not> placeholder_at p (drop i (w @ s))"
  shows "placeholder_at p s \<Longrightarrow> rx_match p (w @ s) off = Some (length w + length p, digits_at (drop (length p) s))"
    and "s = [] \<Longrightarrow> rx_match p (w @ s) off = None"
proof -
  have none: "find (\<lambda>i. placeholder_at p (drop i (w @ s))) [off..<length w] = None"
    using assms(2) by (auto simp: find_None_iff)
  have "[off..<length (w @ s)] = [off..<length w] @ [length w..<length (w @ s)]"
    using upt_add_eq_append [OF assms(1), of "length s"] by simp
  then have m: "rx_match p (w @ s) off = map_option (\<lambda>i. (i + length p, digits_at (drop (i + length p) (w @ s))))
      (find (\<lambda>i. placeholder_at p (drop i (w @ s))) [length w..<length (w @ s)])"
    using none by (simp add: rx_match_def find_append)
  show "rx_match p (w @ s) off = Some (length w + length p, digits_at (drop (length p) s))" if "placeholder_at p s"
  proof -
    from that have "s \<noteq> []" by auto
    then show ?thesis using that m by (simp add: upt_conv_Cons)
  qed
  show "rx_match p (w @ s) off = None" if "s = []" using that m by simp
qed

section \<open>The reference\<close>

text \<open>Every placeholder of the text is replaced once, from left to right; what is put in is not looked at again.\<close>

fun subst_once :: "string \<Rightarrow> (nat \<Rightarrow> string) \<Rightarrow> nat \<Rightarrow> string \<Rightarrow> string" where
  "subst_once p f skip [] = []"
| "subst_once p f (Suc k) (c # s) = subst_once p f k s"
| "subst_once p f 0 (c # s) =
     (if placeholder_at p (c # s)
      then f (undec (take (digits_at (drop (length p) (c # s))) (drop (length p) (c # s)))) @
        subst_once p f (length p + digits_at (drop (length p) (c # s)) - 1) s
      else c # subst_once p f 0 s)"

text \<open>The numbers of the placeholders, in their order.\<close>

fun numbers :: "string \<Rightarrow> nat \<Rightarrow> string \<Rightarrow> nat list" where
  "numbers p skip [] = []"
| "numbers p (Suc k) (c # s) = numbers p k s"
| "numbers p 0 (c # s) =
     (if placeholder_at p (c # s)
      then undec (take (digits_at (drop (length p) (c # s))) (drop (length p) (c # s))) #
        numbers p (length p + digits_at (drop (length p) (c # s)) - 1) s
      else numbers p 0 s)"

lemma subst_once_skip: "subst_once p f k s = subst_once p f 0 (drop k s)"
  by (induction p f k s rule: subst_once.induct) auto

lemma numbers_skip: "numbers p k s = numbers p 0 (drop k s)"
  by (induction p k s rule: numbers.induct) auto

text \<open>A text is inert when no placeholder can start in it behind the length of the prefix, whatever comes after it.\<close>

definition compat :: "string \<Rightarrow> string \<Rightarrow> bool" where
  "compat p t \<longleftrightarrow> take (length t) p = take (length p) t"

definition inert :: "string \<Rightarrow> string \<Rightarrow> bool" where
  "inert p r \<longleftrightarrow> length p \<le> length r \<and> list_all (\<lambda>i. \<not> compat p (drop i r)) [length p..<length r]"

lemma inert_no_placeholder:
  assumes "inert p r" "length p \<le> i" "i < length r"
  shows "\<not> placeholder_at p (drop i r @ t)"
proof
  assume "placeholder_at p (drop i r @ t)"
  then have t: "take (length p) (drop i r @ t) = p" by (simp add: placeholder_at_def)
  have "take (length (drop i r)) p = take (length p) (drop i r)"
    using take_take_append [of "drop i r" "length p" t] unfolding t .
  moreover have "\<not> compat p (drop i r)" using assms by (auto simp: inert_def list_all_iff)
  ultimately show False by (simp add: compat_def)
qed

lemma inert_plain:
  assumes "r \<noteq> []" "CHR ''%'' \<notin> set r"
  shows "inert ''%'' r"
proof -
  have "\<not> compat ''%'' (drop i r)" if "i < length r" for i
  proof -
    have "drop i r = r ! i # drop (Suc i) r" using that by (simp add: Cons_nth_drop_Suc)
    then show ?thesis using assms(2) nth_mem [OF that] by (auto simp: compat_def)
  qed
  then show ?thesis using assms(1) by (cases r) (auto simp: inert_def list_all_iff)
qed

text \<open>The loop is the reference, and ends, as long as every value is there and inert.\<close>

lemma subst_loop_is_once:
  assumes p: "p \<noteq> []" and off: "off \<le> length w"
    and "\<And>i. off \<le> i \<Longrightarrow> i < length w \<Longrightarrow> \<not> placeholder_at p (drop i (w @ s))"
    and "\<And>n. n \<in> set (numbers p 0 s) \<Longrightarrow> v n = Inr (Some (f n)) \<and> inert p (f n)"
  shows "subst_loop p v (w @ s) off = Some (Inr (w @ subst_once p f 0 s))"
  using off assms(3-)
proof (induction "length s" arbitrary: s w off rule: less_induct)
  case less
  show ?case
  proof (cases s)
    case Nil
    then show ?thesis using rx_match_skip(2) [OF less.prems(1,2)] by (subst subst_loop.simps) simp
  next
    case (Cons c t)
    show ?thesis
    proof (cases "placeholder_at p s")
      case False
      have "subst_loop p v ((w @ [c]) @ t) off = Some (Inr ((w @ [c]) @ subst_once p f 0 t))"
      proof (rule less.hyps)
        show "length t < length s" "off \<le> length (w @ [c])" using Cons less.prems(1) by auto
        show "\<not> placeholder_at p (drop i ((w @ [c]) @ t))" if "off \<le> i" "i < length (w @ [c])" for i
          using that less.prems(2) [of i] False Cons by (cases "i = length w") auto
        show "v n = Inr (Some (f n)) \<and> inert p (f n)" if "n \<in> set (numbers p 0 t)" for n
          using that less.prems(3) [of n] False Cons by auto
      qed
      then show ?thesis using False Cons by simp
    next
      case True
      define d where "d = digits_at (drop (length p) s)"
      define n where "n = undec (take d (drop (length p) s))"
      define rest where "rest = drop (length p + d) s"
      have nums: "numbers p 0 s = n # numbers p 0 rest"
        using True p Cons numbers_skip [of p "length p + d - 1" t]
        by (cases p) (simp_all add: d_def n_def rest_def)
      have once: "subst_once p f 0 s = f n @ subst_once p f 0 rest"
        using True p Cons subst_once_skip [of p f "length p + d - 1" t]
        by (cases p) (simp_all add: d_def n_def rest_def)
      have val: "v n = Inr (Some (f n))" "inert p (f n)" using less.prems(3) [of n] nums by auto
      have m: "rx_match p (w @ s) off = Some (length w + length p, d)"
        using rx_match_skip(1) [OF less.prems(1,2) True] by (simp add: d_def)
      have "subst_loop p v (w @ s) off = subst_loop p v ((w @ f n) @ rest) (length w + length p)"
        by (subst subst_loop.simps) (simp add: m val(1) n_def [symmetric] splice_def rest_def add.commute)
      also have "\<dots> = Some (Inr ((w @ f n) @ subst_once p f 0 rest))"
      proof (rule less.hyps)
        show "length rest < length s" using p Cons by (cases p) (simp_all add: rest_def)
        show "length w + length p \<le> length (w @ f n)" using val(2) by (simp add: inert_def)
        show "\<not> placeholder_at p (drop i ((w @ f n) @ rest))"
          if "length w + length p \<le> i" "i < length (w @ f n)" for i
          using inert_no_placeholder [OF val(2), of "i - length w" rest] that by simp
        show "v k = Inr (Some (f k)) \<and> inert p (f k)" if "k \<in> set (numbers p 0 rest)" for k
          using that less.prems(3) [of k] nums by auto
      qed
      finally show ?thesis using once by simp
    qed
  qed
qed

definition arg_text :: "string list \<Rightarrow> nat \<Rightarrow> string" where
  "arg_text args n = cleaned (args ! (n - 1))"

lemma arg_value_present: "0 < n \<Longrightarrow> n \<le> length args \<Longrightarrow> arg_value args n = Inr (Some (arg_text args n))"
  by (simp add: arg_value_def arg_at_def arg_text_def)

text \<open>C19: A message is formatted by substituting once: when the format is known, every template number of it stands
  for a format that is there, and every argument number of the result for an argument that is there, and nothing that is
  put in can start a placeholder, then formatting ends, and its result is the format with every template replaced, from
  left to right, and then every argument number replaced, from left to right, by the cleaned argument, without looking
  at what was put in.\<close>

theorem message_is_substituted_once:
  assumes "lookup_string es formatid \<noteq> ''''"
    and "read_args T arguments argsLen 0 [] = Some (Inr args)"
    and "\<forall>n\<in>set (numbers ''%T'' 0 (lookup_string es formatid)).
      template_value T es args n = Inr (Some (t n)) \<and> inert ''%T'' (t n)"
    and "\<forall>n\<in>set (numbers ''%'' 0 (subst_once ''%T'' t 0 (lookup_string es formatid))).
      0 < n \<and> n \<le> length args \<and> inert ''%'' (arg_text args n)"
  shows "formatMessage T es formatid arguments argsLen =
    Some (Inr (subst_once ''%'' (arg_text args) 0 (subst_once ''%T'' t 0 (lookup_string es formatid))))"
proof -
  have "subst_loop ''%T'' (template_value T es args) ([] @ lookup_string es formatid) 0 =
      Some (Inr ([] @ subst_once ''%T'' t 0 (lookup_string es formatid)))"
    by (rule subst_loop_is_once) (use assms(3) in auto)
  moreover have "subst_loop ''%'' (arg_value args) ([] @ subst_once ''%T'' t 0 (lookup_string es formatid)) 0 =
      Some (Inr ([] @ subst_once ''%'' (arg_text args) 0 (subst_once ''%T'' t 0 (lookup_string es formatid))))"
    by (rule subst_loop_is_once) (use assms(4) arg_value_present in auto)
  ultimately show ?thesis using assms(1,2) by (simp add: formatMessage_def format_args_def)
qed

section \<open>An argument that stops the loop from ending\<close>

lemma digits_at_dec:
  "length (dec k) \<le> 3 \<Longrightarrow> \<not> is_decimal c \<Longrightarrow> digits_at (dec k @ c # v) = length (dec k)"
proof -
  assume a: "length (dec k) \<le> 3" "\<not> is_decimal c"
  have "\<forall>c\<in>set (dec k). is_decimal c" by (auto dest: dec_digits)
  then have "takeWhile is_decimal (take 3 (dec k @ c # v)) = dec k @ takeWhile is_decimal (take (3 - length (dec k)) (c # v))"
    using a(1) by (simp add: takeWhile_append2)
  also have "takeWhile is_decimal (take (3 - length (dec k)) (c # v)) = []"
    using a(2) by (cases "3 - length (dec k)") auto
  finally show ?thesis by (simp add: digits_at_def)
qed

lemma rx_match_place:
  assumes "off \<le> length w" "CHR ''%'' \<notin> set (drop off w)" "length (dec k) \<le> 3" "\<not> is_decimal c"
  shows "rx_match ''%'' (w @ CHR ''%'' # dec k @ c # v) off = Some (length w + 1, length (dec k))"
proof -
  let ?s = "CHR ''%'' # dec k @ c # v"
  have ph: "placeholder_at ''%'' ?s" using digits_at_dec [OF assms(3,4)] by (simp add: placeholder_at_def)
  have "\<not> placeholder_at ''%'' (drop i (w @ ?s))" if "off \<le> i" "i < length w" for i
  proof -
    have "w ! i \<in> set (drop off w)"
      using that nth_mem [of "i - off" "drop off w"] by simp
    then have "w ! i \<noteq> CHR ''%''" using assms(2) by metis
    moreover have "drop i (w @ ?s) = w ! i # drop (Suc i) w @ ?s"
      using that by (simp add: Cons_nth_drop_Suc [symmetric])
    ultimately show ?thesis by (simp add: placeholder_at_def)
  qed
  then show ?thesis using rx_match_skip(1) [OF assms(1) _ ph] digits_at_dec [OF assms(3,4)] by simp
qed

definition reproduces :: "(nat \<Rightarrow> string option res) \<Rightarrow> nat \<Rightarrow> bool" where
  "reproduces val k \<longleftrightarrow> length (dec k) \<le> 3 \<and>
     (\<exists>u c v. val k = Inr (Some (u @ CHR ''%'' # dec k @ c # v)) \<and> u \<noteq> [] \<and> CHR ''%'' \<notin> set u \<and> \<not> is_decimal c)"

definition faces :: "nat \<Rightarrow> string \<Rightarrow> nat \<Rightarrow> bool" where
  "faces k s off \<longleftrightarrow> (\<exists>w c v. s = w @ CHR ''%'' # dec k @ c # v \<and> off \<le> length w \<and>
     CHR ''%'' \<notin> set (drop off w) \<and> \<not> is_decimal c)"

lemma reproduced_never_ends:
  assumes "reproduces val k"
  shows "faces k s off \<Longrightarrow> subst_loop ''%'' val s off = None"
proof (rule ccontr)
  assume "faces k s off" "subst_loop ''%'' val s off \<noteq> None"
  then obtain y where y: "subst_loop ''%'' val s off = Some y" by auto
  have "val' = val \<longrightarrow> p = ''%'' \<longrightarrow> \<not> faces k s off" if "subst_loop p val' s off = Some y" for p val' s off y
    using that
  proof (induction rule: subst_loop.raw_induct [rotated, consumes 1, case_names step])
    case (step f p val' s off y)
    show ?case
    proof (intro impI notI)
      assume eq: "val' = val" "p = ''%''" and f: "faces k s off"
      from f obtain w c v where s: "s = w @ CHR ''%'' # dec k @ c # v" and w: "off \<le> length w"
        "CHR ''%'' \<notin> set (drop off w)" "\<not> is_decimal c" by (auto simp: faces_def)
      from assms obtain u c' v' where val: "val k = Inr (Some (u @ CHR ''%'' # dec k @ c' # v'))" "u \<noteq> []"
        "CHR ''%'' \<notin> set u" "\<not> is_decimal c'" and k: "length (dec k) \<le> 3" by (auto simp: reproduces_def)
      have m: "rx_match ''%'' s off = Some (length w + 1, length (dec k))"
        unfolding s by (rule rx_match_place [OF w(1,2) k w(3)])
      have next_text: "splice s (length w) (length (dec k) + 1) (u @ CHR ''%'' # dec k @ c' # v') =
          (w @ u) @ CHR ''%'' # dec k @ c' # v' @ c # v"
        by (simp add: splice_def s)
      have "f ''%'' val ((w @ u) @ CHR ''%'' # dec k @ c' # v' @ c # v) (length w + 1) = Some y"
        using step(2) m val(1) next_text unfolding eq by (simp add: s)
      then have "\<not> faces k ((w @ u) @ CHR ''%'' # dec k @ c' # v' @ c # v) (length w + 1)"
        using step(1) by blast
      moreover have "faces k ((w @ u) @ CHR ''%'' # dec k @ c' # v' @ c # v) (length w + 1)"
        unfolding faces_def using val(2-) by (intro exI [of _ "w @ u"] exI [of _ c'] exI [of _ "v' @ c # v"])
          (cases u, auto dest: in_set_dropD)
      ultimately show False by simp
    qed
  qed
  with y \<open>faces k s off\<close> show False by blast
qed

lemma length_dec_3: "k < 1000 \<Longrightarrow> length (dec k) \<le> 3"
  by (simp add: dec.simps [of k] dec.simps [of "k div 10"] dec.simps [of "k div 10 div 10"])

lemma subst_once_none: "numbers p 0 s = [] \<Longrightarrow> subst_once p f 0 s = s"
  by (induction s) (auto split: if_splits)

text \<open>C15: An argument can stop the daemon from ever returning: when the first argument number of a known format
  without templates stands for an argument that, behind at least one other character, holds the same number again as a
  placeholder, the loop puts the argument into itself for ever.\<close>

theorem argument_naming_itself_never_returns:
  assumes "lookup_string es formatid = w @ CHR ''%'' # dec k @ c # v"
    and "numbers ''%T'' 0 (lookup_string es formatid) = []"
    and "read_args T arguments argsLen 0 [] = Some (Inr args)"
    and "CHR ''%'' \<notin> set w" "\<not> is_decimal c" "0 < k" "k \<le> length args" "k < 1000"
    and "arg_text args k = u @ CHR ''%'' # dec k @ c' # v'"
    and "u \<noteq> []" "CHR ''%'' \<notin> set u" "\<not> is_decimal c'"
  shows "formatMessage T es formatid arguments argsLen = None"
proof -
  have k: "length (dec k) \<le> 3" using assms(8) by (rule length_dec_3)
  have fmt: "lookup_string es formatid \<noteq> ''''" using assms(1) by simp
  have "subst_loop ''%T'' (template_value T es args) ([] @ lookup_string es formatid) 0 =
      Some (Inr ([] @ subst_once ''%T'' undefined 0 (lookup_string es formatid)))"
    by (rule subst_loop_is_once) (use assms(2) in auto)
  then have T: "subst_loop ''%T'' (template_value T es args) (lookup_string es formatid) 0 =
      Some (Inr (lookup_string es formatid))"
    using subst_once_none [OF assms(2)] by simp
  have "reproduces (arg_value args) k"
    unfolding reproduces_def using arg_value_present [OF assms(6,7)] assms(9-12) k by auto
  moreover have "faces k (lookup_string es formatid) 0"
    unfolding faces_def assms(1) using assms(4,5) by auto
  ultimately have "subst_loop ''%'' (arg_value args) (lookup_string es formatid) 0 = None"
    by (rule reproduced_never_ends)
  then show ?thesis using fmt T assms(3) by (simp add: formatMessage_def format_args_def)
qed

section \<open>The bytes of a list of arguments\<close>

lemma be32_parts:
  "ucast (be32 a b c d) = d" "ucast (drop_bit 8 (be32 a b c d)) = c"
  "ucast (drop_bit 16 (be32 a b c d)) = b" "ucast (drop_bit 24 (be32 a b c d)) = a"
  by (rule bit_word_eqI; auto simp: be32_def bit_simps dest: bit_imp_le_length)+

lemma eqtohuint32_bounds: "eqtohuint32 p = Inr w \<Longrightarrow> 4 \<le> length p"
  by (auto simp: eqtohuint32_def result_simps)

lemma eqtohuint32_bytes: "eqtohuint32 q = Inr w \<Longrightarrow> q = le32_bytes w @ drop 4 q"
proof -
  assume r: "eqtohuint32 q = Inr w"
  then have len: "4 \<le> length q" by (rule eqtohuint32_bounds)
  then have "w = be32 (q ! 3) (q ! 2) (q ! 1) (q ! 0)" using r eqtohuint32_ok by auto
  then have "le32_bytes w = [q ! 0, q ! 1, q ! 2, q ! 3]" by (simp add: le32_bytes_def be32_parts)
  moreover have "take 4 q = [q ! 0, q ! 1, q ! 2, q ! 3]"
    using len by (intro nth_equalityI) (auto simp: numeral_eq_Suc less_Suc_eq)
  ultimately show ?thesis by (metis append_take_drop_id)
qed

definition arg_record :: "bytes \<Rightarrow> bytes" where
  "arg_record b = le32_bytes (word_of_nat (length b)) @ b"

definition framed :: "bytes \<Rightarrow> bool" where
  "framed q \<longleftrightarrow> (\<exists>rs. q = concat (map arg_record rs))"

lemma framed_Nil [simp]: "framed []"
  by (auto simp: framed_def intro: exI [of _ "[]"])

lemma unat_size: "n < 2 ^ 32 \<Longrightarrow> unat (word_of_nat n :: u32) = n"
  by (simp add: unat_of_nat take_bit_nat_eq_self)

lemma framed_Cons [simp]: "framed q \<Longrightarrow> framed (arg_record b @ q)"
  unfolding framed_def by (metis concat.simps(2) list.simps(9))

lemma framed_step:
  assumes "q \<noteq> []" "length q < 2 ^ 32"
  shows "framed q \<longleftrightarrow> (\<exists>w. eqtohuint32 q = Inr w \<and> 4 + unat w \<le> length q \<and> framed (drop (4 + unat w) q))"
proof
  assume "framed q"
  then obtain rs where q: "q = concat (map arg_record rs)" by (auto simp: framed_def)
  with assms(1) obtain b bs where rs: "rs = b # bs" by (cases rs) auto
  have "length b < 2 ^ 32" using q rs assms(2) by (simp add: arg_record_def)
  then show "\<exists>w. eqtohuint32 q = Inr w \<and> 4 + unat w \<le> length q \<and> framed (drop (4 + unat w) q)"
    unfolding q rs by (auto simp: arg_record_def unat_size framed_def)
next
  assume "\<exists>w. eqtohuint32 q = Inr w \<and> 4 + unat w \<le> length q \<and> framed (drop (4 + unat w) q)"
  then obtain w where w: "eqtohuint32 q = Inr w" "4 + unat w \<le> length q" "framed (drop (4 + unat w) q)" by auto
  then have "q = le32_bytes w @ take (unat w) (drop 4 q) @ drop (4 + unat w) q"
    by (metis add.commute append_take_drop_id drop_drop eqtohuint32_bytes)
  then have "q = arg_record (take (unat w) (drop 4 q)) @ drop (4 + unat w) q"
    using w(2) by (simp add: arg_record_def)
  then show "framed q" using framed_Cons [OF w(3)] by metis
qed

lemma read_args_framed:
  assumes "length p < 2 ^ 32" "k \<le> length p"
  shows "if framed (drop k p) then \<exists>r. read_args T p (length p) k acc = Some (Inr r)
     else read_args T p (length p) k acc = Some (Inl OutOfBounds)"
  using assms(2)
proof (induction "length p - k" arbitrary: k acc rule: less_induct)
  case less
  show ?case
  proof (cases "k < length p")
    case False
    then show ?thesis using less.prems by (subst (1 2) read_args.simps) simp
  next
    case True
    define q where "q = drop k p"
    have q: "q \<noteq> []" "length q < 2 ^ 32" using True assms(1) by (auto simp: q_def)
    show ?thesis
    proof (cases "eqtohuint32 q")
      case (Inl e)
      then have "e = OutOfBounds" by (auto simp: eqtohuint32_def rd_def split: if_splits)
      then show ?thesis using Inl True framed_step [OF q] by (subst (1 2) read_args.simps) (simp add: q_def)
    next
      case (Inr w)
      show ?thesis
      proof (cases "4 + unat w \<le> length q")
        case False
        then have "0 < w" "rd_bytes (drop (k + 4) p) (unat w) = Inl OutOfBounds"
          using eqtohuint32_bounds [OF Inr] by (auto simp: q_def rd_bytes_def word_gt_0 unat_gt_0)
        then show ?thesis using Inr True False framed_step [OF q]
          by (subst (1 2) read_args.simps) (simp add: q_def)
      next
        case fits: True
        have sum: "unat (w + 4) = 4 + unat w"
        proof -
          have "unat w + unat (4 :: u32) < 2 ^ LENGTH(32)" using fits q(2) by simp
          then show ?thesis by (simp add: unat_add_lem [THEN iffD1])
        qed
        have fr: "framed (drop k p) \<longleftrightarrow> framed (drop (k + (4 + unat w)) p)"
          using framed_step [OF q] Inr fits by (auto simp: q_def add.commute)
        define b where "b = take (unat w) (drop (k + 4) p)"
        have rd: "rd_bytes (drop (k + 4) p) (unat w) = Inr b"
          using fits True by (simp add: q_def rd_bytes_def b_def)
        have "read_args T p (length p) k acc = read_args T p (length p) (k + (4 + unat w))
            (if w > 0 then acc @ [tx_fromUtf8 T b] else acc)"
          using True Inr rd by (subst (1) read_args.simps) (simp add: q_def sum)
        then show ?thesis
          unfolding fr using less.hyps [of "k + (4 + unat w)"] fits True by (simp add: q_def)
      qed
    qed
  qed
qed

text \<open>Reading the arguments of a known message always ends, and runs past the packet exactly when the packet is not a
  sequence of texts that are each preceded by their length.\<close>

theorem message_reads_past_packet_iff:
  assumes "length p < 2 ^ 32"
  shows "read_args T p (length p) 0 [] = Some (Inl OutOfBounds) \<longleftrightarrow> \<not> framed p"
  using read_args_framed [OF assms, of 0 T "[]"] by (auto split: if_splits)

lemma read_args_records:
  assumes "list_all (\<lambda>b. length b < 2 ^ 32 - 4) rs"
  shows "read_args T (pre @ concat (map arg_record rs)) (length (pre @ concat (map arg_record rs))) (length pre) acc =
    Some (Inr (acc @ map (tx_fromUtf8 T) (filter (\<lambda>b. b \<noteq> []) rs)))"
  using assms
proof (induction rs arbitrary: pre acc)
  case Nil
  show ?case by (subst read_args.simps) simp
next
  case (Cons b rs)
  let ?w = "word_of_nat (length b) :: u32"
  have b: "length b < 2 ^ 32 - 4" and n: "unat ?w = length b" using Cons.prems by (auto simp: unat_size)
  have sum: "unat (?w + 4) = 4 + length b"
  proof -
    have "unat ?w + unat (4 :: u32) < 2 ^ LENGTH(32)" using b n by simp
    then show ?thesis using n by (simp add: unat_add_lem [THEN iffD1])
  qed
  have pos: "?w > 0 \<longleftrightarrow> b \<noteq> []" using n by (metis length_0_conv unat_eq_zero word_gt_0)
  have "read_args T (pre @ concat (map arg_record (b # rs))) (length (pre @ concat (map arg_record (b # rs)))) (length pre) acc =
      read_args T ((pre @ arg_record b) @ concat (map arg_record rs))
        (length ((pre @ arg_record b) @ concat (map arg_record rs))) (length (pre @ arg_record b))
        (acc @ map (tx_fromUtf8 T) (filter (\<lambda>b. b \<noteq> []) [b]))"
    by (subst read_args.simps) (auto simp: arg_record_def n sum pos rd_bytes_def)
  also have "\<dots> = Some (Inr ((acc @ map (tx_fromUtf8 T) (filter (\<lambda>b. b \<noteq> []) [b])) @
      map (tx_fromUtf8 T) (filter (\<lambda>b. b \<noteq> []) rs)))"
    by (rule Cons.IH) (use Cons.prems in auto)
  finally show ?case by (simp del: append_assoc add: append_assoc [symmetric])
qed

definition unlinked :: "string \<Rightarrow> string" where
  "unlinked raw = filter (\<lambda>c. c \<noteq> CHR 0x12) raw"

text \<open>Arguments that are already split come out of the bytes they are put into as they were, without their link
  markers, except that the empty ones are gone and the ones behind them have a smaller number.\<close>

theorem split_arguments_roundtrip:
  assumes "\<forall>s. tx_fromUtf8 T (tx_toUtf8 T s) = s" "tx_toUtf8 T '''' = []"
    and "\<forall>a\<in>set args. length (tx_toUtf8 T (unlinked a)) < 2 ^ 32 - 4"
  shows "read_args T (concat (map (encode_arg T) args)) (length (concat (map (encode_arg T) args))) 0 [] =
    Some (Inr (filter (\<lambda>s. s \<noteq> '''') (map unlinked args)))"
proof -
  have enc: "encode_arg T = (\<lambda>a. arg_record (tx_toUtf8 T (unlinked a)))"
    by (rule ext) (simp add: encode_arg_def arg_record_def unlinked_def Let_def)
  have empty: "tx_toUtf8 T s = [] \<longleftrightarrow> s = ''''" for s by (metis assms(1,2))
  have "map (tx_fromUtf8 T) (filter (\<lambda>b. b \<noteq> []) (map (\<lambda>a. tx_toUtf8 T (unlinked a)) args)) =
      filter (\<lambda>s. s \<noteq> '''') (map unlinked args)"
    using assms(1) by (induction args) (auto simp: empty)
  then show ?thesis
    using read_args_records [of "map (\<lambda>a. tx_toUtf8 T (unlinked a)) args" T "[]" "[]"] assms(3)
    by (simp add: enc list_all_iff comp_def)
qed

section \<open>Runs\<close>

text \<open>Conversions that keep one byte per character.\<close>

definition demo_text :: text_lib where
  "demo_text = \<lparr>tx_fromUtf8 = map (\<lambda>b. char_of (unat b)), tx_toUtf8 = map (\<lambda>c. word_of_nat (of_char c)),
     tx_toULong = (\<lambda>s. word_of_nat (undec s)),
     tx_toInt = (\<lambda>s. if s \<noteq> '''' \<and> list_all is_decimal s then Some (word_of_nat (undec s)) else None)\<rparr>"

lemma byte_chars: "char_of (unat (word_of_nat (of_char c) :: u8)) = c"
proof -
  have "of_char c < (2 :: nat) ^ 8" using nat_of_char_less_256 [of c] by simp
  then have "unat (word_of_nat (of_char c) :: u8) = of_char c" by (simp add: unat_of_nat take_bit_nat_eq_self)
  then show ?thesis by simp
qed

definition demo_eqstr :: eqstr where
  "demo_eqstr = \<lparr>es_messageStrings = [(7, ''the rat of %1''), (12, ''%1 hits %T2 twice.''), (13, ''%1 was slain.'')],
     es_loaded = True\<rparr>"

definition demo_args :: "string list \<Rightarrow> bytes" where
  "demo_args args = concat (map (encode_arg demo_text) args)"

theorem message_is_substituted_once_witness:
  "formatMessage demo_text demo_eqstr 12 (demo_args [''9^Bob'', ''7'']) 14 = Some (Inr ''Bob hits the rat of Bob twice.'')"
proof -
  have "formatMessage demo_text demo_eqstr 12 (demo_args [''9^Bob'', ''7'']) 14 =
      Some (Inr (subst_once ''%'' (arg_text [''9^Bob'', ''7'']) 0
        (subst_once ''%T'' (\<lambda>n. ''the rat of %1'') 0 (lookup_string demo_eqstr 12))))"
    by (rule message_is_substituted_once) code_simp+
  then show ?thesis by code_simp
qed

theorem argument_naming_itself_never_returns_witness:
  "formatMessage demo_text demo_eqstr 13 (demo_args [''a %1.'']) 9 = None"
  by (rule argument_naming_itself_never_returns
      [where w = "''''" and k = 1 and c = "CHR '' ''" and v = "''was slain.''" and args = "[''a %1.'']" and u = "''a ''"
        and c' = "CHR ''.''" and v' = "''''"]) code_simp+

theorem message_reads_past_packet_iff_witness:
  "read_args demo_text [2, 0, 0, 0, 65] 5 0 [] = Some (Inl OutOfBounds) \<and> \<not> framed [2, 0, 0, 0, 65]"
proof -
  have len: "length ([2, 0, 0, 0, 65] :: bytes) = 5" by simp
  have "eqtohuint32 [2, 0, 0, 0, 65] = Inr 2" by code_simp
  then have "read_args demo_text [2, 0, 0, 0, 65] 5 0 [] = Some (Inl OutOfBounds)"
    by (subst read_args.simps) (simp add: rd_bytes_def)
  then show ?thesis using message_reads_past_packet_iff [of "[2, 0, 0, 0, 65]" demo_text] unfolding len by simp
qed

text \<open>An empty argument shifts the number of the one behind it.\<close>

theorem split_arguments_roundtrip_witness:
  "read_args demo_text (demo_args [''Bob'', '''', ''rat'']) 18 0 [] = Some (Inr [''Bob'', ''rat''])"
proof -
  have "tx_fromUtf8 demo_text (tx_toUtf8 demo_text s) = s" for s
    by (induction s) (simp_all add: demo_text_def byte_chars)
  then have "read_args demo_text (concat (map (encode_arg demo_text) [''Bob'', '''', ''rat'']))
      (length (concat (map (encode_arg demo_text) [''Bob'', '''', ''rat'']))) 0 [] =
      Some (Inr (filter (\<lambda>s. s \<noteq> '''') (map unlinked [''Bob'', '''', ''rat''])))"
    by (intro split_arguments_roundtrip) (simp_all add: demo_text_def unlinked_def)
  moreover have "length (concat (map (encode_arg demo_text) [''Bob'', '''', ''rat''])) = 18" by code_simp
  moreover have "filter (\<lambda>s. s \<noteq> '''') (map unlinked [''Bob'', '''', ''rat'']) = [''Bob'', ''rat'']" by code_simp
  ultimately show ?thesis by (simp add: demo_args_def)
qed

text \<open>An argument whose cleaned text is empty, and one that is missing, hide the placeholder behind theirs: the search
  goes on from a place of the text before the replacement.\<close>

definition holes :: eqstr where
  "holes = \<lparr>es_messageStrings = [(1, ''%1%2''), (2, ''%5 %1'')], es_loaded = True\<rparr>"

lemma empty_argument_hides_next:
  "formatMessage demo_text holes 1 (demo_args [''9^'', ''rat'']) 13 = Some (Inr ''%2'')"
  by code_simp

lemma missing_argument_hides_next:
  "formatMessage demo_text holes 2 (demo_args [''rat'']) 7 = Some (Inr '' %1'')"
  by code_simp

end
