(* ===== verification/Spells.thy ===== *)
theory Spells
  imports QtText Tables
begin

text \<open>
  The table of spells (\<open>src/spells.h\<close>, \<open>src/spells.cpp\<close>): a line of the client's spell file, how long a spell lasts
  at a level, and the array the spells are found in. The conversions from text are fields of \<open>spell_text\<close>.
\<close>

section \<open>A spell\<close>

record spell_text =
  st_toUInt :: "string \<Rightarrow> u32"
  st_toUShort :: "string \<Rightarrow> u16"
  st_fromUtf8 :: "bytes \<Rightarrow> string"
  st_fromUtf16 :: "bytes \<Rightarrow> string"

record spell =
  sp_spell :: u32
  sp_name :: string
  sp_buffDurationFormula :: u16
  sp_buffDurationArgument :: u16
  sp_targetType :: u8
  sp_beneficial :: bool
  sp_icon :: u16
  sp_classLevels :: "u8 list"

definition playerClasses :: nat where "playerClasses = 16"

text \<open>A part of the line by its index: \<open>operator[]\<close>, and \<open>value\<close> with its default.\<close>

definition part :: "string list \<Rightarrow> nat \<Rightarrow> string res" where
  "part ws i = (if i < length ws then Inr (ws ! i) else Inl OutOfBounds)"

definition part_value :: "string list \<Rightarrow> nat \<Rightarrow> string" where
  "part_value ws i = (if i < length ws then ws ! i else '''')"

fun parts_from :: "string list \<Rightarrow> nat \<Rightarrow> nat \<Rightarrow> string list res" where
  "parts_from ws i 0 = Inr []"
| "parts_from ws i (Suc n) = rbind (part ws i) (\<lambda>w. rbind (parts_from ws (Suc i) n) (\<lambda>r. Inr (w # r)))"

definition mkSpell :: "spell_text \<Rightarrow> string \<Rightarrow> spell res" where
  "mkSpell T line =
     (let info = split_char CHR ''^'' line in
      rbind (part info 0) (\<lambda>i. rbind (part info 1) (\<lambda>n. rbind (part info 11) (\<lambda>f. rbind (part info 12) (\<lambda>a.
      rbind (part info 32) (\<lambda>t. rbind (parts_from info 36 playerClasses) (\<lambda>ls.
        Inr \<lparr>sp_spell = st_toUInt T i, sp_name = n, sp_buffDurationFormula = st_toUShort T f,
          sp_buffDurationArgument = st_toUShort T a, sp_targetType = ucast (st_toUShort T t),
          sp_beneficial = (st_toUShort T (part_value info 28) \<noteq> 0), sp_icon = st_toUShort T (part_value info 75),
          sp_classLevels = map (\<lambda>l. ucast (st_toUShort T l)) ls\<rparr>)))))))"

definition sp_level :: "u8 \<Rightarrow> spell \<Rightarrow> u8" where
  "sp_level cls s = (if 0 < unat cls \<and> unat cls \<le> playerClasses then sp_classLevels s ! (unat cls - 1) else 255)"

definition isSong :: "spell \<Rightarrow> bool" where
  "isSong s \<longleftrightarrow> sp_classLevels s ! 7 \<noteq> 255"

text \<open>The smaller of two signed 16-bit numbers.\<close>

definition min16 :: "u16 \<Rightarrow> u16 \<Rightarrow> u16" where
  "min16 a b = (if sint b < sint a then b else a)"

text \<open>
  Rounding half a level up is \<open>(level + 1) div 2\<close>, and six tenths of it never lie half-way. The permanent 65535 does
  not fit the signed 16 bits of the result.
\<close>

definition calcDuration :: "u8 \<Rightarrow> spell \<Rightarrow> u16" where
  "calcDuration lvl s =
     (let f = sint (sp_buffDurationFormula s); a = sp_buffDurationArgument s; l = unat lvl in
      if f = 0 then 0
      else if f = 1 \<or> f = 6 then min16 (word_of_nat ((l + 1) div 2)) a
      else if f = 3 \<or> f = 4 \<or> f = 11 \<or> f = 12 then a
      else if f = 2 then min16 (word_of_nat ((6 * l + 5) div 10)) a
      else if f = 5 then 3
      else if f = 7 then min16 (word_of_nat l) a
      else if f = 8 then min16 (word_of_nat (l + 10)) a
      else if f = 9 then min16 (word_of_nat (l * 2 + 10)) a
      else if f = 10 then min16 (word_of_nat (l * 3 + 10)) a
      else if f = 50 then 65535
      else if f = 51 then a
      else if f = 3600 then 3600
      else a)"

section \<open>The table\<close>

text \<open>The array is its size and the pointers in it that are not null.\<close>

record spells =
  sps_maxSpell :: u32
  sps_spells :: "(nat \<times> (u32 \<times> spell) list) option"

definition unloadSpells :: "spells \<Rightarrow> spells" where
  "unloadSpells ss = ss\<lparr>sps_spells := None\<rparr>"

definition spells_text :: "spell_text \<Rightarrow> bytes \<Rightarrow> string" where
  "spells_text T raw =
     (let b = raw @ [0, 0]; unicodeIndicator = unat (b ! 0) + 256 * unat (b ! 1) in
      if unicodeIndicator \<noteq> 0xFFFE \<and> unicodeIndicator \<noteq> 0xFEFF then st_fromUtf8 T raw else st_fromUtf16 T raw)"

fun mkSpells :: "spell_text \<Rightarrow> string list \<Rightarrow> spell list res" where
  "mkSpells T [] = Inr []"
| "mkSpells T (l # ls) = rbind (mkSpell T l) (\<lambda>s. rbind (mkSpells T ls) (\<lambda>r. Inr (s # r)))"

fun enter_spells :: "nat \<Rightarrow> spell list \<Rightarrow> (u32 \<times> spell) list \<Rightarrow> (u32 \<times> spell) list res" where
  "enter_spells n [] t = Inr t"
| "enter_spells n (s # ss) t =
     (if unat (sp_spell s) < n then enter_spells n ss (AList.update (sp_spell s) s t) else Inl OutOfBounds)"

text \<open>The largest number of an earlier file is kept, and so is the size it asks for.\<close>

definition loadSpells :: "spell_text \<Rightarrow> bytes option \<Rightarrow> spells \<Rightarrow> spells res" where
  "loadSpells T file_data ss =
     (let ss = unloadSpells ss in
      case file_data of
        None \<Rightarrow> Inr ss
      | Some raw \<Rightarrow>
         rbind (mkSpells T (split_lines [] (spells_text T raw))) (\<lambda>q.
           let mx = fold (\<lambda>s m. if m < sp_spell s then sp_spell s else m) q (sps_maxSpell ss); n = unat (mx + 1) in
           rbind (enter_spells n q []) (\<lambda>t. Inr \<lparr>sps_maxSpell = mx, sps_spells = Some (n, t)\<rparr>)))"

definition mkSpells_table :: "spell_text \<Rightarrow> bytes option \<Rightarrow> spells res" where
  "mkSpells_table T file_data = loadSpells T file_data \<lparr>sps_maxSpell = 0, sps_spells = None\<rparr>"

text \<open>Indexing no array is out of bounds.\<close>

definition find_spell :: "u32 \<Rightarrow> spells \<Rightarrow> spell option res" where
  "find_spell i ss =
     (if sps_maxSpell ss \<le> i then Inr None
      else case sps_spells ss of
        None \<Rightarrow> Inl OutOfBounds
      | Some (n, t) \<Rightarrow> if unat i < n then Inr (map_of t i) else Inl OutOfBounds)"

end
