(* ===== verification/SpellShell.thy ===== *)
theory SpellShell
  imports Spells PacketCommon
begin

text \<open>
  The buffs of the player and the effects on the mobs (\<open>src/spellshell.h\<close>, \<open>src/spellshell.cpp\<close>).

  An object is a number that is never used again, and the two lists hold the objects with their numbers. The signals
  are recorded in the order they are emitted. The player, the names of the spawns, the table of spells, the
  interval of the settings and the clock are the environment; the decoders of the packets are fields of
  \<open>spell_decoders\<close>. Whether the timer runs is kept, and each of its ticks is a call of \<open>timeout\<close>.
\<close>

section \<open>Objects\<close>

record spell_item =
  si_spellName :: string
  si_casterName :: string
  si_targetName :: string
  si_duration :: u32
  si_castTime :: int
  si_spellId :: u32
  si_casterId :: u16
  si_targetId :: u16
  si_buffSlot :: u32
  si_isSong :: bool
  si_beneficial :: bool
  si_icon :: u16
  si_permanent :: bool

definition PERMANENT_DURATION :: u32 where "PERMANENT_DURATION = - 1"

definition mkSpellItem :: spell_item where
  "mkSpellItem = \<lparr>si_spellName = '''', si_casterName = '''', si_targetName = '''', si_duration = 0, si_castTime = 0,
     si_spellId = 0, si_casterId = 0, si_targetId = 0, si_buffSlot = - 1, si_isSong = False, si_beneficial = True,
     si_icon = 0, si_permanent = False\<rparr>"

datatype spell_event =
    AddSpell nat | DelSpell nat | ChangeSpell nat | ClearSpells
  | AddEffect nat | DelEffect nat | ChangeEffect nat | ClearEffects

record spell_env =
  se_id :: u16
  se_name :: string
  se_level :: u8
  se_spawn :: "u16 \<Rightarrow> string option"
  se_spells :: spells
  se_spell_name :: "u32 \<Rightarrow> string"
  se_interval :: u32
  se_time :: int

record spell_shell =
  ss_spellList :: "(nat \<times> spell_item) list"
  ss_targetEffects :: "(nat \<times> spell_item) list"
  ss_lastPlayerSpell :: "nat option"
  ss_timer :: bool
  ss_next :: nat
  ss_events :: "spell_event list"

definition mkSpellShell :: spell_shell where
  "mkSpellShell = \<lparr>ss_spellList = [], ss_targetEffects = [], ss_lastPlayerSpell = None, ss_timer = False, ss_next = 0,
     ss_events = []\<rparr>"

definition or_na :: "string \<Rightarrow> string" where
  "or_na s = (if s = '''' then ''N/A'' else s)"

text \<open>A spell whose target is its caster leaves the target as it was.\<close>

definition item_update ::
  "spell_env \<Rightarrow> u32 \<Rightarrow> spell option \<Rightarrow> u32 \<Rightarrow> u16 \<Rightarrow> string \<Rightarrow> u16 \<Rightarrow> string \<Rightarrow> spell_item \<Rightarrow> spell_item" where
  "item_update v spellId sp dur casterId casterName targetId targetName it =
     (let it = it\<lparr>si_spellId := spellId, si_duration := dur\<rparr>;
          it = (case sp of
             Some s \<Rightarrow>
               (let it = it\<lparr>si_spellName := sp_name s, si_isSong := isSong s, si_beneficial := sp_beneficial s,
                      si_icon := sp_icon s\<rparr>
                in if sp_targetType s \<noteq> 6 then it\<lparr>si_targetId := targetId\<rparr> else it)
           | None \<Rightarrow> it\<lparr>si_spellName := se_spell_name v spellId, si_isSong := False, si_beneficial := True,
               si_targetId := targetId\<rparr>)
      in it\<lparr>si_casterId := casterId, si_casterName := or_na casterName, si_targetName := or_na targetName,
           si_castTime := se_time v\<rparr>)"

definition durationStr :: "spell_item \<Rightarrow> nat \<times> nat \<times> nat" where
  "durationStr it =
     (let d = nat (max 0 (sint (si_duration it))) in (d div 3600, d mod 3600 div 60, d mod 3600 mod 60))"

section \<open>The lists\<close>

definition emit_spell :: "spell_event \<Rightarrow> spell_shell \<Rightarrow> spell_shell" where
  "emit_spell e s = s\<lparr>ss_events := ss_events s @ [e]\<rparr>"

definition start_timer :: "spell_shell \<Rightarrow> spell_shell" where
  "start_timer s = s\<lparr>ss_timer := True\<rparr>"

definition stop_timer :: "spell_shell \<Rightarrow> spell_shell" where
  "stop_timer s = s\<lparr>ss_timer := False\<rparr>"

definition without :: "nat \<Rightarrow> (nat \<times> 'a) list \<Rightarrow> (nat \<times> 'a) list" where
  "without a l = filter (\<lambda>(b, it). b \<noteq> a) l"

definition set_in :: "nat \<Rightarrow> ('a \<Rightarrow> 'a) \<Rightarrow> (nat \<times> 'a) list \<Rightarrow> (nat \<times> 'a) list" where
  "set_in a f l = map (\<lambda>(b, it). (b, if b = a then f it else it)) l"

definition findSpell :: "u32 \<Rightarrow> u16 \<Rightarrow> string \<Rightarrow> spell_shell \<Rightarrow> nat option" where
  "findSpell spellId targetId targetName s =
     map_option fst (find (\<lambda>(a, it). si_spellId it = spellId \<and>
       (si_targetId it = targetId \<or> si_targetId it = 0 \<and> si_targetName it = targetName)) (ss_spellList s))"

definition findSpell_id :: "u32 \<Rightarrow> spell_shell \<Rightarrow> nat option" where
  "findSpell_id spellId s = map_option fst (find (\<lambda>(a, it). si_spellId it = spellId) (ss_spellList s))"

definition findSpellBySlot :: "u32 \<Rightarrow> spell_shell \<Rightarrow> nat option" where
  "findSpellBySlot slot s = map_option fst (find (\<lambda>(a, it). si_buffSlot it = slot) (ss_spellList s))"

definition findEffect :: "u32 \<Rightarrow> u16 \<Rightarrow> spell_shell \<Rightarrow> nat option" where
  "findEffect spellId targetId s =
     map_option fst (find (\<lambda>(a, it). si_spellId it = spellId \<and> si_targetId it = targetId) (ss_targetEffects s))"

definition change_spell :: "nat \<Rightarrow> (spell_item \<Rightarrow> spell_item) \<Rightarrow> spell_shell \<Rightarrow> spell_shell" where
  "change_spell a f s = emit_spell (ChangeSpell a) (s\<lparr>ss_spellList := set_in a f (ss_spellList s)\<rparr>)"

definition append_spell :: "spell_item \<Rightarrow> spell_shell \<Rightarrow> spell_shell" where
  "append_spell it s = s\<lparr>ss_spellList := ss_spellList s @ [(ss_next s, it)], ss_next := Suc (ss_next s)\<rparr>"

definition change_effect :: "nat \<Rightarrow> (spell_item \<Rightarrow> spell_item) \<Rightarrow> spell_shell \<Rightarrow> spell_shell" where
  "change_effect a f s = emit_spell (ChangeEffect a) (s\<lparr>ss_targetEffects := set_in a f (ss_targetEffects s)\<rparr>)"

definition append_effect :: "spell_item \<Rightarrow> spell_shell \<Rightarrow> spell_shell" where
  "append_effect it s = s\<lparr>ss_targetEffects := ss_targetEffects s @ [(ss_next s, it)], ss_next := Suc (ss_next s)\<rparr>"

definition clear_spells :: "spell_shell \<Rightarrow> spell_shell" where
  "clear_spells s =
     (let s = emit_spell ClearSpells s; s = s\<lparr>ss_lastPlayerSpell := None, ss_spellList := []\<rparr>;
          s = (if ss_targetEffects s \<noteq> [] then (emit_spell ClearEffects s)\<lparr>ss_targetEffects := []\<rparr> else s)
      in stop_timer s)"

text \<open>The timer stops with the last buff, whatever the effects are.\<close>

definition deleteSpell :: "nat \<Rightarrow> spell_shell \<Rightarrow> spell_shell" where
  "deleteSpell a s =
     (let s = (if ss_lastPlayerSpell s = Some a then s\<lparr>ss_lastPlayerSpell := None\<rparr> else s);
          s = s\<lparr>ss_spellList := without a (ss_spellList s)\<rparr>;
          s = (if ss_spellList s = [] then stop_timer s else s)
      in emit_spell (DelSpell a) s)"

section \<open>Buffs of the profile and of OP_Buff\<close>

definition buffLoad :: "spell_env \<Rightarrow> u32 \<Rightarrow> u32 \<Rightarrow> spell_shell \<Rightarrow> spell_shell res" where
  "buffLoad v spellid ticks s =
     rbind (find_spell spellid (se_spells v)) (\<lambda>sp.
       let upd = item_update v spellid sp (ticks * 6) 0 ''Buff'' (se_id v) (se_name v) in
       case findSpell spellid (se_id v) (se_name v) s of
         Some a \<Rightarrow> Inr (change_spell a upd s)
       | None \<Rightarrow> Inr (emit_spell (AddSpell (ss_next s)) (start_timer (append_spell (upd mkSpellItem) s))))"

record buff_out =
  bo_form :: u8
  bo_spawn_id :: u32
  bo_spell_id :: u32
  bo_slot :: u8
  bo_dur_ticks :: u32

record buff_entry =
  be_spawn_id :: u32
  be_spell_id :: u32
  be_slot :: u32
  be_remaining_ticks :: u32
  be_caster :: bytes

record action_out =
  ao_target :: u16
  ao_source :: u16
  ao_spell :: u16
  ao_level :: u8
  ao_kind :: u8

record spell_decoders =
  sd_buff :: "bytes \<Rightarrow> buff_out option"
  sd_buff_list :: "bytes \<Rightarrow> buff_entry list"
  sd_action :: "bytes \<Rightarrow> action_out option"
  sd_action_alt :: "bytes \<Rightarrow> action_out option"

definition to_seconds :: "u16 \<Rightarrow> u32" where
  "to_seconds d = scast d * 6"

text \<open>The slot is 255 when there is none.\<close>

definition buff_apply :: "spell_env \<Rightarrow> buff_out \<Rightarrow> u16 \<Rightarrow> spell option \<Rightarrow> nat option \<Rightarrow> u32 \<Rightarrow> u8 \<Rightarrow> spell_shell \<Rightarrow> spell_shell" where
  "buff_apply v b owner sp item dur slot s =
     (if sint dur \<le> 0 then s
      else let put_slot = (\<lambda>it. if slot \<noteq> 0xFF then it\<lparr>si_buffSlot := ucast slot\<rparr> else it) in
        (case item of
           Some a \<Rightarrow> change_spell a (\<lambda>it. put_slot (it\<lparr>si_duration := dur\<rparr>)) s
         | None \<Rightarrow> emit_spell (AddSpell (ss_next s)) (start_timer (append_spell
             (put_slot (item_update v (bo_spell_id b) sp dur 0 '''' owner '''' mkSpellItem)) s))))"

definition buff :: "spell_env \<Rightarrow> spell_decoders \<Rightarrow> bytes \<Rightarrow> u8 \<Rightarrow> spell_shell \<Rightarrow> spell_shell res" where
  "buff v D data dir s =
     (if dir = DIR_Client then Inr s
      else case sd_buff D data of
        None \<Rightarrow> Inr s
      | Some b \<Rightarrow>
         (let compact = (bo_form b = 3) in
          if \<not> compact \<and> se_id v \<noteq> 0 \<and> bo_spawn_id b \<noteq> ucast (se_id v) then Inr s
          else if bo_spell_id b = 0xFFFFFFFF \<or> bo_spell_id b = 0 then Inr s
          else
            (let owner = (if compact then se_id v else ucast (bo_spawn_id b)) in
             rbind (find_spell (bo_spell_id b) (se_spells v)) (\<lambda>sp.
               let item = findSpell (bo_spell_id b) owner '''' s in
               if compact then Inr s
               else if bo_form b = 0 then Inr (case item of Some a \<Rightarrow> deleteSpell a s | None \<Rightarrow> s)
               else if bo_form b = 1 then
                 Inr (buff_apply v b owner sp item
                   (case sp of Some sp \<Rightarrow> to_seconds (calcDuration (se_level v) sp) | None \<Rightarrow> 0) (bo_slot b) s)
               else Inr (buff_apply v b owner sp item (bo_dur_ticks b * 6) 0xFF s)))))"

section \<open>OP_BuffList\<close>

definition valid_spell :: "u32 \<Rightarrow> bool" where
  "valid_spell i \<longleftrightarrow> i \<noteq> 0 \<and> i \<noteq> 0xFFFFFFFF"

definition latin1 :: "bytes \<Rightarrow> string" where
  "latin1 b = map (\<lambda>x. char_of (unat x)) b"

definition entry_permanent :: "buff_entry \<Rightarrow> bool" where
  "entry_permanent e \<longleftrightarrow> sint (be_remaining_ticks e) \<le> 0"

definition entry_duration :: "buff_entry \<Rightarrow> u32" where
  "entry_duration e = (if entry_permanent e then PERMANENT_DURATION else be_remaining_ticks e * 6)"

definition entry_casterId :: "spell_env \<Rightarrow> buff_entry \<Rightarrow> u16" where
  "entry_casterId v e = (if latin1 (be_caster e) \<noteq> '''' \<and> latin1 (be_caster e) = se_name v then se_id v else 0)"

definition entry_caster :: "buff_entry \<Rightarrow> string" where
  "entry_caster e = (if latin1 (be_caster e) = '''' then ''Buff'' else latin1 (be_caster e))"

definition entry_refresh :: "buff_entry \<Rightarrow> spell_item \<Rightarrow> spell_item" where
  "entry_refresh e it =
     it\<lparr>si_duration := entry_duration e, si_permanent := entry_permanent e, si_buffSlot := be_slot e\<rparr>"

definition entry_item :: "spell_env \<Rightarrow> buff_entry \<Rightarrow> spell option \<Rightarrow> u16 \<Rightarrow> string \<Rightarrow> spell_item" where
  "entry_item v e sp owner owner_name =
     (item_update v (be_spell_id e) sp (entry_duration e) (entry_casterId v e) (entry_caster e) owner owner_name
       mkSpellItem)\<lparr>si_permanent := entry_permanent e, si_buffSlot := be_slot e\<rparr>"

text \<open>One record of the buffs of a mob, and of the player; whether one was added is carried along.\<close>

definition mob_entry ::
  "spell_env \<Rightarrow> u16 \<Rightarrow> string \<Rightarrow> buff_entry \<Rightarrow> bool \<times> spell_shell \<Rightarrow> (bool \<times> spell_shell) res" where
  "mob_entry v mobId mobName e r =
     (let (added, s) = r in
      if \<not> valid_spell (be_spell_id e) then Inr r
      else case findEffect (be_spell_id e) mobId s of
        Some a \<Rightarrow> Inr (added, change_effect a (entry_refresh e) s)
      | None \<Rightarrow> rbind (find_spell (be_spell_id e) (se_spells v)) (\<lambda>sp.
          Inr (True, emit_spell (AddEffect (ss_next s)) (append_effect (entry_item v e sp mobId mobName) s))))"

definition own_entry :: "spell_env \<Rightarrow> buff_entry \<Rightarrow> bool \<times> spell_shell \<Rightarrow> (bool \<times> spell_shell) res" where
  "own_entry v e r =
     (let (added, s) = r in
      if \<not> valid_spell (be_spell_id e) then Inr r
      else rbind (find_spell (be_spell_id e) (se_spells v)) (\<lambda>sp.
        case findSpell (be_spell_id e) (se_id v) (se_name v) s of
          Some a \<Rightarrow> Inr (added, change_spell a (entry_refresh e) s)
        | None \<Rightarrow> Inr (True,
            emit_spell (AddSpell (ss_next s)) (append_spell (entry_item v e sp (se_id v) (se_name v)) s))))"

definition is_listed :: "buff_entry list \<Rightarrow> spell_item \<Rightarrow> bool" where
  "is_listed es it \<longleftrightarrow> si_spellId it \<in> set (map be_spell_id es)"

definition removeEffect :: "nat \<Rightarrow> spell_shell \<Rightarrow> spell_shell" where
  "removeEffect a s = emit_spell (DelEffect a) (s\<lparr>ss_targetEffects := without a (ss_targetEffects s)\<rparr>)"

definition start_if :: "bool \<Rightarrow> spell_shell \<Rightarrow> spell_shell" where
  "start_if added s = (if added then start_timer s else s)"

definition keys_where :: "('a \<Rightarrow> bool) \<Rightarrow> (nat \<times> 'a) list \<Rightarrow> nat list" where
  "keys_where P l = map fst (filter (\<lambda>(a, it). P it) l)"

definition mob_buffs :: "spell_env \<Rightarrow> u16 \<Rightarrow> string \<Rightarrow> buff_entry list \<Rightarrow> spell_shell \<Rightarrow> spell_shell res" where
  "mob_buffs v mobId mobName es s =
     rbind (run_ops (mob_entry v mobId mobName) es (False, s)) (\<lambda>(added, s).
       let gone = keys_where (\<lambda>it. si_targetId it = mobId \<and> si_casterId it \<noteq> se_id v \<and> \<not> is_listed es it)
             (ss_targetEffects s)
       in Inr (start_if added (fold removeEffect gone s)))"

definition drop_orphans :: "spell_env \<Rightarrow> spell_shell \<Rightarrow> spell_shell" where
  "drop_orphans v s =
     (if se_name v = '''' then s
      else fold deleteSpell
        (keys_where (\<lambda>it. si_targetName it = se_name v \<and> si_targetId it \<noteq> se_id v) (ss_spellList s)) s)"

definition own_buffs :: "spell_env \<Rightarrow> buff_entry list \<Rightarrow> spell_shell \<Rightarrow> spell_shell res" where
  "own_buffs v es s =
     rbind (run_ops (own_entry v) es (False, drop_orphans v s)) (\<lambda>(added, s).
       Inr (start_if added (fold deleteSpell (keys_where (\<lambda>it. \<not> is_listed es it) (ss_spellList s)) s)))"

definition buffList :: "spell_env \<Rightarrow> spell_decoders \<Rightarrow> bytes \<Rightarrow> u8 \<Rightarrow> spell_shell \<Rightarrow> spell_shell res" where
  "buffList v D data dir s =
     (if dir = DIR_Client then Inr s
      else case sd_buff_list D data of
        [] \<Rightarrow> Inr s
      | e # es \<Rightarrow>
         (let mobId = ucast (be_spawn_id e) in
          case (if be_spawn_id e = ucast (se_id v) then None else se_spawn v mobId) of
            Some mobName \<Rightarrow> mob_buffs v mobId mobName (e # es) s
          | None \<Rightarrow> own_buffs v (e # es) s))"

section \<open>OP_Action\<close>

definition name_of :: "spell_env \<Rightarrow> u16 \<Rightarrow> string" where
  "name_of v i = (if i = 0 then '''' else case se_spawn v i of Some n \<Rightarrow> n | None \<Rightarrow> '''')"

definition action_duration :: "u8 \<Rightarrow> spell option \<Rightarrow> u32" where
  "action_duration lvl sp = (case sp of Some s \<Rightarrow> to_seconds (calcDuration lvl s) | None \<Rightarrow> 0)"

definition action_apply :: "spell_env \<Rightarrow> action_out \<Rightarrow> spell_shell \<Rightarrow> spell_shell res" where
  "action_apply v a s =
     (if ao_kind a \<noteq> 0xE7 then Inr s
      else
        (let spellId = ucast (ao_spell a); targetName = name_of v (ao_target a);
             item = findSpell spellId (ao_target a) targetName s in
         if item \<noteq> None \<or> ao_target a = se_id v then
           rbind (find_spell spellId (se_spells v)) (\<lambda>sp.
             let dur = action_duration (ao_level a) sp;
                 upd = item_update v spellId sp dur (ao_source a) (name_of v (ao_source a)) (ao_target a) targetName in
             case item of
               Some i \<Rightarrow> Inr (change_spell i upd s)
             | None \<Rightarrow>
                 if sint dur > 0
                 then Inr (emit_spell (AddSpell (ss_next s)) (start_timer (append_spell (upd mkSpellItem) s)))
                 else Inr s)
         else if ao_source a = se_id v \<and> ao_target a \<noteq> 0 then
           rbind (find_spell spellId (se_spells v)) (\<lambda>sp.
             let dur = action_duration (ao_level a) sp;
                 upd = item_update v spellId sp dur (ao_source a) (se_name v) (ao_target a) targetName in
             if sint dur \<le> 0 then Inr s
             else case findEffect spellId (ao_target a) s of
               Some i \<Rightarrow> Inr (change_effect i upd s)
             | None \<Rightarrow>
                 Inr (emit_spell (AddEffect (ss_next s)) (start_timer (append_effect (upd mkSpellItem) s))))
         else Inr s))"

definition sizeof_actionStruct :: nat where "sizeof_actionStruct = 64"
definition sizeof_actionAltStruct :: nat where "sizeof_actionAltStruct = 88"

definition action :: "spell_env \<Rightarrow> spell_decoders \<Rightarrow> bytes \<Rightarrow> spell_shell \<Rightarrow> spell_shell res" where
  "action v D data s =
     (if length data \<noteq> sizeof_actionStruct \<and> length data \<noteq> sizeof_actionAltStruct then Inr s
      else case (if length data = sizeof_actionAltStruct then sd_action_alt D data else sd_action D data) of
        None \<Rightarrow> Inr s
      | Some a \<Rightarrow> action_apply v a s)"

section \<open>Messages\<close>

definition fading_formats :: "u32 set" where
  "fading_formats = {191, 239, 240, 242, 243, 244, 245, 248, 251, 253, 255, 263, 264, 268, 269, 271, 272, 439, 3285,
     9035, 9036}"

definition simpleMessage :: "bytes \<Rightarrow> spell_shell \<Rightarrow> spell_shell res" where
  "simpleMessage data s =
     (case ss_lastPlayerSpell s of
        None \<Rightarrow> Inr s
      | Some a \<Rightarrow> rbind (eqtohuint32 data) (\<lambda>f.
          if f \<in> fading_formats then Inr ((deleteSpell a s)\<lparr>ss_lastPlayerSpell := None\<rparr>) else Inr s))"

text \<open>A negative length takes the whole text.\<close>

definition right_of :: "int \<Rightarrow> string \<Rightarrow> string" where
  "right_of n s = (if n < 0 then s else drop (length s - nat n) s)"

definition left_of :: "int \<Rightarrow> string \<Rightarrow> string" where
  "left_of n s = (if n < 0 then s else take (nat n) s)"

definition message_spell :: "string \<Rightarrow> string option" where
  "message_spell str =
     (let t = right_of (int (length str) - 7) str in
      if left_of 25 t = ''Your target resisted the '' then
        (let t = right_of (int (length t) - 25) t in Some (left_of (int (length t) - 7) t))
      else if right_of 20 t = '' spell has worn off.'' then
        (let t = right_of (int (length t) - 5) t in Some (left_of (int (length t) - 20) t))
      else None)"

fun set_first :: "('a \<Rightarrow> bool) \<Rightarrow> ('a \<Rightarrow> 'a) \<Rightarrow> (nat \<times> 'a) list \<Rightarrow> (nat \<times> 'a) list" where
  "set_first P f [] = []"
| "set_first P f ((a, it) # l) = (if P it then (a, f it) # l else (a, it) # set_first P f l)"

definition spellMessage :: "string \<Rightarrow> spell_shell \<Rightarrow> spell_shell" where
  "spellMessage str s =
     (case message_spell str of
        None \<Rightarrow> s
      | Some n \<Rightarrow>
          s\<lparr>ss_spellList := set_first (\<lambda>it. si_spellName it = n) (\<lambda>it. it\<lparr>si_duration := 0\<rparr>) (ss_spellList s)\<rparr>)"

section \<open>Zones and deaths\<close>

definition spells_zoneChanged :: "spell_shell \<Rightarrow> spell_shell" where
  "spells_zoneChanged s =
     (let s = s\<lparr>ss_lastPlayerSpell := None,
            ss_spellList := map (\<lambda>(a, it). (a, it\<lparr>si_targetId := 0, si_casterId := 0\<rparr>)) (ss_spellList s)\<rparr>
      in if ss_targetEffects s \<noteq> [] then
           (let s = (emit_spell ClearEffects s)\<lparr>ss_targetEffects := []\<rparr>
            in if ss_spellList s = [] then stop_timer s else s)
         else s)"

definition removeSpell :: "nat \<Rightarrow> spell_shell \<Rightarrow> spell_shell" where
  "removeSpell a s = emit_spell (DelSpell a) (s\<lparr>ss_spellList := without a (ss_spellList s)\<rparr>)"

definition stop_if_idle :: "spell_shell \<Rightarrow> spell_shell" where
  "stop_if_idle s = (if ss_spellList s = [] \<and> ss_targetEffects s = [] then stop_timer s else s)"

definition spells_killSpawn :: "spell_env \<Rightarrow> u16 \<Rightarrow> spell_shell \<Rightarrow> spell_shell res" where
  "spells_killSpawn v i s =
     (if i = se_id v then Inr (clear_spells s)
      else rbind (case ss_lastPlayerSpell s of
             None \<Rightarrow> Inr s
           | Some a \<Rightarrow> (case map_of (ss_spellList s) a of
               None \<Rightarrow> Inl UseAfterFree
             | Some it \<Rightarrow> Inr (if si_targetId it = i then s\<lparr>ss_lastPlayerSpell := None\<rparr> else s))) (\<lambda>s.
        let s = fold removeSpell (keys_where (\<lambda>it. si_targetId it = i) (ss_spellList s)) s;
            s = fold removeEffect (keys_where (\<lambda>it. si_targetId it = i) (ss_targetEffects s)) s
        in Inr (stop_if_idle s)))"

definition spells_delSpawn :: "u16 option \<Rightarrow> spell_shell \<Rightarrow> spell_shell" where
  "spells_delSpawn i s =
     (case i of
        None \<Rightarrow> s
      | Some i \<Rightarrow>
         (let gone = keys_where (\<lambda>it. si_targetId it = i) (ss_targetEffects s); s = fold removeEffect gone s
          in if gone \<noteq> [] then stop_if_idle s else s))"

section \<open>The timer\<close>

text \<open>What a tick leaves of an object: nothing when its time is up.\<close>

definition sweep_item :: "u32 \<Rightarrow> spell_item \<Rightarrow> spell_item option" where
  "sweep_item k it =
     (if si_permanent it then Some it
      else let d = si_duration it - k in if sint d > - 6 then Some (it\<lparr>si_duration := d\<rparr>) else None)"

fun sweep_list :: "u32 \<Rightarrow> (nat \<times> spell_item) list \<Rightarrow> (nat \<times> spell_item) list" where
  "sweep_list k [] = []"
| "sweep_list k ((a, it) # l) =
     (case sweep_item k it of None \<Rightarrow> sweep_list k l | Some it \<Rightarrow> (a, it) # sweep_list k l)"

fun sweep_events ::
  "u32 \<Rightarrow> (nat \<Rightarrow> spell_event) \<Rightarrow> (nat \<Rightarrow> spell_event) \<Rightarrow> (nat \<times> spell_item) list \<Rightarrow> spell_event list" where
  "sweep_events k change del [] = []"
| "sweep_events k change del ((a, it) # l) =
     (if si_permanent it then sweep_events k change del l
      else (if sweep_item k it = None then del a else change a) # sweep_events k change del l)"

definition spells_timeout :: "spell_env \<Rightarrow> spell_shell \<Rightarrow> spell_shell" where
  "spells_timeout v s =
     (let k = se_interval v;
          left = sweep_list k (ss_spellList s);
          s' = s\<lparr>ss_spellList := left,
            ss_lastPlayerSpell := (case ss_lastPlayerSpell s of
               Some a \<Rightarrow> if a \<in> fst ` set (ss_spellList s) - fst ` set left then None else Some a
             | None \<Rightarrow> None),
            ss_targetEffects := sweep_list k (ss_targetEffects s),
            ss_events := ss_events s @ sweep_events k ChangeSpell DelSpell (ss_spellList s) @
              sweep_events k ChangeEffect DelEffect (ss_targetEffects s)\<rparr>
      in stop_if_idle s')"

end
