(* ===== verification/SpellShellLaws.thy ===== *)
theory SpellShellLaws
  imports SpellShell
begin

text \<open>
  What the buff lists keep: every object is announced once and withdrawn once, so that a client that follows the signals
  knows exactly the objects there are, and the timer runs while a buff is listed.
\<close>

section \<open>Following the signals\<close>

text \<open>A client's two lists of objects; a signal about an object it does not know has no meaning.\<close>

type_synonym known = "nat list \<times> nat list"

fun see :: "spell_event \<Rightarrow> known \<Rightarrow> known option" where
  "see (AddSpell a) (x, y) = (if a \<in> set x then None else Some (x @ [a], y))"
| "see (DelSpell a) (x, y) = (if a \<in> set x then Some (filter (\<lambda>b. b \<noteq> a) x, y) else None)"
| "see (ChangeSpell a) (x, y) = (if a \<in> set x then Some (x, y) else None)"
| "see ClearSpells (x, y) = Some ([], y)"
| "see (AddEffect a) (x, y) = (if a \<in> set y then None else Some (x, y @ [a]))"
| "see (DelEffect a) (x, y) = (if a \<in> set y then Some (x, filter (\<lambda>b. b \<noteq> a) y) else None)"
| "see (ChangeEffect a) (x, y) = (if a \<in> set y then Some (x, y) else None)"
| "see ClearEffects (x, y) = Some (x, [])"

fun watch :: "spell_event list \<Rightarrow> known \<Rightarrow> known option" where
  "watch [] k = Some k"
| "watch (e # es) k = (case see e k of None \<Rightarrow> None | Some k \<Rightarrow> watch es k)"

lemma watch_append: "watch (es @ fs) k = (case watch es k of None \<Rightarrow> None | Some k \<Rightarrow> watch fs k)"
  by (induction es arbitrary: k) (auto split: option.splits)

definition spell_keys :: "spell_shell \<Rightarrow> nat list" where
  "spell_keys s = map fst (ss_spellList s)"

definition effect_keys :: "spell_shell \<Rightarrow> nat list" where
  "effect_keys s = map fst (ss_targetEffects s)"

text \<open>The record of the objects, and the record with the timer.\<close>

definition objects_ok :: "spell_shell \<Rightarrow> bool" where
  "objects_ok s \<longleftrightarrow> distinct (spell_keys s) \<and> distinct (effect_keys s) \<and>
     list_all (\<lambda>a. a < ss_next s) (spell_keys s @ effect_keys s) \<and> ss_lastPlayerSpell s = None \<and>
     watch (ss_events s) ([], []) = Some (spell_keys s, effect_keys s)"

definition shell_ok :: "spell_shell \<Rightarrow> bool" where
  "shell_ok s \<longleftrightarrow> objects_ok s \<and> (ss_spellList s \<noteq> [] \<longrightarrow> ss_timer s)"

lemma keys_set_in [simp]: "map fst (set_in a f l) = map fst l"
  by (induction l) (auto simp: set_in_def)

lemma keys_without [simp]: "map fst (without a l) = filter (\<lambda>b. b \<noteq> a) (map fst l)"
  by (induction l) (auto simp: without_def)

lemma without_Nil: "without a l = [] \<longleftrightarrow> filter (\<lambda>b. b \<noteq> a) (map fst l) = []"
  by (metis keys_without map_is_Nil_conv)

lemma keys_set_first [simp]: "map fst (set_first P f l) = map fst l"
  by (induction l) auto

lemma keys_sweep: "set (map fst (sweep_list k l)) \<subseteq> set (map fst l)"
proof (induction l)
  case (Cons x l)
  then show ?case by (cases x, cases "sweep_item k (snd x)") auto
qed simp

lemma distinct_sweep: "distinct (map fst l) \<Longrightarrow> distinct (map fst (sweep_list k l))"
proof (induction l)
  case (Cons x l)
  then have "fst x \<notin> fst ` set (sweep_list k l)" using keys_sweep [of k l] by auto
  then show ?case using Cons by (cases x) (auto split: option.splits)
qed simp

lemma find_key: "map_option fst (find P l) = Some a \<Longrightarrow> a \<in> set (map fst l)"
  by (auto dest!: find_Some_set intro: rev_image_eqI)

lemma findSpell_key: "findSpell i t n s = Some a \<Longrightarrow> a \<in> set (spell_keys s)"
  unfolding findSpell_def spell_keys_def by (rule find_key)

lemma findEffect_key: "findEffect i t s = Some a \<Longrightarrow> a \<in> set (effect_keys s)"
  unfolding findEffect_def effect_keys_def by (rule find_key)

lemma keys_where_subset: "set (keys_where P l) \<subseteq> set (map fst l)"
  by (auto simp: keys_where_def)

lemma distinct_keys_where: "distinct (map fst l) \<Longrightarrow> distinct (keys_where P l)"
  by (simp add: keys_where_def distinct_map_filter)

lemmas shell_defs = emit_spell_def start_timer_def stop_timer_def change_spell_def append_spell_def change_effect_def
  append_effect_def spell_keys_def effect_keys_def

section \<open>The primitives\<close>

text \<open>What the operations on the lists do to the numbers.\<close>

lemma view_emit [simp]:
  "spell_keys (emit_spell e s) = spell_keys s" "effect_keys (emit_spell e s) = effect_keys s"
  "ss_next (emit_spell e s) = ss_next s" "ss_lastPlayerSpell (emit_spell e s) = ss_lastPlayerSpell s"
  "ss_events (emit_spell e s) = ss_events s @ [e]"
  by (simp_all add: shell_defs)

lemma view_timer [simp]:
  "spell_keys (start_timer s) = spell_keys s" "effect_keys (start_timer s) = effect_keys s"
  "ss_next (start_timer s) = ss_next s" "ss_lastPlayerSpell (start_timer s) = ss_lastPlayerSpell s"
  "ss_events (start_timer s) = ss_events s"
  "spell_keys (stop_timer s) = spell_keys s" "effect_keys (stop_timer s) = effect_keys s"
  "ss_next (stop_timer s) = ss_next s" "ss_lastPlayerSpell (stop_timer s) = ss_lastPlayerSpell s"
  "ss_events (stop_timer s) = ss_events s"
  by (simp_all add: shell_defs)

lemma view_change [simp]:
  "spell_keys (change_spell a f s) = spell_keys s" "effect_keys (change_spell a f s) = effect_keys s"
  "ss_next (change_spell a f s) = ss_next s" "ss_lastPlayerSpell (change_spell a f s) = ss_lastPlayerSpell s"
  "ss_events (change_spell a f s) = ss_events s @ [ChangeSpell a]"
  "spell_keys (change_effect a f s) = spell_keys s" "effect_keys (change_effect a f s) = effect_keys s"
  "ss_next (change_effect a f s) = ss_next s" "ss_lastPlayerSpell (change_effect a f s) = ss_lastPlayerSpell s"
  "ss_events (change_effect a f s) = ss_events s @ [ChangeEffect a]"
  by (simp_all add: shell_defs)

lemma view_append [simp]:
  "spell_keys (append_spell it s) = spell_keys s @ [ss_next s]" "effect_keys (append_spell it s) = effect_keys s"
  "ss_next (append_spell it s) = Suc (ss_next s)" "ss_lastPlayerSpell (append_spell it s) = ss_lastPlayerSpell s"
  "ss_events (append_spell it s) = ss_events s"
  "effect_keys (append_effect it s) = effect_keys s @ [ss_next s]" "spell_keys (append_effect it s) = spell_keys s"
  "ss_next (append_effect it s) = Suc (ss_next s)" "ss_lastPlayerSpell (append_effect it s) = ss_lastPlayerSpell s"
  "ss_events (append_effect it s) = ss_events s"
  by (simp_all add: shell_defs)

lemma view_deleteSpell [simp]:
  "spell_keys (deleteSpell a s) = filter (\<lambda>b. b \<noteq> a) (spell_keys s)" "effect_keys (deleteSpell a s) = effect_keys s"
  "ss_next (deleteSpell a s) = ss_next s" "ss_events (deleteSpell a s) = ss_events s @ [DelSpell a]"
  "ss_lastPlayerSpell s = None \<Longrightarrow> ss_lastPlayerSpell (deleteSpell a s) = None"
  by (simp_all add: deleteSpell_def shell_defs Let_def without_Nil)

lemma view_remove [simp]:
  "spell_keys (removeSpell a s) = filter (\<lambda>b. b \<noteq> a) (spell_keys s)" "effect_keys (removeSpell a s) = effect_keys s"
  "ss_next (removeSpell a s) = ss_next s" "ss_lastPlayerSpell (removeSpell a s) = ss_lastPlayerSpell s"
  "ss_events (removeSpell a s) = ss_events s @ [DelSpell a]"
  "effect_keys (removeEffect a s) = filter (\<lambda>b. b \<noteq> a) (effect_keys s)" "spell_keys (removeEffect a s) = spell_keys s"
  "ss_next (removeEffect a s) = ss_next s" "ss_lastPlayerSpell (removeEffect a s) = ss_lastPlayerSpell s"
  "ss_events (removeEffect a s) = ss_events s @ [DelEffect a]"
  by (simp_all add: removeSpell_def removeEffect_def shell_defs)

lemma objects_ok_change_spell: "objects_ok s \<Longrightarrow> a \<in> set (spell_keys s) \<Longrightarrow> objects_ok (change_spell a f s)"
  by (simp add: objects_ok_def watch_append)

lemma objects_ok_change_effect: "objects_ok s \<Longrightarrow> a \<in> set (effect_keys s) \<Longrightarrow> objects_ok (change_effect a f s)"
  by (simp add: objects_ok_def watch_append)

lemma next_is_new: "objects_ok s \<Longrightarrow> ss_next s \<notin> set (spell_keys s) \<and> ss_next s \<notin> set (effect_keys s)"
  by (auto simp: objects_ok_def list_all_iff)

lemma objects_ok_add_spell:
  "objects_ok s \<Longrightarrow> objects_ok (emit_spell (AddSpell (ss_next s)) (append_spell it s))"
  using next_is_new [of s] by (auto simp: objects_ok_def watch_append list_all_iff less_Suc_eq)

lemma objects_ok_add_effect:
  "objects_ok s \<Longrightarrow> objects_ok (emit_spell (AddEffect (ss_next s)) (append_effect it s))"
  using next_is_new [of s] by (auto simp: objects_ok_def watch_append list_all_iff less_Suc_eq)

lemma objects_ok_timer [simp]:
  "objects_ok (start_timer s) = objects_ok s" "objects_ok (stop_timer s) = objects_ok s"
  "objects_ok (start_if b s) = objects_ok s" "objects_ok (stop_if_idle s) = objects_ok s"
  by (auto simp: objects_ok_def start_if_def stop_if_idle_def)

lemma emit_timer: "emit_spell e (start_timer s) = start_timer (emit_spell e s)"
  by (simp add: shell_defs)

lemma objects_ok_deleteSpell: "objects_ok s \<Longrightarrow> a \<in> set (spell_keys s) \<Longrightarrow> objects_ok (deleteSpell a s)"
  by (auto simp: objects_ok_def watch_append list_all_iff)

lemma objects_ok_removeSpell: "objects_ok s \<Longrightarrow> a \<in> set (spell_keys s) \<Longrightarrow> objects_ok (removeSpell a s)"
  by (auto simp: objects_ok_def watch_append list_all_iff)

lemma objects_ok_removeEffect: "objects_ok s \<Longrightarrow> a \<in> set (effect_keys s) \<Longrightarrow> objects_ok (removeEffect a s)"
  by (auto simp: objects_ok_def watch_append list_all_iff)

text \<open>Removing several objects that are there.\<close>

lemma objects_ok_fold:
  assumes "\<forall>a s. objects_ok s \<longrightarrow> a \<in> set (ks s) \<longrightarrow> objects_ok (f a s)"
    and "\<forall>a s. ks (f a s) = filter (\<lambda>b. b \<noteq> a) (ks s)"
  shows "distinct l \<Longrightarrow> set l \<subseteq> set (ks s) \<Longrightarrow> objects_ok s \<Longrightarrow> objects_ok (fold f l s)"
proof (induction l arbitrary: s)
  case (Cons a l)
  have "objects_ok (f a s)" "set l \<subseteq> set (ks (f a s))" using Cons.prems assms by auto
  then show ?case using Cons.IH [of "f a s"] Cons.prems(1) by simp
qed simp

lemma objects_ok_removals:
  "objects_ok s \<Longrightarrow> objects_ok (fold deleteSpell (keys_where P (ss_spellList s)) s)"
  "objects_ok s \<Longrightarrow> objects_ok (fold removeSpell (keys_where P (ss_spellList s)) s)"
  "objects_ok s \<Longrightarrow> objects_ok (fold removeEffect (keys_where P (ss_targetEffects s)) s)"
proof -
  assume ok: "objects_ok s"
  then have d: "distinct (keys_where P (ss_spellList s))" "distinct (keys_where P (ss_targetEffects s))"
    by (auto simp: objects_ok_def spell_keys_def effect_keys_def intro: distinct_keys_where)
  have k: "set (keys_where P (ss_spellList s)) \<subseteq> set (spell_keys s)"
    "set (keys_where P (ss_targetEffects s)) \<subseteq> set (effect_keys s)"
    unfolding spell_keys_def effect_keys_def by (rule keys_where_subset)+
  show "objects_ok (fold deleteSpell (keys_where P (ss_spellList s)) s)"
    by (rule objects_ok_fold [where ks = spell_keys, OF _ _ d(1) k(1) ok])
      (auto simp: objects_ok_deleteSpell)
  show "objects_ok (fold removeSpell (keys_where P (ss_spellList s)) s)"
    by (rule objects_ok_fold [where ks = spell_keys, OF _ _ d(1) k(1) ok])
      (auto simp: objects_ok_removeSpell)
  show "objects_ok (fold removeEffect (keys_where P (ss_targetEffects s)) s)"
    by (rule objects_ok_fold [where ks = effect_keys, OF _ _ d(2) k(2) ok])
      (auto simp: objects_ok_removeEffect)
qed

section \<open>The operations\<close>

lemma objects_ok_clear: "objects_ok s \<Longrightarrow> objects_ok (clear_spells s)"
  by (auto simp: objects_ok_def clear_spells_def Let_def watch_append shell_defs)

lemma objects_ok_zoneChanged: "objects_ok s \<Longrightarrow> objects_ok (spells_zoneChanged s)"
proof -
  have "map fst (map (\<lambda>(a, it). (a, it\<lparr>si_targetId := 0, si_casterId := 0\<rparr>)) l) = map fst l"
    for l :: "(nat \<times> spell_item) list"
    by (induction l) auto
  then show "objects_ok s \<Longrightarrow> objects_ok (spells_zoneChanged s)"
    by (auto simp: objects_ok_def spells_zoneChanged_def Let_def watch_append shell_defs simp del: map_map)
qed

lemma objects_ok_spellMessage: "objects_ok s \<Longrightarrow> objects_ok (spellMessage str s)"
  by (auto simp: objects_ok_def spellMessage_def shell_defs simp del: set_map split: option.split)

text \<open>The events of a sweep take a client from the old objects to the new ones.\<close>

lemma watch_sweep:
  assumes "\<forall>a x. a \<in> set x \<longrightarrow> see (change a) (emb x) = Some (emb x)"
    and "\<forall>a x. a \<in> set x \<longrightarrow> see (del a) (emb x) = Some (emb (filter (\<lambda>b. b \<noteq> a) x))"
  shows "distinct (pre @ map fst l) \<Longrightarrow>
     watch (sweep_events k change del l) (emb (pre @ map fst l)) = Some (emb (pre @ map fst (sweep_list k l)))"
proof (induction l arbitrary: pre)
  case (Cons x l)
  obtain a it where x: "x = (a, it)" by (cases x)
  have keep: "watch (sweep_events k change del l) (emb ((pre @ [a]) @ map fst l)) =
      Some (emb ((pre @ [a]) @ map fst (sweep_list k l)))"
    by (rule Cons.IH) (use Cons.prems x in simp)
  show ?case
  proof (cases "sweep_item k it")
    case None
    have "filter (\<lambda>b. b \<noteq> a) pre = pre" "filter (\<lambda>b. b \<noteq> a) (map fst l) = map fst l"
      using Cons.prems x by (auto simp: filter_id_conv)
    moreover have "\<not> si_permanent it" using None by (auto simp: sweep_item_def)
    moreover have "watch (sweep_events k change del l) (emb (pre @ map fst l)) = Some (emb (pre @ map fst (sweep_list k l)))"
      by (rule Cons.IH) (use Cons.prems x in simp)
    ultimately show ?thesis using None assms(2) by (simp add: x)
  next
    case (Some it')
    then show ?thesis using keep assms(1) by (simp add: x)
  qed
qed simp

lemma watch_sweep_spells:
  "distinct (map fst l) \<Longrightarrow>
     watch (sweep_events k ChangeSpell DelSpell l) (map fst l, y) = Some (map fst (sweep_list k l), y)"
  using watch_sweep [of ChangeSpell "\<lambda>x. (x, y)" DelSpell "[]" l k] by simp

lemma watch_sweep_effects:
  "distinct (map fst l) \<Longrightarrow>
     watch (sweep_events k ChangeEffect DelEffect l) (y, map fst l) = Some (y, map fst (sweep_list k l))"
  using watch_sweep [of ChangeEffect "\<lambda>x. (y, x)" DelEffect "[]" l k] by simp

lemma sweep_below: "list_all (\<lambda>a. a < n) (map fst l) \<Longrightarrow> list_all (\<lambda>a. a < n) (map fst (sweep_list k l))"
  using keys_sweep [of k l] by (auto simp: list_all_iff simp del: set_map)

lemma objects_ok_timeout:
  assumes ok: "objects_ok s"
  shows "objects_ok (spells_timeout v s)"
proof -
  let ?k = "se_interval v" and ?l = "ss_spellList s" and ?m = "ss_targetEffects s"
  have d: "distinct (map fst ?l)" "distinct (map fst ?m)"
    and below: "list_all (\<lambda>a. a < ss_next s) (map fst ?l)" "list_all (\<lambda>a. a < ss_next s) (map fst ?m)"
    and last: "ss_lastPlayerSpell s = None" and w: "watch (ss_events s) ([], []) = Some (map fst ?l, map fst ?m)"
    using ok unfolding objects_ok_def shell_defs by auto
  have "watch (sweep_events ?k ChangeSpell DelSpell ?l @ sweep_events ?k ChangeEffect DelEffect ?m) (map fst ?l, map fst ?m) =
      Some (map fst (sweep_list ?k ?l), map fst (sweep_list ?k ?m))"
    by (simp add: watch_append watch_sweep_spells watch_sweep_effects d)
  then show ?thesis
    unfolding spells_timeout_def Let_def objects_ok_timer unfolding objects_ok_def shell_defs
    by (simp add: watch_append w last d distinct_sweep sweep_below below del: set_map)
qed

text \<open>One record of OP_BuffList leaves the timer alone; only an addition changes which buffs there are.\<close>

definition recorded :: "spell_shell \<Rightarrow> bool \<times> spell_shell \<Rightarrow> bool" where
  "recorded s0 r \<longleftrightarrow> objects_ok (snd r) \<and> ss_timer (snd r) = ss_timer s0 \<and> (fst r \<or> spell_keys (snd r) = spell_keys s0)"

lemma mob_entry_keeps:
  assumes "mob_entry v m n e (b, s) = Inr r" "objects_ok s"
  shows "objects_ok (snd r) \<and> spell_keys (snd r) = spell_keys s \<and> ss_timer (snd r) = ss_timer s"
proof (cases "valid_spell (be_spell_id e)")
  case False
  then show ?thesis using assms by (auto simp: mob_entry_def)
next
  case True
  show ?thesis
  proof (cases "findEffect (be_spell_id e) m s")
    case (Some a)
    then have "r = (b, change_effect a (entry_refresh e) s)" using assms(1) True by (simp add: mob_entry_def)
    then show ?thesis using objects_ok_change_effect [OF assms(2) findEffect_key [OF Some]]
      by (simp add: change_effect_def emit_spell_def spell_keys_def)
  next
    case None
    then obtain sp where "r = (True, emit_spell (AddEffect (ss_next s)) (append_effect (entry_item v e sp m n) s))"
      using assms(1) True by (auto simp: mob_entry_def result_simps)
    then show ?thesis using objects_ok_add_effect [OF assms(2)]
      by (simp add: append_effect_def emit_spell_def spell_keys_def)
  qed
qed

lemma own_entry_keeps:
  assumes "own_entry v e r = Inr r'" "recorded s0 r"
  shows "recorded s0 r'"
proof (cases "valid_spell (be_spell_id e)")
  case False
  then show ?thesis using assms by (cases r) (auto simp: own_entry_def)
next
  case True
  obtain b s where r: "r = (b, s)" by (cases r)
  have ok: "objects_ok s" using assms(2) by (simp add: recorded_def r)
  show ?thesis
  proof (cases "findSpell (be_spell_id e) (se_id v) (se_name v) s")
    case (Some a)
    then have "r' = (b, change_spell a (entry_refresh e) s)"
      using assms(1) True by (auto simp: own_entry_def result_simps r)
    then show ?thesis using objects_ok_change_spell [OF ok findSpell_key [OF Some]] assms(2)
      by (simp add: recorded_def r) (simp add: change_spell_def emit_spell_def)
  next
    case None
    then obtain sp where
      "r' = (True, emit_spell (AddSpell (ss_next s)) (append_spell (entry_item v e sp (se_id v) (se_name v)) s))"
      using assms(1) True by (auto simp: own_entry_def result_simps r)
    then show ?thesis using objects_ok_add_spell [OF ok] assms(2)
      by (simp add: recorded_def r) (simp add: append_spell_def emit_spell_def)
  qed
qed

lemma mob_entries_keep:
  "run_ops (mob_entry v m n) es (b, s) = Inr r \<Longrightarrow> objects_ok s \<Longrightarrow>
     objects_ok (snd r) \<and> spell_keys (snd r) = spell_keys s \<and> ss_timer (snd r) = ss_timer s"
proof (induction es arbitrary: b s)
  case (Cons e es)
  then obtain b' s' where e: "mob_entry v m n e (b, s) = Inr (b', s')" "run_ops (mob_entry v m n) es (b', s') = Inr r"
    by (auto simp: result_simps)
  then show ?case using mob_entry_keeps [OF e(1) Cons.prems(2)] Cons.IH [OF e(2)] by simp
qed auto

lemma own_entries_keep: "run_ops (own_entry v) es r = Inr r' \<Longrightarrow> recorded s0 r \<Longrightarrow> recorded s0 r'"
proof (induction es arbitrary: r)
  case (Cons e es)
  then obtain r1 where e: "own_entry v e r = Inr r1" "run_ops (own_entry v) es r1 = Inr r'"
    by (auto simp: result_simps)
  then show ?case using own_entry_keeps [OF e(1) Cons.prems(2)] Cons.IH [OF e(2)] by blast
qed simp

lemma keys_Nil: "ss_spellList s = [] \<longleftrightarrow> spell_keys s = []"
  by (simp add: spell_keys_def)

lemma shell_ok_change:
  "shell_ok s \<Longrightarrow> objects_ok s' \<Longrightarrow> spell_keys s' = spell_keys s \<Longrightarrow> ss_timer s' = ss_timer s \<Longrightarrow> shell_ok s'"
  by (auto simp: shell_ok_def keys_Nil)

lemma shell_ok_start: "shell_ok s \<Longrightarrow> shell_ok (start_if b s)"
  unfolding shell_ok_def objects_ok_timer by (simp add: start_if_def start_timer_def)

lemma timer_deleteSpell: "shell_ok s \<Longrightarrow> a \<in> set (spell_keys s) \<Longrightarrow> shell_ok (deleteSpell a s)"
proof -
  assume a: "shell_ok s" "a \<in> set (spell_keys s)"
  then have "ss_spellList (deleteSpell a s) \<noteq> [] \<longrightarrow> ss_timer (deleteSpell a s)"
    by (auto simp: shell_ok_def deleteSpell_def Let_def shell_defs)
  then show ?thesis using a by (simp add: shell_ok_def objects_ok_deleteSpell)
qed

lemma shell_ok_deletes:
  "distinct l \<Longrightarrow> set l \<subseteq> set (spell_keys s) \<Longrightarrow> shell_ok s \<Longrightarrow> shell_ok (fold deleteSpell l s)"
proof (induction l arbitrary: s)
  case (Cons a l)
  have "shell_ok (deleteSpell a s)" "set l \<subseteq> set (spell_keys (deleteSpell a s))"
    using Cons.prems timer_deleteSpell [of s a] by auto
  then show ?case using Cons.IH [of "deleteSpell a s"] Cons.prems(1) by simp
qed simp

lemma shell_ok_delete_where: "shell_ok s \<Longrightarrow> shell_ok (fold deleteSpell (keys_where P (ss_spellList s)) s)"
  using keys_where_subset [of P "ss_spellList s"] distinct_keys_where [of "ss_spellList s" P]
  by (intro shell_ok_deletes) (auto simp: shell_ok_def objects_ok_def spell_keys_def)

lemma fold_removals_keep:
  "ss_timer (fold removeEffect l s) = ss_timer s" "spell_keys (fold removeEffect l s) = spell_keys s"
  "ss_timer (fold removeSpell l s) = ss_timer s"
  by (induction l arbitrary: s) (simp_all add: removeEffect_def removeSpell_def emit_spell_def spell_keys_def)

lemma shell_ok_mob_buffs:
  assumes "mob_buffs v m n es s = Inr s'" "shell_ok s"
  shows "shell_ok s'"
proof -
  from assms(1) obtain b t where r: "run_ops (mob_entry v m n) es (False, s) = Inr (b, t)"
    and s': "s' = start_if b (fold removeEffect
      (keys_where (\<lambda>it. si_targetId it = m \<and> si_casterId it \<noteq> se_id v \<and> \<not> is_listed es it) (ss_targetEffects t)) t)"
    by (auto simp: mob_buffs_def result_simps Let_def)
  have t: "objects_ok t" "spell_keys t = spell_keys s" "ss_timer t = ss_timer s"
    using mob_entries_keep [OF r] assms(2) by (auto simp: shell_ok_def)
  let ?u = "fold removeEffect
      (keys_where (\<lambda>it. si_targetId it = m \<and> si_casterId it \<noteq> se_id v \<and> \<not> is_listed es it) (ss_targetEffects t)) t"
  have "shell_ok ?u"
    by (rule shell_ok_change [OF assms(2)]) (simp_all add: objects_ok_removals t fold_removals_keep)
  then show ?thesis unfolding s' by (rule shell_ok_start)
qed

lemma shell_ok_own_buffs:
  assumes "own_buffs v es s = Inr s'" "shell_ok s"
  shows "shell_ok s'"
proof -
  from assms(1) obtain b t where r: "run_ops (own_entry v) es (False, drop_orphans v s) = Inr (b, t)"
    and s': "s' = start_if b (fold deleteSpell (keys_where (\<lambda>it. \<not> is_listed es it) (ss_spellList t)) t)"
    by (auto simp: own_buffs_def result_simps Let_def)
  have d: "shell_ok (drop_orphans v s)"
    using assms(2) by (simp add: drop_orphans_def shell_ok_delete_where)
  then have "recorded (drop_orphans v s) (b, t)"
    by (intro own_entries_keep [OF r]) (simp add: recorded_def shell_ok_def)
  then have t: "objects_ok t" "ss_timer t = ss_timer (drop_orphans v s)" "b \<or> spell_keys t = spell_keys (drop_orphans v s)"
    by (simp_all add: recorded_def)
  have ok: "objects_ok s'" using t(1) by (simp add: s' objects_ok_removals)
  show ?thesis
  proof (cases b)
    case True
    then show ?thesis using ok by (simp add: shell_ok_def s' start_if_def start_timer_def)
  next
    case False
    then have "shell_ok t" using shell_ok_change [OF d t(1)] t(2,3) by simp
    then show ?thesis using False by (simp add: s' start_if_def shell_ok_delete_where)
  qed
qed

lemma shell_ok_add_spell: "objects_ok s \<Longrightarrow> shell_ok (emit_spell (AddSpell (ss_next s)) (start_timer (append_spell it s)))"
  using objects_ok_add_spell [of s it] unfolding shell_ok_def emit_timer objects_ok_timer
  by (simp add: start_timer_def)

lemma shell_ok_add_effect:
  "shell_ok s \<Longrightarrow> shell_ok (emit_spell (AddEffect (ss_next s)) (start_timer (append_effect it s)))"
  using objects_ok_add_effect [of s it] unfolding shell_ok_def emit_timer objects_ok_timer
  by (simp add: start_timer_def)

lemma shell_ok_objects: "shell_ok s \<Longrightarrow> objects_ok s"
  by (simp add: shell_ok_def)

lemma timer_change [simp]: "ss_timer (change_spell a f s) = ss_timer s" "ss_timer (change_effect a f s) = ss_timer s"
  by (simp_all add: change_spell_def change_effect_def emit_spell_def)

lemma shell_ok_change_spell: "shell_ok s \<Longrightarrow> a \<in> set (spell_keys s) \<Longrightarrow> shell_ok (change_spell a f s)"
  by (rule shell_ok_change) (auto simp: objects_ok_change_spell shell_ok_objects)

lemma shell_ok_change_effect: "shell_ok s \<Longrightarrow> a \<in> set (effect_keys s) \<Longrightarrow> shell_ok (change_effect a f s)"
  by (rule shell_ok_change) (auto simp: objects_ok_change_effect shell_ok_objects)

lemma shell_ok_buffLoad: "buffLoad v i t s = Inr s' \<Longrightarrow> shell_ok s \<Longrightarrow> shell_ok s'"
  by (cases "findSpell i (se_id v) (se_name v) s")
    (auto simp: buffLoad_def result_simps Let_def shell_ok_objects shell_ok_add_spell shell_ok_change_spell findSpell_key)

lemma shell_ok_buff_apply:
  "shell_ok s \<Longrightarrow> shell_ok (buff_apply v b owner sp None dur slot s)"
  "shell_ok s \<Longrightarrow> a \<in> set (spell_keys s) \<Longrightarrow> shell_ok (buff_apply v b owner sp (Some a) dur slot s)"
  by (auto simp: buff_apply_def Let_def shell_ok_objects shell_ok_add_spell shell_ok_change_spell)

lemma shell_ok_buff_found: "shell_ok s \<Longrightarrow> shell_ok (buff_apply v b owner sp (findSpell i t n s) dur slot s)"
  by (cases "findSpell i t n s") (simp_all add: shell_ok_buff_apply findSpell_key)

lemma shell_ok_buff: "buff v D data dir s = Inr s' \<Longrightarrow> shell_ok s \<Longrightarrow> shell_ok s'"
  by (auto simp: buff_def result_simps Let_def shell_ok_buff_apply shell_ok_buff_found timer_deleteSpell findSpell_key
      split: if_splits option.splits)

lemma shell_ok_buffList: "buffList v D data dir s = Inr s' \<Longrightarrow> shell_ok s \<Longrightarrow> shell_ok s'"
  by (auto simp: buffList_def Let_def shell_ok_mob_buffs shell_ok_own_buffs split: if_splits option.splits list.splits)

lemma shell_ok_action: "action v D data s = Inr s' \<Longrightarrow> shell_ok s \<Longrightarrow> shell_ok s'"
  by (auto simp: action_def action_apply_def result_simps Let_def shell_ok_objects shell_ok_add_spell shell_ok_add_effect
      shell_ok_change_spell shell_ok_change_effect findSpell_key findEffect_key split: if_splits option.splits)

lemma shell_ok_simpleMessage: "simpleMessage data s = Inr s' \<Longrightarrow> shell_ok s \<Longrightarrow> s' = s"
  by (auto simp: simpleMessage_def shell_ok_def objects_ok_def)

lemma shell_ok_spellMessage: "shell_ok s \<Longrightarrow> shell_ok (spellMessage str s)"
  by (rule shell_ok_change, assumption, simp_all add: objects_ok_spellMessage shell_ok_objects)
    (simp_all add: spellMessage_def shell_defs split: option.split)

lemma shell_ok_clear: "shell_ok s \<Longrightarrow> shell_ok (clear_spells s)"
  by (simp add: shell_ok_def objects_ok_clear) (simp add: clear_spells_def Let_def shell_defs)

lemma shell_ok_zoneChanged: "shell_ok s \<Longrightarrow> shell_ok (spells_zoneChanged s)"
  by (simp add: shell_ok_def objects_ok_zoneChanged) (auto simp: spells_zoneChanged_def Let_def shell_defs)

lemma shell_ok_idle: "objects_ok s \<Longrightarrow> ss_spellList s = [] \<or> ss_timer s \<Longrightarrow> shell_ok (stop_if_idle s)"
  unfolding shell_ok_def objects_ok_timer by (auto simp: stop_if_idle_def stop_timer_def)

lemma fold_removeSpell_Nil: "ss_spellList s = [] \<Longrightarrow> ss_spellList (fold removeSpell l s) = []"
  by (induction l arbitrary: s) (simp_all add: removeSpell_def emit_spell_def without_def)

lemma shell_ok_delSpawn: "shell_ok s \<Longrightarrow> shell_ok (spells_delSpawn i s)"
proof -
  assume ok: "shell_ok s"
  show "shell_ok (spells_delSpawn i s)"
  proof (cases i)
    case (Some j)
    define t where "t = fold removeEffect (keys_where (\<lambda>it. si_targetId it = j) (ss_targetEffects s)) s"
    have "objects_ok t" "ss_spellList t = [] \<or> ss_timer t" "shell_ok t"
      using ok by (auto simp: t_def objects_ok_removals shell_ok_def fold_removals_keep keys_Nil)
    then show ?thesis using Some ok by (simp add: spells_delSpawn_def Let_def shell_ok_idle flip: t_def)
  qed (use ok in \<open>simp add: spells_delSpawn_def\<close>)
qed

lemma shell_ok_killSpawn: "spells_killSpawn v i s = Inr s' \<Longrightarrow> shell_ok s \<Longrightarrow> shell_ok s'"
proof -
  assume r: "spells_killSpawn v i s = Inr s'" and ok: "shell_ok s"
  show "shell_ok s'"
  proof (cases "i = se_id v")
    case True
    then show ?thesis using r ok by (auto simp: spells_killSpawn_def shell_ok_clear)
  next
    case False
    define t where "t = fold removeSpell (keys_where (\<lambda>it. si_targetId it = i) (ss_spellList s)) s"
    have t: "objects_ok t" "ss_spellList t = [] \<or> ss_timer t"
      using ok fold_removeSpell_Nil fold_removals_keep(3)
      by (auto simp: t_def objects_ok_removals shell_ok_def)
    have "s' = stop_if_idle (fold removeEffect (keys_where (\<lambda>it. si_targetId it = i) (ss_targetEffects t)) t)"
      using r ok False by (auto simp: spells_killSpawn_def result_simps Let_def t_def shell_ok_def objects_ok_def)
    then show ?thesis
      using t by (auto simp: objects_ok_removals fold_removals_keep keys_Nil intro!: shell_ok_idle)
  qed
qed

lemma shell_ok_timeout: "shell_ok s \<Longrightarrow> shell_ok (spells_timeout v s)"
proof -
  assume ok: "shell_ok s"
  have "sweep_list k [] = []" for k by simp
  then show ?thesis
    using ok objects_ok_timeout [of s v] unfolding shell_ok_def
    by (auto simp: spells_timeout_def Let_def stop_if_idle_def stop_timer_def)
qed

section \<open>Every run\<close>

datatype spell_call =
    CallClear | CallBuffLoad u32 u32 | CallBuff bytes u8 | CallBuffList bytes u8 | CallAction bytes
  | CallSimple bytes | CallSpellMessage string | CallZoneChanged | CallKill u16 | CallDespawn "u16 option" | Tick

text \<open>The environment may be another one at every call. A tick only comes while the timer runs.\<close>

fun spell_step :: "spell_decoders \<Rightarrow> spell_env \<times> spell_call \<Rightarrow> spell_shell \<Rightarrow> spell_shell res" where
  "spell_step D (v, CallClear) s = Inr (clear_spells s)"
| "spell_step D (v, CallBuffLoad i t) s = buffLoad v i t s"
| "spell_step D (v, CallBuff data dir) s = buff v D data dir s"
| "spell_step D (v, CallBuffList data dir) s = buffList v D data dir s"
| "spell_step D (v, CallAction data) s = action v D data s"
| "spell_step D (v, CallSimple data) s = simpleMessage data s"
| "spell_step D (v, CallSpellMessage str) s = Inr (spellMessage str s)"
| "spell_step D (v, CallZoneChanged) s = Inr (spells_zoneChanged s)"
| "spell_step D (v, CallKill i) s = spells_killSpawn v i s"
| "spell_step D (v, CallDespawn i) s = Inr (spells_delSpawn i s)"
| "spell_step D (v, Tick) s = Inr (if ss_timer s then spells_timeout v s else s)"

lemma spell_step_keeps: "shell_ok s \<Longrightarrow> spell_step D x s = Inr s' \<Longrightarrow> shell_ok s'"
proof -
  assume a: "shell_ok s" "spell_step D x s = Inr s'"
  obtain v c where x: "x = (v, c)" by (cases x)
  show ?thesis
    using a unfolding x
    by (cases c) (auto simp: shell_ok_clear shell_ok_spellMessage shell_ok_zoneChanged shell_ok_delSpawn shell_ok_timeout
      dest: shell_ok_buffLoad shell_ok_buff shell_ok_buffList shell_ok_action shell_ok_simpleMessage shell_ok_killSpawn)
qed

interpretation spell_machine: invariant_machine "spell_step D" shell_ok for D
  by unfold_locales (rule spell_step_keeps)

text \<open>C12: A client that follows the signals of the buff lists from the start, adding, changing and removing the objects
  they name, never meets an object twice or one it does not know, and after any calls holds exactly the objects of the
  two lists, in their order.\<close>

theorem spell_signals_tell_the_lists:
  assumes "run_ops (spell_step D) calls mkSpellShell = Inr s"
  shows "watch (ss_events s) ([], []) = Some (map fst (ss_spellList s), map fst (ss_targetEffects s))"
proof -
  have "shell_ok mkSpellShell" by (simp add: shell_ok_def objects_ok_def mkSpellShell_def shell_defs)
  then have "shell_ok s" using spell_machine.run_keeps assms by blast
  then show ?thesis by (simp add: shell_ok_def objects_ok_def shell_defs)
qed

text \<open>C20: In every state that calls can lead to, the timer runs while a buff of the player is listed, the numbers of the
  objects are distinct, and no spell counts as the player's last one, so that the messages that fail it change
  nothing.\<close>

theorem buffs_are_timed:
  assumes "run_ops (spell_step D) calls mkSpellShell = Inr s"
  shows "(ss_spellList s \<noteq> [] \<longrightarrow> ss_timer s) \<and> distinct (map fst (ss_spellList s)) \<and>
    simpleMessage data s = Inr s"
proof -
  have "shell_ok mkSpellShell" by (simp add: shell_ok_def objects_ok_def mkSpellShell_def shell_defs)
  then have "shell_ok s" using spell_machine.run_keeps assms by blast
  then show ?thesis by (simp add: shell_ok_def objects_ok_def shell_defs simpleMessage_def)
qed

section \<open>The list of the server is the list of the player\<close>

lemma without_filter: "without a l = filter (\<lambda>x. fst x \<noteq> a) l"
  by (induction l) (auto simp: without_def)

lemma spellList_deletes: "ss_spellList (fold deleteSpell ks s) = filter (\<lambda>x. fst x \<notin> set ks) (ss_spellList s)"
proof (induction ks arbitrary: s)
  case (Cons a ks)
  have "ss_spellList (deleteSpell a s) = filter (\<lambda>x. fst x \<noteq> a) (ss_spellList s)"
    by (simp add: deleteSpell_def Let_def shell_defs without_filter)
  then show ?case using Cons.IH [of "deleteSpell a s"] by (simp add: conj_commute)
qed simp

lemma filter_keys_where:
  assumes "distinct (map fst l)"
  shows "filter (\<lambda>x. fst x \<notin> set (keys_where P l)) l = filter (\<lambda>x. \<not> P (snd x)) l"
proof (rule filter_cong [OF refl])
  fix x assume x: "x \<in> set l"
  have "fst x \<in> set (keys_where P l) \<longleftrightarrow> P (snd x)"
  proof
    assume "fst x \<in> set (keys_where P l)"
    then obtain y where "y \<in> set l" "fst y = fst x" "P (snd y)" by (auto simp: keys_where_def)
    then show "P (snd x)" using assms x by (metis distinct_map inj_on_eq_iff)
  qed (use x in \<open>force simp: keys_where_def\<close>)
  then show "fst x \<notin> set (keys_where P l) \<longleftrightarrow> \<not> P (snd x)" by simp
qed

definition spell_ids :: "spell_shell \<Rightarrow> u32 set" where
  "spell_ids s = (\<lambda>x. si_spellId (snd x)) ` set (ss_spellList s)"

lemma ids_set_in:
  "(\<And>it. si_spellId (f it) = si_spellId it) \<Longrightarrow>
     (\<lambda>x. si_spellId (snd x)) ` set (set_in a f l) = (\<lambda>x. si_spellId (snd x)) ` set l"
  by (induction l) (auto simp: set_in_def)

lemma id_item_update [simp]: "si_spellId (item_update v i sp d ci cn ti tn it) = i"
  by (auto simp: item_update_def Let_def split: option.split)

lemma id_entry [simp]: "si_spellId (entry_item v e sp owner n) = be_spell_id e" "si_spellId (entry_refresh e it) = si_spellId it"
  by (simp_all add: entry_item_def entry_refresh_def)

lemma found_id: "findSpell i t n s = Some a \<Longrightarrow> i \<in> spell_ids s"
  by (auto simp: findSpell_def spell_ids_def dest!: find_Some_set intro: rev_image_eqI)

lemma ids_own_entry:
  assumes "own_entry v e (b, s) = Inr (b', s')"
  shows "spell_ids s' = (if valid_spell (be_spell_id e) then insert (be_spell_id e) (spell_ids s) else spell_ids s)"
proof (cases "findSpell (be_spell_id e) (se_id v) (se_name v) s")
  case (Some a)
  have "spell_ids (change_spell a (entry_refresh e) s) = spell_ids s"
    by (simp add: spell_ids_def change_spell_def emit_spell_def ids_set_in)
  then show ?thesis using assms Some found_id [OF Some] by (auto simp: own_entry_def result_simps split: if_splits)
next
  case None
  have "spell_ids (emit_spell x (append_spell it s)) = insert (si_spellId it) (spell_ids s)" for x it
    by (simp add: spell_ids_def emit_spell_def append_spell_def)
  then show ?thesis using assms None by (auto simp: own_entry_def result_simps split: if_splits)
qed

lemma ids_own_entries:
  "run_ops (own_entry v) es (b, s) = Inr (b', s') \<Longrightarrow>
     spell_ids s' = spell_ids s \<union> {i \<in> set (map be_spell_id es). valid_spell i}"
proof (induction es arbitrary: b s)
  case (Cons e es)
  then obtain b1 s1 where e: "own_entry v e (b, s) = Inr (b1, s1)" "run_ops (own_entry v) es (b1, s1) = Inr (b', s')"
    by (auto simp: result_simps)
  show ?case using ids_own_entry [OF e(1)] Cons.IH [OF e(2)] by auto
qed simp

text \<open>C17: OP_BuffList decides which buffs the player has: after a list of the player's own is handled, a spell number that
  stands for a spell is listed exactly when the packet lists it, whatever was listed before.\<close>

theorem buff_list_is_authoritative:
  assumes "buffList v D data dir s = Inr s'" "dir \<noteq> DIR_Client" "sd_buff_list D data = e # es"
    and "be_spawn_id e = ucast (se_id v) \<or> se_spawn v (ucast (be_spawn_id e)) = None"
    and "shell_ok s" "valid_spell i"
  shows "i \<in> spell_ids s' \<longleftrightarrow> i \<in> set (map be_spell_id (e # es))"
proof -
  have own: "own_buffs v (e # es) s = Inr s'"
    using assms(1-4) by (auto simp: buffList_def Let_def split: if_splits)
  then obtain b t where r: "run_ops (own_entry v) (e # es) (False, drop_orphans v s) = Inr (b, t)"
    and s': "s' = start_if b (fold deleteSpell (keys_where (\<lambda>it. \<not> is_listed (e # es) it) (ss_spellList t)) t)"
    unfolding own_buffs_def by (auto simp: result_simps Let_def simp del: run_ops.simps)
  have d: "shell_ok (drop_orphans v s)"
    using assms(5) by (simp add: drop_orphans_def shell_ok_delete_where)
  then have "recorded (drop_orphans v s) (b, t)"
    by (intro own_entries_keep [OF r]) (simp add: recorded_def shell_ok_def)
  then have "distinct (map fst (ss_spellList t))" by (simp add: recorded_def objects_ok_def spell_keys_def)
  then have "ss_spellList s' = filter (\<lambda>x. is_listed (e # es) (snd x)) (ss_spellList t)"
    by (simp add: s' start_if_def start_timer_def spellList_deletes filter_keys_where)
  then have "spell_ids s' = {i \<in> spell_ids t. i \<in> set (map be_spell_id (e # es))}"
    by (auto simp: spell_ids_def is_listed_def simp del: set_map list.map)
  moreover have "i \<in> set (map be_spell_id (e # es)) \<Longrightarrow> i \<in> spell_ids t"
    using ids_own_entries [OF r] assms(6) by blast
  ultimately show ?thesis by blast
qed

end
