(* ===== verification/SpellTimer.thy ===== *)
theory SpellTimer
  imports SpellShellLaws
begin

text \<open>
  The end of buffs and effects: what enough ticks of the timer leave, when the timer stops too early, the buffs that are
  made anew by every list of the server, and what the table of spells finds.
\<close>

section \<open>Ticks\<close>

lemma sint_minus:
  fixes d k :: u32
  assumes "- (2 ^ 30) \<le> sint d" "0 < sint k" "sint k \<le> 2 ^ 30"
  shows "sint (d - k) = sint d - sint k"
proof -
  have "sint d < 2 ^ 31" using sint_lt [of d] by simp
  then show ?thesis
    using assms by (simp add: sint_word_diff signed_take_bit_int_eq_self)
qed

text \<open>The time an object has left is over after so many ticks.\<close>

definition ends_within :: "u32 \<Rightarrow> nat \<Rightarrow> spell_item \<Rightarrow> bool" where
  "ends_within k n it \<longleftrightarrow>
     si_permanent it \<or> - (2 ^ 30) \<le> sint (si_duration it) \<and> sint (si_duration it) + 6 \<le> int n * sint k"

definition permanents :: "(nat \<times> spell_item) list \<Rightarrow> (nat \<times> spell_item) list" where
  "permanents l = filter (\<lambda>(a, it). si_permanent it) l"

lemma sweep_list_step:
  assumes "0 < sint k" "sint k \<le> 2 ^ 30" "list_all (\<lambda>(a, it). ends_within k (Suc n) it) l"
  shows "list_all (\<lambda>(a, it). ends_within k n it) (sweep_list k l) \<and> permanents (sweep_list k l) = permanents l \<and>
    (n = 0 \<longrightarrow> sweep_list k l = permanents l)"
  using assms(3)
proof (induction l)
  case (Cons x l)
  obtain a it where x: "x = (a, it)" by (cases x)
  show ?case
  proof (cases "si_permanent it")
    case True
    then show ?thesis using Cons by (simp add: x sweep_item_def ends_within_def permanents_def)
  next
    case False
    then have d: "- (2 ^ 30) \<le> sint (si_duration it)" "sint (si_duration it) + 6 \<le> int (Suc n) * sint k"
      using Cons.prems by (auto simp: x ends_within_def)
    have m: "sint (si_duration it - k) = sint (si_duration it) - sint k" by (rule sint_minus [OF d(1) assms(1,2)])
    show ?thesis
    proof (cases "sint (si_duration it - k) > - 6")
      case True
      have "n \<noteq> 0"
      proof
        assume "n = 0"
        then show False using True d(2) m by simp
      qed
      moreover have "ends_within k n (it\<lparr>si_duration := si_duration it - k\<rparr>)"
        using True d m by (auto simp: ends_within_def algebra_simps)
      moreover note True
      ultimately have "n \<noteq> 0" "ends_within k n (it\<lparr>si_duration := si_duration it - k\<rparr>)"
        "sint (si_duration it - k) > - 6" by simp_all
      then show ?thesis using Cons False True by (simp add: x sweep_item_def permanents_def Let_def)
    next
      case gone: False
      then show ?thesis using Cons False by (simp add: x sweep_item_def permanents_def Let_def)
    qed
  qed
qed (simp add: permanents_def)

lemma timeout_lists:
  "ss_spellList (spells_timeout v s) = sweep_list (se_interval v) (ss_spellList s)"
  "ss_targetEffects (spells_timeout v s) = sweep_list (se_interval v) (ss_targetEffects s)"
  "ss_timer (spells_timeout v s) \<longleftrightarrow>
     ss_timer s \<and> (ss_spellList (spells_timeout v s) \<noteq> [] \<or> ss_targetEffects (spells_timeout v s) \<noteq> [])"
  by (auto simp: spells_timeout_def Let_def stop_if_idle_def stop_timer_def)

definition all_end :: "u32 \<Rightarrow> nat \<Rightarrow> spell_shell \<Rightarrow> bool" where
  "all_end k n s \<longleftrightarrow> list_all (\<lambda>(a, it). ends_within k n it) (ss_spellList s @ ss_targetEffects s)"

lemma ticks_without_timer: "\<not> ss_timer s \<Longrightarrow> run_ops (spell_step D) (replicate n (v, Tick)) s = Inr s"
  by (induction n) simp_all

lemma ticks_end:
  assumes k: "0 < sint (se_interval v)" "sint (se_interval v) \<le> 2 ^ 30"
  shows "ss_timer s \<Longrightarrow> all_end (se_interval v) (Suc n) s \<Longrightarrow>
    \<exists>s'. run_ops (spell_step D) (replicate (Suc n) (v, Tick)) s = Inr s' \<and>
      ss_spellList s' = permanents (ss_spellList s) \<and> ss_targetEffects s' = permanents (ss_targetEffects s)"
proof (induction n arbitrary: s)
  case 0
  have "ss_spellList (spells_timeout v s) = permanents (ss_spellList s)"
    "ss_targetEffects (spells_timeout v s) = permanents (ss_targetEffects s)"
    using sweep_list_step [OF k, of 0 "ss_spellList s"] sweep_list_step [OF k, of 0 "ss_targetEffects s"] "0.prems"(2)
    by (simp_all add: timeout_lists all_end_def)
  then show ?case using "0.prems"(1) by simp
next
  case (Suc n)
  let ?t = "spells_timeout v s"
  have t: "all_end (se_interval v) (Suc n) ?t" "permanents (ss_spellList ?t) = permanents (ss_spellList s)"
    "permanents (ss_targetEffects ?t) = permanents (ss_targetEffects s)"
    using sweep_list_step [OF k, of "Suc n" "ss_spellList s"] sweep_list_step [OF k, of "Suc n" "ss_targetEffects s"]
      Suc.prems(2) by (simp_all add: timeout_lists all_end_def)
  have first: "run_ops (spell_step D) (replicate (Suc (Suc n)) (v, Tick)) s =
      run_ops (spell_step D) (replicate (Suc n) (v, Tick)) ?t"
    using Suc.prems(1) by (subst replicate_Suc) (simp del: replicate.simps)
  show ?case
  proof (cases "ss_timer ?t")
    case True
    show ?thesis unfolding first using Suc.IH [OF True t(1)] t(2,3) by simp
  next
    case False
    then have "ss_spellList ?t = []" "ss_targetEffects ?t = []"
      using timeout_lists(3) [of v s] Suc.prems(1) by auto
    then show ?thesis
      unfolding first ticks_without_timer [OF False] using t(2,3) by (simp add: permanents_def)
  qed
qed

text \<open>C27: Every buff and effect that is not permanent ends: while the timer runs, enough ticks to use up the longest
  time that is left (and six seconds more) leave exactly the permanent objects of the two lists, as they were and in
  their order.\<close>

theorem ticks_leave_the_permanent:
  assumes "0 < sint (se_interval v)" "sint (se_interval v) \<le> 2 ^ 30"
    and "ss_timer s" "0 < n" "all_end (se_interval v) n s"
  shows "\<exists>s'. run_ops (spell_step D) (replicate n (v, Tick)) s = Inr s' \<and>
    ss_spellList s' = permanents (ss_spellList s) \<and> ss_targetEffects s' = permanents (ss_targetEffects s)"
  using ticks_end [OF assms(1,2), of s "n - 1" D] assms(3-5) by simp

section \<open>The timer that stops too early\<close>

text \<open>C32: The effects on the mobs stop counting down with the last buff of the player: when OP_Buff says that the only
  buff fades, the timer stops, and no tick ever changes the effects that are still listed.\<close>

theorem last_buff_freezes_the_effects:
  assumes "dir \<noteq> DIR_Client" "sd_buff D data = Some b" "bo_form b = 0" "bo_spawn_id b = ucast (se_id v)"
    and "valid_spell (bo_spell_id b)" "find_spell (bo_spell_id b) (se_spells v) = Inr sp"
    and "ss_spellList s = [(a, it)]" "si_spellId it = bo_spell_id b" "si_targetId it = se_id v"
    and "ss_lastPlayerSpell s = None"
  shows "\<exists>s'. buff v D data dir s = Inr s' \<and> ss_spellList s' = [] \<and> ss_targetEffects s' = ss_targetEffects s \<and>
    run_ops (spell_step D) (replicate n (w, Tick)) s' = Inr s'"
proof -
  have id: "ucast (ucast (se_id v) :: u32) = se_id v"
    by (rule bit_word_eqI) (simp add: bit_simps)
  have found: "findSpell (bo_spell_id b) (se_id v) '''' s = Some a"
    using assms(7-9) by (simp add: findSpell_def)
  have "buff v D data dir s = Inr (deleteSpell a s)"
    using assms(1-6) found id by (simp add: buff_def Let_def valid_spell_def)
  moreover have "ss_spellList (deleteSpell a s) = []" "ss_targetEffects (deleteSpell a s) = ss_targetEffects s"
    "\<not> ss_timer (deleteSpell a s)"
    using assms(7,10) by (simp_all add: deleteSpell_def Let_def shell_defs without_def)
  ultimately show ?thesis using ticks_without_timer by blast
qed

section \<open>Buffs that are made anew\<close>

text \<open>A buff whose spell can only target its caster is not refreshed by the list of the server but made anew: of two
  equal lists with such a buff, the second withdraws the object of the first and announces another one.\<close>

theorem self_buff_is_made_anew:
  assumes "dir \<noteq> DIR_Client" "sd_buff_list D data = [e]" "be_spawn_id e = ucast (se_id v)"
    and "valid_spell (be_spell_id e)" "find_spell (be_spell_id e) (se_spells v) = Inr (Some sp)"
    and "sp_targetType sp = 6" "se_name v \<noteq> ''''" "se_id v \<noteq> 0"
    and "ss_spellList s = []" "ss_lastPlayerSpell s = None"
  shows "\<exists>s1 s2. buffList v D data dir s = Inr s1 \<and> buffList v D data dir s1 = Inr s2 \<and>
    ss_events s2 = ss_events s @ [AddSpell (ss_next s), DelSpell (ss_next s), AddSpell (Suc (ss_next s))]"
proof -
  let ?it = "entry_item v e (Some sp) (se_id v) (se_name v)"
  have it: "si_targetId ?it = 0" "si_targetName ?it = se_name v"
    using assms(6,7) by (simp_all add: entry_item_def item_update_def mkSpellItem_def or_na_def)
  have listed: "is_listed [e] ?it" by (simp add: is_listed_def)
  have from_none: "own_buffs v [e] t = Inr (start_timer (emit_spell (AddSpell (ss_next t)) (append_spell ?it t)))"
    if "ss_spellList t = []" for t
    using that assms(4,5,7) listed
    by (simp add: own_buffs_def drop_orphans_def keys_where_def own_entry_def findSpell_def start_if_def append_spell_def
      emit_spell_def start_timer_def)
  let ?s1 = "start_timer (emit_spell (AddSpell (ss_next s)) (append_spell ?it s))"
  have s1: "ss_spellList ?s1 = [(ss_next s, ?it)]" "ss_lastPlayerSpell ?s1 = None" "ss_next ?s1 = Suc (ss_next s)"
    "ss_events ?s1 = ss_events s @ [AddSpell (ss_next s)]"
    using assms(9,10) by (simp_all add: shell_defs)
  have orphan: "drop_orphans v ?s1 = deleteSpell (ss_next s) ?s1"
    using s1(1) it assms(7,8) by (simp add: drop_orphans_def keys_where_def)
  let ?t = "deleteSpell (ss_next s) ?s1"
  have t: "ss_spellList ?t = []" "ss_next ?t = Suc (ss_next s)"
    "ss_events ?t = ss_events s @ [AddSpell (ss_next s), DelSpell (ss_next s)]"
    using s1 by (simp_all add: deleteSpell_def Let_def shell_defs without_def)
  have "own_buffs v [e] ?s1 = own_buffs v [e] ?t"
    unfolding own_buffs_def orphan using t(1) by (simp add: drop_orphans_def keys_where_def)
  also have "\<dots> = Inr (start_timer (emit_spell (AddSpell (ss_next ?t)) (append_spell ?it ?t)))"
    by (rule from_none [OF t(1)])
  finally have "own_buffs v [e] ?s1 = Inr (start_timer (emit_spell (AddSpell (ss_next ?t)) (append_spell ?it ?t)))" .
  moreover have "buffList v D data dir u = own_buffs v [e] u" for u
    using assms(1-3) by (simp add: buffList_def Let_def)
  ultimately show ?thesis
    using from_none [OF assms(9)] t(2,3) by (simp add: shell_defs)
qed

section \<open>The table of spells\<close>

lemma mkSpells_id: "fold (\<lambda>s m. if m < sp_spell s then sp_spell s else m) q m0 = Max (insert m0 (sp_spell ` set q))"
proof (induction q arbitrary: m0)
  case (Cons s q)
  have "Max (insert (max m0 (sp_spell s)) A) = Max (insert m0 (insert (sp_spell s) A))" if "finite A" for A
    using that by (cases "A = {}") (auto simp: max.assoc)
  moreover have "(if m0 < sp_spell s then sp_spell s else m0) = max m0 (sp_spell s)" by (auto simp: max_def not_less)
  ultimately show ?case using Cons.IH by simp
qed simp

lemma enter_spells_find:
  "enter_spells n q t = Inr t' \<Longrightarrow>
     map_of t' i = (case find (\<lambda>s. sp_spell s = i) (rev q) of None \<Rightarrow> map_of t i | Some s \<Rightarrow> Some s)"
proof (induction q arbitrary: t)
  case (Cons s q)
  then have "enter_spells n q (AList.update (sp_spell s) s t) = Inr t'" by (simp split: if_splits)
  from Cons.IH [OF this] show ?case
    by (auto simp: find_append update_conv' split: option.split)
qed simp

text \<open>What the table of spells finds: after a file is loaded into a new table, a number below the largest number of
  the file stands for the last spell of the file that has it, if any, and the spell with the largest number is never
  found.\<close>

theorem loaded_spells_are_found:
  assumes "mkSpells_table T (Some raw) = Inr ss" "mkSpells T (split_lines [] (spells_text T raw)) = Inr q"
  shows "find_spell i ss =
    Inr (if i < Max (insert 0 (sp_spell ` set q)) then find (\<lambda>s. sp_spell s = i) (rev q) else None)"
proof -
  define mx where "mx = Max (insert 0 (sp_spell ` set q))"
  obtain t where t: "enter_spells (unat (mx + 1)) q [] = Inr t"
    and ss: "ss = \<lparr>sps_maxSpell = mx, sps_spells = Some (unat (mx + 1), t)\<rparr>"
    using assms by (auto simp: mkSpells_table_def loadSpells_def unloadSpells_def result_simps Let_def mkSpells_id mx_def)
  have "unat i < unat (mx + 1)" if "i < mx"
  proof (cases "mx + 1 = 0")
    case True
    then have n: "unat (mx + 1) = 0" by simp
    have "mx \<noteq> 0" using that by auto
    then have "q \<noteq> []" by (auto simp: mx_def)
    then show ?thesis using t n by (cases q) auto
  next
    case False
    then have "unat (mx + 1) = unat mx + 1" by (metis Suc_eq_plus1 add.commute unatSuc)
    then show ?thesis using that by (simp add: word_less_nat_alt)
  qed
  moreover have "find_spell i ss = (if mx \<le> i then Inr None
      else if unat i < unat (mx + 1) then Inr (map_of t i) else Inl OutOfBounds)"
    unfolding ss find_spell_def by simp
  moreover have "map_of t i = find (\<lambda>s. sp_spell s = i) (rev q)"
    using enter_spells_find [OF t, of i] by (simp split: option.splits)
  ultimately show ?thesis by (auto simp: mx_def [symmetric])
qed

text \<open>How long a spell lasts is bounded by its argument where its formula depends on the level, and a permanent spell
  lasts minus one.\<close>

lemma duration_at_most_argument:
  assumes "sint (sp_buffDurationFormula s) \<in> {1, 2, 6, 7, 8, 9, 10}"
  shows "sint (calcDuration lvl s) \<le> sint (sp_buffDurationArgument s)"
  using assms by (auto simp: calcDuration_def Let_def min16_def)

lemma permanent_lasts_minus_one: "sp_buffDurationFormula s = 50 \<Longrightarrow> sint (calcDuration lvl s) = - 1"
  by (simp add: calcDuration_def Let_def)

section \<open>Runs\<close>

text \<open>A line with the number, the name, the formula, the argument and the target, and the highest levels.\<close>

definition demo_line :: "nat \<Rightarrow> string \<Rightarrow> nat \<Rightarrow> nat \<Rightarrow> nat \<Rightarrow> string" where
  "demo_line i n f a t = join_char CHR ''^'' ([dec i, n] @ replicate 9 '''' @ [dec f, dec a] @ replicate 19 '''' @ [dec t] @
     replicate 3 '''' @ replicate 16 ''1'')"

definition demo_lines :: "string list" where
  "demo_lines = [demo_line 5 ''Skin'' 7 27 5, demo_line 9 ''Camouflage'' 3 100 6, demo_line 12 ''Root'' 8 8 5]"

text \<open>A file of one byte that stands for the three lines.\<close>

definition demo_spell_text :: spell_text where
  "demo_spell_text = \<lparr>st_toUInt = (\<lambda>s. word_of_nat (undec s)), st_toUShort = (\<lambda>s. word_of_nat (undec s)),
     st_fromUtf8 = (\<lambda>b. join_char CHR 0x0A demo_lines), st_fromUtf16 = (\<lambda>b. '''')\<rparr>"

definition demo_spells :: "spell list" where
  "demo_spells =
     [\<lparr>sp_spell = 5, sp_name = ''Skin'', sp_buffDurationFormula = 7, sp_buffDurationArgument = 27, sp_targetType = 5,
       sp_beneficial = False, sp_icon = 0, sp_classLevels = replicate 16 1\<rparr>,
      \<lparr>sp_spell = 9, sp_name = ''Camouflage'', sp_buffDurationFormula = 3, sp_buffDurationArgument = 100,
       sp_targetType = 6, sp_beneficial = False, sp_icon = 0, sp_classLevels = replicate 16 1\<rparr>,
      \<lparr>sp_spell = 12, sp_name = ''Root'', sp_buffDurationFormula = 8, sp_buffDurationArgument = 8, sp_targetType = 5,
       sp_beneficial = False, sp_icon = 0, sp_classLevels = replicate 16 1\<rparr>]"

definition demo_table :: spells where
  "demo_table = \<lparr>sps_maxSpell = 12, sps_spells = Some (13, map (\<lambda>s. (sp_spell s, s)) demo_spells)\<rparr>"

lemma demo_split: "split_lines [] (spells_text demo_spell_text [65]) = demo_lines"
proof -
  have "list_all one_line demo_lines" by code_simp
  then show ?thesis by (simp add: spells_text_def demo_spell_text_def split_lines_join)
qed

lemma demo_made: "mkSpells demo_spell_text demo_lines = Inr demo_spells"
  by code_simp

theorem loaded_spells_are_found_witness:
  "mkSpells_table demo_spell_text (Some [65]) = Inr demo_table \<and>
   find_spell 9 demo_table = Inr (Some (demo_spells ! 1)) \<and> find_spell 12 demo_table = Inr None"
proof -
  have table: "mkSpells_table demo_spell_text (Some [65]) = Inr demo_table"
  proof -
    have m: "fold (\<lambda>s m. if m < sp_spell s then sp_spell s else m) demo_spells 0 = 12" by code_simp
    have e: "enter_spells 13 demo_spells [] = Inr (map (\<lambda>s. (sp_spell s, s)) demo_spells)" by code_simp
    show ?thesis
      by (simp add: mkSpells_table_def loadSpells_def unloadSpells_def demo_split demo_made m e demo_table_def)
  qed
  have mx: "Max (insert 0 (sp_spell ` set demo_spells)) = 12" by (simp add: demo_spells_def)
  show ?thesis
    using loaded_spells_are_found [OF table, unfolded demo_split, OF demo_made, of 9] loaded_spells_are_found [OF table, unfolded demo_split, OF demo_made, of 12] table
    unfolding mx by (simp add: demo_spells_def)
qed

definition bob_env :: spell_env where
  "bob_env = \<lparr>se_id = 77, se_name = ''Bob'', se_level = 20,
     se_spawn = (\<lambda>i. if i = 300 then Some ''a_rat00'' else None), se_spells = demo_table,
     se_spell_name = (\<lambda>i. dec (unat i)), se_interval = 6, se_time = 0\<rparr>"

text \<open>Two packets of one byte: a list with the buffs 5 and 9, and the end of buff 5; and a root on the rat.\<close>

definition demo_entry :: "u32 \<Rightarrow> u32 \<Rightarrow> buff_entry" where
  "demo_entry i t = \<lparr>be_spawn_id = 77, be_spell_id = i, be_slot = 0, be_remaining_ticks = t, be_caster = []\<rparr>"

definition demo_decoders :: spell_decoders where
  "demo_decoders = \<lparr>sd_buff = (\<lambda>b. if b = [5] then
       Some \<lparr>bo_form = 0, bo_spawn_id = 77, bo_spell_id = 5, bo_slot = 0, bo_dur_ticks = 0\<rparr> else None),
     sd_buff_list = (\<lambda>b. if b = [1] then [demo_entry 5 2, demo_entry 8 (- 1)] else if b = [2] then [demo_entry 5 2]
       else if b = [9] then [demo_entry 9 100] else []),
     sd_action = (\<lambda>b. Some \<lparr>ao_target = 300, ao_source = 77, ao_spell = 9, ao_level = 20, ao_kind = 0xE7\<rparr>),
     sd_action_alt = (\<lambda>b. None)\<rparr>"

definition demo_calls :: "(spell_env \<times> spell_call) list" where
  "demo_calls = [(bob_env, CallBuffList [1] 2), (bob_env, CallAction (replicate 64 0))]"

definition demo_shell :: spell_shell where
  "demo_shell = (case run_ops (spell_step demo_decoders) demo_calls mkSpellShell of Inr s \<Rightarrow> s | Inl e \<Rightarrow> mkSpellShell)"

lemma demo_run: "run_ops (spell_step demo_decoders) demo_calls mkSpellShell = Inr demo_shell"
  by code_simp

theorem ticks_leave_the_permanent_witness:
  "\<exists>s'. run_ops (spell_step demo_decoders) (replicate 101 (bob_env, Tick)) demo_shell = Inr s' \<and>
    map fst (ss_spellList s') = [1] \<and> ss_targetEffects s' = []"
proof -
  have "\<exists>s'. run_ops (spell_step demo_decoders) (replicate 101 (bob_env, Tick)) demo_shell = Inr s' \<and>
    ss_spellList s' = permanents (ss_spellList demo_shell) \<and> ss_targetEffects s' = permanents (ss_targetEffects demo_shell)"
    by (rule ticks_leave_the_permanent) code_simp+
  moreover have "map fst (permanents (ss_spellList demo_shell)) = [1]" "permanents (ss_targetEffects demo_shell) = []"
    by code_simp+
  ultimately show ?thesis by fastforce
qed

theorem last_buff_freezes_the_effects_witness:
  "\<exists>s s'. run_ops (spell_step demo_decoders) (drop 1 demo_calls @ [(bob_env, CallBuffList [2] 2)]) mkSpellShell = Inr s \<and>
    buff bob_env demo_decoders [5] 2 s = Inr s' \<and> map fst (ss_targetEffects s') = [0] \<and>
    run_ops (spell_step demo_decoders) (replicate 1000 (bob_env, Tick)) s' = Inr s'"
proof -
  define s where "s = (case run_ops (spell_step demo_decoders) (drop 1 demo_calls @ [(bob_env, CallBuffList [2] 2)]) mkSpellShell
    of Inr s \<Rightarrow> s | Inl e \<Rightarrow> mkSpellShell)"
  have run: "run_ops (spell_step demo_decoders) (drop 1 demo_calls @ [(bob_env, CallBuffList [2] 2)]) mkSpellShell = Inr s"
    unfolding s_def by code_simp
  have effects: "map fst (ss_targetEffects s) = [0]" unfolding s_def by code_simp
  have "\<exists>s'. buff bob_env demo_decoders [5] 2 s = Inr s' \<and> ss_spellList s' = [] \<and>
      ss_targetEffects s' = ss_targetEffects s \<and>
      run_ops (spell_step demo_decoders) (replicate 1000 (bob_env, Tick)) s' = Inr s'"
    unfolding s_def
    by (rule last_buff_freezes_the_effects [where a = 1 and sp = "Some (demo_spells ! 0)"
        and b = "\<lparr>bo_form = 0, bo_spawn_id = 77, bo_spell_id = 5, bo_slot = 0, bo_dur_ticks = 0\<rparr>"
        and it = "(entry_item bob_env (demo_entry 5 2) (Some (demo_spells ! 0)) 77 ''Bob'')"]) code_simp+
  then show ?thesis using run effects by metis
qed

theorem self_buff_is_made_anew_witness:
  "\<exists>s1 s2. buffList bob_env demo_decoders [9] 2 mkSpellShell = Inr s1 \<and> buffList bob_env demo_decoders [9] 2 s1 = Inr s2 \<and>
    ss_events s2 = [AddSpell 0, DelSpell 0, AddSpell 1]"
proof -
  have "\<exists>s1 s2. buffList bob_env demo_decoders [9] 2 mkSpellShell = Inr s1 \<and>
    buffList bob_env demo_decoders [9] 2 s1 = Inr s2 \<and>
    ss_events s2 = ss_events mkSpellShell @ [AddSpell (ss_next mkSpellShell), DelSpell (ss_next mkSpellShell),
      AddSpell (Suc (ss_next mkSpellShell))]"
    by (rule self_buff_is_made_anew [where e = "demo_entry 9 100" and sp = "demo_spells ! 1"]) code_simp+
  then show ?thesis by (simp add: mkSpellShell_def)
qed

theorem spell_signals_tell_the_lists_witness:
  "watch (ss_events demo_shell) ([], []) = Some ([0, 1], [2])"
proof -
  have "map fst (ss_spellList demo_shell) = [0, 1]" "map fst (ss_targetEffects demo_shell) = [2]" by code_simp+
  then show ?thesis using spell_signals_tell_the_lists [OF demo_run] by simp
qed

theorem buffs_are_timed_witness:
  "ss_spellList demo_shell \<noteq> [] \<and> ss_timer demo_shell \<and> simpleMessage [191, 0, 0, 0] demo_shell = Inr demo_shell"
proof -
  have "ss_spellList demo_shell \<noteq> []" by code_simp
  then show ?thesis using buffs_are_timed [OF demo_run, of "[191, 0, 0, 0]"] by simp
qed

theorem buff_list_is_authoritative_witness:
  "\<exists>s. buffList bob_env demo_decoders [2] 2 demo_shell = Inr s \<and> 5 \<in> spell_ids s \<and> 8 \<notin> spell_ids s"
proof -
  obtain s where s: "buffList bob_env demo_decoders [2] 2 demo_shell = Inr s"
  proof -
    have "buffList bob_env demo_decoders [2] 2 demo_shell =
        Inr (case buffList bob_env demo_decoders [2] 2 demo_shell of Inr s \<Rightarrow> s | Inl e \<Rightarrow> mkSpellShell)" by code_simp
    then show ?thesis by (rule that)
  qed
  have ok: "shell_ok demo_shell" by code_simp
  have l: "sd_buff_list demo_decoders [2] = demo_entry 5 2 # []" by code_simp
  have "(2 :: u8) \<noteq> DIR_Client" "be_spawn_id (demo_entry 5 2) = ucast (se_id bob_env)"
    "valid_spell 5" "valid_spell 8" "be_spell_id (demo_entry 5 2) = 5" by code_simp+
  then show ?thesis
    using buff_list_is_authoritative [OF s _ l _ ok, of 5] buff_list_is_authoritative [OF s _ l _ ok, of 8] s by auto
qed

end
