(* ===== verification/Guilds.thy ===== *)
theory Guilds
  imports NetStream QtText Tables
begin

text \<open>
  Guilds: the names of the guilds of the servers with their file (\<open>src/guild.h\<close>, \<open>src/guild.cpp\<close>), and the roster of
  the player's guild (\<open>src/guildshell.h\<close>, \<open>src/guildshell.cpp\<close>). The Rust decoders, the conversions of texts and
  what the file system allows are fields of \<open>guild_lib\<close>.
\<close>

section \<open>Names of guilds\<close>

record guild_row =
  gr_guildId :: u32
  gr_serverId :: u32
  gr_name :: string

record guild_mgr =
  gl_list :: "(u32 \<times> string) list"
  gl_file :: "string option"
  gl_signals :: "u32 list"

text \<open>\<open>li_line_name\<close> is a name after \<open>toLatin1\<close> and the conversion back, \<open>li_written\<close> what the text stream writes.\<close>

record guild_lib =
  li_toULong :: "string \<Rightarrow> u64"
  li_line_name :: "string \<Rightarrow> string"
  li_written :: "string \<Rightarrow> string"
  li_fromBytes :: "string \<Rightarrow> string"
  li_removable :: bool
  li_writable :: bool
  li_readable :: bool

definition guild_key :: "u32 \<Rightarrow> u32 \<Rightarrow> u32" where
  "guild_key server gid = push_bit 16 server OR gid"

definition guildIdToName :: "guild_mgr \<Rightarrow> u16 \<Rightarrow> u16 \<Rightarrow> string" where
  "guildIdToName g gid server =
     (if gid = 0 \<or> server = 0 then ''''
      else case map_of (gl_list g) (guild_key (ucast server) (ucast gid)) of None \<Rightarrow> '''' | Some n \<Rightarrow> n)"

text \<open>A line for every key but 0.\<close>

definition guild_line :: "guild_lib \<Rightarrow> u32 \<times> string \<Rightarrow> string" where
  "guild_line L e = li_written L (trimmed (dec (unat (fst e)) @ ''|'' @ li_line_name L (snd e))) @ [CHR 0x0A]"

definition guild_text :: "guild_lib \<Rightarrow> (u32 \<times> string) list \<Rightarrow> string" where
  "guild_text L l = concat (map (guild_line L) (filter (\<lambda>e. fst e \<noteq> 0) l))"

text \<open>Without permission to write, the old file is gone all the same.\<close>

definition writeGuildList :: "guild_lib \<Rightarrow> guild_mgr \<Rightarrow> guild_mgr" where
  "writeGuildList L g =
     (if gl_file g \<noteq> None \<and> \<not> li_removable L then g
      else if li_writable L then g\<lparr>gl_file := Some (guild_text L (gl_list g))\<rparr>
      else g\<lparr>gl_file := None\<rparr>)"

text \<open>\<open>readLine\<close> gives the lines with their line feeds.\<close>

fun file_lines :: "string \<Rightarrow> string \<Rightarrow> string list" where
  "file_lines cur [] = (if cur = [] then [] else [cur])"
| "file_lines cur (c # s) = (if c = CHR 0x0A then (cur @ [c]) # file_lines [] s else file_lines (cur @ [c]) s)"

definition read_guild_line :: "guild_lib \<Rightarrow> string \<Rightarrow> guild_mgr \<Rightarrow> guild_mgr" where
  "read_guild_line L line g =
     (case split_char CHR ''|'' line of
        [k, n] \<Rightarrow>
          (let key = ucast (li_toULong L k)
           in g\<lparr>gl_list := smap_put key (li_fromBytes L (trimmed n)) (gl_list g),
                gl_signals := gl_signals g @ [key AND 0xFFFF]\<rparr>)
      | _ \<Rightarrow> g)"

definition readGuildList :: "guild_lib \<Rightarrow> guild_mgr \<Rightarrow> guild_mgr" where
  "readGuildList L g =
     (let g = g\<lparr>gl_list := []\<rparr> in
      case gl_file g of
        Some s \<Rightarrow> if li_readable L then fold (read_guild_line L) (file_lines [] s) g else g
      | None \<Rightarrow> g)"

definition mkGuildMgr :: "guild_lib \<Rightarrow> string option \<Rightarrow> guild_mgr" where
  "mkGuildMgr L content = readGuildList L \<lparr>gl_list = [], gl_file = content, gl_signals = []\<rparr>"

definition learn_row :: "guild_row \<Rightarrow> bool \<times> guild_mgr \<Rightarrow> bool \<times> guild_mgr" where
  "learn_row r st =
     (let (need_save, g) = st; key = guild_key (gr_serverId r) (gr_guildId r) in
      if gr_name r \<noteq> '''' \<and> map_of (gl_list g) key = None
      then (True, g\<lparr>gl_list := smap_put key (gr_name r) (gl_list g), gl_signals := gl_signals g @ [gr_guildId r]\<rparr>)
      else (need_save, g))"

definition learnGuilds :: "guild_lib \<Rightarrow> guild_row list \<Rightarrow> guild_mgr \<Rightarrow> guild_mgr" where
  "learnGuilds L rows g =
     (let (need_save, g) = fold learn_row rows (False, g) in if need_save then writeGuildList L g else g)"

definition feedRows :: "guild_lib \<Rightarrow> guild_row list \<Rightarrow> guild_mgr \<Rightarrow> guild_mgr" where
  "feedRows L rows g = (if rows = [] then g else learnGuilds L rows g)"

definition guildsInZone :: "guild_lib \<Rightarrow> (bytes \<Rightarrow> guild_row list) \<Rightarrow> bytes \<Rightarrow> guild_mgr \<Rightarrow> guild_mgr" where
  "guildsInZone L decode_list data g = feedRows L (decode_list data) g"

definition newGuildInZone :: "guild_lib \<Rightarrow> (bytes \<Rightarrow> guild_row list) \<Rightarrow> bytes \<Rightarrow> guild_mgr \<Rightarrow> guild_mgr" where
  "newGuildInZone L decode_new data g = feedRows L (decode_new data) g"

definition guildList2text :: "guild_lib \<Rightarrow> string option \<Rightarrow> guild_mgr \<Rightarrow> string option" where
  "guildList2text L old g =
     (if old \<noteq> None \<and> \<not> li_removable L then old
      else if li_writable L then Some (concat (map (\<lambda>e. li_written L (dec (unat (fst e)) @ [CHR 0x09] @ snd e @ [CHR 0x0A]))
        (filter (\<lambda>e. fst e \<noteq> 0) (gl_list g))))
      else None)"

section \<open>Members\<close>

record guild_member =
  gd_name :: string
  gd_banker :: u8
  gd_level :: u8
  gd_class :: u8
  gd_classMask :: u32
  gd_guildRank :: u32
  gd_lastOn :: u32
  gd_tribute :: "u8 \<times> u8 \<times> u8 \<times> u32"
  gd_alt :: u32
  gd_fullmember :: u32
  gd_publicNote :: string
  gd_zoneId :: u16
  gd_zoneInstance :: u16

record roster_entry =
  re_name :: string
  re_level :: u8
  re_class :: u8
  re_classMask :: u32
  re_rank :: u32
  re_lastOn :: u32
  re_banker :: u8
  re_alt :: u32
  re_fullMember :: u32
  re_note :: string
  re_zoneId :: u16

definition mkMember :: "roster_entry \<Rightarrow> guild_member" where
  "mkMember e = \<lparr>gd_name = re_name e, gd_banker = re_banker e, gd_level = re_level e, gd_class = re_class e,
     gd_classMask = re_classMask e, gd_guildRank = re_rank e, gd_lastOn = re_lastOn e, gd_tribute = (0, 0, 0, 0),
     gd_alt = re_alt e, gd_fullmember = re_fullMember e, gd_publicNote = re_note e, gd_zoneId = re_zoneId e,
     gd_zoneInstance = 0\<rparr>"

definition member_of_stream :: "(bytes \<Rightarrow> string) \<Rightarrow> net_stream \<Rightarrow> (guild_member \<times> net_stream) res" where
  "member_of_stream utf8 s =
     rbind (readLPText s) (\<lambda>(n, s). rbind (readUInt32NC s) (\<lambda>(lvl, s). rbind (readUInt32NC s) (\<lambda>(b, s).
     rbind (readUInt32NC s) (\<lambda>(cls, s). rbind (readUInt32NC s) (\<lambda>(rank, s). rbind (readUInt32NC s) (\<lambda>(lastOn, s).
     rbind (readUInt8 s) (\<lambda>(t, s). rbind (readUInt8 s) (\<lambda>(tr, s). rbind (readUInt32NC s) (\<lambda>(don, s).
     rbind (readUInt32NC s) (\<lambda>(ld, s). rbind (readUInt8 s) (\<lambda>(full, s). rbind (readLPText s) (\<lambda>(note, s).
       let banker = ucast b :: u8 in
       Inr (\<lparr>gd_name = utf8 n, gd_banker = banker mod 2, gd_level = ucast lvl, gd_class = ucast cls, gd_classMask = 0,
         gd_guildRank = rank, gd_lastOn = lastOn, gd_tribute = (t, tr, ucast don, ld),
         gd_alt = (if unat banker > 1 then 1 else 0), gd_fullmember = ucast full, gd_publicNote = utf8 note,
         gd_zoneId = 0, gd_zoneInstance = 0\<rparr>, skipBytes 6 s)))))))))))))"

definition setZone :: "u16 \<Rightarrow> u16 \<Rightarrow> u32 \<Rightarrow> guild_member \<Rightarrow> guild_member" where
  "setZone z i t m = m\<lparr>gd_zoneId := z, gd_zoneInstance := i, gd_lastOn := t\<rparr>"

definition guildRankString :: "guild_member \<Rightarrow> string" where
  "guildRankString m = (if gd_guildRank m \<le> 2 then [''M'', ''O'', ''L''] ! unat (gd_guildRank m) else ''?'')"

definition bankRankString :: "guild_member \<Rightarrow> string" where
  "bankRankString m = (if gd_banker m > 0 then ''B'' else '' '')"

definition altRankString :: "guild_member \<Rightarrow> string" where
  "altRankString m = (if gd_alt m > 0 then ''A'' else '' '')"

definition memberRankString :: "guild_member \<Rightarrow> string" where
  "memberRankString m = (if gd_fullmember m > 0 then '' '' else ''P'')"

section \<open>The roster\<close>

text \<open>A member that is the null pointer is \<open>None\<close>.\<close>

datatype guild_event =
    GCleared | GLoaded | GAdded string | GUpdated string | GMotdChanged | GRankNamesChanged

record guild_shell =
  gs_members :: "(string \<times> guild_member option) list"
  gs_maxNameLength :: nat
  gs_guildId :: u32
  gs_motd :: string
  gs_motdSender :: string
  gs_motdSet :: bool
  gs_rankNames :: "(u32 \<times> string) list"
  gs_events :: "guild_event list"

definition mkGuildShell :: guild_shell where
  "mkGuildShell = \<lparr>gs_members = [], gs_maxNameLength = 0, gs_guildId = 0, gs_motd = '''', gs_motdSender = '''',
     gs_motdSet = False, gs_rankNames = [], gs_events = []\<rparr>"

definition tell_guild :: "guild_event \<Rightarrow> guild_shell \<Rightarrow> guild_shell" where
  "tell_guild e s = s\<lparr>gs_events := gs_events s @ [e]\<rparr>"

definition add_member :: "guild_member \<Rightarrow> guild_shell \<Rightarrow> guild_shell" where
  "add_member m s =
     tell_guild (GAdded (gd_name m)) (s\<lparr>gs_members := AList.update (gd_name m) (Some m) (gs_members s),
       gs_maxNameLength := max (gs_maxNameLength s) (length (gd_name m))\<rparr>)"

definition clear_roster :: "guild_shell \<Rightarrow> guild_shell" where
  "clear_roster s = (tell_guild GCleared s)\<lparr>gs_members := [], gs_maxNameLength := 0\<rparr>"

definition roster_row :: "roster_entry \<Rightarrow> guild_shell \<Rightarrow> guild_shell" where
  "roster_row e s = (if re_name e = '''' then s else add_member (mkMember e) s)"

definition setRoster :: "u32 \<Rightarrow> roster_entry list \<Rightarrow> guild_shell \<Rightarrow> guild_shell" where
  "setRoster gid rows s =
     (let s = clear_roster s; s = (if gid \<noteq> gs_guildId s then s\<lparr>gs_rankNames := []\<rparr> else s);
          s = s\<lparr>gs_guildId := gid\<rparr>
      in tell_guild GLoaded (fold roster_row rows s))"

definition guildRoster :: "(bytes \<Rightarrow> (u32 \<times> roster_entry) list) \<Rightarrow> bytes \<Rightarrow> guild_shell \<Rightarrow> guild_shell" where
  "guildRoster decode_roster data s =
     (case decode_roster data of [] \<Rightarrow> s | r # rows \<Rightarrow> setRoster (fst r) (map snd (r # rows)) s)"

definition setMotd :: "string \<Rightarrow> string \<Rightarrow> guild_shell \<Rightarrow> guild_shell" where
  "setMotd msg sender s = tell_guild GMotdChanged (s\<lparr>gs_motd := msg, gs_motdSender := sender, gs_motdSet := True\<rparr>)"

definition guildMOTD :: "(bytes \<Rightarrow> (string \<times> string) option) \<Rightarrow> bytes \<Rightarrow> guild_shell \<Rightarrow> guild_shell" where
  "guildMOTD decode_motd data s =
     (case decode_motd data of None \<Rightarrow> s | Some (msg, sender) \<Rightarrow> setMotd msg sender s)"

text \<open>\<open>value\<close> gives the null pointer for a name that is not there and does not insert it.\<close>

definition memberZoneUpdate ::
  "(bytes \<Rightarrow> (string \<times> u16 \<times> u16 \<times> u32) option) \<Rightarrow> bytes \<Rightarrow> guild_shell \<Rightarrow> guild_shell" where
  "memberZoneUpdate decode_update data s =
     (case decode_update data of
        None \<Rightarrow> s
      | Some (n, z, i, t) \<Rightarrow>
         (case map_of (gs_members s) n of
            Some (Some m) \<Rightarrow>
              tell_guild (GUpdated n) (s\<lparr>gs_members := AList.update n (Some (setZone z i t m)) (gs_members s)\<rparr>)
          | _ \<Rightarrow> s))"

definition expandedGuildInfo :: "(bytes \<Rightarrow> u32 \<times> string) \<Rightarrow> bytes \<Rightarrow> guild_shell \<Rightarrow> guild_shell" where
  "expandedGuildInfo decode_info data s =
     (let (i, n) = decode_info data in
      if i = 0 \<or> n = '''' then s
      else if map_of (gs_rankNames s) i = Some n then s
      else tell_guild GRankNamesChanged (s\<lparr>gs_rankNames := smap_put i n (gs_rankNames s)\<rparr>))"

text \<open>The handlers of the struct layout. \<open>operator[]\<close> inserts the null pointer for a name that is not there.\<close>

partial_function (option) member_loop ::
  "(bytes \<Rightarrow> string) \<Rightarrow> net_stream \<Rightarrow> guild_shell \<Rightarrow> guild_shell res option" where
  [code]: "member_loop utf8 st s =
     (if ns_end st then Some (Inr s)
      else case member_of_stream utf8 st of
        Inl e \<Rightarrow> Some (Inl e)
      | Inr (m, st) \<Rightarrow> member_loop utf8 st (add_member m s))"

definition guildMemberList :: "(bytes \<Rightarrow> string) \<Rightarrow> bytes \<Rightarrow> nat \<Rightarrow> guild_shell \<Rightarrow> guild_shell res option" where
  "guildMemberList utf8 data len s =
     (case readLPText (mkNetStream data len) of
        Inl e \<Rightarrow> Some (Inl e)
      | Inr (_, st) \<Rightarrow>
         (case readUInt32NC (skipBytes 1 (skipBytes 4 (skipBytes 4 st))) of
            Inl e \<Rightarrow> Some (Inl e)
          | Inr (_, st) \<Rightarrow>
              map_option (\<lambda>r. rbind r (\<lambda>s. Inr (tell_guild GLoaded s))) (member_loop utf8 st (clear_roster s))))"

record member_update =
  mu_name :: bytes
  mu_zoneId :: u16
  mu_zoneInstance :: u16
  mu_lastOn :: u32

definition guildMemberUpdate :: "(bytes \<Rightarrow> string) \<Rightarrow> member_update \<Rightarrow> guild_shell \<Rightarrow> guild_shell" where
  "guildMemberUpdate utf8 u s =
     (let n = utf8 (mu_name u) in
      case map_of (gs_members s) n of
        Some (Some m) \<Rightarrow>
          tell_guild (GUpdated n)
            (s\<lparr>gs_members := AList.update n (Some (setZone (mu_zoneId u) (mu_zoneInstance u) (mu_lastOn u) m)) (gs_members s)\<rparr>)
      | Some None \<Rightarrow> s
      | None \<Rightarrow> s\<lparr>gs_members := gs_members s @ [(n, None)]\<rparr>)"

text \<open>One line of the dump is \<open>row\<close> of the member; a null member is followed.\<close>

fun dump_rows :: "(guild_member \<Rightarrow> string) \<Rightarrow> (string \<times> guild_member option) list \<Rightarrow> string list res" where
  "dump_rows row [] = Inr []"
| "dump_rows row ((n, None) # l) = Inl UseAfterFree"
| "dump_rows row ((n, Some m) # l) = rbind (dump_rows row l) (\<lambda>r. Inr (row m # r))"

definition zoneString :: "(u16 \<Rightarrow> string) \<Rightarrow> u16 \<Rightarrow> string" where
  "zoneString zoneNameFromID z = (if z = 0 then '''' else if z = 65535 then ''Anonymous'' else zoneNameFromID z)"

definition dumpMembers :: "(guild_member \<Rightarrow> string) \<Rightarrow> guild_shell \<Rightarrow> string list res" where
  "dumpMembers row s = dump_rows row (gs_members s)"

end
