(* ===== verification/GuildLaws.thy ===== *)
theory GuildLaws
  imports Guilds
begin

text \<open>
  What the list of guilds and the roster promise: names once learned stay and survive a restart, a roster replaces the
  one before, and reading a roster always ends.
\<close>

section \<open>Learning\<close>

text \<open>Two halves of 16 bits determine the key and are determined by it; longer ones are not.\<close>

lemma guild_key_inj:
  fixes a b c d :: u16
  shows "guild_key (ucast a) (ucast b) = guild_key (ucast c) (ucast d) \<longleftrightarrow> a = c \<and> b = d"
proof
  have hi: "ucast (drop_bit 16 (guild_key (ucast x) (ucast y))) = x" for x y :: u16
    by (rule bit_word_eqI) (auto simp: guild_key_def bit_simps dest: bit_imp_le_length)
  have lo: "ucast (guild_key (ucast x) (ucast y)) = y" for x y :: u16
    by (rule bit_word_eqI) (auto simp: guild_key_def bit_simps)
  assume "guild_key (ucast a) (ucast b) = guild_key (ucast c) (ucast d)"
  then show "a = c \<and> b = d" using hi [of a b] hi [of c d] lo [of a b] lo [of c d] by metis
qed simp

lemma guild_key_aliases: "guild_key 1 65537 = guild_key 1 1"
  by (simp add: guild_key_def)

definition guild_row_key :: "guild_row \<Rightarrow> u32" where
  "guild_row_key r = guild_key (gr_serverId r) (gr_guildId r)"

lemma learn_rows:
  "smap_inv (gl_list g) \<Longrightarrow> fold learn_row rows (b, g) = (b', g') \<Longrightarrow>
     smap_inv (gl_list g') \<and> gl_file g' = gl_file g \<and>
     map_of (gl_list g') k = (case map_of (gl_list g) k of Some n \<Rightarrow> Some n
       | None \<Rightarrow> map_option gr_name (find (\<lambda>r. gr_name r \<noteq> '''' \<and> guild_row_key r = k) rows))"
proof (induction rows arbitrary: b g)
  case Nil
  then show ?case by (auto split: option.split)
next
  case (Cons r rows)
  show ?case
  proof (cases "gr_name r \<noteq> '''' \<and> map_of (gl_list g) (guild_row_key r) = None")
    case True
    let ?g = "g\<lparr>gl_list := smap_put (guild_row_key r) (gr_name r) (gl_list g), gl_signals := gl_signals g @ [gr_guildId r]\<rparr>"
    have "learn_row r (b, g) = (True, ?g)" using True by (simp add: learn_row_def guild_row_key_def)
    then have "fold learn_row rows (True, ?g) = (b', g')" using Cons.prems(2) by simp
    moreover have "smap_inv (gl_list ?g)" using Cons.prems(1) by (simp add: smap_inv_put)
    ultimately show ?thesis
      using Cons.IH [of ?g True] True Cons.prems(1) by (auto simp: smap_get_put split: option.split)
  next
    case False
    have "learn_row r (b, g) = (b, g)" using False by (auto simp: learn_row_def guild_row_key_def)
    then have "fold learn_row rows (b, g) = (b', g')" using Cons.prems(2) by simp
    then show ?thesis
      using Cons.IH [OF Cons.prems(1)] False by (auto split: option.split)
  qed
qed

text \<open>A learned guild keeps its name: after rows from the server are learned, a key that was known stands for the
  name it had, and any other for the name of the first row with that key whose name is not empty, if there is one.\<close>

theorem learned_guilds_are_kept:
  assumes "smap_inv (gl_list g)"
  shows "map_of (gl_list (learnGuilds L rows g)) k =
    (case map_of (gl_list g) k of Some n \<Rightarrow> Some n
     | None \<Rightarrow> map_option gr_name (find (\<lambda>r. gr_name r \<noteq> '''' \<and> guild_row_key r = k) rows))"
proof -
  obtain b g' where r: "fold learn_row rows (False, g) = (b, g')" by (cases "fold learn_row rows (False, g)")
  then have "gl_list (learnGuilds L rows g) = gl_list g'"
    by (simp add: learnGuilds_def writeGuildList_def)
  then show ?thesis using learn_rows [OF assms r] by simp
qed

section \<open>The file\<close>

lemma smap_put_last: "\<forall>p\<in>set t. fst p < k \<Longrightarrow> smap_put k v t = t @ [(k, v)]"
  by (induction k v t rule: smap_put.induct) (auto simp: not_less_iff_gr_or_eq)

lemma file_lines_append:
  "CHR 0x0A \<notin> set w \<Longrightarrow> file_lines cur (w @ CHR 0x0A # s) = (cur @ w @ [CHR 0x0A]) # file_lines [] s"
  by (induction w arbitrary: cur) auto

lemma file_lines_concat:
  "list_all (\<lambda>w. CHR 0x0A \<notin> set w) ws \<Longrightarrow>
     file_lines [] (concat (map (\<lambda>w. w @ [CHR 0x0A]) ws)) = map (\<lambda>w. w @ [CHR 0x0A]) ws"
  by (induction ws) (auto simp: file_lines_append)

text \<open>A name the file can hold.\<close>

definition plain_name :: "string \<Rightarrow> bool" where
  "plain_name n \<longleftrightarrow> CHR ''|'' \<notin> set n \<and> CHR 0x0A \<notin> set n \<and> (n = [] \<or> \<not> is_blank (hd n) \<and> \<not> is_blank (last n))"

definition guild_entry :: "u32 \<times> string \<Rightarrow> string" where
  "guild_entry e = dec (unat (fst e)) @ ''|'' @ snd e"

lemma digit_not_blank: "is_decimal c \<Longrightarrow> \<not> is_blank c \<and> c \<noteq> CHR ''|'' \<and> c \<noteq> CHR 0x0A"
  by (auto simp: is_decimal_def is_blank_def Let_def)

lemma dec_plain: "c \<in> set (dec n) \<Longrightarrow> \<not> is_blank c \<and> c \<noteq> CHR ''|'' \<and> c \<noteq> CHR 0x0A"
  using dec_digits digit_not_blank by blast

lemma trimmed_entry: "plain_name (snd e) \<Longrightarrow> trimmed (guild_entry e) = guild_entry e"
proof (rule trimmed_id)
  assume p: "plain_name (snd e)"
  show "guild_entry e \<noteq> []" by (simp add: guild_entry_def)
  show "\<not> is_blank (hd (guild_entry e))" using dec_plain [OF hd_in_set [OF dec_not_Nil]] by (simp add: guild_entry_def)
  show "\<not> is_blank (last (guild_entry e))"
    using p by (cases "snd e = []") (auto simp: guild_entry_def plain_name_def is_blank_def)
qed

lemma trimmed_line_end: "plain_name n \<Longrightarrow> trimmed (n @ [CHR 0x0A]) = n"
proof (cases "n = []")
  case True
  then show ?thesis by (simp add: trimmed_def is_blank_def)
next
  case False
  assume "plain_name n"
  then have h: "\<not> is_blank (hd n)" "\<not> is_blank (last n)" using False by (auto simp: plain_name_def)
  have "dropWhile is_blank (n @ [CHR 0x0A]) = n @ [CHR 0x0A]" using h(1) False by (cases n) auto
  moreover have "dropWhile is_blank (rev n) = rev n" using h(2) False by (cases n rule: rev_cases) auto
  moreover have "is_blank CHR 0x0A" by (simp add: is_blank_def)
  ultimately show ?thesis by (simp add: trimmed_def)
qed

text \<open>
  What is documented of the conversions, for any text they are given: \<open>toLatin1\<close> and \<open>fromUtf8\<close> and the text stream keep
  ASCII texts, and \<open>toULong\<close> reads the decimal numbers. Nothing is said of other texts: the letters of Latin-1 with an
  accent are written as one byte by \<open>toLatin1\<close>, which the conversion back takes for UTF-8.
\<close>

definition ascii :: "string \<Rightarrow> bool" where
  "ascii = list_all (\<lambda>c. 0 < (of_char c :: nat) \<and> (of_char c :: nat) < 128)"

definition documented :: "guild_lib \<Rightarrow> bool" where
  "documented L \<longleftrightarrow> (\<forall>s. ascii s \<longrightarrow> li_line_name L s = s \<and> li_written L s = s \<and> li_fromBytes L s = s) \<and>
     (\<forall>n<2 ^ 32. li_toULong L (dec n) = word_of_nat n)"

definition accessible :: "guild_lib \<Rightarrow> bool" where
  "accessible L \<longleftrightarrow> li_removable L \<and> li_writable L \<and> li_readable L"

text \<open>A name that the file can hold.\<close>

definition storable :: "string \<Rightarrow> bool" where
  "storable n \<longleftrightarrow> ascii n \<and> plain_name n"

lemma digit_ascii: "is_decimal c \<Longrightarrow> 0 < (of_char c :: nat) \<and> (of_char c :: nat) < 128"
  by (auto simp: is_decimal_def)

lemma ascii_dec [simp]: "ascii (dec n)"
  using dec_digits digit_ascii by (fastforce simp: ascii_def list_all_iff)

lemma ascii_entry: "ascii (snd e) \<Longrightarrow> ascii (guild_entry e)"
  using ascii_dec [of "unat (fst e)"] by (simp add: guild_entry_def ascii_def)

lemma documented_key: "documented L \<Longrightarrow> li_toULong L (dec (unat (k :: u32))) = ucast k"
proof -
  have "unat k < 2 ^ 32" using unsigned_less [of k] by simp
  then show "documented L \<Longrightarrow> li_toULong L (dec (unat k)) = ucast k" by (simp add: documented_def)
qed

lemma read_entry:
  assumes "documented L" "storable (snd e)"
  shows "gl_list (read_guild_line L (guild_entry e @ [CHR 0x0A]) g) = smap_put (fst e) (snd e) (gl_list g)"
proof -
  have bar: "CHR ''|'' \<notin> set (dec (unat (fst e)))" using dec_plain by blast
  have "CHR ''|'' \<notin> set (snd e @ [CHR 0x0A])" using assms(2) by (simp add: storable_def plain_name_def)
  then have "split_char CHR ''|'' (guild_entry e @ [CHR 0x0A]) = [dec (unat (fst e)), snd e @ [CHR 0x0A]]"
    using split_char_append [OF bar, of "CHR ''|'' # snd e @ [CHR 0x0A]"] split_char_plain [of "CHR ''|''" "snd e @ [CHR 0x0A]"]
    by (simp add: guild_entry_def)
  moreover have "ucast (ucast (fst e) :: u64) = fst e" by (rule bit_word_eqI) (simp add: bit_simps)
  moreover have "li_fromBytes L (snd e) = snd e" using assms by (simp add: documented_def storable_def)
  ultimately show ?thesis
    using assms by (simp add: read_guild_line_def storable_def documented_key trimmed_line_end Let_def)
qed

lemma read_entries:
  "documented L \<Longrightarrow> list_all (\<lambda>e. storable (snd e)) es \<Longrightarrow> smap_inv (gl_list g @ es) \<Longrightarrow>
     gl_list (fold (read_guild_line L) (map (\<lambda>e. guild_entry e @ [CHR 0x0A]) es) g) = gl_list g @ es"
proof (induction es arbitrary: g)
  case (Cons e es)
  let ?g = "read_guild_line L (guild_entry e @ [CHR 0x0A]) g"
  have "\<forall>p\<in>set (gl_list g). fst p < fst e"
    using Cons.prems(3) by (auto simp: smap_inv_def sorted_wrt_append)
  then have "gl_list ?g = gl_list g @ [e]"
    using Cons.prems(1,2) by (subst read_entry) (auto simp: smap_put_last)
  then show ?case using Cons.IH [of ?g] Cons.prems by simp
qed simp

text \<open>C35: The names of guilds survive a restart: when the file can be replaced and read, and every name is ASCII without
  bars, line ends, zero characters and blanks at its ends, what the daemon reads from the file it wrote is the list it
  had, without the key 0, which is not written.\<close>

theorem guild_list_survives_its_file:
  assumes "smap_inv (gl_list g)" "documented L" "accessible L" "list_all (\<lambda>e. storable (snd e)) (gl_list g)"
  shows "gl_list (mkGuildMgr L (gl_file (writeGuildList L g))) = filter (\<lambda>e. fst e \<noteq> 0) (gl_list g)"
proof -
  let ?es = "filter (\<lambda>e. fst e \<noteq> 0) (gl_list g)"
  have es: "list_all (\<lambda>e. storable (snd e)) ?es" "smap_inv ?es"
    using assms by (auto simp: list_all_iff smap_inv_def sorted_wrt_map intro: sorted_wrt_filter)
  have line: "guild_line L e = guild_entry e @ [CHR 0x0A]" if "e \<in> set ?es" for e
  proof -
    have n: "ascii (snd e)" "plain_name (snd e)" using that es(1) by (cases e; auto simp: storable_def list_all_iff)+
    then have "li_line_name L (snd e) = snd e" "li_written L (guild_entry e) = guild_entry e"
      using assms(2) ascii_entry by (auto simp: documented_def)
    then show ?thesis using trimmed_entry [of e] n(2) by (simp add: guild_line_def guild_entry_def)
  qed
  have "guild_text L (gl_list g) = concat (map (\<lambda>w. w @ [CHR 0x0A]) (map guild_entry ?es))"
    unfolding guild_text_def by (rule arg_cong [where f = concat]) (simp add: line)
  moreover have "list_all (\<lambda>w. CHR 0x0A \<notin> set w) (map guild_entry ?es)"
    using es(1) dec_plain by (auto simp: guild_entry_def storable_def plain_name_def list_all_iff)
  ultimately have "file_lines [] (guild_text L (gl_list g)) = map (\<lambda>w. w @ [CHR 0x0A]) (map guild_entry ?es)"
    by (simp only: file_lines_concat)
  then have "file_lines [] (guild_text L (gl_list g)) = map (\<lambda>e. guild_entry e @ [CHR 0x0A]) ?es"
    by (simp add: comp_def)
  then show ?thesis
    using assms(3) read_entries [OF assms(2) es(1), of "\<lparr>gl_list = [], gl_file = Some (guild_text L (gl_list g)), gl_signals = []\<rparr>"]
      es(2)
    by (simp add: mkGuildMgr_def readGuildList_def writeGuildList_def accessible_def Let_def)
qed

text \<open>A name with a bar is not read back.\<close>

lemma bar_is_skipped: "length (split_char CHR ''|'' line) \<noteq> 2 \<Longrightarrow> read_guild_line L line g = g"
  by (auto simp: read_guild_line_def split: list.splits)

section \<open>The roster\<close>

lemma roster_rows:
  "map_of (gs_members (fold roster_row rows s)) n =
     (if n = '''' then map_of (gs_members s) n
      else case find (\<lambda>e. re_name e = n) (rev rows) of Some e \<Rightarrow> Some (Some (mkMember e)) | None \<Rightarrow> map_of (gs_members s) n)"
proof (induction rows arbitrary: s)
  case (Cons e rows)
  have "gd_name (mkMember e) = re_name e" by (simp add: mkMember_def)
  then show ?case
    using Cons.IH [of "roster_row e s"]
    by (auto simp: roster_row_def add_member_def tell_guild_def update_conv' find_append split: option.split)
qed simp

lemma roster_replaces:
  "map_of (gs_members (setRoster gid rows s)) n =
     (if n = '''' then None else map_option (\<lambda>e. Some (mkMember e)) (find (\<lambda>e. re_name e = n) (rev rows)))"
  by (simp add: setRoster_def Let_def roster_rows clear_roster_def tell_guild_def split: option.split)

lemma unknown_update_breaks_dump:
  "map_of (gs_members s) (utf8 (mu_name u)) = None \<Longrightarrow> dumpMembers row (guildMemberUpdate utf8 u s) = Inl UseAfterFree"
proof -
  have "dump_rows row (l @ [(n, None)]) = Inl UseAfterFree" for l n
    by (induction row l rule: dump_rows.induct) simp_all
  then show "map_of (gs_members s) (utf8 (mu_name u)) = None \<Longrightarrow>
      dumpMembers row (guildMemberUpdate utf8 u s) = Inl UseAfterFree"
    by (simp add: dumpMembers_def guildMemberUpdate_def Let_def)
qed

section \<open>Reading a roster ends\<close>

lemma u8_advances:
  "readUInt8 s = Inr (v, s') \<Longrightarrow> ns_pos s < ns_length s \<Longrightarrow> ns_pos s < ns_pos s'"
  by (auto simp: readUInt8_def ns_fixed_def result_simps)

lemma member_after:
  assumes "ns_wf s"
  shows "\<exists>m s'. member_of_stream utf8 s = Inr (m, s') \<and> ns_wf s' \<and> ns_after s s' \<and>
    (ns_pos s < ns_length s \<longrightarrow> ns_pos s < ns_pos s')"
proof -
  obtain n a where a: "readLPText s = Inr (n, a)" "ns_wf a" "ns_after s a" using lp_reader.returns assms by blast
  obtain x1 b where b: "readUInt32NC a = Inr (x1, b)" "ns_wf b" "ns_after a b" using u32nc_reader.returns a(2) by blast
  obtain x2 c where c: "readUInt32NC b = Inr (x2, c)" "ns_wf c" "ns_after b c" using u32nc_reader.returns b(2) by blast
  obtain x3 d where d: "readUInt32NC c = Inr (x3, d)" "ns_wf d" "ns_after c d" using u32nc_reader.returns c(2) by blast
  obtain x4 e where e: "readUInt32NC d = Inr (x4, e)" "ns_wf e" "ns_after d e" using u32nc_reader.returns d(2) by blast
  obtain x5 f where f: "readUInt32NC e = Inr (x5, f)" "ns_wf f" "ns_after e f" using u32nc_reader.returns e(2) by blast
  obtain x6 g where g: "readUInt8 f = Inr (x6, g)" "ns_wf g" "ns_after f g" using u8_reader.returns f(2) by blast
  obtain x7 h where h: "readUInt8 g = Inr (x7, h)" "ns_wf h" "ns_after g h" using u8_reader.returns g(2) by blast
  obtain x8 i where i: "readUInt32NC h = Inr (x8, i)" "ns_wf i" "ns_after h i" using u32nc_reader.returns h(2) by blast
  obtain x9 j where j: "readUInt32NC i = Inr (x9, j)" "ns_wf j" "ns_after i j" using u32nc_reader.returns i(2) by blast
  obtain y k where k: "readUInt8 j = Inr (y, k)" "ns_wf k" "ns_after j k" using u8_reader.returns j(2) by blast
  obtain z l where l: "readLPText k = Inr (z, l)" "ns_wf l" "ns_after k l" using lp_reader.returns k(2) by blast
  have sk: "ns_wf (skipBytes 6 l)" "ns_after l (skipBytes 6 l)" using skipBytes_window [OF l(2)] by auto
  have before: "ns_after s f" using a b c d e f by (meson ns_after_trans)
  have behind: "ns_after g (skipBytes 6 l)" using h i j k l sk by (meson ns_after_trans)
  have "ns_pos s < ns_pos (skipBytes 6 l)" if "ns_pos s < ns_length s"
  proof (cases "ns_pos f < ns_length f")
    case True
    then show ?thesis using u8_advances [OF g(1)] before behind by (auto simp: ns_after_def)
  next
    case False
    then show ?thesis using that before g(3) behind by (auto simp: ns_after_def)
  qed
  moreover have "ns_after s (skipBytes 6 l)" using before g(3) behind by (meson ns_after_trans)
  moreover have "\<exists>m. member_of_stream utf8 s = Inr (m, skipBytes 6 l)"
    by (simp add: member_of_stream_def a(1) b(1) c(1) d(1) e(1) f(1) g(1) h(1) i(1) j(1) k(1) l(1) Let_def)
  ultimately show ?thesis using sk(1) by blast
qed

lemma member_loop_ends: "ns_wf st \<Longrightarrow> \<exists>s'. member_loop utf8 st s = Some (Inr s')"
proof (induction "ns_length st - ns_pos st" arbitrary: st s rule: less_induct)
  case less
  show ?case
  proof (cases "ns_end st")
    case True
    then show ?thesis by (subst member_loop.simps) simp
  next
    case False
    obtain m st' where m: "member_of_stream utf8 st = Inr (m, st')" "ns_wf st'" "ns_after st st'" "ns_pos st < ns_pos st'"
      using member_after [OF less.prems, of utf8] False by (auto simp: ns_end_def not_le)
    then have "ns_length st' - ns_pos st' < ns_length st - ns_pos st"
      using False by (auto simp: ns_after_def ns_end_def)
    then have "\<exists>s'. member_loop utf8 st' (add_member m s) = Some (Inr s')" using less.hyps m(2) by blast
    then show ?thesis using False m(1) by (subst member_loop.simps) simp
  qed
qed

text \<open>Reading a roster always ends, within the packet, however its lengths and its end are chosen.\<close>

theorem guild_roster_always_ends:
  assumes "len \<le> length data"
  shows "\<exists>s'. guildMemberList utf8 data len s = Some (Inr s')"
proof -
  have "ns_wf (mkNetStream data len)" using assms by (simp add: ns_wf_def mkNetStream_def)
  then obtain n a where a: "readLPText (mkNetStream data len) = Inr (n, a)" "ns_wf a" using lp_reader.returns by blast
  have "ns_wf (skipBytes 1 (skipBytes 4 (skipBytes 4 a)))" using a(2) skipBytes_window by blast
  then obtain c b where b: "readUInt32NC (skipBytes 1 (skipBytes 4 (skipBytes 4 a))) = Inr (c, b)" "ns_wf b"
    using u32nc_reader.returns by blast
  show ?thesis
    using member_loop_ends [OF b(2), of utf8 "clear_roster s"] a(1) b(1) by (auto simp: guildMemberList_def)
qed

section \<open>Runs\<close>

text \<open>Conversions that lose what is not ASCII.\<close>

definition to_ascii :: "string \<Rightarrow> string" where
  "to_ascii = map (\<lambda>c. if (of_char c :: nat) < 128 then c else CHR ''?'')"

lemma to_ascii_id: "ascii s \<Longrightarrow> to_ascii s = s"
  by (induction s) (auto simp: ascii_def to_ascii_def)

definition demo_guild_lib :: guild_lib where
  "demo_guild_lib = \<lparr>li_toULong = (\<lambda>s. word_of_nat (undec s)), li_line_name = to_ascii, li_written = to_ascii,
     li_fromBytes = to_ascii, li_removable = True, li_writable = True, li_readable = True\<rparr>"

lemma demo_documented: "documented demo_guild_lib"
  by (simp add: documented_def demo_guild_lib_def to_ascii_id)

definition demo_guilds :: guild_mgr where
  "demo_guilds = \<lparr>gl_list = [(0, ''Nobody''), (1, ''Fires of Heaven''), (2, ''Afterlife'')], gl_file = None,
     gl_signals = []\<rparr>"

theorem guild_list_survives_its_file_witness:
  "gl_list (mkGuildMgr demo_guild_lib (gl_file (writeGuildList demo_guild_lib demo_guilds))) =
    [(1, ''Fires of Heaven''), (2, ''Afterlife'')]"
proof -
  have "gl_list (mkGuildMgr demo_guild_lib (gl_file (writeGuildList demo_guild_lib demo_guilds))) =
      filter (\<lambda>e. fst e \<noteq> 0) (gl_list demo_guilds)"
    by (rule guild_list_survives_its_file [OF _ demo_documented]) code_simp+
  then show ?thesis by (simp add: demo_guilds_def)
qed

theorem learned_guilds_are_kept_witness:
  "map_of (gl_list (learnGuilds demo_guild_lib
     [\<lparr>gr_guildId = 1, gr_serverId = 0, gr_name = ''Renamed''\<rparr>, \<lparr>gr_guildId = 5, gr_serverId = 0, gr_name = ''New''\<rparr>]
     demo_guilds)) 1 = Some ''Fires of Heaven''"
proof -
  have "smap_inv (gl_list demo_guilds)" by code_simp
  from learned_guilds_are_kept [OF this] show ?thesis by (simp add: demo_guilds_def)
qed

theorem guild_roster_always_ends_witness:
  "\<exists>s'. guildMemberList (map (\<lambda>b. char_of (unat b))) [0, 0, 0, 0, 1, 2, 3, 4, 5, 6, 7, 8, 9, 0, 0, 0, 0, 7] 18 mkGuildShell = Some (Inr s')"
  by (rule guild_roster_always_ends) simp

end
