(* ===== verification/MessageFilters.thy ===== *)
theory MessageFilters
  imports Prefs
begin

text \<open>
  The filters of messages (\<open>src/messagefilter.h\<close>, \<open>src/messagefilter.cpp\<close>), 32 slots that are kept in a section of the
  preferences, and the settings a client may change (\<open>src/prefsbroker.h\<close>, \<open>src/prefsbroker.cpp\<close>). Whether an
  expression matches a message is a parameter.
\<close>

section \<open>One filter\<close>

text \<open>An expression is its pattern and its options.\<close>

record message_filter =
  mf_name :: string
  mf_types :: u64
  mf_regexp :: "string \<times> u32"

definition mkMessageFilter :: "string \<Rightarrow> u64 \<Rightarrow> string \<times> u32 \<Rightarrow> message_filter" where
  "mkMessageFilter n t r = \<lparr>mf_name = n, mf_types = t, mf_regexp = r\<rparr>"

definition mkMessageFilter_pattern :: "u64 \<Rightarrow> string \<times> u32 \<Rightarrow> message_filter" where
  "mkMessageFilter_pattern t r = mkMessageFilter (fst r) t r"

type_synonym matcher = "string \<times> u32 \<Rightarrow> string \<Rightarrow> bool"

definition mf_isFiltered :: "matcher \<Rightarrow> u64 \<Rightarrow> string \<Rightarrow> message_filter \<Rightarrow> bool" where
  "mf_isFiltered mt k msg f \<longleftrightarrow> mf_types f AND k \<noteq> 0 \<and> mt (mf_regexp f) msg"

definition type_mask :: "nat \<Rightarrow> u64 res" where
  "type_mask t = (if t < 64 then Inr (push_bit t 1) else Inl BadShift)"

definition mf_isFiltered_type :: "matcher \<Rightarrow> nat \<Rightarrow> string \<Rightarrow> message_filter \<Rightarrow> bool res" where
  "mf_isFiltered_type mt t msg f = rbind (type_mask t) (\<lambda>k. Inr (mf_isFiltered mt k msg f))"

section \<open>The slots\<close>

definition maxMessageFilters :: nat where "maxMessageFilters = 32"

definition MessageFilters_section :: string where "MessageFilters_section = ''MessageFilters''"

datatype message_filter_event = MFRemoved u32 nat | MFAdded u32 nat message_filter

record message_filters =
  ms_slots :: "message_filter option list"
  ms_events :: "message_filter_event list"

definition slot_name :: "nat \<Rightarrow> string \<Rightarrow> string" where
  "slot_name i suffix = dec i @ suffix"

definition load_slot :: "prefs_lib \<Rightarrow> prefs \<Rightarrow> nat \<Rightarrow> message_filter option" where
  "load_slot PL p i =
     (let sec = MessageFilters_section; n = getPrefString (slot_name i ''Name'') sec '''' AnyPool p in
      if n = '''' then None
      else
        (let r = (getPrefString (slot_name i ''Pattern'') sec ''.'' AnyPool p, 0);
             t = getPrefUInt64 PL (slot_name i ''Types'') sec 0 AnyPool p
         in Some (mkMessageFilter n t r)))"

definition mkMessageFilters :: "prefs_lib \<Rightarrow> prefs \<Rightarrow> message_filters" where
  "mkMessageFilters PL p = \<lparr>ms_slots = map (load_slot PL p) [0..<maxMessageFilters], ms_events = []\<rparr>"

definition put_slot :: "nat \<Rightarrow> string \<Rightarrow> string \<Rightarrow> u64 \<Rightarrow> prefs \<Rightarrow> prefs" where
  "put_slot i n pat t p =
     (let sec = MessageFilters_section;
          p = setPrefString (slot_name i ''Name'') sec n User p;
          p = setPrefString (slot_name i ''Pattern'') sec pat User p
      in setPrefUInt64 (slot_name i ''Types'') sec t User p)"

definition mf_addFilter :: "message_filter \<Rightarrow> message_filters \<times> prefs \<Rightarrow> u8 \<times> message_filters \<times> prefs" where
  "mf_addFilter f st =
     (let (m, p) = st in
      case find (\<lambda>i. ms_slots m ! i = None) [0..<maxMessageFilters] of
        Some i \<Rightarrow>
          (word_of_nat i,
           m\<lparr>ms_slots := (ms_slots m)[i := Some f], ms_events := ms_events m @ [MFAdded (push_bit i 1) i f]\<rparr>,
           put_slot i (mf_name f) (fst (mf_regexp f)) (mf_types f) p)
      | None \<Rightarrow> (0xFF, m, p))"

text \<open>The number of the slot is a byte, the array has 32 slots.\<close>

definition mf_remSlot :: "u8 \<Rightarrow> message_filters \<times> prefs \<Rightarrow> (bool \<times> message_filters \<times> prefs) res" where
  "mf_remSlot w st =
     (let (m, p) = st; i = unat w in
      if maxMessageFilters \<le> i then Inl OutOfBounds
      else if ms_slots m ! i = None then Inr (False, m, p)
      else Inr (True,
        m\<lparr>ms_slots := (ms_slots m)[i := None], ms_events := ms_events m @ [MFRemoved (push_bit i 1) i]\<rparr>,
        put_slot i '''' '''' 0 p))"

definition mf_rem_where ::
  "(message_filter \<Rightarrow> bool) \<Rightarrow> message_filters \<times> prefs \<Rightarrow> (bool \<times> message_filters \<times> prefs) res" where
  "mf_rem_where P st =
     (case find (\<lambda>i. case ms_slots (fst st) ! i of None \<Rightarrow> False | Some f \<Rightarrow> P f) [0..<maxMessageFilters] of
        Some i \<Rightarrow> mf_remSlot (word_of_nat i) st
      | None \<Rightarrow> Inr (False, st))"

definition mf_remFilter :: "message_filter \<Rightarrow> message_filters \<times> prefs \<Rightarrow> (bool \<times> message_filters \<times> prefs) res" where
  "mf_remFilter f = mf_rem_where (\<lambda>g. mf_name g = mf_name f \<and> mf_types g = mf_types f \<and> mf_regexp g = mf_regexp f)"

definition mf_remName :: "string \<Rightarrow> message_filters \<times> prefs \<Rightarrow> (bool \<times> message_filters \<times> prefs) res" where
  "mf_remName n = mf_rem_where (\<lambda>g. mf_name g = n)"

definition filterMessage :: "matcher \<Rightarrow> u64 \<Rightarrow> string \<Rightarrow> message_filters \<Rightarrow> u32" where
  "filterMessage mt k msg m =
     fold (\<lambda>i acc. case ms_slots m ! i of
         Some f \<Rightarrow> if mf_isFiltered mt k msg f then acc OR push_bit i 1 else acc
       | None \<Rightarrow> acc) [0..<maxMessageFilters] 0"

definition filterMessage_type :: "matcher \<Rightarrow> nat \<Rightarrow> string \<Rightarrow> message_filters \<Rightarrow> u32 res" where
  "filterMessage_type mt t msg m = rbind (type_mask t) (\<lambda>k. Inr (filterMessage mt k msg m))"

section \<open>Restarts\<close>

text \<open>What of a filter is kept: not its options, and nothing when it has no name.\<close>

definition kept :: "message_filter option \<Rightarrow> message_filter option" where
  "kept s = (case s of
     Some f \<Rightarrow> if mf_name f = '''' then None else Some (f\<lparr>mf_regexp := (fst (mf_regexp f), 0)\<rparr>)
   | None \<Rightarrow> None)"

definition mirrored :: "prefs_lib \<Rightarrow> message_filters \<times> prefs \<Rightarrow> bool" where
  "mirrored PL st \<longleftrightarrow> unshadowed MessageFilters_section (snd st) \<and> length (ms_slots (fst st)) = maxMessageFilters \<and>
     (\<forall>i<maxMessageFilters. load_slot PL (snd st) i = kept (ms_slots (fst st) ! i))"

lemma find_put_user:
  assumes "unshadowed sec p"
  shows "pref_find m sec AnyPool (pref_put n sec v User p) = (if m = n then Some v else pref_find m sec AnyPool p)"
    and "unshadowed sec (pref_put n sec v User p)"
proof -
  show u: "unshadowed sec (pref_put n sec v User p)"
    using assms by (simp add: unshadowed_def pref_put_def mask_defs)
  show "pref_find m sec AnyPool (pref_put n sec v User p) = (if m = n then Some v else pref_find m sec AnyPool p)"
    unfolding section_text_find [OF assms] section_text_find [OF u]
    by (auto simp: pref_put_def mask_defs pool_get_put split: option.splits)
qed

lemma slot_name_inj: "s \<noteq> [] \<Longrightarrow> \<not> is_decimal (hd s) \<Longrightarrow> t \<noteq> [] \<Longrightarrow> \<not> is_decimal (hd t) \<Longrightarrow>
    slot_name i s = slot_name j t \<longleftrightarrow> i = j \<and> s = t"
  by (cases s; cases t) (auto simp: slot_name_def dec_append_inj)

lemma suffix_no_digit [simp]: "\<not> is_decimal CHR ''N''" "\<not> is_decimal CHR ''P''" "\<not> is_decimal CHR ''T''"
  by (simp_all add: is_decimal_def)

lemma load_put_slot:
  assumes "unshadowed MessageFilters_section p"
  shows "load_slot PL (put_slot i n pat t p) j =
    (if j = i then (if n = '''' then None else Some (mkMessageFilter n t (pat, 0))) else load_slot PL p j)"
    and "unshadowed MessageFilters_section (put_slot i n pat t p)"
  using assms
  by (auto simp: load_slot_def put_slot_def Let_def getPrefString_def getPrefUInt64_def setPrefString_def setPrefUInt64_def
      find_put_user slot_name_inj pref_toString_def)

lemma mirrored_put:
  assumes "mirrored PL (m, p)" "i < maxMessageFilters"
    and "kept s = (if n = '''' then None else Some (mkMessageFilter n t (pat, 0)))"
  shows "mirrored PL (m\<lparr>ms_slots := (ms_slots m)[i := s], ms_events := es\<rparr>, put_slot i n pat t p)"
  using assms by (auto simp: mirrored_def load_put_slot nth_list_update)

lemma mirrored_start: "unshadowed MessageFilters_section p \<Longrightarrow> mirrored PL (mkMessageFilters PL p, p)"
  by (auto simp: mirrored_def mkMessageFilters_def kept_def load_slot_def mkMessageFilter_def Let_def split: option.split)

lemma find_slot: "find P [0..<maxMessageFilters] = Some i \<Longrightarrow> i < maxMessageFilters \<and> P i"
  using find_Some_set by fastforce

lemma mirrored_add: "mirrored PL st \<Longrightarrow> mirrored PL (snd (mf_addFilter f st))"
proof -
  assume m: "mirrored PL st"
  obtain ms p where st: "st = (ms, p)" by (cases st)
  show "mirrored PL (snd (mf_addFilter f st))"
  proof (cases "find (\<lambda>i. ms_slots ms ! i = None) [0..<maxMessageFilters]")
    case None
    then show ?thesis using m by (simp add: mf_addFilter_def st)
  next
    case (Some i)
    then have "mirrored PL (ms\<lparr>ms_slots := (ms_slots ms)[i := Some f], ms_events := ms_events ms @ [MFAdded (push_bit i 1) i f]\<rparr>,
        put_slot i (mf_name f) (fst (mf_regexp f)) (mf_types f) p)"
      using m find_slot by (intro mirrored_put) (auto simp: st kept_def mkMessageFilter_def)
    then show ?thesis using Some by (simp add: mf_addFilter_def st)
  qed
qed

lemma mirrored_remSlot: "mirrored PL st \<Longrightarrow> mf_remSlot w st = Inr (b, st') \<Longrightarrow> mirrored PL st'"
proof -
  assume m: "mirrored PL st" and r: "mf_remSlot w st = Inr (b, st')"
  obtain ms p where st: "st = (ms, p)" by (cases st)
  show "mirrored PL st'"
  proof (cases "ms_slots ms ! unat w = None")
    case True
    then show ?thesis using m r by (auto simp: mf_remSlot_def st Let_def split: if_splits)
  next
    case False
    then have "st' = (ms\<lparr>ms_slots := (ms_slots ms)[unat w := None],
        ms_events := ms_events ms @ [MFRemoved (push_bit (unat w) 1) (unat w)]\<rparr>, put_slot (unat w) '''' '''' 0 p)"
      "unat w < maxMessageFilters"
      using r by (auto simp: mf_remSlot_def st Let_def split: if_splits)
    then show ?thesis using m by (auto simp: st kept_def intro!: mirrored_put)
  qed
qed

lemma mirrored_rem_where: "mirrored PL st \<Longrightarrow> mf_rem_where P st = Inr (b, st') \<Longrightarrow> mirrored PL st'"
  by (auto simp: mf_rem_where_def mirrored_remSlot split: option.splits)

datatype mf_op = AddFilter message_filter | RemFilter message_filter | RemSlot u8 | RemName string

fun mf_step :: "mf_op \<Rightarrow> message_filters \<times> prefs \<Rightarrow> (message_filters \<times> prefs) res" where
  "mf_step (AddFilter f) st = Inr (snd (mf_addFilter f st))"
| "mf_step (RemFilter f) st = rbind (mf_remFilter f st) (\<lambda>r. Inr (snd r))"
| "mf_step (RemSlot w) st = rbind (mf_remSlot w st) (\<lambda>r. Inr (snd r))"
| "mf_step (RemName n) st = rbind (mf_remName n st) (\<lambda>r. Inr (snd r))"

interpretation mf_machine: invariant_machine mf_step "mirrored PL" for PL
proof
  fix s x s' assume m: "mirrored PL s" and r: "mf_step x s = Inr s'"
  show "mirrored PL s'"
  proof (cases x)
    case (AddFilter f)
    then show ?thesis using mirrored_add [OF m, of f] r by auto
  next
    case (RemFilter f)
    then show ?thesis using m r by (auto simp: result_simps mf_remFilter_def dest: mirrored_rem_where)
  next
    case (RemSlot w)
    then show ?thesis using m r by (auto simp: result_simps dest: mirrored_remSlot)
  next
    case (RemName n)
    then show ?thesis using m r by (auto simp: result_simps mf_remName_def dest: mirrored_rem_where)
  qed
qed

lemma kept_same: "kept s = s \<longleftrightarrow> (\<forall>f. s = Some f \<longrightarrow> mf_name f \<noteq> '''' \<and> snd (mf_regexp f) = 0)"
proof (cases s)
  case (Some f)
  then show ?thesis by (cases f) (auto simp: kept_def prod_eq_iff)
qed (simp add: kept_def)

text \<open>C25: Where no value of the running daemon hides a setting of the section, the settings follow the message filters
  through any additions and removals: a daemon that starts from them has, in each slot, the filter of the slot with the
  options of its expression cleared, and an empty slot for a filter without a name. So it has the same slots exactly when
  every filter has a name and an expression without options.\<close>

theorem message_filters_are_mirrored:
  assumes "unshadowed MessageFilters_section p0" "run_ops mf_step ops (mkMessageFilters PL p0, p0) = Inr (m, p)"
  shows "ms_slots (mkMessageFilters PL p) = map kept (ms_slots m) \<and>
    (ms_slots (mkMessageFilters PL p) = ms_slots m \<longleftrightarrow>
       (\<forall>f. Some f \<in> set (ms_slots m) \<longrightarrow> mf_name f \<noteq> '''' \<and> snd (mf_regexp f) = 0))"
proof -
  have "mirrored PL (m, p)"
    using mf_machine.run_keeps [OF mirrored_start [OF assms(1)] assms(2)] .
  then have "ms_slots (mkMessageFilters PL p) = map kept (ms_slots m)"
    by (intro nth_equalityI) (auto simp: mirrored_def mkMessageFilters_def)
  moreover have "map kept xs = xs \<longleftrightarrow> (\<forall>s\<in>set xs. kept s = s)" for xs
    by (induction xs) auto
  ultimately show ?thesis by (auto simp: kept_same)
qed

text \<open>A removal by number goes past the slots exactly when the number is 32 or more; one by name or by value never does.\<close>

lemma remove_past_slots: "mf_remSlot w st = Inl OutOfBounds \<longleftrightarrow> 32 \<le> unat w"
  by (auto simp: mf_remSlot_def maxMessageFilters_def Let_def split: prod.split)

lemma rem_where_never_past: "\<exists>b st'. mf_rem_where P st = Inr (b, st')"
proof (cases "find (\<lambda>i. case ms_slots (fst st) ! i of None \<Rightarrow> False | Some f \<Rightarrow> P f) [0..<maxMessageFilters]")
  case None
  then show ?thesis by (auto simp: mf_rem_where_def)
next
  case (Some i)
  then have "i < 32" using find_slot by (fastforce simp: maxMessageFilters_def)
  then have "unat (word_of_nat i :: u8) = i" by (simp add: unat_of_nat take_bit_nat_eq_self)
  then show ?thesis using Some \<open>i < 32\<close>
    by (auto simp: mf_rem_where_def mf_remSlot_def maxMessageFilters_def Let_def split: prod.split)
qed

text \<open>The bits of a mask are the slots whose filter takes the message.\<close>

lemma filterMessage_bits:
  assumes "i < 32"
  shows "bit (filterMessage mt k msg m) i \<longleftrightarrow>
    (case ms_slots m ! i of Some f \<Rightarrow> mf_isFiltered mt k msg f | None \<Rightarrow> False)"
proof -
  define hit where "hit j = (case ms_slots m ! j of Some f \<Rightarrow> mf_isFiltered mt k msg f | None \<Rightarrow> False)" for j
  have "filterMessage mt k msg m = fold (\<lambda>j acc. if hit j then acc OR push_bit j 1 else acc) [0..<32] 0"
    unfolding filterMessage_def maxMessageFilters_def
    by (rule fold_cong) (auto simp: hit_def split: option.split)
  moreover have "bit (fold (\<lambda>j acc. if hit j then acc OR push_bit j 1 else acc) js a :: u32) i \<longleftrightarrow>
      bit a i \<or> i \<in> set js \<and> hit i" for js a
    using assms by (induction js arbitrary: a) (auto simp: bit_simps)
  ultimately show ?thesis using assms by (simp add: hit_def)
qed

section \<open>The settings of clients\<close>

datatype pref_value = PvString string | PvOther

record client_pref =
  cp_section :: string
  cp_key :: string
  cp_value :: pref_value

datatype monitor_action = MonitorDevice string | MonitorNextClient | MonitorIPClient string | NoAction

definition kInterfaceSection :: string where "kInterfaceSection = ''Interface''"
definition kDateTimeFormatKey :: string where "kDateTimeFormatKey = ''DateTimeFormat''"
definition kDateTimeFormatDefault :: string where "kDateTimeFormatDefault = ''ddd MMM dd,yyyy - hh:mm ap''"
definition kNetworkSection :: string where "kNetworkSection = ''Network''"
definition kDeviceKey :: string where "kDeviceKey = ''Device''"
definition kDeviceDefault :: string where "kDeviceDefault = ''''"
definition kIPKey :: string where "kIPKey = ''IP''"
definition kIPDefault :: string where "kIPDefault = ''127.0.0.0''"

text \<open>The snapshot holds three settings, one block of the function each. \<open>getPrefString\<close> looks in all layers.\<close>

definition fillSnapshot :: "prefs \<Rightarrow> client_pref list" where
  "fillSnapshot p =
     [\<lparr>cp_section = kInterfaceSection, cp_key = kDateTimeFormatKey,
       cp_value = PvString (getPrefString kDateTimeFormatKey kInterfaceSection kDateTimeFormatDefault AnyPool p)\<rparr>,
      \<lparr>cp_section = kNetworkSection, cp_key = kDeviceKey,
       cp_value = PvString (getPrefString kDeviceKey kNetworkSection kDeviceDefault AnyPool p)\<rparr>,
      \<lparr>cp_section = kNetworkSection, cp_key = kIPKey,
       cp_value = PvString (getPrefString kIPKey kNetworkSection kIPDefault AnyPool p)\<rparr>]"

text \<open>What a change does: whether it was one, which is when \<open>prefChanged\<close> is emitted, what the capture is told, and the settings
  with their file.\<close>

definition pb_store :: "prefs_lib \<Rightarrow> string \<Rightarrow> string \<Rightarrow> string \<Rightarrow> files \<times> prefs \<Rightarrow> files \<times> prefs" where
  "pb_store L key sec v st = snd (prefs_save L (fst st, setPrefString key sec v User (snd st)))"

definition pb_apply ::
  "prefs_lib \<Rightarrow> bool \<Rightarrow> client_pref \<Rightarrow> files \<times> prefs \<Rightarrow> bool \<times> monitor_action \<times> files \<times> prefs" where
  "pb_apply L packet c st =
     (let sec = cp_section c; key = cp_key c in
      if sec = kInterfaceSection \<and> key = kDateTimeFormatKey then
        (case cp_value c of PvString v \<Rightarrow> (True, NoAction, pb_store L key sec v st) | PvOther \<Rightarrow> (False, NoAction, st))
      else if sec = kNetworkSection \<and> key = kDeviceKey then
        (case cp_value c of
           PvString v \<Rightarrow> (True, if packet \<and> v \<noteq> '''' then MonitorDevice v else NoAction, pb_store L key sec v st)
         | PvOther \<Rightarrow> (False, NoAction, st))
      else if sec = kNetworkSection \<and> key = kIPKey then
        (case cp_value c of
           PvString v \<Rightarrow>
             (True, if packet then (if v = '''' then MonitorNextClient else MonitorIPClient v) else NoAction, pb_store L key sec v st)
         | PvOther \<Rightarrow> (False, NoAction, st))
      else (False, NoAction, st))"

lemmas setting_names = kInterfaceSection_def kDateTimeFormatKey_def kDateTimeFormatDefault_def kNetworkSection_def
  kDeviceKey_def kDeviceDefault_def kIPKey_def kIPDefault_def

lemma prefs_save_pools: "pools pers (snd (snd (prefs_save L (fs, p)))) = pools pers p"
  by (auto simp: prefs_save_def pools_def Let_def)

lemma pb_store_find:
  "pref_find k s pers (snd (pb_store L key sec v (fs, p))) = pref_find k s pers (pref_put key sec (PStr v) User p)"
  by (simp add: pb_store_def pref_find_def prefs_save_pools setPrefString_def)

lemma find_user_put:
  "pref_find k s AnyPool (pref_put key sec v User p) =
     (if s = sec \<and> k = key \<and> pref_find k s Runtime p = None then Some v else pref_find k s AnyPool p)"
  "pref_find k s User (pref_put key sec v User p) = (if s = sec \<and> k = key then Some v else pref_find k s User p)"
  by (auto simp: pref_find_def pools_def pref_put_def mask_defs pool_get_put split: option.split)

text \<open>The setting a request names is one of those the snapshot publishes.\<close>

definition names_published :: "client_pref \<Rightarrow> prefs \<Rightarrow> bool" where
  "names_published c p \<longleftrightarrow> (\<exists>c'\<in>set (fillSnapshot p). cp_section c' = cp_section c \<and> cp_key c' = cp_key c)"

lemma names_published_iff: "names_published c p \<longleftrightarrow>
    cp_section c = kInterfaceSection \<and> cp_key c = kDateTimeFormatKey \<or>
    cp_section c = kNetworkSection \<and> (cp_key c = kDeviceKey \<or> cp_key c = kIPKey)"
  by (auto simp: names_published_def fillSnapshot_def)

lemma pb_apply_outcome:
  "pb_apply L packet c (fs, p) = (ok, act, fs', p') \<Longrightarrow>
     (case cp_value c of
        PvString v \<Rightarrow> if names_published c p then ok \<and> (fs', p') = pb_store L (cp_key c) (cp_section c) v (fs, p)
          else \<not> ok \<and> act = NoAction \<and> fs' = fs \<and> p' = p
      | PvOther \<Rightarrow> \<not> ok \<and> act = NoAction \<and> fs' = fs \<and> p' = p)"
  unfolding names_published_iff
  by (cases "cp_value c") (auto simp: pb_apply_def Let_def setting_names split: if_splits)

text \<open>The snapshot a client gets after its change: only the setting it changed is new.\<close>

definition with_setting :: "client_pref \<Rightarrow> client_pref \<Rightarrow> client_pref" where
  "with_setting c c' = (if cp_section c' = cp_section c \<and> cp_key c' = cp_key c then c else c')"

lemma snapshot_after_put:
  assumes "names_published c p" "cp_value c = PvString v" "pref_find (cp_key c) (cp_section c) Runtime p = None"
    and "\<And>k s. pref_find k s AnyPool p' = pref_find k s AnyPool (pref_put (cp_key c) (cp_section c) (PStr v) User p)"
  shows "fillSnapshot p' = map (with_setting c) (fillSnapshot p)"
proof (cases c)
  case (fields sec key val)
  then have "sec = kInterfaceSection \<and> key = kDateTimeFormatKey \<or> sec = kNetworkSection \<and> (key = kDeviceKey \<or> key = kIPKey)"
    using assms(1) by (simp add: names_published_iff)
  then show ?thesis
    using assms(2,3) fields
    by (auto simp: fillSnapshot_def with_setting_def getPrefString_def assms(4) find_user_put pref_toString_def setting_names)
qed

text \<open>C30: A preference request is accepted exactly when it names a setting the snapshot publishes and its value is a
  text. Then that setting of the user's layer, and no other, becomes the text; readers of all layers see it unless the
  running daemon has a value of its own for it, and without one the next snapshot differs from the last in that entry
  alone. A request that is refused changes nothing, no file either.\<close>

theorem pref_requests_change_published_settings:
  assumes "pb_apply L packet c (fs, p) = (ok, act, fs', p')"
  shows "(ok \<longleftrightarrow> names_published c p \<and> (\<exists>v. cp_value c = PvString v)) \<and>
    (\<not> ok \<longrightarrow> fs' = fs \<and> p' = p \<and> act = NoAction) \<and>
    (\<forall>v s k. cp_value c = PvString v \<longrightarrow> ok \<longrightarrow>
       pref_find k s User p' = (if s = cp_section c \<and> k = cp_key c then Some (PStr v) else pref_find k s User p) \<and>
       pref_find k s AnyPool p' =
         (if s = cp_section c \<and> k = cp_key c \<and> pref_find k s Runtime p = None then Some (PStr v) else pref_find k s AnyPool p)) \<and>
    (ok \<and> pref_find (cp_key c) (cp_section c) Runtime p = None \<longrightarrow> fillSnapshot p' = map (with_setting c) (fillSnapshot p))"
proof (cases "cp_value c")
  case (PvString v)
  show ?thesis
  proof (cases "names_published c p")
    case True
    then have ok: "ok" and "(fs', p') = pb_store L (cp_key c) (cp_section c) v (fs, p)"
      using pb_apply_outcome [OF assms] PvString by simp_all
    then have p': "pref_find k s pers p' = pref_find k s pers (pref_put (cp_key c) (cp_section c) (PStr v) User p)" for k s pers
      by (metis pb_store_find snd_conv)
    then show ?thesis using ok True PvString snapshot_after_put [OF True PvString] by (simp add: find_user_put)
  next
    case False
    then show ?thesis using pb_apply_outcome [OF assms] PvString by simp
  qed
next
  case PvOther
  then show ?thesis using pb_apply_outcome [OF assms] by simp
qed

section \<open>Runs\<close>

definition no_prefs :: prefs where
  "no_prefs = \<lparr>pf_defaultsFile = '''', pf_userFile = ''p.toml'', pf_runtime = [], pf_user = [], pf_defaults = [],
     pf_userDirty = False\<rparr>"

theorem message_filters_are_mirrored_witness:
  "\<exists>m p. run_ops mf_step
     [AddFilter (mkMessageFilter ''tells'' 4 (''tells you'', 1)), AddFilter (mkMessageFilter '''' 8 (''x'', 0)),
      AddFilter (mkMessageFilter ''shouts'' 16 (''shouts'', 0)), RemName ''tells'']
     (mkMessageFilters demo_lib no_prefs, no_prefs) = Inr (m, p) \<and>
   ms_slots (mkMessageFilters demo_lib p) =
     [None, None, Some (mkMessageFilter ''shouts'' 16 (''shouts'', 0))] @ replicate 29 None"
proof -
  define ops where "ops = [AddFilter (mkMessageFilter ''tells'' 4 (''tells you'', 1)), AddFilter (mkMessageFilter '''' 8 (''x'', 0)),
      AddFilter (mkMessageFilter ''shouts'' 16 (''shouts'', 0)), RemName ''tells'']"
  obtain st where r: "run_ops mf_step ops (mkMessageFilters demo_lib no_prefs, no_prefs) = Inr st"
    and slots: "map kept (ms_slots (fst st)) = [None, None, Some (mkMessageFilter ''shouts'' 16 (''shouts'', 0))] @ replicate 29 None"
  proof -
    define st where "st = (case run_ops mf_step ops (mkMessageFilters demo_lib no_prefs, no_prefs) of Inr st \<Rightarrow> st
      | Inl e \<Rightarrow> (mkMessageFilters demo_lib no_prefs, no_prefs))"
    have "run_ops mf_step ops (mkMessageFilters demo_lib no_prefs, no_prefs) = Inr st"
      unfolding st_def ops_def by code_simp
    moreover have "map kept (ms_slots (fst st)) =
        [None, None, Some (mkMessageFilter ''shouts'' 16 (''shouts'', 0))] @ replicate 29 None"
      unfolding st_def ops_def by code_simp
    ultimately show ?thesis by (rule that)
  qed
  obtain m p where st: "st = (m, p)" by (cases st)
  have "unshadowed MessageFilters_section no_prefs" by (simp add: unshadowed_def no_prefs_def)
  from message_filters_are_mirrored [OF this r [unfolded st]] show ?thesis
    using r slots unfolding st ops_def by auto
qed

theorem pref_requests_change_published_settings_witness:
  "\<exists>act fs' p'. pb_apply demo_lib True \<lparr>cp_section = ''Network'', cp_key = ''IP'', cp_value = PvString ''10.0.0.7''\<rparr>
     (\<lambda>_. None, no_prefs) = (True, act, fs', p') \<and> pref_find ''IP'' ''Network'' AnyPool p' = Some (PStr ''10.0.0.7'') \<and>
   pref_find ''Device'' ''Network'' AnyPool p' = None \<and>
   map cp_value (fillSnapshot p') = [PvString ''ddd MMM dd,yyyy - hh:mm ap'', PvString '''', PvString ''10.0.0.7'']"
proof -
  let ?c = "\<lparr>cp_section = ''Network'', cp_key = ''IP'', cp_value = PvString ''10.0.0.7''\<rparr>"
  obtain ok act fs' p' where r: "pb_apply demo_lib True ?c (\<lambda>_. None, no_prefs) = (ok, act, fs', p')"
    by (cases "pb_apply demo_lib True ?c (\<lambda>_. None, no_prefs)")
  have n: "pref_find k s pers no_prefs = None" for k s pers
    by (simp add: pref_find_def pools_def no_prefs_def mask_defs pool_get_def)
  show ?thesis
    using pref_requests_change_published_settings [OF r] r
    by (simp add: names_published_iff setting_names n fillSnapshot_def with_setting_def getPrefString_def pref_toString_def)
qed

end
