(* ===== verification/Items.thy ===== *)
theory Items
  imports PacketCommon Tables QtText Complex_Main
begin

text \<open>
  Items: the parser of \<open>OP_ItemPacket\<close> (\<open>src/itempacket.cpp\<close>) and the cache of items with the slots they are worn in
  (\<open>src/itemcache.cpp\<close>). The JSON library and the arithmetic of floats are parameters.
\<close>

section \<open>The packet\<close>

definition ITEM_STAT_COUNT :: nat where "ITEM_STAT_COUNT = 7"
definition ITEM_RES_COUNT :: nat where "ITEM_RES_COUNT = 5"

text \<open>\<open>it_weight\<close> is the float by its bits; \<open>hp\<close>, \<open>mana\<close>, \<open>endurance\<close> and \<open>ac\<close> are signed words, and so are
  the bytes.\<close>

record item_template =
  it_itemName :: string
  it_loreName :: string
  it_itemId :: u32
  it_slotBitmask :: u32
  it_flags :: u32
  it_weight :: u32
  it_hp :: u32
  it_mana :: u32
  it_endurance :: u32
  it_ac :: u32
  it_stats :: "u8 list"
  it_resists :: "u8 list"
  it_corruption :: u8
  it_packetType :: u32
  it_mainSlot :: u32
  it_subSlot :: u16
  it_stackCount :: u32

definition mkItemTemplate :: item_template where
  "mkItemTemplate = \<lparr>it_itemName = '''', it_loreName = '''', it_itemId = 0, it_slotBitmask = 0, it_flags = 0, it_weight = 0,
     it_hp = 0, it_mana = 0, it_endurance = 0, it_ac = 0, it_stats = replicate ITEM_STAT_COUNT 0,
     it_resists = replicate ITEM_RES_COUNT 0, it_corruption = 0, it_packetType = 0, it_mainSlot = 0, it_subSlot = 0,
     it_stackCount = 0\<rparr>"

definition readU32LE :: "bytes \<Rightarrow> nat \<Rightarrow> u32 res" where
  "readU32LE p i = eqtohuint32 (drop i p)"

text \<open>The name begins at the first capital letter behind a zero byte, not counting the last byte.\<close>

function findNameStart :: "bytes \<Rightarrow> nat \<Rightarrow> nat \<Rightarrow> nat option res" where
  "findNameStart p len i =
     (if i + 1 < len
      then rbind (rd p i) (\<lambda>b.
        if 65 \<le> b \<and> b \<le> 90 \<and> 0 < i
        then rbind (rd p (i - 1)) (\<lambda>c. if c = 0 then Inr (Some i) else findNameStart p len (i + 1))
        else findNameStart p len (i + 1))
      else Inr None)"
  by pat_completeness auto
termination by (relation "measure (\<lambda>(p, len, i). len - i)") auto

function findNul :: "bytes \<Rightarrow> nat \<Rightarrow> nat \<Rightarrow> nat option res" where
  "findNul p len i =
     (if i < len then rbind (rd p i) (\<lambda>b. if b = 0 then Inr (Some i) else findNul p len (i + 1)) else Inr None)"
  by pat_completeness auto
termination by (relation "measure (\<lambda>(p, len, i). len - i)") auto

declare findNameStart.simps [simp del] findNul.simps [simp del]

definition kHeaderProbeStart :: nat where "kHeaderProbeStart = 64"
definition kParsedItemMinSize :: nat where "kParsedItemMinSize = 63"

text \<open>\<open>ij_tenth\<close> is a number divided by 10 in floats, by its bits.\<close>

datatype json = JNull | JBool bool | JNum rat | JStr string | JArr "json list" | JObj "string \<Rightarrow> json option"

record item_lib =
  ij_tenth :: "u32 \<Rightarrow> u32"
  ij_value :: "u32 \<Rightarrow> rat"
  ij_float :: "rat \<Rightarrow> u32"
  ij_number :: "string \<Rightarrow> u64"
  ij_parse :: "string \<Rightarrow> json option"
  ij_print :: "json \<Rightarrow> string"
  ij_readable :: "string \<Rightarrow> bool"
  ij_opens :: "string \<Rightarrow> bool"
  ij_commits :: "string \<Rightarrow> bool"

definition parse_wrapper :: "bytes \<Rightarrow> item_template \<Rightarrow> item_template res" where
  "parse_wrapper p t =
     rbind (readU32LE p 0) (\<lambda>ty. rbind (readU32LE p 21) (\<lambda>st. rbind (readU32LE p 25) (\<lambda>ma. rbind (eqtohuint16 (drop 29 p)) (\<lambda>su.
       Inr (t\<lparr>it_packetType := ty, it_stackCount := st, it_mainSlot := ma, it_subSlot := su\<rparr>)))))"

text \<open>The record behind the names begins at \<open>b\<close>.\<close>

definition parse_record :: "item_lib \<Rightarrow> bytes \<Rightarrow> nat \<Rightarrow> item_template \<Rightarrow> item_template res" where
  "parse_record J p b t =
     rbind (readU32LE p (b + 8)) (\<lambda>i. rbind (readU32LE p (b + 12)) (\<lambda>we. rbind (readU32LE p (b + 16)) (\<lambda>fl.
     rbind (readU32LE p (b + 20)) (\<lambda>sl. rbind (rd_bytes (drop (b + 34) p) ITEM_RES_COUNT) (\<lambda>rs. rbind (rd p (b + 39)) (\<lambda>co.
     rbind (rd_bytes (drop (b + 40) p) ITEM_STAT_COUNT) (\<lambda>ss. rbind (readU32LE p (b + 47)) (\<lambda>hp. rbind (readU32LE p (b + 51)) (\<lambda>ma.
     rbind (readU32LE p (b + 55)) (\<lambda>en. rbind (readU32LE p (b + 59)) (\<lambda>ac.
       Inr (t\<lparr>it_itemId := i, it_weight := ij_tenth J we, it_flags := fl, it_slotBitmask := sl, it_resists := rs,
         it_corruption := co, it_stats := ss, it_hp := hp, it_mana := ma, it_endurance := en, it_ac := ac\<rparr>))))))))))))"

text \<open>Where the two names are, and \<open>None\<close> when one of them or the record behind them is not there.\<close>

definition parse_names :: "bytes \<Rightarrow> nat \<Rightarrow> (nat \<times> nat \<times> nat) option res" where
  "parse_names p len =
     rbind (findNameStart p len kHeaderProbeStart) (\<lambda>n. case n of None \<Rightarrow> Inr None | Some nameStart \<Rightarrow>
     rbind (findNul p len nameStart) (\<lambda>f. case f of None \<Rightarrow> Inr None | Some firstNul \<Rightarrow>
     rbind (findNul p len (firstNul + 1)) (\<lambda>s. case s of None \<Rightarrow> Inr None | Some secondNul \<Rightarrow>
       Inr (if len < secondNul + 1 + kParsedItemMinSize then None else Some (nameStart, firstNul, secondNul)))))"

definition parseItemPacket :: "item_lib \<Rightarrow> bytes \<Rightarrow> nat \<Rightarrow> item_template \<Rightarrow> (bool \<times> item_template) res" where
  "parseItemPacket J p len t =
     (if len < kHeaderProbeStart then Inr (False, t)
      else rbind (rd p 20) (\<lambda>z. if z \<noteq> 0 then Inr (False, t)
      else rbind (parse_wrapper p t) (\<lambda>t. rbind (parse_names p len) (\<lambda>ns. case ns of None \<Rightarrow> Inr (False, t)
        | Some (nameStart, firstNul, secondNul) \<Rightarrow>
            rbind (rd_bytes (drop nameStart p) (firstNul - nameStart)) (\<lambda>name.
            rbind (rd_bytes (drop (firstNul + 1) p) (secondNul - (firstNul + 1))) (\<lambda>lore.
            rbind (parse_record J p (secondNul + 1) (t\<lparr>it_itemName := fromLatin1 name, it_loreName := fromLatin1 lore\<rparr>)) (\<lambda>t.
              Inr (True, t))))))))"

section \<open>JSON\<close>

definition jstr :: "json option \<Rightarrow> string" where
  "jstr v = (case v of Some (JStr s) \<Rightarrow> s | _ \<Rightarrow> '''')"

definition jarr :: "json option \<Rightarrow> json list" where
  "jarr v = (case v of Some (JArr a) \<Rightarrow> a | _ \<Rightarrow> [])"

definition jdouble :: "json option \<Rightarrow> rat" where
  "jdouble v = (case v of Some (JNum r) \<Rightarrow> r | _ \<Rightarrow> 0)"

text \<open>Only a whole number in range is an \<open>int\<close>; a number of 64 bits is rounded, and also read from a text.\<close>

definition jint :: "json option \<Rightarrow> int" where
  "jint v = (case v of
     Some (JNum r) \<Rightarrow> (if of_int \<lfloor>r\<rfloor> = r \<and> - 2147483648 \<le> \<lfloor>r\<rfloor> \<and> \<lfloor>r\<rfloor> < 2147483648 then \<lfloor>r\<rfloor> else 0) | _ \<Rightarrow> 0)"

definition julong :: "item_lib \<Rightarrow> json option \<Rightarrow> u64" where
  "julong J v = (case v of
     Some (JNum r) \<Rightarrow> of_int (if r < 0 then - \<lfloor>1 / 2 - r\<rfloor> else \<lfloor>r + 1 / 2\<rfloor>)
   | Some (JBool b) \<Rightarrow> of_bool b | Some (JStr s) \<Rightarrow> ij_number J s | _ \<Rightarrow> 0)"

definition put_if :: "bool \<Rightarrow> string \<Rightarrow> json \<Rightarrow> (string \<Rightarrow> json option) \<Rightarrow> (string \<Rightarrow> json option)" where
  "put_if b k v m = (if b then m(k \<mapsto> v) else m)"

text \<open>A float is zero in both signs.\<close>

definition nonzero_float :: "u32 \<Rightarrow> bool" where
  "nonzero_float w \<longleftrightarrow> w AND 0x7FFFFFFF \<noteq> 0"

definition junat :: "u32 \<Rightarrow> json" where
  "junat w = JNum (of_nat (unat w))"

definition jsint :: "'a::len word \<Rightarrow> json" where
  "jsint w = JNum (of_int (sint w))"

definition toJson :: "item_lib \<Rightarrow> item_template \<Rightarrow> json" where
  "toJson J t = JObj
     (put_if (it_corruption t \<noteq> 0) ''corruption'' (jsint (it_corruption t))
     (put_if (\<exists>b\<in>set (it_resists t). b \<noteq> 0) ''resists'' (JArr (map jsint (it_resists t)))
     (put_if (\<exists>b\<in>set (it_stats t). b \<noteq> 0) ''stats'' (JArr (map jsint (it_stats t)))
     (put_if (it_ac t \<noteq> 0) ''ac'' (jsint (it_ac t))
     (put_if (it_endurance t \<noteq> 0) ''endurance'' (jsint (it_endurance t))
     (put_if (it_mana t \<noteq> 0) ''mana'' (jsint (it_mana t))
     (put_if (it_hp t \<noteq> 0) ''hp'' (jsint (it_hp t))
     (put_if (nonzero_float (it_weight t)) ''weight'' (JNum (ij_value J (it_weight t)))
     (put_if (it_flags t \<noteq> 0) ''flags'' (junat (it_flags t))
     (put_if True ''slotMask'' (junat (it_slotBitmask t))
     (put_if (it_loreName t \<noteq> it_itemName t) ''lore'' (JStr (it_loreName t))
     (put_if True ''name'' (JStr (it_itemName t))
     (put_if True ''id'' (junat (it_itemId t)) (\<lambda>_. None))))))))))))))"

definition byte_slots :: "nat \<Rightarrow> json list \<Rightarrow> u8 list" where
  "byte_slots n a = map (\<lambda>i. if i < length a then of_int (jint (Some (a ! i))) else 0) [0..<n]"

definition fromJson :: "item_lib \<Rightarrow> (string \<Rightarrow> json option) \<Rightarrow> item_template" where
  "fromJson J m =
     (let name = jstr (m ''name''); lore = jstr (m ''lore'')
      in mkItemTemplate\<lparr>it_itemId := ucast (julong J (m ''id'')), it_itemName := name,
           it_loreName := (if lore = '''' then name else lore), it_slotBitmask := ucast (julong J (m ''slotMask'')),
           it_flags := ucast (julong J (m ''flags'')), it_weight := ij_float J (jdouble (m ''weight'')),
           it_hp := of_int (jint (m ''hp'')), it_mana := of_int (jint (m ''mana'')),
           it_endurance := of_int (jint (m ''endurance'')), it_ac := of_int (jint (m ''ac'')),
           it_stats := byte_slots ITEM_STAT_COUNT (jarr (m ''stats'')),
           it_resists := byte_slots ITEM_RES_COUNT (jarr (m ''resists'')),
           it_corruption := of_int (jint (m ''corruption''))\<rparr>)"

section \<open>The cache\<close>

type_synonym item_files = "string \<Rightarrow> string option"

datatype item_event = ItemLearned u32 | WornSlotsChanged

record item_cache =
  ic_cache :: "(u32 \<times> item_template) list"
  ic_wornSlots :: "(nat \<times> u32) list"
  ic_storePath :: string
  ic_interval :: int
  ic_running :: bool
  ic_learnedCount :: nat
  ic_dirty :: bool
  ic_signals :: "item_event list"

definition kDefaultFlushMs :: int where "kDefaultFlushMs = 900000"
definition kMaxWornSlot :: u16 where "kMaxWornSlot = 22"

definition mkItemCache :: item_cache where
  "mkItemCache = \<lparr>ic_cache = [], ic_wornSlots = [], ic_storePath = '''', ic_interval = kDefaultFlushMs, ic_running = False,
     ic_learnedCount = 0, ic_dirty = False, ic_signals = []\<rparr>"

definition tell_item :: "item_event \<Rightarrow> item_cache \<Rightarrow> item_cache" where
  "tell_item e c = c\<lparr>ic_signals := ic_signals c @ [e]\<rparr>"

definition ic_lookup :: "u32 \<Rightarrow> item_cache \<Rightarrow> item_template option" where
  "ic_lookup i c = map_of (ic_cache c) i"

definition ic_insert :: "item_template \<Rightarrow> item_cache \<Rightarrow> item_cache" where
  "ic_insert t c =
     (if it_itemId t = 0 then c
      else tell_item (ItemLearned (it_itemId t))
        (c\<lparr>ic_learnedCount := (if map_of (ic_cache c) (it_itemId t) = None then ic_learnedCount c + 1 else ic_learnedCount c),
           ic_cache := AList.update (it_itemId t) t (ic_cache c), ic_dirty := True\<rparr>))"

record item_totals =
  to_itemCount :: nat
  to_hp :: u32
  to_mana :: u32
  to_endurance :: u32
  to_ac :: u32
  to_stats :: "int list"
  to_resists :: "int list"
  to_corruption :: int

definition no_totals :: item_totals where
  "no_totals = \<lparr>to_itemCount = 0, to_hp = 0, to_mana = 0, to_endurance = 0, to_ac = 0, to_stats = replicate ITEM_STAT_COUNT 0,
     to_resists = replicate ITEM_RES_COUNT 0, to_corruption = 0\<rparr>"

definition add_bytes :: "int list \<Rightarrow> u8 list \<Rightarrow> int list" where
  "add_bytes = map2 (\<lambda>x b. x + sint b)"

definition add_item :: "item_template \<Rightarrow> item_totals \<Rightarrow> item_totals" where
  "add_item v t = t\<lparr>to_itemCount := to_itemCount t + 1, to_hp := to_hp t + it_hp v, to_mana := to_mana t + it_mana v,
     to_endurance := to_endurance t + it_endurance v, to_ac := to_ac t + it_ac v, to_stats := add_bytes (to_stats t) (it_stats v),
     to_resists := add_bytes (to_resists t) (it_resists v), to_corruption := to_corruption t + sint (it_corruption v)\<rparr>"

definition totals :: "item_cache \<Rightarrow> item_totals" where
  "totals c =
     fold (\<lambda>(slot, i) t. case map_of (ic_cache c) i of None \<Rightarrow> t | Some v \<Rightarrow> add_item v t) (ic_wornSlots c) no_totals"

definition sortedIds :: "item_cache \<Rightarrow> u32 list" where
  "sortedIds c = sort (map fst (ic_cache c))"

text \<open>An item that is not in a bag leaves the slot it was worn in, and takes the new one.\<close>

definition track_worn :: "item_template \<Rightarrow> item_cache \<Rightarrow> item_cache" where
  "track_worn t c =
     (let kept = filter (\<lambda>p. snd p \<noteq> it_itemId t) (ic_wornSlots c);
          worn = (if it_subSlot t \<le> kMaxWornSlot then AList.update (unat (it_subSlot t)) (it_itemId t) kept else kept);
          changed = (length kept \<noteq> length (ic_wornSlots c) \<or> it_subSlot t \<le> kMaxWornSlot);
          c = c\<lparr>ic_wornSlots := worn\<rparr>
      in if changed then tell_item WornSlotsChanged c else c)"

definition onItemPacket :: "item_lib \<Rightarrow> bytes \<Rightarrow> nat \<Rightarrow> item_cache \<Rightarrow> item_cache res" where
  "onItemPacket J p len c =
     rbind (parseItemPacket J p len mkItemTemplate) (\<lambda>(ok, t).
       if \<not> ok then Inr c
       else (let c = ic_insert t c in Inr (if it_mainSlot t \<noteq> 0 \<or> it_itemId t = 0 then c else track_worn t c)))"

definition load_cached :: "item_lib \<Rightarrow> json \<Rightarrow> item_cache \<Rightarrow> item_cache" where
  "load_cached J v c =
     (case v of
        JObj m \<Rightarrow> (let t = fromJson J m in if it_itemId t = 0 then c else c\<lparr>ic_cache := AList.update (it_itemId t) t (ic_cache c)\<rparr>)
      | _ \<Rightarrow> c)"

definition ic_load :: "item_lib \<Rightarrow> item_files \<Rightarrow> item_cache \<Rightarrow> bool \<times> item_cache" where
  "ic_load J fs c =
     (case fs (ic_storePath c) of
        None \<Rightarrow> (True, c)
      | Some content \<Rightarrow>
          if \<not> ij_readable J (ic_storePath c) then (False, c)
          else (case ij_parse J content of
             Some (JArr a) \<Rightarrow> (True, (fold (load_cached J) a c)\<lparr>ic_dirty := False\<rparr>)
           | _ \<Rightarrow> (False, c)))"

definition cache_doc :: "item_lib \<Rightarrow> item_cache \<Rightarrow> json" where
  "cache_doc J c =
     JArr (map (\<lambda>i. toJson J (case map_of (ic_cache c) i of Some t \<Rightarrow> t | None \<Rightarrow> mkItemTemplate)) (sortedIds c))"

definition ic_save :: "item_lib \<Rightarrow> item_files \<times> item_cache \<Rightarrow> bool \<times> item_files \<times> item_cache" where
  "ic_save J = (\<lambda>(fs, c).
     if ic_storePath c = '''' \<or> \<not> ij_opens J (ic_storePath c) \<or> \<not> ij_commits J (ic_storePath c) then (False, fs, c)
     else (True, fs(ic_storePath c \<mapsto> ij_print J (cache_doc J c)), c\<lparr>ic_dirty := False\<rparr>))"

definition setStorePath :: "item_lib \<Rightarrow> string \<Rightarrow> item_files \<Rightarrow> item_cache \<Rightarrow> item_cache" where
  "setStorePath J path fs c =
     (let c = c\<lparr>ic_storePath := path\<rparr>
      in if path \<noteq> ''''
         then (let c = snd (ic_load J fs c) in if 0 < ic_interval c then c\<lparr>ic_running := True\<rparr> else c)
         else c\<lparr>ic_running := False\<rparr>)"

definition setFlushIntervalMs :: "int \<Rightarrow> item_cache \<Rightarrow> item_cache" where
  "setFlushIntervalMs ms c =
     (if ms \<le> 0 then c\<lparr>ic_running := False, ic_interval := 0\<rparr>
      else (let c = c\<lparr>ic_interval := ms\<rparr> in if ic_storePath c \<noteq> '''' then c\<lparr>ic_running := True\<rparr> else c))"

text \<open>The timer and the destructor flush the same way.\<close>

definition onFlushTimer :: "item_lib \<Rightarrow> item_files \<times> item_cache \<Rightarrow> item_files \<times> item_cache" where
  "onFlushTimer J = (\<lambda>(fs, c). if ic_dirty c \<and> ic_storePath c \<noteq> '''' then snd (ic_save J (fs, c)) else (fs, c))"

end
