(* ===== verification/ItemLaws.thy ===== *)
theory ItemLaws
  imports Items "HOL-Library.Multiset"
begin

text \<open>
  What the items promise: the parser stays inside its packet and reads back what a packet was built from, the cache
  survives its file, and the worn slots hold each item once.
\<close>

section \<open>The parser\<close>

lemma name_start_ok:
  "len \<le> length p \<Longrightarrow> \<exists>r. findNameStart p len i = Inr r \<and> (\<forall>n. r = Some n \<longrightarrow> i \<le> n \<and> n < len)"
proof (induction p len i rule: findNameStart.induct)
  case (1 p len i)
  show ?case
  proof (cases "i + 1 < len")
    case True
    then have rd: "rd p i = Inr (p ! i)" "0 < i \<Longrightarrow> rd p (i - 1) = Inr (p ! (i - 1))" using 1(3) by (auto simp: rd_def)
    have IH: "\<exists>r. findNameStart p len (i + 1) = Inr r \<and> (\<forall>n. r = Some n \<longrightarrow> i + 1 \<le> n \<and> n < len)"
      if "\<not> (65 \<le> p ! i \<and> p ! i \<le> 90 \<and> 0 < i \<and> p ! (i - 1) = 0)"
      using 1 True rd that by (cases "65 \<le> p ! i \<and> p ! i \<le> 90 \<and> 0 < i") auto
    show ?thesis
      using IH True rd by (subst findNameStart.simps) (auto intro: Suc_leD)
  qed (simp add: findNameStart.simps)
qed

lemma nul_ok:
  "len \<le> length p \<Longrightarrow> \<exists>r. findNul p len i = Inr r \<and> (\<forall>n. r = Some n \<longrightarrow> i \<le> n \<and> n < len)"
proof (induction p len i rule: findNul.induct)
  case (1 p len i)
  show ?case
  proof (cases "i < len \<and> p ! i \<noteq> 0")
    case True
    then obtain r where "findNul p len (i + 1) = Inr r" "\<And>n. r = Some n \<Longrightarrow> i + 1 \<le> n \<and> n < len"
      using 1 by (auto simp: rd_def)
    then show ?thesis using True 1(2) by (subst findNul.simps) (auto simp: rd_def intro: Suc_leD)
  qed (use 1(2) in \<open>subst findNul.simps, auto simp: rd_def\<close>)
qed

lemma readU32_ok: "i + 4 \<le> length p \<Longrightarrow> \<exists>w. readU32LE p i = Inr w"
  by (simp add: readU32LE_def eqtohuint32_ok)

lemma rd_bytes_drop_ok: "i + n \<le> length p \<Longrightarrow> rd_bytes (drop i p) n = Inr (take n (drop i p))"
  by (auto simp: rd_bytes_def)

lemma parse_names_ok:
  assumes "len \<le> length p"
  shows "\<exists>r. parse_names p len = Inr r \<and>
    (\<forall>n f s. r = Some (n, f, s) \<longrightarrow> n \<le> f \<and> f < s \<and> s + 1 + kParsedItemMinSize \<le> len)"
proof -
  obtain n where n: "findNameStart p len kHeaderProbeStart = Inr n" "\<And>k. n = Some k \<Longrightarrow> k < len"
    using name_start_ok [OF assms] by blast
  show ?thesis
  proof (cases n)
    case (Some k)
    obtain f where f: "findNul p len k = Inr f" "\<And>j. f = Some j \<Longrightarrow> k \<le> j" using nul_ok [OF assms] by blast
    show ?thesis
    proof (cases f)
      case (Some j)
      obtain s where s: "findNul p len (j + 1) = Inr s" "\<And>l. s = Some l \<Longrightarrow> j + 1 \<le> l" using nul_ok [OF assms] by blast
      then show ?thesis using n f \<open>n = Some k\<close> Some by (cases s) (auto simp: parse_names_def)
    qed (use n f Some in \<open>simp add: parse_names_def\<close>)
  qed (use n in \<open>simp add: parse_names_def\<close>)
qed

lemma parse_record_ok: "b + kParsedItemMinSize \<le> length p \<Longrightarrow> \<exists>t'. parse_record J p b t = Inr t'"
  by (auto simp: parse_record_def kParsedItemMinSize_def readU32LE_def eqtohuint32_ok rd_bytes_def rd_def ITEM_RES_COUNT_def
      ITEM_STAT_COUNT_def)

text \<open>The parser never reads past its packet, whatever the packet holds.\<close>

lemma item_parser_stays_inside:
  assumes "len \<le> length p"
  shows "\<exists>r. parseItemPacket J p len t = Inr r"
proof (cases "len < kHeaderProbeStart")
  case False
  then have l: "64 \<le> length p" using assms by (simp add: kHeaderProbeStart_def)
  then have z: "rd p 20 = Inr (p ! 20)" by (simp add: rd_def)
  obtain t1 where t1: "parse_wrapper p t = Inr t1"
    using l by (simp add: parse_wrapper_def readU32LE_def eqtohuint32_ok eqtohuint16_ok)
  obtain r where r: "parse_names p len = Inr r"
    "\<And>n f s. r = Some (n, f, s) \<Longrightarrow> n \<le> f \<and> f < s \<and> s + 1 + kParsedItemMinSize \<le> len"
    using parse_names_ok [OF assms] by blast
  show ?thesis
  proof (cases r)
    case (Some x)
    obtain n f s where x: "x = (n, f, s)" by (cases x)
    have b: "n \<le> f" "f < s" "s + 1 + kParsedItemMinSize \<le> length p" using r(2) [of n f s] Some x assms by auto
    obtain t2 where "parse_record J p (s + 1) (t1\<lparr>it_itemName := fromLatin1 (take (f - n) (drop n p)),
        it_loreName := fromLatin1 (take (s - (f + 1)) (drop (f + 1) p))\<rparr>) = Inr t2" using parse_record_ok b(3) by blast
    then show ?thesis
      using False z t1 r(1) Some x b rd_bytes_drop_ok [of n "f - n" p] rd_bytes_drop_ok [of "f + 1" "s - (f + 1)" p]
      by (simp add: parseItemPacket_def) blast
  qed (use False z t1 r(1) in \<open>simp add: parseItemPacket_def, blast\<close>)
qed (simp add: parseItemPacket_def, blast)

text \<open>A packet for an item: the wrapper up to the names, the names, the record and what follows.\<close>

definition item_record :: "bytes \<Rightarrow> bytes \<Rightarrow> u32 \<Rightarrow> item_template \<Rightarrow> bytes" where
  "item_record x y weight t =
     x @ le32_bytes (it_itemId t) @ le32_bytes weight @ le32_bytes (it_flags t) @ le32_bytes (it_slotBitmask t) @ y @
     it_resists t @ [it_corruption t] @ it_stats t @ le32_bytes (it_hp t) @ le32_bytes (it_mana t) @ le32_bytes (it_endurance t) @
     le32_bytes (it_ac t)"

definition item_wrapper :: "item_template \<Rightarrow> bytes \<Rightarrow> bytes \<Rightarrow> bytes" where
  "item_wrapper t instance_id w =
     le32_bytes (it_packetType t) @ instance_id @ [0] @ le32_bytes (it_stackCount t) @ le32_bytes (it_mainSlot t) @
     le16_bytes (it_subSlot t) @ w"

definition capital :: "u8 \<Rightarrow> bool" where
  "capital b \<longleftrightarrow> 65 \<le> b \<and> b \<le> 90"

definition no_early_name :: "bytes \<Rightarrow> bool" where
  "no_early_name w \<longleftrightarrow> (\<forall>i. kHeaderProbeStart \<le> i \<longrightarrow> i < length w \<longrightarrow> capital (w ! i) \<longrightarrow> w ! (i - 1) \<noteq> 0)"

lemma name_start_found:
  assumes "i \<le> n" "n + 1 < len" "len \<le> length p" "0 < n" "capital (p ! n)" "p ! (n - 1) = 0"
    "\<And>j. i \<le> j \<Longrightarrow> j < n \<Longrightarrow> capital (p ! j) \<Longrightarrow> p ! (j - 1) \<noteq> 0"
  shows "findNameStart p len i = Inr (Some n)"
  using assms
proof (induction "n - i" arbitrary: i)
  case 0
  then have "i = n" by simp
  then show ?case using 0 by (subst findNameStart.simps) (auto simp: capital_def rd_def)
next
  case (Suc m)
  then have i: "i < n" by simp
  have "findNameStart p len (i + 1) = Inr (Some n)" using Suc(1) [of "i + 1"] Suc(2-) by simp
  then show ?case using i Suc(2-) Suc(9) [of i] by (subst findNameStart.simps) (auto simp: capital_def rd_def)
qed

lemma nul_found:
  assumes "i \<le> n" "n < len" "len \<le> length p" "p ! n = 0" "\<And>j. i \<le> j \<Longrightarrow> j < n \<Longrightarrow> p ! j \<noteq> 0"
  shows "findNul p len i = Inr (Some n)"
  using assms
proof (induction "n - i" arbitrary: i)
  case 0
  then have "i = n" by simp
  then show ?case using 0 by (subst findNul.simps) (auto simp: rd_def)
next
  case (Suc m)
  then have i: "i < n" by simp
  have "findNul p len (i + 1) = Inr (Some n)" using Suc(1) [of "i + 1"] Suc(2-) by simp
  then show ?case using i Suc(2-) Suc(7) [of i] by (subst findNul.simps) (auto simp: rd_def)
qed

lemma readU32_skip [simp]: "length x \<le> k \<Longrightarrow> readU32LE (x @ q) k = readU32LE q (k - length x)"
  by (simp add: readU32LE_def)

lemma readU32_here [simp]: "readU32LE (le32_bytes w @ q) 0 = Inr w"
  by (simp add: readU32LE_def)

lemma readU32_Cons [simp]: "0 < k \<Longrightarrow> readU32LE (b # q) k = readU32LE q (k - 1)"
  by (cases k) (simp_all add: readU32LE_def)

lemma rd_skip: "length x \<le> k \<Longrightarrow> rd (x @ q) k = rd q (k - length x)"
  by (auto simp: rd_def nth_append)

definition arrays_ok :: "item_template \<Rightarrow> bool" where
  "arrays_ok t \<longleftrightarrow> length (it_stats t) = ITEM_STAT_COUNT \<and> length (it_resists t) = ITEM_RES_COUNT"

lemma parse_record_back:
  assumes "length x = 8" "length y = 10" "arrays_ok t"
  shows "parse_record J (pre @ item_record x y weight t @ rest) (length pre) u =
    Inr (u\<lparr>it_itemId := it_itemId t, it_weight := ij_tenth J weight, it_flags := it_flags t, it_slotBitmask := it_slotBitmask t,
      it_resists := it_resists t, it_corruption := it_corruption t, it_stats := it_stats t, it_hp := it_hp t,
      it_mana := it_mana t, it_endurance := it_endurance t, it_ac := it_ac t\<rparr>)"
  using assms
  by (simp add: parse_record_def item_record_def arrays_ok_def ITEM_STAT_COUNT_def ITEM_RES_COUNT_def rd_skip rd_bytes_def)

definition item_packet ::
  "item_template \<Rightarrow> bytes \<Rightarrow> bytes \<Rightarrow> bytes \<Rightarrow> bytes \<Rightarrow> bytes \<Rightarrow> bytes \<Rightarrow> u32 \<Rightarrow> bytes \<Rightarrow> bytes" where
  "item_packet t inst w name lore x y weight rest =
     item_wrapper t inst w @ name @ 0 # lore @ 0 # item_record x y weight t @ rest"

text \<open>The bytes in front of the names, as the server sends them: long enough, zero in front of the name, and no capital
  letter behind a zero where the search for the name begins.\<close>

definition wrapper_ok :: "item_template \<Rightarrow> bytes \<Rightarrow> bytes \<Rightarrow> bool" where
  "wrapper_ok t inst w \<longleftrightarrow> length inst = 16 \<and> kHeaderProbeStart \<le> length (item_wrapper t inst w) \<and> w \<noteq> [] \<and> last w = 0 \<and>
     no_early_name (item_wrapper t inst w)"

lemma names_found:
  assumes w: "wrapper_ok t inst w" and n: "name \<noteq> []" "capital (hd name)" "0 \<notin> set name" "0 \<notin> set lore"
    and q: "kParsedItemMinSize \<le> length q"
  shows "parse_names (item_wrapper t inst w @ name @ 0 # lore @ 0 # q) (length (item_wrapper t inst w @ name @ 0 # lore @ 0 # q)) =
    Inr (Some (length (item_wrapper t inst w), length (item_wrapper t inst w) + length name,
      length (item_wrapper t inst w) + length name + 1 + length lore))"
proof -
  let ?W = "item_wrapper t inst w"
  let ?p = "?W @ name @ 0 # lore @ 0 # q"
  let ?n = "length ?W"
  have pos: "64 \<le> ?n" "0 < length name" using w n by (auto simp: wrapper_ok_def kHeaderProbeStart_def)
  have before: "?p ! (?n - 1) = 0"
  proof -
    have "?W = (le32_bytes (it_packetType t) @ inst @ [0] @ le32_bytes (it_stackCount t) @ le32_bytes (it_mainSlot t) @
      le16_bytes (it_subSlot t)) @ w" by (simp add: item_wrapper_def)
    then have "last ?W = 0" using w by (simp add: wrapper_ok_def)
    moreover have "?W \<noteq> []" using pos by auto
    ultimately have "?W ! (?n - 1) = 0" by (simp add: last_conv_nth)
    then show ?thesis using pos by (auto simp: nth_append)
  qed
  have start: "findNameStart ?p (length ?p) kHeaderProbeStart = Inr (Some ?n)"
  proof (rule name_start_found)
    show "capital (?p ! ?n)" using n by (simp add: nth_append hd_conv_nth)
    show "?p ! (j - 1) \<noteq> 0" if "kHeaderProbeStart \<le> j" "j < ?n" "capital (?p ! j)" for j
      using w that by (auto simp: wrapper_ok_def no_early_name_def nth_append)
  qed (use pos before in \<open>auto simp: kHeaderProbeStart_def\<close>)
  have first: "findNul ?p (length ?p) ?n = Inr (Some (?n + length name))"
  proof (rule nul_found)
    show "?p ! j \<noteq> 0" if j: "?n \<le> j" "j < ?n + length name" for j
    proof -
      have k: "j - ?n < length name" using j by simp
      then have "?p ! j = name ! (j - ?n)" using j by (simp add: nth_append)
      then show ?thesis using n(3) nth_mem [OF k] by auto
    qed
  qed (auto simp: nth_append)
  have second: "findNul ?p (length ?p) (?n + length name + 1) = Inr (Some (?n + length name + 1 + length lore))"
  proof (rule nul_found)
    show "?p ! j \<noteq> 0" if j: "?n + length name + 1 \<le> j" "j < ?n + length name + 1 + length lore" for j
    proof -
      let ?k = "j - (?n + length name + 1)"
      have k: "?k < length lore" using j by simp
      have "?p ! j = ((?W @ name @ [0]) @ lore @ 0 # q) ! (length (?W @ name @ [0]) + ?k)" using j by simp
      also have "\<dots> = lore ! ?k" using k by (simp only: nth_append_length_plus) (simp add: nth_append)
      finally show ?thesis using n(4) nth_mem [OF k] by auto
    qed
    show "?p ! (?n + length name + 1 + length lore) = 0"
      using nth_append_length [of "?W @ name @ 0 # lore" 0 q] by (simp add: add.assoc)
  qed auto
  show ?thesis using start first second q by (simp add: parse_names_def)
qed

text \<open>C21: A packet that was built for an item is parsed to that item, whatever the wrapper holds, as long as no capital
  letter follows a zero byte in front of the name, and the name begins with a capital letter.\<close>

theorem item_packet_parses_back:
  assumes w: "wrapper_ok t inst w" and n: "name \<noteq> []" "capital (hd name)" "0 \<notin> set name" "0 \<notin> set lore"
    and r: "length x = 8" "length y = 10" "arrays_ok t"
  shows "parseItemPacket J (item_packet t inst w name lore x y weight rest)
      (length (item_packet t inst w name lore x y weight rest)) u =
    Inr (True, t\<lparr>it_itemName := fromLatin1 name, it_loreName := fromLatin1 lore, it_weight := ij_tenth J weight\<rparr>)"
proof -
  let ?W = "item_wrapper t inst w"
  let ?q = "item_record x y weight t @ rest"
  let ?p = "item_packet t inst w name lore x y weight rest"
  have p: "?p = ?W @ name @ 0 # lore @ 0 # ?q" by (simp add: item_packet_def)
  have i: "length inst = 16" "64 \<le> length ?W" using w by (auto simp: wrapper_ok_def kHeaderProbeStart_def)
  have "kParsedItemMinSize \<le> length ?q"
    using r by (simp add: item_record_def arrays_ok_def kParsedItemMinSize_def ITEM_STAT_COUNT_def ITEM_RES_COUNT_def)
  note names = names_found [OF w n this, folded p]
  have z: "rd ?p 20 = Inr 0"
    using i by (simp add: p item_wrapper_def rd_skip)
  have wrap: "parse_wrapper ?p u = Inr (u\<lparr>it_packetType := it_packetType t, it_stackCount := it_stackCount t,
      it_mainSlot := it_mainSlot t, it_subSlot := it_subSlot t\<rparr>)"
    using i by (simp add: p item_wrapper_def parse_wrapper_def)
  have "rd_bytes (drop (length ?W) ?p) (length name) = Inr name"
    "rd_bytes (drop (Suc (length ?W + length name)) ?p) (length lore) = Inr lore"
    by (simp_all add: p rd_bytes_def)
  moreover have "parse_record J ?p (length ?W + length name + 1 + length lore + 1) v =
    Inr (v\<lparr>it_itemId := it_itemId t, it_weight := ij_tenth J weight, it_flags := it_flags t, it_slotBitmask := it_slotBitmask t,
      it_resists := it_resists t, it_corruption := it_corruption t, it_stats := it_stats t, it_hp := it_hp t,
      it_mana := it_mana t, it_endurance := it_endurance t, it_ac := it_ac t\<rparr>)" for v
    using parse_record_back [OF r, of J "?W @ name @ 0 # lore @ [0]" weight rest v] by (simp add: p add.assoc)
  moreover have "64 \<le> length ?p" using i by (simp add: p)
  ultimately show ?thesis
    using z wrap names by (simp add: parseItemPacket_def kHeaderProbeStart_def)
qed

section \<open>The file\<close>

text \<open>What of an item is kept in the file: nothing of the packet it came with, and an empty lore name is the name.\<close>

definition kept_item :: "item_template \<Rightarrow> item_template" where
  "kept_item t = t\<lparr>it_loreName := (if it_loreName t = '''' then it_itemName t else it_loreName t), it_packetType := 0,
     it_mainSlot := 0, it_subSlot := 0, it_stackCount := 0\<rparr>"

text \<open>The weight is a float that is kept by its conversion to a number and back, and the zero is the positive one.\<close>

definition weight_ok :: "item_lib \<Rightarrow> item_template \<Rightarrow> bool" where
  "weight_ok J t \<longleftrightarrow> (if nonzero_float (it_weight t) then ij_float J (ij_value J (it_weight t)) = it_weight t
     else it_weight t = 0 \<and> ij_float J 0 = 0)"

lemma put_if_get [simp]: "put_if b k v m l = (if b \<and> l = k then Some v else m l)"
  by (simp add: put_if_def)

lemma sint32_range: "- 2147483648 \<le> sint (w :: u32)" "sint (w :: u32) < 2147483648"
  using sint_ge [of w] sint_lt [of w] by simp_all

lemma sint8_range: "- 128 \<le> sint (w :: u8)" "sint (w :: u8) < 128"
  using sint_ge [of w] sint_lt [of w] by simp_all

lemma jint_whole: "jint (Some (JNum (of_int i))) = (if - 2147483648 \<le> i \<and> i < 2147483648 then i else 0)"
  by (simp add: jint_def)

lemma jint_word [simp]: "jint (Some (jsint (w :: u32))) = sint w" "jint (Some (jsint (b :: u8))) = sint b"
  unfolding jsint_def jint_whole using sint32_range [of w] sint8_range [of b] by auto

lemma jint_None [simp]: "jint None = 0"
  by (simp add: jint_def)

lemma julong_whole: "julong J (Some (JNum (of_nat n))) = of_nat n"
proof -
  have "\<lfloor>of_nat n + 1 / 2 :: rat\<rfloor> = int n" by (rule floor_unique) simp_all
  then show ?thesis by (simp add: julong_def)
qed

lemma julong_word [simp]: "ucast (julong J (Some (junat w))) = (w :: u32)"
  unfolding junat_def julong_whole by (rule bit_word_eqI) (auto simp: bit_simps)

lemma toJson_get:
  assumes "toJson J t = JObj m"
  shows "m ''id'' = Some (junat (it_itemId t))" "m ''name'' = Some (JStr (it_itemName t))"
    "m ''lore'' = (if it_loreName t \<noteq> it_itemName t then Some (JStr (it_loreName t)) else None)"
    "m ''slotMask'' = Some (junat (it_slotBitmask t))"
    "m ''flags'' = (if it_flags t \<noteq> 0 then Some (junat (it_flags t)) else None)"
    "m ''weight'' = (if nonzero_float (it_weight t) then Some (JNum (ij_value J (it_weight t))) else None)"
    "m ''hp'' = (if it_hp t \<noteq> 0 then Some (jsint (it_hp t)) else None)"
    "m ''mana'' = (if it_mana t \<noteq> 0 then Some (jsint (it_mana t)) else None)"
    "m ''endurance'' = (if it_endurance t \<noteq> 0 then Some (jsint (it_endurance t)) else None)"
    "m ''ac'' = (if it_ac t \<noteq> 0 then Some (jsint (it_ac t)) else None)"
    "m ''stats'' = (if \<exists>b\<in>set (it_stats t). b \<noteq> 0 then Some (JArr (map jsint (it_stats t))) else None)"
    "m ''resists'' = (if \<exists>b\<in>set (it_resists t). b \<noteq> 0 then Some (JArr (map jsint (it_resists t))) else None)"
    "m ''corruption'' = (if it_corruption t \<noteq> 0 then Some (jsint (it_corruption t)) else None)"
  unfolding assms [unfolded toJson_def json.inject, symmetric] by simp_all

lemma byte_slots_back:
  assumes "length bs = n"
  shows "byte_slots n (jarr (if \<exists>b\<in>set bs. b \<noteq> 0 then Some (JArr (map jsint bs)) else None)) = bs"
proof (cases "\<exists>b\<in>set bs. b \<noteq> 0")
  case True
  then show ?thesis using assms by (auto simp: byte_slots_def jarr_def intro!: nth_equalityI)
next
  case False
  then have "bs = replicate n 0" using assms by (metis replicate_length_same)
  then show ?thesis by (auto simp: byte_slots_def jarr_def intro!: nth_equalityI)
qed

lemma item_back:
  assumes "arrays_ok t" "weight_ok J t" "toJson J t = JObj m"
  shows "fromJson J m = kept_item t"
proof -
  have stats: "byte_slots ITEM_STAT_COUNT (jarr (m ''stats'')) = it_stats t"
    "byte_slots ITEM_RES_COUNT (jarr (m ''resists'')) = it_resists t"
    using assms(1) unfolding toJson_get [OF assms(3)] by (simp_all only: byte_slots_back arrays_ok_def)
  have weight: "ij_float J (jdouble (m ''weight'')) = it_weight t"
    using assms(2) by (simp add: toJson_get [OF assms(3)] weight_ok_def jdouble_def split: if_splits)
  have names: "jstr (m ''name'') = it_itemName t"
    "(if jstr (m ''lore'') = '''' then it_itemName t else jstr (m ''lore'')) = it_loreName (kept_item t)"
    by (auto simp: toJson_get [OF assms(3)] jstr_def kept_item_def)
  have words: "ucast (julong J (m ''id'')) = it_itemId t" "ucast (julong J (m ''slotMask'')) = it_slotBitmask t"
    "ucast (julong J (m ''flags'')) = it_flags t"
    by (simp_all add: toJson_get [OF assms(3)]) (simp add: julong_def)
  have ints: "of_int (jint (m ''hp'')) = it_hp t" "of_int (jint (m ''mana'')) = it_mana t"
    "of_int (jint (m ''endurance'')) = it_endurance t" "of_int (jint (m ''ac'')) = it_ac t"
    "of_int (jint (m ''corruption'')) = it_corruption t"
    by (simp_all add: toJson_get [OF assms(3)])
  show ?thesis
    unfolding fromJson_def Let_def stats weight names words ints
    by (simp add: kept_item_def mkItemTemplate_def)
qed

lemma kept_id [simp]: "it_itemId (kept_item t) = it_itemId t"
  by (simp add: kept_item_def)

text \<open>What the cache keeps: every item under its own number, which is not 0.\<close>

definition cache_ok :: "item_cache \<Rightarrow> bool" where
  "cache_ok c \<longleftrightarrow> qhash_inv (ic_cache c) \<and>
     (\<forall>(i, t) \<in> set (ic_cache c). it_itemId t = i \<and> i \<noteq> 0 \<and> arrays_ok t)"

lemma cache_ok_get: "cache_ok c \<Longrightarrow> map_of (ic_cache c) i = Some t \<Longrightarrow> it_itemId t = i \<and> i \<noteq> 0 \<and> arrays_ok t"
  by (auto simp: cache_ok_def dest!: map_of_SomeD)

lemma load_cached_back:
  assumes "arrays_ok t" "weight_ok J t" "it_itemId t \<noteq> 0"
  shows "load_cached J (toJson J t) c = c\<lparr>ic_cache := AList.update (it_itemId t) (kept_item t) (ic_cache c)\<rparr>"
proof -
  obtain m where m: "toJson J t = JObj m" by (auto simp: toJson_def)
  then show ?thesis using item_back [OF assms(1,2) m] assms(3) by (simp add: load_cached_def Let_def)
qed

lemma load_cacheds_back:
  "(\<And>i. i \<in> set ids \<Longrightarrow> arrays_ok (f i) \<and> weight_ok J (f i) \<and> it_itemId (f i) = i \<and> i \<noteq> 0) \<Longrightarrow>
     fold (load_cached J) (map (\<lambda>i. toJson J (f i)) ids) c =
     c\<lparr>ic_cache := fold (\<lambda>(k, v). AList.update k v) (map (\<lambda>i. (i, kept_item (f i))) ids) (ic_cache c)\<rparr>"
proof (induction ids arbitrary: c)
  case (Cons i ids)
  have "load_cached J (toJson J (f i)) c = c\<lparr>ic_cache := AList.update i (kept_item (f i)) (ic_cache c)\<rparr>"
    using Cons.prems [of i] load_cached_back [of "f i" J c] by simp
  then show ?case using Cons by simp
qed simp

lemma fold_update_map:
  "qhash_inv t \<Longrightarrow> map_of (fold (\<lambda>(k, v). AList.update k v) (map (\<lambda>i. (i, g i)) ids) t) l =
     (if l \<in> set ids then Some (g l) else map_of t l)"
  using qhash.fold_put [of t "map (\<lambda>i. (i, g i)) ids" l]
  by (simp add: rev_map map_of_map_restrict restrict_map_def)

text \<open>C28: The cache survives a restart: after a save, a cache that opens the same file finds the same items under the
  same numbers, without what belongs to the packet they came in, and with the name for an empty lore name.\<close>

theorem item_cache_survives_its_file:
  assumes ok: "cache_ok c" and w: "\<And>i t. ic_lookup i c = Some t \<Longrightarrow> weight_ok J t"
    and saved: "ic_save J (fs, c) = (True, fs', c')"
    and json: "ij_readable J (ic_storePath c)" "ij_parse J (ij_print J (cache_doc J c)) = Some (cache_doc J c)"
  shows "\<not> ic_dirty c' \<and> ic_lookup i (setStorePath J (ic_storePath c) fs' mkItemCache) = map_option kept_item (ic_lookup i c)"
proof -
  let ?f = "\<lambda>i. case map_of (ic_cache c) i of Some t \<Rightarrow> t | None \<Rightarrow> mkItemTemplate"
  have s: "ic_storePath c \<noteq> ''''" "fs' (ic_storePath c) = Some (ij_print J (cache_doc J c))" "\<not> ic_dirty c'"
    using saved by (auto simp: ic_save_def split: if_splits)
  have ids: "k \<in> set (sortedIds c) \<longleftrightarrow> map_of (ic_cache c) k \<noteq> None" for k
    by (simp add: sortedIds_def map_of_eq_None_iff)
  have f: "arrays_ok (?f k) \<and> weight_ok J (?f k) \<and> it_itemId (?f k) = k \<and> k \<noteq> 0" if "k \<in> set (sortedIds c)" for k
    using that cache_ok_get [OF ok, of k] w [of k] by (auto simp: ids ic_lookup_def)
  let ?c0 = "mkItemCache\<lparr>ic_storePath := ic_storePath c\<rparr>"
  have "fold (load_cached J) (map (\<lambda>i. toJson J (?f i)) (sortedIds c)) ?c0 =
    ?c0\<lparr>ic_cache := fold (\<lambda>(k, v). AList.update k v) (map (\<lambda>i. (i, kept_item (?f i))) (sortedIds c)) (ic_cache ?c0)\<rparr>"
    using f by (rule load_cacheds_back)
  then have "ic_cache (setStorePath J (ic_storePath c) fs' mkItemCache) =
    fold (\<lambda>(k, v). AList.update k v) (map (\<lambda>i. (i, kept_item (?f i))) (sortedIds c)) []"
    using s json by (simp add: setStorePath_def ic_load_def Let_def cache_doc_def mkItemCache_def)
  then show ?thesis
    using s(3) fold_update_map [of "[]" "\<lambda>i. kept_item (?f i)" "sortedIds c" i]
    by (simp add: ic_lookup_def qhash.inv_empty ids split: option.split)
qed

section \<open>The worn slots\<close>

text \<open>The arrays of an item that is put in have the sizes of their type.\<close>

datatype item_op = ItemPacket bytes | InsertItem item_template | SetStorePath string | SetFlushInterval int | FlushTimer

definition item_step :: "item_lib \<Rightarrow> item_op \<Rightarrow> item_files \<times> item_cache \<Rightarrow> (item_files \<times> item_cache) res" where
  "item_step J op = (\<lambda>(fs, c). case op of
     ItemPacket p \<Rightarrow> rbind (onItemPacket J p (length p) c) (\<lambda>c. Inr (fs, c))
   | InsertItem t \<Rightarrow> Inr (fs, if arrays_ok t then ic_insert t c else c)
   | SetStorePath path \<Rightarrow> Inr (fs, setStorePath J path fs c)
   | SetFlushInterval ms \<Rightarrow> Inr (fs, setFlushIntervalMs ms c)
   | FlushTimer \<Rightarrow> Inr (onFlushTimer J (fs, c)))"

text \<open>No item is worn in two slots, the slots are those of the body, and every worn item is in the cache.\<close>

definition worn_ok :: "item_cache \<Rightarrow> bool" where
  "worn_ok c \<longleftrightarrow> distinct (map fst (ic_wornSlots c)) \<and> distinct (map snd (ic_wornSlots c)) \<and>
     (\<forall>(s, i) \<in> set (ic_wornSlots c). s \<le> 22 \<and> ic_lookup i c \<noteq> None)"

definition worn_cache_ok :: "item_cache \<Rightarrow> bool" where
  "worn_cache_ok c \<longleftrightarrow> cache_ok c \<and> worn_ok c"

lemma parse_arrays:
  assumes "parseItemPacket J p len u = Inr (True, t)"
  shows "arrays_ok t"
  using assms
  by (auto simp: parseItemPacket_def parse_record_def arrays_ok_def result_simps ITEM_STAT_COUNT_def ITEM_RES_COUNT_def
      split: if_splits option.splits)

lemma cache_ok_update:
  assumes "cache_ok c" "it_itemId t \<noteq> 0" "arrays_ok t"
    "ic_cache c' = AList.update (it_itemId t) t (ic_cache c)"
  shows "cache_ok c'"
proof -
  have "qhash_inv (ic_cache c')" using assms(1,4) by (simp add: cache_ok_def qhash.inv_put)
  moreover have "it_itemId v = i \<and> i \<noteq> 0 \<and> arrays_ok v" if "(i, v) \<in> set (ic_cache c')" for i v
  proof -
    have "map_of (ic_cache c') i = Some v" using that calculation by (simp add: qhash_inv_def)
    then show ?thesis using assms cache_ok_get [OF assms(1), of i v] by (auto simp: update_conv' split: if_splits)
  qed
  ultimately show ?thesis by (auto simp: cache_ok_def)
qed

lemma worn_mono:
  assumes "worn_ok c" "ic_wornSlots c' = ic_wornSlots c" "\<And>i. ic_lookup i c \<noteq> None \<Longrightarrow> ic_lookup i c' \<noteq> None"
  shows "worn_ok c'"
  using assms unfolding worn_ok_def by (auto 0 3)

lemma insert_ok: "worn_cache_ok c \<Longrightarrow> arrays_ok t \<Longrightarrow> worn_cache_ok (ic_insert t c)"
  unfolding worn_cache_ok_def
  by (auto simp: ic_insert_def tell_item_def ic_lookup_def update_conv' intro: cache_ok_update worn_mono)

lemma worn_values: "snd ` set (AList.update k v t) \<subseteq> insert v (snd ` set t)"
  by (induction t) auto

lemma distinct_values_update:
  "distinct (map snd t) \<Longrightarrow> v \<notin> snd ` set t \<Longrightarrow> distinct (map snd (AList.update k v t))"
proof (induction t)
  case (Cons p t)
  then show ?case using worn_values [of k v t] by (cases p) auto
qed simp

lemma update_entries: "p \<in> set (AList.update k v t) \<Longrightarrow> p = (k, v) \<or> p \<in> set t"
  by (induction t) (auto split: if_splits)

lemma track_ok:
  assumes ok: "worn_cache_ok c" and known: "ic_lookup (it_itemId t) c \<noteq> None"
  shows "worn_cache_ok (track_worn t c)"
proof -
  let ?kept = "filter (\<lambda>p. snd p \<noteq> it_itemId t) (ic_wornSlots c)"
  let ?worn = "ic_wornSlots (track_worn t c)"
  have same: "ic_cache (track_worn t c) = ic_cache c"
    by (simp add: track_worn_def tell_item_def Let_def)
  have worn: "?worn = (if it_subSlot t \<le> kMaxWornSlot then AList.update (unat (it_subSlot t)) (it_itemId t) ?kept else ?kept)"
    by (simp add: track_worn_def tell_item_def Let_def)
  have k: "distinct (map fst ?kept)" "distinct (map snd ?kept)" "it_itemId t \<notin> snd ` set ?kept"
    using ok by (auto simp: worn_cache_ok_def worn_ok_def intro: distinct_map_filter)
  have slot: "unat (it_subSlot t) \<le> 22" if "it_subSlot t \<le> kMaxWornSlot"
    using that by (simp add: kMaxWornSlot_def word_le_nat_alt)
  have "distinct (map fst ?worn) \<and> distinct (map snd ?worn)"
    using k by (simp add: worn distinct_update distinct_values_update)
  moreover have "s \<le> 22 \<and> ic_lookup i c \<noteq> None" if "(s, i) \<in> set ?worn" for s i
  proof -
    have "(s, i) = (unat (it_subSlot t), it_itemId t) \<and> it_subSlot t \<le> kMaxWornSlot \<or> (s, i) \<in> set ?kept"
      using that update_entries [of "(s, i)" "unat (it_subSlot t)" "it_itemId t" ?kept]
      by (cases "it_subSlot t \<le> kMaxWornSlot") (simp_all add: worn)
    then show ?thesis using ok known slot by (auto simp: worn_cache_ok_def worn_ok_def)
  qed
  ultimately show ?thesis
    using ok same by (auto simp: worn_cache_ok_def worn_ok_def cache_ok_def ic_lookup_def)
qed

lemma load_cached_ok: "worn_cache_ok c \<Longrightarrow> worn_cache_ok (load_cached J v c)"
proof -
  assume ok: "worn_cache_ok c"
  have a: "arrays_ok (fromJson J m)" for m
    by (simp add: fromJson_def Let_def arrays_ok_def byte_slots_def)
  show ?thesis
    using ok a unfolding worn_cache_ok_def
    by (auto simp: load_cached_def Let_def ic_lookup_def update_conv' split: json.split intro: cache_ok_update worn_mono)
qed

lemma load_cacheds_ok: "worn_cache_ok c \<Longrightarrow> worn_cache_ok (fold (load_cached J) a c)"
  by (induction a arbitrary: c) (simp_all add: load_cached_ok)

lemma worn_cache_ok_cong:
  "ic_cache c' = ic_cache c \<Longrightarrow> ic_wornSlots c' = ic_wornSlots c \<Longrightarrow> worn_cache_ok c' = worn_cache_ok c"
  by (simp add: worn_cache_ok_def cache_ok_def worn_ok_def ic_lookup_def)

lemma load_ok: "worn_cache_ok c \<Longrightarrow> worn_cache_ok (snd (ic_load J fs c))"
  using load_cacheds_ok worn_cache_ok_cong [of "(fold (load_cached J) a c)\<lparr>ic_dirty := False\<rparr>" "fold (load_cached J) a c" for a]
  by (auto simp: ic_load_def split: option.splits json.splits)

lemma packet_ok:
  assumes ok: "worn_cache_ok c" and p: "onItemPacket J p len c = Inr c'"
  shows "worn_cache_ok c'"
proof -
  obtain b t where t: "parseItemPacket J p len mkItemTemplate = Inr (b, t)"
    using p by (auto simp: onItemPacket_def result_simps)
  show ?thesis
  proof (cases b)
    case True
    have "worn_cache_ok (ic_insert t c)" using insert_ok [OF ok] parse_arrays t True by simp
    moreover have "ic_lookup (it_itemId t) (ic_insert t c) \<noteq> None" if "it_itemId t \<noteq> 0"
      using that by (simp add: ic_insert_def tell_item_def ic_lookup_def update_conv')
    moreover have "c' = (if it_mainSlot t \<noteq> 0 \<or> it_itemId t = 0 then ic_insert t c else track_worn t (ic_insert t c))"
      using p t True by (simp add: onItemPacket_def Let_def)
    ultimately show ?thesis by (simp add: track_ok)
  qed (use ok p t in \<open>simp add: onItemPacket_def\<close>)
qed

lemma path_ok:
  assumes "worn_cache_ok c" shows "worn_cache_ok (setStorePath J path fs c)"
proof -
  have "worn_cache_ok (c\<lparr>ic_storePath := path\<rparr>)" using assms worn_cache_ok_cong [of "c\<lparr>ic_storePath := path\<rparr>" c] by simp
  then have l: "worn_cache_ok (snd (ic_load J fs (c\<lparr>ic_storePath := path\<rparr>)))" by (rule load_ok)
  show ?thesis
  proof (cases "path = ''''")
    case True
    then show ?thesis using assms worn_cache_ok_cong [of "setStorePath J path fs c" c] by (simp add: setStorePath_def)
  next
    case False
    then show ?thesis
      using l worn_cache_ok_cong [of "setStorePath J path fs c" "snd (ic_load J fs (c\<lparr>ic_storePath := path\<rparr>))"]
      by (simp add: setStorePath_def Let_def)
  qed
qed

lemma flush_ok: "worn_cache_ok c \<Longrightarrow> onFlushTimer J (fs, c) = (fs', c') \<Longrightarrow> worn_cache_ok c'"
  using worn_cache_ok_cong [of c' c] by (auto simp: onFlushTimer_def ic_save_def split: if_splits)

lemma interval_ok: "worn_cache_ok c \<Longrightarrow> worn_cache_ok (setFlushIntervalMs ms c)"
  using worn_cache_ok_cong [of "setFlushIntervalMs ms c" c] by (simp add: setFlushIntervalMs_def Let_def)

lemma item_step_ok: "worn_cache_ok c \<Longrightarrow> item_step J op (fs, c) = Inr (fs', c') \<Longrightarrow> worn_cache_ok c'"
  by (cases op)
    (auto simp: item_step_def result_simps split: if_splits intro: packet_ok path_ok interval_ok insert_ok flush_ok [OF _ sym] flush_ok)

interpretation items: total_machine "item_step J" "\<lambda>(fs, c). worn_cache_ok c" "\<lambda>_ _. True" for J
proof unfold_locales
  show "(case s' of (fs, c) \<Rightarrow> worn_cache_ok c)"
    if "case s of (fs, c) \<Rightarrow> worn_cache_ok c" "item_step J x s = Inr s'" for s x s'
    using that item_step_ok by (cases s; cases s') auto
  show "\<exists>s'. item_step J x s = Inr s'" if "case s of (fs, c) \<Rightarrow> worn_cache_ok c" "True" for s x
  proof (cases s)
    case (Pair fs c)
    have "\<exists>c'. onItemPacket J p (length p) c = Inr c'" for p
      using item_parser_stays_inside [of "length p" p J mkItemTemplate] by (auto simp: onItemPacket_def Let_def)
    then show ?thesis unfolding Pair by (cases x) (auto simp: item_step_def result_simps)
  qed
qed

lemma worn_cache_ok_start: "worn_cache_ok mkItemCache"
  by (simp add: worn_cache_ok_def cache_ok_def worn_ok_def mkItemCache_def qhash.inv_empty)

text \<open>C10: Whatever packets, files and settings come in any order, no operation faults, no item is worn in two slots, only
  slots of the body are worn, and every worn item is known to the cache, so that the totals count it.\<close>

theorem worn_slots_are_sound:
  "\<exists>fs' c. run_ops (item_step J) ops (fs, mkItemCache) = Inr (fs', c) \<and>
     distinct (map fst (ic_wornSlots c)) \<and> distinct (map snd (ic_wornSlots c)) \<and>
     (\<forall>s i. (s, i) \<in> set (ic_wornSlots c) \<longrightarrow> s \<le> 22 \<and> ic_lookup i c \<noteq> None)"
proof -
  obtain s where "run_ops (item_step J) ops (fs, mkItemCache) = Inr s" "case s of (fs, c) \<Rightarrow> worn_cache_ok c"
    using items.run_returns [of "(fs, mkItemCache)" ops J] worn_cache_ok_start by auto
  then show ?thesis by (cases s) (auto simp: worn_cache_ok_def worn_ok_def)
qed

text \<open>The order in which a hash is walked does not matter for the totals.\<close>

lemma add_bytes_commute: "add_bytes (add_bytes x a) b = add_bytes (add_bytes x b) a"
proof (induction x arbitrary: a b)
  case (Cons h x)
  then show ?case by (cases a; cases b) (auto simp: add_bytes_def)
qed (simp add: add_bytes_def)

lemma totals_order_free:
  assumes "ic_cache c' = ic_cache c" "mset (ic_wornSlots c') = mset (ic_wornSlots c)"
  shows "totals c' = totals c"
proof -
  have "add_item v (add_item w t) = add_item w (add_item v t)" for v w t
    by (simp add: add_item_def add_bytes_commute add.commute add.left_commute)
  then show ?thesis
    unfolding totals_def assms(1)
    by (intro fold_multiset_equiv [THEN fun_cong] assms(2)) (auto split: option.split)
qed

text \<open>An item that is taken off into a bag is still worn, and still counted.\<close>

lemma bagged_item_stays_worn:
  assumes "parseItemPacket J p len mkItemTemplate = Inr (True, t)" "it_mainSlot t \<noteq> 0"
    "onItemPacket J p len c = Inr c'"
  shows "ic_wornSlots c' = ic_wornSlots c"
  using assms by (auto simp: onItemPacket_def ic_insert_def tell_item_def Let_def split: if_splits)

text \<open>One of two equal items that are worn is forgotten.\<close>

lemma equal_items_share_a_slot:
  assumes "(s, it_itemId t) \<in> set (ic_wornSlots c)" "s \<noteq> unat (it_subSlot t)"
  shows "(s, it_itemId t) \<notin> set (ic_wornSlots (track_worn t c))"
  using assms by (auto simp: track_worn_def tell_item_def Let_def dest: update_entries)

section \<open>Witnesses\<close>

definition demo_ring :: item_template where
  "demo_ring = mkItemTemplate\<lparr>it_itemId := 77, it_hp := 55, it_stats := [1, 0, 0, 0, 0, 0, 255], it_packetType := 0x78,
     it_subSlot := 15\<rparr>"

definition demo_ring_packet :: bytes where
  "demo_ring_packet = item_packet demo_ring (replicate 16 0x41) (replicate 33 0) [0x52] [] (replicate 8 0) (replicate 10 0) 3 [9]"

lemma demo_wrapper: "wrapper_ok demo_ring (replicate 16 0x41) (replicate 33 0)"
proof -
  let ?h = "le32_bytes (it_packetType demo_ring) @ replicate 16 0x41 @ [0] @ le32_bytes (it_stackCount demo_ring) @
    le32_bytes (it_mainSlot demo_ring) @ le16_bytes (it_subSlot demo_ring)"
  have w: "item_wrapper demo_ring (replicate 16 0x41) (replicate 33 0) = ?h @ replicate 33 0"
    by (simp add: item_wrapper_def)
  have l: "length ?h = 31" by simp
  have "\<not> capital ((?h @ replicate 33 0) ! i)" if "64 \<le> i" "i < length (?h @ replicate 33 0)" for i
    using that unfolding nth_append l by (simp add: l capital_def)
  then have "no_early_name (item_wrapper demo_ring (replicate 16 0x41) (replicate 33 0))"
    unfolding w no_early_name_def kHeaderProbeStart_def by blast
  then show ?thesis by (simp add: wrapper_ok_def kHeaderProbeStart_def item_wrapper_def)
qed

lemma demo_ring_ok: "arrays_ok demo_ring" "capital 0x52"
  by (simp_all add: demo_ring_def arrays_ok_def mkItemTemplate_def ITEM_STAT_COUNT_def ITEM_RES_COUNT_def capital_def)

text \<open>A JSON library that knows one document.\<close>

definition demo_items :: "json \<Rightarrow> item_lib" where
  "demo_items d = \<lparr>ij_tenth = (\<lambda>_. 0), ij_value = (\<lambda>_. 0), ij_float = (\<lambda>_. 0), ij_number = (\<lambda>_. 0), ij_parse = (\<lambda>_. Some d),
     ij_print = (\<lambda>_. ''[]''), ij_readable = (\<lambda>_. True), ij_opens = (\<lambda>_. True), ij_commits = (\<lambda>_. True)\<rparr>"

lemma latin1_R: "fromLatin1 [0x52] = ''R''" "fromLatin1 [] = ''''"
  by code_simp+

theorem item_packet_parses_back_witness:
  "parseItemPacket (demo_items JNull) demo_ring_packet (length demo_ring_packet) mkItemTemplate =
     Inr (True, demo_ring\<lparr>it_itemName := ''R'', it_loreName := '''', it_weight := 0\<rparr>)"
  using item_packet_parses_back [OF demo_wrapper, of "[0x52]" "[]" "replicate 8 0" "replicate 10 0" "demo_items JNull" 3 "[9]" mkItemTemplate]
  by (simp add: demo_ring_ok demo_ring_packet_def latin1_R) (simp add: demo_items_def)

definition demo_item_cache :: item_cache where
  "demo_item_cache = mkItemCache\<lparr>ic_cache := [(77, demo_ring\<lparr>it_itemName := ''R''\<rparr>)], ic_storePath := ''items'', ic_dirty := True\<rparr>"

definition demo_doc :: json where
  "demo_doc = cache_doc (demo_items JNull) demo_item_cache"

lemma demo_doc_any: "cache_doc J demo_item_cache = demo_doc"
  by (simp add: demo_doc_def cache_doc_def demo_item_cache_def sortedIds_def toJson_def demo_ring_def mkItemTemplate_def
      mkItemCache_def nonzero_float_def put_if_def)

theorem item_cache_survives_its_file_witness:
  "\<exists>fs' c'. ic_save (demo_items demo_doc) (\<lambda>_. None, demo_item_cache) = (True, fs', c') \<and>
     ic_lookup 77 (setStorePath (demo_items demo_doc) ''items'' fs' mkItemCache) =
       Some (demo_ring\<lparr>it_itemName := ''R'', it_loreName := ''R'', it_packetType := 0, it_subSlot := 0\<rparr>)"
proof -
  let ?J = "demo_items demo_doc"
  have ok: "cache_ok demo_item_cache"
    using demo_ring_ok(1) by (simp add: cache_ok_def demo_item_cache_def qhash_inv_def arrays_ok_def) (simp add: demo_ring_def)
  have w: "weight_ok ?J t" if "ic_lookup i demo_item_cache = Some t" for i t
    using that
    by (auto simp: ic_lookup_def demo_item_cache_def demo_ring_def mkItemTemplate_def weight_ok_def nonzero_float_def demo_items_def
        split: if_splits)
  obtain fs' c' where s: "ic_save ?J (\<lambda>_. None, demo_item_cache) = (True, fs', c')"
    by (simp add: ic_save_def demo_items_def demo_item_cache_def mkItemCache_def)
  have lib: "ij_readable ?J (ic_storePath demo_item_cache)"
    "ij_parse ?J (ij_print ?J (cache_doc ?J demo_item_cache)) = Some (cache_doc ?J demo_item_cache)"
    unfolding demo_doc_any by (simp_all add: demo_items_def)
  have path: "ic_storePath demo_item_cache = ''items''" by (simp add: demo_item_cache_def)
  have "ic_lookup 77 (setStorePath ?J ''items'' fs' mkItemCache) = map_option kept_item (ic_lookup 77 demo_item_cache)"
    using item_cache_survives_its_file [where i = 77, OF ok _ s lib] w unfolding path by blast
  then show ?thesis
    using s by (simp add: ic_lookup_def demo_item_cache_def kept_item_def demo_ring_def mkItemTemplate_def)
qed

lemma demo_packet_worn:
  "(case onItemPacket (demo_items JNull) demo_ring_packet (length demo_ring_packet) mkItemCache of
     Inr c \<Rightarrow> ic_wornSlots c | Inl _ \<Rightarrow> []) = [(15, 77)]"
  by code_simp

theorem worn_slots_are_sound_witness:
  "\<exists>fs' c. run_ops (item_step (demo_items JNull)) [ItemPacket demo_ring_packet] (\<lambda>_. None, mkItemCache) = Inr (fs', c) \<and>
     ic_wornSlots c = [(15, 77)] \<and> ic_lookup 77 c \<noteq> None"
proof -
  obtain fs' c where r: "run_ops (item_step (demo_items JNull)) [ItemPacket demo_ring_packet] (\<lambda>_. None, mkItemCache) = Inr (fs', c)"
    "\<forall>s i. (s, i) \<in> set (ic_wornSlots c) \<longrightarrow> s \<le> 22 \<and> ic_lookup i c \<noteq> None"
    using worn_slots_are_sound [of "demo_items JNull" "[ItemPacket demo_ring_packet]" "\<lambda>_. None"] by blast
  have "onItemPacket (demo_items JNull) demo_ring_packet (length demo_ring_packet) mkItemCache = Inr c"
    using r(1) by (auto simp: item_step_def result_simps)
  then have "ic_wornSlots c = [(15, 77)]" using demo_packet_worn by simp
  then show ?thesis using r by auto
qed

end
