(* ===== verification/PlayerProfile.thy ===== *)
theory PlayerProfile
  imports PacketCommon
begin

text \<open>
  The profile of the player as \<open>ZoneMgr\<close> makes it (\<open>src/zonemgr.cpp\<close>, \<open>fillProfileStruct\<close> and the first part of
  \<open>zonePlayer\<close>): the fields a Rust library decodes, and the skills and the buffs that are looked up in the packet
  itself. The buffs have no fixed place: they are found by the marks every slot of theirs has.
\<close>

section \<open>The profile\<close>

text \<open>The fields that are copied as they are. Floats are their bits, signed numbers their words.\<close>

record profile_scalars =
  ps_checksum :: u32
  ps_gender :: u16
  ps_race :: u32
  ps_class :: u32
  ps_level :: u8
  ps_level1 :: u8
  ps_bind0 :: "u32 \<times> u32 \<times> u32 \<times> u32 \<times> u32"
  ps_deity :: u32
  ps_intoxication :: u32
  ps_points :: u32
  ps_MANA :: u32
  ps_curHp :: u32
  ps_attributes :: "u32 \<times> u32 \<times> u32 \<times> u32 \<times> u32 \<times> u32 \<times> u32"
  ps_money :: "u32 \<times> u32 \<times> u32 \<times> u32"
  ps_money_cursor :: "u32 \<times> u32 \<times> u32 \<times> u32"
  ps_aa_spent :: u32
  ps_aa_assigned :: u32
  ps_aa_unspent :: u32
  ps_endurance :: u32
  ps_expAA :: u32
  ps_birthdayTime :: u32
  ps_accountCreateDate :: u32
  ps_lastSaveTime :: u32
  ps_timePlayedMin :: u32
  ps_expansions :: u32
  ps_zoneId :: u16
  ps_zoneInstance :: u16
  ps_position :: "u32 \<times> u32 \<times> u32 \<times> u32"
  ps_standState :: u32
  ps_anon :: u8
  ps_guildID :: u32
  ps_guildServerID :: u32
  ps_money_inventory :: "u32 \<times> u32 \<times> u32 \<times> u32"
  ps_money_bank :: "u32 \<times> u32 \<times> u32 \<times> u32"
  ps_platinum_shared :: u32
  ps_tribute :: "u32 \<times> u32"
  ps_crystals :: "u32 \<times> u32 \<times> u32 \<times> u32"
  ps_autosplit :: u32
  ps_ldon_points :: "u32 \<times> u32 \<times> u32 \<times> u32 \<times> u32 \<times> u32"

text \<open>What the library gives.\<close>

record decoded_profile =
  dp_scalars :: profile_scalars
  dp_aa_ids :: "u32 list"
  dp_aa_values :: "u32 list"
  dp_disciplines :: "u32 list"
  dp_recast_timers :: "u32 list"
  dp_spell_book :: "u32 list"
  dp_mem_spells :: "u32 list"
  dp_spell_slot_refresh :: "u32 list"
  dp_buff_spell_ids :: "u32 list"
  dp_buff_durations :: "u32 list"
  dp_name :: bytes
  dp_last_name :: bytes
  dp_languages :: bytes
  dp_bytes_consumed :: u32

text \<open>The struct: the slots of the buffs and the skills by their bytes.\<close>

record char_profile =
  cp_scalars :: profile_scalars
  cp_aa :: "(u32 \<times> u32) list"
  cp_disciplines :: "u32 list"
  cp_recastTimers :: "u32 list"
  cp_sSpellBook :: "u32 list"
  cp_sMemSpells :: "u32 list"
  cp_spellSlotRefresh :: "u32 list"
  cp_buffs :: bytes
  cp_skills :: bytes
  cp_name :: bytes
  cp_lastName :: bytes
  cp_languages :: bytes

definition MAX_BUFFS :: nat where "MAX_BUFFS = 42"
definition sizeof_spellBuff :: nat where "sizeof_spellBuff = 110"
definition MAX_AA :: nat where "MAX_AA = 300"
definition MAX_DISCIPLINES :: nat where "MAX_DISCIPLINES = 300"
definition MAX_RECAST_TYPES :: nat where "MAX_RECAST_TYPES = 20"
definition MAX_SPELL_SLOTS :: nat where "MAX_SPELL_SLOTS = 16"
definition MAX_KNOWN_LANGS :: nat where "MAX_KNOWN_LANGS = 32"
definition sizeof_skills :: nat where "sizeof_skills = 400"

definition zero_scalars :: profile_scalars where
  "zero_scalars = \<lparr>ps_checksum = 0, ps_gender = 0, ps_race = 0, ps_class = 0, ps_level = 0, ps_level1 = 0,
     ps_bind0 = (0, 0, 0, 0, 0), ps_deity = 0, ps_intoxication = 0, ps_points = 0, ps_MANA = 0, ps_curHp = 0,
     ps_attributes = (0, 0, 0, 0, 0, 0, 0), ps_money = (0, 0, 0, 0), ps_money_cursor = (0, 0, 0, 0), ps_aa_spent = 0,
     ps_aa_assigned = 0, ps_aa_unspent = 0, ps_endurance = 0, ps_expAA = 0, ps_birthdayTime = 0, ps_accountCreateDate = 0,
     ps_lastSaveTime = 0, ps_timePlayedMin = 0, ps_expansions = 0, ps_zoneId = 0, ps_zoneInstance = 0,
     ps_position = (0, 0, 0, 0), ps_standState = 0, ps_anon = 0, ps_guildID = 0, ps_guildServerID = 0,
     ps_money_inventory = (0, 0, 0, 0), ps_money_bank = (0, 0, 0, 0), ps_platinum_shared = 0, ps_tribute = (0, 0),
     ps_crystals = (0, 0, 0, 0), ps_autosplit = 0, ps_ldon_points = (0, 0, 0, 0, 0, 0)\<rparr>"

definition zero_profile :: char_profile where
  "zero_profile = \<lparr>cp_scalars = zero_scalars, cp_aa = replicate MAX_AA (0, 0), cp_disciplines = replicate MAX_DISCIPLINES 0,
     cp_recastTimers = replicate MAX_RECAST_TYPES 0, cp_sSpellBook = replicate 729 0, cp_sMemSpells = replicate MAX_SPELL_SLOTS 0,
     cp_spellSlotRefresh = replicate 13 0, cp_buffs = replicate (MAX_BUFFS * sizeof_spellBuff) 0,
     cp_skills = replicate sizeof_skills 0, cp_name = replicate 64 0, cp_lastName = replicate 32 0,
     cp_languages = replicate MAX_KNOWN_LANGS 0\<rparr>"

text \<open>The copies into the arrays stop at their ends.\<close>

definition overlay :: "'a list \<Rightarrow> 'a list \<Rightarrow> 'a list" where
  "overlay src dst = take (length dst) src @ drop (length src) dst"

definition put_at :: "nat \<Rightarrow> bytes \<Rightarrow> bytes \<Rightarrow> bytes" where
  "put_at k v b = take k b @ v @ drop (k + length v) b"

definition fill_buffs :: "u32 list \<Rightarrow> u32 list \<Rightarrow> bytes \<Rightarrow> bytes" where
  "fill_buffs ids durs b =
     fold (\<lambda>i b. put_at (i * sizeof_spellBuff) (le32_bytes (durs ! i)) (put_at (i * sizeof_spellBuff + 9) (le32_bytes (ids ! i)) b))
       [0..<min (length ids) MAX_BUFFS] b"

text \<open>Values are read for as many identifiers as there are; without that many the copy would read past them.\<close>

definition fillProfileStruct :: "(bytes \<Rightarrow> decoded_profile option) \<Rightarrow> bytes \<Rightarrow> nat \<Rightarrow> char_profile \<Rightarrow> (u32 \<times> char_profile) res" where
  "fillProfileStruct decode p len prof =
     (case decode (take len p) of
        None \<Rightarrow> Inr (0, prof)
      | Some d \<Rightarrow>
         rbind (rguard (min (length (dp_aa_ids d)) MAX_AA \<le> length (dp_aa_values d)) OutOfBounds) (\<lambda>_.
         rbind (rguard (min (length (dp_buff_spell_ids d)) MAX_BUFFS \<le> length (dp_buff_durations d)) OutOfBounds) (\<lambda>_.
           Inr (dp_bytes_consumed d,
             prof\<lparr>cp_scalars := dp_scalars d,
               cp_aa := overlay (zip (dp_aa_ids d) (dp_aa_values d)) (cp_aa prof),
               cp_disciplines := overlay (dp_disciplines d) (cp_disciplines prof),
               cp_recastTimers := overlay (dp_recast_timers d) (cp_recastTimers prof),
               cp_sSpellBook := overlay (dp_spell_book d) (cp_sSpellBook prof),
               cp_sMemSpells := overlay (dp_mem_spells d) (cp_sMemSpells prof),
               cp_spellSlotRefresh := overlay (dp_spell_slot_refresh d) (cp_spellSlotRefresh prof),
               cp_buffs := fill_buffs (dp_buff_spell_ids d) (dp_buff_durations d) (cp_buffs prof),
               cp_name := overlay (take 63 (dp_name d)) (cp_name prof),
               cp_lastName := overlay (take 31 (dp_last_name d)) (cp_lastName prof),
               cp_languages := overlay (dp_languages d) (cp_languages prof)\<rparr>))))"

definition kSkillsWireOffset :: nat where "kSkillsWireOffset = 4622"

definition overlay_skills :: "bytes \<Rightarrow> nat \<Rightarrow> char_profile \<Rightarrow> char_profile res" where
  "overlay_skills p len prof =
     (if kSkillsWireOffset + sizeof_skills \<le> len
      then rbind (rd_bytes (drop kSkillsWireOffset p) sizeof_skills) (\<lambda>s. Inr (prof\<lparr>cp_skills := s\<rparr>)) else Inr prof)"

section \<open>Where the buffs are\<close>

definition kMarkers :: "nat list" where "kMarkers = [26, 38, 50, 62, 74, 86]"
definition kFF :: u32 where "kFF = 0xFFFFFFFF"

fun all_marks :: "bytes \<Rightarrow> nat \<Rightarrow> nat list \<Rightarrow> bool res" where
  "all_marks p off [] = Inr True"
| "all_marks p off (m # ms) =
     rbind (eqtohuint32 (drop (off + m) p)) (\<lambda>v. if v \<noteq> kFF then Inr False else all_marks p off ms)"

definition markersOk :: "bytes \<Rightarrow> nat \<Rightarrow> nat \<Rightarrow> bool res" where
  "markersOk p len off = (if len < off + sizeof_spellBuff then Inr False else all_marks p off kMarkers)"

definition plausible :: "int \<Rightarrow> int \<Rightarrow> u8 \<Rightarrow> bool" where
  "plausible dur sp lvl \<longleftrightarrow> 1 \<le> sp \<and> sp \<le> 200000 \<and> 1 \<le> dur \<and> dur \<le> 400000 \<and> 1 \<le> lvl \<and> lvl \<le> 127"

text \<open>The slots from the \<open>i\<close>th on, of which \<open>k\<close> are left.\<close>

fun count_slots :: "bytes \<Rightarrow> nat \<Rightarrow> nat \<Rightarrow> nat \<Rightarrow> nat \<Rightarrow> int \<Rightarrow> int res" where
  "count_slots p len start 0 i n = Inr n"
| "count_slots p len start (Suc k) i n =
     (if len < start + i * sizeof_spellBuff + sizeof_spellBuff then Inr n
      else rbind (eqtohint32 (drop (start + i * sizeof_spellBuff) p)) (\<lambda>dur.
           rbind (eqtohint32 (drop (start + i * sizeof_spellBuff + 9) p)) (\<lambda>sp.
           rbind (rd p (start + i * sizeof_spellBuff + 8)) (\<lambda>lvl.
             count_slots p len start k (i + 1) (if plausible dur sp lvl then n + 1 else n)))))"

definition countBuffs :: "bytes \<Rightarrow> nat \<Rightarrow> nat \<Rightarrow> int res" where
  "countBuffs p len start = count_slots p len start MAX_BUFFS 0 0"

declare rbind_cong [fundef_cong]

function run_from :: "bytes \<Rightarrow> nat \<Rightarrow> nat \<Rightarrow> nat \<Rightarrow> (nat \<times> nat) res" where
  "run_from p len cur run =
     rbind (markersOk p len cur) (\<lambda>ok. if ok then run_from p len (cur + sizeof_spellBuff) (run + 1) else Inr (run, cur))"
  by pat_completeness auto
termination
  by (relation "measure (\<lambda>(p, len, cur, run). Suc len - cur)")
    (auto simp: markersOk_def sizeof_spellBuff_def split: if_splits)

declare run_from.simps [simp del]

text \<open>The best run so far: its plausible buffs, its length and its start.\<close>

type_synonym best_run = "int \<times> nat \<times> nat"

definition better :: "int \<Rightarrow> nat \<Rightarrow> nat \<Rightarrow> best_run \<Rightarrow> best_run" where
  "better nb run off best =
     (case best of (bestBuffs, bestRun, start) \<Rightarrow>
        if bestBuffs < nb \<or> nb = bestBuffs \<and> bestRun < run then (nb, run, off) else best)"

lemma run_from_advances: "run_from p len cur run = Inr (r, c) \<Longrightarrow> cur \<le> c"
proof (induction p len cur run rule: run_from.induct)
  case (1 p len cur run)
  then show ?case by (subst (asm) (2) run_from.simps) (fastforce simp: result_simps split: if_splits)
qed

function scan_from :: "bytes \<Rightarrow> nat \<Rightarrow> nat \<Rightarrow> best_run \<Rightarrow> best_run res" where
  "scan_from p len off best =
     (if off + sizeof_spellBuff \<le> len
      then rbind (markersOk p len off) (\<lambda>ok.
        if \<not> ok then scan_from p len (off + 1) best
        else rbind (run_from p len (off + sizeof_spellBuff) 1) (\<lambda>rc.
             rbind (countBuffs p len off) (\<lambda>nb. scan_from p len (snd rc) (better nb (fst rc) off best))))
      else Inr best)"
  by pat_completeness auto
termination
proof (relation "measure (\<lambda>(p, len, off, best). len - off)")
  show "((p, len, snd rc, better nb (fst rc) off best), p, len, off, best) \<in> measure (\<lambda>(p, len, off, best). len - off)"
    if "off + sizeof_spellBuff \<le> len" "run_from p len (off + sizeof_spellBuff) 1 = Inr rc" for p len off best rc nb
    using that run_from_advances [of p len "off + sizeof_spellBuff" 1 "fst rc" "snd rc"] by (simp add: sizeof_spellBuff_def)
qed (auto simp: sizeof_spellBuff_def)

declare scan_from.simps [simp del]

definition kScanStart :: nat where "kScanStart = 0x3000"

definition overlay_buffs :: "bytes \<Rightarrow> nat \<Rightarrow> char_profile \<Rightarrow> char_profile res" where
  "overlay_buffs p len prof =
     rbind (scan_from p len kScanStart (- 1, 0, 0)) (\<lambda>(bestBuffs, bestRun, start).
       if 3 \<le> bestRun
       then rbind (rd_bytes (drop start p) (min (MAX_BUFFS * sizeof_spellBuff) (len - start))) (\<lambda>b.
              Inr (prof\<lparr>cp_buffs := overlay b (cp_buffs prof)\<rparr>))
       else Inr prof)"

definition make_profile :: "(bytes \<Rightarrow> decoded_profile option) \<Rightarrow> bytes \<Rightarrow> nat \<Rightarrow> char_profile res" where
  "make_profile decode p len =
     rbind (fillProfileStruct decode p len zero_profile) (\<lambda>rp. rbind (overlay_skills p len (snd rp)) (overlay_buffs p len))"

end
