(* ===== verification/ZoneMgr.thy ===== *)
theory ZoneMgr
  imports PlayerProfile QtText
begin

text \<open>
  \<open>ZoneMgr\<close> (\<open>src/zonemgr.cpp\<close>): which zone the player is in, whether he is on the way to another, the zone points and the
  expedition; and \<open>ZoneServerMgr\<close> (\<open>src/zoneservermgr.cpp\<close>). The decoders and the table of the zones are parameters.
\<close>

section \<open>State\<close>

text \<open>Coordinates are floats by their bits.\<close>

record zone_point =
  zp_zoneTrigger :: u32
  zp_y :: u32
  zp_x :: u32
  zp_z :: u32
  zp_heading :: u32
  zp_zoneId :: u16
  zp_zoneInstance :: u16

type_synonym point3 = "u16 \<times> u16 \<times> u16"

datatype zm_event =
    ZoneBegin
  | ZoneBeginEntry bytes nat u8
  | ZoneBeginName string
  | PlayerProfile char_profile
  | ZoneChangedName string
  | ZoneChanged bytes u16 u16 nat u8
  | ZoneEnd string string
  | ZoneResolved string

record zone_mgr =
  zm_longZoneName :: string
  zm_shortZoneName :: string
  zm_zoning :: bool
  zm_safePoint :: point3
  zm_exp_multiplier :: u32
  zm_zonePoints :: "zone_point list option"
  zm_dzPoint :: point3
  zm_dzID :: u32
  zm_dzLongName :: string
  zm_dzType :: u32
  zm_file :: "bytes option"
  zm_signals :: "zm_event list"

record new_zone =
  nz_short_name :: bytes
  nz_long_name :: bytes
  nz_safe :: "u32 \<times> u32 \<times> u32"
  nz_exp_multiplier :: u32

record dz_switch =
  ds_zone_id :: u16
  ds_kind :: u32
  ds_point :: "u32 \<times> u32 \<times> u32"

text \<open>\<open>ze_junk\<close> is what fresh memory holds, \<open>ze_junkType\<close> that of the field the constructor does not set; \<open>ze_lrint\<close> is
  \<open>lrintf\<close> with the conversion to 16 bits. The file of the zone is written and read by \<open>QDataStream\<close>.\<close>

record zone_env =
  ze_names :: "(string option \<times> string option) list"
  ze_save :: bool
  ze_restore :: bool
  ze_canWrite :: bool
  ze_profile :: "bytes \<Rightarrow> decoded_profile option"
  ze_change :: "bytes \<Rightarrow> (bytes \<times> u16 \<times> u16) option"
  ze_newZone :: "bytes \<Rightarrow> new_zone option"
  ze_point :: "bytes \<Rightarrow> zone_point option"
  ze_switch :: "bytes \<Rightarrow> dz_switch option"
  ze_info :: "bytes \<Rightarrow> bool option"
  ze_junk :: zone_point
  ze_junkType :: u32
  ze_lrint :: "u32 \<Rightarrow> u16"
  ze_print :: "u32 \<Rightarrow> string \<Rightarrow> string \<Rightarrow> bytes"
  ze_readMagic :: "bytes \<Rightarrow> u32"
  ze_readNames :: "bytes \<Rightarrow> string \<times> string"

text \<open>\<open>"zon2"\<close> as a number of the host, and 0.75 as a float.\<close>

definition zone_magic :: u32 where "zone_magic = 0x326E6F7A"
definition defaultZoneExperienceMultiplier :: u32 where "defaultZoneExperienceMultiplier = 0x3F400000"

definition sizeof_zoneChangeStruct :: nat where "sizeof_zoneChangeStruct = 100"
definition sizeof_zonePointStruct :: nat where "sizeof_zonePointStruct = 24"
definition sizeof_dzSwitchInfo :: nat where "sizeof_dzSwitchInfo = 32"
definition sizeof_dzInfo :: nat where "sizeof_dzInfo = 212"

definition tell_zone :: "zm_event \<Rightarrow> zone_mgr \<Rightarrow> zone_mgr" where
  "tell_zone e z = z\<lparr>zm_signals := zm_signals z @ [e]\<rparr>"

section \<open>Names\<close>

text \<open>Only 12 bits of the number are looked up; the whole number is in the name of an unknown zone.\<close>

definition zone_entry :: "('a option \<times> 'a option) list \<Rightarrow> u16 \<Rightarrow> ('a option \<times> 'a option) option" where
  "zone_entry names zoneId =
     (let k = unat (zoneId AND 0x0FFF) in if k < length names then Some (names ! k) else None)"

definition unk_zone :: "u16 \<Rightarrow> string" where
  "unk_zone zoneId = ''unk_zone_'' @ dec (unat zoneId)"

definition zoneNameFromID :: "zone_env \<Rightarrow> u16 \<Rightarrow> string" where
  "zoneNameFromID E zoneId =
     (case Option.bind (zone_entry (ze_names E) zoneId) fst of Some n \<Rightarrow> n | None \<Rightarrow> unk_zone zoneId)"

definition zoneLongNameFromID :: "zone_env \<Rightarrow> u16 \<Rightarrow> string" where
  "zoneLongNameFromID E zoneId =
     (case Option.bind (zone_entry (ze_names E) zoneId) snd of Some n \<Rightarrow> n | None \<Rightarrow> unk_zone zoneId)"

text \<open>The patterns end in \<open>$\<close>, which also matches in front of a line feed at the end.\<close>

definition strip_end :: "string \<Rightarrow> string \<Rightarrow> string" where
  "strip_end suf s =
     (if length suf \<le> length s \<and> drop (length s - length suf) s = suf then take (length s - length suf) s
      else if length suf + 1 \<le> length s \<and> drop (length s - (length suf + 1)) s = suf @ [CHR 0x0A]
      then take (length s - (length suf + 1)) s @ [CHR 0x0A] else s)"

text \<open>An underscore and digits at the end.\<close>

definition strip_number :: "string \<Rightarrow> string" where
  "strip_number s =
     (let lf = (if s \<noteq> '''' \<and> last s = CHR 0x0A then [CHR 0x0A] else '''');
          body = take (length s - length lf) s;
          digits = takeWhile is_decimal (rev body);
          rest = drop (length digits) (rev body)
      in if digits \<noteq> '''' \<and> rest \<noteq> '''' \<and> hd rest = CHR ''_'' then rev (tl rest) @ lf else s)"

definition strip_suffixes :: "string \<Rightarrow> string" where
  "strip_suffixes s = strip_end ''_errand'' (strip_end ''_int'' (strip_end ''_progress'' (strip_number s)))"

section \<open>The saved state\<close>

definition saveZoneState :: "zone_env \<Rightarrow> zone_mgr \<Rightarrow> zone_mgr" where
  "saveZoneState E z =
     (if ze_canWrite E then z\<lparr>zm_file := Some (ze_print E zone_magic (zm_longZoneName z) (zm_shortZoneName z))\<rparr> else z)"

definition restoreZoneState :: "zone_env \<Rightarrow> zone_mgr \<Rightarrow> zone_mgr" where
  "restoreZoneState E z =
     (case zm_file z of
        None \<Rightarrow> z
      | Some f \<Rightarrow>
          if ze_readMagic E f \<noteq> zone_magic then z
          else (case ze_readNames E f of (l, s) \<Rightarrow> z\<lparr>zm_longZoneName := l, zm_shortZoneName := s\<rparr>))"

definition mkZoneMgr :: "zone_env \<Rightarrow> bytes option \<Rightarrow> zone_mgr" where
  "mkZoneMgr E f =
     (let z = \<lparr>zm_longZoneName = ''unknown'', zm_shortZoneName = ''unknown'', zm_zoning = False, zm_safePoint = (0, 0, 0),
                zm_exp_multiplier = defaultZoneExperienceMultiplier, zm_zonePoints = None, zm_dzPoint = (0, 0, 0), zm_dzID = 0,
                zm_dzLongName = '''', zm_dzType = ze_junkType E, zm_file = f, zm_signals = []\<rparr>
      in if ze_restore E then restoreZoneState E z else z)"

definition save_if :: "zone_env \<Rightarrow> zone_mgr \<Rightarrow> zone_mgr" where
  "save_if E z = (if ze_save E then saveZoneState E z else z)"

section \<open>The handlers\<close>

definition zonePoint :: "u32 \<Rightarrow> zone_mgr \<Rightarrow> zone_point option" where
  "zonePoint trigger z =
     (case zm_zonePoints z of None \<Rightarrow> None | Some ps \<Rightarrow> find (\<lambda>p. zp_zoneTrigger p = trigger) ps)"

definition zoneEntryClient :: "zone_env \<Rightarrow> bytes \<Rightarrow> nat \<Rightarrow> u8 \<Rightarrow> zone_mgr \<Rightarrow> zone_mgr" where
  "zoneEntryClient E p len dir z =
     save_if E (tell_zone (ZoneBeginEntry p len dir) (tell_zone ZoneBegin
       (z\<lparr>zm_shortZoneName := ''unknown'', zm_longZoneName := ''unknown'',
          zm_exp_multiplier := defaultZoneExperienceMultiplier, zm_zoning := False\<rparr>)))"

definition zonePlayer :: "zone_env \<Rightarrow> bytes \<Rightarrow> nat \<Rightarrow> zone_mgr \<Rightarrow> zone_mgr res" where
  "zonePlayer E p len z =
     rbind (make_profile (ze_profile E) p len) (\<lambda>prof.
       let zoneId = ps_zoneId (cp_scalars prof);
           z = z\<lparr>zm_shortZoneName := zoneNameFromID E zoneId, zm_longZoneName := zoneLongNameFromID E zoneId,
                 zm_exp_multiplier := defaultZoneExperienceMultiplier, zm_zoning := False\<rparr>
       in Inr (save_if E (tell_zone (PlayerProfile prof) (tell_zone (ZoneBeginName (zm_shortZoneName z)) z))))"

text \<open>The decoder gets as many bytes as the struct has, whatever the length is.\<close>

definition zoneChange :: "zone_env \<Rightarrow> bytes \<Rightarrow> nat \<Rightarrow> u8 \<Rightarrow> zone_mgr \<Rightarrow> zone_mgr res" where
  "zoneChange E p len dir z =
     rbind (rd_bytes p sizeof_zoneChangeStruct) (\<lambda>b. case ze_change E b of
        None \<Rightarrow> Inr z
      | Some (name, zoneId, zoneInstance) \<Rightarrow>
         let z = z\<lparr>zm_shortZoneName := zoneNameFromID E zoneId, zm_longZoneName := zoneLongNameFromID E zoneId,
                   zm_exp_multiplier := defaultZoneExperienceMultiplier, zm_zoning := True\<rparr>;
             z = (if dir = DIR_Server then tell_zone (ZoneChangedName (zm_shortZoneName z)) z else z)
         in Inr (save_if E (tell_zone (ZoneChanged (take 63 name) zoneId zoneInstance len dir) z)))"

definition beginZoning :: "zone_env \<Rightarrow> zone_mgr \<Rightarrow> zone_mgr" where
  "beginZoning E z = save_if E (z\<lparr>zm_exp_multiplier := defaultZoneExperienceMultiplier, zm_zoning := True\<rparr>)"

definition round3 :: "zone_env \<Rightarrow> u32 \<times> u32 \<times> u32 \<Rightarrow> point3" where
  "round3 E = (\<lambda>(x, y, z). (ze_lrint E x, ze_lrint E y, ze_lrint E z))"

definition zoneNew :: "zone_env \<Rightarrow> bytes \<Rightarrow> nat \<Rightarrow> zone_mgr \<Rightarrow> zone_mgr" where
  "zoneNew E p len z =
     (case ze_newZone E (take len p) of
        None \<Rightarrow> z
      | Some n \<Rightarrow>
         let z = z\<lparr>zm_safePoint := round3 E (nz_safe n), zm_exp_multiplier := nz_exp_multiplier n,
                   zm_shortZoneName := (if zm_shortZoneName z = '''' \<or> starts_with (zm_shortZoneName z) ''unk''
                     then strip_suffixes (fromLatin1 (nz_short_name n)) else zm_shortZoneName z),
                   zm_longZoneName := fromLatin1 (nz_long_name n), zm_zoning := False\<rparr>
         in save_if E (tell_zone (ZoneEnd (zm_shortZoneName z) (zm_longZoneName z)) z))"

definition setZoneByName :: "string \<Rightarrow> string \<Rightarrow> zone_mgr \<Rightarrow> zone_mgr" where
  "setZoneByName short long z =
     tell_zone (ZoneResolved short)
       (z\<lparr>zm_shortZoneName := short, zm_longZoneName := (if long = '''' then short else long), zm_zoning := False\<rparr>)"

text \<open>A row that is not decoded stays as the memory was.\<close>

definition zone_point_row :: "zone_env \<Rightarrow> bytes \<Rightarrow> nat \<Rightarrow> zone_point res" where
  "zone_point_row E p i =
     rbind (rd_bytes (drop (4 + i * sizeof_zonePointStruct) p) sizeof_zonePointStruct) (\<lambda>b.
       Inr (case ze_point E b of Some r \<Rightarrow> r | None \<Rightarrow> ze_junk E))"

fun zone_point_rows :: "zone_env \<Rightarrow> bytes \<Rightarrow> nat list \<Rightarrow> zone_point list res" where
  "zone_point_rows E p [] = Inr []"
| "zone_point_rows E p (i # is) = rbind (zone_point_row E p i) (\<lambda>r. rbind (zone_point_rows E p is) (\<lambda>rs. Inr (r # rs)))"

definition zonePoints :: "zone_env \<Rightarrow> bytes \<Rightarrow> nat \<Rightarrow> zone_mgr \<Rightarrow> zone_mgr res" where
  "zonePoints E p len z =
     (if len < 4 then Inr z
      else rbind (eqtohuint32 p) (\<lambda>n.
        if len < 4 + unat n * sizeof_zonePointStruct then Inr z
        else rbind (zone_point_rows E p [0..<unat n]) (\<lambda>rs. Inr (z\<lparr>zm_zonePoints := Some rs\<rparr>))))"

definition quit_expedition :: "zone_mgr \<Rightarrow> zone_mgr" where
  "quit_expedition z = z\<lparr>zm_dzPoint := (0, 0, 0), zm_dzID := 0, zm_dzLongName := ''''\<rparr>"

definition dynamicZonePoints :: "zone_env \<Rightarrow> bytes \<Rightarrow> nat \<Rightarrow> zone_mgr \<Rightarrow> zone_mgr" where
  "dynamicZonePoints E p len z =
     (if len = sizeof_dzSwitchInfo
      then (case ze_switch E (take len p) of
         None \<Rightarrow> z
       | Some d \<Rightarrow> z\<lparr>zm_dzPoint := round3 E (ds_point d), zm_dzID := ucast (ds_zone_id d),
             zm_dzLongName := zoneLongNameFromID E (ds_zone_id d),
             zm_dzType := (if ds_kind d \<noteq> 1 \<and> 2 < ds_kind d \<and> ds_kind d \<le> 5 then 0 else 1)\<rparr>)
      else if len = 8 then quit_expedition z else z)"

definition dynamicZoneInfo :: "zone_env \<Rightarrow> bytes \<Rightarrow> nat \<Rightarrow> zone_mgr \<Rightarrow> zone_mgr" where
  "dynamicZoneInfo E p len z =
     (if len \<noteq> sizeof_dzInfo then z
      else (case ze_info E (take len p) of None \<Rightarrow> z | Some new_dz \<Rightarrow> if new_dz then z else quit_expedition z))"

section \<open>The server of the zone\<close>

record zone_server_mgr =
  zs_hasInfo :: bool
  zs_host :: string
  zs_port :: u16
  zs_signals :: "(string \<times> u16) list"

definition mkZoneServerMgr :: zone_server_mgr where
  "mkZoneServerMgr = \<lparr>zs_hasInfo = False, zs_host = '''', zs_port = 0, zs_signals = []\<rparr>"

text \<open>\<open>strnlen\<close> over the 128 bytes of the host.\<close>

definition zsi_host :: "bytes \<Rightarrow> string res" where
  "zsi_host p = rbind (rd_bytes p 128) (\<lambda>h. Inr (fromLatin1 (takeWhile (\<lambda>b. b \<noteq> 0) h)))"

definition zoneServerInfo :: "bytes \<Rightarrow> zone_server_mgr \<Rightarrow> zone_server_mgr res" where
  "zoneServerInfo p s =
     rbind (zsi_host p) (\<lambda>host. rbind (eqtohuint16 (drop 128 p)) (\<lambda>port.
       Inr \<lparr>zs_hasInfo = True, zs_host = host, zs_port = port, zs_signals = zs_signals s @ [(host, port)]\<rparr>))"

end
