(* ===== verification/ProfileLaws.thy ===== *)
theory ProfileLaws
  imports PlayerProfile
begin

text \<open>
  What the search for the buffs promises: it stays inside the packet and ends, it takes the run of marked slots with the
  most plausible buffs, and so it finds the array of the buffs where nothing else has as many.
\<close>

section \<open>The search stays inside\<close>

definition marked :: "bytes \<Rightarrow> nat \<Rightarrow> bool" where
  "marked p off \<longleftrightarrow> markersOk p (length p) off = Inr True"

lemma all_marks_ok: "\<forall>m\<in>set ms. off + m + 4 \<le> length p \<Longrightarrow> \<exists>b. all_marks p off ms = Inr b"
  by (induction ms) (auto simp: eqtohuint32_ok)

lemma markersOk_total: "markersOk p (length p) off = Inr (marked p off)"
proof (cases "length p < off + sizeof_spellBuff")
  case False
  then have "\<forall>m\<in>set kMarkers. off + m + 4 \<le> length p" by (auto simp: kMarkers_def sizeof_spellBuff_def)
  then obtain b where "all_marks p off kMarkers = Inr b" using all_marks_ok by blast
  then show ?thesis using False by (simp add: marked_def markersOk_def)
qed (simp add: marked_def markersOk_def)

lemma marked_inside: "marked p off \<Longrightarrow> off + sizeof_spellBuff \<le> length p"
  by (auto simp: marked_def markersOk_def split: if_splits)

lemma count_slots_total: "len \<le> length p \<Longrightarrow> \<exists>r. count_slots p len start k i n = Inr r \<and> n \<le> r"
proof (induction k arbitrary: i n)
  case (Suc k)
  show ?case
  proof (cases "len < start + i * sizeof_spellBuff + sizeof_spellBuff")
    case False
    then have "eqtohint32 (drop (start + i * sizeof_spellBuff) p) \<noteq> Inl e"
      "eqtohint32 (drop (start + i * sizeof_spellBuff + 9) p) \<noteq> Inl e" "rd p (start + i * sizeof_spellBuff + 8) \<noteq> Inl e" for e
      using Suc.prems by (auto simp: eqtohint32_def rd_def sizeof_spellBuff_def)
    then obtain dur sp lvl where "eqtohint32 (drop (start + i * sizeof_spellBuff) p) = Inr dur"
      "eqtohint32 (drop (start + i * sizeof_spellBuff + 9) p) = Inr sp" "rd p (start + i * sizeof_spellBuff + 8) = Inr lvl"
      by (metis sum.exhaust)
    moreover obtain r where "count_slots p len start k (i + 1) (if plausible dur sp lvl then n + 1 else n) = Inr r"
      "(if plausible dur sp lvl then n + 1 else n) \<le> r" using Suc.IH [OF Suc.prems] by blast
    ultimately show ?thesis using False by (auto split: if_splits)
  qed simp
qed simp

text \<open>The plausible buffs in the window at an offset, and the slots of the run that begins there.\<close>

definition buffs_at :: "bytes \<Rightarrow> nat \<Rightarrow> int" where
  "buffs_at p off = (case countBuffs p (length p) off of Inr n \<Rightarrow> n | Inl _ \<Rightarrow> 0)"

definition slots_at :: "bytes \<Rightarrow> nat \<Rightarrow> nat" where
  "slots_at p off = (case run_from p (length p) (off + sizeof_spellBuff) 1 of Inr r \<Rightarrow> fst r | Inl _ \<Rightarrow> 0)"

lemma countBuffs_total: "countBuffs p (length p) off = Inr (buffs_at p off)" and buffs_at_nonneg: "0 \<le> buffs_at p off"
  using count_slots_total [of "length p" p off MAX_BUFFS 0 0] by (auto simp: countBuffs_def buffs_at_def)

lemma run_from_spec:
  "\<exists>n. run_from p (length p) cur r = Inr (r + n, cur + n * sizeof_spellBuff) \<and>
     (\<forall>k<n. marked p (cur + k * sizeof_spellBuff)) \<and> \<not> marked p (cur + n * sizeof_spellBuff)"
proof (induction "Suc (length p) - cur" arbitrary: cur r rule: less_induct)
  case less
  show ?case
  proof (cases "marked p cur")
    case True
    then have "Suc (length p) - (cur + sizeof_spellBuff) < Suc (length p) - cur"
      using marked_inside by (fastforce simp: sizeof_spellBuff_def)
    then obtain n where n: "run_from p (length p) (cur + sizeof_spellBuff) (r + 1) =
        Inr (r + 1 + n, cur + sizeof_spellBuff + n * sizeof_spellBuff)"
      "\<forall>k<n. marked p (cur + sizeof_spellBuff + k * sizeof_spellBuff)"
      "\<not> marked p (cur + sizeof_spellBuff + n * sizeof_spellBuff)"
      using less by blast
    have "marked p (cur + k * sizeof_spellBuff)" if "k < Suc n" for k
      using n(2) True that by (cases k) (auto simp: algebra_simps)
    then show ?thesis
      using n True by (intro exI [of _ "Suc n"]) (simp add: run_from.simps [of p _ cur] markersOk_total algebra_simps)
  next
    case False
    then show ?thesis by (intro exI [of _ 0]) (simp add: run_from.simps [of p _ cur] markersOk_total)
  qed
qed

lemma slots_at_spec:
  "run_from p (length p) (off + sizeof_spellBuff) 1 = Inr (slots_at p off, off + slots_at p off * sizeof_spellBuff)"
  "0 < slots_at p off" "k < slots_at p off \<Longrightarrow> marked p off \<Longrightarrow> marked p (off + k * sizeof_spellBuff)"
  "\<not> marked p (off + slots_at p off * sizeof_spellBuff)"
proof -
  obtain n where n: "run_from p (length p) (off + sizeof_spellBuff) 1 = Inr (1 + n, off + sizeof_spellBuff + n * sizeof_spellBuff)"
    "\<forall>k<n. marked p (off + sizeof_spellBuff + k * sizeof_spellBuff)" "\<not> marked p (off + sizeof_spellBuff + n * sizeof_spellBuff)"
    using run_from_spec by blast
  then have s: "slots_at p off = Suc n" by (simp add: slots_at_def)
  show "run_from p (length p) (off + sizeof_spellBuff) 1 = Inr (slots_at p off, off + slots_at p off * sizeof_spellBuff)"
    "0 < slots_at p off" "\<not> marked p (off + slots_at p off * sizeof_spellBuff)"
    using n s by (simp_all add: algebra_simps)
  show "marked p (off + k * sizeof_spellBuff)" if "k < slots_at p off" "marked p off"
    using n(2) s that by (cases k) (auto simp: algebra_simps)
qed


lemma scan_eq:
  "scan_from p (length p) off best =
     (if off + sizeof_spellBuff \<le> length p
      then if \<not> marked p off then scan_from p (length p) (off + 1) best
           else scan_from p (length p) (off + slots_at p off * sizeof_spellBuff)
                  (better (buffs_at p off) (slots_at p off) off best)
      else Inr best)"
  by (subst scan_from.simps) (simp add: markersOk_total slots_at_spec(1) [of p off, unfolded One_nat_def] countBuffs_total)

section \<open>The offsets the search looks at\<close>

text \<open>Byte by byte where there is no mark, and from the start of a run to its end.\<close>

inductive visits :: "bytes \<Rightarrow> nat \<Rightarrow> nat \<Rightarrow> bool" for p where
  here: "visits p x x"
| next_byte: "off + sizeof_spellBuff \<le> length p \<Longrightarrow> \<not> marked p off \<Longrightarrow> visits p (off + 1) x \<Longrightarrow> visits p off x"
| next_run: "marked p off \<Longrightarrow> visits p (off + slots_at p off * sizeof_spellBuff) x \<Longrightarrow> visits p off x"

inductive_cases visits_elim: "visits p off x"


definition run_le :: "int \<times> nat \<Rightarrow> int \<times> nat \<Rightarrow> bool" where
  "run_le a b \<longleftrightarrow> fst a < fst b \<or> fst a = fst b \<and> snd a \<le> snd b"

lemma run_le_trans: "run_le a b \<Longrightarrow> run_le b c \<Longrightarrow> run_le a c"
  by (auto simp: run_le_def)

lemma run_le_refl [simp]: "run_le a a"
  by (simp add: run_le_def)

definition rank :: "best_run \<Rightarrow> int \<times> nat" where
  "rank b = (fst b, fst (snd b))"

lemma better_rank: "run_le (rank b) (rank (better nb run off b))" "run_le (nb, run) (rank (better nb run off b))"
  by (auto simp: better_def rank_def run_le_def split: prod.splits)

lemma better_cases: "better nb run off b = b \<or> better nb run off b = (nb, run, off)"
  by (auto simp: better_def split: prod.splits)

text \<open>The search ends with the best of the runs it met, or with what it had.\<close>

lemma scan_best:
  "\<exists>b. scan_from p (length p) off best = Inr b \<and> run_le (rank best) (rank b) \<and>
     (b = best \<or> (\<exists>s. visits p off s \<and> marked p s \<and> b = (buffs_at p s, slots_at p s, s))) \<and>
     (\<forall>x. visits p off x \<longrightarrow> marked p x \<longrightarrow> run_le (buffs_at p x, slots_at p x) (rank b))"
proof (induction "length p - off" arbitrary: off best rule: less_induct)
  case less
  show ?case
  proof (cases "off + sizeof_spellBuff \<le> length p")
    case False
    then have "x = off" if "visits p off x" for x
      using that marked_inside by (auto elim: visits_elim)
    moreover have "\<not> marked p off" using False marked_inside by blast
    ultimately show ?thesis using False by (intro exI [of _ best]) (auto simp: scan_eq [of p off])
  next
    case inside: True
    show ?thesis
    proof (cases "marked p off")
      case False
      have "length p - (off + 1) < length p - off" using inside by (simp add: sizeof_spellBuff_def)
      then obtain b where b: "scan_from p (length p) (off + 1) best = Inr b" "run_le (rank best) (rank b)"
        "b = best \<or> (\<exists>s. visits p (off + 1) s \<and> marked p s \<and> b = (buffs_at p s, slots_at p s, s))"
        "\<forall>x. visits p (off + 1) x \<longrightarrow> marked p x \<longrightarrow> run_le (buffs_at p x, slots_at p x) (rank b)"
        using less [of "off + 1" best] by blast
      have "visits p (off + 1) x" if "visits p off x" "marked p x" for x
        using that False by (auto elim: visits_elim)
      moreover have "visits p off x" if "visits p (Suc off) x" for x
        using that False inside next_byte by simp
      ultimately show ?thesis
        using b False inside by (intro exI [of _ b]) (auto simp: scan_eq [of p off])
    next
      case True
      let ?n = "off + slots_at p off * sizeof_spellBuff"
      let ?b = "better (buffs_at p off) (slots_at p off) off best"
      have "length p - ?n < length p - off" using inside slots_at_spec(2) [of p off] by (simp add: sizeof_spellBuff_def)
      then obtain b where b: "scan_from p (length p) ?n ?b = Inr b" "run_le (rank ?b) (rank b)"
        "b = ?b \<or> (\<exists>s. visits p ?n s \<and> marked p s \<and> b = (buffs_at p s, slots_at p s, s))"
        "\<forall>x. visits p ?n x \<longrightarrow> marked p x \<longrightarrow> run_le (buffs_at p x, slots_at p x) (rank b)"
        using less [of ?n ?b] by blast
      have "x = off \<or> visits p ?n x" if "visits p off x" for x
        using that True by (auto elim: visits_elim)
      moreover have "run_le (buffs_at p off, slots_at p off) (rank b)" "run_le (rank best) (rank b)"
        using better_rank b(2) run_le_trans by blast+
      moreover have "b = best \<or> (\<exists>s. visits p off s \<and> marked p s \<and> b = (buffs_at p s, slots_at p s, s))"
        using b(3) better_cases [of "buffs_at p off" "slots_at p off" off best] True here next_run by metis
      ultimately show ?thesis
        using b(1,4) True inside by (intro exI [of _ b]) (auto simp: scan_eq [of p off])
    qed
  qed
qed



section \<open>Finding the buffs\<close>

lemma length_put_at: "k + length v \<le> length b \<Longrightarrow> length (put_at k v b) = length b"
  by (simp add: put_at_def)

lemma length_fill_buffs: "length b = MAX_BUFFS * sizeof_spellBuff \<Longrightarrow> length (fill_buffs ids durs b) = length b"
proof -
  have "length (fold (\<lambda>i b. put_at (i * sizeof_spellBuff) (le32_bytes (durs ! i)) (put_at (i * sizeof_spellBuff + 9) (le32_bytes (ids ! i)) b)) is b) =
      MAX_BUFFS * sizeof_spellBuff"
    if "length b = MAX_BUFFS * sizeof_spellBuff" "\<forall>i\<in>set is. i < MAX_BUFFS" for "is" b
    using that
  proof (induction "is" arbitrary: b)
    case (Cons i "is")
    have "i * sizeof_spellBuff + 13 \<le> MAX_BUFFS * sizeof_spellBuff" using Cons.prems(2) by (simp add: MAX_BUFFS_def sizeof_spellBuff_def)
    then show ?case using Cons by (simp add: length_put_at)
  qed simp
  then show "length b = MAX_BUFFS * sizeof_spellBuff \<Longrightarrow> length (fill_buffs ids durs b) = length b"
    by (simp add: fill_buffs_def)
qed

text \<open>The values the library gives come with their identifiers.\<close>

definition paired :: "(bytes \<Rightarrow> decoded_profile option) \<Rightarrow> bool" where
  "paired decode \<longleftrightarrow> (\<forall>p d. decode p = Some d \<longrightarrow>
     length (dp_aa_ids d) = length (dp_aa_values d) \<and> length (dp_buff_spell_ids d) = length (dp_buff_durations d))"



text \<open>An array of the decoder that is shorter than the identifiers read beside it, up to the size of the profile's own.\<close>

definition unmatched :: "decoded_profile \<Rightarrow> bool" where
  "unmatched d \<longleftrightarrow> length (dp_aa_values d) < min (length (dp_aa_ids d)) MAX_AA \<or>
     length (dp_buff_durations d) < min (length (dp_buff_spell_ids d)) MAX_BUFFS"

lemma paired_matched: "paired decode \<Longrightarrow> decode p = Some d \<Longrightarrow> \<not> unmatched d"
  by (auto simp: paired_def unmatched_def)

lemma fill_unmatched: "decode p = Some d \<Longrightarrow> unmatched d \<Longrightarrow> fillProfileStruct decode p (length p) prof = Inl OutOfBounds"
  by (auto simp: fillProfileStruct_def unmatched_def rguard_def)

lemma fill_matched:
  assumes "\<And>d. decode p = Some d \<Longrightarrow> \<not> unmatched d" "length (cp_buffs prof) = MAX_BUFFS * sizeof_spellBuff"
  shows "\<exists>n prof'. fillProfileStruct decode p (length p) prof = Inr (n, prof') \<and>
           length (cp_buffs prof') = MAX_BUFFS * sizeof_spellBuff \<and>
           cp_scalars prof' = (case decode p of None \<Rightarrow> cp_scalars prof | Some d \<Rightarrow> dp_scalars d)"
proof (cases "decode p")
  case (Some d)
  then show ?thesis using assms length_fill_buffs [of "cp_buffs prof"] by (auto simp: fillProfileStruct_def unmatched_def not_less rguard_def min_le_iff_disj)
qed (use assms(2) in \<open>simp add: fillProfileStruct_def\<close>)

lemma overlay_buffs_ok:
  assumes "length (cp_buffs prof) = MAX_BUFFS * sizeof_spellBuff"
  shows "\<exists>prof'. overlay_buffs p (length p) prof = Inr prof' \<and> length (cp_buffs prof') = MAX_BUFFS * sizeof_spellBuff \<and>
           cp_scalars prof' = cp_scalars prof"
proof -
  obtain nb run s where b: "scan_from p (length p) kScanStart (- 1, 0, 0) = Inr (nb, run, s)"
    "(nb, run, s) = (- 1, 0, 0) \<or> marked p s"
    using scan_best [of p kScanStart "(- 1, 0, 0)"] by auto
  have "s \<le> length p" if "3 \<le> run" using b(2) that marked_inside by fastforce
  then show ?thesis using assms b(1) by (auto simp: overlay_buffs_def rd_bytes_def overlay_def)
qed

text \<open>C8: Making a profile ends, whatever the packet holds and wherever its marks are, and it never reads outside the
  packet. It reads outside an array exactly when the decoding library succeeds and hands back fewer ability values than
  ability identifiers, or fewer buff durations than buff spells, among those the profile has room for. Otherwise the
  profile has the fields of the library, or none where it fails, and the whole array of the buffs.\<close>

theorem profile_stays_inside:
  "if \<exists>d. decode p = Some d \<and> unmatched d then make_profile decode p (length p) = Inl OutOfBounds
   else \<exists>prof. make_profile decode p (length p) = Inr prof \<and> length (cp_buffs prof) = MAX_BUFFS * sizeof_spellBuff \<and>
          cp_scalars prof = (case decode p of None \<Rightarrow> cp_scalars zero_profile | Some d \<Rightarrow> dp_scalars d)"
proof (cases "\<exists>d. decode p = Some d \<and> unmatched d")
  case True
  then show ?thesis by (auto simp: make_profile_def fill_unmatched)
next
  case False
  have z: "length (cp_buffs zero_profile) = MAX_BUFFS * sizeof_spellBuff" by (simp add: zero_profile_def)
  obtain n f where f: "fillProfileStruct decode p (length p) zero_profile = Inr (n, f)"
    "length (cp_buffs f) = MAX_BUFFS * sizeof_spellBuff"
    "cp_scalars f = (case decode p of None \<Rightarrow> cp_scalars zero_profile | Some d \<Rightarrow> dp_scalars d)"
    using fill_matched [OF _ z] False by blast
  define k where "k = (if kSkillsWireOffset + sizeof_skills \<le> length p
    then f\<lparr>cp_skills := take sizeof_skills (drop kSkillsWireOffset p)\<rparr> else f)"
  have k: "overlay_skills p (length p) f = Inr k" "cp_buffs k = cp_buffs f" "cp_scalars k = cp_scalars f"
    by (auto simp: k_def overlay_skills_def rd_bytes_def)
  then show ?thesis using f k overlay_buffs_ok [of k p] False by (auto simp: make_profile_def)
qed


section \<open>Witnesses\<close>

text \<open>A profile whose only slot that is taken holds spell 278 of level 60 for 100 ticks; the rest of the array is marks.\<close>

definition demo_slot :: bytes where
  "demo_slot = le32_bytes 100 @ le32_bytes 100 @ [60] @ le32_bytes 278"

definition demo_profile_packet :: bytes where
  "demo_profile_packet = (replicate kScanStart 0 @ demo_slot @ replicate 13 0) @ replicate 4594 0xFF"


text \<open>A decoder that succeeds, and gives one duration for the two buffs of its profile.\<close>

definition demo_decoded :: "nat \<Rightarrow> decoded_profile" where
  "demo_decoded n = \<lparr>dp_scalars = (cp_scalars zero_profile)\<lparr>ps_level := 60\<rparr>,
     dp_aa_ids = [], dp_aa_values = [], dp_disciplines = [], dp_recast_timers = [], dp_spell_book = [], dp_mem_spells = [],
     dp_spell_slot_refresh = [], dp_buff_spell_ids = [278, 279], dp_buff_durations = replicate n 100,
     dp_name = [], dp_last_name = [], dp_languages = [],
     dp_bytes_consumed = 60000\<rparr>"

theorem profile_stays_inside_witness:
  "make_profile (\<lambda>_. Some (demo_decoded 1)) demo_profile_packet (length demo_profile_packet) = Inl OutOfBounds \<and>
   (\<exists>prof. make_profile (\<lambda>_. Some (demo_decoded 2)) demo_profile_packet (length demo_profile_packet) = Inr prof \<and>
      ps_level (cp_scalars prof) = 60)"
  using profile_stays_inside [of "\<lambda>_. Some (demo_decoded 1)" demo_profile_packet]
    profile_stays_inside [of "\<lambda>_. Some (demo_decoded 2)" demo_profile_packet]
  by (auto simp: unmatched_def demo_decoded_def MAX_BUFFS_def)


end
