(* ===== verification/ZoneMgrLaws.thy ===== *)
theory ZoneMgrLaws
  imports ZoneMgr ProfileLaws
begin

text \<open>
  What the zone promises: its signals tell its name, the name of a zone comes from the table and from the server where the
  table has none, the zone points of a packet are found by their triggers, and the saved names come back.
\<close>

section \<open>Names\<close>

lemma unk_zone_unknown: "starts_with (unk_zone k) ''unk''"
  by (simp add: starts_with_def unk_zone_def)

lemma save_if_same [simp]:
  "zm_shortZoneName (save_if E z) = zm_shortZoneName z" "zm_longZoneName (save_if E z) = zm_longZoneName z"
  "zm_zoning (save_if E z) = zm_zoning z" "zm_signals (save_if E z) = zm_signals z"
  "zm_zonePoints (save_if E z) = zm_zonePoints z"
  by (simp_all add: save_if_def saveZoneState_def)

lemma tell_zone_same [simp]:
  "zm_shortZoneName (tell_zone e z) = zm_shortZoneName z" "zm_longZoneName (tell_zone e z) = zm_longZoneName z"
  "zm_zoning (tell_zone e z) = zm_zoning z" "zm_signals (tell_zone e z) = zm_signals z @ [e]"
  "zm_zonePoints (tell_zone e z) = zm_zonePoints z"
  by (simp_all add: tell_zone_def)

text \<open>Numbers at the end are cut first: of two suffixes the one in front of \<open>_progress\<close> stays.\<close>

lemma strip_examples:
  "strip_suffixes ''takishruins_262'' = ''takishruins''" "strip_suffixes ''guildhall3_int'' = ''guildhall3''"
  "strip_suffixes ''templeveeshan_262_progress'' = ''templeveeshan_262''" "strip_suffixes ''qeynos2'' = ''qeynos2''"
  by code_simp+

lemma strip_end_id: "\<lbrakk>length suf \<le> length s \<Longrightarrow> drop (length s - length suf) s \<noteq> suf; CHR 0x0A \<notin> set s\<rbrakk> \<Longrightarrow> strip_end suf s = s"
  by (auto simp: strip_end_def dest: in_set_dropD) (metis in_set_conv_decomp in_set_dropD)

text \<open>The part of a name that is known to be one.\<close>

definition known_name :: "string option \<Rightarrow> string option" where
  "known_name n = (case n of Some s \<Rightarrow> if s = '''' \<or> starts_with s ''unk'' then None else Some s | None \<Rightarrow> None)"

text \<open>When the player arrives, by his profile and the description of the zone, he is no longer zoning, the long name is
  the one of the server, and the short name is that of the table, but for a zone the table does not know it is the name
  of the server without its suffixes.\<close>

theorem arrival_names_the_zone:
  assumes "zonePlayer E p (length p) z = Inr z1" "make_profile (ze_profile E) p (length p) = Inr prof"
    and "ze_newZone E q = Some n"
  shows "\<not> zm_zoning (zoneNew E q (length q) z1) \<and>
    zm_longZoneName (zoneNew E q (length q) z1) = fromLatin1 (nz_long_name n) \<and>
    zm_shortZoneName (zoneNew E q (length q) z1) =
      (case known_name (Option.bind (zone_entry (ze_names E) (ps_zoneId (cp_scalars prof))) fst) of
         Some s \<Rightarrow> s | None \<Rightarrow> strip_suffixes (fromLatin1 (nz_short_name n)))"
proof -
  let ?id = "ps_zoneId (cp_scalars prof)"
  have short: "zm_shortZoneName z1 = zoneNameFromID E ?id"
    using assms(1,2) by (auto simp: zonePlayer_def Let_def)
  have known: "known_name (Option.bind (zone_entry (ze_names E) ?id) fst) =
    (if zoneNameFromID E ?id = '''' \<or> starts_with (zoneNameFromID E ?id) ''unk'' then None else Some (zoneNameFromID E ?id))"
    using unk_zone_unknown by (auto simp: known_name_def zoneNameFromID_def split: option.split)
  show ?thesis using assms(3) by (auto simp: zoneNew_def Let_def short known)
qed

section \<open>Signals\<close>

datatype zone_op =
    EntryClient bytes u8 | Player bytes | Change bytes u8 | BeginZoning | New bytes | SetByName string string
  | Points bytes | DzPoints bytes | DzInfo bytes

fun zone_step :: "zone_env \<Rightarrow> zone_op \<Rightarrow> zone_mgr \<Rightarrow> zone_mgr res" where
  "zone_step E (EntryClient p dir) z = Inr (zoneEntryClient E p (length p) dir z)"
| "zone_step E (Player p) z = zonePlayer E p (length p) z"
| "zone_step E (Change p dir) z = zoneChange E p (length p) dir z"
| "zone_step E BeginZoning z = Inr (beginZoning E z)"
| "zone_step E (New p) z = Inr (zoneNew E p (length p) z)"
| "zone_step E (SetByName s l) z = Inr (setZoneByName s l z)"
| "zone_step E (Points p) z = zonePoints E p (length p) z"
| "zone_step E (DzPoints p) z = Inr (dynamicZonePoints E p (length p) z)"
| "zone_step E (DzInfo p) z = Inr (dynamicZoneInfo E p (length p) z)"

text \<open>What a listener of the signals takes for the zone.\<close>

fun heard_zone :: "zone_env \<Rightarrow> zm_event \<Rightarrow> string \<Rightarrow> string" where
  "heard_zone E ZoneBegin s = ''unknown''"
| "heard_zone E (ZoneBeginName n) s = n"
| "heard_zone E (ZoneChangedName n) s = n"
| "heard_zone E (ZoneChanged _ zoneId _ _ _) s = zoneNameFromID E zoneId"
| "heard_zone E (ZoneEnd n _) s = n"
| "heard_zone E (ZoneResolved n) s = n"
| "heard_zone E (ZoneBeginEntry _ _ _) s = s"
| "heard_zone E (PlayerProfile _) s = s"

definition heard :: "zone_env \<Rightarrow> string \<Rightarrow> zone_mgr \<Rightarrow> bool" where
  "heard E s0 z \<longleftrightarrow> fold (heard_zone E) (zm_signals z) s0 = zm_shortZoneName z"

lemma zone_point_rows_total:
  "\<forall>i\<in>set is. 4 + (i + 1) * sizeof_zonePointStruct \<le> length p \<Longrightarrow>
     zone_point_rows E p is = Inr (map (\<lambda>i. case ze_point E (take sizeof_zonePointStruct (drop (4 + i * sizeof_zonePointStruct) p)) of
       Some r \<Rightarrow> r | None \<Rightarrow> ze_junk E) is)"
  by (induction "is") (auto simp: zone_point_row_def rd_bytes_def)

lemma zonePoints_same:
  "zonePoints E p len z = Inr z' \<Longrightarrow> zm_signals z' = zm_signals z \<and> zm_shortZoneName z' = zm_shortZoneName z"
  by (auto simp: zonePoints_def result_simps split: if_splits)

lemma heard_step: "heard E s0 z \<Longrightarrow> zone_step E op z = Inr z' \<Longrightarrow> heard E s0 z'"
  unfolding heard_def
  by (cases op)
    (auto simp: zoneEntryClient_def zonePlayer_def zoneChange_def beginZoning_def zoneNew_def setZoneByName_def
      dynamicZonePoints_def dynamicZoneInfo_def quit_expedition_def Let_def result_simps dest: zonePoints_same
      split: option.splits if_splits)

interpretation zone: invariant_machine "zone_step E" "heard E s0" for E s0
  by unfold_locales (rule heard_step)

text \<open>C13: A listener that follows the signals from the start always knows the short name of the zone, whatever
  packets come in whatever order.\<close>

theorem zone_signals_tell_the_zone:
  assumes "run_ops (zone_step E) ops (mkZoneMgr E f) = Inr z"
  shows "fold (heard_zone E) (zm_signals z) (zm_shortZoneName (mkZoneMgr E f)) = zm_shortZoneName z"
proof -
  have "zm_signals (mkZoneMgr E f) = []"
    by (simp add: mkZoneMgr_def restoreZoneState_def Let_def split: option.split prod.split)
  then have "heard E (zm_shortZoneName (mkZoneMgr E f)) (mkZoneMgr E f)" by (simp add: heard_def)
  then show ?thesis using zone.run_keeps assms unfolding heard_def by blast
qed

section \<open>Zone points\<close>

lemma drop_rows:
  "\<forall>r\<in>set rows. length r = n \<Longrightarrow> i < length rows \<Longrightarrow> take n (drop (i * n) (concat rows @ q)) = rows ! i"
proof (induction rows arbitrary: i)
  case (Cons r rows)
  then show ?case by (cases i) simp_all
qed simp

text \<open>After a list of zone points has come, a trigger is looked up among its rows as they were decoded; a list that is
  shorter than its count says changes nothing.\<close>

theorem zone_points_are_found:
  assumes rows: "\<forall>r\<in>set rows. length r = sizeof_zonePointStruct" "length rows < 2 ^ 32"
    and p: "p = le32_bytes (of_nat (length rows)) @ concat rows @ rest"
  shows "(\<exists>z'. zonePoints E p (length p) z = Inr z' \<and>
      zonePoint t z' = find (\<lambda>r. zp_zoneTrigger r = t) (map (\<lambda>r. case ze_point E r of Some q \<Rightarrow> q | None \<Rightarrow> ze_junk E) rows)) \<and>
    (len < 4 + length rows * sizeof_zonePointStruct \<longrightarrow> zonePoints E p len z = Inr z)"
proof -
  have n: "unat (of_nat (length rows) :: u32) = length rows" using rows(2) by (simp add: unat_of_nat)
  have c: "length (concat rows) = length rows * sizeof_zonePointStruct"
    using rows(1) by (induction rows) simp_all
  have at: "drop (4 + k) p = drop k (concat rows @ rest)" for k by (simp add: p)
  have u: "eqtohuint32 p = Inr (of_nat (length rows))" by (simp add: p)
  have l: "length p = 4 + length rows * sizeof_zonePointStruct + length rest"
    unfolding p length_append length_encoders c by simp
  let ?f = "\<lambda>r. case ze_point E r of Some q \<Rightarrow> q | None \<Rightarrow> ze_junk E"
  have inside: "\<forall>i\<in>set [0..<length rows]. 4 + (i + 1) * sizeof_zonePointStruct \<le> length p"
  proof
    fix i assume "i \<in> set [0..<length rows]"
    then have "(i + 1) * sizeof_zonePointStruct \<le> length rows * sizeof_zonePointStruct" by (intro mult_le_mono1) simp
    then show "4 + (i + 1) * sizeof_zonePointStruct \<le> length p" unfolding l by linarith
  qed
  have "map (\<lambda>i. ?f (take sizeof_zonePointStruct (drop (4 + i * sizeof_zonePointStruct) p))) [0..<length rows] = map ?f rows"
    unfolding at using drop_rows [OF rows(1), of _ rest] by (intro nth_equalityI) simp_all
  then have "zone_point_rows E p [0..<length rows] = Inr (map ?f rows)"
    using zone_point_rows_total [OF inside, of E] by argo
  then have ok: "zonePoints E p (length p) z = Inr (z\<lparr>zm_zonePoints := Some (map ?f rows)\<rparr>)"
    by (simp add: zonePoints_def u n l)
  have "zonePoints E p len z = Inr z" if "len < 4 + length rows * sizeof_zonePointStruct"
    using that by (simp add: zonePoints_def u n)
  then show ?thesis by (intro conjI exI [of _ "z\<lparr>zm_zonePoints := Some (map ?f rows)\<rparr>"]) (rule ok, simp add: zonePoint_def, blast)
qed

section \<open>Faults and the saved state\<close>

text \<open>A change of zone reads 100 bytes whatever its length is; on the live backend the length is checked before.\<close>

lemma zone_change_reads_past_iff: "zoneChange E p len dir z = Inl OutOfBounds \<longleftrightarrow> length p < 100"
  by (auto simp: zoneChange_def result_simps sizeof_zoneChangeStruct_def Let_def split: option.splits)

text \<open>Both directions announce the change; the entry ends the zoning.\<close>

lemma client_change_is_announced:
  assumes "ze_change E (take 100 p) = Some (name, k, i)" "zoneChange E p len DIR_Client z = Inr z'"
  shows "zm_signals z' = zm_signals z @ [ZoneChanged (take 63 name) k i len DIR_Client]"
  using assms by (auto simp: zoneChange_def result_simps sizeof_zoneChangeStruct_def Let_def)

lemma entry_ends_zoning: "\<not> zm_zoning (zoneEntryClient E p len dir z)"
  by (simp add: zoneEntryClient_def)

text \<open>A profile that is not decoded is announced with zeros.\<close>

lemma broken_profile_is_announced:
  assumes "ze_profile E (take (length p) p) = None" "length p < 4622" "zonePlayer E p (length p) z = Inr z'"
  shows "zm_shortZoneName z' = zoneNameFromID E 0 \<and> last (zm_signals z') = PlayerProfile zero_profile"
proof -
  have "\<not> kScanStart + sizeof_spellBuff \<le> length p" using assms(2) by (simp add: kScanStart_def sizeof_spellBuff_def)
  then have "scan_from p (length p) kScanStart (- 1, 0, 0) = Inr (- 1, 0, 0)" by (simp add: scan_eq)
  then have "make_profile (ze_profile E) p (length p) = Inr zero_profile"
    using assms(1,2) by (simp add: make_profile_def fillProfileStruct_def overlay_skills_def overlay_buffs_def
        kSkillsWireOffset_def sizeof_skills_def)
  then show ?thesis using assms(3) by (auto simp: zonePlayer_def Let_def zero_profile_def zero_scalars_def)
qed

lemma zone_names_survive:
  assumes "ze_canWrite E" "ze_restore E" "ze_readMagic E (ze_print E zone_magic l s) = zone_magic"
    "ze_readNames E (ze_print E zone_magic l s) = (l, s)" "zm_longZoneName z = l" "zm_shortZoneName z = s"
  shows "zm_shortZoneName (mkZoneMgr E (zm_file (saveZoneState E z))) = s \<and>
    zm_longZoneName (mkZoneMgr E (zm_file (saveZoneState E z))) = l"
  using assms by (simp add: saveZoneState_def mkZoneMgr_def restoreZoneState_def)

lemma zoneServerInfo_total: "130 \<le> length p \<Longrightarrow> \<exists>s'. zoneServerInfo p s = Inr s'"
  by (auto simp: zoneServerInfo_def zsi_host_def rd_bytes_def eqtohuint16_ok)

section \<open>Witnesses\<close>

definition demo_point :: zone_point where
  "demo_point = \<lparr>zp_zoneTrigger = 5, zp_y = 0, zp_x = 0, zp_z = 0, zp_heading = 0, zp_zoneId = 2, zp_zoneInstance = 0\<rparr>"

definition demo_zone_env :: zone_env where
  "demo_zone_env = \<lparr>ze_names = [(None, None), (Some ''qeynos'', Some ''South Qeynos'')], ze_save = True, ze_restore = False,
     ze_canWrite = True, ze_profile = (\<lambda>_. None), ze_change = (\<lambda>_. Some ([], 1, 0)),
     ze_newZone = (\<lambda>_. Some \<lparr>nz_short_name = [0x71, 0x5F, 0x31], nz_long_name = [0x51], nz_safe = (0, 0, 0), nz_exp_multiplier = 0\<rparr>),
     ze_point = (\<lambda>b. if hd b = 5 then Some demo_point else None), ze_switch = (\<lambda>_. None), ze_info = (\<lambda>_. None),
     ze_junk = demo_point\<lparr>zp_zoneTrigger := 99\<rparr>, ze_junkType = 7, ze_lrint = (\<lambda>_. 0), ze_print = (\<lambda>_ _ _. []),
     ze_readMagic = (\<lambda>_. 0), ze_readNames = (\<lambda>_. ('''', ''''))\<rparr>"

lemma demo_profile: "make_profile (ze_profile demo_zone_env) [] 0 = Inr zero_profile"
proof -
  have "scan_from [] 0 kScanStart (- 1, 0, 0) = Inr (- 1, 0, 0)" by (simp add: scan_from.simps kScanStart_def)
  then show ?thesis by (simp add: make_profile_def fillProfileStruct_def overlay_skills_def overlay_buffs_def
      kSkillsWireOffset_def demo_zone_env_def)
qed

lemma demo_names: "strip_suffixes (fromLatin1 [0x71, 0x5F, 0x31]) = ''q''"
  by code_simp

theorem arrival_names_the_zone_witness:
  "\<exists>z1. zonePlayer demo_zone_env [] 0 (mkZoneMgr demo_zone_env None) = Inr z1 \<and>
     zm_shortZoneName (zoneNew demo_zone_env [1] 1 z1) = ''q''"
proof -
  obtain z1 where z1: "zonePlayer demo_zone_env [] (length ([] :: bytes)) (mkZoneMgr demo_zone_env None) = Inr z1"
    by (simp add: zonePlayer_def demo_profile Let_def)
  obtain n where n: "ze_newZone demo_zone_env [1] = Some n" "nz_short_name n = [0x71, 0x5F, 0x31]" by (simp add: demo_zone_env_def)
  have k: "known_name (Option.bind (zone_entry (ze_names demo_zone_env) (ps_zoneId (cp_scalars zero_profile))) fst) = None"
    by (simp add: known_name_def zone_entry_def demo_zone_env_def zero_profile_def zero_scalars_def)
  have "zm_shortZoneName (zoneNew demo_zone_env [1] (length [1 :: u8]) z1) = ''q''"
    using arrival_names_the_zone [OF z1 _ n(1)] demo_profile k demo_names n(2) by simp
  then show ?thesis using z1 by simp
qed

theorem zone_signals_tell_the_zone_witness:
  "\<exists>z. run_ops (zone_step demo_zone_env) [EntryClient [] 1, Change (replicate 100 0) DIR_Server, New []] (mkZoneMgr demo_zone_env None) = Inr z \<and>
     fold (heard_zone demo_zone_env) (zm_signals z) ''unknown'' = zm_shortZoneName z \<and> zm_shortZoneName z = ''qeynos''"
proof -
  let ?ops = "[EntryClient [] 1, Change (replicate 100 0) DIR_Server, New []]"
  have "zoneNameFromID demo_zone_env 1 = ''qeynos''" by (simp add: zoneNameFromID_def zone_entry_def demo_zone_env_def)
  then obtain z where z: "run_ops (zone_step demo_zone_env) ?ops (mkZoneMgr demo_zone_env None) = Inr z" "zm_shortZoneName z = ''qeynos''"
    by (auto simp: zoneChange_def rd_bytes_def sizeof_zoneChangeStruct_def zoneNew_def starts_with_def Let_def demo_zone_env_def)
  moreover have "zm_shortZoneName (mkZoneMgr demo_zone_env None) = ''unknown''" by (simp add: mkZoneMgr_def demo_zone_env_def)
  ultimately show ?thesis using zone_signals_tell_the_zone [OF z(1)] by simp
qed

theorem zone_points_are_found_witness:
  "\<exists>z'. zonePoints demo_zone_env (le32_bytes 2 @ replicate 24 6 @ replicate 24 5 @ [1, 2]) 54 (mkZoneMgr demo_zone_env None) = Inr z' \<and>
     zonePoint 5 z' = Some demo_point"
  using zone_points_are_found [of "[replicate 24 6, replicate 24 5]" "le32_bytes 2 @ replicate 24 6 @ replicate 24 5 @ [1, 2]" "[1, 2]"
      demo_zone_env "mkZoneMgr demo_zone_env None" 5 0]
  by (simp add: sizeof_zonePointStruct_def) (simp add: demo_zone_env_def demo_point_def)

end
