(* ===== verification/DateTimeMgr.thy ===== *)
theory DateTimeMgr
  imports PacketCommon "HOL-Library.Signed_Division"
begin

text \<open>
  The clock of the game (\<open>src/datetimemgr.cpp\<close>), which runs 20 times as fast as the clock of the host and is set by
  \<open>OP_TimeOfDay\<close>. The calendar is a parameter: \<open>cal\<close> gives the seconds of a date, or \<open>None\<close> for one that is not valid.
  Times of the host are in milliseconds. The laws say how far the clock of the game lags behind.
\<close>

datatype clock_event = SyncDateTime "int option" | UpdatedDateTime int

text \<open>The frequency and the interval of the timer are an \<open>int\<close> each.\<close>

record date_time_mgr =
  dm_updateFrequency :: u32
  dm_timer :: "u32 option"
  dm_eqDateTime :: "int option"
  dm_refDateTime :: int
  dm_signals :: "clock_event list"

definition mkDateTimeMgr :: date_time_mgr where
  "mkDateTimeMgr = \<lparr>dm_updateFrequency = 60 * 1000, dm_timer = None, dm_eqDateTime = None, dm_refDateTime = 0, dm_signals = []\<rparr>"

text \<open>\<open>secsTo\<close> drops the milliseconds towards zero; its 64 bits are narrowed to the \<open>int\<close> that takes them. The product with
  20 is one of \<open>int\<close> too, which wraps around on the machines there are.\<close>

definition secsTo :: "int \<Rightarrow> int \<Rightarrow> u32" where
  "secsTo from now = word_of_int ((now - from) sdiv 1000)"

definition clock_update :: "int \<Rightarrow> date_time_mgr \<Rightarrow> date_time_mgr" where
  "clock_update now m =
     (case dm_eqDateTime m of
        None \<Rightarrow> m
      | Some t \<Rightarrow>
         (let secs = secsTo (dm_refDateTime m) now
          in if secs \<noteq> 0
             then m\<lparr>dm_eqDateTime := Some (t + sint (secs * 20)), dm_refDateTime := now,
                    dm_signals := dm_signals m @ [UpdatedDateTime (t + sint (secs * 20))]\<rparr>
             else m))"

definition updatedDateTime :: "int \<Rightarrow> date_time_mgr \<Rightarrow> int option \<times> date_time_mgr" where
  "updatedDateTime now m = (let m = clock_update now m in (dm_eqDateTime m, m))"

definition updateFrequency :: "date_time_mgr \<Rightarrow> u32" where
  "updateFrequency m = word_of_int (sint (dm_updateFrequency m) sdiv 1000)"

definition setUpdateFrequency :: "u32 \<Rightarrow> int \<Rightarrow> date_time_mgr \<Rightarrow> date_time_mgr" where
  "setUpdateFrequency seconds now m =
     (let m = m\<lparr>dm_updateFrequency := seconds * 1000\<rparr>
      in if dm_timer m \<noteq> None then (clock_update now m)\<lparr>dm_timer := Some (seconds * 1000)\<rparr> else m)"

text \<open>The struct: hour, minute, day and month by a byte each, and the year.\<close>

definition timeOfDay :: "(u16 \<Rightarrow> u8 \<Rightarrow> u8 \<Rightarrow> int \<Rightarrow> u8 \<Rightarrow> int option) \<Rightarrow> bytes \<Rightarrow> int \<Rightarrow> date_time_mgr \<Rightarrow> date_time_mgr res" where
  "timeOfDay cal p now m =
     rbind (eqtohuint16 (drop 4 p)) (\<lambda>year. rbind (rd p 3) (\<lambda>month. rbind (rd p 2) (\<lambda>day. rbind (rd p 0) (\<lambda>hour. rbind (rd p 1) (\<lambda>minute.
       let t = cal year month day (int (unat hour) - 1) minute
       in Inr (m\<lparr>dm_refDateTime := now, dm_eqDateTime := t,
            dm_timer := (case dm_timer m of None \<Rightarrow> Some (dm_updateFrequency m) | Some i \<Rightarrow> Some i),
            dm_signals := dm_signals m @ [SyncDateTime t]\<rparr>))))))"

section \<open>How far the clock lags\<close>

text \<open>The steps of the clock of the host that the 32 bits of \<open>secs * 20\<close> have room for, in milliseconds.\<close>

abbreviation fits_clock :: "int \<Rightarrow> int \<Rightarrow> bool" where
  "fits_clock from now \<equiv> from \<le> now \<and> now - from < 107374183000"

lemma secsTo_forward: "from \<le> now \<Longrightarrow> secsTo from now = word_of_int ((now - from) div 1000)"
  by (simp add: secsTo_def signed_divide_int_def sgn_if)

lemma sint_of_small: "0 \<le> k \<Longrightarrow> k < 2147483648 \<Longrightarrow> sint (word_of_int k :: u32) = k"
  by (simp add: signed_of_int signed_take_bit_int_eq_self)

lemma secsTo_fits:
  assumes "fits_clock from now"
  shows "sint (secsTo from now * 20) = (now - from) div 1000 * 20" "secsTo from now = 0 \<longleftrightarrow> (now - from) div 1000 = 0"
proof -
  define k where "k = (now - from) div 1000"
  have k: "0 \<le> k" "k < 107374183" using assms by (auto simp: k_def)
  have s: "secsTo from now = word_of_int k" using assms secsTo_forward by (simp add: k_def)
  have "secsTo from now * 20 = word_of_int (k * 20)" by (simp add: s)
  then show "sint (secsTo from now * 20) = (now - from) div 1000 * 20"
    using k sint_of_small [of "k * 20"] by (simp add: k_def)
  have "sint (secsTo from now) = k" using s k by (simp add: sint_of_small)
  moreover have "secsTo from now = 0" if "k = 0" using s that by simp
  ultimately show "secsTo from now = 0 \<longleftrightarrow> (now - from) div 1000 = 0" unfolding k_def [symmetric] by auto
qed

lemma clock_update_forward:
  assumes "dm_eqDateTime m = Some t" "fits_clock (dm_refDateTime m) now" "k = (now - dm_refDateTime m) div 1000"
  shows "clock_update now m = (if k = 0 then m
    else m\<lparr>dm_eqDateTime := Some (t + k * 20), dm_refDateTime := now, dm_signals := dm_signals m @ [UpdatedDateTime (t + k * 20)]\<rparr>)"
  using assms secsTo_fits [OF assms(2)] by (simp add: clock_update_def Let_def)

definition clock_between :: "int \<Rightarrow> int \<Rightarrow> int \<Rightarrow> date_time_mgr \<Rightarrow> bool" where
  "clock_between base t0 n m \<longleftrightarrow> (\<exists>t. dm_eqDateTime m = Some t \<and>
     50 * (t - base) \<le> dm_refDateTime m - t0 \<and> dm_refDateTime m - t0 \<le> 50 * (t - base) + 999 * n)"

text \<open>The clock counted its time from less than a second before the last update, or from the last update itself.\<close>

definition counted_to :: "int \<Rightarrow> date_time_mgr \<Rightarrow> bool" where
  "counted_to now m \<longleftrightarrow> dm_refDateTime m \<le> now \<and> now - dm_refDateTime m \<le> 999"

text \<open>An update at a time that is not before the last one keeps the bounds, and leaves less than a second to come.\<close>

lemma clock_update_between:
  assumes "clock_between base t0 n m" "fits_clock (dm_refDateTime m) now"
  shows "clock_between base t0 (n + 1) (clock_update now m) \<and> counted_to now (clock_update now m) \<and>
    (clock_between base t0 n (clock_update now m) \<or> dm_refDateTime (clock_update now m) = now)"
proof -
  obtain t where t: "dm_eqDateTime m = Some t" "50 * (t - base) \<le> dm_refDateTime m - t0"
    "dm_refDateTime m - t0 \<le> 50 * (t - base) + 999 * n"
    using assms(1) by (auto simp: clock_between_def)
  define d where "d = now - dm_refDateTime m"
  define k where "k = d div 1000"
  have k: "1000 * k \<le> d" "d \<le> 1000 * k + 999" "0 \<le> d" using assms(2) by (auto simp: k_def d_def)
  have u: "clock_update now m = (if k = 0 then m else m\<lparr>dm_eqDateTime := Some (t + k * 20), dm_refDateTime := now,
        dm_signals := dm_signals m @ [UpdatedDateTime (t + k * 20)]\<rparr>)"
    using clock_update_forward [OF t(1) assms(2)] by (simp add: k_def d_def)
  show ?thesis
  proof (cases "k = 0")
    case True
    then have "counted_to now m" using k by (simp add: counted_to_def d_def)
    moreover have "clock_between base t0 (n + 1) m" using t unfolding clock_between_def by (intro exI [of _ t]) simp
    ultimately show ?thesis using assms(1) True u by simp
  next
    case False
    have "now = dm_refDateTime m + d" by (simp add: d_def)
    then have "50 * (t + k * 20 - base) \<le> now - t0" "now - t0 \<le> 50 * (t + k * 20 - base) + 999 * (n + 1)"
      using t(2,3) k(1,2) by (simp_all add: algebra_simps)
    then show ?thesis using False u by (simp add: clock_between_def counted_to_def)
  qed
qed

text \<open>The times of the updates: none is before the last one, or more than 107374182 seconds (about 3.4 years) behind it.\<close>

abbreviation steady :: "int list \<Rightarrow> bool" where
  "steady ts \<equiv> successively (\<lambda>a b. a \<le> b \<and> b - a < 107374182000) ts"

lemma steady_fits: "counted_to a m \<Longrightarrow> a \<le> b \<Longrightarrow> b - a < 107374182000 \<Longrightarrow> fits_clock (dm_refDateTime m) b"
  by (simp add: counted_to_def)

lemma clock_updates_between:
  "clock_between base t0 n m \<Longrightarrow> counted_to x m \<Longrightarrow> steady (x # ts) \<Longrightarrow>
     clock_between base t0 (n + int (length ts)) (fold clock_update ts m) \<and> counted_to (last (x # ts)) (fold clock_update ts m)"
proof (induction ts arbitrary: n m x)
  case (Cons y ts)
  have "x \<le> y" "y - x < 107374182000" "steady (y # ts)" using Cons.prems(3) by auto
  then have u: "clock_between base t0 (n + 1) (clock_update y m)" "counted_to y (clock_update y m)"
    using clock_update_between [OF Cons.prems(1) steady_fits [OF Cons.prems(2), of y]] by auto
  show ?case using Cons.IH [OF u \<open>steady (y # ts)\<close>] by (simp add: algebra_simps)
qed simp

lemma steady_last: "steady (x # ts @ [now]) \<Longrightarrow>
    steady (x # ts) \<and> last (x # ts) \<le> now \<and> now - last (x # ts) < 107374182000"
  by (induction ts arbitrary: x) auto

text \<open>C31: After the clock is set, and while the clock of the host goes forward by no more than 107374182 seconds (about 3.4
  years) from one update to the next, it is never ahead of 20 times the time that passed, and it is behind by less than 20
  seconds for every update there was: the parts of a second an update does not count are lost.\<close>

theorem game_clock_lags_a_second_per_update:
  assumes "timeOfDay cal p t0 m = Inr m0" "dm_eqDateTime m0 = Some base" "steady (t0 # ts @ [now])"
  shows "\<exists>t. fst (updatedDateTime now (fold clock_update ts m0)) = Some t \<and>
    1000 * (t - base) \<le> 20 * (now - t0) \<and> 20 * (now - t0) < 1000 * (t - base) + 20000 * (int (length ts) + 1)"
proof -
  have m0: "dm_refDateTime m0 = t0" using assms(1) by (auto simp: timeOfDay_def result_simps Let_def)
  then have "clock_between base t0 0 m0" "counted_to t0 m0" using assms(2) by (simp_all add: clock_between_def counted_to_def)
  then have ts: "clock_between base t0 (int (length ts)) (fold clock_update ts m0)"
    "counted_to (last (t0 # ts)) (fold clock_update ts m0)"
    using clock_updates_between [of base t0 0 m0 t0 ts] steady_last [OF assms(3)] by auto
  let ?m = "clock_update now (fold clock_update ts m0)"
  have "fits_clock (dm_refDateTime (fold clock_update ts m0)) now"
    using steady_fits [OF ts(2), of now] steady_last [OF assms(3)] by blast
  then have "clock_between base t0 (int (length ts) + 1) ?m" "counted_to now ?m"
    "clock_between base t0 (int (length ts)) ?m \<or> dm_refDateTime ?m = now"
    using clock_update_between [OF ts(1)] by blast+
  then show ?thesis by (auto simp: clock_between_def counted_to_def updatedDateTime_def Let_def)
qed

text \<open>Updates every 1999 milliseconds, as the messages may cause them, make the clock run at half its speed.\<close>

lemma frequent_updates_halve_the_speed:
  assumes "dm_eqDateTime m = Some base" "dm_refDateTime m = t0"
  shows "dm_eqDateTime (fold clock_update (map (\<lambda>k. t0 + 1999 * (int k + 1)) [0..<n]) m) = Some (base + 20 * int n) \<and>
    dm_refDateTime (fold clock_update (map (\<lambda>k. t0 + 1999 * (int k + 1)) [0..<n]) m) = t0 + 1999 * int n"
proof (induction n)
  case (Suc n)
  let ?m = "fold clock_update (map (\<lambda>k. t0 + 1999 * (int k + 1)) [0..<n]) m"
  have r: "dm_refDateTime ?m = t0 + 1999 * int n" "dm_eqDateTime ?m = Some (base + 20 * int n)" using Suc by simp_all
  have f: "fits_clock (dm_refDateTime ?m) (t0 + 1999 * (int n + 1))" unfolding r(1) by simp
  have "1 = (t0 + 1999 * (int n + 1) - dm_refDateTime ?m) div 1000" unfolding r(1) by simp
  from clock_update_forward [OF r(2) f this] show ?case by (simp add: algebra_simps)
qed (use assms in simp)

text \<open>A longer step turns the clock of the game back: \<open>secs * 20\<close> is computed in an \<open>int\<close>.\<close>

lemma long_step_turns_the_clock_back:
  assumes "dm_eqDateTime m = Some base" "dm_refDateTime m = t0"
  shows "dm_eqDateTime (clock_update (t0 + 107374183000) m) = Some (base - 2147483636)"
proof -
  have "secsTo t0 (t0 + 107374183000) = 107374183" by (simp add: secsTo_forward)
  moreover have "sint ((107374183 :: u32) * 20) = - 2147483636" by simp
  ultimately show ?thesis using assms by (simp add: clock_update_def Let_def)
qed

theorem game_clock_lags_a_second_per_update_witness:
  "\<exists>m0 t. timeOfDay (\<lambda>_ _ _ _ _. Some 0) [1, 0, 1, 1, 0, 12, 0, 0] 5000 mkDateTimeMgr = Inr m0 \<and>
     fst (updatedDateTime 8998 (fold clock_update [6999] m0)) = Some t \<and> 1000 * t \<le> 79960 \<and> 79960 < 1000 * t + 40000"
proof -
  obtain m0 where m0: "timeOfDay (\<lambda>_ _ _ _ _. Some 0) [1, 0, 1, 1, 0, 12, 0, 0] 5000 mkDateTimeMgr = Inr m0"
    "dm_eqDateTime m0 = Some 0"
    by (simp add: timeOfDay_def eqtohuint16_def mkDateTimeMgr_def Let_def)
  show ?thesis
    using game_clock_lags_a_second_per_update [OF m0, of "[6999]" 8998] m0(1) by auto
qed

end
