(* ===== verification/EQHandshake.thy ===== *)
theory EQHandshake
  imports EQRouting
begin

text \<open>
  The handshake of a session across \<open>EQPacket\<close>: a session request on the stream of the client's direction, the response
  of the server on its sibling, and the key on its way from the one to the other.
\<close>

section \<open>The two datagrams\<close>

definition session_request :: "udp_packet \<Rightarrow> u32 \<Rightarrow> u32 \<Rightarrow> bool" where
  "session_request u sid ml \<longleftrightarrow> m_netOp (u_base u) = OP_SessionRequest \<and> m_payloadLength (u_base u) = 22 \<and>
     eqntohuint32 (drop 4 (m_payload (u_base u))) = Inr sid \<and> eqntohuint32 (drop 8 (m_payload (u_base u))) = Inr ml"

definition session_response :: "udp_packet \<Rightarrow> u32 \<Rightarrow> u32 \<Rightarrow> u32 \<Rightarrow> bool" where
  "session_response u sid key ml \<longleftrightarrow> m_netOp (u_base u) = OP_SessionResponse \<and> m_payloadLength (u_base u) = 19 \<and>
     eqntohuint32 (m_payload (u_base u)) = Inr sid \<and> eqntohuint32 (drop 4 (m_payload (u_base u))) = Inr key \<and>
     eqntohuint32 (drop 11 (m_payload (u_base u))) = Inr ml"

text \<open>A stream that listens to a datagram: it is not locked on another client, and nothing waits in its cache.\<close>

definition listens :: "pstream \<Rightarrow> udp_packet \<Rightarrow> bool" where
  "listens s u \<longleftrightarrow> foreign_client u s = Inr False \<and> m_cache s = []"

lemma clamp_max_min: "unat (clamp_max ml) = min (unat ml) 1048576"
  by (simp add: clamp_max_def maxPacketSize_def word_less_nat_alt min_def)

lemma session_ops:
  "OP_SessionRequest \<noteq> OP_SessionResponse" "\<not> IS_APP_OPCODE OP_SessionRequest" "\<not> IS_APP_OPCODE OP_SessionResponse"
  "m_netOp b \<in> {OP_SessionRequest, OP_SessionResponse} \<Longrightarrow> \<not> hasCRC b \<and> \<not> hasFlags b"
  by (auto simp: IS_APP_OPCODE_def hasCRC_def hasFlags_def netop_defs)

text \<open>Such a datagram goes straight to \<open>processPacket\<close>, behind the signals that count it.\<close>

definition counted :: "udp_packet \<Rightarrow> pstream \<Rightarrow> pstream" where
  "counted u s = emit (EvRaw (m_rawPayload (u_base u)) (m_rawPayloadLength (u_base u)) (ps_dir s) (m_netOp (u_base u)))
     (emit (EvNumPacket (m_packetCount s + 1)) (s\<lparr>m_packetCount := m_packetCount s + 1\<rparr>))"

lemma foreign_counted: "foreign_client (setSessionKey k u) (emit e (s\<lparr>m_packetCount := n\<rparr>)) = foreign_client u s"
  by (simp add: foreign_client_def setSessionKey_def emit_def getDestPort_def getIPv4DestN_def getSourcePort_def getIPv4SourceN_def
      cong: if_cong)

lemma handle_session_packet:
  assumes "m_netOp (u_base u) \<in> {OP_SessionRequest, OP_SessionResponse}" "listens s u"
    and "processPacket E (Some (setSessionKey (ps_sessionKey s) u)) (u_base u) (counted u s) = Inr t" "m_cache t = []"
  shows "handlePacket E u s = Inr t"
proof -
  have b: "\<not> hasCRC (u_base u)" "\<not> hasFlags (u_base u)" using session_ops(4) [OF assms(1)] by simp_all
  have u: "u_base (setSessionKey k u) = u_base u" "(setSessionKey k u)\<lparr>u_base := u_base u\<rparr> = setSessionKey k u" for k
    by (cases u; simp add: setSessionKey_def)+
  define s1 where "s1 = emit (EvNumPacket (m_packetCount s + 1)) (s\<lparr>m_packetCount := m_packetCount s + 1\<rparr>)"
  define v where "v = setSessionKey (ps_sessionKey s) u"
  have s1: "emit (EvNumPacket (m_packetCount (s\<lparr>m_packetCount := m_packetCount s + 1\<rparr>))) (s\<lparr>m_packetCount := m_packetCount s + 1\<rparr>) = s1"
    "ps_sessionKey s1 = ps_sessionKey s" "counted u s = emit (EvRaw (m_rawPayload (u_base u)) (m_rawPayloadLength (u_base u)) (ps_dir s1) (m_netOp (u_base u))) s1"
    by (simp_all add: s1_def counted_def emit_def)
  have v: "u_base v = u_base u" "v\<lparr>u_base := u_base u\<rparr> = v" by (simp_all add: v_def u)
  have f: "foreign_client v s1 = Inr False" using assms(2) by (simp add: v_def s1_def foreign_counted listens_def)
  have c: "crc_admits v s1 = Inr True" using b by (simp add: crc_admits_def v)
  have d: "decode z m (u_base u) = Inr (True, u_base u)" for z m using b by (simp add: decode_def)
  have "deliver E (Some v) (u_base u) (counted u s) = Inr t"
    using assms(3,4) by (simp add: deliver_def v_def)
  moreover have "\<not> (m_netOp (u_base u) \<noteq> OP_SessionRequest \<and> m_netOp (u_base u) \<noteq> OP_SessionResponse \<and> ps_sessionKey s = 0)"
    using assms(1) by auto
  ultimately show ?thesis
    unfolding handlePacket_def Let_def s1(1) s1(2) v_def [symmetric] v(1) f c d rbind.simps s1(3)
    by (auto simp: c d v s1)
qed

section \<open>What the streams do\<close>

definition quiet_event :: "event \<Rightarrow> bool" where
  "quiet_event e = (case e of EvNumPacket n \<Rightarrow> True | EvRaw p l d op \<Rightarrow> True | EvMaxLength n \<Rightarrow> True | EvTrackingChanged n \<Rightarrow> True
     | _ \<Rightarrow> False)"

lemma datagram_ends_key: "datagram_ends (setSessionKey k u) = datagram_ends u"
  by (simp add: fun_eq_iff datagram_ends_def setSessionKey_def getDestPort_def getIPv4DestN_def getSourcePort_def getIPv4SourceN_def)

lemma handle_request:
  assumes "session_request u sid ml" "listens s u" "datagram_ends u sip sport dip dport"
  shows "\<exists>t evs. handlePacket E u s = Inr t \<and> ps_out t = ps_out s @ evs \<and> list_all quiet_event evs \<and>
    m_sessionId t = sid \<and> m_arqSeqExp t = 0 \<and> m_maxLength t = clamp_max ml \<and> ps_sessionKey t = ps_sessionKey s \<and>
    ps_streamid t = ps_streamid s"
proof -
  let ?u = "setSessionKey (ps_sessionKey s) u"
  have ends: "datagram_ends ?u sip sport dip dport" using assms(3) by (simp add: datagram_ends_key)
  have p: "processPacket E (Some ?u) (u_base u) (counted u s) = process_SessionRequest (Some ?u) (u_base u) (counted u s)"
    unfolding processPacket_def process_body_def Let_def using assms(1)
    by (simp add: session_request_def session_ops) (simp add: netop_defs)
  define r where "r = (emit (EvMaxLength (clamp_max ml)) ((counted u s)\<lparr>m_sessionId := sid, m_maxLength := clamp_max ml\<rparr>))
    \<lparr>m_arqSeqExp := 0, m_arqSeqFound := True\<rparr>"
  define t where "t = (if m_session_tracking_enabled s \<noteq> 0 then r\<lparr>m_sessionClientPort := sport, m_sessionClientIP := sip\<rparr> else r)"
  have "m_session_tracking_enabled r = m_session_tracking_enabled s" by (simp add: r_def counted_def emit_def)
  then have "process_SessionRequest (Some ?u) (u_base u) (counted u s) = Inr t"
    using assms(1) ends
    by (simp add: process_SessionRequest_def session_request_def Let_def cast_udp_def datagram_ends_def t_def)
      (simp add: r_def emit_def)
  then have t: "process_SessionRequest (Some ?u) (u_base u) (counted u s) = Inr t" "m_cache t = m_cache s"
    "ps_out t = ps_out s @ [EvNumPacket (m_packetCount s + 1),
       EvRaw (m_rawPayload (u_base u)) (m_rawPayloadLength (u_base u)) (ps_dir s) (m_netOp (u_base u)), EvMaxLength (clamp_max ml)]"
    "m_sessionId t = sid" "m_arqSeqExp t = 0" "m_maxLength t = clamp_max ml" "ps_sessionKey t = ps_sessionKey s"
    "ps_streamid t = ps_streamid s"
    by (simp_all add: t_def r_def counted_def emit_def)
  have "handlePacket E u s = Inr t"
    by (rule handle_session_packet) (use assms p t in \<open>simp_all add: session_request_def listens_def\<close>)
  then show ?thesis using t by (intro exI [of _ t]) (simp add: quiet_event_def)
qed

lemma handle_response:
  assumes "session_response u sid key ml" "listens s u" "datagram_ends u sip sport dip dport"
  shows "\<exists>t evs es. handlePacket E u s = Inr t \<and> ps_out t = ps_out s @ evs @ EvSessionKey sid (ps_streamid s) key # es \<and>
    list_all quiet_event evs \<and> list_all (\<lambda>e. quiet_event e \<or> (\<exists>a b c. e = EvLockOnClient a b c)) es \<and>
    m_sessionId t = sid \<and> m_arqSeqExp t = 0 \<and> m_maxLength t = clamp_max ml \<and> ps_sessionKey t = key \<and> ps_streamid t = ps_streamid s"
proof -
  let ?u = "setSessionKey (ps_sessionKey s) u"
  have ends: "datagram_ends ?u sip sport dip dport" using assms(3) by (simp add: datagram_ends_key)
  have p: "processPacket E (Some ?u) (u_base u) (counted u s) = process_SessionResponse (Some ?u) (u_base u) (counted u s)"
    unfolding processPacket_def process_body_def Let_def using assms(1)
    by (simp add: session_response_def session_ops) (simp add: netop_defs)
  let ?r = "take_response sid key ml (counted u s)"
  have r: "m_cache ?r = m_cache s" "ps_out ?r = ps_out s @ [EvNumPacket (m_packetCount s + 1),
       EvRaw (m_rawPayload (u_base u)) (m_rawPayloadLength (u_base u)) (ps_dir s) (m_netOp (u_base u)), EvMaxLength (clamp_max ml),
       EvSessionKey sid (ps_streamid s) key]"
    "m_sessionId ?r = sid" "m_arqSeqExp ?r = 0" "m_maxLength ?r = clamp_max ml" "ps_sessionKey ?r = key" "ps_streamid ?r = ps_streamid s"
    by (simp_all add: take_response_def Let_def counted_def emit_def)
  have run: "process_SessionResponse (Some ?u) (u_base u) (counted u s) =
      (if m_session_tracking_enabled ?r \<noteq> 0 then track_response ?u ?r else Inr ?r)"
    using assms(1) by (simp add: process_SessionResponse_def session_response_def Let_def cast_udp_def)
  obtain t es where t: "process_SessionResponse (Some ?u) (u_base u) (counted u s) = Inr t" "m_cache t = m_cache s"
    "ps_out t = ps_out ?r @ es" "list_all (\<lambda>e. quiet_event e \<or> (\<exists>a b c. e = EvLockOnClient a b c)) es"
    "m_sessionId t = sid" "m_arqSeqExp t = 0" "m_maxLength t = clamp_max ml" "ps_sessionKey t = key" "ps_streamid t = ps_streamid s"
  proof (cases "m_session_tracking_enabled ?r = 0")
    case True
    then show ?thesis using that [of ?r "[]"] r run by simp
  next
    case False
    show ?thesis
      using ends False r run
      by (intro that [of "case track_response ?u ?r of Inr t \<Rightarrow> t | Inl e \<Rightarrow> ?r"
            "if ps_streamid s = world2client then [EvTrackingChanged 1]
             else if ps_streamid s = zone2client then [EvLockOnClient sport dport dip, EvTrackingChanged 2] else []"])
        (auto simp: track_response_def datagram_ends_def Let_def emit_def quiet_event_def)
  qed
  have "handlePacket E u s = Inr t"
    by (rule handle_session_packet) (use assms p t in \<open>simp_all add: session_response_def listens_def\<close>)
  then show ?thesis using t r(2)
    by (intro exI [of _ t] exI [of _ "[EvNumPacket (m_packetCount s + 1),
       EvRaw (m_rawPayload (u_base u)) (m_rawPayloadLength (u_base u)) (ps_dir s) (m_netOp (u_base u)), EvMaxLength (clamp_max ml)]"]
        exI [of _ es]) (simp add: quiet_event_def)
qed

section \<open>What \<open>EQPacket\<close> does\<close>

lemma run_quiet: "list_all quiet_event evs \<Longrightarrow> run_ops (on_signal ee now ref) (evs @ es) q = run_ops (on_signal ee now ref) es q"
proof (induction evs)
  case (Cons e evs)
  then have "on_signal ee now ref e q = Inr q" by (cases e) (simp_all add: quiet_event_def on_signal_def)
  then show ?case using Cons by simp
qed simp

lemma run_calm:
  "list_all (\<lambda>e. quiet_event e \<or> (\<exists>a b c. e = EvLockOnClient a b c)) es \<Longrightarrow>
     \<exists>q'. run_ops (on_signal ee now ref) es q = Inr q' \<and> q_streams q' = q_streams q"
proof (induction es arbitrary: q)
  case (Cons e es)
  have "\<exists>q1. on_signal ee now ref e q = Inr q1 \<and> q_streams q1 = q_streams q"
  proof (cases "quiet_event e")
    case True
    then show ?thesis by (cases e) (simp_all add: quiet_event_def on_signal_def)
  next
    case False
    then obtain a b c where "e = EvLockOnClient a b c" using Cons.prems by auto
    then show ?thesis by (cases ref) (simp_all add: on_signal_def lockOnClient_def Let_def eq_emit_def)
  qed
  then show ?case using Cons by fastforce
qed simp

text \<open>The ends of a session: the streams of the two directions, of the host or of one client.\<close>

definition ref_id :: "stream_ref \<Rightarrow> stream_id" where
  "ref_id ref = (case ref of GlobalStream i \<Rightarrow> i | BoxStream p i \<Rightarrow> i)"

definition other_end :: "stream_ref \<Rightarrow> stream_ref" where
  "other_end ref = (case ref of GlobalStream i \<Rightarrow> GlobalStream (sibling i) | BoxStream p i \<Rightarrow> BoxStream p (sibling i))"

text \<open>How the key reaches the stream of the other direction.\<close>

lemma key_arrives:
  assumes "ref_id c = client2world \<or> ref_id c = client2zone" "q_streams q c = Some cs" "q_streams q (other_end c) = Some ss"
    and "ps_streamid cs = ref_id c" "ps_streamid ss = ref_id (other_end c)"
  shows "\<exists>q'. on_signal ee now (other_end c) (EvSessionKey sid (ps_streamid ss) key) q = Inr q' \<and>
    q_streams q' c = Some (if m_sessionId cs = sid then cs\<lparr>ps_sessionKey := key\<rparr> else cs) \<and> q_streams q' (other_end c) = Some ss"
proof -
  have ids: "sibling (ref_id c) \<noteq> ref_id c" "sibling (sibling (ref_id c)) = ref_id c" using assms(1) by auto
  have cs: "receiveSessionKey sid (sibling (ref_id c)) key cs = (if m_sessionId cs = sid then cs\<lparr>ps_sessionKey := key\<rparr> else cs)"
    using ids(1) assms(4) by (simp add: receiveSessionKey_def)
  have ss: "receiveSessionKey sid (ps_streamid ss) key ss = ss" by (simp add: receiveSessionKey_def)
  show ?thesis
  proof (cases c)
    case (GlobalStream i)
    have id: "ps_streamid ss = sibling i" "ref_id c = i" using assms(5) GlobalStream by (simp_all add: ref_id_def other_end_def)
    show ?thesis
      using assms(2,3) cs ss id
      by (simp add: GlobalStream on_signal_def other_end_def dispatchSessionKey_def on_globals_def)
  next
    case (BoxStream p i)
    have id: "ps_streamid ss = sibling i" "ref_id c = i" using assms(5) BoxStream by (simp_all add: ref_id_def other_end_def)
    show ?thesis
      using assms(2,3) cs ids id
      by (simp add: BoxStream on_signal_def other_end_def siblingSessionKey_def Let_def)
  qed
qed

text \<open>C39: A session request on the stream of the client's direction and then the server's response on its sibling are
  both processed, when the two datagrams have their ends, the streams exist, are not locked on another client and have
  empty caches. Afterwards both directions expect packet 0; the client's has the session of the request and the length
  it proposed, the server's the session, the key and the length of the response, both lengths bounded by a mebibyte; and
  the client's direction has the server's key exactly when the response names the session of the request, and otherwise
  the key it had. So on one session the two directions agree.\<close>

theorem handshake_agrees:
  assumes "ref_id c = client2world \<or> ref_id c = client2zone" "q_streams q c = Some cs" "q_streams q (other_end c) = Some ss"
    and "ps_streamid cs = ref_id c" "ps_streamid ss = ref_id (other_end c)"
    and "session_request u sid ml" "listens cs u" "datagram_ends u a1 a2 a3 a4"
    and "session_response v sid' key ml'" "listens ss v" "datagram_ends v b1 b2 b3 b4"
  shows "\<exists>q1 q2 c2 s2. feed ee now c u q = Inr q1 \<and> feed ee now' (other_end c) v q1 = Inr q2 \<and>
    q_streams q2 c = Some c2 \<and> q_streams q2 (other_end c) = Some s2 \<and>
    m_arqSeqExp c2 = 0 \<and> m_arqSeqExp s2 = 0 \<and> m_sessionId c2 = sid \<and> m_sessionId s2 = sid' \<and>
    unat (m_maxLength c2) = min (unat ml) 1048576 \<and> unat (m_maxLength s2) = min (unat ml') 1048576 \<and>
    ps_sessionKey s2 = key \<and> ps_sessionKey c2 = (if sid = sid' then key else ps_sessionKey cs)"
proof -
  obtain t evs where t: "handlePacket (ref_env ee q c) u cs = Inr t" "ps_out t = ps_out cs @ evs" "list_all quiet_event evs"
    "m_sessionId t = sid" "m_arqSeqExp t = 0" "m_maxLength t = clamp_max ml" "ps_sessionKey t = ps_sessionKey cs" "ps_streamid t = ps_streamid cs"
    using handle_request [OF assms(6-8)] by blast
  define q1 where "q1 = q\<lparr>q_streams := (q_streams q)(c \<mapsto> t)\<rparr>"
  have feed1: "feed ee now c u q = Inr q1"
    using t(1-3) run_quiet [of evs ee now c "[]"] assms(2) by (simp add: feed_def stream_at_def q1_def)
  have ne: "other_end c \<noteq> c" using assms(1) by (cases c) (auto simp: other_end_def ref_id_def)
  then have ss: "q_streams q1 (other_end c) = Some ss" "q_streams q1 c = Some t" using assms(3) by (simp_all add: q1_def)
  obtain w evs' es where w: "handlePacket (ref_env ee q1 (other_end c)) v ss = Inr w"
    "ps_out w = ps_out ss @ evs' @ EvSessionKey sid' (ps_streamid ss) key # es" "list_all quiet_event evs'"
    "list_all (\<lambda>e. quiet_event e \<or> (\<exists>a b c. e = EvLockOnClient a b c)) es"
    "m_sessionId w = sid'" "m_arqSeqExp w = 0" "m_maxLength w = clamp_max ml'" "ps_sessionKey w = key" "ps_streamid w = ps_streamid ss"
    using handle_response [OF assms(9-11)] by blast
  let ?q = "q1\<lparr>q_streams := (q_streams q1)(other_end c \<mapsto> w)\<rparr>"
  have "q_streams ?q c = Some t" "q_streams ?q (other_end c) = Some w" using ss ne by simp_all
  from key_arrives [OF assms(1) this, of ee now' sid' key] t(4,8) w(9) assms(4,5)
  obtain q2 where q2: "on_signal ee now' (other_end c) (EvSessionKey sid' (ps_streamid ss) key) ?q = Inr q2"
    "q_streams q2 c = Some (if sid = sid' then t\<lparr>ps_sessionKey := key\<rparr> else t)" "q_streams q2 (other_end c) = Some w" by auto
  obtain q3 where q3: "run_ops (on_signal ee now' (other_end c)) es q2 = Inr q3" "q_streams q3 = q_streams q2"
    using run_calm [OF w(4)] by blast
  have "feed ee now' (other_end c) v q1 = Inr q3"
    using w(1,2) ss q2(1) q3(1) by (simp add: feed_def stream_at_def run_quiet [OF w(3)])
  then show ?thesis
    using feed1 q2(2,3) q3(2) t(4-7) w(5-8) by (simp add: clamp_max_min)
qed

section \<open>A run\<close>

text \<open>The first zone session of a client: 10.0.0.0:6000 asks 10.0.1.20:7000 for session 9.\<close>

definition sample_ask :: udp_packet where
  "sample_ask = sample_zone ([0, 1, 0, 0, 0, 2, 0, 0, 0, 9, 0, 0, 2, 0] @ replicate 10 0)"

definition sample_answer :: udp_packet where
  "sample_answer = sample_udp (raw_datagram [10, 0, 1, 20] 7000 [10, 0, 0, 0] 6000
     [0, 2, 0, 0, 0, 9, 0, 0, 0, 77, 2, 0, 0, 0, 0, 2, 0, 0, 0, 0, 0])"

theorem handshake_agrees_witness:
  "\<exists>q1 q2 c2 s2. feed sample_eq_env 1000 (GlobalStream client2zone) sample_ask (mkEQPacket 512 True 10 False) = Inr q1 \<and>
     feed sample_eq_env 1001 (GlobalStream zone2client) sample_answer q1 = Inr q2 \<and>
     q_streams q2 (GlobalStream client2zone) = Some c2 \<and> q_streams q2 (GlobalStream zone2client) = Some s2 \<and>
     ps_sessionKey c2 = 77 \<and> ps_sessionKey s2 = 77 \<and> m_sessionId c2 = 9 \<and> m_sessionId s2 = 9"
proof -
  let ?q = "mkEQPacket 512 True 10 False" and ?c = "GlobalStream client2zone"
  let ?s = "\<lambda>i. setSessionTracking 1 (mkPacketStream i (stream_dir i) 512)"
  have s: "q_streams ?q ?c = Some (?s client2zone)" "q_streams ?q (other_end ?c) = Some (?s zone2client)"
    by (simp_all add: mkEQPacket_def eq_session_tracking_def on_globals_def eq_emit_def other_end_def bool_u8_def)
  have i: "ref_id ?c = client2world \<or> ref_id ?c = client2zone" "ps_streamid (?s client2zone) = ref_id ?c"
    "ps_streamid (?s zone2client) = ref_id (other_end ?c)" by code_simp+
  have u: "session_request sample_ask 9 512" "datagram_ends sample_ask 10 6000 0x1401000a 7000" by code_simp+
  have v: "session_response sample_answer 9 77 512" "datagram_ends sample_answer 0x1401000a 7000 10 6000" by code_simp+
  have l: "listens (?s client2zone) sample_ask" "listens (?s zone2client) sample_answer" by code_simp+
  show ?thesis
    using handshake_agrees [OF i(1) s i(2,3) u(1) l(1) u(2) v(1) l(2) v(2), of sample_eq_env 1000 1001]
    by (auto simp: other_end_def)
qed

end
