(* ===== verification/Spec2Isabelle.thy ===== *)
theory Spec2Isabelle
  imports NetStream BitStream StreamSession StreamCombined RemoteCapture ZoneLaws Category SpawnPoints EQStrLaws SpellTimer
    GuildLaws MessageFilters ItemLaws ZoneMgrLaws DateTimeMgr EQHandshake
begin

text \<open>
  Verification development of scry, a daemon that watches the network traffic of a game client
  and publishes what it sees. This development covers the path of a frame from the capture to the
  handlers of application packets, the handlers that keep the zone around the player, his buffs, items and guild, and the
  settings, rules, tables and texts they use.

  \<^bold>\<open>The program.\<close> A capture source (\<open>src/packetcapture.cpp\<close>, \<open>src/remotecapture.cpp\<close>) puts frames
  into a locked queue (\<open>src/packetcaptureprovider.cpp\<close>). \<open>EQPacket::processPackets\<close>
  (\<open>src/packet.cpp\<close>) takes them out, parses the IP and UDP headers and the protocol header
  (\<open>src/packetformat.cpp\<close>), decides which client the datagram belongs to with the help of the
  registry of clients (\<open>src/boxregistry.cpp\<close>) and hands it to one of the streams of that client
  (\<open>src/packetstream.cpp\<close>). A stream keeps one direction of one session: it checks the CRC
  (\<open>src/util.cpp\<close>, \<open>src/crctab.h\<close>), inflates, unrolls combined packets, puts numbered packets in
  order with a cache, reassembles fragments (\<open>src/packetfragment.cpp\<close>) and dispatches every
  application packet by its opcode and size (\<open>src/packetinfo.cpp\<close>). Handlers read the payload with
  \<open>NetStream\<close> and \<open>BitStream\<close> (\<open>src/netstream.cpp\<close>). What a stream learns about its session (key,
  client port, the end of the session, names of characters and of the zone server) goes back to
  \<open>EQPacket\<close>, to the sibling streams and to the registry (\<open>src/namepromoter.cpp\<close>,
  \<open>src/zoneserverobserver.cpp\<close>).

  Behind the dispatch, \<open>SpawnShell\<close> (\<open>src/spawnshell.cpp\<close>) keeps the spawns, doors and drops of the zone
  (\<open>src/spawn.cpp\<close>) from what a Rust library decodes; the player (\<open>src/player.cpp\<close>) is one of the spawns, and
  \<open>GroupMgr\<close> (\<open>src/group.cpp\<close>) follows the members of the group through the signals of the shell. \<open>SpawnMonitor\<close>
  (\<open>src/spawnmonitor.cpp\<close>) learns from them where and how often mobs appear. The rules of \<open>FilterMgr\<close>
  (\<open>src/filtermgr.cpp\<close>, \<open>src/filter.cpp\<close>) give every spawn a mask of flags, and \<open>CategoryMgr\<close> (\<open>src/category.cpp\<close>)
  sorts spawns into categories kept in the preferences (\<open>src/tomlpreferences.cpp\<close>); clients change rules and
  labels through \<open>SessionAdapter\<close> (\<open>src/sessionadapter.cpp\<close>) and settings through \<open>PrefsBroker\<close>
  (\<open>src/prefsbroker.cpp\<close>).

  \<open>ZoneMgr\<close> (\<open>src/zonemgr.cpp\<close>) knows the zone and makes the profile of the player when he arrives; \<open>SpellShell\<close>
  (\<open>src/spellshell.cpp\<close>) keeps his buffs and the effects on mobs, with the table of spells (\<open>src/spells.cpp\<close>);
  \<open>ItemCache\<close> (\<open>src/itemcache.cpp\<close>, \<open>src/itempacket.cpp\<close>) the items seen and what he wears; \<open>GuildMgr\<close> and
  \<open>GuildShell\<close> (\<open>src/guild.cpp\<close>, \<open>src/guildshell.cpp\<close>) the names of guilds and the roster of his own; \<open>EQStr\<close>
  (\<open>src/eqstr.cpp\<close>) puts values into the messages of the server, \<open>MessageFilters\<close> (\<open>src/messagefilter.cpp\<close>) sorts
  messages by patterns, and \<open>DateTimeMgr\<close> (\<open>src/datetimemgr.cpp\<close>) is the clock of the game.

  \<^bold>\<open>Theories.\<close>
    \<^item> \<open>Prelude\<close>: machine integers, faults, the checked memory read \<open>rd\<close>, the result type with its
      bind \<open>rbind\<close>, and the locales \<open>invariant_machine\<close> and \<open>total_machine\<close> for runs of operations under an invariant. Every
      pointer dereference of the modelled code goes through \<open>rd\<close>, so that reading past an allocation
      is the value \<open>Inl OutOfBounds\<close>.
    \<^item> \<open>Tables\<close>: \<open>QHash\<close> and \<open>std::map\<close> as association lists, behind the locale of the laws their
      clients use.
    \<^item> \<open>PacketCommon\<close> (\<open>src/packetcommon.h\<close>): byte order, ports, stream and direction identifiers.
    \<^item> \<open>Crc\<close>: \<open>calcCRC32\<close> and \<open>calcCRC16\<close> with the shipped table, their equivalence with the bit
      serial definition, and the errors they detect.
    \<^item> \<open>NetStream\<close>, \<open>BitStream\<close>: the readers, their bounds and the values they return.
    \<^item> \<open>PacketFormat\<close>: \<open>EQProtocolPacket\<close> and \<open>EQUDPIPPacketFormat\<close>: parsing, the window of the
      payload, inflating (zlib is a parameter), copying; the builders of frames are the inverse.
    \<^item> \<open>PacketFragment\<close>: \<open>EQPacketFragmentSequence\<close> and its round trip and overflows.
    \<^item> \<open>PacketInfo\<close>: type sizes, gates, opcodes, dispatch lists and the opcode table with its file
      format; the TOML parser is a parameter.
    \<^item> \<open>PacketStream\<close>: \<open>EQPacketStream\<close>, every function; \<open>StreamInvariant\<close>: what every step of a
      stream keeps; \<open>StreamWindow\<close>: the receive window and the end of the recursion;
      \<open>StreamOrder\<close>: refinement of a receiver with unbounded numbers that delivers in order and once;
      \<open>StreamSession\<close>: muting, admission, disconnects, and the invariant along runs that end without a fault; \<open>StreamCombined\<close>: unrolling as
      the inverse of combining.
    \<^item> \<open>BoxRegistry\<close>: \<open>Box\<close>, \<open>Character\<close>, \<open>BoxRegistry\<close>, \<open>NamePromoter\<close> and \<open>ZoneServerObserver\<close>
      with the step relation of the registry and its invariant. The hook that gives a new client its
      streams is the locale \<open>box_hook\<close>, interpreted on the hook \<open>EQPacket\<close> installs.
    \<^item> \<open>EQPacket\<close>: the daemon's packet object: streams, routing, session signals, handoff file;
      \<open>EQRouting\<close>: the traffic of a client reaches that client only; \<open>EQSessions\<close>: handoff,
      binding and eviction; \<open>EQHandshake\<close>: a session request and its response through both streams of a client,
      with the key that goes from one to the other as a signal.
    \<^item> \<open>RemoteCapture\<close>: \<open>PacketCaptureProviderThread\<close> and \<open>RemoteCaptureThread\<close>: the queue and the
      link to a remote agent.
    \<^item> \<open>Spawn\<close>: \<open>Item\<close>, \<open>Spawn\<close>, \<open>Door\<close> and \<open>Drop\<close> with the wire form of a spawn; construction, update, death,
      the track and the predicted position.
    \<^item> \<open>GroupMgr\<close>: the slots of the group and its counts. The search for a spawn by name, which the group asks
      the shell for, is the locale \<open>spawn_lookup\<close>, interpreted in \<open>ZoneWorld\<close> on the shell's own search.
    \<^item> \<open>SpawnShell\<close>: the store of items, the tables, the signals and every handler of the shell, with the part of
      the player that is its spawn. A pointer to an item is an address; \<open>wd_heap\<close> has no object at an
      address that was deleted, and following it is the fault \<open>UseAfterFree\<close>. \<open>PlayerSpawn\<close>: the slots of \<open>Player\<close> as far as
      they touch its spawn, its names and its last kill, and the spawns and the player that are saved and restored.
    \<^item> \<open>ZoneWorld\<close>: the invariant of the zone and what the primitive steps keep; \<open>ZoneSteps\<close>: every handler keeps it
      and returns (\<open>shroudSpawn\<close>, which can read past its packet, keeps it when it returns), and the relation of reachable states; \<open>ZoneLaws\<close>: what the handlers promise.
    \<^item> \<open>QtText\<close>: the operations of \<open>QString\<close> the settings use: decimal numbers, comparison without case, trimming,
      searching and replacing.
    \<^item> \<open>Prefs\<close>: \<open>SeqColor\<close> and \<open>TomlPreferences\<close>: three layers of settings, their files and the import of the old
      form. The contract of a section of settings, a text per name, is the locale \<open>text_settings\<close>, interpreted on
      the preferences; \<open>Category\<close> rests on it.
    \<^item> \<open>Filters\<close>: \<open>FilterItem\<close>, \<open>Filter\<close>, \<open>Filters\<close>, \<open>FilterTypes\<close>, the handler of the XML reader, \<open>FilterMgr\<close> and the
      requests of clients; \<open>FilterLaws\<close>: the reachable states of the manager, the exact meaning of a flag, what
      requests do and which of them fail, and the round trip through the file; \<open>XmlText\<close>: XML documents of elements and
      character data, the contract \<open>xml_reader\<close> of a reader of them, and a scanner that satisfies it.
    \<^item> \<open>Category\<close>: \<open>Category\<close> and \<open>CategoryMgr\<close>, and the categories a client is told for an item.
    \<^item> \<open>SpawnMonitor\<close>: \<open>SpawnPoint\<close> and \<open>SpawnMonitor\<close> with their file; \<open>SpawnPoints\<close>: its runs never follow a
      pointer to a deleted point, respawn times are measured, and points survive their file.

    \<^item> \<open>EQStr\<close>: the string file and \<open>formatMessage\<close>; \<open>EQStrLaws\<close>: what a message is when its values cannot start a
      placeholder, and the values for which formatting never ends.
    \<^item> \<open>Spells\<close>: \<open>Spell\<close>, \<open>Spells\<close> and the durations. \<open>SpellShell\<close>: \<open>SpellItem\<close>, \<open>SpellShell\<close>, its signals and its
      timer; \<open>SpellShellLaws\<close>: signals and lists agree, the timer runs while there is a buff; \<open>SpellTimer\<close>: ticks
      leave what is permanent, and what deleting the last buff does to the effects.
    \<^item> \<open>Guilds\<close>: \<open>GuildMgr\<close> with its file, \<open>GuildMember\<close> and \<open>GuildShell\<close>; \<open>GuildLaws\<close>: names are kept and survive the
      file, rosters end.
    \<^item> \<open>MessageFilters\<close>: \<open>MessageFilter\<close>, \<open>MessageFilters\<close> and \<open>PrefsBroker\<close>, and that slots and settings agree.
    \<^item> \<open>Items\<close>: \<open>parseItemPacket\<close> and \<open>ItemCache\<close> with its JSON file; \<open>ItemLaws\<close>: the parser stays inside its packet and
      is the inverse of a builder, the cache survives its file, the worn slots are sound.
    \<^item> \<open>PlayerProfile\<close>: the profile \<open>ZoneMgr\<close> makes and the search for the buffs in the packet; \<open>ProfileLaws\<close>: the
      search stays inside, ends and finds the best run of marked slots, over the relation \<open>visits\<close> of the offsets it
      looks at.
    \<^item> \<open>ZoneMgr\<close>: \<open>ZoneMgr\<close> and \<open>ZoneServerMgr\<close>; \<open>ZoneMgrLaws\<close>: signals tell the zone, where its name comes from, zone
      points are found.
    \<^item> \<open>DateTimeMgr\<close>: the clock of the game and how far it lags.

  \<^bold>\<open>Conventions.\<close> A pointer into a buffer is the list of bytes readable from it to the end of the
  allocation; a C++ integer is a word of its width, or \<open>nat\<close> where the code's type is
  \<open>size_t\<close> and no wrap-around is possible; faults (reading out of bounds, dividing by zero, using
  freed memory, a failed cast) are values of \<open>fault\<close>. Signals a stream emits are events of a list,
  handled after the datagram in the order in which they were emitted, as the connections of
  \<open>EQPacket\<close> do; the handlers of application packets are opaque. The clock is read once per datagram.

  \<^bold>\<open>Bounds and fuel.\<close> The recursion of \<open>processPacket\<close> into subpackets has fuel equal to the length
  of the payload, which is enough since every subpacket is shorter than its packet
  (\<open>processPacket_recursion_ends\<close>). The search of \<open>processCache\<close> after giving up walks at most the
  65536 sequence numbers (\<open>giving_up_finds_first_cached\<close>). The packets taken from a cache for one
  datagram are bounded by the number of cached packets, which \<open>env_fuel\<close> exceeds. A fragment that
  completes inside the buffer that is being dispatched stops the model with \<open>ReentrantFragment\<close>: the
  code would dispatch a payload in a buffer that is being overwritten. The loops of the profile, of the item parser and
  of the roster are recursive functions with a measure or partial functions that are proved to return;
  \<open>formatMessage\<close> is a partial function that is proved to run for ever on some values.

  \<^bold>\<open>Parameters.\<close> zlib's \<open>uncompress\<close>, SHA-256, the TOML parser, \<open>QString::toUShort\<close>, the compiled
  struct sizes and the overrides of the Rust backend.

  The decoders of the Rust library, the masks of the filters, the names of guilds, the conversions of
  floating-point numbers, the order in which a \<open>QHash\<close> is visited, and what fresh memory holds are
  fields of the environment of a zone handler (\<open>env\<close>); \<open>env_ok\<close> says that a visit is a permutation. Likewise the
  conversions of \<open>QString\<close> to numbers, the TOML library, the XML reader and the file system are fields of
  \<open>prefs_lib\<close>, \<open>regex_lib\<close>, \<open>filter_env\<close>, \<open>monitor_env\<close>, \<open>text_lib\<close>, \<open>spell_text\<close>, \<open>guild_lib\<close>, \<open>item_lib\<close> (with the
  JSON library) and \<open>zone_env\<close> (with the table of zones); the round trips through a file assume that the
  library reads what its own writer prints (JSON, TOML, text streams); the rules of \<open>FilterMgr\<close>, which the program prints
  itself, are read by any reader that satisfies the contract \<open>xml_reader\<close> for all documents.

  \<^bold>\<open>Not modelled.\<close> Sockets, threads, files and the pcap library; log and console output; the
  big-endian build; statistics, experience, money, skills and the spell book of the player; maps, the texts of chat and combat messages, and
  most of the encoding for the clients of the daemon; the bytes of the files of spawns and of the player; the
  tables of names (\<open>src/staticspells.h\<close>, \<open>src/races.h\<close>, \<open>src/zones.h\<close>, \<open>src/weapons*.h\<close>); the registration
  of handlers in \<open>src/backend\<close>, whose payloads are decoded by a Rust library that is not part of the
  repository.
\<close>

end
